(* ===== verification/Room_Prelude.thy ===== *)
theory Room_Prelude
  imports Complex_Main "HOL-Library.Word" "HOL-Library.Sublist"
begin

text \<open>
  The vocabulary every component of the Room model shares: JavaScript strings as lists of
  UTF-16 code units, JavaScript values as they arrive over the wire, insertion-ordered
  dictionaries (a \<open>Record\<close> or a \<open>Map\<close>) and insertion-ordered sets (a \<open>Set\<close>).

  Conventions. An \<open>undefined\<close> field is \<open>None\<close>. A \<open>Record\<close> or a \<open>Map\<close> is an association
  list in enumeration order with distinct keys. A number that arrives from outside is a
  \<open>jnum\<close>; a counter or a time the Room allocates itself is an \<open>int\<close>.
\<close>

named_theorems js_defs \<open>definitions of the string and value vocabulary\<close>
named_theorems wf_intros \<open>well-formedness of the results of operations\<close>

subsection \<open>Strings\<close>

type_synonym code_unit = "16 word"
type_synonym jstr = "code_unit list"

text \<open>A string literal of the source (all of them are ASCII).\<close>

definition lit :: "string \<Rightarrow> jstr" where
  "lit s = map of_char s"

text \<open>For evaluation: the code unit of a character without arithmetic on words.\<close>

definition lit_unit :: "char \<Rightarrow> code_unit" where
  "lit_unit c = of_char c"

lemma lit_unit_code [code]: "Word.the_int (lit_unit c) = of_char c"
  unfolding lit_unit_def by (cases c) (simp split: bool.split)

lemma lit_code [code]: "lit s = map lit_unit s"
  by (simp add: lit_def lit_unit_def)

lemma of_char_code_unit_inj: "(of_char c :: code_unit) = of_char d \<longleftrightarrow> c = d"
proof
  assume eq: "(of_char c :: code_unit) = of_char d"
  have e: "unat (of_char x :: code_unit) = (of_char x :: nat)" for x :: char
    by (cases x) (simp add: of_char_def split: if_splits)
  with eq show "c = d" by (metis of_char_eq_iff)
qed simp

lemma lit_eq_iff [simp]: "lit a = lit b \<longleftrightarrow> a = b"
proof
  assume "lit a = lit b"
  then show "a = b"
    by (auto simp: lit_def list_eq_iff_nth_eq of_char_code_unit_inj dest: map_eq_imp_length_eq)
qed simp

lemma length_lit [simp]: "length (lit s) = length s"
  by (simp add: lit_def)

lemma lit_Nil [simp]: "lit [] = []"
  by (simp add: lit_def)

lemma lit_eq_Nil [simp]: "lit s = [] \<longleftrightarrow> s = []" "[] = lit s \<longleftrightarrow> s = []"
  by (auto simp: lit_def)

text \<open>ECMAScript's \<open>WhiteSpace\<close> and \<open>LineTerminator\<close>, the units \<open>trim\<close> removes.\<close>

definition is_ws :: "code_unit \<Rightarrow> bool" where
  "is_ws c \<longleftrightarrow> (0x9 \<le> c \<and> c \<le> 0xd) \<or> c = 0x20 \<or> c = 0xa0 \<or> c = 0x1680 \<or>
     (0x2000 \<le> c \<and> c \<le> 0x200a) \<or> c = 0x2028 \<or> c = 0x2029 \<or> c = 0x202f \<or>
     c = 0x205f \<or> c = 0x3000 \<or> c = 0xfeff"

definition js_trim :: "jstr \<Rightarrow> jstr" where
  "js_trim s = rev (dropWhile is_ws (rev (dropWhile is_ws s)))"

text \<open>The class \<open>[\u0000-\u001f\u007f]\<close> the source folds or refuses.\<close>

definition is_control :: "code_unit \<Rightarrow> bool" where
  "is_control c \<longleftrightarrow> c \<le> 0x1f \<or> c = 0x7f"

definition is_lower :: "code_unit \<Rightarrow> bool" where
  "is_lower c \<longleftrightarrow> 0x61 \<le> c \<and> c \<le> 0x7a"

definition is_upper :: "code_unit \<Rightarrow> bool" where
  "is_upper c \<longleftrightarrow> 0x41 \<le> c \<and> c \<le> 0x5a"

definition is_digit :: "code_unit \<Rightarrow> bool" where
  "is_digit c \<longleftrightarrow> 0x30 \<le> c \<and> c \<le> 0x39"

definition is_alnum :: "code_unit \<Rightarrow> bool" where
  "is_alnum c \<longleftrightarrow> is_lower c \<or> is_upper c \<or> is_digit c"

text \<open>The class \<open>[A-Za-z0-9._:-]\<close> of every correlation id the Room accepts.\<close>

definition is_id_unit :: "code_unit \<Rightarrow> bool" where
  "is_id_unit c \<longleftrightarrow> is_alnum c \<or> c = 0x2e \<or> c = 0x5f \<or> c = 0x3a \<or> c = 0x2d"

lemmas unit_classes = is_ws_def is_control_def is_lower_def is_upper_def is_digit_def
  is_alnum_def is_id_unit_def

declare unit_classes [js_defs] js_trim_def [js_defs] lit_def [js_defs]

lemma id_unit_not_ws: "is_id_unit c \<Longrightarrow> \<not> is_ws c"
  by (auto simp: unit_classes word_le_nat_alt word_unat_eq_iff)

lemma dropWhile_none: "(\<And>x. x \<in> set xs \<Longrightarrow> \<not> P x) \<Longrightarrow> dropWhile P xs = xs"
  by (cases xs) auto

lemma js_trim_no_ws: "(\<And>c. c \<in> set s \<Longrightarrow> \<not> is_ws c) \<Longrightarrow> js_trim s = s"
proof -
  assume no: "\<And>c. c \<in> set s \<Longrightarrow> \<not> is_ws c"
  then have "dropWhile is_ws s = s" "dropWhile is_ws (rev s) = rev s"
    by (auto intro!: dropWhile_none)
  then show ?thesis by (simp add: js_trim_def)
qed

lemma length_js_trim: "length (js_trim s) \<le> length s"
proof -
  have "length (js_trim s) \<le> length (dropWhile is_ws s)"
    unfolding js_trim_def by (metis length_dropWhile_le length_rev)
  also have "\<dots> \<le> length s" by (rule length_dropWhile_le)
  finally show ?thesis .
qed

lemma set_js_trim: "set (js_trim s) \<subseteq> set s"
  unfolding js_trim_def by (auto dest!: set_dropWhileD)

lemma hd_dropWhile_not: "dropWhile P xs \<noteq> [] \<Longrightarrow> \<not> P (hd (dropWhile P xs))"
  by (induction xs) auto

lemma dropWhile_idem: "dropWhile P (dropWhile P xs) = dropWhile P xs"
  by (induction xs) auto

lemma last_rev_dropWhile: "ys \<noteq> [] \<Longrightarrow> dropWhile P (rev ys) \<noteq> [] \<Longrightarrow>
    hd (rev (dropWhile P (rev ys))) = hd ys"
proof -
  assume ys: "ys \<noteq> []" and ne: "dropWhile P (rev ys) \<noteq> []"
  have "rev ys = takeWhile P (rev ys) @ dropWhile P (rev ys)" by simp
  then have "ys = rev (dropWhile P (rev ys)) @ rev (takeWhile P (rev ys))"
    by (metis rev_append rev_rev_ident)
  with ne show ?thesis by (metis hd_append2 rev_is_Nil_conv)
qed

lemma js_trim_idem [simp]: "js_trim (js_trim s) = js_trim s"
proof -
  let ?d = "dropWhile is_ws s"
  let ?t = "rev (dropWhile is_ws (rev ?d))"
  have keep: "dropWhile is_ws ?t = ?t"
  proof (cases "dropWhile is_ws (rev ?d) = []")
    case True
    then show ?thesis by (simp only: rev.simps dropWhile.simps)
  next
    case False
    then have "?d \<noteq> []" by (metis dropWhile.simps(1) rev.simps(1))
    then have "\<not> is_ws (hd ?t)"
      using last_rev_dropWhile [of ?d is_ws] False hd_dropWhile_not by metis
    with False show ?thesis by (cases ?t) auto
  qed
  show ?thesis
    unfolding js_trim_def keep by (simp add: dropWhile_idem)
qed

subsection \<open>Numbers and values\<close>

text \<open>
  A number is a double: one of the special values or a finite value, which is a rational.
  The Room only compares, truncates and bounds the numbers it is handed; it does its own
  arithmetic on safe integers, where double arithmetic is exact.
\<close>

datatype jnum = Fin rat | NaN | PosInf | NegInf

definition is_safe_integer :: "jnum \<Rightarrow> bool" where
  "is_safe_integer n = (case n of
     Fin q \<Rightarrow> of_int \<lfloor>q\<rfloor> = q \<and> \<bar>q\<bar> \<le> 9007199254740991 | _ \<Rightarrow> False)"

definition is_finite_num :: "jnum \<Rightarrow> bool" where
  "is_finite_num n = (case n of Fin _ \<Rightarrow> True | _ \<Rightarrow> False)"

definition jint :: "int \<Rightarrow> jnum" where
  "jint i = Fin (of_int i)"

text \<open>The integer value of a safe integer (0 otherwise; used behind the check only).\<close>

definition the_int_of :: "jnum \<Rightarrow> int" where
  "the_int_of n = (case n of Fin q \<Rightarrow> \<lfloor>q\<rfloor> | _ \<Rightarrow> 0)"

lemma the_int_of_jint [simp]: "the_int_of (jint i) = i"
  by (simp add: the_int_of_def jint_def)

lemma is_safe_integer_jint [simp]: "is_safe_integer (jint i) \<longleftrightarrow> \<bar>i\<bar> \<le> 9007199254740991"
proof -
  have "\<bar>of_int i\<bar> \<le> (9007199254740991 :: rat) \<longleftrightarrow> of_int \<bar>i\<bar> \<le> (of_int 9007199254740991 :: rat)"
    by simp
  then show ?thesis by (simp only: is_safe_integer_def jint_def jnum.case floor_of_int of_int_le_iff) simp
qed

lemma safe_integer_is_jint: "is_safe_integer n \<Longrightarrow> jint (the_int_of n) = n"
  by (cases n) (auto simp: is_safe_integer_def the_int_of_def jint_def)

text \<open>
  A value that arrives as JSON (or through \<open>postMessage\<close>): plain data. The properties of an
  object are listed in enumeration order.
\<close>

datatype js = JUndefined | JNull | JBool bool | JNum jnum | JStr jstr
  | JArr "js list" | JObj "(jstr \<times> js) list"

text \<open>\<open>v.key\<close>: an absent property, or a property of a non-object, is \<open>undefined\<close>.\<close>

definition js_get :: "js \<Rightarrow> string \<Rightarrow> js" where
  "js_get v k = (case v of
     JObj ps \<Rightarrow> (case map_of ps (lit k) of Some w \<Rightarrow> w | None \<Rightarrow> JUndefined)
   | _ \<Rightarrow> JUndefined)"

definition js_keys :: "js \<Rightarrow> jstr list" where
  "js_keys v = (case v of JObj ps \<Rightarrow> map fst ps | _ \<Rightarrow> [])"

text \<open>\<open>typeof v === "object" && v !== null && !Array.isArray(v)\<close>.\<close>

definition is_record :: "js \<Rightarrow> bool" where
  "is_record v = (case v of JObj _ \<Rightarrow> True | _ \<Rightarrow> False)"

text \<open>\<open>v && typeof v === "object"\<close>: arrays pass.\<close>

definition is_objectish :: "js \<Rightarrow> bool" where
  "is_objectish v = (case v of JObj _ \<Rightarrow> True | JArr _ \<Rightarrow> True | _ \<Rightarrow> False)"

definition js_str :: "js \<Rightarrow> jstr option" where
  "js_str v = (case v of JStr s \<Rightarrow> Some s | _ \<Rightarrow> None)"

definition js_safe_int :: "js \<Rightarrow> int option" where
  "js_safe_int v = (case v of JNum n \<Rightarrow> if is_safe_integer n then Some (the_int_of n) else None
     | _ \<Rightarrow> None)"

declare js_get_def [js_defs] js_keys_def [js_defs] is_record_def [js_defs]
  is_objectish_def [js_defs] js_str_def [js_defs] js_safe_int_def [js_defs]
  is_safe_integer_def [js_defs] is_finite_num_def [js_defs]

text \<open>The names an object inherits from \<open>Object.prototype\<close>.\<close>

definition proto_keys :: "jstr list" where
  "proto_keys = map lit [''constructor'', ''__defineGetter__'', ''__defineSetter__'',
     ''hasOwnProperty'', ''__lookupGetter__'', ''__lookupSetter__'', ''isPrototypeOf'',
     ''propertyIsEnumerable'', ''toString'', ''valueOf'', ''__proto__'', ''toLocaleString'']"

text \<open>\<open>x ? {field: x} : {}\<close> on a string: the empty string is falsy.\<close>

definition truthy_str :: "jstr option \<Rightarrow> jstr option" where
  "truthy_str s = (case s of Some x \<Rightarrow> if x = [] then None else Some x | None \<Rightarrow> None)"

text \<open>A read the runtime refuses by raising an exception.\<close>

datatype js_error = TypeError

text \<open>Sequencing of operations that may raise.\<close>

definition and_then :: "'e + 'a \<Rightarrow> ('a \<Rightarrow> 'e + 'b) \<Rightarrow> 'e + 'b" where
  "and_then x f = (case x of Inl e \<Rightarrow> Inl e | Inr a \<Rightarrow> f a)"

lemma and_then_simps [simp]: "and_then (Inl e) f = Inl e" "and_then (Inr a) f = f a"
  by (simp_all add: and_then_def)

lemma and_then_Inr: "and_then x f = Inr b \<longleftrightarrow> (\<exists>a. x = Inr a \<and> f a = Inr b)"
  by (cases x) simp_all

fun fold_result :: "('x \<Rightarrow> 's \<Rightarrow> 'e + 's) \<Rightarrow> 'x list \<Rightarrow> 's \<Rightarrow> 'e + 's" where
  "fold_result f [] s = Inr s"
| "fold_result f (x # xs) s = and_then (f x s) (fold_result f xs)"

lemma fold_result_invariant:
  "fold_result f xs s = Inr s' \<Longrightarrow> P s \<Longrightarrow> (\<And>x s s'. x \<in> set xs \<Longrightarrow> P s \<Longrightarrow> f x s = Inr s' \<Longrightarrow> P s') \<Longrightarrow> P s'"
  by (induction xs arbitrary: s) (auto simp: and_then_Inr)

subsection \<open>Dictionaries: a Record or a Map, in insertion order\<close>

type_synonym ('k, 'v) dict = "('k \<times> 'v) list"

text \<open>\<open>m.set(k, v)\<close>, \<open>{...m, [k]: v}\<close>: an existing key keeps its place, a new one goes last.\<close>

fun dput :: "'k \<Rightarrow> 'v \<Rightarrow> ('k, 'v) dict \<Rightarrow> ('k, 'v) dict" where
  "dput k v [] = [(k, v)]"
| "dput k v ((a, b) # m) = (if a = k then (k, v) # m else (a, b) # dput k v m)"

definition ddel :: "'k \<Rightarrow> ('k, 'v) dict \<Rightarrow> ('k, 'v) dict" where
  "ddel k m = filter (\<lambda>e. fst e \<noteq> k) m"

abbreviation dget :: "('k, 'v) dict \<Rightarrow> 'k \<Rightarrow> 'v option" where
  "dget m k \<equiv> map_of m k"

definition wf_dict :: "('k, 'v) dict \<Rightarrow> bool" where
  "wf_dict m \<longleftrightarrow> distinct (map fst m)"

lemma dget_dput [simp]: "dget (dput k v m) = (dget m)(k \<mapsto> v)"
  by (induction k v m rule: dput.induct) (auto simp: fun_eq_iff)

lemma dget_ddel [simp]: "dget (ddel k m) = (dget m)(k := None)"
  by (induction m) (auto simp: ddel_def fun_eq_iff)

lemma keys_dput: "fst ` set (dput k v m) = insert k (fst ` set m)"
  by (induction k v m rule: dput.induct) auto

lemma keys_ddel: "fst ` set (ddel k m) = fst ` set m - {k}"
  by (auto simp: ddel_def)

lemma wf_dput [wf_intros]: "wf_dict m \<Longrightarrow> wf_dict (dput k v m)"
  by (induction k v m rule: dput.induct)
    (auto simp: wf_dict_def keys_dput simp flip: image_set dest: arg_cong)

lemma wf_ddel [wf_intros]: "wf_dict m \<Longrightarrow> wf_dict (ddel k m)"
  by (auto simp: wf_dict_def ddel_def distinct_map_filter)

lemma set_dput_subset: "set (dput k v m) \<subseteq> insert (k, v) (set m)"
  by (induction k v m rule: dput.induct) auto

lemma list_all_dput: "list_all P m \<Longrightarrow> P (k, v) \<Longrightarrow> list_all P (dput k v m)"
  by (induction k v m rule: dput.induct) auto

lemma wf_dict_Nil [simp]: "wf_dict []"
  by (simp add: wf_dict_def)

lemma dput_fresh: "k \<notin> fst ` set m \<Longrightarrow> dput k v m = m @ [(k, v)]"
  by (induction k v m rule: dput.induct) auto

lemma length_dput: "length (dput k v m) = (if k \<in> fst ` set m then length m else Suc (length m))"
  by (induction k v m rule: dput.induct) auto

lemma ddel_fresh: "k \<notin> fst ` set m \<Longrightarrow> ddel k m = m"
  by (induction m) (auto simp: ddel_def)

lemma length_ddel: "length (ddel k m) \<le> length m"
  by (simp add: ddel_def)

lemma dget_eq_None: "dget m k = None \<longleftrightarrow> k \<notin> fst ` set m"
  by (rule map_of_eq_None_iff)

lemma dget_in_set: "dget m k = Some v \<Longrightarrow> (k, v) \<in> set m"
  by (rule map_of_SomeD)

lemma wf_dget: "wf_dict m \<Longrightarrow> (k, v) \<in> set m \<Longrightarrow> dget m k = Some v"
  by (auto simp: wf_dict_def)

subsection \<open>Sets, in insertion order\<close>

definition set_add :: "'a \<Rightarrow> 'a list \<Rightarrow> 'a list" where
  "set_add x s = (if x \<in> set s then s else s @ [x])"

text \<open>\<open>[...new Set(xs)]\<close>.\<close>

definition dedupe :: "'a list \<Rightarrow> 'a list" where
  "dedupe xs = fold set_add xs []"

lemma set_set_add [simp]: "set (set_add x s) = insert x (set s)"
  by (auto simp: set_add_def)

lemma distinct_set_add [simp]: "distinct (set_add x s) \<longleftrightarrow> distinct s"
  by (auto simp: set_add_def)

lemma set_fold_set_add: "set (fold set_add xs acc) = set acc \<union> set xs"
  by (induction xs arbitrary: acc) auto

lemma distinct_fold_set_add: "distinct acc \<Longrightarrow> distinct (fold set_add xs acc)"
  by (induction xs arbitrary: acc) auto

lemma length_set_add: "length (set_add x s) \<le> Suc (length s)"
  by (simp add: set_add_def)

lemma length_fold_set_add: "length (fold set_add xs acc) \<le> length acc + length xs"
proof (induction xs arbitrary: acc)
  case (Cons x xs)
  have "length (fold set_add (x # xs) acc) \<le> length (set_add x acc) + length xs"
    using Cons.IH by simp
  also have "\<dots> \<le> length acc + length (x # xs)"
    using length_set_add [of x acc] by simp
  finally show ?case .
qed simp

lemma set_dedupe [simp]: "set (dedupe xs) = set xs"
  by (simp add: dedupe_def set_fold_set_add distinct_fold_set_add)

lemma distinct_dedupe [simp]: "distinct (dedupe xs)"
  by (simp add: dedupe_def set_fold_set_add distinct_fold_set_add)

lemma length_dedupe: "length (dedupe xs) \<le> length xs"
  using length_fold_set_add [of xs "[]"] by (simp add: dedupe_def)

lemma fold_set_add_fresh:
  "distinct xs \<Longrightarrow> set xs \<inter> set acc = {} \<Longrightarrow> fold set_add xs acc = acc @ xs"
  by (induction xs arbitrary: acc) (auto simp: set_add_def)

lemma dedupe_distinct [simp]: "distinct xs \<Longrightarrow> dedupe xs = xs"
  using fold_set_add_fresh [of xs "[]"] by (simp add: dedupe_def)

lemma dedupe_idem: "dedupe (dedupe xs) = dedupe xs"
  by simp

subsection \<open>The end of a list\<close>

text \<open>\<open>xs.slice(-n)\<close>: \<open>-0\<close> is \<open>0\<close>, so the whole array.\<close>

definition slice_last :: "nat \<Rightarrow> 'a list \<Rightarrow> 'a list" where
  "slice_last n xs = (if n = 0 then xs else drop (length xs - n) xs)"

lemma slice_last_suffix: "suffix (slice_last n xs) xs"
  by (simp add: slice_last_def suffix_drop)

lemma length_slice_last: "0 < n \<Longrightarrow> length (slice_last n xs) \<le> n"
  by (simp add: slice_last_def)

end
