(* ===== verification/Json.thy ===== *)
theory Json
  imports Room_Prelude
begin

text \<open>
  The two standard-library functions behind every byte budget of the Room:
  \<open>JSON.stringify\<close> and \<open>TextEncoder.encode\<close>. The decimal text of a number that is not a safe
  integer (ECMAScript's shortest round-trip printing) is the argument \<open>ntext\<close>.
\<close>

definition is_high_surrogate :: "code_unit \<Rightarrow> bool" where
  "is_high_surrogate c \<longleftrightarrow> 0xd800 \<le> c \<and> c \<le> 0xdbff"

definition is_low_surrogate :: "code_unit \<Rightarrow> bool" where
  "is_low_surrogate c \<longleftrightarrow> 0xdc00 \<le> c \<and> c \<le> 0xdfff"

definition scalar_of :: "code_unit \<Rightarrow> nat" where
  "scalar_of c = (if is_high_surrogate c \<or> is_low_surrogate c then 0xfffd else unat c)"

text \<open>A lone surrogate becomes U+FFFD, as the encoder's \<open>USVString\<close> argument requires.\<close>

fun code_points :: "jstr \<Rightarrow> nat list" where
  "code_points [] = []"
| "code_points [c] = [scalar_of c]"
| "code_points (c # d # cs) =
     (if is_high_surrogate c \<and> is_low_surrogate d
      then (0x10000 + (unat c - 0xd800) * 0x400 + (unat d - 0xdc00)) # code_points cs
      else scalar_of c # code_points (d # cs))"

definition utf8_of :: "nat \<Rightarrow> nat list" where
  "utf8_of p =
     (if p \<le> 0x7f then [p]
      else if p \<le> 0x7ff then [0xc0 + p div 64, 0x80 + p mod 64]
      else if p \<le> 0xffff then [0xe0 + p div 4096, 0x80 + p div 64 mod 64, 0x80 + p mod 64]
      else [0xf0 + p div 262144, 0x80 + p div 4096 mod 64, 0x80 + p div 64 mod 64, 0x80 + p mod 64])"

definition utf8_encode :: "jstr \<Rightarrow> nat list" where
  "utf8_encode s = concat (map utf8_of (code_points s))"

definition byte_length :: "jstr \<Rightarrow> nat" where
  "byte_length s = length (utf8_encode s)"

subsection \<open>JSON text\<close>

definition hex_digit :: "nat \<Rightarrow> code_unit" where
  "hex_digit n = of_nat (if n < 10 then 0x30 + n else 0x57 + n)"

definition unicode_escape :: "code_unit \<Rightarrow> jstr" where
  "unicode_escape c = [0x5c, 0x75, hex_digit (unat c div 4096), hex_digit (unat c div 256 mod 16),
     hex_digit (unat c div 16 mod 16), hex_digit (unat c mod 16)]"

definition json_unit :: "code_unit \<Rightarrow> jstr" where
  "json_unit c =
     (if c = 0x22 \<or> c = 0x5c then [0x5c, c]
      else if c = 0x8 then [0x5c, 0x62] else if c = 0xc then [0x5c, 0x66]
      else if c = 0xa then [0x5c, 0x6e] else if c = 0xd then [0x5c, 0x72]
      else if c = 0x9 then [0x5c, 0x74]
      else if c < 0x20 \<or> is_high_surrogate c \<or> is_low_surrogate c then unicode_escape c
      else [c])"

fun json_body :: "jstr \<Rightarrow> jstr" where
  "json_body [] = []"
| "json_body [c] = json_unit c"
| "json_body (c # d # cs) =
     (if is_high_surrogate c \<and> is_low_surrogate d then c # d # json_body cs
      else json_unit c @ json_body (d # cs))"

definition json_quote :: "jstr \<Rightarrow> jstr" where
  "json_quote s = 0x22 # json_body s @ [0x22]"

fun nat_text :: "nat \<Rightarrow> jstr" where
  "nat_text n = (if n < 10 then [of_nat (0x30 + n)] else nat_text (n div 10) @ [of_nat (0x30 + n mod 10)])"

declare nat_text.simps [simp del]

definition int_text :: "int \<Rightarrow> jstr" where
  "int_text i = (if i < 0 then 0x2d # nat_text (nat (- i)) else nat_text (nat i))"

definition json_number :: "(rat \<Rightarrow> jstr) \<Rightarrow> jnum \<Rightarrow> jstr" where
  "json_number ntext n = (if is_safe_integer n then int_text (the_int_of n)
     else (case n of Fin q \<Rightarrow> ntext q | _ \<Rightarrow> lit ''null''))"

definition json_join :: "jstr list \<Rightarrow> jstr" where
  "json_join xs = concat (case xs of [] \<Rightarrow> [] | y # ys \<Rightarrow> y # concat (map (\<lambda>z. [[0x2c], z]) ys))"

text \<open>
  An \<open>undefined\<close> property is left out and an \<open>undefined\<close> array element prints as \<open>null\<close>; a
  bare \<open>undefined\<close> has no text, which the encoder takes for the empty string.
\<close>

fun json_text :: "(rat \<Rightarrow> jstr) \<Rightarrow> js \<Rightarrow> jstr" where
  "json_text ntext JUndefined = []"
| "json_text ntext JNull = lit ''null''"
| "json_text ntext (JBool b) = (if b then lit ''true'' else lit ''false'')"
| "json_text ntext (JNum n) = json_number ntext n"
| "json_text ntext (JStr s) = json_quote s"
| "json_text ntext (JArr vs) = 0x5b # json_join
     (map (\<lambda>v. if v = JUndefined then lit ''null'' else json_text ntext v) vs) @ [0x5d]"
| "json_text ntext (JObj ps) = 0x7b # json_join
     (map (\<lambda>(k, v). json_quote k @ 0x3a # json_text ntext v) (filter (\<lambda>(k, v). v \<noteq> JUndefined) ps)) @ [0x7d]"

definition json_bytes :: "(rat \<Rightarrow> jstr) \<Rightarrow> js \<Rightarrow> nat" where
  "json_bytes ntext v = byte_length (json_text ntext v)"

text \<open>
  The same equations with the comparisons nested, so that evaluating one of them stops at the first
  comparison that decides it.
\<close>

lemma is_high_surrogate_code [code]: "is_high_surrogate c = (if c < 0xd800 then False else c \<le> 0xdbff)"
  by (auto simp: is_high_surrogate_def)

lemma is_low_surrogate_code [code]: "is_low_surrogate c = (if c < 0xdc00 then False else c \<le> 0xdfff)"
  by (auto simp: is_low_surrogate_def)

lemma scalar_of_code [code]: "scalar_of c = (if c < 0xd800 then unat c else if c \<le> 0xdfff then 0xfffd else unat c)"
  by (auto simp: scalar_of_def is_high_surrogate_def is_low_surrogate_def word_le_nat_alt word_less_nat_alt)

lemma code_points_code [code]:
  "code_points [] = []" "code_points [c] = [scalar_of c]"
  "code_points (c # d # cs) = (if is_high_surrogate c then (if is_low_surrogate d
      then (0x10000 + (unat c - 0xd800) * 0x400 + (unat d - 0xdc00)) # code_points cs
      else scalar_of c # code_points (d # cs)) else scalar_of c # code_points (d # cs))"
  by simp_all

definition json_escape :: "code_unit \<Rightarrow> jstr" where
  "json_escape c =
     (if c = 0x22 \<or> c = 0x5c then [0x5c, c]
      else if c = 0x8 then [0x5c, 0x62] else if c = 0xc then [0x5c, 0x66]
      else if c = 0xa then [0x5c, 0x6e] else if c = 0xd then [0x5c, 0x72]
      else if c = 0x9 then [0x5c, 0x74]
      else if c < 0x20 \<or> is_high_surrogate c \<or> is_low_surrogate c then unicode_escape c
      else [c])"

lemma json_unit_code [code]: "json_unit c = (if 0x5c < c then (if c < 0xd800 then [c] else json_escape c)
    else if 0x22 < c then (if c < 0x5c then [c] else json_escape c) else json_escape c)"
  by (auto simp: json_unit_def json_escape_def is_high_surrogate_def is_low_surrogate_def word_less_nat_alt word_le_nat_alt)

lemma json_body_code [code]:
  "json_body [] = []" "json_body [c] = json_unit c"
  "json_body (c # d # cs) = (if is_high_surrogate c then (if is_low_surrogate d then c # d # json_body cs
      else json_unit c @ json_body (d # cs)) else json_unit c @ json_body (d # cs))"
  by simp_all

lemma length_utf8_of: "length (utf8_of p) =
    (if p \<le> 0x7f then 1 else if p \<le> 0x7ff then 2 else if p \<le> 0xffff then 3 else 4)"
  by (simp add: utf8_of_def)

subsection \<open>The size of quiet text\<close>

text \<open>A printable ASCII character that JSON does not escape.\<close>

definition quiet_char :: "char \<Rightarrow> bool" where
  "quiet_char c \<longleftrightarrow> \<not> digit7 c \<and> (digit5 c \<or> digit6 c) \<and> c \<noteq> CHR 0x22 \<and> c \<noteq> CHR 0x5C"

lemma of_char_ascii: "\<not> digit7 c \<Longrightarrow> (of_char c :: code_unit) < 0x80"
  by (cases c) (simp add: of_char_def split: bool.split)

lemma of_char_printable: "\<not> digit7 c \<Longrightarrow> digit5 c \<or> digit6 c \<Longrightarrow> (0x1f :: code_unit) < of_char c"
  by (cases c) (auto simp add: of_char_def split: bool.split)

lemma of_char_neq: "c \<noteq> CHR 0x22 \<Longrightarrow> (of_char c :: code_unit) \<noteq> 0x22" "c \<noteq> CHR 0x5C \<Longrightarrow> (of_char c :: code_unit) \<noteq> 0x5c"
  using of_char_code_unit_inj [of c "CHR 0x22"] of_char_code_unit_inj [of c "CHR 0x5C"] by simp_all

lemma ascii_bytes_Cons [simp]: "c < 0x80 \<Longrightarrow> byte_length (c # s) = Suc (byte_length s)"
  by (cases s) (auto simp: byte_length_def utf8_encode_def utf8_of_def scalar_of_def is_high_surrogate_def
      is_low_surrogate_def word_less_nat_alt word_le_nat_alt)

lemma byte_length_Nil [simp]: "byte_length [] = 0"
  by (simp add: byte_length_def utf8_encode_def)

lemma ascii_bytes_append: "list_all (\<lambda>c. c < 0x80) s \<Longrightarrow> byte_length (s @ t) = length s + byte_length t"
  by (induction s) auto

lemma quiet_unit: "quiet_char c \<Longrightarrow> json_unit (of_char c) = [of_char c] \<and> \<not> is_high_surrogate (of_char c) \<and> (of_char c :: code_unit) < 0x80"
proof -
  assume "quiet_char c"
  then have "(of_char c :: code_unit) < 0x80" "(0x1f :: code_unit) < of_char c" "(of_char c :: code_unit) \<noteq> 0x22" "(of_char c :: code_unit) \<noteq> 0x5c"
    by (simp_all add: quiet_char_def of_char_ascii of_char_printable of_char_neq)
  then show ?thesis
    by (auto simp: json_unit_def is_high_surrogate_def is_low_surrogate_def word_less_nat_alt word_le_nat_alt)
qed

lemma quiet_body: "list_all quiet_char s \<Longrightarrow> json_body (lit s) = lit s"
proof (induction s rule: induct_list012)
  case (3 c d s)
  then show ?case using quiet_unit [of c] by (simp add: lit_def)
qed (simp_all add: lit_def quiet_unit)

lemma quiet_quote_bytes: "list_all quiet_char s \<Longrightarrow> byte_length (json_quote (lit s) @ t) = length s + 2 + byte_length t"
proof -
  assume q: "list_all quiet_char s"
  then have "list_all (\<lambda>c. c < 0x80) (lit s)" by (auto simp: lit_def list_all_iff dest: quiet_unit)
  with q show ?thesis by (simp add: json_quote_def quiet_body ascii_bytes_append)
qed

lemma quiet_lit_bytes: "list_all quiet_char s \<Longrightarrow> byte_length (lit s @ t) = length s + byte_length t"
  by (subst ascii_bytes_append) (auto simp: lit_def list_all_iff dest: quiet_unit)

lemma nat_text_numerals: "nat_text 0 = [0x30]" "nat_text (Suc 0) = [0x31]" "nat_text 1 = [0x31]"
  "nat_text (numeral k) = (if (numeral k :: nat) < 10 then [of_nat (0x30 + numeral k)]
     else nat_text (numeral k div 10) @ [of_nat (0x30 + numeral k mod 10)])"
  by (subst nat_text.simps, simp)+

lemmas quiet_bytes = quiet_quote_bytes quiet_quote_bytes [where t = "[]", simplified] quiet_lit_bytes json_bytes_def json_join_def
  quiet_char_def json_number_def int_text_def nat_text_numerals

subsection \<open>Substrings and case folding of a regular expression with the i flag\<close>

definition ascii_fold :: "code_unit \<Rightarrow> code_unit" where
  "ascii_fold c = (if is_upper c then c + 0x20 else c)"

fun has_infix :: "jstr \<Rightarrow> jstr \<Rightarrow> bool" where
  "has_infix pat [] \<longleftrightarrow> pat = []"
| "has_infix pat (c # cs) \<longleftrightarrow> take (length pat) (c # cs) = pat \<or> has_infix pat cs"

definition contains_ci :: "string \<Rightarrow> jstr \<Rightarrow> bool" where
  "contains_ci pat s \<longleftrightarrow> has_infix (lit pat) (map ascii_fold s)"

lemma has_infix_sublist: "has_infix pat s \<longleftrightarrow> sublist pat s"
proof (induction s)
  case (Cons c cs)
  have "take (length pat) (c # cs) = pat \<longleftrightarrow> prefix pat (c # cs)"
    by (metis append_eq_conv_conj append_take_drop_id prefix_def)
  with Cons show ?case by (auto simp: sublist_Cons_right)
qed simp

subsection \<open>How long the text and its encoding can get\<close>

lemma length_code_point_bytes: "length (utf8_of (scalar_of c)) \<le> 3"
proof -
  have "scalar_of c \<le> 0xffff"
    using unsigned_less [of c, where ?'a = nat] by (auto simp: scalar_of_def)
  then show ?thesis by (auto simp: length_utf8_of)
qed

lemma byte_length_le: "byte_length s \<le> 3 * length s"
proof (induction s rule: code_points.induct)
  case (2 c)
  then show ?case using length_code_point_bytes [of c] by (simp add: byte_length_def utf8_encode_def)
next
  case (3 c d cs)
  then show ?case
    using length_code_point_bytes [of c] by (auto simp: byte_length_def utf8_encode_def length_utf8_of)
qed (simp add: byte_length_def utf8_encode_def)

lemma length_json_unit: "length (json_unit c) \<le> 6"
  by (simp add: json_unit_def unicode_escape_def)

lemma length_json_body: "length (json_body s) \<le> 6 * length s"
proof (induction s rule: json_body.induct)
  case (2 c)
  then show ?case using length_json_unit [of c] by simp
next
  case (3 c d cs)
  then show ?case using length_json_unit [of c] by auto
qed simp

lemma length_json_quote: "length (json_quote s) \<le> 6 * length s + 2"
  using length_json_body [of s] by (simp add: json_quote_def)

lemma length_nat_text: "n < 10 ^ Suc k \<Longrightarrow> length (nat_text n) \<le> Suc k"
proof (induction k arbitrary: n)
  case (Suc k)
  show ?case
  proof (cases "n < 10")
    case False
    have "n div 10 < 10 ^ Suc k" using Suc.prems by (simp add: less_mult_imp_div_less)
    then have "length (nat_text (n div 10)) \<le> Suc k" by (rule Suc.IH)
    with False show ?thesis by (simp add: nat_text.simps [of n])
  qed (simp add: nat_text.simps)
qed (simp add: nat_text.simps)

text \<open>A non-negative integer a double represents exactly.\<close>

definition exact_int :: "int \<Rightarrow> bool" where
  "exact_int i \<longleftrightarrow> 0 \<le> i \<and> i \<le> 9007199254740991"

lemma length_json_int: "exact_int i \<Longrightarrow> length (json_text ntext (JNum (jint i))) \<le> 16"
proof -
  assume "exact_int i"
  then have i: "0 \<le> i" "i \<le> 9007199254740991" by (simp_all add: exact_int_def)
  then have "nat i < 10 ^ Suc 15" by simp
  then have "length (nat_text (nat i)) \<le> Suc 15" by (rule length_nat_text)
  with i show ?thesis by (simp add: json_number_def int_text_def)
qed

lemma length_concat_commas: "length (concat (concat (map (\<lambda>z. [[0x2c], z]) ys))) = sum_list (map length ys) + length ys"
  by (induction ys) auto

lemma length_json_join: "length (json_join xs) \<le> sum_list (map length xs) + length xs"
  by (cases xs) (simp_all add: json_join_def length_concat_commas)

lemma length_json_obj_le:
  "length (json_text ntext (JObj ps)) \<le>
     sum_list (map (\<lambda>(k, v). 6 * length k + 4 + length (json_text ntext v)) ps) + 2"
proof -
  have "sum_list (map length (map (\<lambda>(k, v). json_quote k @ 0x3a # json_text ntext v) ps)) + length ps \<le>
      sum_list (map (\<lambda>(k, v). 6 * length k + 4 + length (json_text ntext v)) ps)" for ps
  proof (induction ps)
    case (Cons e ps)
    then show ?case using length_json_quote [of "fst e"] by (cases e) simp
  qed simp
  from this [of "filter (\<lambda>(k, v). v \<noteq> JUndefined) ps"]
  have "length (json_text ntext (JObj ps)) \<le> sum_list (map (\<lambda>(k, v). 6 * length k + 4 +
      length (json_text ntext v)) (filter (\<lambda>(k, v). v \<noteq> JUndefined) ps)) + 2"
    using length_json_join [of "map (\<lambda>(k, v). json_quote k @ 0x3a # json_text ntext v)
      (filter (\<lambda>(k, v). v \<noteq> JUndefined) ps)"] by simp
  also have "\<dots> \<le> sum_list (map (\<lambda>(k, v). 6 * length k + 4 + length (json_text ntext v)) ps) + 2"
    by (induction ps) auto
  finally show ?thesis .
qed

lemma length_json_str: "length (json_text ntext (JStr s)) \<le> 6 * length s + 2"
  using length_json_quote [of s] by simp

end
