(* ===== verification/Json_Parse.thy ===== *)
theory Json_Parse
  imports Json
begin

text \<open>
  \<open>JSON.parse\<close>, as far as the Room relies on it: the grammar of RFC 8259 over UTF-16 code
  units, with the later of two equal keys winning in the earlier one's place. The value of a
  number is its exact rational, rounded to a double by the argument \<open>round_num\<close>; on safe
  integers rounding changes nothing. The nesting depth is bounded by the length of the text.
\<close>

definition is_json_ws :: "code_unit \<Rightarrow> bool" where
  "is_json_ws c \<longleftrightarrow> c = 0x20 \<or> c = 0x9 \<or> c = 0xa \<or> c = 0xd"

definition skip_ws :: "jstr \<Rightarrow> jstr" where
  "skip_ws s = dropWhile is_json_ws s"

subsection \<open>Strings\<close>

definition hex_value :: "code_unit \<Rightarrow> nat option" where
  "hex_value c = (if is_digit c then Some (unat c - 0x30)
     else if 0x61 \<le> c \<and> c \<le> 0x66 then Some (unat c - 0x57)
     else if 0x41 \<le> c \<and> c \<le> 0x46 then Some (unat c - 0x37) else None)"

definition hex_unit :: "code_unit \<Rightarrow> code_unit \<Rightarrow> code_unit \<Rightarrow> code_unit \<Rightarrow> code_unit option" where
  "hex_unit a b c d = (case (hex_value a, hex_value b, hex_value c, hex_value d) of
     (Some w, Some x, Some y, Some z) \<Rightarrow> Some (of_nat (((w * 16 + x) * 16 + y) * 16 + z))
   | _ \<Rightarrow> None)"

definition simple_escape :: "code_unit \<Rightarrow> code_unit option" where
  "simple_escape c = (if c = 0x22 \<or> c = 0x5c \<or> c = 0x2f then Some c
     else if c = 0x62 then Some 0x8 else if c = 0x66 then Some 0xc
     else if c = 0x6e then Some 0xa else if c = 0x72 then Some 0xd
     else if c = 0x74 then Some 0x9 else None)"

definition cons_unit :: "code_unit \<Rightarrow> (jstr \<times> jstr) option \<Rightarrow> (jstr \<times> jstr) option" where
  "cons_unit c = map_option (\<lambda>(s, rest). (c # s, rest))"

text \<open>What follows an opening quote: the string and the text behind its closing quote.\<close>

fun parse_string :: "jstr \<Rightarrow> (jstr \<times> jstr) option" where
  "parse_string [] = None"
| "parse_string (c # cs) =
     (if c = 0x22 then Some ([], cs)
      else if c < 0x20 then None
      else if c \<noteq> 0x5c then cons_unit c (parse_string cs)
      else (case cs of
        [] \<Rightarrow> None
      | e # es \<Rightarrow>
          if e = 0x75 then (case es of
            h0 # h1 # h2 # h3 # ds \<Rightarrow> (case hex_unit h0 h1 h2 h3 of
              Some u \<Rightarrow> cons_unit u (parse_string ds) | None \<Rightarrow> None)
          | _ \<Rightarrow> None)
          else (case simple_escape e of
            Some u \<Rightarrow> cons_unit u (parse_string es) | None \<Rightarrow> None)))"

subsection \<open>Numbers\<close>

definition digit_value :: "code_unit \<Rightarrow> nat" where
  "digit_value c = unat c - 0x30"

definition digits_value :: "jstr \<Rightarrow> nat" where
  "digits_value ds = fold (\<lambda>d n. n * 10 + digit_value d) ds 0"

definition span_digits :: "jstr \<Rightarrow> jstr \<times> jstr" where
  "span_digits s = (takeWhile is_digit s, dropWhile is_digit s)"

text \<open>The fraction and the exponent: their value and the text behind; \<open>None\<close> is malformed.\<close>

definition parse_fraction :: "jstr \<Rightarrow> (rat \<times> jstr) option" where
  "parse_fraction s = (case s of
     c # cs \<Rightarrow> if c \<noteq> 0x2e then Some (0, s)
       else (case span_digits cs of (ds, rest) \<Rightarrow>
         if ds = [] then None else Some (of_nat (digits_value ds) / 10 ^ length ds, rest))
   | [] \<Rightarrow> Some (0, s))"

definition parse_exponent :: "jstr \<Rightarrow> (rat \<times> jstr) option" where
  "parse_exponent s = (case s of
     c # cs \<Rightarrow> if c \<noteq> 0x65 \<and> c \<noteq> 0x45 then Some (1, s)
       else (case (case cs of
           d # ds \<Rightarrow> if d = 0x2d then (True, ds) else if d = 0x2b then (False, ds) else (False, cs)
         | [] \<Rightarrow> (False, cs)) of
         (negative, cs) \<Rightarrow> (case span_digits cs of (ds, rest) \<Rightarrow>
           if ds = [] then None
           else Some (if negative then 1 / 10 ^ digits_value ds else 10 ^ digits_value ds, rest)))
   | [] \<Rightarrow> Some (1, s))"

definition parse_unsigned :: "jstr \<Rightarrow> (rat \<times> jstr) option" where
  "parse_unsigned s = (case span_digits s of (ds, rest) \<Rightarrow>
     if ds = [] \<or> (hd ds = 0x30 \<and> 1 < length ds) then None
     else (case parse_fraction rest of
       None \<Rightarrow> None
     | Some (f, rest) \<Rightarrow> (case parse_exponent rest of
         None \<Rightarrow> None | Some (e, rest) \<Rightarrow> Some ((of_nat (digits_value ds) + f) * e, rest))))"

definition parse_number :: "jstr \<Rightarrow> (rat \<times> jstr) option" where
  "parse_number s = (case s of
     [] \<Rightarrow> None
   | c # cs \<Rightarrow> if c = 0x2d then map_option (\<lambda>(q, rest). (- q, rest)) (parse_unsigned cs)
       else parse_unsigned s)"

subsection \<open>Values\<close>

definition starts_with :: "string \<Rightarrow> jstr \<Rightarrow> bool" where
  "starts_with w s \<longleftrightarrow> take (length w) s = lit w"

text \<open>
  The first argument bounds the calls. \<open>parse_items\<close> reads the elements of an array that is
  not empty, \<open>parse_members\<close> the members of an object that is not empty.
\<close>

fun parse_value :: "(rat \<Rightarrow> jnum) \<Rightarrow> nat \<Rightarrow> jstr \<Rightarrow> (js \<times> jstr) option"
  and parse_items :: "(rat \<Rightarrow> jnum) \<Rightarrow> nat \<Rightarrow> jstr \<Rightarrow> (js list \<times> jstr) option"
  and parse_members :: "(rat \<Rightarrow> jnum) \<Rightarrow> nat \<Rightarrow> jstr \<Rightarrow> ((jstr \<times> js) list \<times> jstr) option" where
  "parse_value rn 0 s = None"
| "parse_value rn (Suc n) s = (case skip_ws s of
     [] \<Rightarrow> None
   | c # cs \<Rightarrow>
       if c = 0x22 then map_option (\<lambda>(t, rest). (JStr t, rest)) (parse_string cs)
       else if c = 0x5b then
         (if take 1 (skip_ws cs) = [0x5d] then Some (JArr [], drop 1 (skip_ws cs))
          else map_option (\<lambda>(vs, rest). (JArr vs, rest)) (parse_items rn n cs))
       else if c = 0x7b then
         (if take 1 (skip_ws cs) = [0x7d] then Some (JObj [], drop 1 (skip_ws cs))
          else map_option (\<lambda>(ps, rest). (JObj (fold (\<lambda>(k, v). dput k v) ps []), rest)) (parse_members rn n cs))
       else if starts_with ''null'' (c # cs) then Some (JNull, drop 4 (c # cs))
       else if starts_with ''true'' (c # cs) then Some (JBool True, drop 4 (c # cs))
       else if starts_with ''false'' (c # cs) then Some (JBool False, drop 5 (c # cs))
       else map_option (\<lambda>(q, rest). (JNum (rn q), rest)) (parse_number (c # cs)))"
| "parse_items rn 0 s = None"
| "parse_items rn (Suc n) s = (case parse_value rn n s of
     None \<Rightarrow> None
   | Some (v, rest) \<Rightarrow> (case skip_ws rest of
       c # cs \<Rightarrow> if c = 0x5d then Some ([v], cs)
         else if c = 0x2c then map_option (\<lambda>(vs, rest). (v # vs, rest)) (parse_items rn n cs)
         else None
     | [] \<Rightarrow> None))"
| "parse_members rn 0 s = None"
| "parse_members rn (Suc n) s = (case skip_ws s of
     [] \<Rightarrow> None
   | q # qs \<Rightarrow>
       if q \<noteq> 0x22 then None
       else (case parse_string qs of
         None \<Rightarrow> None
       | Some (k, rest) \<Rightarrow> (case skip_ws rest of
           [] \<Rightarrow> None
         | d # ds \<Rightarrow>
             if d \<noteq> 0x3a then None
             else (case parse_value rn n ds of
               None \<Rightarrow> None
             | Some (v, rest) \<Rightarrow> (case skip_ws rest of
                 c # cs \<Rightarrow> if c = 0x7d then Some ([(k, v)], cs)
                   else if c = 0x2c then map_option (\<lambda>(ps, rest). ((k, v) # ps, rest)) (parse_members rn n cs)
                   else None
               | [] \<Rightarrow> None)))))"

definition json_parse :: "(rat \<Rightarrow> jnum) \<Rightarrow> jstr \<Rightarrow> js option" where
  "json_parse rn s = (case parse_value rn (2 * length s + 2) s of
     Some (v, rest) \<Rightarrow> if skip_ws rest = [] then Some v else None
   | None \<Rightarrow> None)"


subsection \<open>Reading back what was printed: strings\<close>

lemma cons_unit_Some [simp]: "cons_unit c (Some (s, rest)) = Some (c # s, rest)"
  by (simp add: cons_unit_def)

lemma hex_value_digit: "n < 16 \<Longrightarrow> hex_value (hex_digit n) = Some n"
proof -
  assume "n < 16"
  then have "n \<in> set [0..<16]" by simp
  moreover have "list_all (\<lambda>n. hex_value (hex_digit n) = Some n) [0..<16]" by code_simp
  ultimately show ?thesis by (auto simp: list_all_iff)
qed

lemma hex_unit_escape: "hex_unit (hex_digit (unat c div 4096)) (hex_digit (unat c div 256 mod 16))
    (hex_digit (unat c div 16 mod 16)) (hex_digit (unat c mod 16)) = Some c"
  for c :: code_unit
proof -
  have c: "unat c < 65536" using unsigned_less [of c, where ?'a = nat] by simp
  then have "unat c div 4096 < 16" by (simp add: less_mult_imp_div_less)
  moreover have "unat c div 4096 * 16 + unat c div 256 mod 16 = unat c div 256"
    using div_mult_mod_eq [of "unat c div 256" 16] by (simp flip: div_mult2_eq)
  moreover have "unat c div 256 * 16 + unat c div 16 mod 16 = unat c div 16"
    using div_mult_mod_eq [of "unat c div 16" 16] by (simp flip: div_mult2_eq)
  moreover have "unat c div 16 * 16 + unat c mod 16 = unat c" by (rule div_mult_mod_eq)
  ultimately show ?thesis by (simp add: hex_unit_def hex_value_digit)
qed

lemma parse_json_unit: "parse_string (json_unit c @ t) = cons_unit c (parse_string t)"
  by (auto simp: json_unit_def unicode_escape_def simple_escape_def hex_unit_escape not_less)

lemma surrogate_plain: "is_high_surrogate c \<or> is_low_surrogate c \<Longrightarrow> c \<noteq> 0x22 \<and> c \<noteq> 0x5c \<and> \<not> c < 0x20"
  by (auto simp: is_high_surrogate_def is_low_surrogate_def word_le_nat_alt word_less_nat_alt)

lemma parse_json_body: "parse_string (json_body s @ 0x22 # rest) = Some (s, rest)"
proof (induction s rule: json_body.induct)
  case (3 c d cs)
  then show ?case
    using surrogate_plain [of c] surrogate_plain [of d] by (auto simp: parse_json_unit)
qed (simp_all add: parse_json_unit)

subsection \<open>Reading back what was printed: integers\<close>

lemma digit_unit: "k < 10 \<Longrightarrow> is_digit (of_nat (0x30 + k)) \<and> digit_value (of_nat (0x30 + k)) = k \<and>
    (of_nat (0x30 + k) = (0x30 :: code_unit) \<longleftrightarrow> k = 0)"
proof -
  assume "k < 10"
  then have "k \<in> set [0..<10]" by simp
  moreover have "list_all (\<lambda>k. is_digit (of_nat (0x30 + k)) \<and> digit_value (of_nat (0x30 + k)) = k \<and>
      (of_nat (0x30 + k) = (0x30 :: code_unit) \<longleftrightarrow> k = 0)) [0..<10]" by code_simp
  ultimately show ?thesis by (auto simp: list_all_iff)
qed

lemma digits_value_snoc: "digits_value (ds @ [d]) = digits_value ds * 10 + digit_value d"
  by (simp add: digits_value_def)

lemma nat_text_spec: "nat_text n \<noteq> [] \<and> list_all is_digit (nat_text n) \<and> digits_value (nat_text n) = n \<and>
    (hd (nat_text n) = 0x30 \<longrightarrow> n = 0) \<and> (n = 0 \<longrightarrow> length (nat_text n) = 1)"
proof (induction n rule: nat_text.induct)
  case (1 n)
  show ?case
  proof (cases "n < 10")
    case True
    then have "digits_value [of_nat (0x30 + n)] = n" using digit_unit [OF True] by (simp add: digits_value_def)
    then show ?thesis using True digit_unit [OF True] by (subst (1 2 3 4 5) nat_text.simps) simp
  next
    case False
    note d = digit_unit [of "n mod 10"]
    from False have t: "nat_text n = nat_text (n div 10) @ [of_nat (0x30 + n mod 10)]"
      by (subst nat_text.simps) simp
    have "digits_value (nat_text n) = n div 10 * 10 + n mod 10"
      using 1 [OF False] d unfolding t digits_value_snoc by simp
    moreover have "n div 10 \<noteq> 0" using False by (simp add: div_eq_0_iff)
    ultimately show ?thesis using 1 [OF False] False d by (auto simp add: t hd_append)
  qed
qed

definition follows :: "jstr \<Rightarrow> bool" where
  "follows rest \<longleftrightarrow> rest = [] \<or> hd rest = 0x2c \<or> hd rest = 0x5d \<or> hd rest = 0x7d"

lemma follows_not_digit: "follows rest \<Longrightarrow> takeWhile is_digit rest = [] \<and> dropWhile is_digit rest = rest"
  by (cases rest) (auto simp: follows_def is_digit_def)

lemma parse_unsigned_nat:
  assumes "follows rest"
  shows "parse_unsigned (nat_text n @ rest) = Some (of_nat n, rest)"
proof -
  have digits: "\<And>d. d \<in> set (nat_text n) \<Longrightarrow> is_digit d" using nat_text_spec [of n] by (auto simp: list_all_iff)
  have "span_digits (nat_text n @ rest) = (nat_text n, rest)"
    using follows_not_digit [OF assms] digits by (simp add: span_digits_def takeWhile_append2 dropWhile_append2)
  moreover have "parse_fraction rest = Some (0, rest)" "parse_exponent rest = Some (1, rest)"
    using assms by (cases rest; auto simp: follows_def parse_fraction_def parse_exponent_def)+
  moreover have "\<not> (hd (nat_text n) = 0x30 \<and> 1 < length (nat_text n))"
    using nat_text_spec [of n] by (metis less_irrefl)
  ultimately show ?thesis using nat_text_spec [of n] by (simp add: parse_unsigned_def del: de_Morgan_conj)
qed

lemma parse_int:
  assumes "follows rest"
  shows "parse_number (int_text i @ rest) = Some (of_int i, rest)"
proof (cases "i < 0")
  case True
  then show ?thesis using parse_unsigned_nat [OF assms, of "nat (- i)"] by (simp add: parse_number_def int_text_def)
next
  case False
  obtain d ds where d: "nat_text (nat i) = d # ds" using nat_text_spec [of "nat i"] by (cases "nat_text (nat i)") auto
  then have "is_digit d" using nat_text_spec [of "nat i"] by simp
  then have "d \<noteq> 0x2d" by (auto simp: is_digit_def)
  with False d show ?thesis using parse_unsigned_nat [OF assms, of "nat i"] by (simp add: parse_number_def int_text_def)
qed

lemma int_text_head: "\<exists>c cs. int_text i = c # cs \<and> (is_digit c \<or> c = 0x2d)"
proof (cases "i < 0")
  case False
  then show ?thesis using nat_text_spec [of "nat i"] by (cases "nat_text (nat i)") (auto simp: int_text_def)
qed (simp add: int_text_def)

subsection \<open>Reading back what was printed: values\<close>

text \<open>What survives a trip through text: integers a double holds exactly, no \<open>undefined\<close>.\<close>

fun plain_js :: "js \<Rightarrow> bool" where
  "plain_js JUndefined \<longleftrightarrow> False"
| "plain_js JNull \<longleftrightarrow> True"
| "plain_js (JBool b) \<longleftrightarrow> True"
| "plain_js (JNum n) \<longleftrightarrow> is_safe_integer n"
| "plain_js (JStr s) \<longleftrightarrow> True"
| "plain_js (JArr vs) \<longleftrightarrow> list_all plain_js vs"
| "plain_js (JObj ps) \<longleftrightarrow> wf_dict ps \<and> list_all (\<lambda>(k, v). plain_js v) ps"

definition rounds :: "(rat \<Rightarrow> jnum) \<Rightarrow> bool" where
  "rounds rn \<longleftrightarrow> (\<forall>i. \<bar>i\<bar> \<le> 9007199254740991 \<longrightarrow> rn (of_int i) = jint i)"

lemma plain_head: "plain_js v \<Longrightarrow> \<exists>c cs. json_text ntext v = c # cs \<and> \<not> is_json_ws c \<and> c \<noteq> 0x5d \<and> c \<noteq> 0x7d"
proof (cases v)
  case (JNum n)
  assume "plain_js v"
  then have "json_text ntext v = int_text (the_int_of n)" by (simp add: JNum json_number_def)
  then show ?thesis using int_text_head [of "the_int_of n"] by (auto simp: is_digit_def is_json_ws_def)
qed (auto simp: lit_def is_json_ws_def json_quote_def)

lemma json_join_Cons: "json_join [x] = x" "json_join (x # y # zs) = x @ 0x2c # json_join (y # zs)"
  by (simp_all add: json_join_def)

lemma skip_head: "\<not> is_json_ws c \<Longrightarrow> skip_ws (c # cs) = c # cs"
  by (simp add: skip_ws_def)

lemma follows_head [simp]: "follows (0x2c # r)" "follows (0x5d # r)" "follows (0x7d # r)" "follows []"
  by (simp_all add: follows_def)

definition reads :: "(rat \<Rightarrow> jstr) \<Rightarrow> (rat \<Rightarrow> jnum) \<Rightarrow> js \<Rightarrow> bool" where
  "reads ntext rn v \<longleftrightarrow> (\<forall>n rest. follows rest \<longrightarrow> 2 * length (json_text ntext v) < n \<longrightarrow>
     parse_value rn n (json_text ntext v @ rest) = Some (v, rest))"

lemma readsD: "reads ntext rn v \<Longrightarrow> follows rest \<Longrightarrow> 2 * length (json_text ntext v) < n \<Longrightarrow>
    parse_value rn n (json_text ntext v @ rest) = Some (v, rest)"
  by (simp add: reads_def)

lemma parse_items_text:
  "vs \<noteq> [] \<Longrightarrow> \<forall>v \<in> set vs. reads ntext rn v \<Longrightarrow>
   2 * length (json_join (map (json_text ntext) vs)) + 1 < n \<Longrightarrow>
   parse_items rn n (json_join (map (json_text ntext) vs) @ 0x5d # rest) = Some (vs, rest)"
proof (induction vs arbitrary: n)
  case (Cons v vs)
  obtain n' where n: "n = Suc n'" using Cons.prems(3) by (cases n) auto
  have v: "reads ntext rn v" using Cons.prems(2) by simp
  show ?case
  proof (cases vs)
    case Nil
    then have "parse_value rn n' (json_text ntext v @ 0x5d # rest) = Some (v, 0x5d # rest)"
      using Cons.prems(3) by (intro readsD [OF v]) (simp_all add: n json_join_Cons)
    with Nil show ?thesis by (simp add: n json_join_Cons skip_head is_json_ws_def)
  next
    case (Cons w ws)
    let ?more = "json_join (map (json_text ntext) vs)"
    have len: "2 * length (json_text ntext v) + 2 * length ?more + 2 < n'"
      using Cons.prems(3) by (simp add: n \<open>vs = w # ws\<close> json_join_Cons)
    then have "parse_value rn n' (json_text ntext v @ 0x2c # ?more @ 0x5d # rest) = Some (v, 0x2c # ?more @ 0x5d # rest)"
      by (intro readsD [OF v]) simp_all
    moreover have "parse_items rn n' (?more @ 0x5d # rest) = Some (vs, rest)"
      using Cons.prems(2) len by (intro Cons.IH) (simp_all add: \<open>vs = w # ws\<close>)
    ultimately show ?thesis by (simp add: n \<open>vs = w # ws\<close> json_join_Cons skip_head is_json_ws_def)
  qed
qed simp

definition member_text :: "(rat \<Rightarrow> jstr) \<Rightarrow> jstr \<times> js \<Rightarrow> jstr" where
  "member_text ntext e = json_quote (fst e) @ 0x3a # json_text ntext (snd e)"

lemma parse_members_text:
  "ps \<noteq> [] \<Longrightarrow> \<forall>e \<in> set ps. reads ntext rn (snd e) \<Longrightarrow>
   2 * length (json_join (map (member_text ntext) ps)) + 1 < n \<Longrightarrow>
   parse_members rn n (json_join (map (member_text ntext) ps) @ 0x7d # rest) = Some (ps, rest)"
proof (induction ps arbitrary: n)
  case (Cons e ps)
  obtain n' where n: "n = Suc n'" using Cons.prems(3) by (cases n) auto
  have v: "reads ntext rn (snd e)" using Cons.prems(2) by simp
  have ws: "skip_ws (0x22 # t) = 0x22 # t" "skip_ws (0x3a # t) = 0x3a # t" "skip_ws (0x7d # t) = 0x7d # t"
    "skip_ws (0x2c # t) = 0x2c # t" for t by (simp_all add: skip_head is_json_ws_def)
  show ?case
  proof (cases ps)
    case Nil
    then have "parse_value rn n' (json_text ntext (snd e) @ 0x7d # rest) = Some (snd e, 0x7d # rest)"
      using Cons.prems(3) by (intro readsD [OF v]) (simp_all add: n json_join_Cons member_text_def)
    with Nil show ?thesis
      by (simp add: n json_join_Cons ws member_text_def json_quote_def parse_json_body)
  next
    case (Cons f fs)
    let ?more = "json_join (map (member_text ntext) ps)"
    have len: "2 * length (json_text ntext (snd e)) + 2 * length ?more + 2 < n'"
      using Cons.prems(3) by (simp add: n \<open>ps = f # fs\<close> json_join_Cons member_text_def [of _ e])
    then have "parse_value rn n' (json_text ntext (snd e) @ 0x2c # ?more @ 0x7d # rest) =
        Some (snd e, 0x2c # ?more @ 0x7d # rest)"
      by (intro readsD [OF v]) simp_all
    moreover have "parse_members rn n' (?more @ 0x7d # rest) = Some (ps, rest)"
      using Cons.prems(2) len by (intro Cons.IH) (simp_all add: \<open>ps = f # fs\<close>)
    ultimately show ?thesis
      by (simp add: n \<open>ps = f # fs\<close> json_join_Cons ws member_text_def [of _ e] json_quote_def parse_json_body)
  qed
qed simp

lemma starts_with_head: "w \<noteq> [] \<Longrightarrow> starts_with w (c # cs) \<Longrightarrow> c = of_char (hd w)"
  by (cases w) (simp_all add: starts_with_def lit_def)

lemma starts_with_lit: "starts_with w (lit w @ t)"
  by (simp add: starts_with_def)

lemma fold_dput_fresh: "distinct (map fst (ps @ acc)) \<Longrightarrow> fold (\<lambda>(k, v). dput k v) ps acc = acc @ ps"
proof (induction ps arbitrary: acc)
  case (Cons e ps)
  obtain k v where e: "e = (k, v)" by (cases e)
  have "dput k v acc = acc @ [(k, v)]" using Cons.prems by (intro dput_fresh) (auto simp: e)
  with Cons show ?case by (auto simp: e)
qed simp

lemma no_undefined: "list_all plain_js vs \<Longrightarrow>
    map (\<lambda>v. if v = JUndefined then lit ''null'' else json_text ntext v) vs = map (json_text ntext) vs"
  by (induction vs) auto

lemma no_undefined_members: "list_all (\<lambda>(k, v). plain_js v) ps \<Longrightarrow>
    map (\<lambda>(k, v). json_quote k @ 0x3a # json_text ntext v) (filter (\<lambda>(k, v). v \<noteq> JUndefined) ps) =
    map (member_text ntext) ps"
  by (induction ps) (auto simp: member_text_def)

lemma items_head:
  assumes "vs \<noteq> []" and "list_all plain_js vs"
  shows "take 1 (skip_ws (json_join (map (json_text ntext) vs) @ t)) \<noteq> [0x5d]"
proof -
  obtain v ws where vs: "vs = v # ws" using assms(1) by (cases vs) auto
  with assms(2) plain_head [of v ntext] obtain c cs where "json_text ntext v = c # cs" "\<not> is_json_ws c" "c \<noteq> 0x5d"
    by auto
  then show ?thesis by (cases ws) (simp_all add: vs json_join_Cons skip_head)
qed

lemma members_head: "ps \<noteq> [] \<Longrightarrow> take 1 (skip_ws (json_join (map (member_text ntext) ps) @ t)) \<noteq> [0x7d]"
proof -
  assume "ps \<noteq> []"
  then obtain e fs where "ps = e # fs" by (cases ps) auto
  then show ?thesis by (cases fs) (simp_all add: json_join_Cons skip_head member_text_def json_quote_def is_json_ws_def)
qed

lemma reads_num:
  assumes "rounds rn" and "is_safe_integer x"
  shows "reads ntext rn (JNum x)"
  unfolding reads_def
proof (intro allI impI)
  fix n rest
  assume "follows rest" and "2 * length (json_text ntext (JNum x)) < n"
  then obtain n' where n: "n = Suc n'" by (cases n) auto
  let ?i = "the_int_of x"
  have x: "x = jint ?i" "\<bar>?i\<bar> \<le> 9007199254740991"
    using safe_integer_is_jint [OF assms(2)] assms(2) is_safe_integer_jint [of ?i] by simp_all
  obtain c cs where c: "int_text ?i = c # cs" "is_digit c \<or> c = 0x2d" using int_text_head by blast
  have "\<not> is_json_ws c" "c \<noteq> 0x22" "c \<noteq> 0x5b" "c \<noteq> 0x7b" "c \<noteq> of_char (CHR ''n'')"
    "c \<noteq> of_char (CHR ''t'')" "c \<noteq> of_char (CHR ''f'')"
    using c(2) by (auto simp: is_digit_def is_json_ws_def)
  moreover from this have "\<not> starts_with ''null'' (c # t)" "\<not> starts_with ''true'' (c # t)" "\<not> starts_with ''false'' (c # t)" for t
    by (auto dest!: starts_with_head [rotated])
  moreover have "parse_number (c # cs @ rest) = Some (of_int ?i, rest)"
    using parse_int [OF \<open>follows rest\<close>, of ?i] by (simp add: c)
  ultimately show "parse_value rn n (json_text ntext (JNum x) @ rest) = Some (JNum x, rest)"
    using assms x by (simp add: n json_number_def c skip_head rounds_def)
qed

lemma parse_atom:
  assumes "0 < n"
  shows "parse_value rn n (lit ''null'' @ rest) = Some (JNull, rest)"
    "parse_value rn n (lit ''true'' @ rest) = Some (JBool True, rest)"
    "parse_value rn n (lit ''false'' @ rest) = Some (JBool False, rest)"
    "parse_value rn n (json_quote s @ rest) = Some (JStr s, rest)"
  using assms by (cases n; simp add: lit_def skip_head starts_with_def is_json_ws_def json_quote_def parse_json_body)+

lemma reads_plain: "rounds rn \<Longrightarrow> plain_js v \<Longrightarrow> reads ntext rn v"
proof (induction v)
  case (JNum x)
  then show ?case by (simp add: reads_num)
next
  case (JArr vs)
  show ?case unfolding reads_def
  proof (intro allI impI)
    fix n rest
    assume "2 * length (json_text ntext (JArr vs)) < n"
    then obtain n' where n: "n = Suc n'" "2 * length (json_join (map (json_text ntext) vs)) + 1 < n'"
      using JArr.prems(2) by (cases n) (auto simp: no_undefined)
    have ws: "skip_ws (0x5b # t) = 0x5b # t" "skip_ws (0x5d # t) = 0x5d # t" for t
      by (simp_all add: skip_head is_json_ws_def)
    show "parse_value rn n (json_text ntext (JArr vs) @ rest) = Some (JArr vs, rest)"
    proof (cases "vs = []")
      case True
      then show ?thesis by (simp add: n ws json_join_def)
    next
      case False
      have "\<forall>v \<in> set vs. reads ntext rn v" using JArr by (auto simp: list_all_iff)
      from parse_items_text [OF False this n(2), of rest] items_head [OF False, of ntext "0x5d # rest"] JArr.prems(2)
      show ?thesis by (simp add: n ws no_undefined)
    qed
  qed
next
  case (JObj ps)
  show ?case unfolding reads_def
  proof (intro allI impI)
    fix n rest
    assume "2 * length (json_text ntext (JObj ps)) < n"
    then obtain n' where n: "n = Suc n'" "2 * length (json_join (map (member_text ntext) ps)) + 1 < n'"
      using JObj.prems(2) by (cases n) (auto simp: no_undefined_members)
    have ws: "skip_ws (0x7b # t) = 0x7b # t" "skip_ws (0x7d # t) = 0x7d # t" for t
      by (simp_all add: skip_head is_json_ws_def)
    show "parse_value rn n (json_text ntext (JObj ps) @ rest) = Some (JObj ps, rest)"
    proof (cases "ps = []")
      case True
      then show ?thesis by (simp add: n ws json_join_def)
    next
      case False
      have "\<forall>e \<in> set ps. reads ntext rn (snd e)"
        using JObj by (auto simp: list_all_iff)
      from parse_members_text [OF False this n(2), of rest] members_head [OF False, of ntext "0x7d # rest"] JObj.prems(2)
        fold_dput_fresh [of ps "[]"]
      show ?thesis by (simp add: n ws no_undefined_members wf_dict_def)
    qed
  qed
qed (auto simp: reads_def parse_atom)

text \<open>
  Parsing the text the Room prints for a value gives that value back, whatever its strings
  contain, for values made of integers a double holds exactly.
\<close>

theorem json_round_trip:
  assumes "rounds rn" and "plain_js v"
  shows "json_parse rn (json_text ntext v) = Some v"
proof -
  have "parse_value rn (2 * length (json_text ntext v) + 2) (json_text ntext v @ []) = Some (v, [])"
    by (rule readsD [OF reads_plain [OF assms]]) simp_all
  then show ?thesis by (simp add: json_parse_def skip_ws_def)
qed

theorem json_round_trip_witness:
  "json_parse Fin (json_text (\<lambda>_. []) (JObj [([0xd83d, 0x22], JArr [JNum (jint (- 12)), JNull])])) =
     Some (JObj [([0xd83d, 0x22], JArr [JNum (jint (- 12)), JNull])])"
  by (rule json_round_trip) (simp add: rounds_def jint_def, simp add: wf_dict_def)

end
