(* ===== verification/Room_Types.thy ===== *)
theory Room_Types
  imports Room_Prelude
begin

text \<open>
  The data model of the Room (app/src/room/types.ts). An interface is a record with the
  source's fields in the source's order; a field name carries a short prefix of its type
  because record fields share one name space. A union of string literals is a datatype.
  An optional field is an \<open>option\<close>.
\<close>

subsection \<open>Participants and their media\<close>

datatype participant_kind = Human | Agent

datatype agent_activity_state = Working | Waiting_approval | Queued_activity

datatype track_kind = Audio | Video

record media_track =
  mt_trackName :: jstr
  mt_kind :: track_kind
  mt_mid :: "jstr option"

record media_state =
  m_sessionId :: jstr
  m_muted :: bool
  m_fileChannelReady :: bool
  m_appDataChannelReady :: "bool option"
  m_tracks :: "media_track list"
  m_agentSubscribedMids :: "jstr list option"
  m_agentPublishedMid :: "jstr option"
  m_agentPublishedTrackName :: "jstr option"
  m_agentVoiceReady :: "bool option"

datatype prop_type = PString | PNumber | PBoolean

record capability_action =
  ca_name :: jstr
  ca_title :: jstr
  ca_properties :: "(jstr, prop_type) dict"
  ca_required :: "jstr list option"

record capability_projection =
  cp_capabilityId :: jstr
  cp_title :: jstr
  cp_version :: jstr
  cp_observe :: bool
  cp_actions :: "capability_action list"

record runtime_host =
  rh_runtimeHostId :: jstr
  rh_stt :: bool
  rh_tts :: bool
  rh_capabilities :: "capability_projection list option"

text \<open>A feature field is present only with the value \<open>true\<close>, so it is a \<open>bool\<close> here.\<close>

record runtime_features =
  rf_taskSessionContinuation :: bool
  rf_taskExecutionReconciliation :: bool

text \<open>\<open>text: true\<close> is the only value the type admits; a stored record may lack it.\<close>

record agent_capabilities =
  ac_text :: bool
  ac_advertised :: "jstr list option"

datatype image_mime = Image_jpeg | Image_png | Image_webp

record surface_v1 =
  sf_snapshotId :: jstr
  sf_mimeType :: image_mime
  sf_size :: int
  sf_updatedAt :: int

record data_transport =
  dt_sessionId :: jstr
  dt_ready :: bool

record participant =
  p_id :: jstr
  p_name :: jstr
  p_kind :: participant_kind
  p_connected :: bool
  p_joinedAt :: int
  p_lastSeenAt :: int
  p_connectionNonce :: "jstr option"
  p_token :: jstr
  p_capabilities :: "agent_capabilities option"
  p_surface :: "surface_v1 option"
  p_runtimeHostId :: "jstr option"
  p_runtimeFeatures :: "runtime_features option"
  p_media :: "media_state option"
  p_dataTransport :: "data_transport option"

type_synonym participants = "(jstr, participant) dict"
type_synonym runtime_hosts = "(jstr, runtime_host) dict"

text \<open>\<open>participants[id]?.kind === "agent"\<close>, and the same with \<open>.connected\<close>.\<close>

definition agent_in :: "participants \<Rightarrow> jstr \<Rightarrow> bool" where
  "agent_in ps i = (case dget ps i of Some p \<Rightarrow> p_kind p = Agent | None \<Rightarrow> False)"

definition connected_agent :: "participants \<Rightarrow> jstr \<Rightarrow> bool" where
  "connected_agent ps i =
     (case dget ps i of Some p \<Rightarrow> p_kind p = Agent \<and> p_connected p | None \<Rightarrow> False)"

definition connected_in :: "participants \<Rightarrow> jstr \<Rightarrow> bool" where
  "connected_in ps i = (case dget ps i of Some p \<Rightarrow> p_connected p | None \<Rightarrow> False)"

lemma connected_agentD: "connected_agent ps i \<Longrightarrow> agent_in ps i \<and> connected_in ps i"
  by (auto simp: connected_agent_def agent_in_def connected_in_def split: option.splits)

lemma connected_agentI: "agent_in ps i \<Longrightarrow> connected_in ps i \<Longrightarrow> connected_agent ps i"
  by (auto simp: connected_agent_def agent_in_def connected_in_def split: option.splits)

text \<open>The roster is keyed by the participant's own id.\<close>

definition wf_participants :: "participants \<Rightarrow> bool" where
  "wf_participants ps \<longleftrightarrow> wf_dict ps \<and> (\<forall>(k, p) \<in> set ps. p_id p = k)"

subsection \<open>Collaboration, permissions and messages\<close>

datatype collab_kind = Request | Accepted | Declined | Completed | Failed

record collab_event =
  ce_requestId :: jstr
  ce_kind :: collab_kind
  ce_from :: jstr
  ce_target :: jstr
  ce_summary :: "jstr option"
  ce_details :: "(jstr, jstr) dict option"
  ce_attachmentIds :: "jstr list option"

record permission_tool_call =
  tc_title :: jstr
  tc_kind :: "jstr option"
  tc_summary :: "jstr option"
  tc_details :: "(jstr, jstr) dict option"

record permission_option =
  po_optionId :: jstr
  po_name :: jstr
  po_kind :: "jstr option"

record permission_request =
  pq_requestId :: jstr
  pq_agent :: jstr
  pq_toolCall :: permission_tool_call
  pq_options :: "permission_option list"
  pq_createdAt :: int
  pq_expiresAt :: int

record permission_resolution =
  pr_requestId :: jstr
  pr_agent :: jstr
  pr_selectedOptionId :: jstr
  pr_humanId :: jstr
  pr_humanName :: jstr
  pr_createdAt :: int
  pr_expiresAt :: int

record permission_expiry =
  px_requestId :: jstr
  px_agent :: jstr
  px_createdAt :: int
  px_expiresAt :: int

datatype permission_event = Perm_request permission_request
  | Perm_resolved permission_resolution | Perm_expired permission_expiry

record permission_record =
  pp_requestId :: jstr
  pp_agent :: jstr
  pp_taskRequestId :: "jstr option"
  pp_sequence :: int
  pp_event :: permission_request

datatype message_type = Text_message | Action_message

record room_message =
  rm_id :: jstr
  rm_peerId :: jstr
  rm_name :: jstr
  rm_kind :: participant_kind
  rm_type :: message_type
  rm_text :: "jstr option"
  rm_actionType :: "jstr option"
  rm_actionPayload :: "(jstr, jstr) dict option"
  rm_collab :: "collab_event option"
  rm_permission :: "permission_event option"
  rm_taskRequestId :: "jstr option"
  rm_targets :: "jstr list option"
  rm_createdAt :: int
  rm_sequence :: int

subsection \<open>Media grants and the transcript\<close>

record meeting_notes =
  mn_active :: bool
  mn_agent :: "jstr option"
  mn_startedAt :: "jnum option"

record voice_grant =
  vg_enabled :: bool
  vg_enabledAt :: jnum

type_synonym agent_voice = "(jstr, voice_grant) dict"

datatype live_transcript = LT_inactive
  | LT_active (lt_producer: jstr) (lt_epoch: int) (lt_startedAt: int)

record transcript_segment =
  ts_segmentId :: jstr
  ts_epoch :: int
  ts_sequence :: int
  ts_participantId :: jstr
  ts_speaker :: jstr
  ts_text :: jstr
  ts_createdAt :: int

record pending_cleanup =
  pc_sessionId :: jstr
  pc_mids :: "jstr list"

record media_permissions =
  mp_canSubscribeHumanAudio :: bool
  mp_canPublishVoice :: bool

subsection \<open>Participants of the concrete examples\<close>

definition demo_participant :: "string \<Rightarrow> participant_kind \<Rightarrow> bool \<Rightarrow> participant" where
  "demo_participant i k c = \<lparr>p_id = lit i, p_name = lit i, p_kind = k, p_connected = c,
     p_joinedAt = 0, p_lastSeenAt = 0, p_connectionNonce = None, p_token = lit ''t'',
     p_capabilities = None, p_surface = None, p_runtimeHostId = None, p_runtimeFeatures = None,
     p_media = None, p_dataTransport = None\<rparr>"

definition demo_participants :: participants where
  "demo_participants = map (\<lambda>(i, k, c). (lit i, demo_participant i k c))
     [(''ana'', Human, True), (''bot'', Agent, True), (''old'', Agent, False)]"

lemma demo_participant_simps [simp]:
  "p_id (demo_participant i k c) = lit i" "p_kind (demo_participant i k c) = k"
  "p_connected (demo_participant i k c) = c"
  "p_media (demo_participant i k c) = None"
  "p_runtimeHostId (demo_participant i k c) = None"
  by (simp_all add: demo_participant_def)

lemma dget_demo [simp]: "dget demo_participants (lit i) =
   (if i = ''ana'' then Some (demo_participant ''ana'' Human True)
    else if i = ''bot'' then Some (demo_participant ''bot'' Agent True)
    else if i = ''old'' then Some (demo_participant ''old'' Agent False) else None)"
  by (simp add: demo_participants_def)

end
