(* ===== verification/Room_Interfaces.thy ===== *)
theory Room_Interfaces
  imports Room_Prelude
begin

text \<open>
  The contracts the components of the Room rely on, one locale each, with the facts that
  follow from the contract proved once. Every locale is interpreted on the code's own
  operations by the theory that models them.
\<close>

subsection \<open>Dictionaries\<close>

locale dictionary =
  fixes get :: "'m \<Rightarrow> 'k \<Rightarrow> 'v option"
    and put :: "'k \<Rightarrow> 'v \<Rightarrow> 'm \<Rightarrow> 'm"
    and del :: "'k \<Rightarrow> 'm \<Rightarrow> 'm"
    and keys :: "'m \<Rightarrow> 'k list"
    and invar :: "'m \<Rightarrow> bool"
  assumes get_put: "get (put k v m) = (get m)(k \<mapsto> v)"
    and get_del: "get (del k m) = (get m)(k := None)"
    and keys_get: "set (keys m) = dom (get m)"
    and keys_distinct: "invar m \<Longrightarrow> distinct (keys m)"
    and invar_put: "invar m \<Longrightarrow> invar (put k v m)"
    and invar_del: "invar m \<Longrightarrow> invar (del k m)"
begin

lemma put_del_get: "k' \<noteq> k \<Longrightarrow> get (put k v (del k' m)) k' = None"
  by (simp add: get_put get_del)

lemma invar_fold_del: "invar m \<Longrightarrow> invar (fold del ks m)"
  by (induction ks arbitrary: m) (auto simp: invar_del)

lemma get_fold_del: "get (fold del ks m) k = (if k \<in> set ks then None else get m k)"
  by (induction ks arbitrary: m) (auto simp: get_del)

lemma size_card: "invar m \<Longrightarrow> length (keys m) = card (dom (get m))"
  by (metis distinct_card keys_distinct keys_get)

lemma size_del: "invar m \<Longrightarrow> length (keys (del k m)) \<le> length (keys m)"
proof -
  assume m: "invar m"
  have "dom (get (del k m)) \<subseteq> dom (get m)" by (auto simp: get_del split: if_splits)
  moreover have "finite (dom (get m))" by (metis List.finite_set keys_get)
  ultimately show ?thesis using m by (simp add: size_card invar_del card_mono)
qed

end

interpretation rec_dict: dictionary map_of dput ddel "map fst" wf_dict
  by unfold_locales (auto simp: wf_dict_def dom_map_of_conv_image_fst
      intro: wf_dput [unfolded wf_dict_def] wf_ddel [unfolded wf_dict_def])

subsection \<open>Bounded stores that drop their oldest items\<close>

locale bounded_store =
  fixes items :: "'s \<Rightarrow> 'a list"
    and add :: "'x \<Rightarrow> 's \<Rightarrow> 's"
    and item :: "'x \<Rightarrow> 'a"
    and cap :: "'s \<Rightarrow> nat"
  assumes cap_add: "cap (add x s) = cap s"
    and add_bound: "0 < cap s \<Longrightarrow> length (items s) \<le> cap s \<Longrightarrow>
      length (items (add x s)) \<le> cap s"
    and add_subseq: "subseq (items (add x s)) (items s @ [item x])"
begin

lemma cap_run: "cap (fold add xs s) = cap s"
  by (induction xs arbitrary: s) (auto simp: cap_add)

lemma run_bound: "0 < cap s \<Longrightarrow> length (items s) \<le> cap s \<Longrightarrow>
    length (items (fold add xs s)) \<le> cap s"
proof (induction xs arbitrary: s)
  case (Cons x xs)
  then have "length (items (fold add xs (add x s))) \<le> cap (add x s)"
    by (intro Cons.IH) (simp_all add: cap_add add_bound)
  then show ?case by (simp add: cap_add)
qed simp

text \<open>Nothing is invented and nothing is reordered.\<close>

lemma run_subseq: "subseq (items (fold add xs s)) (items s @ map item xs)"
proof (induction xs arbitrary: s)
  case (Cons x xs)
  have "subseq (items (fold add xs (add x s))) (items (add x s) @ map item xs)"
    by (rule Cons.IH)
  also have "subseq \<dots> ((items s @ [item x]) @ map item xs)"
    by (rule list_emb_append_mono [OF add_subseq]) simp
  finally show ?case by simp
qed simp

end

text \<open>A log keeps the most recent items: what is dropped is a prefix.\<close>

locale bounded_log = bounded_store +
  assumes add_suffix: "suffix (items (add x s)) (items s @ [item x])"
begin

lemma run_suffix: "suffix (items (fold add xs s)) (items s @ map item xs)"
proof (induction xs arbitrary: s)
  case (Cons x xs)
  have "suffix (items (fold add xs (add x s))) (items (add x s) @ map item xs)"
    by (rule Cons.IH)
  also have "suffix \<dots> ((items s @ [item x]) @ map item xs)"
    using add_suffix [of x s] by (auto simp: suffix_def)
  finally show ?case by simp
qed simp

end

subsection \<open>Storage hygiene\<close>

text \<open>
  A loader repairs what it finds in storage into a well-formed value and says whether it
  changed anything. \<open>embed\<close> is the stored form of a repaired value.
\<close>

locale sanitizer =
  fixes repair :: "'a \<Rightarrow> 'b \<times> bool"
    and embed :: "'b \<Rightarrow> 'a"
    and ok :: "'b \<Rightarrow> bool"
  assumes repair_ok: "ok (fst (repair x))"
    and repair_fixed: "ok y \<Longrightarrow> repair (embed y) = (y, False)"
begin

text \<open>Loading what was saved changes nothing: a repaired Room is never saved twice.\<close>

lemma repair_idem: "repair (embed (fst (repair x))) = (fst (repair x), False)"
  by (rule repair_fixed [OF repair_ok])

end

subsection \<open>State machines\<close>

locale transition_system =
  fixes step :: "'e \<Rightarrow> 's \<Rightarrow> 's"
    and invar :: "'s \<Rightarrow> bool"
  assumes invar_step: "invar s \<Longrightarrow> invar (step e s)"
begin

lemma invar_run: "invar s \<Longrightarrow> invar (fold step es s)"
  by (induction es arbitrary: s) (auto simp: invar_step)

end

end
