(* ===== verification/Runtime_Host.thy ===== *)
theory Runtime_Host
  imports Json Room_Types Room_Interfaces
begin

text \<open>
  Runtime Hosts: the bounded projection of one local capability
  (app/src/common/runtimeCapability.ts) and the shared host map an Agent registers its host
  in (app/src/do/runtimeHost.ts). A read of the host map by an id that is an inherited
  property name finds \<open>Object.prototype\<close>'s own value, which has no \<open>speech\<close>: reading its
  \<open>speech.stt\<close> raises, so such a read has a result of its own (\<open>Host_inherited\<close>).
\<close>

subsection \<open>Capability projections\<close>

definition RUNTIME_CAPABILITY_MAX_DESCRIPTOR_BYTES :: nat where
  "RUNTIME_CAPABILITY_MAX_DESCRIPTOR_BYTES = 1024"
definition RUNTIME_CAPABILITY_MAX_ARGS_BYTES :: nat where
  "RUNTIME_CAPABILITY_MAX_ARGS_BYTES = 8192"
definition RUNTIME_CAPABILITY_MAX_RESULT_BYTES :: nat where
  "RUNTIME_CAPABILITY_MAX_RESULT_BYTES = 16 * 1024"
definition RUNTIME_CAPABILITY_MAX_ACTIONS :: nat where
  "RUNTIME_CAPABILITY_MAX_ACTIONS = 4"
definition RUNTIME_CAPABILITY_MAX_ROOM_HOSTS :: nat where
  "RUNTIME_CAPABILITY_MAX_ROOM_HOSTS = 8"

text \<open>\<open>/https?:\/\//i\<close>.\<close>

definition mentions_url :: "jstr \<Rightarrow> bool" where
  "mentions_url s \<longleftrightarrow> contains_ci ''http://'' s \<or> contains_ci ''https://'' s"

definition boundedText :: "js \<Rightarrow> nat \<Rightarrow> bool" where
  "boundedText v m = (case v of
     JStr s \<Rightarrow> 0 < length s \<and> length s \<le> m \<and> js_trim s = s \<and> \<not> list_ex is_control s \<and>
       \<not> mentions_url s
   | _ \<Rightarrow> False)"

definition sensitive_words :: "string list" where
  "sensitive_words = [''endpoint'', ''url'', ''credential'', ''password'', ''secret'', ''token'',
     ''adapter'', ''protocol'', ''hostname'', ''authorization'', ''cookie'', ''method'', ''path'']"

definition sensitiveFieldName :: "jstr \<Rightarrow> bool" where
  "sensitiveFieldName s \<longleftrightarrow> list_ex (\<lambda>w. contains_ci w s) sensitive_words"

fun safeCapabilityValue :: "js \<Rightarrow> nat \<Rightarrow> bool" where
  "safeCapabilityValue JUndefined depth \<longleftrightarrow> False"
| "safeCapabilityValue JNull depth \<longleftrightarrow> depth \<le> 4"
| "safeCapabilityValue (JBool b) depth \<longleftrightarrow> depth \<le> 4"
| "safeCapabilityValue (JNum n) depth \<longleftrightarrow> depth \<le> 4 \<and> is_finite_num n"
| "safeCapabilityValue (JStr s) depth \<longleftrightarrow> depth \<le> 4 \<and> length s \<le> 4096 \<and> \<not> mentions_url s"
| "safeCapabilityValue (JArr vs) depth \<longleftrightarrow> depth \<le> 4 \<and> length vs \<le> 32 \<and>
     list_all (\<lambda>v. safeCapabilityValue v (Suc depth)) vs"
| "safeCapabilityValue (JObj ps) depth \<longleftrightarrow> depth \<le> 4 \<and> length ps \<le> 32 \<and>
     list_all (\<lambda>(k, v). length k \<le> 64 \<and> \<not> sensitiveFieldName k \<and>
       safeCapabilityValue v (Suc depth)) ps"

text \<open>\<open>/^[a-z0-9][a-z0-9._:-]{0,63}$/\<close> and \<open>/^[a-z][a-z0-9_-]{0,31}$/\<close>.\<close>

definition isRuntimeCapabilityId :: "js \<Rightarrow> bool" where
  "isRuntimeCapabilityId v = (case v of
     JStr (c # cs) \<Rightarrow> (is_lower c \<or> is_digit c) \<and> length cs \<le> 63 \<and>
       list_all (\<lambda>d. is_lower d \<or> is_digit d \<or> d = 0x2e \<or> d = 0x5f \<or> d = 0x3a \<or> d = 0x2d) cs
   | _ \<Rightarrow> False)"

definition isRuntimeCapabilityActionName :: "js \<Rightarrow> bool" where
  "isRuntimeCapabilityActionName v = (case v of
     JStr (c # cs) \<Rightarrow> is_lower c \<and> length cs \<le> 31 \<and>
       list_all (\<lambda>d. is_lower d \<or> is_digit d \<or> d = 0x5f \<or> d = 0x2d) cs
   | _ \<Rightarrow> False)"

text \<open>\<open>/^[a-z][a-zA-Z0-9_]{0,31}$/\<close>.\<close>

definition property_name_ok :: "jstr \<Rightarrow> bool" where
  "property_name_ok s = (case s of [] \<Rightarrow> False
     | c # cs \<Rightarrow> is_lower c \<and> length cs \<le> 31 \<and> list_all (\<lambda>d. is_alnum d \<or> d = 0x5f) cs)"

definition prop_type_of :: "js \<Rightarrow> prop_type option" where
  "prop_type_of v =
     (if v = JStr (lit ''string'') then Some PString
      else if v = JStr (lit ''number'') then Some PNumber
      else if v = JStr (lit ''boolean'') then Some PBoolean else None)"

fun clean_properties :: "(jstr \<times> js) list \<Rightarrow> (jstr, prop_type) dict \<Rightarrow> (jstr, prop_type) dict option" where
  "clean_properties [] d = Some d"
| "clean_properties ((key, ty) # rest) d =
     (if \<not> property_name_ok key \<or> sensitiveFieldName key then None
      else (case prop_type_of ty of None \<Rightarrow> None
        | Some t \<Rightarrow> clean_properties rest (dput key t d)))"

fun js_strs :: "js list \<Rightarrow> jstr list" where
  "js_strs [] = []"
| "js_strs (v # vs) = (case v of JStr s \<Rightarrow> s # js_strs vs | _ \<Rightarrow> js_strs vs)"

text \<open>The \<open>required\<close> list: \<open>Some None\<close> when absent, \<open>None\<close> when refused.\<close>

definition clean_required :: "js \<Rightarrow> (jstr, prop_type) dict \<Rightarrow> jstr list option option" where
  "clean_required v d = (case v of
     JUndefined \<Rightarrow> Some None
   | JArr ks \<Rightarrow>
       if length d < length ks
          \<or> \<not> list_all (\<lambda>k. case k of JStr s \<Rightarrow> s \<in> fst ` set d | _ \<Rightarrow> False) ks
          \<or> length (dedupe ks) \<noteq> length ks
       then None else Some (Some (js_strs ks))
   | _ \<Rightarrow> None)"

definition js_string :: "js \<Rightarrow> jstr" where
  "js_string v = (case v of JStr s \<Rightarrow> s | _ \<Rightarrow> [])"

definition clean_action :: "js \<Rightarrow> jstr list \<Rightarrow> capability_action option" where
  "clean_action raw names =
     (let name = js_get raw ''name''; title = js_get raw ''title''; input = js_get raw ''input'';
          properties = js_get input ''properties''; required = js_get input ''required'' in
      if \<not> is_record raw then None
      else if \<not> isRuntimeCapabilityActionName name \<or> sensitiveFieldName (js_string name)
         \<or> js_string name \<in> set names \<or> \<not> boundedText title 64 \<or> \<not> is_record input then None
      else if js_get input ''type'' \<noteq> JStr (lit ''object'') \<or> \<not> is_record properties
         \<or> 16 < length (js_keys properties)
         \<or> (required \<noteq> JUndefined \<and> (case required of JArr _ \<Rightarrow> False | _ \<Rightarrow> True)) then None
      else (case clean_properties (case properties of JObj ps \<Rightarrow> ps | _ \<Rightarrow> []) [] of
        None \<Rightarrow> None
      | Some d \<Rightarrow> (case clean_required required d of
          None \<Rightarrow> None
        | Some req \<Rightarrow> Some \<lparr>ca_name = js_string name, ca_title = js_string title,
            ca_properties = d, ca_required = req\<rparr>)))"

fun clean_actions :: "js list \<Rightarrow> capability_action list \<Rightarrow> capability_action list option" where
  "clean_actions [] actions = Some actions"
| "clean_actions (raw # rest) actions = (case clean_action raw (map ca_name actions) of
     None \<Rightarrow> None | Some a \<Rightarrow> clean_actions rest (actions @ [a]))"

text \<open>The projection as the object whose JSON text is measured.\<close>

definition prop_type_js :: "prop_type \<Rightarrow> js" where
  "prop_type_js t = JStr (case t of PString \<Rightarrow> lit ''string'' | PNumber \<Rightarrow> lit ''number''
     | PBoolean \<Rightarrow> lit ''boolean'')"

definition action_js :: "capability_action \<Rightarrow> js" where
  "action_js a = JObj [(lit ''name'', JStr (ca_name a)), (lit ''title'', JStr (ca_title a)),
     (lit ''input'', JObj ([(lit ''type'', JStr (lit ''object'')),
        (lit ''properties'', JObj (map (\<lambda>(k, t). (k, prop_type_js t)) (ca_properties a)))] @
        (case ca_required a of None \<Rightarrow> [] | Some r \<Rightarrow> [(lit ''required'', JArr (map JStr r))])))]"

definition projection_js :: "capability_projection \<Rightarrow> js" where
  "projection_js p = JObj [(lit ''capabilityId'', JStr (cp_capabilityId p)),
     (lit ''title'', JStr (cp_title p)), (lit ''version'', JStr (cp_version p)),
     (lit ''observe'', JBool (cp_observe p)), (lit ''actions'', JArr (map action_js (cp_actions p)))]"

definition validateRuntimeCapabilityProjection ::
    "(rat \<Rightarrow> jstr) \<Rightarrow> js \<Rightarrow> capability_projection option" where
  "validateRuntimeCapabilityProjection ntext v =
     (if \<not> is_record v then None
      else (case (js_get v ''observe'', js_get v ''actions'') of
        (JBool observe, JArr raws) \<Rightarrow>
          if \<not> isRuntimeCapabilityId (js_get v ''capabilityId'')
             \<or> \<not> boundedText (js_get v ''title'') 64 \<or> \<not> boundedText (js_get v ''version'') 32
             \<or> RUNTIME_CAPABILITY_MAX_ACTIONS < length raws then None
          else (case clean_actions raws [] of
            None \<Rightarrow> None
          | Some actions \<Rightarrow>
              (let projection = \<lparr>cp_capabilityId = js_string (js_get v ''capabilityId''),
                     cp_title = js_string (js_get v ''title''),
                     cp_version = js_string (js_get v ''version''),
                     cp_observe = observe, cp_actions = actions\<rparr> in
               if RUNTIME_CAPABILITY_MAX_DESCRIPTOR_BYTES < json_bytes ntext (projection_js projection)
               then None else Some projection))
      | _ \<Rightarrow> None))"

definition isBoundedRuntimeCapabilityArgs :: "(rat \<Rightarrow> jstr) \<Rightarrow> js \<Rightarrow> bool" where
  "isBoundedRuntimeCapabilityArgs ntext v \<longleftrightarrow> is_record v \<and> safeCapabilityValue v 0 \<and>
     json_bytes ntext v \<le> RUNTIME_CAPABILITY_MAX_ARGS_BYTES"

definition isBoundedRuntimeCapabilityResult :: "(rat \<Rightarrow> jstr) \<Rightarrow> js \<Rightarrow> bool" where
  "isBoundedRuntimeCapabilityResult ntext v \<longleftrightarrow> is_record v \<and> safeCapabilityValue v 0 \<and>
     json_bytes ntext v \<le> RUNTIME_CAPABILITY_MAX_RESULT_BYTES"

subsection \<open>Host projections\<close>

text \<open>\<open>/^[A-Za-z0-9._:-]{8,64}$/\<close>.\<close>

definition RUNTIME_HOST_ID_PATTERN :: "jstr \<Rightarrow> bool" where
  "RUNTIME_HOST_ID_PATTERN s \<longleftrightarrow> 8 \<le> length s \<and> length s \<le> 64 \<and> list_all is_id_unit s"

definition isValidRuntimeHostId :: "js \<Rightarrow> bool" where
  "isValidRuntimeHostId v = (case v of JStr s \<Rightarrow> RUNTIME_HOST_ID_PATTERN s | _ \<Rightarrow> False)"

text \<open>The result is the \<open>reason\<close> of a refusal, or the projection.\<close>

definition validateRuntimeHost :: "(rat \<Rightarrow> jstr) \<Rightarrow> js \<Rightarrow> string + runtime_host" where
  "validateRuntimeHost ntext input =
     (if \<not> is_record input then Inl ''must_be_object''
      else (case js_get input ''runtimeHostId'' of
        JStr hostId \<Rightarrow>
          if \<not> RUNTIME_HOST_ID_PATTERN hostId then Inl ''invalid_runtime_host_id''
          else if \<not> is_record (js_get input ''speech'') then Inl ''invalid_speech''
          else (case (js_get (js_get input ''speech'') ''stt'', js_get (js_get input ''speech'') ''tts'') of
            (JBool slots, JBool voice) \<Rightarrow>
              (case js_get input ''capabilities'' of
                JUndefined \<Rightarrow> Inr \<lparr>rh_runtimeHostId = hostId, rh_stt = slots, rh_tts = voice,
                  rh_capabilities = None\<rparr>
              | JArr raws \<Rightarrow>
                  if 1 < length raws then Inl ''invalid_capabilities''
                  else (let parsed = map (validateRuntimeCapabilityProjection ntext) raws in
                    if list_ex (\<lambda>c. c = None) parsed then Inl ''invalid_capabilities''
                    else Inr \<lparr>rh_runtimeHostId = hostId, rh_stt = slots, rh_tts = voice,
                      rh_capabilities = Some (map the parsed)\<rparr>)
              | _ \<Rightarrow> Inl ''invalid_capabilities'')
          | _ \<Rightarrow> Inl ''invalid_speech'')
      | _ \<Rightarrow> Inl ''invalid_runtime_host_id''))"

definition sanitizeStoredRuntimeHost :: "(rat \<Rightarrow> jstr) \<Rightarrow> js \<Rightarrow> runtime_host option" where
  "sanitizeStoredRuntimeHost ntext input =
     (case validateRuntimeHost ntext input of Inr h \<Rightarrow> Some h | Inl _ \<Rightarrow> None)"

text \<open>\<open>capabilities?.length\<close> as a truth value.\<close>

definition has_capabilities :: "runtime_host \<Rightarrow> bool" where
  "has_capabilities h = (case rh_capabilities h of Some cs \<Rightarrow> 0 < length cs | None \<Rightarrow> False)"

text \<open>\<open>hosts[id] = host\<close>: assigning an object to \<open>__proto__\<close> adds no own property.\<close>

definition assign_host :: "jstr \<Rightarrow> runtime_host \<Rightarrow> runtime_hosts \<Rightarrow> runtime_hosts" where
  "assign_host k h hosts = (if k = lit ''__proto__'' then hosts else dput k h hosts)"

definition stored_host_candidate :: "jstr \<Rightarrow> js \<Rightarrow> js" where
  "stored_host_candidate hostId raw = JObj ((lit ''runtimeHostId'', JStr hostId) #
     (if is_objectish raw then [(lit ''speech'', js_get raw ''speech''),
        (lit ''capabilities'', js_get raw ''capabilities'')] else []))"

fun sanitize_hosts :: "(rat \<Rightarrow> jstr) \<Rightarrow> (jstr \<times> js) list \<Rightarrow> nat \<Rightarrow> runtime_hosts \<Rightarrow> runtime_hosts" where
  "sanitize_hosts ntext [] capabilityHosts hosts = hosts"
| "sanitize_hosts ntext ((hostId, raw) # rest) capabilityHosts hosts =
     (if \<not> RUNTIME_HOST_ID_PATTERN hostId then sanitize_hosts ntext rest capabilityHosts hosts
      else (case validateRuntimeHost ntext (stored_host_candidate hostId raw) of
        Inl _ \<Rightarrow> sanitize_hosts ntext rest capabilityHosts hosts
      | Inr h \<Rightarrow>
          if has_capabilities h \<and> RUNTIME_CAPABILITY_MAX_ROOM_HOSTS \<le> capabilityHosts
          then sanitize_hosts ntext rest capabilityHosts
            (assign_host hostId (h\<lparr>rh_capabilities := Some []\<rparr>) hosts)
          else sanitize_hosts ntext rest
            (if has_capabilities h then Suc capabilityHosts else capabilityHosts)
            (assign_host hostId h hosts)))"

definition sanitizeStoredRuntimeHosts :: "(rat \<Rightarrow> jstr) \<Rightarrow> js \<Rightarrow> runtime_hosts" where
  "sanitizeStoredRuntimeHosts ntext input = (case input of
     JObj entries \<Rightarrow> sanitize_hosts ntext entries 0 [] | _ \<Rightarrow> [])"

text \<open>\<open>Object.keys(v).length\<close> of a value that is not null or undefined.\<close>

definition key_count :: "js \<Rightarrow> nat" where
  "key_count v = (case v of JObj ps \<Rightarrow> length ps | JArr vs \<Rightarrow> length vs | JStr s \<Rightarrow> length s | _ \<Rightarrow> 0)"

datatype host_read = Host_absent | Host_own runtime_host | Host_inherited

text \<open>\<open>runtimeHosts?.[id]\<close>.\<close>

definition read_host :: "runtime_hosts option \<Rightarrow> jstr \<Rightarrow> host_read" where
  "read_host hosts i = (case hosts of
     None \<Rightarrow> Host_absent
   | Some m \<Rightarrow> (case dget m i of Some h \<Rightarrow> Host_own h
       | None \<Rightarrow> if i \<in> set proto_keys then Host_inherited else Host_absent))"

definition normalizeRuntimeHosts ::
    "(rat \<Rightarrow> jstr) \<Rightarrow> js \<Rightarrow> participant list \<Rightarrow> runtime_hosts \<times> jstr list \<times> bool" where
  "normalizeRuntimeHosts ntext input participants =
     (let hosts = sanitizeStoredRuntimeHosts ntext input;
          dropped = input \<noteq> JUndefined \<and> input \<noteq> JNull \<and> length hosts \<noteq> key_count input;
          dangling = map p_id (filter (\<lambda>p. case p_runtimeHostId p of
             None \<Rightarrow> False
           | Some i \<Rightarrow> \<not> RUNTIME_HOST_ID_PATTERN i \<or> read_host (Some hosts) i = Host_absent)
             participants) in
      (hosts, dangling, dropped \<or> dangling \<noteq> []))"

definition projectRuntimeHosts :: "runtime_hosts option \<Rightarrow> runtime_hosts" where
  "projectRuntimeHosts hosts = (case hosts of Some m \<Rightarrow> m | None \<Rightarrow> [])"

definition registerRuntimeHost :: "runtime_hosts option \<Rightarrow> runtime_host \<Rightarrow> runtime_hosts" where
  "registerRuntimeHost hosts host =
     (let existing = length (filter (\<lambda>(i, h). i \<noteq> rh_runtimeHostId host \<and> has_capabilities h)
            (projectRuntimeHosts hosts));
          bounded = (if has_capabilities host \<and> RUNTIME_CAPABILITY_MAX_ROOM_HOSTS \<le> existing
            then host\<lparr>rh_capabilities := Some []\<rparr> else host) in
      dput (rh_runtimeHostId host) bounded (projectRuntimeHosts hosts))"

record host_update =
  hu_runtimeHosts :: runtime_hosts
  hu_previousHostId :: "jstr option"
  hu_previousProjection :: host_read

definition updateRuntimeHost ::
    "runtime_hosts option \<Rightarrow> participant list \<Rightarrow> jstr \<Rightarrow> runtime_host \<Rightarrow> host_update" where
  "updateRuntimeHost hosts participants participantId host =
     \<lparr>hu_runtimeHosts = registerRuntimeHost hosts host,
      hu_previousHostId = Option.bind (List.find (\<lambda>p. p_id p = participantId) participants) p_runtimeHostId,
      hu_previousProjection = read_host hosts (rh_runtimeHostId host)\<rparr>"

definition runtimeHostParticipantIds :: "participant list \<Rightarrow> jstr \<Rightarrow> jstr option \<Rightarrow> jstr list" where
  "runtimeHostParticipantIds participants hostId include =
     dedupe (map p_id (filter (\<lambda>p. p_kind p = Agent \<and>
       (p_runtimeHostId p = Some hostId \<or> Some (p_id p) = include)) participants))"

definition garbageCollectRuntimeHosts ::
    "runtime_hosts option \<Rightarrow> participant list \<Rightarrow> runtime_hosts option" where
  "garbageCollectRuntimeHosts hosts participants =
     map_option (filter (\<lambda>(i, h). Some i \<in> p_runtimeHostId ` set participants)) hosts"

text \<open>\<open>participant.runtimeHostId ? ... : undefined\<close>: the empty string is falsy.\<close>

definition truthy_host_id :: "participant \<Rightarrow> jstr option" where
  "truthy_host_id p = (case p_runtimeHostId p of
     Some i \<Rightarrow> if i = [] then None else Some i | None \<Rightarrow> None)"

definition runtimeHostForParticipant :: "runtime_hosts option \<Rightarrow> participant \<Rightarrow> host_read" where
  "runtimeHostForParticipant hosts p = (case truthy_host_id p of
     Some i \<Rightarrow> read_host hosts i | None \<Rightarrow> Host_absent)"


subsection \<open>At most eight hosts expose a capability\<close>

definition capability_hosts :: "runtime_hosts \<Rightarrow> nat" where
  "capability_hosts m = length (filter (\<lambda>(i, h). has_capabilities h) m)"

lemma capability_hosts_dput_le:
  "capability_hosts (dput k h m) \<le> capability_hosts m + (if has_capabilities h then 1 else 0)"
  by (induction k h m rule: dput.induct) (auto simp: capability_hosts_def)

lemma capability_hosts_dput:
  "wf_dict m \<Longrightarrow> capability_hosts (dput k h m) =
     length (filter (\<lambda>(i, h). i \<noteq> k \<and> has_capabilities h) m) + (if has_capabilities h then 1 else 0)"
proof (induction k h m rule: dput.induct)
  case (2 k h a b m)
  have same: "filter (\<lambda>(i, h). i \<noteq> k \<and> has_capabilities h) m = filter (\<lambda>(i, h). has_capabilities h) m"
    if "a = k" using 2 that by (intro filter_cong) (force simp: wf_dict_def)+
  from 2 show ?case by (auto simp: capability_hosts_def wf_dict_def same)
qed (simp add: capability_hosts_def)

lemma no_capabilities [simp]: "\<not> has_capabilities (h\<lparr>rh_capabilities := Some []\<rparr>)"
  by (simp add: has_capabilities_def)

lemma sanitize_hosts_bounded:
  "capability_hosts hosts \<le> n \<Longrightarrow> n \<le> RUNTIME_CAPABILITY_MAX_ROOM_HOSTS \<Longrightarrow>
   capability_hosts (sanitize_hosts ntext es n hosts) \<le> RUNTIME_CAPABILITY_MAX_ROOM_HOSTS"
proof (induction ntext es n hosts rule: sanitize_hosts.induct)
  case (2 ntext hostId raw rest n hosts)
  have put: "capability_hosts (assign_host hostId h hosts) \<le> n + (if has_capabilities h then 1 else 0)"
    for h using 2 capability_hosts_dput_le [of hostId h hosts] by (auto simp: assign_host_def)
  have keep: "capability_hosts (assign_host hostId (h\<lparr>rh_capabilities := Some []\<rparr>) hosts) \<le> n"
    for h using put [of "h\<lparr>rh_capabilities := Some []\<rparr>"] by simp
  show ?case
  proof (cases "validateRuntimeHost ntext (stored_host_candidate hostId raw)")
    case (Inr h)
    show ?thesis
    proof (cases "has_capabilities h \<and> RUNTIME_CAPABILITY_MAX_ROOM_HOSTS \<le> n")
      case True
      with 2 Inr keep [of h] show ?thesis by auto
    next
      case False
      with 2 Inr put [of h] show ?thesis by (auto simp: not_le Suc_le_eq)
    qed
  qed (use 2 in simp)
qed simp

lemma wf_assign_host [wf_intros]: "wf_dict m \<Longrightarrow> wf_dict (assign_host k h m)"
  by (simp add: assign_host_def wf_dput)

lemma wf_sanitize_hosts: "wf_dict hosts \<Longrightarrow> wf_dict (sanitize_hosts ntext es n hosts)"
  by (induction ntext es n hosts rule: sanitize_hosts.induct) (simp_all add: wf_assign_host split: sum.split)

definition hosts_ok :: "runtime_hosts \<Rightarrow> bool" where
  "hosts_ok m \<longleftrightarrow> wf_dict m \<and> capability_hosts m \<le> RUNTIME_CAPABILITY_MAX_ROOM_HOSTS"

lemma hosts_ok_sanitized: "hosts_ok (sanitizeStoredRuntimeHosts ntext v)"
  by (auto simp: sanitizeStoredRuntimeHosts_def hosts_ok_def capability_hosts_def
      wf_sanitize_hosts sanitize_hosts_bounded [unfolded capability_hosts_def] split: js.split)

lemma other_hosts_le: "length (filter (\<lambda>(i, h). i \<noteq> k \<and> has_capabilities h) m) \<le> capability_hosts m"
  by (induction m) (auto simp: capability_hosts_def)

lemma hosts_ok_register: "hosts_ok m \<Longrightarrow> hosts_ok (registerRuntimeHost (Some m) h)"
  using other_hosts_le [of "rh_runtimeHostId h" m]
  by (auto simp: hosts_ok_def registerRuntimeHost_def projectRuntimeHosts_def Let_def
      wf_dput capability_hosts_dput not_le)

subsection \<open>Garbage collection\<close>

lemma dget_filter_key: "dget (filter (\<lambda>(i, h). P i) m) k = (if P k then dget m k else None)"
  by (induction m) auto

lemma gc_exact: "garbageCollectRuntimeHosts (Some m) ps = Some m' \<Longrightarrow>
    dget m' i = (if Some i \<in> p_runtimeHostId ` set ps then dget m i else None)"
  by (auto simp: garbageCollectRuntimeHosts_def dget_filter_key)

subsection \<open>A projection revalidates to itself\<close>

lemma clean_properties_ok:
  "clean_properties ps d = Some d' \<Longrightarrow> wf_dict d \<Longrightarrow>
     list_all (\<lambda>(k, t). property_name_ok k \<and> \<not> sensitiveFieldName k) d \<Longrightarrow>
   wf_dict d' \<and> length d' \<le> length d + length ps \<and>
     list_all (\<lambda>(k, t). property_name_ok k \<and> \<not> sensitiveFieldName k) d'"
proof (induction ps d rule: clean_properties.induct)
  case (2 key ty rest d)
  then obtain t where t: "prop_type_of ty = Some t" "property_name_ok key" "\<not> sensitiveFieldName key"
    by (auto split: if_splits option.splits)
  have "list_all (\<lambda>(k, t). property_name_ok k \<and> \<not> sensitiveFieldName k) (dput key t d)"
    using 2 t keys_dput [of key t d] by (fastforce simp: list_all_iff image_iff split_beta)
  with 2 t show ?case by (auto simp: wf_dput length_dput split: if_splits)
qed simp

lemma prop_type_round [simp]: "prop_type_of (prop_type_js t) = Some t"
  by (cases t) (simp_all add: prop_type_of_def prop_type_js_def)

lemma clean_properties_round:
  "wf_dict (acc @ d) \<Longrightarrow> list_all (\<lambda>(k, t). property_name_ok k \<and> \<not> sensitiveFieldName k) d \<Longrightarrow>
   clean_properties (map (\<lambda>(k, t). (k, prop_type_js t)) d) acc = Some (acc @ d)"
proof (induction d arbitrary: acc)
  case (Cons x d)
  obtain k t where x: "x = (k, t)" by (cases x)
  have "dput k t acc = acc @ [(k, t)]"
    using Cons.prems x by (intro dput_fresh) (auto simp: wf_dict_def)
  with Cons x show ?case by simp
qed simp

lemma js_strs_map [simp]: "js_strs (map JStr r) = r"
  by (induction r) auto

lemma dedupe_map_JStr: "length (dedupe (map JStr r)) = length r \<longleftrightarrow> distinct r"
  by (metis card_distinct distinct_card distinct_dedupe distinct_map inj_on_def js.inject(3) length_map set_dedupe)

lemma clean_required_ok: "clean_required v d = Some (Some r) \<Longrightarrow>
    v = JArr (map JStr r) \<and> clean_required (JArr (map JStr r)) d = Some (Some r)"
proof -
  assume ok: "clean_required v d = Some (Some r)"
  then obtain ks where v: "v = JArr ks" by (auto simp: clean_required_def split: js.splits)
  have "list_all (\<lambda>k. case k of JStr s \<Rightarrow> s \<in> fst ` set d | _ \<Rightarrow> False) ks \<Longrightarrow> map JStr (js_strs ks) = ks"
    by (induction ks) (auto split: js.splits)
  with ok v have "ks = map JStr r" by (auto simp: clean_required_def split: if_splits)
  with ok v show ?thesis by simp
qed

lemma js_get_hit [simp]: "js_get (JObj ((lit k, v) # ps)) k' = (if k = k' then v else js_get (JObj ps) k')"
  by (simp add: js_get_def)

lemma js_get_Nil [simp]: "js_get (JObj []) k = JUndefined"
  by (simp add: js_get_def)

lemma boundedText_str: "boundedText v n \<Longrightarrow> v = JStr (js_string v)"
  by (auto simp: boundedText_def js_string_def split: js.splits)

lemma action_name_str: "isRuntimeCapabilityActionName v \<Longrightarrow> v = JStr (js_string v)"
  by (auto simp: isRuntimeCapabilityActionName_def js_string_def split: js.splits)

lemma capability_id_str: "isRuntimeCapabilityId v \<Longrightarrow> v = JStr (js_string v)"
  by (auto simp: isRuntimeCapabilityId_def js_string_def split: js.splits)

lemma js_string_JStr [simp]: "js_string (JStr s) = s"
  by (simp add: js_string_def)

lemma clean_action_round:
  assumes "clean_action raw names = Some a"
  shows "clean_action (action_js a) names = Some a"
proof -
  let ?name = "js_get raw ''name''" and ?title = "js_get raw ''title''"
    and ?input = "js_get raw ''input''"
  from assms have name: "isRuntimeCapabilityActionName ?name" "\<not> sensitiveFieldName (js_string ?name)"
      "js_string ?name \<notin> set names" and title: "boundedText ?title 64"
    by (auto simp: clean_action_def Let_def split: if_splits)
  from assms obtain ps where ps: "js_get ?input ''properties'' = JObj ps" "length ps \<le> 16"
    by (auto simp: clean_action_def Let_def is_record_def js_keys_def split: if_splits js.splits)
  with assms obtain d req where d: "clean_properties ps [] = Some d"
      and req: "clean_required (js_get ?input ''required'') d = Some req"
      and a: "a = \<lparr>ca_name = js_string ?name, ca_title = js_string ?title, ca_properties = d,
        ca_required = req\<rparr>"
    by (auto simp: clean_action_def Let_def split: if_splits option.splits)
  from clean_properties_ok [OF d] ps have d_ok: "wf_dict d" "length d \<le> 16"
      "list_all (\<lambda>(k, t). property_name_ok k \<and> \<not> sensitiveFieldName k) d" by auto
  then have props: "clean_properties (map (\<lambda>(k, t). (k, prop_type_js t)) d) [] = Some d"
    using clean_properties_round [of "[]" d] by simp
  have strs: "isRuntimeCapabilityActionName (JStr (js_string ?name))" "boundedText (JStr (js_string ?title)) 64"
    using name title action_name_str boundedText_str by metis+
  show ?thesis
  proof (cases req)
    case None
    with strs name d_ok props show ?thesis
      by (simp add: a clean_action_def action_js_def is_record_def js_keys_def Let_def clean_required_def)
  next
    case (Some r)
    with req have "clean_required (JArr (map JStr r)) d = Some (Some r)"
      using clean_required_ok by blast
    with strs name d_ok props Some show ?thesis
      by (simp add: a clean_action_def action_js_def is_record_def js_keys_def Let_def)
  qed
qed

lemma clean_actions_round: "clean_actions raws acc = Some as \<Longrightarrow>
    \<exists>bs. as = acc @ bs \<and> length bs = length raws \<and> clean_actions (map action_js bs) acc = Some as"
proof (induction raws acc rule: clean_actions.induct)
  case (2 raw rest acc)
  then obtain a where a: "clean_action raw (map ca_name acc) = Some a"
    by (auto split: option.splits)
  with 2 obtain bs where "as = (acc @ [a]) @ bs" "length bs = length rest"
      "clean_actions (map action_js bs) (acc @ [a]) = Some as"
    by auto
  with clean_action_round [OF a] show ?case by (intro exI [of _ "a # bs"]) simp
qed auto

lemma projection_round:
  assumes "validateRuntimeCapabilityProjection ntext v = Some p"
  shows "validateRuntimeCapabilityProjection ntext (projection_js p) = Some p"
proof -
  from assms obtain observe raws where fields: "js_get v ''observe'' = JBool observe"
      "js_get v ''actions'' = JArr raws"
    by (auto simp: validateRuntimeCapabilityProjection_def split: if_splits js.splits)
  with assms obtain actions where actions: "clean_actions raws [] = Some actions"
    by (auto simp: validateRuntimeCapabilityProjection_def split: if_splits option.splits)
  with clean_actions_round [of raws "[]" actions] have round:
    "clean_actions (map action_js actions) [] = Some actions" "length actions = length raws" by auto
  from assms fields actions have p: "p = \<lparr>cp_capabilityId = js_string (js_get v ''capabilityId''),
      cp_title = js_string (js_get v ''title''), cp_version = js_string (js_get v ''version''),
      cp_observe = observe, cp_actions = actions\<rparr>"
    and ok: "isRuntimeCapabilityId (js_get v ''capabilityId'')" "boundedText (js_get v ''title'') 64"
      "boundedText (js_get v ''version'') 32" "length raws \<le> RUNTIME_CAPABILITY_MAX_ACTIONS"
      "json_bytes ntext (projection_js p) \<le> RUNTIME_CAPABILITY_MAX_DESCRIPTOR_BYTES"
    by (auto simp: validateRuntimeCapabilityProjection_def Let_def split: if_splits)
  have "isRuntimeCapabilityId (JStr (cp_capabilityId p))" "boundedText (JStr (cp_title p)) 64"
      "boundedText (JStr (cp_version p)) 32"
    using ok p capability_id_str boundedText_str by (metis capability_projection.select_convs)+
  then show ?thesis
    using ok round p
    unfolding validateRuntimeCapabilityProjection_def
    by (simp add: is_record_def projection_js_def Let_def)
qed

subsection \<open>The stored map is repaired once\<close>

text \<open>A host as the object storage holds.\<close>

definition host_js :: "runtime_host \<Rightarrow> js" where
  "host_js h = JObj ([(lit ''runtimeHostId'', JStr (rh_runtimeHostId h)),
     (lit ''speech'', JObj [(lit ''stt'', JBool (rh_stt h)), (lit ''tts'', JBool (rh_tts h))])] @
     (case rh_capabilities h of None \<Rightarrow> []
      | Some cs \<Rightarrow> [(lit ''capabilities'', JArr (map projection_js cs))]))"

definition hosts_js :: "runtime_hosts \<Rightarrow> js" where
  "hosts_js hosts = JObj (map (\<lambda>(i, h). (i, host_js h)) hosts)"

definition host_valid :: "(rat \<Rightarrow> jstr) \<Rightarrow> runtime_host \<Rightarrow> bool" where
  "host_valid ntext h \<longleftrightarrow> RUNTIME_HOST_ID_PATTERN (rh_runtimeHostId h) \<and>
     (case rh_capabilities h of None \<Rightarrow> True
      | Some cs \<Rightarrow> length cs \<le> 1 \<and>
          list_all (\<lambda>c. validateRuntimeCapabilityProjection ntext (projection_js c) = Some c) cs)"

lemma validateRuntimeHost_valid: "validateRuntimeHost ntext v = Inr h \<Longrightarrow>
    host_valid ntext h \<and> js_get v ''runtimeHostId'' = JStr (rh_runtimeHostId h)"
  by (clarsimp simp: validateRuntimeHost_def Let_def split: if_split_asm js.splits)
    (auto simp: host_valid_def list_all_iff list_ex_iff image_iff intro!: projection_round option.collapse)

lemma map_the_round: "list_all (\<lambda>c. f (g c) = Some c) cs \<Longrightarrow> map (\<lambda>c. the (f (g c))) cs = cs"
  by (induction cs) auto

lemma is_record_JObj [simp]: "is_record (JObj ps)"
  by (simp add: is_record_def)

lemma stored_candidate_valid: "host_valid ntext h \<Longrightarrow>
    validateRuntimeHost ntext (stored_host_candidate (rh_runtimeHostId h) (host_js h)) = Inr h"
  by (cases h; cases "rh_capabilities h")
    (auto simp: host_valid_def validateRuntimeHost_def stored_host_candidate_def host_js_def
      is_objectish_def Let_def list_ex_iff list_all_iff comp_def
      map_the_round [unfolded list_all_iff])

lemma host_valid_bare: "host_valid ntext h \<Longrightarrow> host_valid ntext (h\<lparr>rh_capabilities := Some []\<rparr>)"
  by (simp add: host_valid_def)

definition entry_valid :: "(rat \<Rightarrow> jstr) \<Rightarrow> jstr \<times> runtime_host \<Rightarrow> bool" where
  "entry_valid ntext e \<longleftrightarrow> fst e = rh_runtimeHostId (snd e) \<and> fst e \<noteq> lit ''__proto__'' \<and>
     host_valid ntext (snd e)"

lemma sanitize_hosts_valid:
  "list_all (entry_valid ntext) hosts \<Longrightarrow> list_all (entry_valid ntext) (sanitize_hosts ntext es n hosts)"
proof (induction ntext es n hosts rule: sanitize_hosts.induct)
  case (2 ntext hostId raw rest n hosts)
  note prems = "2.prems"
  have put: "list_all (entry_valid ntext) (assign_host hostId h hosts)"
    if "host_valid ntext h" "rh_runtimeHostId h = hostId" for h
  proof -
    have "entry_valid ntext (hostId, h)" if "hostId \<noteq> lit ''__proto__''"
      using that \<open>host_valid ntext h\<close> \<open>rh_runtimeHostId h = hostId\<close> by (simp add: entry_valid_def)
    then show ?thesis using prems by (simp add: assign_host_def list_all_dput)
  qed
  show ?case
  proof (cases "validateRuntimeHost ntext (stored_host_candidate hostId raw)")
    case (Inr h)
    then have h: "host_valid ntext h" "rh_runtimeHostId h = hostId"
      using validateRuntimeHost_valid [OF Inr] by (auto simp: stored_host_candidate_def)
    with put [of h] put [of "h\<lparr>rh_capabilities := Some []\<rparr>"] host_valid_bare
    have "list_all (entry_valid ntext) (assign_host hostId h hosts)"
      "list_all (entry_valid ntext) (assign_host hostId (h\<lparr>rh_capabilities := Some []\<rparr>) hosts)"
      by auto
    with 2 Inr show ?thesis by auto
  qed (use 2 in simp)
qed simp

lemma sanitize_hosts_fixed:
  "wf_dict (acc @ hosts) \<Longrightarrow> list_all (entry_valid ntext) hosts \<Longrightarrow>
   n + capability_hosts hosts \<le> RUNTIME_CAPABILITY_MAX_ROOM_HOSTS \<Longrightarrow>
   sanitize_hosts ntext (map (\<lambda>(i, h). (i, host_js h)) hosts) n acc = acc @ hosts"
proof (induction hosts arbitrary: acc n)
  case (Cons x hosts)
  obtain i h where x: "x = (i, h)" by (cases x)
  have "assign_host i h acc = acc @ [(i, h)]"
    using Cons.prems x dput_fresh [of i acc h] by (auto simp: wf_dict_def assign_host_def entry_valid_def)
  moreover have "RUNTIME_HOST_ID_PATTERN i"
      "validateRuntimeHost ntext (stored_host_candidate i (host_js h)) = Inr h"
    using Cons.prems x stored_candidate_valid [of ntext h] by (auto simp: entry_valid_def host_valid_def)
  moreover have "(has_capabilities h \<and> RUNTIME_CAPABILITY_MAX_ROOM_HOSTS \<le> n) = False"
      "(if has_capabilities h then Suc n else n) + capability_hosts hosts \<le> RUNTIME_CAPABILITY_MAX_ROOM_HOSTS"
    using Cons.prems x by (auto simp: capability_hosts_def)
  ultimately show ?case
    using Cons x by (simp del: not_le de_Morgan_conj)
qed simp

definition hosts_stored_ok :: "(rat \<Rightarrow> jstr) \<Rightarrow> runtime_hosts \<Rightarrow> bool" where
  "hosts_stored_ok ntext m \<longleftrightarrow> hosts_ok m \<and> list_all (entry_valid ntext) m"

lemma hosts_stored_ok_sanitized: "hosts_stored_ok ntext (sanitizeStoredRuntimeHosts ntext v)"
  using hosts_ok_sanitized [of ntext v]
  by (auto simp: hosts_stored_ok_def sanitizeStoredRuntimeHosts_def sanitize_hosts_valid split: js.split)

lemma hosts_stored_ok_fixed: "hosts_stored_ok ntext m \<Longrightarrow> sanitizeStoredRuntimeHosts ntext (hosts_js m) = m"
  using sanitize_hosts_fixed [of "[]" m ntext 0]
  by (simp add: hosts_stored_ok_def hosts_ok_def sanitizeStoredRuntimeHosts_def hosts_js_def)

text \<open>The map half of \<open>normalizeRuntimeHosts\<close>: what it loads and whether it dropped entries.\<close>

definition load_hosts :: "(rat \<Rightarrow> jstr) \<Rightarrow> js \<Rightarrow> runtime_hosts \<times> bool" where
  "load_hosts ntext v = (case normalizeRuntimeHosts ntext v [] of (m, _, changed) \<Rightarrow> (m, changed))"

interpretation stored_hosts: sanitizer "load_hosts ntext" hosts_js "hosts_stored_ok ntext" for ntext
  by unfold_locales
    (auto simp: load_hosts_def normalizeRuntimeHosts_def Let_def hosts_stored_ok_sanitized
      hosts_stored_ok_fixed, auto simp: key_count_def hosts_js_def)

text \<open>
  C6: loading a Room repairs its stored hosts once. Whatever the storage held, the loaded map
  holds valid projections, at most eight of them with a capability, and storing it and
  loading it again gives the same map and reports no change.
\<close>

theorem stored_hosts_repaired_once:
  "hosts_ok (fst (load_hosts ntext v)) \<and>
   load_hosts ntext (hosts_js (fst (load_hosts ntext v))) = (fst (load_hosts ntext v), False)"
  using stored_hosts.repair_ok [of ntext v] stored_hosts.repair_idem [of ntext v]
  by (simp add: hosts_stored_ok_def)

text \<open>Every way the Room changes the map after loading it.\<close>

datatype host_event = Register runtime_host | Collect "participant list"

definition host_step :: "host_event \<Rightarrow> runtime_hosts \<Rightarrow> runtime_hosts" where
  "host_step e m = (case e of
     Register h \<Rightarrow> registerRuntimeHost (Some m) h
   | Collect ps \<Rightarrow> projectRuntimeHosts (garbageCollectRuntimeHosts (Some m) ps))"

lemma hosts_ok_collect: "hosts_ok m \<Longrightarrow> hosts_ok (projectRuntimeHosts (garbageCollectRuntimeHosts (Some m) ps))"
proof -
  have "length (filter (\<lambda>(i, h). has_capabilities h) (filter P m)) \<le> capability_hosts m" for P
    by (induction m) (auto simp: capability_hosts_def)
  then show "hosts_ok m \<Longrightarrow> ?thesis"
    by (auto simp: hosts_ok_def garbageCollectRuntimeHosts_def projectRuntimeHosts_def wf_dict_def
        distinct_map_filter capability_hosts_def intro: order_trans)
qed

interpretation host_updates: transition_system host_step hosts_ok
  by unfold_locales (simp add: host_step_def hosts_ok_register hosts_ok_collect split: host_event.split)

text \<open>
  Whatever the storage held and whatever Agents register or leave afterwards, the host
  map keeps one entry per id and at most eight entries that expose a capability.
\<close>

theorem capability_hosts_bounded:
  "hosts_ok (fold host_step events (sanitizeStoredRuntimeHosts ntext stored))"
  by (rule host_updates.invar_run [OF hosts_ok_sanitized])

text \<open>
  Collection is exact: no participant of the Room loses the host it refers to, and every
  entry that stays is referred to by a participant.
\<close>

theorem collection_exact:
  assumes "p \<in> set ps"
  shows "runtimeHostForParticipant (garbageCollectRuntimeHosts (Some m) ps) p =
           runtimeHostForParticipant (Some m) p \<and>
         (\<forall>e \<in> set (projectRuntimeHosts (garbageCollectRuntimeHosts (Some m) ps)).
           \<exists>q \<in> set ps. p_runtimeHostId q = Some (fst e))"
proof (intro conjI ballI)
  have "dget (filter (\<lambda>(i, h). Some i \<in> p_runtimeHostId ` set ps) m) i = dget m i"
    if "p_runtimeHostId p = Some i" for i
    using that assms by (auto simp: dget_filter_key intro: rev_image_eqI)
  then show "runtimeHostForParticipant (garbageCollectRuntimeHosts (Some m) ps) p =
      runtimeHostForParticipant (Some m) p"
    by (auto simp: runtimeHostForParticipant_def truthy_host_id_def garbageCollectRuntimeHosts_def
        read_host_def split: option.splits)
  fix e
  assume "e \<in> set (projectRuntimeHosts (garbageCollectRuntimeHosts (Some m) ps))"
  then show "\<exists>q \<in> set ps. p_runtimeHostId q = Some (fst e)"
    by (force simp: garbageCollectRuntimeHosts_def projectRuntimeHosts_def)
qed

definition demo_host :: runtime_host where
  "demo_host = \<lparr>rh_runtimeHostId = lit ''host-0001'', rh_stt = True, rh_tts = True, rh_capabilities = None\<rparr>"

theorem collection_exact_witness:
  "runtimeHostForParticipant (garbageCollectRuntimeHosts
     (Some [(lit ''host-0001'', demo_host), (lit ''host-0002'', demo_host)])
     [(demo_participant ''bot'' Agent True)\<lparr>p_runtimeHostId := Some (lit ''host-0001'')\<rparr>])
     ((demo_participant ''bot'' Agent True)\<lparr>p_runtimeHostId := Some (lit ''host-0001'')\<rparr>) =
   Host_own demo_host"
  by (subst collection_exact [THEN conjunct1], simp)
    (simp add: runtimeHostForParticipant_def truthy_host_id_def read_host_def)

end
