(* ===== verification/Room_App.thy ===== *)
theory Room_App
  imports Json_Parse Runtime_Host
begin

unbundle bit_operations_syntax

text \<open>
  Room Apps (app/src/common/roomApp.ts): the ids and budgets of an App instance, the payload
  check, and the codecs of the messages that cross between the Host page, an App frame, the
  data channel and the Room. The catalog and the rate guards are in theories of their own.

  \<open>ntext\<close> prints and \<open>rn\<close> rounds a number that is no safe integer. What a decoder returns for
  a refused message is \<open>None\<close>.
\<close>

subsection \<open>Budgets and ids\<close>

definition ROOM_APP_PROTOCOL_VERSION :: int where "ROOM_APP_PROTOCOL_VERSION = 1"
definition ROOM_APP_MAX_PAYLOAD_BYTES :: nat where "ROOM_APP_MAX_PAYLOAD_BYTES = 16 * 1024"
definition ROOM_APP_LOCAL_RECOVERY_MAX_BYTES :: nat where
  "ROOM_APP_LOCAL_RECOVERY_MAX_BYTES = 1024 * 1024"

text \<open>\<open>/^[a-z0-9][a-z0-9-]{0,31}$/\<close>.\<close>

definition app_id_unit :: "code_unit \<Rightarrow> bool" where
  "app_id_unit c \<longleftrightarrow> is_lower c \<or> is_digit c"

definition APP_ID_PATTERN :: "jstr \<Rightarrow> bool" where
  "APP_ID_PATTERN s = (case s of [] \<Rightarrow> False
     | c # cs \<Rightarrow> app_id_unit c \<and> length cs \<le> 31 \<and> list_all (\<lambda>d. app_id_unit d \<or> d = 0x2d) cs)"

definition isValidRoomAppId :: "js \<Rightarrow> bool" where
  "isValidRoomAppId v = (case v of JStr s \<Rightarrow> APP_ID_PATTERN s | _ \<Rightarrow> False)"

text \<open>
  \<open>/^[A-Za-z0-9][A-Za-z0-9:_-]{0,127}$/\<close>, \<open>/^[A-Za-z0-9_-]{1,64}$/\<close> and
  \<open>/^[a-z0-9][a-z0-9:-]{0,95}$/\<close>.
\<close>

definition APP_PARTICIPANT_PATTERN :: "jstr \<Rightarrow> bool" where
  "APP_PARTICIPANT_PATTERN s = (case s of [] \<Rightarrow> False
     | c # cs \<Rightarrow> is_alnum c \<and> length cs \<le> 127 \<and>
         list_all (\<lambda>d. is_alnum d \<or> d = 0x3a \<or> d = 0x5f \<or> d = 0x2d) cs)"

definition APP_REQUEST_PATTERN :: "jstr \<Rightarrow> bool" where
  "APP_REQUEST_PATTERN s \<longleftrightarrow> 1 \<le> length s \<and> length s \<le> 64 \<and>
     list_all (\<lambda>d. is_alnum d \<or> d = 0x5f \<or> d = 0x2d) s"

definition APP_INSTANCE_PATTERN :: "jstr \<Rightarrow> bool" where
  "APP_INSTANCE_PATTERN s = (case s of [] \<Rightarrow> False
     | c # cs \<Rightarrow> app_id_unit c \<and> length cs \<le> 95 \<and>
         list_all (\<lambda>d. app_id_unit d \<or> d = 0x3a \<or> d = 0x2d) cs)"

definition isValidRoomAppParticipantId :: "js \<Rightarrow> bool" where
  "isValidRoomAppParticipantId v = (case v of JStr s \<Rightarrow> APP_PARTICIPANT_PATTERN s | _ \<Rightarrow> False)"

definition isValidRoomAppRequestId :: "js \<Rightarrow> bool" where
  "isValidRoomAppRequestId v = (case v of JStr s \<Rightarrow> APP_REQUEST_PATTERN s | _ \<Rightarrow> False)"

definition isValidRoomAppInstanceId :: "js \<Rightarrow> bool" where
  "isValidRoomAppInstanceId v = (case v of JStr s \<Rightarrow> APP_INSTANCE_PATTERN s | _ \<Rightarrow> False)"

subsection \<open>The local recovery budget\<close>

text \<open>The loop counts UTF-8 bytes unit by unit and stops once the budget is exceeded.\<close>

fun recovery_loop :: "nat \<Rightarrow> jstr \<Rightarrow> bool" where
  "recovery_loop bytes [] = True"
| "recovery_loop bytes (c # cs) =
     (let pair = (0xd800 \<le> c \<and> c \<le> 0xdbff \<and> (case cs of d # _ \<Rightarrow> 0xdc00 \<le> d \<and> d \<le> 0xdfff | [] \<Rightarrow> False));
          bytes = bytes + (if c \<le> 0x7f then 1 else if c \<le> 0x7ff then 2 else if pair then 4 else 3) in
      if ROOM_APP_LOCAL_RECOVERY_MAX_BYTES < bytes then False
      else recovery_loop bytes (if pair then tl cs else cs))"

definition isBoundedRoomAppLocalRecovery :: "js \<Rightarrow> bool" where
  "isBoundedRoomAppLocalRecovery v = (case v of JStr s \<Rightarrow> recovery_loop 0 s | _ \<Rightarrow> False)"

subsection \<open>Payloads\<close>

definition serializedRoomAppBytes :: "(rat \<Rightarrow> jstr) \<Rightarrow> js \<Rightarrow> nat" where
  "serializedRoomAppBytes ntext v = json_bytes ntext v"

definition validateRoomAppPayload :: "(rat \<Rightarrow> jstr) \<Rightarrow> js \<Rightarrow> (js \<times> nat) option" where
  "validateRoomAppPayload ntext v =
     (if \<not> is_record v \<or> lit ''sourceParticipantId'' \<in> set (js_keys v) then None
      else (let bytes = serializedRoomAppBytes ntext v in
        if ROOM_APP_MAX_PAYLOAD_BYTES < bytes then None else Some (v, bytes)))"

definition fits_payload :: "(rat \<Rightarrow> jstr) \<Rightarrow> js \<Rightarrow> bool" where
  "fits_payload ntext v \<longleftrightarrow> serializedRoomAppBytes ntext v \<le> ROOM_APP_MAX_PAYLOAD_BYTES"

subsection \<open>The data channel envelope\<close>

datatype app_lane = Reliable | Realtime

definition lane_text :: "app_lane \<Rightarrow> jstr" where
  "lane_text l = (case l of Reliable \<Rightarrow> lit ''reliable'' | Realtime \<Rightarrow> lit ''realtime'')"

definition lane_of :: "js \<Rightarrow> app_lane option" where
  "lane_of v = (if v = JStr (lit ''reliable'') then Some Reliable
     else if v = JStr (lit ''realtime'') then Some Realtime else None)"

record wire_envelope =
  we_appInstanceId :: jstr
  we_lane :: app_lane
  we_payload :: js

definition envelope_js :: "wire_envelope \<Rightarrow> js" where
  "envelope_js e = JObj [(lit ''protocolVersion'', JNum (jint ROOM_APP_PROTOCOL_VERSION)),
     (lit ''appInstanceId'', JStr (we_appInstanceId e)), (lit ''lane'', JStr (lane_text (we_lane e))),
     (lit ''payload'', we_payload e)]"

definition encodeRoomAppEnvelope :: "(rat \<Rightarrow> jstr) \<Rightarrow> wire_envelope \<Rightarrow> jstr option" where
  "encodeRoomAppEnvelope ntext e =
     (if validateRoomAppPayload ntext (we_payload e) = None \<or> \<not> APP_INSTANCE_PATTERN (we_appInstanceId e)
      then None
      else if \<not> fits_payload ntext (envelope_js e) then None
      else Some (json_text ntext (envelope_js e)))"

definition envelope_of :: "(rat \<Rightarrow> jstr) \<Rightarrow> js \<Rightarrow> wire_envelope option" where
  "envelope_of ntext v =
     (if \<not> is_record v \<or> js_get v ''protocolVersion'' \<noteq> JNum (jint ROOM_APP_PROTOCOL_VERSION)
         \<or> \<not> isValidRoomAppInstanceId (js_get v ''appInstanceId'') then None
      else (case lane_of (js_get v ''lane'') of
        None \<Rightarrow> None
      | Some l \<Rightarrow> (case validateRoomAppPayload ntext (js_get v ''payload'') of
          None \<Rightarrow> None
        | Some (payload, _) \<Rightarrow> Some \<lparr>we_appInstanceId = js_string (js_get v ''appInstanceId''),
            we_lane = l, we_payload = payload\<rparr>)))"

definition decodeRoomAppEnvelope :: "(rat \<Rightarrow> jnum) \<Rightarrow> (rat \<Rightarrow> jstr) \<Rightarrow> js \<Rightarrow> wire_envelope option" where
  "decodeRoomAppEnvelope rn ntext v = (case v of
     JStr s \<Rightarrow> (case json_parse rn s of None \<Rightarrow> None | Some parsed \<Rightarrow> envelope_of ntext parsed)
   | _ \<Rightarrow> None)"

subsection \<open>Messages of an App frame\<close>

datatype capability_operation = Observe | Invoke

definition operation_of :: "js \<Rightarrow> capability_operation option" where
  "operation_of v = (if v = JStr (lit ''observe'') then Some Observe
     else if v = JStr (lit ''invoke'') then Some Invoke else None)"

record capability_request =
  cq_bundleRevision :: int
  cq_requestId :: jstr
  cq_capabilityId :: jstr
  cq_operation :: capability_operation
  cq_action :: js
  cq_args :: js

datatype client_message = CM_recovery jstr | CM_capability capability_request
  | CM_agent_result jstr js | CM_agent_error jstr jstr | CM_milestone
  | CM_generated_state int js | CM_ready jstr | CM_send_to jstr jstr js | CM_send app_lane js

text \<open>A property that is present only when its value is not \<open>undefined\<close>.\<close>

definition present :: "string \<Rightarrow> js \<Rightarrow> (jstr \<times> js) list" where
  "present k v = (if v = JUndefined then [] else [(lit k, v)])"

definition capability_args_ok :: "capability_operation \<Rightarrow> js \<Rightarrow> js \<Rightarrow> bool" where
  "capability_args_ok operation action args = (case operation of
     Observe \<Rightarrow> action = JUndefined \<and> args = JUndefined
   | Invoke \<Rightarrow> isRuntimeCapabilityActionName action \<and> is_record args)"

definition decode_capability :: "(rat \<Rightarrow> jstr) \<Rightarrow> js \<Rightarrow> jstr \<Rightarrow> client_message option" where
  "decode_capability ntext v i =
     (case (js_get v ''requestId'', js_safe_int (js_get v ''bundleRevision''), js_get v ''capabilityId'',
         operation_of (js_get v ''operation'')) of
        (JStr requestId, Some revision, JStr capabilityId, Some operation) \<Rightarrow>
          if \<not> APP_REQUEST_PATTERN requestId \<or> revision < 1 \<or> \<not> isRuntimeCapabilityId (JStr capabilityId)
             \<or> \<not> capability_args_ok operation (js_get v ''action'') (js_get v ''args'')
             \<or> \<not> fits_payload ntext (JObj ([(lit ''type'', JStr (lit ''runtime-capability-request'')),
                 (lit ''requestId'', JStr requestId), (lit ''appInstanceId'', JStr i),
                 (lit ''bundleRevision'', JNum (jint revision)), (lit ''capabilityId'', JStr capabilityId),
                 (lit ''operation'', js_get v ''operation'')] @
                 present ''action'' (js_get v ''action'') @ present ''args'' (js_get v ''args'')))
          then None
          else Some (CM_capability \<lparr>cq_bundleRevision = revision, cq_requestId = requestId,
            cq_capabilityId = capabilityId, cq_operation = operation,
            cq_action = js_get v ''action'', cq_args = js_get v ''args''\<rparr>)
      | _ \<Rightarrow> None)"

definition agent_response_js :: "jstr \<Rightarrow> jstr \<Rightarrow> bool \<Rightarrow> js \<Rightarrow> js" where
  "agent_response_js requestId i success body = JObj [(lit ''type'', JStr (lit ''room-app-agent-response'')),
     (lit ''requestId'', JStr requestId), (lit ''appInstanceId'', JStr i), (lit ''ok'', JBool success),
     (if success then lit ''result'' else lit ''error'', body)]"

definition decode_agent_response :: "(rat \<Rightarrow> jstr) \<Rightarrow> js \<Rightarrow> jstr \<Rightarrow> client_message option" where
  "decode_agent_response ntext v i = (case (js_get v ''requestId'', js_get v ''ok'') of
     (JStr requestId, JBool True) \<Rightarrow>
       if \<not> APP_REQUEST_PATTERN requestId \<or> \<not> is_record (js_get v ''result'')
          \<or> \<not> fits_payload ntext (agent_response_js requestId i True (js_get v ''result'')) then None
       else Some (CM_agent_result requestId (js_get v ''result''))
   | (JStr requestId, JBool False) \<Rightarrow> (case js_get v ''error'' of
       JStr e \<Rightarrow> if \<not> APP_REQUEST_PATTERN requestId \<or> 256 < length e
          \<or> \<not> fits_payload ntext (agent_response_js requestId i False (JStr e)) then None
         else Some (CM_agent_error requestId e)
     | _ \<Rightarrow> None)
   | _ \<Rightarrow> None)"

definition decode_generated_state :: "js \<Rightarrow> client_message option" where
  "decode_generated_state v = (case js_safe_int (js_get v ''expectedRevision'') of
     Some n \<Rightarrow> if n < 0 \<or> \<not> is_record (js_get v ''state'') then None
       else Some (CM_generated_state n (js_get v ''state''))
   | None \<Rightarrow> None)"

definition decode_send_to :: "(rat \<Rightarrow> jstr) \<Rightarrow> js \<Rightarrow> client_message option" where
  "decode_send_to ntext v = (case (js_get v ''requestId'', js_get v ''targetParticipantId'') of
     (JStr requestId, JStr target) \<Rightarrow>
       if \<not> APP_REQUEST_PATTERN requestId \<or> \<not> APP_PARTICIPANT_PATTERN target then None
       else map_option (\<lambda>(payload, _). CM_send_to requestId target payload)
         (validateRoomAppPayload ntext (js_get v ''payload''))
   | _ \<Rightarrow> None)"

definition decode_send :: "(rat \<Rightarrow> jstr) \<Rightarrow> app_lane \<Rightarrow> js \<Rightarrow> client_message option" where
  "decode_send ntext l v = map_option (\<lambda>(payload, _). CM_send l payload)
     (validateRoomAppPayload ntext (js_get v ''payload''))"

text \<open>A \<open>ready\<close> or \<open>milestone\<close> message of another shape falls through to the last check, which refuses it.\<close>

definition decodeRoomAppClientMessage :: "(rat \<Rightarrow> jstr) \<Rightarrow> js \<Rightarrow> jstr \<Rightarrow> client_message option" where
  "decodeRoomAppClientMessage ntext v i =
     (let type = js_get v ''type'' in
      if \<not> is_record v \<or> js_get v ''appInstanceId'' \<noteq> JStr i then None
      else if type = JStr (lit ''setLocalRecovery'') then
        (case js_get v ''snapshot'' of
           JStr s \<Rightarrow> if length (js_keys v) \<noteq> 3 \<or> \<not> isBoundedRoomAppLocalRecovery (JStr s) then None
             else Some (CM_recovery s)
         | _ \<Rightarrow> None)
      else if type = JStr (lit ''capabilityRequest'') then decode_capability ntext v i
      else if type = JStr (lit ''agentResponse'') then decode_agent_response ntext v i
      else if type = JStr (lit ''milestone'') then
        (if js_get v ''milestone'' = JStr (lit ''engaged'') \<and> length (js_keys v) = 3
         then Some CM_milestone else None)
      else if type = JStr (lit ''sendGeneratedState'') then decode_generated_state v
      else if type = JStr (lit ''ready'') then
        (case js_get v ''handshakeToken'' of
           JStr t \<Rightarrow> if 0 < length t \<and> length t \<le> 128 then Some (CM_ready t) else None
         | _ \<Rightarrow> None)
      else if type = JStr (lit ''sendReliableTo'') then decode_send_to ntext v
      else if type = JStr (lit ''sendReliable'') then decode_send ntext Reliable v
      else if type = JStr (lit ''sendRealtime'') then decode_send ntext Realtime v
      else None)"

subsection \<open>Instance ids\<close>

text \<open>FNV-1a over the code units of \<open>room:app\<close>: \<open>Math.imul\<close> and \<open>>>> 0\<close> keep 32 bits.\<close>

definition fnv_step :: "code_unit \<Rightarrow> 32 word \<Rightarrow> 32 word" where
  "fnv_step c h = (h XOR ucast c) * 0x01000193"

definition fnv_hash :: "jstr \<Rightarrow> 32 word" where
  "fnv_hash s = fold fnv_step s 0x811c9dc5"

text \<open>\<open>toString(16)\<close>, then \<open>padStart(8, "0")\<close>.\<close>

fun hex_text :: "nat \<Rightarrow> jstr" where
  "hex_text n = (if n < 16 then [hex_digit n] else hex_text (n div 16) @ [hex_digit (n mod 16)])"

declare hex_text.simps [simp del]

definition pad_start :: "nat \<Rightarrow> code_unit \<Rightarrow> jstr \<Rightarrow> jstr" where
  "pad_start n c s = replicate (n - length s) c @ s"

definition roomAppInstanceId :: "jstr \<Rightarrow> jstr \<Rightarrow> jstr" where
  "roomAppInstanceId room i = i @ 0x3a # pad_start 8 0x30 (hex_text (unat (fnv_hash (room @ 0x3a # i))))"

subsection \<open>The recovery loop counts what the encoder writes\<close>

lemma recovery_bytes: "recovery_loop n s \<longleftrightarrow> s = [] \<or> n + byte_length s \<le> ROOM_APP_LOCAL_RECOVERY_MAX_BYTES"
proof (induction s arbitrary: n rule: code_points.induct)
  case (2 c)
  have "unat c \<le> 0xffff" using unsigned_less [of c, where ?'a = nat] by simp
  then show ?case
    by (auto simp: byte_length_def utf8_encode_def length_utf8_of scalar_of_def word_le_nat_alt
        is_high_surrogate_def is_low_surrogate_def)
next
  case (3 c d cs)
  let ?pair = "is_high_surrogate c \<and> is_low_surrogate d"
  have bound: "unat c \<le> 0xffff" using unsigned_less [of c, where ?'a = nat] by simp
  show ?case
  proof (cases ?pair)
    case True
    then have c: "\<not> c \<le> 0x7f" "\<not> c \<le> 0x7ff" "0xd800 \<le> c" "c \<le> 0xdbff" "0xdc00 \<le> d" "d \<le> 0xdfff"
      by (auto simp: is_high_surrogate_def is_low_surrogate_def word_le_nat_alt)
    have "byte_length (c # d # cs) = 4 + byte_length cs"
      using True by (simp add: byte_length_def utf8_encode_def length_utf8_of)
    moreover have "byte_length [] = 0" by (simp add: byte_length_def utf8_encode_def)
    ultimately show ?thesis using "3.IH"(1) [OF True, of "n + 4"] c by auto
  next
    case False
    then have "?pair = False" by simp
    then have bytes: "byte_length (c # d # cs) = length (utf8_of (scalar_of c)) + byte_length (d # cs)"
      by (simp only: byte_length_def utf8_encode_def code_points.simps if_False) simp
    define k :: nat where "k = (if c \<le> 0x7f then 1 else if c \<le> 0x7ff then 2 else 3)"
    have unit: "length (utf8_of (scalar_of c)) = k"
      using bound by (auto simp: k_def length_utf8_of scalar_of_def word_le_nat_alt is_high_surrogate_def is_low_surrogate_def)
    have "recovery_loop n (c # d # cs) =
        (if ROOM_APP_LOCAL_RECOVERY_MAX_BYTES < n + k then False else recovery_loop (n + k) (d # cs))"
      using \<open>?pair = False\<close> by (simp add: k_def is_high_surrogate_def is_low_surrogate_def del: de_Morgan_conj)
    also have "\<dots> \<longleftrightarrow> n + k + byte_length (d # cs) \<le> ROOM_APP_LOCAL_RECOVERY_MAX_BYTES"
      using "3.IH"(2) [OF False, of "n + k"] by (simp del: recovery_loop.simps)
    finally show ?thesis by (simp add: bytes unit add.assoc del: recovery_loop.simps)
  qed
qed simp

text \<open>
  The early-exit byte counter of the local recovery check accepts exactly the strings
  whose UTF-8 encoding takes at most one mebibyte.
\<close>

theorem recovery_counter_exact:
  "isBoundedRoomAppLocalRecovery (JStr s) \<longleftrightarrow> length (utf8_encode s) \<le> ROOM_APP_LOCAL_RECOVERY_MAX_BYTES"
  by (auto simp: isBoundedRoomAppLocalRecovery_def recovery_bytes byte_length_def utf8_encode_def)

subsection \<open>The envelope survives the data channel\<close>

lemma payload_some: "validateRoomAppPayload ntext v = Some (w, n) \<longleftrightarrow> w = v \<and> n = serializedRoomAppBytes ntext v \<and>
    is_record v \<and> lit ''sourceParticipantId'' \<notin> set (js_keys v) \<and> fits_payload ntext v"
  by (auto simp: validateRoomAppPayload_def fits_payload_def Let_def)

lemma lane_of_text [simp]: "lane_of (JStr (lane_text l)) = Some l"
  by (cases l) (simp_all add: lane_of_def lane_text_def)

lemma envelope_fields [simp]: "is_record (envelope_js e)"
  "js_get (envelope_js e) ''protocolVersion'' = JNum (jint ROOM_APP_PROTOCOL_VERSION)"
  "js_get (envelope_js e) ''appInstanceId'' = JStr (we_appInstanceId e)"
  "js_get (envelope_js e) ''lane'' = JStr (lane_text (we_lane e))"
  "js_get (envelope_js e) ''payload'' = we_payload e"
  by (simp_all add: envelope_js_def is_record_def js_get_def)

text \<open>
  What one peer encodes for the data channel the other decodes to the same envelope, and
  the text stays within sixteen kibibytes.
\<close>

theorem envelope_round_trip:
  assumes "encodeRoomAppEnvelope ntext e = Some t" and "plain_js (we_payload e)" and "rounds rn"
  shows "decodeRoomAppEnvelope rn ntext (JStr t) = Some e \<and> byte_length t \<le> ROOM_APP_MAX_PAYLOAD_BYTES"
proof -
  have t: "t = json_text ntext (envelope_js e)" and small: "fits_payload ntext (envelope_js e)"
    and inst: "APP_INSTANCE_PATTERN (we_appInstanceId e)"
    and payload: "validateRoomAppPayload ntext (we_payload e) \<noteq> None"
    using assms(1) by (auto simp: encodeRoomAppEnvelope_def split: if_splits)
  obtain n where "validateRoomAppPayload ntext (we_payload e) = Some (we_payload e, n)"
    using payload payload_some by fastforce
  moreover have "plain_js (envelope_js e)"
    using assms(2) by (simp add: envelope_js_def wf_dict_def ROOM_APP_PROTOCOL_VERSION_def)
  ultimately show ?thesis
    using json_round_trip [OF assms(3), of "envelope_js e" ntext] inst small
    by (simp add: decodeRoomAppEnvelope_def t envelope_of_def isValidRoomAppInstanceId_def js_string_def
        fits_payload_def serializedRoomAppBytes_def json_bytes_def)
qed

definition demo_envelope :: wire_envelope where
  "demo_envelope = \<lparr>we_appInstanceId = lit ''poker:00ff'', we_lane = Reliable,
     we_payload = JObj [(lit ''bet'', JNum (jint 5))]\<rparr>"

theorem envelope_round_trip_witness:
  "decodeRoomAppEnvelope Fin (\<lambda>_. []) (JStr (the (encodeRoomAppEnvelope (\<lambda>_. []) demo_envelope))) = Some demo_envelope"
proof -
  have "APP_INSTANCE_PATTERN (lit ''poker:00ff'')" by code_simp
  then have "encodeRoomAppEnvelope (\<lambda>_. []) demo_envelope \<noteq> None"
    by (simp add: encodeRoomAppEnvelope_def validateRoomAppPayload_def fits_payload_def demo_envelope_def envelope_js_def
        serializedRoomAppBytes_def quiet_bytes is_record_def js_keys_def ROOM_APP_MAX_PAYLOAD_BYTES_def
        ROOM_APP_PROTOCOL_VERSION_def lane_text_def Let_def)
  then obtain t where t: "encodeRoomAppEnvelope (\<lambda>_. []) demo_envelope = Some t" by blast
  have "plain_js (we_payload demo_envelope)" by (simp add: demo_envelope_def wf_dict_def)
  moreover have "rounds Fin" by (simp add: rounds_def jint_def)
  ultimately show ?thesis using envelope_round_trip [OF t] t by simp
qed

subsection \<open>What a decoded message is\<close>

text \<open>A member takes no more bytes than the object it is in.\<close>

lemma code_points_byte_length: "byte_length (c # d # cs) =
    (if is_high_surrogate c \<and> is_low_surrogate d then 4 + byte_length cs
     else length (utf8_of (scalar_of c)) + byte_length (d # cs))"
proof -
  have "length (utf8_of (0x10000 + (unat c - 0xd800) * 0x400 + (unat d - 0xdc00))) = 4" by (simp add: length_utf8_of)
  then show ?thesis by (simp add: byte_length_def utf8_encode_def)
qed

lemma byte_length_one: "byte_length [c] = length (utf8_of (scalar_of c))" "byte_length [] = 0"
  by (simp_all add: byte_length_def utf8_encode_def)

lemma surrogate_bytes: "is_high_surrogate c \<or> is_low_surrogate c \<Longrightarrow> length (utf8_of (scalar_of c)) = 3"
  by (simp add: scalar_of_def length_utf8_of)

lemma low_not_high: "is_low_surrogate d \<Longrightarrow> \<not> is_high_surrogate d"
  by (auto simp: is_low_surrogate_def is_high_surrogate_def word_le_nat_alt)

lemma byte_length_tail: "byte_length cs \<le> byte_length (c # cs)"
proof (cases cs)
  case (Cons d ds)
  show ?thesis
  proof (cases "is_high_surrogate c \<and> is_low_surrogate d")
    case True
    then have "byte_length (d # ds) = 3 + byte_length ds"
      using low_not_high [of d] by (cases ds) (simp_all add: code_points_byte_length byte_length_one surrogate_bytes)
    then show ?thesis using True by (simp add: Cons code_points_byte_length)
  next
    case False
    then show ?thesis unfolding Cons code_points_byte_length by auto
  qed
qed (simp add: byte_length_one)

lemma byte_length_suffix: "byte_length ys \<le> byte_length (xs @ ys)"
  by (induction xs) (auto intro: order_trans byte_length_tail)

lemma scalar_bytes: "length (utf8_of (scalar_of c)) \<le> 3"
proof -
  have "unat c < 65536" using unsigned_less [of c, where ?'a = nat] by simp
  then show ?thesis by (simp add: length_utf8_of scalar_of_def)
qed

lemma first_bytes: "byte_length [c] \<le> byte_length (c # cs)"
proof (cases cs)
  case (Cons d ds)
  show ?thesis using scalar_bytes [of c] unfolding Cons code_points_byte_length byte_length_one
    by (cases "is_high_surrogate c \<and> is_low_surrogate d") (simp_all only: if_True if_False, simp_all)
qed simp

lemma byte_length_prefix: "byte_length xs \<le> byte_length (xs @ ys)"
proof (induction xs rule: code_points.induct)
  case (2 c)
  then show ?case using first_bytes by simp
next
  case (3 c d cs)
  then show ?case unfolding append_Cons code_points_byte_length
    by (cases "is_high_surrogate c \<and> is_low_surrogate d") (simp_all only: if_True if_False, simp_all)
qed (simp add: byte_length_one)

lemma json_join_middle: "x \<in> set xs \<Longrightarrow> \<exists>before behind. json_join xs = before @ x @ behind"
proof (induction xs)
  case (Cons y ys)
  show ?case
  proof (cases "x = y")
    case True
    have "json_join (y # ys) = [] @ y @ drop (length y) (json_join (y # ys))" by (simp add: json_join_def)
    then show ?thesis unfolding True by blast
  next
    case False
    with Cons obtain before behind where "json_join ys = before @ x @ behind" by auto
    moreover have "ys \<noteq> []" using Cons.prems False by auto
    ultimately have "json_join (y # ys) = (y @ 0x2c # before) @ x @ behind"
      by (cases ys) (simp_all add: json_join_Cons)
    then show ?thesis by blast
  qed
qed simp

lemma member_bytes: "(k, v) \<in> set ps \<Longrightarrow> v \<noteq> JUndefined \<Longrightarrow> json_bytes ntext v \<le> json_bytes ntext (JObj ps)"
proof -
  assume "(k, v) \<in> set ps" "v \<noteq> JUndefined"
  then have "json_quote k @ 0x3a # json_text ntext v \<in> set (map (\<lambda>(k, v). json_quote k @ 0x3a # json_text ntext v)
      (filter (\<lambda>(k, v). v \<noteq> JUndefined) ps))" by force
  from json_join_middle [OF this] obtain before behind where
    "json_text ntext (JObj ps) = ((0x7b # before) @ json_quote k @ [0x3a]) @ json_text ntext v @ behind @ [0x7d]" by auto
  then have whole: "byte_length (json_text ntext (JObj ps)) =
      byte_length (((0x7b # before) @ json_quote k @ [0x3a]) @ json_text ntext v @ behind @ [0x7d])" by (rule arg_cong)
  have "byte_length (json_text ntext v) \<le> byte_length (json_text ntext v @ behind @ [0x7d])" by (rule byte_length_prefix)
  also have "\<dots> \<le> byte_length (json_text ntext (JObj ps))" unfolding whole by (rule byte_length_suffix)
  finally show ?thesis unfolding json_bytes_def .
qed

text \<open>The specification: sizes of what a message carries, counted on the message itself.\<close>

definition client_message_ok :: "(rat \<Rightarrow> jstr) \<Rightarrow> client_message \<Rightarrow> bool" where
  "client_message_ok ntext m = (case m of
     CM_recovery s \<Rightarrow> byte_length s \<le> 1024 * 1024
   | CM_capability q \<Rightarrow> APP_REQUEST_PATTERN (cq_requestId q) \<and> 1 \<le> cq_bundleRevision q \<and>
       isRuntimeCapabilityId (JStr (cq_capabilityId q)) \<and>
       (case cq_operation q of
          Observe \<Rightarrow> cq_action q = JUndefined \<and> cq_args q = JUndefined
        | Invoke \<Rightarrow> isRuntimeCapabilityActionName (cq_action q) \<and> is_record (cq_args q) \<and> json_bytes ntext (cq_args q) \<le> 16 * 1024)
   | CM_agent_result requestId v \<Rightarrow> APP_REQUEST_PATTERN requestId \<and> is_record v \<and> json_bytes ntext v \<le> 16 * 1024
   | CM_agent_error requestId e \<Rightarrow> APP_REQUEST_PATTERN requestId \<and> length e \<le> 256
   | CM_milestone \<Rightarrow> True
   | CM_generated_state n v \<Rightarrow> 0 \<le> n \<and> is_record v
   | CM_ready t \<Rightarrow> 0 < length t \<and> length t \<le> 128
   | CM_send_to requestId target v \<Rightarrow> APP_REQUEST_PATTERN requestId \<and> APP_PARTICIPANT_PATTERN target \<and>
       is_record v \<and> lit ''sourceParticipantId'' \<notin> set (js_keys v) \<and> json_bytes ntext v \<le> 16 * 1024
   | CM_send l v \<Rightarrow> is_record v \<and> lit ''sourceParticipantId'' \<notin> set (js_keys v) \<and> json_bytes ntext v \<le> 16 * 1024)"

lemma fits_bytes: "fits_payload ntext v \<longleftrightarrow> json_bytes ntext v \<le> 16 * 1024"
  by (simp add: fits_payload_def serializedRoomAppBytes_def ROOM_APP_MAX_PAYLOAD_BYTES_def)

lemma fits_member: "fits_payload ntext (JObj ps) \<Longrightarrow> (k, v) \<in> set ps \<Longrightarrow> is_record v \<Longrightarrow> json_bytes ntext v \<le> 16 * 1024"
  using member_bytes [of k v ps ntext] by (cases v) (auto simp: fits_bytes is_record_def)

lemma decode_capability_ok: "decode_capability ntext v i = Some m \<Longrightarrow> client_message_ok ntext m"
proof -
  assume d: "decode_capability ntext v i = Some m"
  let ?action = "js_get v ''action''" and ?args = "js_get v ''args''"
  from d obtain requestId revision capabilityId operation ps where
    q: "m = CM_capability \<lparr>cq_bundleRevision = revision, cq_requestId = requestId, cq_capabilityId = capabilityId,
      cq_operation = operation, cq_action = ?action, cq_args = ?args\<rparr>"
    and ok: "APP_REQUEST_PATTERN requestId" "1 \<le> revision" "isRuntimeCapabilityId (JStr capabilityId)"
      "capability_args_ok operation ?action ?args" and fit: "fits_payload ntext (JObj (ps @ present ''args'' ?args))"
    by (auto simp: decode_capability_def split: js.splits option.splits if_split_asm simp flip: append_assoc append_Cons)
  have "json_bytes ntext ?args \<le> 16 * 1024" if "is_record ?args"
    by (rule fits_member [OF fit _ that]) (use that in \<open>auto simp: present_def is_record_def\<close>)
  with ok show ?thesis by (auto simp: q client_message_ok_def capability_args_ok_def split: capability_operation.splits)
qed

lemma decode_agent_response_ok: "decode_agent_response ntext v i = Some m \<Longrightarrow> client_message_ok ntext m"
proof -
  have "json_bytes ntext (js_get v ''result'') \<le> 16 * 1024"
    if "fits_payload ntext (agent_response_js requestId i True (js_get v ''result''))" "is_record (js_get v ''result'')" for requestId
    by (rule fits_member [OF that(1) [unfolded agent_response_js_def], of "lit ''result''"]) (use that(2) in simp_all)
  then show "decode_agent_response ntext v i = Some m \<Longrightarrow> client_message_ok ntext m"
    by (auto simp: decode_agent_response_def client_message_ok_def split: js.splits bool.splits if_split_asm)
qed

lemma decode_sends_ok: "decode_send_to ntext v = Some m \<Longrightarrow> client_message_ok ntext m"
  "decode_send ntext l v = Some m \<Longrightarrow> client_message_ok ntext m"
  "decode_generated_state v = Some m \<Longrightarrow> client_message_ok ntext m"
  by (auto simp: decode_send_to_def decode_send_def decode_generated_state_def client_message_ok_def payload_some fits_bytes
      split: js.splits option.splits if_split_asm)

text \<open>
  C31: Every message the Host accepts from an App frame is addressed to that frame's instance; ids match
  their patterns, and the payloads, the arguments of a capability call and the results for an Agent are
  records of at most sixteen kibibytes each, a recovery snapshot takes at most one mebibyte, and no
  payload claims a source participant. Only the shared state of a generated App is not bounded here: the
  Room bounds it when it stores it.
\<close>

theorem client_message_bounded:
  assumes "decodeRoomAppClientMessage ntext v i = Some m"
  shows "js_get v ''appInstanceId'' = JStr i \<and> client_message_ok ntext m"
proof -
  have "js_get v ''appInstanceId'' = JStr i"
    using assms by (simp add: decodeRoomAppClientMessage_def Let_def split: if_split_asm)
  moreover have "client_message_ok ntext m"
    using assms decode_capability_ok decode_agent_response_ok decode_sends_ok
    by (auto simp: decodeRoomAppClientMessage_def Let_def isBoundedRoomAppLocalRecovery_def recovery_bytes ROOM_APP_LOCAL_RECOVERY_MAX_BYTES_def
        client_message_ok_def [of _ "CM_recovery _"] client_message_ok_def [of _ CM_milestone]
        client_message_ok_def [of _ "CM_ready _"] byte_length_def utf8_encode_def
        split: if_split_asm js.splits)
  ultimately show ?thesis ..
qed

theorem client_message_bounded_witness:
  "client_message_ok (\<lambda>_. []) (CM_send Realtime (JObj [(lit ''x'', JNum (jint 1))]))"
  by (rule client_message_bounded [of _ "JObj [(lit ''type'', JStr (lit ''sendRealtime'')),
      (lit ''appInstanceId'', JStr (lit ''poker:1'')), (lit ''payload'', JObj [(lit ''x'', JNum (jint 1))])]"
      "lit ''poker:1''", THEN conjunct2]) code_simp

subsection \<open>Instance ids are well formed and tell Apps apart\<close>

lemma hex_digit_unit: "k < 16 \<Longrightarrow> app_id_unit (hex_digit k)"
proof -
  assume "k < 16"
  then have "k \<in> set [0..<16]" by simp
  moreover have "list_all (\<lambda>k. app_id_unit (hex_digit k)) [0..<16]" by code_simp
  ultimately show ?thesis by (auto simp: list_all_iff)
qed

lemma hex_text_units: "list_all app_id_unit (hex_text n)"
proof (induction n rule: hex_text.induct)
  case (1 n)
  then show ?case by (subst hex_text.simps) (auto simp: hex_digit_unit)
qed

lemma length_hex_text: "n < 16 ^ Suc k \<Longrightarrow> length (hex_text n) \<le> Suc k"
proof (induction k arbitrary: n)
  case (Suc k)
  show ?case
  proof (cases "n < 16")
    case False
    have "n div 16 < 16 ^ Suc k" using Suc.prems by (simp add: less_mult_imp_div_less)
    then have "length (hex_text (n div 16)) \<le> Suc k" by (rule Suc.IH)
    with False show ?thesis by (simp add: hex_text.simps [of n])
  qed (simp add: hex_text.simps)
qed (simp add: hex_text.simps)

lemma instance_suffix: "\<exists>h. roomAppInstanceId room i = i @ 0x3a # h \<and> length h = 8 \<and> list_all app_id_unit h"
proof -
  let ?n = "unat (fnv_hash (room @ 0x3a # i))"
  have "?n < 16 ^ Suc 7" using unsigned_less [of "fnv_hash (room @ 0x3a # i)", where ?'a = nat] by simp
  then have "length (hex_text ?n) \<le> 8" using length_hex_text [of ?n 7] by simp
  moreover have "app_id_unit 0x30" by code_simp
  ultimately have "length (pad_start 8 0x30 (hex_text ?n)) = 8 \<and> list_all app_id_unit (pad_start 8 0x30 (hex_text ?n))"
    using hex_text_units [of ?n] by (auto simp: pad_start_def list_all_iff)
  then show ?thesis by (simp add: roomAppInstanceId_def)
qed

text \<open>
  The instance id of an App in a Room is a valid instance id: the App's id, a colon and the
  32-bit hash of the Room and the App in eight hexadecimal digits; two Apps of the same Room,
  or of two Rooms, never share one.
\<close>

theorem instance_id_valid:
  assumes "APP_ID_PATTERN i" and "APP_ID_PATTERN j"
  shows "isValidRoomAppInstanceId (JStr (roomAppInstanceId room i)) \<and>
    length (roomAppInstanceId room i) = length i + 9 \<and>
    (roomAppInstanceId room i = roomAppInstanceId other j \<longrightarrow> i = j)"
proof -
  obtain h where h: "roomAppInstanceId room i = i @ 0x3a # h" "length h = 8" "list_all app_id_unit h"
    using instance_suffix by blast
  obtain g where g: "roomAppInstanceId other j = j @ 0x3a # g" "length g = 8"
    using instance_suffix by blast
  have "isValidRoomAppInstanceId (JStr (i @ 0x3a # h))"
    using assms(1) h(2,3)
    by (auto simp: isValidRoomAppInstanceId_def APP_INSTANCE_PATTERN_def APP_ID_PATTERN_def list_all_iff split: list.splits)
  then show ?thesis using h g by auto
qed

theorem instance_id_valid_witness:
  "isValidRoomAppInstanceId (JStr (roomAppInstanceId (lit ''lobby'') (lit ''poker'')))"
  by (rule instance_id_valid [of _ "lit ''chess''" "lit ''lobby''" "lit ''lobby''", THEN conjunct1]) code_simp+

end
