(* ===== verification/Rate_Limits.thy ===== *)
theory Rate_Limits
  imports Room_App "HOL-Library.Multiset"
begin

text \<open>
  How often a peer may act: the sliding one-second guards of Room App traffic
  (roomAppRateGuard and roomAppUnicastRateGuard of app/src/common/roomApp.ts, and
  consumeRoomAppUnicastBudget of app/src/do/RoomSession.ts), the fixed windows of client
  messages and generated App state, and the admission of a held long poll.

  Times are milliseconds of one clock that does not go back.
\<close>

definition ROOM_APP_RELIABLE_MESSAGES_PER_SECOND :: nat where "ROOM_APP_RELIABLE_MESSAGES_PER_SECOND = 20"
definition ROOM_APP_REALTIME_MESSAGES_PER_SECOND :: nat where "ROOM_APP_REALTIME_MESSAGES_PER_SECOND = 60"
definition ROOM_APP_BYTES_PER_SECOND :: nat where "ROOM_APP_BYTES_PER_SECOND = 256 * 1024"
definition ROOM_APP_UNICAST_MESSAGES_PER_SECOND :: nat where "ROOM_APP_UNICAST_MESSAGES_PER_SECOND = 10"
definition ROOM_APP_UNICAST_BYTES_PER_SECOND :: nat where "ROOM_APP_UNICAST_BYTES_PER_SECOND = 64 * 1024"

lemmas rate_bounds = ROOM_APP_RELIABLE_MESSAGES_PER_SECOND_def ROOM_APP_REALTIME_MESSAGES_PER_SECOND_def
  ROOM_APP_BYTES_PER_SECOND_def ROOM_APP_UNICAST_MESSAGES_PER_SECOND_def ROOM_APP_UNICAST_BYTES_PER_SECOND_def

subsection \<open>Sliding guards\<close>

text \<open>A sample is the time of an accepted message and its size.\<close>

type_synonym sample = "int \<times> nat"

definition total_bytes :: "sample list \<Rightarrow> nat" where
  "total_bytes xs = sum_list (map snd xs)"

record lane_samples =
  ls_reliable :: "sample list"
  ls_realtime :: "sample list"

definition lane_limit :: "app_lane \<Rightarrow> nat" where
  "lane_limit l = (case l of Reliable \<Rightarrow> ROOM_APP_RELIABLE_MESSAGES_PER_SECOND
     | Realtime \<Rightarrow> ROOM_APP_REALTIME_MESSAGES_PER_SECOND)"

definition lane_of_samples :: "app_lane \<Rightarrow> lane_samples \<Rightarrow> sample list" where
  "lane_of_samples l g = (case l of Reliable \<Rightarrow> ls_reliable g | Realtime \<Rightarrow> ls_realtime g)"

definition push_sample :: "app_lane \<Rightarrow> sample \<Rightarrow> lane_samples \<Rightarrow> lane_samples" where
  "push_sample l x g = (case l of Reliable \<Rightarrow> g\<lparr>ls_reliable := ls_reliable g @ [x]\<rparr>
     | Realtime \<Rightarrow> g\<lparr>ls_realtime := ls_realtime g @ [x]\<rparr>)"

definition roomAppRateGuard_allow :: "app_lane \<Rightarrow> nat \<Rightarrow> int \<Rightarrow> lane_samples \<Rightarrow> bool \<times> lane_samples" where
  "roomAppRateGuard_allow l bytes now g =
     (let live = filter (\<lambda>x. now - 1000 < fst x);
          g = \<lparr>ls_reliable = live (ls_reliable g), ls_realtime = live (ls_realtime g)\<rparr> in
      if lane_limit l \<le> length (lane_of_samples l g)
         \<or> ROOM_APP_BYTES_PER_SECOND < total_bytes (ls_reliable g @ ls_realtime g) + bytes
      then (False, g) else (True, push_sample l (now, bytes) g))"

definition roomAppUnicastRateGuard_allow :: "nat \<Rightarrow> int \<Rightarrow> sample list \<Rightarrow> bool \<times> sample list" where
  "roomAppUnicastRateGuard_allow bytes now events =
     (let events = dropWhile (\<lambda>x. fst x \<le> now - 1000) events in
      if ROOM_APP_UNICAST_MESSAGES_PER_SECOND \<le> length events
         \<or> ROOM_APP_UNICAST_BYTES_PER_SECOND < total_bytes events + bytes
      then (False, events) else (True, events @ [(now, bytes)]))"

text \<open>
  The Room's own budget lives in the attachment of the sender's socket. Storing it may fail,
  which refuses the message.
\<close>

datatype budget_outcome = Budget_allowed | Budget_rate_limited | Budget_delivery_failed

definition live_sample :: "int \<Rightarrow> sample \<Rightarrow> bool" where
  "live_sample now x \<longleftrightarrow> \<bar>fst x\<bar> \<le> 9007199254740991 \<and> now - 1000 < fst x \<and> fst x \<le> now \<and>
     snd x \<le> ROOM_APP_MAX_PAYLOAD_BYTES"

definition consumeRoomAppUnicastBudget :: "bool \<Rightarrow> nat \<Rightarrow> int \<Rightarrow> sample list \<Rightarrow> budget_outcome \<times> sample list" where
  "consumeRoomAppUnicastBudget stores bytes now stored =
     (let samples = filter (live_sample now) (slice_last ROOM_APP_UNICAST_MESSAGES_PER_SECOND stored) in
      if ROOM_APP_UNICAST_MESSAGES_PER_SECOND \<le> length samples
         \<or> ROOM_APP_UNICAST_BYTES_PER_SECOND < total_bytes samples + bytes
      then (Budget_rate_limited, stored)
      else if stores then (Budget_allowed, samples @ [(now, bytes)]) else (Budget_delivery_failed, stored))"

subsection \<open>Fixed windows\<close>

definition MAX_CLIENT_MESSAGES_PER_WINDOW :: nat where "MAX_CLIENT_MESSAGES_PER_WINDOW = 300"
definition CLIENT_MESSAGE_WINDOW_MS :: int where "CLIENT_MESSAGE_WINDOW_MS = 10 * 1000"
definition MAX_CLIENT_MESSAGE_WINDOWS :: nat where "MAX_CLIENT_MESSAGE_WINDOWS = 256"

record message_window =
  mw_startedAt :: int
  mw_count :: nat

definition clientMessageBudgetExceeded :: "jstr \<Rightarrow> int \<Rightarrow> (jstr, message_window) dict \<Rightarrow>
    bool \<times> (jstr, message_window) dict" where
  "clientMessageBudgetExceeded i now windows =
     (let windows = (if MAX_CLIENT_MESSAGE_WINDOWS < length windows
            then filter (\<lambda>(_, w). now - mw_startedAt w < CLIENT_MESSAGE_WINDOW_MS) windows else windows);
          window = (case dget windows i of
            Some w \<Rightarrow> if CLIENT_MESSAGE_WINDOW_MS \<le> now - mw_startedAt w
              then \<lparr>mw_startedAt = now, mw_count = 0\<rparr> else w
          | None \<Rightarrow> \<lparr>mw_startedAt = now, mw_count = 0\<rparr>);
          window = window\<lparr>mw_count := mw_count window + 1\<rparr> in
      (MAX_CLIENT_MESSAGES_PER_WINDOW < mw_count window, dput i window windows))"

definition GENERATED_APP_STATE_WINDOW_MS :: int where "GENERATED_APP_STATE_WINDOW_MS = 10 * 1000"
definition GENERATED_APP_STATE_MAX_MUTATIONS_PER_WINDOW :: nat where
  "GENERATED_APP_STATE_MAX_MUTATIONS_PER_WINDOW = 40"
definition GENERATED_APP_STATE_MAX_BYTES_PER_WINDOW :: nat where
  "GENERATED_APP_STATE_MAX_BYTES_PER_WINDOW = 64 * 1024"

record state_window =
  sw_startedAt :: int
  sw_count :: nat
  sw_bytes :: nat

definition generatedAppStateBudgetExceeded :: "jstr \<Rightarrow> jstr \<Rightarrow> nat \<Rightarrow> int \<Rightarrow> (jstr, state_window) dict \<Rightarrow>
    bool \<times> (jstr, state_window) dict" where
  "generatedAppStateBudgetExceeded i instance_id bytes now windows =
     (let windows = (if MAX_CLIENT_MESSAGE_WINDOWS < length windows
            then filter (\<lambda>(_, w). now - sw_startedAt w < GENERATED_APP_STATE_WINDOW_MS) windows else windows);
          key = i @ 0x3a # instance_id;
          fresh = \<lparr>sw_startedAt = now, sw_count = 0, sw_bytes = 0\<rparr>;
          window = (case dget windows key of
            Some w \<Rightarrow> if GENERATED_APP_STATE_WINDOW_MS \<le> now - sw_startedAt w then fresh else w
          | None \<Rightarrow> fresh) in
      if GENERATED_APP_STATE_MAX_MUTATIONS_PER_WINDOW \<le> sw_count window
         \<or> GENERATED_APP_STATE_MAX_BYTES_PER_WINDOW < sw_bytes window + bytes
      then (True, windows)
      else (False, dput key (window\<lparr>sw_count := sw_count window + 1, sw_bytes := sw_bytes window + bytes\<rparr>) windows))"

subsection \<open>Held long polls\<close>

definition MCP_LEGACY_LONGPOLL_MAX_MS :: int where "MCP_LEGACY_LONGPOLL_MAX_MS = 5 * 1000"
definition MCP_LEGACY_LONGPOLL_MIN_INTERVAL_MS :: int where "MCP_LEGACY_LONGPOLL_MIN_INTERVAL_MS = 15 * 1000"
definition MCP_LONGPOLL_RETRY_HINT_MS :: int where "MCP_LONGPOLL_RETRY_HINT_MS = 15 * 1000"
definition MCP_WAIT_MIN_INTERVAL_MS :: int where "MCP_WAIT_MIN_INTERVAL_MS = 5 * 1000"

datatype longpoll_decision = LP_immediate int | LP_cooling_down int | LP_held int

definition legacyLongPollDecision :: "bool \<Rightarrow> int option \<Rightarrow> int \<Rightarrow> int \<Rightarrow> longpoll_decision" where
  "legacyLongPollDecision enabled lastEnded timeoutSeconds now =
     (let cooldownUntil = (case lastEnded of Some t \<Rightarrow> t | None \<Rightarrow> 0) + MCP_LEGACY_LONGPOLL_MIN_INTERVAL_MS;
          waitMs = min (max 0 timeoutSeconds * 1000) MCP_LEGACY_LONGPOLL_MAX_MS in
      if \<not> enabled then LP_immediate MCP_LONGPOLL_RETRY_HINT_MS
      else if now < cooldownUntil then LP_cooling_down (cooldownUntil - now)
      else if waitMs \<le> 0 then LP_immediate MCP_LONGPOLL_RETRY_HINT_MS
      else LP_held waitMs)"

text \<open>
  The admission of one wait after authentication. \<open>hasEvents\<close> says whether the poll already
  has something to return.
\<close>

record wait_state =
  ws_waiting :: "jstr list"
  ws_cadence :: "(jstr, int) dict"
  ws_lastHeldEndedAt :: "int option"

datatype wait_outcome = WT_already_pending | WT_rate_limited int | WT_snapshot | WT_retry longpoll_decision | WT_held int

definition sweep_cadence :: "int \<Rightarrow> (jstr, int) dict \<Rightarrow> (jstr, int) dict" where
  "sweep_cadence now cadence = (if MAX_CLIENT_MESSAGE_WINDOWS < length cadence
     then filter (\<lambda>(_, t). now - t < MCP_WAIT_MIN_INTERVAL_MS) cadence else cadence)"

definition waitForAgent :: "bool \<Rightarrow> jstr \<Rightarrow> bool \<Rightarrow> int \<Rightarrow> int \<Rightarrow> wait_state \<Rightarrow> wait_outcome \<times> wait_state" where
  "waitForAgent enabled i hasEvents timeoutSeconds now w =
     (let lastWaitAt = (case dget (ws_cadence w) i of Some t \<Rightarrow> t | None \<Rightarrow> 0) in
      if i \<in> set (ws_waiting w) then (WT_already_pending, w)
      else if now - lastWaitAt < MCP_WAIT_MIN_INTERVAL_MS
        then (WT_rate_limited (MCP_WAIT_MIN_INTERVAL_MS - (now - lastWaitAt)), w)
      else (let w = w\<lparr>ws_cadence := sweep_cadence now (dput i now (ws_cadence w))\<rparr> in
        if hasEvents then (WT_snapshot, w)
        else (case legacyLongPollDecision enabled (ws_lastHeldEndedAt w) timeoutSeconds now of
          LP_held ms \<Rightarrow> (WT_held ms, w\<lparr>ws_waiting := ws_waiting w @ [i], ws_lastHeldEndedAt := Some (now + ms)\<rparr>)
        | d \<Rightarrow> (WT_retry d, w))))"

definition wait_finished :: "jstr \<Rightarrow> wait_state \<Rightarrow> wait_state" where
  "wait_finished i w = w\<lparr>ws_waiting := removeAll i (ws_waiting w)\<rparr>"

subsection \<open>What a sliding guard promises\<close>

text \<open>The requests a guard accepts of a run, with their times, and those of one second.\<close>

fun guard_accepts :: "('r \<Rightarrow> int \<Rightarrow> 's \<Rightarrow> bool \<times> 's) \<Rightarrow> (int \<times> 'r) list \<Rightarrow> 's \<Rightarrow> (int \<times> 'r) list" where
  "guard_accepts allow [] s = []"
| "guard_accepts allow ((now, q) # qs) s = (case allow q now s of
     (True, s') \<Rightarrow> (now, q) # guard_accepts allow qs s'
   | (False, s') \<Rightarrow> guard_accepts allow qs s')"

definition in_second :: "int \<Rightarrow> (int \<times> 'r) list \<Rightarrow> 'r list" where
  "in_second t qs = map snd (filter (\<lambda>x. t - 1000 < fst x \<and> fst x \<le> t) qs)"

text \<open>
  A guard remembers the accepted requests of the last second and admits one only if together
  with them it is within the limit. \<open>legal\<close> is what the caller checked before, \<open>valid\<close> what
  the guard keeps of its state.
\<close>

locale sliding_guard =
  fixes allow :: "'r \<Rightarrow> int \<Rightarrow> 's \<Rightarrow> bool \<times> 's"
    and remembered :: "'s \<Rightarrow> (int \<times> 'r) multiset"
    and fair :: "(int \<times> 'r) multiset \<Rightarrow> bool"
    and legal :: "'r \<Rightarrow> int \<Rightarrow> bool"
    and valid :: "'s \<Rightarrow> bool"
    and start :: 's
  assumes start_valid: "valid start" and start_empty: "remembered start = {#}"
    and fair_less: "fair xs \<Longrightarrow> ys \<subseteq># xs \<Longrightarrow> fair ys" and fair_empty: "fair {#}"
    and admits: "valid s \<Longrightarrow> \<forall>x \<in># remembered s. fst x \<le> now \<Longrightarrow> legal q now \<Longrightarrow> allow q now s = (True, s') \<Longrightarrow>
      remembered s' = filter_mset (\<lambda>x. now - 1000 < fst x) (remembered s) + {#(now, q)#} \<and>
      fair (remembered s') \<and> valid s'"
    and refuses: "valid s \<Longrightarrow> \<forall>x \<in># remembered s. fst x \<le> now \<Longrightarrow> legal q now \<Longrightarrow> allow q now s = (False, s') \<Longrightarrow>
      (remembered s' = remembered s \<or> remembered s' = filter_mset (\<lambda>x. now - 1000 < fst x) (remembered s)) \<and>
      valid s'"
begin

definition window :: "int \<Rightarrow> (int \<times> 'r) multiset \<Rightarrow> (int \<times> 'r) multiset" where
  "window t past = filter_mset (\<lambda>x. t - 1000 < fst x \<and> fst x \<le> t) past"

definition good :: "int \<Rightarrow> 's \<Rightarrow> (int \<times> 'r) multiset \<Rightarrow> bool" where
  "good now s past \<longleftrightarrow> valid s \<and> (\<forall>x \<in># past. fst x \<le> now) \<and> remembered s \<subseteq># past \<and>
     filter_mset (\<lambda>x. now - 1000 < fst x) (remembered s) = filter_mset (\<lambda>x. now - 1000 < fst x) past \<and>
     (\<forall>t. fair (window t past))"

lemma filter_later:
  assumes "now \<le> now'"
    and "filter_mset (\<lambda>x. now - 1000 < fst x) xs = filter_mset (\<lambda>x. now - 1000 < fst x) ys"
  shows "filter_mset (\<lambda>x. now' - 1000 < fst x) xs = filter_mset (\<lambda>x. now' - 1000 < fst (x :: int \<times> 'r)) ys"
proof -
  have "filter_mset (\<lambda>x. now' - 1000 < fst x) zs =
      filter_mset (\<lambda>x. now' - 1000 < fst x) (filter_mset (\<lambda>x. now - 1000 < fst x) zs)"
    for zs :: "(int \<times> 'r) multiset"
    using assms(1) by (auto simp: filter_filter_mset intro!: filter_mset_cong)
  with assms(2) show ?thesis by metis
qed

lemma goodD:
  assumes "good now s past" and "now \<le> now'"
  shows "valid s" and "\<forall>x \<in># past. fst x \<le> now'" and "\<forall>x \<in># remembered s. fst x \<le> now'"
    and "filter_mset (\<lambda>x. now' - 1000 < fst x) (remembered s) = filter_mset (\<lambda>x. now' - 1000 < fst x) past"
proof -
  show "valid s" using assms(1) by (simp add: good_def)
  show le: "\<forall>x \<in># past. fst x \<le> now'" using assms unfolding good_def by (meson order_trans)
  show "\<forall>x \<in># remembered s. fst x \<le> now'" using assms(1) le unfolding good_def by (meson mset_subset_eqD)
  show "filter_mset (\<lambda>x. now' - 1000 < fst x) (remembered s) = filter_mset (\<lambda>x. now' - 1000 < fst x) past"
    using assms(1) by (intro filter_later [OF assms(2)]) (simp add: good_def)
qed

lemma good_admit:
  assumes "good now s past" and "now \<le> now'" and "legal q now'" and "allow q now' s = (True, s')"
  shows "good now' s' (past + {#(now', q)#})"
proof -
  let ?past = "past + {#(now', q)#}"
  note g = goodD [OF assms(1,2)]
  from admits [OF g(1,3) assms(3,4)]
  have s': "remembered s' = filter_mset (\<lambda>x. now' - 1000 < fst x) past + {#(now', q)#}"
    and ok: "fair (remembered s')" and valid: "valid s'" unfolding g(4) by blast+
  have "fair (window t ?past)" for t
  proof (cases "now' \<le> t")
    case True
    have "window t ?past = filter_mset (\<lambda>x. t - 1000 < fst x) (remembered s')"
      using True g(2) by (auto simp: window_def s' filter_filter_mset intro!: filter_mset_cong)
    then have "window t ?past \<subseteq># remembered s'" by simp
    with ok show ?thesis by (rule fair_less)
  next
    case False
    then have "window t ?past = window t past" by (simp add: window_def)
    with assms(1) show ?thesis by (simp add: good_def)
  qed
  moreover have "remembered s' \<subseteq># ?past" by (simp add: s')
  moreover have "filter_mset (\<lambda>x. now' - 1000 < fst x) (remembered s') = filter_mset (\<lambda>x. now' - 1000 < fst x) ?past"
    by (simp add: s' filter_filter_mset)
  ultimately show ?thesis using g(2) valid by (simp add: good_def)
qed

lemma good_refuse:
  assumes "good now s past" and "now \<le> now'" and "legal q now'" and "allow q now' s = (False, s')"
  shows "good now' s' past"
proof -
  note g = goodD [OF assms(1,2)]
  from refuses [OF g(1,3) assms(3,4)]
  have s': "remembered s' = remembered s \<or> remembered s' = filter_mset (\<lambda>x. now' - 1000 < fst x) (remembered s)"
    and valid: "valid s'" by blast+
  from assms(1) have sub: "remembered s \<subseteq># past" by (simp add: good_def)
  from s' have "remembered s' \<subseteq># past" using sub by (metis g(4) multiset_filter_subset)
  moreover from s' have "filter_mset (\<lambda>x. now' - 1000 < fst x) (remembered s') = filter_mset (\<lambda>x. now' - 1000 < fst x) past"
    using g(4) by (elim disjE) (simp_all add: filter_filter_mset)
  ultimately show ?thesis using g(2) valid assms(1) by (simp add: good_def)
qed

lemma good_run:
  "\<lbrakk>good now s past; sorted (map fst qs); \<forall>x \<in> set qs. now \<le> fst x \<and> legal (snd x) (fst x)\<rbrakk> \<Longrightarrow>
   fair (window t (past + mset (guard_accepts allow qs s)))"
proof (induction qs arbitrary: now s past)
  case Nil
  then show ?case by (simp add: good_def)
next
  case (Cons x qs)
  obtain n q where x: "x = (n, q)" by force
  obtain b s' where a: "allow q n s = (b, s')" by force
  have le: "now \<le> n" and legal: "legal q n" and later: "\<forall>x \<in> set qs. n \<le> fst x \<and> legal (snd x) (fst x)"
    and srt: "sorted (map fst qs)" using Cons.prems(2,3) by (auto simp: x)
  show ?case
  proof (cases b)
    case True
    from good_admit [OF Cons.prems(1) le legal] a True
    have "good n s' (past + {#(n, q)#})" by simp
    from Cons.IH [OF this srt later] a True show ?thesis by (simp add: x)
  next
    case False
    from good_refuse [OF Cons.prems(1) le legal] a False
    have "good n s' past" by simp
    from Cons.IH [OF this srt later] a False show ?thesis by (simp add: x)
  qed
qed

theorem every_window_fair:
  assumes "sorted (map fst qs)" and "\<forall>x \<in> set qs. legal (snd x) (fst x)"
  shows "fair (window t (mset (guard_accepts allow qs start)))"
proof (cases qs)
  case Nil
  then show ?thesis by (simp add: window_def fair_empty)
next
  case (Cons x xs)
  have "good (fst x) start {#}" by (simp add: good_def start_valid start_empty fair_empty window_def)
  from good_run [OF this assms(1)] assms have "fair (window t ({#} + mset (guard_accepts allow qs start)))" by (auto simp: Cons)
  then show ?thesis by simp
qed

end

subsection \<open>The three guards\<close>

definition lane_allow :: "app_lane \<times> nat \<Rightarrow> int \<Rightarrow> lane_samples \<Rightarrow> bool \<times> lane_samples" where
  "lane_allow q now g = roomAppRateGuard_allow (fst q) (snd q) now g"

definition lane_remembered :: "lane_samples \<Rightarrow> (int \<times> app_lane \<times> nat) multiset" where
  "lane_remembered g = image_mset (\<lambda>x. (fst x, Reliable, snd x)) (mset (ls_reliable g)) +
     image_mset (\<lambda>x. (fst x, Realtime, snd x)) (mset (ls_realtime g))"

definition lane_fair :: "(int \<times> app_lane \<times> nat) multiset \<Rightarrow> bool" where
  "lane_fair m \<longleftrightarrow> (\<forall>l. size (filter_mset (\<lambda>x. fst (snd x) = l) m) \<le> lane_limit l) \<and>
     sum_mset (image_mset (snd \<circ> snd) m) \<le> ROOM_APP_BYTES_PER_SECOND"

definition unicast_fair :: "(int \<times> nat) multiset \<Rightarrow> bool" where
  "unicast_fair m \<longleftrightarrow> size m \<le> ROOM_APP_UNICAST_MESSAGES_PER_SECOND \<and>
     sum_mset (image_mset snd m) \<le> ROOM_APP_UNICAST_BYTES_PER_SECOND"

definition budget_allow :: "nat \<times> bool \<Rightarrow> int \<Rightarrow> sample list \<Rightarrow> bool \<times> sample list" where
  "budget_allow q now s = (let (r, s') = consumeRoomAppUnicastBudget (snd q) (fst q) now s in (r = Budget_allowed, s'))"

definition budget_remembered :: "sample list \<Rightarrow> (int \<times> nat \<times> bool) multiset" where
  "budget_remembered s = image_mset (\<lambda>x. (fst x, snd x, True)) (mset s)"

definition budget_fair :: "(int \<times> nat \<times> bool) multiset \<Rightarrow> bool" where
  "budget_fair m \<longleftrightarrow> size m \<le> ROOM_APP_UNICAST_MESSAGES_PER_SECOND \<and>
     sum_mset (image_mset (fst \<circ> snd) m) \<le> ROOM_APP_UNICAST_BYTES_PER_SECOND"

definition budget_legal :: "nat \<times> bool \<Rightarrow> int \<Rightarrow> bool" where
  "budget_legal q now \<longleftrightarrow> fst q \<le> ROOM_APP_MAX_PAYLOAD_BYTES \<and> \<bar>now\<bar> \<le> 9007199254740991"

definition budget_valid :: "sample list \<Rightarrow> bool" where
  "budget_valid s \<longleftrightarrow> length s \<le> ROOM_APP_UNICAST_MESSAGES_PER_SECOND \<and>
     list_all (\<lambda>x. snd x \<le> ROOM_APP_MAX_PAYLOAD_BYTES \<and> \<bar>fst x\<bar> \<le> 9007199254740991) s"

lemma sum_submset: "ys \<subseteq># xs \<Longrightarrow> sum_mset (image_mset f ys) \<le> (sum_mset (image_mset f xs) :: nat)"
  by (metis image_mset_union le_add1 subset_mset.add_diff_inverse sum_mset.union)

lemma lane_fair_less: "lane_fair xs \<Longrightarrow> ys \<subseteq># xs \<Longrightarrow> lane_fair ys"
  unfolding lane_fair_def
  by (meson order_trans sum_submset size_mset_mono multiset_filter_mono)

lemma lane_allow_cases:
  assumes "lane_allow q now g = (b, g')"
  defines "live \<equiv> filter (\<lambda>x :: sample. now - 1000 < fst x)"
  defines "g1 \<equiv> \<lparr>ls_reliable = live (ls_reliable g), ls_realtime = live (ls_realtime g)\<rparr>"
  shows "if b then g' = push_sample (fst q) (now, snd q) g1 \<and> length (lane_of_samples (fst q) g1) < lane_limit (fst q)
       \<and> total_bytes (ls_reliable g1 @ ls_realtime g1) + snd q \<le> ROOM_APP_BYTES_PER_SECOND
     else g' = g1"
  using assms(1) by (auto simp: lane_allow_def roomAppRateGuard_allow_def Let_def g1_def live_def split: if_splits)

lemma lane_remembered_live:
  "lane_remembered \<lparr>ls_reliable = filter (\<lambda>x. b < fst x) (ls_reliable g), ls_realtime = filter (\<lambda>x. b < fst x) (ls_realtime g)\<rparr> =
   filter_mset (\<lambda>x. b < fst x) (lane_remembered g)"
  by (simp add: lane_remembered_def filter_mset_image_mset)

lemma lane_remembered_push: "lane_remembered (push_sample l (t, b) g) = lane_remembered g + {#(t, l, b)#}"
  by (cases l) (simp_all add: lane_remembered_def push_sample_def)

definition lane_valid :: "lane_samples \<Rightarrow> bool" where
  "lane_valid g \<longleftrightarrow> (\<forall>l. length (lane_of_samples l g) \<le> lane_limit l)"

lemma lane_remembered_size:
  "size (filter_mset (\<lambda>x. fst (snd x) = l) (lane_remembered g)) = length (lane_of_samples l g)"
  by (cases l) (simp_all add: lane_remembered_def lane_of_samples_def filter_mset_image_mset)

lemma lane_remembered_bytes:
  "sum_mset (image_mset (snd \<circ> snd) (lane_remembered g)) = total_bytes (ls_reliable g @ ls_realtime g)"
  by (simp add: lane_remembered_def total_bytes_def image_mset.compositionality comp_def sum_mset_sum_list
      flip: mset_map)

lemma lane_of_push: "lane_of_samples l' (push_sample l x g) =
    (if l = l' then lane_of_samples l g @ [x] else lane_of_samples l' g)"
  by (cases l; cases l') (simp_all add: lane_of_samples_def push_sample_def)

lemma lane_of_live: "lane_of_samples l \<lparr>ls_reliable = filter p (ls_reliable g), ls_realtime = filter p (ls_realtime g)\<rparr> =
    filter p (lane_of_samples l g)"
  by (cases l) (simp_all add: lane_of_samples_def)

lemma lane_live_valid: "lane_valid g \<Longrightarrow>
    lane_valid \<lparr>ls_reliable = filter p (ls_reliable g), ls_realtime = filter p (ls_realtime g)\<rparr>"
  unfolding lane_valid_def lane_of_live by (meson length_filter_le order_trans)

interpretation lane: sliding_guard lane_allow lane_remembered lane_fair "\<lambda>_ _. True" lane_valid
  "\<lparr>ls_reliable = [], ls_realtime = []\<rparr>"
proof unfold_locales
  show "lane_valid \<lparr>ls_reliable = [], ls_realtime = []\<rparr>"
    by (simp add: lane_valid_def lane_of_samples_def split: app_lane.split)
  show "lane_remembered \<lparr>ls_reliable = [], ls_realtime = []\<rparr> = {#}" by (simp add: lane_remembered_def)
  show "lane_fair {#}" by (simp add: lane_fair_def)
  show "lane_fair xs \<Longrightarrow> ys \<subseteq># xs \<Longrightarrow> lane_fair ys" for xs ys by (rule lane_fair_less)
next
  fix s now q s'
  assume v: "lane_valid s" and a: "lane_allow q now s = (True, s')"
  define g1 where "g1 = \<lparr>ls_reliable = filter (\<lambda>x :: sample. now - 1000 < fst x) (ls_reliable s),
    ls_realtime = filter (\<lambda>x :: sample. now - 1000 < fst x) (ls_realtime s)\<rparr>"
  from lane_allow_cases [OF a]
  have s': "s' = push_sample (fst q) (now, snd q) g1" and few: "length (lane_of_samples (fst q) g1) < lane_limit (fst q)"
    and small: "total_bytes (ls_reliable g1 @ ls_realtime g1) + snd q \<le> ROOM_APP_BYTES_PER_SECOND"
    by (simp_all add: g1_def)
  have v1: "lane_valid g1" unfolding g1_def by (rule lane_live_valid [OF v])
  have v': "lane_valid s'" using v1 few by (simp add: lane_valid_def s' lane_of_push)
  have r: "lane_remembered s' = lane_remembered g1 + {#(now, q)#}"
    by (simp add: s' lane_remembered_push)
  have r1: "lane_remembered g1 = filter_mset (\<lambda>x. now - 1000 < fst x) (lane_remembered s)"
    by (simp add: g1_def lane_remembered_live)
  have "size (filter_mset (\<lambda>x. fst (snd x) = l) (lane_remembered s')) \<le> lane_limit l" for l
    using v' by (simp only: lane_remembered_size lane_valid_def)
  moreover have "sum_mset (image_mset (snd \<circ> snd) (lane_remembered s')) \<le> ROOM_APP_BYTES_PER_SECOND"
    using small by (simp add: r lane_remembered_bytes)
  ultimately show "lane_remembered s' = filter_mset (\<lambda>x. now - 1000 < fst x) (lane_remembered s) + {#(now, q)#} \<and>
      lane_fair (lane_remembered s') \<and> lane_valid s'"
    using v' by (simp add: lane_fair_def r r1)
next
  fix s now q s'
  assume v: "lane_valid s" and a: "lane_allow q now s = (False, s')"
  from lane_allow_cases [OF a] lane_live_valid [OF v]
  show "(lane_remembered s' = lane_remembered s \<or>
      lane_remembered s' = filter_mset (\<lambda>x. now - 1000 < fst x) (lane_remembered s)) \<and> lane_valid s'"
    by (simp add: lane_remembered_live)
qed

lemma dropWhile_sorted: "sorted (map fst xs) \<Longrightarrow>
    dropWhile (\<lambda>x. fst x \<le> (b :: int)) xs = filter (\<lambda>x. b < fst x) xs"
proof (induction xs)
  case (Cons x xs)
  then show ?case by (fastforce intro: sym [OF filter_id_conv [THEN iffD2]])
qed simp

interpretation unicast: sliding_guard roomAppUnicastRateGuard_allow mset unicast_fair "\<lambda>_ _. True"
  "\<lambda>s. sorted (map fst s)" "[]"
proof unfold_locales
  show "unicast_fair xs \<Longrightarrow> ys \<subseteq># xs \<Longrightarrow> unicast_fair ys" for xs ys
    unfolding unicast_fair_def by (meson order_trans sum_submset size_mset_mono)
next
  fix s now q s'
  assume v: "sorted (map fst s)" and le: "\<forall>x \<in># mset s. fst x \<le> now"
    and a: "roomAppUnicastRateGuard_allow q now s = (True, s')"
  show "mset s' = filter_mset (\<lambda>x. now - 1000 < fst x) (mset s) + {#(now, q)#} \<and>
      unicast_fair (mset s') \<and> sorted (map fst s')"
    using a v le by (auto simp: roomAppUnicastRateGuard_allow_def Let_def dropWhile_sorted unicast_fair_def total_bytes_def
        sorted_append sorted_filter sum_mset_sum_list simp flip: mset_map split: if_splits)
next
  fix s now q s'
  assume v: "sorted (map fst s)" and a: "roomAppUnicastRateGuard_allow q now s = (False, s')"
  show "(mset s' = mset s \<or> mset s' = filter_mset (\<lambda>x. now - 1000 < fst x) (mset s)) \<and> sorted (map fst s')"
    using a v by (auto simp: roomAppUnicastRateGuard_allow_def Let_def dropWhile_sorted sorted_filter split: if_splits)
qed (simp_all add: unicast_fair_def)

interpretation budget: sliding_guard budget_allow budget_remembered budget_fair budget_legal budget_valid "[]"
proof unfold_locales
  show "budget_fair xs \<Longrightarrow> ys \<subseteq># xs \<Longrightarrow> budget_fair ys" for xs ys
    unfolding budget_fair_def by (meson order_trans sum_submset size_mset_mono)
next
  fix s now q s'
  assume v: "budget_valid s" and le: "\<forall>x \<in># budget_remembered s. fst x \<le> now" and l: "budget_legal q now"
    and a: "budget_allow q now s = (True, s')"
  have live: "filter (live_sample now) (slice_last ROOM_APP_UNICAST_MESSAGES_PER_SECOND s) = filter (\<lambda>x. now - 1000 < fst x) s"
  proof -
    have "live_sample now x \<longleftrightarrow> now - 1000 < fst x" if "x \<in> set s" for x
      using v le that by (fastforce simp: budget_valid_def budget_remembered_def live_sample_def list_all_iff)
    moreover have "slice_last ROOM_APP_UNICAST_MESSAGES_PER_SECOND s = s"
      using v by (simp add: budget_valid_def slice_last_def rate_bounds)
    ultimately show ?thesis by (simp cong: filter_cong)
  qed
  show "budget_remembered s' = filter_mset (\<lambda>x. now - 1000 < fst x) (budget_remembered s) + {#(now, q)#} \<and>
      budget_fair (budget_remembered s') \<and> budget_valid s'"
    using a l v by (cases q) (auto simp: budget_allow_def consumeRoomAppUnicastBudget_def live Let_def budget_remembered_def
        budget_fair_def total_bytes_def budget_legal_def budget_valid_def list_all_iff filter_map
        image_mset.compositionality comp_def sum_mset_sum_list simp flip: mset_map mset_filter split: if_splits prod.splits)
qed (auto simp: budget_fair_def budget_remembered_def budget_valid_def budget_allow_def consumeRoomAppUnicastBudget_def
      Let_def split: if_splits prod.splits)

subsection \<open>What each guard bounds\<close>

lemma lane_fair_mset: "lane_fair (mset xs) \<longleftrightarrow>
    (\<forall>l. length (filter (\<lambda>x. fst (snd x) = l) xs) \<le> lane_limit l) \<and>
    sum_list (map (snd \<circ> snd) xs) \<le> ROOM_APP_BYTES_PER_SECOND"
  by (simp add: lane_fair_def sum_mset_sum_list flip: mset_map mset_filter)

text \<open>Every second of Room App traffic that the lane guard lets through, whatever is asked of it, has at most
  20 reliable and 60 realtime messages and at most 256 KiB in all. (The window is every second, not
  only those that begin at a message.)\<close>

theorem app_rate_bounded:
  assumes "sorted (map fst qs)"
  shows "let s = in_second t (guard_accepts lane_allow qs \<lparr>ls_reliable = [], ls_realtime = []\<rparr>) in
    length (filter (\<lambda>q. fst q = Reliable) s) \<le> 20 \<and> length (filter (\<lambda>q. fst q = Realtime) s) \<le> 60 \<and>
    sum_list (map snd s) \<le> 256 * 1024"
proof -
  let ?w = "filter (\<lambda>x. t - 1000 < fst x \<and> fst x \<le> t) (guard_accepts lane_allow qs \<lparr>ls_reliable = [], ls_realtime = []\<rparr>)"
  from lane.every_window_fair [OF assms, of t] have f: "lane_fair (mset ?w)" by (simp add: lane.window_def)
  from f have n: "length (filter (\<lambda>x. fst (snd x) = l) ?w) \<le> lane_limit l" for l
    unfolding lane_fair_mset by blast
  from f have b: "sum_list (map (snd \<circ> snd) ?w) \<le> ROOM_APP_BYTES_PER_SECOND"
    unfolding lane_fair_mset by blast
  show ?thesis using n [of Reliable] n [of Realtime] b
    by (simp add: Let_def in_second_def filter_map comp_def lane_limit_def rate_bounds conj_commute)
qed

theorem app_rate_bounded_witness:
  "sorted (map fst [(0 :: int, Reliable, 10 :: nat), (5, Realtime, 262140), (7, Reliable, 1), (1500, Reliable, 7)]) \<and>
   length (filter (\<lambda>q. fst q = Reliable) (in_second 999 (guard_accepts lane_allow
     [(0, Reliable, 10), (5, Realtime, 262140), (7, Reliable, 1), (1500, Reliable, 7)]
     \<lparr>ls_reliable = [], ls_realtime = []\<rparr>))) \<le> 20"
proof -
  have s: "sorted (map fst [(0 :: int, Reliable, 10 :: nat), (5, Realtime, 262140), (7, Reliable, 1), (1500, Reliable, 7)])"
    by simp
  show ?thesis
    by (rule conjI [OF s app_rate_bounded [OF s, of 999, unfolded Let_def, THEN conjunct1]])
qed

lemma budget_stores: "budget_allow q now s = (True, s') \<Longrightarrow> snd q"
  by (auto simp: budget_allow_def consumeRoomAppUnicastBudget_def Let_def split: if_splits)

lemma unicast_fair_mset: "unicast_fair (mset xs) \<longleftrightarrow> length xs \<le> 10 \<and> sum_list (map snd xs) \<le> 64 * 1024"
  by (simp add: unicast_fair_def rate_bounds sum_mset_sum_list flip: mset_map)

lemma budget_fair_mset: "budget_fair (mset xs) \<longleftrightarrow> length xs \<le> 10 \<and> sum_list (map (fst \<circ> snd) xs) \<le> 64 * 1024"
  by (simp add: budget_fair_def rate_bounds sum_mset_sum_list flip: mset_map)

text \<open>Unicast to Agents: with every request within the payload limit, each second the Room's budget lets at most
  10 messages and 64 KiB of one sender through. The budget survives in the sender's
  socket, and a request whose budget cannot be stored is not let through.\<close>

theorem unicast_rate_bounded:
  assumes "sorted (map fst qs)" and "list_all (\<lambda>q. budget_legal (snd q) (fst q)) qs"
  shows "let s = in_second t (guard_accepts budget_allow qs []) in
    length s \<le> 10 \<and> sum_list (map fst s) \<le> 64 * 1024 \<and> list_all snd s"
proof -
  have stored: "list_all (snd \<circ> snd) (guard_accepts budget_allow qs s)" for s
  proof (induction qs arbitrary: s)
    case (Cons x qs)
    then show ?case
      by (cases x) (auto split: prod.splits bool.splits dest: budget_stores)
  qed simp
  let ?w = "filter (\<lambda>x. t - 1000 < fst x \<and> fst x \<le> t) (guard_accepts budget_allow qs [])"
  from budget.every_window_fair [OF assms(1), of t] assms(2)
  have "budget_fair (mset ?w)" by (simp add: budget.window_def list_all_iff)
  then have "length ?w \<le> 10" and "sum_list (map (fst \<circ> snd) ?w) \<le> 64 * 1024"
    by (simp_all only: budget_fair_mset)
  with stored [of "[]"] show ?thesis by (auto simp: in_second_def comp_def list_all_iff)
qed

theorem unicast_rate_bounded_witness:
  "sorted (map fst [(0 :: int, 8000 :: nat, True), (10, 8192, False), (20, 7, True)]) \<and>
   list_all (\<lambda>q. budget_legal (snd q) (fst q)) [(0, 8000, True), (10, 8192, False), (20, 7, True)] \<and>
   length (in_second 500 (guard_accepts budget_allow [(0, 8000, True), (10, 8192, False), (20, 7, True)] [])) \<le> 10"
proof -
  have s: "sorted (map fst [(0 :: int, 8000 :: nat, True), (10, 8192, False), (20, 7, True)])" by simp
  have l: "list_all (\<lambda>q. budget_legal (snd q) (fst q)) [(0, 8000, True), (10, 8192, False), (20, 7, True)]"
    by (simp add: budget_legal_def ROOM_APP_MAX_PAYLOAD_BYTES_def)
  show ?thesis
    by (rule conjI [OF s conjI [OF l unicast_rate_bounded [OF s l, of 500, unfolded Let_def, THEN conjunct1]]])
qed

text \<open>The guard of the client has the same bound.\<close>

theorem client_unicast_bounded:
  assumes "sorted (map fst qs)"
  shows "let s = in_second t (guard_accepts roomAppUnicastRateGuard_allow qs []) in
    length s \<le> 10 \<and> sum_list s \<le> 64 * 1024"
proof -
  let ?w = "filter (\<lambda>x. t - 1000 < fst x \<and> fst x \<le> t) (guard_accepts roomAppUnicastRateGuard_allow qs [])"
  from unicast.every_window_fair [OF assms, of t]
  have "unicast_fair (mset ?w)" by (simp add: unicast.window_def)
  then have "length ?w \<le> 10" and "sum_list (map snd ?w) \<le> 64 * 1024"
    by (simp_all only: unicast_fair_mset)
  then show ?thesis by (simp add: in_second_def)
qed

text \<open>A run of waits and of their ends, and the holds it admitted: when each began and for how long.\<close>

datatype wait_step = Wait jstr bool int | Wait_ended jstr

fun holds :: "bool \<Rightarrow> (int \<times> wait_step) list \<Rightarrow> wait_state \<Rightarrow> (int \<times> int) list" where
  "holds enabled [] w = []"
| "holds enabled ((now, Wait_ended i) # ops) w = holds enabled ops (wait_finished i w)"
| "holds enabled ((now, Wait i hasEvents timeoutSeconds) # ops) w =
     (case waitForAgent enabled i hasEvents timeoutSeconds now w of
        (WT_held ms, w') \<Rightarrow> (now, ms) # holds enabled ops w'
      | (_, w') \<Rightarrow> holds enabled ops w')"

lemma longpoll_held: "legacyLongPollDecision enabled e t now = LP_held ms \<Longrightarrow>
    enabled \<and> 0 < ms \<and> ms \<le> 5000 \<and> (case e of None \<Rightarrow> True | Some x \<Rightarrow> x + 15000 \<le> now)"
  by (auto simp: legacyLongPollDecision_def Let_def MCP_LEGACY_LONGPOLL_MAX_MS_def
      MCP_LEGACY_LONGPOLL_MIN_INTERVAL_MS_def split: if_splits option.splits)

lemma waitForAgent_held: "waitForAgent enabled i h t now w = (WT_held ms, w') \<Longrightarrow>
    enabled \<and> 0 < ms \<and> ms \<le> 5000 \<and> ws_lastHeldEndedAt w' = Some (now + ms) \<and>
    (case ws_lastHeldEndedAt w of None \<Rightarrow> True | Some x \<Rightarrow> x + 15000 \<le> now)"
  by (auto simp: waitForAgent_def Let_def split: if_splits longpoll_decision.splits option.splits
      dest!: longpoll_held)

lemma waitForAgent_not_held: "waitForAgent enabled i h t now w = (r, w') \<Longrightarrow> (\<And>ms. r \<noteq> WT_held ms) \<Longrightarrow>
    ws_lastHeldEndedAt w' = ws_lastHeldEndedAt w"
  by (auto simp: waitForAgent_def Let_def split: if_splits longpoll_decision.splits)

lemma holds_spaced:
  "let hs = holds enabled ops w in
   sorted_wrt (\<lambda>x y. fst x + snd x + 15000 \<le> fst y) hs \<and> list_all (\<lambda>x. 0 < snd x \<and> snd x \<le> 5000 \<and> enabled) hs \<and>
   list_all (\<lambda>x. case ws_lastHeldEndedAt w of None \<Rightarrow> True | Some e \<Rightarrow> e + 15000 \<le> fst x) hs"
proof (induction ops arbitrary: w)
  case Nil
  then show ?case by simp
next
  case (Cons op ops)
  obtain now x where op: "op = (now, x)" by force
  show ?case
  proof (cases x)
    case (Wait_ended i)
    then show ?thesis using Cons.IH [of "wait_finished i w"] by (simp add: op wait_finished_def)
  next
    case (Wait i h t)
    obtain r w' where r: "waitForAgent enabled i h t now w = (r, w')" by force
    show ?thesis
    proof (cases "\<exists>ms. r = WT_held ms")
      case True
      then obtain ms where ms: "r = WT_held ms" by blast
      have hs: "holds enabled (op # ops) w = (now, ms) # holds enabled ops w'" by (simp add: op Wait r ms)
      note h = waitForAgent_held [OF r [unfolded ms]]
      have later: "list_all (\<lambda>x. now + ms + 15000 \<le> fst x) (holds enabled ops w')"
        using Cons.IH [of w'] h by (simp add: Let_def)
      then have "list_all (\<lambda>x. case ws_lastHeldEndedAt w of None \<Rightarrow> True | Some e \<Rightarrow> e + 15000 \<le> fst x) (holds enabled ops w')"
        using h by (auto simp: list_all_iff split: option.splits)
      with later h Cons.IH [of w'] show ?thesis unfolding hs by (simp add: Let_def list_all_iff split: option.splits)
    next
      case False
      then have "holds enabled (op # ops) w = holds enabled ops w'"
        by (auto simp: op Wait r split: wait_outcome.splits)
      moreover have "ws_lastHeldEndedAt w' = ws_lastHeldEndedAt w" using False by (intro waitForAgent_not_held [OF r]) auto
      ultimately show ?thesis using Cons.IH [of w'] by simp
    qed
  qed
qed

text \<open>However Agents poll, the Room holds a poll for at most five seconds, and at least fifteen
  seconds lie between the end of one hold and the start of the next; with the option off there is
  no hold at all.\<close>

theorem held_polls_spaced:
  "let hs = holds enabled ops \<lparr>ws_waiting = [], ws_cadence = [], ws_lastHeldEndedAt = None\<rparr> in
   sorted_wrt (\<lambda>x y. fst x + snd x + 15000 \<le> fst y) hs \<and> list_all (\<lambda>x. 0 < snd x \<and> snd x \<le> 5000 \<and> enabled) hs"
  using holds_spaced [of enabled ops "\<lparr>ws_waiting = [], ws_cadence = [], ws_lastHeldEndedAt = None\<rparr>"]
  by (simp add: Let_def)

end
