(* ===== verification/Room_App_Catalog.thy ===== *)
theory Room_App_Catalog
  imports Room_App "HOL-Library.List_Lexorder"
begin

text \<open>
  The Room App catalog (app/src/common/roomApp.ts): the parser of the Lab's public catalog, the
  loader that keeps the last accepted one, and what the installed catalog lets through. The
  installed catalog, a module variable of the source, is the argument \<open>cat\<close>. The platform's
  URL parser is the argument \<open>url_of\<close>.
\<close>

definition ROOM_APP_TRUSTED_ORIGIN :: jstr where "ROOM_APP_TRUSTED_ORIGIN = lit ''https://room-apps.free4.chat''"
definition ROOM_APP_CATALOG_MAX_ENTRIES :: nat where "ROOM_APP_CATALOG_MAX_ENTRIES = 32"
definition ROOM_APP_CATALOG_MAX_BYTES :: nat where "ROOM_APP_CATALOG_MAX_BYTES = 16 * 1024"

datatype app_source = Official | Generated

record app_definition =
  ad_id :: jstr
  ad_label :: jstr
  ad_url :: jstr
  ad_origin :: jstr
  ad_source :: "app_source option"
  ad_srcDoc :: "jstr option"
  ad_clipboardWrite :: "bool option"

record url_parts =
  u_origin :: jstr
  u_protocol :: jstr
  u_hostname :: jstr
  u_pathname :: jstr
  u_search :: jstr
  u_hash :: jstr
  u_username :: jstr
  u_password :: jstr

subsection \<open>Parsing\<close>

definition hasExactKeys :: "js \<Rightarrow> jstr list \<Rightarrow> bool" where
  "hasExactKeys v keys \<longleftrightarrow> sort (js_keys v) = sort keys"

definition has_own :: "js \<Rightarrow> string \<Rightarrow> bool" where
  "has_own v k \<longleftrightarrow> lit k \<in> set (js_keys v)"

definition label_ok :: "js \<Rightarrow> bool" where
  "label_ok v = (case v of
     JStr s \<Rightarrow> js_trim s \<noteq> [] \<and> length s \<le> 64 \<and> \<not> list_ex is_control s | _ \<Rightarrow> False)"

definition catalog_entry_ok :: "js \<Rightarrow> bool" where
  "catalog_entry_ok v \<longleftrightarrow> is_record v
     \<and> hasExactKeys v (map lit ([''id'', ''label'', ''path'', ''status''] @
         (if has_own v ''clipboardWrite'' then [''clipboardWrite''] else [])))
     \<and> (has_own v ''clipboardWrite'' \<longrightarrow> js_get v ''clipboardWrite'' = JBool True)
     \<and> isValidRoomAppId (js_get v ''id'') \<and> label_ok (js_get v ''label'')
     \<and> js_get v ''path'' = JStr (0x2f # js_string (js_get v ''id''))
     \<and> (js_get v ''status'' = JStr (lit ''active'') \<or> js_get v ''status'' = JStr (lit ''disabled''))"

definition entry_definition :: "js \<Rightarrow> app_definition" where
  "entry_definition v = \<lparr>ad_id = js_string (js_get v ''id''), ad_label = js_string (js_get v ''label''),
     ad_url = ROOM_APP_TRUSTED_ORIGIN @ js_string (js_get v ''path''), ad_origin = ROOM_APP_TRUSTED_ORIGIN,
     ad_source = None, ad_srcDoc = None,
     ad_clipboardWrite = (if js_get v ''clipboardWrite'' = JBool True then Some True else None)\<rparr>"

fun parse_entries :: "js list \<Rightarrow> jstr list \<Rightarrow> app_definition list \<Rightarrow> app_definition list option" where
  "parse_entries [] seen active = Some active"
| "parse_entries (v # vs) seen active =
     (if \<not> catalog_entry_ok v \<or> js_string (js_get v ''id'') \<in> set seen then None
      else parse_entries vs (js_string (js_get v ''id'') # seen)
        (if js_get v ''status'' = JStr (lit ''active'') then active @ [entry_definition v] else active))"

definition parseRoomAppCatalog :: "js \<Rightarrow> app_definition list option" where
  "parseRoomAppCatalog v =
     (if \<not> is_record v \<or> \<not> hasExactKeys v [lit ''version'', lit ''apps'']
         \<or> js_get v ''version'' \<noteq> JNum (jint 1) then None
      else (case js_get v ''apps'' of
        JArr apps \<Rightarrow> if ROOM_APP_CATALOG_MAX_ENTRIES < length apps then None else parse_entries apps [] []
      | _ \<Rightarrow> None))"

text \<open>Installing a catalog parses it again; an entry whose URL is not plain gets an empty path.\<close>

definition trusted_path :: "(jstr \<Rightarrow> url_parts option) \<Rightarrow> app_definition \<Rightarrow> jstr" where
  "trusted_path url_of app = (case url_of (ad_url app) of
     None \<Rightarrow> []
   | Some u \<Rightarrow> if ad_origin app = ROOM_APP_TRUSTED_ORIGIN \<and> u_origin u = ROOM_APP_TRUSTED_ORIGIN \<and>
       u_search u = [] \<and> u_hash u = [] \<and> u_username u = [] \<and> u_password u = [] then u_pathname u else [])"

definition catalog_entry :: "(jstr \<Rightarrow> url_parts option) \<Rightarrow> app_definition \<Rightarrow> js" where
  "catalog_entry url_of app = JObj ([(lit ''id'', JStr (ad_id app)), (lit ''label'', JStr (ad_label app)),
     (lit ''path'', JStr (trusted_path url_of app)), (lit ''status'', JStr (lit ''active''))] @
     (case ad_clipboardWrite app of None \<Rightarrow> [] | Some b \<Rightarrow> [(lit ''clipboardWrite'', JBool b)]))"

definition setProductionRoomAppCatalog :: "(jstr \<Rightarrow> url_parts option) \<Rightarrow> app_definition list \<Rightarrow>
    app_definition list \<Rightarrow> app_definition list" where
  "setProductionRoomAppCatalog url_of catalog cat =
     (if ROOM_APP_CATALOG_MAX_ENTRIES < length catalog then cat
      else (case parseRoomAppCatalog (JObj [(lit ''version'', JNum (jint 1)),
          (lit ''apps'', JArr (map (catalog_entry url_of) catalog))]) of
        Some safe \<Rightarrow> safe | None \<Rightarrow> cat))"

subsection \<open>Definitions and the allowlist\<close>

definition validateRoomAppDefinition :: "(jstr \<Rightarrow> url_parts option) \<Rightarrow> app_definition \<Rightarrow> bool" where
  "validateRoomAppDefinition url_of app =
     (if ad_clipboardWrite app \<noteq> None \<and> (ad_source app = Some Generated \<or> ad_clipboardWrite app \<noteq> Some True)
      then False
      else if ad_source app = Some Generated then
        0 < length (ad_id app) \<and> length (ad_id app) \<le> 128 \<and> 0 < length (ad_label app) \<and> length (ad_label app) \<le> 80 \<and>
        (case ad_srcDoc app of Some d \<Rightarrow> 0 < length d \<and> length d \<le> 64 * 1024 | None \<Rightarrow> False)
      else (case url_of (ad_url app) of
        None \<Rightarrow> False
      | Some u \<Rightarrow> APP_ID_PATTERN (ad_id app) \<and> 0 < length (ad_label app) \<and> length (ad_label app) \<le> 64 \<and>
          u_origin u = ad_origin app \<and>
          (u_protocol u = lit ''https:'' \<or> u_protocol u = lit ''http:'' \<and> u_hostname u = lit ''localhost'')))"

definition isRoomAppAllowlisted :: "(jstr \<Rightarrow> url_parts option) \<Rightarrow> app_definition list \<Rightarrow> app_definition \<Rightarrow> bool" where
  "isRoomAppAllowlisted url_of cat app =
     (if ad_source app = Some Generated then validateRoomAppDefinition url_of app
      else list_ex (\<lambda>c. ad_id c = ad_id app \<and> ad_url c = ad_url app \<and> ad_origin c = ad_origin app \<and>
        ad_clipboardWrite c = ad_clipboardWrite app \<and> ad_origin c = ROOM_APP_TRUSTED_ORIGIN \<and>
        validateRoomAppDefinition url_of c) cat)"

definition isRoomAppInstanceForRoom :: "(jstr \<Rightarrow> url_parts option) \<Rightarrow> app_definition list \<Rightarrow> jstr \<Rightarrow> jstr \<Rightarrow> bool" where
  "isRoomAppInstanceForRoom url_of cat roomName i =
     list_ex (\<lambda>app. validateRoomAppDefinition url_of app \<and> isRoomAppAllowlisted url_of cat app \<and>
       roomAppInstanceId roomName (ad_id app) = i) cat"

definition resolveProductionRoomAppId :: "(jstr \<Rightarrow> url_parts option) \<Rightarrow> app_definition list \<Rightarrow> js \<Rightarrow> jstr option" where
  "resolveProductionRoomAppId url_of cat v = (case v of
     JStr s \<Rightarrow> (case find (\<lambda>c. ad_id c = s) cat of
       Some app \<Rightarrow> if validateRoomAppDefinition url_of app \<and> isRoomAppAllowlisted url_of cat app
         then Some (ad_id app) else None
     | None \<Rightarrow> None)
   | _ \<Rightarrow> None)"

subsection \<open>What Agents see of the Apps that are open\<close>

datatype host_source = Curated_host | Generated_host

record host_metadata =
  hm_appInstanceId :: jstr
  hm_appId :: jstr
  hm_title :: jstr
  hm_source :: host_source

fun insert_by :: "('a \<Rightarrow> 'a \<Rightarrow> bool) \<Rightarrow> 'a \<Rightarrow> 'a list \<Rightarrow> 'a list" where
  "insert_by le x [] = [x]"
| "insert_by le x (y # ys) = (if le x y then x # y # ys else y # insert_by le x ys)"

text \<open>The stable \<open>sort\<close>; \<open>le\<close> is \<open>localeCompare(...) <= 0\<close>.\<close>

definition stable_sort :: "('a \<Rightarrow> 'a \<Rightarrow> bool) \<Rightarrow> 'a list \<Rightarrow> 'a list" where
  "stable_sort le xs = foldr (insert_by le) xs []"

definition callable_catalog :: "(jstr \<Rightarrow> url_parts option) \<Rightarrow> app_definition list \<Rightarrow> (jstr, app_definition) dict" where
  "callable_catalog url_of cat = fold (\<lambda>app. dput (ad_id app) app)
     (filter (\<lambda>app. ad_source app \<noteq> Some Generated \<and> validateRoomAppDefinition url_of app \<and>
        isRoomAppAllowlisted url_of cat app) cat) []"

definition project_host_app :: "jstr \<Rightarrow> (jstr, app_definition) dict \<Rightarrow> host_metadata \<Rightarrow>
    (jstr, host_metadata) dict \<times> jstr list \<Rightarrow> (jstr, host_metadata) dict \<times> jstr list" where
  "project_host_app roomName catalog app = (\<lambda>(found, seen).
     (case dget catalog (hm_appId app) of
        None \<Rightarrow> (found, seen)
      | Some d \<Rightarrow>
          if hm_source app \<noteq> Curated_host \<or> hm_appInstanceId app \<noteq> roomAppInstanceId roomName (hm_appId app)
             \<or> hm_appInstanceId app \<in> set seen then (found, seen)
          else (if dget found (hm_appInstanceId app) = None
              then dput (hm_appInstanceId app) \<lparr>hm_appInstanceId = hm_appInstanceId app, hm_appId = ad_id d,
                hm_title = ad_label d, hm_source = Curated_host\<rparr> found else found,
            hm_appInstanceId app # seen)))"

definition projectCallableRoomApps :: "(jstr \<Rightarrow> url_parts option) \<Rightarrow> (jstr \<Rightarrow> jstr \<Rightarrow> bool) \<Rightarrow> app_definition list \<Rightarrow>
    jstr \<Rightarrow> host_metadata list list \<Rightarrow> bool \<Rightarrow> host_metadata list" where
  "projectCallableRoomApps url_of le cat roomName activeHosts enabled =
     (if \<not> enabled \<or> roomName = [] then []
      else (let catalog = callable_catalog url_of cat;
          found = fold (\<lambda>hostApps found. fst (fold (project_host_app roomName catalog) hostApps (found, []))) activeHosts [] in
        stable_sort (\<lambda>l r. le (hm_appId l) (hm_appId r)) (map snd found)))"

record app_participant =
  ap_participantId :: js
  ap_name :: js
  ap_kind :: js

definition projectRoomAppParticipants :: "app_participant list \<Rightarrow> (jstr \<times> jstr \<times> bool) list" where
  "projectRoomAppParticipants ps = map (\<lambda>p. (js_string (ap_participantId p), take 64 (js_string (ap_name p)),
       ap_kind p = JStr (lit ''agent'')))
     (take 32 (filter (\<lambda>p. (case ap_participantId p of JStr s \<Rightarrow> s \<noteq> [] | _ \<Rightarrow> False) \<and>
       (case ap_name p of JStr _ \<Rightarrow> True | _ \<Rightarrow> False) \<and>
       (ap_kind p = JStr (lit ''human'') \<or> ap_kind p = JStr (lit ''agent''))) ps))"

subsection \<open>Reading the catalog\<close>

text \<open>\<open>TextDecoder("utf-8", fatal)\<close>: a leading byte order mark is dropped, an ill-formed sequence is an error.\<close>

definition units_of :: "nat \<Rightarrow> jstr" where
  "units_of p = (if p < 0x10000 then [of_nat p]
     else [of_nat (0xd800 + (p - 0x10000) div 0x400), of_nat (0xdc00 + (p - 0x10000) mod 0x400)])"

definition is_tail_byte :: "nat \<Rightarrow> bool" where
  "is_tail_byte b \<longleftrightarrow> 0x80 \<le> b \<and> b \<le> 0xbf"

fun utf8_points :: "nat list \<Rightarrow> nat list option" where
  "utf8_points [] = Some []"
| "utf8_points (a # bs) =
     (if a \<le> 0x7f then map_option ((#) a) (utf8_points bs)
      else if 0xc2 \<le> a \<and> a \<le> 0xdf then
        (case bs of b # bs \<Rightarrow> if is_tail_byte b
            then map_option ((#) ((a - 0xc0) * 64 + (b - 0x80))) (utf8_points bs) else None
         | _ \<Rightarrow> None)
      else if 0xe0 \<le> a \<and> a \<le> 0xef then
        (case bs of b # c # bs \<Rightarrow> if is_tail_byte b \<and> is_tail_byte c \<and> (a = 0xe0 \<longrightarrow> 0xa0 \<le> b) \<and> (a = 0xed \<longrightarrow> b \<le> 0x9f)
            then map_option ((#) ((a - 0xe0) * 4096 + (b - 0x80) * 64 + (c - 0x80))) (utf8_points bs) else None
         | _ \<Rightarrow> None)
      else if 0xf0 \<le> a \<and> a \<le> 0xf4 then
        (case bs of b # c # d # bs \<Rightarrow> if is_tail_byte b \<and> is_tail_byte c \<and> is_tail_byte d \<and>
              (a = 0xf0 \<longrightarrow> 0x90 \<le> b) \<and> (a = 0xf4 \<longrightarrow> b \<le> 0x8f)
            then map_option ((#) ((a - 0xf0) * 262144 + (b - 0x80) * 4096 + (c - 0x80) * 64 + (d - 0x80))) (utf8_points bs)
            else None
         | _ \<Rightarrow> None)
      else None)"

definition utf8_decode :: "nat list \<Rightarrow> jstr option" where
  "utf8_decode bs = map_option (\<lambda>ps. concat (map units_of ps))
     (utf8_points (if take 3 bs = [0xef, 0xbb, 0xbf] then drop 3 bs else bs))"

text \<open>
  A response: its status, the number its \<open>content-length\<close> reads as, and its body as the
  chunks the reader delivers, after which the stream closes or fails. A body that is too large
  is dropped before it can fail.
\<close>

record catalog_response =
  cr_ok :: bool
  cr_contentLength :: jnum
  cr_body :: "nat list list option"
  cr_closes :: bool

datatype body_result = Body_failed | Body_refused | Body jstr

fun read_chunks :: "nat \<Rightarrow> bool \<Rightarrow> nat list list \<Rightarrow> nat list \<Rightarrow> body_result" where
  "read_chunks maxBytes closes [] acc =
     (if \<not> closes then Body_failed
      else (case utf8_decode acc of None \<Rightarrow> Body_failed | Some s \<Rightarrow> Body s))"
| "read_chunks maxBytes closes (c # cs) acc =
     (if maxBytes < length acc + length c then Body_refused else read_chunks maxBytes closes cs (acc @ c))"

definition readBoundedCatalogBody :: "catalog_response \<Rightarrow> nat \<Rightarrow> body_result" where
  "readBoundedCatalogBody r maxBytes = (case cr_body r of
     None \<Rightarrow> Body_refused | Some chunks \<Rightarrow> read_chunks maxBytes (cr_closes r) chunks [])"

definition content_too_long :: "jnum \<Rightarrow> bool" where
  "content_too_long n = (case n of Fin q \<Rightarrow> of_nat ROOM_APP_CATALOG_MAX_BYTES < q | _ \<Rightarrow> False)"

text \<open>What one fetch yields: \<open>None\<close> falls back. A fetch that fails or times out is no response.\<close>

definition accepted_catalog :: "(rat \<Rightarrow> jnum) \<Rightarrow> catalog_response option \<Rightarrow> app_definition list option" where
  "accepted_catalog rn response = (case response of
     None \<Rightarrow> None
   | Some r \<Rightarrow> if \<not> cr_ok r \<or> content_too_long (cr_contentLength r) then None
      else (case readBoundedCatalogBody r ROOM_APP_CATALOG_MAX_BYTES of
        Body s \<Rightarrow> (case json_parse rn s of None \<Rightarrow> None | Some v \<Rightarrow> parseRoomAppCatalog v)
      | _ \<Rightarrow> None))"

record catalog_loader =
  cl_result :: "app_definition list option"
  cl_hasAccepted :: bool
  cl_expiresAt :: int
  cl_pending :: bool

definition createRoomAppCatalogLoader :: catalog_loader where
  "createRoomAppCatalogLoader = \<lparr>cl_result = None, cl_hasAccepted = False, cl_expiresAt = 0, cl_pending = False\<rparr>"

text \<open>A call is served from the cache, joins the fetch under way, or starts one.\<close>

datatype load_outcome = Cached "app_definition list" | Joined | Started

definition load_catalog :: "int \<Rightarrow> catalog_loader \<Rightarrow> load_outcome \<times> catalog_loader" where
  "load_catalog now l = (case (cl_result l, now < cl_expiresAt l) of
     (Some cat, True) \<Rightarrow> (Cached cat, l)
   | _ \<Rightarrow> if cl_pending l then (Joined, l) else (Started, l\<lparr>cl_pending := True\<rparr>))"

definition settle_catalog :: "(rat \<Rightarrow> jnum) \<Rightarrow> int \<Rightarrow> int \<Rightarrow> catalog_response option \<Rightarrow> catalog_loader \<Rightarrow> catalog_loader" where
  "settle_catalog rn ttl now response l =
     (if \<not> cl_pending l then l
      else (let fallback = (case (cl_hasAccepted l, cl_result l) of (True, Some cat) \<Rightarrow> cat | _ \<Rightarrow> []) in
        (case accepted_catalog rn response of
          Some cat \<Rightarrow> \<lparr>cl_result = Some cat, cl_hasAccepted = True, cl_expiresAt = now + ttl, cl_pending = False\<rparr>
        | None \<Rightarrow> l\<lparr>cl_result := Some fallback, cl_expiresAt := now + ttl, cl_pending := False\<rparr>)))"

subsection \<open>Codecs that need the catalog\<close>

record agent_request_envelope =
  ae_requestId :: jstr
  ae_appInstanceId :: jstr
  ae_payload :: js

definition decodeRoomAppAgentRequest :: "(jstr \<Rightarrow> url_parts option) \<Rightarrow> (rat \<Rightarrow> jstr) \<Rightarrow> app_definition list \<Rightarrow>
    js \<Rightarrow> jstr \<Rightarrow> agent_request_envelope option" where
  "decodeRoomAppAgentRequest url_of ntext cat v roomName =
     (case (js_get v ''appInstanceId'', js_get v ''requestId'') of
        (JStr i, JStr requestId) \<Rightarrow>
          if \<not> is_record v \<or> js_get v ''type'' \<noteq> JStr (lit ''room-app-agent-request'')
             \<or> \<not> isRoomAppInstanceForRoom url_of cat roomName i \<or> \<not> APP_REQUEST_PATTERN requestId then None
          else (case validateRoomAppPayload ntext (js_get v ''payload'') of
            None \<Rightarrow> None
          | Some (payload, _) \<Rightarrow> if \<not> fits_payload ntext v then None
              else Some \<lparr>ae_requestId = requestId, ae_appInstanceId = i, ae_payload = payload\<rparr>)
      | _ \<Rightarrow> None)"

definition encodeRoomAppUnicastRequest :: "(rat \<Rightarrow> jstr) \<Rightarrow> jstr \<Rightarrow> jstr \<Rightarrow> jstr \<Rightarrow> js \<Rightarrow> jstr option" where
  "encodeRoomAppUnicastRequest ntext requestId target i payload =
     (if \<not> APP_REQUEST_PATTERN requestId \<or> \<not> APP_PARTICIPANT_PATTERN target \<or> \<not> APP_INSTANCE_PATTERN i
         \<or> validateRoomAppPayload ntext payload = None then None
      else (let request = JObj [(lit ''type'', JStr (lit ''room-app-unicast'')), (lit ''requestId'', JStr requestId),
          (lit ''targetParticipantId'', JStr target), (lit ''appInstanceId'', JStr i), (lit ''payload'', payload)] in
        if fits_payload ntext request then Some (json_text ntext request) else None))"

record unicast_envelope =
  ue_appInstanceId :: jstr
  ue_sourceParticipantId :: jstr
  ue_payload :: js

definition unicast_envelope_js :: "unicast_envelope \<Rightarrow> js" where
  "unicast_envelope_js e = JObj [(lit ''protocolVersion'', JNum (jint ROOM_APP_PROTOCOL_VERSION)),
     (lit ''appInstanceId'', JStr (ue_appInstanceId e)),
     (lit ''sourceParticipantId'', JStr (ue_sourceParticipantId e)), (lit ''payload'', ue_payload e)]"

definition decodeRoomAppUnicastEnvelope :: "(jstr \<Rightarrow> url_parts option) \<Rightarrow> (rat \<Rightarrow> jstr) \<Rightarrow> app_definition list \<Rightarrow>
    js \<Rightarrow> jstr \<Rightarrow> unicast_envelope option" where
  "decodeRoomAppUnicastEnvelope url_of ntext cat v roomName =
     (case (js_get v ''appInstanceId'', js_get v ''sourceParticipantId'') of
        (JStr i, JStr source) \<Rightarrow>
          if \<not> is_record v \<or> js_get v ''type'' \<noteq> JStr (lit ''room-app-unicast'')
             \<or> js_get v ''protocolVersion'' \<noteq> JNum (jint ROOM_APP_PROTOCOL_VERSION)
             \<or> \<not> isRoomAppInstanceForRoom url_of cat roomName i \<or> \<not> APP_PARTICIPANT_PATTERN source then None
          else (case validateRoomAppPayload ntext (js_get v ''payload'') of
            None \<Rightarrow> None
          | Some (payload, _) \<Rightarrow> (let e = \<lparr>ue_appInstanceId = i, ue_sourceParticipantId = source, ue_payload = payload\<rparr> in
              if fits_payload ntext (unicast_envelope_js e) then Some e else None))
      | _ \<Rightarrow> None)"

datatype unicast_error = UE_invalid_request | UE_app_unavailable | UE_invalid_target
  | UE_target_unavailable | UE_rate_limited | UE_delivery_failed

definition unicast_error_text :: "unicast_error \<Rightarrow> jstr" where
  "unicast_error_text e = lit (case e of UE_invalid_request \<Rightarrow> ''invalid_request''
     | UE_app_unavailable \<Rightarrow> ''app_unavailable'' | UE_invalid_target \<Rightarrow> ''invalid_target''
     | UE_target_unavailable \<Rightarrow> ''target_unavailable'' | UE_rate_limited \<Rightarrow> ''rate_limited''
     | UE_delivery_failed \<Rightarrow> ''delivery_failed'')"

definition unicast_errors :: "unicast_error list" where
  "unicast_errors = [UE_invalid_request, UE_app_unavailable, UE_invalid_target, UE_target_unavailable,
     UE_rate_limited, UE_delivery_failed]"

definition unicast_error_of :: "js \<Rightarrow> unicast_error option" where
  "unicast_error_of v = find (\<lambda>e. v = JStr (unicast_error_text e)) unicast_errors"

text \<open>A result: \<open>None\<close> is \<open>ok\<close>.\<close>

record unicast_result =
  ur_requestId :: jstr
  ur_appInstanceId :: jstr
  ur_error :: "unicast_error option"

definition decodeRoomAppUnicastResult :: "(jstr \<Rightarrow> url_parts option) \<Rightarrow> app_definition list \<Rightarrow> js \<Rightarrow> jstr \<Rightarrow>
    unicast_result option" where
  "decodeRoomAppUnicastResult url_of cat v roomName =
     (case (js_get v ''requestId'', js_get v ''appInstanceId'', js_get v ''ok'') of
        (JStr requestId, JStr i, JBool success) \<Rightarrow>
          if \<not> is_record v \<or> js_get v ''type'' \<noteq> JStr (lit ''room-app-unicast-result'')
             \<or> \<not> APP_REQUEST_PATTERN requestId \<or> \<not> isRoomAppInstanceForRoom url_of cat roomName i then None
          else if success then Some \<lparr>ur_requestId = requestId, ur_appInstanceId = i, ur_error = None\<rparr>
          else (case unicast_error_of (js_get v ''error'') of
            None \<Rightarrow> None
          | Some e \<Rightarrow> Some \<lparr>ur_requestId = requestId, ur_appInstanceId = i, ur_error = Some e\<rparr>)
      | _ \<Rightarrow> None)"

subsection \<open>An accepted catalog\<close>

definition entry_sound :: "app_definition \<Rightarrow> bool" where
  "entry_sound app \<longleftrightarrow> APP_ID_PATTERN (ad_id app) \<and> label_ok (JStr (ad_label app)) \<and>
     ad_url app = ROOM_APP_TRUSTED_ORIGIN @ 0x2f # ad_id app \<and> ad_origin app = ROOM_APP_TRUSTED_ORIGIN \<and>
     ad_source app = None \<and> ad_srcDoc app = None \<and> (ad_clipboardWrite app = None \<or> ad_clipboardWrite app = Some True)"

definition catalog_sound :: "app_definition list \<Rightarrow> bool" where
  "catalog_sound cat \<longleftrightarrow> length cat \<le> ROOM_APP_CATALOG_MAX_ENTRIES \<and> distinct (map ad_id cat) \<and> list_all entry_sound cat"

text \<open>What the platform's URL parser does with a path of one segment below the trusted origin.\<close>

definition plain_urls :: "(jstr \<Rightarrow> url_parts option) \<Rightarrow> bool" where
  "plain_urls url_of \<longleftrightarrow> (\<forall>i. APP_ID_PATTERN i \<longrightarrow> url_of (ROOM_APP_TRUSTED_ORIGIN @ 0x2f # i) =
     Some \<lparr>u_origin = ROOM_APP_TRUSTED_ORIGIN, u_protocol = lit ''https:'', u_hostname = lit ''room-apps.free4.chat'',
       u_pathname = 0x2f # i, u_search = [], u_hash = [], u_username = [], u_password = []\<rparr>)"

lemma entry_definition_sound: "catalog_entry_ok v \<Longrightarrow> entry_sound (entry_definition v)"
  by (auto simp: catalog_entry_ok_def entry_definition_def entry_sound_def isValidRoomAppId_def label_ok_def
      js_string_def split: js.splits)

lemma parse_entries_sound:
  "\<lbrakk>parse_entries vs seen active = Some cat; list_all entry_sound active; distinct (map ad_id active);
    ad_id ` set active \<subseteq> set seen\<rbrakk> \<Longrightarrow>
   list_all entry_sound cat \<and> distinct (map ad_id cat) \<and> length cat \<le> length active + length vs"
proof (induction vs seen active rule: parse_entries.induct)
  case (2 v vs seen active)
  let ?i = "js_string (js_get v ''id'')"
  from "2.prems"(1) have ok: "\<not> (\<not> catalog_entry_ok v \<or> ?i \<in> set seen)" by (auto split: if_splits)
  have id: "ad_id (entry_definition v) = ?i" by (simp add: entry_definition_def)
  show ?case
  proof (cases "js_get v ''status'' = JStr (lit ''active'')")
    case True
    then show ?thesis using "2.IH" [OF ok] "2.prems" ok id entry_definition_sound [of v] by (auto split: if_splits)
  next
    case False
    have "ad_id ` set active \<subseteq> insert ?i (set seen)" using "2.prems"(4) by blast
    with False show ?thesis using "2.IH" [OF ok] "2.prems"(1-3) ok by (simp add: le_SucI)
  qed
qed simp

lemma parse_catalog_sound: "parseRoomAppCatalog v = Some cat \<Longrightarrow> catalog_sound cat"
  using parse_entries_sound [of _ "[]" "[]" cat]
  by (auto simp: parseRoomAppCatalog_def catalog_sound_def split: if_split_asm js.splits) fastforce+

lemma trusted_path_sound: "plain_urls url_of \<Longrightarrow> entry_sound app \<Longrightarrow> trusted_path url_of app = 0x2f # ad_id app"
  by (simp add: trusted_path_def plain_urls_def entry_sound_def)

lemma catalog_entry_fields [simp]:
  "is_record (catalog_entry url_of app)"
  "js_get (catalog_entry url_of app) ''id'' = JStr (ad_id app)"
  "js_get (catalog_entry url_of app) ''label'' = JStr (ad_label app)"
  "js_get (catalog_entry url_of app) ''path'' = JStr (trusted_path url_of app)"
  "js_get (catalog_entry url_of app) ''status'' = JStr (lit ''active'')"
  "js_get (catalog_entry url_of app) ''clipboardWrite'' =
     (case ad_clipboardWrite app of None \<Rightarrow> JUndefined | Some b \<Rightarrow> JBool b)"
  "js_keys (catalog_entry url_of app) = map lit ([''id'', ''label'', ''path'', ''status''] @
     (if ad_clipboardWrite app = None then [] else [''clipboardWrite'']))"
  "has_own (catalog_entry url_of app) ''clipboardWrite'' \<longleftrightarrow> ad_clipboardWrite app \<noteq> None"
  by (cases "ad_clipboardWrite app"; simp add: catalog_entry_def is_record_def js_get_def js_keys_def has_own_def)+

lemma catalog_entry_reparsed:
  assumes "plain_urls url_of" and "entry_sound app"
  shows "catalog_entry_ok (catalog_entry url_of app)" and "entry_definition (catalog_entry url_of app) = app"
proof -
  note path = trusted_path_sound [OF assms]
  from assms(2) have e: "APP_ID_PATTERN (ad_id app)" "label_ok (JStr (ad_label app))"
    and c: "ad_clipboardWrite app = None \<or> ad_clipboardWrite app = Some True" by (simp_all add: entry_sound_def)
  from c have "hasExactKeys (catalog_entry url_of app) (map lit ([''id'', ''label'', ''path'', ''status''] @
      (if has_own (catalog_entry url_of app) ''clipboardWrite'' then [''clipboardWrite''] else [])))"
    by (simp only: hasExactKeys_def catalog_entry_fields if_not_P) (rule arg_cong [where f = sort], simp)
  with e c path show "catalog_entry_ok (catalog_entry url_of app)"
    by (elim disjE) (simp_all add: catalog_entry_ok_def isValidRoomAppId_def js_string_def)
  show "entry_definition (catalog_entry url_of app) = app"
    using assms(2) path by (cases app) (auto simp: entry_definition_def entry_sound_def js_string_def)
qed

lemma parse_entries_again:
  assumes "plain_urls url_of"
  shows "\<lbrakk>list_all entry_sound cat; distinct (map ad_id cat); ad_id ` set cat \<inter> set seen = {}\<rbrakk> \<Longrightarrow>
    parse_entries (map (catalog_entry url_of) cat) seen active = Some (active @ cat)"
  by (induction cat arbitrary: seen active)
    (auto simp: catalog_entry_reparsed [OF assms] js_string_def)

lemma set_catalog_sound:
  assumes "plain_urls url_of" and "catalog_sound cat"
  shows "setProductionRoomAppCatalog url_of cat old = cat"
proof -
  let ?v = "JObj [(lit ''version'', JNum (jint 1)), (lit ''apps'', JArr (map (catalog_entry url_of) cat))]"
  have "is_record ?v" "js_get ?v ''version'' = JNum (jint 1)"
    "js_get ?v ''apps'' = JArr (map (catalog_entry url_of) cat)" "hasExactKeys ?v [lit ''version'', lit ''apps'']"
    by (simp_all add: is_record_def js_get_def hasExactKeys_def js_keys_def)
  then have "parseRoomAppCatalog ?v = Some cat"
    using assms(2) parse_entries_again [OF assms(1), of cat "[]" "[]"]
    by (simp add: parseRoomAppCatalog_def catalog_sound_def)
  with assms(2) show ?thesis by (simp add: setProductionRoomAppCatalog_def catalog_sound_def)
qed

lemma sound_validates: "plain_urls url_of \<Longrightarrow> entry_sound app \<Longrightarrow> validateRoomAppDefinition url_of app"
  by (auto simp: validateRoomAppDefinition_def plain_urls_def entry_sound_def label_ok_def js_trim_def)

lemma sound_allowlisted: "plain_urls url_of \<Longrightarrow> catalog_sound cat \<Longrightarrow> app \<in> set cat \<Longrightarrow> isRoomAppAllowlisted url_of cat app"
  using sound_validates [of url_of app]
  by (auto simp: isRoomAppAllowlisted_def catalog_sound_def list_all_iff list_ex_iff entry_sound_def)

text \<open>
  A catalog the parser accepts is installed as it is: installing it parses it a second time
  from its own definitions, and nothing is lost, added or reordered. It has at most 32 Apps,
  with distinct ids, each below the trusted origin at the path of its own id, and each passes
  the allowlist it is now.
\<close>

theorem accepted_catalog_installs:
  assumes "parseRoomAppCatalog v = Some cat" and "plain_urls url_of"
  shows "setProductionRoomAppCatalog url_of cat old = cat \<and> catalog_sound cat \<and>
    list_all (\<lambda>app. validateRoomAppDefinition url_of app \<and> isRoomAppAllowlisted url_of cat app) cat"
  using assms parse_catalog_sound [OF assms(1)] set_catalog_sound sound_validates sound_allowlisted
  by (auto simp: list_all_iff catalog_sound_def)

definition demo_url :: "jstr \<Rightarrow> url_parts option" where
  "demo_url s = (if take (length ROOM_APP_TRUSTED_ORIGIN) s = ROOM_APP_TRUSTED_ORIGIN then
     Some \<lparr>u_origin = ROOM_APP_TRUSTED_ORIGIN, u_protocol = lit ''https:'', u_hostname = lit ''room-apps.free4.chat'',
       u_pathname = drop (length ROOM_APP_TRUSTED_ORIGIN) s, u_search = [], u_hash = [], u_username = [], u_password = []\<rparr>
     else None)"

lemma demo_url_plain: "plain_urls demo_url"
  by (simp add: plain_urls_def demo_url_def)

definition demo_catalog :: js where
  "demo_catalog = JObj [(lit ''version'', JNum (jint 1)), (lit ''apps'', JArr
     [JObj [(lit ''id'', JStr (lit ''poker'')), (lit ''label'', JStr (lit ''Poker'')), (lit ''path'', JStr (lit ''/poker'')),
        (lit ''status'', JStr (lit ''active''))],
      JObj [(lit ''id'', JStr (lit ''old'')), (lit ''label'', JStr (lit ''Old'')), (lit ''path'', JStr (lit ''/old'')),
        (lit ''status'', JStr (lit ''disabled''))]])]"

definition demo_app :: app_definition where
  "demo_app = \<lparr>ad_id = lit ''poker'', ad_label = lit ''Poker'', ad_url = ROOM_APP_TRUSTED_ORIGIN @ lit ''/poker'',
     ad_origin = ROOM_APP_TRUSTED_ORIGIN, ad_source = None, ad_srcDoc = None, ad_clipboardWrite = None\<rparr>"

lemma demo_catalog_parsed: "parseRoomAppCatalog demo_catalog = Some [demo_app]"
  by code_simp

theorem accepted_catalog_installs_witness:
  "setProductionRoomAppCatalog demo_url [demo_app] [] = [demo_app]"
  using accepted_catalog_installs [OF demo_catalog_parsed demo_url_plain, of "[]"] by simp

subsection \<open>What the installed catalog lets through\<close>

lemma instance_for_room:
  assumes "plain_urls url_of" and "catalog_sound cat"
  shows "isRoomAppInstanceForRoom url_of cat roomName i \<longleftrightarrow> (\<exists>app \<in> set cat. i = roomAppInstanceId roomName (ad_id app))"
  using assms sound_validates [OF assms(1)] sound_allowlisted [OF assms]
  by (auto simp: isRoomAppInstanceForRoom_def list_ex_iff catalog_sound_def list_all_iff)

lemma resolved_app:
  assumes "plain_urls url_of" and "catalog_sound cat"
  shows "resolveProductionRoomAppId url_of cat (JStr s) = (if s \<in> set (map ad_id cat) then Some s else None)"
proof (cases "find (\<lambda>c. ad_id c = s) cat")
  case None
  then have "s \<notin> set (map ad_id cat)" by (auto simp: find_None_iff)
  with None show ?thesis by (simp add: resolveProductionRoomAppId_def)
next
  case (Some app)
  then have "app \<in> set cat" "ad_id app = s" by (auto simp: find_Some_iff)
  moreover from this assms have "validateRoomAppDefinition url_of app" "isRoomAppAllowlisted url_of cat app"
    using sound_validates sound_allowlisted by (auto simp: catalog_sound_def list_all_iff)
  ultimately show ?thesis using Some by (auto simp: resolveProductionRoomAppId_def)
qed

lemma set_insert_by [simp]: "set (insert_by le x xs) = insert x (set xs)"
  by (induction xs) auto

lemma set_stable_sort [simp]: "set (stable_sort le xs) = set xs"
  by (induction xs) (simp_all add: stable_sort_def)

lemma distinct_map_insert_by: "distinct (map f (insert_by le x xs)) \<longleftrightarrow> f x \<notin> f ` set xs \<and> distinct (map f xs)"
  by (induction xs) auto

lemma distinct_map_stable_sort: "distinct (map f (stable_sort le xs)) \<longleftrightarrow> distinct (map f xs)"
proof (induction xs)
  case (Cons x xs)
  have "stable_sort le (x # xs) = insert_by le x (stable_sort le xs)" by (simp add: stable_sort_def)
  then show ?case using Cons by (simp add: distinct_map_insert_by)
qed (simp add: stable_sort_def)

lemma callable_catalog_sound:
  assumes "plain_urls url_of" and "catalog_sound cat"
  shows "dget (callable_catalog url_of cat) i = find (\<lambda>app. ad_id app = i) cat"
proof -
  have all: "filter (\<lambda>app. ad_source app \<noteq> Some Generated \<and> validateRoomAppDefinition url_of app \<and>
      isRoomAppAllowlisted url_of cat app) cat = cat"
    using assms(2) sound_validates [OF assms(1)] sound_allowlisted [OF assms]
    by (auto simp: filter_id_conv catalog_sound_def list_all_iff entry_sound_def)
  have "dget (fold (\<lambda>app. dput (ad_id app) app) xs m) i = (case find (\<lambda>app. ad_id app = i) xs of Some a \<Rightarrow> Some a | None \<Rightarrow> dget m i)"
    if "distinct (map ad_id xs)" for xs :: "app_definition list" and m
    using that
  proof (induction xs arbitrary: m)
    case (Cons x xs)
    show ?case
    proof (cases "ad_id x = i")
      case True
      then have "find (\<lambda>app. ad_id app = i) xs = None" 
        using Cons.prems unfolding find_None_iff by (metis distinct.simps(2) image_eqI list.simps(9) set_map)
      then show ?thesis using Cons True by simp
    qed (use Cons in \<open>simp split: option.splits\<close>)
  qed simp
  with assms(2) show ?thesis by (simp add: callable_catalog_def all catalog_sound_def split: option.splits)
qed

text \<open>The metadata the projection puts in for an App.\<close>

definition callable_of :: "jstr \<Rightarrow> app_definition \<Rightarrow> host_metadata" where
  "callable_of roomName app = \<lparr>hm_appInstanceId = roomAppInstanceId roomName (ad_id app), hm_appId = ad_id app,
     hm_title = ad_label app, hm_source = Curated_host\<rparr>"

definition hosted :: "jstr \<Rightarrow> app_definition \<Rightarrow> host_metadata list \<Rightarrow> bool" where
  "hosted roomName app hs \<longleftrightarrow> list_ex (\<lambda>h. hm_appId h = ad_id app \<and> hm_source h = Curated_host \<and>
     hm_appInstanceId h = roomAppInstanceId roomName (ad_id app)) hs"

lemma project_host_app_sound:
  assumes "plain_urls url_of" and "catalog_sound cat"
  shows "project_host_app roomName (callable_catalog url_of cat) h (found, seen) =
    (case find (\<lambda>app. ad_id app = hm_appId h \<and> hm_source h = Curated_host \<and>
        hm_appInstanceId h = roomAppInstanceId roomName (ad_id app)) cat of
      None \<Rightarrow> (found, seen)
    | Some app \<Rightarrow> if hm_appInstanceId h \<in> set seen then (found, seen)
        else (if dget found (hm_appInstanceId h) = None then dput (hm_appInstanceId h) (callable_of roomName app) found else found,
          hm_appInstanceId h # seen))"
proof -
  have two: "find (\<lambda>app. ad_id app = hm_appId h \<and> hm_source h = Curated_host \<and>
      hm_appInstanceId h = roomAppInstanceId roomName (ad_id app)) cat =
    (if hm_source h = Curated_host \<and> hm_appInstanceId h = roomAppInstanceId roomName (hm_appId h)
     then find (\<lambda>app. ad_id app = hm_appId h) cat else None)"
    by (induction cat) auto
  note one = callable_catalog_sound [OF assms, of "hm_appId h"]
  show ?thesis
  proof (cases "find (\<lambda>app. ad_id app = hm_appId h) cat")
    case None
    then show ?thesis unfolding two by (simp add: project_host_app_def one)
  next
    case (Some app)
    then have "ad_id app = hm_appId h" by (auto simp: find_Some_iff)
    with Some show ?thesis unfolding two
      by (cases "hm_source h = Curated_host \<and> hm_appInstanceId h = roomAppInstanceId roomName (hm_appId h)")
        (simp_all add: project_host_app_def one callable_of_def)
  qed
qed

text \<open>The loops keep: what is found are Apps of the catalog, one per instance, and every hosted one so far.\<close>

definition found_exact :: "jstr \<Rightarrow> app_definition list \<Rightarrow> host_metadata list \<Rightarrow> (jstr, host_metadata) dict \<Rightarrow> bool" where
  "found_exact roomName cat hs found \<longleftrightarrow> wf_dict found \<and>
     (\<forall>i m. dget found i = Some m \<longleftrightarrow>
       (\<exists>app \<in> set cat. i = roomAppInstanceId roomName (ad_id app) \<and> m = callable_of roomName app \<and> hosted roomName app hs))"

lemma instance_id_inj: "roomAppInstanceId room i = roomAppInstanceId room j \<Longrightarrow> i = j"
  using instance_suffix [of room i] instance_suffix [of room j] by auto

lemma project_host_keeps:
  assumes "plain_urls url_of" and "catalog_sound cat" and "found_exact roomName cat hs found"
    and "set seen \<subseteq> fst ` set found"
    and "project_host_app roomName (callable_catalog url_of cat) h (found, seen) = (found', seen')"
  shows "found_exact roomName cat (hs @ [h]) found' \<and> set seen' \<subseteq> fst ` set found'"
proof -
  let ?p = "\<lambda>app. ad_id app = hm_appId h \<and> hm_source h = Curated_host \<and>
    hm_appInstanceId h = roomAppInstanceId roomName (ad_id app)"
  have hosted: "hosted roomName app (hs @ [h]) \<longleftrightarrow> hosted roomName app hs \<or> ?p app" for app
    by (auto simp: hosted_def)
  note step = assms(5) [unfolded project_host_app_sound [OF assms(1,2)]]
  show ?thesis
  proof (cases "find ?p cat")
    case None
    then have "\<forall>app \<in> set cat. \<not> ?p app" by (auto simp: find_None_iff)
    with step None assms(3,4) show ?thesis by (auto simp: found_exact_def hosted)
  next
    case (Some app)
    then have app: "app \<in> set cat" "?p app" by (auto simp: find_Some_iff)
    have uniq: "b = app" if "b \<in> set cat" "ad_id b = ad_id app" for b
      using that app(1) assms(2) by (auto simp: catalog_sound_def distinct_map inj_on_def)
    have same: "hosted roomName b (hs @ [h]) \<longleftrightarrow> hosted roomName b hs \<or> b = app" if "b \<in> set cat" for b
      using uniq that app hosted by metis
    show ?thesis
    proof (cases "dget found (hm_appInstanceId h)")
      case None
      then have "hm_appInstanceId h \<notin> set seen" using assms(4) by (auto simp: dget_eq_None)
      with step Some None have f: "found' = dput (hm_appInstanceId h) (callable_of roomName app) found"
        "seen' = hm_appInstanceId h # seen" by auto
      have "dget found' i = Some m \<longleftrightarrow> (\<exists>b \<in> set cat. i = roomAppInstanceId roomName (ad_id b) \<and>
          m = callable_of roomName b \<and> (hosted roomName b hs \<or> b = app))" for i m
      proof (cases "i = hm_appInstanceId h")
        case True
        have "b = app" if "b \<in> set cat" "roomAppInstanceId roomName (ad_id b) = hm_appInstanceId h" for b
          using that app uniq instance_id_inj by metis
        moreover have "dget found' i = Some (callable_of roomName app)" by (simp add: f True)
        ultimately show ?thesis using True app by (metis option.inject)
      next
        case False
        have "(\<exists>b \<in> set cat. i = roomAppInstanceId roomName (ad_id b) \<and> m = callable_of roomName b \<and>
            (hosted roomName b hs \<or> b = app)) \<longleftrightarrow>
          (\<exists>b \<in> set cat. i = roomAppInstanceId roomName (ad_id b) \<and> m = callable_of roomName b \<and> hosted roomName b hs)"
          using False app(2) by metis
        with False assms(3) show ?thesis by (simp add: f found_exact_def)
      qed
      then have "found_exact roomName cat (hs @ [h]) found'"
        using assms(3) by (simp add: found_exact_def same f wf_dput cong: bex_cong)
      moreover have "set seen' \<subseteq> fst ` set found'" using assms(4) by (auto simp: f keys_dput)
      ultimately show ?thesis by blast
    next
      case (Some m)
      then obtain b where "b \<in> set cat" "hm_appInstanceId h = roomAppInstanceId roomName (ad_id b)" "hosted roomName b hs"
        using assms(3) by (auto simp: found_exact_def)
      moreover from this app have "b = app" using uniq instance_id_inj by metis
      ultimately have "hosted roomName app hs" by simp
      moreover have "found' = found" using step \<open>find ?p cat = Some app\<close> Some by (auto split: if_splits)
      moreover have "set seen' \<subseteq> insert (hm_appInstanceId h) (set seen)" using step \<open>find ?p cat = Some app\<close> by (auto split: if_splits)
      moreover have "hm_appInstanceId h \<in> fst ` set found" using Some by (metis dget_in_set fst_conv image_eqI)
      moreover have "(hosted roomName b hs \<or> b = app) = hosted roomName b hs" for b
        using \<open>hosted roomName app hs\<close> by blast
      ultimately show ?thesis using assms(3,4) by (auto simp: found_exact_def same cong: bex_cong)
    qed
  qed
qed

lemma project_hosts_keeps:
  assumes "plain_urls url_of" and "catalog_sound cat" and "found_exact roomName cat hs found" and "set seen \<subseteq> fst ` set found"
  shows "found_exact roomName cat (hs @ hostApps)
    (fst (fold (project_host_app roomName (callable_catalog url_of cat)) hostApps (found, seen)))"
  using assms(3,4)
proof (induction hostApps arbitrary: hs found seen)
  case (Cons h hostApps)
  obtain found' seen' where p: "project_host_app roomName (callable_catalog url_of cat) h (found, seen) = (found', seen')"
    by force
  with project_host_keeps [OF assms(1,2) Cons.prems p] Cons.IH [of "hs @ [h]" found' seen'] show ?case by simp
qed simp

lemma project_all_hosts:
  assumes "plain_urls url_of" and "catalog_sound cat" and "found_exact roomName cat hs found"
  shows "found_exact roomName cat (hs @ concat activeHosts) (fold (\<lambda>hostApps found.
    fst (fold (project_host_app roomName (callable_catalog url_of cat)) hostApps (found, []))) activeHosts found)"
  using assms(3)
proof (induction activeHosts arbitrary: hs found)
  case (Cons h activeHosts)
  show ?case using Cons.IH [OF project_hosts_keeps [OF assms(1,2) Cons.prems]] by simp
qed simp

text \<open>
  What an Agent is told to be callable is exact: one entry for each App of the installed
  catalog that some Human hosts in this Room under the instance id of this Room, with the
  catalog's own title; nothing a Host claims beyond that shows, and an App several Humans host
  shows once.
\<close>

theorem callable_apps_exact:
  assumes "plain_urls url_of" and "catalog_sound cat" and "roomName \<noteq> []"
  shows "distinct (map hm_appInstanceId (projectCallableRoomApps url_of le cat roomName activeHosts True)) \<and>
    set (projectCallableRoomApps url_of le cat roomName activeHosts True) =
      callable_of roomName ` set (filter (\<lambda>app. hosted roomName app (concat activeHosts)) cat)"
proof -
  define found where "found = fold (\<lambda>hostApps found.
    fst (fold (project_host_app roomName (callable_catalog url_of cat)) hostApps (found, []))) activeHosts []"
  have "found_exact roomName cat [] []" by (simp add: found_exact_def hosted_def)
  from project_all_hosts [OF assms(1,2) this]
  have wf: "wf_dict found" and ex: "\<And>i m. dget found i = Some m \<longleftrightarrow>
      (\<exists>app \<in> set cat. i = roomAppInstanceId roomName (ad_id app) \<and> m = callable_of roomName app \<and>
        hosted roomName app (concat activeHosts))"
    by (simp_all add: found_exact_def found_def)
  have key: "hm_appInstanceId m = i" if "(i, m) \<in> set found" for i m
    using wf_dget [OF wf that] ex by (auto simp: callable_of_def)
  then have "map (hm_appInstanceId \<circ> snd) found = map fst found" by (auto simp: comp_def)
  then have "distinct (map hm_appInstanceId (map snd found))" using wf by (simp only: wf_dict_def map_map)
  moreover have "snd ` set found = callable_of roomName ` set (filter (\<lambda>app. hosted roomName app (concat activeHosts)) cat)"
  proof (intro equalityI subsetI)
    fix m assume "m \<in> snd ` set found"
    then obtain i where "(i, m) \<in> set found" by auto
    with wf_dget [OF wf] ex show "m \<in> callable_of roomName ` set (filter (\<lambda>app. hosted roomName app (concat activeHosts)) cat)"
      by fastforce
  next
    fix m assume "m \<in> callable_of roomName ` set (filter (\<lambda>app. hosted roomName app (concat activeHosts)) cat)"
    then obtain app where "app \<in> set cat" "m = callable_of roomName app" "hosted roomName app (concat activeHosts)" by auto
    then have "dget found (roomAppInstanceId roomName (ad_id app)) = Some m" using ex by blast
    then show "m \<in> snd ` set found" by (metis dget_in_set image_eqI snd_conv)
  qed
  ultimately show ?thesis
    using assms(3) by (simp add: projectCallableRoomApps_def Let_def distinct_map_stable_sort flip: found_def)
qed

theorem callable_apps_exact_witness:
  "let hs = [[\<lparr>hm_appInstanceId = roomAppInstanceId (lit ''lobby'') (lit ''poker''), hm_appId = lit ''poker'',
      hm_title = lit ''Free money'', hm_source = Curated_host\<rparr>]] in
    set (projectCallableRoomApps demo_url (\<lambda>_ _. True) [demo_app] (lit ''lobby'') hs True) =
      callable_of (lit ''lobby'') ` set (filter (\<lambda>app. hosted (lit ''lobby'') app (concat hs)) [demo_app])"
  unfolding Let_def
  by (rule callable_apps_exact [OF demo_url_plain parse_catalog_sound [OF demo_catalog_parsed], THEN conjunct2]) simp

subsection \<open>The loader holds the last accepted catalog\<close>

datatype loader_step = Load int | Settle int "catalog_response option"

definition run_loader_step :: "(rat \<Rightarrow> jnum) \<Rightarrow> int \<Rightarrow> loader_step \<Rightarrow> catalog_loader \<Rightarrow> catalog_loader" where
  "run_loader_step rn ttl st l = (case st of
     Load now \<Rightarrow> snd (load_catalog now l) | Settle now response \<Rightarrow> settle_catalog rn ttl now response l)"

text \<open>
  The specification: whether a fetch is under way, and the catalog of the last accepted response
  to one. \<open>None\<close> is before any fetch has settled.
\<close>

record loader_spec =
  lc_known :: bool
  lc_last :: "app_definition list"

definition spec_of :: "catalog_loader \<Rightarrow> loader_spec" where
  "spec_of l = \<lparr>lc_known = cl_hasAccepted l, lc_last = (case cl_result l of Some cat \<Rightarrow> cat | None \<Rightarrow> [])\<rparr>"

definition spec_step :: "(rat \<Rightarrow> jnum) \<Rightarrow> bool \<Rightarrow> loader_step \<Rightarrow> loader_spec \<Rightarrow> loader_spec" where
  "spec_step rn pending st a = (case st of
     Load _ \<Rightarrow> a
   | Settle _ response \<Rightarrow> (case accepted_catalog rn response of
       Some cat \<Rightarrow> if pending then \<lparr>lc_known = True, lc_last = cat\<rparr> else a
     | None \<Rightarrow> a))"

definition loader_ok :: "catalog_loader \<Rightarrow> bool" where
  "loader_ok l \<longleftrightarrow> (\<not> cl_hasAccepted l \<longrightarrow> cl_result l = None \<or> cl_result l = Some []) \<and>
     (cl_hasAccepted l \<longrightarrow> cl_result l \<noteq> None) \<and>
     (case cl_result l of None \<Rightarrow> True | Some cat \<Rightarrow> catalog_sound cat)"

lemma accepted_catalog_sound: "accepted_catalog rn response = Some cat \<Longrightarrow> catalog_sound cat"
  by (auto simp: accepted_catalog_def intro: parse_catalog_sound split: option.splits if_splits body_result.splits)

lemma catalog_sound_Nil [simp]: "catalog_sound []"
  by (simp add: catalog_sound_def)

lemma loader_step_ok: "loader_ok l \<Longrightarrow> loader_ok (run_loader_step rn ttl st l)"
  using accepted_catalog_sound [of rn]
  by (auto simp: loader_ok_def run_loader_step_def load_catalog_def settle_catalog_def Let_def
      split: loader_step.splits option.splits bool.splits if_splits)

lemma loader_step_refines: "loader_ok l \<Longrightarrow>
    spec_of (run_loader_step rn ttl st l) = spec_step rn (cl_pending l) st (spec_of l)"
  by (auto simp: loader_ok_def run_loader_step_def load_catalog_def settle_catalog_def Let_def spec_of_def spec_step_def
      split: loader_step.splits option.splits bool.splits if_splits)

text \<open>
  Whatever calls and responses come, in whatever order, each step of the loader is a step of
  its specification: only an accepted response to a fetch under way changes the catalog, every
  failed, oversized or malformed one keeps the last accepted catalog, and before the first
  accepted one the loader serves the empty catalog. What it serves is always sound.
\<close>

theorem loader_keeps_last_accepted:
  "let l = fold (run_loader_step rn ttl) steps createRoomAppCatalogLoader in
   loader_ok l \<and> spec_of (run_loader_step rn ttl st l) = spec_step rn (cl_pending l) st (spec_of l) \<and>
   (case load_catalog now l of (Cached cat, l') \<Rightarrow> catalog_sound cat \<and> l' = l \<and> cat = lc_last (spec_of l) | _ \<Rightarrow> True)"
proof -
  have "loader_ok (fold (run_loader_step rn ttl) steps l)" if "loader_ok l" for l
    using that by (induction steps arbitrary: l) (simp_all add: loader_step_ok)
  moreover have "loader_ok createRoomAppCatalogLoader" by (simp add: loader_ok_def createRoomAppCatalogLoader_def)
  ultimately have ok: "loader_ok (fold (run_loader_step rn ttl) steps createRoomAppCatalogLoader)" by blast
  moreover have "case load_catalog now l of (Cached cat, l') \<Rightarrow> catalog_sound cat \<and> l' = l \<and> cat = lc_last (spec_of l) | _ \<Rightarrow> True"
    if "loader_ok l" for l
    using that by (auto simp: loader_ok_def load_catalog_def spec_of_def split: option.splits bool.splits if_splits)
  ultimately show ?thesis by (simp add: Let_def loader_step_refines)
qed

end
