(* ===== verification/Text_Encoding.thy ===== *)
theory Text_Encoding
  imports Room_App_Catalog
begin

text \<open>
  What is stored as bytes comes back as text: \<open>TextDecoder.decode\<close> undoes \<open>TextEncoder.encode\<close> on a
  string without lone surrogates, and what \<open>JSON.stringify\<close> prints is such a string.
\<close>

subsection \<open>Bytes of scalar values\<close>

definition valid_point :: "nat \<Rightarrow> bool" where
  "valid_point p \<longleftrightarrow> p < 0xd800 \<or> 0xe000 \<le> p \<and> p < 0x110000"

lemma split64: "p = p div 64 * 64 + p mod 64" "p div 64 = p div 4096 * 64 + p div 64 mod 64"
    "p div 4096 = p div 262144 * 64 + p div 4096 mod 64" for p :: nat
proof -
  have "p div 4096 = p div 64 div 64" "p div 262144 = p div 4096 div 64" by (simp_all add: div_mult2_eq [symmetric])
  then show "p = p div 64 * 64 + p mod 64" "p div 64 = p div 4096 * 64 + p div 64 mod 64"
    "p div 4096 = p div 262144 * 64 + p div 4096 mod 64" by simp_all
qed

lemma utf8_point: "valid_point p \<Longrightarrow> utf8_points (utf8_of p @ bs) = map_option ((#) p) (utf8_points bs)"
proof -
  assume v: "valid_point p"
  consider "p \<le> 0x7f" | "0x7f < p" "p \<le> 0x7ff" | "0x7ff < p" "p \<le> 0xffff" | "0xffff < p" by linarith
  then show ?thesis
  proof cases
    case 2
    then have "2 \<le> p div 64" "p div 64 < 32" by (simp_all add: less_mult_imp_div_less div_le_mono [of 128 p 64, simplified])
    moreover have "p mod 64 \<le> 63" using mod_less_divisor [of 64 p] by linarith
    ultimately show ?thesis using 2 by (simp add: utf8_of_def is_tail_byte_def)
  next
    case 3
    define a b c where "a = p div 4096" and "b = p div 64 mod 64" and "c = p mod 64"
    then have p: "p = a * 4096 + b * 64 + c" using split64 [of p] by linarith
    have bounds: "b \<le> 63" "c \<le> 63" by (simp_all add: b_def c_def flip: less_Suc_eq_le)
    have a: "a < 16" using 3 p by linarith
    have "a = 0 \<longrightarrow> 32 \<le> b" using 3 p bounds by linarith
    moreover have "a = 13 \<longrightarrow> b \<le> 31" using v 3 p bounds unfolding valid_point_def by linarith
    moreover have "utf8_of p = [0xe0 + a, 0x80 + b, 0x80 + c]" using 3 by (simp add: utf8_of_def a_def b_def c_def)
    ultimately show ?thesis using a bounds by (simp add: is_tail_byte_def) (simp add: p)
  next
    case 4
    define a b c d where "a = p div 262144" and "b = p div 4096 mod 64" and "c = p div 64 mod 64" and "d = p mod 64"
    then have p: "p = a * 262144 + b * 4096 + c * 64 + d" using split64 [of p] by linarith
    have bounds: "b \<le> 63" "c \<le> 63" "d \<le> 63" by (simp_all add: b_def c_def d_def flip: less_Suc_eq_le)
    have a: "a < 5" using v 4 p unfolding valid_point_def by linarith
    have "a = 0 \<longrightarrow> 16 \<le> b" using 4 p bounds by linarith
    moreover have "a = 4 \<longrightarrow> b \<le> 15" using v 4 p bounds unfolding valid_point_def by linarith
    moreover have "utf8_of p = [0xf0 + a, 0x80 + b, 0x80 + c, 0x80 + d]" using 4 by (simp add: utf8_of_def a_def b_def c_def d_def)
    ultimately show ?thesis using a bounds by (simp add: is_tail_byte_def) (simp add: p)
  qed (simp add: utf8_of_def)
qed

lemma utf8_points_encode: "list_all valid_point ps \<Longrightarrow> utf8_points (concat (map utf8_of ps)) = Some ps"
  by (induction ps) (simp_all add: utf8_point)

subsection \<open>Strings without lone surrogates\<close>

fun well_formed :: "jstr \<Rightarrow> bool" where
  "well_formed [] \<longleftrightarrow> True"
| "well_formed [c] \<longleftrightarrow> \<not> is_high_surrogate c \<and> \<not> is_low_surrogate c"
| "well_formed (c # d # cs) \<longleftrightarrow>
     (if is_high_surrogate c \<and> is_low_surrogate d then well_formed cs
      else \<not> is_high_surrogate c \<and> \<not> is_low_surrogate c \<and> well_formed (d # cs))"

lemma surrogate_range:
  "is_high_surrogate c \<longleftrightarrow> 0xd800 \<le> unat c \<and> unat c < 0xdc00" "is_low_surrogate c \<longleftrightarrow> 0xdc00 \<le> unat c \<and> unat c < 0xe000"
  by (auto simp: is_high_surrogate_def is_low_surrogate_def word_le_nat_alt)

lemma plain_unit: "\<not> is_high_surrogate c \<Longrightarrow> \<not> is_low_surrogate c \<Longrightarrow> valid_point (scalar_of c) \<and> units_of (scalar_of c) = [c]"
  using unsigned_less [of c, where ?'a = nat]
  by (simp add: scalar_of_def valid_point_def units_of_def surrogate_range) arith

lemma pair_units:
  assumes "is_high_surrogate c" and "is_low_surrogate d"
  shows "valid_point (0x10000 + (unat c - 0xd800) * 0x400 + (unat d - 0xdc00)) \<and>
    units_of (0x10000 + (unat c - 0xd800) * 0x400 + (unat d - 0xdc00)) = [c, d]"
proof -
  define h l where "h = unat c - 0xd800" and "l = unat d - 0xdc00"
  then have h: "unat c = 0xd800 + h" "h < 0x400" and l: "unat d = 0xdc00 + l" "l < 0x400"
    using assms unfolding surrogate_range by linarith+
  have "of_nat (0xd800 + h) = c" "of_nat (0xdc00 + l) = d" unfolding h(1) [symmetric] l(1) [symmetric] by simp_all
  with h l show ?thesis by (simp add: valid_point_def units_of_def)
qed

lemma code_points_well_formed:
  "well_formed s \<Longrightarrow> list_all valid_point (code_points s) \<and> concat (map units_of (code_points s)) = s"
  by (induction s rule: well_formed.induct) (auto simp: plain_unit pair_units split: if_splits)

lemma utf8_decode_encode:
  assumes "well_formed s" and "take 3 (utf8_encode s) \<noteq> [0xef, 0xbb, 0xbf]"
  shows "utf8_decode (utf8_encode s) = Some s"
  using code_points_well_formed [OF assms(1)] assms(2) by (simp add: utf8_decode_def utf8_encode_def utf8_points_encode)

subsection \<open>Printed JSON\<close>

lemma well_formed_append: "well_formed a \<Longrightarrow> well_formed b \<Longrightarrow> well_formed (a @ b)"
proof (induction a rule: well_formed.induct)
  case (2 c)
  then show ?case by (cases b) auto
qed (auto split: if_splits)

lemma well_formed_plain: "(\<And>c. c \<in> set s \<Longrightarrow> \<not> is_high_surrogate c \<and> \<not> is_low_surrogate c) \<Longrightarrow> well_formed s"
  by (induction s rule: well_formed.induct) auto

lemma hex_digit_plain: "n < 16 \<Longrightarrow> \<not> is_high_surrogate (hex_digit n) \<and> \<not> is_low_surrogate (hex_digit n)"
proof -
  assume "n < 16"
  then have "n \<in> set [0..<16]" by simp
  moreover have "\<forall>n \<in> set [0..<16]. \<not> is_high_surrogate (hex_digit n) \<and> \<not> is_low_surrogate (hex_digit n)" by code_simp
  ultimately show ?thesis by blast
qed

lemma small_plain: "(c :: code_unit) < 0xd800 \<Longrightarrow> \<not> is_high_surrogate c \<and> \<not> is_low_surrogate c"
  by (auto simp: is_high_surrogate_def is_low_surrogate_def word_le_nat_alt word_less_nat_alt)

lemma unicode_escape_well_formed: "well_formed (unicode_escape c)"
proof (rule well_formed_plain)
  fix d
  assume d: "d \<in> set (unicode_escape c)"
  have "unat c < 65536" using unsigned_less [of c, where ?'a = nat] by simp
  then have "unat c div 4096 < 16" by (simp add: less_mult_imp_div_less)
  with d show "\<not> is_high_surrogate d \<and> \<not> is_low_surrogate d"
    by (auto simp: unicode_escape_def hex_digit_plain) (simp_all add: small_plain)
qed

lemma json_unit_well_formed: "well_formed (json_unit c)"
  using unicode_escape_well_formed [of c]
  by (auto simp: json_unit_def small_plain)

lemma json_body_well_formed: "well_formed (json_body s)"
  by (induction s rule: json_body.induct) (auto simp: json_unit_well_formed well_formed_append)

lemma well_formed_Cons: "(c :: code_unit) < 0xd800 \<Longrightarrow> well_formed s \<Longrightarrow> well_formed (c # s)"
  using well_formed_append [of "[c]" s] by (simp add: small_plain)

lemma json_quote_well_formed: "well_formed (json_quote s)"
  by (simp add: json_quote_def well_formed_Cons well_formed_append json_body_well_formed small_plain)

lemma lit_well_formed: "well_formed (lit s)"
proof (rule well_formed_plain)
  fix c
  assume "c \<in> set (lit s)"
  then obtain x where c: "c = of_char x" by (auto simp: lit_def)
  have "unat c < 256" unfolding c by (cases x) (simp add: of_char_def split: if_splits)
  then show "\<not> is_high_surrogate c \<and> \<not> is_low_surrogate c" by (simp add: surrogate_range)
qed

lemma digits_well_formed: "list_all is_digit s \<Longrightarrow> well_formed s"
  by (rule well_formed_plain, rule small_plain)
    (fastforce simp: list_all_iff is_digit_def word_le_nat_alt word_less_nat_alt)

lemma int_text_well_formed: "well_formed (int_text i)"
  using nat_text_spec [of "nat i"] nat_text_spec [of "nat (- i)"]
  by (simp add: int_text_def digits_well_formed well_formed_Cons)

lemma json_join_well_formed: "(\<And>x. x \<in> set xs \<Longrightarrow> well_formed x) \<Longrightarrow> well_formed (json_join xs)"
proof (induction xs)
  case (Cons x xs)
  then show ?case by (cases xs) (simp_all add: json_join_Cons well_formed_append well_formed_Cons)
qed (simp add: json_join_def)

lemma bracketed_well_formed: "(c :: code_unit) < 0xd800 \<Longrightarrow> (d :: code_unit) < 0xd800 \<Longrightarrow> well_formed s \<Longrightarrow> well_formed (c # s @ [d])"
  by (simp add: well_formed_Cons well_formed_append small_plain)

lemma json_text_well_formed: "plain_js v \<Longrightarrow> well_formed (json_text ntext v)"
proof (induction v)
  case (JNum n)
  then show ?case by (simp add: json_number_def int_text_well_formed)
next
  case (JArr vs)
  have "well_formed (json_join (map (\<lambda>v. if v = JUndefined then lit ''null'' else json_text ntext v) vs))"
    by (rule json_join_well_formed) (use JArr in \<open>auto simp: list_all_iff lit_well_formed\<close>)
  then show ?case by (simp add: bracketed_well_formed)
next
  case (JObj ps)
  have "well_formed (json_join (map (\<lambda>(k, v). json_quote k @ 0x3a # json_text ntext v) (filter (\<lambda>(k, v). v \<noteq> JUndefined) ps)))"
    by (rule json_join_well_formed)
      (use JObj in \<open>fastforce simp: list_all_iff json_quote_well_formed intro!: well_formed_append well_formed_Cons\<close>)
  then show ?case by (simp add: bracketed_well_formed)
qed (simp_all add: lit_well_formed json_quote_well_formed)

lemma encoded_record_head: "is_record v \<Longrightarrow> utf8_encode (json_text ntext v) = 0x7b # utf8_encode (tl (json_text ntext v))"
proof -
  assume "is_record v"
  then obtain ps where v: "v = JObj ps" by (cases v) (auto simp: is_record_def)
  obtain d cs where rest: "json_join (map (\<lambda>(k, v). json_quote k @ 0x3a # json_text ntext v) (filter (\<lambda>(k, v). v \<noteq> JUndefined) ps)) @ [0x7d] = d # cs"
    by (cases "json_join (map (\<lambda>(k, v). json_quote k @ 0x3a # json_text ntext v) (filter (\<lambda>(k, v). v \<noteq> JUndefined) ps)) @ [0x7d]") auto
  show ?thesis by (simp add: v rest utf8_encode_def small_plain scalar_of_def utf8_of_def)
qed

text \<open>The bytes of the text of a record read back as that record.\<close>

lemma stored_text_round_trip:
  assumes "rounds rn" and "plain_js v" and "is_record v"
  shows "utf8_decode (utf8_encode (json_text ntext v)) = Some (json_text ntext v) \<and> json_parse rn (json_text ntext v) = Some v"
proof
  show "utf8_decode (utf8_encode (json_text ntext v)) = Some (json_text ntext v)"
    by (rule utf8_decode_encode [OF json_text_well_formed [OF assms(2)]]) (subst encoded_record_head [OF assms(3)], simp)
qed (rule json_round_trip [OF assms(1,2)])

end
