(* ===== verification/Task_Session.thy ===== *)
theory Task_Session
  imports Runtime_Host
begin

text \<open>
  Session continuation, the part without storage (app/src/do/taskSession.ts): what the Room
  relays of a Runtime's answer to a session list request, and the rows the page shows. A
  Runtime's answer is untrusted.
\<close>

definition MAX_TASK_SESSION_ROWS :: nat where "MAX_TASK_SESSION_ROWS = 10"
definition MAX_TASK_SESSION_PROJECTS :: nat where "MAX_TASK_SESSION_PROJECTS = 24"
definition MAX_TASK_SESSION_TOKEN_LENGTH :: nat where "MAX_TASK_SESSION_TOKEN_LENGTH = 64"
definition MAX_TASK_SESSION_TITLE_LENGTH :: nat where "MAX_TASK_SESSION_TITLE_LENGTH = 256"
definition MAX_TASK_SESSION_PROJECT_LABEL_LENGTH :: nat where "MAX_TASK_SESSION_PROJECT_LABEL_LENGTH = 256"
definition MAX_TASK_SESSION_CLIENT_REQUEST_ID_LENGTH :: nat where "MAX_TASK_SESSION_CLIENT_REQUEST_ID_LENGTH = 64"
definition TASK_SESSION_PENDING_TTL_MS :: int where "TASK_SESSION_PENDING_TTL_MS = 20000"

lemmas task_session_bounds = MAX_TASK_SESSION_ROWS_def MAX_TASK_SESSION_PROJECTS_def MAX_TASK_SESSION_TOKEN_LENGTH_def
  MAX_TASK_SESSION_TITLE_LENGTH_def MAX_TASK_SESSION_PROJECT_LABEL_LENGTH_def

subsection \<open>Errors\<close>

datatype task_session_error = TSE_session_continuation_unsupported | TSE_invalid_session_control
  | TSE_session_control_busy | TSE_session_selection_expired | TSE_session_continuation_unavailable
  | TSE_task_project_unavailable | TSE_task_harness_control_unavailable | TSE_task_session_busy
  | TSE_task_agent_not_reachable | TSE_task_session_not_pending | TSE_task_request_id_in_use

definition TASK_SESSION_ERRORS :: "(task_session_error \<times> string) list" where
  "TASK_SESSION_ERRORS =
     [(TSE_session_continuation_unsupported, ''session_continuation_unsupported''),
      (TSE_invalid_session_control, ''invalid_session_control''),
      (TSE_session_control_busy, ''session_control_busy''),
      (TSE_session_selection_expired, ''session_selection_expired''),
      (TSE_session_continuation_unavailable, ''session_continuation_unavailable''),
      (TSE_task_project_unavailable, ''task_project_unavailable''),
      (TSE_task_harness_control_unavailable, ''task_harness_control_unavailable''),
      (TSE_task_session_busy, ''task_session_busy''),
      (TSE_task_agent_not_reachable, ''task_agent_not_reachable''),
      (TSE_task_session_not_pending, ''task_session_not_pending''),
      (TSE_task_request_id_in_use, ''task_request_id_in_use'')]"

definition task_session_error_of :: "js \<Rightarrow> task_session_error option" where
  "task_session_error_of v = map_option fst (find (\<lambda>(_, s). v = JStr (lit s)) TASK_SESSION_ERRORS)"

definition isTaskSessionError :: "js \<Rightarrow> bool" where
  "isTaskSessionError v \<longleftrightarrow> task_session_error_of v \<noteq> None"

definition taskSessionErrorMessage :: "task_session_error \<Rightarrow> string" where
  "taskSessionErrorMessage e = (case e of
     TSE_session_selection_expired \<Rightarrow> ''This local session is no longer available. Refresh sessions and try again.''
   | TSE_session_continuation_unsupported \<Rightarrow> ''This Agent cannot continue a local session.''
   | TSE_invalid_session_control \<Rightarrow> ''This Agent cannot continue a local session.''
   | TSE_session_control_busy \<Rightarrow> ''Another session request is still in progress. Try again in a moment.''
   | TSE_task_session_busy \<Rightarrow> ''Another session request is still in progress. Try again in a moment.''
   | TSE_task_agent_not_reachable \<Rightarrow> ''That Agent is not reachable right now.''
   | TSE_task_session_not_pending \<Rightarrow> ''The session request expired. Refresh sessions and try again.''
   | TSE_task_request_id_in_use \<Rightarrow> ''That Task request is already in use. Start a new request.''
   | TSE_task_project_unavailable \<Rightarrow> ''That local project is no longer available. Refresh projects and try again.''
   | TSE_task_harness_control_unavailable \<Rightarrow> ''That Harness control is no longer available. Refresh and choose another option.''
   | TSE_session_continuation_unavailable \<Rightarrow> ''Could not continue that local session. Your instruction was not sent.'')"

subsection \<open>Features\<close>

definition sanitizeRuntimeFeatures :: "js \<Rightarrow> runtime_features option" where
  "sanitizeRuntimeFeatures v =
     (if \<not> is_record v then None
      else (let continuation = js_get v ''taskSessionContinuation'' = JBool True;
                reconciliation = js_get v ''taskExecutionReconciliation'' = JBool True in
        if continuation \<or> reconciliation
        then Some \<lparr>rf_taskSessionContinuation = continuation, rf_taskExecutionReconciliation = reconciliation\<rparr>
        else None))"

definition agentSupportsTaskExecutionReconciliation :: "participant \<Rightarrow> bool" where
  "agentSupportsTaskExecutionReconciliation p \<longleftrightarrow> p_kind p = Agent \<and> p_connected p \<and>
     (case p_runtimeFeatures p of Some f \<Rightarrow> rf_taskExecutionReconciliation f | None \<Rightarrow> False)"

definition agentSupportsTaskSessionContinuation :: "participant \<Rightarrow> bool" where
  "agentSupportsTaskSessionContinuation p \<longleftrightarrow> p_kind p = Agent \<and> p_connected p \<and>
     (case p_runtimeFeatures p of Some f \<Rightarrow> rf_taskSessionContinuation f | None \<Rightarrow> False)"

subsection \<open>Texts and tokens\<close>

definition boundedTaskSessionText :: "js \<Rightarrow> nat \<Rightarrow> jstr" where
  "boundedTaskSessionText v limit = (case v of
     JStr s \<Rightarrow> take limit (js_trim (map (\<lambda>c. if is_control c then 0x20 else c) s)) | _ \<Rightarrow> [])"

definition isValidTaskSessionToken :: "js \<Rightarrow> bool" where
  "isValidTaskSessionToken v = (case v of
     JStr s \<Rightarrow> s \<noteq> [] \<and> length s \<le> MAX_TASK_SESSION_TOKEN_LENGTH \<and> js_trim s = s | _ \<Rightarrow> False)"

text \<open>The empty string stands for a refused id or value.\<close>

definition boundedNativeControlText :: "js \<Rightarrow> nat \<Rightarrow> jstr" where
  "boundedNativeControlText v limit = (case v of
     JStr s \<Rightarrow> if s = [] \<or> limit < length s \<or> list_ex is_control s then [] else s | _ \<Rightarrow> [])"

definition isValidHarnessControlText :: "js \<Rightarrow> bool" where
  "isValidHarnessControlText v \<longleftrightarrow> boundedNativeControlText v 512 \<noteq> []"

text \<open>An optional display text: present when the value is a string.\<close>

definition optional_text :: "js \<Rightarrow> nat \<Rightarrow> jstr option" where
  "optional_text v limit = (case v of JStr _ \<Rightarrow> Some (boundedTaskSessionText v limit) | _ \<Rightarrow> None)"

subsection \<open>The relayed list\<close>

record relay_session =
  rs_token :: jstr
  rs_title :: jstr
  rs_projectToken :: jstr
  rs_projectLabel :: jstr
  rs_updatedAt :: "jstr option"

record relay_project =
  rj_token :: jstr
  rj_label :: jstr

record relay_mode =
  rm_modeId :: jstr
  rm_modeName :: "jstr option"
  rm_description :: "jstr option"

record relay_value =
  rv_value :: jstr
  rv_name :: "jstr option"
  rv_description :: "jstr option"

record relay_option =
  ro_id :: jstr
  ro_name :: "jstr option"
  ro_description :: "jstr option"
  ro_category :: "jstr option"
  ro_currentValue :: "jstr option"
  ro_options :: "relay_value list"

record relay_controls =
  rc_currentModeId :: "jstr option"
  rc_modes :: "relay_mode list"
  rc_configOptions :: "relay_option list"

record session_list =
  sl_sessions :: "relay_session list"
  sl_projects :: "relay_project list"
  sl_nextPageToken :: "jstr option"
  sl_hasMore :: bool
  sl_controls :: "relay_controls option"

text \<open>\<open>a ?? []\<close>, then \<open>Array.isArray\<close>.\<close>

definition array_or_empty :: "js \<Rightarrow> js list option" where
  "array_or_empty v = (case v of JUndefined \<Rightarrow> Some [] | JNull \<Rightarrow> Some [] | JArr vs \<Rightarrow> Some vs | _ \<Rightarrow> None)"

text \<open>
  A row that is no object is skipped; a row without its tokens refuses the page. An array counts
  as an object without properties here.
\<close>

fun relay_rows :: "(js \<Rightarrow> 'a option) \<Rightarrow> js list \<Rightarrow> 'a list option" where
  "relay_rows f [] = Some []"
| "relay_rows f (v # vs) =
     (if \<not> is_objectish v then relay_rows f vs
      else (case f v of None \<Rightarrow> None | Some r \<Rightarrow> map_option ((#) r) (relay_rows f vs)))"

definition relay_session_row :: "js \<Rightarrow> relay_session option" where
  "relay_session_row v =
     (if \<not> isValidTaskSessionToken (js_get v ''token'') \<or> \<not> isValidTaskSessionToken (js_get v ''projectToken'') then None
      else Some \<lparr>rs_token = js_string (js_get v ''token''),
        rs_title = boundedTaskSessionText (js_get v ''title'') MAX_TASK_SESSION_TITLE_LENGTH,
        rs_projectToken = js_string (js_get v ''projectToken''),
        rs_projectLabel = boundedTaskSessionText (js_get v ''projectLabel'') MAX_TASK_SESSION_PROJECT_LABEL_LENGTH,
        rs_updatedAt = (case js_get v ''updatedAt'' of
          JStr s \<Rightarrow> if 0 < length s \<and> length s \<le> 64 then Some s else None | _ \<Rightarrow> None)\<rparr>)"

definition relay_project_row :: "js \<Rightarrow> relay_project option" where
  "relay_project_row v =
     (if \<not> isValidTaskSessionToken (js_get v ''token'') then None
      else Some \<lparr>rj_token = js_string (js_get v ''token''),
        rj_label = boundedTaskSessionText (js_get v ''label'') MAX_TASK_SESSION_PROJECT_LABEL_LENGTH\<rparr>)"

definition relay_mode_of :: "js \<Rightarrow> relay_mode option" where
  "relay_mode_of v = (let i = boundedNativeControlText (js_get v ''id'') 128 in
     if \<not> is_record v \<or> i = [] then None
     else Some \<lparr>rm_modeId = i, rm_modeName = optional_text (js_get v ''name'') 128,
       rm_description = optional_text (js_get v ''description'') 256\<rparr>)"

definition relay_value_of :: "js \<Rightarrow> relay_value option" where
  "relay_value_of v = (let native = boundedNativeControlText (js_get v ''value'') 128 in
     if \<not> is_record v \<or> native = [] then None
     else Some \<lparr>rv_value = native, rv_name = optional_text (js_get v ''name'') 128,
       rv_description = optional_text (js_get v ''description'') 256\<rparr>)"

text \<open>
  The outer \<open>None\<close> refuses all controls, the inner one skips the option. \<open>those\<close> is \<open>None\<close> as
  soon as one element is.
\<close>

definition relay_option_of :: "js \<Rightarrow> relay_option option option" where
  "relay_option_of v =
     (if \<not> is_record v then None
      else (let i = boundedNativeControlText (js_get v ''id'') 128 in
        Some (if js_get v ''type'' \<noteq> JStr (lit ''select'') \<or> i = [] then None
          else (case array_or_empty (js_get v ''options'') of
            None \<Rightarrow> None
          | Some values \<Rightarrow>
              if values = [] \<or> 32 < length values then None
              else (case those (map relay_value_of values) of
                None \<Rightarrow> None
              | Some vs \<Rightarrow> Some \<lparr>ro_id = i, ro_name = optional_text (js_get v ''name'') 128,
                  ro_description = optional_text (js_get v ''description'') 256,
                  ro_category = optional_text (js_get v ''category'') 64,
                  ro_currentValue = optional_text (js_get v ''currentValue'') 128, ro_options = vs\<rparr>)))))"

definition relayHarnessSessionControls :: "js \<Rightarrow> relay_controls option" where
  "relayHarnessSessionControls v =
     (if \<not> is_record v then None
      else (case (array_or_empty (js_get v ''modes''), array_or_empty (js_get v ''configOptions'')) of
        (Some modes, Some configOptions) \<Rightarrow>
          (let mode = js_get v ''currentModeId''; current = boundedNativeControlText mode 128 in
           if 32 < length modes \<or> 16 < length configOptions \<or> (mode \<noteq> JUndefined \<and> current = []) then None
           else (case (those (map relay_mode_of modes), those (map relay_option_of configOptions)) of
             (Some ms, Some opts) \<Rightarrow> Some \<lparr>rc_currentModeId = (if mode = JUndefined then None else Some current),
               rc_modes = ms, rc_configOptions = List.map_filter (\<lambda>o'. o') opts\<rparr>
           | _ \<Rightarrow> None))
      | _ \<Rightarrow> None))"

definition validateTaskSessionListResult :: "js \<Rightarrow> task_session_error + session_list" where
  "validateTaskSessionListResult v =
     (let unavailable = Inl TSE_session_continuation_unavailable in
      if \<not> is_record v then unavailable
      else if js_get v ''ok'' \<noteq> JBool True then
        (case task_session_error_of (js_get v ''error'') of Some e \<Rightarrow> Inl e | None \<Rightarrow> unavailable)
      else (case (array_or_empty (js_get v ''sessions''), array_or_empty (js_get v ''projects'')) of
        (Some sessions, Some projects) \<Rightarrow>
          if MAX_TASK_SESSION_ROWS < length sessions \<or> MAX_TASK_SESSION_PROJECTS < length projects then unavailable
          else (case (relay_rows relay_session_row sessions, relay_rows relay_project_row projects) of
            (Some ss, Some ps) \<Rightarrow>
              (let controls = relayHarnessSessionControls (js_get v ''controls'');
                   token = (if isValidTaskSessionToken (js_get v ''nextPageToken'')
                     then Some (js_string (js_get v ''nextPageToken'')) else None) in
               if js_get v ''controls'' \<noteq> JUndefined \<and> controls = None then unavailable
               else Inr \<lparr>sl_sessions = ss, sl_projects = ps, sl_nextPageToken = token, sl_hasMore = token \<noteq> None,
                 sl_controls = controls\<rparr>)
          | _ \<Rightarrow> unavailable)
      | _ \<Rightarrow> unavailable))"

subsection \<open>The page's list\<close>

fun append_fresh :: "jstr list \<Rightarrow> relay_session list \<Rightarrow> relay_session list \<Rightarrow> relay_session list" where
  "append_fresh seen merged [] = merged"
| "append_fresh seen merged (r # rs) =
     (if rs_token r \<in> set seen then append_fresh seen merged rs
      else append_fresh (rs_token r # seen) (merged @ [r]) rs)"

definition appendDedupedTaskSessions :: "relay_session list \<Rightarrow> relay_session list \<Rightarrow> relay_session list" where
  "appendDedupedTaskSessions existing incoming = append_fresh (map rs_token existing) existing incoming"

definition filterTaskSessions :: "(jstr \<Rightarrow> jstr) \<Rightarrow> relay_session list \<Rightarrow> jstr \<Rightarrow> relay_session list" where
  "filterTaskSessions toLowerCase sessions query =
     (let needle = toLowerCase (js_trim query) in
      if needle = [] then sessions
      else filter (\<lambda>r. sublist needle (toLowerCase (rs_title r)) \<or> sublist needle (toLowerCase (rs_projectLabel r))) sessions)"

definition hasOutstandingTaskSessionRequest :: "int option \<Rightarrow> int option \<Rightarrow> int \<Rightarrow> bool" where
  "hasOutstandingTaskSessionRequest discovery_expiresAt start_expiresAt now \<longleftrightarrow>
     (case discovery_expiresAt of Some t \<Rightarrow> now < t | None \<Rightarrow> False) \<or>
     (case start_expiresAt of Some t \<Rightarrow> now < t | None \<Rightarrow> False)"

subsection \<open>What is relayed is well formed\<close>

definition display_text :: "nat \<Rightarrow> jstr \<Rightarrow> bool" where
  "display_text n s \<longleftrightarrow> length s \<le> n \<and> \<not> list_ex is_control s"

definition display_option :: "nat \<Rightarrow> jstr option \<Rightarrow> bool" where
  "display_option n s = (case s of Some x \<Rightarrow> display_text n x | None \<Rightarrow> True)"

definition native_text :: "jstr \<Rightarrow> bool" where
  "native_text s \<longleftrightarrow> s \<noteq> [] \<and> length s \<le> 128 \<and> \<not> list_ex is_control s"

definition relay_value_ok :: "relay_value \<Rightarrow> bool" where
  "relay_value_ok v \<longleftrightarrow> native_text (rv_value v) \<and> display_option 128 (rv_name v) \<and> display_option 256 (rv_description v)"

definition relay_option_ok :: "relay_option \<Rightarrow> bool" where
  "relay_option_ok r \<longleftrightarrow> native_text (ro_id r) \<and> display_option 128 (ro_name r) \<and> display_option 256 (ro_description r) \<and>
     display_option 64 (ro_category r) \<and> display_option 128 (ro_currentValue r) \<and> ro_options r \<noteq> [] \<and>
     length (ro_options r) \<le> 32 \<and> list_all relay_value_ok (ro_options r)"

definition relay_mode_ok :: "relay_mode \<Rightarrow> bool" where
  "relay_mode_ok m \<longleftrightarrow> native_text (rm_modeId m) \<and> display_option 128 (rm_modeName m) \<and> display_option 256 (rm_description m)"

definition relay_controls_ok :: "relay_controls \<Rightarrow> bool" where
  "relay_controls_ok c \<longleftrightarrow> (case rc_currentModeId c of Some i \<Rightarrow> native_text i | None \<Rightarrow> True) \<and>
     length (rc_modes c) \<le> 32 \<and> list_all relay_mode_ok (rc_modes c) \<and>
     length (rc_configOptions c) \<le> 16 \<and> list_all relay_option_ok (rc_configOptions c)"

definition relay_session_ok :: "relay_session \<Rightarrow> bool" where
  "relay_session_ok r \<longleftrightarrow> isValidTaskSessionToken (JStr (rs_token r)) \<and> isValidTaskSessionToken (JStr (rs_projectToken r)) \<and>
     display_text 256 (rs_title r) \<and> display_text 256 (rs_projectLabel r)"

definition relay_project_ok :: "relay_project \<Rightarrow> bool" where
  "relay_project_ok r \<longleftrightarrow> isValidTaskSessionToken (JStr (rj_token r)) \<and> display_text 256 (rj_label r)"

definition session_list_ok :: "session_list \<Rightarrow> bool" where
  "session_list_ok l \<longleftrightarrow> length (sl_sessions l) \<le> 10 \<and> list_all relay_session_ok (sl_sessions l) \<and>
     length (sl_projects l) \<le> 24 \<and> list_all relay_project_ok (sl_projects l) \<and>
     (sl_hasMore l \<longleftrightarrow> sl_nextPageToken l \<noteq> None) \<and>
     (case sl_nextPageToken l of Some t \<Rightarrow> isValidTaskSessionToken (JStr t) | None \<Rightarrow> True) \<and>
     (case sl_controls l of Some c \<Rightarrow> relay_controls_ok c | None \<Rightarrow> True)"

lemma bounded_text: "display_text n (boundedTaskSessionText v n)"
proof (cases v)
  case (JStr s)
  let ?s = "map (\<lambda>c. if is_control c then 0x20 else c) s"
  have "\<not> is_control (if is_control c then 0x20 else c)" for c by (simp add: is_control_def)
  then have "\<forall>c \<in> set ?s. \<not> is_control c" unfolding set_map by blast
  then have "\<forall>c \<in> set (take n (js_trim ?s)). \<not> is_control c"
    by (intro ballI) (elim bspec, rule subsetD [OF set_js_trim], rule in_set_takeD)
  moreover have "boundedTaskSessionText v n = take n (js_trim ?s)" by (simp only: JStr boundedTaskSessionText_def js.case)
  moreover have "length (take n (js_trim ?s)) \<le> n" by (rule length_take [THEN ord_eq_le_trans]) (rule min.cobounded2)
  ultimately show ?thesis unfolding display_text_def list_ex_iff by metis
qed (simp_all add: display_text_def boundedTaskSessionText_def)

lemma optional_text_ok [simp]: "display_option n (optional_text v n)"
  by (simp add: display_option_def optional_text_def bounded_text split: js.split)

lemma native_control_text: "boundedNativeControlText v 128 \<noteq> [] \<Longrightarrow> native_text (boundedNativeControlText v 128)"
  by (auto simp: boundedNativeControlText_def native_text_def split: js.splits if_splits)

lemma token_string: "isValidTaskSessionToken v \<Longrightarrow> isValidTaskSessionToken (JStr (js_string v))"
  by (simp add: isValidTaskSessionToken_def js_string_def split: js.splits)

lemma relay_rows_all: "relay_rows f vs = Some rs \<Longrightarrow> (\<And>v r. f v = Some r \<Longrightarrow> P r) \<Longrightarrow> list_all P rs \<and> length rs \<le> length vs"
proof (induction vs arbitrary: rs)
  case (Cons v vs)
  show ?case
  proof (cases "is_objectish v")
    case True
    then obtain r rs' where r: "f v = Some r" "relay_rows f vs = Some rs'" "rs = r # rs'"
      using Cons.prems(1) by (auto split: option.splits)
    with Cons.IH [OF r(2) Cons.prems(2)] Cons.prems(2) show ?thesis by auto
  next
    case False
    with Cons.prems(1) have "relay_rows f vs = Some rs" by simp
    from Cons.IH [OF this] Cons.prems(2) show ?thesis by (simp add: le_SucI)
  qed
qed simp

lemma those_all: "those (map f vs) = Some rs \<Longrightarrow> (\<And>v r. f v = Some r \<Longrightarrow> P r) \<Longrightarrow> list_all P rs \<and> length rs = length vs"
  by (induction vs arbitrary: rs) (auto split: option.splits)

lemma relay_session_row_ok: "relay_session_row v = Some r \<Longrightarrow> relay_session_ok r"
  using bounded_text by (auto simp: relay_session_row_def relay_session_ok_def token_string task_session_bounds split: if_splits)

lemma relay_project_row_ok: "relay_project_row v = Some r \<Longrightarrow> relay_project_ok r"
  using bounded_text by (auto simp: relay_project_row_def relay_project_ok_def token_string task_session_bounds split: if_splits)

lemma relay_mode_of_ok: "relay_mode_of v = Some m \<Longrightarrow> relay_mode_ok m"
  by (auto simp: relay_mode_of_def relay_mode_ok_def Let_def native_control_text split: if_splits)

lemma relay_value_of_ok: "relay_value_of v = Some m \<Longrightarrow> relay_value_ok m"
  by (auto simp: relay_value_of_def relay_value_ok_def Let_def native_control_text split: if_splits)

lemma relay_option_of_ok:
  assumes "relay_option_of v = Some r"
  shows "case r of Some x \<Rightarrow> relay_option_ok x | None \<Rightarrow> True"
proof (cases r)
  case (Some x)
  from assms Some obtain vals vs where "vals \<noteq> []" "length vals \<le> 32" "those (map relay_value_of vals) = Some vs"
    and i: "boundedNativeControlText (js_get v ''id'') 128 \<noteq> []"
    and x: "x = \<lparr>ro_id = boundedNativeControlText (js_get v ''id'') 128, ro_name = optional_text (js_get v ''name'') 128,
      ro_description = optional_text (js_get v ''description'') 256, ro_category = optional_text (js_get v ''category'') 64,
      ro_currentValue = optional_text (js_get v ''currentValue'') 128, ro_options = vs\<rparr>"
    by (auto simp: relay_option_of_def Let_def not_less split: if_splits option.splits)
  moreover from this those_all [of relay_value_of vals vs relay_value_ok] relay_value_of_ok
  have "list_all relay_value_ok vs" "length vs = length vals" by auto
  ultimately show ?thesis by (auto simp: Some relay_option_ok_def native_control_text)
qed simp

lemma map_filter_those: "list_all (\<lambda>r. case r of Some x \<Rightarrow> P x | None \<Rightarrow> True) rs \<Longrightarrow>
    list_all P (List.map_filter (\<lambda>r. r) rs) \<and> length (List.map_filter (\<lambda>r. r) rs) \<le> length rs"
  by (induction rs) (auto simp: map_filter_simps split: option.splits)

lemma relay_controls_sound:
  assumes "relayHarnessSessionControls v = Some c"
  shows "relay_controls_ok c"
proof -
  from assms obtain modes options ms opts where
    n: "length modes \<le> 32" "length options \<le> 16" and
    ms: "those (map relay_mode_of modes) = Some ms" and opts: "those (map relay_option_of options) = Some opts"
    and mode: "js_get v ''currentModeId'' \<noteq> JUndefined \<Longrightarrow> boundedNativeControlText (js_get v ''currentModeId'') 128 \<noteq> []"
    and c: "c = \<lparr>rc_currentModeId = (if js_get v ''currentModeId'' = JUndefined then None
        else Some (boundedNativeControlText (js_get v ''currentModeId'') 128)),
      rc_modes = ms, rc_configOptions = List.map_filter (\<lambda>o'. o') opts\<rparr>"
    by (auto simp: relayHarnessSessionControls_def Let_def not_less split: if_split_asm option.splits)
  from those_all [where P = relay_mode_ok, OF ms relay_mode_of_ok] have "list_all relay_mode_ok ms" "length ms \<le> 32" using n by auto
  moreover from those_all [where P = "\<lambda>r. case r of Some x \<Rightarrow> relay_option_ok x | None \<Rightarrow> True", OF opts relay_option_of_ok] map_filter_those [of relay_option_ok opts]
  have "list_all relay_option_ok (List.map_filter (\<lambda>o'. o') opts)" "length (List.map_filter (\<lambda>o'. o') opts) \<le> 16"
    using n by auto
  ultimately show ?thesis using mode by (simp add: c relay_controls_ok_def native_control_text)
qed

text \<open>
  CX: whatever a Runtime answers, what the Room relays of it is well formed: at most ten sessions
  and twenty-four projects, each under a token that is relayed unchanged, display texts that are
  bounded and free of control characters, control ids that are bounded, and \<open>hasMore\<close> exactly
  when there is a page token. A page with a row outside its bounds is refused as a whole.
\<close>

theorem relayed_list_well_formed:
  assumes "validateTaskSessionListResult v = Inr l"
  shows "session_list_ok l"
proof -
  from assms obtain sessions projects where
    n: "length sessions \<le> 10" "length projects \<le> 24" and
    ss: "relay_rows relay_session_row sessions = Some (sl_sessions l)" and
    ps: "relay_rows relay_project_row projects = Some (sl_projects l)" and
    t: "sl_nextPageToken l = (if isValidTaskSessionToken (js_get v ''nextPageToken'')
      then Some (js_string (js_get v ''nextPageToken'')) else None)" and
    m: "sl_hasMore l \<longleftrightarrow> sl_nextPageToken l \<noteq> None" and
    c: "sl_controls l = relayHarnessSessionControls (js_get v ''controls'')"
    by (auto simp: validateTaskSessionListResult_def Let_def task_session_bounds not_less split: if_split_asm option.splits)
  have "list_all relay_session_ok (sl_sessions l) \<and> length (sl_sessions l) \<le> length sessions"
    using relay_session_row_ok by (rule relay_rows_all [OF ss])
  moreover have "list_all relay_project_ok (sl_projects l) \<and> length (sl_projects l) \<le> length projects"
    using relay_project_row_ok by (rule relay_rows_all [OF ps])
  moreover have "case sl_controls l of Some c \<Rightarrow> relay_controls_ok c | None \<Rightarrow> True"
    using relay_controls_sound by (simp add: c split: option.split)
  ultimately show ?thesis using n t m by (auto simp: session_list_ok_def token_string)
qed

definition demo_session_page :: js where
  "demo_session_page = JObj [(lit ''ok'', JBool True), (lit ''sessions'', JArr [JObj [(lit ''token'', JStr (lit ''s1'')),
     (lit ''projectToken'', JStr (lit ''p1'')), (lit ''title'', JStr (0x9 # lit ''fix the build''))], JNull]),
     (lit ''nextPageToken'', JStr (lit ''n2''))]"

theorem relayed_list_well_formed_witness:
  "session_list_ok (projr (validateTaskSessionListResult demo_session_page)) \<and>
   map rs_title (sl_sessions (projr (validateTaskSessionListResult demo_session_page))) = [lit ''fix the build'']"
proof -
  have "case validateTaskSessionListResult demo_session_page of
      Inr l \<Rightarrow> map rs_title (sl_sessions l) = [lit ''fix the build''] | Inl _ \<Rightarrow> False" by code_simp
  then obtain l where l: "validateTaskSessionListResult demo_session_page = Inr l"
    "map rs_title (sl_sessions l) = [lit ''fix the build'']" by (auto split: sum.splits)
  with relayed_list_well_formed [OF l(1)] show ?thesis by simp
qed

subsection \<open>Loading more never repeats a row\<close>

lemma append_fresh_spec:
  "\<lbrakk>distinct (map rs_token merged); rs_token ` set merged = set seen\<rbrakk> \<Longrightarrow>
   prefix merged (append_fresh seen merged rows) \<and> distinct (map rs_token (append_fresh seen merged rows)) \<and>
   rs_token ` set (append_fresh seen merged rows) = rs_token ` set merged \<union> rs_token ` set rows"
proof (induction seen merged rows rule: append_fresh.induct)
  case (2 seen merged r rows)
  show ?case
  proof (cases "rs_token r \<in> set seen")
    case True
    then show ?thesis using 2 by auto
  next
    case False
    have "distinct (map rs_token (merged @ [r]))" "rs_token ` set (merged @ [r]) = set (rs_token r # seen)"
      using 2 False by auto
    from "2.IH"(2) [OF False this] False show ?thesis by (auto intro: prefix_order.trans [rotated])
  qed
qed simp

lemma loaded_rows_distinct:
  assumes "distinct (map rs_token existing)"
  shows "distinct (map rs_token (appendDedupedTaskSessions existing incoming)) \<and>
    prefix existing (appendDedupedTaskSessions existing incoming) \<and>
    rs_token ` set (appendDedupedTaskSessions existing incoming) = rs_token ` set existing \<union> rs_token ` set incoming"
  unfolding appendDedupedTaskSessions_def using append_fresh_spec [OF assms, of "map rs_token existing" incoming] by simp

end
