(* ===== verification/Media_Cleanup.thy ===== *)
theory Media_Cleanup
  imports Room_Types Room_Interfaces
begin

text \<open>
  What revoking the media of an Agent leaves to clean up: the queue of media ids the provider
  must still close (app/src/do/realtimeMedia.ts) and the close calls with their reconciliation
  (app/src/do/mediaEffects.ts, the provider's answer being a parameter).
\<close>

subsection \<open>The cleanup queue\<close>

definition MAX_PENDING_CLEANUP_ENTRIES :: nat where "MAX_PENDING_CLEANUP_ENTRIES = 16"
definition MAX_PENDING_CLEANUP_MIDS_PER_ENTRY :: nat where "MAX_PENDING_CLEANUP_MIDS_PER_ENTRY = 64"

text \<open>The entry \<open>findIndex\<close> finds is replaced in place.\<close>

fun merge_cleanup :: "pending_cleanup list \<Rightarrow> jstr \<Rightarrow> jstr list \<Rightarrow> pending_cleanup list" where
  "merge_cleanup [] s mids = []"
| "merge_cleanup (e # es) s mids =
     (if pc_sessionId e = s
      then \<lparr>pc_sessionId = s, pc_mids = dedupe (pc_mids e @ mids)\<rparr> # es
      else e # merge_cleanup es s mids)"

definition queuePendingCleanup ::
    "pending_cleanup list \<Rightarrow> jstr \<Rightarrow> jstr list \<Rightarrow> pending_cleanup list" where
  "queuePendingCleanup existing s mids =
     (if mids = [] then existing
      else if \<not> list_ex (\<lambda>e. pc_sessionId e = s) existing
      then existing @ [\<lparr>pc_sessionId = s, pc_mids = dedupe mids\<rparr>]
      else merge_cleanup existing s mids)"

definition pendingCleanupHasCapacity :: "pending_cleanup list \<Rightarrow> jstr \<Rightarrow> nat \<Rightarrow> bool" where
  "pendingCleanupHasCapacity entries s additional =
     (case List.find (\<lambda>e. pc_sessionId e = s) entries of
        Some e \<Rightarrow> length (pc_mids e) + additional \<le> MAX_PENDING_CLEANUP_MIDS_PER_ENTRY
      | None \<Rightarrow> length entries < MAX_PENDING_CLEANUP_ENTRIES)"

definition isHumanAudioTrackTarget :: "participants \<Rightarrow> jstr \<Rightarrow> jstr \<Rightarrow> bool" where
  "isHumanAudioTrackTarget ps s track \<longleftrightarrow> list_ex (\<lambda>p. p_kind p = Human \<and>
     (case p_media p of None \<Rightarrow> False
      | Some m \<Rightarrow> m_sessionId m = s \<and>
          list_ex (\<lambda>t. mt_trackName t = track \<and> mt_kind t = Audio) (m_tracks m))) (map snd ps)"

datatype direction = Subscribed | Published | Both

text \<open>The ids a revocation of one direction moves; an empty published id counts as none.\<close>

definition revoked_subscribed :: "direction \<Rightarrow> media_state \<Rightarrow> jstr list" where
  "revoked_subscribed d m = (if d = Published then []
     else (case m_agentSubscribedMids m of Some mids \<Rightarrow> mids | None \<Rightarrow> []))"

definition revoked_published :: "direction \<Rightarrow> media_state \<Rightarrow> jstr option" where
  "revoked_published d m = (if d = Subscribed then None else truthy_str (m_agentPublishedMid m))"

definition drop_subscribed :: "direction \<Rightarrow> media_state \<Rightarrow> media_state" where
  "drop_subscribed d m = (if d = Published then m else m\<lparr>m_agentSubscribedMids := Some []\<rparr>)"

definition drop_published :: "direction \<Rightarrow> media_state \<Rightarrow> media_state" where
  "drop_published d m = (if d = Subscribed then m
     else m\<lparr>m_agentPublishedMid := None, m_agentPublishedTrackName := None,
       m_agentVoiceReady := None, m_tracks := filter (\<lambda>t. mt_kind t \<noteq> Audio) (m_tracks m)\<rparr>)"

definition staged_mids :: "direction \<Rightarrow> media_state \<Rightarrow> jstr list" where
  "staged_mids d m = (let mids = revoked_subscribed d m in (case revoked_published d m of
     Some x \<Rightarrow> if x \<in> set mids then mids else mids @ [x] | None \<Rightarrow> mids))"

text \<open>The participant is updated in place: the result is the participant and the queue.\<close>

definition stageAgentMediaRevocation ::
    "participant option \<Rightarrow> pending_cleanup list \<Rightarrow> direction \<Rightarrow>
     participant option \<times> pending_cleanup list" where
  "stageAgentMediaRevocation p queue d = (case p of
     None \<Rightarrow> (None, queue)
   | Some a \<Rightarrow> (case p_media a of
       None \<Rightarrow> (p, queue)
     | Some m \<Rightarrow>
         if p_kind a \<noteq> Agent then (p, queue)
         else if revoked_subscribed d m = [] \<and> revoked_published d m = None then (p, queue)
         else (Some (a\<lparr>p_media := Some (drop_published d (drop_subscribed d m))\<rparr>),
           queuePendingCleanup queue (m_sessionId m) (staged_mids d m))))"

subsection \<open>Closing media at the provider\<close>

type_synonym close_effect = pending_cleanup

record close_result =
  cl_effect :: close_effect
  cl_confirmedMids :: "jstr list"

definition snapshotMediaCloseEffects :: "pending_cleanup list \<Rightarrow> close_effect list" where
  "snapshotMediaCloseEffects entries = filter (\<lambda>e. 0 < length (pc_mids e)) entries"

text \<open>
  One close call. \<open>closes\<close> says whether the provider answered the call with a success; it
  stands for the credentials, the base URL and the HTTP request.
\<close>

definition executeMediaCloseEffect :: "(close_effect \<Rightarrow> bool) \<Rightarrow> close_effect \<Rightarrow> close_result" where
  "executeMediaCloseEffect closes effect =
     \<lparr>cl_effect = effect,
      cl_confirmedMids = (if pc_mids effect = [] then []
        else if closes effect then pc_mids effect else [])\<rparr>"

definition executeMediaCloseEffects ::
    "(close_effect \<Rightarrow> bool) \<Rightarrow> close_effect list \<Rightarrow> close_result list" where
  "executeMediaCloseEffects closes effects = map (executeMediaCloseEffect closes) effects"

definition confirmedMidsForEffect :: "close_result \<Rightarrow> jstr list" where
  "confirmedMidsForEffect r =
     dedupe (filter (\<lambda>mid. mid \<in> set (pc_mids (cl_effect r))) (cl_confirmedMids r))"

definition reconcile_one :: "close_result \<Rightarrow> pending_cleanup list \<Rightarrow> pending_cleanup list" where
  "reconcile_one r entries = (let confirmed = confirmedMidsForEffect r in
     if confirmed = [] then entries
     else filter (\<lambda>e. 0 < length (pc_mids e))
       (map (\<lambda>e. if pc_sessionId e = pc_sessionId (cl_effect r)
           then \<lparr>pc_sessionId = pc_sessionId e,
             pc_mids = filter (\<lambda>mid. mid \<notin> set confirmed) (pc_mids e)\<rparr>
           else e) entries))"

definition reconcileMediaCloseResults ::
    "pending_cleanup list \<Rightarrow> close_result list \<Rightarrow> pending_cleanup list" where
  "reconcileMediaCloseResults entries results = fold reconcile_one results entries"

text \<open>The result, and the effect handed off when some ids stay unresolved.\<close>

definition compensateUnacceptedAgentMedia ::
    "(close_effect \<Rightarrow> bool) \<Rightarrow> close_effect \<Rightarrow> close_result \<times> close_effect option" where
  "compensateUnacceptedAgentMedia closes effect =
     (let result = executeMediaCloseEffect closes effect;
          unresolved = filter (\<lambda>mid. mid \<notin> set (confirmedMidsForEffect result))
            (pc_mids (cl_effect result)) in
      (result, if 0 < length unresolved
        then Some \<lparr>pc_sessionId = pc_sessionId (cl_effect result), pc_mids = unresolved\<rparr> else None))"

text \<open>
  \<open>attemptCleanupNow\<close> of RoomSession: the effects are a snapshot of \<open>entries\<close>; \<open>fresh\<close> is the
  queue of the Room reloaded after the calls. \<open>None\<close>: nothing is saved.
\<close>

definition attemptCleanupNow :: "(close_effect \<Rightarrow> bool) \<Rightarrow> pending_cleanup list \<Rightarrow>
    pending_cleanup list \<Rightarrow> pending_cleanup list option" where
  "attemptCleanupNow closes entries fresh =
     (let effects = snapshotMediaCloseEffects entries in
      if length effects = 0 then None
      else (let results = executeMediaCloseEffects closes effects in
        if \<not> list_ex (\<lambda>r. 0 < length (cl_confirmedMids r)) results then None
        else Some (reconcileMediaCloseResults fresh results)))"

subsection \<open>Which ids are waiting to be closed\<close>

definition queued :: "pending_cleanup list \<Rightarrow> jstr \<Rightarrow> jstr \<Rightarrow> bool" where
  "queued q s x \<longleftrightarrow> list_ex (\<lambda>e. pc_sessionId e = s \<and> x \<in> set (pc_mids e)) q"

lemma queued_iff: "queued q s x \<longleftrightarrow> (\<exists>e \<in> set q. pc_sessionId e = s \<and> x \<in> set (pc_mids e))"
  by (simp add: queued_def list_ex_iff)

lemma queued_simps [simp]: "\<not> queued [] s x"
  "queued (e # q) s x \<longleftrightarrow> pc_sessionId e = s \<and> x \<in> set (pc_mids e) \<or> queued q s x"
  "queued (q @ q') s x \<longleftrightarrow> queued q s x \<or> queued q' s x"
  by (simp_all add: queued_def)

lemma queued_merge: "list_ex (\<lambda>e. pc_sessionId e = s) q \<Longrightarrow>
    queued (merge_cleanup q s mids) s' x \<longleftrightarrow> queued q s' x \<or> s' = s \<and> x \<in> set mids"
  by (induction q s mids rule: merge_cleanup.induct) auto

lemma queued_queue: "queued (queuePendingCleanup q s mids) s' x \<longleftrightarrow>
    queued q s' x \<or> s' = s \<and> x \<in> set mids"
  by (auto simp: queuePendingCleanup_def queued_merge)

lemma queued_reconcile_one: "queued (reconcile_one r q) s x \<longleftrightarrow>
    queued q s x \<and> \<not> (pc_sessionId (cl_effect r) = s \<and> x \<in> set (confirmedMidsForEffect r))"
proof (cases "confirmedMidsForEffect r = []")
  case False
  then show ?thesis by (induction q) (auto simp: reconcile_one_def Let_def filter_empty_conv)
qed (simp add: reconcile_one_def Let_def)

lemma queued_reconcile: "queued (reconcileMediaCloseResults q rs) s x \<longleftrightarrow> queued q s x \<and>
    (\<forall>r \<in> set rs. \<not> (pc_sessionId (cl_effect r) = s \<and> x \<in> set (confirmedMidsForEffect r)))"
  by (induction rs arbitrary: q) (auto simp: reconcileMediaCloseResults_def queued_reconcile_one)

lemma confirmed_execute: "set (confirmedMidsForEffect (executeMediaCloseEffect closes e)) =
    (if closes e then set (pc_mids e) else {})"
  by (auto simp: confirmedMidsForEffect_def executeMediaCloseEffect_def)

text \<open>
  C7: a cleanup round forgets exactly the ids the provider confirmed: whatever the queue
  became while the calls were in flight, an id leaves it only if it was in the snapshot, under
  the same session, and the close call of its entry succeeded.
\<close>

theorem cleanup_round_exact:
  assumes "attemptCleanupNow closes entries fresh = Some q"
  shows "queued q s x \<longleftrightarrow> queued fresh s x \<and>
    \<not> (\<exists>e \<in> set entries. closes e \<and> pc_sessionId e = s \<and> x \<in> set (pc_mids e))"
proof -
  have "q = reconcileMediaCloseResults fresh
      (executeMediaCloseEffects closes (snapshotMediaCloseEffects entries))"
    using assms by (auto simp: attemptCleanupNow_def Let_def split: if_splits)
  then show ?thesis
    by (force simp: queued_reconcile executeMediaCloseEffects_def snapshotMediaCloseEffects_def
        confirmed_execute executeMediaCloseEffect_def [THEN arg_cong [where f = cl_effect]])
qed

definition demo_entry :: "string \<Rightarrow> string list \<Rightarrow> pending_cleanup" where
  "demo_entry s mids = \<lparr>pc_sessionId = lit s, pc_mids = map lit mids\<rparr>"

theorem cleanup_round_exact_witness:
  "\<not> queued [demo_entry ''s1'' [''m9''], demo_entry ''s2'' [''m2'']] (lit ''s1'') (lit ''m1'')"
  by (subst cleanup_round_exact [where closes = "\<lambda>e. pc_sessionId e = lit ''s1''"
        and entries = "[demo_entry ''s1'' [''m1''], demo_entry ''s2'' [''m2'']]"
        and fresh = "[demo_entry ''s1'' [''m1'', ''m9''], demo_entry ''s2'' [''m2'']]"])
    (simp_all add: demo_entry_def attemptCleanupNow_def snapshotMediaCloseEffects_def Let_def
      executeMediaCloseEffects_def executeMediaCloseEffect_def reconcileMediaCloseResults_def
      reconcile_one_def confirmedMidsForEffect_def dedupe_def set_add_def)

subsection \<open>Staging moves the tracked ids\<close>

definition live_in :: "media_state \<Rightarrow> jstr set" where
  "live_in m = set (case m_agentSubscribedMids m of Some mids \<Rightarrow> mids | None \<Rightarrow> [])"

definition live_out :: "media_state \<Rightarrow> jstr set" where
  "live_out m = {x. m_agentPublishedMid m = Some x \<and> x \<noteq> []}"

lemma revoked_sets: "set (revoked_subscribed d m) = (if d = Published then {} else live_in m)"
  "set_option (revoked_published d m) = (if d = Subscribed then {} else live_out m)"
  by (auto simp: revoked_subscribed_def revoked_published_def live_in_def live_out_def
      truthy_str_def split: option.splits if_splits)

lemma set_staged_mids: "set (staged_mids d m) =
    (if d = Published then {} else live_in m) \<union> (if d = Subscribed then {} else live_out m)"
proof -
  have "set (staged_mids d m) = set (revoked_subscribed d m) \<union> set_option (revoked_published d m)"
    by (auto simp: staged_mids_def Let_def split: option.splits)
  then show ?thesis by (simp add: revoked_sets)
qed

lemma nothing_staged: "revoked_subscribed d m = [] \<and> revoked_published d m = None \<longleftrightarrow> staged_mids d m = []"
  by (auto simp: staged_mids_def Let_def split: option.splits)

lemma live_after_drop [simp]:
  "live_in (drop_subscribed d m) = (if d = Published then live_in m else {})"
  "live_out (drop_subscribed d m) = live_out m"
  "live_in (drop_published d m) = live_in m"
  "live_out (drop_published d m) = (if d = Subscribed then live_out m else {})"
  "m_sessionId (drop_published d (drop_subscribed d m)) = m_sessionId m"
  by (simp_all add: live_in_def live_out_def drop_subscribed_def drop_published_def)

lemma stage_agent:
  assumes "p_kind a = Agent" and "p_media a = Some m"
  shows "stageAgentMediaRevocation (Some a) q d = (if staged_mids d m = [] then (Some a, q)
    else (Some (a\<lparr>p_media := Some (drop_published d (drop_subscribed d m))\<rparr>),
      queuePendingCleanup q (m_sessionId m) (staged_mids d m)))"
  using assms by (simp add: stageAgentMediaRevocation_def nothing_staged del: de_Morgan_conj)

lemma stage_media:
  assumes "p_kind a = Agent" and "p_media a = Some m"
  shows "\<exists>m'. fst (stageAgentMediaRevocation (Some a) q d) = Some (a\<lparr>p_media := Some m'\<rparr>) \<and>
      m_sessionId m' = m_sessionId m \<and>
      live_in m' = (if d = Published then live_in m else {}) \<and>
      live_out m' = (if d = Subscribed then live_out m else {})"
proof (cases "staged_mids d m = []")
  case True
  then have none: "(if d = Published then {} else live_in m) \<union> (if d = Subscribed then {} else live_out m) = {}"
    using set_staged_mids [of d m] by simp
  have same: "a\<lparr>p_media := Some m\<rparr> = a" using assms(2) by simp
  show ?thesis using none True
    by (intro exI [of _ m]) (cases d; simp add: stage_agent [OF assms] same)
next
  case False
  then show ?thesis
    by (intro exI [of _ "drop_published d (drop_subscribed d m)"]) (simp add: stage_agent [OF assms])
qed

lemma stage_queue:
  assumes "p_kind a = Agent" and "p_media a = Some m"
  shows "queued (snd (stageAgentMediaRevocation (Some a) q d)) s x \<longleftrightarrow> queued q s x \<or>
      s = m_sessionId m \<and> x \<in> set (staged_mids d m)"
  by (simp add: stage_agent [OF assms] queued_queue)

text \<open>
  Revoking a direction loses no media id and touches nothing else: every id the Agent
  tracked in that direction is queued under its session, the Agent no longer tracks it, the
  other direction is left alone, and the queue gains nothing but those ids.
\<close>

theorem revocation_moves_media:
  assumes "p_kind a = Agent" and "p_media a = Some m"
  shows "\<exists>m'. fst (stageAgentMediaRevocation (Some a) q d) = Some (a\<lparr>p_media := Some m'\<rparr>) \<and>
      m_sessionId m' = m_sessionId m \<and>
      live_in m' = (if d = Published then live_in m else {}) \<and>
      live_out m' = (if d = Subscribed then live_out m else {}) \<and>
      (\<forall>s x. queued (snd (stageAgentMediaRevocation (Some a) q d)) s x \<longleftrightarrow> queued q s x \<or>
        s = m_sessionId m \<and> (x \<in> live_in m - live_in m' \<or> x \<in> live_out m - live_out m'))"
proof -
  obtain m' where "fst (stageAgentMediaRevocation (Some a) q d) = Some (a\<lparr>p_media := Some m'\<rparr>)"
      "m_sessionId m' = m_sessionId m" "live_in m' = (if d = Published then live_in m else {})"
      "live_out m' = (if d = Subscribed then live_out m else {})"
    using stage_media [OF assms] by blast
  then show ?thesis
    by (intro exI [of _ m']) (auto simp: stage_queue [OF assms] set_staged_mids)
qed

definition demo_media :: media_state where
  "demo_media = \<lparr>m_sessionId = lit ''s1'', m_muted = False, m_fileChannelReady = True,
     m_appDataChannelReady = None, m_tracks = [\<lparr>mt_trackName = lit ''v'', mt_kind = Audio, mt_mid = None\<rparr>],
     m_agentSubscribedMids = Some [lit ''m1'', lit ''m2''], m_agentPublishedMid = Some (lit ''m3''),
     m_agentPublishedTrackName = None, m_agentVoiceReady = Some True\<rparr>"

theorem revocation_moves_media_witness:
  "\<exists>m'. fst (stageAgentMediaRevocation
        (Some ((demo_participant ''bot'' Agent True)\<lparr>p_media := Some demo_media\<rparr>)) [] Subscribed) =
      Some ((demo_participant ''bot'' Agent True)\<lparr>p_media := Some m'\<rparr>) \<and> live_out m' = {lit ''m3''}"
proof -
  let ?a = "(demo_participant ''bot'' Agent True)\<lparr>p_media := Some demo_media\<rparr>"
  have out: "live_out demo_media = {lit ''m3''}" by (auto simp: live_out_def demo_media_def)
  have "p_kind ?a = Agent" "p_media ?a = Some demo_media" by simp_all
  from revocation_moves_media [OF this, of "[]" Subscribed] out show ?thesis by auto
qed

end
