(* ===== verification/Media_Grants.thy ===== *)
theory Media_Grants
  imports Runtime_Host Media_Cleanup
begin

text \<open>
  The two independent media grants of an Agent: app/src/do/meetingNotesAuth.ts,
  mediaGrantTransitions.ts and residentMediaState.ts. A transition returns the next grants and
  the revocations it asks for; Media_Cleanup stages them.

  A lookup of a participant by an inherited property name finds a value whose \<open>kind\<close> is
  \<open>undefined\<close> and takes the branch of an absent participant. Reading \<open>speech.tts\<close> of an
  inherited host value raises, so an operation that reads it may return \<open>Inl TypeError\<close>.
\<close>

subsection \<open>Grants\<close>

definition NO_MEETING_NOTES :: meeting_notes where
  "NO_MEETING_NOTES = \<lparr>mn_active = False, mn_agent = None, mn_startedAt = None\<rparr>"

definition isAgentAuthorizedForMedia :: "meeting_notes \<Rightarrow> jstr \<Rightarrow> bool" where
  "isAgentAuthorizedForMedia mn i \<longleftrightarrow> mn_active mn \<and> mn_agent mn = Some i"

definition clearGrantIfParticipantDeparting :: "meeting_notes \<Rightarrow> jstr \<Rightarrow> meeting_notes" where
  "clearGrantIfParticipantDeparting mn i = (if mn_agent mn \<noteq> Some i then mn else NO_MEETING_NOTES)"

definition startMeetingNotes :: "jstr \<Rightarrow> int \<Rightarrow> meeting_notes" where
  "startMeetingNotes i now = \<lparr>mn_active = True, mn_agent = Some i, mn_startedAt = Some (jint now)\<rparr>"

definition isAgentAuthorizedForVoice :: "agent_voice \<Rightarrow> jstr \<Rightarrow> bool" where
  "isAgentAuthorizedForVoice av i = (case dget av i of Some g \<Rightarrow> vg_enabled g | None \<Rightarrow> False)"

definition isAgentAuthorizedForSharedMedia ::
    "meeting_notes \<Rightarrow> agent_voice \<Rightarrow> jstr \<Rightarrow> bool \<Rightarrow> bool" where
  "isAgentAuthorizedForSharedMedia mn av i liveTranscriptAuthorized \<longleftrightarrow>
     isAgentAuthorizedForMedia mn i \<or> isAgentAuthorizedForVoice av i \<or> liveTranscriptAuthorized"

definition known_purposes :: "string list" where
  "known_purposes = [''meeting-notes'', ''live-transcript'', ''voice-reply'', ''agent-transport'',
     ''participant-reliable'']"

definition resolveAgentPurposePermission ::
    "js \<Rightarrow> bool \<Rightarrow> bool \<Rightarrow> bool \<Rightarrow> string option" where
  "resolveAgentPurposePermission purpose wantsLocalPublish wantsRemoteSubscribe involvesVideo =
     (if involvesVideo then Some ''agent_video_forbidden''
      else if \<not> list_ex (\<lambda>p. purpose = JStr (lit p)) known_purposes
      then Some ''agent_media_purpose_required''
      else if wantsLocalPublish \<and> purpose \<noteq> JStr (lit ''voice-reply'')
      then Some ''agent_media_direction_forbidden''
      else if wantsRemoteSubscribe \<and> purpose \<noteq> JStr (lit ''meeting-notes'')
         \<and> purpose \<noteq> JStr (lit ''live-transcript'')
      then Some ''agent_media_direction_forbidden'' else None)"

definition agentMediaPermissions :: "meeting_notes \<Rightarrow> agent_voice \<Rightarrow> jstr \<Rightarrow> media_permissions" where
  "agentMediaPermissions mn av i =
     \<lparr>mp_canSubscribeHumanAudio = isAgentAuthorizedForMedia mn i,
      mp_canPublishVoice = isAgentAuthorizedForVoice av i\<rparr>"

subsection \<open>Loading stored grants\<close>

text \<open>A stored value read at the type \<open>MeetingNotesState\<close>; a non-string agent id is no id.\<close>

definition meeting_notes_of :: "js \<Rightarrow> meeting_notes" where
  "meeting_notes_of v = \<lparr>mn_active = (js_get v ''active'' = JBool True),
     mn_agent = js_str (js_get v ''agentParticipantId''),
     mn_startedAt = (case js_get v ''startedAt'' of JNum n \<Rightarrow> Some n | _ \<Rightarrow> None)\<rparr>"

definition isMeetingNotesState :: "js \<Rightarrow> bool" where
  "isMeetingNotesState v \<longleftrightarrow> is_objectish v \<and> (case js_get v ''active'' of
     JBool active \<Rightarrow> \<not> active \<or>
       ((case js_get v ''agentParticipantId'' of JStr s \<Rightarrow> 0 < length s | _ \<Rightarrow> False) \<and>
        (case js_get v ''startedAt'' of JNum n \<Rightarrow> True | _ \<Rightarrow> False))
   | _ \<Rightarrow> False)"

definition normalizeMeetingNotesGrant :: "participants \<Rightarrow> js \<Rightarrow> meeting_notes \<times> bool" where
  "normalizeMeetingNotesGrant ps v =
     (if \<not> isMeetingNotesState v then (NO_MEETING_NOTES, True)
      else (let mn = meeting_notes_of v in
        if mn_active mn \<and> (case truthy_str (mn_agent mn) of
             None \<Rightarrow> True | Some i \<Rightarrow> \<not> agent_in ps i)
        then (NO_MEETING_NOTES, True) else (mn, False)))"

text \<open>\<open>host?.speech.tts === true\<close>.\<close>

definition host_tts :: "host_read \<Rightarrow> js_error + bool" where
  "host_tts h = (case h of Host_absent \<Rightarrow> Inr False | Host_own r \<Rightarrow> Inr (rh_tts r)
     | Host_inherited \<Rightarrow> Inl TypeError)"

definition positive_num :: "jnum \<Rightarrow> bool" where
  "positive_num n = (case n of Fin q \<Rightarrow> 0 < q | PosInf \<Rightarrow> True | _ \<Rightarrow> False)"

text \<open>The part of \<open>valid\<close> the stored grant itself decides.\<close>

definition stored_grant :: "js \<Rightarrow> voice_grant option" where
  "stored_grant raw = (case (js_get raw ''enabled'', js_get raw ''enabledAt'') of
     (JBool True, JNum n) \<Rightarrow>
       if is_finite_num n \<and> positive_num n then Some \<lparr>vg_enabled = True, vg_enabledAt = n\<rparr> else None
   | _ \<Rightarrow> None)"

fun voice_entries :: "participants \<Rightarrow> runtime_hosts \<Rightarrow> (jstr \<times> js) list \<Rightarrow>
    agent_voice \<Rightarrow> bool \<Rightarrow> js_error + agent_voice \<times> bool" where
  "voice_entries ps hosts [] av changed = Inr (av, changed)"
| "voice_entries ps hosts ((i, raw) # rest) av changed = (case dget ps i of
     None \<Rightarrow> voice_entries ps hosts rest av True
   | Some p \<Rightarrow>
       if p_kind p = Agent \<and> p_connected p then
         (case host_tts (runtimeHostForParticipant (Some hosts) p) of
            Inl e \<Rightarrow> Inl e
          | Inr tts \<Rightarrow> (case (if tts then stored_grant raw else None) of
              None \<Rightarrow> voice_entries ps hosts rest av True
            | Some g \<Rightarrow> voice_entries ps hosts rest (dput i g av) changed))
       else voice_entries ps hosts rest av True)"

definition normalizeAgentVoiceGrants ::
    "participants \<Rightarrow> runtime_hosts \<Rightarrow> js \<Rightarrow> js_error + agent_voice \<times> bool" where
  "normalizeAgentVoiceGrants ps hosts v = (case v of
     JObj entries \<Rightarrow> voice_entries ps hosts entries [] False
   | _ \<Rightarrow> Inr ([], True))"

definition normalizeMediaGrants ::
    "js \<Rightarrow> js \<Rightarrow> participants \<Rightarrow> runtime_hosts \<Rightarrow> js_error + meeting_notes \<times> agent_voice \<times> bool" where
  "normalizeMediaGrants notes voice ps hosts =
     (case normalizeMeetingNotesGrant ps notes of (mn, mn_changed) \<Rightarrow>
       map_sum id (\<lambda>(av, av_changed). (mn, av, mn_changed \<or> av_changed))
         (normalizeAgentVoiceGrants ps hosts voice))"

text \<open>Storage hygiene of an Agent's visible voice; stored \<open>tracks\<close> are an array.\<close>

definition normalizeAgentVoiceParticipantMedia ::
    "media_state option \<Rightarrow> agent_voice \<Rightarrow> jstr \<Rightarrow> media_state option \<times> bool" where
  "normalizeAgentVoiceParticipantMedia media av i = (case media of
     None \<Rightarrow> (None, False)
   | Some m \<Rightarrow>
      (let publishedMid = truthy_str (m_agentPublishedMid m);
           pendingTrackName = truthy_str (m_agentPublishedTrackName m);
           authorized = isAgentAuthorizedForVoice av i \<and> publishedMid \<noteq> None \<and>
             (case m_tracks m of [t] \<Rightarrow> mt_kind t = Audio | [] \<Rightarrow> pendingTrackName \<noteq> None | _ \<Rightarrow> False) in
       if authorized then (Some m, False)
       else if m_tracks m = [] \<and> publishedMid = None \<and> pendingTrackName = None then (Some m, False)
       else (Some (m\<lparr>m_tracks := [],
           m_agentPublishedMid := (if publishedMid \<noteq> None then None else m_agentPublishedMid m),
           m_agentPublishedTrackName :=
             (if pendingTrackName \<noteq> None then None else m_agentPublishedTrackName m),
           m_agentVoiceReady := None\<rparr>), True)))"

subsection \<open>Transitions\<close>

record revocation =
  rv_participantId :: jstr
  rv_direction :: direction

text \<open>\<open>agentVoice[id]\<close> as a truth value: an inherited property is truthy.\<close>

definition voice_truthy :: "agent_voice \<Rightarrow> jstr \<Rightarrow> bool" where
  "voice_truthy av i \<longleftrightarrow> dget av i \<noteq> None \<or> i \<in> set proto_keys"

datatype voice_error = Voice_unavailable | Voice_cleanup_backlog | Voice_raised js_error

definition transitionAgentVoiceSet :: "agent_voice \<Rightarrow> participants \<Rightarrow> runtime_hosts option \<Rightarrow>
    pending_cleanup list \<Rightarrow> bool \<Rightarrow> jstr \<Rightarrow> bool \<Rightarrow> int \<Rightarrow>
    voice_error + agent_voice \<times> revocation list" where
  "transitionAgentVoiceSet av ps hosts queue mediaEnabled agentId enabled now =
     (if enabled then
        (case dget ps agentId of
           None \<Rightarrow> Inl Voice_unavailable
         | Some agent \<Rightarrow>
             if \<not> mediaEnabled \<or> p_kind agent \<noteq> Agent \<or> \<not> p_connected agent then Inl Voice_unavailable
             else (case host_tts (runtimeHostForParticipant hosts agent) of
               Inl e \<Rightarrow> Inl (Voice_raised e)
             | Inr tts \<Rightarrow>
                 if \<not> tts then Inl Voice_unavailable
                 else if isAgentAuthorizedForVoice av (p_id agent) then Inr (av, [])
                 else if \<not> pendingCleanupHasCapacity queue
                     (case p_media agent of Some m \<Rightarrow> m_sessionId m | None \<Rightarrow> []) 1
                 then Inl Voice_cleanup_backlog
                 else Inr (dput (p_id agent) \<lparr>vg_enabled = True, vg_enabledAt = jint now\<rparr> av, [])))
      else if \<not> voice_truthy av agentId then Inr (av, [])
      else Inr (ddel agentId av, [\<lparr>rv_participantId = agentId, rv_direction = Published\<rparr>]))"

definition revoke_if_granted :: "agent_voice \<Rightarrow> jstr \<Rightarrow> jstr list \<Rightarrow> jstr list" where
  "revoke_if_granted av i ids = (if voice_truthy av i then set_add i ids else ids)"

definition transitionAgentVoiceForRuntimeHostUpdate ::
    "agent_voice \<Rightarrow> participant list \<Rightarrow> participant \<Rightarrow> runtime_host \<Rightarrow> jstr option \<Rightarrow> host_read \<Rightarrow>
     js_error + agent_voice \<times> revocation list" where
  "transitionAgentVoiceForRuntimeHostUpdate av ps p currentHost previousHostId previousProjection =
     (let moved = (case truthy_str previousHostId of
            Some i \<Rightarrow> i \<noteq> rh_runtimeHostId currentHost | None \<Rightarrow> False);
          ids0 = (if moved then revoke_if_granted av (p_id p) [] else []) in
      (case host_tts previousProjection of
         Inl e \<Rightarrow> Inl e
       | Inr tts \<Rightarrow>
          (let ids = (if tts \<and> \<not> rh_tts currentHost
               then fold (revoke_if_granted av)
                 (runtimeHostParticipantIds ps (rh_runtimeHostId currentHost) (Some (p_id p))) ids0
               else ids0) in
           Inr (fold ddel ids av,
             map (\<lambda>i. \<lparr>rv_participantId = i, rv_direction = Published\<rparr>) ids))))"

datatype notes_error = Notes_media_disabled | Notes_agent_not_in_room | Notes_cleanup_backlog

text \<open>The last component of a success is \<open>idempotent\<close>.\<close>

definition transitionMeetingNotesStart :: "meeting_notes \<Rightarrow> participants \<Rightarrow> pending_cleanup list \<Rightarrow>
    bool \<Rightarrow> jstr \<Rightarrow> int \<Rightarrow> notes_error + meeting_notes \<times> revocation list \<times> bool" where
  "transitionMeetingNotesStart mn ps queue mediaEnabled agentId now =
     (if \<not> mediaEnabled then Inl Notes_media_disabled
      else (case dget ps agentId of
        None \<Rightarrow> Inl Notes_agent_not_in_room
      | Some agent \<Rightarrow>
          if p_kind agent \<noteq> Agent \<or> \<not> p_connected agent then Inl Notes_agent_not_in_room
          else if isAgentAuthorizedForMedia mn (p_id agent) then Inr (mn, [], True)
          else if MAX_PENDING_CLEANUP_ENTRIES \<le> length queue then Inl Notes_cleanup_backlog
          else Inr (startMeetingNotes (p_id agent) now,
            (case truthy_str (mn_agent mn) of
               Some i \<Rightarrow> if i \<noteq> p_id agent
                 then [\<lparr>rv_participantId = i, rv_direction = Subscribed\<rparr>] else []
             | None \<Rightarrow> []), False)))"

definition transitionMeetingNotesStop :: "meeting_notes \<Rightarrow> meeting_notes \<times> revocation list" where
  "transitionMeetingNotesStop mn = (NO_MEETING_NOTES,
     (case truthy_str (mn_agent mn) of
        Some i \<Rightarrow> [\<lparr>rv_participantId = i, rv_direction = Subscribed\<rparr>] | None \<Rightarrow> []))"

definition transitionMediaGrantsForParticipantDeparture ::
    "meeting_notes \<Rightarrow> agent_voice \<Rightarrow> participant \<Rightarrow> meeting_notes \<times> agent_voice \<times> revocation list" where
  "transitionMediaGrantsForParticipantDeparture mn av p =
     (clearGrantIfParticipantDeparting mn (p_id p),
      (if voice_truthy av (p_id p) then ddel (p_id p) av else av),
      (if p_kind p = Agent then [\<lparr>rv_participantId = p_id p, rv_direction = Both\<rparr>] else []))"

subsection \<open>What a resident Agent is told\<close>

record resident_media =
  rs_notes_active :: bool
  rs_notes_startedAt :: "jnum option"
  rs_voiceEnabledAt :: "jnum option"
  rs_mediaAvailable :: bool
  rs_transcript :: "(jstr \<times> int) option"

definition projectResidentMediaState ::
    "jstr \<Rightarrow> meeting_notes \<Rightarrow> agent_voice \<Rightarrow> live_transcript \<Rightarrow> bool \<Rightarrow> resident_media" where
  "projectResidentMediaState i mn av lt mediaAvailable =
     (let self = mn_active mn \<and> mn_agent mn = Some i in
      \<lparr>rs_notes_active = self, rs_notes_startedAt = (if self then mn_startedAt mn else None),
       rs_voiceEnabledAt = (case dget av i of
          Some g \<Rightarrow> if vg_enabled g \<and> positive_num (vg_enabledAt g) then Some (vg_enabledAt g) else None
        | None \<Rightarrow> None),
       rs_mediaAvailable = mediaAvailable,
       rs_transcript = (case lt of LT_active producer epoch startedAt \<Rightarrow> Some (producer, epoch)
         | LT_inactive \<Rightarrow> None)\<rparr>)"

subsection \<open>What loading leaves\<close>

definition notes_js :: "meeting_notes \<Rightarrow> js" where
  "notes_js mn = JObj ([(lit ''active'', JBool (mn_active mn))] @
     (case mn_agent mn of Some i \<Rightarrow> [(lit ''agentParticipantId'', JStr i)] | None \<Rightarrow> []) @
     (case mn_startedAt mn of Some n \<Rightarrow> [(lit ''startedAt'', JNum n)] | None \<Rightarrow> []))"

definition notes_ok :: "participants \<Rightarrow> meeting_notes \<Rightarrow> bool" where
  "notes_ok ps mn \<longleftrightarrow> mn_active mn \<longrightarrow>
     (case mn_agent mn of Some i \<Rightarrow> i \<noteq> [] \<and> agent_in ps i | None \<Rightarrow> False) \<and> mn_startedAt mn \<noteq> None"

lemma notes_js_round [simp]: "meeting_notes_of (notes_js mn) = mn"
  by (cases mn; cases "mn_agent mn"; cases "mn_startedAt mn")
    (auto simp: meeting_notes_of_def notes_js_def js_str_def)

lemma notes_js_state: "notes_ok ps mn \<Longrightarrow> isMeetingNotesState (notes_js mn)"
  by (cases "mn_agent mn"; cases "mn_startedAt mn")
    (auto simp: isMeetingNotesState_def notes_js_def is_objectish_def notes_ok_def)

interpretation stored_notes: sanitizer "normalizeMeetingNotesGrant ps" notes_js "notes_ok ps" for ps
proof unfold_locales
  fix v
  show "notes_ok ps (fst (normalizeMeetingNotesGrant ps v))"
    by (auto simp: normalizeMeetingNotesGrant_def Let_def notes_ok_def NO_MEETING_NOTES_def
        isMeetingNotesState_def meeting_notes_of_def truthy_str_def js_str_def
        split: option.splits js.splits if_splits)
next
  fix mn
  assume "notes_ok ps mn"
  then show "normalizeMeetingNotesGrant ps (notes_js mn) = (mn, False)"
    by (auto simp: normalizeMeetingNotesGrant_def Let_def notes_js_state notes_ok_def truthy_str_def
        split: option.splits)
qed

definition grant_js :: "voice_grant \<Rightarrow> js" where
  "grant_js g = JObj [(lit ''enabled'', JBool (vg_enabled g)), (lit ''enabledAt'', JNum (vg_enabledAt g))]"

definition voice_js :: "agent_voice \<Rightarrow> js" where
  "voice_js av = JObj (map (\<lambda>(i, g). (i, grant_js g)) av)"

definition grant_ok :: "participants \<Rightarrow> runtime_hosts \<Rightarrow> jstr \<times> voice_grant \<Rightarrow> bool" where
  "grant_ok ps hosts e \<longleftrightarrow> connected_agent ps (fst e) \<and>
     host_tts (runtimeHostForParticipant (Some hosts) (the (dget ps (fst e)))) = Inr True \<and>
     vg_enabled (snd e) \<and> is_finite_num (vg_enabledAt (snd e)) \<and> positive_num (vg_enabledAt (snd e))"

definition voice_ok :: "participants \<Rightarrow> runtime_hosts \<Rightarrow> agent_voice \<Rightarrow> bool" where
  "voice_ok ps hosts av \<longleftrightarrow> wf_dict av \<and> list_all (grant_ok ps hosts) av"

lemma stored_grant_ok: "stored_grant raw = Some g \<Longrightarrow>
    vg_enabled g \<and> is_finite_num (vg_enabledAt g) \<and> positive_num (vg_enabledAt g)"
  by (auto simp: stored_grant_def split: js.splits bool.splits if_splits)

lemma stored_grant_round: "vg_enabled g \<Longrightarrow> is_finite_num (vg_enabledAt g) \<Longrightarrow>
    positive_num (vg_enabledAt g) \<Longrightarrow> stored_grant (grant_js g) = Some g"
  by (simp add: stored_grant_def grant_js_def)

lemma voice_entries_ok:
  "voice_entries ps hosts es av c = Inr (av', c') \<Longrightarrow> voice_ok ps hosts av \<Longrightarrow> voice_ok ps hosts av'"
proof (induction ps hosts es av c rule: voice_entries.induct)
  case (2 ps hosts i raw rest av c)
  show ?case
  proof (cases "dget ps i")
    case (Some p)
    show ?thesis
    proof (cases "p_kind p = Agent \<and> p_connected p")
      case True
      with 2 Some obtain tts where tts: "host_tts (runtimeHostForParticipant (Some hosts) p) = Inr tts"
        by (auto split: sum.splits)
      show ?thesis
      proof (cases "if tts then stored_grant raw else None")
        case (Some g)
        then have "grant_ok ps hosts (i, g)"
          using \<open>dget ps i = Some p\<close> True tts stored_grant_ok [of raw g]
          by (auto simp: grant_ok_def connected_agent_def split: if_splits)
        then have "voice_ok ps hosts (dput i g av)"
          using 2(6) by (auto simp: voice_ok_def intro: wf_dput list_all_dput)
        with 2 \<open>dget ps i = Some p\<close> True tts Some show ?thesis by simp
      qed (use 2 Some True tts in simp)
    next
      case False
      then have "(p_kind p = Agent \<and> p_connected p) = False" by simp
      with 2 Some show ?thesis by (simp del: de_Morgan_conj)
    qed
  qed (use 2 in simp)
qed simp

lemma voice_entries_round:
  "wf_dict (acc @ av) \<Longrightarrow> list_all (grant_ok ps hosts) av \<Longrightarrow>
   voice_entries ps hosts (map (\<lambda>(i, g). (i, grant_js g)) av) acc False = Inr (acc @ av, False)"
proof (induction av arbitrary: acc)
  case (Cons x av)
  obtain i g where x: "x = (i, g)" by (cases x)
  with Cons.prems have ok: "grant_ok ps hosts (i, g)" by simp
  then obtain p where p: "dget ps i = Some p" "p_kind p = Agent" "p_connected p"
      "host_tts (runtimeHostForParticipant (Some hosts) p) = Inr True"
    by (auto simp: grant_ok_def connected_agent_def split: option.splits)
  have "dput i g acc = acc @ [(i, g)]"
    using Cons.prems x by (intro dput_fresh) (auto simp: wf_dict_def)
  moreover have "voice_entries ps hosts (map (\<lambda>(i, g). (i, grant_js g)) av) (acc @ [(i, g)]) False = Inr ((acc @ [(i, g)]) @ av, False)"
    using Cons.prems x by (intro Cons.IH) simp_all
  ultimately show ?case
    using ok p x by (simp add: grant_ok_def stored_grant_round [of g, simplified])
qed simp

text \<open>
  C8: the grants of a loaded Room are sound and stable: an active Meeting Notes grant names an
  Agent of the Room, every voice grant belongs to a connected Agent whose host has TTS ready,
  and loading the stored form of the result again changes nothing.
\<close>

theorem loaded_grants_sound:
  assumes "normalizeMediaGrants rawNotes rawVoice ps hosts = Inr (mn, av, changed)"
  shows "notes_ok ps mn \<and> voice_ok ps hosts av \<and>
    normalizeMediaGrants (notes_js mn) (voice_js av) ps hosts = Inr (mn, av, False)"
proof -
  obtain c where mn: "normalizeMeetingNotesGrant ps rawNotes = (mn, c)"
    using assms by (auto simp: normalizeMediaGrants_def map_sum_def split: prod.splits sum.splits)
  then have mn_ok: "notes_ok ps mn" using stored_notes.repair_ok [of ps rawNotes] by simp
  obtain c' where "normalizeAgentVoiceGrants ps hosts rawVoice = Inr (av, c')"
    using assms by (auto simp: normalizeMediaGrants_def map_sum_def split: prod.splits sum.splits)
  then have av_ok: "voice_ok ps hosts av"
    using voice_entries_ok by (fastforce simp: normalizeAgentVoiceGrants_def voice_ok_def split: js.splits)
  then have "normalizeAgentVoiceGrants ps hosts (voice_js av) = Inr (av, False)"
    using voice_entries_round [of "[]" av] by (simp add: normalizeAgentVoiceGrants_def voice_js_def voice_ok_def)
  with mn_ok av_ok show ?thesis
    by (simp add: normalizeMediaGrants_def stored_notes.repair_fixed)
qed

definition demo_voice_participants :: participants where
  "demo_voice_participants = [(lit ''bot'',
     (demo_participant ''bot'' Agent True)\<lparr>p_runtimeHostId := Some (lit ''host-0001'')\<rparr>)]"

definition demo_voice :: agent_voice where
  "demo_voice = [(lit ''bot'', \<lparr>vg_enabled = True, vg_enabledAt = jint 5\<rparr>)]"

theorem loaded_grants_sound_witness:
  "voice_ok demo_voice_participants [(lit ''host-0001'', demo_host)] demo_voice"
  by (rule loaded_grants_sound [where rawNotes = JNull and mn = NO_MEETING_NOTES and changed = True
          and rawVoice = "JObj [(lit ''ana'', JNull), (lit ''bot'', JObj [(lit ''enabled'', JBool True),
            (lit ''enabledAt'', JNum (jint 5))])]", THEN conjunct2, THEN conjunct1])
    code_simp

subsection \<open>What a transition grants and takes away\<close>

lemma voice_ddel [simp]: "isAgentAuthorizedForVoice (ddel i av) j \<longleftrightarrow>
    isAgentAuthorizedForVoice av j \<and> j \<noteq> i"
  by (simp add: isAgentAuthorizedForVoice_def)

lemma voice_fold_ddel: "isAgentAuthorizedForVoice (fold ddel ids av) j \<longleftrightarrow>
    isAgentAuthorizedForVoice av j \<and> j \<notin> set ids"
  by (induction ids arbitrary: av) auto

lemma voice_truthy_if: "isAgentAuthorizedForVoice av i \<Longrightarrow> voice_truthy av i"
  by (auto simp: isAgentAuthorizedForVoice_def voice_truthy_def split: option.splits)

lemma set_revoke_fold: "set (fold (revoke_if_granted av) is acc) = set acc \<union> {i \<in> set is. voice_truthy av i}"
  by (induction "is" arbitrary: acc) (auto simp: revoke_if_granted_def)

definition host_moved :: "jstr option \<Rightarrow> runtime_host \<Rightarrow> bool" where
  "host_moved previous h \<longleftrightarrow> (case previous of Some i \<Rightarrow> i \<noteq> [] \<and> i \<noteq> rh_runtimeHostId h | None \<Rightarrow> False)"

definition shares_host :: "participant list \<Rightarrow> participant \<Rightarrow> runtime_host \<Rightarrow> jstr \<Rightarrow> bool" where
  "shares_host ps p h i \<longleftrightarrow> (\<exists>q \<in> set ps. p_id q = i \<and> p_kind q = Agent \<and>
     (p_runtimeHostId q = Some (rh_runtimeHostId h) \<or> p_id q = p_id p))"

lemma set_participantIds: "set (runtimeHostParticipantIds ps i (Some j)) =
   {p_id q |q. q \<in> set ps \<and> p_kind q = Agent \<and> (p_runtimeHostId q = Some i \<or> p_id q = j)}"
  by (auto simp: runtimeHostParticipantIds_def)

text \<open>
  After a Runtime Host update an Agent may speak exactly if it could before, it is not the
  Agent that moved to another host, and it does not share a host whose TTS was just lost; each
  Agent that lost its voice has its published media revoked.
\<close>

theorem host_update_revokes:
  assumes "transitionAgentVoiceForRuntimeHostUpdate av ps p h previous (Host_own old) = Inr (av', rs)"
  shows "(isAgentAuthorizedForVoice av' i \<longleftrightarrow> isAgentAuthorizedForVoice av i \<and>
       \<not> (host_moved previous h \<and> i = p_id p) \<and>
       \<not> (rh_tts old \<and> \<not> rh_tts h \<and> shares_host ps p h i)) \<and>
     (isAgentAuthorizedForVoice av i \<and> \<not> isAgentAuthorizedForVoice av' i \<longrightarrow>
       \<lparr>rv_participantId = i, rv_direction = Published\<rparr> \<in> set rs)"
proof -
  let ?ids0 = "if host_moved previous h then revoke_if_granted av (p_id p) [] else []"
  let ?ids = "if rh_tts old \<and> \<not> rh_tts h then fold (revoke_if_granted av)
      (runtimeHostParticipantIds ps (rh_runtimeHostId h) (Some (p_id p))) ?ids0 else ?ids0"
  have moved: "(case truthy_str previous of Some i \<Rightarrow> i \<noteq> rh_runtimeHostId h | None \<Rightarrow> False) =
      host_moved previous h"
    by (auto simp: host_moved_def truthy_str_def split: option.splits)
  from assms have av': "av' = fold ddel ?ids av"
    and rs: "rs = map (\<lambda>i. \<lparr>rv_participantId = i, rv_direction = Published\<rparr>) ?ids"
    by (auto simp: transitionAgentVoiceForRuntimeHostUpdate_def moved host_tts_def Let_def)
  have "j \<in> set ?ids \<longleftrightarrow> voice_truthy av j \<and> (host_moved previous h \<and> j = p_id p \<or>
      rh_tts old \<and> \<not> rh_tts h \<and> shares_host ps p h j)" for j
    by (auto simp: set_revoke_fold set_participantIds shares_host_def revoke_if_granted_def)
  with voice_truthy_if show ?thesis by (auto simp: av' rs voice_fold_ddel)
qed

theorem host_update_revokes_witness:
  "\<not> isAgentAuthorizedForVoice [] (lit ''bot'')"
  by (subst host_update_revokes [where av = demo_voice and ps = "map snd demo_voice_participants"
        and p = "snd (hd demo_voice_participants)" and h = "demo_host\<lparr>rh_tts := False\<rparr>"
        and old = demo_host and previous = None, THEN conjunct1]) code_simp+

text \<open>
  A departure takes both grants of the participant and no grant of anybody else; for an
  Agent it revokes both media directions.
\<close>

theorem departure_clears_grants:
  assumes "transitionMediaGrantsForParticipantDeparture mn av p = (mn', av', rs)"
  shows "\<not> isAgentAuthorizedForSharedMedia mn' av' (p_id p) False \<and>
    (\<forall>j. j \<noteq> p_id p \<longrightarrow>
      (isAgentAuthorizedForMedia mn' j \<longleftrightarrow> isAgentAuthorizedForMedia mn j) \<and>
      (isAgentAuthorizedForVoice av' j \<longleftrightarrow> isAgentAuthorizedForVoice av j)) \<and>
    (p_kind p = Agent \<longrightarrow> rs = [\<lparr>rv_participantId = p_id p, rv_direction = Both\<rparr>])"
proof -
  have "mn' = clearGrantIfParticipantDeparting mn (p_id p)"
    "av' = (if voice_truthy av (p_id p) then ddel (p_id p) av else av)"
    "rs = (if p_kind p = Agent then [\<lparr>rv_participantId = p_id p, rv_direction = Both\<rparr>] else [])"
    using assms by (simp_all add: transitionMediaGrantsForParticipantDeparture_def)
  then show ?thesis
    using voice_truthy_if [of av "p_id p"]
    by (auto simp: isAgentAuthorizedForSharedMedia_def isAgentAuthorizedForMedia_def
        clearGrantIfParticipantDeparting_def NO_MEETING_NOTES_def)
qed

theorem departure_clears_grants_witness:
  "\<not> isAgentAuthorizedForSharedMedia NO_MEETING_NOTES [] (lit ''bot'') False"
  using departure_clears_grants [of "startMeetingNotes (lit ''bot'') 1" demo_voice
      "demo_participant ''bot'' Agent True"]
  by (simp add: transitionMediaGrantsForParticipantDeparture_def clearGrantIfParticipantDeparting_def
      startMeetingNotes_def voice_truthy_def demo_voice_def ddel_def)

text \<open>
  A voice grant is given only to a connected Agent of the Room whose host has TTS ready,
  while media is enabled and the cleanup queue has room; granting again keeps the first
  authorization epoch, and nobody else's voice changes.
\<close>

theorem voice_grant_guarded:
  assumes "transitionAgentVoiceSet av ps hosts queue enabledMedia i True now = Inr (av', rs)"
  shows "enabledMedia \<and> connected_agent ps i \<and> rs = [] \<and>
    (\<exists>p. dget ps i = Some p \<and> host_tts (runtimeHostForParticipant hosts p) = Inr True \<and>
      isAgentAuthorizedForVoice av' (p_id p) \<and>
      (isAgentAuthorizedForVoice av (p_id p) \<longrightarrow> av' = av) \<and>
      (\<forall>j. j \<noteq> p_id p \<longrightarrow> dget av' j = dget av j)) \<and>
    transitionAgentVoiceSet av' ps hosts queue' enabledMedia i True later = Inr (av', [])"
proof -
  from assms obtain p where p: "dget ps i = Some p" "enabledMedia" "p_kind p = Agent" "p_connected p"
      "host_tts (runtimeHostForParticipant hosts p) = Inr True" "rs = []"
    and av': "av' = av \<and> isAgentAuthorizedForVoice av (p_id p) \<or>
      av' = dput (p_id p) \<lparr>vg_enabled = True, vg_enabledAt = jint now\<rparr> av \<and>
      \<not> isAgentAuthorizedForVoice av (p_id p)"
    by (clarsimp simp: transitionAgentVoiceSet_def split: option.splits sum.splits if_split_asm)
  then have "isAgentAuthorizedForVoice av' (p_id p)"
    by (auto simp: isAgentAuthorizedForVoice_def)
  with p av' show ?thesis
    by (auto simp: connected_agent_def transitionAgentVoiceSet_def)
qed

theorem voice_grant_guarded_witness:
  "transitionAgentVoiceSet demo_voice demo_voice_participants (Some [(lit ''host-0001'', demo_host)])
     [] True (lit ''bot'') True 9 = Inr (demo_voice, [])"
  by (rule voice_grant_guarded [where av = "[]" and queue = "[]" and now = 5 and rs = "[]",
        THEN conjunct2, THEN conjunct2, THEN conjunct2, THEN conjunct2]) code_simp

text \<open>
  An update that first registers a Runtime Host under an id that is also a property name
  every object inherits raises an exception, although the id passes the host id check.
\<close>

theorem inherited_host_id_raises:
  assumes "rh_runtimeHostId h \<in> set proto_keys" and "dget hosts (rh_runtimeHostId h) = None"
  shows "transitionAgentVoiceForRuntimeHostUpdate av ps p h
      (hu_previousHostId (updateRuntimeHost (Some hosts) ps i h))
      (hu_previousProjection (updateRuntimeHost (Some hosts) ps i h)) = Inl TypeError"
  using assms
  by (simp add: transitionAgentVoiceForRuntimeHostUpdate_def updateRuntimeHost_def read_host_def
      host_tts_def Let_def)

theorem inherited_host_id_raises_witness:
  "validateRuntimeHost (\<lambda>_. []) (host_js (demo_host\<lparr>rh_runtimeHostId := lit ''constructor''\<rparr>)) =
     Inr (demo_host\<lparr>rh_runtimeHostId := lit ''constructor''\<rparr>) \<and>
   transitionAgentVoiceForRuntimeHostUpdate [] [] (demo_participant ''bot'' Agent True)
     (demo_host\<lparr>rh_runtimeHostId := lit ''constructor''\<rparr>)
     (hu_previousHostId (updateRuntimeHost (Some []) [] [] (demo_host\<lparr>rh_runtimeHostId := lit ''constructor''\<rparr>)))
     (hu_previousProjection (updateRuntimeHost (Some []) [] [] (demo_host\<lparr>rh_runtimeHostId := lit ''constructor''\<rparr>))) =
   Inl TypeError"
proof
  show "validateRuntimeHost (\<lambda>_. []) (host_js (demo_host\<lparr>rh_runtimeHostId := lit ''constructor''\<rparr>)) =
     Inr (demo_host\<lparr>rh_runtimeHostId := lit ''constructor''\<rparr>)" by code_simp
qed (rule inherited_host_id_raises, simp_all add: proto_keys_def)

end
