(* ===== verification/Live_Transcript.thy ===== *)
theory Live_Transcript
  imports Media_Grants
begin

text \<open>
  The committed Live Transcript of a Room (app/src/do/liveTranscript.ts) and the three ways
  RoomSession changes it: a Human starts it, a Human stops it, an Agent on the producing host
  appends a segment. Segments are bounded by number and by the UTF-8 size of their JSON text.
  A stored segment is read at its type; fields a segment does not have are not kept.
\<close>

subsection \<open>Shapes and bounds\<close>

definition MAX_LIVE_TRANSCRIPT_SEGMENTS :: nat where "MAX_LIVE_TRANSCRIPT_SEGMENTS = 500"
definition MAX_LIVE_TRANSCRIPT_STORAGE_BYTES :: nat where
  "MAX_LIVE_TRANSCRIPT_STORAGE_BYTES = 96 * 1024"
definition MAX_LIVE_TRANSCRIPT_SEGMENT_TEXT_CHARS :: nat where
  "MAX_LIVE_TRANSCRIPT_SEGMENT_TEXT_CHARS = 4000"
definition MAX_LIVE_TRANSCRIPT_SEGMENT_ID_LENGTH :: nat where
  "MAX_LIVE_TRANSCRIPT_SEGMENT_ID_LENGTH = 128"
definition MAX_PARTICIPANT_ID_LENGTH :: nat where "MAX_PARTICIPANT_ID_LENGTH = 256"
definition MAX_SPEAKER_LENGTH :: nat where "MAX_SPEAKER_LENGTH = 256"

lemmas transcript_bounds = MAX_LIVE_TRANSCRIPT_SEGMENTS_def MAX_LIVE_TRANSCRIPT_STORAGE_BYTES_def
  MAX_LIVE_TRANSCRIPT_SEGMENT_TEXT_CHARS_def MAX_LIVE_TRANSCRIPT_SEGMENT_ID_LENGTH_def
  MAX_PARTICIPANT_ID_LENGTH_def MAX_SPEAKER_LENGTH_def

text \<open>\<open>isSafePositiveInteger\<close>: the integer when it is one.\<close>

definition safe_positive :: "js \<Rightarrow> int option" where
  "safe_positive v = (case js_safe_int v of Some i \<Rightarrow> if 0 < i then Some i else None | None \<Rightarrow> None)"

definition bounded_string :: "js \<Rightarrow> nat \<Rightarrow> jstr option" where
  "bounded_string v m = (case v of JStr s \<Rightarrow> if 0 < length s \<and> length s \<le> m then Some s else None
     | _ \<Rightarrow> None)"

definition segment_id_of :: "js \<Rightarrow> jstr option" where
  "segment_id_of v = (case bounded_string v MAX_LIVE_TRANSCRIPT_SEGMENT_ID_LENGTH of
     Some s \<Rightarrow> if list_all is_id_unit s then Some s else None | None \<Rightarrow> None)"

definition isValidLiveTranscriptSegmentId :: "js \<Rightarrow> bool" where
  "isValidLiveTranscriptSegmentId v \<longleftrightarrow> segment_id_of v \<noteq> None"

text \<open>\<open>isLiveTranscriptState\<close> and \<open>isLiveTranscriptSegment\<close>, with the value read.\<close>

definition live_transcript_of :: "js \<Rightarrow> live_transcript option" where
  "live_transcript_of v =
     (if \<not> is_record v then None
      else if js_get v ''active'' = JBool False then Some LT_inactive
      else if js_get v ''active'' = JBool True \<and> isValidRuntimeHostId (js_get v ''producerRuntimeHostId'')
      then (case (safe_positive (js_get v ''epoch''), safe_positive (js_get v ''startedAt'')) of
          (Some epoch, Some startedAt) \<Rightarrow>
            Some (LT_active (js_string (js_get v ''producerRuntimeHostId'')) epoch startedAt)
        | _ \<Rightarrow> None)
      else None)"

definition segment_of :: "js \<Rightarrow> transcript_segment option" where
  "segment_of v =
     (if \<not> is_record v then None
      else (case (segment_id_of (js_get v ''segmentId''), safe_positive (js_get v ''epoch''),
          safe_positive (js_get v ''sequence''),
          bounded_string (js_get v ''participantId'') MAX_PARTICIPANT_ID_LENGTH,
          bounded_string (js_get v ''speaker'') MAX_SPEAKER_LENGTH,
          bounded_string (js_get v ''text'') MAX_LIVE_TRANSCRIPT_SEGMENT_TEXT_CHARS,
          safe_positive (js_get v ''createdAt'')) of
        (Some segmentId, Some epoch, Some sequence, Some participantId, Some speaker, Some text,
         Some createdAt) \<Rightarrow> Some \<lparr>ts_segmentId = segmentId, ts_epoch = epoch, ts_sequence = sequence,
           ts_participantId = participantId, ts_speaker = speaker, ts_text = text,
           ts_createdAt = createdAt\<rparr>
      | _ \<Rightarrow> None))"

subsection \<open>The stored size\<close>

definition transcript_js :: "live_transcript \<Rightarrow> js" where
  "transcript_js lt = (case lt of
     LT_inactive \<Rightarrow> JObj [(lit ''active'', JBool False)]
   | LT_active producer epoch startedAt \<Rightarrow> JObj [(lit ''active'', JBool True),
       (lit ''producerRuntimeHostId'', JStr producer), (lit ''epoch'', JNum (jint epoch)),
       (lit ''startedAt'', JNum (jint startedAt))])"

definition segment_js :: "transcript_segment \<Rightarrow> js" where
  "segment_js s = JObj [(lit ''segmentId'', JStr (ts_segmentId s)), (lit ''epoch'', JNum (jint (ts_epoch s))),
     (lit ''sequence'', JNum (jint (ts_sequence s))), (lit ''participantId'', JStr (ts_participantId s)),
     (lit ''speaker'', JStr (ts_speaker s)), (lit ''text'', JStr (ts_text s)),
     (lit ''createdAt'', JNum (jint (ts_createdAt s)))]"

definition liveTranscriptStorageByteLength ::
    "(rat \<Rightarrow> jstr) \<Rightarrow> live_transcript \<Rightarrow> transcript_segment list \<Rightarrow> int \<Rightarrow> int \<Rightarrow> nat" where
  "liveTranscriptStorageByteLength ntext lt segments nextEpoch nextSequence =
     json_bytes ntext (JObj [(lit ''liveTranscript'', transcript_js lt),
       (lit ''liveTranscriptSegments'', JArr (map segment_js segments)),
       (lit ''nextLiveTranscriptEpoch'', JNum (jint nextEpoch)),
       (lit ''nextTranscriptSequence'', JNum (jint nextSequence))])"

text \<open>The oldest segments go until the rest fits; an empty list ends the loop.\<close>

fun boundLiveTranscriptSegments :: "(rat \<Rightarrow> jstr) \<Rightarrow> live_transcript \<Rightarrow> int \<Rightarrow> int \<Rightarrow>
    transcript_segment list \<Rightarrow> transcript_segment list" where
  "boundLiveTranscriptSegments ntext lt nextEpoch nextSequence [] = []"
| "boundLiveTranscriptSegments ntext lt nextEpoch nextSequence (s # ss) =
     (if MAX_LIVE_TRANSCRIPT_SEGMENTS < length (s # ss) \<or> MAX_LIVE_TRANSCRIPT_STORAGE_BYTES <
           liveTranscriptStorageByteLength ntext lt (s # ss) nextEpoch nextSequence
      then boundLiveTranscriptSegments ntext lt nextEpoch nextSequence ss else s # ss)"

subsection \<open>Loading\<close>

fun dedupe_segments :: "transcript_segment list \<Rightarrow> (int \<times> jstr) list \<Rightarrow> int list \<Rightarrow> transcript_segment list" where
  "dedupe_segments [] seen seqs = []"
| "dedupe_segments (s # ss) seen seqs =
     (if (ts_epoch s, ts_segmentId s) \<in> set seen \<or> ts_sequence s \<in> set seqs
      then dedupe_segments ss seen seqs
      else s # dedupe_segments ss ((ts_epoch s, ts_segmentId s) # seen) (ts_sequence s # seqs))"

record transcript =
  lv_state :: live_transcript
  lv_segments :: "transcript_segment list"
  lv_nextEpoch :: int
  lv_nextSequence :: int

definition next_counter :: "js \<Rightarrow> int \<Rightarrow> int" where
  "next_counter v used = (case safe_positive v of
     Some n \<Rightarrow> max n (used + 1) | None \<Rightarrow> max 1 (used + 1))"

text \<open>
  Keeping or dropping a stored segment compares references in the source; stored segments
  that differ only in identity are duplicates of each other and one of them is dropped, so
  comparing values gives the same answer.
\<close>

definition normalizeStoredLiveTranscript ::
    "(rat \<Rightarrow> jstr) \<Rightarrow> js \<Rightarrow> js \<Rightarrow> js \<Rightarrow> js \<Rightarrow> transcript \<times> bool" where
  "normalizeStoredLiveTranscript ntext rawState rawSegments rawEpoch rawSequence =
     (let valid = live_transcript_of rawState;
          state = (case valid of Some lt \<Rightarrow> lt | None \<Rightarrow> LT_inactive);
          raws = (case rawSegments of JArr vs \<Rightarrow> vs | _ \<Rightarrow> []);
          sorted = sort_key ts_sequence (map the (filter (\<lambda>x. x \<noteq> None) (map segment_of raws)));
          deduplicated = dedupe_segments sorted [] [];
          maxEpoch = (case state of LT_active _ epoch _ \<Rightarrow> epoch | LT_inactive \<Rightarrow> 0);
          maxSequence = (if deduplicated = [] then 0 else ts_sequence (last deduplicated));
          nextEpoch = next_counter rawEpoch maxEpoch;
          nextSequence = next_counter rawSequence maxSequence;
          bounded = boundLiveTranscriptSegments ntext state nextEpoch nextSequence deduplicated;
          changed = valid = None \<or> json_text ntext (transcript_js state) \<noteq> json_text ntext rawState \<or>
            (case rawSegments of JArr _ \<Rightarrow> False | _ \<Rightarrow> True) \<or> length sorted \<noteq> length raws \<or>
            length deduplicated \<noteq> length sorted \<or> rawEpoch \<noteq> JNum (jint nextEpoch) \<or>
            rawSequence \<noteq> JNum (jint nextSequence) \<or> map Some bounded \<noteq> map segment_of raws in
      (\<lparr>lv_state = state, lv_segments = bounded, lv_nextEpoch = nextEpoch,
        lv_nextSequence = nextSequence\<rparr>, changed))"

subsection \<open>Who may produce\<close>

text \<open>\<open>host?.speech.stt === true\<close>.\<close>

definition host_stt :: "host_read \<Rightarrow> js_error + bool" where
  "host_stt h = (case h of Host_absent \<Rightarrow> Inr False | Host_own r \<Rightarrow> Inr (rh_stt r)
     | Host_inherited \<Rightarrow> Inl TypeError)"

definition host_has_agent :: "participant list \<Rightarrow> jstr \<Rightarrow> bool" where
  "host_has_agent ps i \<longleftrightarrow>
     list_ex (\<lambda>p. p_kind p = Agent \<and> p_connected p \<and> p_runtimeHostId p = Some i) ps"

definition isLiveTranscriptHostReady ::
    "participant list \<Rightarrow> runtime_hosts option \<Rightarrow> jstr \<Rightarrow> js_error + bool" where
  "isLiveTranscriptHostReady ps hosts i =
     (if \<not> RUNTIME_HOST_ID_PATTERN i then Inr False
      else map_sum id (\<lambda>stt. stt \<and> host_has_agent ps i) (host_stt (read_host hosts i)))"

definition canHumanStartLiveTranscript ::
    "participant list \<Rightarrow> runtime_hosts option \<Rightarrow> jstr \<Rightarrow> jstr \<Rightarrow> js_error + bool" where
  "canHumanStartLiveTranscript ps hosts humanId i =
     (if list_ex (\<lambda>p. p_id p = humanId \<and> p_kind p = Human \<and> p_connected p) ps
      then isLiveTranscriptHostReady ps hosts i else Inr False)"

definition isLiveTranscriptProducerValid ::
    "live_transcript \<Rightarrow> participant list \<Rightarrow> runtime_hosts option \<Rightarrow> bool \<Rightarrow> js_error + bool" where
  "isLiveTranscriptProducerValid lt ps hosts mediaAvailable = (case lt of
     LT_inactive \<Rightarrow> Inr True
   | LT_active producer epoch startedAt \<Rightarrow>
       if \<not> mediaAvailable then Inr False
       else (case host_stt (read_host hosts producer) of
           Inl e \<Rightarrow> Inl e
         | Inr stt \<Rightarrow> if stt then isLiveTranscriptHostReady ps hosts producer else Inr False))"

definition normalizeLiveTranscriptProducer :: "live_transcript \<Rightarrow> participant list \<Rightarrow>
    runtime_hosts option \<Rightarrow> bool \<Rightarrow> js_error + live_transcript \<times> bool" where
  "normalizeLiveTranscriptProducer lt ps hosts mediaAvailable =
     map_sum id (\<lambda>valid. if valid then (lt, False) else (LT_inactive, True))
       (isLiveTranscriptProducerValid lt ps hosts mediaAvailable)"

text \<open>The last component is \<open>idempotent\<close>.\<close>

definition startLiveTranscript ::
    "live_transcript \<Rightarrow> int \<Rightarrow> jstr \<Rightarrow> int \<Rightarrow> live_transcript \<times> int \<times> bool" where
  "startLiveTranscript lt nextEpoch hostId now = (case lt of
     LT_active _ _ _ \<Rightarrow> (lt, nextEpoch, True)
   | LT_inactive \<Rightarrow> (LT_active hostId nextEpoch now, nextEpoch + 1, False))"

definition stopLiveTranscript :: "live_transcript \<Rightarrow> live_transcript" where
  "stopLiveTranscript lt = (case lt of LT_active _ _ _ \<Rightarrow> LT_inactive | LT_inactive \<Rightarrow> lt)"

definition canAgentAppendLiveTranscript :: "live_transcript \<Rightarrow> participant \<Rightarrow> participant list \<Rightarrow>
    runtime_hosts option \<Rightarrow> bool \<Rightarrow> js_error + bool" where
  "canAgentAppendLiveTranscript lt caller ps hosts mediaAvailable = (case lt of
     LT_inactive \<Rightarrow> Inr False
   | LT_active producer epoch startedAt \<Rightarrow>
       if p_kind caller \<noteq> Agent then Inr False
       else if p_runtimeHostId caller = Some producer \<and>
         list_ex (\<lambda>p. p_id p = p_id caller \<and> p_kind p = Agent \<and> p_connected p \<and>
           p_runtimeHostId p = Some producer) ps
       then isLiveTranscriptProducerValid lt ps hosts mediaAvailable else Inr False)"

subsection \<open>Appending\<close>

datatype append_error = LT_not_active | LT_epoch_mismatch | LT_invalid_segment_id
  | LT_invalid_source | LT_invalid_text

record append_result =
  ap_duplicate :: bool
  ap_segments :: "transcript_segment list"
  ap_nextSequence :: int
  ap_segment :: "transcript_segment option"

definition transcript_text :: "js \<Rightarrow> jstr option" where
  "transcript_text v = (case v of
     JStr s \<Rightarrow> (let t = js_trim s in
       if length t = 0 \<or> MAX_LIVE_TRANSCRIPT_SEGMENT_TEXT_CHARS < length t then None else Some t)
   | _ \<Rightarrow> None)"

definition source_ok :: "participant option \<Rightarrow> bool" where
  "source_ok p = (case p of None \<Rightarrow> False | Some h \<Rightarrow> p_kind h = Human \<and>
     bounded_string (JStr (p_id h)) MAX_PARTICIPANT_ID_LENGTH \<noteq> None \<and>
     bounded_string (JStr (p_name h)) MAX_SPEAKER_LENGTH \<noteq> None)"

definition appendLiveTranscriptSegment :: "(rat \<Rightarrow> jstr) \<Rightarrow> live_transcript \<Rightarrow>
    transcript_segment list \<Rightarrow> int \<Rightarrow> js \<Rightarrow> js \<Rightarrow> participant option \<Rightarrow> js \<Rightarrow> int \<Rightarrow>
    append_error + append_result" where
  "appendLiveTranscriptSegment ntext lt segments nextSequence epoch segmentId source txt now =
     (case lt of
        LT_inactive \<Rightarrow> Inl LT_not_active
      | LT_active producer currentEpoch startedAt \<Rightarrow>
         if epoch \<noteq> JNum (jint currentEpoch) then Inl LT_epoch_mismatch
         else (case segment_id_of segmentId of
            None \<Rightarrow> Inl LT_invalid_segment_id
          | Some sid \<Rightarrow>
             if list_ex (\<lambda>s. ts_epoch s = currentEpoch \<and> ts_segmentId s = sid) segments
             then Inr \<lparr>ap_duplicate = True, ap_segments = segments, ap_nextSequence = nextSequence,
               ap_segment = None\<rparr>
             else if \<not> source_ok source then Inl LT_invalid_source
             else (case transcript_text txt of
                None \<Rightarrow> Inl LT_invalid_text
              | Some t \<Rightarrow>
                 (let segment = \<lparr>ts_segmentId = sid, ts_epoch = currentEpoch,
                        ts_sequence = nextSequence, ts_participantId = p_id (the source),
                        ts_speaker = p_name (the source), ts_text = t, ts_createdAt = now\<rparr> in
                  Inr \<lparr>ap_duplicate = False,
                    ap_segments = boundLiveTranscriptSegments ntext lt (currentEpoch + 1)
                      (nextSequence + 1) (segments @ [segment]),
                    ap_nextSequence = nextSequence + 1, ap_segment = Some segment\<rparr>))))"

subsection \<open>The committed log\<close>

lemma bound_suffix: "suffix (boundLiveTranscriptSegments ntext lt e n ss) ss"
  by (induction ntext lt e n ss rule: boundLiveTranscriptSegments.induct) (auto intro: suffix_ConsI)

lemma bound_length: "length (boundLiveTranscriptSegments ntext lt e n ss) \<le> MAX_LIVE_TRANSCRIPT_SEGMENTS"
  by (induction ntext lt e n ss rule: boundLiveTranscriptSegments.induct) auto

lemma bound_bytes: "boundLiveTranscriptSegments ntext lt e n ss = [] \<or>
    liveTranscriptStorageByteLength ntext lt (boundLiveTranscriptSegments ntext lt e n ss) e n
      \<le> MAX_LIVE_TRANSCRIPT_STORAGE_BYTES"
  by (induction ntext lt e n ss rule: boundLiveTranscriptSegments.induct) auto

interpretation transcript_log: bounded_log "\<lambda>ss. ss"
  "\<lambda>x ss. boundLiveTranscriptSegments ntext lt e n (ss @ [x])" "\<lambda>x. x"
  "\<lambda>_. MAX_LIVE_TRANSCRIPT_SEGMENTS" for ntext lt e n
  by unfold_locales
    (simp_all only: bound_length bound_suffix list.map map_append suffix_imp_subseq [OF bound_suffix])

definition segment_ok :: "transcript_segment \<Rightarrow> bool" where
  "segment_ok s \<longleftrightarrow> ts_segmentId s \<noteq> [] \<and> length (ts_segmentId s) \<le> MAX_LIVE_TRANSCRIPT_SEGMENT_ID_LENGTH \<and>
     ts_participantId s \<noteq> [] \<and> length (ts_participantId s) \<le> MAX_PARTICIPANT_ID_LENGTH \<and>
     ts_speaker s \<noteq> [] \<and> length (ts_speaker s) \<le> MAX_SPEAKER_LENGTH \<and>
     ts_text s \<noteq> [] \<and> length (ts_text s) \<le> MAX_LIVE_TRANSCRIPT_SEGMENT_TEXT_CHARS"

definition segment_key :: "transcript_segment \<Rightarrow> int \<times> jstr" where
  "segment_key s = (ts_epoch s, ts_segmentId s)"

definition segments_ok :: "transcript_segment list \<Rightarrow> bool" where
  "segments_ok ss \<longleftrightarrow> list_all segment_ok ss \<and> sorted_wrt (<) (map ts_sequence ss) \<and>
     distinct (map segment_key ss)"

definition log_ok :: "transcript \<Rightarrow> bool" where
  "log_ok s \<longleftrightarrow> segments_ok (lv_segments s) \<and>
     length (lv_segments s) \<le> MAX_LIVE_TRANSCRIPT_SEGMENTS \<and>
     (\<forall>x \<in> set (lv_segments s). ts_sequence x < lv_nextSequence s) \<and>
     (case lv_state s of LT_active producer epoch startedAt \<Rightarrow>
        RUNTIME_HOST_ID_PATTERN producer \<and> epoch < lv_nextEpoch s | LT_inactive \<Rightarrow> True)"

lemma segments_ok_suffix: "suffix ss' ss \<Longrightarrow> segments_ok ss \<Longrightarrow> segments_ok ss'"
  by (auto simp: segments_ok_def suffix_def sorted_wrt_append)

lemma segments_ok_append: "segments_ok ss \<Longrightarrow> segment_ok x \<Longrightarrow> (\<forall>y \<in> set ss. ts_sequence y < ts_sequence x) \<Longrightarrow>
    segment_key x \<notin> segment_key ` set ss \<Longrightarrow> segments_ok (ss @ [x])"
  by (auto simp: segments_ok_def sorted_wrt_append)

lemma bounded_string_some [simp]: "bounded_string v m = Some s \<longleftrightarrow> v = JStr s \<and> s \<noteq> [] \<and> length s \<le> m"
  by (auto simp: bounded_string_def split: js.splits)

lemma segment_id_ok: "segment_id_of v = Some s \<Longrightarrow>
    v = JStr s \<and> s \<noteq> [] \<and> length s \<le> MAX_LIVE_TRANSCRIPT_SEGMENT_ID_LENGTH \<and> list_all is_id_unit s"
  by (auto simp: segment_id_of_def split: option.splits if_splits)

lemma segment_of_ok: "segment_of v = Some s \<Longrightarrow> segment_ok s"
  by (clarsimp simp: segment_of_def split: if_split_asm option.splits)
    (auto simp: segment_ok_def dest: segment_id_ok)

lemma dedupe_segments_set: "set (dedupe_segments ss seen seqs) \<subseteq> set ss"
  by (induction ss seen seqs rule: dedupe_segments.induct) auto

lemma dedupe_segments_fresh: "x \<in> set (dedupe_segments ss seen seqs) \<Longrightarrow>
    segment_key x \<notin> set seen \<and> ts_sequence x \<notin> set seqs"
  by (induction ss seen seqs rule: dedupe_segments.induct) (auto simp: segment_key_def split: if_splits)

lemma dedupe_segments_ok:
  "sorted (map ts_sequence ss) \<Longrightarrow> list_all segment_ok ss \<Longrightarrow> segments_ok (dedupe_segments ss seen seqs)"
proof (induction ss seen seqs rule: dedupe_segments.induct)
  case (2 s ss seen seqs)
  let ?rest = "dedupe_segments ss (segment_key s # seen) (ts_sequence s # seqs)"
  have rest: "segments_ok ?rest" if "(ts_epoch s, ts_segmentId s) \<notin> set seen" "ts_sequence s \<notin> set seqs"
    using 2 that by (simp add: segment_key_def)
  have after: "ts_sequence s < ts_sequence x \<and> segment_key x \<noteq> segment_key s" if "x \<in> set ?rest" for x
  proof -
    from that have "x \<in> set ss" using dedupe_segments_set by blast
    then have "ts_sequence s \<le> ts_sequence x" using 2 by simp
    moreover have "ts_sequence x \<noteq> ts_sequence s" "segment_key x \<noteq> segment_key s"
      using dedupe_segments_fresh [OF that] by auto
    ultimately show ?thesis by simp
  qed
  show ?case
  proof (cases "segment_key s \<in> set seen \<or> ts_sequence s \<in> set seqs")
    case False
    have "segment_key s \<notin> segment_key ` set ?rest" using after by force
    moreover have "dedupe_segments (s # ss) seen seqs = s # ?rest"
      using False by (simp add: segment_key_def)
    ultimately show ?thesis using rest after False 2 by (simp add: segments_ok_def segment_key_def)
  qed (use 2 in \<open>simp add: segment_key_def\<close>)
qed (simp add: segments_ok_def)

lemma sorted_last_max: "sorted_wrt (<) (map f ss) \<Longrightarrow> x \<in> set ss \<Longrightarrow> (f x :: int) \<le> f (last ss)"
proof (induction ss)
  case (Cons a ss)
  then show ?case by (cases "ss = []") (auto simp: less_imp_le)
qed simp

lemma next_counter_above: "used < next_counter v used"
  by (auto simp: next_counter_def split: option.split)

lemma live_transcript_of_ok: "live_transcript_of v = Some (LT_active p e t) \<Longrightarrow> RUNTIME_HOST_ID_PATTERN p"
  by (auto simp: live_transcript_of_def isValidRuntimeHostId_def split: if_splits option.splits js.splits)

lemma log_ok_loaded: "log_ok (fst (normalizeStoredLiveTranscript ntext rs rg re rq))"
proof -
  define state where "state = (case live_transcript_of rs of Some lt \<Rightarrow> lt | None \<Rightarrow> LT_inactive)"
  define raws where "raws = (case rg of JArr vs \<Rightarrow> vs | _ \<Rightarrow> [])"
  define sorted where "sorted = sort_key ts_sequence (map the (filter (\<lambda>x. x \<noteq> None) (map segment_of raws)))"
  define ded where "ded = dedupe_segments sorted [] []"
  define e where "e = next_counter re (case state of LT_active _ epoch _ \<Rightarrow> epoch | LT_inactive \<Rightarrow> 0)"
  define n where "n = next_counter rq (if ded = [] then 0 else ts_sequence (last ded))"
  have result: "fst (normalizeStoredLiveTranscript ntext rs rg re rq) =
      \<lparr>lv_state = state, lv_segments = boundLiveTranscriptSegments ntext state e n ded,
       lv_nextEpoch = e, lv_nextSequence = n\<rparr>"
    by (simp add: normalizeStoredLiveTranscript_def Let_def state_def raws_def sorted_def ded_def e_def n_def)
  have "list_all segment_ok sorted"
    by (auto simp: sorted_def list_all_iff dest: segment_of_ok)
  then have ded_ok: "segments_ok ded"
    unfolding ded_def by (rule dedupe_segments_ok [rotated]) (simp add: sorted_def)
  have "ts_sequence x < n" if "x \<in> set ded" for x
    using that sorted_last_max [of ts_sequence ded x] ded_ok
      next_counter_above [of "if ded = [] then 0 else ts_sequence (last ded)" rq]
    by (auto simp: n_def segments_ok_def)
  moreover have "case state of LT_active p epoch t \<Rightarrow> RUNTIME_HOST_ID_PATTERN p \<and> epoch < e | LT_inactive \<Rightarrow> True"
    using next_counter_above [of _ re]
    by (auto simp: e_def state_def live_transcript_of_ok split: live_transcript.split option.splits)
  ultimately show ?thesis
    using bound_suffix [of ntext state e n ded] ded_ok
    by (auto simp: result log_ok_def bound_length intro: segments_ok_suffix dest: set_mono_suffix
        split: live_transcript.splits)
qed

subsection \<open>The Room's transcript handlers\<close>

text \<open>
  The handlers of RoomSession over the transcript of the Room, after the caller is
  authenticated. An exception leaves the transcript as it was.
\<close>

datatype transcript_event =
    Start_transcript bool "participant list" "runtime_hosts" jstr jstr int
  | Stop_transcript
  | Append_segment bool participant "participant list" "runtime_hosts" js js "participant option" js int
  | Check_producer bool "participant list" "runtime_hosts"

definition start_transcript :: "bool \<Rightarrow> participant list \<Rightarrow> runtime_hosts \<Rightarrow> jstr \<Rightarrow> jstr \<Rightarrow> int \<Rightarrow>
    transcript \<Rightarrow> transcript" where
  "start_transcript mediaEnabled ps hosts humanId hostId now s =
     (if lv_state s \<noteq> LT_inactive then s
      else if \<not> mediaEnabled then s
      else if canHumanStartLiveTranscript ps (Some hosts) humanId hostId \<noteq> Inr True then s
      else (case startLiveTranscript (lv_state s) (lv_nextEpoch s) hostId now of
        (lt, nextEpoch, _) \<Rightarrow> s\<lparr>lv_state := lt, lv_nextEpoch := nextEpoch\<rparr>))"

definition append_segment :: "(rat \<Rightarrow> jstr) \<Rightarrow> bool \<Rightarrow> participant \<Rightarrow> participant list \<Rightarrow> runtime_hosts \<Rightarrow>
    js \<Rightarrow> js \<Rightarrow> participant option \<Rightarrow> js \<Rightarrow> int \<Rightarrow> transcript \<Rightarrow> transcript" where
  "append_segment ntext media caller ps hosts epoch segmentId source txt now s =
     (if p_kind caller \<noteq> Agent \<or> lv_state s = LT_inactive \<or>
         canAgentAppendLiveTranscript (lv_state s) caller ps (Some hosts) media \<noteq> Inr True then s
      else (case appendLiveTranscriptSegment ntext (lv_state s) (lv_segments s) (lv_nextSequence s)
          epoch segmentId source txt now of
        Inl _ \<Rightarrow> s
      | Inr r \<Rightarrow> if ap_duplicate r then s
          else s\<lparr>lv_segments := ap_segments r, lv_nextSequence := ap_nextSequence r\<rparr>))"

definition transcript_step :: "(rat \<Rightarrow> jstr) \<Rightarrow> transcript_event \<Rightarrow> transcript \<Rightarrow> transcript" where
  "transcript_step ntext ev s = (case ev of
     Start_transcript media ps hosts humanId hostId now \<Rightarrow>
       start_transcript media ps hosts humanId hostId now s
   | Stop_transcript \<Rightarrow> s\<lparr>lv_state := stopLiveTranscript (lv_state s)\<rparr>
   | Append_segment media caller ps hosts epoch segmentId source txt now \<Rightarrow>
       append_segment ntext media caller ps hosts epoch segmentId source txt now s
   | Check_producer media ps hosts \<Rightarrow>
       (case normalizeLiveTranscriptProducer (lv_state s) ps (Some hosts) media of
          Inl _ \<Rightarrow> s | Inr (lt, changed) \<Rightarrow> if changed then s\<lparr>lv_state := lt\<rparr> else s))"

lemma append_ok:
  assumes "appendLiveTranscriptSegment ntext lt ss n epoch sid source txt now = Inr r"
    and "\<not> ap_duplicate r"
  obtains p e t x where "lt = LT_active p e t" "segment_ok x" "ts_sequence x = n"
    "segment_key x \<notin> segment_key ` set ss" "segment_key x = (e, ts_segmentId x)" "epoch = JNum (jint e)"
    "sid = JStr (ts_segmentId x)" "ts_createdAt x = now" "ap_nextSequence r = n + 1" "ap_segment r = Some x"
    "ap_segments r = boundLiveTranscriptSegments ntext lt (e + 1) (n + 1) (ss @ [x])"
proof -
  from assms obtain p e t where lt: "lt = LT_active p e t" and epoch: "epoch = JNum (jint e)"
    by (auto simp: appendLiveTranscriptSegment_def split: live_transcript.splits if_splits)
  with assms obtain s where s: "segment_id_of sid = Some s"
    by (auto simp: appendLiveTranscriptSegment_def split: option.splits)
  with assms lt epoch have new: "\<not> list_ex (\<lambda>x. ts_epoch x = e \<and> ts_segmentId x = s) ss"
    by (auto simp: appendLiveTranscriptSegment_def split: if_splits)
  with assms lt epoch s have src: "source_ok source"
    by (auto simp: appendLiveTranscriptSegment_def split: if_splits)
  with assms lt epoch s new obtain tx where tx: "transcript_text txt = Some tx"
    by (auto simp: appendLiveTranscriptSegment_def split: if_splits option.splits)
  let ?x = "\<lparr>ts_segmentId = s, ts_epoch = e, ts_sequence = n, ts_participantId = p_id (the source),
      ts_speaker = p_name (the source), ts_text = tx, ts_createdAt = now\<rparr>"
  have "r = \<lparr>ap_duplicate = False, ap_segments = boundLiveTranscriptSegments ntext lt (e + 1) (n + 1) (ss @ [?x]),
      ap_nextSequence = n + 1, ap_segment = Some ?x\<rparr>"
    using assms lt epoch s new src tx by (simp add: appendLiveTranscriptSegment_def Let_def)
  moreover have "segment_ok ?x"
    using segment_id_ok [OF s] src tx
    by (auto simp: segment_ok_def source_ok_def transcript_text_def Let_def split: option.splits js.splits if_splits)
  moreover have "segment_key ?x \<notin> segment_key ` set ss"
    using new by (auto simp: list_ex_iff segment_key_def)
  ultimately show thesis
    using lt epoch segment_id_ok [OF s] by (intro that [of p e t ?x]) (simp_all add: segment_key_def)
qed

lemma log_ok_append: "log_ok s \<Longrightarrow> log_ok (append_segment ntext media caller ps hosts epoch sid source txt now s)"
proof -
  assume s: "log_ok s"
  show ?thesis
  proof (cases "appendLiveTranscriptSegment ntext (lv_state s) (lv_segments s) (lv_nextSequence s) epoch sid source txt now")
    case (Inr r)
    show ?thesis
    proof (cases "ap_duplicate r")
      case False
      from Inr False obtain p e t x where x: "lv_state s = LT_active p e t" "segment_ok x"
        "ts_sequence x = lv_nextSequence s" "segment_key x \<notin> segment_key ` set (lv_segments s)"
        "ap_nextSequence r = lv_nextSequence s + 1"
        "ap_segments r = boundLiveTranscriptSegments ntext (lv_state s) (e + 1) (lv_nextSequence s + 1) (lv_segments s @ [x])"
        by (rule append_ok) auto
      have "segments_ok (lv_segments s @ [x])"
        using s x by (intro segments_ok_append) (auto simp: log_ok_def)
      then have "segments_ok (ap_segments r)"
        using x bound_suffix by (metis segments_ok_suffix)
      moreover have "set (ap_segments r) \<subseteq> set (lv_segments s @ [x])"
        using x bound_suffix by (metis set_mono_suffix)
      then have "\<forall>y \<in> set (ap_segments r). ts_sequence y < lv_nextSequence s + 1"
        using s x by (fastforce simp: log_ok_def)
      ultimately show ?thesis
        using s Inr False x by (auto simp: append_segment_def log_ok_def bound_length)
    qed (use s Inr in \<open>simp add: append_segment_def\<close>)
  qed (use s in \<open>simp add: append_segment_def\<close>)
qed

lemma host_ready_pattern: "isLiveTranscriptHostReady ps hosts i = Inr True \<Longrightarrow> RUNTIME_HOST_ID_PATTERN i"
  by (auto simp: isLiveTranscriptHostReady_def split: if_splits)

lemma log_ok_start: "log_ok s \<Longrightarrow> log_ok (start_transcript media ps hosts humanId hostId now s)"
  by (auto simp: start_transcript_def startLiveTranscript_def log_ok_def canHumanStartLiveTranscript_def
      split: live_transcript.splits if_splits dest: host_ready_pattern)

lemma log_ok_inactive: "log_ok s \<Longrightarrow> log_ok (s\<lparr>lv_state := LT_inactive\<rparr>)"
  by (simp add: log_ok_def)

lemma log_ok_stop: "log_ok s \<Longrightarrow> log_ok (s\<lparr>lv_state := stopLiveTranscript (lv_state s)\<rparr>)"
  by (auto simp: stopLiveTranscript_def log_ok_inactive split: live_transcript.split)

lemma producer_normalized: "normalizeLiveTranscriptProducer lt ps hosts media = Inr (lt', True) \<Longrightarrow> lt' = LT_inactive"
  by (auto simp: normalizeLiveTranscriptProducer_def map_sum_def split: sum.splits if_splits)

lemma log_ok_step: "log_ok s \<Longrightarrow> log_ok (transcript_step ntext ev s)"
  by (cases ev)
    (simp_all add: transcript_step_def log_ok_append log_ok_start log_ok_stop,
     auto simp: log_ok_inactive dest: producer_normalized split: sum.split)

interpretation transcript_runs: transition_system "transcript_step ntext" log_ok for ntext
  by unfold_locales (rule log_ok_step)

text \<open>
  C9: whatever the storage held and whatever is started, stopped, appended or invalidated
  afterwards, the committed transcript has at most 500 well-formed segments, its sequence
  numbers strictly increase and stay below the next one, no segment id occurs twice in an
  epoch, and an active epoch is below the next epoch.
\<close>

theorem transcript_log_ok:
  "log_ok (fold (transcript_step ntext) events
     (fst (normalizeStoredLiveTranscript ntext rawState rawSegments rawEpoch rawSequence)))"
  by (rule transcript_runs.invar_run [OF log_ok_loaded])

subsection \<open>A committed segment stays, so a retry is a duplicate\<close>

lemma json_arr_one: "v \<noteq> JUndefined \<Longrightarrow> length (json_text ntext (JArr [v])) = length (json_text ntext v) + 2"
  by (simp add: json_join_def)

lemma segment_text_length:
  assumes "segment_ok x" and "exact_int (ts_epoch x)" and "exact_int (ts_sequence x)" and "exact_int (ts_createdAt x)"
  shows "length (json_text ntext (segment_js x)) \<le> 28256"
proof -
  have "length (json_text ntext (JStr (ts_segmentId x))) \<le> 770"
    "length (json_text ntext (JStr (ts_participantId x))) \<le> 1538"
    "length (json_text ntext (JStr (ts_speaker x))) \<le> 1538"
    "length (json_text ntext (JStr (ts_text x))) \<le> 24002"
    using assms(1) length_json_str [of ntext "ts_segmentId x"] length_json_str [of ntext "ts_participantId x"]
      length_json_str [of ntext "ts_speaker x"] length_json_str [of ntext "ts_text x"]
    by (auto simp: segment_ok_def transcript_bounds simp del: json_text.simps)
  moreover note assms(2-4) [THEN length_json_int [where ntext = ntext]]
  ultimately have "sum_list (map (\<lambda>(k, v). 6 * length k + 4 + length (json_text ntext v))
     [(lit ''segmentId'', JStr (ts_segmentId x)), (lit ''epoch'', JNum (jint (ts_epoch x))),
     (lit ''sequence'', JNum (jint (ts_sequence x))), (lit ''participantId'', JStr (ts_participantId x)),
     (lit ''speaker'', JStr (ts_speaker x)), (lit ''text'', JStr (ts_text x)),
     (lit ''createdAt'', JNum (jint (ts_createdAt x)))]) + 2 \<le> 28256"
    by (simp del: json_text.simps)
  then show ?thesis
    unfolding segment_js_def by (rule order_trans [OF length_json_obj_le])
qed

lemma state_text_length:
  assumes "RUNTIME_HOST_ID_PATTERN p" and "exact_int e" and "exact_int t"
  shows "length (json_text ntext (transcript_js (LT_active p e t))) \<le> 686"
proof -
  have "length (json_text ntext (JStr p)) \<le> 386" "length (json_text ntext (JBool True)) = 4"
    using assms(1) length_json_str [of ntext p] by (simp_all add: RUNTIME_HOST_ID_PATTERN_def del: json_text.simps(5))
  moreover note assms(2,3) [THEN length_json_int [where ntext = ntext]]
  ultimately have "sum_list (map (\<lambda>(k, v). 6 * length k + 4 + length (json_text ntext v))
     [(lit ''active'', JBool True), (lit ''producerRuntimeHostId'', JStr p), (lit ''epoch'', JNum (jint e)),
       (lit ''startedAt'', JNum (jint t))]) + 2 \<le> 686"
    by (simp del: json_text.simps)
  then show ?thesis
    unfolding transcript_js_def live_transcript.case by (rule order_trans [OF length_json_obj_le])
qed

lemma one_segment_fits:
  assumes "segment_ok x" and "exact_int (ts_epoch x)" and "exact_int (ts_sequence x)" and "exact_int (ts_createdAt x)"
    and "RUNTIME_HOST_ID_PATTERN p" and "exact_int e" and "exact_int t" and "exact_int e'" and "exact_int n"
  shows "liveTranscriptStorageByteLength ntext (LT_active p e t) [x] e' n \<le> MAX_LIVE_TRANSCRIPT_STORAGE_BYTES"
proof -
  have "segment_js x \<noteq> JUndefined" by (simp add: segment_js_def)
  then have "length (json_text ntext (JArr [segment_js x])) \<le> 28258"
    using segment_text_length [OF assms(1-4), of ntext] by (simp add: json_arr_one del: json_text.simps)
  moreover note state_text_length [OF assms(5-7), of ntext]
    assms(8,9) [THEN length_json_int [where ntext = ntext]]
  ultimately have sum: "sum_list (map (\<lambda>(k, v). 6 * length k + 4 + length (json_text ntext v))
      [(lit ''liveTranscript'', transcript_js (LT_active p e t)),
       (lit ''liveTranscriptSegments'', JArr (map segment_js [x])),
       (lit ''nextLiveTranscriptEpoch'', JNum (jint e')),
       (lit ''nextTranscriptSequence'', JNum (jint n))]) + 2 \<le> 32768"
    by (simp del: json_text.simps)
  let ?text = "json_text ntext (JObj [(lit ''liveTranscript'', transcript_js (LT_active p e t)),
       (lit ''liveTranscriptSegments'', JArr (map segment_js [x])),
       (lit ''nextLiveTranscriptEpoch'', JNum (jint e')), (lit ''nextTranscriptSequence'', JNum (jint n))])"
  have "length ?text \<le> 32768" by (rule order_trans [OF length_json_obj_le sum])
  then have "3 * length ?text \<le> MAX_LIVE_TRANSCRIPT_STORAGE_BYTES"
    by (simp add: transcript_bounds del: json_text.simps)
  then show ?thesis
    unfolding liveTranscriptStorageByteLength_def json_bytes_def
    by (rule order_trans [OF byte_length_le])
qed

lemma bound_keeps_last:
  assumes "liveTranscriptStorageByteLength ntext lt [x] e n \<le> MAX_LIVE_TRANSCRIPT_STORAGE_BYTES"
  shows "boundLiveTranscriptSegments ntext lt e n (ss @ [x]) \<noteq> [] \<and>
    last (boundLiveTranscriptSegments ntext lt e n (ss @ [x])) = x"
proof (induction ss)
  case Nil
  with assms show ?case by (simp add: transcript_bounds)
qed simp

text \<open>
  A segment the Room acknowledged is the last one of the bounded log: the budget never
  drops the newest segment. A retry with the same epoch and segment id is therefore answered
  as a duplicate and changes nothing, whatever else the retry carries.
\<close>

theorem append_retry_duplicate:
  assumes "appendLiveTranscriptSegment ntext (LT_active p e t) ss n epoch sid source txt now = Inr r"
    and "\<not> ap_duplicate r" and "RUNTIME_HOST_ID_PATTERN p" and "exact_int t" and "exact_int now"
    and "0 \<le> e" and "exact_int (e + 1)" and "0 \<le> n" and "exact_int (n + 1)"
  shows "ap_segments r \<noteq> [] \<and> Some (last (ap_segments r)) = ap_segment r \<and>
    appendLiveTranscriptSegment ntext (LT_active p e t) (ap_segments r) (ap_nextSequence r) epoch sid
      source' txt' later = Inr \<lparr>ap_duplicate = True, ap_segments = ap_segments r,
        ap_nextSequence = ap_nextSequence r, ap_segment = None\<rparr>"
proof -
  from assms(1,2) obtain x where x: "segment_ok x" "ts_sequence x = n" "segment_key x = (e, ts_segmentId x)"
      "epoch = JNum (jint e)" "sid = JStr (ts_segmentId x)" "ts_createdAt x = now" "ap_segment r = Some x"
      "ap_segments r = boundLiveTranscriptSegments ntext (LT_active p e t) (e + 1) (n + 1) (ss @ [x])"
    by (rule append_ok) auto
  have key: "segment_id_of sid = Some (ts_segmentId x)"
    using assms(1) x(5) by (auto simp: appendLiveTranscriptSegment_def x(4) dest: segment_id_ok
        split: option.splits if_splits)
  have ints: "exact_int e" "exact_int n" using assms(6-9) by (auto simp: exact_int_def)
  have "liveTranscriptStorageByteLength ntext (LT_active p e t) [x] (e + 1) (n + 1) \<le> MAX_LIVE_TRANSCRIPT_STORAGE_BYTES"
    using x ints assms by (intro one_segment_fits) (simp_all add: segment_key_def)
  from bound_keeps_last [OF this, of ss] x have last: "ap_segments r \<noteq> []" "last (ap_segments r) = x"
    by simp_all
  then have "x \<in> set (ap_segments r)" by auto
  then have "list_ex (\<lambda>s. ts_epoch s = e \<and> ts_segmentId s = ts_segmentId x) (ap_segments r)"
    using x by (auto simp: list_ex_iff segment_key_def)
  with x key last show ?thesis by (simp add: appendLiveTranscriptSegment_def)
qed

definition demo_segment :: transcript_segment where
  "demo_segment = \<lparr>ts_segmentId = lit ''a'', ts_epoch = 1, ts_sequence = 1, ts_participantId = lit ''ana'',
     ts_speaker = lit ''ana'', ts_text = lit ''hi'', ts_createdAt = 7\<rparr>"

lemma demo_segment_ok: "segment_ok demo_segment"
  by (simp add: segment_ok_def demo_segment_def transcript_bounds)

definition demo_append :: "transcript_segment list \<Rightarrow> string \<Rightarrow> append_error + append_result" where
  "demo_append ss tx = appendLiveTranscriptSegment (\<lambda>_. []) (LT_active (lit ''host-0001'') 1 5) ss 1
     (JNum (jint 1)) (JStr (lit ''a'')) (Some (demo_participant ''ana'' Human True)) (JStr (lit tx)) 7"

theorem append_retry_duplicate_witness:
  "appendLiveTranscriptSegment (\<lambda>_. []) (LT_active (lit ''host-0001'') 1 5) [demo_segment] 2 (JNum (jint 1))
     (JStr (lit ''a'')) None JUndefined 9 = Inr \<lparr>ap_duplicate = True, ap_segments = [demo_segment],
       ap_nextSequence = 2, ap_segment = None\<rparr>"
proof -
  have host: "RUNTIME_HOST_ID_PATTERN (lit ''host-0001'')" by code_simp
  have fits: "liveTranscriptStorageByteLength (\<lambda>_. []) (LT_active (lit ''host-0001'') 1 5) [demo_segment] 2 2
      \<le> MAX_LIVE_TRANSCRIPT_STORAGE_BYTES"
    by (rule one_segment_fits) (simp_all add: demo_segment_ok host exact_int_def, simp_all add: demo_segment_def)
  have id: "segment_id_of (JStr (lit ''a'')) = Some (lit ''a'')" by code_simp
  have tx: "transcript_text (JStr (lit ''hi'')) = Some (lit ''hi'')" by code_simp
  have src: "source_ok (Some (demo_participant ''ana'' Human True))" by code_simp
  have "p_name (demo_participant ''ana'' Human True) = lit ''ana''" by (simp add: demo_participant_def)
  then have "demo_append [] ''hi'' = Inr \<lparr>ap_duplicate = False, ap_segments = [demo_segment],
      ap_nextSequence = 2, ap_segment = Some demo_segment\<rparr>"
    using fits id tx src
    by (simp add: demo_append_def appendLiveTranscriptSegment_def Let_def flip: demo_segment_def)
      (simp add: transcript_bounds)
  from append_retry_duplicate [OF this [unfolded demo_append_def], of None JUndefined 9] host
  show ?thesis by (simp add: exact_int_def)
qed

text \<open>
  A Human's request to start the transcript on a host id that is an inherited property
  name raises an exception instead of being refused.
\<close>

theorem start_on_inherited_host_raises:
  assumes "h \<in> set ps" and "p_id h = humanId" and "p_kind h = Human" and "p_connected h"
    and "dget hosts (lit ''constructor'') = None"
  shows "canHumanStartLiveTranscript ps (Some hosts) humanId (lit ''constructor'') = Inl TypeError"
proof -
  have "RUNTIME_HOST_ID_PATTERN (lit ''constructor'')" by code_simp
  moreover have "read_host (Some hosts) (lit ''constructor'') = Host_inherited"
    using assms(5) by (simp add: read_host_def proto_keys_def)
  ultimately show ?thesis
    using assms(1-4) by (auto simp: canHumanStartLiveTranscript_def isLiveTranscriptHostReady_def
        host_stt_def list_ex_iff)
qed

theorem start_on_inherited_host_raises_witness:
  "canHumanStartLiveTranscript (map snd demo_participants) (Some []) (lit ''ana'') (lit ''constructor'') =
     Inl TypeError"
  by (rule start_on_inherited_host_raises [of "demo_participant ''ana'' Human True"])
    (simp_all add: demo_participants_def)

end
