(* ===== verification/Collab.thy ===== *)
theory Collab
  imports Room_Types Room_Interfaces
begin

text \<open>
  Collaboration envelopes (app/src/do/collab.ts): the bounds and the shape of an advertised
  capability list, and the validation of one envelope against the current Room. The registry
  of the same source file is in Collab_Registry.
\<close>

subsection \<open>Bounds and token shapes\<close>

definition MAX_ADVERTISED_CAPABILITIES :: nat where "MAX_ADVERTISED_CAPABILITIES = 8"
definition MAX_CAPABILITY_LENGTH :: nat where "MAX_CAPABILITY_LENGTH = 48"
definition MAX_COLLAB_SUMMARY_LENGTH :: nat where "MAX_COLLAB_SUMMARY_LENGTH = 1200"
definition MAX_COLLAB_DETAILS_ENTRIES :: nat where "MAX_COLLAB_DETAILS_ENTRIES = 16"
definition MAX_COLLAB_DETAIL_KEY_LENGTH :: nat where "MAX_COLLAB_DETAIL_KEY_LENGTH = 64"
definition MAX_COLLAB_DETAIL_VALUE_LENGTH :: nat where "MAX_COLLAB_DETAIL_VALUE_LENGTH = 512"
definition MAX_COLLAB_ATTACHMENT_REFS :: nat where "MAX_COLLAB_ATTACHMENT_REFS = 3"

lemmas collab_bounds = MAX_ADVERTISED_CAPABILITIES_def MAX_CAPABILITY_LENGTH_def
  MAX_COLLAB_SUMMARY_LENGTH_def MAX_COLLAB_DETAILS_ENTRIES_def
  MAX_COLLAB_DETAIL_KEY_LENGTH_def MAX_COLLAB_DETAIL_VALUE_LENGTH_def
  MAX_COLLAB_ATTACHMENT_REFS_def

text \<open>\<open>/^[a-z0-9]+(?:[._-][a-z0-9]+)*$/\<close>; \<open>cap_rest\<close> reads what follows a first unit.\<close>

definition cap_unit :: "code_unit \<Rightarrow> bool" where
  "cap_unit c \<longleftrightarrow> is_lower c \<or> is_digit c"

definition cap_sep :: "code_unit \<Rightarrow> bool" where
  "cap_sep c \<longleftrightarrow> c = 0x2e \<or> c = 0x5f \<or> c = 0x2d"

fun cap_rest :: "jstr \<Rightarrow> bool" where
  "cap_rest [] = True"
| "cap_rest (c # cs) = (if cap_unit c then cap_rest cs
     else cap_sep c \<and> (case cs of [] \<Rightarrow> False | d # ds \<Rightarrow> cap_unit d \<and> cap_rest ds))"

definition CAPABILITY_PATTERN :: "jstr \<Rightarrow> bool" where
  "CAPABILITY_PATTERN s = (case s of [] \<Rightarrow> False | c # cs \<Rightarrow> cap_unit c \<and> cap_rest cs)"

text \<open>\<open>/^[A-Za-z0-9](?:[A-Za-z0-9._:-]{3,63})$/\<close>.\<close>

definition REQUEST_ID_PATTERN :: "jstr \<Rightarrow> bool" where
  "REQUEST_ID_PATTERN s = (case s of [] \<Rightarrow> False
     | c # cs \<Rightarrow> is_alnum c \<and> 3 \<le> length cs \<and> length cs \<le> 63 \<and> list_all is_id_unit cs)"

definition isCanonicalCollabRequestId :: "js \<Rightarrow> bool" where
  "isCanonicalCollabRequestId v = (case v of JStr s \<Rightarrow> REQUEST_ID_PATTERN s | _ \<Rightarrow> False)"

text \<open>
  \<open>toLowerCase\<close>, as far as the capability pattern can see it: the two non-ASCII units whose
  lower case is (or starts with) an ASCII letter are written out; any other non-ASCII unit
  maps to non-ASCII units, which the pattern refuses whatever they are.
\<close>

definition lower_unit :: "code_unit \<Rightarrow> jstr" where
  "lower_unit c = (if is_upper c then [c + 0x20]
     else if c = 0x212a then [0x6b] else if c = 0x130 then [0x69, 0x307] else [c])"

definition js_lower :: "jstr \<Rightarrow> jstr" where
  "js_lower s = concat (map lower_unit s)"

subsection \<open>Advertised capabilities\<close>

text \<open>The loop of \<open>validateAdvertisedCapabilities\<close>; an error is the \<open>reason\<close> it reports.\<close>

fun cap_entries :: "js list \<Rightarrow> jstr list \<Rightarrow> string + jstr list" where
  "cap_entries [] capabilities = Inr capabilities"
| "cap_entries (raw # rest) capabilities = (case raw of
     JStr s \<Rightarrow>
       (let token = js_lower (js_trim s) in
        if length token = 0 \<or> MAX_CAPABILITY_LENGTH < length token
        then Inl ''entry_length_1_48''
        else if \<not> CAPABILITY_PATTERN token then Inl ''entry_must_be_namespaced_token''
        else cap_entries rest (set_add token capabilities))
   | _ \<Rightarrow> Inl ''entries_must_be_strings'')"

definition validateAdvertisedCapabilities :: "js \<Rightarrow> string + jstr list" where
  "validateAdvertisedCapabilities input = (case input of
     JArr entries \<Rightarrow>
       if MAX_ADVERTISED_CAPABILITIES < length entries then Inl ''too_many_max_8''
       else cap_entries entries []
   | _ \<Rightarrow> Inl ''must_be_array'')"

definition agentCapabilitiesFrom :: "jstr list \<Rightarrow> agent_capabilities" where
  "agentCapabilitiesFrom validated =
     (if 0 < length validated then \<lparr>ac_text = True, ac_advertised = Some validated\<rparr>
      else \<lparr>ac_text = True, ac_advertised = None\<rparr>)"

definition stored_capability_ok :: "jstr \<Rightarrow> bool" where
  "stored_capability_ok token \<longleftrightarrow> 0 < length token \<and>
     length token \<le> MAX_CAPABILITY_LENGTH \<and> CAPABILITY_PATTERN token"

definition sanitizeStoredAgentCapabilities ::
    "agent_capabilities option \<Rightarrow> agent_capabilities \<times> bool" where
  "sanitizeStoredAgentCapabilities capabilities = (case capabilities of
     None \<Rightarrow> (\<lparr>ac_text = True, ac_advertised = None\<rparr>, True)
   | Some c \<Rightarrow>
       if \<not> ac_text c then (\<lparr>ac_text = True, ac_advertised = None\<rparr>, True)
       else (case ac_advertised c of
         None \<Rightarrow> (c, False)
       | Some advertised \<Rightarrow>
           (let cleaned = filter stored_capability_ok advertised;
                deduped = take MAX_ADVERTISED_CAPABILITIES (dedupe cleaned) in
            if deduped = advertised then (c, False)
            else (agentCapabilitiesFrom deduped, True))))"

subsection \<open>The roster projection\<close>

record roster_entry =
  re_id :: jstr
  re_name :: jstr
  re_kind :: participant_kind
  re_advertised :: "jstr list option"
  re_runtimeHostId :: "jstr option"
  re_surface :: "surface_v1 option"

definition roster_entry_of :: "participant \<Rightarrow> roster_entry" where
  "roster_entry_of p =
     (let advertised = (if p_kind p = Agent
            then Option.bind (p_capabilities p) ac_advertised else None) in
      \<lparr>re_id = p_id p, re_name = p_name p, re_kind = p_kind p,
       re_advertised = (case advertised of
          Some a \<Rightarrow> if 0 < length a then Some a else None | None \<Rightarrow> None),
       re_runtimeHostId = (if p_kind p = Agent then truthy_str (p_runtimeHostId p) else None),
       re_surface = (if p_kind p = Agent then p_surface p else None)\<rparr>)"

definition rosterProjection :: "participants \<Rightarrow> roster_entry list" where
  "rosterProjection ps = map roster_entry_of (filter p_connected (map snd ps))"

subsection \<open>Validation of one envelope\<close>

record collab_input =
  ci_kind :: js
  ci_requestId :: js
  ci_targetParticipantId :: js
  ci_summary :: js
  ci_details :: js
  ci_attachmentIds :: js

record collab_context =
  cc_sender :: jstr
  cc_participants :: participants
  cc_attachments :: "(jstr \<times> jstr option) list"

text \<open>\<open>details[key] = value\<close> for a string value: assigning to \<open>__proto__\<close> has no effect.\<close>

definition assign_str :: "jstr \<Rightarrow> jstr \<Rightarrow> (jstr, jstr) dict \<Rightarrow> (jstr, jstr) dict" where
  "assign_str k v d = (if k = lit ''__proto__'' then d else dput k v d)"

fun detail_entries :: "(jstr \<times> js) list \<Rightarrow> (jstr, jstr) dict \<Rightarrow> string + (jstr, jstr) dict" where
  "detail_entries [] details = Inr details"
| "detail_entries ((key, v) # rest) details = (case v of
     JStr value \<Rightarrow>
       if length key = 0 \<or> MAX_COLLAB_DETAIL_KEY_LENGTH < length key
          \<or> MAX_COLLAB_DETAIL_VALUE_LENGTH < length value
       then Inl ''invalid_detail_entry''
       else detail_entries rest (assign_str key value details)
   | _ \<Rightarrow> Inl ''invalid_detail_entry'')"

definition validateCollabDetails :: "js \<Rightarrow> string + (jstr, jstr) dict option" where
  "validateCollabDetails input = (case input of
     JUndefined \<Rightarrow> Inr None
   | JObj entries \<Rightarrow>
       if MAX_COLLAB_DETAILS_ENTRIES < length entries then Inl ''too_many_details''
       else map_sum id Some (detail_entries entries [])
   | _ \<Rightarrow> Inl ''invalid_details'')"

text \<open>All entries as strings, if they all are.\<close>

fun all_strings :: "js list \<Rightarrow> jstr list option" where
  "all_strings [] = Some []"
| "all_strings (v # vs) = (case (js_str v, all_strings vs) of
     (Some s, Some ss) \<Rightarrow> Some (s # ss) | _ \<Rightarrow> None)"

fun check_refs :: "(jstr \<times> jstr option) list \<Rightarrow> jstr \<Rightarrow> jstr list \<Rightarrow> string option" where
  "check_refs attachments requestId [] = None"
| "check_refs attachments requestId (i # is) = (case map_of attachments i of
     None \<Rightarrow> Some ''unknown_attachment''
   | Some (Some t) \<Rightarrow> if t \<noteq> requestId then Some ''attachment_task_mismatch''
       else check_refs attachments requestId is
   | Some None \<Rightarrow> check_refs attachments requestId is)"

definition validateCollabAttachmentRefs ::
    "js \<Rightarrow> collab_context \<Rightarrow> jstr \<Rightarrow> string + jstr list option" where
  "validateCollabAttachmentRefs input context requestId = (case input of
     JUndefined \<Rightarrow> Inr None
   | JArr entries \<Rightarrow> (case all_strings entries of
       None \<Rightarrow> Inl ''invalid_attachment_refs''
     | Some ids \<Rightarrow>
         (let unique = dedupe ids in
          if MAX_COLLAB_ATTACHMENT_REFS < length unique then Inl ''too_many_attachment_refs''
          else (case check_refs (cc_attachments context) requestId unique of
            Some e \<Rightarrow> Inl e | None \<Rightarrow> Inr (Some unique))))
   | _ \<Rightarrow> Inl ''invalid_attachment_refs'')"

definition boundedSummary :: "js \<Rightarrow> jstr option" where
  "boundedSummary input = (case input of
     JStr s \<Rightarrow> (let trimmed = js_trim s in
       if trimmed = [] then None else Some (take MAX_COLLAB_SUMMARY_LENGTH trimmed))
   | _ \<Rightarrow> None)"

definition collab_kind_name :: "collab_kind \<Rightarrow> string" where
  "collab_kind_name k = (case k of Request \<Rightarrow> ''request'' | Accepted \<Rightarrow> ''accepted''
     | Declined \<Rightarrow> ''declined'' | Completed \<Rightarrow> ''completed'' | Failed \<Rightarrow> ''failed'')"

definition COLLAB_KINDS :: "collab_kind list" where
  "COLLAB_KINDS = [Request, Accepted, Declined, Completed, Failed]"

definition collab_kind_of :: "js \<Rightarrow> collab_kind option" where
  "collab_kind_of v = (case v of
     JStr s \<Rightarrow> List.find (\<lambda>k. lit (collab_kind_name k) = s) COLLAB_KINDS
   | _ \<Rightarrow> None)"

text \<open>\<open>typeof v === "string" ? v.trim() : ""\<close>.\<close>

definition trimmed_or_empty :: "js \<Rightarrow> jstr" where
  "trimmed_or_empty v = (case v of JStr s \<Rightarrow> js_trim s | _ \<Rightarrow> [])"

text \<open>
  \<open>generated\<close> is the id the injected (or default) generator returns. A target that names an
  inherited property has no \<open>connected\<close> field and takes the same branch as an absent one.
\<close>

definition validateCollabEvent ::
    "collab_input \<Rightarrow> collab_context \<Rightarrow> jstr \<Rightarrow> string + collab_event" where
  "validateCollabEvent input context generated = (case collab_kind_of (ci_kind input) of
     None \<Rightarrow> Inl ''invalid_collab_kind''
   | Some kind \<Rightarrow>
     (let given = trimmed_or_empty (ci_requestId input);
          requestId = (if given = [] \<and> kind = Request then generated else given) in
      if \<not> REQUEST_ID_PATTERN requestId then Inl ''invalid_request_id''
      else
       (let target = trimmed_or_empty (ci_targetParticipantId input) in
        if kind = Request then
          (if \<not> connected_in (cc_participants context) target then Inl ''target_not_in_room''
           else if target = cc_sender context then Inl ''self_request''
           else (case boundedSummary (ci_summary input) of
             None \<Rightarrow> Inl ''summary_required''
           | Some summary \<Rightarrow> (case validateCollabDetails (ci_details input) of
               Inl e \<Rightarrow> Inl e
             | Inr details \<Rightarrow>
                 (case validateCollabAttachmentRefs (ci_attachmentIds input) context requestId of
                   Inl e \<Rightarrow> Inl e
                 | Inr ids \<Rightarrow> Inr \<lparr>ce_requestId = requestId, ce_kind = kind,
                     ce_from = cc_sender context, ce_target = target,
                     ce_summary = Some summary, ce_details = details,
                     ce_attachmentIds = ids\<rparr>))))
        else if target \<noteq> [] \<and> \<not> connected_in (cc_participants context) target
        then Inl ''target_not_in_room''
        else (case validateCollabDetails (ci_details input) of
            Inl e \<Rightarrow> Inl e
          | Inr details \<Rightarrow>
              (case validateCollabAttachmentRefs (ci_attachmentIds input) context requestId of
                Inl e \<Rightarrow> Inl e
              | Inr ids \<Rightarrow> Inr \<lparr>ce_requestId = requestId, ce_kind = kind,
                  ce_from = [], ce_target = [],
                  ce_summary = boundedSummary (ci_summary input), ce_details = details,
                  ce_attachmentIds = ids\<rparr>)))))"

subsection \<open>What the capability pattern accepts\<close>

lemma cap_unit_trim: "cap_unit c \<Longrightarrow> \<not> is_ws c" "cap_sep c \<Longrightarrow> \<not> is_ws c"
  by (auto simp: cap_unit_def cap_sep_def unit_classes word_le_nat_alt word_unat_eq_iff)

lemma cap_unit_lower: "cap_unit c \<Longrightarrow> lower_unit c = [c]" "cap_sep c \<Longrightarrow> lower_unit c = [c]"
  by (auto simp: cap_unit_def cap_sep_def lower_unit_def unit_classes word_le_nat_alt word_unat_eq_iff)

lemma cap_rest_units: "cap_rest s \<Longrightarrow> c \<in> set s \<Longrightarrow> cap_unit c \<or> cap_sep c"
  by (induction s rule: cap_rest.induct) (auto split: if_splits list.splits)

lemma CAPABILITY_units: "CAPABILITY_PATTERN s \<Longrightarrow> c \<in> set s \<Longrightarrow> cap_unit c \<or> cap_sep c"
  by (auto simp: CAPABILITY_PATTERN_def split: list.splits dest: cap_rest_units)

text \<open>A canonical token is its own trimmed lower case, so it passes ingestion unchanged.\<close>

lemma js_lower_canonical: "(\<And>c. c \<in> set s \<Longrightarrow> lower_unit c = [c]) \<Longrightarrow> js_lower s = s"
  by (induction s) (auto simp: js_lower_def)

lemma capability_canonical: "CAPABILITY_PATTERN s \<Longrightarrow> js_lower (js_trim s) = s"
proof -
  assume s: "CAPABILITY_PATTERN s"
  then have "js_trim s = s"
    using CAPABILITY_units cap_unit_trim by (intro js_trim_no_ws) blast
  moreover have "js_lower s = s"
    using s CAPABILITY_units cap_unit_lower by (intro js_lower_canonical) blast
  ultimately show ?thesis by simp
qed

definition capability_list_ok :: "jstr list \<Rightarrow> bool" where
  "capability_list_ok cs \<longleftrightarrow> length cs \<le> MAX_ADVERTISED_CAPABILITIES \<and> distinct cs \<and>
     list_all stored_capability_ok cs"

lemma cap_entries_ok:
  "cap_entries raws acc = Inr cs \<Longrightarrow> distinct acc \<Longrightarrow> list_all stored_capability_ok acc \<Longrightarrow>
   distinct cs \<and> list_all stored_capability_ok cs \<and> length cs \<le> length acc + length raws"
proof (induction raws acc rule: cap_entries.induct)
  case (2 raw rest acc)
  show ?case
  proof (cases raw)
    case (JStr s)
    let ?t = "js_lower (js_trim s)"
    from 2 JStr have ok: "stored_capability_ok ?t"
      by (auto simp: Let_def stored_capability_ok_def split: if_splits)
    with 2 JStr have "distinct cs \<and> list_all stored_capability_ok cs \<and>
        length cs \<le> length (set_add ?t acc) + length rest"
      by (auto simp: Let_def list_all_iff stored_capability_ok_def split: if_splits)
    with length_set_add [of ?t acc] show ?thesis by simp
  qed (use 2 in auto)
qed simp

lemma cap_entries_canonical:
  "list_all stored_capability_ok cs \<Longrightarrow> distinct (acc @ cs) \<Longrightarrow>
   cap_entries (map JStr cs) acc = Inr (acc @ cs)"
proof (induction cs arbitrary: acc)
  case (Cons c cs)
  then have "js_lower (js_trim c) = c" and "set_add c acc = acc @ [c]"
    by (auto simp: stored_capability_ok_def capability_canonical set_add_def)
  with Cons show ?case
    by (auto simp: stored_capability_ok_def Let_def)
qed simp

lemma validateAdvertised_ok: "validateAdvertisedCapabilities v = Inr cs \<Longrightarrow> capability_list_ok cs"
  using cap_entries_ok [of _ "[]" cs]
  by (fastforce simp: validateAdvertisedCapabilities_def capability_list_ok_def
      split: js.splits if_splits)

lemma validateAdvertised_canonical: "capability_list_ok cs \<Longrightarrow>
    validateAdvertisedCapabilities (JArr (map JStr cs)) = Inr cs"
  using cap_entries_canonical [of cs "[]"]
  by (simp add: validateAdvertisedCapabilities_def capability_list_ok_def)

subsection \<open>The stored form is repaired once\<close>

definition capabilities_ok :: "agent_capabilities \<Rightarrow> bool" where
  "capabilities_ok c \<longleftrightarrow> ac_text c \<and>
     (case ac_advertised c of None \<Rightarrow> True | Some cs \<Rightarrow> capability_list_ok cs)"

lemma capability_list_ok_clean: "capability_list_ok (take MAX_ADVERTISED_CAPABILITIES
    (dedupe (filter stored_capability_ok cs)))"
  by (auto simp: capability_list_ok_def list_all_iff intro: distinct_take dest: in_set_takeD)

lemma capability_list_ok_unchanged: "take MAX_ADVERTISED_CAPABILITIES
    (dedupe (filter stored_capability_ok cs)) = cs \<Longrightarrow> capability_list_ok cs"
  by (metis capability_list_ok_clean)

lemma capability_list_ok_Nil [simp]: "capability_list_ok []"
  by (simp add: capability_list_ok_def)

lemma capability_list_ok_fixed: "capability_list_ok cs \<Longrightarrow>
    take MAX_ADVERTISED_CAPABILITIES (dedupe (filter stored_capability_ok cs)) = cs"
  by (auto simp: capability_list_ok_def list_all_iff)

interpretation stored_capabilities: sanitizer sanitizeStoredAgentCapabilities Some capabilities_ok
proof unfold_locales
  fix x :: "agent_capabilities option"
  show "capabilities_ok (fst (sanitizeStoredAgentCapabilities x))"
    by (auto simp: sanitizeStoredAgentCapabilities_def capabilities_ok_def agentCapabilitiesFrom_def
        Let_def capability_list_ok_clean capability_list_ok_unchanged split: option.splits)
next
  fix y :: agent_capabilities
  assume "capabilities_ok y"
  then show "sanitizeStoredAgentCapabilities (Some y) = (y, False)"
    by (auto simp: sanitizeStoredAgentCapabilities_def capabilities_ok_def Let_def
        capability_list_ok_fixed split: option.splits)
qed

subsection \<open>What a validated envelope satisfies\<close>

definition details_ok :: "(jstr, jstr) dict \<Rightarrow> bool" where
  "details_ok d \<longleftrightarrow> length d \<le> MAX_COLLAB_DETAILS_ENTRIES \<and>
     list_all (\<lambda>(k, v). 0 < length k \<and> length k \<le> MAX_COLLAB_DETAIL_KEY_LENGTH \<and>
       length v \<le> MAX_COLLAB_DETAIL_VALUE_LENGTH) d"

definition refs_ok :: "(jstr \<times> jstr option) list \<Rightarrow> jstr \<Rightarrow> jstr list \<Rightarrow> bool" where
  "refs_ok attachments requestId ids \<longleftrightarrow> distinct ids \<and>
     length ids \<le> MAX_COLLAB_ATTACHMENT_REFS \<and>
     list_all (\<lambda>i. map_of attachments i \<in> {Some None, Some (Some requestId)}) ids"

lemma length_assign_str: "length (assign_str k v d) \<le> Suc (length d)"
  by (simp add: assign_str_def length_dput)

lemma detail_entries_ok:
  "detail_entries es d = Inr d' \<Longrightarrow> list_all (\<lambda>(k, v). 0 < length k \<and>
      length k \<le> MAX_COLLAB_DETAIL_KEY_LENGTH \<and> length v \<le> MAX_COLLAB_DETAIL_VALUE_LENGTH) d \<Longrightarrow>
   length d' \<le> length d + length es \<and> list_all (\<lambda>(k, v). 0 < length k \<and>
      length k \<le> MAX_COLLAB_DETAIL_KEY_LENGTH \<and> length v \<le> MAX_COLLAB_DETAIL_VALUE_LENGTH) d'"
proof (induction es d rule: detail_entries.induct)
  case (2 key v rest d)
  show ?case
  proof (cases v)
    case (JStr w)
    have "list_all (\<lambda>(k, v). 0 < length k \<and> length k \<le> MAX_COLLAB_DETAIL_KEY_LENGTH \<and>
        length v \<le> MAX_COLLAB_DETAIL_VALUE_LENGTH) (assign_str key w d)"
      using 2 JStr set_dput_subset [of key w d]
      by (auto simp: assign_str_def list_all_iff split: if_splits)
    with 2 JStr length_assign_str [of key w d] show ?thesis
      by (fastforce split: if_splits)
  qed (use 2 in auto)
qed simp

lemma validateCollabDetails_ok: "validateCollabDetails v = Inr (Some d) \<Longrightarrow> details_ok d"
  using detail_entries_ok [of _ "[]" d]
  by (fastforce simp: validateCollabDetails_def details_ok_def map_sum_def
      split: js.splits if_splits sum.splits)

lemma check_refs_ok: "check_refs attachments rid ids = None \<Longrightarrow>
    list_all (\<lambda>i. map_of attachments i \<in> {Some None, Some (Some rid)}) ids"
  by (induction attachments rid ids rule: check_refs.induct)
    (auto split: option.splits if_splits)

lemma validateRefs_ok: "validateCollabAttachmentRefs v context rid = Inr (Some ids) \<Longrightarrow>
    refs_ok (cc_attachments context) rid ids"
  by (auto simp: validateCollabAttachmentRefs_def refs_ok_def Let_def dest!: check_refs_ok
      split: js.splits option.splits if_splits)

lemma boundedSummary_ok: "boundedSummary v = Some s \<Longrightarrow>
    s \<noteq> [] \<and> length s \<le> MAX_COLLAB_SUMMARY_LENGTH"
  by (auto simp: boundedSummary_def Let_def collab_bounds split: js.splits if_splits)

definition envelope_ok :: "collab_context \<Rightarrow> collab_event \<Rightarrow> bool" where
  "envelope_ok context e \<longleftrightarrow> REQUEST_ID_PATTERN (ce_requestId e) \<and>
     (case ce_summary e of None \<Rightarrow> ce_kind e \<noteq> Request
      | Some s \<Rightarrow> s \<noteq> [] \<and> length s \<le> MAX_COLLAB_SUMMARY_LENGTH) \<and>
     (case ce_details e of None \<Rightarrow> True | Some d \<Rightarrow> details_ok d) \<and>
     (case ce_attachmentIds e of None \<Rightarrow> True
      | Some ids \<Rightarrow> refs_ok (cc_attachments context) (ce_requestId e) ids) \<and>
     (if ce_kind e = Request
      then ce_from e = cc_sender context \<and> ce_target e \<noteq> cc_sender context \<and>
           connected_in (cc_participants context) (ce_target e)
      else ce_from e = [] \<and> ce_target e = [])"


lemma validateCollabEvent_ok:
  assumes "validateCollabEvent input context generated = Inr e"
  shows "envelope_ok context e"
proof (cases "collab_kind_of (ci_kind input)")
  case (Some kind)
  show ?thesis
  proof (cases "kind = Request")
    case True
    with Some assms show ?thesis
      by (clarsimp simp: validateCollabEvent_def Let_def split: option.splits sum.splits if_split_asm)
        (auto simp: envelope_ok_def dest: validateCollabDetails_ok validateRefs_ok boundedSummary_ok split: option.splits)
  next
    case False
    with Some assms show ?thesis
      by (clarsimp simp: validateCollabEvent_def Let_def split: option.splits sum.splits if_split_asm)
        (auto simp: envelope_ok_def dest: validateCollabDetails_ok validateRefs_ok boundedSummary_ok split: option.splits)
  qed
qed (use assms in \<open>simp add: validateCollabEvent_def\<close>)

text \<open>
  C5: an accepted envelope is well-formed against the Room it was validated in: canonical id,
  bounded summary and details, at most three distinct attachment references that exist and
  belong to no other Task, and for a request a connected target other than its sender.
\<close>

theorem validateCollabEvent_sound:
  assumes "validateCollabEvent input context generated = Inr e"
  shows "envelope_ok context e"
  using assms by (rule validateCollabEvent_ok)

definition demo_input :: collab_input where
  "demo_input = \<lparr>ci_kind = JStr (lit ''request''), ci_requestId = JStr (lit ''req-1''),
     ci_targetParticipantId = JStr (lit ''bot''), ci_summary = JStr (lit ''draw it''),
     ci_details = JObj [(lit ''size'', JStr (lit ''big''))],
     ci_attachmentIds = JArr [JStr (lit ''f1''), JStr (lit ''f1'')]\<rparr>"

definition demo_context :: collab_context where
  "demo_context = \<lparr>cc_sender = lit ''ana'', cc_participants = demo_participants,
     cc_attachments = [(lit ''f1'', None)]\<rparr>"

theorem validateCollabEvent_sound_witness:
  "envelope_ok demo_context \<lparr>ce_requestId = lit ''req-1'', ce_kind = Request,
     ce_from = lit ''ana'', ce_target = lit ''bot'', ce_summary = Some (lit ''draw it''),
     ce_details = Some [(lit ''size'', lit ''big'')], ce_attachmentIds = Some [lit ''f1'']\<rparr>"
  by (rule validateCollabEvent_sound [of demo_input _ "[]"]) code_simp

end
