(* ===== verification/Task_Scope.thy ===== *)
theory Task_Scope
  imports Collab
begin

text \<open>
  Task scopes (app/src/do/taskScope.ts): who takes part in a Task is derived from the retained
  message log, so a restart reconstructs the same decisions. The index keeps, per Task, the
  canonical request, the participating Agents and who could see each message.
\<close>

subsection \<open>The index\<close>

record task_entry =
  te_request :: collab_event
  te_agents :: "jstr list"
  te_bySequence :: "(int, jstr list) dict"

type_synonym task_index = "(jstr, task_entry) dict"

definition taskAgentParticipates :: "task_index \<Rightarrow> jstr \<Rightarrow> jstr \<Rightarrow> bool" where
  "taskAgentParticipates index requestId i = (case dget index requestId of
     Some t \<Rightarrow> i \<in> set (te_agents t) | None \<Rightarrow> False)"

text \<open>\<open>message.taskRequestId ?? message.collab?.requestId\<close>.\<close>

definition taskRequestIdFor :: "room_message \<Rightarrow> jstr option" where
  "taskRequestIdFor m = (case rm_taskRequestId m of Some i \<Rightarrow> Some i
     | None \<Rightarrow> map_option ce_requestId (rm_collab m))"

text \<open>An absent target ends the search; a target that names an inherited property does not.\<close>

definition initialTaskAgentParticipantId :: "collab_event \<Rightarrow> participants \<Rightarrow> jstr option" where
  "initialTaskAgentParticipantId request ps = (case dget ps (ce_target request) of
     None \<Rightarrow>
       if ce_target request \<notin> set proto_keys then None
       else (case dget ps (ce_from request) of
         Some p \<Rightarrow> if p_kind p = Agent then Some (p_id p) else None | None \<Rightarrow> None)
   | Some t \<Rightarrow>
       if p_kind t = Agent then Some (p_id t)
       else (case dget ps (ce_from request) of
         Some p \<Rightarrow> if p_kind p = Agent then Some (p_id p) else None | None \<Rightarrow> None))"

definition addAgentEndpoint :: "participants \<Rightarrow> jstr \<Rightarrow> jstr list \<Rightarrow> jstr list" where
  "addAgentEndpoint ps i agents = (if agent_in ps i then set_add i agents else agents)"

definition new_task :: "participants \<Rightarrow> collab_event \<Rightarrow> int \<Rightarrow> task_entry" where
  "new_task ps e sequence =
     (let agents = addAgentEndpoint ps (ce_target e) (addAgentEndpoint ps (ce_from e) []) in
      \<lparr>te_request = e, te_agents = agents, te_bySequence = [(sequence, agents)]\<rparr>)"

definition sender_may_extend :: "participants \<Rightarrow> jstr \<Rightarrow> task_entry \<Rightarrow> bool" where
  "sender_may_extend ps peer t = (case dget ps peer of
     None \<Rightarrow> False
   | Some p \<Rightarrow> p_kind p = Human \<or> (p_kind p = Agent \<and> p_id p \<in> set (te_agents t)))"

definition extend_task :: "participants \<Rightarrow> room_message \<Rightarrow> task_entry \<Rightarrow> task_entry" where
  "extend_task ps m t =
     (let added = (if truthy_str (rm_taskRequestId m) \<noteq> None \<and> sender_may_extend ps (rm_peerId m) t
            then filter (agent_in ps) (case rm_targets m of Some ts \<Rightarrow> ts | None \<Rightarrow> []) else []);
          agents = fold set_add added (te_agents t) in
      t\<lparr>te_agents := agents, te_bySequence := dput (rm_sequence m) agents (te_bySequence t)\<rparr>)"

definition index_message :: "participants \<Rightarrow> room_message \<Rightarrow> task_index \<Rightarrow> task_index" where
  "index_message ps m tasks =
     (case rm_collab m of
        Some e \<Rightarrow>
          if ce_kind e = Request \<and> dget tasks (ce_requestId e) = None
          then dput (ce_requestId e) (new_task ps e (rm_sequence m)) tasks
          else (case truthy_str (taskRequestIdFor m) of
              None \<Rightarrow> tasks
            | Some i \<Rightarrow> (case dget tasks i of
                None \<Rightarrow> tasks | Some t \<Rightarrow> dput i (extend_task ps m t) tasks))
      | None \<Rightarrow> (case truthy_str (taskRequestIdFor m) of
          None \<Rightarrow> tasks
        | Some i \<Rightarrow> (case dget tasks i of
            None \<Rightarrow> tasks | Some t \<Rightarrow> dput i (extend_task ps m t) tasks)))"

definition buildTaskProjectionIndex :: "room_message list \<Rightarrow> participants \<Rightarrow> task_index" where
  "buildTaskProjectionIndex messages ps = fold (index_message ps) (sort_key rm_sequence messages) []"

subsection \<open>Resolving a Task\<close>

record task_resolution =
  tr_requestId :: jstr
  tr_request :: collab_event
  tr_primary :: "jstr option"
  tr_agents :: "jstr list"

definition resolveTaskRequest :: "task_index \<Rightarrow> js \<Rightarrow> participants \<Rightarrow> string + task_resolution" where
  "resolveTaskRequest index raw ps = (case raw of
     JStr s \<Rightarrow>
       (let requestId = js_trim s in
        if requestId = [] then Inl ''invalid_task_request''
        else (case dget index requestId of
          None \<Rightarrow> Inl ''unknown_task_request''
        | Some t \<Rightarrow>
            (let agents = filter (connected_agent ps) (te_agents t);
                 target = ce_target (te_request t); source = ce_from (te_request t) in
             Inr \<lparr>tr_requestId = requestId, tr_request = te_request t,
               tr_primary = (if connected_agent ps target then Some target
                 else if connected_agent ps source then Some source
                 else (case agents of a # _ \<Rightarrow> Some a | [] \<Rightarrow> None)),
               tr_agents = agents\<rparr>)))
   | _ \<Rightarrow> Inl ''invalid_task_request'')"

text \<open>\<open>Inr None\<close>: no target list was given.\<close>

definition normalizedExplicitTargets :: "js \<Rightarrow> nat \<Rightarrow> string + jstr list option" where
  "normalizedExplicitTargets raw maxTargets = (case raw of
     JUndefined \<Rightarrow> Inr None
   | JArr vs \<Rightarrow> (case all_strings vs of
       None \<Rightarrow> Inl ''invalid_task_targets''
     | Some ids \<Rightarrow>
         (let targets = dedupe (map js_trim ids) in
          if list_ex (\<lambda>i. i = []) targets then Inl ''invalid_task_targets''
          else if maxTargets < length targets then Inl ''too_many_task_targets''
          else Inr (Some targets)))
   | _ \<Rightarrow> Inl ''invalid_task_targets'')"

fun check_human_targets :: "participants \<Rightarrow> jstr list \<Rightarrow> string option" where
  "check_human_targets ps [] = None"
| "check_human_targets ps (i # is) =
     (if \<not> connected_in ps i then Some ''task_target_not_in_room''
      else if \<not> agent_in ps i then Some ''task_target_not_agent''
      else check_human_targets ps is)"

definition resolveHumanTaskTargets ::
    "task_resolution \<Rightarrow> participant \<Rightarrow> participants \<Rightarrow> js \<Rightarrow> nat \<Rightarrow> string + jstr list" where
  "resolveHumanTaskTargets resolution sender ps raw maxTargets =
     (if p_kind sender \<noteq> Human \<or> \<not> p_connected sender then Inl ''task_sender_not_human''
      else (case normalizedExplicitTargets raw maxTargets of
        Inl e \<Rightarrow> Inl e
      | Inr targets \<Rightarrow>
          (let explicit = (case targets of Some ts \<Rightarrow> ts | None \<Rightarrow> []) in
           if explicit = [] then
             (case truthy_str (tr_primary resolution) of
                None \<Rightarrow> Inl ''task_target_not_in_room'' | Some i \<Rightarrow> Inr [i])
           else (case check_human_targets ps explicit of
             Some e \<Rightarrow> Inl e | None \<Rightarrow> Inr explicit))))"

definition resolveAgentTaskTargets ::
    "task_resolution \<Rightarrow> participant \<Rightarrow> participants \<Rightarrow> js \<Rightarrow> nat \<Rightarrow> string + jstr list" where
  "resolveAgentTaskTargets resolution sender ps raw maxTargets =
     (if p_kind sender \<noteq> Agent \<or> \<not> p_connected sender \<or> p_id sender \<notin> set (tr_agents resolution)
      then Inl ''task_target_mismatch''
      else (case normalizedExplicitTargets raw maxTargets of
        Inl e \<Rightarrow> Inl e
      | Inr targets \<Rightarrow>
          (let explicit = (case targets of Some ts \<Rightarrow> ts | None \<Rightarrow> []) in
           if explicit = [] then Inr []
           else if list_ex (\<lambda>i. i \<noteq> p_id sender \<and> \<not> connected_in ps i) explicit
           then Inl ''task_target_not_in_room''
           else Inr (filter (\<lambda>i. i \<noteq> p_id sender) explicit))))"

subsection \<open>What an Agent is shown\<close>

datatype task_projection = Ordinary | Task_hidden | Task_visible jstr bool

definition addressed_to :: "room_message \<Rightarrow> jstr \<Rightarrow> bool" where
  "addressed_to m i = (case rm_targets m of Some ts \<Rightarrow> i \<in> set ts | None \<Rightarrow> False)"

text \<open>The one exception for a Task whose request was evicted: the Agent's own terminal.\<close>

definition own_permission_terminal :: "room_message \<Rightarrow> jstr \<Rightarrow> bool" where
  "own_permission_terminal m i \<longleftrightarrow> rm_actionType m = Some (lit ''permission'') \<and>
     (case rm_permission m of
        Some (Perm_resolved r) \<Rightarrow> pr_agent r = i
      | Some (Perm_expired x) \<Rightarrow> px_agent x = i
      | _ \<Rightarrow> False) \<and> addressed_to m i"

definition scope_of :: "jstr \<Rightarrow> jstr" where
  "scope_of requestId = lit ''task:'' @ requestId"

definition projectTaskEvent :: "task_index \<Rightarrow> room_message \<Rightarrow> jstr \<Rightarrow> bool \<Rightarrow> task_projection" where
  "projectTaskEvent index m i historical = (case truthy_str (taskRequestIdFor m) of
     None \<Rightarrow> Ordinary
   | Some requestId \<Rightarrow> (case dget index requestId of
       None \<Rightarrow> if own_permission_terminal m i then Task_visible (scope_of requestId) True
               else Task_hidden
     | Some t \<Rightarrow>
         (let members = (if historical then te_agents t
            else (case dget (te_bySequence t) (rm_sequence m) of Some as \<Rightarrow> as | None \<Rightarrow> [])) in
          if i \<notin> set members then Task_hidden
          else Task_visible (scope_of requestId) (addressed_to m i))))"

subsection \<open>The Tasks of a log do not interfere\<close>

definition concerns :: "jstr \<Rightarrow> room_message \<Rightarrow> bool" where
  "concerns i m \<longleftrightarrow> taskRequestIdFor m = Some i \<or>
     (case rm_collab m of Some e \<Rightarrow> ce_kind e = Request \<and> ce_requestId e = i | None \<Rightarrow> False)"

lemma index_message_cases:
  obtains "index_message ps m tasks = tasks"
  | e where "rm_collab m = Some e" "ce_kind e = Request" "index_message ps m tasks = dput (ce_requestId e) (new_task ps e (rm_sequence m)) tasks"
  | j t where "taskRequestIdFor m = Some j" "index_message ps m tasks = dput j (extend_task ps m t) tasks"
proof (cases "\<exists>e. rm_collab m = Some e \<and> ce_kind e = Request \<and> dget tasks (ce_requestId e) = None")
  case True
  then obtain e where "rm_collab m = Some e" "ce_kind e = Request" "dget tasks (ce_requestId e) = None" by blast
  then show ?thesis by (intro that(2) [of e]) (simp_all add: index_message_def)
next
  case False
  then have d: "index_message ps m tasks = (case truthy_str (taskRequestIdFor m) of None \<Rightarrow> tasks
      | Some i \<Rightarrow> (case dget tasks i of None \<Rightarrow> tasks | Some t \<Rightarrow> dput i (extend_task ps m t) tasks))"
    by (cases "rm_collab m") (auto simp: index_message_def)
  show ?thesis
  proof (cases "truthy_str (taskRequestIdFor m)")
    case (Some j)
    then have "taskRequestIdFor m = Some j" by (auto simp: truthy_str_def split: option.splits if_splits)
    with d Some that(1,3) show ?thesis by (cases "dget tasks j") simp_all
  qed (use d that(1) in simp)
qed

lemma index_message_other: "\<not> concerns i m \<Longrightarrow> dget (index_message ps m tasks) i = dget tasks i"
  by (rule index_message_cases [of ps m tasks]) (auto simp: concerns_def)

text \<open>A message that carries a request and a Task id carries the same id twice.\<close>

definition coherent :: "room_message \<Rightarrow> bool" where
  "coherent m \<longleftrightarrow> (case (rm_collab m, rm_taskRequestId m) of
     (Some e, Some i) \<Rightarrow> ce_kind e = Request \<longrightarrow> ce_requestId e = i | _ \<Rightarrow> True)"

lemma index_message_same: "dget s i = dget tasks i \<Longrightarrow> i \<noteq> [] \<Longrightarrow> concerns i m \<Longrightarrow> coherent m \<Longrightarrow>
    dget (index_message ps m s) i = dget (index_message ps m tasks) i"
proof (cases "rm_collab m")
  case None
  moreover assume "dget s i = dget tasks i" "i \<noteq> []" "concerns i m"
  ultimately show ?thesis by (cases "dget tasks i") (simp_all add: index_message_def concerns_def truthy_str_def)
next
  case (Some e)
  assume i: "dget s i = dget tasks i" "i \<noteq> []" "concerns i m" "coherent m"
  show ?thesis
  proof (cases "ce_kind e = Request")
    case True
    with Some i have "ce_requestId e = i \<and> (taskRequestIdFor m = None \<or> taskRequestIdFor m = Some i)"
      by (cases "rm_taskRequestId m") (auto simp: concerns_def coherent_def taskRequestIdFor_def split: if_splits)
    with Some True i(1,2) show ?thesis
      by (cases "dget tasks i") (auto simp: index_message_def truthy_str_def)
  next
    case False
    with Some i have "taskRequestIdFor m = Some i" by (simp add: concerns_def)
    with Some False i(1,2) show ?thesis by (cases "dget tasks i") (simp_all add: index_message_def truthy_str_def)
  qed
qed

lemma index_fold_same: "dget s i = dget tasks i \<Longrightarrow> i \<noteq> [] \<Longrightarrow> \<forall>m \<in> set ms. coherent m \<Longrightarrow>
    dget (fold (index_message ps) (filter (concerns i) ms) s) i = dget (fold (index_message ps) ms tasks) i"
proof (induction ms arbitrary: s tasks)
  case (Cons m ms)
  show ?case
  proof (cases "concerns i m")
    case True
    with Cons have "dget (index_message ps m s) i = dget (index_message ps m tasks) i"
      by (intro index_message_same) auto
    with Cons True show ?thesis by simp
  next
    case False
    then have "dget (index_message ps m tasks) i = dget tasks i" by (rule index_message_other)
    with Cons.IH [of s "index_message ps m tasks"] Cons.prems False show ?thesis by simp
  qed
qed simp

text \<open>
  C10: Tasks are isolated: what the index records of a Task (its request, who participates, who
  saw which message) is decided by the messages of that Task alone, whatever other Tasks and
  ordinary messages the log holds.
\<close>

theorem tasks_isolated:
  assumes "\<forall>m \<in> set messages. coherent m" and "i \<noteq> []"
  shows "dget (buildTaskProjectionIndex (filter (concerns i) messages) ps) i =
    dget (buildTaskProjectionIndex messages ps) i"
  unfolding buildTaskProjectionIndex_def filter_sort [symmetric]
  using assms by (intro index_fold_same) auto

subsection \<open>Nobody joins a Task uninvited\<close>

text \<open>
  The specification of participation: the Agent endpoints of a request of the Task, the Agents
  a Human addressed in it, and the Agents a participant addressed in it.
\<close>

inductive invited :: "participants \<Rightarrow> room_message list \<Rightarrow> jstr \<Rightarrow> jstr \<Rightarrow> bool"
  for ps messages requestId where
  endpoint: "m \<in> set messages \<Longrightarrow> rm_collab m = Some e \<Longrightarrow> ce_kind e = Request \<Longrightarrow>
    ce_requestId e = requestId \<Longrightarrow> a = ce_from e \<or> a = ce_target e \<Longrightarrow> agent_in ps a \<Longrightarrow>
    invited ps messages requestId a"
| by_human: "m \<in> set messages \<Longrightarrow> rm_taskRequestId m = Some requestId \<Longrightarrow>
    dget ps (rm_peerId m) = Some p \<Longrightarrow> p_kind p = Human \<Longrightarrow> addressed_to m a \<Longrightarrow> agent_in ps a \<Longrightarrow>
    invited ps messages requestId a"
| by_member: "m \<in> set messages \<Longrightarrow> rm_taskRequestId m = Some requestId \<Longrightarrow>
    dget ps (rm_peerId m) = Some p \<Longrightarrow> p_kind p = Agent \<Longrightarrow> invited ps messages requestId (p_id p) \<Longrightarrow>
    addressed_to m a \<Longrightarrow> agent_in ps a \<Longrightarrow> invited ps messages requestId a"

inductive_cases invitedE: "invited ps messages requestId a"

lemma invited_agent: "invited ps messages requestId a \<Longrightarrow> agent_in ps a"
  by (erule invitedE) auto

definition members_invited :: "participants \<Rightarrow> room_message list \<Rightarrow> task_index \<Rightarrow> bool" where
  "members_invited ps messages tasks \<longleftrightarrow> (\<forall>i t. dget tasks i = Some t \<longrightarrow>
     (\<forall>a \<in> set (te_agents t). invited ps messages i a) \<and>
     (\<forall>n as a. dget (te_bySequence t) n = Some as \<longrightarrow> a \<in> set as \<longrightarrow> invited ps messages i a))"

lemma set_new_task: "set (te_agents (new_task ps e n)) = {a. (a = ce_from e \<or> a = ce_target e) \<and> agent_in ps a}"
  by (auto simp: new_task_def addAgentEndpoint_def Let_def)

lemma new_task_bySequence [simp]: "te_bySequence (new_task ps e n) = [(n, te_agents (new_task ps e n))]"
  by (simp add: new_task_def Let_def)

lemma extend_bySequence [simp]: "te_bySequence (extend_task ps m t) =
    dput (rm_sequence m) (te_agents (extend_task ps m t)) (te_bySequence t)"
  by (simp add: extend_task_def Let_def)

lemma extend_agents: "a \<in> set (te_agents (extend_task ps m t)) \<Longrightarrow> a \<in> set (te_agents t) \<or>
    (rm_taskRequestId m \<noteq> None \<and> sender_may_extend ps (rm_peerId m) t \<and> addressed_to m a \<and> agent_in ps a)"
  by (auto simp: extend_task_def Let_def set_fold_set_add truthy_str_def addressed_to_def
      split: if_splits option.splits)

lemma extend_invited:
  assumes m: "m \<in> set messages" and i: "taskRequestIdFor m = Some i"
    and old: "\<forall>a \<in> set (te_agents t). invited ps messages i a"
    and a: "a \<in> set (te_agents (extend_task ps m t))"
  shows "invited ps messages i a"
proof (cases "a \<in> set (te_agents t)")
  case False
  with extend_agents [OF a] i have m_task: "rm_taskRequestId m = Some i" "sender_may_extend ps (rm_peerId m) t"
      "addressed_to m a" "agent_in ps a"
    by (auto simp: taskRequestIdFor_def)
  then obtain p where p: "dget ps (rm_peerId m) = Some p" "p_kind p = Human \<or> p_kind p = Agent \<and> p_id p \<in> set (te_agents t)"
    by (auto simp: sender_may_extend_def split: option.splits)
  with m m_task old show ?thesis
    by (auto intro: invited.by_human invited.by_member)
qed (use old in blast)

lemma index_message_invited:
  assumes "m \<in> set messages" and "members_invited ps messages tasks"
  shows "members_invited ps messages (index_message ps m tasks)"
proof -
  have new: "members_invited ps messages (dput (ce_requestId e) (new_task ps e (rm_sequence m)) tasks)"
    if "rm_collab m = Some e" "ce_kind e = Request" for e
    using assms that by (auto simp: members_invited_def set_new_task intro: invited.endpoint split: if_splits)
  have ext: "members_invited ps messages (dput i (extend_task ps m t) tasks)"
    if "taskRequestIdFor m = Some i" "dget tasks i = Some t" for i t
  proof -
    have "\<forall>a \<in> set (te_agents t). invited ps messages i a"
      using assms that by (auto simp: members_invited_def)
    from extend_invited [OF assms(1) that(1) this] assms(2) that(2) show ?thesis
      by (auto simp: members_invited_def split: if_splits)
  qed
  show ?thesis
    using new ext assms(2)
    by (auto simp: index_message_def truthy_str_def split: option.splits if_splits)
qed

lemma index_invited: "members_invited ps messages (buildTaskProjectionIndex messages ps)"
proof -
  have "set ms \<subseteq> set messages \<Longrightarrow> members_invited ps messages tasks \<Longrightarrow>
      members_invited ps messages (fold (index_message ps) ms tasks)" for ms tasks
    by (induction ms arbitrary: tasks) (simp_all add: index_message_invited)
  from this [of "sort_key rm_sequence messages" "[]"] show ?thesis
    by (simp add: buildTaskProjectionIndex_def members_invited_def)
qed

text \<open>
  C11: a Task message is shown to an Agent only if the Agent was invited into that Task or the
  message is the Agent's own permission terminal; the latter only when the Task's request is
  no longer in the log.
\<close>

theorem task_event_private:
  assumes "projectTaskEvent (buildTaskProjectionIndex messages ps) m a historical = Task_visible scope addressed"
  shows "\<exists>i. taskRequestIdFor m = Some i \<and> scope = scope_of i \<and>
    (invited ps messages i a \<or> own_permission_terminal m a \<and>
      dget (buildTaskProjectionIndex messages ps) i = None)"
proof -
  from assms obtain i where i: "taskRequestIdFor m = Some i"
    by (auto simp: projectTaskEvent_def truthy_str_def split: option.splits if_splits)
  with assms index_invited [of ps messages] show ?thesis
    by (auto simp: projectTaskEvent_def truthy_str_def members_invited_def Let_def
        split: option.splits if_splits)
qed

lemma all_strings_some: "all_strings vs = Some ids \<Longrightarrow> vs = map JStr ids"
  by (induction vs arbitrary: ids) (auto simp: js_str_def split: js.splits option.splits)

lemma normalizedTargets_ok: "normalizedExplicitTargets raw n = Inr (Some ts) \<Longrightarrow>
    distinct ts \<and> length ts \<le> n \<and> [] \<notin> set ts"
  by (auto simp: normalizedExplicitTargets_def Let_def list_ex_iff split: js.splits option.splits if_splits)

lemma check_human_targets_none: "check_human_targets ps is = None \<longleftrightarrow> list_all (connected_agent ps) is"
  by (induction "is") (auto intro: connected_agentI dest: connected_agentD)

lemma primary_connected: "resolveTaskRequest index raw ps = Inr r \<Longrightarrow> tr_primary r = Some a \<Longrightarrow> connected_agent ps a"
  by (auto simp: resolveTaskRequest_def Let_def filter_eq_Cons_iff
      split: js.splits option.splits if_splits list.splits)

text \<open>
  The targets the Room accepts for a Human's Task message are connected Agents, without
  repetition, at least one and at most the given number; only a connected Human gets any.
\<close>

theorem human_targets_sound:
  assumes "resolveTaskRequest index rawId ps = Inr r"
    and "resolveHumanTaskTargets r sender ps raw n = Inr targets" and "0 < n"
  shows "list_all (connected_agent ps) targets \<and> distinct targets \<and> targets \<noteq> [] \<and>
    length targets \<le> n \<and> p_kind sender = Human \<and> p_connected sender"
proof -
  from assms(2) have sender: "p_kind sender = Human" "p_connected sender"
    by (auto simp: resolveHumanTaskTargets_def split: if_splits)
  with assms(2) obtain given where given: "normalizedExplicitTargets raw n = Inr given"
    by (auto simp: resolveHumanTaskTargets_def split: sum.splits)
  show ?thesis
  proof (cases "given = None \<or> given = Some []")
    case True
    with assms(2) sender given obtain a where "tr_primary r = Some a" "targets = [a]"
      by (auto simp: resolveHumanTaskTargets_def truthy_str_def split: option.splits if_splits)
    with primary_connected [OF assms(1)] sender assms(3) show ?thesis by simp
  next
    case False
    then obtain ts where ts: "given = Some ts" "ts \<noteq> []" by auto
    with assms(2) sender given have "targets = ts" "check_human_targets ps ts = None"
      by (auto simp: resolveHumanTaskTargets_def split: option.splits)
    with given ts sender normalizedTargets_ok [of raw n ts] show ?thesis
      by (simp add: check_human_targets_none)
  qed
qed

subsection \<open>A Task that outlived its Agent\<close>

definition demo_message :: "int \<Rightarrow> string \<Rightarrow> collab_event option \<Rightarrow> string list \<Rightarrow> room_message" where
  "demo_message n peer e targets = \<lparr>rm_id = lit ''m'', rm_peerId = lit peer, rm_name = lit peer,
     rm_kind = Human, rm_type = (if e = None then Text_message else Action_message), rm_text = None,
     rm_actionType = None, rm_actionPayload = None, rm_collab = e, rm_permission = None,
     rm_taskRequestId = (if e = None then Some (lit ''req-1'') else None),
     rm_targets = Some (map lit targets), rm_createdAt = 0, rm_sequence = n\<rparr>"

text \<open>Ana asks the Agent \<open>old\<close> for work; the Agent leaves; Ana admits \<open>bot\<close>.\<close>

definition demo_log :: "room_message list" where
  "demo_log = [demo_message 1 ''ana'' (Some \<lparr>ce_requestId = lit ''req-1'', ce_kind = Request,
       ce_from = lit ''ana'', ce_target = lit ''old'', ce_summary = None, ce_details = None,
       ce_attachmentIds = None\<rparr>) [''old''], demo_message 2 ''ana'' None [''bot'']]"

definition demo_resolution :: task_resolution where
  "demo_resolution = \<lparr>tr_requestId = lit ''req-1'', tr_request = the (rm_collab (hd demo_log)),
     tr_primary = Some (lit ''bot''), tr_agents = [lit ''bot'']\<rparr>"

text \<open>
  Once the Agent a Task was addressed to has left, a Human's message without a target is
  routed to another Agent that joined the Task later.
\<close>

theorem implicit_target_is_another_agent:
  "resolveTaskRequest (buildTaskProjectionIndex demo_log demo_participants) (JStr (lit ''req-1''))
     demo_participants = Inr demo_resolution \<and>
   resolveHumanTaskTargets demo_resolution (demo_participant ''ana'' Human True) demo_participants
     JUndefined 8 = Inr [lit ''bot''] \<and>
   lit ''bot'' \<notin> {ce_from (tr_request demo_resolution), ce_target (tr_request demo_resolution)}"
  by code_simp

theorem human_targets_sound_witness:
  "list_all (connected_agent demo_participants) [lit ''bot'']"
  by (rule human_targets_sound [where rawId = "JStr (lit ''req-1'')"
        and index = "buildTaskProjectionIndex demo_log demo_participants" and r = demo_resolution
        and sender = "demo_participant ''ana'' Human True" and raw = JUndefined and n = 8,
        THEN conjunct1]) code_simp+

theorem task_event_private_witness:
  "\<exists>i. taskRequestIdFor (hd demo_log) = Some i \<and> lit ''task:req-1'' = scope_of i \<and>
    (invited demo_participants demo_log i (lit ''old'') \<or>
     own_permission_terminal (hd demo_log) (lit ''old'') \<and>
      dget (buildTaskProjectionIndex demo_log demo_participants) i = None)"
  by (rule task_event_private [where historical = False and addressed = True]) code_simp

theorem tasks_isolated_witness:
  "dget (buildTaskProjectionIndex (filter (concerns (lit ''req-1''))
      (demo_log @ [(demo_message 3 ''bot'' None [''old''])\<lparr>rm_taskRequestId := Some (lit ''req-2'')\<rparr>]))
      demo_participants) (lit ''req-1'') =
    dget (buildTaskProjectionIndex
      (demo_log @ [(demo_message 3 ''bot'' None [''old''])\<lparr>rm_taskRequestId := Some (lit ''req-2'')\<rparr>])
      demo_participants) (lit ''req-1'')"
  by (rule tasks_isolated) code_simp+

end
