(* ===== verification/Permission.thy ===== *)
theory Permission
  imports Json Collab
begin

text \<open>
  Permission requests (app/src/do/permission.ts): the bounded presentation of an action an
  Agent asks a Human to allow. A result is the error code or the sanitized request.
\<close>

definition MAX_PERMISSION_REQUEST_ID_LENGTH :: nat where "MAX_PERMISSION_REQUEST_ID_LENGTH = 64"
definition MAX_PERMISSION_TITLE_LENGTH :: nat where "MAX_PERMISSION_TITLE_LENGTH = 200"
definition MAX_PERMISSION_KIND_LENGTH :: nat where "MAX_PERMISSION_KIND_LENGTH = 64"
definition MAX_PERMISSION_SUMMARY_LENGTH :: nat where "MAX_PERMISSION_SUMMARY_LENGTH = 1000"
definition MAX_PERMISSION_DETAILS_ENTRIES :: nat where "MAX_PERMISSION_DETAILS_ENTRIES = 12"
definition MAX_PERMISSION_DETAIL_KEY_LENGTH :: nat where "MAX_PERMISSION_DETAIL_KEY_LENGTH = 64"
definition MAX_PERMISSION_DETAIL_VALUE_LENGTH :: nat where "MAX_PERMISSION_DETAIL_VALUE_LENGTH = 512"
definition MAX_PERMISSION_OPTIONS :: nat where "MAX_PERMISSION_OPTIONS = 8"
definition MAX_PERMISSION_OPTION_ID_LENGTH :: nat where "MAX_PERMISSION_OPTION_ID_LENGTH = 64"
definition MAX_PERMISSION_OPTION_NAME_LENGTH :: nat where "MAX_PERMISSION_OPTION_NAME_LENGTH = 160"
definition MIN_PERMISSION_LIFETIME_MS :: int where "MIN_PERMISSION_LIFETIME_MS = 1000"
definition DEFAULT_PERMISSION_LIFETIME_MS :: int where "DEFAULT_PERMISSION_LIFETIME_MS = 2 * 60 * 1000"
definition MAX_PERMISSION_LIFETIME_MS :: int where "MAX_PERMISSION_LIFETIME_MS = 5 * 60 * 1000"

lemmas permission_bounds = MAX_PERMISSION_REQUEST_ID_LENGTH_def MAX_PERMISSION_TITLE_LENGTH_def
  MAX_PERMISSION_KIND_LENGTH_def MAX_PERMISSION_SUMMARY_LENGTH_def MAX_PERMISSION_DETAILS_ENTRIES_def
  MAX_PERMISSION_DETAIL_KEY_LENGTH_def MAX_PERMISSION_DETAIL_VALUE_LENGTH_def MAX_PERMISSION_OPTIONS_def
  MAX_PERMISSION_OPTION_ID_LENGTH_def MAX_PERMISSION_OPTION_NAME_LENGTH_def
  MIN_PERMISSION_LIFETIME_MS_def DEFAULT_PERMISSION_LIFETIME_MS_def MAX_PERMISSION_LIFETIME_MS_def

definition isValidPermissionTaskRequestId :: "jstr \<Rightarrow> bool" where
  "isValidPermissionTaskRequestId s = REQUEST_ID_PATTERN s"

definition validateBoundedString :: "js \<Rightarrow> nat \<Rightarrow> string \<Rightarrow> string \<Rightarrow> string + jstr" where
  "validateBoundedString v m requiredError invalidError = (case v of
     JStr s \<Rightarrow> (let normalized = js_trim s in
       if normalized = [] then Inl requiredError
       else if m < length normalized then Inl (invalidError @ ''_too_long'')
       else Inr normalized)
   | _ \<Rightarrow> Inl invalidError)"

definition validateOptionalString :: "js \<Rightarrow> nat \<Rightarrow> string + jstr option" where
  "validateOptionalString v m = (case v of
     JUndefined \<Rightarrow> Inr None
   | JStr s \<Rightarrow> (let normalized = js_trim s in
       if normalized = [] then Inr None
       else if m < length normalized then Inl ''string_too_long'' else Inr (Some normalized))
   | _ \<Rightarrow> Inl ''invalid_string'')"

fun permission_details :: "(jstr \<times> js) list \<Rightarrow> (jstr, jstr) dict \<Rightarrow> string + (jstr, jstr) dict" where
  "permission_details [] details = Inr details"
| "permission_details ((key, raw) # rest) details = (case raw of
     JStr s \<Rightarrow>
       if length key = 0 \<or> MAX_PERMISSION_DETAIL_KEY_LENGTH < length key
          \<or> MAX_PERMISSION_DETAIL_VALUE_LENGTH < length s
       then Inl ''invalid_tool_call_detail''
       else permission_details rest (assign_str key s details)
   | _ \<Rightarrow> Inl ''invalid_tool_call_detail'')"

definition validateDetails :: "js \<Rightarrow> string + (jstr, jstr) dict option" where
  "validateDetails v = (case v of
     JUndefined \<Rightarrow> Inr None
   | JObj entries \<Rightarrow>
       if MAX_PERMISSION_DETAILS_ENTRIES < length entries then Inl ''too_many_tool_call_details''
       else map_sum id (\<lambda>d. if 0 < length entries then Some d else None) (permission_details entries [])
   | _ \<Rightarrow> Inl ''invalid_tool_call_details'')"

definition validateToolCall :: "js \<Rightarrow> string + permission_tool_call" where
  "validateToolCall v =
     (if \<not> is_record v then Inl ''tool_call_required''
      else (case validateBoundedString (js_get v ''title'') MAX_PERMISSION_TITLE_LENGTH
          ''tool_call_title_required'' ''tool_call_title'' of
        Inl e \<Rightarrow> Inl e
      | Inr title \<Rightarrow> (case validateOptionalString (js_get v ''kind'') MAX_PERMISSION_KIND_LENGTH of
          Inl e \<Rightarrow> Inl ''invalid_tool_call_kind''
        | Inr kind \<Rightarrow> (case validateOptionalString (js_get v ''summary'') MAX_PERMISSION_SUMMARY_LENGTH of
            Inl e \<Rightarrow> Inl ''invalid_tool_call_summary''
          | Inr summary \<Rightarrow> (case validateDetails (js_get v ''details'') of
              Inl e \<Rightarrow> Inl e
            | Inr details \<Rightarrow> Inr \<lparr>tc_title = title, tc_kind = kind, tc_summary = summary,
                tc_details = details\<rparr>)))))"

definition permission_option_of :: "js \<Rightarrow> jstr list \<Rightarrow> string + permission_option" where
  "permission_option_of raw seen =
     (if \<not> is_record raw then Inl ''invalid_permission_option''
      else (case validateBoundedString (js_get raw ''optionId'') MAX_PERMISSION_OPTION_ID_LENGTH
          ''permission_option_id_required'' ''permission_option_id'' of
        Inl e \<Rightarrow> Inl e
      | Inr optionId \<Rightarrow>
          if optionId \<in> set seen then Inl ''duplicate_permission_option''
          else (case validateBoundedString (js_get raw ''name'') MAX_PERMISSION_OPTION_NAME_LENGTH
              ''permission_option_name_required'' ''permission_option_name'' of
            Inl e \<Rightarrow> Inl e
          | Inr name \<Rightarrow> (case validateOptionalString (js_get raw ''kind'') MAX_PERMISSION_KIND_LENGTH of
              Inl e \<Rightarrow> Inl ''invalid_permission_option_kind''
            | Inr kind \<Rightarrow> Inr \<lparr>po_optionId = optionId, po_name = name, po_kind = kind\<rparr>))))"

fun permission_options :: "js list \<Rightarrow> permission_option list \<Rightarrow> string + permission_option list" where
  "permission_options [] options = Inr options"
| "permission_options (raw # rest) options =
     (case permission_option_of raw (map po_optionId options) of
        Inl e \<Rightarrow> Inl e | Inr opt \<Rightarrow> permission_options rest (options @ [opt]))"

definition validateOptions :: "js \<Rightarrow> string + permission_option list" where
  "validateOptions v = (case v of
     JArr raws \<Rightarrow>
       if length raws = 0 then Inl ''permission_options_required''
       else if MAX_PERMISSION_OPTIONS < length raws then Inl ''too_many_permission_options''
       else permission_options raws []
   | _ \<Rightarrow> Inl ''permission_options_required'')"

definition permissionLifetime :: "js \<Rightarrow> string + int" where
  "permissionLifetime v =
     (if v = JUndefined then Inr DEFAULT_PERMISSION_LIFETIME_MS
      else (case js_safe_int v of
        Some i \<Rightarrow> if i < MIN_PERMISSION_LIFETIME_MS \<or> MAX_PERMISSION_LIFETIME_MS < i
          then Inl ''invalid_permission_lifetime'' else Inr i
      | None \<Rightarrow> Inl ''invalid_permission_lifetime''))"

record permission_input =
  pi_requestId :: js
  pi_toolCall :: js
  pi_options :: js
  pi_expiresInMs :: js
  pi_taskRequestId :: js

record permission_valid =
  pv_requestId :: jstr
  pv_toolCall :: permission_tool_call
  pv_options :: "permission_option list"
  pv_expiresAt :: int
  pv_taskRequestId :: "jstr option"

definition permission_task :: "js \<Rightarrow> string + jstr option" where
  "permission_task v = (case v of
     JUndefined \<Rightarrow> Inr None
   | JStr s \<Rightarrow> if isValidPermissionTaskRequestId s then Inr (Some s) else Inl ''invalid_task_request''
   | _ \<Rightarrow> Inl ''invalid_task_request'')"

definition validatePermissionRequest :: "permission_input \<Rightarrow> int \<Rightarrow> string + permission_valid" where
  "validatePermissionRequest input now = (case pi_requestId input of
     JStr raw \<Rightarrow>
       (let requestId = js_trim raw in
        if length requestId = 0 \<or> MAX_PERMISSION_REQUEST_ID_LENGTH < length requestId
           \<or> \<not> REQUEST_ID_PATTERN requestId
        then Inl ''invalid_permission_request_id''
        else (case validateToolCall (pi_toolCall input) of
          Inl e \<Rightarrow> Inl e
        | Inr toolCall \<Rightarrow> (case validateOptions (pi_options input) of
            Inl e \<Rightarrow> Inl e
          | Inr options \<Rightarrow> (case permissionLifetime (pi_expiresInMs input) of
              Inl e \<Rightarrow> Inl e
            | Inr lifetime \<Rightarrow> (case permission_task (pi_taskRequestId input) of
                Inl e \<Rightarrow> Inl e
              | Inr task \<Rightarrow> Inr \<lparr>pv_requestId = requestId, pv_toolCall = toolCall,
                  pv_options = options, pv_expiresAt = now + lifetime, pv_taskRequestId = task\<rparr>)))))
   | _ \<Rightarrow> Inl ''permission_request_id_required'')"

subsection \<open>Equivalence of two requests\<close>

definition opt_field :: "string \<Rightarrow> jstr option \<Rightarrow> (jstr \<times> js) list" where
  "opt_field k v = (case v of Some s \<Rightarrow> [(lit k, JStr s)] | None \<Rightarrow> [])"

definition tool_call_js :: "permission_tool_call \<Rightarrow> js" where
  "tool_call_js c = JObj ([(lit ''title'', JStr (tc_title c))] @ opt_field ''kind'' (tc_kind c) @
     opt_field ''summary'' (tc_summary c) @
     (case tc_details c of None \<Rightarrow> []
      | Some d \<Rightarrow> [(lit ''details'', JObj (map (\<lambda>(k, v). (k, JStr v)) d))]))"

definition option_js :: "permission_option \<Rightarrow> js" where
  "option_js p = JObj ([(lit ''optionId'', JStr (po_optionId p)), (lit ''name'', JStr (po_name p))] @
     opt_field ''kind'' (po_kind p))"

definition permissionRequestFingerprint ::
    "(rat \<Rightarrow> jstr) \<Rightarrow> permission_request \<Rightarrow> jstr option \<Rightarrow> jstr" where
  "permissionRequestFingerprint ntext event task = json_text ntext (JObj
     [(lit ''requestId'', JStr (pq_requestId event)), (lit ''agentParticipantId'', JStr (pq_agent event)),
      (lit ''taskRequestId'', (case task of Some t \<Rightarrow> JStr t | None \<Rightarrow> JNull)),
      (lit ''toolCall'', tool_call_js (pq_toolCall event)),
      (lit ''options'', JArr (map option_js (pq_options event)))])"

definition pendingPermissionRequestIsEquivalent ::
    "(rat \<Rightarrow> jstr) \<Rightarrow> permission_record \<Rightarrow> permission_request \<Rightarrow> jstr option \<Rightarrow> bool" where
  "pendingPermissionRequestIsEquivalent ntext rec event task \<longleftrightarrow>
     permissionRequestFingerprint ntext (pp_event rec) (pp_taskRequestId rec) =
     permissionRequestFingerprint ntext event (case task of Some t \<Rightarrow> Some t | None \<Rightarrow> pp_taskRequestId rec)"

subsection \<open>What a valid request satisfies\<close>

definition opt_bounded :: "jstr option \<Rightarrow> nat \<Rightarrow> bool" where
  "opt_bounded s m = (case s of None \<Rightarrow> True | Some t \<Rightarrow> t \<noteq> [] \<and> length t \<le> m)"

definition tool_call_ok :: "permission_tool_call \<Rightarrow> bool" where
  "tool_call_ok c \<longleftrightarrow> tc_title c \<noteq> [] \<and> length (tc_title c) \<le> MAX_PERMISSION_TITLE_LENGTH \<and>
     opt_bounded (tc_kind c) MAX_PERMISSION_KIND_LENGTH \<and>
     opt_bounded (tc_summary c) MAX_PERMISSION_SUMMARY_LENGTH \<and>
     (case tc_details c of None \<Rightarrow> True | Some d \<Rightarrow> length d \<le> MAX_PERMISSION_DETAILS_ENTRIES \<and>
        list_all (\<lambda>(k, v). 0 < length k \<and> length k \<le> MAX_PERMISSION_DETAIL_KEY_LENGTH \<and>
          length v \<le> MAX_PERMISSION_DETAIL_VALUE_LENGTH) d)"

definition option_ok :: "permission_option \<Rightarrow> bool" where
  "option_ok p \<longleftrightarrow> po_optionId p \<noteq> [] \<and> length (po_optionId p) \<le> MAX_PERMISSION_OPTION_ID_LENGTH \<and>
     po_name p \<noteq> [] \<and> length (po_name p) \<le> MAX_PERMISSION_OPTION_NAME_LENGTH \<and>
     opt_bounded (po_kind p) MAX_PERMISSION_KIND_LENGTH"

definition permission_ok :: "int \<Rightarrow> permission_valid \<Rightarrow> bool" where
  "permission_ok now p \<longleftrightarrow> REQUEST_ID_PATTERN (pv_requestId p) \<and> tool_call_ok (pv_toolCall p) \<and>
     pv_options p \<noteq> [] \<and> length (pv_options p) \<le> MAX_PERMISSION_OPTIONS \<and>
     list_all option_ok (pv_options p) \<and> distinct (map po_optionId (pv_options p)) \<and>
     now + MIN_PERMISSION_LIFETIME_MS \<le> pv_expiresAt p \<and>
     pv_expiresAt p \<le> now + MAX_PERMISSION_LIFETIME_MS"

lemma bounded_string_ok: "validateBoundedString v m r i = Inr s \<Longrightarrow> s \<noteq> [] \<and> length s \<le> m"
  by (auto simp: validateBoundedString_def Let_def split: js.splits if_splits)

lemma optional_string_ok: "validateOptionalString v m = Inr s \<Longrightarrow> opt_bounded s m"
  by (auto simp: validateOptionalString_def opt_bounded_def Let_def split: js.splits if_splits)

lemma permission_details_ok:
  "permission_details es d = Inr d' \<Longrightarrow> list_all (\<lambda>(k, v). 0 < length k \<and>
      length k \<le> MAX_PERMISSION_DETAIL_KEY_LENGTH \<and> length v \<le> MAX_PERMISSION_DETAIL_VALUE_LENGTH) d \<Longrightarrow>
   length d' \<le> length d + length es \<and> list_all (\<lambda>(k, v). 0 < length k \<and>
      length k \<le> MAX_PERMISSION_DETAIL_KEY_LENGTH \<and> length v \<le> MAX_PERMISSION_DETAIL_VALUE_LENGTH) d'"
proof (induction es d rule: permission_details.induct)
  case (2 key v rest d)
  show ?case
  proof (cases v)
    case (JStr w)
    have "list_all (\<lambda>(k, v). 0 < length k \<and> length k \<le> MAX_PERMISSION_DETAIL_KEY_LENGTH \<and>
        length v \<le> MAX_PERMISSION_DETAIL_VALUE_LENGTH) (assign_str key w d)"
      using 2 JStr by (auto simp: assign_str_def split: if_splits intro!: list_all_dput)
    with 2 JStr length_assign_str [of key w d] show ?thesis
      by (fastforce split: if_splits)
  qed (use 2 in auto)
qed simp

lemma validateDetails_ok: "validateDetails v = Inr (Some d) \<Longrightarrow> length d \<le> MAX_PERMISSION_DETAILS_ENTRIES \<and>
    list_all (\<lambda>(k, v). 0 < length k \<and> length k \<le> MAX_PERMISSION_DETAIL_KEY_LENGTH \<and>
      length v \<le> MAX_PERMISSION_DETAIL_VALUE_LENGTH) d"
  using permission_details_ok [of _ "[]" d]
  by (fastforce simp: validateDetails_def map_sum_def split: js.splits if_splits sum.splits)

lemma validateToolCall_ok: "validateToolCall v = Inr c \<Longrightarrow> tool_call_ok c"
  by (clarsimp simp: validateToolCall_def split: if_split_asm sum.splits)
    (auto simp: tool_call_ok_def dest: bounded_string_ok optional_string_ok validateDetails_ok split: option.split)

lemma permission_option_ok: "permission_option_of raw seen = Inr p \<Longrightarrow> option_ok p \<and> po_optionId p \<notin> set seen"
  by (clarsimp simp: permission_option_of_def split: if_split_asm sum.splits)
    (auto simp: option_ok_def dest: bounded_string_ok optional_string_ok)

lemma permission_options_ok:
  "permission_options raws acc = Inr ps \<Longrightarrow> list_all option_ok acc \<Longrightarrow> distinct (map po_optionId acc) \<Longrightarrow>
   list_all option_ok ps \<and> distinct (map po_optionId ps) \<and> length ps = length acc + length raws"
proof (induction raws acc rule: permission_options.induct)
  case (2 raw rest acc)
  then obtain p where "permission_option_of raw (map po_optionId acc) = Inr p"
    by (auto split: sum.splits)
  with 2 permission_option_ok [OF this] show ?case by auto
qed simp

lemma validateOptions_ok: "validateOptions v = Inr ps \<Longrightarrow> ps \<noteq> [] \<and> length ps \<le> MAX_PERMISSION_OPTIONS \<and>
    list_all option_ok ps \<and> distinct (map po_optionId ps)"
  using permission_options_ok [of _ "[]" ps]
  by (fastforce simp: validateOptions_def split: js.splits if_splits)

lemma permissionLifetime_ok: "permissionLifetime v = Inr i \<Longrightarrow>
    MIN_PERMISSION_LIFETIME_MS \<le> i \<and> i \<le> MAX_PERMISSION_LIFETIME_MS"
  by (auto simp: permissionLifetime_def permission_bounds split: option.splits if_splits)

text \<open>
  An accepted permission request is bounded in every field a Human is shown, offers one to
  eight options with distinct ids, and lives between one second and five minutes.
\<close>

theorem validatePermissionRequest_sound:
  assumes "validatePermissionRequest input now = Inr p"
  shows "permission_ok now p"
  using assms
  by (clarsimp simp: validatePermissionRequest_def Let_def split: js.splits if_split_asm sum.splits)
    (auto simp: permission_ok_def dest: validateToolCall_ok validateOptions_ok permissionLifetime_ok)

definition demo_permission_input :: permission_input where
  "demo_permission_input = \<lparr>pi_requestId = JStr (lit ''perm-1''),
     pi_toolCall = JObj [(lit ''title'', JStr (lit ''rm -r''))],
     pi_options = JArr [JObj [(lit ''optionId'', JStr (lit ''yes'')), (lit ''name'', JStr (lit ''Allow''))]],
     pi_expiresInMs = JNum (jint 5000), pi_taskRequestId = JUndefined\<rparr>"

definition demo_permission_valid :: permission_valid where
  "demo_permission_valid = \<lparr>pv_requestId = lit ''perm-1'', pv_toolCall = \<lparr>tc_title = lit ''rm -r'',
     tc_kind = None, tc_summary = None, tc_details = None\<rparr>, pv_options = [\<lparr>po_optionId = lit ''yes'',
     po_name = lit ''Allow'', po_kind = None\<rparr>], pv_expiresAt = 5100, pv_taskRequestId = None\<rparr>"

theorem validatePermissionRequest_sound_witness: "permission_ok 100 demo_permission_valid"
  by (rule validatePermissionRequest_sound [of demo_permission_input]) code_simp

end
