(* ===== verification/Room_State.thy ===== *)
theory Room_State
  imports Live_Transcript Task_Scope Permission
begin

text \<open>
  The Room record (RoomRecord of app/src/room/types.ts) and the parts of RoomSession that
  every handler shares: expiry of an empty Room, the message ring with its storage budget,
  chat targets, and the staging of media revocations. Fields no modelled handler touches
  (analytics id, live views, generated apps, long-poll bookkeeping) are left out.

  Two parameters stand for what the record does not hold: \<open>fits\<close> says whether the JSON text of
  the primary record stays within the storage budget, and \<open>uuid n\<close> is the random id drawn for
  the message with sequence \<open>n\<close>.
\<close>

subsection \<open>The record\<close>

record attachment =
  at_id :: jstr
  at_senderId :: jstr
  at_senderName :: jstr
  at_senderKind :: participant_kind
  at_mimeType :: jstr
  at_fileName :: jstr
  at_size :: int
  at_chunkCount :: int
  at_createdAt :: int
  at_sequence :: int
  at_taskRequestId :: "jstr option"
  at_taskWake :: "bool option"

record collaboration_activity =
  col_startedAt :: int
  col_sawHuman :: bool
  col_sawAgent :: bool
  col_peak :: int

record room =
  r_createdAt :: int
  r_expiresAt :: int
  r_participants :: participants
  r_runtimeHosts :: "runtime_hosts option"
  r_collaboration :: "collaboration_activity option"
  r_messages :: "room_message list"
  r_permissionRequests :: "(jstr, permission_record) dict"
  r_transcript :: transcript
  r_attachments :: "attachment list"
  r_nextMessageSequence :: int
  r_meetingNotes :: meeting_notes
  r_agentVoice :: agent_voice
  r_pendingMediaCleanup :: "pending_cleanup list"

definition room_people :: "room \<Rightarrow> participant list" where
  "room_people r = map snd (r_participants r)"

subsection \<open>Expiry of an empty Room\<close>

definition EMPTY_ROOM_TIMEOUT_MS :: int where "EMPTY_ROOM_TIMEOUT_MS = 30 * 60 * 1000"

text \<open>\<open>Date.UTC(2100, 0, 1)\<close>.\<close>

definition NO_EXPIRY :: int where "NO_EXPIRY = 4102444800000"

definition computeExpiresAt :: "nat \<Rightarrow> int \<Rightarrow> int \<Rightarrow> int" where
  "computeExpiresAt participantCount currentExpiresAt now =
     (if 0 < participantCount then NO_EXPIRY
      else if currentExpiresAt = NO_EXPIRY then now + EMPTY_ROOM_TIMEOUT_MS else currentExpiresAt)"

definition applyEmptyRoomExpiry :: "int \<Rightarrow> room \<Rightarrow> room" where
  "applyEmptyRoomExpiry now r =
     r\<lparr>r_expiresAt := computeExpiresAt (length (r_participants r)) (r_expiresAt r) now\<rparr>"

definition isExpired :: "int \<Rightarrow> room \<Rightarrow> bool" where
  "isExpired now r \<longleftrightarrow> r_expiresAt r \<le> now"

subsection \<open>The collaboration interval\<close>

record duration_summary =
  ds_durationMs :: int
  ds_mode :: string
  ds_peak :: int

definition transitionCollaborationActivity :: "participant list \<Rightarrow> collaboration_activity option \<Rightarrow> int \<Rightarrow>
    collaboration_activity option \<times> duration_summary option" where
  "transitionCollaborationActivity ps existing now =
     (let n = length ps;
          sawHuman = (case existing of Some a \<Rightarrow> col_sawHuman a | None \<Rightarrow> False)
            \<or> list_ex (\<lambda>p. p_kind p = Human) ps;
          sawAgent = (case existing of Some a \<Rightarrow> col_sawAgent a | None \<Rightarrow> False)
            \<or> list_ex (\<lambda>p. p_kind p = Agent) ps;
          peak = max (case existing of Some a \<Rightarrow> col_peak a | None \<Rightarrow> 0) (int n) in
      if 2 \<le> n then
        (Some \<lparr>col_startedAt = (case existing of Some a \<Rightarrow> col_startedAt a | None \<Rightarrow> now),
           col_sawHuman = sawHuman, col_sawAgent = sawAgent, col_peak = max 2 peak\<rparr>, None)
      else (case existing of
        None \<Rightarrow> (None, None)
      | Some a \<Rightarrow> (None, Some \<lparr>ds_durationMs = max 0 (now - col_startedAt a),
          ds_mode = (if sawHuman \<and> sawAgent then ''human-agent''
            else if sawAgent then ''agent-only'' else ''human-only''),
          ds_peak = col_peak a\<rparr>)))"

definition updateCollaborationActivity :: "int \<Rightarrow> room \<Rightarrow> room" where
  "updateCollaborationActivity now r = r\<lparr>r_collaboration :=
     fst (transitionCollaborationActivity (room_people r) (r_collaboration r) now)\<rparr>"

subsection \<open>The message ring\<close>

definition MAX_MESSAGES :: nat where "MAX_MESSAGES = 100"

fun trim_loop :: "(room_message list \<Rightarrow> bool) \<Rightarrow> room_message list \<Rightarrow> room_message list" where
  "trim_loop ok (m # m' # ms) = (if ok (m' # ms) then m' # ms else trim_loop ok (m' # ms))"
| "trim_loop ok ms = ms"

definition trimRoomMessagesToBudget :: "(room \<Rightarrow> bool) \<Rightarrow> room \<Rightarrow> room" where
  "trimRoomMessagesToBudget fits r = (if fits r then r
     else r\<lparr>r_messages := trim_loop (\<lambda>ms. fits (r\<lparr>r_messages := ms\<rparr>)) (r_messages r)\<rparr>)"

text \<open>The message comes without a sequence; the Room allocates the next one.\<close>

definition appendMessage :: "(room \<Rightarrow> bool) \<Rightarrow> room_message \<Rightarrow> room \<Rightarrow> room \<times> room_message" where
  "appendMessage fits message r =
     (let n = r_nextMessageSequence r + 1; m = message\<lparr>rm_sequence := n\<rparr> in
      (trimRoomMessagesToBudget fits
         (r\<lparr>r_nextMessageSequence := n, r_messages := slice_last MAX_MESSAGES (r_messages r @ [m])\<rparr>), m))"

text \<open>A save trims again and fails closed when the record still does not fit.\<close>

definition saveRoom :: "(room \<Rightarrow> bool) \<Rightarrow> room \<Rightarrow> room option" where
  "saveRoom fits r = (let r' = trimRoomMessagesToBudget fits r in if fits r' then Some r' else None)"

subsection \<open>Chat targets\<close>

definition MAX_TARGETS :: nat where "MAX_TARGETS = 8"

text \<open>\<open>id in room.participants\<close>: inherited names count.\<close>

definition in_object :: "jstr \<Rightarrow> (jstr, 'v) dict \<Rightarrow> bool" where
  "in_object i m \<longleftrightarrow> dget m i \<noteq> None \<or> i \<in> set proto_keys"

definition normalizeChatTargets :: "participants \<Rightarrow> js \<Rightarrow> jstr option \<Rightarrow> jstr list" where
  "normalizeChatTargets ps raw excludeId = take MAX_TARGETS (dedupe
     (filter (\<lambda>i. Some i \<noteq> excludeId) (filter (\<lambda>i. in_object i ps)
       (js_strs (case raw of JArr vs \<Rightarrow> vs | _ \<Rightarrow> [])))))"

subsection \<open>Staging revocations in the Room\<close>

definition isAgentAuthorizedForLiveTranscriptMedia :: "bool \<Rightarrow> room \<Rightarrow> participant \<Rightarrow> js_error + bool" where
  "isAgentAuthorizedForLiveTranscriptMedia media r p =
     canAgentAppendLiveTranscript (lv_state (r_transcript r)) p (room_people r) (r_runtimeHosts r) media"

definition stage_in_room :: "jstr \<Rightarrow> direction \<Rightarrow> room \<Rightarrow> room" where
  "stage_in_room i d r =
     (case stageAgentMediaRevocation (dget (r_participants r) i) (r_pendingMediaCleanup r) d of
        (p, queue) \<Rightarrow> r\<lparr>r_pendingMediaCleanup := queue,
          r_participants := (case p of Some a \<Rightarrow> dput i a (r_participants r) | None \<Rightarrow> r_participants r)\<rparr>)"

text \<open>
  A subscription the Live Transcript still authorizes survives the revocation of a grant. A
  participant id that is an inherited name finds no Agent and stages nothing.
\<close>

definition stage_revocation :: "bool \<Rightarrow> revocation \<Rightarrow> room \<Rightarrow> js_error + room" where
  "stage_revocation media v r = (case dget (r_participants r) (rv_participantId v) of
     None \<Rightarrow> Inr r
   | Some p \<Rightarrow>
       if rv_direction v = Subscribed \<or> rv_direction v = Both then
         and_then (isAgentAuthorizedForLiveTranscriptMedia media r p) (\<lambda>authorized.
           Inr (if authorized
             then (if rv_direction v = Both then stage_in_room (rv_participantId v) Published r else r)
             else stage_in_room (rv_participantId v) (rv_direction v) r))
       else Inr (stage_in_room (rv_participantId v) (rv_direction v) r))"

definition stageMediaGrantRevocations :: "bool \<Rightarrow> revocation list \<Rightarrow> room \<Rightarrow> js_error + room" where
  "stageMediaGrantRevocations media vs r = fold_result (stage_revocation media) vs r"

definition stageLiveTranscriptMediaRevocation :: "room \<Rightarrow> room" where
  "stageLiveTranscriptMediaRevocation r = (case lv_state (r_transcript r) of
     LT_inactive \<Rightarrow> r
   | LT_active producer epoch startedAt \<Rightarrow>
       fold (\<lambda>p r. if p_kind p = Agent \<and> p_runtimeHostId p = Some producer \<and>
            \<not> isAgentAuthorizedForMedia (r_meetingNotes r) (p_id p)
          then stage_in_room (p_id p) Subscribed r else r) (room_people r) r)"

definition normalize_transcript_in_room :: "bool \<Rightarrow> room \<Rightarrow> js_error + room" where
  "normalize_transcript_in_room media r =
     and_then (normalizeLiveTranscriptProducer (lv_state (r_transcript r)) (room_people r)
         (r_runtimeHosts r) media)
       (\<lambda>(lt, changed). Inr (if changed
          then (let r' = stageLiveTranscriptMediaRevocation r in
            r'\<lparr>r_transcript := (r_transcript r')\<lparr>lv_state := lt\<rparr>\<rparr>)
          else r))"

definition garbageCollectRuntimeHostAuthorization :: "bool \<Rightarrow> room \<Rightarrow> js_error + room" where
  "garbageCollectRuntimeHostAuthorization media r = normalize_transcript_in_room media
     (r\<lparr>r_runtimeHosts := garbageCollectRuntimeHosts (r_runtimeHosts r) (room_people r)\<rparr>)"

subsection \<open>The ring keeps the newest messages in order\<close>

lemma trim_loop_suffix: "suffix (trim_loop ok ms) ms"
  by (induction ok ms rule: trim_loop.induct) (auto intro: suffix_ConsI)

lemma trim_loop_nonempty: "ms \<noteq> [] \<Longrightarrow> trim_loop ok ms \<noteq> []"
  by (induction ok ms rule: trim_loop.induct) auto

lemma trim_suffix: "suffix (r_messages (trimRoomMessagesToBudget fits r)) (r_messages r)"
  by (simp add: trimRoomMessagesToBudget_def trim_loop_suffix)

lemma trim_nonempty: "r_messages r \<noteq> [] \<Longrightarrow> r_messages (trimRoomMessagesToBudget fits r) \<noteq> []"
  by (simp add: trimRoomMessagesToBudget_def trim_loop_nonempty)

lemma trim_same [simp]: "r_nextMessageSequence (trimRoomMessagesToBudget fits r) = r_nextMessageSequence r"
  "r_participants (trimRoomMessagesToBudget fits r) = r_participants r"
  "r_permissionRequests (trimRoomMessagesToBudget fits r) = r_permissionRequests r"
  "r_attachments (trimRoomMessagesToBudget fits r) = r_attachments r"
  by (simp_all add: trimRoomMessagesToBudget_def)

lemma append_suffix: "suffix (r_messages (fst (appendMessage fits m r)))
    (r_messages r @ [m\<lparr>rm_sequence := r_nextMessageSequence r + 1\<rparr>])"
proof -
  let ?m = "m\<lparr>rm_sequence := r_nextMessageSequence r + 1\<rparr>"
  let ?r = "r\<lparr>r_nextMessageSequence := r_nextMessageSequence r + 1,
      r_messages := slice_last MAX_MESSAGES (r_messages r @ [?m])\<rparr>"
  have "suffix (r_messages (trimRoomMessagesToBudget fits ?r)) (slice_last MAX_MESSAGES (r_messages r @ [?m]))"
    using trim_suffix [of fits ?r] by simp
  also have "suffix \<dots> (r_messages r @ [?m])" by (rule slice_last_suffix)
  finally show ?thesis by (simp add: appendMessage_def Let_def)
qed

lemma append_bound: "length (r_messages (fst (appendMessage fits m r))) \<le> MAX_MESSAGES"
proof -
  let ?r = "r\<lparr>r_nextMessageSequence := r_nextMessageSequence r + 1,
      r_messages := slice_last MAX_MESSAGES (r_messages r @ [m\<lparr>rm_sequence := r_nextMessageSequence r + 1\<rparr>])\<rparr>"
  have "length (r_messages (trimRoomMessagesToBudget fits ?r)) \<le> length (r_messages ?r)"
    by (rule suffix_length_le [OF trim_suffix])
  also have "\<dots> \<le> MAX_MESSAGES" by (simp add: length_slice_last MAX_MESSAGES_def)
  finally show ?thesis by (simp add: appendMessage_def Let_def)
qed

lemma append_same [simp]: "r_nextMessageSequence (fst (appendMessage fits m r)) = r_nextMessageSequence r + 1"
  "r_participants (fst (appendMessage fits m r)) = r_participants r"
  "r_permissionRequests (fst (appendMessage fits m r)) = r_permissionRequests r"
  "r_attachments (fst (appendMessage fits m r)) = r_attachments r"
  "snd (appendMessage fits m r) = m\<lparr>rm_sequence := r_nextMessageSequence r + 1\<rparr>"
  by (simp_all add: appendMessage_def Let_def)

text \<open>Contents without the sequence the Room allocates.\<close>

definition content :: "room_message \<Rightarrow> room_message" where
  "content m = m\<lparr>rm_sequence := 0\<rparr>"

interpretation message_ring: bounded_log "\<lambda>r. map content (r_messages r)"
  "\<lambda>m r. fst (appendMessage fits m r)" content "\<lambda>_. MAX_MESSAGES" for fits
proof unfold_locales
  fix m r
  have "suffix (map content (r_messages (fst (appendMessage fits m r))))
      (map content (r_messages r @ [m\<lparr>rm_sequence := r_nextMessageSequence r + 1\<rparr>]))"
    by (rule map_mono_suffix [OF append_suffix])
  then show log: "suffix (map content (r_messages (fst (appendMessage fits m r))))
      (map content (r_messages r) @ [content m])"
    by (simp add: content_def)
  then show "subseq (map content (r_messages (fst (appendMessage fits m r))))
      (map content (r_messages r) @ [content m])"
    by (rule suffix_imp_subseq)
qed (simp_all add: append_bound)

lemma append_last: "r_messages (fst (appendMessage fits m r)) \<noteq> [] \<and>
    last (r_messages (fst (appendMessage fits m r))) = m\<lparr>rm_sequence := r_nextMessageSequence r + 1\<rparr>"
proof
  show ne: "r_messages (fst (appendMessage fits m r)) \<noteq> []"
    by (simp add: appendMessage_def Let_def, rule trim_nonempty) (simp add: slice_last_def MAX_MESSAGES_def)
  with append_suffix [of fits m r] show "last (r_messages (fst (appendMessage fits m r))) =
      m\<lparr>rm_sequence := r_nextMessageSequence r + 1\<rparr>"
    by (metis last_appendR last_snoc suffix_def)
qed

text \<open>Sequence numbers identify messages: they increase and stay at or below the last one given.\<close>

definition ring_ok :: "room \<Rightarrow> bool" where
  "ring_ok r \<longleftrightarrow> sorted_wrt (<) (map rm_sequence (r_messages r)) \<and>
     list_all (\<lambda>m. rm_sequence m \<le> r_nextMessageSequence r) (r_messages r) \<and>
     length (r_messages r) \<le> MAX_MESSAGES"

lemma sorted_wrt_suffix: "suffix ys xs \<Longrightarrow> sorted_wrt P (map f xs) \<Longrightarrow> sorted_wrt P (map f ys)"
  by (auto simp: suffix_def sorted_wrt_append)

lemma list_all_suffix: "suffix ys xs \<Longrightarrow> list_all P xs \<Longrightarrow> list_all P ys"
  by (auto simp: suffix_def)

lemma ring_ok_append: "ring_ok r \<Longrightarrow> ring_ok (fst (appendMessage fits m r))"
proof -
  assume r: "ring_ok r"
  let ?all = "r_messages r @ [m\<lparr>rm_sequence := r_nextMessageSequence r + 1\<rparr>]"
  have "sorted_wrt (<) (map rm_sequence ?all)"
    using r by (auto simp: ring_ok_def sorted_wrt_append list_all_iff)
  then have sorted: "sorted_wrt (<) (map rm_sequence (r_messages (fst (appendMessage fits m r))))"
    by (rule sorted_wrt_suffix [OF append_suffix])
  have "list_all (\<lambda>m. rm_sequence m \<le> r_nextMessageSequence r + 1) ?all"
    using r by (auto simp: ring_ok_def list_all_iff)
  then have "list_all (\<lambda>m. rm_sequence m \<le> r_nextMessageSequence r + 1) (r_messages (fst (appendMessage fits m r)))"
    by (rule list_all_suffix [OF append_suffix])
  with sorted append_bound [of fits m r] show ?thesis by (simp add: ring_ok_def)
qed

text \<open>
  C13: every message the Room accepts is retained and gets a fresh sequence number: the ring
  stays ordered and at most 100 long, the new message is its last one, and what was dropped to
  make room is a prefix of what was there.
\<close>

theorem appended_message_retained:
  assumes "ring_ok r"
  shows "ring_ok (fst (appendMessage fits m r)) \<and>
    last (r_messages (fst (appendMessage fits m r))) = snd (appendMessage fits m r) \<and>
    (\<forall>m' \<in> set (r_messages r). rm_sequence m' < rm_sequence (snd (appendMessage fits m r))) \<and>
    (\<exists>dropped. r_messages r @ [snd (appendMessage fits m r)] =
      dropped @ r_messages (fst (appendMessage fits m r)))"
  using assms ring_ok_append [OF assms, of fits m] append_last [of fits m r] append_suffix [of fits m r]
  by (auto simp: ring_ok_def list_all_iff suffix_def)

definition demo_room :: room where
  "demo_room = \<lparr>r_createdAt = 0, r_expiresAt = NO_EXPIRY, r_participants = demo_participants,
     r_runtimeHosts = Some [], r_collaboration = None, r_messages = demo_log,
     r_permissionRequests = [], r_transcript = \<lparr>lv_state = LT_inactive, lv_segments = [],
     lv_nextEpoch = 1, lv_nextSequence = 1\<rparr>, r_attachments = [], r_nextMessageSequence = 2,
     r_meetingNotes = NO_MEETING_NOTES, r_agentVoice = [], r_pendingMediaCleanup = []\<rparr>"

theorem appended_message_retained_witness:
  "last (r_messages (fst (appendMessage (\<lambda>r. length (r_messages r) \<le> 1) (demo_message 0 ''ana'' None []) demo_room))) =
     demo_message 3 ''ana'' None []"
proof -
  have "ring_ok demo_room" by code_simp
  from appended_message_retained [OF this, of "\<lambda>r. length (r_messages r) \<le> 1" "demo_message 0 ''ana'' None []"]
  show ?thesis by (simp add: demo_room_def demo_message_def)
qed

subsection \<open>An inherited name as a chat target\<close>

text \<open>
  A chat target that is an inherited property name passes the check for current
  participants although nobody in the Room has that id.
\<close>

theorem inherited_chat_target:
  "normalizeChatTargets demo_participants (JArr [JStr (lit ''toString''), JStr (lit ''bot'')]) None =
     [lit ''toString'', lit ''bot''] \<and> dget demo_participants (lit ''toString'') = None"
  by code_simp

end
