(* ===== verification/Task_Execution.thy ===== *)
theory Task_Execution
  imports Task_Session Room_State
begin

text \<open>
  Task execution and its control (app/src/common/taskExecution.ts, the Task part of
  app/src/do/RoomSession.ts): the transient projection a Runtime publishes per Agent and Task,
  its mirror in the resident socket's attachment, and how a Human's interrupt finds the exact
  turn it stops. Execution truth is never stored.
\<close>

definition MAX_TASK_EXECUTION_QUEUED_COUNT :: int where "MAX_TASK_EXECUTION_QUEUED_COUNT = 64"
definition MAX_TASK_INTERRUPT_REQUEST_ID_LENGTH :: nat where "MAX_TASK_INTERRUPT_REQUEST_ID_LENGTH = 64"
definition MAX_ATTACHMENT_ACTIVE_TASK_TURNS :: nat where "MAX_ATTACHMENT_ACTIVE_TASK_TURNS = 8"

datatype task_phase = Phase_running | Phase_interrupting | Phase_queued | Phase_retrying

definition isTaskExecutionPhase :: "js \<Rightarrow> task_phase option" where
  "isTaskExecutionPhase v = (if v = JStr (lit ''running'') then Some Phase_running
     else if v = JStr (lit ''interrupting'') then Some Phase_interrupting
     else if v = JStr (lit ''queued'') then Some Phase_queued
     else if v = JStr (lit ''retrying'') then Some Phase_retrying else None)"

datatype task_availability = Session_lost | Control_unavailable | Needs_attention

definition isTaskExecutionAvailability :: "js \<Rightarrow> task_availability option" where
  "isTaskExecutionAvailability v = (if v = JStr (lit ''session_lost'') then Some Session_lost
     else if v = JStr (lit ''control_unavailable'') then Some Control_unavailable
     else if v = JStr (lit ''needs_attention'') then Some Needs_attention else None)"

definition isTaskExecutionOutcome :: "js \<Rightarrow> bool" where
  "isTaskExecutionOutcome v \<longleftrightarrow> v = JStr (lit ''interrupted'')"

definition isAgentActivityTurnSequence :: "js \<Rightarrow> int option" where
  "isAgentActivityTurnSequence v = (case js_safe_int v of Some n \<Rightarrow> if 0 < n then Some n else None | None \<Rightarrow> None)"

text \<open>\<open>lastOutcome\<close> has the one value \<open>interrupted\<close>.\<close>

record task_execution =
  tx_agent :: jstr
  tx_taskRequestId :: jstr
  tx_turn :: "int option"
  tx_phase :: "task_phase option"
  tx_queuedCount :: int
  tx_interrupted :: bool
  tx_availability :: "task_availability option"

definition waiting_phase :: "task_phase option \<Rightarrow> bool" where
  "waiting_phase p \<longleftrightarrow> p = Some Phase_queued \<or> p = Some Phase_retrying"

definition isValidTaskExecutionShape :: "task_execution \<Rightarrow> bool" where
  "isValidTaskExecutionShape x =
     (if tx_turn x \<noteq> None then tx_phase x \<noteq> None \<and> \<not> waiting_phase (tx_phase x)
      else if waiting_phase (tx_phase x) then 0 < tx_queuedCount x
      else tx_phase x = None)"

datatype task_control_notice = Interrupt_turn_finished | Instruction_queued_turn_finished

definition taskControlNotice_of :: "js \<Rightarrow> task_control_notice option" where
  "taskControlNotice_of v = (if v = JStr (lit ''interrupt_turn_finished'') then Some Interrupt_turn_finished
     else if v = JStr (lit ''instruction_queued_turn_finished'') then Some Instruction_queued_turn_finished else None)"

definition taskControlNoticeMessage :: "task_control_notice \<Rightarrow> string" where
  "taskControlNoticeMessage n = (case n of
     Instruction_queued_turn_finished \<Rightarrow> ''Current turn already finished; instruction sent.''
   | Interrupt_turn_finished \<Rightarrow> ''This turn has already finished.'')"

subsection \<open>The label of a projection\<close>

definition queuedDetail :: "int \<Rightarrow> jstr" where
  "queuedDetail n = (if n = 1 then lit ''1 queued'' else int_text n @ lit '' queued'')"

definition taskExecutionLabel :: "task_execution \<Rightarrow> string \<times> jstr option" where
  "taskExecutionLabel x =
     (let queuedCount = tx_queuedCount x;
          attention = (''Needs attention'', Some (lit ''Recent instructions may not have reached the Agent'')) in
      if tx_turn x \<noteq> None then
        (if tx_phase x = Some Phase_interrupting then ''Interrupting'' else ''Running'',
         if 0 < queuedCount then Some (queuedDetail queuedCount) else None)
      else if tx_availability x = Some Session_lost then (''Session lost'', None)
      else if tx_availability x = Some Control_unavailable then attention
      else if tx_availability x = Some Needs_attention then attention
      else if tx_phase x = Some Phase_queued then
        (''Queued'', Some (if 0 < queuedCount then lit ''waiting for an execution lane '' @ 0xb7 # 0x20 # queuedDetail queuedCount
           else lit ''waiting for an execution lane''))
      else if tx_phase x = Some Phase_retrying then
        (''Retrying'', Some (int_text queuedCount @ lit '' retained instruction'' @ (if queuedCount = 1 then [] else lit ''s'')))
      else if 0 < queuedCount then (''Queued'', Some (queuedDetail queuedCount))
      else if tx_interrupted x then (''Interrupted'', None)
      else ('''', None))"

subsection \<open>What the Room accepts of a Runtime\<close>

text \<open>A field that may be absent: \<open>Some None\<close> when it is, \<open>None\<close> when it is malformed.\<close>

definition optional_field :: "(js \<Rightarrow> 'a option) \<Rightarrow> js \<Rightarrow> 'a option option" where
  "optional_field f v = (if v = JUndefined then Some None else map_option Some (f v))"

text \<open>The fields of a report after its Task has been resolved.\<close>

definition accept_shape :: "participant \<Rightarrow> jstr \<Rightarrow> js \<Rightarrow> task_execution option" where
  "accept_shape p i raw = (case (js_safe_int (js_get raw ''queuedCount''),
       optional_field isAgentActivityTurnSequence (js_get raw ''currentTurnSequence''),
       optional_field isTaskExecutionPhase (js_get raw ''phase''),
       optional_field isTaskExecutionAvailability (js_get raw ''availability'')) of
     (Some queuedCount, Some turn, Some phase, Some availability) \<Rightarrow>
       (let x = \<lparr>tx_agent = p_id p, tx_taskRequestId = i, tx_turn = turn, tx_phase = phase,
          tx_queuedCount = queuedCount, tx_interrupted = isTaskExecutionOutcome (js_get raw ''lastOutcome''),
          tx_availability = availability\<rparr> in
        if queuedCount < 0 \<or> MAX_TASK_EXECUTION_QUEUED_COUNT < queuedCount
           \<or> (turn \<noteq> None \<and> (phase = None \<or> waiting_phase phase))
           \<or> (turn = None \<and> phase \<noteq> None \<and> \<not> waiting_phase phase)
           \<or> (turn = None \<and> waiting_phase phase \<and> queuedCount = 0)
           \<or> (js_get raw ''lastOutcome'' \<noteq> JUndefined \<and> \<not> isTaskExecutionOutcome (js_get raw ''lastOutcome''))
        then None else Some x)
   | _ \<Rightarrow> None)"

definition normalizeTaskExecution :: "room \<Rightarrow> participant \<Rightarrow> js \<Rightarrow> task_execution option" where
  "normalizeTaskExecution r p raw = (case js_get raw ''taskRequestId'' of
     JStr i \<Rightarrow>
       if \<not> is_record raw \<or> i = [] \<or> MAX_TASK_INTERRUPT_REQUEST_ID_LENGTH < length i then None
       else (let index = buildTaskProjectionIndex (r_messages r) (r_participants r) in
         case resolveTaskRequest index (JStr i) (r_participants r) of
           Inl _ \<Rightarrow> None
         | Inr res \<Rightarrow>
             if \<not> p_connected p \<or> \<not> taskAgentParticipates index (tr_requestId res) (p_id p) then None
             else accept_shape p (tr_requestId res) raw)
   | _ \<Rightarrow> None)"

subsection \<open>The resident socket\<close>

datatype session_operation = List_sessions | Prepare_session

record pending_control =
  pn_requestId :: jstr
  pn_operation :: session_operation
  pn_browserRequestId :: jstr
  pn_humanParticipantId :: jstr
  pn_humanConnectionNonce :: jstr
  pn_taskRequestId :: "jstr option"
  pn_expiresAt :: int

record active_turn =
  av_taskRequestId :: jstr
  av_turnSequence :: int

record agent_attachment =
  aa_participantId :: jstr
  aa_nonce :: jstr
  aa_cursor :: int
  aa_pendingControl :: "pending_control option"
  aa_activeTurns :: "active_turn list option"

text \<open>Reading an attachment back: a malformed part is dropped, a malformed whole is nothing.\<close>

definition operation_of_js :: "js \<Rightarrow> session_operation option" where
  "operation_of_js v = (if v = JStr (lit ''list'') then Some List_sessions
     else if v = JStr (lit ''prepare'') then Some Prepare_session else None)"

definition read_pending :: "js \<Rightarrow> pending_control option" where
  "read_pending v = (case (js_get v ''requestId'', operation_of_js (js_get v ''operation''), js_get v ''browserRequestId'',
       js_get v ''humanParticipantId'', js_get v ''humanConnectionNonce'', optional_field js_str (js_get v ''taskRequestId''),
       js_safe_int (js_get v ''expiresAt'')) of
     (JStr requestId, Some operation, JStr browser, JStr human, JStr nonce, Some task, Some expiresAt) \<Rightarrow>
       Some \<lparr>pn_requestId = requestId, pn_operation = operation, pn_browserRequestId = browser,
         pn_humanParticipantId = human, pn_humanConnectionNonce = nonce, pn_taskRequestId = task, pn_expiresAt = expiresAt\<rparr>
   | _ \<Rightarrow> None)"

definition read_turn :: "js \<Rightarrow> active_turn option" where
  "read_turn v = (case (js_get v ''taskRequestId'', isAgentActivityTurnSequence (js_get v ''turnSequence'')) of
     (JStr i, Some n) \<Rightarrow> if i = [] \<or> MAX_TASK_INTERRUPT_REQUEST_ID_LENGTH < length i then None
       else Some \<lparr>av_taskRequestId = i, av_turnSequence = n\<rparr>
   | _ \<Rightarrow> None)"

definition read_turns :: "js \<Rightarrow> active_turn list option" where
  "read_turns v = (case v of
     JArr vs \<Rightarrow> if MAX_ATTACHMENT_ACTIVE_TASK_TURNS < length vs then None else those (map read_turn vs)
   | _ \<Rightarrow> None)"

definition deserializeAgentEventAttachment :: "js \<Rightarrow> agent_attachment option" where
  "deserializeAgentEventAttachment v =
     (case (js_get v ''participantId'', js_get v ''connectionNonce'', js_safe_int (js_get v ''cursor'')) of
        (JStr i, JStr nonce, Some cursor) \<Rightarrow>
          if js_get v ''kind'' \<noteq> JStr (lit ''agent-event'') \<or> cursor < 0 then None
          else Some \<lparr>aa_participantId = i, aa_nonce = nonce, aa_cursor = cursor,
            aa_pendingControl = read_pending (js_get v ''pendingSessionControl''),
            aa_activeTurns = read_turns (js_get v ''activeTaskTurns'')\<rparr>
      | _ \<Rightarrow> None)"

text \<open>The sockets tagged for Agents, with their attachments, and the projections in memory.\<close>

record agent_socket =
  as_id :: nat
  as_attachment :: agent_attachment

record task_live =
  tl_executions :: "(jstr, task_execution) dict"
  tl_sockets :: "agent_socket list"

definition current_agent_socket :: "room \<Rightarrow> jstr \<Rightarrow> agent_socket \<Rightarrow> bool" where
  "current_agent_socket r i so \<longleftrightarrow> aa_participantId (as_attachment so) = i \<and>
     (case dget (r_participants r) i of
        Some p \<Rightarrow> p_connectionNonce p = Some (aa_nonce (as_attachment so)) | None \<Rightarrow> False)"

definition agentActivityKey :: "jstr \<Rightarrow> jstr \<Rightarrow> jstr" where
  "agentActivityKey agent scope = agent @ 0 # scope"

definition execution_key :: "jstr \<Rightarrow> jstr \<Rightarrow> jstr" where
  "execution_key agent requestId = agentActivityKey agent (scope_of requestId)"

definition currentAgentEventAttachment :: "room \<Rightarrow> agent_socket list \<Rightarrow> jstr \<Rightarrow> agent_attachment option" where
  "currentAgentEventAttachment r sockets i =
     (if connected_agent (r_participants r) i
      then map_option as_attachment (find (current_agent_socket r i) sockets) else None)"

definition turns_of :: "agent_attachment \<Rightarrow> active_turn list" where
  "turns_of a = (case aa_activeTurns a of Some ts \<Rightarrow> ts | None \<Rightarrow> [])"

definition recovered_execution :: "jstr \<Rightarrow> active_turn \<Rightarrow> task_execution" where
  "recovered_execution agent t = \<lparr>tx_agent = agent, tx_taskRequestId = av_taskRequestId t, tx_turn = Some (av_turnSequence t),
     tx_phase = Some Phase_running, tx_queuedCount = 0, tx_interrupted = False, tx_availability = None\<rparr>"

definition attachmentTaskExecution :: "room \<Rightarrow> agent_socket list \<Rightarrow> jstr \<Rightarrow> jstr \<Rightarrow> task_execution option" where
  "attachmentTaskExecution r sockets i requestId = (case currentAgentEventAttachment r sockets i of
     None \<Rightarrow> None
   | Some a \<Rightarrow> map_option (recovered_execution i) (find (\<lambda>t. av_taskRequestId t = requestId) (turns_of a)))"

definition taskExecutionFor :: "room \<Rightarrow> task_live \<Rightarrow> jstr \<Rightarrow> jstr \<Rightarrow> task_execution option" where
  "taskExecutionFor r l i requestId = (case dget (tl_executions l) (execution_key i requestId) of
     Some x \<Rightarrow> Some x | None \<Rightarrow> attachmentTaskExecution r (tl_sockets l) i requestId)"

definition taskExecutionsForRequest :: "room \<Rightarrow> task_live \<Rightarrow> jstr \<Rightarrow> task_execution list" where
  "taskExecutionsForRequest r l requestId =
     List.map_filter (\<lambda>p. if p_kind p = Agent \<and> p_connected p then taskExecutionFor r l (p_id p) requestId else None)
       (room_people r)"

text \<open>What the page is shown: the projections in memory, and recovered ones for the lanes memory lacks.\<close>

definition taskExecutionsForState :: "room \<Rightarrow> task_live \<Rightarrow> task_execution list" where
  "taskExecutionsForState r l =
     (let shown = filter (\<lambda>(_, x). connected_in (r_participants r) (tx_agent x)) (tl_executions l);
          recover = (\<lambda>p shown. if p_kind p \<noteq> Agent \<or> \<not> p_connected p then shown
            else (case currentAgentEventAttachment r (tl_sockets l) (p_id p) of
              None \<Rightarrow> shown
            | Some a \<Rightarrow> fold (\<lambda>t shown. let key = execution_key (p_id p) (av_taskRequestId t) in
                if dget (tl_executions l) key \<noteq> None \<or> dget shown key \<noteq> None then shown
                else dput key (recovered_execution (p_id p) t) shown) (turns_of a) shown)) in
      map snd (fold recover (room_people r) shown))"

text \<open>The mirror of an accepted projection; \<open>stores\<close> says which sockets take the new attachment.\<close>

definition next_turns :: "task_execution \<Rightarrow> active_turn list \<Rightarrow> active_turn list" where
  "next_turns x stored =
     (let others = filter (\<lambda>t. av_taskRequestId t \<noteq> tx_taskRequestId x) stored in
      case tx_turn x of None \<Rightarrow> others
      | Some n \<Rightarrow> slice_last (MAX_ATTACHMENT_ACTIVE_TASK_TURNS - 1) others @
          [\<lparr>av_taskRequestId = tx_taskRequestId x, av_turnSequence = n\<rparr>])"

definition recordAttachmentActiveTaskTurn :: "(nat \<Rightarrow> bool) \<Rightarrow> room \<Rightarrow> jstr \<Rightarrow> task_execution \<Rightarrow> agent_socket list \<Rightarrow> agent_socket list" where
  "recordAttachmentActiveTaskTurn stores r i x sockets =
     (if \<not> agent_in (r_participants r) i then sockets
      else map (\<lambda>so. let stored = turns_of (as_attachment so); next' = next_turns x stored in
        if \<not> current_agent_socket r i so \<or> next' = stored \<or> \<not> stores (as_id so) then so
        else so\<lparr>as_attachment := (as_attachment so)\<lparr>aa_activeTurns := Some next'\<rparr>\<rparr>) sockets)"

definition agent_task_execution :: "(nat \<Rightarrow> bool) \<Rightarrow> room \<Rightarrow> participant \<Rightarrow> js \<Rightarrow> task_live \<Rightarrow> (nat \<times> string + task_execution) \<times> task_live" where
  "agent_task_execution stores r p raw l =
     (if p_kind p \<noteq> Agent then (Inl (403, ''agent_only''), l)
      else if \<not> p_connected p then (Inl (409, ''agent_disconnected''), l)
      else (case normalizeTaskExecution r p raw of
        None \<Rightarrow> (Inl (400, ''invalid_task_execution''), l)
      | Some x \<Rightarrow> (Inr x, l\<lparr>tl_executions := dput (execution_key (p_id p) (tx_taskRequestId x)) x (tl_executions l),
          tl_sockets := recordAttachmentActiveTaskTurn stores r (p_id p) x (tl_sockets l)\<rparr>)))"

text \<open>Losing the connection ends a participant's projections; an eviction of the object loses all of memory.\<close>

definition clear_executions :: "jstr \<Rightarrow> task_live \<Rightarrow> task_live" where
  "clear_executions i l = l\<lparr>tl_executions := filter (\<lambda>(_, x). tx_agent x \<noteq> i) (tl_executions l)\<rparr>"

definition evict :: "task_live \<Rightarrow> task_live" where
  "evict l = l\<lparr>tl_executions := []\<rparr>"

subsection \<open>Interrupts\<close>

definition resolveInterruptTask :: "room \<Rightarrow> task_live \<Rightarrow> participant \<Rightarrow> js \<Rightarrow> string + (jstr \<times> jstr)" where
  "resolveInterruptTask r l p raw =
     (if p_kind p \<noteq> Human then Inl ''task_interrupt_not_human''
      else (case raw of
        JStr s \<Rightarrow>
          if s = [] \<or> MAX_TASK_INTERRUPT_REQUEST_ID_LENGTH < length s then Inl ''invalid_task_request''
          else (case resolveTaskRequest (buildTaskProjectionIndex (r_messages r) (r_participants r)) (JStr s) (r_participants r) of
            Inl e \<Rightarrow> Inl e
          | Inr res \<Rightarrow>
              (let executions = taskExecutionsForRequest r l (tr_requestId res);
                   active = filter (\<lambda>x. tx_turn x \<noteq> None) executions;
                   initial = initialTaskAgentParticipantId (tr_request res) (r_participants r) in
               if 1 < length active then Inl ''task_execution_ambiguous''
               else (case truthy_str (case active of x # _ \<Rightarrow> Some (tx_agent x)
                   | [] \<Rightarrow> (case executions of [x] \<Rightarrow> Some (tx_agent x) | _ \<Rightarrow> initial)) of
                 None \<Rightarrow> Inl ''task_target_not_in_room''
               | Some executor \<Rightarrow> Inr (tr_requestId res, executor))))
      | _ \<Rightarrow> Inl ''invalid_task_request''))"

definition resolveInterruptTarget :: "room \<Rightarrow> task_live \<Rightarrow> participant \<Rightarrow> js \<Rightarrow> js \<Rightarrow> string + (jstr \<times> jstr \<times> int)" where
  "resolveInterruptTarget r l p raw requestedTurn = (case resolveInterruptTask r l p raw of
     Inl e \<Rightarrow> Inl e
   | Inr (requestId, executor) \<Rightarrow> (case isAgentActivityTurnSequence requestedTurn of
       None \<Rightarrow> Inl ''invalid_task_turn''
     | Some n \<Rightarrow> (case taskExecutionFor r l executor requestId of
         None \<Rightarrow> Inl ''task_turn_not_active''
       | Some x \<Rightarrow> if tx_turn x \<noteq> Some n \<or> tx_agent x \<noteq> executor then Inl ''task_turn_not_active''
           else Inr (requestId, executor, n))))"

definition authoritativeTaskTurn :: "room \<Rightarrow> task_live \<Rightarrow> jstr \<Rightarrow> jstr \<Rightarrow> int option" where
  "authoritativeTaskTurn r l requestId executor =
     (case filter (\<lambda>x. tx_turn x \<noteq> None) (taskExecutionsForRequest r l requestId) of
        [x] \<Rightarrow> if tx_agent x = executor then tx_turn x else None
      | _ \<Rightarrow> None)"

text \<open>A control frame, and the sockets that took it; \<open>sends\<close> says which do.\<close>

datatype task_control = Interrupt_turn jstr int | Steer_turn jstr int int

definition sendAgentTaskControl :: "(nat \<Rightarrow> bool) \<Rightarrow> room \<Rightarrow> agent_socket list \<Rightarrow> jstr \<Rightarrow> nat list" where
  "sendAgentTaskControl sends r sockets i =
     (if connected_agent (r_participants r) i
      then filter sends (map as_id (filter (current_agent_socket r i) sockets)) else [])"

datatype control_outcome = CO_error string | CO_notice task_control_notice | CO_sent jstr task_control "nat list"

definition task_interrupt :: "(nat \<Rightarrow> bool) \<Rightarrow> room \<Rightarrow> task_live \<Rightarrow> participant \<Rightarrow> js \<Rightarrow> js \<Rightarrow> control_outcome" where
  "task_interrupt sends r l p raw requestedTurn = (case resolveInterruptTarget r l p raw requestedTurn of
     Inl e \<Rightarrow> if e = ''task_turn_not_active'' then CO_notice Interrupt_turn_finished else CO_error e
   | Inr (requestId, executor, n) \<Rightarrow> (case sendAgentTaskControl sends r (tl_sockets l) executor of
       [] \<Rightarrow> CO_error ''task_agent_not_reachable''
     | ids \<Rightarrow> CO_sent executor (Interrupt_turn requestId n) ids))"

text \<open>
  The append shared by chat and by interrupt and send. \<open>i\<close> is the random message id, \<open>fits\<close> the
  storage budget: a record that still exceeds it raises, and the stored Room stays as it was.
\<close>

definition human_text_message :: "jstr \<Rightarrow> int \<Rightarrow> participant \<Rightarrow> jstr \<Rightarrow> jstr option \<Rightarrow> jstr list option \<Rightarrow> room_message" where
  "human_text_message i now p s task targets = \<lparr>rm_id = i, rm_peerId = p_id p, rm_name = p_name p, rm_kind = p_kind p,
     rm_type = Text_message, rm_text = Some (take 4000 (js_trim s)), rm_actionType = None, rm_actionPayload = None,
     rm_collab = None, rm_permission = None, rm_taskRequestId = task, rm_targets = targets, rm_createdAt = now, rm_sequence = 0\<rparr>"

definition appendHumanText :: "(room \<Rightarrow> bool) \<Rightarrow> jstr \<Rightarrow> int \<Rightarrow> participant \<Rightarrow> jstr \<Rightarrow> js \<Rightarrow> js \<Rightarrow> room \<Rightarrow>
    (string + room_message) \<times> room" where
  "appendHumanText fits i now p s targets taskRequestId r =
     (let append = (\<lambda>task targets. let (r', m) = appendMessage fits (human_text_message i now p s task targets) r in
            case saveRoom fits r' of None \<Rightarrow> (Inl ''room_state_budget_exceeded'', r) | Some r' \<Rightarrow> (Inr m, r')) in
      if taskRequestId = JUndefined then
        (let ts = normalizeChatTargets (r_participants r) targets None in append None (if ts = [] then None else Some ts))
      else (case resolveTaskRequest (buildTaskProjectionIndex (r_messages r) (r_participants r)) taskRequestId (r_participants r) of
        Inl e \<Rightarrow> (Inl e, r)
      | Inr res \<Rightarrow> (case resolveHumanTaskTargets res p (r_participants r) targets MAX_TARGETS of
          Inl e \<Rightarrow> (Inl e, r)
        | Inr ts \<Rightarrow> append (Some (tr_requestId res)) (Some ts))))"

definition task_interrupt_and_send :: "(nat \<Rightarrow> bool) \<Rightarrow> (room \<Rightarrow> bool) \<Rightarrow> jstr \<Rightarrow> int \<Rightarrow> task_live \<Rightarrow> participant \<Rightarrow> js \<Rightarrow> js \<Rightarrow> js \<Rightarrow>
    room \<Rightarrow> control_outcome \<times> room_message option \<times> room" where
  "task_interrupt_and_send sends fits i now l p s raw requestedTurn r =
     (let txt = (case s of JStr x \<Rightarrow> js_trim x | _ \<Rightarrow> []) in
      if txt = [] then (CO_error ''invalid_task_instruction'', None, r)
      else (case isAgentActivityTurnSequence requestedTurn of
        None \<Rightarrow> (CO_error ''invalid_task_turn'', None, r)
      | Some n \<Rightarrow> (case resolveInterruptTask r l p raw of
          Inl e \<Rightarrow> (CO_error e, None, r)
        | Inr (requestId, executor) \<Rightarrow>
            (case appendHumanText fits i now p txt (JArr [JStr executor]) (JStr requestId) r of
              (Inl e, r') \<Rightarrow> (CO_error e, None, r')
            | (Inr m, r') \<Rightarrow>
                if authoritativeTaskTurn r' l requestId executor \<noteq> Some n
                then (CO_notice Instruction_queued_turn_finished, Some m, r')
                else (case sendAgentTaskControl sends r' (tl_sockets l) executor of
                  [] \<Rightarrow> (CO_error ''instruction_queued_interrupt_unavailable'', Some m, r')
                | ids \<Rightarrow> (CO_sent executor (Steer_turn requestId n (rm_sequence m)) ids, Some m, r'))))))"

subsection \<open>What is accepted is a valid shape\<close>

text \<open>The projection the fields of a report name, when they are well typed.\<close>

definition reported :: "participant \<Rightarrow> js \<Rightarrow> task_execution option" where
  "reported p raw = (case (js_get raw ''taskRequestId'', js_safe_int (js_get raw ''queuedCount''),
       optional_field isAgentActivityTurnSequence (js_get raw ''currentTurnSequence''),
       optional_field isTaskExecutionPhase (js_get raw ''phase''),
       optional_field isTaskExecutionAvailability (js_get raw ''availability'')) of
     (JStr i, Some queuedCount, Some turn, Some phase, Some availability) \<Rightarrow>
       if js_get raw ''lastOutcome'' \<noteq> JUndefined \<and> \<not> isTaskExecutionOutcome (js_get raw ''lastOutcome'') then None
       else Some \<lparr>tx_agent = p_id p, tx_taskRequestId = js_trim i, tx_turn = turn, tx_phase = phase,
         tx_queuedCount = queuedCount, tx_interrupted = isTaskExecutionOutcome (js_get raw ''lastOutcome''),
         tx_availability = availability\<rparr>
   | _ \<Rightarrow> None)"

text \<open>Whether the Task is one this Agent may report on.\<close>

definition may_report :: "room \<Rightarrow> participant \<Rightarrow> js \<Rightarrow> bool" where
  "may_report r p raw = (case js_get raw ''taskRequestId'' of
     JStr i \<Rightarrow> is_record raw \<and> i \<noteq> [] \<and> length i \<le> 64 \<and> p_connected p \<and>
       (let index = buildTaskProjectionIndex (r_messages r) (r_participants r) in
        js_trim i \<noteq> [] \<and> dget index (js_trim i) \<noteq> None \<and> taskAgentParticipates index (js_trim i) (p_id p))
   | _ \<Rightarrow> False)"

lemma resolveTaskRequest_id: "resolveTaskRequest index (JStr s) ps = Inr res \<Longrightarrow>
    tr_requestId res = js_trim s \<and> js_trim s \<noteq> [] \<and> dget index (js_trim s) \<noteq> None"
  by (auto simp: resolveTaskRequest_def Let_def split: if_splits option.splits)

lemma resolveTaskRequest_known: "js_trim s \<noteq> [] \<Longrightarrow> dget index (js_trim s) \<noteq> None \<Longrightarrow>
    \<exists>res. resolveTaskRequest index (JStr s) ps = Inr res"
  by (auto simp: resolveTaskRequest_def Let_def)

lemma shape_conditions: "0 \<le> n \<Longrightarrow> isValidTaskExecutionShape \<lparr>tx_agent = g, tx_taskRequestId = q, tx_turn = turn,
      tx_phase = phase, tx_queuedCount = n, tx_interrupted = b, tx_availability = av\<rparr> \<longleftrightarrow>
    \<not> (turn \<noteq> None \<and> (phase = None \<or> waiting_phase phase)) \<and> \<not> (turn = None \<and> phase \<noteq> None \<and> \<not> waiting_phase phase) \<and>
    \<not> (turn = None \<and> waiting_phase phase \<and> n = 0)"
  by (auto simp: isValidTaskExecutionShape_def waiting_phase_def)

lemma accept_shape_reported:
  assumes "js_get raw ''taskRequestId'' = JStr i"
  shows "accept_shape p (js_trim i) raw = (case reported p raw of None \<Rightarrow> None
    | Some x \<Rightarrow> if 0 \<le> tx_queuedCount x \<and> tx_queuedCount x \<le> 64 \<and> isValidTaskExecutionShape x then Some x else None)"
proof -
  let ?bad = "js_get raw ''lastOutcome'' \<noteq> JUndefined \<and> \<not> isTaskExecutionOutcome (js_get raw ''lastOutcome'')"
  consider n turn phase av where "js_safe_int (js_get raw ''queuedCount'') = Some n"
      "optional_field isAgentActivityTurnSequence (js_get raw ''currentTurnSequence'') = Some turn"
      "optional_field isTaskExecutionPhase (js_get raw ''phase'') = Some phase"
      "optional_field isTaskExecutionAvailability (js_get raw ''availability'') = Some av"
    | "js_safe_int (js_get raw ''queuedCount'') = None \<or>
       optional_field isAgentActivityTurnSequence (js_get raw ''currentTurnSequence'') = None \<or>
       optional_field isTaskExecutionPhase (js_get raw ''phase'') = None \<or>
       optional_field isTaskExecutionAvailability (js_get raw ''availability'') = None" by fastforce
  then show ?thesis
  proof cases
    case (1 n turn phase av)
    show ?thesis
    proof (cases "0 \<le> n \<and> n \<le> 64 \<and> \<not> ?bad")
      case True
      then show ?thesis
        by (auto simp: accept_shape_def reported_def assms 1 shape_conditions Let_def MAX_TASK_EXECUTION_QUEUED_COUNT_def)
    next
      case False
      then have "n < 0 \<or> 64 < n \<or> ?bad" by auto
      then show ?thesis
        by (elim disjE) (simp_all add: accept_shape_def reported_def assms 1 Let_def MAX_TASK_EXECUTION_QUEUED_COUNT_def)
    qed
  next
    case 2
    then show ?thesis by (elim disjE) (simp_all add: accept_shape_def reported_def assms split: option.split)
  qed
qed

lemma ingest_rule:
  "normalizeTaskExecution r p raw = (case reported p raw of
     None \<Rightarrow> None
   | Some x \<Rightarrow> if may_report r p raw \<and> 0 \<le> tx_queuedCount x \<and> tx_queuedCount x \<le> 64 \<and> isValidTaskExecutionShape x
       then Some x else None)"
proof (cases "js_get raw ''taskRequestId''")
  case (JStr i)
  let ?index = "buildTaskProjectionIndex (r_messages r) (r_participants r)"
  show ?thesis
  proof (cases "may_report r p raw")
    case False
    then have "normalizeTaskExecution r p raw = None"
      by (auto simp: normalizeTaskExecution_def may_report_def JStr Let_def MAX_TASK_INTERRUPT_REQUEST_ID_LENGTH_def
          dest: resolveTaskRequest_id split: sum.splits)
    with False show ?thesis by (simp split: option.split)
  next
    case True
    then obtain res where res: "resolveTaskRequest ?index (JStr i) (r_participants r) = Inr res"
      using resolveTaskRequest_known [of i ?index "r_participants r"] by (auto simp: may_report_def JStr Let_def)
    then have "tr_requestId res = js_trim i" using resolveTaskRequest_id by blast
    moreover from True have "is_record raw" "i \<noteq> []" "length i \<le> 64" "p_connected p"
      "taskAgentParticipates ?index (js_trim i) (p_id p)" by (simp_all add: may_report_def JStr Let_def)
    moreover note res
    ultimately have n: "normalizeTaskExecution r p raw = accept_shape p (js_trim i) raw"
      by (simp add: normalizeTaskExecution_def JStr MAX_TASK_INTERRUPT_REQUEST_ID_LENGTH_def Let_def)
    show ?thesis using accept_shape_reported [OF JStr] True unfolding n by (simp split: option.split)
  qed
qed (simp_all add: normalizeTaskExecution_def reported_def split: option.split)

text \<open>
  The check the Room makes of a published projection, written out branch by branch in its
  ingest, accepts exactly the reports of a participating connected Agent whose queue count is
  in range and whose shape passes the closed rule the browser shares: a running turn names its
  phase, a waiting phase has something waiting.
\<close>

theorem ingest_matches_shared_rule:
  "normalizeTaskExecution r p raw = (case reported p raw of
     None \<Rightarrow> None
   | Some x \<Rightarrow> if may_report r p raw \<and> 0 \<le> tx_queuedCount x \<and> tx_queuedCount x \<le> 64 \<and> isValidTaskExecutionShape x
       then Some x else None)"
  by (rule ingest_rule)

subsection \<open>An interrupt stops the turn it names\<close>

lemma resolveInterruptTask_Inr:
  assumes "resolveInterruptTask r l p raw = Inr (requestId, executor)"
  shows "p_kind p = Human" and "length (filter (\<lambda>x. tx_turn x \<noteq> None) (taskExecutionsForRequest r l requestId)) \<le> 1"
    and "executor \<noteq> []"
  using assms
  by (auto simp: resolveInterruptTask_def Let_def truthy_str_def split: js.splits sum.splits if_split_asm option.splits)

lemma sent_current: "sendAgentTaskControl sends r sockets i = ids \<Longrightarrow> ids \<noteq> [] \<Longrightarrow>
    connected_agent (r_participants r) i \<and> list_all (\<lambda>n. list_ex (\<lambda>so. as_id so = n \<and> current_agent_socket r i so) sockets) ids"
  by (auto simp: sendAgentTaskControl_def list_all_iff list_ex_iff split: if_splits)

text \<open>
  C28: when an interrupt is sent, a Human asked for it, the turn it names is the one turn the Room's
  authoritative projection reports for that Task, at most one connected Agent has a running
  turn of the Task, and it goes only to sockets that carry the executor's current connection: a
  stale click can never stop a later turn.
\<close>

theorem interrupt_exact:
  assumes "task_interrupt sends r l p raw requestedTurn = CO_sent executor (Interrupt_turn requestId n) ids"
  shows "p_kind p = Human \<and> js_safe_int requestedTurn = Some n \<and>
    (case taskExecutionFor r l executor requestId of Some x \<Rightarrow> tx_turn x = Some n \<and> tx_agent x = executor | None \<Rightarrow> False) \<and>
    length (filter (\<lambda>x. tx_turn x \<noteq> None) (taskExecutionsForRequest r l requestId)) \<le> 1 \<and>
    connected_agent (r_participants r) executor \<and>
    list_all (\<lambda>m. list_ex (\<lambda>so. as_id so = m \<and> current_agent_socket r executor so) (tl_sockets l)) ids"
proof -
  from assms have t: "resolveInterruptTarget r l p raw requestedTurn = Inr (requestId, executor, n)"
    and ids: "sendAgentTaskControl sends r (tl_sockets l) executor = ids" "ids \<noteq> []"
    by (auto simp: task_interrupt_def split: sum.splits list.splits if_splits)
  from t have task: "resolveInterruptTask r l p raw = Inr (requestId, executor)"
    and n: "isAgentActivityTurnSequence requestedTurn = Some n"
    and x: "case taskExecutionFor r l executor requestId of Some x \<Rightarrow> tx_turn x = Some n \<and> tx_agent x = executor | None \<Rightarrow> False"
    by (auto simp: resolveInterruptTarget_def split: sum.splits option.splits if_splits)
  from n have "js_safe_int requestedTurn = Some n"
    by (auto simp: isAgentActivityTurnSequence_def split: option.splits if_splits)
  with resolveInterruptTask_Inr [OF task] x sent_current [OF ids] show ?thesis by blast
qed

lemma resolveInterruptTask_id:
  assumes "resolveInterruptTask r l p raw = Inr (requestId, executor)"
  shows "js_trim requestId = requestId \<and> requestId \<noteq> []"
  using assms
  by (auto simp: resolveInterruptTask_def Let_def dest!: resolveTaskRequest_id
      split: js.splits sum.splits if_split_asm option.splits)

lemma last_saved: "saveRoom fits r = Some r' \<Longrightarrow> r_messages r \<noteq> [] \<Longrightarrow> last (r_messages r') = last (r_messages r)"
proof -
  assume "saveRoom fits r = Some r'" and ne: "r_messages r \<noteq> []"
  then have "r' = trimRoomMessagesToBudget fits r" by (auto simp: saveRoom_def Let_def split: if_splits)
  then show ?thesis using trim_suffix [of fits r] trim_nonempty [OF ne, of fits] by (auto simp: suffix_def)
qed

text \<open>
  Interrupt and send never loses the instruction: once it is accepted it is the newest message
  of the log, addressed to the executor and to the Task, whatever becomes of the turn; and the
  steer frame is sent only after that, only for the turn the Human saw while it is still the
  current one, and names the sequence of that very message.
\<close>

theorem instruction_before_interrupt:
  assumes "task_interrupt_and_send sends fits i now l p s raw requestedTurn r = (out, Some m, r')"
  shows "last (r_messages r') = m \<and> (\<exists>requestId executor. rm_taskRequestId m = Some requestId \<and> rm_targets m = Some [js_trim executor] \<and>
    (case out of
       CO_sent agent control ids \<Rightarrow> agent = executor \<and>
         (\<exists>n. control = Steer_turn requestId n (rm_sequence m) \<and> js_safe_int requestedTurn = Some n \<and>
            authoritativeTaskTurn r' l requestId executor = Some n)
     | CO_notice notice \<Rightarrow> notice = Instruction_queued_turn_finished
     | CO_error e \<Rightarrow> e = ''instruction_queued_interrupt_unavailable''))"
proof -
  from assms obtain n requestId executor where n: "isAgentActivityTurnSequence requestedTurn = Some n"
    and t: "resolveInterruptTask r l p raw = Inr (requestId, executor)"
    and a: "appendHumanText fits i now p (js_trim (js_string s)) (JArr [JStr executor]) (JStr requestId) r = (Inr m, r')"
    by (auto simp: task_interrupt_and_send_def Let_def js_string_def split: js.splits if_splits option.splits sum.splits prod.splits list.splits)
  have "last (r_messages r') = m \<and> rm_taskRequestId m = Some requestId \<and> rm_targets m = Some [js_trim executor]"
  proof -
    from resolveInterruptTask_id [OF t] have id: "js_trim requestId = requestId" "requestId \<noteq> []" by simp_all
    from a obtain res ts where res: "resolveTaskRequest (buildTaskProjectionIndex (r_messages r) (r_participants r))
        (JStr requestId) (r_participants r) = Inr res"
      and ts: "resolveHumanTaskTargets res p (r_participants r) (JArr [JStr executor]) MAX_TARGETS = Inr ts"
      and saved: "m = snd (appendMessage fits (human_text_message i now p (js_trim (js_string s)) (Some (tr_requestId res)) (Some ts)) r)"
        "saveRoom fits (fst (appendMessage fits (human_text_message i now p (js_trim (js_string s)) (Some (tr_requestId res)) (Some ts)) r)) = Some r'"
      by (auto simp: appendHumanText_def Let_def case_prod_beta split: sum.splits option.splits)
    from ts have "ts = [js_trim executor]"
      by (auto simp: resolveHumanTaskTargets_def normalizedExplicitTargets_def Let_def dedupe_def set_add_def js_str_def
          split: if_splits sum.splits option.splits)
    moreover from resolveTaskRequest_id [OF res] id have "tr_requestId res = requestId" by simp
    ultimately have fields: "rm_taskRequestId m = Some requestId" "rm_targets m = Some [js_trim executor]"
      using saved(1) by (simp_all add: appendMessage_def Let_def human_text_message_def)
    let ?hm = "human_text_message i now p (js_trim (js_string s)) (Some (tr_requestId res)) (Some ts)"
    have "snd (appendMessage fits ?hm r) = ?hm\<lparr>rm_sequence := r_nextMessageSequence r + 1\<rparr>"
      by (simp add: appendMessage_def Let_def)
    with fields last_saved [OF saved(2)] append_last [of fits ?hm r] saved(1) show ?thesis by simp
  qed
  moreover have "js_safe_int requestedTurn = Some n"
    using n by (auto simp: isAgentActivityTurnSequence_def split: option.splits if_splits)
  ultimately show ?thesis using assms n t a
    by (auto simp: task_interrupt_and_send_def Let_def js_string_def split: js.splits if_splits list.splits)
qed

subsection \<open>An eviction loses no running turn\<close>

definition turn_of :: "task_execution option \<Rightarrow> int option" where
  "turn_of x = Option.bind x tx_turn"

definition named_task :: "js \<Rightarrow> jstr" where
  "named_task raw = js_trim (js_string (js_get raw ''taskRequestId''))"

text \<open>One Agent's reports, in order.\<close>

definition publish :: "(nat \<Rightarrow> bool) \<Rightarrow> room \<Rightarrow> participant \<Rightarrow> js list \<Rightarrow> task_live \<Rightarrow> task_live" where
  "publish stores r p raws l = fold (\<lambda>raw l. snd (agent_task_execution stores r p raw l)) raws l"

text \<open>
  The mirror agrees with memory on the lanes of one Agent: the first current socket holds, per
  Task, exactly the running turn memory has, and only Tasks of \<open>ts\<close>.
\<close>

definition mirrored :: "room \<Rightarrow> jstr \<Rightarrow> jstr set \<Rightarrow> task_live \<Rightarrow> bool" where
  "mirrored r i ts l \<longleftrightarrow> (case find (current_agent_socket r i) (tl_sockets l) of
     None \<Rightarrow> False
   | Some so \<Rightarrow> (let turns = turns_of (as_attachment so) in
       distinct (map av_taskRequestId turns) \<and> av_taskRequestId ` set turns \<subseteq> ts \<and>
       (\<forall>q. map_option av_turnSequence (find (\<lambda>t. av_taskRequestId t = q) turns) =
         turn_of (dget (tl_executions l) (execution_key i q)))))"

lemma find_filter_other: "find (\<lambda>t. f t = q) (filter (\<lambda>t. f t \<noteq> w) ts) = (if q = w then None else find (\<lambda>t. f t = q) ts)"
  by (induction ts) auto

lemma find_append: "find P (xs @ ys) = (case find P xs of Some x \<Rightarrow> Some x | None \<Rightarrow> find P ys)"
  by (induction xs) auto

lemma find_map: "(\<And>x. P (f x) = P x) \<Longrightarrow> find P (map f xs) = map_option f (find P xs)"
  by (induction xs) auto

lemma next_turns_find:
  assumes "length (filter (\<lambda>t. av_taskRequestId t \<noteq> tx_taskRequestId x) stored) \<le> 7"
  shows "map_option av_turnSequence (find (\<lambda>t. av_taskRequestId t = q) (next_turns x stored)) =
    (if q = tx_taskRequestId x then tx_turn x else map_option av_turnSequence (find (\<lambda>t. av_taskRequestId t = q) stored))"
  using assms by (auto simp: next_turns_def Let_def slice_last_def MAX_ATTACHMENT_ACTIVE_TASK_TURNS_def
      find_append find_filter_other split: option.split)

lemma next_turns_tasks:
  assumes "length (filter (\<lambda>t. av_taskRequestId t \<noteq> tx_taskRequestId x) stored) \<le> 7" and "distinct (map av_taskRequestId stored)"
  shows "distinct (map av_taskRequestId (next_turns x stored)) \<and>
    av_taskRequestId ` set (next_turns x stored) \<subseteq> insert (tx_taskRequestId x) (av_taskRequestId ` set stored)"
  using assms by (auto simp: next_turns_def Let_def slice_last_def MAX_ATTACHMENT_ACTIVE_TASK_TURNS_def
      distinct_map_filter split: option.split)

lemma others_few:
  assumes "distinct (map av_taskRequestId stored)" and "av_taskRequestId ` set stored \<subseteq> ts" and "w \<in> ts"
    and "finite ts" and "card ts \<le> 8"
  shows "length (filter (\<lambda>t. av_taskRequestId t \<noteq> w) stored) \<le> 7"
proof -
  let ?o = "filter (\<lambda>t. av_taskRequestId t \<noteq> w) stored"
  have "length ?o = card (av_taskRequestId ` set ?o)"
    using distinct_card [of "map av_taskRequestId ?o"] assms(1) by (simp add: distinct_map_filter)
  also have "\<dots> \<le> card (ts - {w})" using assms(2,4) by (intro card_mono) auto
  also have "\<dots> \<le> 7" using assms(3-5) by simp
  finally show ?thesis .
qed

lemma record_find:
  assumes "agent_in (r_participants r) i" and "find (current_agent_socket r i) sockets = Some so" and "stores (as_id so)"
  shows "\<exists>so'. find (current_agent_socket r i) (recordAttachmentActiveTaskTurn stores r i x sockets) = Some so' \<and>
    turns_of (as_attachment so') = next_turns x (turns_of (as_attachment so))"
proof -
  define f where "f = (\<lambda>so. let stored = turns_of (as_attachment so); next' = next_turns x stored in
    if \<not> current_agent_socket r i so \<or> next' = stored \<or> \<not> stores (as_id so) then so
    else so\<lparr>as_attachment := (as_attachment so)\<lparr>aa_activeTurns := Some next'\<rparr>\<rparr>)"
  have "current_agent_socket r i (f s) = current_agent_socket r i s" for s
    by (auto simp: f_def Let_def current_agent_socket_def split: option.split)
  then have "find (current_agent_socket r i) (map f sockets) = Some (f so)" by (simp add: find_map assms(2))
  moreover have "recordAttachmentActiveTaskTurn stores r i x sockets = map f sockets"
    by (simp add: recordAttachmentActiveTaskTurn_def assms(1) f_def)
  moreover have "current_agent_socket r i so" using assms(2) by (auto simp: find_Some_iff)
  then have "turns_of (as_attachment (f so)) = next_turns x (turns_of (as_attachment so))"
    using assms(3) by (simp add: f_def Let_def turns_of_def)
  ultimately show ?thesis by simp
qed

lemma execution_key_inj: "execution_key i q = execution_key i q' \<longleftrightarrow> q = q'"
  by (simp add: execution_key_def agentActivityKey_def scope_of_def)

lemma normalize_fields: "normalizeTaskExecution r p raw = Some x \<Longrightarrow> tx_taskRequestId x = named_task raw"
  by (auto simp: ingest_rule reported_def named_task_def js_string_def split: option.splits js.splits if_splits)

lemma publish_step_mirrored:
  assumes "mirrored r (p_id p) ts l" and "named_task raw \<in> ts" and "finite ts" and "card ts \<le> 8"
    and "\<And>n. stores n" and "agent_in (r_participants r) (p_id p)"
  shows "mirrored r (p_id p) ts (snd (agent_task_execution stores r p raw l))"
proof (cases "p_kind p \<noteq> Agent \<or> \<not> p_connected p \<or> normalizeTaskExecution r p raw = None")
  case True
  then show ?thesis using assms(1) by (auto simp: agent_task_execution_def)
next
  case False
  then obtain x where x: "normalizeTaskExecution r p raw = Some x" by auto
  from normalize_fields [OF x] assms(2) have task: "tx_taskRequestId x \<in> ts" by simp
  from assms(1) obtain so where so: "find (current_agent_socket r (p_id p)) (tl_sockets l) = Some so"
    and d: "distinct (map av_taskRequestId (turns_of (as_attachment so)))"
    and sub: "av_taskRequestId ` set (turns_of (as_attachment so)) \<subseteq> ts"
    and agree: "\<And>q. map_option av_turnSequence (find (\<lambda>t. av_taskRequestId t = q) (turns_of (as_attachment so))) =
      turn_of (dget (tl_executions l) (execution_key (p_id p) q))"
    by (auto simp: mirrored_def Let_def split: option.splits)
  note few = others_few [OF d sub task assms(3,4)]
  obtain so' where so': "find (current_agent_socket r (p_id p)) (recordAttachmentActiveTaskTurn stores r (p_id p) x (tl_sockets l)) = Some so'"
    and turns: "turns_of (as_attachment so') = next_turns x (turns_of (as_attachment so))"
    using record_find [OF assms(6) so, of stores x] assms(5) by blast
  have "distinct (map av_taskRequestId (turns_of (as_attachment so')))"
    unfolding turns by (rule next_turns_tasks [OF few d, THEN conjunct1])
  moreover have "av_taskRequestId ` set (turns_of (as_attachment so')) \<subseteq> ts"
    unfolding turns using sub task by (intro order_trans [OF next_turns_tasks [OF few d, THEN conjunct2]]) simp
  moreover have "map_option av_turnSequence (find (\<lambda>t. av_taskRequestId t = q) (turns_of (as_attachment so'))) =
      turn_of (dget (dput (execution_key (p_id p) (tx_taskRequestId x)) x (tl_executions l)) (execution_key (p_id p) q))" for q
    by (simp add: turns next_turns_find [OF few] agree execution_key_inj turn_of_def)
  ultimately show ?thesis using False x so' by (simp add: agent_task_execution_def mirrored_def)
qed

text \<open>
  The projections of Tasks live in memory only, but whatever one connected Agent publishes, for up
  to eight Tasks, an eviction of the object changes no running turn: what the Room recovers from
  the socket's attachment names, for every Task, exactly the turn memory had.
\<close>

theorem eviction_keeps_turns:
  assumes "connected_agent (r_participants r) (p_id p)"
    and "find (current_agent_socket r (p_id p)) sockets = Some so" and "turns_of (as_attachment so) = []"
    and "length (dedupe (map named_task raws)) \<le> 8" and "\<And>n. stores n"
    and "l = publish stores r p raws \<lparr>tl_executions = [], tl_sockets = sockets\<rparr>"
  shows "turn_of (taskExecutionFor r (evict l) (p_id p) requestId) = turn_of (taskExecutionFor r l (p_id p) requestId)"
proof -
  let ?ts = "set (map named_task raws)"
  have "length (dedupe (map named_task raws)) = card ?ts" using distinct_card [of "dedupe (map named_task raws)"] by simp
  with assms(4) have card: "card ?ts \<le> 8" by simp
  have agent: "agent_in (r_participants r) (p_id p)" using connected_agentD [OF assms(1)] by blast
  have "mirrored r (p_id p) ?ts \<lparr>tl_executions = [], tl_sockets = sockets\<rparr>"
    using assms(2,3) by (simp add: mirrored_def turn_of_def)
  moreover have "mirrored r (p_id p) ?ts (publish stores r p rs l')" if "set rs \<subseteq> set raws" "mirrored r (p_id p) ?ts l'" for rs l'
    using that
  proof (induction rs arbitrary: l')
    case (Cons raw rs)
    then have "mirrored r (p_id p) ?ts (snd (agent_task_execution stores r p raw l'))"
      by (intro publish_step_mirrored [OF _ _ _ card assms(5) agent]) auto
    with Cons show ?case by (simp add: publish_def)
  qed (simp add: publish_def)
  ultimately have m: "mirrored r (p_id p) ?ts l" using assms(6) by simp
  then obtain so' where so': "find (current_agent_socket r (p_id p)) (tl_sockets l) = Some so'"
    and agree: "\<And>q. map_option av_turnSequence (find (\<lambda>t. av_taskRequestId t = q) (turns_of (as_attachment so'))) =
      turn_of (dget (tl_executions l) (execution_key (p_id p) q))"
    by (auto simp: mirrored_def Let_def split: option.splits)
  have "attachmentTaskExecution r (tl_sockets l) (p_id p) q = map_option (recovered_execution (p_id p))
      (find (\<lambda>t. av_taskRequestId t = q) (turns_of (as_attachment so')))" for q
    by (simp add: attachmentTaskExecution_def currentAgentEventAttachment_def assms(1) so')
  then have "turn_of (attachmentTaskExecution r (tl_sockets l) (p_id p) requestId) =
      turn_of (dget (tl_executions l) (execution_key (p_id p) requestId))"
    using agree [of requestId] by (cases "find (\<lambda>t. av_taskRequestId t = requestId) (turns_of (as_attachment so'))")
      (simp_all add: turn_of_def recovered_execution_def)
  then show ?thesis by (auto simp: taskExecutionFor_def evict_def split: option.splits)
qed

subsection \<open>A running Task of the example Room\<close>

definition demo_bot :: participant where
  "demo_bot = (demo_participant ''bot'' Agent True)\<lparr>p_connectionNonce := Some (lit ''n'')\<rparr>"

definition demo_task_room :: room where
  "demo_task_room = demo_room\<lparr>r_participants := dput (lit ''bot'') demo_bot demo_participants\<rparr>"

definition demo_report :: "int \<Rightarrow> js" where
  "demo_report n = JObj [(lit ''taskRequestId'', JStr (lit ''req-1'')), (lit ''queuedCount'', JNum (jint 0)),
     (lit ''currentTurnSequence'', JNum (jint n)), (lit ''phase'', JStr (lit ''running''))]"

definition demo_bot_sockets :: "agent_socket list" where
  "demo_bot_sockets = [\<lparr>as_id = 3, as_attachment = \<lparr>aa_participantId = lit ''bot'', aa_nonce = lit ''n'', aa_cursor = 0,
     aa_pendingControl = None, aa_activeTurns = None\<rparr>\<rparr>]"

definition demo_live :: task_live where
  "demo_live = publish (\<lambda>_. True) demo_task_room demo_bot [demo_report 2] \<lparr>tl_executions = [], tl_sockets = demo_bot_sockets\<rparr>"

lemma demo_interrupts:
  "task_interrupt (\<lambda>_. True) demo_task_room demo_live (demo_participant ''ana'' Human True) (JStr (lit ''req-1'')) (JNum (jint 2)) =
     CO_sent (lit ''bot'') (Interrupt_turn (lit ''req-1'') 2) [3]"
  "task_interrupt (\<lambda>_. True) demo_task_room demo_live (demo_participant ''ana'' Human True) (JStr (lit ''req-1'')) (JNum (jint 1)) =
     CO_notice Interrupt_turn_finished"
  by code_simp+

theorem interrupt_exact_witness:
  "case taskExecutionFor demo_task_room demo_live (lit ''bot'') (lit ''req-1'') of
     Some x \<Rightarrow> tx_turn x = Some 2 \<and> tx_agent x = lit ''bot'' | None \<Rightarrow> False"
  using interrupt_exact [OF demo_interrupts(1)] by blast

definition demo_steer :: "control_outcome \<times> room_message option \<times> room" where
  "demo_steer = task_interrupt_and_send (\<lambda>_. True) (\<lambda>_. True) (lit ''m9'') 50 demo_live (demo_participant ''ana'' Human True)
     (JStr (lit '' try again'')) (JStr (lit ''req-1'')) (JNum (jint 2)) demo_task_room"

theorem instruction_before_interrupt_witness:
  "case demo_steer of (out, Some m, r') \<Rightarrow> last (r_messages r') = m \<and>
     out = CO_sent (lit ''bot'') (Steer_turn (lit ''req-1'') 2 (rm_sequence m)) [3] | _ \<Rightarrow> False"
proof -
  let ?ok = "\<lambda>out m. out = CO_sent (lit ''bot'') (Steer_turn (lit ''req-1'') 2 (rm_sequence m)) [3]"
  obtain out m r' where d: "demo_steer = (out, m, r')" by (metis prod_cases3)
  have "case demo_steer of (out, Some m, r') \<Rightarrow> ?ok out m | _ \<Rightarrow> False" by code_simp
  then obtain m' where m: "m = Some m'" "?ok out m'" unfolding d by (cases m) simp_all
  from instruction_before_interrupt [OF d [unfolded m(1) demo_steer_def]] have "last (r_messages r') = m'" by blast
  with m show ?thesis unfolding d by simp
qed

theorem eviction_keeps_turns_witness:
  "turn_of (taskExecutionFor demo_task_room (evict demo_live) (p_id demo_bot) (lit ''req-1'')) = Some 2"
proof -
  have "connected_agent (r_participants demo_task_room) (p_id demo_bot)" by code_simp
  moreover have "find (current_agent_socket demo_task_room (p_id demo_bot)) demo_bot_sockets = Some (hd demo_bot_sockets)" by code_simp
  moreover have "turns_of (as_attachment (hd demo_bot_sockets)) = []" by code_simp
  moreover have "length (dedupe (map named_task [demo_report 2])) \<le> 8" by code_simp
  ultimately have "turn_of (taskExecutionFor demo_task_room (evict demo_live) (p_id demo_bot) (lit ''req-1'')) =
      turn_of (taskExecutionFor demo_task_room demo_live (p_id demo_bot) (lit ''req-1''))"
    by (rule eviction_keeps_turns [of _ _ _ _ _ "\<lambda>_. True"]) (simp_all add: demo_live_def)
  also have "\<dots> = Some 2" by code_simp
  finally show ?thesis .
qed

end
