(* ===== verification/Task_Live_View.thy ===== *)
theory Task_Live_View
  imports Room_State Json_Parse "HOL-Library.List_Lexorder"
begin

text \<open>
  Live Views (app/src/common/taskLiveView.ts and their handler in app/src/do/RoomSession.ts): the
  validator of a component tree an Agent publishes for a Task, the page's local state, and the
  Room's cache of snapshots with the stored copies it is rebuilt from.

  \<open>ntext\<close> prints and \<open>rn\<close> rounds a number that is no safe integer.
\<close>

definition MAX_TASK_LIVE_VIEW_BYTES :: nat where "MAX_TASK_LIVE_VIEW_BYTES = 32 * 1024"
definition MAX_TASK_LIVE_VIEW_COMPONENTS :: nat where "MAX_TASK_LIVE_VIEW_COMPONENTS = 64"
definition MAX_TASK_LIVE_VIEW_DEPTH :: nat where "MAX_TASK_LIVE_VIEW_DEPTH = 8"
definition MAX_TASK_LIVE_VIEW_DATA_KEYS :: nat where "MAX_TASK_LIVE_VIEW_DATA_KEYS = 32"
definition MAX_TEXT_LENGTH :: nat where "MAX_TEXT_LENGTH = 400"
definition MAX_LABEL_LENGTH :: nat where "MAX_LABEL_LENGTH = 80"
definition MAX_TASK_LIVE_VIEWS :: nat where "MAX_TASK_LIVE_VIEWS = 16"

text \<open>\<open>/^[A-Za-z0-9][A-Za-z0-9._:-]{0,63}$/\<close> and \<open>/^[A-Za-z][A-Za-z0-9_]{0,31}$/\<close>.\<close>

definition VIEW_ID_PATTERN :: "jstr \<Rightarrow> bool" where
  "VIEW_ID_PATTERN s = (case s of [] \<Rightarrow> False | c # cs \<Rightarrow> is_alnum c \<and> length cs \<le> 63 \<and> list_all is_id_unit cs)"

definition DATA_KEY_PATTERN :: "jstr \<Rightarrow> bool" where
  "DATA_KEY_PATTERN s = (case s of [] \<Rightarrow> False
     | c # cs \<Rightarrow> (is_lower c \<or> is_upper c) \<and> length cs \<le> 31 \<and> list_all (\<lambda>d. is_alnum d \<or> d = 0x5f) cs)"

subsection \<open>Values\<close>

definition isSafeText :: "js \<Rightarrow> nat \<Rightarrow> bool" where
  "isSafeText v n = (case v of
     JStr s \<Rightarrow> 0 < length s \<and> length s \<le> n \<and> \<not> list_ex (\<lambda>c. c = 0x3c \<or> c = 0x3e) s \<and>
       \<not> contains_ci ''javascript:'' s \<and> \<not> contains_ci ''http://'' s \<and> \<not> contains_ci ''https://'' s \<and> \<not> contains_ci ''data:'' s
   | _ \<Rightarrow> False)"

definition isScalar :: "js \<Rightarrow> bool" where
  "isScalar v = (case v of JBool _ \<Rightarrow> True | JNum n \<Rightarrow> is_finite_num n | JStr _ \<Rightarrow> isSafeText v MAX_TEXT_LENGTH | _ \<Rightarrow> False)"

definition hasOnlyKeys :: "js \<Rightarrow> string list \<Rightarrow> bool" where
  "hasOnlyKeys v ks = list_all (\<lambda>k. k \<in> set (map lit ks)) (js_keys v)"

type_synonym view_data = "(jstr, js) dict"

definition number_at :: "view_data \<Rightarrow> jstr \<Rightarrow> bool" where
  "number_at data k = (case dget data k of Some (JNum _) \<Rightarrow> True | _ \<Rightarrow> False)"

definition string_at :: "view_data \<Rightarrow> jstr \<Rightarrow> bool" where
  "string_at data k = (case dget data k of Some (JStr _) \<Rightarrow> True | _ \<Rightarrow> False)"

definition path_ok :: "js \<Rightarrow> bool" where
  "path_ok v = (case v of JStr s \<Rightarrow> DATA_KEY_PATTERN s | _ \<Rightarrow> False)"

definition path_of :: "js \<Rightarrow> jstr" where
  "path_of v = (case v of JStr s \<Rightarrow> s | _ \<Rightarrow> [])"

definition validateAction :: "view_data \<Rightarrow> js \<Rightarrow> bool" where
  "validateAction data v =
     (if js_get v ''type'' = JStr (lit ''increment'') then
        is_record v \<and> hasOnlyKeys v [''type'', ''path'', ''amount''] \<and> path_ok (js_get v ''path'') \<and>
        (case js_safe_int (js_get v ''amount'') of Some n \<Rightarrow> n \<noteq> 0 \<and> \<bar>n\<bar> \<le> 1000 | None \<Rightarrow> False) \<and>
        number_at data (path_of (js_get v ''path''))
      else is_record v \<and> js_get v ''type'' = JStr (lit ''set'') \<and> hasOnlyKeys v [''type'', ''path'', ''value''] \<and>
        path_ok (js_get v ''path'') \<and> isScalar (js_get v ''value''))"

subsection \<open>Components\<close>

datatype component_shape = Leaf bool | Container "js list" | No_component

text \<open>A component's own checks: a leaf is good or not, a container has its children still to check.\<close>

definition shape_of :: "view_data \<Rightarrow> js \<Rightarrow> component_shape" where
  "shape_of data v = (case js_get v ''type'' of
     JStr t \<Rightarrow>
       if \<not> is_record v then No_component
       else if t = lit ''Text'' then
         Leaf (hasOnlyKeys v [''type'', ''text''] \<and> isSafeText (js_get v ''text'') MAX_TEXT_LENGTH)
       else if t = lit ''Value'' then Leaf (hasOnlyKeys v [''type'', ''path''] \<and> path_ok (js_get v ''path''))
       else if t = lit ''Button'' then
         Leaf (hasOnlyKeys v [''type'', ''label'', ''action''] \<and> isSafeText (js_get v ''label'') MAX_LABEL_LENGTH \<and>
           validateAction data (js_get v ''action''))
       else if t = lit ''Input'' then
         Leaf (hasOnlyKeys v [''type'', ''path'', ''placeholder''] \<and> path_ok (js_get v ''path'') \<and>
           string_at data (path_of (js_get v ''path'')) \<and>
           (js_get v ''placeholder'' = JUndefined \<or> isSafeText (js_get v ''placeholder'') MAX_LABEL_LENGTH))
       else if t = lit ''Row'' \<or> t = lit ''Column'' \<or> t = lit ''Card'' then
         (case js_get v ''children'' of
            JArr cs \<Rightarrow> if hasOnlyKeys v [''type'', ''children''] \<and> cs \<noteq> [] \<and> length cs \<le> MAX_TASK_LIVE_VIEW_COMPONENTS
              then Container cs else Leaf False
          | _ \<Rightarrow> Leaf False)
       else Leaf False
   | _ \<Rightarrow> No_component)"

text \<open>\<open>every\<close> with the shared counter: it stops at the first child that is refused.\<close>

fun every_child :: "(js \<Rightarrow> nat \<Rightarrow> bool \<times> nat) \<Rightarrow> js list \<Rightarrow> nat \<Rightarrow> bool \<times> nat" where
  "every_child f [] n = (True, n)"
| "every_child f (c # cs) n = (case f c n of (True, n') \<Rightarrow> every_child f cs n' | (False, n') \<Rightarrow> (False, n'))"

text \<open>The first argument is how many levels the depth limit leaves, this component included.\<close>

primrec validateComponent :: "nat \<Rightarrow> view_data \<Rightarrow> js \<Rightarrow> nat \<Rightarrow> bool \<times> nat" where
  "validateComponent 0 data v n = (False, n)"
| "validateComponent (Suc d) data v n = (case shape_of data v of
     No_component \<Rightarrow> (False, n)
   | s \<Rightarrow> (let n = n + 1 in
       if MAX_TASK_LIVE_VIEW_COMPONENTS < n then (False, n)
       else (case s of Leaf good \<Rightarrow> (good, n) | Container cs \<Rightarrow> every_child (validateComponent d data) cs n | No_component \<Rightarrow> (False, n))))"

subsection \<open>Snapshots\<close>

record view_snapshot =
  tv_taskRequestId :: jstr
  tv_surfaceId :: jstr
  tv_authorityAgentId :: jstr
  tv_revision :: int
  tv_root :: js
  tv_data :: view_data

record view_draft =
  vd_surfaceId :: jstr
  vd_revision :: int
  vd_root :: js
  vd_data :: view_data

definition view_id :: "js \<Rightarrow> jstr option" where
  "view_id v = (case v of JStr s \<Rightarrow> if VIEW_ID_PATTERN s then Some s else None | _ \<Rightarrow> None)"

definition draft_fields :: "js \<Rightarrow> string + view_draft" where
  "draft_fields raw = (case (view_id (js_get raw ''surfaceId''), js_safe_int (js_get raw ''revision''), js_get raw ''data'') of
     (Some surface, Some revision, JObj data) \<Rightarrow>
       if revision < 1 \<or> MAX_TASK_LIVE_VIEW_DATA_KEYS < length data then Inl ''invalid_live_view''
       else if \<not> list_all (\<lambda>(k, v). DATA_KEY_PATTERN k \<and> isScalar v) data then Inl ''invalid_live_view_data''
       else if \<not> fst (validateComponent MAX_TASK_LIVE_VIEW_DEPTH data (js_get raw ''root'') 0)
       then Inl ''invalid_live_view_component''
       else Inr \<lparr>vd_surfaceId = surface, vd_revision = revision, vd_root = js_get raw ''root'', vd_data = data\<rparr>
   | _ \<Rightarrow> Inl ''invalid_live_view'')"

definition validateTaskLiveViewSnapshot :: "(rat \<Rightarrow> jstr) \<Rightarrow> js \<Rightarrow> string + view_snapshot" where
  "validateTaskLiveViewSnapshot ntext raw =
     (if \<not> is_record raw then Inl ''invalid_live_view''
      else if MAX_TASK_LIVE_VIEW_BYTES < json_bytes ntext raw then Inl ''live_view_too_large''
      else if \<not> hasOnlyKeys raw [''taskRequestId'', ''surfaceId'', ''authorityAgentId'', ''revision'', ''root'', ''data'']
      then Inl ''invalid_live_view''
      else (case (view_id (js_get raw ''taskRequestId''), view_id (js_get raw ''authorityAgentId'')) of
        (Some task, Some authority) \<Rightarrow> (case draft_fields raw of
            Inl e \<Rightarrow> Inl e
          | Inr d \<Rightarrow> Inr \<lparr>tv_taskRequestId = task, tv_surfaceId = vd_surfaceId d, tv_authorityAgentId = authority,
              tv_revision = vd_revision d, tv_root = vd_root d, tv_data = vd_data d\<rparr>)
      | _ \<Rightarrow> Inl ''invalid_live_view''))"

definition validateTaskLiveViewDraft :: "(rat \<Rightarrow> jstr) \<Rightarrow> js \<Rightarrow> string + view_draft" where
  "validateTaskLiveViewDraft ntext raw =
     (if \<not> is_record raw then Inl ''invalid_live_view''
      else if MAX_TASK_LIVE_VIEW_BYTES < json_bytes ntext raw then Inl ''live_view_too_large''
      else if \<not> hasOnlyKeys raw [''surfaceId'', ''revision'', ''root'', ''data''] then Inl ''invalid_live_view''
      else draft_fields raw)"

subsection \<open>The page's local state\<close>

record view_local =
  vl_surfaceId :: jstr
  vl_revision :: int
  vl_data :: view_data

datatype view_action = Increment jstr int | Set_value jstr js

definition initialTaskLiveViewState :: "view_snapshot \<Rightarrow> view_local" where
  "initialTaskLiveViewState s = \<lparr>vl_surfaceId = tv_surfaceId s, vl_revision = tv_revision s, vl_data = tv_data s\<rparr>"

definition js_add :: "(rat \<Rightarrow> jnum) \<Rightarrow> jnum \<Rightarrow> int \<Rightarrow> jnum" where
  "js_add rn a n = (case a of Fin q \<Rightarrow> rn (q + of_int n) | _ \<Rightarrow> a)"

definition applyTaskLiveViewAction :: "(rat \<Rightarrow> jnum) \<Rightarrow> view_data \<Rightarrow> view_action \<Rightarrow> view_data" where
  "applyTaskLiveViewAction rn data a = (case a of
     Increment k n \<Rightarrow> (case dget data k of Some (JNum x) \<Rightarrow> dput k (JNum (js_add rn x n)) data | _ \<Rightarrow> data)
   | Set_value k v \<Rightarrow> dput k v data)"

definition sameScalarType :: "js \<Rightarrow> js \<Rightarrow> bool" where
  "sameScalarType a b = (case (a, b) of
     (JBool _, JBool _) \<Rightarrow> True | (JNum _, JNum _) \<Rightarrow> True | (JStr _, JStr _) \<Rightarrow> True | _ \<Rightarrow> False)"

definition reconcileTaskLiveViewState :: "view_local option \<Rightarrow> view_snapshot \<Rightarrow> view_local" where
  "reconcileTaskLiveViewState previous s = (case previous of
     None \<Rightarrow> initialTaskLiveViewState s
   | Some l \<Rightarrow>
       if vl_surfaceId l \<noteq> tv_surfaceId s \<or> tv_revision s < vl_revision l then initialTaskLiveViewState s
       else \<lparr>vl_surfaceId = tv_surfaceId s, vl_revision = tv_revision s,
         vl_data = fold (\<lambda>(k, v) data. case dget (vl_data l) k of
           Some w \<Rightarrow> if sameScalarType w v then dput k w data else data | None \<Rightarrow> data) (tv_data s) (tv_data s)\<rparr>)"

subsection \<open>The Room's snapshots\<close>

text \<open>
  The cache, by Task, and what is stored, by the key after its prefix. An inherited name reads
  as a value without a surface.
\<close>

record live_views =
  lw_cache :: "(jstr, view_snapshot) dict"
  lw_stored :: "(jstr, js) dict"

definition snapshot_js :: "view_snapshot \<Rightarrow> js" where
  "snapshot_js s = JObj [(lit ''surfaceId'', JStr (tv_surfaceId s)), (lit ''revision'', JNum (jint (tv_revision s))),
     (lit ''root'', tv_root s), (lit ''data'', JObj (tv_data s)), (lit ''taskRequestId'', JStr (tv_taskRequestId s)),
     (lit ''authorityAgentId'', JStr (tv_authorityAgentId s))]"

definition isCurrentTaskLiveView :: "room \<Rightarrow> task_index \<Rightarrow> jstr \<Rightarrow> view_snapshot \<Rightarrow> bool" where
  "isCurrentTaskLiveView r index i s \<longleftrightarrow> i = tv_taskRequestId s \<and>
     (case dget index i of
        None \<Rightarrow> False
      | Some t \<Rightarrow> tv_authorityAgentId s = ce_from (te_request t) \<or> tv_authorityAgentId s = ce_target (te_request t)) \<and>
     (case dget (r_participants r) (tv_authorityAgentId s) of
        Some p \<Rightarrow> p_kind p = Agent | None \<Rightarrow> tv_authorityAgentId s \<notin> set proto_keys)"

definition reconstructTaskLiveViews :: "(rat \<Rightarrow> jstr) \<Rightarrow> room \<Rightarrow> live_views \<Rightarrow> live_views" where
  "reconstructTaskLiveViews ntext r w =
     (let index = buildTaskProjectionIndex (r_messages r) (r_participants r);
          entries = take MAX_TASK_LIVE_VIEWS (sort_key fst (lw_stored w));
          keep = (\<lambda>(k, raw). case validateTaskLiveViewSnapshot ntext raw of
            Inr s \<Rightarrow> if isCurrentTaskLiveView r index k s then Some (k, s) else None | Inl _ \<Rightarrow> None);
          stale = map fst (filter (\<lambda>e. keep e = None) entries) in
      \<lparr>lw_cache = fold (\<lambda>(k, s). dput k s) (List.map_filter keep entries) [],
       lw_stored = filter (\<lambda>(k, _). k \<notin> set stale) (lw_stored w)\<rparr>)"

definition pruneTaskLiveViews :: "room \<Rightarrow> live_views \<Rightarrow> live_views" where
  "pruneTaskLiveViews r w =
     (let index = buildTaskProjectionIndex (r_messages r) (r_participants r);
          stale = map fst (filter (\<lambda>(k, s). \<not> isCurrentTaskLiveView r index k s) (lw_cache w)) in
      \<lparr>lw_cache = filter (\<lambda>(k, _). k \<notin> set stale) (lw_cache w),
       lw_stored = filter (\<lambda>(k, _). k \<notin> set stale) (lw_stored w)\<rparr>)"

definition publish_error :: "room \<Rightarrow> participant \<Rightarrow> task_entry \<Rightarrow> view_snapshot option \<Rightarrow> nat \<Rightarrow> view_draft \<Rightarrow> (nat \<times> string) option" where
  "publish_error r p t current count d =
     (let authority = (case current of Some s \<Rightarrow> Some (tv_authorityAgentId s)
            | None \<Rightarrow> initialTaskAgentParticipantId (te_request t) (r_participants r)) in
      if authority \<noteq> Some (p_id p) then Some (403, ''live_view_not_authorized'')
      else (case current of
        Some s \<Rightarrow> if tv_surfaceId s \<noteq> vd_surfaceId d then Some (409, ''live_view_surface_mismatch'')
          else if vd_revision d \<le> tv_revision s then Some (409, ''live_view_revision_conflict'') else None
      | None \<Rightarrow> if vd_revision d \<noteq> 1 then Some (409, ''live_view_revision_conflict'')
          else if MAX_TASK_LIVE_VIEWS \<le> count then Some (409, ''live_view_capacity'') else None))"

text \<open>
  A publication by a participant found by its token. The stored key is the id as it came in the
  request; the cache key is that id trimmed. A record over budget is reported after both were
  written. \<open>fits\<close> is the storage budget of the Room record.
\<close>

definition agent_publish_live_view :: "(rat \<Rightarrow> jstr) \<Rightarrow> (room \<Rightarrow> bool) \<Rightarrow> int \<Rightarrow> room \<Rightarrow> participant \<Rightarrow> js \<Rightarrow> js \<Rightarrow> live_views \<Rightarrow>
    (nat \<times> string + view_snapshot) \<times> live_views" where
  "agent_publish_live_view ntext fits now r p rawId surface w =
     (case rawId of
        JStr raw \<Rightarrow>
          (let i = js_trim raw;
               canonical = validateTaskLiveViewSnapshot ntext surface;
               draft = (case canonical of
                 Inr s \<Rightarrow> Inr \<lparr>vd_surfaceId = tv_surfaceId s, vd_revision = tv_revision s, vd_root = tv_root s, vd_data = tv_data s\<rparr>
               | Inl _ \<Rightarrow> validateTaskLiveViewDraft ntext surface) in
           if p_kind p \<noteq> Agent then (Inl (403, ''agent_only''), w)
           else if i = [] then (Inl (400, ''invalid_task_request''), w)
           else (case draft of
             Inl e \<Rightarrow> (Inl (400, e), w)
           | Inr d \<Rightarrow>
               if (case canonical of Inr s \<Rightarrow> tv_taskRequestId s \<noteq> i | Inl _ \<Rightarrow> False)
               then (Inl (400, ''invalid_task_request''), w)
               else (case dget (buildTaskProjectionIndex (r_messages r) (r_participants r)) i of
                 None \<Rightarrow> (Inl (409, ''unknown_task_request''), w)
               | Some t \<Rightarrow>
                   (case publish_error r p t (dget (lw_cache w) i) (length (lw_cache w)) d of
                      Some e \<Rightarrow> (Inl e, w)
                    | None \<Rightarrow>
                        if dget (lw_cache w) i = None \<and> i \<in> set proto_keys then (Inl (409, ''live_view_surface_mismatch''), w)
                        else (let s = \<lparr>tv_taskRequestId = i, tv_surfaceId = vd_surfaceId d, tv_authorityAgentId = p_id p,
                            tv_revision = vd_revision d, tv_root = vd_root d, tv_data = vd_data d\<rparr>;
                            r' = r\<lparr>r_participants := dput (p_id p) (p\<lparr>p_lastSeenAt := now\<rparr>) (r_participants r)\<rparr> in
                          (if saveRoom fits r' = None then Inl (507, ''room_state_budget_exceeded'') else Inr s,
                           \<lparr>lw_cache = dput i s (lw_cache w), lw_stored = dput raw (snapshot_js s) (lw_stored w)\<rparr>))))))
      | _ \<Rightarrow> (Inl (if p_kind p \<noteq> Agent then (403, ''agent_only'') else (400, ''invalid_task_request'')), w))"

subsection \<open>The component budget\<close>

text \<open>
  The specification of a component tree: its depth, its nodes and its own checks, without the
  counter the validator shares between siblings.
\<close>

primrec component_ok :: "nat \<Rightarrow> view_data \<Rightarrow> js \<Rightarrow> bool" where
  "component_ok 0 data v = False"
| "component_ok (Suc d) data v = (case shape_of data v of
     No_component \<Rightarrow> False | Leaf good \<Rightarrow> good | Container cs \<Rightarrow> list_all (component_ok d data) cs)"

primrec component_count :: "nat \<Rightarrow> view_data \<Rightarrow> js \<Rightarrow> nat" where
  "component_count 0 data v = 0"
| "component_count (Suc d) data v = (case shape_of data v of
     Container cs \<Rightarrow> Suc (sum_list (map (component_count d data) cs)) | _ \<Rightarrow> 1)"

text \<open>What a checker with a shared counter promises about \<open>ok\<close> and \<open>nodes\<close>.\<close>

definition counted :: "(js \<Rightarrow> nat \<Rightarrow> bool \<times> nat) \<Rightarrow> (js \<Rightarrow> bool) \<Rightarrow> (js \<Rightarrow> nat) \<Rightarrow> bool" where
  "counted f ok nodes \<longleftrightarrow> (\<forall>v n. (n \<le> MAX_TASK_LIVE_VIEW_COMPONENTS \<longrightarrow>
     fst (f v n) = (ok v \<and> n + nodes v \<le> MAX_TASK_LIVE_VIEW_COMPONENTS)) \<and> (fst (f v n) \<longrightarrow> snd (f v n) = n + nodes v))"

lemma counted_every:
  assumes "counted f ok nodes" and "n \<le> MAX_TASK_LIVE_VIEW_COMPONENTS"
  shows "fst (every_child f cs n) = (list_all ok cs \<and> n + sum_list (map nodes cs) \<le> MAX_TASK_LIVE_VIEW_COMPONENTS) \<and>
    (fst (every_child f cs n) \<longrightarrow> snd (every_child f cs n) = n + sum_list (map nodes cs))"
  using assms(2)
proof (induction cs arbitrary: n)
  case (Cons c cs)
  from assms(1) Cons.prems have c: "fst (f c n) = (ok c \<and> n + nodes c \<le> MAX_TASK_LIVE_VIEW_COMPONENTS)"
    "fst (f c n) \<Longrightarrow> snd (f c n) = n + nodes c" by (simp_all add: counted_def)
  show ?case
  proof (cases "fst (f c n)")
    case True
    with c have "f c n = (True, n + nodes c)" by (metis prod.collapse)
    with Cons.IH [of "n + nodes c"] True c(1) show ?thesis by (simp add: add.assoc)
  next
    case False
    then have "every_child f (c # cs) n = (False, snd (f c n))" by (cases "f c n") simp
    with False c(1) show ?thesis by auto
  qed
qed simp

lemma validate_counted: "counted (validateComponent d data) (component_ok d data) (component_count d data)"
proof (induction d)
  case (Suc d)
  show ?case unfolding counted_def
  proof (intro allI)
    fix v n
    show "(n \<le> MAX_TASK_LIVE_VIEW_COMPONENTS \<longrightarrow> fst (validateComponent (Suc d) data v n) =
        (component_ok (Suc d) data v \<and> n + component_count (Suc d) data v \<le> MAX_TASK_LIVE_VIEW_COMPONENTS)) \<and>
      (fst (validateComponent (Suc d) data v n) \<longrightarrow>
        snd (validateComponent (Suc d) data v n) = n + component_count (Suc d) data v)"
      using counted_every [OF Suc.IH, of "n + 1"] by (cases "shape_of data v") (auto simp: Let_def not_less Suc_le_eq)
  qed
qed (simp add: counted_def)

text \<open>
  C30: the validator of a Live View accepts exactly the trees every component of which is valid, at
  most eight levels deep, with at most 64 components in all.
\<close>

theorem component_budget_exact:
  "fst (validateComponent MAX_TASK_LIVE_VIEW_DEPTH data v 0) =
    (component_ok MAX_TASK_LIVE_VIEW_DEPTH data v \<and>
     component_count MAX_TASK_LIVE_VIEW_DEPTH data v \<le> MAX_TASK_LIVE_VIEW_COMPONENTS)"
  using validate_counted [of MAX_TASK_LIVE_VIEW_DEPTH data] by (simp add: counted_def)

subsection \<open>The page keeps what the viewer typed\<close>

lemma fold_reconcile:
  "dget (fold (\<lambda>(k, v) data. case dget old k of
       Some w \<Rightarrow> if sameScalarType w v then dput k w data else data | None \<Rightarrow> data) kvs data) k =
    (case find (\<lambda>(k', v). k' = k \<and> (case dget old k of Some w \<Rightarrow> sameScalarType w v | None \<Rightarrow> False)) kvs of
       Some _ \<Rightarrow> dget old k | None \<Rightarrow> dget data k)"
  by (induction kvs arbitrary: data) (auto split: option.splits if_splits)

lemma find_key:
  "wf_dict kvs \<Longrightarrow> find (\<lambda>(k', v). k' = k \<and> P v) kvs =
    (case dget kvs k of Some v \<Rightarrow> if P v then Some (k, v) else None | None \<Rightarrow> None)"
proof (induction kvs)
  case (Cons e kvs)
  obtain k' v where e: "e = (k', v)" by (cases e)
  from Cons.prems have "k' \<notin> fst ` set kvs" "wf_dict kvs" by (simp_all add: e wf_dict_def)
  moreover from this have "dget kvs k' = None" by (simp add: dget_eq_None)
  ultimately show ?case using Cons.IH by (auto simp: e)
qed simp

text \<open>
  When a new snapshot of the same surface arrives, every key of the page's state is a key of the
  snapshot, and its value is the viewer's own exactly when that has the type the Agent's value
  has; a value never changes its type under the components bound to it.
\<close>

theorem reconcile_pointwise:
  assumes "wf_dict (tv_data s)" and "vl_surfaceId l = tv_surfaceId s" and "vl_revision l \<le> tv_revision s"
  shows "dget (vl_data (reconcileTaskLiveViewState (Some l) s)) k = (case dget (tv_data s) k of
      None \<Rightarrow> None
    | Some v \<Rightarrow> (case dget (vl_data l) k of Some w \<Rightarrow> Some (if sameScalarType w v then w else v) | None \<Rightarrow> Some v))"
proof -
  have "find (\<lambda>(k', v). k' = k \<and> (case dget (vl_data l) k of Some w \<Rightarrow> sameScalarType w v | None \<Rightarrow> False)) (tv_data s) =
    (case dget (tv_data s) k of
       Some v \<Rightarrow> if (case dget (vl_data l) k of Some w \<Rightarrow> sameScalarType w v | None \<Rightarrow> False) then Some (k, v) else None
     | None \<Rightarrow> None)" by (rule find_key [OF assms(1)])
  with assms(2,3) show ?thesis
    by (auto simp: reconcileTaskLiveViewState_def fold_reconcile split: option.splits)
qed

subsection \<open>A published view comes back after a restart\<close>

definition restorable :: "(rat \<Rightarrow> jstr) \<Rightarrow> room \<Rightarrow> jstr \<Rightarrow> view_snapshot \<Rightarrow> bool" where
  "restorable ntext r i s \<longleftrightarrow> validateTaskLiveViewSnapshot ntext (snapshot_js s) = Inr s \<and>
     isCurrentTaskLiveView r (buildTaskProjectionIndex (r_messages r) (r_participants r)) i s"

text \<open>The stored copies are the cached snapshots, and each of them would be read back.\<close>

definition views_ok :: "(rat \<Rightarrow> jstr) \<Rightarrow> room \<Rightarrow> live_views \<Rightarrow> bool" where
  "views_ok ntext r w \<longleftrightarrow> wf_dict (lw_cache w) \<and> length (lw_cache w) \<le> MAX_TASK_LIVE_VIEWS \<and>
     lw_stored w = map (\<lambda>(k, s). (k, snapshot_js s)) (lw_cache w) \<and>
     (\<forall>(k, s) \<in> set (lw_cache w). restorable ntext r k s)"

lemma snapshot_js_get [simp]:
  "js_get (snapshot_js s) ''surfaceId'' = JStr (tv_surfaceId s)"
  "js_get (snapshot_js s) ''revision'' = JNum (jint (tv_revision s))"
  "js_get (snapshot_js s) ''root'' = tv_root s" "js_get (snapshot_js s) ''data'' = JObj (tv_data s)"
  "js_get (snapshot_js s) ''taskRequestId'' = JStr (tv_taskRequestId s)"
  "js_get (snapshot_js s) ''authorityAgentId'' = JStr (tv_authorityAgentId s)"
  by (simp_all add: snapshot_js_def js_get_def)

lemma js_safe_int_Some: "js_safe_int v = Some n \<longleftrightarrow> v = JNum (jint n) \<and> \<bar>n\<bar> \<le> 9007199254740991"
  by (cases v) (auto simp: js_safe_int_def safe_integer_is_jint simp flip: is_safe_integer_jint)

lemma jint_eq_iff: "jint a = jint b \<longleftrightarrow> a = b"
  by (simp add: jint_def)

lemma draft_fields_snapshot:
  assumes "draft_fields raw = Inr d"
  shows "draft_fields (snapshot_js \<lparr>tv_taskRequestId = i, tv_surfaceId = vd_surfaceId d, tv_authorityAgentId = a,
    tv_revision = vd_revision d, tv_root = vd_root d, tv_data = vd_data d\<rparr>) = Inr d"
  using assms by (auto simp: draft_fields_def view_id_def js_safe_int_Some jint_eq_iff split: option.splits js.splits if_splits)

lemma canonical_draft_fields:
  "validateTaskLiveViewSnapshot ntext raw = Inr s \<Longrightarrow> draft_fields raw =
    Inr \<lparr>vd_surfaceId = tv_surfaceId s, vd_revision = tv_revision s, vd_root = tv_root s, vd_data = tv_data s\<rparr>"
  by (auto simp: validateTaskLiveViewSnapshot_def split: if_splits option.splits sum.splits)

lemma validateTaskLiveViewDraft_fields: "validateTaskLiveViewDraft ntext raw = Inr d \<Longrightarrow> draft_fields raw = Inr d"
  by (auto simp: validateTaskLiveViewDraft_def split: if_splits)

lemma snapshot_js_keys: "is_record (snapshot_js s)"
  "hasOnlyKeys (snapshot_js s) [''taskRequestId'', ''surfaceId'', ''authorityAgentId'', ''revision'', ''root'', ''data'']"
  by (simp_all add: snapshot_js_def is_record_def hasOnlyKeys_def js_keys_def)

lemma publish_error_None:
  "publish_error r p t current n d = None \<longleftrightarrow> (case current of
     None \<Rightarrow> initialTaskAgentParticipantId (te_request t) (r_participants r) = Some (p_id p) \<and> vd_revision d = 1 \<and> n < MAX_TASK_LIVE_VIEWS
   | Some s \<Rightarrow> tv_authorityAgentId s = p_id p \<and> tv_surfaceId s = vd_surfaceId d \<and> tv_revision s < vd_revision d)"
  by (cases current) (auto simp: publish_error_def Let_def)

lemma length_dput_dget: "length (dput k v m) = (if dget m k = None then Suc (length m) else length m)"
  by (simp add: length_dput dget_eq_None)

lemma initialTaskAgent_endpoint:
  "wf_participants ps \<Longrightarrow> initialTaskAgentParticipantId request ps = Some i \<Longrightarrow> i = ce_from request \<or> i = ce_target request"
  by (auto simp: initialTaskAgentParticipantId_def wf_participants_def dest!: dget_in_set split: option.splits if_splits)

lemma publish_cases:
  assumes "agent_publish_live_view ntext fits now r p rawId surface w = (out, w')"
    and "out \<noteq> Inl (507, ''room_state_budget_exceeded'') \<Longrightarrow> \<exists>s. out = Inr s"
  obtains raw t d s where "rawId = JStr raw" and "out = Inr s \<or> out = Inl (507, ''room_state_budget_exceeded'')"
    and "p_kind p = Agent" and "draft_fields surface = Inr d"
    and "dget (buildTaskProjectionIndex (r_messages r) (r_participants r)) (js_trim raw) = Some t"
    and "publish_error r p t (dget (lw_cache w) (js_trim raw)) (length (lw_cache w)) d = None"
    and "s = \<lparr>tv_taskRequestId = js_trim raw, tv_surfaceId = vd_surfaceId d, tv_authorityAgentId = p_id p,
      tv_revision = vd_revision d, tv_root = vd_root d, tv_data = vd_data d\<rparr>"
    and "w' = \<lparr>lw_cache = dput (js_trim raw) s (lw_cache w), lw_stored = dput raw (snapshot_js s) (lw_stored w)\<rparr>"
proof -
  from assms(2) obtain raw where raw: "rawId = JStr raw"
    using assms(1) by (cases rawId) (auto simp: agent_publish_live_view_def split: if_splits)
  have accepted: "(case out of Inl e \<Rightarrow> e = (507, ''room_state_budget_exceeded'') | Inr _ \<Rightarrow> True)"
    using assms(2) by (cases out) auto
  let ?draft = "case validateTaskLiveViewSnapshot ntext surface of
      Inr s \<Rightarrow> Inr \<lparr>vd_surfaceId = tv_surfaceId s, vd_revision = tv_revision s, vd_root = tv_root s, vd_data = tv_data s\<rparr>
    | Inl _ \<Rightarrow> validateTaskLiveViewDraft ntext surface"
  have err: "publish_error r p t c n d \<noteq> Some (507, x)" for t c n d x
    by (auto simp: publish_error_def Let_def split: if_splits option.splits)
  obtain d where d: "?draft = Inr d"
    using assms(1) accepted by (cases ?draft) (auto simp: agent_publish_live_view_def raw Let_def split: if_splits)
  then have fields: "draft_fields surface = Inr d"
    by (auto dest: canonical_draft_fields validateTaskLiveViewDraft_fields split: sum.splits)
  obtain t where t: "dget (buildTaskProjectionIndex (r_messages r) (r_participants r)) (js_trim raw) = Some t"
    using assms(1) accepted d
    by (cases "dget (buildTaskProjectionIndex (r_messages r) (r_participants r)) (js_trim raw)")
      (auto simp: agent_publish_live_view_def raw Let_def split: if_splits)
  have e: "publish_error r p t (dget (lw_cache w) (js_trim raw)) (length (lw_cache w)) d = None"
    using assms(1) accepted d t
    by (cases "publish_error r p t (dget (lw_cache w) (js_trim raw)) (length (lw_cache w)) d")
      (auto simp: agent_publish_live_view_def raw Let_def err split: if_splits)
  show thesis
    by (rule that [OF raw _ _ fields t e refl])
      (use assms(1) accepted in \<open>auto simp: agent_publish_live_view_def raw Let_def d t e split: if_splits\<close>)
qed

text \<open>
  An accepted publication is by the Task's Agent, touches no other Task's view and moves only
  forward: the first revision of a view is 1, a later one is higher and keeps the surface and
  the Agent. A publication that is refused before it is written changes nothing.
\<close>

theorem publication_moves_forward:
  assumes "agent_publish_live_view ntext fits now r p rawId surface w = (out, w')"
  shows "w' = w \<or> (\<exists>s. (out = Inr s \<or> out = Inl (507, ''room_state_budget_exceeded'')) \<and>
    dget (lw_cache w') = (dget (lw_cache w))(tv_taskRequestId s \<mapsto> s) \<and> tv_authorityAgentId s = p_id p \<and> p_kind p = Agent \<and>
    length (lw_cache w') \<le> max MAX_TASK_LIVE_VIEWS (length (lw_cache w)) \<and>
    (case dget (lw_cache w) (tv_taskRequestId s) of
       None \<Rightarrow> tv_revision s = 1
     | Some old \<Rightarrow> tv_surfaceId s = tv_surfaceId old \<and> tv_authorityAgentId old = p_id p \<and> tv_revision old < tv_revision s))"
proof (cases "out \<noteq> Inl (507, ''room_state_budget_exceeded'') \<longrightarrow> (\<exists>s. out = Inr s)")
  case False
  then show ?thesis using assms
    by (auto simp: agent_publish_live_view_def Let_def split: js.splits if_splits sum.splits option.splits)
next
  case True
  then obtain raw t d s where out: "out = Inr s \<or> out = Inl (507, ''room_state_budget_exceeded'')" and kind: "p_kind p = Agent"
    and e: "publish_error r p t (dget (lw_cache w) (js_trim raw)) (length (lw_cache w)) d = None"
    and s: "s = \<lparr>tv_taskRequestId = js_trim raw, tv_surfaceId = vd_surfaceId d, tv_authorityAgentId = p_id p,
      tv_revision = vd_revision d, tv_root = vd_root d, tv_data = vd_data d\<rparr>"
    and w': "w' = \<lparr>lw_cache = dput (js_trim raw) s (lw_cache w), lw_stored = dput raw (snapshot_js s) (lw_stored w)\<rparr>"
    using assms by (elim publish_cases) auto
  from e have "length (lw_cache w') \<le> max MAX_TASK_LIVE_VIEWS (length (lw_cache w)) \<and>
      (case dget (lw_cache w) (js_trim raw) of
         None \<Rightarrow> vd_revision d = 1
       | Some old \<Rightarrow> vd_surfaceId d = tv_surfaceId old \<and> tv_authorityAgentId old = p_id p \<and> tv_revision old < vd_revision d)"
    by (cases "dget (lw_cache w) (js_trim raw)") (auto simp: w' publish_error_None length_dput_dget)
  with out kind show ?thesis by (intro disjI2 exI [of _ s]) (auto simp: s w' fun_eq_iff split: option.splits)
qed

lemma dget_fold_dput: "wf_dict kvs \<Longrightarrow> dget (fold (\<lambda>(k, s). dput k s) kvs m) k = (case dget kvs k of Some s \<Rightarrow> Some s | None \<Rightarrow> dget m k)"
proof (induction kvs arbitrary: m)
  case (Cons e kvs)
  obtain k' s where e: "e = (k', s)" by (cases e)
  from Cons.prems have "k' \<notin> fst ` set kvs" "wf_dict kvs" by (simp_all add: e wf_dict_def)
  moreover from this have "dget kvs k' = None" by (simp add: dget_eq_None)
  ultimately show ?case using Cons.IH by (auto simp: e split: option.splits)
qed simp

lemma map_filter_inverse: "(\<And>x. x \<in> set xs \<Longrightarrow> f (g x) = Some x) \<Longrightarrow> List.map_filter f (map g xs) = xs"
  by (induction xs) (simp_all add: List.map_filter_simps)

lemma sort_key_map_with:
  assumes "\<And>x. f (g x) = h x"
  shows "sort_key f (map g xs) = map g (sort_key h xs)"
proof (induction xs)
  case (Cons x xs)
  have "insort_key f (g x) (map g ys) = map g (insort_key h x ys)" for ys by (induction ys) (simp_all add: assms)
  with Cons show ?case by simp
qed simp

lemma reconstruct_restores:
  assumes "views_ok ntext r w"
  shows "dget (lw_cache (reconstructTaskLiveViews ntext r w)) = dget (lw_cache w) \<and>
    lw_stored (reconstructTaskLiveViews ntext r w) = lw_stored w"
proof -
  define keep where "keep = (\<lambda>(k, raw). case validateTaskLiveViewSnapshot ntext raw of
    Inr s \<Rightarrow> if isCurrentTaskLiveView r (buildTaskProjectionIndex (r_messages r) (r_participants r)) k s then Some (k, s) else None
  | Inl _ \<Rightarrow> None)"
  define js where "js = (\<lambda>(k :: jstr, s). (k, snapshot_js s))"
  define views where "views = sort_key fst (lw_cache w)"
  from assms have stored: "lw_stored w = map js (lw_cache w)" and few: "length (lw_cache w) \<le> MAX_TASK_LIVE_VIEWS"
    and wf: "wf_dict (lw_cache w)" and ok: "\<And>e. e \<in> set (lw_cache w) \<Longrightarrow> keep (js e) = Some e"
    by (auto simp: views_ok_def js_def keep_def restorable_def)
  have "sort_key fst (map js (lw_cache w)) = map js views"
    unfolding views_def by (rule sort_key_map_with) (simp add: js_def split: prod.split)
  then have entries: "take MAX_TASK_LIVE_VIEWS (sort_key fst (lw_stored w)) = map js views"
    using few by (simp add: stored views_def)
  have kept: "keep (js e) = Some e" if "e \<in> set views" for e using that ok by (simp add: views_def)
  then have none: "{e \<in> js ` set views. keep e = None} = {}" by auto
  from kept have "List.map_filter keep (map js views) = views" by (simp add: map_filter_inverse)
  moreover have "wf_dict views" using wf by (simp add: wf_dict_def views_def distinct_map)
  moreover have "dget views k = dget (lw_cache w) k" for k
    using wf \<open>wf_dict views\<close> by (intro map_of_eqI [THEN fun_cong]) (auto simp: wf_dict_def views_def)
  ultimately show ?thesis
    by (simp add: reconstructTaskLiveViews_def Let_def entries none fun_eq_iff dget_fold_dput split: option.split flip: keep_def)
qed

lemma publish_views_ok:
  assumes "agent_publish_live_view ntext fits now r p (JStr raw) surface w = (Inr s, w')" and "views_ok ntext r w"
    and "js_trim raw = raw" and "VIEW_ID_PATTERN raw" and "VIEW_ID_PATTERN (p_id p)"
    and "json_bytes ntext (snapshot_js s) \<le> MAX_TASK_LIVE_VIEW_BYTES"
    and "wf_participants (r_participants r)" and "dget (r_participants r) (p_id p) = Some p"
  shows "views_ok ntext r w'"
proof -
  from assms(1) obtain t d where "p_kind p = Agent" and fields: "draft_fields surface = Inr d"
    and t: "dget (buildTaskProjectionIndex (r_messages r) (r_participants r)) raw = Some t"
    and e: "publish_error r p t (dget (lw_cache w) raw) (length (lw_cache w)) d = None"
    and s: "s = \<lparr>tv_taskRequestId = raw, tv_surfaceId = vd_surfaceId d, tv_authorityAgentId = p_id p,
      tv_revision = vd_revision d, tv_root = vd_root d, tv_data = vd_data d\<rparr>"
    and w': "w' = \<lparr>lw_cache = dput raw s (lw_cache w), lw_stored = dput raw (snapshot_js s) (lw_stored w)\<rparr>"
    by (rule publish_cases) (auto simp: assms(3))
  have "validateTaskLiveViewSnapshot ntext (snapshot_js s) = Inr s"
    using draft_fields_snapshot [OF fields, of raw "p_id p", folded s] assms(4-6)
    by (simp add: validateTaskLiveViewSnapshot_def snapshot_js_keys view_id_def s)
  moreover have "tv_authorityAgentId s = ce_from (te_request t) \<or> tv_authorityAgentId s = ce_target (te_request t)"
  proof (cases "dget (lw_cache w) raw")
    case None
    then show ?thesis using e initialTaskAgent_endpoint [OF assms(7)] by (auto simp: publish_error_None s)
  next
    case (Some old)
    then have "restorable ntext r raw old" using assms(2) by (auto simp: views_ok_def dest: dget_in_set)
    then show ?thesis using e Some t by (auto simp: restorable_def isCurrentTaskLiveView_def publish_error_None s)
  qed
  ultimately have new: "restorable ntext r raw s"
    using assms(8) t \<open>p_kind p = Agent\<close> by (simp add: restorable_def isCurrentTaskLiveView_def s)
  have "map (\<lambda>(k, s). (k, snapshot_js s)) (dput raw s m) = dput raw (snapshot_js s) (map (\<lambda>(k, s). (k, snapshot_js s)) m)" for m
    by (induction m) auto
  moreover have "length (lw_cache w') \<le> MAX_TASK_LIVE_VIEWS"
    using e assms(2) by (auto simp: w' views_ok_def publish_error_None length_dput_dget split: option.splits)
  ultimately show ?thesis using assms(2) new set_dput_subset [of raw s "lw_cache w"]
    by (auto simp: views_ok_def w' intro: wf_dput)
qed

text \<open>
  A published view survives the eviction of the object: rebuilding the cache from storage gives
  back every view the Room had, the new one among them, provided its Task id came without
  surrounding whitespace and the snapshot the Room made fits the byte limit.
\<close>

theorem published_view_survives:
  assumes "agent_publish_live_view ntext fits now r p (JStr raw) surface w = (Inr s, w')" and "views_ok ntext r w"
    and "js_trim raw = raw" and "VIEW_ID_PATTERN raw" and "VIEW_ID_PATTERN (p_id p)"
    and "json_bytes ntext (snapshot_js s) \<le> MAX_TASK_LIVE_VIEW_BYTES"
    and "wf_participants (r_participants r)" and "dget (r_participants r) (p_id p) = Some p"
  shows "dget (lw_cache (reconstructTaskLiveViews ntext r w')) = (dget (lw_cache w))(raw \<mapsto> s) \<and>
    lw_stored (reconstructTaskLiveViews ntext r w') = lw_stored w'"
proof -
  from assms(1) have "lw_cache w' = dput raw s (lw_cache w)" by (rule publish_cases) (auto simp: assms(3))
  with reconstruct_restores [OF publish_views_ok [OF assms]] show ?thesis by (simp add: fun_upd_def)
qed

subsection \<open>A view of the example Room\<close>

definition demo_old :: participant where "demo_old = demo_participant ''old'' Agent False"

definition demo_surface :: "int \<Rightarrow> js" where
  "demo_surface n = JObj [(lit ''surfaceId'', JStr (lit ''s'')), (lit ''revision'', JNum (jint n)),
     (lit ''root'', JObj [(lit ''type'', JStr (lit ''Row'')), (lit ''children'', JArr [
        JObj [(lit ''type'', JStr (lit ''Value'')), (lit ''path'', JStr (lit ''n''))]])]),
     (lit ''data'', JObj [(lit ''n'', JNum (jint 1))])]"

definition demo_view :: "int \<Rightarrow> view_snapshot" where
  "demo_view n = \<lparr>tv_taskRequestId = lit ''req-1'', tv_surfaceId = lit ''s'', tv_authorityAgentId = lit ''old'', tv_revision = n,
     tv_root = js_get (demo_surface n) ''root'', tv_data = [(lit ''n'', JNum (jint 1))]\<rparr>"

definition demo_views :: "string \<Rightarrow> int \<Rightarrow> live_views" where
  "demo_views key n = \<lparr>lw_cache = [(lit ''req-1'', demo_view n)],
     lw_stored = (lit ''req-1'', snapshot_js (demo_view 1)) # (if n = 1 then [] else [(lit key, snapshot_js (demo_view n))])\<rparr>"

abbreviation "no_views \<equiv> \<lparr>lw_cache = [], lw_stored = []\<rparr> :: live_views"

abbreviation "demo_publish key n w \<equiv> agent_publish_live_view (\<lambda>_. []) (\<lambda>_. True) 9 demo_room demo_old (JStr (lit key)) (demo_surface n) w"

lemma demo_view_bytes:
  "json_bytes (\<lambda>_. []) (demo_surface n) = 108" "json_bytes (\<lambda>_. []) (snapshot_js (demo_view n)) = 157"
  if "n = 1 \<or> n = 2" for n
  using that by (elim disjE; simp add: demo_surface_def demo_view_def snapshot_js_def js_get_def quiet_bytes)+

lemma demo_draft:
  "validateTaskLiveViewDraft (\<lambda>_. []) (demo_surface n) =
     Inr \<lparr>vd_surfaceId = lit ''s'', vd_revision = n, vd_root = js_get (demo_surface n) ''root'', vd_data = [(lit ''n'', JNum (jint 1))]\<rparr>"
  "validateTaskLiveViewSnapshot (\<lambda>_. []) (demo_surface n) = Inl ''invalid_live_view''"
  if "n = 1 \<or> n = 2" for n
proof -
  have "draft_fields (demo_surface n) =
      Inr \<lparr>vd_surfaceId = lit ''s'', vd_revision = n, vd_root = js_get (demo_surface n) ''root'', vd_data = [(lit ''n'', JNum (jint 1))]\<rparr>"
    using that by (elim disjE; hypsubst; code_simp)
  moreover have "hasOnlyKeys (demo_surface n) [''surfaceId'', ''revision'', ''root'', ''data'']"
    and "view_id (js_get (demo_surface n) ''taskRequestId'') = None" and "is_record (demo_surface n)"
    using that by (elim disjE; hypsubst; code_simp)+
  ultimately show "validateTaskLiveViewDraft (\<lambda>_. []) (demo_surface n) =
     Inr \<lparr>vd_surfaceId = lit ''s'', vd_revision = n, vd_root = js_get (demo_surface n) ''root'', vd_data = [(lit ''n'', JNum (jint 1))]\<rparr>"
    and "validateTaskLiveViewSnapshot (\<lambda>_. []) (demo_surface n) = Inl ''invalid_live_view''"
    using that by (auto simp: validateTaskLiveViewDraft_def validateTaskLiveViewSnapshot_def demo_view_bytes MAX_TASK_LIVE_VIEW_BYTES_def)
qed

lemma demo_published:
  "demo_publish ''req-1'' 1 no_views = (Inr (demo_view 1), demo_views ''req-1'' 1)"
  "demo_publish '' req-1'' 2 (demo_views ''req-1'' 1) = (Inr (demo_view 2), demo_views '' req-1'' 2)"
proof -
  obtain t where t: "dget (buildTaskProjectionIndex (r_messages demo_room) (r_participants demo_room)) (lit ''req-1'') = Some t"
    and "initialTaskAgentParticipantId (te_request t) (r_participants demo_room) = Some (p_id demo_old)"
  proof (rule that)
    show "dget (buildTaskProjectionIndex (r_messages demo_room) (r_participants demo_room)) (lit ''req-1'') =
      Some (the (dget (buildTaskProjectionIndex (r_messages demo_room) (r_participants demo_room)) (lit ''req-1'')))" by code_simp
  qed code_simp
  moreover have "js_trim (lit ''req-1'') = lit ''req-1''" "js_trim (lit '' req-1'') = lit ''req-1''" "lit ''req-1'' \<notin> set proto_keys"
    "p_kind demo_old = Agent" "p_id demo_old = lit ''old''"
    by code_simp+
  moreover from calculation have "publish_error demo_room demo_old t None 0 d = None" if "vd_revision d = 1" for d
    using that by (simp add: publish_error_None MAX_TASK_LIVE_VIEWS_def)
  moreover from calculation have "publish_error demo_room demo_old t (Some (demo_view 1)) n d = None"
    if "vd_revision d = 2" "vd_surfaceId d = lit ''s''" for n d
    using that by (simp add: publish_error_None demo_view_def)
  moreover have "saveRoom (\<lambda>_. True) r \<noteq> None" for r by (simp add: saveRoom_def Let_def)
  ultimately show "demo_publish ''req-1'' 1 no_views = (Inr (demo_view 1), demo_views ''req-1'' 1)"
    and "demo_publish '' req-1'' 2 (demo_views ''req-1'' 1) = (Inr (demo_view 2), demo_views '' req-1'' 2)"
    by (simp_all add: agent_publish_live_view_def Let_def demo_draft demo_views_def) (simp_all add: demo_view_def)
qed

theorem publication_moves_forward_witness:
  "tv_revision (demo_view 1) < tv_revision (demo_view 2) \<and> tv_authorityAgentId (demo_view 1) = p_id demo_old"
  using publication_moves_forward [OF demo_published(2)] by (simp add: demo_views_def demo_view_def fun_eq_iff split: if_splits)

theorem published_view_survives_witness:
  "dget (lw_cache (reconstructTaskLiveViews (\<lambda>_. []) demo_room (demo_views ''req-1'' 1))) (lit ''req-1'') = Some (demo_view 1)"
proof -
  have "views_ok (\<lambda>_. []) demo_room no_views" by (simp add: views_ok_def)
  moreover have "js_trim (lit ''req-1'') = lit ''req-1''" "VIEW_ID_PATTERN (lit ''req-1'')" "VIEW_ID_PATTERN (p_id demo_old)"
    "wf_participants (r_participants demo_room)" "dget (r_participants demo_room) (p_id demo_old) = Some demo_old"
    by code_simp+
  moreover have "json_bytes (\<lambda>_. []) (snapshot_js (demo_view 1)) \<le> MAX_TASK_LIVE_VIEW_BYTES"
    by (simp add: demo_view_bytes MAX_TASK_LIVE_VIEW_BYTES_def)
  ultimately show ?thesis
    using published_view_survives [OF demo_published(1)] by simp
qed

theorem reconcile_pointwise_witness:
  "dget (vl_data (reconcileTaskLiveViewState
     (Some \<lparr>vl_surfaceId = lit ''s'', vl_revision = 1, vl_data = [(lit ''n'', JNum (jint 7))]\<rparr>) (demo_view 2))) (lit ''n'') =
   Some (JNum (jint 7))"
proof -
  have "wf_dict (tv_data (demo_view 2))" by code_simp
  from reconcile_pointwise [OF this, of "\<lparr>vl_surfaceId = lit ''s'', vl_revision = 1, vl_data = [(lit ''n'', JNum (jint 7))]\<rparr>" "lit ''n''"]
  show ?thesis by (simp add: demo_view_def sameScalarType_def)
qed

text \<open>
  The publication stores the snapshot under the id as it was sent. When the id came with
  whitespace around it, the copy is under a key no later load accepts: after the object is evicted
  the Room is back at the previous revision.
\<close>

theorem untrimmed_view_goes_back:
  "demo_publish '' req-1'' 2 (demo_views ''req-1'' 1) = (Inr (demo_view 2), demo_views '' req-1'' 2) \<and>
   dget (lw_cache (demo_views '' req-1'' 2)) (lit ''req-1'') = Some (demo_view 2) \<and>
   dget (lw_cache (reconstructTaskLiveViews (\<lambda>_. []) demo_room (demo_views '' req-1'' 2))) (lit ''req-1'') = Some (demo_view 1)"
proof -
  have read: "validateTaskLiveViewSnapshot (\<lambda>_. []) (snapshot_js (demo_view n)) = Inr (demo_view n)" if "n = 1 \<or> n = 2" for n
  proof -
    have "draft_fields (demo_surface n) = Inr \<lparr>vd_surfaceId = lit ''s'', vd_revision = n,
        vd_root = js_get (demo_surface n) ''root'', vd_data = [(lit ''n'', JNum (jint 1))]\<rparr>"
      using validateTaskLiveViewDraft_fields [OF demo_draft(1) [OF that]] .
    from draft_fields_snapshot [OF this, of "lit ''req-1''" "lit ''old''"]
    have "draft_fields (snapshot_js (demo_view n)) = Inr \<lparr>vd_surfaceId = lit ''s'', vd_revision = n,
        vd_root = js_get (demo_surface n) ''root'', vd_data = [(lit ''n'', JNum (jint 1))]\<rparr>" by (simp add: demo_view_def)
    moreover have "VIEW_ID_PATTERN (lit ''req-1'')" "VIEW_ID_PATTERN (lit ''old'')" by code_simp+
    ultimately show ?thesis using that
      by (auto simp: validateTaskLiveViewSnapshot_def snapshot_js_keys view_id_def demo_view_bytes MAX_TASK_LIVE_VIEW_BYTES_def)
        (simp_all add: demo_view_def)
  qed
  have "sort_key fst (lw_stored (demo_views '' req-1'' 2)) =
      [(lit '' req-1'', snapshot_js (demo_view 2)), (lit ''req-1'', snapshot_js (demo_view 1))]" by code_simp
  moreover have "isCurrentTaskLiveView demo_room (buildTaskProjectionIndex (r_messages demo_room) (r_participants demo_room))
      (lit ''req-1'') (demo_view 1)" by code_simp
  moreover have "\<not> isCurrentTaskLiveView demo_room index (lit '' req-1'') (demo_view 2)" for index
    by (simp add: isCurrentTaskLiveView_def demo_view_def)
  ultimately have "dget (lw_cache (reconstructTaskLiveViews (\<lambda>_. []) demo_room (demo_views '' req-1'' 2))) (lit ''req-1'') = Some (demo_view 1)"
    by (simp add: reconstructTaskLiveViews_def Let_def read List.map_filter_simps MAX_TASK_LIVE_VIEWS_def)
  moreover have "dget (lw_cache (demo_views '' req-1'' 2)) (lit ''req-1'') = Some (demo_view 2)" by (simp add: demo_views_def)
  ultimately show ?thesis by (simp only: demo_published simp_thms)
qed

end
