(* ===== verification/Generated_Apps.thy ===== *)
theory Generated_Apps
  imports Rate_Limits Text_Encoding Task_Execution Task_Live_View
begin

text \<open>
  Apps an Agent generates for a Task (app/src/common/generatedRoomApp.ts and their handlers in
  app/src/do/RoomSession.ts): the bundle's validator, the publication and replacement of a bundle
  with its chunks in storage, the shared state under optimistic concurrency, and the read that puts
  the chunks together again.

  The Room's publications and the storage keys of the Apps are one state here. \<open>ntext\<close> prints and
  \<open>rn\<close> rounds a number that is no safe integer; \<open>fits\<close> is the storage budget of the record that
  holds the publications. The document built for the App's frame is page text and is not modelled.
\<close>

definition GENERATED_ROOM_APP_VERSION :: int where "GENERATED_ROOM_APP_VERSION = 1"
definition MAX_GENERATED_APPS_PER_ROOM :: nat where "MAX_GENERATED_APPS_PER_ROOM = 4"
definition MAX_GENERATED_APP_BUNDLE_BYTES :: nat where "MAX_GENERATED_APP_BUNDLE_BYTES = 48 * 1024"
definition MAX_GENERATED_APP_STATE_BYTES :: nat where "MAX_GENERATED_APP_STATE_BYTES = 16 * 1024"
definition MAX_GENERATED_APP_UPDATE_BYTES :: nat where "MAX_GENERATED_APP_UPDATE_BYTES = 4 * 1024"
definition GENERATED_APP_CHUNK_SIZE :: nat where "GENERATED_APP_CHUNK_SIZE = 16 * 1024"
definition MAX_TITLE_LENGTH :: nat where "MAX_TITLE_LENGTH = 80"
definition MAX_HTML_LENGTH :: nat where "MAX_HTML_LENGTH = 20 * 1024"
definition MAX_CSS_LENGTH :: nat where "MAX_CSS_LENGTH = 12 * 1024"
definition MAX_JS_LENGTH :: nat where "MAX_JS_LENGTH = 32 * 1024"

subsection \<open>Bundles\<close>

definition hasExactlyKeys :: "js \<Rightarrow> string list \<Rightarrow> bool" where
  "hasExactlyKeys v ks \<longleftrightarrow> sort (js_keys v) = sort (map lit ks)"

definition SAFE_TITLE :: "jstr \<Rightarrow> bool" where
  "SAFE_TITLE s \<longleftrightarrow> s \<noteq> [] \<and> list_all (\<lambda>c. c \<noteq> 0x3c \<and> c \<noteq> 0x3e \<and> 0x1f < c \<and> c \<noteq> 0x7f) s"

text \<open>A word of \<open>/.../i\<close> that a word boundary follows.\<close>

definition word_unit :: "code_unit \<Rightarrow> bool" where
  "word_unit c \<longleftrightarrow> is_alnum c \<or> c = 0x5f"

fun has_word :: "jstr \<Rightarrow> jstr \<Rightarrow> bool" where
  "has_word pat [] \<longleftrightarrow> False"
| "has_word pat (c # cs) \<longleftrightarrow> take (length pat) (c # cs) = pat \<and>
     (case drop (length pat) (c # cs) of [] \<Rightarrow> True | d # _ \<Rightarrow> \<not> word_unit d) \<or> has_word pat cs"

definition contains_word_ci :: "string \<Rightarrow> jstr \<Rightarrow> bool" where
  "contains_word_ci pat s = has_word (lit pat) (map ascii_fold s)"

definition safeSource :: "js \<Rightarrow> nat \<Rightarrow> bool" where
  "safeSource v n = (case v of
     JStr s \<Rightarrow> 0 < length s \<and> length s \<le> n \<and> 0 \<notin> set s \<and> \<not> contains_ci ''</script'' s \<and>
       \<not> contains_word_ci ''<iframe'' s \<and> \<not> contains_word_ci ''<object'' s \<and> \<not> contains_word_ci ''<embed'' s \<and>
       \<not> contains_ci ''javascript:'' s
   | _ \<Rightarrow> False)"

definition safeJsonObject :: "(rat \<Rightarrow> jstr) \<Rightarrow> js \<Rightarrow> nat \<Rightarrow> bool" where
  "safeJsonObject ntext v n \<longleftrightarrow> is_record v \<and> json_bytes ntext v \<le> n"

definition bundle_title :: "js \<Rightarrow> jstr option" where
  "bundle_title v = js_str (js_get (js_get v ''manifest'') ''title'')"

definition validateGeneratedRoomAppBundle :: "(rat \<Rightarrow> jstr) \<Rightarrow> js \<Rightarrow> string + js \<times> nat" where
  "validateGeneratedRoomAppBundle ntext v =
     (if \<not> is_record v then Inl ''generated_app_bundle_object''
      else if \<not> hasExactlyKeys v [''version'', ''manifest'', ''html'', ''css'', ''js'', ''initialState'']
        \<or> js_get v ''version'' \<noteq> JNum (jint GENERATED_ROOM_APP_VERSION)
        \<or> \<not> is_record (js_get v ''manifest'') \<or> \<not> hasExactlyKeys (js_get v ''manifest'') [''title'', ''networkOrigins'']
        \<or> \<not> (case bundle_title v of Some s \<Rightarrow> s \<noteq> [] \<and> length s \<le> MAX_TITLE_LENGTH \<and> SAFE_TITLE s | None \<Rightarrow> False)
        \<or> js_get (js_get v ''manifest'') ''networkOrigins'' \<noteq> JArr []
        \<or> \<not> safeSource (js_get v ''html'') MAX_HTML_LENGTH \<or> \<not> safeSource (js_get v ''css'') MAX_CSS_LENGTH
        \<or> \<not> safeSource (js_get v ''js'') MAX_JS_LENGTH
        \<or> \<not> safeJsonObject ntext (js_get v ''initialState'') MAX_GENERATED_APP_STATE_BYTES
      then Inl ''generated_app_bundle_invalid''
      else (let bytes = json_bytes ntext v in
        if MAX_GENERATED_APP_BUNDLE_BYTES < bytes then Inl ''generated_app_bundle_too_large'' else Inr (v, bytes)))"

definition validateGeneratedRoomAppState :: "(rat \<Rightarrow> jstr) \<Rightarrow> js \<Rightarrow> string + js \<times> nat" where
  "validateGeneratedRoomAppState ntext v =
     (if \<not> safeJsonObject ntext v MAX_GENERATED_APP_STATE_BYTES then Inl ''generated_app_state_invalid''
      else Inr (v, json_bytes ntext v))"

subsection \<open>Publications\<close>

record app_publication =
  ap_appInstanceId :: jstr
  ap_taskRequestId :: jstr
  ap_title :: jstr
  ap_bundleBytes :: nat
  ap_bundleRevision :: int
  ap_stateRevision :: int
  ap_createdAt :: jnum
  ap_updatedAt :: jnum

type_synonym publications = "(jstr, app_publication) dict"

text \<open>\<open>/^generated:[0-9a-f-]{36}$/\<close>.\<close>

definition GENERATED_ID_PATTERN :: "jstr \<Rightarrow> bool" where
  "GENERATED_ID_PATTERN s \<longleftrightarrow> take 10 s = lit ''generated:'' \<and> length s = 46 \<and>
     list_all (\<lambda>c. is_digit c \<or> 0x61 \<le> c \<and> c \<le> 0x66 \<or> c = 0x2d) (drop 10 s)"

definition urlSafeGeneratedAppId :: "jstr option \<Rightarrow> jstr option" where
  "urlSafeGeneratedAppId v = (case v of Some s \<Rightarrow> if GENERATED_ID_PATTERN s then Some s else None | None \<Rightarrow> None)"

definition finite_number :: "js \<Rightarrow> jnum option" where
  "finite_number v = (case v of JNum n \<Rightarrow> if is_finite_num n then Some n else None | _ \<Rightarrow> None)"

definition stored_revision :: "js \<Rightarrow> int option" where
  "stored_revision v = (case v of JUndefined \<Rightarrow> Some 1
     | _ \<Rightarrow> (case js_safe_int v of Some n \<Rightarrow> if 1 \<le> n then Some n else None | None \<Rightarrow> None))"

text \<open>A stored publication that passes the check; a missing bundle revision becomes 1.\<close>

definition validGeneratedAppPublication :: "js \<Rightarrow> app_publication option" where
  "validGeneratedAppPublication v =
     (if \<not> is_record v then None
      else (case (js_get v ''appInstanceId'', js_get v ''taskRequestId'', js_get v ''title'', js_safe_int (js_get v ''bundleBytes''),
          stored_revision (js_get v ''bundleRevision''), js_safe_int (js_get v ''stateRevision''),
          finite_number (js_get v ''createdAt''), finite_number (js_get v ''updatedAt'')) of
        (JStr i, JStr task, JStr title, Some bytes, Some revision, Some state, Some created, Some updated) \<Rightarrow>
          if GENERATED_ID_PATTERN i \<and> 0 < length task \<and> length task \<le> MAX_TASK_INTERRUPT_REQUEST_ID_LENGTH \<and> 0 < length title \<and> length title \<le> 80
            \<and> 0 < bytes \<and> bytes \<le> int MAX_GENERATED_APP_BUNDLE_BYTES \<and> 0 \<le> state
          then Some \<lparr>ap_appInstanceId = i, ap_taskRequestId = task, ap_title = title, ap_bundleBytes = nat bytes,
            ap_bundleRevision = revision, ap_stateRevision = state, ap_createdAt = created, ap_updatedAt = updated\<rparr>
          else None
      | _ \<Rightarrow> None))"

definition load_publication :: "jstr \<times> js \<Rightarrow> publications \<Rightarrow> publications" where
  "load_publication e apps = (case validGeneratedAppPublication (snd e) of
     None \<Rightarrow> apps
   | Some a \<Rightarrow>
       if MAX_GENERATED_APPS_PER_ROOM \<le> length apps \<or> fst e \<noteq> ap_appInstanceId a
         \<or> ap_taskRequestId a \<in> ap_taskRequestId ` snd ` set apps then apps
       else dput (fst e) a apps)"

definition normalizeGeneratedApps :: "js \<Rightarrow> publications" where
  "normalizeGeneratedApps v = (case v of JObj entries \<Rightarrow> fold load_publication entries [] | _ \<Rightarrow> [])"

subsection \<open>Storage\<close>

record app_manifest =
  am_appInstanceId :: jstr
  am_bundleBytes :: nat
  am_chunkCount :: nat
  am_bundleRevision :: "int option"

text \<open>The keys of the Apps: a chunk by App, bundle revision and index, or by App and index in the old shape.\<close>

record app_store =
  st_apps :: publications
  st_chunks :: "(jstr \<times> int \<times> nat, nat list) dict"
  st_legacy :: "(jstr \<times> nat, nat list) dict"
  st_state :: "(jstr, js) dict"
  st_manifest :: "(jstr, app_manifest) dict"

definition chunk_count :: "nat \<Rightarrow> nat" where
  "chunk_count n = (n + (GENERATED_APP_CHUNK_SIZE - 1)) div GENERATED_APP_CHUNK_SIZE"

definition chunk_at :: "nat list \<Rightarrow> nat \<Rightarrow> nat list" where
  "chunk_at bytes index = take GENERATED_APP_CHUNK_SIZE (drop (index * GENERATED_APP_CHUNK_SIZE) bytes)"

definition put_chunks :: "jstr \<Rightarrow> int \<Rightarrow> nat list \<Rightarrow> (jstr \<times> int \<times> nat, nat list) dict \<Rightarrow> (jstr \<times> int \<times> nat, nat list) dict" where
  "put_chunks i revision bytes chunks =
     fold (\<lambda>index. dput (i, revision, index) (chunk_at bytes index)) [0..<chunk_count (length bytes)] chunks"

fun collect_chunks :: "(nat \<Rightarrow> nat list option) \<Rightarrow> nat \<Rightarrow> nat list \<Rightarrow> nat list \<Rightarrow> nat list option" where
  "collect_chunks get limit [] acc = (if length acc = limit then Some acc else None)"
| "collect_chunks get limit (index # rest) acc = (case get index of
     None \<Rightarrow> None
   | Some chunk \<Rightarrow>
       if chunk = [] \<or> GENERATED_APP_CHUNK_SIZE < length chunk \<or> limit < length acc + length chunk then None
       else collect_chunks get limit rest (acc @ chunk))"

definition readGeneratedAppBundleBytes :: "app_store \<Rightarrow> app_publication \<Rightarrow> nat list option" where
  "readGeneratedAppBundleBytes s a =
     (let i = ap_appInstanceId a; n = ap_bundleBytes a; indices = [0..<chunk_count n] in
      case collect_chunks (\<lambda>index. dget (st_chunks s) (i, ap_bundleRevision a, index)) n indices [] of
        Some bytes \<Rightarrow> Some bytes
      | None \<Rightarrow>
          if Option.bind (dget (st_manifest s) i) am_bundleRevision = None \<and> ap_bundleRevision a = 1
          then collect_chunks (\<lambda>index. dget (st_legacy s) (i, index)) n indices [] else None)"

subsection \<open>Publishing\<close>

datatype publish_outcome = PB_error nat string | PB_duplicate app_publication | PB_updated app_publication | PB_first app_publication | PB_unsaved

definition touch :: "int \<Rightarrow> participant \<Rightarrow> room \<Rightarrow> room" where
  "touch now p r = r\<lparr>r_participants := dput (p_id p) (p\<lparr>p_lastSeenAt := now\<rparr>) (r_participants r)\<rparr>"

definition without_chunks :: "jstr \<Rightarrow> int \<Rightarrow> nat \<Rightarrow> (jstr \<times> int \<times> nat, nat list) dict \<Rightarrow> (jstr \<times> int \<times> nat, nat list) dict" where
  "without_chunks i revision n chunks = filter (\<lambda>(k, _). \<not> (\<exists>index \<in> set [0..<n]. k = (i, revision, index))) chunks"

definition without_legacy :: "jstr \<Rightarrow> nat \<Rightarrow> (jstr \<times> nat, nat list) dict \<Rightarrow> (jstr \<times> nat, nat list) dict" where
  "without_legacy i n chunks = filter (\<lambda>(k, _). \<not> (\<exists>index \<in> set [0..<n]. k = (i, index))) chunks"

text \<open>The replacement of a bundle: new chunks and manifest first, then the record; a record over budget undoes both.\<close>

definition replace_bundle :: "(publications \<Rightarrow> room \<Rightarrow> bool) \<Rightarrow> int \<Rightarrow> room \<Rightarrow> app_publication \<Rightarrow> app_publication \<Rightarrow> nat list \<Rightarrow> app_store \<Rightarrow>
    publish_outcome \<times> app_store" where
  "replace_bundle fits now r current new bytes s =
     (let i = ap_appInstanceId current; n = chunk_count (length bytes); revision = ap_bundleRevision new;
          chunks = put_chunks i revision bytes (st_chunks s);
          manifest = dput i \<lparr>am_appInstanceId = i, am_bundleBytes = ap_bundleBytes new, am_chunkCount = n,
            am_bundleRevision = Some revision\<rparr> (st_manifest s);
          apps = map (\<lambda>(k, a). if k = i then (k, new) else (k, a)) (st_apps s) in
      case saveRoom (fits apps) r of
        None \<Rightarrow> (PB_unsaved, s\<lparr>st_chunks := without_chunks i revision n chunks,
          st_manifest := (case dget (st_manifest s) i of None \<Rightarrow> ddel i manifest | Some m \<Rightarrow> dput i m manifest)\<rparr>)
      | Some _ \<Rightarrow>
          (let old = chunk_count (ap_bundleBytes current) in
           (PB_updated new, s\<lparr>st_apps := apps, st_manifest := manifest,
             st_chunks := without_chunks i (ap_bundleRevision current) old chunks, st_legacy := without_legacy i old (st_legacy s)\<rparr>)))"

definition first_bundle :: "(publications \<Rightarrow> room \<Rightarrow> bool) \<Rightarrow> room \<Rightarrow> app_publication \<Rightarrow> nat list \<Rightarrow> js \<Rightarrow> app_store \<Rightarrow>
    publish_outcome \<times> app_store" where
  "first_bundle fits r new bytes state s =
     (let i = ap_appInstanceId new; n = chunk_count (length bytes);
          chunks = put_chunks i 1 bytes (st_chunks s);
          manifest = dput i \<lparr>am_appInstanceId = i, am_bundleBytes = ap_bundleBytes new, am_chunkCount = n, am_bundleRevision = Some 1\<rparr>
            (st_manifest s);
          states = dput i state (st_state s);
          apps = dput i new (st_apps s) in
      case saveRoom (fits apps) r of
        None \<Rightarrow> (PB_unsaved, s\<lparr>st_chunks := without_chunks i 1 n chunks, st_state := ddel i states, st_manifest := ddel i manifest\<rparr>)
      | Some _ \<Rightarrow> (PB_first new, s\<lparr>st_apps := apps, st_chunks := chunks, st_state := states, st_manifest := manifest\<rparr>))"

definition bundle_bytes :: "(rat \<Rightarrow> jstr) \<Rightarrow> js \<Rightarrow> nat list" where
  "bundle_bytes ntext v = utf8_encode (json_text ntext v)"

text \<open>A publication by a participant found by its token; \<open>uuid\<close> is the random part of a new App's id.\<close>

definition agent_publish_generated_app :: "(rat \<Rightarrow> jstr) \<Rightarrow> (publications \<Rightarrow> room \<Rightarrow> bool) \<Rightarrow> jstr \<Rightarrow> int \<Rightarrow> room \<Rightarrow> participant \<Rightarrow>
    js \<Rightarrow> js \<Rightarrow> app_store \<Rightarrow> publish_outcome \<times> app_store" where
  "agent_publish_generated_app ntext fits uuid now r p rawId raw s =
     (let task = (case rawId of JStr x \<Rightarrow> js_trim x | _ \<Rightarrow> []) in
      if p_kind p \<noteq> Agent then (PB_error 403 ''agent_only'', s)
      else if task = [] then (PB_error 400 ''invalid_task_request'', s)
      else (case dget (buildTaskProjectionIndex (r_messages r) (r_participants r)) task of
        None \<Rightarrow> (PB_error 409 ''unknown_task_request'', s)
      | Some t \<Rightarrow>
          if initialTaskAgentParticipantId (te_request t) (r_participants r) \<noteq> Some (p_id p)
          then (PB_error 403 ''generated_app_not_authorized'', s)
          else (case validateGeneratedRoomAppBundle ntext raw of
            Inl e \<Rightarrow> (PB_error 400 e, s)
          | Inr (bundle, n) \<Rightarrow>
              (let bytes = bundle_bytes ntext bundle; title = the (bundle_title bundle); r' = touch now p r in
               case find (\<lambda>a. ap_taskRequestId a = task) (map snd (st_apps s)) of
                 Some current \<Rightarrow>
                   (case readGeneratedAppBundleBytes s current of
                      None \<Rightarrow> (PB_error 503 ''generated_app_unavailable'', s)
                    | Some existing \<Rightarrow>
                        if existing = bytes then (PB_duplicate current, s)
                        else replace_bundle fits now r' current (current\<lparr>ap_title := title, ap_bundleBytes := n,
                          ap_bundleRevision := ap_bundleRevision current + 1, ap_updatedAt := jint now\<rparr>) bytes s)
               | None \<Rightarrow>
                   if MAX_GENERATED_APPS_PER_ROOM \<le> length (st_apps s) then (PB_error 409 ''generated_app_capacity'', s)
                   else (case validateGeneratedRoomAppState ntext (js_get bundle ''initialState'') of
                     Inl e \<Rightarrow> (PB_error 400 e, s)
                   | Inr (state, _) \<Rightarrow>
                       first_bundle fits r' \<lparr>ap_appInstanceId = lit ''generated:'' @ uuid, ap_taskRequestId = task, ap_title = title,
                         ap_bundleBytes = n, ap_bundleRevision = 1, ap_stateRevision = 0, ap_createdAt = jint now,
                         ap_updatedAt = jint now\<rparr> bytes state s)))))"

subsection \<open>Reading\<close>

definition handleGeneratedAppRead :: "(rat \<Rightarrow> jstr) \<Rightarrow> (rat \<Rightarrow> jnum) \<Rightarrow> participant option \<Rightarrow> jstr option \<Rightarrow> app_store \<Rightarrow>
    (nat \<times> string) + (app_publication \<times> js \<times> js)" where
  "handleGeneratedAppRead ntext rn who raw s =
     (if \<not> (case who of Some p \<Rightarrow> p_kind p = Human | None \<Rightarrow> False) then Inl (401, ''unauthorized'')
      else (case Option.bind (urlSafeGeneratedAppId raw) (\<lambda>i. map_option (\<lambda>a. (i, a)) (dget (st_apps s) i)) of
        None \<Rightarrow> Inl (404, ''generated_app_not_found'')
      | Some (i, a) \<Rightarrow>
          (case Option.bind (Option.bind (readGeneratedAppBundleBytes s (a\<lparr>ap_appInstanceId := i\<rparr>)) utf8_decode) (json_parse rn) of
             None \<Rightarrow> Inl (503, ''generated_app_unavailable'')
           | Some parsed \<Rightarrow> (case (validateGeneratedRoomAppBundle ntext parsed,
                 validateGeneratedRoomAppState ntext (case dget (st_state s) i of Some v \<Rightarrow> v | None \<Rightarrow> JUndefined)) of
               (Inr (bundle, _), Inr (state, _)) \<Rightarrow> Inr (a, bundle, state)
             | _ \<Rightarrow> Inl (503, ''generated_app_unavailable'')))))"

subsection \<open>Shared state\<close>

datatype state_reply = SR_error string | SR_conflict "int option" js | SR_accepted int js | SR_unsaved

text \<open>
  A Human's update; \<open>i\<close> is the property name the App id of the message reads as. The windows are
  those of the rate limit. An inherited name reads as a publication without a state revision.
\<close>

definition generated_app_state_update :: "(rat \<Rightarrow> jstr) \<Rightarrow> (publications \<Rightarrow> room \<Rightarrow> bool) \<Rightarrow> int \<Rightarrow> room \<Rightarrow> participant \<Rightarrow> jstr \<Rightarrow> js \<Rightarrow>
    (jstr, state_window) dict \<Rightarrow> app_store \<Rightarrow> state_reply \<times> (jstr, state_window) dict \<times> app_store" where
  "generated_app_state_update ntext fits now r p i msg windows s =
     (if dget (st_apps s) i = None \<and> i \<notin> set proto_keys then (SR_error ''generated_app_not_found'', windows, s)
      else (case js_safe_int (js_get msg ''expectedRevision'') of
        None \<Rightarrow> (SR_error ''invalid_revision'', windows, s)
      | Some expected \<Rightarrow>
          if expected < 0 then (SR_error ''invalid_revision'', windows, s)
          else (case validateGeneratedRoomAppState ntext (js_get msg ''state'') of
            Inl _ \<Rightarrow> (SR_error ''generated_app_state_invalid'', windows, s)
          | Inr (next_state, _) \<Rightarrow>
              (let bytes = serializedRoomAppBytes ntext msg in
               if MAX_GENERATED_APP_UPDATE_BYTES < bytes then (SR_error ''generated_app_state_invalid'', windows, s)
               else (case (dget (st_apps s) i, dget (st_state s) i) of
                 (Some a, Some current) \<Rightarrow>
                   if ap_stateRevision a \<noteq> expected then (SR_conflict (Some (ap_stateRevision a)) current, windows, s)
                   else (case generatedAppStateBudgetExceeded (p_id p) i bytes now windows of
                     (True, windows) \<Rightarrow> (SR_error ''generated_app_state_rate_limited'', windows, s)
                   | (False, windows) \<Rightarrow>
                       (let a' = a\<lparr>ap_stateRevision := ap_stateRevision a + 1, ap_updatedAt := jint now\<rparr>;
                            apps = dput i a' (st_apps s); states = dput i next_state (st_state s) in
                        (case saveRoom (fits apps) (touch now p r) of
                           None \<Rightarrow> (SR_unsaved, windows, s\<lparr>st_state := dput i current states\<rparr>)
                         | Some _ \<Rightarrow> (SR_accepted (ap_stateRevision a') next_state, windows, s\<lparr>st_apps := apps, st_state := states\<rparr>))))
               | (a, current) \<Rightarrow> (SR_conflict (map_option ap_stateRevision a) (case current of Some v \<Rightarrow> v | None \<Rightarrow> JObj []),
                   windows, s))))))"

subsection \<open>Chunks\<close>

lemma chunk_size: "GENERATED_APP_CHUNK_SIZE = 16384"
  by (simp add: GENERATED_APP_CHUNK_SIZE_def)

lemma chunk_count_bounds: "n \<le> chunk_count n * GENERATED_APP_CHUNK_SIZE"
    "k < chunk_count n \<Longrightarrow> k * GENERATED_APP_CHUNK_SIZE < n"
  by (simp_all add: chunk_count_def chunk_size)

lemma chunk_at_extends: "take (index * GENERATED_APP_CHUNK_SIZE) bytes @ chunk_at bytes index = take (Suc index * GENERATED_APP_CHUNK_SIZE) bytes"
proof -
  have "Suc index * GENERATED_APP_CHUNK_SIZE = index * GENERATED_APP_CHUNK_SIZE + GENERATED_APP_CHUNK_SIZE" by simp
  then show ?thesis by (simp only: chunk_at_def take_add)
qed

lemma collect_from:
  assumes "\<And>j. j < chunk_count (length bytes) \<Longrightarrow> get j = Some (chunk_at bytes j)" and "k \<le> chunk_count (length bytes)"
  shows "collect_chunks get (length bytes) [k..<chunk_count (length bytes)] (take (k * GENERATED_APP_CHUNK_SIZE) bytes) = Some bytes"
  using assms(2)
proof (induction "chunk_count (length bytes) - k" arbitrary: k)
  case 0
  then have "k = chunk_count (length bytes)" by simp
  then show ?case using chunk_count_bounds(1) [of "length bytes"] by simp
next
  case (Suc m)
  then have k: "k < chunk_count (length bytes)" by simp
  have "k * GENERATED_APP_CHUNK_SIZE < length bytes" by (rule chunk_count_bounds(2) [OF k])
  then have "chunk_at bytes k \<noteq> []" "length (chunk_at bytes k) \<le> GENERATED_APP_CHUNK_SIZE"
    "length (take (k * GENERATED_APP_CHUNK_SIZE) bytes) + length (chunk_at bytes k) \<le> length bytes"
    by (simp_all add: chunk_at_def chunk_size)
  moreover have "[k..<chunk_count (length bytes)] = k # [Suc k..<chunk_count (length bytes)]" using k by (rule upt_conv_Cons)
  moreover have "collect_chunks get (length bytes) [Suc k..<chunk_count (length bytes)] (take (Suc k * GENERATED_APP_CHUNK_SIZE) bytes) = Some bytes"
    by (rule Suc.hyps(1)) (use Suc.hyps(2) k in simp_all)
  ultimately show ?case using assms(1) [OF k] chunk_at_extends [of k bytes] by (simp del: mult_Suc)
qed

lemma collect_all:
  "(\<And>j. j < chunk_count (length bytes) \<Longrightarrow> get j = Some (chunk_at bytes j)) \<Longrightarrow>
    collect_chunks get (length bytes) [0..<chunk_count (length bytes)] [] = Some bytes"
  using collect_from [of bytes get 0] by simp

lemma collect_cong: "(\<And>j. j \<in> set js \<Longrightarrow> f j = g j) \<Longrightarrow> collect_chunks f n js acc = collect_chunks g n js acc"
  by (induction js arbitrary: acc) (auto split: option.splits)

lemma dget_put_chunks: "dget (put_chunks i v bytes m) (j, w, index) =
    (if j = i \<and> w = v \<and> index < chunk_count (length bytes) then Some (chunk_at bytes index) else dget m (j, w, index))"
proof -
  have "dget (fold (\<lambda>index. dput (i, v, index) (chunk_at bytes index)) indices m) (j, w, index) =
      (if j = i \<and> w = v \<and> index \<in> set indices then Some (chunk_at bytes index) else dget m (j, w, index))" for indices
    by (induction indices arbitrary: m) auto
  then show ?thesis by (simp add: put_chunks_def)
qed

lemma dget_filter: "dget (filter (\<lambda>(k, _). P k) m) k = (if P k then dget m k else None)"
  by (induction m) auto

lemma dget_without_chunks: "dget (without_chunks i v n m) (j, w, index) = (if j = i \<and> w = v \<and> index < n then None else dget m (j, w, index))"
  by (auto simp: without_chunks_def dget_filter)

lemma dget_without_legacy: "dget (without_legacy i n m) (j, index) = (if j = i \<and> index < n then None else dget m (j, index))"
  by (auto simp: without_legacy_def dget_filter)

lemma read_cong:
  assumes "\<And>index. dget (st_chunks s') (ap_appInstanceId a, ap_bundleRevision a, index) = dget (st_chunks s) (ap_appInstanceId a, ap_bundleRevision a, index)"
    and "\<And>index. dget (st_legacy s') (ap_appInstanceId a, index) = dget (st_legacy s) (ap_appInstanceId a, index)"
    and "dget (st_manifest s') (ap_appInstanceId a) = dget (st_manifest s) (ap_appInstanceId a)"
  shows "readGeneratedAppBundleBytes s' a = readGeneratedAppBundleBytes s a"
  using assms by (simp add: readGeneratedAppBundleBytes_def Let_def cong: option.case_cong)

lemma read_fresh:
  assumes "\<And>index. index < chunk_count (length bytes) \<Longrightarrow>
      dget (st_chunks s) (ap_appInstanceId a, ap_bundleRevision a, index) = Some (chunk_at bytes index)"
    and "ap_bundleBytes a = length bytes"
  shows "readGeneratedAppBundleBytes s a = Some bytes"
  using collect_all [of bytes "\<lambda>index. dget (st_chunks s) (ap_appInstanceId a, ap_bundleRevision a, index)"] assms
  by (simp add: readGeneratedAppBundleBytes_def Let_def)

subsection \<open>A save that fails leaves what was readable\<close>

text \<open>What a reader can see of the Apps.\<close>

definition readable :: "app_store \<Rightarrow> jstr \<Rightarrow> (app_publication \<times> nat list option \<times> js option) option" where
  "readable s i = map_option (\<lambda>a. (a, readGeneratedAppBundleBytes s a, dget (st_state s) i)) (dget (st_apps s) i)"

definition keyed_apps :: "publications \<Rightarrow> bool" where
  "keyed_apps apps \<longleftrightarrow> wf_dict apps \<and> (\<forall>(k, a) \<in> set apps. ap_appInstanceId a = k)"

lemma keyed_dget: "keyed_apps apps \<Longrightarrow> dget apps k = Some a \<Longrightarrow> ap_appInstanceId a = k"
  by (auto simp: keyed_apps_def dest: dget_in_set)

lemma keyed_member: "keyed_apps apps \<Longrightarrow> a \<in> snd ` set apps \<Longrightarrow> dget apps (ap_appInstanceId a) = Some a"
proof -
  assume apps: "keyed_apps apps" and "a \<in> snd ` set apps"
  then obtain k where k: "(k, a) \<in> set apps" by auto
  with apps have "ap_appInstanceId a = k" "wf_dict apps" by (auto simp: keyed_apps_def)
  with k show "dget apps (ap_appInstanceId a) = Some a" by (simp add: wf_dget)
qed

lemma readable_eqI:
  assumes "keyed_apps (st_apps s)" and "st_apps s' = st_apps s" and "dget (st_state s') i = dget (st_state s) i"
    and "\<And>a. dget (st_apps s) i = Some a \<Longrightarrow> readGeneratedAppBundleBytes s' a = readGeneratedAppBundleBytes s a"
  shows "readable s' i = readable s i"
  using assms by (cases "dget (st_apps s) i") (simp_all add: readable_def)

lemma replace_unsaved:
  assumes "replace_bundle fits now r current new bytes s = (PB_unsaved, s')" and "keyed_apps (st_apps s)"
    and "ap_bundleRevision new = ap_bundleRevision current + 1" and "current \<in> snd ` set (st_apps s)"
  shows "readable s' i = readable s i"
proof -
  have s': "st_apps s' = st_apps s" "st_state s' = st_state s" "st_legacy s' = st_legacy s"
    "dget (st_manifest s') = dget (st_manifest s)"
    "st_chunks s' = without_chunks (ap_appInstanceId current) (ap_bundleRevision new) (chunk_count (length bytes))
      (put_chunks (ap_appInstanceId current) (ap_bundleRevision new) bytes (st_chunks s))"
    using assms(1) by (auto simp: replace_bundle_def Let_def fun_eq_iff split: option.splits)
  show ?thesis
  proof (rule readable_eqI [OF assms(2) s'(1)])
    fix a
    assume a: "dget (st_apps s) i = Some a"
    have "a = current" if "ap_appInstanceId a = ap_appInstanceId current"
      using that a keyed_dget [OF assms(2) a] keyed_member [OF assms(2,4)] by simp
    then show "readGeneratedAppBundleBytes s' a = readGeneratedAppBundleBytes s a"
      using assms(3) by (intro read_cong) (auto simp: s' dget_without_chunks dget_put_chunks)
  qed (simp add: s')
qed

lemma first_unsaved:
  assumes "first_bundle fits r new bytes state s = (PB_unsaved, s')" and "keyed_apps (st_apps s)"
    and "dget (st_apps s) (ap_appInstanceId new) = None"
  shows "readable s' i = readable s i"
proof -
  have s': "st_apps s' = st_apps s" "st_legacy s' = st_legacy s"
    "st_state s' = ddel (ap_appInstanceId new) (dput (ap_appInstanceId new) state (st_state s))"
    "\<And>k. k \<noteq> ap_appInstanceId new \<Longrightarrow> dget (st_manifest s') k = dget (st_manifest s) k"
    "st_chunks s' = without_chunks (ap_appInstanceId new) 1 (chunk_count (length bytes)) (put_chunks (ap_appInstanceId new) 1 bytes (st_chunks s))"
    using assms(1) by (auto simp: first_bundle_def Let_def split: option.splits)
  show ?thesis
  proof (cases "i = ap_appInstanceId new")
    case True
    then show ?thesis using assms(3) by (simp add: readable_def s')
  next
    case False
    show ?thesis
    proof (rule readable_eqI [OF assms(2) s'(1)])
      fix a
      assume a: "dget (st_apps s) i = Some a"
      from keyed_dget [OF assms(2) a] False have "ap_appInstanceId a \<noteq> ap_appInstanceId new" by simp
      then show "readGeneratedAppBundleBytes s' a = readGeneratedAppBundleBytes s a"
        by (intro read_cong) (auto simp: s' dget_without_chunks dget_put_chunks)
    qed (use False in \<open>simp add: s'\<close>)
  qed
qed

subsection \<open>Every published App stays readable\<close>

definition entry_ok :: "(rat \<Rightarrow> jstr) \<Rightarrow> jstr \<Rightarrow> app_publication \<times> nat list option \<times> js option \<Rightarrow> bool" where
  "entry_ok ntext i x = (case x of (a, bytes, state) \<Rightarrow> GENERATED_ID_PATTERN i \<and> bytes \<noteq> None \<and>
     (case state of Some v \<Rightarrow> safeJsonObject ntext v MAX_GENERATED_APP_STATE_BYTES | None \<Rightarrow> False))"

definition store_ok :: "(rat \<Rightarrow> jstr) \<Rightarrow> app_store \<Rightarrow> bool" where
  "store_ok ntext s \<longleftrightarrow> keyed_apps (st_apps s) \<and> length (st_apps s) \<le> MAX_GENERATED_APPS_PER_ROOM \<and>
     distinct (map (\<lambda>e. ap_taskRequestId (snd e)) (st_apps s)) \<and>
     (\<forall>i x. readable s i = Some x \<longrightarrow> entry_ok ntext i x)"

lemma dget_map_value: "dget (map (\<lambda>(k, a). if k = i then (k, new) else (k, a)) m) j =
    (if j = i then map_option (\<lambda>_. new) (dget m i) else dget m j)"
  by (induction m) auto

lemma replace_saved:
  assumes "replace_bundle fits now r current new bytes s = (PB_updated a, s')" and "keyed_apps (st_apps s)"
    and "ap_bundleRevision new = ap_bundleRevision current + 1" and "current \<in> snd ` set (st_apps s)"
    and "ap_appInstanceId new = ap_appInstanceId current" and "ap_bundleBytes new = length bytes"
  shows "a = new \<and> st_apps s' = map (\<lambda>(k, a). if k = ap_appInstanceId current then (k, new) else (k, a)) (st_apps s) \<and>
    readable s' i = (if i = ap_appInstanceId current then Some (new, Some bytes, dget (st_state s) i) else readable s i)"
proof -
  let ?i = "ap_appInstanceId current"
  have apps: "a = new" "st_apps s' = map (\<lambda>(k, a). if k = ?i then (k, new) else (k, a)) (st_apps s)"
    and s': "st_state s' = st_state s"
    "\<And>k. k \<noteq> ?i \<Longrightarrow> dget (st_manifest s') k = dget (st_manifest s) k"
    "st_legacy s' = without_legacy ?i (chunk_count (ap_bundleBytes current)) (st_legacy s)"
    "st_chunks s' = without_chunks ?i (ap_bundleRevision current) (chunk_count (ap_bundleBytes current))
      (put_chunks ?i (ap_bundleRevision new) bytes (st_chunks s))"
    using assms(1) by (auto simp: replace_bundle_def Let_def split: option.splits)
  have current: "dget (st_apps s) ?i = Some current" by (rule keyed_member [OF assms(2,4)])
  have "readable s' i = (if i = ?i then Some (new, Some bytes, dget (st_state s) i) else readable s i)"
  proof (cases "i = ?i")
    case True
    have "readGeneratedAppBundleBytes s' new = Some bytes"
      by (rule read_fresh) (simp_all add: assms(3,5,6) s' dget_without_chunks dget_put_chunks)
    with True current show ?thesis by (simp add: readable_def apps dget_map_value s')
  next
    case False
    have "readGeneratedAppBundleBytes s' b = readGeneratedAppBundleBytes s b" if "dget (st_apps s) i = Some b" for b
      using keyed_dget [OF assms(2) that] False
      by (intro read_cong) (auto simp: s' dget_without_chunks dget_put_chunks dget_without_legacy)
    with False show ?thesis by (cases "dget (st_apps s) i") (simp_all add: readable_def apps dget_map_value s')
  qed
  with apps show ?thesis by simp
qed

lemma first_saved:
  assumes "first_bundle fits r new bytes state s = (PB_first a, s')" and "keyed_apps (st_apps s)"
    and "dget (st_apps s) (ap_appInstanceId new) = None" and "ap_bundleRevision new = 1" and "ap_bundleBytes new = length bytes"
  shows "a = new \<and> st_apps s' = dput (ap_appInstanceId new) new (st_apps s) \<and>
    readable s' i = (if i = ap_appInstanceId new then Some (new, Some bytes, Some state) else readable s i)"
proof -
  let ?i = "ap_appInstanceId new"
  have apps: "a = new" "st_apps s' = dput ?i new (st_apps s)"
    and s': "st_state s' = dput ?i state (st_state s)" "st_legacy s' = st_legacy s"
    "\<And>k. k \<noteq> ?i \<Longrightarrow> dget (st_manifest s') k = dget (st_manifest s) k"
    "st_chunks s' = put_chunks ?i 1 bytes (st_chunks s)"
    using assms(1) by (auto simp: first_bundle_def Let_def split: option.splits)
  have "readable s' i = (if i = ?i then Some (new, Some bytes, Some state) else readable s i)"
  proof (cases "i = ?i")
    case True
    have "readGeneratedAppBundleBytes s' new = Some bytes"
      by (rule read_fresh) (simp_all add: assms(4,5) s' dget_put_chunks)
    with True show ?thesis by (simp add: readable_def apps s')
  next
    case False
    have "readGeneratedAppBundleBytes s' b = readGeneratedAppBundleBytes s b" if "dget (st_apps s) i = Some b" for b
      using keyed_dget [OF assms(2) that] False by (intro read_cong) (auto simp: s' dget_put_chunks)
    with False show ?thesis by (cases "dget (st_apps s) i") (simp_all add: readable_def apps s')
  qed
  with apps show ?thesis by simp
qed

lemma bundle_facts:
  assumes "validateGeneratedRoomAppBundle ntext raw = Inr (bundle, n)"
  shows "bundle = raw" and "n = length (bundle_bytes ntext raw)" and "is_record raw"
    and "safeJsonObject ntext (js_get raw ''initialState'') MAX_GENERATED_APP_STATE_BYTES"
  using assms by (auto simp: validateGeneratedRoomAppBundle_def Let_def bundle_bytes_def json_bytes_def byte_length_def split: if_splits)

text \<open>The three ways a publication can go.\<close>

definition new_publication :: "jstr \<Rightarrow> int \<Rightarrow> jstr \<Rightarrow> js \<Rightarrow> nat \<Rightarrow> app_publication" where
  "new_publication uuid now task bundle n = \<lparr>ap_appInstanceId = lit ''generated:'' @ uuid, ap_taskRequestId = task,
     ap_title = the (bundle_title bundle), ap_bundleBytes = n, ap_bundleRevision = 1, ap_stateRevision = 0,
     ap_createdAt = jint now, ap_updatedAt = jint now\<rparr>"

definition next_publication :: "int \<Rightarrow> app_publication \<Rightarrow> js \<Rightarrow> nat \<Rightarrow> app_publication" where
  "next_publication now current bundle n = current\<lparr>ap_title := the (bundle_title bundle), ap_bundleBytes := n,
     ap_bundleRevision := ap_bundleRevision current + 1, ap_updatedAt := jint now\<rparr>"

lemma publish_app_cases:
  assumes "agent_publish_generated_app ntext fits uuid now r p rawId raw s = (out, s')"
  obtains (unchanged) "s' = s" and "\<forall>a. out \<noteq> PB_first a \<and> out \<noteq> PB_updated a"
  | (replaced) current task n where "validateGeneratedRoomAppBundle ntext raw = Inr (raw, n)"
      and "n = length (bundle_bytes ntext raw)" and "current \<in> snd ` set (st_apps s)" and "ap_taskRequestId current = task"
      and "replace_bundle fits now (touch now p r) current (next_publication now current raw n) (bundle_bytes ntext raw) s = (out, s')"
  | (first) task n where "validateGeneratedRoomAppBundle ntext raw = Inr (raw, n)" and "n = length (bundle_bytes ntext raw)"
      and "task \<notin> ap_taskRequestId ` snd ` set (st_apps s)" and "length (st_apps s) < MAX_GENERATED_APPS_PER_ROOM"
      and "first_bundle fits (touch now p r) (new_publication uuid now task raw n) (bundle_bytes ntext raw)
        (js_get raw ''initialState'') s = (out, s')"
proof -
  define task where "task = (case rawId of JStr x \<Rightarrow> js_trim x | _ \<Rightarrow> [])"
  define index where "index = buildTaskProjectionIndex (r_messages r) (r_participants r)"
  note def = agent_publish_generated_app_def [of ntext fits uuid now r p rawId raw s, folded task_def index_def, unfolded Let_def, folded index_def]
  show thesis
  proof (cases "p_kind p = Agent \<and> task \<noteq> [] \<and> (case dget index task of None \<Rightarrow> False
      | Some t \<Rightarrow> initialTaskAgentParticipantId (te_request t) (r_participants r) = Some (p_id p))")
    case False
    then show thesis using assms by (intro unchanged) (auto simp: def split: option.splits if_splits)
  next
    case True
    then obtain t where t: "dget index task = Some t" "initialTaskAgentParticipantId (te_request t) (r_participants r) = Some (p_id p)"
      by (auto split: option.splits)
    show thesis
    proof (cases "validateGeneratedRoomAppBundle ntext raw")
      case (Inl e)
      then show thesis using assms True t by (intro unchanged) (auto simp: def)
    next
      case (Inr bn)
      then obtain n where v: "validateGeneratedRoomAppBundle ntext raw = Inr (raw, n)" and n: "n = length (bundle_bytes ntext raw)"
        and st: "safeJsonObject ntext (js_get raw ''initialState'') MAX_GENERATED_APP_STATE_BYTES"
        using bundle_facts by (metis surj_pair)
      show thesis
      proof (cases "find (\<lambda>a. ap_taskRequestId a = task) (map snd (st_apps s))")
        case (Some current)
        show thesis
        proof (cases "\<exists>old. readGeneratedAppBundleBytes s current = Some old \<and> old \<noteq> bundle_bytes ntext raw")
          case False
          then show thesis using assms True t v Some
            by (intro unchanged) (auto simp: def split: option.splits if_splits)
        next
          case True
          then obtain old where "readGeneratedAppBundleBytes s current = Some old" "old \<noteq> bundle_bytes ntext raw" by blast
          moreover have "current \<in> snd ` set (st_apps s)" "ap_taskRequestId current = task"
            using Some by (auto simp: find_Some_iff)
          ultimately show thesis using assms \<open>p_kind p = Agent \<and> _\<close> t v n Some
            by (intro replaced [of n current task]) (auto simp: def next_publication_def)
        qed
      next
        case None
        show thesis
        proof (cases "length (st_apps s) < MAX_GENERATED_APPS_PER_ROOM")
          case True
          with assms \<open>p_kind p = Agent \<and> _\<close> t v n st None show thesis
            by (intro first [of n task]) (auto simp: def new_publication_def validateGeneratedRoomAppState_def find_None_iff)
        next
          case False
          with assms \<open>p_kind p = Agent \<and> _\<close> t v None show thesis by (intro unchanged) (auto simp: def)
        qed
      qed
    qed
  qed
qed

lemma store_ok_keeps:
  assumes "store_ok ntext s" and "st_apps s' = st_apps s" and "\<And>i. readable s' i = readable s i"
  shows "store_ok ntext s'"
  using assms by (simp add: store_ok_def)

lemma entry_okD: "store_ok ntext s \<Longrightarrow> dget (st_apps s) i = Some a \<Longrightarrow>
    entry_ok ntext i (a, readGeneratedAppBundleBytes s a, dget (st_state s) i)"
  by (simp add: store_ok_def readable_def)

lemma map_fst_value: "map fst (map (\<lambda>(k, a). if k = i then (k, new) else (k, a)) m) = map fst m"
  by (induction m) auto

lemma replaced_ok:
  assumes s: "store_ok ntext s" and run: "replace_bundle fits now r current (next_publication now current raw (length bytes)) bytes s = (out, s')"
    and c: "current \<in> snd ` set (st_apps s)"
  shows "store_ok ntext s'"
proof -
  let ?i = "ap_appInstanceId current" and ?new = "next_publication now current raw (length bytes)"
  have keyed: "keyed_apps (st_apps s)" using s by (simp add: store_ok_def)
  have rev: "ap_bundleRevision ?new = ap_bundleRevision current + 1" "ap_appInstanceId ?new = ?i" "ap_bundleBytes ?new = length bytes"
    "ap_taskRequestId ?new = ap_taskRequestId current" by (simp_all add: next_publication_def)
  consider "out = PB_unsaved" | a where "out = PB_updated a"
    using run by (auto simp: replace_bundle_def Let_def split: option.splits)
  then show ?thesis
  proof cases
    case 1
    note run = run [unfolded 1]
    have "st_apps s' = st_apps s" using run by (auto simp: replace_bundle_def Let_def split: option.splits)
    then show ?thesis by (rule store_ok_keeps [OF s]) (rule replace_unsaved [OF run keyed rev(1) c])
  next
    case 2
    note saved = replace_saved [OF run [unfolded 2] keyed rev(1) c rev(2,3)]
    then have apps: "st_apps s' = map (\<lambda>(k, a). if k = ?i then (k, ?new) else (k, a)) (st_apps s)" by simp
    have current: "dget (st_apps s) ?i = Some current" by (rule keyed_member [OF keyed c])
    have only: "b = current" if "(?i, b) \<in> set (st_apps s)" for b
      using wf_dget [OF _ that] keyed current by (simp add: keyed_apps_def)
    have "wf_dict (st_apps s')" using keyed unfolding wf_dict_def apps map_fst_value by (simp add: wf_dict_def keyed_apps_def)
    then have "keyed_apps (st_apps s')" using keyed rev(2) by (auto simp: apps keyed_apps_def split: if_splits)
    moreover have "map (\<lambda>e. ap_taskRequestId (snd e)) (st_apps s') = map (\<lambda>e. ap_taskRequestId (snd e)) (st_apps s)"
      using rev(4) by (auto simp: apps dest!: only)
    moreover have "entry_ok ntext ?i (?new, Some bytes, dget (st_state s) ?i)"
      using entry_okD [OF s current] by (simp add: entry_ok_def)
    moreover have "readable s' i = (if i = ?i then Some (?new, Some bytes, dget (st_state s) i) else readable s i)" for i
      using saved by blast
    moreover have "length (st_apps s') = length (st_apps s)" by (simp add: apps)
    ultimately show ?thesis using s by (simp add: store_ok_def)
  qed
qed

lemma first_ok:
  assumes s: "store_ok ntext s" and run: "first_bundle fits r (new_publication uuid now task raw (length bytes)) bytes state s = (out, s')"
    and fresh: "dget (st_apps s) (lit ''generated:'' @ uuid) = None" and i: "GENERATED_ID_PATTERN (lit ''generated:'' @ uuid)"
    and task: "task \<notin> ap_taskRequestId ` snd ` set (st_apps s)" and few: "length (st_apps s) < MAX_GENERATED_APPS_PER_ROOM"
    and state: "safeJsonObject ntext state MAX_GENERATED_APP_STATE_BYTES"
  shows "store_ok ntext s'"
proof -
  let ?new = "new_publication uuid now task raw (length bytes)"
  have keyed: "keyed_apps (st_apps s)" using s by (simp add: store_ok_def)
  have new: "ap_appInstanceId ?new = lit ''generated:'' @ uuid" "ap_bundleRevision ?new = 1" "ap_bundleBytes ?new = length bytes"
    "ap_taskRequestId ?new = task" by (simp_all add: new_publication_def)
  have fresh': "dget (st_apps s) (ap_appInstanceId ?new) = None" using fresh new(1) by simp
  consider "out = PB_unsaved" | a where "out = PB_first a"
    using run by (auto simp: first_bundle_def Let_def split: option.splits)
  then show ?thesis
  proof cases
    case 1
    note run = run [unfolded 1]
    have "st_apps s' = st_apps s" using run by (auto simp: first_bundle_def Let_def split: option.splits)
    then show ?thesis by (rule store_ok_keeps [OF s]) (rule first_unsaved [OF run keyed fresh'])
  next
    case 2
    note saved = first_saved [OF run [unfolded 2] keyed fresh' new(2,3)]
    have apps: "st_apps s' = st_apps s @ [(ap_appInstanceId ?new, ?new)]" using saved fresh' by (simp add: dput_fresh dget_eq_None)
    have "keyed_apps (st_apps s')" using keyed fresh' by (auto simp: apps keyed_apps_def wf_dict_def dget_eq_None)
    moreover have "distinct (map (\<lambda>e. ap_taskRequestId (snd e)) (st_apps s'))"
      using s task new(4) by (auto simp: apps store_ok_def)
    moreover have "entry_ok ntext (ap_appInstanceId ?new) (?new, Some bytes, Some state)" using i state new(1) by (simp add: entry_ok_def)
    moreover have "readable s' i = (if i = ap_appInstanceId ?new then Some (?new, Some bytes, Some state) else readable s i)" for i
      using saved by blast
    moreover have "length (st_apps s') = Suc (length (st_apps s))" by (simp add: apps)
    ultimately show ?thesis using s few by (simp add: store_ok_def)
  qed
qed

lemma publish_ok:
  assumes "store_ok ntext s" and "agent_publish_generated_app ntext fits uuid now r p rawId raw s = (out, s')"
    and "dget (st_apps s) (lit ''generated:'' @ uuid) = None" and "GENERATED_ID_PATTERN (lit ''generated:'' @ uuid)"
  shows "store_ok ntext s'"
  using assms(2)
proof (cases rule: publish_app_cases)
  case (replaced current task n)
  show ?thesis by (rule replaced_ok [OF assms(1) replaced(5) [unfolded replaced(2)] replaced(3)])
next
  case (first task n)
  show ?thesis
    by (rule first_ok [OF assms(1) first(5) [unfolded first(2)] assms(3,4) first(3,4) bundle_facts(4) [OF first(1)]])
qed (use assms(1) in simp)

lemma update_cases:
  assumes "generated_app_state_update ntext fits now r p i msg windows s = (out, windows', s')"
  obtains (unchanged) "s' = s" and "\<forall>n v. out \<noteq> SR_accepted n v"
  | (unsaved) a current where "out = SR_unsaved" and "dget (st_apps s) i = Some a" and "dget (st_state s) i = Some current"
      and "s' = s\<lparr>st_state := dput i current (dput i (js_get msg ''state'') (st_state s))\<rparr>"
  | (accepted) a current expected where "dget (st_apps s) i = Some a" and "dget (st_state s) i = Some current"
      and "js_safe_int (js_get msg ''expectedRevision'') = Some expected" and "ap_stateRevision a = expected"
      and "safeJsonObject ntext (js_get msg ''state'') MAX_GENERATED_APP_STATE_BYTES"
      and "out = SR_accepted (expected + 1) (js_get msg ''state'')"
      and "s' = s\<lparr>st_apps := dput i (a\<lparr>ap_stateRevision := expected + 1, ap_updatedAt := jint now\<rparr>) (st_apps s),
        st_state := dput i (js_get msg ''state'') (st_state s)\<rparr>"
proof (cases "js_safe_int (js_get msg ''expectedRevision'')")
  case None
  then show thesis using assms by (intro that(1)) (auto simp: generated_app_state_update_def split: if_splits)
next
  case (Some expected)
  let ?state = "js_get msg ''state''"
  show thesis
  proof (cases "0 \<le> expected \<and> safeJsonObject ntext ?state MAX_GENERATED_APP_STATE_BYTES \<and>
      serializedRoomAppBytes ntext msg \<le> MAX_GENERATED_APP_UPDATE_BYTES")
    case False
    then show thesis using assms Some
      by (intro that(1)) (auto simp: generated_app_state_update_def validateGeneratedRoomAppState_def Let_def split: if_splits)
  next
    case True
    show thesis
    proof (cases "dget (st_apps s) i = None \<or> dget (st_state s) i = None")
      case none: True
      then show thesis using assms Some True
        by (intro that(1)) (auto simp: generated_app_state_update_def validateGeneratedRoomAppState_def Let_def split: if_splits option.splits)
    next
      case False
      then obtain a current where a: "dget (st_apps s) i = Some a" "dget (st_state s) i = Some current" by auto
      obtain over ws where budget: "generatedAppStateBudgetExceeded (p_id p) i (serializedRoomAppBytes ntext msg) now windows = (over, ws)"
        by fastforce
      note run = assms [unfolded generated_app_state_update_def validateGeneratedRoomAppState_def Let_def]
      show thesis
      proof (cases "ap_stateRevision a = expected \<and> \<not> over")
        case False
        then show thesis using run Some True a budget
          by (intro that(1)) (auto split: if_splits bool.splits)
      next
        case ok: True
        let ?apps = "dput i (a\<lparr>ap_stateRevision := ap_stateRevision a + 1, ap_updatedAt := jint now\<rparr>) (st_apps s)"
        show thesis
        proof (cases "saveRoom (fits ?apps) (touch now p r)")
          case None
          then show thesis using run Some True a budget ok by (intro that(2) [OF _ a]) auto
        next
          case (Some r')
          then show thesis using run \<open>js_safe_int _ = _\<close> True a budget ok by (intro that(3) [OF a, of expected]) auto
        qed
      qed
    qed
  qed
qed

lemma update_ok:
  assumes s: "store_ok ntext s" and run: "generated_app_state_update ntext fits now r p i msg windows s = (out, windows', s')"
  shows "store_ok ntext s'"
  using run
proof (cases rule: update_cases)
  case (unsaved a current)
  have "dget (st_state s') j = dget (st_state s) j" for j using unsaved(3,4) by (simp add: fun_upd_def)
  then have "readable s' j = readable s j" for j
    by (intro readable_eqI) (use s in \<open>auto simp: unsaved(4) store_ok_def intro!: read_cong\<close>)
  then show ?thesis by (intro store_ok_keeps [OF s]) (simp_all add: unsaved(4))
next
  case (accepted a current expected)
  let ?a = "a\<lparr>ap_stateRevision := expected + 1, ap_updatedAt := jint now\<rparr>"
  have keyed: "keyed_apps (st_apps s)" using s by (simp add: store_ok_def)
  have read: "readGeneratedAppBundleBytes s' b = readGeneratedAppBundleBytes s b" for b
    by (rule read_cong) (simp_all add: accepted(7))
  have same: "readGeneratedAppBundleBytes s' ?a = readGeneratedAppBundleBytes s a" by (simp add: readGeneratedAppBundleBytes_def Let_def accepted(7) cong: option.case_cong)
  have readable: "readable s' j = (if j = i then Some (?a, readGeneratedAppBundleBytes s a, Some (js_get msg ''state'')) else readable s j)" for j
    using same read by (auto simp: readable_def accepted(7) split: option.splits intro!: map_option_cong)
  have new: "entry_ok ntext i (?a, readGeneratedAppBundleBytes s a, Some (js_get msg ''state''))"
    using entry_okD [OF s accepted(1)] accepted(5) by (simp add: entry_ok_def)
  have apps: "st_apps s' = dput i ?a (st_apps s)" by (simp add: accepted(7))
  have "keyed_apps (st_apps s')" using keyed keyed_dget [OF keyed accepted(1)] set_dput_subset [of i ?a "st_apps s"]
    by (auto simp: apps keyed_apps_def wf_dput)
  moreover have "map (\<lambda>e. ap_taskRequestId (snd e)) (dput i ?a m) = map (\<lambda>e. ap_taskRequestId (snd e)) m"
    if "dget m i = Some a" for m using that by (induction m) auto
  moreover have "length (st_apps s') = length (st_apps s)" using accepted(1) by (simp add: apps length_dput_dget)
  ultimately show ?thesis using s accepted(1) new by (simp add: store_ok_def apps readable)
qed (use s in simp)

subsection \<open>What readers and writers are promised\<close>

inductive app_step :: "(rat \<Rightarrow> jstr) \<Rightarrow> app_store \<Rightarrow> app_store \<Rightarrow> bool" for ntext where
  publish: "agent_publish_generated_app ntext fits uuid now r p rawId raw s = (out, s') \<Longrightarrow>
    dget (st_apps s) (lit ''generated:'' @ uuid) = None \<Longrightarrow> GENERATED_ID_PATTERN (lit ''generated:'' @ uuid) \<Longrightarrow> app_step ntext s s'"
| update: "generated_app_state_update ntext fits now r p i msg windows s = (out, windows', s') \<Longrightarrow> app_step ntext s s'"

abbreviation "no_apps \<equiv> \<lparr>st_apps = [], st_chunks = [], st_legacy = [], st_state = [], st_manifest = []\<rparr> :: app_store"

text \<open>
  C24: whatever publications, replacements and state updates reach a Room, with saves that succeed or
  fail, it holds at most four generated Apps, one per Task, and each of them has a complete stored
  bundle and a bounded shared state.
\<close>

theorem generated_apps_stay_readable:
  assumes "(app_step ntext)\<^sup>*\<^sup>* no_apps s"
  shows "length (st_apps s) \<le> MAX_GENERATED_APPS_PER_ROOM \<and> distinct (map (\<lambda>e. ap_taskRequestId (snd e)) (st_apps s)) \<and>
    (\<forall>(i, a) \<in> set (st_apps s). ap_appInstanceId a = i \<and> readGeneratedAppBundleBytes s a \<noteq> None \<and>
      (\<exists>v. dget (st_state s) i = Some v \<and> safeJsonObject ntext v MAX_GENERATED_APP_STATE_BYTES))"
proof -
  have "store_ok ntext s" using assms
  proof (induction rule: rtranclp_induct)
    case base
    show ?case by (simp add: store_ok_def keyed_apps_def readable_def)
  next
    case (step s s')
    from step.hyps(2) show ?case
    proof cases
      case publish
      then show ?thesis by (intro publish_ok [OF step.IH])
    next
      case update
      then show ?thesis by (intro update_ok [OF step.IH])
    qed
  qed
  moreover from this have "entry_ok ntext i (a, readGeneratedAppBundleBytes s a, dget (st_state s) i) \<and> ap_appInstanceId a = i"
    if "(i, a) \<in> set (st_apps s)" for i a
    using that entry_okD [of ntext s i a] keyed_dget [of "st_apps s" i a] wf_dget [of "st_apps s" i a]
    by (simp add: store_ok_def keyed_apps_def)
  ultimately show ?thesis by (fastforce simp: store_ok_def entry_ok_def split: option.splits)
qed

lemma read_back:
  assumes "readable s i = Some (a, Some (bundle_bytes ntext raw), Some state)" and "ap_appInstanceId a = i"
    and "GENERATED_ID_PATTERN i" and "validateGeneratedRoomAppBundle ntext raw = Inr (raw, n)"
    and "safeJsonObject ntext state MAX_GENERATED_APP_STATE_BYTES" and "plain_js raw" and "rounds rn" and "p_kind human = Human"
  shows "handleGeneratedAppRead ntext rn (Some human) (Some i) s = Inr (a, raw, state)"
proof -
  have a: "dget (st_apps s) i = Some a" "readGeneratedAppBundleBytes s a = Some (bundle_bytes ntext raw)" "dget (st_state s) i = Some state"
    using assms(1) by (auto simp: readable_def)
  have "a\<lparr>ap_appInstanceId := i\<rparr> = a" using assms(2) by simp
  moreover have "utf8_decode (bundle_bytes ntext raw) = Some (json_text ntext raw)" "json_parse rn (json_text ntext raw) = Some raw"
    using stored_text_round_trip [OF assms(7,6) bundle_facts(3) [OF assms(4)], of ntext] by (simp_all add: bundle_bytes_def)
  moreover have "validateGeneratedRoomAppState ntext state = Inr (state, json_bytes ntext state)"
    using assms(5) by (simp add: validateGeneratedRoomAppState_def)
  ultimately show ?thesis using assms(3,4,8) a by (simp add: handleGeneratedAppRead_def urlSafeGeneratedAppId_def)
qed

text \<open>
  C25: what an Agent publishes is what a Human's App frame gets: after an accepted publication,
  first or replacement, reading the App puts the stored chunks together, decodes and parses them to
  exactly the bundle that was sent.
\<close>

theorem published_bundle_read_back:
  assumes "agent_publish_generated_app ntext fits uuid now r p rawId raw s = (out, s')" and "out = PB_first a \<or> out = PB_updated a"
    and "store_ok ntext s" and "dget (st_apps s) (lit ''generated:'' @ uuid) = None"
    and "GENERATED_ID_PATTERN (lit ''generated:'' @ uuid)" and "plain_js raw" and "rounds rn" and "p_kind human = Human"
  shows "\<exists>state. handleGeneratedAppRead ntext rn (Some human) (Some (ap_appInstanceId a)) s' = Inr (a, raw, state) \<and>
    (if out = PB_first a then state = js_get raw ''initialState'' else dget (st_state s) (ap_appInstanceId a) = Some state)"
  using assms(1)
proof (cases rule: publish_app_cases)
  case unchanged
  then show ?thesis using assms(2) by auto
next
  case (replaced current task n)
  let ?i = "ap_appInstanceId current" and ?new = "next_publication now current raw n"
  have keyed: "keyed_apps (st_apps s)" using assms(3) by (simp add: store_ok_def)
  have out: "out = PB_updated a" using assms(2) replaced(5) by (auto simp: replace_bundle_def Let_def split: option.splits)
  have new: "ap_bundleRevision ?new = ap_bundleRevision current + 1" "ap_appInstanceId ?new = ?i" "ap_bundleBytes ?new = length (bundle_bytes ntext raw)"
    by (simp_all add: next_publication_def replaced(2))
  note saved = replace_saved [OF replaced(5) [unfolded out] keyed new(1) replaced(3) new(2,3)]
  obtain state where state: "dget (st_state s) ?i = Some state" "safeJsonObject ntext state MAX_GENERATED_APP_STATE_BYTES" "GENERATED_ID_PATTERN ?i"
    using entry_okD [OF assms(3) keyed_member [OF keyed replaced(3)]] by (auto simp: entry_ok_def split: option.splits)
  have "readable s' ?i = Some (?new, Some (bundle_bytes ntext raw), Some state)" using saved [of ?i] state(1) by simp
  from read_back [OF this new(2) state(3) replaced(1) state(2) assms(6-8)] show ?thesis
    using saved state(1) new(2) by (simp add: out)
next
  case (first task n)
  let ?new = "new_publication uuid now task raw n" and ?i = "lit ''generated:'' @ uuid"
  have keyed: "keyed_apps (st_apps s)" using assms(3) by (simp add: store_ok_def)
  have out: "out = PB_first a" using assms(2) first(5) by (auto simp: first_bundle_def Let_def split: option.splits)
  have new: "ap_appInstanceId ?new = ?i" "ap_bundleRevision ?new = 1" "ap_bundleBytes ?new = length (bundle_bytes ntext raw)"
    by (simp_all add: new_publication_def first(2))
  note saved = first_saved [OF first(5) [unfolded out] keyed _ new(2,3), unfolded new(1), OF assms(4)]
  have "readable s' ?i = Some (?new, Some (bundle_bytes ntext raw), Some (js_get raw ''initialState''))" using saved [of ?i] by simp
  from read_back [OF this new(1) assms(5) first(1) bundle_facts(4) [OF first(1)] assms(6-8)] show ?thesis
    using saved new(1) by (simp add: out)
qed

text \<open>
  C26: no update of shared state is lost: of two Humans who both change revision \<open>n\<close>, at most one is
  accepted; the other is told the revision and the state it lost to.
\<close>

theorem no_lost_update:
  assumes "generated_app_state_update ntext fits now r p i msg windows s = (SR_accepted n state, windows', s')"
    and "js_get msg2 ''expectedRevision'' = js_get msg ''expectedRevision''"
    and "generated_app_state_update ntext fits2 now2 r2 p2 i msg2 windows2 s' = (out, windows3, s'')"
  shows "state = js_get msg ''state'' \<and> js_safe_int (js_get msg ''expectedRevision'') = Some (n - 1) \<and>
    s'' = s' \<and> ((\<exists>e. out = SR_error e) \<or> out = SR_conflict (Some n) state)"
  using assms(1)
proof (cases rule: update_cases)
  case (accepted a current expected)
  let ?a = "a\<lparr>ap_stateRevision := expected + 1, ap_updatedAt := jint now\<rparr>"
  from accepted have s': "dget (st_apps s') i = Some ?a" "dget (st_state s') i = Some state" by simp_all
  from accepted(3) assms(2) have "js_safe_int (js_get msg2 ''expectedRevision'') = Some expected" by simp
  with assms(3) s' have "s'' = s' \<and> ((\<exists>e. out = SR_error e) \<or> out = SR_conflict (Some (expected + 1)) state)"
    by (auto simp: generated_app_state_update_def validateGeneratedRoomAppState_def Let_def split: if_splits)
  with accepted show ?thesis by simp
qed simp_all

text \<open>
  C36: A publication whose record does not fit the Room's budget changes nothing a reader sees: every
  App keeps its publication, its bundle and its state.
\<close>

theorem unsaved_publication_invisible:
  assumes "agent_publish_generated_app ntext fits uuid now r p rawId raw s = (PB_unsaved, s')" and "store_ok ntext s"
    and "dget (st_apps s) (lit ''generated:'' @ uuid) = None"
  shows "st_apps s' = st_apps s \<and> readable s' i = readable s i"
  using assms(1)
proof (cases rule: publish_app_cases)
  case (replaced current task n)
  have "st_apps s' = st_apps s" using replaced(5) by (auto simp: replace_bundle_def Let_def split: option.splits)
  moreover have "readable s' i = readable s i"
    by (rule replace_unsaved [OF replaced(5) _ _ replaced(3)]) (use assms(2) in \<open>simp_all add: store_ok_def next_publication_def\<close>)
  ultimately show ?thesis ..
next
  case (first task n)
  have "st_apps s' = st_apps s" using first(5) by (auto simp: first_bundle_def Let_def split: option.splits)
  moreover have "readable s' i = readable s i"
    by (rule first_unsaved [OF first(5)]) (use assms(2,3) in \<open>simp_all add: store_ok_def new_publication_def\<close>)
  ultimately show ?thesis ..
qed simp

subsection \<open>An App of the example Room\<close>

definition demo_uuid :: jstr where "demo_uuid = lit ''0123abcd-0123-0123-0123-0123456789ab''"

definition demo_app :: jstr where "demo_app = lit ''generated:'' @ demo_uuid"

definition demo_bundle :: "string \<Rightarrow> js" where
  "demo_bundle title = JObj [(lit ''version'', JNum (jint 1)),
     (lit ''manifest'', JObj [(lit ''title'', JStr (lit title)), (lit ''networkOrigins'', JArr [])]),
     (lit ''html'', JStr (lit ''<p>'')), (lit ''css'', JStr (lit ''p{}'')), (lit ''js'', JStr (lit ''1'')),
     (lit ''initialState'', JObj [(lit ''n'', JNum (jint 0))])]"

lemma save_const: "saveRoom (\<lambda>_. True) r = Some r" "saveRoom (\<lambda>_. False) r = None"
  by (simp_all add: saveRoom_def Let_def trimRoomMessagesToBudget_def)

lemma demo_sources:
  "safeSource (JStr (lit ''<p>'')) n" "safeSource (JStr (lit ''p{}'')) n" "safeSource (JStr (lit ''1'')) n" if "3 \<le> n"
proof -
  have "\<forall>s \<in> {''<p>'', ''p{}'', ''1''}. 0 \<notin> set (lit s) \<and> \<not> contains_ci ''</script'' (lit s) \<and>
       \<not> contains_word_ci ''<iframe'' (lit s) \<and> \<not> contains_word_ci ''<object'' (lit s) \<and> \<not> contains_word_ci ''<embed'' (lit s) \<and>
       \<not> contains_ci ''javascript:'' (lit s)" by code_simp
  with that show "safeSource (JStr (lit ''<p>'')) n" "safeSource (JStr (lit ''p{}'')) n" "safeSource (JStr (lit ''1'')) n"
    by (simp_all add: safeSource_def)
qed

lemma demo_bundle_bytes:
  "json_bytes (\<lambda>_. []) (demo_bundle ''Dice'') = 118" "json_bytes (\<lambda>_. []) (js_get (demo_bundle ''Dice'') ''initialState'') = 7"
  by (simp_all add: demo_bundle_def js_get_def quiet_bytes)

lemma demo_bundle_valid: "validateGeneratedRoomAppBundle (\<lambda>_. []) (demo_bundle ''Dice'') = Inr (demo_bundle ''Dice'', 118)"
proof -
  have "hasExactlyKeys (demo_bundle ''Dice'') [''version'', ''manifest'', ''html'', ''css'', ''js'', ''initialState'']"
    "hasExactlyKeys (js_get (demo_bundle ''Dice'') ''manifest'') [''title'', ''networkOrigins'']"
    "js_get (demo_bundle ''Dice'') ''version'' = JNum (jint GENERATED_ROOM_APP_VERSION)"
    "is_record (demo_bundle ''Dice'')" "is_record (js_get (demo_bundle ''Dice'') ''manifest'')"
    "is_record (js_get (demo_bundle ''Dice'') ''initialState'')"
    "bundle_title (demo_bundle ''Dice'') = Some (lit ''Dice'')" "SAFE_TITLE (lit ''Dice'')"
    "js_get (js_get (demo_bundle ''Dice'') ''manifest'') ''networkOrigins'' = JArr []"
    "js_get (demo_bundle ''Dice'') ''html'' = JStr (lit ''<p>'')" "js_get (demo_bundle ''Dice'') ''css'' = JStr (lit ''p{}'')"
    "js_get (demo_bundle ''Dice'') ''js'' = JStr (lit ''1'')"
    by code_simp+
  then show ?thesis
    by (simp add: validateGeneratedRoomAppBundle_def safeJsonObject_def demo_bundle_bytes demo_sources Let_def MAX_TITLE_LENGTH_def
        MAX_HTML_LENGTH_def MAX_CSS_LENGTH_def MAX_JS_LENGTH_def MAX_GENERATED_APP_STATE_BYTES_def MAX_GENERATED_APP_BUNDLE_BYTES_def)
qed

abbreviation "demo_publish_app b \<equiv> agent_publish_generated_app (\<lambda>_. []) (\<lambda>_ _. b) demo_uuid 9 demo_room demo_old
  (JStr (lit ''req-1'')) (demo_bundle ''Dice'') no_apps"

definition demo_pub :: app_publication where
  "demo_pub = new_publication demo_uuid 9 (lit ''req-1'') (demo_bundle ''Dice'') 118"

lemma demo_publish_app: "fst (demo_publish_app b) = (if b then PB_first demo_pub else PB_unsaved)"
proof -
  have task: "case dget (buildTaskProjectionIndex (r_messages demo_room) (r_participants demo_room)) (lit ''req-1'') of None \<Rightarrow> False
      | Some t \<Rightarrow> initialTaskAgentParticipantId (te_request t) (r_participants demo_room) = Some (p_id demo_old)"
    "js_trim (lit ''req-1'') = lit ''req-1''" "p_kind demo_old = Agent" by code_simp+
  moreover have "validateGeneratedRoomAppState (\<lambda>_. []) (js_get (demo_bundle ''Dice'') ''initialState'') =
      Inr (js_get (demo_bundle ''Dice'') ''initialState'', 7)"
    using bundle_facts(4) [OF demo_bundle_valid] by (simp add: validateGeneratedRoomAppState_def demo_bundle_bytes)
  ultimately show ?thesis
    by (auto simp: save_const agent_publish_generated_app_def Let_def demo_bundle_valid MAX_GENERATED_APPS_PER_ROOM_def first_bundle_def
        demo_pub_def new_publication_def split: option.splits)
qed

lemma demo_app_id: "GENERATED_ID_PATTERN (lit ''generated:'' @ demo_uuid)"
  by code_simp

lemma demo_plain: "plain_js (demo_bundle ''Dice'')" "rounds Fin"
  by (simp_all add: demo_bundle_def wf_dict_def rounds_def jint_def is_safe_integer_def)

lemma no_apps_ok: "store_ok ntext no_apps"
  by (simp add: store_ok_def keyed_apps_def readable_def)

lemma demo_run: "demo_publish_app True = (PB_first demo_pub, snd (demo_publish_app True))"
    "demo_publish_app False = (PB_unsaved, snd (demo_publish_app False))"
  using demo_publish_app [of True] demo_publish_app [of False] by (simp_all add: prod_eq_iff)

theorem published_bundle_read_back_witness:
  "handleGeneratedAppRead (\<lambda>_. []) Fin (Some (demo_participant ''ana'' Human True)) (Some demo_app) (snd (demo_publish_app True)) =
     Inr (demo_pub, demo_bundle ''Dice'', js_get (demo_bundle ''Dice'') ''initialState'')"
proof -
  have i: "ap_appInstanceId demo_pub = demo_app" by (simp add: demo_pub_def new_publication_def demo_app_def)
  show ?thesis
    using published_bundle_read_back [OF demo_run(1) _ no_apps_ok _ demo_app_id demo_plain, of demo_pub "demo_participant ''ana'' Human True"]
    by (simp add: i)
qed

theorem generated_apps_stay_readable_witness:
  "list_all (\<lambda>(i, a). readGeneratedAppBundleBytes (snd (demo_publish_app True)) a \<noteq> None) (st_apps (snd (demo_publish_app True)))"
proof -
  have "app_step (\<lambda>_. []) no_apps (snd (demo_publish_app True))"
    by (rule app_step.publish [OF demo_run(1)]) (simp_all add: demo_app_id)
  then have "(app_step (\<lambda>_. []))\<^sup>*\<^sup>* no_apps (snd (demo_publish_app True))" by blast
  from generated_apps_stay_readable [OF this] show ?thesis by (fastforce simp: list_all_iff)
qed

theorem unsaved_publication_invisible_witness: "st_apps (snd (demo_publish_app False)) = []"
  using unsaved_publication_invisible [OF demo_run(2) no_apps_ok, of undefined] by simp

definition demo_state_store :: app_store where
  "demo_state_store = no_apps\<lparr>st_apps := [(demo_app, demo_pub)], st_state := [(demo_app, JObj [])]\<rparr>"

definition demo_change :: "int \<Rightarrow> js" where
  "demo_change n = JObj [(lit ''expectedRevision'', JNum (jint 0)), (lit ''state'', JObj [(lit ''n'', JNum (jint n))])]"

abbreviation "demo_update n \<equiv> generated_app_state_update (\<lambda>_. []) (\<lambda>_ _. True) 10 demo_room (demo_participant ''ana'' Human True) demo_app (demo_change n) []"

lemma demo_update:
  "demo_update 1 demo_state_store = (SR_accepted 1 (JObj [(lit ''n'', JNum (jint 1))]), fst (snd (demo_update 1 demo_state_store)),
     snd (snd (demo_update 1 demo_state_store)))"
proof -
  have "json_bytes (\<lambda>_. []) (demo_change 1) = 38" "json_bytes (\<lambda>_. []) (JObj [(lit ''n'', JNum (jint 1))]) = 7"
    "js_safe_int (js_get (demo_change 1) ''expectedRevision'') = Some 0"
    "js_get (demo_change 1) ''state'' = JObj [(lit ''n'', JNum (jint 1))]"
    by code_simp+
  then have "fst (demo_update 1 demo_state_store) = SR_accepted 1 (JObj [(lit ''n'', JNum (jint 1))])"
    by (auto simp: save_const generated_app_state_update_def demo_state_store_def demo_pub_def new_publication_def Let_def
        validateGeneratedRoomAppState_def safeJsonObject_def is_record_def serializedRoomAppBytes_def
        MAX_GENERATED_APP_STATE_BYTES_def MAX_GENERATED_APP_UPDATE_BYTES_def generatedAppStateBudgetExceeded_def
        GENERATED_APP_STATE_MAX_MUTATIONS_PER_WINDOW_def GENERATED_APP_STATE_MAX_BYTES_PER_WINDOW_def split: option.splits)
  then show ?thesis by (simp add: prod_eq_iff)
qed

theorem no_lost_update_witness:
  "snd (snd (demo_update 2 (snd (snd (demo_update 1 demo_state_store))))) = snd (snd (demo_update 1 demo_state_store))"
proof -
  have "js_get (demo_change 2) ''expectedRevision'' = js_get (demo_change 1) ''expectedRevision''" by code_simp
  from no_lost_update [OF demo_update this, of _ _ _ _ _ "fst (demo_update 2 (snd (snd (demo_update 1 demo_state_store))))"
      "fst (snd (demo_update 2 (snd (snd (demo_update 1 demo_state_store)))))" "snd (snd (demo_update 2 (snd (snd (demo_update 1 demo_state_store)))))"]
  show ?thesis by (metis prod.collapse)
qed

end
