(* ===== verification/Room_Permissions.thy ===== *)
theory Room_Permissions
  imports Room_State
begin

text \<open>
  The permission lifecycle of a Room (RoomSession of app/src/do/RoomSession.ts): a resident
  Agent asks, a Human answers or the request expires. A pending request lives in an index of
  the record; its request and its terminal event live in the bounded message ring.

  A request id that is an inherited property name finds an inherited value where the code
  expects a pending record; reading that value's event raises.
\<close>

definition MAX_PENDING_PERMISSION_REQUESTS :: nat where "MAX_PENDING_PERMISSION_REQUESTS = 32"

subsection \<open>Permission events in the log\<close>

definition permissionEventForMessage :: "room_message \<Rightarrow> permission_event option" where
  "permissionEventForMessage m =
     (if rm_actionType m = Some (lit ''permission'') then rm_permission m else None)"

definition event_id :: "permission_event \<Rightarrow> jstr" where
  "event_id e = (case e of Perm_request q \<Rightarrow> pq_requestId q | Perm_resolved x \<Rightarrow> pr_requestId x
     | Perm_expired x \<Rightarrow> px_requestId x)"

definition event_agent :: "permission_event \<Rightarrow> jstr" where
  "event_agent e = (case e of Perm_request q \<Rightarrow> pq_agent q | Perm_resolved x \<Rightarrow> pr_agent x
     | Perm_expired x \<Rightarrow> px_agent x)"

definition is_terminal :: "permission_event \<Rightarrow> bool" where
  "is_terminal e = (case e of Perm_request _ \<Rightarrow> False | _ \<Rightarrow> True)"

definition message_event :: "jstr \<Rightarrow> room_message \<Rightarrow> bool" where
  "message_event i m = (case permissionEventForMessage m of Some e \<Rightarrow> event_id e = i | None \<Rightarrow> False)"

definition latestPermissionRequest :: "room \<Rightarrow> jstr \<Rightarrow> (permission_event \<times> jstr option) option" where
  "latestPermissionRequest r i = map_option
     (\<lambda>m. (the (permissionEventForMessage m), rm_taskRequestId m))
     (List.find (message_event i) (rev (r_messages r)))"

definition latestPermissionEvent :: "room \<Rightarrow> jstr \<Rightarrow> permission_event option" where
  "latestPermissionEvent r i = map_option fst (latestPermissionRequest r i)"

definition isPermissionVisibleToAgent :: "room_message \<Rightarrow> jstr \<Rightarrow> bool" where
  "isPermissionVisibleToAgent m i = (case permissionEventForMessage m of
     None \<Rightarrow> True | Some e \<Rightarrow> event_agent e = i)"

definition permission_message :: "jstr \<Rightarrow> jstr \<Rightarrow> jstr \<Rightarrow> participant_kind \<Rightarrow> permission_event \<Rightarrow>
    jstr option \<Rightarrow> jstr \<Rightarrow> int \<Rightarrow> room_message" where
  "permission_message i peer name kind e task target createdAt = \<lparr>rm_id = i, rm_peerId = peer,
     rm_name = name, rm_kind = kind, rm_type = Action_message, rm_text = None,
     rm_actionType = Some (lit ''permission''), rm_actionPayload = None, rm_collab = None,
     rm_permission = Some e, rm_taskRequestId = task, rm_targets = Some [target],
     rm_createdAt = createdAt, rm_sequence = 0\<rparr>"

text \<open>The id drawn for the next message.\<close>

definition next_uuid :: "(int \<Rightarrow> jstr) \<Rightarrow> room \<Rightarrow> jstr" where
  "next_uuid uuid r = uuid (r_nextMessageSequence r + 1)"

subsection \<open>Expiry\<close>

definition should_expire :: "room \<Rightarrow> int \<Rightarrow> jstr option \<Rightarrow> permission_record \<Rightarrow> bool" where
  "should_expire r now departed rec \<longleftrightarrow> departed = Some (pp_agent rec) \<or>
     pq_expiresAt (pp_event rec) \<le> now \<or> \<not> agent_in (r_participants r) (pp_agent rec)"

definition expired_message :: "(int \<Rightarrow> jstr) \<Rightarrow> int \<Rightarrow> jstr \<Rightarrow> permission_record \<Rightarrow> room \<Rightarrow> room_message" where
  "expired_message uuid now i rec r = permission_message (next_uuid uuid r) (pp_agent rec)
     (case dget (r_participants r) (pp_agent rec) of Some p \<Rightarrow> p_name p | None \<Rightarrow> lit ''Agent'') Agent
     (Perm_expired \<lparr>px_requestId = i, px_agent = pp_agent rec, px_createdAt = now,
        px_expiresAt = pq_expiresAt (pp_event rec)\<rparr>)
     (pp_taskRequestId rec) (pp_agent rec) now"

definition has_terminal :: "room \<Rightarrow> jstr \<Rightarrow> bool" where
  "has_terminal r i = (case latestPermissionEvent r i of Some e \<Rightarrow> is_terminal e | None \<Rightarrow> False)"

definition expire_one :: "(room \<Rightarrow> bool) \<Rightarrow> (int \<Rightarrow> jstr) \<Rightarrow> int \<Rightarrow> jstr option \<Rightarrow>
    jstr \<times> permission_record \<Rightarrow> room \<times> bool \<Rightarrow> room \<times> bool" where
  "expire_one fits uuid now departed entry s = (case (entry, s) of ((i, rec), (r, changed)) \<Rightarrow>
     if \<not> should_expire r now departed rec then (r, changed)
     else (let r1 = r\<lparr>r_permissionRequests := ddel i (r_permissionRequests r)\<rparr> in
       if has_terminal r1 i then (r1, True)
       else (fst (appendMessage fits (expired_message uuid now i rec r1) r1), True)))"

text \<open>\<open>departed\<close> is the third argument of the source, the id of an Agent that left.\<close>

definition expirePermissionRequests :: "(room \<Rightarrow> bool) \<Rightarrow> (int \<Rightarrow> jstr) \<Rightarrow> int \<Rightarrow> jstr option \<Rightarrow>
    room \<Rightarrow> room \<times> bool" where
  "expirePermissionRequests fits uuid now departed r =
     fold (expire_one fits uuid now departed) (r_permissionRequests r) (r, False)"

subsection \<open>A request from an Agent\<close>

datatype request_outcome = PI_recorded int | PI_duplicate int | PI_replayed int
  | PI_rejected string | PI_raised js_error

definition request_message :: "jstr \<Rightarrow> room_message \<Rightarrow> bool" where
  "request_message i m = (case permissionEventForMessage m of
     Some (Perm_request q) \<Rightarrow> pq_requestId q = i | _ \<Rightarrow> False)"

definition permission_task_check :: "room \<Rightarrow> participant \<Rightarrow> jstr option \<Rightarrow> string option" where
  "permission_task_check r agent task = (case task of
     None \<Rightarrow> None
   | Some t \<Rightarrow> (case resolveTaskRequest (buildTaskProjectionIndex (r_messages r) (r_participants r))
         (JStr t) (r_participants r) of
       Inl e \<Rightarrow> Some e
     | Inr resolution \<Rightarrow> if p_id agent \<notin> set (tr_agents resolution)
         then Some ''permission_task_participant_mismatch'' else None))"

definition replay_request :: "(room \<Rightarrow> bool) \<Rightarrow> (int \<Rightarrow> jstr) \<Rightarrow> participant \<Rightarrow> jstr \<Rightarrow>
    permission_record \<Rightarrow> room \<Rightarrow> request_outcome \<times> room" where
  "replay_request fits uuid agent i existing r =
     (case List.find (\<lambda>m. rm_sequence m = pp_sequence existing \<and> request_message i m) (r_messages r) of
        Some m \<Rightarrow> (PI_duplicate (pp_sequence existing), r)
      | None \<Rightarrow>
         (case appendMessage fits (permission_message (next_uuid uuid r) (p_id agent) (p_name agent) Agent
             (Perm_request (pp_event existing)) (pp_taskRequestId existing) (p_id agent)
             (pq_createdAt (pp_event existing))) r of
           (r1, m) \<Rightarrow> (PI_replayed (rm_sequence m),
             r1\<lparr>r_permissionRequests := dput i
               (existing\<lparr>pp_sequence := rm_sequence m\<rparr>) (r_permissionRequests r1)\<rparr>)))"

definition request_event :: "participant \<Rightarrow> permission_valid \<Rightarrow> int \<Rightarrow> permission_request" where
  "request_event agent v now = \<lparr>pq_requestId = pv_requestId v, pq_agent = p_id agent,
     pq_toolCall = pv_toolCall v, pq_options = pv_options v, pq_createdAt = now,
     pq_expiresAt = pv_expiresAt v\<rparr>"

text \<open>The ring still holds an event of the request, but the index holds no pending record.\<close>

definition closed_request :: "(rat \<Rightarrow> jstr) \<Rightarrow> room \<Rightarrow> permission_request \<Rightarrow> jstr option \<Rightarrow>
    permission_event \<times> jstr option \<Rightarrow> request_outcome" where
  "closed_request ntext r event task previous = (case fst previous of
     Perm_request q \<Rightarrow>
       if \<not> pendingPermissionRequestIsEquivalent ntext \<lparr>pp_requestId = pq_requestId q, pp_agent = pq_agent q,
            pp_taskRequestId = snd previous, pp_sequence = 0, pp_event = q\<rparr> event task
       then PI_rejected ''permission_request_conflict''
       else (case List.find (request_message (pq_requestId event)) (r_messages r) of
         None \<Rightarrow> PI_rejected ''permission_request_closed''
       | Some m \<Rightarrow> PI_duplicate (rm_sequence m))
   | _ \<Rightarrow> PI_rejected ''permission_request_closed'')"

definition ingestPermissionRequest :: "(room \<Rightarrow> bool) \<Rightarrow> (int \<Rightarrow> jstr) \<Rightarrow> (rat \<Rightarrow> jstr) \<Rightarrow> participant \<Rightarrow>
    permission_input \<Rightarrow> int \<Rightarrow> room \<Rightarrow> request_outcome \<times> room" where
  "ingestPermissionRequest fits uuid ntext agent input now r =
     (case validatePermissionRequest input now of
        Inl e \<Rightarrow> (PI_rejected e, r)
      | Inr v \<Rightarrow> (case permission_task_check r agent (pv_taskRequestId v) of
          Some e \<Rightarrow> (PI_rejected e, r)
        | None \<Rightarrow>
           (let event = request_event agent v now; i = pv_requestId v; task = pv_taskRequestId v in
            (case dget (r_permissionRequests r) i of
               Some existing \<Rightarrow>
                 if \<not> pendingPermissionRequestIsEquivalent ntext existing event task
                 then (PI_rejected ''permission_request_conflict'', r)
                 else replay_request fits uuid agent i existing r
             | None \<Rightarrow>
                 if i \<in> set proto_keys then (PI_raised TypeError, r)
                 else (case latestPermissionRequest r i of
                   Some previous \<Rightarrow> (closed_request ntext r event task previous, r)
                 | None \<Rightarrow>
                     if MAX_PENDING_PERMISSION_REQUESTS \<le> length (r_permissionRequests r)
                     then (PI_rejected ''too_many_pending_permissions'', r)
                     else (case appendMessage fits (permission_message (next_uuid uuid r) (p_id agent)
                         (p_name agent) Agent (Perm_request event) task (p_id agent) now) r of
                       (r1, m) \<Rightarrow> (PI_recorded (rm_sequence m),
                         r1\<lparr>r_permissionRequests := dput i \<lparr>pp_requestId = i, pp_agent = p_id agent,
                           pp_taskRequestId = task, pp_sequence = rm_sequence m, pp_event = event\<rparr>
                           (r_permissionRequests r1)\<rparr>)))))))"

subsection \<open>A response from a Human\<close>

datatype response_outcome = RS_ok | RS_error string | RS_raised js_error

definition ingestPermissionResponse :: "(room \<Rightarrow> bool) \<Rightarrow> (int \<Rightarrow> jstr) \<Rightarrow> participant \<Rightarrow> jstr \<Rightarrow> jstr \<Rightarrow>
    int \<Rightarrow> room \<Rightarrow> response_outcome \<times> room" where
  "ingestPermissionResponse fits uuid human i selected now r =
     (case dget (r_permissionRequests r) i of
        None \<Rightarrow>
          if i \<in> set proto_keys then (RS_raised TypeError, r)
          else (RS_error (if latestPermissionEvent r i \<noteq> None then ''permission_request_closed''
            else ''unknown_permission_request''), r)
      | Some rec \<Rightarrow>
          if pq_expiresAt (pp_event rec) \<le> now then
            (RS_error ''permission_request_expired'',
             fst (expirePermissionRequests fits uuid now (Some (pp_agent rec)) r))
          else if \<not> list_ex (\<lambda>p. po_optionId p = selected) (pq_options (pp_event rec)) then
            (RS_error ''invalid_permission_option'', r)
          else if \<not> agent_in (r_participants r) (pp_agent rec) then
            (RS_error ''permission_request_target_left'',
             fst (expirePermissionRequests fits uuid now (Some (pp_agent rec)) r))
          else
            (RS_ok, fst (appendMessage fits (permission_message (next_uuid uuid r) (p_id human)
               (p_name human) Human (Perm_resolved \<lparr>pr_requestId = i, pr_agent = pp_agent rec,
                 pr_selectedOptionId = selected, pr_humanId = p_id human, pr_humanName = p_name human,
                 pr_createdAt = now, pr_expiresAt = pq_expiresAt (pp_event rec)\<rparr>)
               (pp_taskRequestId rec) (pp_agent rec) now)
               (r\<lparr>r_permissionRequests := ddel i (r_permissionRequests r)\<rparr>))))"

subsection \<open>At most one terminal event\<close>

definition terminal_message :: "jstr \<Rightarrow> room_message \<Rightarrow> bool" where
  "terminal_message i m = (case permissionEventForMessage m of
     Some e \<Rightarrow> is_terminal e \<and> event_id e = i | None \<Rightarrow> False)"

definition terminals :: "room \<Rightarrow> jstr \<Rightarrow> nat" where
  "terminals r i = length (filter (terminal_message i) (r_messages r))"

lemma terminal_sequence [simp]: "terminal_message i (m\<lparr>rm_sequence := n\<rparr>) = terminal_message i m"
  by (simp add: terminal_message_def permissionEventForMessage_def)

lemma length_filter_suffix: "suffix ys xs \<Longrightarrow> length (filter P ys) \<le> length (filter P xs)"
  by (auto simp: suffix_def)

lemma terminals_append: "terminals (fst (appendMessage fits m r)) i \<le> terminals r i + (if terminal_message i m then 1 else 0)"
  using length_filter_suffix [OF append_suffix, of "terminal_message i" fits m r]
  by (simp add: terminals_def split: if_splits)

lemma terminal_permission_message [simp]: "terminal_message i (permission_message x p n k e t g c) \<longleftrightarrow>
    is_terminal e \<and> event_id e = i"
  by (simp add: terminal_message_def permission_message_def permissionEventForMessage_def)

lemma find_rev_None: "List.find P (rev xs) = None \<longleftrightarrow> (\<forall>x \<in> set xs. \<not> P x)"
  by (auto simp: find_None_iff)

lemma no_event_no_terminal: "latestPermissionRequest r i = None \<Longrightarrow> terminals r i = 0"
  by (auto simp: latestPermissionRequest_def find_rev_None terminals_def message_event_def
      terminal_message_def filter_empty_conv split: option.splits)

text \<open>A pending request is one nobody has answered; an answered one is answered once.\<close>

definition perm_ok :: "room \<Rightarrow> bool" where
  "perm_ok r \<longleftrightarrow> wf_dict (r_permissionRequests r) \<and>
     (\<forall>i \<in> fst ` set (r_permissionRequests r). terminals r i = 0) \<and> (\<forall>i. terminals r i \<le> 1)"

lemma perm_ok_append:
  assumes "perm_ok r" and "\<forall>i. \<not> terminal_message i m"
  shows "perm_ok (fst (appendMessage fits m r))"
proof -
  have t: "terminals (fst (appendMessage fits m r)) i \<le> terminals r i" for i
    using terminals_append [of fits m r i] assms(2) by simp
  have "terminals (fst (appendMessage fits m r)) i \<le> 1" for i
    using t [of i] assms(1) by (auto simp: perm_ok_def intro: order_trans)
  moreover have "terminals (fst (appendMessage fits m r)) i = 0"
    if "i \<in> fst ` set (r_permissionRequests r)" for i
    using t [of i] assms(1) that by (auto simp: perm_ok_def)
  ultimately show ?thesis using assms(1) by (auto simp: perm_ok_def)
qed

lemma terminals_update [simp]: "terminals (r\<lparr>r_permissionRequests := x\<rparr>) i = terminals r i"
  by (simp add: terminals_def)

lemma perm_ok_terminal:
  assumes "perm_ok r" and "terminals r i = 0" and "\<forall>j. terminal_message j m \<longleftrightarrow> j = i"
  shows "perm_ok (fst (appendMessage fits m (r\<lparr>r_permissionRequests := ddel i (r_permissionRequests r)\<rparr>)))"
proof -
  let ?r = "r\<lparr>r_permissionRequests := ddel i (r_permissionRequests r)\<rparr>"
  have t: "terminals (fst (appendMessage fits m ?r)) j \<le> terminals r j + (if j = i then 1 else 0)" for j
    using terminals_append [of fits m ?r j] assms(3) by simp
  have "terminals (fst (appendMessage fits m ?r)) j \<le> 1" for j
    using t [of j] assms(1,2) by (cases "j = i") (auto simp: perm_ok_def intro: order_trans)
  moreover have "terminals (fst (appendMessage fits m ?r)) j = 0"
    if "j \<in> fst ` set (r_permissionRequests r)" "j \<noteq> i" for j
    using t [of j] assms(1) that by (auto simp: perm_ok_def)
  ultimately show ?thesis
    using assms(1) by (auto simp: perm_ok_def wf_ddel keys_ddel)
qed

lemma perm_ok_ddel: "perm_ok r \<Longrightarrow> perm_ok (r\<lparr>r_permissionRequests := ddel i (r_permissionRequests r)\<rparr>)"
  by (auto simp: perm_ok_def wf_ddel keys_ddel)

lemma find_rev_Some: "List.find P (rev xs) = Some m \<Longrightarrow> m \<in> set xs \<and> P m"
  using nth_mem [of _ "rev xs"] by (auto simp: find_Some_iff simp del: nth_mem)

lemma has_terminal_zero: "terminals r i = 0 \<Longrightarrow> \<not> has_terminal r i"
  by (auto simp: has_terminal_def latestPermissionEvent_def latestPermissionRequest_def message_event_def
      terminals_def terminal_message_def filter_empty_conv split: option.splits dest!: find_rev_Some)

lemma expire_one_ok:
  assumes "perm_ok r" and "terminals r i = 0"
  shows "perm_ok (fst (expire_one fits uuid now departed (i, rec) (r, c)))"
    and "j \<noteq> i \<Longrightarrow> terminals (fst (expire_one fits uuid now departed (i, rec) (r, c))) j \<le> terminals r j"
proof -
  have m: "\<forall>j. terminal_message j (expired_message uuid now i rec r') \<longleftrightarrow> j = i" for r'
    by (auto simp: expired_message_def is_terminal_def event_id_def)
  show "perm_ok (fst (expire_one fits uuid now departed (i, rec) (r, c)))"
    using perm_ok_terminal [OF assms m] perm_ok_ddel [OF assms(1)] assms(1)
    by (simp add: expire_one_def Let_def)
  show "terminals (fst (expire_one fits uuid now departed (i, rec) (r, c))) j \<le> terminals r j" if "j \<noteq> i"
    using terminals_append [of fits "expired_message uuid now i rec (r\<lparr>r_permissionRequests :=
        ddel i (r_permissionRequests r)\<rparr>)" "r\<lparr>r_permissionRequests := ddel i (r_permissionRequests r)\<rparr>" j] m that
    by (simp add: expire_one_def Let_def)
qed

lemma expire_fold_ok:
  "perm_ok (fst s) \<Longrightarrow> wf_dict es \<Longrightarrow> \<forall>i \<in> fst ` set es. terminals (fst s) i = 0 \<Longrightarrow>
   perm_ok (fst (fold (expire_one fits uuid now departed) es s))"
proof (induction es arbitrary: s)
  case (Cons e es)
  obtain i rec where e: "e = (i, rec)" by (cases e)
  obtain r c where s: "s = (r, c)" by (cases s)
  have i: "perm_ok r" "terminals r i = 0" using Cons.prems by (auto simp: e s)
  have "\<forall>j \<in> fst ` set es. terminals (fst (expire_one fits uuid now departed e s)) j = 0"
  proof
    fix j
    assume j: "j \<in> fst ` set es"
    with Cons.prems e have "j \<noteq> i" by (auto simp: wf_dict_def)
    have "terminals r j = 0" using j Cons.prems by (auto simp: e s)
    with expire_one_ok(2) [OF i \<open>j \<noteq> i\<close>, of fits uuid now departed rec c]
    show "terminals (fst (expire_one fits uuid now departed e s)) j = 0" by (simp add: e s)
  qed
  with Cons expire_one_ok(1) [OF i, of fits uuid now departed rec c] show ?case
    by (simp add: e s wf_dict_def)
qed simp

lemma perm_ok_expire: "perm_ok r \<Longrightarrow> perm_ok (fst (expirePermissionRequests fits uuid now departed r))"
  unfolding expirePermissionRequests_def by (rule expire_fold_ok) (simp_all add: perm_ok_def)

lemma perm_ok_dput: "perm_ok r \<Longrightarrow> terminals r i = 0 \<Longrightarrow>
    perm_ok (r\<lparr>r_permissionRequests := dput i x (r_permissionRequests r)\<rparr>)"
  by (auto simp: perm_ok_def wf_dput keys_dput)

lemma perm_ok_request_append:
  assumes "perm_ok r" and "terminals r i = 0" and "\<not> is_terminal e"
  shows "perm_ok ((fst (appendMessage fits (permission_message x p nm k e t g c) r))\<lparr>r_permissionRequests :=
    dput i y (r_permissionRequests r)\<rparr>)"
proof -
  let ?r = "fst (appendMessage fits (permission_message x p nm k e t g c) r)"
  have "perm_ok ?r" using assms by (intro perm_ok_append) auto
  moreover have "terminals ?r i = 0"
    using terminals_append [of fits "permission_message x p nm k e t g c" r i] assms by simp
  ultimately have "perm_ok (?r\<lparr>r_permissionRequests := dput i y (r_permissionRequests ?r)\<rparr>)" by (rule perm_ok_dput)
  then show ?thesis by simp
qed

lemma perm_ok_pending: "perm_ok r \<Longrightarrow> dget (r_permissionRequests r) i = Some rec \<Longrightarrow> terminals r i = 0"
  using dget_in_set by (fastforce simp: perm_ok_def)

lemma perm_ok_replay:
  assumes "perm_ok r" and "dget (r_permissionRequests r) i = Some existing"
  shows "perm_ok (snd (replay_request fits uuid agent i existing r))"
proof (cases "List.find (\<lambda>m. rm_sequence m = pp_sequence existing \<and> request_message i m) (r_messages r)")
  case None
  let ?a = "appendMessage fits (permission_message (next_uuid uuid r) (p_id agent) (p_name agent) Agent
      (Perm_request (pp_event existing)) (pp_taskRequestId existing) (p_id agent) (pq_createdAt (pp_event existing))) r"
  have eq: "snd (replay_request fits uuid agent i existing r) = (fst ?a)\<lparr>r_permissionRequests :=
      dput i (existing\<lparr>pp_sequence := rm_sequence (snd ?a)\<rparr>) (r_permissionRequests r)\<rparr>"
    using None by (simp add: replay_request_def case_prod_beta)
  show ?thesis unfolding eq
    by (rule perm_ok_request_append [OF assms(1) perm_ok_pending [OF assms]]) (simp add: is_terminal_def)
qed (use assms in \<open>simp add: replay_request_def\<close>)

lemma perm_ok_request: "perm_ok r \<Longrightarrow> perm_ok (snd (ingestPermissionRequest fits uuid ntext agent input now r))"
  using perm_ok_request_append [of r] no_event_no_terminal [of r]
  by (auto simp: ingestPermissionRequest_def Let_def perm_ok_replay is_terminal_def
      split: sum.split option.split prod.split)
    (metis append_same(3) fst_conv permission_event.case(1))

lemma perm_ok_response: "perm_ok r \<Longrightarrow> perm_ok (snd (ingestPermissionResponse fits uuid human i selected now r))"
  by (auto simp: ingestPermissionResponse_def perm_ok_expire perm_ok_pending is_terminal_def event_id_def
      split: option.split intro!: perm_ok_terminal)


subsection \<open>What stays pending\<close>

lemma expire_one_same [simp]: "r_participants (fst (expire_one fits uuid now departed e s)) = r_participants (fst s)"
  by (cases e; cases s) (simp add: expire_one_def Let_def)

lemma expire_one_pending: "r_permissionRequests (fst (expire_one fits uuid now departed e s)) =
    (if should_expire (fst s) now departed (snd e) then ddel (fst e) (r_permissionRequests (fst s))
     else r_permissionRequests (fst s))"
  by (cases e; cases s) (simp add: expire_one_def Let_def)

lemma should_expire_cong: "r_participants r = r_participants r' \<Longrightarrow>
    should_expire r now departed rec = should_expire r' now departed rec"
  by (simp add: should_expire_def)

lemma expire_fold_pending:
  "r_participants (fst s) = r_participants r \<Longrightarrow>
   r_permissionRequests (fst (fold (expire_one fits uuid now departed) es s)) =
     filter (\<lambda>x. \<forall>e \<in> set es. should_expire r now departed (snd e) \<longrightarrow> fst e \<noteq> fst x) (r_permissionRequests (fst s))"
proof (induction es arbitrary: s)
  case (Cons e es)
  have "r_participants (fst (expire_one fits uuid now departed e s)) = r_participants r"
    using Cons.prems by simp
  from Cons.IH [OF this] show ?case
    using should_expire_cong [OF Cons.prems, of now departed]
    by (auto simp: expire_one_pending ddel_def intro!: filter_cong)
qed simp

lemma wf_dict_unique: "wf_dict d \<Longrightarrow> e \<in> set d \<Longrightarrow> x \<in> set d \<Longrightarrow> fst e = fst x \<Longrightarrow> e = x"
  by (auto simp: wf_dict_def distinct_map inj_on_def)

lemma expire_pending:
  assumes "wf_dict (r_permissionRequests r)"
  shows "r_permissionRequests (fst (expirePermissionRequests fits uuid now departed r)) =
    filter (\<lambda>x. \<not> should_expire r now departed (snd x)) (r_permissionRequests r)"
proof -
  have "(\<forall>e \<in> set (r_permissionRequests r). should_expire r now departed (snd e) \<longrightarrow> fst e \<noteq> fst x) \<longleftrightarrow>
      \<not> should_expire r now departed (snd x)" if "x \<in> set (r_permissionRequests r)" for x
    using wf_dict_unique [OF assms _ that] that by metis
  then show ?thesis
    using expire_fold_pending [of "(r, False)" r fits uuid now departed]
    by (auto simp: expirePermissionRequests_def intro!: filter_cong)
qed

text \<open>
  The expiry pass removes exactly the requests that are overdue or whose Agent is gone, and
  keeps every other pending request as it was.
\<close>

theorem expiry_exact:
  assumes "wf_dict (r_permissionRequests r)"
  shows "r_permissionRequests (fst (expirePermissionRequests fits uuid now None r)) =
    filter (\<lambda>(i, rec). now < pq_expiresAt (pp_event rec) \<and> agent_in (r_participants r) (pp_agent rec))
      (r_permissionRequests r)"
  using expire_pending [OF assms, of fits uuid now None]
  by (auto simp: should_expire_def intro!: filter_cong)

subsection \<open>The life of the index\<close>

text \<open>Everything that touches the index or the ring of a Room, as one step.\<close>

datatype perm_op = PO_request participant permission_input int | PO_response participant jstr jstr int
  | PO_expire int "jstr option" | PO_message room_message | PO_roster participants

definition perm_step :: "(room \<Rightarrow> bool) \<Rightarrow> (int \<Rightarrow> jstr) \<Rightarrow> (rat \<Rightarrow> jstr) \<Rightarrow> perm_op \<Rightarrow> room \<Rightarrow> room" where
  "perm_step fits uuid ntext op r = (case op of
     PO_request agent input now \<Rightarrow> snd (ingestPermissionRequest fits uuid ntext agent input now r)
   | PO_response human i selected now \<Rightarrow> snd (ingestPermissionResponse fits uuid human i selected now r)
   | PO_expire now departed \<Rightarrow> fst (expirePermissionRequests fits uuid now departed r)
   | PO_message m \<Rightarrow> if rm_permission m = None then fst (appendMessage fits m r) else r
   | PO_roster ps \<Rightarrow> r\<lparr>r_participants := ps\<rparr>)"

definition perm_inv :: "room \<Rightarrow> bool" where
  "perm_inv r \<longleftrightarrow> perm_ok r \<and> length (r_permissionRequests r) \<le> MAX_PENDING_PERMISSION_REQUESTS \<and>
     (\<forall>i \<in> set proto_keys. dget (r_permissionRequests r) i = None)"

lemma length_ddel_le: "length m \<le> n \<Longrightarrow> length (ddel k m) \<le> n"
  using length_ddel [of k m] by simp

lemma dget_filter_None: "dget m k = None \<Longrightarrow> dget (filter P m) k = None"
  by (induction m) (auto split: if_splits)

lemma perm_inv_expire: "perm_inv r \<Longrightarrow> perm_inv (fst (expirePermissionRequests fits uuid now departed r))"
  using perm_ok_expire [of r fits uuid now departed] expire_pending [of r fits uuid now departed]
  by (auto simp: perm_inv_def perm_ok_def dget_filter_None intro: le_trans [OF length_filter_le])

lemma perm_inv_roster: "perm_inv r \<Longrightarrow> perm_inv (r\<lparr>r_participants := ps\<rparr>)"
  by (simp add: perm_inv_def perm_ok_def terminals_def)

lemma perm_inv_response: "perm_inv r \<Longrightarrow> perm_inv (snd (ingestPermissionResponse fits uuid human i selected now r))"
  using perm_ok_response [of r fits uuid human i selected now] perm_inv_expire [of r fits uuid]
  by (auto simp: perm_inv_def ingestPermissionResponse_def length_ddel_le split: option.splits if_splits)

lemma perm_inv_append: "perm_inv r \<Longrightarrow> rm_permission m = None \<Longrightarrow> perm_inv (fst (appendMessage fits m r))"
  by (auto simp: perm_inv_def terminal_message_def permissionEventForMessage_def intro!: perm_ok_append
    split: if_splits)

lemma known_request_key: "dget m i = Some x \<Longrightarrow> i \<in> fst ` set m"
  by (force dest: dget_in_set simp: image_iff)

lemma perm_inv_replay:
  assumes "perm_inv r" and "dget (r_permissionRequests r) i = Some existing"
  shows "perm_inv (snd (replay_request fits uuid agent i existing r))"
  using assms perm_ok_replay [of r i existing fits uuid agent] known_request_key [OF assms(2)]
  by (auto simp: perm_inv_def replay_request_def length_dput case_prod_beta split: option.splits)

lemma request_frame: "r_permissionRequests (snd (ingestPermissionRequest fits uuid ntext agent input now r)) =
      r_permissionRequests r \<or>
   (\<exists>i x. dget (r_permissionRequests r) i \<noteq> None \<and>
      r_permissionRequests (snd (ingestPermissionRequest fits uuid ntext agent input now r)) =
        dput i x (r_permissionRequests r)) \<or>
   (\<exists>i x. i \<notin> set proto_keys \<and> length (r_permissionRequests r) < MAX_PENDING_PERMISSION_REQUESTS \<and>
      r_permissionRequests (snd (ingestPermissionRequest fits uuid ntext agent input now r)) =
        dput i x (r_permissionRequests r))"
  by (auto simp: ingestPermissionRequest_def replay_request_def Let_def case_prod_beta
      split: sum.split option.split)

lemma perm_inv_request: "perm_inv r \<Longrightarrow> perm_inv (snd (ingestPermissionRequest fits uuid ntext agent input now r))"
  using perm_ok_request [of r fits uuid ntext agent input now]
    request_frame [of fits uuid ntext agent input now r]
  by (auto simp: perm_inv_def length_dput dest: known_request_key)

interpretation permission_runs: transition_system "perm_step fits uuid ntext" perm_inv for fits uuid ntext
  by unfold_locales (auto simp: perm_step_def perm_inv_request perm_inv_response perm_inv_expire
    perm_inv_append perm_inv_roster split: perm_op.split)

text \<open>
  C14: whatever requests, answers, expiries, messages and roster changes a Room sees, every
  permission request keeps at most one terminal event in the log, a pending request has none,
  and at most 32 are pending.
\<close>

theorem one_terminal_event:
  assumes "r_messages r = []" and "r_permissionRequests r = []"
  shows "\<forall>i. terminals (fold (perm_step fits uuid ntext) ops r) i \<le> 1 \<and>
    (dget (r_permissionRequests (fold (perm_step fits uuid ntext) ops r)) i \<noteq> None \<longrightarrow>
      terminals (fold (perm_step fits uuid ntext) ops r) i = 0) \<and>
    length (r_permissionRequests (fold (perm_step fits uuid ntext) ops r)) \<le> MAX_PENDING_PERMISSION_REQUESTS"
proof -
  have "perm_inv r" using assms by (simp add: perm_inv_def perm_ok_def terminals_def wf_dict_def)
  from permission_runs.invar_run [OF this, of fits uuid ntext ops]
  show ?thesis by (auto simp: perm_inv_def perm_ok_def dest: known_request_key)
qed

subsection \<open>Answers\<close>

text \<open>
  A Human's answer is accepted once: it leaves a terminal event as the newest message,
  takes the request out of the index, and any later answer to the same request is refused.
\<close>

theorem answered_once:
  assumes "perm_inv r" and "ingestPermissionResponse fits uuid human i selected now r = (RS_ok, r')"
  shows "terminals r' i = 1 \<and> dget (r_permissionRequests r') i = None \<and>
    ingestPermissionResponse fits uuid human2 i selected2 now2 r' =
      (RS_error ''permission_request_closed'', r')"
proof -
  obtain rec where rec: "dget (r_permissionRequests r) i = Some rec"
    and r': "r' = fst (appendMessage fits (permission_message (next_uuid uuid r) (p_id human)
     (p_name human) Human (Perm_resolved \<lparr>pr_requestId = i, pr_agent = pp_agent rec,
       pr_selectedOptionId = selected, pr_humanId = p_id human, pr_humanName = p_name human,
       pr_createdAt = now, pr_expiresAt = pq_expiresAt (pp_event rec)\<rparr>) (pp_taskRequestId rec) (pp_agent rec) now)
     (r\<lparr>r_permissionRequests := ddel i (r_permissionRequests r)\<rparr>))"
    using assms(2) by (auto simp: ingestPermissionResponse_def split: option.splits if_splits)
  have inv: "perm_inv r'" using perm_inv_response [OF assms(1), of fits uuid human i selected now] assms(2) by simp
  have gone: "dget (r_permissionRequests r') i = None" by (simp add: r')
  have last: "r_messages r' \<noteq> [] \<and> terminal_message i (last (r_messages r'))"
    using append_last [of fits _ "r\<lparr>r_permissionRequests := ddel i (r_permissionRequests r)\<rparr>"]
    by (simp add: r' is_terminal_def event_id_def)
  then have "terminals r' i > 0"
    by (auto simp: terminals_def filter_empty_conv intro: last_in_set)
  with inv have one: "terminals r' i = 1" by (auto simp: perm_inv_def perm_ok_def le_antisym)
  have "latestPermissionEvent r' i \<noteq> None"
    using last by (auto simp: latestPermissionEvent_def latestPermissionRequest_def find_rev_None
        terminal_message_def message_event_def intro!: bexI [of _ "last (r_messages r')"] split: option.splits)
  moreover have "i \<notin> set proto_keys" using assms(1) rec by (auto simp: perm_inv_def)
  ultimately show ?thesis using one gone by (simp add: ingestPermissionResponse_def)
qed

definition demo_permission :: "string \<Rightarrow> int \<Rightarrow> permission_record" where
  "demo_permission i e = \<lparr>pp_requestId = lit i, pp_agent = lit ''bot'', pp_taskRequestId = None,
     pp_sequence = 1, pp_event = \<lparr>pq_requestId = lit i, pq_agent = lit ''bot'', pq_toolCall =
       \<lparr>tc_title = lit ''run'', tc_kind = None, tc_summary = None, tc_details = None\<rparr>,
       pq_options = [\<lparr>po_optionId = lit ''yes'', po_name = lit ''Allow'', po_kind = None\<rparr>],
       pq_createdAt = 0, pq_expiresAt = e\<rparr>\<rparr>"

definition demo_pending_room :: room where
  "demo_pending_room = demo_room\<lparr>r_messages := [], r_permissionRequests :=
     [(lit ''p1'', demo_permission ''p1'' 100), (lit ''p2'', demo_permission ''p2'' 90000)]\<rparr>"

theorem expiry_exact_witness:
  "r_permissionRequests (fst (expirePermissionRequests (\<lambda>_. True) (\<lambda>_. []) 200 None demo_pending_room)) =
     [(lit ''p2'', demo_permission ''p2'' 90000)]"
proof -
  have "wf_dict (r_permissionRequests demo_pending_room)" by code_simp
  moreover have "filter (\<lambda>(i, rec). (200::int) < pq_expiresAt (pp_event rec) \<and>
      agent_in (r_participants demo_pending_room) (pp_agent rec)) (r_permissionRequests demo_pending_room) =
      [(lit ''p2'', demo_permission ''p2'' 90000)]" by code_simp
  ultimately show ?thesis by (simp only: expiry_exact)
qed

theorem one_terminal_event_witness:
  "terminals (fold (perm_step (\<lambda>_. True) (\<lambda>_. []) (\<lambda>_. [])) [PO_expire 0 None] (demo_room\<lparr>r_messages := []\<rparr>)) (lit ''p'') \<le> 1"
  using one_terminal_event [of "demo_room\<lparr>r_messages := []\<rparr>" "\<lambda>_. True" "\<lambda>_. []" "\<lambda>_. []" "[PO_expire 0 None]"]
  by (simp add: demo_room_def)

theorem answered_once_witness:
  "terminals (snd (ingestPermissionResponse (\<lambda>_. True) (\<lambda>_. []) (demo_participant ''ana'' Human True)
     (lit ''p1'') (lit ''yes'') 50 demo_pending_room)) (lit ''p1'') = 1"
proof -
  have 1: "perm_ok demo_pending_room" 
    by (simp add: perm_ok_def demo_pending_room_def terminals_def wf_dict_def lit_def)
  have "length (r_permissionRequests demo_pending_room) \<le> MAX_PENDING_PERMISSION_REQUESTS"
    "\<forall>i \<in> set proto_keys. dget (r_permissionRequests demo_pending_room) i = None" by code_simp+
  with 1 have "perm_inv demo_pending_room" by (simp add: perm_inv_def)
  moreover have "fst (ingestPermissionResponse (\<lambda>_. True) (\<lambda>_. []) (demo_participant ''ana'' Human True)
     (lit ''p1'') (lit ''yes'') 50 demo_pending_room) = RS_ok" by code_simp
  ultimately show ?thesis by (metis answered_once prod.collapse)
qed

subsection \<open>Two ways an answer goes wrong\<close>

text \<open>
  C28: an answer to one overdue request withdraws every pending request of the same Agent, the
  ones that have not expired included: here \<open>p2\<close> has almost ninety seconds left.
\<close>

theorem overdue_answer_withdraws_all:
  "(case ingestPermissionResponse (\<lambda>_. True) (\<lambda>_. []) (demo_participant ''ana'' Human True)
     (lit ''p1'') (lit ''yes'') 200 demo_pending_room of (outcome, r') \<Rightarrow>
   outcome = RS_error ''permission_request_expired'' \<and>
   dget (r_permissionRequests demo_pending_room) (lit ''p2'') = Some (demo_permission ''p2'' 90000) \<and>
   dget (r_permissionRequests r') (lit ''p2'') = None \<and> has_terminal r' (lit ''p2''))"
  by code_simp

text \<open>
  An answer to a request named like an inherited property raises instead of being refused.
\<close>

theorem inherited_permission_id_raises:
  "fst (ingestPermissionResponse fits uuid human (lit ''toString'') selected now demo_room) = RS_raised TypeError"
  by (simp add: ingestPermissionResponse_def demo_room_def proto_keys_def)

end
