(* ===== verification/Room_Departure.thy ===== *)
theory Room_Departure
  imports Room_Permissions
begin

text \<open>
  How participants leave a Room (RoomSession of app/src/do/RoomSession.ts): an Agent leaves, a
  Human leaves, and the alarm sweeps out whoever did not come back. Each path revokes the
  media grants of the participant, settles its permission requests, removes it and restores
  the Room's derived state; the record is then saved.

  A clock is read once per operation. What the handlers do outside the record (waiters,
  sockets, analytics, surface chunks, provider calls) is left out.
\<close>

definition RECONNECT_GRACE_MS :: int where "RECONNECT_GRACE_MS = 30 * 1000"
definition AGENT_LEASE_MS :: int where "AGENT_LEASE_MS = 90 * 1000"

subsection \<open>One departure\<close>

text \<open>A session of the active transcript producer is closed even while it is authorized.\<close>

definition stage_producer :: "participant \<Rightarrow> room \<Rightarrow> room" where
  "stage_producer p r = (case lv_state (r_transcript r) of
     LT_inactive \<Rightarrow> r
   | LT_active producer epoch startedAt \<Rightarrow>
       if p_runtimeHostId p = Some producer then stage_in_room (p_id p) Subscribed r else r)"

text \<open>
  The grants as they are after the departure are computed first and stored last: whatever runs
  in between still reads the old ones.
\<close>

definition settle_departure :: "bool \<Rightarrow> int \<Rightarrow> meeting_notes \<Rightarrow> agent_voice \<Rightarrow> room \<Rightarrow> js_error + room" where
  "settle_departure media now mn av r =
     and_then (garbageCollectRuntimeHostAuthorization media r)
       (\<lambda>r. Inr ((updateCollaborationActivity now r)\<lparr>r_meetingNotes := mn, r_agentVoice := av\<rparr>))"

definition remove_participant :: "jstr \<Rightarrow> room \<Rightarrow> room" where
  "remove_participant i r = r\<lparr>r_participants := ddel i (r_participants r)\<rparr>"

definition agent_leave :: "(room \<Rightarrow> bool) \<Rightarrow> (int \<Rightarrow> jstr) \<Rightarrow> bool \<Rightarrow> int \<Rightarrow> participant \<Rightarrow> room \<Rightarrow>
    js_error + room" where
  "agent_leave fits uuid media now p r =
     (case transitionMediaGrantsForParticipantDeparture (r_meetingNotes r) (r_agentVoice r) p of
        (mn, av, revocations) \<Rightarrow>
          and_then (stageMediaGrantRevocations media revocations r)
            (\<lambda>r. and_then (settle_departure media now mn av (remove_participant (p_id p)
                (fst (expirePermissionRequests fits uuid now (Some (p_id p)) (stage_producer p r)))))
              (\<lambda>r. Inr (applyEmptyRoomExpiry now r))))"

text \<open>The shared \<open>leave\<close> path: an Agent keeps its seat until its lease ends, a Human goes.\<close>

definition leave :: "(room \<Rightarrow> bool) \<Rightarrow> (int \<Rightarrow> jstr) \<Rightarrow> bool \<Rightarrow> int \<Rightarrow> participant \<Rightarrow> room \<Rightarrow>
    js_error + room" where
  "leave fits uuid media now p r =
     (case transitionMediaGrantsForParticipantDeparture (r_meetingNotes r) (r_agentVoice r) p of
        (mn, av, revocations) \<Rightarrow>
          and_then (stageMediaGrantRevocations media revocations r)
            (\<lambda>r. and_then (settle_departure media now mn av
                (if p_kind p = Agent
                 then fst (expirePermissionRequests fits uuid now (Some (p_id p)) r)
                 else remove_participant (p_id p) r))
              (\<lambda>r. Inr (applyEmptyRoomExpiry now r))))"

subsection \<open>The alarm\<close>

definition expired_human :: "int \<Rightarrow> participant \<Rightarrow> bool" where
  "expired_human now p \<longleftrightarrow> p_kind p = Human \<and> \<not> p_connected p \<and>
     p_lastSeenAt p + RECONNECT_GRACE_MS \<le> now"

definition expired_agent :: "int \<Rightarrow> participant \<Rightarrow> bool" where
  "expired_agent now p \<longleftrightarrow> p_kind p = Agent \<and> p_lastSeenAt p + AGENT_LEASE_MS \<le> now"

text \<open>
  One participant of the sweep. The source guards the expiry of the participant's permission
  requests with \<open>expiredHuman\<close> and \<open>expiredAgent\<close> at once.
\<close>

definition sweep_one :: "(room \<Rightarrow> bool) \<Rightarrow> (int \<Rightarrow> jstr) \<Rightarrow> bool \<Rightarrow> int \<Rightarrow> jstr \<times> participant \<Rightarrow>
    room \<times> bool \<Rightarrow> js_error + room \<times> bool" where
  "sweep_one fits uuid media now entry s = (case (entry, s) of ((i, p), (r, changed)) \<Rightarrow>
     if expired_human now p \<or> expired_agent now p
     then (case transitionMediaGrantsForParticipantDeparture (r_meetingNotes r) (r_agentVoice r) p of
        (mn, av, revocations) \<Rightarrow>
          and_then (stageMediaGrantRevocations media revocations r)
            (\<lambda>r. let r1 = (if expired_agent now p then stage_producer p r else r);
                   r2 = (if expired_human now p
                     then (if expired_agent now p then fst (expirePermissionRequests fits uuid now (Some i) r1) else r1)
                     else r1) in
               and_then (settle_departure media now mn av (remove_participant i r2))
                 (\<lambda>r. Inr (r, True))))
     else Inr (r, changed))"

datatype alarm_outcome = AL_expired | AL_swept room bool

definition alarm_sweep :: "(room \<Rightarrow> bool) \<Rightarrow> (int \<Rightarrow> jstr) \<Rightarrow> bool \<Rightarrow> int \<Rightarrow> room \<Rightarrow> js_error + alarm_outcome" where
  "alarm_sweep fits uuid media now r =
     (if r_expiresAt r \<le> now then Inr AL_expired
      else and_then (fold_result (sweep_one fits uuid media now) (r_participants r)
          (expirePermissionRequests fits uuid now None r))
        (\<lambda>(r', changed). Inr (AL_swept (if changed then applyEmptyRoomExpiry now r' else r') changed)))"

text \<open>\<open>deadlines\<close> of \<open>scheduleNextAlarm\<close>; the alarm is set to their minimum.\<close>

definition MEDIA_CLEANUP_RETRY_MS :: int where "MEDIA_CLEANUP_RETRY_MS = 30 * 1000"

definition alarm_deadlines :: "int \<Rightarrow> room \<Rightarrow> int list" where
  "alarm_deadlines now r = [r_expiresAt r] @
     map (\<lambda>(i, rec). pq_expiresAt (pp_event rec)) (r_permissionRequests r) @
     concat (map (\<lambda>p. if p_kind p = Agent then [p_lastSeenAt p + AGENT_LEASE_MS]
       else if \<not> p_connected p then [p_lastSeenAt p + RECONNECT_GRACE_MS] else []) (room_people r)) @
     (if 0 < length (r_pendingMediaCleanup r) then [now + MEDIA_CLEANUP_RETRY_MS] else [])"

definition scheduleNextAlarm :: "int \<Rightarrow> room \<Rightarrow> int" where
  "scheduleNextAlarm now r = fold min (alarm_deadlines now r) (r_expiresAt r)"

subsection \<open>Loading the pending requests\<close>

text \<open>
  What the loader keeps of a record this program stored: the fields have their types, the
  other conditions are the ones below.
\<close>

definition loaded_request_ok :: "participants \<Rightarrow> jstr \<times> permission_record \<Rightarrow> bool" where
  "loaded_request_ok ps entry = (case entry of (i, rec) \<Rightarrow>
     pp_requestId rec = i \<and> agent_in ps (pp_agent rec) \<and> 0 < pp_sequence rec \<and>
     pq_requestId (pp_event rec) = i \<and> pq_agent (pp_event rec) = pp_agent rec \<and>
     (case pp_taskRequestId rec of None \<Rightarrow> True | Some t \<Rightarrow> isValidPermissionTaskRequestId t))"

definition load_permission_requests :: "participants \<Rightarrow> (jstr, permission_record) dict \<Rightarrow>
    (jstr, permission_record) dict \<times> bool" where
  "load_permission_requests ps stored =
     (let kept = filter (loaded_request_ok ps) (slice_last MAX_PENDING_PERMISSION_REQUESTS stored) in
      (kept, length kept \<noteq> length stored))"

subsection \<open>What a departure leaves alone\<close>

text \<open>A seat is a participant without its media.\<close>

definition seat :: "room \<Rightarrow> jstr \<Rightarrow> participant option" where
  "seat r i = map_option (\<lambda>p. p\<lparr>p_media := None\<rparr>) (dget (r_participants r) i)"

definition rest :: "room \<Rightarrow> room" where
  "rest r = r\<lparr>r_participants := [], r_pendingMediaCleanup := []\<rparr>"

definition pending :: "room \<Rightarrow> jstr \<Rightarrow> jstr \<Rightarrow> bool" where
  "pending r s x = queued (r_pendingMediaCleanup r) s x"

text \<open>Staging only moves media ids into the queue.\<close>

definition staged :: "room \<Rightarrow> room \<Rightarrow> bool" where
  "staged r r' \<longleftrightarrow> rest r' = rest r \<and> (\<forall>j. seat r' j = seat r j) \<and> (\<forall>s x. pending r s x \<longrightarrow> pending r' s x)"

lemma staged_refl [simp]: "staged r r"
  by (simp add: staged_def)

lemma staged_trans: "staged r r' \<Longrightarrow> staged r' r'' \<Longrightarrow> staged r r''"
  by (simp add: staged_def)

lemma stage_cases: "stageAgentMediaRevocation p q d = (p, q) \<or>
    (\<exists>a m. p = Some a \<and> p_kind a = Agent \<and> p_media a = Some m)"
  by (auto simp: stageAgentMediaRevocation_def split: option.splits)

lemma staged_in_room: "staged r (stage_in_room i d r)"
proof (cases "dget (r_participants r) i")
  case None
  then show ?thesis by (simp add: stage_in_room_def stageAgentMediaRevocation_def)
next
  case (Some a)
  let ?s = "stageAgentMediaRevocation (Some a) (r_pendingMediaCleanup r) d"
  have "\<exists>m'. fst ?s = Some (a\<lparr>p_media := m'\<rparr>)"
    by (auto simp: stageAgentMediaRevocation_def split: option.splits)
      (metis participant.surjective participant.update_convs(13))+
  then obtain m' where m': "fst ?s = Some (a\<lparr>p_media := m'\<rparr>)" ..
  have "queued (r_pendingMediaCleanup r) s x \<longrightarrow> queued (snd ?s) s x" for s x
    using stage_cases [of "Some a" "r_pendingMediaCleanup r" d] stage_queue [of a _ "r_pendingMediaCleanup r" d s x]
    by auto
  with m' Some show ?thesis
    by (cases ?s) (auto simp: staged_def stage_in_room_def rest_def seat_def pending_def)
qed

lemma fold_result_rel: "fold_result f xs s = Inr s' \<Longrightarrow> (\<And>s. R s s) \<Longrightarrow>
    (\<And>a b c. R a b \<Longrightarrow> R b c \<Longrightarrow> R a c) \<Longrightarrow> (\<And>x a b. f x a = Inr b \<Longrightarrow> R a b) \<Longrightarrow> R s s'"
  by (rule fold_result_invariant [of f xs s s' "R s"]) blast+

lemma fold_rel: "(\<And>s. R s s) \<Longrightarrow> (\<And>a b c. R a b \<Longrightarrow> R b c \<Longrightarrow> R a c) \<Longrightarrow> (\<And>x a. R a (f x a)) \<Longrightarrow> R s (fold f xs s)"
  by (induction xs arbitrary: s) (simp, metis fold_simps(2))

lemma staged_revocations: "stageMediaGrantRevocations media vs r = Inr r' \<Longrightarrow> staged r r'"
  unfolding stageMediaGrantRevocations_def
  by (erule fold_result_rel [of _ _ _ _ staged])
    (auto simp: stage_revocation_def and_then_Inr staged_in_room intro: staged_trans
      split: option.splits if_splits)

lemma staged_producer: "staged r (stage_producer p r)"
  by (simp add: stage_producer_def staged_in_room split: live_transcript.split)

lemma staged_transcript: "staged r (stageLiveTranscriptMediaRevocation r)"
  by (auto simp: stageLiveTranscriptMediaRevocation_def staged_in_room split: live_transcript.split
      intro!: fold_rel [of staged] intro: staged_trans)

lemma rest_fields: "rest r' = rest r \<Longrightarrow> r_permissionRequests r' = r_permissionRequests r \<and>
    r_messages r' = r_messages r \<and> r_transcript r' = r_transcript r \<and> r_runtimeHosts r' = r_runtimeHosts r"
  by (cases r; cases r') (simp add: rest_def)

text \<open>Settling a departure touches neither seats nor requests, and takes nothing off the queue.\<close>

definition settled :: "room \<Rightarrow> room \<Rightarrow> bool" where
  "settled r r' \<longleftrightarrow> (\<forall>j. seat r' j = seat r j) \<and> (\<forall>s x. pending r s x \<longrightarrow> pending r' s x) \<and>
     r_permissionRequests r' = r_permissionRequests r \<and> r_messages r' = r_messages r"

lemma staged_settled: "staged r r' \<Longrightarrow> settled r r'"
  using rest_fields [of r' r] by (auto simp: staged_def settled_def)

lemma settled_trans: "settled r r' \<Longrightarrow> settled r' r'' \<Longrightarrow> settled r r''"
  by (simp add: settled_def)

lemma settled_collected: "garbageCollectRuntimeHostAuthorization media r = Inr r' \<Longrightarrow> settled r r'"
  using staged_settled [OF staged_transcript [of "r\<lparr>r_runtimeHosts := garbageCollectRuntimeHosts (r_runtimeHosts r) (room_people r)\<rparr>"]]
  by (auto simp: garbageCollectRuntimeHostAuthorization_def normalize_transcript_in_room_def and_then_Inr
      Let_def settled_def seat_def pending_def split: if_splits)

lemma settled_departure:
  assumes "settle_departure media now mn av r = Inr r'"
  shows "settled r r' \<and> r_meetingNotes r' = mn \<and> r_agentVoice r' = av"
  using assms by (auto simp: settle_departure_def and_then_Inr updateCollaborationActivity_def settled_def
      seat_def pending_def dest!: settled_collected)

lemma settled_pending: "settled r r' \<Longrightarrow> pending r s x \<Longrightarrow> pending r' s x"
  by (simp add: settled_def)

lemma pending_remove [simp]: "pending (remove_participant i r) s x = pending r s x"
  by (simp add: pending_def remove_participant_def)

lemma pending_append [simp]: "pending (fst (appendMessage fits m r)) s x = pending r s x"
  by (simp add: pending_def appendMessage_def Let_def trimRoomMessagesToBudget_def)

lemma expire_fold_cleanup: "r_pendingMediaCleanup (fst (fold (expire_one fits uuid now departed) es s)) =
    r_pendingMediaCleanup (fst s)"
proof (induction es arbitrary: s)
  case (Cons e es)
  have "r_pendingMediaCleanup (fst (expire_one fits uuid now departed e s)) = r_pendingMediaCleanup (fst s)"
    by (cases e; cases s)
      (simp add: expire_one_def Let_def appendMessage_def trimRoomMessagesToBudget_def)
  with Cons show ?case by simp
qed simp

lemma pending_expire [simp]: "pending (fst (expirePermissionRequests fits uuid now departed r)) s x = pending r s x"
  by (simp add: pending_def expirePermissionRequests_def expire_fold_cleanup)

lemma expire_participants [simp]:
  "r_participants (fst (expirePermissionRequests fits uuid now departed r)) = r_participants r"
  unfolding expirePermissionRequests_def
  by (rule fold_invariant [where P = "\<lambda>s. r_participants (fst s) = r_participants r" and Q = "\<lambda>_. True"]) simp_all

subsection \<open>No media of an Agent outlives it\<close>

lemma staged_media:
  assumes "dget (r_participants r) i = Some p" and "p_kind p = Agent" and "p_media p = Some m"
  shows "\<exists>m'. dget (r_participants (stage_in_room i d r)) i = Some (p\<lparr>p_media := Some m'\<rparr>) \<and>
      m_sessionId m' = m_sessionId m \<and> live_in m' = (if d = Published then live_in m else {}) \<and>
      (\<forall>x \<in> set (staged_mids d m). pending (stage_in_room i d r) (m_sessionId m) x)"
proof -
  let ?s = "stageAgentMediaRevocation (Some p) (r_pendingMediaCleanup r) d"
  obtain m' where m': "fst ?s = Some (p\<lparr>p_media := Some m'\<rparr>)" "m_sessionId m' = m_sessionId m"
      "live_in m' = (if d = Published then live_in m else {})"
    using stage_media [OF assms(2,3)] by blast
  have q: "\<forall>x \<in> set (staged_mids d m). queued (snd ?s) (m_sessionId m) x"
    using stage_queue [OF assms(2,3)] by simp
  obtain q' where "?s = (Some (p\<lparr>p_media := Some m'\<rparr>), q')" using m'(1) by (cases ?s) simp
  with q m' assms(1) show ?thesis
    by (intro exI [of _ m']) (simp add: stage_in_room_def pending_def)
qed

lemma departing_media_staged:
  assumes "dget (r_participants r) (p_id p) = Some p" and "p_kind p = Agent" and "p_media p = Some m"
    and "stageMediaGrantRevocations media [\<lparr>rv_participantId = p_id p, rv_direction = Both\<rparr>] r = Inr r'"
    and "x \<in> live_in m \<union> live_out m"
  shows "pending (stage_producer p r') (m_sessionId m) x"
proof -
  obtain authorized where auth: "isAgentAuthorizedForLiveTranscriptMedia media r p = Inr authorized"
    and r': "r' = stage_in_room (p_id p) (if authorized then Published else Both) r"
    using assms(1,4) by (auto simp: stageMediaGrantRevocations_def stage_revocation_def and_then_Inr)
  obtain m' where m': "dget (r_participants r') (p_id p) = Some (p\<lparr>p_media := Some m'\<rparr>)"
      "m_sessionId m' = m_sessionId m" "live_in m' = (if authorized then live_in m else {})"
      "\<forall>x \<in> set (staged_mids (if authorized then Published else Both) m). pending r' (m_sessionId m) x"
    using staged_media [OF assms(1-3), of "if authorized then Published else Both", folded r']
    by (cases authorized) auto
  show ?thesis
  proof (cases "authorized \<and> x \<in> live_in m")
    case True
    then obtain producer e t where producer: "lv_state (r_transcript r) = LT_active producer e t"
        "p_runtimeHostId p = Some producer"
      using auth by (auto simp: isAgentAuthorizedForLiveTranscriptMedia_def canAgentAppendLiveTranscript_def
          split: live_transcript.splits if_splits)
    have "r_transcript r' = r_transcript r"
      using staged_in_room rest_fields unfolding r' staged_def by blast
    with producer have p: "stage_producer p r' = stage_in_room (p_id p) Subscribed r'"
      by (simp add: stage_producer_def)
    from staged_media [OF m'(1), of m' Subscribed] assms(2) m'(2,3) True set_staged_mids [of Subscribed m']
    show ?thesis by (auto simp: p)
  next
    case False
    with assms(5) m'(4) set_staged_mids [of "if authorized then Published else Both" m]
    have "pending r' (m_sessionId m) x" by (auto split: if_splits)
    with staged_producer [of r' p] show ?thesis by (simp add: staged_def)
  qed
qed

lemma seat_remove [simp]: "seat (remove_participant i r) j = (if j = i then None else seat r j)"
  by (simp add: seat_def remove_participant_def)

lemma seat_expire [simp]: "seat (fst (expirePermissionRequests fits uuid now departed r)) j = seat r j"
  by (simp add: seat_def)

lemma seat_None: "seat r i = None \<longleftrightarrow> dget (r_participants r) i = None"
  by (simp add: seat_def)

lemma seat_empty_expiry [simp]: "seat (applyEmptyRoomExpiry now r) j = seat r j"
  "pending (applyEmptyRoomExpiry now r) s x = pending r s x"
  "r_permissionRequests (applyEmptyRoomExpiry now r) = r_permissionRequests r"
  "r_meetingNotes (applyEmptyRoomExpiry now r) = r_meetingNotes r"
  "r_agentVoice (applyEmptyRoomExpiry now r) = r_agentVoice r"
  by (simp_all add: seat_def pending_def applyEmptyRoomExpiry_def)

lemma agent_leaveD:
  assumes "agent_leave fits uuid media now p r = Inr r'" and "p_kind p = Agent"
  shows "\<exists>r1 r3. stageMediaGrantRevocations media [\<lparr>rv_participantId = p_id p, rv_direction = Both\<rparr>] r = Inr r1 \<and>
    settle_departure media now (clearGrantIfParticipantDeparting (r_meetingNotes r) (p_id p))
      (if voice_truthy (r_agentVoice r) (p_id p) then ddel (p_id p) (r_agentVoice r) else r_agentVoice r)
      (remove_participant (p_id p) (fst (expirePermissionRequests fits uuid now (Some (p_id p))
        (stage_producer p r1)))) = Inr r3 \<and> r' = applyEmptyRoomExpiry now r3"
  using assms by (simp add: agent_leave_def transitionMediaGrantsForParticipantDeparture_def and_then_Inr
      eq_commute [of r'] split del: if_split)

lemma staged_seats: "staged r r' \<Longrightarrow> seat r' j = seat r j"
  by (simp add: staged_def)

lemma cleared_grants: "\<not> isAgentAuthorizedForSharedMedia (clearGrantIfParticipantDeparting mn i)
    (if voice_truthy av i then ddel i av else av) i False"
  using voice_truthy_if [of av i]
  by (auto simp: isAgentAuthorizedForSharedMedia_def isAgentAuthorizedForMedia_def
      clearGrantIfParticipantDeparting_def NO_MEETING_NOTES_def)

text \<open>
  C16: an Agent that leaves takes everything with it: its seat, its Meeting Notes and voice
  grants and its pending permission requests are gone, everyone else keeps their seat, and
  every media id it was sending or receiving is queued to be closed at the provider.
\<close>

theorem agent_leaves_nothing:
  assumes "agent_leave fits uuid media now p r = Inr r'"
    and "dget (r_participants r) (p_id p) = Some p" and "p_kind p = Agent"
    and "wf_dict (r_permissionRequests r)"
  shows "dget (r_participants r') (p_id p) = None \<and> (\<forall>j. j \<noteq> p_id p \<longrightarrow> seat r' j = seat r j) \<and>
    \<not> isAgentAuthorizedForSharedMedia (r_meetingNotes r') (r_agentVoice r') (p_id p) False \<and>
    (\<forall>(i, rec) \<in> set (r_permissionRequests r'). pp_agent rec \<noteq> p_id p) \<and>
    (\<forall>m x. p_media p = Some m \<longrightarrow> x \<in> live_in m \<union> live_out m \<longrightarrow> pending r' (m_sessionId m) x)"
proof -
  obtain r1 r3 where r1: "stageMediaGrantRevocations media [\<lparr>rv_participantId = p_id p, rv_direction = Both\<rparr>] r = Inr r1"
    and r3: "settle_departure media now (clearGrantIfParticipantDeparting (r_meetingNotes r) (p_id p))
      (if voice_truthy (r_agentVoice r) (p_id p) then ddel (p_id p) (r_agentVoice r) else r_agentVoice r)
      (remove_participant (p_id p) (fst (expirePermissionRequests fits uuid now (Some (p_id p))
        (stage_producer p r1)))) = Inr r3"
    and r': "r' = applyEmptyRoomExpiry now r3"
    using agent_leaveD [OF assms(1,3)] by blast
  let ?r2 = "stage_producer p r1"
  have staged: "staged r ?r2" using staged_revocations [OF r1] staged_producer by (rule staged_trans)
  note s = settled_departure [OF r3]
  have seats: "seat r3 j = (if j = p_id p then None else seat r j)" for j
    using s staged by (simp add: settled_def staged_def)
  then have gone: "dget (r_participants r') (p_id p) = None"
    using seat_None [of r' "p_id p"] by (simp add: r')
  have requests: "r_permissionRequests r3 = filter (\<lambda>e. \<not> should_expire ?r2 now (Some (p_id p)) (snd e)) (r_permissionRequests r)"
    using s expire_pending [of ?r2 fits uuid now "Some (p_id p)"] staged rest_fields [of ?r2 r] assms(4)
    by (simp add: settled_def staged_def remove_participant_def)
  have "pending r3 (m_sessionId m) x" if "p_media p = Some m" "x \<in> live_in m \<union> live_out m" for m x
    using departing_media_staged [OF assms(2,3) that(1) r1 that(2)] s by (simp add: settled_def)
  with gone requests seats s cleared_grants show ?thesis
    by (auto simp: r' should_expire_def)
qed

subsection \<open>The sweep\<close>

definition lapsed :: "int \<Rightarrow> participant \<Rightarrow> bool" where
  "lapsed now p \<longleftrightarrow> expired_human now p \<or> expired_agent now p"

lemma fold_min: "fold min xs (x :: int) \<le> x \<and> (\<forall>y \<in> set xs. fold min xs x \<le> y)"
proof (induction xs arbitrary: x)
  case (Cons a xs)
  show ?case using Cons.IH [of "min a x"] by auto
qed simp

text \<open>
  C17: the alarm comes in time: the moment it is set to is no later than the Room's expiry, any
  pending permission request's deadline, any Agent's lease and any disconnected Human's grace,
  and a queue that is not empty is retried within thirty seconds.
\<close>

theorem alarm_in_time:
  "scheduleNextAlarm now r \<le> r_expiresAt r \<and>
   (\<forall>(i, rec) \<in> set (r_permissionRequests r). scheduleNextAlarm now r \<le> pq_expiresAt (pp_event rec)) \<and>
   (\<forall>p \<in> set (room_people r). lapsed t p \<longrightarrow> scheduleNextAlarm now r \<le> t) \<and>
   (r_pendingMediaCleanup r \<noteq> [] \<longrightarrow> scheduleNextAlarm now r \<le> now + MEDIA_CLEANUP_RETRY_MS)"
proof -
  have d: "scheduleNextAlarm now r \<le> y" if "y \<in> set (alarm_deadlines now r)" for y
    using fold_min [of "alarm_deadlines now r" "r_expiresAt r"] that by (simp add: scheduleNextAlarm_def)
  have "scheduleNextAlarm now r \<le> t" if p: "p \<in> set (room_people r)" "lapsed t p" for p
  proof (cases "p_kind p")
    case Human
    with p have "p_lastSeenAt p + RECONNECT_GRACE_MS \<in> set (alarm_deadlines now r)"
      by (auto simp: alarm_deadlines_def lapsed_def expired_human_def expired_agent_def)
    from d [OF this] p Human show ?thesis by (simp add: lapsed_def expired_human_def expired_agent_def)
  next
    case Agent
    with p have "p_lastSeenAt p + AGENT_LEASE_MS \<in> set (alarm_deadlines now r)"
      by (auto simp: alarm_deadlines_def)
    from d [OF this] p Agent show ?thesis by (simp add: lapsed_def expired_human_def expired_agent_def)
  qed
  moreover have "scheduleNextAlarm now r \<le> r_expiresAt r" by (rule d) (simp add: alarm_deadlines_def)
  moreover have "\<forall>(i, rec) \<in> set (r_permissionRequests r). scheduleNextAlarm now r \<le> pq_expiresAt (pp_event rec)"
  proof clarify
    fix i rec assume "(i, rec) \<in> set (r_permissionRequests r)"
    then have "pq_expiresAt (pp_event rec) \<in> set (alarm_deadlines now r)"
      by (auto simp: alarm_deadlines_def intro!: rev_image_eqI)
    then show "scheduleNextAlarm now r \<le> pq_expiresAt (pp_event rec)" by (rule d)
  qed
  moreover have "r_pendingMediaCleanup r \<noteq> [] \<longrightarrow> scheduleNextAlarm now r \<le> now + MEDIA_CLEANUP_RETRY_MS"
    using d by (simp add: alarm_deadlines_def)
  ultimately show ?thesis by blast
qed

lemma sweep_one_seat:
  assumes "sweep_one fits uuid media now (i, p) (r, c) = Inr (r', c')"
  shows "seat r' j = (if j = i \<and> lapsed now p then None else seat r j) \<and>
    (\<forall>s x. pending r s x \<longrightarrow> pending r' s x)"
proof (cases "lapsed now p")
  case True
  obtain mn av vs where t: "transitionMediaGrantsForParticipantDeparture (r_meetingNotes r) (r_agentVoice r) p = (mn, av, vs)"
    by (metis prod_cases3)
  have not_both: "\<not> (expired_human now p \<and> expired_agent now p)"
    by (simp add: expired_human_def expired_agent_def)
  obtain r1 where r1: "stageMediaGrantRevocations media vs r = Inr r1"
    and r': "settle_departure media now mn av (remove_participant i
      (if expired_agent now p then stage_producer p r1 else r1)) = Inr r'"
    using assms True t not_both by (auto simp: sweep_one_def lapsed_def and_then_Inr Let_def split: if_splits)
  have "staged r (if expired_agent now p then stage_producer p r1 else r1)"
    using staged_revocations [OF r1] staged_producer [of r1 p] by (auto intro: staged_trans)
  with settled_departure [OF r'] True show ?thesis by (auto simp: settled_def staged_def)
next
  case False
  then show ?thesis using assms by (simp add: sweep_one_def lapsed_def)
qed

lemma sweep_seat:
  "fold_result (sweep_one fits uuid media now) es (r, c) = Inr (r', c') \<Longrightarrow> distinct (map fst es) \<Longrightarrow>
   seat r' j = (if \<exists>p. (j, p) \<in> set es \<and> lapsed now p then None else seat r j) \<and>
   (\<forall>s x. pending r s x \<longrightarrow> pending r' s x)"
proof (induction es arbitrary: r c)
  case (Cons e es)
  obtain i p where e: "e = (i, p)" by (cases e)
  obtain r1 c1 where 1: "sweep_one fits uuid media now (i, p) (r, c) = Inr (r1, c1)"
    and 2: "fold_result (sweep_one fits uuid media now) es (r1, c1) = Inr (r', c')"
    using Cons.prems(1) by (auto simp: e and_then_Inr)
  from Cons.IH [OF 2] Cons.prems(2) sweep_one_seat [OF 1, of j] show ?case
    by (auto simp: e)
qed simp

text \<open>
  The sweep is exact: a participant loses its seat if and only if its grace or lease has
  lapsed, the others keep theirs, and no id leaves the cleanup queue.
\<close>

theorem sweep_exact:
  assumes "alarm_sweep fits uuid media now r = Inr (AL_swept r' changed)" and "wf_dict (r_participants r)"
  shows "seat r' j = (case dget (r_participants r) j of
      Some p \<Rightarrow> if lapsed now p then None else seat r j | None \<Rightarrow> None) \<and>
    (\<forall>s x. pending r s x \<longrightarrow> pending r' s x)"
proof -
  obtain r1 where f: "fold_result (sweep_one fits uuid media now) (r_participants r)
      (expirePermissionRequests fits uuid now None r) = Inr (r1, changed)"
    and r': "r' = (if changed then applyEmptyRoomExpiry now r1 else r1)"
    using assms(1) by (auto simp: alarm_sweep_def and_then_Inr split: if_split_asm)
  obtain r0 c0 where 0: "expirePermissionRequests fits uuid now None r = (r0, c0)" by (metis prod.collapse)
  have s0: "seat r0 j = seat r j" "\<forall>s x. pending r s x \<longrightarrow> pending r0 s x"
    using seat_expire [of fits uuid now None r j] pending_expire [of fits uuid now None r] by (auto simp: 0)
  have k: "(j, p) \<in> set (r_participants r) \<longleftrightarrow> dget (r_participants r) j = Some p" for p
    using assms(2) by (simp add: wf_dict_def)
  have d: "distinct (map fst (r_participants r))" using assms(2) by (simp add: wf_dict_def)
  have s1: "seat r1 j = (if \<exists>p. dget (r_participants r) j = Some p \<and> lapsed now p then None else seat r j)"
    "\<forall>s x. pending r s x \<longrightarrow> pending r1 s x"
    using sweep_seat [OF f [unfolded 0] d, of j] s0 by (simp_all only: k) blast
  have "seat r' j = seat r1 j" "pending r' = pending r1" by (simp_all add: r' fun_eq_iff)
  with s1 show ?thesis by (cases "dget (r_participants r) j") (simp_all add: seat_None)
qed

subsection \<open>Examples\<close>

definition demo_leaving :: participant where
  "demo_leaving = (demo_participant ''bot'' Agent True)\<lparr>p_media := Some demo_media\<rparr>"

definition demo_leaving_room :: room where
  "demo_leaving_room = demo_room\<lparr>r_participants := [(lit ''bot'', demo_leaving)], r_messages := []\<rparr>"

theorem agent_leaves_nothing_witness:
  "(\<exists>r'. agent_leave (\<lambda>_. True) (\<lambda>_. []) True 200 demo_leaving demo_leaving_room = Inr r' \<and>
     pending r' (lit ''s1'') (lit ''m1'') \<and> pending r' (lit ''s1'') (lit ''m3''))"
proof -
  have "\<exists>r'. agent_leave (\<lambda>_. True) (\<lambda>_. []) True 200 demo_leaving demo_leaving_room = Inr r'"
  proof (cases "agent_leave (\<lambda>_. True) (\<lambda>_. []) True 200 demo_leaving demo_leaving_room")
    case (Inl e)
    moreover have "\<not> isl (agent_leave (\<lambda>_. True) (\<lambda>_. []) True 200 demo_leaving demo_leaving_room)" by code_simp
    ultimately show ?thesis by simp
  qed simp
  then obtain r' where r': "agent_leave (\<lambda>_. True) (\<lambda>_. []) True 200 demo_leaving demo_leaving_room = Inr r'" ..
  have 1: "dget (r_participants demo_leaving_room) (p_id demo_leaving) = Some demo_leaving" "p_kind demo_leaving = Agent"
    by (simp_all add: demo_leaving_room_def demo_leaving_def)
  have 2: "wf_dict (r_permissionRequests demo_leaving_room)" by code_simp
  have 3: "p_media demo_leaving = Some demo_media" "m_sessionId demo_media = lit ''s1''"
    "lit ''m1'' \<in> live_in demo_media" "lit ''m3'' \<in> live_out demo_media"
    by (simp_all add: demo_leaving_def demo_media_def live_in_def live_out_def)
  note p = agent_leaves_nothing [OF r' 1 2, THEN conjunct2, THEN conjunct2, THEN conjunct2, THEN conjunct2,
      rule_format, OF 3(1), unfolded 3(2)]
  show ?thesis by (rule exI [of _ r'], intro conjI, rule r') (rule p, simp add: 3)+
qed

theorem alarm_in_time_witness: "scheduleNextAlarm 0 demo_pending_room \<le> 100"
  using alarm_in_time [of 0 demo_pending_room] by (simp add: demo_pending_room_def demo_permission_def)

text \<open>The same Room with the lease of \<open>bot\<close> lapsed and one request still open.\<close>

definition demo_lapsed_room :: room where
  "demo_lapsed_room = demo_room\<lparr>r_messages := [], r_permissionRequests :=
     [(lit ''p2'', demo_permission ''p2'' 300000)]\<rparr>"

theorem sweep_exact_witness:
  "(case alarm_sweep (\<lambda>_. True) (\<lambda>_. []) True 100000 demo_lapsed_room of
     Inr (AL_swept r' _) \<Rightarrow> seat r' (lit ''bot'') = None | _ \<Rightarrow> False)"
proof -
  have "(case alarm_sweep (\<lambda>_. True) (\<lambda>_. []) True 100000 demo_lapsed_room of
     Inr (AL_swept _ _) \<Rightarrow> True | _ \<Rightarrow> False)" by code_simp
  then obtain r' c where s: "alarm_sweep (\<lambda>_. True) (\<lambda>_. []) True 100000 demo_lapsed_room = Inr (AL_swept r' c)"
    by (auto split: sum.splits alarm_outcome.splits)
  have "wf_dict (r_participants demo_lapsed_room)" by code_simp
  from sweep_exact [OF s this, of "lit ''bot''"] s show ?thesis
    by (simp add: demo_lapsed_room_def demo_room_def lapsed_def expired_agent_def AGENT_LEASE_MS_def
        demo_participant_def)
qed

text \<open>
  A permission request whose Agent's lease lapses is lost: the sweep removes the Agent but
  leaves its request pending, so no terminal event is written; the next load of the saved Room
  drops the request, because its Agent is no longer there.
\<close>

theorem lapsed_agent_request_lost:
  "(case alarm_sweep (\<lambda>_. True) (\<lambda>_. []) True 100000 demo_lapsed_room of
     Inr (AL_swept r' _) \<Rightarrow> dget (r_participants r') (lit ''bot'') = None \<and>
       dget (r_permissionRequests r') (lit ''p2'') = Some (demo_permission ''p2'' 300000) \<and>
       \<not> has_terminal r' (lit ''p2'') \<and>
       load_permission_requests (r_participants r') (r_permissionRequests r') = ([], True)
   | _ \<Rightarrow> False)"
  by code_simp

end
