(* ===== verification/Room_App_Routing.thy ===== *)
theory Room_App_Routing
  imports Rate_Limits Room_App_Catalog Room_State
begin

text \<open>
  Room App traffic through the Room (app/src/do/RoomSession.ts): a Human's App that says it is
  open, a Human's unicast to another Human, and an Agent's request to an open App with its
  answer. What a WebSocket knows of its peer survives in its attachment, which is part of the
  state here. Loading the catalog has happened: \<open>cat\<close> is the installed one. A read of an
  inherited name in the roster yields a value without kind or token, which every handler here
  refuses as it refuses an absent one.
\<close>

definition ROOM_APP_MAX_INSTANCES :: nat where "ROOM_APP_MAX_INSTANCES = 2"
definition ROOM_APP_AGENT_MAX_IN_FLIGHT :: nat where "ROOM_APP_AGENT_MAX_IN_FLIGHT = 4"

definition findParticipant :: "room \<Rightarrow> jstr \<Rightarrow> jstr \<Rightarrow> participant option" where
  "findParticipant r i token = (case dget (r_participants r) i of
     Some p \<Rightarrow> if p_token p = token then Some p else None | None \<Rightarrow> None)"

record connection =
  cn_participantId :: jstr
  cn_token :: jstr
  cn_nonce :: jstr
  cn_rateSamples :: "sample list"
  cn_instances :: "jstr list"
  cn_apps :: "host_metadata list"

text \<open>A socket whose attachment is missing or unreadable knows nothing of its peer.\<close>

datatype socket_peer = Human_socket connection | Agent_socket jstr jstr | Unknown_socket

record room_socket =
  so_id :: nat
  so_open :: bool
  so_peer :: socket_peer

subsection \<open>The Apps a Human hosts\<close>

text \<open>\<open>stores\<close> says whether the attachment can be written.\<close>

definition handleRoomAppHostState :: "(jstr \<Rightarrow> url_parts option) \<Rightarrow> app_definition list \<Rightarrow> bool \<Rightarrow> jstr \<Rightarrow> bool \<Rightarrow>
    room option \<Rightarrow> js \<Rightarrow> bool \<Rightarrow> connection \<Rightarrow> connection option" where
  "handleRoomAppHostState url_of cat enabled roomName stores activeRoom instance_id ready c =
     (case (instance_id, activeRoom) of
        (JStr i, Some r) \<Rightarrow>
          (case findParticipant r (cn_participantId c) (cn_token c) of
            None \<Rightarrow> None
          | Some p \<Rightarrow>
             if \<not> APP_INSTANCE_PATTERN i \<or> \<not> enabled \<or> p_kind p \<noteq> Human \<or> p_media p = None \<or> \<not> p_connected p
                \<or> p_connectionNonce p \<noteq> Some (cn_nonce c) then None
             else (let definition = (if ready \<and> isRoomAppInstanceForRoom url_of cat roomName i
                      then find (\<lambda>app. isRoomAppAllowlisted url_of cat app \<and> ad_source app \<noteq> Some Generated \<and>
                        roomAppInstanceId roomName (ad_id app) = i) cat else None);
                    current = take ROOM_APP_MAX_INSTANCES (filter APP_INSTANCE_PATTERN (cn_instances c));
                    next' = (if ready then take ROOM_APP_MAX_INSTANCES (dedupe (current @ [i])) else filter (\<lambda>j. j \<noteq> i) current);
                    known = fold (\<lambda>app. dput (hm_appInstanceId app) app)
                      (filter (\<lambda>app. hm_appInstanceId app \<in> set current) (cn_apps c)) [];
                    known = (case definition of
                      Some d \<Rightarrow> dput i \<lparr>hm_appInstanceId = i, hm_appId = ad_id d, hm_title = ad_label d,
                        hm_source = Curated_host\<rparr> known
                    | None \<Rightarrow> known) in
                if ready \<and> definition = None \<or> \<not> stores then None
                else Some (c\<lparr>cn_instances := next', cn_apps := List.map_filter (dget known) next'\<rparr>)))
      | _ \<Rightarrow> None)"

subsection \<open>Unicast between Humans\<close>

definition present_str :: "jstr option \<Rightarrow> bool" where
  "present_str s = (case s of Some x \<Rightarrow> x \<noteq> [] | None \<Rightarrow> False)"

definition socket_of :: "participant \<Rightarrow> room_socket \<Rightarrow> bool" where
  "socket_of p so = (case so_peer so of
     Human_socket c \<Rightarrow> cn_participantId c = p_id p \<and> cn_token c = p_token p \<and>
       Some (cn_nonce c) = p_connectionNonce p \<and> so_open so
   | _ \<Rightarrow> False)"

definition unicast_js :: "jstr \<Rightarrow> jstr \<Rightarrow> js \<Rightarrow> js" where
  "unicast_js i sender payload = JObj [(lit ''type'', JStr (lit ''room-app-unicast'')),
     (lit ''protocolVersion'', JNum (jint ROOM_APP_PROTOCOL_VERSION)), (lit ''appInstanceId'', JStr i),
     (lit ''sourceParticipantId'', JStr sender), (lit ''payload'', payload)]"

text \<open>
  What happens to a unicast: nothing (the request cannot even be answered), a refusal sent back,
  or a delivery to one socket, after which success is reported. The second component is the
  sender's rate samples. \<open>sends\<close> says whether a socket takes the text.
\<close>

datatype unicast_outcome = UC_ignored | UC_refused unicast_error | UC_delivered nat js

definition deliver_unicast :: "(rat \<Rightarrow> jstr) \<Rightarrow> (nat \<Rightarrow> bool) \<Rightarrow> room \<Rightarrow> room_socket list \<Rightarrow> participant \<Rightarrow> jstr \<Rightarrow> jstr \<Rightarrow> js \<Rightarrow>
    unicast_outcome" where
  "deliver_unicast ntext sends r sockets sender target i payload =
     (case dget (r_participants r) target of
        None \<Rightarrow> UC_refused UE_target_unavailable
      | Some p \<Rightarrow>
          if p_kind p \<noteq> Human \<or> \<not> p_connected p \<or> p_token p = [] \<or> \<not> present_str (p_connectionNonce p)
          then UC_refused UE_target_unavailable
          else (case find (socket_of p) sockets of
            None \<Rightarrow> UC_refused UE_target_unavailable
          | Some so \<Rightarrow> (let delivery = unicast_js i (p_id sender) payload in
              if \<not> fits_payload ntext delivery then UC_refused UE_invalid_request
              else if sends (so_id so) then UC_delivered (so_id so) delivery
              else UC_refused UE_delivery_failed)))"

definition handleRoomAppUnicast :: "(jstr \<Rightarrow> url_parts option) \<Rightarrow> (rat \<Rightarrow> jstr) \<Rightarrow> app_definition list \<Rightarrow> bool \<Rightarrow> jstr \<Rightarrow>
    bool \<Rightarrow> (nat \<Rightarrow> bool) \<Rightarrow> int \<Rightarrow> room \<Rightarrow> room_socket list \<Rightarrow> js \<Rightarrow> connection \<Rightarrow> unicast_outcome \<times> sample list" where
  "handleRoomAppUnicast url_of ntext cat enabled roomName stores sends now r sockets m c =
     (let keep = cn_rateSamples c in
      if \<not> isValidRoomAppRequestId (js_get m ''requestId'') \<or> \<not> isValidRoomAppInstanceId (js_get m ''appInstanceId'')
      then (UC_ignored, keep)
      else if \<not> enabled then (UC_refused UE_app_unavailable, keep)
      else (let i = js_string (js_get m ''appInstanceId'');
          target = js_get m ''targetParticipantId'' in
        case dget (r_participants r) (cn_participantId c) of
          None \<Rightarrow> (UC_refused UE_invalid_request, keep)
        | Some sender \<Rightarrow>
            if p_kind sender \<noteq> Human \<or> \<not> p_connected sender \<or> p_connectionNonce sender \<noteq> Some (cn_nonce c)
            then (UC_refused UE_invalid_request, keep)
            else if \<not> isRoomAppInstanceForRoom url_of cat roomName i then (UC_refused UE_app_unavailable, keep)
            else if \<not> isValidRoomAppParticipantId target \<or> target = JStr (p_id sender)
            then (UC_refused UE_invalid_target, keep)
            else (case validateRoomAppPayload ntext (js_get m ''payload'') of
              None \<Rightarrow> (UC_refused UE_invalid_request, keep)
            | Some (payload, _) \<Rightarrow>
                if \<not> fits_payload ntext m then (UC_refused UE_invalid_request, keep)
                else (case consumeRoomAppUnicastBudget stores (serializedRoomAppBytes ntext m) now keep of
                  (Budget_allowed, samples) \<Rightarrow>
                    (deliver_unicast ntext sends r sockets sender (js_string target) i payload, samples)
                | (Budget_rate_limited, samples) \<Rightarrow> (UC_refused UE_rate_limited, samples)
                | (Budget_delivery_failed, samples) \<Rightarrow> (UC_refused UE_delivery_failed, samples)))))"

subsection \<open>Requests of Agents to open Apps\<close>

record pending_call =
  pa_appInstanceId :: jstr
  pa_agentId :: jstr
  pa_agentNonce :: jstr
  pa_hostId :: jstr
  pa_hostNonce :: jstr

datatype call_result = Call_ok js | Call_error jstr

text \<open>The calls under way, and every result handed back so far.\<close>

record app_calls =
  ac_pending :: "(jstr, pending_call) dict"
  ac_resolved :: "(jstr \<times> call_result) list"

definition finishRoomAppAgentRequest :: "jstr \<Rightarrow> call_result \<Rightarrow> app_calls \<Rightarrow> app_calls" where
  "finishRoomAppAgentRequest requestId result a = (case dget (ac_pending a) requestId of
     None \<Rightarrow> a
   | Some _ \<Rightarrow> a\<lparr>ac_pending := ddel requestId (ac_pending a), ac_resolved := ac_resolved a @ [(requestId, result)]\<rparr>)"

definition fail_matching :: "(pending_call \<Rightarrow> bool) \<Rightarrow> jstr \<Rightarrow> app_calls \<Rightarrow> app_calls" where
  "fail_matching p e a = fold (\<lambda>(requestId, pending). if p pending
       then finishRoomAppAgentRequest requestId (Call_error e) else (\<lambda>a. a)) (ac_pending a) a"

definition failRoomAppAgentRequestsForHost :: "jstr \<Rightarrow> jstr \<Rightarrow> jstr \<Rightarrow> jstr option \<Rightarrow> app_calls \<Rightarrow> app_calls" where
  "failRoomAppAgentRequestsForHost i nonce e appInstanceId = fail_matching (\<lambda>p. pa_hostId p = i \<and> pa_hostNonce p = nonce \<and>
     (appInstanceId = None \<or> Some (pa_appInstanceId p) = appInstanceId)) e"

definition failRoomAppAgentRequestsForAgent :: "jstr \<Rightarrow> jstr \<Rightarrow> jstr \<Rightarrow> app_calls \<Rightarrow> app_calls" where
  "failRoomAppAgentRequestsForAgent i nonce = fail_matching (\<lambda>p. pa_agentId p = i \<and> pa_agentNonce p = nonce)"

definition failAllRoomAppAgentRequests :: "jstr \<Rightarrow> app_calls \<Rightarrow> app_calls" where
  "failAllRoomAppAgentRequests = fail_matching (\<lambda>_. True)"

definition js_truthy :: "js \<Rightarrow> bool" where
  "js_truthy v = (case v of JUndefined \<Rightarrow> False | JNull \<Rightarrow> False | JBool b \<Rightarrow> b
     | JNum n \<Rightarrow> n \<noteq> Fin 0 \<and> n \<noteq> NaN | JStr s \<Rightarrow> s \<noteq> [] | JArr _ \<Rightarrow> True | JObj _ \<Rightarrow> True)"

definition response_js :: "js \<Rightarrow> js" where
  "response_js m = JObj ([(lit ''type'', JStr (lit ''room-app-agent-response'')),
     (lit ''requestId'', js_get m ''requestId''), (lit ''appInstanceId'', js_get m ''appInstanceId''),
     (lit ''ok'', JBool (js_truthy (js_get m ''ok'')))] @
     [if js_truthy (js_get m ''ok'') then (lit ''result'', js_get m ''result'') else (lit ''error'', js_get m ''error'')])"

definition call_result_of :: "(rat \<Rightarrow> jstr) \<Rightarrow> js \<Rightarrow> call_result" where
  "call_result_of ntext m =
     (if \<not> fits_payload ntext (response_js m) then Call_error (lit ''invalid_response'')
      else (case js_get m ''ok'' of
        JBool True \<Rightarrow> if is_record (js_get m ''result'') then Call_ok (js_get m ''result'')
          else Call_error (lit ''invalid_response'')
      | JBool False \<Rightarrow> (case js_get m ''error'' of
          JStr e \<Rightarrow> if length e \<le> 256 then Call_error e else Call_error (lit ''invalid_response'')
        | _ \<Rightarrow> Call_error (lit ''invalid_response''))
      | _ \<Rightarrow> Call_error (lit ''invalid_response'')))"

definition handleRoomAppAgentResponse :: "(rat \<Rightarrow> jstr) \<Rightarrow> connection \<Rightarrow> js \<Rightarrow> app_calls \<Rightarrow> app_calls" where
  "handleRoomAppAgentResponse ntext c m a = (case (js_get m ''requestId'', js_get m ''appInstanceId'') of
     (JStr requestId, JStr i) \<Rightarrow>
       if \<not> APP_REQUEST_PATTERN requestId \<or> \<not> APP_INSTANCE_PATTERN i then a
       else (case dget (ac_pending a) requestId of
         None \<Rightarrow> a
       | Some p \<Rightarrow>
           if pa_appInstanceId p \<noteq> i \<or> pa_hostId p \<noteq> cn_participantId c \<or> pa_hostNonce p \<noteq> cn_nonce c
              \<or> i \<notin> set (cn_instances c) then a
           else finishRoomAppAgentRequest requestId (call_result_of ntext m) a)
   | _ \<Rightarrow> a)"

definition hosts_instance :: "room \<Rightarrow> jstr \<Rightarrow> room_socket \<Rightarrow> bool" where
  "hosts_instance r i so = (case so_peer so of
     Human_socket c \<Rightarrow> so_open so \<and> i \<in> set (cn_instances c) \<and>
       (case dget (r_participants r) (cn_participantId c) of
          Some p \<Rightarrow> p_kind p = Human \<and> p_connected p \<and> p_connectionNonce p = Some (cn_nonce c) | None \<Rightarrow> False)
   | _ \<Rightarrow> False)"

definition host_key :: "room_socket \<Rightarrow> jstr \<times> jstr" where
  "host_key so = (case so_peer so of Human_socket c \<Rightarrow> (cn_participantId c, cn_nonce c) | _ \<Rightarrow> ([], []))"

definition host_le :: "room_socket \<Rightarrow> room_socket \<Rightarrow> bool" where
  "host_le l r \<longleftrightarrow> fst (host_key l) < fst (host_key r) \<or>
     fst (host_key l) = fst (host_key r) \<and> snd (host_key l) \<le> snd (host_key r)"

definition agent_request_js :: "jstr \<Rightarrow> jstr \<Rightarrow> js \<Rightarrow> js" where
  "agent_request_js requestId i payload = JObj [(lit ''type'', JStr (lit ''room-app-agent-request'')),
     (lit ''requestId'', JStr requestId), (lit ''appInstanceId'', JStr i), (lit ''payload'', payload)]"

text \<open>Refused with an HTTP status, or under way to one socket; \<open>Call_sent\<close> names it.\<close>

datatype call_outcome = Call_refused nat jstr | Call_sent nat js

definition handleAgentRoomAppRequest :: "(jstr \<Rightarrow> url_parts option) \<Rightarrow> (rat \<Rightarrow> jstr) \<Rightarrow> app_definition list \<Rightarrow> bool \<Rightarrow> jstr \<Rightarrow>
    (nat \<Rightarrow> bool) \<Rightarrow> jstr \<Rightarrow> room option \<Rightarrow> room_socket list \<Rightarrow> jstr \<Rightarrow> jstr \<Rightarrow> js \<Rightarrow> app_calls \<Rightarrow> call_outcome \<times> app_calls" where
  "handleAgentRoomAppRequest url_of ntext cat enabled roomName sends requestId activeRoom sockets i token body a =
     (case js_get body ''appInstanceId'' of
        JStr inst \<Rightarrow>
          if \<not> enabled then (Call_refused 503 (lit ''app_unavailable''), a)
          else if \<not> APP_INSTANCE_PATTERN inst \<or> \<not> APP_PARTICIPANT_PATTERN i \<or> token = []
          then (Call_refused 400 (lit ''invalid_request''), a)
          else (case (validateRoomAppPayload ntext (js_get body ''payload''), activeRoom) of
            (None, _) \<Rightarrow> (Call_refused 413 (lit ''invalid_request''), a)
          | (_, None) \<Rightarrow> (Call_refused 410 (lit ''room_expired''), failAllRoomAppAgentRequests (lit ''room_expired'') a)
          | (Some (payload, _), Some r) \<Rightarrow>
              (case findParticipant r i token of
                None \<Rightarrow> (Call_refused 401 (lit ''unauthorized''), a)
              | Some agent \<Rightarrow> (let hosts = stable_sort host_le (filter (hosts_instance r inst) sockets);
                    nonce = (case p_connectionNonce agent of Some n \<Rightarrow> n | None \<Rightarrow> []);
                    envelope = agent_request_js requestId inst payload in
                  if p_kind agent \<noteq> Agent \<or> \<not> p_connected agent \<or> \<not> present_str (p_connectionNonce agent)
                  then (Call_refused 401 (lit ''unauthorized''), a)
                  else if \<not> isRoomAppInstanceForRoom url_of cat roomName inst
                  then (Call_refused 404 (lit ''app_unavailable''), a)
                  else if \<not> list_ex (\<lambda>so. so_peer so = Agent_socket (p_id agent) nonce) sockets
                  then (Call_refused 409 (lit ''agent_unavailable''), a)
                  else if hosts = [] then (Call_refused 409 (lit ''host_unavailable''), a)
                  else if ROOM_APP_AGENT_MAX_IN_FLIGHT \<le> length (ac_pending a)
                  then (Call_refused 429 (lit ''too_many_requests''), a)
                  else if \<not> fits_payload ntext envelope then (Call_refused 413 (lit ''invalid_request''), a)
                  else (let host = hd hosts;
                      a = a\<lparr>ac_pending := dput requestId \<lparr>pa_appInstanceId = inst, pa_agentId = p_id agent,
                        pa_agentNonce = nonce, pa_hostId = fst (host_key host), pa_hostNonce = snd (host_key host)\<rparr>
                        (ac_pending a)\<rparr> in
                    if sends (so_id host) then (Call_sent (so_id host) envelope, a)
                    else (Call_refused 502 (lit ''host_unavailable''),
                      finishRoomAppAgentRequest requestId (Call_error (lit ''host_unavailable'')) a)))))
      | _ \<Rightarrow> if \<not> enabled then (Call_refused 503 (lit ''app_unavailable''), a)
          else (Call_refused 400 (lit ''invalid_request''), a))"

subsection \<open>What a unicast delivers\<close>

lemma byte_length_ascii: "c \<le> 0x7f \<Longrightarrow> byte_length (c # cs) = Suc (byte_length cs)"
proof -
  assume c: "c \<le> 0x7f"
  then have "\<not> is_high_surrogate c" "length (utf8_of (scalar_of c)) = 1"
    by (auto simp: is_high_surrogate_def is_low_surrogate_def scalar_of_def length_utf8_of word_le_nat_alt)
  then show ?thesis by (cases cs) (simp_all add: code_points_byte_length byte_length_one)
qed

text \<open>Without its first member the text of an object is no longer.\<close>

lemma json_bytes_drop_first:
  assumes "v \<noteq> JUndefined" and "w \<noteq> JUndefined"
  shows "json_bytes ntext (JObj ((k, w) # ps)) \<le> json_bytes ntext (JObj ((j, v) # (k, w) # ps))"
proof -
  obtain rest where rest: "json_text ntext (JObj ((k, w) # ps)) = 0x7b # rest"
    and two: "\<exists>xs. json_text ntext (JObj ((j, v) # (k, w) # ps)) = 0x7b # xs @ rest"
    using assms by (auto simp: json_join_def)
  from two obtain xs where "json_text ntext (JObj ((j, v) # (k, w) # ps)) = 0x7b # xs @ rest" by blast
  then show ?thesis using byte_length_suffix [of rest xs] rest by (simp only: json_bytes_def byte_length_ascii) (simp add: byte_length_ascii)
qed

lemma unicast_fields [simp]: "is_record (unicast_js i s v)" "js_get (unicast_js i s v) ''type'' = JStr (lit ''room-app-unicast'')"
  "js_get (unicast_js i s v) ''protocolVersion'' = JNum (jint ROOM_APP_PROTOCOL_VERSION)"
  "js_get (unicast_js i s v) ''appInstanceId'' = JStr i" "js_get (unicast_js i s v) ''sourceParticipantId'' = JStr s"
  "js_get (unicast_js i s v) ''payload'' = v"
  by (simp_all add: unicast_js_def is_record_def js_get_def)

lemma unicast_fits: "fits_payload ntext (unicast_js i s v) \<Longrightarrow>
    fits_payload ntext (unicast_envelope_js \<lparr>ue_appInstanceId = i, ue_sourceParticipantId = s, ue_payload = v\<rparr>)"
  using json_bytes_drop_first [of "JStr (lit ''room-app-unicast'')" "JNum (jint ROOM_APP_PROTOCOL_VERSION)" ntext
      "lit ''protocolVersion''" "[(lit ''appInstanceId'', JStr i), (lit ''sourceParticipantId'', JStr s), (lit ''payload'', v)]"
      "lit ''type''"]
  by (simp add: fits_payload_def serializedRoomAppBytes_def unicast_js_def unicast_envelope_js_def del: json_text.simps)

text \<open>The recipient is a connected Human other than the sender, and the socket is its current one.\<close>

definition current_socket :: "room \<Rightarrow> room_socket list \<Rightarrow> jstr \<Rightarrow> nat \<Rightarrow> bool" where
  "current_socket r sockets i so = list_ex (\<lambda>s. so_id s = so \<and> so_open s \<and> (case so_peer s of
     Human_socket c \<Rightarrow> (case dget (r_participants r) i of
       Some p \<Rightarrow> p_kind p = Human \<and> p_connected p \<and> p_connectionNonce p = Some (cn_nonce c) \<and>
         cn_participantId c = p_id p \<and> cn_token c = p_token p
     | None \<Rightarrow> False)
   | _ \<Rightarrow> False)) sockets"

lemma deliver_unicast_delivered:
  "deliver_unicast ntext sends r sockets sender target i payload = UC_delivered so v \<Longrightarrow>
    v = unicast_js i (p_id sender) payload \<and> fits_payload ntext v \<and> current_socket r sockets target so"
  by (auto simp: deliver_unicast_def Let_def current_socket_def socket_of_def list_ex_iff find_Some_iff
      split: option.splits if_splits socket_peer.splits intro!: bexI [OF _ nth_mem])

lemma handleRoomAppUnicast_delivered:
  assumes "handleRoomAppUnicast url_of ntext cat enabled roomName stores sends now r sockets m c = (UC_delivered so v, samples)"
  obtains sender i target payload where
    "dget (r_participants r) (cn_participantId c) = Some sender" "p_kind sender = Human" "p_connected sender"
    "p_connectionNonce sender = Some (cn_nonce c)" "target \<noteq> p_id sender"
    "js_get m ''appInstanceId'' = JStr i" "js_get m ''targetParticipantId'' = JStr target"
    "isRoomAppInstanceForRoom url_of cat roomName i" "js_get m ''payload'' = payload"
    "validateRoomAppPayload ntext payload \<noteq> None"
    "deliver_unicast ntext sends r sockets sender target i payload = UC_delivered so v"
    "consumeRoomAppUnicastBudget stores (serializedRoomAppBytes ntext m) now (cn_rateSamples c) = (Budget_allowed, samples)"
proof -
  let ?i = "js_string (js_get m ''appInstanceId'')" and ?t = "js_string (js_get m ''targetParticipantId'')"
  let ?p = "js_get m ''payload''"
  from assms obtain sender where s: "dget (r_participants r) (cn_participantId c) = Some sender"
    by (auto simp: handleRoomAppUnicast_def Let_def split: if_splits option.splits)
  with assms have h: "isValidRoomAppInstanceId (js_get m ''appInstanceId'')"
    "p_kind sender = Human" "p_connected sender" "p_connectionNonce sender = Some (cn_nonce c)"
    "isRoomAppInstanceForRoom url_of cat roomName ?i" "isValidRoomAppParticipantId (js_get m ''targetParticipantId'')"
    "js_get m ''targetParticipantId'' \<noteq> JStr (p_id sender)"
    by (auto simp: handleRoomAppUnicast_def Let_def split: if_splits)
  from assms s obtain n where v: "validateRoomAppPayload ntext ?p = Some (?p, n)"
    by (auto simp: handleRoomAppUnicast_def Let_def payload_some split: if_splits option.splits)
  from assms s h v have d: "deliver_unicast ntext sends r sockets sender ?t ?i ?p = UC_delivered so v \<and>
      consumeRoomAppUnicastBudget stores (serializedRoomAppBytes ntext m) now (cn_rateSamples c) = (Budget_allowed, samples)"
    by (auto simp: handleRoomAppUnicast_def Let_def split: if_splits prod.splits budget_outcome.splits)
  from h have "js_get m ''appInstanceId'' = JStr ?i" "js_get m ''targetParticipantId'' = JStr ?t"
    by (auto simp: isValidRoomAppInstanceId_def isValidRoomAppParticipantId_def js_string_def split: js.splits)
  with s h v d that show thesis by (metis option.distinct(1))
qed

text \<open>
  A unicast the Room delivers goes to the current socket of one other connected Human, the
  one it names; and what that Human's page decodes from the wire is exactly the payload and the
  App instance the sender asked for, with the sender's true id: no App can name another source.
\<close>

theorem unicast_source_true:
  assumes "handleRoomAppUnicast url_of ntext cat enabled roomName stores sends now r sockets m c = (UC_delivered so v, samples)"
    and "plain_js (js_get m ''payload'')" and "rounds rn"
    and "wf_participants (r_participants r)" and "APP_PARTICIPANT_PATTERN (cn_participantId c)"
  shows "map_option (\<lambda>w. decodeRoomAppUnicastEnvelope url_of ntext cat w roomName) (json_parse rn (json_text ntext v)) =
      Some (Some \<lparr>ue_appInstanceId = js_string (js_get m ''appInstanceId''), ue_sourceParticipantId = cn_participantId c,
        ue_payload = js_get m ''payload''\<rparr>) \<and>
    current_socket r sockets (js_string (js_get m ''targetParticipantId'')) so \<and>
    js_get m ''targetParticipantId'' \<noteq> JStr (cn_participantId c) \<and>
    (case dget (r_participants r) (cn_participantId c) of
       Some p \<Rightarrow> p_kind p = Human \<and> p_connected p \<and> p_connectionNonce p = Some (cn_nonce c) | None \<Rightarrow> False)"
proof -
  from assms(1) obtain sender i target payload where s: "dget (r_participants r) (cn_participantId c) = Some sender"
    and live: "p_kind sender = Human" "p_connected sender" "p_connectionNonce sender = Some (cn_nonce c)"
    and other: "target \<noteq> p_id sender" and i: "js_get m ''appInstanceId'' = JStr i"
    and t: "js_get m ''targetParticipantId'' = JStr target" and inst: "isRoomAppInstanceForRoom url_of cat roomName i"
    and p: "js_get m ''payload'' = payload" "validateRoomAppPayload ntext payload \<noteq> None"
    and d: "deliver_unicast ntext sends r sockets sender target i payload = UC_delivered so v"
    by (rule handleRoomAppUnicast_delivered)
  from s assms(4) have id: "p_id sender = cn_participantId c"
    by (auto simp: wf_participants_def dest!: dget_in_set)
  from deliver_unicast_delivered [OF d] have v: "v = unicast_js i (cn_participantId c) payload"
    and fits: "fits_payload ntext v" and cur: "current_socket r sockets target so" unfolding id by blast+
  have "plain_js v" using assms(2) by (simp add: v unicast_js_def wf_dict_def ROOM_APP_PROTOCOL_VERSION_def p)
  then have parse: "json_parse rn (json_text ntext v) = Some v" by (rule json_round_trip [OF assms(3)])
  obtain n where "validateRoomAppPayload ntext payload = Some (payload, n)" using p(2) payload_some by fastforce
  with unicast_fits [OF fits [unfolded v]] inst assms(5)
  have "decodeRoomAppUnicastEnvelope url_of ntext cat v roomName = Some \<lparr>ue_appInstanceId = i,
      ue_sourceParticipantId = cn_participantId c, ue_payload = payload\<rparr>"
    by (simp add: decodeRoomAppUnicastEnvelope_def v Let_def)
  with parse cur other i t p id s live show ?thesis by (simp add: js_string_def)
qed


definition demo_human :: "string \<Rightarrow> participant" where
  "demo_human i = (demo_participant i Human True)\<lparr>p_connectionNonce := Some (lit ''n'')\<rparr>"

definition demo_socket :: "nat \<Rightarrow> string \<Rightarrow> jstr list \<Rightarrow> room_socket" where
  "demo_socket n i insts = \<lparr>so_id = n, so_open = True, so_peer = Human_socket \<lparr>cn_participantId = lit i, cn_token = lit ''t'',
     cn_nonce = lit ''n'', cn_rateSamples = [], cn_instances = insts, cn_apps = []\<rparr>\<rparr>"

definition demo_pair :: room where
  "demo_pair = demo_room\<lparr>r_participants := [(lit ''ana'', demo_human ''ana''), (lit ''ben'', demo_human ''ben'')]\<rparr>"

definition demo_unicast :: js where
  "demo_unicast = JObj [(lit ''type'', JStr (lit ''room-app-unicast'')), (lit ''requestId'', JStr (lit ''q1'')),
     (lit ''targetParticipantId'', JStr (lit ''ben'')),
     (lit ''appInstanceId'', JStr (lit ''poker:9f488ab0'')),
     (lit ''payload'', JObj [(lit ''bet'', JNum (jint 5))])]"

definition demo_connection :: "string \<Rightarrow> jstr list \<Rightarrow> connection" where
  "demo_connection i insts = \<lparr>cn_participantId = lit i, cn_token = lit ''t'', cn_nonce = lit ''n'', cn_rateSamples = [],
     cn_instances = insts, cn_apps = []\<rparr>"

definition demo_sockets :: "room_socket list" where
  "demo_sockets = [\<lparr>so_id = 4, so_open = True, so_peer = Human_socket (demo_connection ''ana'' [])\<rparr>,
     \<lparr>so_id = 7, so_open = True, so_peer = Human_socket (demo_connection ''ben'' [])\<rparr>]"

definition demo_delivery :: "unicast_outcome \<times> sample list" where
  "demo_delivery = handleRoomAppUnicast demo_url (\<lambda>_. []) [demo_app] True (lit ''lobby'') True (\<lambda>_. True) 1000 demo_pair
     demo_sockets demo_unicast (demo_connection ''ana'' [])"

lemma demo_instance: "roomAppInstanceId (lit ''lobby'') (lit ''poker'') = lit ''poker:9f488ab0''"
proof -
  have "fnv_hash (lit ''lobby:poker'') = 0x9f488ab0" by (simp add: fnv_hash_def fnv_step_def lit_def)
  moreover have "lit ''lobby'' @ 0x3a # lit ''poker'' = lit ''lobby:poker''" by (simp add: lit_def)
  ultimately show ?thesis
    by (simp add: roomAppInstanceId_def hex_text.simps hex_digit_def pad_start_def lit_def)
qed

lemma demo_instance_open: "isRoomAppInstanceForRoom demo_url [demo_app] (lit ''lobby'')
    (js_string (js_get demo_unicast ''appInstanceId'')) = True"
  using instance_for_room [OF demo_url_plain parse_catalog_sound [OF demo_catalog_parsed], of "lit ''lobby''"]
  by (simp add: demo_unicast_def js_get_def js_string_def demo_app_def demo_instance)

lemma demo_bytes: "serializedRoomAppBytes (\<lambda>_. []) demo_unicast = 125"
  "serializedRoomAppBytes (\<lambda>_. []) (js_get demo_unicast ''payload'') = 9"
  "serializedRoomAppBytes (\<lambda>_. []) (unicast_js (lit ''poker:9f488ab0'') (lit ''ana'') (js_get demo_unicast ''payload'')) = 128"
  by (simp_all add: demo_unicast_def unicast_js_def js_get_def serializedRoomAppBytes_def ROOM_APP_PROTOCOL_VERSION_def quiet_bytes)

lemma demo_fields: "isValidRoomAppRequestId (js_get demo_unicast ''requestId'')"
  "isValidRoomAppInstanceId (js_get demo_unicast ''appInstanceId'')"
  "isValidRoomAppParticipantId (js_get demo_unicast ''targetParticipantId'')"
  "js_get demo_unicast ''targetParticipantId'' = JStr (lit ''ben'')"
  "js_get demo_unicast ''appInstanceId'' = JStr (lit ''poker:9f488ab0'')"
  "is_record (js_get demo_unicast ''payload'')" "lit ''sourceParticipantId'' \<notin> set (js_keys (js_get demo_unicast ''payload''))"
  "plain_js (js_get demo_unicast ''payload'')" "APP_PARTICIPANT_PATTERN (lit ''ana'')"
  "isValidRoomAppInstanceId (JStr (lit ''poker:9f488ab0''))" "isValidRoomAppParticipantId (JStr (lit ''ben''))"
  by code_simp+

lemma demo_delivered: "demo_delivery =
    (UC_delivered 7 (unicast_js (lit ''poker:9f488ab0'') (lit ''ana'') (js_get demo_unicast ''payload'')), [(1000, 125)])"
proof -
  have budget: "consumeRoomAppUnicastBudget True 125 1000 [] = (Budget_allowed, [(1000, 125)])"
    by (simp add: consumeRoomAppUnicastBudget_def slice_last_def rate_bounds total_bytes_def)
  have payload: "validateRoomAppPayload (\<lambda>_. []) (js_get demo_unicast ''payload'') = Some (js_get demo_unicast ''payload'', 9)"
    by (simp add: payload_some demo_bytes demo_fields fits_payload_def ROOM_APP_MAX_PAYLOAD_BYTES_def)
  have "deliver_unicast (\<lambda>_. []) (\<lambda>_. True) demo_pair demo_sockets (demo_human ''ana'') (lit ''ben'')
      (lit ''poker:9f488ab0'') (js_get demo_unicast ''payload'') =
    UC_delivered 7 (unicast_js (lit ''poker:9f488ab0'') (lit ''ana'') (js_get demo_unicast ''payload''))"
    by (simp add: deliver_unicast_def demo_pair_def demo_sockets_def demo_human_def demo_connection_def socket_of_def
        demo_participant_def present_str_def fits_payload_def demo_bytes ROOM_APP_MAX_PAYLOAD_BYTES_def)
  with budget payload show ?thesis using demo_instance_open
    by (simp add: demo_delivery_def handleRoomAppUnicast_def demo_fields demo_bytes fits_payload_def js_string_def Let_def
        ROOM_APP_MAX_PAYLOAD_BYTES_def demo_connection_def demo_pair_def demo_human_def)
qed

theorem unicast_source_true_witness:
  "current_socket demo_pair demo_sockets (js_string (js_get demo_unicast ''targetParticipantId'')) 7"
proof -
  have "rounds Fin" by (simp add: rounds_def jint_def)
  moreover have "wf_participants (r_participants demo_pair)"
    by (simp add: demo_pair_def wf_participants_def wf_dict_def demo_human_def)
  moreover have "APP_PARTICIPANT_PATTERN (cn_participantId (demo_connection ''ana'' []))"
    by (simp add: demo_connection_def demo_fields)
  ultimately show ?thesis
    using unicast_source_true [OF demo_delivered [unfolded demo_delivery_def] demo_fields(8)] by blast
qed

subsection \<open>The life of a call\<close>

text \<open>
  What happens to the calls of one Room: an Agent starts one under a fresh id, a socket sends an
  answer, a timer fires, a Host or an Agent disconnects or closes an App, the Room expires.
\<close>

inductive call_step :: "(rat \<Rightarrow> jstr) \<Rightarrow> app_calls \<Rightarrow> app_calls \<Rightarrow> bool" for ntext where
  started: "\<lbrakk>handleAgentRoomAppRequest url_of ntext cat enabled roomName sends requestId activeRoom sockets i token body a = (out, a');
     requestId \<notin> fst ` set (ac_pending a); requestId \<notin> fst ` set (ac_resolved a)\<rbrakk> \<Longrightarrow> call_step ntext a a'"
| answered: "call_step ntext a (handleRoomAppAgentResponse ntext c m a)"
| timed_out: "call_step ntext a (finishRoomAppAgentRequest requestId (Call_error (lit ''timeout'')) a)"
| host_gone: "call_step ntext a (failRoomAppAgentRequestsForHost i nonce e inst a)"
| agent_gone: "call_step ntext a (failRoomAppAgentRequestsForAgent i nonce e a)"
| expired: "call_step ntext a (failAllRoomAppAgentRequests e a)"

definition no_calls :: app_calls where
  "no_calls = \<lparr>ac_pending = [], ac_resolved = []\<rparr>"

definition calls_ok :: "app_calls \<Rightarrow> bool" where
  "calls_ok a \<longleftrightarrow> wf_dict (ac_pending a) \<and> distinct (map fst (ac_resolved a)) \<and>
     fst ` set (ac_pending a) \<inter> fst ` set (ac_resolved a) = {} \<and> length (ac_pending a) \<le> ROOM_APP_AGENT_MAX_IN_FLIGHT"

text \<open>A result that was handed back stays.\<close>

definition extends :: "app_calls \<Rightarrow> app_calls \<Rightarrow> bool" where
  "extends a a' \<longleftrightarrow> prefix (ac_resolved a) (ac_resolved a')"

lemma extends_refl [simp]: "extends a a" by (simp add: extends_def)

lemma extends_trans: "extends a b \<Longrightarrow> extends b c \<Longrightarrow> extends a c"
  unfolding extends_def by (rule prefix_order.trans)

lemma finish_ok: "calls_ok a \<Longrightarrow> calls_ok (finishRoomAppAgentRequest requestId result a) \<and>
    extends a (finishRoomAppAgentRequest requestId result a)"
proof (cases "dget (ac_pending a) requestId")
  case (Some p)
  assume ok: "calls_ok a"
  then have "requestId \<notin> fst ` set (ac_resolved a)"
    using dget_in_set [OF Some] by (force simp: calls_ok_def)
  then show ?thesis using ok Some length_ddel [of requestId "ac_pending a"]
    by (auto simp: finishRoomAppAgentRequest_def calls_ok_def extends_def wf_ddel keys_ddel)
qed (simp add: finishRoomAppAgentRequest_def)

lemma fold_finish_ok: "calls_ok a \<Longrightarrow> calls_ok (fold (\<lambda>(requestId, pending). if p pending
      then finishRoomAppAgentRequest requestId (Call_error e) else (\<lambda>a. a)) ps a) \<and>
    extends a (fold (\<lambda>(requestId, pending). if p pending
      then finishRoomAppAgentRequest requestId (Call_error e) else (\<lambda>a. a)) ps a)"
proof (induction ps arbitrary: a)
  case (Cons x ps)
  obtain requestId pending where x: "x = (requestId, pending)" by force
  show ?case using Cons.IH [of a] Cons.IH [of "finishRoomAppAgentRequest requestId (Call_error e) a"]
      finish_ok [OF Cons.prems, of requestId "Call_error e"] Cons.prems by (auto simp: x intro: extends_trans)
qed simp

lemma fail_matching_ok: "calls_ok a \<Longrightarrow> calls_ok (fail_matching p e a) \<and> extends a (fail_matching p e a)"
  unfolding fail_matching_def by (rule fold_finish_ok)

text \<open>A call that starts is put under way, if the limit allows one more, and may fail at once.\<close>

lemma handleAgentRoomAppRequest_cases:
  assumes "handleAgentRoomAppRequest url_of ntext cat enabled roomName sends requestId activeRoom sockets i token body a = (out, a')"
  shows "a' = a \<or> (\<exists>e. a' = failAllRoomAppAgentRequests e a) \<or>
    (length (ac_pending a) < ROOM_APP_AGENT_MAX_IN_FLIGHT \<and> (\<exists>p e.
      a' = a\<lparr>ac_pending := dput requestId p (ac_pending a)\<rparr> \<or>
      a' = finishRoomAppAgentRequest requestId (Call_error e) (a\<lparr>ac_pending := dput requestId p (ac_pending a)\<rparr>)))"
  using assms unfolding handleAgentRoomAppRequest_def
  by (auto simp: Let_def not_le split: js.splits option.splits prod.splits if_split_asm)

lemma put_call_ok:
  assumes "calls_ok a" and "length (ac_pending a) < ROOM_APP_AGENT_MAX_IN_FLIGHT"
    and "requestId \<notin> fst ` set (ac_pending a)" and "requestId \<notin> fst ` set (ac_resolved a)"
  shows "calls_ok (a\<lparr>ac_pending := dput requestId p (ac_pending a)\<rparr>)"
  using assms by (auto simp: calls_ok_def wf_dput keys_dput length_dput)

lemma call_step_ok: "call_step ntext a a' \<Longrightarrow> calls_ok a \<Longrightarrow> calls_ok a' \<and> extends a a'"
proof (induction rule: call_step.induct)
  case (started url_of cat enabled roomName sends requestId activeRoom sockets i token body a out a')
  from handleAgentRoomAppRequest_cases [OF started(1)]
  consider "a' = a" | e where "a' = failAllRoomAppAgentRequests e a"
    | p e where "length (ac_pending a) < ROOM_APP_AGENT_MAX_IN_FLIGHT"
      "a' = a\<lparr>ac_pending := dput requestId p (ac_pending a)\<rparr> \<or>
       a' = finishRoomAppAgentRequest requestId (Call_error e) (a\<lparr>ac_pending := dput requestId p (ac_pending a)\<rparr>)"
    by blast
  then show ?case
  proof cases
    case (3 p e)
    let ?a = "a\<lparr>ac_pending := dput requestId p (ac_pending a)\<rparr>"
    have ok: "calls_ok ?a" by (rule put_call_ok [OF started(4) 3(1) started(2,3)])
    moreover have "extends a ?a" by (simp add: extends_def)
    ultimately show ?thesis using 3(2) finish_ok [OF ok, of requestId "Call_error e"]
      by (auto intro: extends_trans)
  qed (use started fail_matching_ok in \<open>auto simp: failAllRoomAppAgentRequests_def\<close>)
next
  case (answered a c m)
  then show ?case
    by (auto simp: handleRoomAppAgentResponse_def finish_ok split: js.splits option.splits)
qed (simp_all add: finish_ok fail_matching_ok failRoomAppAgentRequestsForHost_def
    failRoomAppAgentRequestsForAgent_def failAllRoomAppAgentRequests_def)

text \<open>
  C27: however calls, answers, timeouts and disconnections interleave, a call is handed at most one
  result and that result never changes, a call under way has none yet, and at most four are
  under way.
\<close>

theorem call_settled_once:
  assumes "(call_step ntext)\<^sup>*\<^sup>* no_calls a" and "(call_step ntext)\<^sup>*\<^sup>* a a'"
  shows "calls_ok a' \<and> (map_of (ac_resolved a) requestId = Some result \<longrightarrow> map_of (ac_resolved a') requestId = Some result)"
proof -
  have run: "calls_ok b \<and> extends x b" if "(call_step ntext)\<^sup>*\<^sup>* x b" "calls_ok x" for x b
    using that by (induction rule: rtranclp_induct) (auto dest: call_step_ok intro: extends_trans)
  have "calls_ok no_calls" by (simp add: calls_ok_def no_calls_def wf_dict_def ROOM_APP_AGENT_MAX_IN_FLIGHT_def)
  with run [OF assms(1)] have "calls_ok a" by blast
  with run [OF assms(2)] have "calls_ok a'" "extends a a'" by blast+
  then show ?thesis by (auto simp: extends_def prefix_def map_add_Some_iff)
qed

definition demo_calls :: app_calls where
  "demo_calls = \<lparr>ac_pending = [(lit ''c1'', \<lparr>pa_appInstanceId = lit ''poker:1'', pa_agentId = lit ''bot'', pa_agentNonce = lit ''n'',
     pa_hostId = lit ''ana'', pa_hostNonce = lit ''n''\<rparr>)], ac_resolved = []\<rparr>"

theorem call_settled_once_witness:
  "(call_step (\<lambda>_. []))\<^sup>*\<^sup>* no_calls (finishRoomAppAgentRequest (lit ''c1'') (Call_error (lit ''timeout'')) no_calls) \<and>
   calls_ok (failAllRoomAppAgentRequests (lit ''room_expired'')
     (finishRoomAppAgentRequest (lit ''c1'') (Call_error (lit ''timeout'')) no_calls))"
proof -
  let ?a = "finishRoomAppAgentRequest (lit ''c1'') (Call_error (lit ''timeout'')) no_calls"
  have a: "(call_step (\<lambda>_. []))\<^sup>*\<^sup>* no_calls ?a" by (intro r_into_rtranclp call_step.timed_out)
  have b: "(call_step (\<lambda>_. []))\<^sup>*\<^sup>* ?a (failAllRoomAppAgentRequests (lit ''room_expired'') ?a)"
    by (intro r_into_rtranclp call_step.expired)
  from a call_settled_once [OF a b] show ?thesis by blast
qed

lemma resolved_finish: "x \<in> set (ac_resolved (finishRoomAppAgentRequest requestId result a)) \<longleftrightarrow>
    x \<in> set (ac_resolved a) \<or> (x = (requestId, result) \<and> dget (ac_pending a) requestId \<noteq> None)"
  by (auto simp: finishRoomAppAgentRequest_def split: option.splits)

lemma resolved_fold_error: "(requestId, Call_ok v) \<in> set (ac_resolved (fold (\<lambda>(requestId, pending). if p pending
      then finishRoomAppAgentRequest requestId (Call_error e) else (\<lambda>a. a)) ps a)) \<Longrightarrow>
    (requestId, Call_ok v) \<in> set (ac_resolved a)"
proof (induction ps arbitrary: a)
  case (Cons x ps)
  obtain j q where x: "x = (j, q)" by (cases x)
  have "(requestId, Call_ok v) \<in> set (ac_resolved (if p q then finishRoomAppAgentRequest j (Call_error e) a else a))"
    by (rule Cons.IH) (use Cons.prems in \<open>simp add: x split: if_splits\<close>)
  then show ?case by (simp add: resolved_finish split: if_splits)
qed simp

lemma resolved_fail_matching: "(requestId, Call_ok v) \<in> set (ac_resolved (fail_matching p e a)) \<Longrightarrow>
    (requestId, Call_ok v) \<in> set (ac_resolved a)"
  unfolding fail_matching_def by (rule resolved_fold_error)

text \<open>Where a result comes from: the Host connection the call went to, which still has the App open.\<close>

definition answers :: "connection \<Rightarrow> js \<Rightarrow> pending_call \<Rightarrow> bool" where
  "answers c m p \<longleftrightarrow> pa_hostId p = cn_participantId c \<and> pa_hostNonce p = cn_nonce c \<and>
     js_get m ''appInstanceId'' = JStr (pa_appInstanceId p) \<and> pa_appInstanceId p \<in> set (cn_instances c)"

text \<open>
  The only way a call succeeds is an answer on the very connection it was sent to, for the App
  it names and has still open, whose result is a record; no timeout, disconnection, expiry or
  other participant can produce a success.
\<close>

theorem call_answer_authentic:
  assumes "call_step ntext a a'" and "(requestId, Call_ok v) \<in> set (ac_resolved a') - set (ac_resolved a)"
  shows "\<exists>c m p. dget (ac_pending a) requestId = Some p \<and> answers c m p \<and> js_get m ''result'' = v \<and> is_record v \<and>
    fits_payload ntext (response_js m) \<and> a' = handleRoomAppAgentResponse ntext c m a"
  using assms
proof (induction rule: call_step.induct)
  case (started url_of cat enabled roomName sends q activeRoom sockets i token body a out a')
  from handleAgentRoomAppRequest_cases [OF started(1)] started(4) show ?case
    by (auto simp: failAllRoomAppAgentRequests_def resolved_finish dest: resolved_fail_matching)
next
  case (answered a c m)
  then obtain q i p where q: "js_get m ''requestId'' = JStr q" "js_get m ''appInstanceId'' = JStr i"
    and p: "dget (ac_pending a) q = Some p" "pa_appInstanceId p = i" "pa_hostId p = cn_participantId c"
      "pa_hostNonce p = cn_nonce c" "i \<in> set (cn_instances c)"
    and r: "(requestId, Call_ok v) = (q, call_result_of ntext m)"
    by (auto simp: handleRoomAppAgentResponse_def resolved_finish split: js.splits option.splits if_split_asm)
  from r have "js_get m ''result'' = v \<and> is_record v \<and> fits_payload ntext (response_js m)"
    by (auto simp: call_result_of_def split: if_splits js.splits bool.splits)
  with q p r show ?case by (auto simp: answers_def)
qed (auto simp: resolved_finish failRoomAppAgentRequestsForHost_def failRoomAppAgentRequestsForAgent_def
    failAllRoomAppAgentRequests_def dest: resolved_fail_matching)

definition demo_answer :: js where
  "demo_answer = JObj [(lit ''requestId'', JStr (lit ''c1'')), (lit ''appInstanceId'', JStr (lit ''poker:1'')),
     (lit ''ok'', JBool True), (lit ''result'', JObj [])]"

lemma demo_answered: "handleRoomAppAgentResponse (\<lambda>_. []) (demo_connection ''ana'' [lit ''poker:1'']) demo_answer demo_calls =
    \<lparr>ac_pending = [], ac_resolved = [(lit ''c1'', Call_ok (JObj []))]\<rparr>"
proof -
  have "serializedRoomAppBytes (\<lambda>_. []) (response_js demo_answer) = 99"
    by (simp add: demo_answer_def response_js_def js_get_def js_truthy_def serializedRoomAppBytes_def quiet_bytes)
  then have "call_result_of (\<lambda>_. []) demo_answer = Call_ok (JObj [])"
    by (simp add: call_result_of_def fits_payload_def ROOM_APP_MAX_PAYLOAD_BYTES_def) (simp add: demo_answer_def js_get_def is_record_def)
  moreover have "APP_REQUEST_PATTERN (lit ''c1'')" "APP_INSTANCE_PATTERN (lit ''poker:1'')" by code_simp+
  ultimately show ?thesis
    by (simp add: handleRoomAppAgentResponse_def demo_calls_def demo_connection_def)
      (simp add: demo_answer_def js_get_def finishRoomAppAgentRequest_def ddel_def)
qed

theorem call_answer_authentic_witness:
  "\<exists>c m p. dget (ac_pending demo_calls) (lit ''c1'') = Some p \<and> answers c m p"
  using call_answer_authentic [OF call_step.answered [of "\<lambda>_. []" demo_calls "demo_connection ''ana'' [lit ''poker:1'']" demo_answer,
      unfolded demo_answered], of "lit ''c1''" "JObj []"]
  by (auto simp: demo_calls_def)

subsection \<open>The Apps a Human hosts stay bounded\<close>

lemma host_apps_bounded:
  assumes "handleRoomAppHostState url_of cat enabled roomName stores activeRoom instance_id ready c = Some c'"
  shows "length (cn_instances c') \<le> 2 \<and> list_all APP_INSTANCE_PATTERN (cn_instances c') \<and>
    length (cn_apps c') \<le> length (cn_instances c')"
proof -
  let ?cur = "take ROOM_APP_MAX_INSTANCES (filter APP_INSTANCE_PATTERN (cn_instances c))"
  obtain i r p where "instance_id = JStr i" "activeRoom = Some r" "findParticipant r (cn_participantId c) (cn_token c) = Some p"
    using assms by (cases instance_id; cases activeRoom)
      (simp_all add: handleRoomAppHostState_def split: option.split_asm)
  with assms have i: "APP_INSTANCE_PATTERN i"
    and c': "\<exists>f. c' = (let n = (if ready then take ROOM_APP_MAX_INSTANCES (dedupe (?cur @ [i])) else filter (\<lambda>j. j \<noteq> i) ?cur) in
      c\<lparr>cn_instances := n, cn_apps := List.map_filter f n\<rparr>)"
    by (simp_all add: handleRoomAppHostState_def Let_def split: if_split_asm) blast+
  then obtain f where apps: "cn_apps c' = List.map_filter f (cn_instances c')"
    and n: "cn_instances c' = (if ready then take ROOM_APP_MAX_INSTANCES (dedupe (?cur @ [i])) else filter (\<lambda>j. j \<noteq> i) ?cur)"
    by (auto simp: Let_def)
  have "length (filter q (take 2 xs)) \<le> 2" for q and xs :: "jstr list"
    by (rule order_trans [OF length_filter_le]) simp
  then have "length (cn_instances c') \<le> 2 \<and> list_all APP_INSTANCE_PATTERN (cn_instances c')"
    using i by (auto simp: n ROOM_APP_MAX_INSTANCES_def list_all_iff dest!: in_set_takeD)
  moreover have "length (List.map_filter f xs) \<le> length xs" for xs
    by (induction xs) (auto simp: map_filter_simps split: option.splits)
  ultimately show ?thesis by (simp add: apps)
qed

end
