(* ===== verification/Room_Join.thy ===== *)
theory Room_Join
  imports Room_Departure Task_Session Room_App_Routing
begin

text \<open>
  How participants come into a Room and change what they announce (the handlers \<open>register\<close>,
  \<open>agent-register\<close>, \<open>agent-create-room\<close>, \<open>agent-update-capabilities\<close> and
  \<open>agent-update-runtime-host\<close> of app/src/do/RoomSession.ts), and what loading the stored record
  makes of the media grants and the transcript producer.

  The stored Room is an option: a Room that does not exist yet is made by the first registration.
  A handler returns its answer and the stored Room. \<open>mediaEnabled\<close> is the deployment's
  AGENT_MEDIA_ENABLED, \<open>fits\<close> the storage budget. Analytics, sockets and alarms are left out.
\<close>

definition MAX_ROOM_PARTICIPANTS :: nat where "MAX_ROOM_PARTICIPANTS = 32"

subsection \<open>A new Room\<close>

definition empty_room :: "int \<Rightarrow> room" where
  "empty_room now = \<lparr>r_createdAt = now, r_expiresAt = NO_EXPIRY, r_participants = [],
     r_runtimeHosts = None, r_collaboration = None, r_messages = [], r_permissionRequests = [],
     r_transcript = \<lparr>lv_state = LT_inactive, lv_segments = [], lv_nextEpoch = 1, lv_nextSequence = 1\<rparr>,
     r_attachments = [], r_nextMessageSequence = 0, r_meetingNotes = NO_MEETING_NOTES,
     r_agentVoice = [], r_pendingMediaCleanup = []\<rparr>"

subsection \<open>Registration\<close>

text \<open>
  A request carries the participant as the Worker built it and, from an Agent, the raw values it
  announced: the list of capabilities, the Runtime Host and the Runtime's features.
\<close>

record join_request =
  jr_participant :: participant
  jr_advertised :: js
  jr_runtimeHost :: js
  jr_runtimeFeatures :: js

text \<open>\<open>capabilities?.advertised ?? []\<close>.\<close>

definition advertised_or_none :: "js \<Rightarrow> js" where
  "advertised_or_none v = (if v = JUndefined \<or> v = JNull then JArr [] else v)"

text \<open>An invalid Runtime Host is dropped; it never rejects the join.\<close>

definition registered_host :: "(rat \<Rightarrow> jstr) \<Rightarrow> bool \<Rightarrow> js \<Rightarrow> runtime_host option" where
  "registered_host ntext isAgent v =
     (if isAgent \<and> v \<noteq> JUndefined
      then (case validateRuntimeHost ntext v of Inr h \<Rightarrow> Some h | Inl _ \<Rightarrow> None) else None)"

definition joined_participant :: "bool \<Rightarrow> int \<Rightarrow> participant \<Rightarrow> jstr list \<Rightarrow> runtime_host option \<Rightarrow>
    runtime_features option \<Rightarrow> participant" where
  "joined_participant isAgent now p capabilities host features =
     (let q = p\<lparr>p_connected := isAgent, p_lastSeenAt := now, p_runtimeHostId := None, p_runtimeFeatures := None\<rparr> in
      if isAgent
      then q\<lparr>p_capabilities := Some (agentCapabilitiesFrom capabilities), p_media := None,
        p_runtimeHostId := map_option rh_runtimeHostId host, p_runtimeFeatures := features\<rparr>
      else q)"

definition enter :: "int \<Rightarrow> participant \<Rightarrow> room \<Rightarrow> room" where
  "enter now p r = updateCollaborationActivity now (r\<lparr>r_participants := dput (p_id p) p (r_participants r)\<rparr>)"

definition add_host :: "runtime_host option \<Rightarrow> room \<Rightarrow> room" where
  "add_host host r = (case host of None \<Rightarrow> r
     | Some h \<Rightarrow> r\<lparr>r_runtimeHosts := Some (registerRuntimeHost (r_runtimeHosts r) h)\<rparr>)"

definition admit :: "(rat \<Rightarrow> jstr) \<Rightarrow> bool \<Rightarrow> int \<Rightarrow> join_request \<Rightarrow> room \<Rightarrow> string + participant \<times> room" where
  "admit ntext isAgent now q r =
     (let p = jr_participant q; host = registered_host ntext isAgent (jr_runtimeHost q) in
      if in_object (p_id p) (r_participants r) then Inl ''participant_exists''
      else if MAX_ROOM_PARTICIPANTS \<le> length (r_participants r) then Inl ''room_full''
      else if isAgent \<and> p_kind p \<noteq> Agent \<or> \<not> isAgent \<and> (p_kind p \<noteq> Human \<or> p_media p = None)
        then Inl ''invalid_participant_kind''
      else (case if isAgent then validateAdvertisedCapabilities (advertised_or_none (jr_advertised q)) else Inr [] of
          Inl reason \<Rightarrow> Inl reason
        | Inr capabilities \<Rightarrow>
            (let p' = joined_participant isAgent now p capabilities host
                   (if isAgent then sanitizeRuntimeFeatures (jr_runtimeFeatures q) else None) in
             Inr (p', applyEmptyRoomExpiry now (add_host host (enter now p' r))))))"

datatype join_answer = Join_refused string | Join_unsaved | Joined participant

definition commit_join :: "(room \<Rightarrow> bool) \<Rightarrow> room option \<Rightarrow> string + participant \<times> room \<Rightarrow> join_answer \<times> room option" where
  "commit_join fits stored x = (case x of
     Inl e \<Rightarrow> (Join_refused e, stored)
   | Inr (p, r) \<Rightarrow> (case saveRoom fits r of None \<Rightarrow> (Join_unsaved, stored) | Some r \<Rightarrow> (Joined p, Some r)))"

definition register_participant :: "(room \<Rightarrow> bool) \<Rightarrow> (rat \<Rightarrow> jstr) \<Rightarrow> bool \<Rightarrow> int \<Rightarrow> join_request \<Rightarrow> room option \<Rightarrow>
    join_answer \<times> room option" where
  "register_participant fits ntext isAgent now q stored = (case stored of
     Some r \<Rightarrow> if isExpired now r then (Join_refused ''room_expired'', None)
       else commit_join fits stored (admit ntext isAgent now q r)
   | None \<Rightarrow> commit_join fits stored (admit ntext isAgent now q (empty_room now)))"

text \<open>
  The create-only gate: whatever is stored under the Room's name refuses the attempt. The creator
  announces no Runtime Host here.
\<close>

definition agent_create_room :: "(room \<Rightarrow> bool) \<Rightarrow> int \<Rightarrow> join_request \<Rightarrow> room option \<Rightarrow> join_answer \<times> room option" where
  "agent_create_room fits now q stored = (case stored of
     Some r \<Rightarrow> (Join_refused ''room_already_exists'', if isExpired now r then None else stored)
   | None \<Rightarrow> commit_join fits stored
       (if p_kind (jr_participant q) \<noteq> Agent then Inl ''invalid_participant_kind''
        else (case validateAdvertisedCapabilities (advertised_or_none (jr_advertised q)) of
          Inl reason \<Rightarrow> Inl reason
        | Inr capabilities \<Rightarrow>
            (let p = joined_participant True now (jr_participant q) capabilities None
                   (sanitizeRuntimeFeatures (jr_runtimeFeatures q)) in
             Inr (p, applyEmptyRoomExpiry now (enter now p (empty_room now)))))))"

subsection \<open>Changing what an Agent announces\<close>

text \<open>The Room after a mutation of one participant.\<close>

definition set_participant :: "participant \<Rightarrow> room \<Rightarrow> room" where
  "set_participant p r = r\<lparr>r_participants := dput (p_id p) p (r_participants r)\<rparr>"

definition seen :: "int \<Rightarrow> jstr \<Rightarrow> room \<Rightarrow> room" where
  "seen now i r = (case dget (r_participants r) i of
     Some p \<Rightarrow> set_participant (p\<lparr>p_lastSeenAt := now\<rparr>) r | None \<Rightarrow> r)"

definition agent_update_capabilities :: "(room \<Rightarrow> bool) \<Rightarrow> int \<Rightarrow> participant \<Rightarrow> js \<Rightarrow> room \<Rightarrow>
    (string + agent_capabilities) \<times> room" where
  "agent_update_capabilities fits now p raw r =
     (if p_kind p \<noteq> Agent then (Inl ''agent_only'', r)
      else (case validateAdvertisedCapabilities raw of
        Inl reason \<Rightarrow> (Inl reason, r)
      | Inr cs \<Rightarrow> (let caps = agentCapabilitiesFrom cs in
          case saveRoom fits (set_participant (p\<lparr>p_capabilities := Some caps, p_lastSeenAt := now\<rparr>) r) of
            None \<Rightarrow> (Inl ''room_state_budget_exceeded'', r) | Some r' \<Rightarrow> (Inr caps, r'))))"

text \<open>
  The update of a Runtime Host: the readiness shared by the host's Agents changes first, the
  voice grants it no longer backs are taken away with their published media, and a host nobody
  refers to any more is collected. Reading an inherited host value raises.
\<close>

definition change_host :: "bool \<Rightarrow> int \<Rightarrow> participant \<Rightarrow> runtime_host \<Rightarrow> room \<Rightarrow> js_error + room" where
  "change_host mediaEnabled now p h r =
     (let u = updateRuntimeHost (r_runtimeHosts r) (room_people r) (p_id p) h;
          p' = p\<lparr>p_runtimeHostId := Some (rh_runtimeHostId h)\<rparr>;
          r = set_participant p' (r\<lparr>r_runtimeHosts := Some (hu_runtimeHosts u)\<rparr>) in
      and_then (transitionAgentVoiceForRuntimeHostUpdate (r_agentVoice r) (room_people r) p' h
          (hu_previousHostId u) (hu_previousProjection u))
        (\<lambda>(av, revocations). and_then (stageMediaGrantRevocations mediaEnabled revocations (r\<lparr>r_agentVoice := av\<rparr>))
          (\<lambda>r. and_then (garbageCollectRuntimeHostAuthorization mediaEnabled r)
            (\<lambda>r. Inr (seen now (p_id p) r)))))"

definition agent_update_runtime_host :: "(room \<Rightarrow> bool) \<Rightarrow> (rat \<Rightarrow> jstr) \<Rightarrow> bool \<Rightarrow> int \<Rightarrow> participant \<Rightarrow> js \<Rightarrow> room \<Rightarrow>
    (string + runtime_host) \<times> room" where
  "agent_update_runtime_host fits ntext mediaEnabled now p raw r = (case validateRuntimeHost ntext raw of
     Inl e \<Rightarrow> (Inl e, r)
   | Inr h \<Rightarrow>
       if p_kind p \<noteq> Agent then (Inl ''agent_only'', r)
       else (case change_host mediaEnabled now p h r of
         Inl _ \<Rightarrow> (Inl ''TypeError'', r)
       | Inr r' \<Rightarrow> (case saveRoom fits r' of
           None \<Rightarrow> (Inl ''room_state_budget_exceeded'', r) | Some r' \<Rightarrow> (Inr h, r'))))"

subsection \<open>Loading\<close>

text \<open>
  What loading makes of the media state of a record this program stored: a transcript producer
  that is no longer valid is switched off with its subscriptions staged for closing (unless the
  normalized Meeting Notes grant still authorizes the Agent), the grants are normalized, and an
  Agent's visible voice without a grant behind it is dropped.
\<close>

definition stage_lost_producer :: "meeting_notes \<Rightarrow> jstr \<Rightarrow> room \<Rightarrow> room" where
  "stage_lost_producer mn producer r = fold (\<lambda>p r. if p_kind p = Agent \<and> p_runtimeHostId p = Some producer \<and>
       \<not> isAgentAuthorizedForMedia mn (p_id p) then stage_in_room (p_id p) Subscribed r else r) (room_people r) r"

definition hygienic_voice :: "agent_voice \<Rightarrow> participant \<Rightarrow> participant" where
  "hygienic_voice av p = (if p_kind p = Agent
     then p\<lparr>p_media := fst (normalizeAgentVoiceParticipantMedia (p_media p) av (p_id p))\<rparr> else p)"

definition load_media :: "bool \<Rightarrow> room \<Rightarrow> js_error + room" where
  "load_media mediaEnabled r =
     and_then (normalizeLiveTranscriptProducer (lv_state (r_transcript r)) (room_people r) (r_runtimeHosts r) mediaEnabled)
       (\<lambda>(lt, lost). and_then (normalizeMediaGrants (notes_js (r_meetingNotes r)) (voice_js (r_agentVoice r))
            (r_participants r) (projectRuntimeHosts (r_runtimeHosts r)))
         (\<lambda>(mn, av, _).
            (let r' = (case (lost, lv_state (r_transcript r)) of
                   (True, LT_active producer _ _) \<Rightarrow> stage_lost_producer mn producer r | _ \<Rightarrow> r) in
             Inr (r'\<lparr>r_transcript := (r_transcript r')\<lparr>lv_state := lt\<rparr>, r_meetingNotes := mn, r_agentVoice := av,
               r_participants := map (\<lambda>(i, p). (i, hygienic_voice av p)) (r_participants r')\<rparr>))))"

subsection \<open>What a registration leaves alone\<close>

lemma save_cases: "saveRoom fits r = Some r' \<Longrightarrow> r' = trimRoomMessagesToBudget fits r \<and> fits r'"
  by (simp add: saveRoom_def Let_def split: if_splits)

lemma trim_rest [simp]: "r_runtimeHosts (trimRoomMessagesToBudget fits r) = r_runtimeHosts r"
  "r_meetingNotes (trimRoomMessagesToBudget fits r) = r_meetingNotes r"
  "r_agentVoice (trimRoomMessagesToBudget fits r) = r_agentVoice r"
  "r_pendingMediaCleanup (trimRoomMessagesToBudget fits r) = r_pendingMediaCleanup r"
  "r_transcript (trimRoomMessagesToBudget fits r) = r_transcript r"
  "r_expiresAt (trimRoomMessagesToBudget fits r) = r_expiresAt r"
  by (simp_all add: trimRoomMessagesToBudget_def)

lemma enter_simps [simp]: "r_participants (enter now p r) = dput (p_id p) p (r_participants r)"
  "r_runtimeHosts (enter now p r) = r_runtimeHosts r" "r_messages (enter now p r) = r_messages r"
  "r_permissionRequests (enter now p r) = r_permissionRequests r" "r_transcript (enter now p r) = r_transcript r"
  "r_attachments (enter now p r) = r_attachments r" "r_nextMessageSequence (enter now p r) = r_nextMessageSequence r"
  "r_meetingNotes (enter now p r) = r_meetingNotes r" "r_agentVoice (enter now p r) = r_agentVoice r"
  "r_pendingMediaCleanup (enter now p r) = r_pendingMediaCleanup r"
  by (simp_all add: enter_def updateCollaborationActivity_def)

lemma expiry_simps [simp]: "r_participants (applyEmptyRoomExpiry now r) = r_participants r"
  "r_runtimeHosts (applyEmptyRoomExpiry now r) = r_runtimeHosts r" "r_messages (applyEmptyRoomExpiry now r) = r_messages r"
  "r_permissionRequests (applyEmptyRoomExpiry now r) = r_permissionRequests r"
  "r_transcript (applyEmptyRoomExpiry now r) = r_transcript r" "r_attachments (applyEmptyRoomExpiry now r) = r_attachments r"
  "r_nextMessageSequence (applyEmptyRoomExpiry now r) = r_nextMessageSequence r"
  "r_meetingNotes (applyEmptyRoomExpiry now r) = r_meetingNotes r" "r_agentVoice (applyEmptyRoomExpiry now r) = r_agentVoice r"
  "r_pendingMediaCleanup (applyEmptyRoomExpiry now r) = r_pendingMediaCleanup r"
  "r_participants r \<noteq> [] \<Longrightarrow> r_expiresAt (applyEmptyRoomExpiry now r) = NO_EXPIRY"
  by (simp_all add: applyEmptyRoomExpiry_def computeExpiresAt_def)

lemma add_host_simps [simp]: "r_participants (add_host h r) = r_participants r"
  "r_messages (add_host h r) = r_messages r" "r_permissionRequests (add_host h r) = r_permissionRequests r"
  "r_transcript (add_host h r) = r_transcript r" "r_attachments (add_host h r) = r_attachments r"
  "r_nextMessageSequence (add_host h r) = r_nextMessageSequence r" "r_meetingNotes (add_host h r) = r_meetingNotes r"
  "r_agentVoice (add_host h r) = r_agentVoice r" "r_pendingMediaCleanup (add_host h r) = r_pendingMediaCleanup r"
  by (simp_all add: add_host_def split: option.split)

lemma dput_not_Nil [simp]: "dput k v m \<noteq> []"
  using keys_dput [of k v m] by fastforce

lemma commit_joined: "commit_join fits s x = (Joined p, s') \<Longrightarrow> \<exists>r. x = Inr (p, r) \<and> s' = Some (trimRoomMessagesToBudget fits r)"
proof (cases x)
  case (Inr y)
  obtain q r where y: "y = (q, r)" by (cases y)
  assume "commit_join fits s x = (Joined p, s')"
  with Inr y show ?thesis by (auto simp: commit_join_def saveRoom_def Let_def split: if_splits)
qed (simp add: commit_join_def)

lemma joined_simps [simp]: "p_id (joined_participant a now p cs h f) = p_id p"
  "p_kind (joined_participant a now p cs h f) = p_kind p"
  "p_media (joined_participant a now p cs h f) = (if a then None else p_media p)"
  by (simp_all add: joined_participant_def Let_def)

text \<open>The Room a participant finds: the stored one, or the one its registration makes.\<close>

definition found :: "int \<Rightarrow> room option \<Rightarrow> room" where
  "found now stored = (case stored of Some r \<Rightarrow> r | None \<Rightarrow> empty_room now)"

lemma register_joined:
  assumes "register_participant fits ntext isAgent now q stored = (Joined p, stored')"
  obtains r where "admit ntext isAgent now q (found now stored) = Inr (p, r)" "stored' = Some (trimRoomMessagesToBudget fits r)"
  using assms by (cases stored) (auto simp: register_participant_def found_def dest!: commit_joined split: if_splits)

lemma admit_joined:
  assumes "admit ntext isAgent now q r = Inr (p, r')"
  obtains cs f where "dget (r_participants r) (p_id p) = None" "p_id p \<notin> set proto_keys"
    "length (r_participants r) < MAX_ROOM_PARTICIPANTS" "p_kind p = (if isAgent then Agent else Human)"
    "p_media p = None \<longleftrightarrow> isAgent"
    "p = joined_participant isAgent now (jr_participant q) cs (registered_host ntext isAgent (jr_runtimeHost q)) f"
    "r' = applyEmptyRoomExpiry now (add_host (registered_host ntext isAgent (jr_runtimeHost q)) (enter now p r))"
proof (cases "if isAgent then validateAdvertisedCapabilities (advertised_or_none (jr_advertised q)) else Inr []")
  case (Inr cs)
  from assms Inr have "\<not> in_object (p_id (jr_participant q)) (r_participants r)"
    "length (r_participants r) < MAX_ROOM_PARTICIPANTS"
    "\<not> (isAgent \<and> p_kind (jr_participant q) \<noteq> Agent \<or> \<not> isAgent \<and> (p_kind (jr_participant q) \<noteq> Human \<or> p_media (jr_participant q) = None))"
    "p = joined_participant isAgent now (jr_participant q) cs (registered_host ntext isAgent (jr_runtimeHost q))
      (if isAgent then sanitizeRuntimeFeatures (jr_runtimeFeatures q) else None)"
    "r' = applyEmptyRoomExpiry now (add_host (registered_host ntext isAgent (jr_runtimeHost q)) (enter now p r))"
    by (auto simp: admit_def Let_def split: if_splits)
  then show ?thesis by (intro that) (auto simp: in_object_def)
qed (use assms in \<open>simp add: admit_def Let_def split: if_splits\<close>)

text \<open>
  Whoever is admitted is new: its id was free and is no inherited name, the Room had fewer than 32
  participants, and the roster afterwards is the old one with the newcomer last. An Agent comes
  connected and without media, a Human disconnected and with it. No grant, no queued media, no
  attachment, no pending request and no message of the retained log changes, and the Room does not
  expire while anybody is in it.
\<close>

theorem join_adds_one:
  assumes "register_participant fits ntext isAgent now q stored = (Joined p, stored')"
  shows "\<exists>r'. stored' = Some r' \<and> r_participants r' = r_participants (found now stored) @ [(p_id p, p)] \<and>
    length (r_participants r') \<le> MAX_ROOM_PARTICIPANTS \<and> p_id p \<notin> set proto_keys \<and>
    p_kind p = (if isAgent then Agent else Human) \<and> (p_media p = None \<longleftrightarrow> isAgent) \<and> p_connected p = isAgent \<and>
    r_meetingNotes r' = r_meetingNotes (found now stored) \<and> r_agentVoice r' = r_agentVoice (found now stored) \<and>
    r_pendingMediaCleanup r' = r_pendingMediaCleanup (found now stored) \<and>
    r_permissionRequests r' = r_permissionRequests (found now stored) \<and> r_attachments r' = r_attachments (found now stored) \<and>
    r_nextMessageSequence r' = r_nextMessageSequence (found now stored) \<and>
    suffix (r_messages r') (r_messages (found now stored)) \<and> r_expiresAt r' = NO_EXPIRY"
proof -
  obtain r where r: "admit ntext isAgent now q (found now stored) = Inr (p, r)"
    and s: "stored' = Some (trimRoomMessagesToBudget fits r)"
    using assms by (rule register_joined)
  from r show ?thesis
  proof (rule admit_joined)
    fix cs f
    assume a: "dget (r_participants (found now stored)) (p_id p) = None" "p_id p \<notin> set proto_keys"
      "length (r_participants (found now stored)) < MAX_ROOM_PARTICIPANTS" "p_kind p = (if isAgent then Agent else Human)"
      "p_media p = None \<longleftrightarrow> isAgent"
      "p = joined_participant isAgent now (jr_participant q) cs (registered_host ntext isAgent (jr_runtimeHost q)) f"
      "r = applyEmptyRoomExpiry now (add_host (registered_host ntext isAgent (jr_runtimeHost q)) (enter now p (found now stored)))"
    have "dput (p_id p) p (r_participants (found now stored)) = r_participants (found now stored) @ [(p_id p, p)]"
      using a(1) by (intro dput_fresh) (simp add: dget_eq_None)
    moreover have "p_connected p = isAgent"
      unfolding a(6) by (simp add: joined_participant_def Let_def)
    ultimately show ?thesis
      using a(2-5) s trim_suffix [of fits r] by (simp add: a(7))
  qed
qed

text \<open>
  Creating a Room succeeds only where nothing is stored under its name, not even an expired Room,
  and from then on no creation under that name succeeds. The creator is an ordinary participant: it
  is alone in the Room, and nobody holds a grant.
\<close>

theorem creation_is_exclusive:
  assumes "agent_create_room fits now q stored = (Joined p, stored')"
  shows "stored = None \<and> p_kind p = Agent \<and> map_option r_participants stored' = Some [(p_id p, p)] \<and>
    map_option r_agentVoice stored' = Some [] \<and> map_option r_meetingNotes stored' = Some NO_MEETING_NOTES \<and>
    fst (agent_create_room fits2 now2 q2 stored') = Join_refused ''room_already_exists''"
proof (cases stored)
  case None
  with assms obtain r where r: "stored' = Some (trimRoomMessagesToBudget fits r)" and
    "\<exists>cs f. p_kind (jr_participant q) = Agent \<and> p = joined_participant True now (jr_participant q) cs None f \<and>
      r = applyEmptyRoomExpiry now (enter now p (empty_room now))"
    by (auto simp: agent_create_room_def Let_def dest!: commit_joined split: if_splits sum.splits)
  then show ?thesis using None by (auto simp: empty_room_def agent_create_room_def)
qed (use assms in \<open>simp add: agent_create_room_def\<close>)

subsection \<open>Voice grants stay backed\<close>

text \<open>The grant of \<open>i\<close> is backed by a connected Agent whose Runtime Host has TTS ready.\<close>

definition backed :: "room \<Rightarrow> jstr \<Rightarrow> bool" where
  "backed r i = (case dget (r_participants r) i of
     Some p \<Rightarrow> p_kind p = Agent \<and> p_connected p \<and> host_tts (runtimeHostForParticipant (r_runtimeHosts r) p) = Inr True
   | None \<Rightarrow> False)"

definition voice_backed :: "room \<Rightarrow> bool" where
  "voice_backed r \<longleftrightarrow> (\<forall>i. isAgentAuthorizedForVoice (r_agentVoice r) i \<longrightarrow> backed r i)"

text \<open>The host that backs it: its own entry, under the id the Agent names.\<close>

definition backing :: "room \<Rightarrow> jstr \<Rightarrow> jstr \<Rightarrow> bool" where
  "backing r i j \<longleftrightarrow> (case dget (r_participants r) i of
     Some p \<Rightarrow> p_kind p = Agent \<and> p_connected p \<and> p_runtimeHostId p = Some j \<and> j \<noteq> [] | None \<Rightarrow> False) \<and>
   (case r_runtimeHosts r of Some hs \<Rightarrow> (case dget hs j of Some h \<Rightarrow> rh_tts h | None \<Rightarrow> False) | None \<Rightarrow> False)"

lemma backed_iff: "backed r i \<longleftrightarrow> (\<exists>j. backing r i j)"
  by (auto simp: backed_def backing_def runtimeHostForParticipant_def truthy_host_id_def read_host_def host_tts_def
      split: option.splits if_splits host_read.splits)

lemma seat_fields: "seat r' i = seat r i \<Longrightarrow> dget (r_participants r) i = Some p \<Longrightarrow>
    \<exists>q. dget (r_participants r') i = Some q \<and> q\<lparr>p_media := None\<rparr> = p\<lparr>p_media := None\<rparr>"
  by (auto simp: seat_def)

lemma media_None_fields: "q\<lparr>p_media := None\<rparr> = p\<lparr>p_media := None\<rparr> \<Longrightarrow> p_kind q = p_kind p \<and> p_connected q = p_connected p \<and>
    p_runtimeHostId q = p_runtimeHostId p \<and> p_id q = p_id p"
  by (cases p; cases q) simp

lemma backing_seat: "seat r' i = seat r i \<Longrightarrow> backing r i j \<Longrightarrow>
    (\<And>hs h. r_runtimeHosts r = Some hs \<Longrightarrow> dget hs j = Some h \<Longrightarrow> \<exists>hs'. r_runtimeHosts r' = Some hs' \<and> dget hs' j = Some h) \<Longrightarrow>
    backing r' i j"
proof -
  assume s: "seat r' i = seat r i" and b: "backing r i j"
    and h: "\<And>hs h. r_runtimeHosts r = Some hs \<Longrightarrow> dget hs j = Some h \<Longrightarrow> \<exists>hs'. r_runtimeHosts r' = Some hs' \<and> dget hs' j = Some h"
  from b obtain p hs x where p: "dget (r_participants r) i = Some p" "p_kind p = Agent" "p_connected p" "p_runtimeHostId p = Some j" "j \<noteq> []"
    "r_runtimeHosts r = Some hs" "dget hs j = Some x" "rh_tts x"
    by (auto simp: backing_def split: option.splits)
  obtain q where q: "dget (r_participants r') i = Some q" "q\<lparr>p_media := None\<rparr> = p\<lparr>p_media := None\<rparr>"
    using seat_fields [OF s p(1)] by blast
  obtain hs' where "r_runtimeHosts r' = Some hs'" "dget hs' j = Some x" using h [OF p(6,7)] by blast
  with p q(1) media_None_fields [OF q(2)] show ?thesis by (simp add: backing_def)
qed

lemma voice_backed_same: "(\<And>i. seat r' i = seat r i) \<Longrightarrow> r_runtimeHosts r' = r_runtimeHosts r \<Longrightarrow>
    r_agentVoice r' = r_agentVoice r \<Longrightarrow> voice_backed r \<Longrightarrow> voice_backed r'"
  unfolding voice_backed_def backed_iff by (metis backing_seat)

lemma rest_grants: "rest r' = rest r \<Longrightarrow> r_agentVoice r' = r_agentVoice r \<and> r_meetingNotes r' = r_meetingNotes r \<and>
    r_nextMessageSequence r' = r_nextMessageSequence r \<and> r_attachments r' = r_attachments r"
  by (cases r; cases r') (simp add: rest_def)

lemma collected_hosts:
  assumes "garbageCollectRuntimeHostAuthorization media r = Inr r'"
  shows "r_agentVoice r' = r_agentVoice r \<and> r_meetingNotes r' = r_meetingNotes r \<and>
    r_runtimeHosts r' = garbageCollectRuntimeHosts (r_runtimeHosts r) (room_people r) \<and> (\<forall>i. seat r' i = seat r i)"
proof -
  let ?r = "r\<lparr>r_runtimeHosts := garbageCollectRuntimeHosts (r_runtimeHosts r) (room_people r)\<rparr>"
  have s: "staged ?r (stageLiveTranscriptMediaRevocation ?r)" by (rule staged_transcript)
  then have "rest (stageLiveTranscriptMediaRevocation ?r) = rest ?r" "\<And>i. seat (stageLiveTranscriptMediaRevocation ?r) i = seat r i"
    by (auto simp: staged_def seat_def)
  then have "r_agentVoice (stageLiveTranscriptMediaRevocation ?r) = r_agentVoice r"
    "r_meetingNotes (stageLiveTranscriptMediaRevocation ?r) = r_meetingNotes r"
    "r_runtimeHosts (stageLiveTranscriptMediaRevocation ?r) = r_runtimeHosts ?r"
    using rest_grants [of "stageLiveTranscriptMediaRevocation ?r" ?r] rest_fields [of "stageLiveTranscriptMediaRevocation ?r" ?r]
    by simp_all
  with assms \<open>\<And>i. seat (stageLiveTranscriptMediaRevocation ?r) i = seat r i\<close> show ?thesis
    by (auto simp: garbageCollectRuntimeHostAuthorization_def normalize_transcript_in_room_def and_then_Inr seat_def Let_def
        split: if_splits)
qed

lemma dget_filter_kept: "dget hs j = Some h \<Longrightarrow> P j \<Longrightarrow> dget (filter (\<lambda>(i, h). P i) hs) j = Some h"
  by (induction hs) auto

lemma voice_backed_collect:
  assumes "garbageCollectRuntimeHostAuthorization media r = Inr r'" and "voice_backed r"
  shows "voice_backed r'"
  unfolding voice_backed_def backed_iff
proof (intro allI impI)
  fix i
  note c = collected_hosts [OF assms(1)]
  assume "isAgentAuthorizedForVoice (r_agentVoice r') i"
  then obtain j where j: "backing r i j" using assms(2) c by (auto simp: voice_backed_def backed_iff)
  then obtain p where p: "dget (r_participants r) i = Some p" "p_runtimeHostId p = Some j"
    by (auto simp: backing_def split: option.splits)
  have "Some j \<in> p_runtimeHostId ` set (room_people r)"
    using p dget_in_set [OF p(1)] by (force simp: room_people_def)
  then have "backing r' i j"
    using c j by (intro backing_seat [OF _ j]) (auto simp: garbageCollectRuntimeHosts_def intro: dget_filter_kept)
  then show "\<exists>j. backing r' i j" ..
qed

lemma transition_ids:
  assumes "transitionAgentVoiceForRuntimeHostUpdate av ps p h previous prev = Inr (av', rs)"
  obtains tts where "host_tts prev = Inr tts"
    "\<And>i. isAgentAuthorizedForVoice av' i \<Longrightarrow> isAgentAuthorizedForVoice av i \<and>
       \<not> (host_moved previous h \<and> i = p_id p) \<and> \<not> (tts \<and> \<not> rh_tts h \<and> shares_host ps p h i)"
proof (cases "host_tts prev")
  case (Inr tts)
  have moved: "(case truthy_str previous of Some i \<Rightarrow> i \<noteq> rh_runtimeHostId h | None \<Rightarrow> False) = host_moved previous h"
    by (auto simp: host_moved_def truthy_str_def split: option.splits)
  let ?ids0 = "if host_moved previous h then revoke_if_granted av (p_id p) [] else []"
  let ?ids = "if tts \<and> \<not> rh_tts h then fold (revoke_if_granted av)
      (runtimeHostParticipantIds ps (rh_runtimeHostId h) (Some (p_id p))) ?ids0 else ?ids0"
  have "av' = fold ddel ?ids av"
    using assms Inr by (auto simp: transitionAgentVoiceForRuntimeHostUpdate_def moved Let_def)
  moreover have "j \<in> set ?ids \<longleftrightarrow> voice_truthy av j \<and> (host_moved previous h \<and> j = p_id p \<or>
      tts \<and> \<not> rh_tts h \<and> shares_host ps p h j)" for j
    by (auto simp: set_revoke_fold set_participantIds shares_host_def revoke_if_granted_def)
  ultimately show ?thesis using voice_truthy_if by (intro that [OF Inr]) (auto simp: voice_fold_ddel)
qed (use assms in \<open>simp add: transitionAgentVoiceForRuntimeHostUpdate_def\<close>)

lemma registered_entry: "dget (registerRuntimeHost hosts h) j =
   (if j = rh_runtimeHostId h then Some (if has_capabilities h \<and> RUNTIME_CAPABILITY_MAX_ROOM_HOSTS \<le>
       length (filter (\<lambda>(i, h'). i \<noteq> rh_runtimeHostId h \<and> has_capabilities h') (projectRuntimeHosts hosts))
     then h\<lparr>rh_capabilities := Some []\<rparr> else h) else dget (projectRuntimeHosts hosts) j)"
  by (simp add: registerRuntimeHost_def Let_def)

lemma find_self: "wf_participants (r_participants r) \<Longrightarrow> dget (r_participants r) (p_id p) = Some p \<Longrightarrow>
    find (\<lambda>q. p_id q = p_id p) (room_people r) = Some p"
proof -
  assume wf: "wf_participants (r_participants r)" and p: "dget (r_participants r) (p_id p) = Some p"
  have "p \<in> set (room_people r)" using dget_in_set [OF p] by (force simp: room_people_def)
  then obtain q where q: "find (\<lambda>q. p_id q = p_id p) (room_people r) = Some q"
    by (cases "find (\<lambda>q. p_id q = p_id p) (room_people r)") (auto simp: find_None_iff)
  then have "q \<in> set (room_people r)" "p_id q = p_id p" by (auto simp: find_Some_iff)
  then obtain k where "(k, q) \<in> set (r_participants r)" by (auto simp: room_people_def)
  with wf \<open>p_id q = p_id p\<close> have "dget (r_participants r) (p_id p) = Some q"
    by (auto simp: wf_participants_def wf_dict_def)
  with p q show ?thesis by simp
qed

lemma voice_backed_moved:
  assumes "voice_backed r" and wf: "wf_participants (r_participants r)"
    and p: "dget (r_participants r) (p_id p) = Some p" "p_kind p = Agent"
    and u: "u = updateRuntimeHost (r_runtimeHosts r) (room_people r) (p_id p) h"
    and r1: "r1 = set_participant (p\<lparr>p_runtimeHostId := Some (rh_runtimeHostId h)\<rparr>) (r\<lparr>r_runtimeHosts := Some (hu_runtimeHosts u)\<rparr>)"
    and tr: "transitionAgentVoiceForRuntimeHostUpdate (r_agentVoice r) (room_people r1)
      (p\<lparr>p_runtimeHostId := Some (rh_runtimeHostId h)\<rparr>) h (hu_previousHostId u) (hu_previousProjection u) = Inr (av, rs)"
  shows "voice_backed (r1\<lparr>r_agentVoice := av\<rparr>)"
  unfolding voice_backed_def
proof (intro allI impI)
  fix i
  let ?p = "p\<lparr>p_runtimeHostId := Some (rh_runtimeHostId h)\<rparr>"
  assume "isAgentAuthorizedForVoice (r_agentVoice (r1\<lparr>r_agentVoice := av\<rparr>)) i"
  then have now: "isAgentAuthorizedForVoice av i" by simp
  from tr obtain tts where prev: "host_tts (hu_previousProjection u) = Inr tts"
    and left: "\<And>i. isAgentAuthorizedForVoice av i \<Longrightarrow> isAgentAuthorizedForVoice (r_agentVoice r) i \<and>
       \<not> (host_moved (hu_previousHostId u) h \<and> i = p_id ?p) \<and> \<not> (tts \<and> \<not> rh_tts h \<and> shares_host (room_people r1) ?p h i)"
    by (rule transition_ids) blast
  have tts: "host_tts (read_host (r_runtimeHosts r) (rh_runtimeHostId h)) = Inr tts"
    using prev by (simp add: u updateRuntimeHost_def)
  from left [OF now] have i: "isAgentAuthorizedForVoice (r_agentVoice r) i" "\<not> (host_moved (hu_previousHostId u) h \<and> i = p_id p)"
      "\<not> (tts \<and> \<not> rh_tts h \<and> shares_host (room_people r1) ?p h i)" by simp_all
  have previous: "hu_previousHostId u = p_runtimeHostId p"
    by (simp add: u updateRuntimeHost_def find_self [OF wf p(1)])
  have hosts: "r_runtimeHosts (r1\<lparr>r_agentVoice := av\<rparr>) = Some (registerRuntimeHost (r_runtimeHosts r) h)"
    by (simp add: r1 set_participant_def u updateRuntimeHost_def)
  from i(1) assms(1) obtain j where j: "backing r i j" by (auto simp: voice_backed_def backed_iff)
  then obtain q hs x where q: "dget (r_participants r) i = Some q" "p_kind q = Agent" "p_connected q" "p_runtimeHostId q = Some j"
    "j \<noteq> []" "r_runtimeHosts r = Some hs" "dget hs j = Some x" "rh_tts x"
    by (auto simp: backing_def split: option.splits)
  have ids: "p_id q = i" using dget_in_set [OF q(1)] wf by (auto simp: wf_participants_def)
  define q' where "q' = (if i = p_id p then ?p else q)"
  have q': "dget (r_participants (r1\<lparr>r_agentVoice := av\<rparr>)) i = Some q'"
    using q(1) by (simp add: r1 set_participant_def q'_def)
  then have "q' \<in> set (room_people r1)" by (force simp: room_people_def dest: dget_in_set)
  moreover have fields: "p_runtimeHostId q' = Some j \<and> p_kind q' = Agent \<and> p_connected q' \<and> p_id q' = i"
  proof (cases "i = p_id p")
    case True
    with p(1) q(1) have "q = p" by simp
    with True i(2) q(2-5) show ?thesis by (simp add: q'_def previous host_moved_def)
  next
    case False
    with q(2-4) ids show ?thesis by (simp add: q'_def)
  qed
  ultimately have "shares_host (room_people r1) ?p h i" if "j = rh_runtimeHostId h"
    using that by (auto simp: shares_host_def)
  then have "rh_tts h" if "j = rh_runtimeHostId h"
    using that i(3) tts q(6-8) by (auto simp: read_host_def host_tts_def)
  then have "backing (r1\<lparr>r_agentVoice := av\<rparr>) i j"
    using q(5-8) fields q' unfolding backing_def hosts
    by (cases "j = rh_runtimeHostId h") (simp_all add: registered_entry projectRuntimeHosts_def)
  then show "backed (r1\<lparr>r_agentVoice := av\<rparr>) i" unfolding backed_iff ..
qed

lemma seen_backed: "(\<And>p. dget (r_participants r) i = Some p \<Longrightarrow> p_id p = i) \<Longrightarrow> voice_backed r \<Longrightarrow> voice_backed (seen now i r)"
proof -
  assume own: "\<And>p. dget (r_participants r) i = Some p \<Longrightarrow> p_id p = i" and v: "voice_backed r"
  have "backed (seen now i r) j = backed r j" for j
  proof (cases "dget (r_participants r) i")
    case (Some p)
    then have "p_id p = i" by (rule own)
    with Some show ?thesis
      by (cases "j = i") (simp_all add: seen_def backed_def set_participant_def runtimeHostForParticipant_def truthy_host_id_def
          split: option.split)
  qed (simp add: seen_def)
  moreover have "r_agentVoice (seen now i r) = r_agentVoice r"
    by (simp add: seen_def set_participant_def split: option.split)
  ultimately show ?thesis using v by (simp add: voice_backed_def)
qed

text \<open>
  C32: whatever Runtime Host an Agent announces, every Agent that still holds a voice grant afterwards
  is connected and its host has TTS ready: a host that lost TTS silences all its Agents, and an
  Agent that moved to another host loses its grant.
\<close>

theorem host_update_keeps_backing:
  assumes "change_host mediaEnabled now p h r = Inr r'" and "voice_backed r" and "wf_participants (r_participants r)"
    and "dget (r_participants r) (p_id p) = Some p" and "p_kind p = Agent"
  shows "voice_backed r'"
proof -
  define u where "u = updateRuntimeHost (r_runtimeHosts r) (room_people r) (p_id p) h"
  define p1 where "p1 = p\<lparr>p_runtimeHostId := Some (rh_runtimeHostId h)\<rparr>"
  define r1 where "r1 = set_participant p1 (r\<lparr>r_runtimeHosts := Some (hu_runtimeHosts u)\<rparr>)"
  from assms(1) obtain av rs r2 r3 where
    tr: "transitionAgentVoiceForRuntimeHostUpdate (r_agentVoice r1) (room_people r1) p1 h (hu_previousHostId u) (hu_previousProjection u) = Inr (av, rs)"
    and r2: "stageMediaGrantRevocations mediaEnabled rs (r1\<lparr>r_agentVoice := av\<rparr>) = Inr r2"
    and r3: "garbageCollectRuntimeHostAuthorization mediaEnabled r2 = Inr r3" and r': "r' = seen now (p_id p) r3"
    by (auto simp: change_host_def and_then_Inr Let_def simp flip: u_def p1_def r1_def)
  have "r_agentVoice r1 = r_agentVoice r" by (simp add: r1_def set_participant_def)
  then have v1: "voice_backed (r1\<lparr>r_agentVoice := av\<rparr>)"
    using voice_backed_moved [OF assms(2-5) u_def r1_def [unfolded p1_def]] tr by (simp add: p1_def)
  have s2: "staged (r1\<lparr>r_agentVoice := av\<rparr>) r2" by (rule staged_revocations [OF r2])
  then have "rest r2 = rest (r1\<lparr>r_agentVoice := av\<rparr>)" by (simp add: staged_def)
  then have "r_runtimeHosts r2 = r_runtimeHosts r1" "r_agentVoice r2 = av"
    using rest_grants [of r2] rest_fields [of r2] by auto
  then have "voice_backed r2"
    using s2 by (intro voice_backed_same [OF _ _ _ v1]) (simp_all add: staged_def)
  then have v3: "voice_backed r3" by (rule voice_backed_collect [OF r3])
  have "p_id q = p_id p" if "dget (r_participants r3) (p_id p) = Some q" for q
  proof -
    have "seat r3 (p_id p) = seat r1 (p_id p)"
      using collected_hosts [OF r3] s2 by (simp add: staged_def seat_def)
    then show ?thesis using that by (auto simp: seat_def r1_def set_participant_def p1_def dest: media_None_fields)
  qed
  then show ?thesis unfolding r' by (rule seen_backed [OF _ v3])
qed

text \<open>A Room with one speaking Agent, and a registration on the same host.\<close>

definition demo_spoken_host :: runtime_host where
  "demo_spoken_host = demo_host\<lparr>rh_tts := True\<rparr>"

definition demo_speaker :: participant where
  "demo_speaker = (demo_participant ''bot'' Agent True)\<lparr>p_runtimeHostId := Some (rh_runtimeHostId demo_host),
     p_media := Some \<lparr>m_sessionId = lit ''s1'', m_muted = True, m_fileChannelReady = False, m_appDataChannelReady = None,
       m_tracks = [\<lparr>mt_trackName = lit ''voice'', mt_kind = Audio, mt_mid = None\<rparr>], m_agentSubscribedMids = None,
       m_agentPublishedMid = Some (lit ''m1''), m_agentPublishedTrackName = None, m_agentVoiceReady = Some True\<rparr>\<rparr>"

definition demo_speaking :: room where
  "demo_speaking = (empty_room 0)\<lparr>r_participants := [(lit ''bot'', demo_speaker)],
     r_runtimeHosts := Some [(rh_runtimeHostId demo_host, demo_spoken_host)], r_agentVoice := demo_voice\<rparr>"

definition demo_silent_host :: js where
  "demo_silent_host = host_js (demo_host\<lparr>rh_tts := False\<rparr>)"

definition demo_second :: join_request where
  "demo_second = \<lparr>jr_participant = demo_participant ''bot2'' Agent True, jr_advertised = JUndefined,
     jr_runtimeHost = demo_silent_host, jr_runtimeFeatures = JUndefined\<rparr>"

lemma demo_speaking_backed: "voice_backed demo_speaking"
proof -
  have "isAgentAuthorizedForVoice (r_agentVoice demo_speaking) i \<Longrightarrow> i = lit ''bot''" for i
    by (simp add: demo_speaking_def demo_voice_def isAgentAuthorizedForVoice_def split: if_splits)
  moreover have "backed demo_speaking (lit ''bot'')" by code_simp
  ultimately show ?thesis unfolding voice_backed_def by blast
qed

definition demo_room_of :: "js_error + room \<Rightarrow> room" where
  "demo_room_of x = (case x of Inr r \<Rightarrow> r | Inl _ \<Rightarrow> demo_room)"

theorem host_update_keeps_backing_witness:
  "voice_backed (demo_room_of (change_host True 7 demo_speaker (demo_host\<lparr>rh_tts := False\<rparr>) demo_speaking))"
proof -
  let ?r = "demo_room_of (change_host True 7 demo_speaker (demo_host\<lparr>rh_tts := False\<rparr>) demo_speaking)"
  have "change_host True 7 demo_speaker (demo_host\<lparr>rh_tts := False\<rparr>) demo_speaking = Inr ?r" by code_simp
  moreover have "wf_participants (r_participants demo_speaking)" "dget (r_participants demo_speaking) (p_id demo_speaker) = Some demo_speaker"
    "p_kind demo_speaker = Agent" by code_simp+
  ultimately show ?thesis using host_update_keeps_backing demo_speaking_backed by blast
qed

text \<open>
  A registration on the same Runtime Host does not go through the update: it overwrites the host's
  readiness and takes no grant away. The next load drops the grant that is no longer backed and,
  with it, the id of the track the Agent publishes, without queueing that id: nothing in the
  Room can close the track at the provider any more.
\<close>

theorem same_host_join_orphans_track:
  "case register_participant (\<lambda>_. True) (\<lambda>_. []) True 5 demo_second (Some demo_speaking) of
     (Joined p, Some r) \<Rightarrow> isAgentAuthorizedForVoice (r_agentVoice r) (lit ''bot'') \<and> \<not> backed r (lit ''bot'') \<and>
       (let r' = demo_room_of (load_media True r) in
        load_media True r = Inr r' \<and> r_agentVoice r' = [] \<and> r_pendingMediaCleanup r' = [] \<and>
        Option.bind (dget (r_participants demo_speaking) (lit ''bot'')) (\<lambda>p. Option.bind (p_media p) m_agentPublishedMid) = Some (lit ''m1'') \<and>
        Option.bind (dget (r_participants r') (lit ''bot'')) (\<lambda>p. Option.bind (p_media p) m_agentPublishedMid) = None)
   | _ \<Rightarrow> False"
  by code_simp

theorem join_adds_one_witness:
  "length (r_participants (the (snd (register_participant (\<lambda>_. True) (\<lambda>_. []) True 5 demo_second (Some demo_speaking))))) \<le> 32"
proof -
  let ?out = "register_participant (\<lambda>_. True) (\<lambda>_. []) True 5 demo_second (Some demo_speaking)"
  have "case fst ?out of Joined p \<Rightarrow> True | _ \<Rightarrow> False" by code_simp
  then obtain p where "?out = (Joined p, snd ?out)" by (cases ?out) (auto split: join_answer.splits)
  from join_adds_one [OF this] show ?thesis by (auto simp: MAX_ROOM_PARTICIPANTS_def)
qed

theorem creation_is_exclusive_witness:
  "fst (agent_create_room (\<lambda>_. True) 9 demo_second (snd (agent_create_room (\<lambda>_. True) 5 demo_second None))) =
     Join_refused ''room_already_exists''"
proof -
  let ?out = "agent_create_room (\<lambda>_. True) 5 demo_second None"
  have "case fst ?out of Joined p \<Rightarrow> True | _ \<Rightarrow> False" by code_simp
  then obtain p where "?out = (Joined p, snd ?out)" by (cases ?out) (auto split: join_answer.splits)
  from creation_is_exclusive [OF this] show ?thesis by blast
qed

end
