(* ===== verification/Room_Transport.thy ===== *)
theory Room_Transport
  imports Generated_Apps Room_Join
begin

text \<open>
  The private data channels between an Agent and the Humans who use its generated App: their
  names (app/src/common/participantDataChannel.ts), the projection of the pairs a Room currently
  associates (projectRuntimeParticipantTransportState of app/src/do/RoomSession.ts), the
  handlers that attach an Agent's data session, and the authorization of one channel.

  \<open>appsEnabled\<close> is the deployment's ROOM_APPS_ENABLED and \<open>apps\<close> the Room's publications.
\<close>

subsection \<open>Channel names\<close>

definition word_or_dash :: "code_unit \<Rightarrow> bool" where
  "word_or_dash c \<longleftrightarrow> is_alnum c \<or> c = 0x5f \<or> c = 0x2d"

text \<open>\<open>/^[A-Za-z0-9_-]{1,128}$/\<close>.\<close>

definition validParticipantId :: "jstr \<Rightarrow> bool" where
  "validParticipantId s \<longleftrightarrow> 1 \<le> length s \<and> length s \<le> 128 \<and> list_all word_or_dash s"

definition channel_prefix :: "jstr \<Rightarrow> jstr" where
  "channel_prefix a = lit ''participant-direct-reliable-'' @ nat_text (length a) @ lit ''-'' @ a @ lit ''-''"

definition participantDirectReliableChannelName :: "jstr \<Rightarrow> jstr \<Rightarrow> jstr option" where
  "participantDirectReliableChannelName a h =
     (if \<not> validParticipantId a \<or> \<not> validParticipantId h \<or> a = h then None else Some (channel_prefix a @ h))"

definition isParticipantDirectReliableChannelForAgent :: "jstr \<Rightarrow> jstr \<Rightarrow> bool" where
  "isParticipantDirectReliableChannelForAgent name a =
     (if \<not> validParticipantId a then False
      else if take (length (channel_prefix a)) name \<noteq> channel_prefix a then False
      else (let h = drop (length (channel_prefix a)) name in
        validParticipantId h \<and> h \<noteq> a \<and> participantDirectReliableChannelName a h = Some name))"

subsection \<open>Which pairs a Room associates\<close>

record transport_route =
  ro_appInstanceId :: jstr
  ro_bundleRevision :: int
  ro_taskRequestId :: jstr
  ro_agentParticipantId :: jstr
  ro_humanParticipantId :: jstr
  ro_runtimeHostId :: jstr
  ro_capabilityIds :: "jstr list"

record transport_source =
  so_participantId :: jstr
  so_sessionId :: jstr

type_synonym transport_state = "transport_route list \<times> transport_source list"

definition human_in :: "participants \<Rightarrow> jstr \<Rightarrow> bool" where
  "human_in ps i = (case dget ps i of Some p \<Rightarrow> p_kind p = Human | None \<Rightarrow> False)"

definition originating_human :: "participants \<Rightarrow> collab_event \<Rightarrow> jstr option" where
  "originating_human ps e = truthy_str (find (human_in ps) [ce_from e, ce_target e])"

text \<open>A loop that breaks on a full list leaves it as it is from then on.\<close>

definition push_route :: "transport_route \<Rightarrow> transport_route list \<Rightarrow> transport_route list" where
  "push_route x routes = (if MAX_GENERATED_APPS_PER_ROOM * 32 \<le> length routes then routes else routes @ [x])"

definition route_to :: "app_publication \<Rightarrow> jstr \<Rightarrow> jstr \<Rightarrow> jstr list \<Rightarrow> participant \<Rightarrow> transport_route" where
  "route_to a agentId hostId capabilities h =
     \<lparr>ro_appInstanceId = ap_appInstanceId a, ro_bundleRevision = ap_bundleRevision a,
      ro_taskRequestId = ap_taskRequestId a, ro_agentParticipantId = agentId, ro_humanParticipantId = p_id h,
      ro_runtimeHostId = hostId, ro_capabilityIds = capabilities\<rparr>"

definition publication_routes :: "participants \<Rightarrow> task_index \<Rightarrow> jstr \<Rightarrow> jstr \<Rightarrow> jstr list \<Rightarrow> participant list \<Rightarrow>
    app_publication \<Rightarrow> transport_route list \<Rightarrow> transport_route list" where
  "publication_routes ps index agentId hostId capabilities humans a routes =
     (case dget index (ap_taskRequestId a) of
        None \<Rightarrow> routes
      | Some t \<Rightarrow>
          if initialTaskAgentParticipantId (te_request t) ps \<noteq> Some agentId then routes
          else (case originating_human ps (te_request t) of
            None \<Rightarrow> routes
          | Some first \<Rightarrow>
              if capabilities = [] then routes
              else fold (\<lambda>h. push_route (route_to a agentId hostId capabilities h))
                (filter (\<lambda>h. p_id h = first) humans @ filter (\<lambda>h. p_id h \<noteq> first) humans) routes))"

definition host_capability_ids :: "runtime_host \<Rightarrow> jstr list" where
  "host_capability_ids h = filter (\<lambda>i. isRuntimeCapabilityId (JStr i))
     (map cp_capabilityId (case rh_capabilities h of Some cs \<Rightarrow> cs | None \<Rightarrow> []))"

text \<open>A host that is an inherited value has no capabilities, hence no routes: it reads like an absent one.\<close>

definition agent_routes :: "room \<Rightarrow> publications \<Rightarrow> jstr \<Rightarrow> transport_route list" where
  "agent_routes r apps agentId = (case dget (r_participants r) agentId of
     None \<Rightarrow> []
   | Some agent \<Rightarrow>
       if p_kind agent \<noteq> Agent \<or> \<not> p_connected agent then []
       else (case Option.bind (truthy_str (p_runtimeHostId agent))
           (\<lambda>i. map_option (Pair i) (Option.bind (r_runtimeHosts r) (\<lambda>hs. dget hs i))) of
         None \<Rightarrow> []
       | Some (hostId, host) \<Rightarrow>
           if \<not> RUNTIME_HOST_ID_PATTERN hostId then []
           else fold (publication_routes (r_participants r) (buildTaskProjectionIndex (r_messages r) (r_participants r))
                 agentId hostId (host_capability_ids host)
                 (take 32 (filter (\<lambda>p. p_kind p = Human \<and> p_connected p) (room_people r))))
               (map snd apps) []))"

definition human_source :: "jstr list \<Rightarrow> participant \<Rightarrow> transport_source option" where
  "human_source candidates p =
     (if p_kind p = Human \<and> p_id p \<in> set candidates \<and> p_connected p
      then (case p_media p of
        Some m \<Rightarrow> if m_appDataChannelReady m = Some True
          then Some \<lparr>so_participantId = p_id p, so_sessionId = m_sessionId m\<rparr> else None
      | None \<Rightarrow> None)
      else None)"

definition projectRuntimeParticipantTransportState :: "bool \<Rightarrow> room \<Rightarrow> publications \<Rightarrow> jstr \<Rightarrow> transport_state" where
  "projectRuntimeParticipantTransportState appsEnabled r apps agentId =
     (if \<not> appsEnabled then ([], [])
      else (let routes = agent_routes r apps agentId in
        if routes = [] then ([], [])
        else (let sources = take 32 (List.map_filter (human_source (map ro_humanParticipantId routes)) (room_people r));
                  available = filter (\<lambda>x. ro_humanParticipantId x \<in> so_participantId ` set sources) routes in
          if available = [] then ([], [])
          else (available, filter (\<lambda>s. so_participantId s \<in> ro_humanParticipantId ` set available) sources))))"

subsection \<open>Attaching an Agent's data session\<close>

datatype 'a reply = Refused nat string | Raised | Unsaved | Done 'a

definition save_reply :: "(room \<Rightarrow> bool) \<Rightarrow> room \<Rightarrow> room \<Rightarrow> 'a \<Rightarrow> 'a reply \<times> room" where
  "save_reply fits r r' x = (case saveRoom fits r' of None \<Rightarrow> (Unsaved, r) | Some r'' \<Rightarrow> (Done x, r''))"

text \<open>\<open>/^[A-Za-z0-9._:-]+$/\<close> with at most 128 units.\<close>

definition data_session_ok :: "js \<Rightarrow> jstr option" where
  "data_session_ok v = (case v of
     JStr s \<Rightarrow> if s \<noteq> [] \<and> length s \<le> 128 \<and> list_all is_id_unit s then Some s else None | _ \<Rightarrow> None)"

definition participant_data_transport_admit :: "bool \<Rightarrow> room \<Rightarrow> publications \<Rightarrow> jstr \<Rightarrow> jstr \<Rightarrow> unit reply" where
  "participant_data_transport_admit appsEnabled r apps i token = (case findParticipant r i token of
     None \<Rightarrow> Refused 401 ''unauthorized''
   | Some p \<Rightarrow>
       if p_kind p \<noteq> Agent then Refused 401 ''unauthorized''
       else (case projectRuntimeParticipantTransportState appsEnabled r apps (p_id p) of
         (routes, sources) \<Rightarrow> if routes = [] \<or> sources = [] then Refused 403 ''participant_data_transport_unavailable''
           else Done ()))"

definition participant_data_transport_attach :: "(room \<Rightarrow> bool) \<Rightarrow> bool \<Rightarrow> int \<Rightarrow> room \<Rightarrow> publications \<Rightarrow> jstr \<Rightarrow> jstr \<Rightarrow>
    js \<Rightarrow> unit reply \<times> room" where
  "participant_data_transport_attach fits appsEnabled now r apps i token session = (case findParticipant r i token of
     None \<Rightarrow> (Refused 401 ''unauthorized'', r)
   | Some p \<Rightarrow>
       if p_kind p \<noteq> Agent then (Refused 401 ''unauthorized'', r)
       else (case projectRuntimeParticipantTransportState appsEnabled r apps (p_id p) of
         (routes, sources) \<Rightarrow> (case data_session_ok session of
             None \<Rightarrow> (Refused 403 ''participant_data_transport_unavailable'', r)
           | Some s \<Rightarrow>
               if routes = [] \<or> sources = [] then (Refused 403 ''participant_data_transport_unavailable'', r)
               else save_reply fits r (set_participant
                 (p\<lparr>p_dataTransport := Some \<lparr>dt_sessionId = s, dt_ready = False\<rparr>, p_lastSeenAt := now\<rparr>) r) ())))"

definition participant_data_transport_ready :: "(room \<Rightarrow> bool) \<Rightarrow> bool \<Rightarrow> int \<Rightarrow> room \<Rightarrow> publications \<Rightarrow> jstr \<Rightarrow> jstr \<Rightarrow>
    jstr \<Rightarrow> js \<Rightarrow> unit reply \<times> room" where
  "participant_data_transport_ready fits appsEnabled now r apps i token session ready =
     (case findParticipant r i token of
        None \<Rightarrow> (Refused 401 ''unauthorized'', r)
      | Some p \<Rightarrow> (case p_dataTransport p of
          None \<Rightarrow> (Refused 401 ''unauthorized'', r)
        | Some d \<Rightarrow>
            if p_kind p \<noteq> Agent \<or> dt_sessionId d \<noteq> session then (Refused 401 ''unauthorized'', r)
            else (case ready of
              JBool b \<Rightarrow> (case projectRuntimeParticipantTransportState appsEnabled r apps (p_id p) of
                (routes, sources) \<Rightarrow>
                  if b \<and> (routes = [] \<or> sources = []) then (Refused 403 ''participant_data_transport_unavailable'', r)
                  else save_reply fits r (set_participant
                    (p\<lparr>p_dataTransport := Some (d\<lparr>dt_ready := b\<rparr>), p_lastSeenAt := now\<rparr>) r) ())
            | _ \<Rightarrow> (Refused 403 ''participant_data_transport_unavailable'', r))))"

subsection \<open>Authorizing one channel\<close>

record direct_request =
  dq_participantId :: jstr
  dq_token :: jstr
  dq_peerParticipantId :: jstr
  dq_sessionId :: jstr
  dq_peerSessionId :: jstr
  dq_direction :: js
  dq_dataChannelName :: jstr

definition media_session :: "participant \<Rightarrow> jstr option" where
  "media_session p = map_option m_sessionId (p_media p)"

definition data_session :: "participant \<Rightarrow> jstr option" where
  "data_session p = map_option dt_sessionId (p_dataTransport p)"

definition data_ready :: "participant \<Rightarrow> bool" where
  "data_ready p = (case p_dataTransport p of Some d \<Rightarrow> dt_ready d | None \<Rightarrow> False)"

text \<open>\<open>caller === agent\<close> compares objects: it holds for an Agent caller by the choice of \<open>agent\<close>.\<close>

definition authorize_participant_direct_datachannel :: "bool \<Rightarrow> room \<Rightarrow> publications \<Rightarrow> direct_request \<Rightarrow> unit reply" where
  "authorize_participant_direct_datachannel appsEnabled r apps q =
     (case (findParticipant r (dq_participantId q) (dq_token q), dget (r_participants r) (dq_peerParticipantId q)) of
        (Some caller, Some peer) \<Rightarrow>
          if \<not> p_connected caller \<or> \<not> p_connected peer then Refused 401 ''unauthorized''
          else (let publish = dq_direction q = JStr (lit ''publish'');
                    subscribe = dq_direction q = JStr (lit ''subscribe'');
                    agent = if p_kind caller = Agent then caller else peer;
                    human = if p_kind caller = Human then caller else peer;
                    expected = if p_kind agent = Agent \<and> p_kind human = Human
                      then participantDirectReliableChannelName (p_id agent) (p_id human) else None;
                    (routes, sources) = if p_kind agent = Agent
                      then projectRuntimeParticipantTransportState appsEnabled r apps (p_id agent) else ([], []) in
            if expected \<noteq> Some (dq_dataChannelName q)
              \<or> \<not> list_ex (\<lambda>x. ro_humanParticipantId x = p_id human) routes
              \<or> \<not> list_ex (\<lambda>s. so_participantId s = p_id human \<and> media_session human = Some (so_sessionId s)) sources
              \<or> \<not> (p_kind agent = Agent \<and>
                   data_session agent = Some (if publish then dq_sessionId q else dq_peerSessionId q))
              \<or> \<not> (if publish then p_kind caller = Agent
                   else p_kind caller = Human \<and> media_session caller = Some (dq_sessionId q))
              \<or> \<not> publish \<and> \<not> subscribe
              \<or> subscribe \<and> \<not> data_ready agent
            then Refused 403 ''participant_direct_pair_not_authorized'' else Done ())
      | _ \<Rightarrow> Refused 401 ''unauthorized'')"

subsection \<open>A name is the address of one pair\<close>

lemma nat_text_digits: "c \<in> set (nat_text n) \<Longrightarrow> is_digit c"
proof (induction n rule: nat_text.induct)
  case (1 n)
  have d: "is_digit (of_nat (0x30 + m))" if "m < 10" for m
  proof -
    have "m \<in> {0, 1, 2, 3, 4, 5, 6, 7, 8, 9}" using that by auto
    then show ?thesis by (auto simp: is_digit_def)
  qed
  show ?case
  proof (cases "n < 10")
    case True
    with 1(2) have "c = of_nat (0x30 + n)" by (simp add: nat_text.simps [of n])
    with True d show ?thesis by blast
  next
    case False
    with 1(2) have "c \<in> set (nat_text (n div 10)) \<or> c = of_nat (0x30 + n mod 10)" by (subst (asm) nat_text.simps) auto
    with 1(1) [OF False] d [of "n mod 10"] show ?thesis by auto
  qed
qed

definition text_nat :: "jstr \<Rightarrow> nat" where
  "text_nat s = fold (\<lambda>c v. v * 10 + (unat c - 0x30)) s 0"

lemma digit_value: "m < 10 \<Longrightarrow> unat (of_nat (0x30 + m) :: code_unit) - 0x30 = m"
  by (simp add: unat_of_nat take_bit_nat_eq_self del: of_nat_add)

lemma text_nat_text: "text_nat (nat_text n) = n"
proof (induction n rule: nat_text.induct)
  case (1 n)
  show ?case
  proof (cases "n < 10")
    case True
    then have "text_nat (nat_text n) = unat (of_nat (0x30 + n) :: code_unit) - 0x30"
      by (subst nat_text.simps) (simp add: text_nat_def)
    with True digit_value show ?thesis by metis
  next
    case False
    then have "nat_text n = nat_text (n div 10) @ [of_nat (0x30 + n mod 10)]" by (subst nat_text.simps) simp
    then have "text_nat (nat_text n) = text_nat (nat_text (n div 10)) * 10 + (unat (of_nat (0x30 + n mod 10) :: code_unit) - 0x30)"
      by (simp add: text_nat_def)
    moreover have "unat (of_nat (0x30 + n mod 10) :: code_unit) - 0x30 = n mod 10" by (rule digit_value) simp
    ultimately have "text_nat (nat_text n) = n div 10 * 10 + n mod 10" using 1 [OF False] by (simp del: div_mult_mod_eq)
    then show ?thesis by simp
  qed
qed

lemma split_at_dash:
  assumes "nat_text m @ lit ''-'' @ xs = nat_text n @ lit ''-'' @ ys"
  shows "m = n \<and> xs = ys"
proof -
  have dash: "lit ''-'' = [0x2d]" by code_simp
  have "takeWhile is_digit (nat_text k @ lit ''-'' @ zs) = nat_text k" for k zs
    using nat_text_digits by (subst takeWhile_append2) (auto simp: is_digit_def dash)
  then have "nat_text m = nat_text n" using assms by metis
  then show ?thesis using assms text_nat_text by (metis append_same_eq same_append_eq)
qed

lemma prefix_unique: "channel_prefix a @ h = channel_prefix a' @ h' \<Longrightarrow> a = a' \<and> h = h'"
proof -
  assume "channel_prefix a @ h = channel_prefix a' @ h'"
  then have "nat_text (length a) @ lit ''-'' @ a @ lit ''-'' @ h = nat_text (length a') @ lit ''-'' @ a' @ lit ''-'' @ h'"
    by (simp add: channel_prefix_def)
  then have "length a = length a' \<and> a @ lit ''-'' @ h = a' @ lit ''-'' @ h'" by (rule split_at_dash)
  then show ?thesis by (auto simp: append_eq_append_conv)
qed

text \<open>
  The label of a pair is an address of that pair only: the Worker's check accepts it for no other
  Agent, and no other Human id gives it.
\<close>

theorem channel_name_addresses_pair:
  assumes "participantDirectReliableChannelName a h = Some name"
  shows "isParticipantDirectReliableChannelForAgent name a' = (a' = a) \<and>
    (participantDirectReliableChannelName a' h' = Some name) = (a' = a \<and> h' = h)"
proof -
  have "take (length (channel_prefix b)) name = channel_prefix b \<Longrightarrow>
      name = channel_prefix b @ drop (length (channel_prefix b)) name" for b
    by (metis append_take_drop_id)
  then have "isParticipantDirectReliableChannelForAgent name b = (\<exists>x. participantDirectReliableChannelName b x = Some name)" for b
    by (auto simp: isParticipantDirectReliableChannelForAgent_def participantDirectReliableChannelName_def Let_def split: if_splits)
  moreover have "participantDirectReliableChannelName b x = Some name \<Longrightarrow> b = a \<and> x = h" for b x
    using assms prefix_unique [of b x a h] by (auto simp: participantDirectReliableChannelName_def split: if_splits)
  ultimately show ?thesis using assms by blast
qed

theorem channel_name_addresses_pair_witness:
  "\<not> isParticipantDirectReliableChannelForAgent (lit ''participant-direct-reliable-3-bot-ana'') (lit ''bo'')"
proof -
  have "participantDirectReliableChannelName (lit ''bot'') (lit ''ana'') = Some (lit ''participant-direct-reliable-3-bot-ana'')"
    by code_simp
  from channel_name_addresses_pair [OF this] show ?thesis by (simp add: lit_def)
qed

subsection \<open>What an association rests on\<close>

text \<open>
  A route joins a connected Agent with a connected Human over an App published for a Task whose
  request is still in the log and names that Agent.
\<close>

definition route_ok :: "room \<Rightarrow> publications \<Rightarrow> jstr \<Rightarrow> transport_route \<Rightarrow> bool" where
  "route_ok r apps agentId x \<longleftrightarrow> ro_agentParticipantId x = agentId \<and> connected_agent (r_participants r) agentId \<and>
     (\<exists>a \<in> set (map snd apps). ro_appInstanceId x = ap_appInstanceId a \<and> ro_bundleRevision x = ap_bundleRevision a \<and>
        ro_taskRequestId x = ap_taskRequestId a) \<and>
     (\<exists>t. dget (buildTaskProjectionIndex (r_messages r) (r_participants r)) (ro_taskRequestId x) = Some t \<and>
        initialTaskAgentParticipantId (te_request t) (r_participants r) = Some agentId) \<and>
     (\<exists>h \<in> set (room_people r). p_kind h = Human \<and> p_connected h \<and> p_id h = ro_humanParticipantId x) \<and>
     ro_capabilityIds x \<noteq> []"

lemma push_route_bound: "length xs \<le> 128 \<Longrightarrow> length (push_route x xs) \<le> 128"
  by (simp add: push_route_def MAX_GENERATED_APPS_PER_ROOM_def)

lemma push_route_all: "list_all P xs \<Longrightarrow> P x \<Longrightarrow> list_all P (push_route x xs)"
  by (simp add: push_route_def)

lemma publication_routes_ok:
  assumes "list_all P xs \<and> length xs \<le> 128"
    and "\<And>t h. dget index (ap_taskRequestId a) = Some t \<Longrightarrow> initialTaskAgentParticipantId (te_request t) ps = Some agentId \<Longrightarrow>
      h \<in> set humans \<Longrightarrow> capabilities \<noteq> [] \<Longrightarrow> P (route_to a agentId hostId capabilities h)"
  shows "list_all P (publication_routes ps index agentId hostId capabilities humans a xs) \<and>
    length (publication_routes ps index agentId hostId capabilities humans a xs) \<le> 128"
proof -
  let ?f = "\<lambda>h. push_route (route_to a agentId hostId capabilities h)"
  have fold: "list_all P (fold ?f hs xs) \<and> length (fold ?f hs xs) \<le> 128"
    if "\<And>h. h \<in> set hs \<Longrightarrow> P (route_to a agentId hostId capabilities h)" for hs
    by (rule fold_invariant [where Q = "\<lambda>h. P (route_to a agentId hostId capabilities h)" and
        P = "\<lambda>xs. list_all P xs \<and> length xs \<le> 128"])
      (use assms(1) that in \<open>auto intro!: push_route_all push_route_bound\<close>)
  show ?thesis
  proof (cases "dget index (ap_taskRequestId a)")
    case (Some t)
    show ?thesis
    proof (cases "originating_human ps (te_request t)")
      case (Some first)
      note h = \<open>dget index (ap_taskRequestId a) = Some t\<close> Some
      show ?thesis
      proof (cases "initialTaskAgentParticipantId (te_request t) ps = Some agentId \<and> capabilities \<noteq> []")
        case True
        then have out: "publication_routes ps index agentId hostId capabilities humans a xs =
            fold ?f (filter (\<lambda>h. p_id h = first) humans @ filter (\<lambda>h. p_id h \<noteq> first) humans) xs"
          by (simp add: publication_routes_def h)
        show ?thesis unfolding out by (rule fold) (use assms(2) [OF h(1)] True in auto)
      qed (use assms(1) h in \<open>auto simp: publication_routes_def\<close>)
    qed (use assms(1) Some in \<open>simp add: publication_routes_def\<close>)
  qed (use assms(1) in \<open>simp add: publication_routes_def\<close>)
qed

lemma agent_routes_ok: "list_all (route_ok r apps agentId) (agent_routes r apps agentId) \<and> length (agent_routes r apps agentId) \<le> 128"
proof (cases "dget (r_participants r) agentId")
  case (Some agent)
  let ?index = "buildTaskProjectionIndex (r_messages r) (r_participants r)"
  let ?humans = "take 32 (filter (\<lambda>p. p_kind p = Human \<and> p_connected p) (room_people r))"
  let ?out = "\<lambda>xs. list_all (route_ok r apps agentId) xs \<and> length xs \<le> 128"
  have "?out (fold (publication_routes (r_participants r) ?index agentId i (host_capability_ids h) ?humans) (map snd apps) [])"
    if "connected_agent (r_participants r) agentId" for i h
  proof (rule fold_invariant [where Q = "\<lambda>a. a \<in> set (map snd apps)"])
    fix a xs assume a: "a \<in> set (map snd apps)" and xs: "?out xs"
    show "?out (publication_routes (r_participants r) ?index agentId i (host_capability_ids h) ?humans a xs)"
      by (rule publication_routes_ok [OF xs]) (use a that in \<open>auto simp: route_ok_def route_to_def dest!: in_set_takeD\<close>)
  qed simp_all
  then show ?thesis using Some
    by (auto simp: agent_routes_def connected_agent_def split: option.split)
qed (simp add: agent_routes_def)

lemma map_filter_set: "y \<in> set (List.map_filter f xs) \<longleftrightarrow> (\<exists>x \<in> set xs. f x = Some y)"
  by (force simp: List.map_filter_def)

text \<open>The Human of a source has a live data channel of its own.\<close>

definition human_source_ok :: "room \<Rightarrow> transport_source \<Rightarrow> bool" where
  "human_source_ok r s \<longleftrightarrow> (\<exists>h \<in> set (room_people r). p_kind h = Human \<and> p_connected h \<and> p_id h = so_participantId s \<and>
     media_session h = Some (so_sessionId s))"

lemma human_source_sound: "p \<in> set (room_people r) \<Longrightarrow> human_source is p = Some s \<Longrightarrow> human_source_ok r s"
  by (auto simp: human_source_def human_source_ok_def media_session_def split: if_splits option.splits)

lemma matched_images: "f ` set (filter (\<lambda>x. f x \<in> g ` set ss) xs) =
    g ` set (filter (\<lambda>s. g s \<in> f ` set (filter (\<lambda>x. f x \<in> g ` set ss) xs)) ss)"
proof
  show "f ` set (filter (\<lambda>x. f x \<in> g ` set ss) xs) \<subseteq>
      g ` set (filter (\<lambda>s. g s \<in> f ` set (filter (\<lambda>x. f x \<in> g ` set ss) xs)) ss)"
  proof
    fix y assume y: "y \<in> f ` set (filter (\<lambda>x. f x \<in> g ` set ss) xs)"
    then obtain s where "s \<in> set ss" "y = g s" by auto
    with y show "y \<in> g ` set (filter (\<lambda>s. g s \<in> f ` set (filter (\<lambda>x. f x \<in> g ` set ss) xs)) ss)" by simp
  qed
qed auto

lemma matched_projection:
  assumes "list_all P xs" and "length xs \<le> n" and "list_all Q ss" and "length ss \<le> k"
    and "ys = filter (\<lambda>x. f x \<in> g ` set ss) xs" and "zs = filter (\<lambda>s. g s \<in> f ` set ys) ss"
  shows "length ys \<le> n \<and> length zs \<le> k \<and> list_all P ys \<and> list_all Q zs \<and> f ` set ys = g ` set zs"
  using assms matched_images [of f g ss xs] le_trans [OF length_filter_le assms(2)] le_trans [OF length_filter_le assms(4)]
  by (simp add: list_all_iff)

text \<open>
  What a Room tells an Agent of its data channels is bounded and closed: at most 128 routes and 32
  sources; every route is one of the Agent's own Apps with a connected Human, that Human is among the
  sources with its current session, and every source has a route. Without routes there are no sources.
\<close>

theorem transport_projection_sound:
  assumes "projectRuntimeParticipantTransportState on r apps agentId = (routes, sources)"
  shows "length routes \<le> 128 \<and> length sources \<le> 32 \<and> list_all (route_ok r apps agentId) routes \<and> list_all (human_source_ok r) sources \<and>
    ro_humanParticipantId ` set routes = so_participantId ` set sources"
proof -
  define xs where "xs = agent_routes r apps agentId"
  define ss where "ss = take 32 (List.map_filter (human_source (map ro_humanParticipantId xs)) (room_people r))"
  have "list_all (human_source_ok r) ss" "length ss \<le> 32"
    by (auto simp: ss_def list_all_iff map_filter_set dest!: in_set_takeD intro: human_source_sound)
  moreover have "(routes, sources) = ([], []) \<or>
      routes = filter (\<lambda>x. ro_humanParticipantId x \<in> so_participantId ` set ss) xs \<and>
      sources = filter (\<lambda>s. so_participantId s \<in> ro_humanParticipantId ` set routes) ss"
    using assms by (auto simp: projectRuntimeParticipantTransportState_def Let_def simp flip: xs_def ss_def split: if_splits)
  moreover have "list_all (route_ok r apps agentId) xs" "length xs \<le> 128"
    using agent_routes_ok [of r apps agentId] by (simp_all add: xs_def)
  ultimately show ?thesis
    using matched_projection [of "route_ok r apps agentId" xs 128 "human_source_ok r" ss 32 routes ro_humanParticipantId so_participantId sources]
    by (elim disjE) simp_all
qed

lemma authorized_pair:
  assumes "authorize_participant_direct_datachannel on r apps q = Done ()"
  obtains caller peer agent human routes sources where
    "findParticipant r (dq_participantId q) (dq_token q) = Some caller" "dget (r_participants r) (dq_peerParticipantId q) = Some peer"
    "p_connected caller" "p_connected peer" "agent = (if p_kind caller = Agent then caller else peer)"
    "human = (if p_kind caller = Human then caller else peer)" "p_kind agent = Agent" "p_kind human = Human"
    "participantDirectReliableChannelName (p_id agent) (p_id human) = Some (dq_dataChannelName q)"
    "projectRuntimeParticipantTransportState on r apps (p_id agent) = (routes, sources)"
    "\<exists>x \<in> set routes. ro_humanParticipantId x = p_id human"
    "dq_direction q = JStr (lit ''publish'') \<and> p_kind caller = Agent \<and> data_session agent = Some (dq_sessionId q) \<or>
     dq_direction q = JStr (lit ''subscribe'') \<and> p_kind caller = Human \<and> media_session human = Some (dq_sessionId q) \<and>
       data_session agent = Some (dq_peerSessionId q) \<and> data_ready agent"
proof -
  obtain caller peer where c: "findParticipant r (dq_participantId q) (dq_token q) = Some caller"
    "dget (r_participants r) (dq_peerParticipantId q) = Some peer"
    using assms by (auto simp: authorize_participant_direct_datachannel_def split: option.splits)
  define agent where "agent = (if p_kind caller = Agent then caller else peer)"
  define human where "human = (if p_kind caller = Human then caller else peer)"
  obtain routes sources where p: "(if p_kind agent = Agent then projectRuntimeParticipantTransportState on r apps (p_id agent)
      else ([], [])) = (routes, sources)" by fastforce
  have distinct: "lit ''publish'' \<noteq> lit ''subscribe''" by simp
  from assms c have *: "p_connected caller" "p_connected peer"
    "(if p_kind agent = Agent \<and> p_kind human = Human then participantDirectReliableChannelName (p_id agent) (p_id human) else None) =
      Some (dq_dataChannelName q)"
    "\<exists>x \<in> set routes. ro_humanParticipantId x = p_id human" "p_kind agent = Agent"
    "data_session agent = Some (if dq_direction q = JStr (lit ''publish'') then dq_sessionId q else dq_peerSessionId q)"
    "if dq_direction q = JStr (lit ''publish'') then p_kind caller = Agent
     else p_kind caller = Human \<and> media_session caller = Some (dq_sessionId q)"
    "dq_direction q = JStr (lit ''publish'') \<or> dq_direction q = JStr (lit ''subscribe'')"
    "dq_direction q = JStr (lit ''subscribe'') \<longrightarrow> data_ready agent"
    unfolding authorize_participant_direct_datachannel_def
    by (simp_all add: Let_def p list_ex_iff flip: agent_def human_def split: if_split_asm)
  then have "p_kind human = Human" "participantDirectReliableChannelName (p_id agent) (p_id human) = Some (dq_dataChannelName q)"
    by (simp_all split: if_split_asm)
  moreover have "projectRuntimeParticipantTransportState on r apps (p_id agent) = (routes, sources)"
    using p *(5) by simp
  ultimately show ?thesis
    using * distinct by (intro that [OF c *(1,2) agent_def human_def *(5)]) (auto simp: human_def split: if_splits)
qed

text \<open>
  C34: a private channel is authorized for one pair only: a connected Agent and a connected Human of the
  Room, under that pair's own label, while an App of the Agent's own Task associates them. Only the
  Agent publishes, on the data session it attached; only the Human subscribes, on its own media
  session, and not before the Agent's session is ready.
\<close>

theorem direct_channel_authorized:
  assumes "authorize_participant_direct_datachannel on r apps q = Done ()"
  shows "\<exists>agent human x. p_kind agent = Agent \<and> p_kind human = Human \<and> p_connected agent \<and> p_connected human \<and>
    participantDirectReliableChannelName (p_id agent) (p_id human) = Some (dq_dataChannelName q) \<and>
    route_ok r apps (p_id agent) x \<and> ro_humanParticipantId x = p_id human \<and>
    (dq_direction q = JStr (lit ''publish'') \<and> findParticipant r (dq_participantId q) (dq_token q) = Some agent \<and>
       dget (r_participants r) (dq_peerParticipantId q) = Some human \<and> data_session agent = Some (dq_sessionId q) \<or>
     dq_direction q = JStr (lit ''subscribe'') \<and> findParticipant r (dq_participantId q) (dq_token q) = Some human \<and>
       dget (r_participants r) (dq_peerParticipantId q) = Some agent \<and> media_session human = Some (dq_sessionId q) \<and>
       data_session agent = Some (dq_peerSessionId q) \<and> data_ready agent)"
proof -
  have projected: "list_all (route_ok r apps i) routes" if "projectRuntimeParticipantTransportState on r apps i = (routes, sources)"
    for i routes sources
    using that agent_routes_ok [of r apps i]
    by (auto simp: projectRuntimeParticipantTransportState_def Let_def list_all_iff split: if_splits)
  from assms show ?thesis
  proof (rule authorized_pair)
    fix caller peer agent human routes sources
    assume a: "findParticipant r (dq_participantId q) (dq_token q) = Some caller" "dget (r_participants r) (dq_peerParticipantId q) = Some peer"
      "p_connected caller" "p_connected peer" "agent = (if p_kind caller = Agent then caller else peer)"
      "human = (if p_kind caller = Human then caller else peer)" "p_kind agent = Agent" "p_kind human = Human"
      "participantDirectReliableChannelName (p_id agent) (p_id human) = Some (dq_dataChannelName q)"
      "projectRuntimeParticipantTransportState on r apps (p_id agent) = (routes, sources)"
      "\<exists>x \<in> set routes. ro_humanParticipantId x = p_id human"
      "dq_direction q = JStr (lit ''publish'') \<and> p_kind caller = Agent \<and> data_session agent = Some (dq_sessionId q) \<or>
       dq_direction q = JStr (lit ''subscribe'') \<and> p_kind caller = Human \<and> media_session human = Some (dq_sessionId q) \<and>
         data_session agent = Some (dq_peerSessionId q) \<and> data_ready agent"
    from a(11) projected [OF a(10)] obtain x where x: "route_ok r apps (p_id agent) x" "ro_humanParticipantId x = p_id human"
      by (auto simp: list_all_iff)
    have "p_connected agent" "p_connected human" using a(3-6) by simp_all
    then show ?thesis using a x by (intro exI [of _ agent] exI [of _ human] exI [of _ x]) auto
  qed
qed

subsection \<open>An associated pair\<close>

definition demo_capable_host :: runtime_host where
  "demo_capable_host = demo_host\<lparr>rh_capabilities := Some [\<lparr>cp_capabilityId = lit ''files'', cp_title = lit ''Files'',
     cp_version = lit ''1'', cp_observe = False, cp_actions = []\<rparr>]\<rparr>"

definition demo_publisher :: participant where
  "demo_publisher = (demo_participant ''old'' Agent True)\<lparr>p_runtimeHostId := Some (rh_runtimeHostId demo_host),
     p_dataTransport := Some \<lparr>dt_sessionId = lit ''d1'', dt_ready = True\<rparr>\<rparr>"

definition demo_app_user :: participant where
  "demo_app_user = (demo_participant ''ana'' Human True)\<lparr>p_media := Some \<lparr>m_sessionId = lit ''s1'', m_muted = True,
     m_fileChannelReady = True, m_appDataChannelReady = Some True, m_tracks = [], m_agentSubscribedMids = None,
     m_agentPublishedMid = None, m_agentPublishedTrackName = None, m_agentVoiceReady = None\<rparr>\<rparr>"

definition demo_transport_room :: room where
  "demo_transport_room = demo_room\<lparr>r_runtimeHosts := Some [(rh_runtimeHostId demo_host, demo_capable_host)],
     r_participants := dput (lit ''ana'') demo_app_user (dput (lit ''old'') demo_publisher demo_participants)\<rparr>"

definition demo_apps :: publications where
  "demo_apps = [(ap_appInstanceId demo_pub, demo_pub)]"

definition demo_direct :: "string \<Rightarrow> direct_request" where
  "demo_direct direction = \<lparr>dq_participantId = lit ''ana'', dq_token = lit ''t'', dq_peerParticipantId = lit ''old'',
     dq_sessionId = lit ''s1'', dq_peerSessionId = lit ''d1'', dq_direction = JStr (lit direction),
     dq_dataChannelName = lit ''participant-direct-reliable-3-old-ana''\<rparr>"

lemma demo_direct_answers:
  "authorize_participant_direct_datachannel True demo_transport_room demo_apps (demo_direct ''subscribe'') = Done ()"
  "authorize_participant_direct_datachannel True demo_transport_room demo_apps (demo_direct ''publish'') =
     Refused 403 ''participant_direct_pair_not_authorized''"
  by code_simp+

theorem direct_channel_authorized_witness:
  "\<exists>agent x. p_kind agent = Agent \<and> route_ok demo_transport_room demo_apps (p_id agent) x \<and>
     data_session agent = Some (lit ''d1'') \<and> data_ready agent"
proof -
  obtain agent human x where "p_kind agent = Agent" "route_ok demo_transport_room demo_apps (p_id agent) x"
    "dq_direction (demo_direct ''subscribe'') = JStr (lit ''publish'') \<and>
        findParticipant demo_transport_room (dq_participantId (demo_direct ''subscribe'')) (dq_token (demo_direct ''subscribe'')) = Some agent \<and>
        dget (r_participants demo_transport_room) (dq_peerParticipantId (demo_direct ''subscribe'')) = Some human \<and>
        data_session agent = Some (dq_sessionId (demo_direct ''subscribe'')) \<or>
      data_session agent = Some (dq_peerSessionId (demo_direct ''subscribe'')) \<and> data_ready agent"
    using direct_channel_authorized [OF demo_direct_answers(1)] by blast
  then show ?thesis by (auto simp: demo_direct_def)
qed

theorem transport_projection_sound_witness:
  "case projectRuntimeParticipantTransportState True demo_transport_room demo_apps (lit ''old'') of
     (routes, sources) \<Rightarrow> routes \<noteq> [] \<and> ro_humanParticipantId ` set routes = so_participantId ` set sources"
proof -
  obtain routes sources where p: "projectRuntimeParticipantTransportState True demo_transport_room demo_apps (lit ''old'') = (routes, sources)"
    by fastforce
  have "fst (projectRuntimeParticipantTransportState True demo_transport_room demo_apps (lit ''old'')) \<noteq> []" by code_simp
  with transport_projection_sound [OF p] p show ?thesis by simp
qed

end
