(* ===== verification/Byte_Text.thy ===== *)
theory Byte_Text
  imports Room_Transport
begin

text \<open>
  The text forms of bytes the Room's file routes use: \<open>btoa\<close> on the string of a byte array, \<open>atob\<close>
  as decodeBase64 of app/src/common/roomAttachments.ts guards it, and \<open>decodeURIComponent\<close> for the file name
  header of an upload. A byte is a number below 256.
\<close>

subsection \<open>Base64\<close>

definition base64_unit :: "nat \<Rightarrow> code_unit" where
  "base64_unit n = of_nat (if n < 26 then 0x41 + n else if n < 52 then 0x47 + n else if n < 62 then n - 4
     else if n = 62 then 0x2b else 0x2f)"

fun btoa :: "nat list \<Rightarrow> jstr" where
  "btoa [] = []"
| "btoa [a] = [base64_unit (a div 4), base64_unit (a mod 4 * 16), 0x3d, 0x3d]"
| "btoa [a, b] = [base64_unit (a div 4), base64_unit (a mod 4 * 16 + b div 16), base64_unit (b mod 16 * 4), 0x3d]"
| "btoa (a # b # c # bs) = base64_unit (a div 4) # base64_unit (a mod 4 * 16 + b div 16) #
     base64_unit (b mod 16 * 4 + c div 64) # base64_unit (c mod 64) # btoa bs"

definition base64_value :: "code_unit \<Rightarrow> nat option" where
  "base64_value c = (if is_upper c then Some (unat c - 0x41) else if is_lower c then Some (unat c - 0x47)
     else if is_digit c then Some (unat c + 4) else if c = 0x2b then Some 62 else if c = 0x2f then Some 63 else None)"

fun sextet_bytes :: "nat list \<Rightarrow> nat list" where
  "sextet_bytes (a # b # c # d # xs) = (a * 4 + b div 16) # (b mod 16 * 16 + c div 4) # (c mod 4 * 64 + d) # sextet_bytes xs"
| "sextet_bytes [a, b, c] = [a * 4 + b div 16, b mod 16 * 16 + c div 4]"
| "sextet_bytes [a, b] = [a * 4 + b div 16]"
| "sextet_bytes xs = []"

fun all_values :: "jstr \<Rightarrow> nat list option" where
  "all_values [] = Some []"
| "all_values (c # cs) = (case (base64_value c, all_values cs) of (Some v, Some vs) \<Rightarrow> Some (v # vs) | _ \<Rightarrow> None)"

text \<open>The text has no white space here; padding is dropped only from a whole number of quartets.\<close>

definition drop_padding :: "jstr \<Rightarrow> jstr" where
  "drop_padding s = (if length s mod 4 \<noteq> 0 then s
     else if 2 \<le> length s \<and> drop (length s - 2) s = [0x3d, 0x3d] then take (length s - 2) s
     else if 1 \<le> length s \<and> last s = 0x3d then butlast s else s)"

definition atob :: "jstr \<Rightarrow> nat list option" where
  "atob s = (let t = drop_padding s in if length t mod 4 = 1 then None else map_option sextet_bytes (all_values t))"

text \<open>\<open>/^[A-Za-z0-9+/]*={0,2}$/\<close>.\<close>

definition BASE64_PATTERN :: "jstr \<Rightarrow> bool" where
  "BASE64_PATTERN s \<longleftrightarrow> dropWhile (\<lambda>c. base64_value c \<noteq> None) s \<in> {[], [0x3d], [0x3d, 0x3d]}"

definition decodeBase64 :: "jstr \<Rightarrow> nat list option" where
  "decodeBase64 s = (if \<not> BASE64_PATTERN s then None
     else (case atob s of Some [] \<Rightarrow> None | Some bytes \<Rightarrow> Some bytes | None \<Rightarrow> None))"

subsection \<open>What is encoded is decoded\<close>

lemma base64_round: "n < 64 \<Longrightarrow> base64_value (base64_unit n) = Some n"
proof -
  have "list_all (\<lambda>n. base64_value (base64_unit n) = Some n) [0..<64]" by code_simp
  then show "n < 64 \<Longrightarrow> base64_value (base64_unit n) = Some n" by (simp add: list_all_iff)
qed

definition is_byte :: "nat \<Rightarrow> bool" where
  "is_byte b \<longleftrightarrow> b < 256"

lemma sextets: "is_byte a \<Longrightarrow> a div 4 < 64" "a mod 4 * 16 < 64" "is_byte b \<Longrightarrow> a mod 4 * 16 + b div 16 < 64"
  "b mod 16 * 4 < 64" "is_byte c \<Longrightarrow> b mod 16 * 4 + c div 64 < 64" "c mod 64 < 64" for a b c :: nat
proof -
  have m: "a mod 4 < 4" "b mod 16 < 16" by simp_all
  show "is_byte a \<Longrightarrow> a div 4 < 64" by (simp add: is_byte_def less_mult_imp_div_less)
  show "a mod 4 * 16 < 64" "b mod 16 * 4 < 64" "c mod 64 < 64" using m by simp_all
  have "is_byte b \<Longrightarrow> b div 16 < 16" "is_byte c \<Longrightarrow> c div 64 < 4" by (simp_all add: is_byte_def less_mult_imp_div_less)
  with m show "is_byte b \<Longrightarrow> a mod 4 * 16 + b div 16 < 64" "is_byte c \<Longrightarrow> b mod 16 * 4 + c div 64 < 64" by linarith+
qed

lemma bytes_again: "a div 4 * 4 + (a mod 4 * 16 + r) div 16 = a" if "r < 16" for a r :: nat
  using that by simp

lemma bytes_again2: "(a mod 4 * 16 + b div 16) mod 16 * 16 + (b mod 16 * 4 + r) div 4 = b" if "is_byte b" "r < 4" for a b r :: nat
proof -
  have "b div 16 < 16" using that(1) by (simp add: is_byte_def less_mult_imp_div_less)
  then have "(a mod 4 * 16 + b div 16) mod 16 = b div 16" by simp
  with that(2) show ?thesis by simp
qed

lemma bytes_again3: "(b mod 16 * 4 + c div 64) mod 4 * 64 + c mod 64 = c" if "is_byte c" for b c :: nat
proof -
  have "c div 64 < 4" using that by (simp add: is_byte_def less_mult_imp_div_less)
  then have "(b mod 16 * 4 + c div 64) mod 4 = c div 64" by simp
  then show ?thesis by simp
qed

definition sextet_text :: "jstr \<Rightarrow> nat list \<Rightarrow> nat list \<Rightarrow> jstr \<Rightarrow> bool" where
  "sextet_text s bs vs pad \<longleftrightarrow> s = map base64_unit vs @ pad \<and> list_all (\<lambda>v. v < 64) vs \<and> sextet_bytes vs = bs \<and>
     (length vs + length pad) mod 4 = 0 \<and> pad \<in> {[], [0x3d], [0x3d, 0x3d]}"

lemma btoa_sextets: "list_all is_byte bs \<Longrightarrow> \<exists>vs pad. sextet_text (btoa bs) bs vs pad"
proof (induction bs rule: btoa.induct)
  case 1
  have "sextet_text (btoa []) [] [] []" by (simp add: sextet_text_def)
  then show ?case by blast
next
  case (2 a)
  then have "sextet_text (btoa [a]) [a] [a div 4, a mod 4 * 16] [0x3d, 0x3d]"
    using bytes_again [of 0 a] by (simp add: sextet_text_def sextets)
  then show ?case by blast
next
  case (3 a b)
  then have "sextet_text (btoa [a, b]) [a, b] [a div 4, a mod 4 * 16 + b div 16, b mod 16 * 4] [0x3d]"
    using bytes_again [of "b div 16" a] bytes_again2 [of b 0 a] by (simp add: sextet_text_def sextets is_byte_def less_mult_imp_div_less)
  then show ?case by blast
next
  case (4 a b c bs)
  then obtain vs pad where t: "sextet_text (btoa bs) bs vs pad" by auto
  have "b div 16 < 16" "c div 64 < 4" using 4(2) by (simp_all add: is_byte_def less_mult_imp_div_less)
  then have "sextet_text (btoa (a # b # c # bs)) (a # b # c # bs)
      (a div 4 # (a mod 4 * 16 + b div 16) # (b mod 16 * 4 + c div 64) # (c mod 64) # vs) pad"
    using t 4(2) bytes_again [of "b div 16" a] bytes_again2 [of b "c div 64" a] bytes_again3 [of c b]
    by (simp add: sextet_text_def sextets)
  then show ?case by blast
qed

lemma base64_unit_value: "list_all (\<lambda>v. v < 64) vs \<Longrightarrow> list_all (\<lambda>c. base64_value c \<noteq> None) (map base64_unit vs)"
  by (induction vs) (simp_all add: base64_round)

lemma all_values_units: "list_all (\<lambda>v. v < 64) vs \<Longrightarrow> all_values (map base64_unit vs) = Some vs"
  by (induction vs) (simp_all add: base64_round)

lemma equals_sign: "base64_value 0x3d = None"
  by code_simp

lemma sextet_text_decoded:
  assumes "sextet_text s bs vs pad" and "bs \<noteq> []"
  shows "decodeBase64 s = Some bs"
proof -
  have s: "s = map base64_unit vs @ pad" and vs: "list_all (\<lambda>v. v < 64) vs" "sextet_bytes vs = bs"
    and n: "length s mod 4 = 0" and pad: "pad \<in> {[], [0x3d], [0x3d, 0x3d]}" using assms(1) by (auto simp: sextet_text_def)
  have units: "list_all (\<lambda>c. base64_value c \<noteq> None) (map base64_unit vs)" by (rule base64_unit_value) (fact vs)
  then have no_pad: "c \<in> set (map base64_unit vs) \<Longrightarrow> c \<noteq> 0x3d" for c using equals_sign by (auto simp: list_all_iff)
  have "dropWhile (\<lambda>c. base64_value c \<noteq> None) s = dropWhile (\<lambda>c. base64_value c \<noteq> None) pad"
    using units by (simp add: s list_all_iff dropWhile_append)
  also have "\<dots> = pad" using pad by (auto simp: equals_sign)
  finally have pattern: "BASE64_PATTERN s" using pad by (simp add: BASE64_PATTERN_def)
  have nonempty: "vs \<noteq> []" using vs(2) assms(2) by auto
  then have last: "last (map base64_unit vs) \<noteq> 0x3d" by (intro no_pad last_in_set) simp
  have drop: "drop_padding s = map base64_unit vs"
  proof -
    consider "pad = []" | "pad = [0x3d]" | "pad = [0x3d, 0x3d]" using pad by blast
    then show ?thesis
    proof cases
      case 1
      have "drop (length s - 2) s \<noteq> [0x3d, 0x3d]" if "2 \<le> length s"
      proof
        assume d: "drop (length s - 2) s = [0x3d, 0x3d]"
        then have "last (drop (length s - 2) s) = 0x3d" by simp
        then have "last s = 0x3d" using that by (simp add: last_drop)
        then show False using last 1 s by simp
      qed
      then show ?thesis using 1 last s n nonempty by (auto simp: drop_padding_def)
    next
      case 2
      have "drop (length s - 2) s \<noteq> [0x3d, 0x3d]"
      proof
        assume d: "drop (length s - 2) s = [0x3d, 0x3d]"
        obtain ws w where w: "map base64_unit vs = ws @ [w]" using nonempty by (metis append_butlast_last_id list.map_disc_iff)
        then have "drop (length s - 2) s = [w, 0x3d]" using 2 s by simp
        then show False using d no_pad [of w] w by simp
      qed
      then show ?thesis using 2 s n by (simp add: drop_padding_def)
    next
      case 3
      then show ?thesis using s n by (simp add: drop_padding_def)
    qed
  qed
  have "length vs mod 4 \<noteq> 1"
  proof
    assume v: "length vs mod 4 = 1"
    have "(length vs mod 4 + length pad) mod 4 = 0" using n s by (simp add: mod_add_left_eq)
    then show False using v pad by (auto; presburger)
  qed
  then have "atob s = Some bs" using drop vs all_values_units [OF vs(1)] by (simp add: atob_def Let_def)
  then show ?thesis using pattern assms(2) by (cases bs) (simp_all add: decodeBase64_def)
qed

lemma base64_round_trip: "list_all is_byte bs \<Longrightarrow> bs \<noteq> [] \<Longrightarrow> decodeBase64 (btoa bs) = Some bs"
  using btoa_sextets sextet_text_decoded by blast

subsection \<open>Percent encoding\<close>

definition unreserved :: "nat \<Rightarrow> bool" where
  "unreserved p \<longleftrightarrow> 0x61 \<le> p \<and> p \<le> 0x7a \<or> 0x41 \<le> p \<and> p \<le> 0x5a \<or> 0x30 \<le> p \<and> p \<le> 0x39 \<or>
     p \<in> {0x2d, 0x5f, 0x2e, 0x21, 0x7e, 0x2a, 0x27, 0x28, 0x29}"

definition upper_hex :: "nat \<Rightarrow> code_unit" where
  "upper_hex n = of_nat (if n < 10 then 0x30 + n else 0x37 + n)"

definition percent :: "nat \<Rightarrow> jstr" where
  "percent b = [0x25, upper_hex (b div 16), upper_hex (b mod 16)]"

definition percent_point :: "nat \<Rightarrow> jstr" where
  "percent_point p = (if unreserved p then [of_nat p] else concat (map percent (utf8_of p)))"

text \<open>\<open>None\<close>: a lone surrogate raises URIError.\<close>

definition encodeURIComponent :: "jstr \<Rightarrow> jstr option" where
  "encodeURIComponent s = (if well_formed s then Some (concat (map percent_point (code_points s))) else None)"

definition hex_byte :: "code_unit \<Rightarrow> code_unit \<Rightarrow> nat option" where
  "hex_byte h l = (case (hex_value h, hex_value l) of (Some a, Some b) \<Rightarrow> Some (a * 16 + b) | _ \<Rightarrow> None)"

fun take_percents :: "nat \<Rightarrow> jstr \<Rightarrow> (nat list \<times> jstr) option" where
  "take_percents 0 s = Some ([], s)"
| "take_percents (Suc n) (c # h # l # s) = (if c \<noteq> 0x25 then None
     else (case (hex_byte h l, take_percents n s) of (Some b, Some (bs, s2)) \<Rightarrow> Some (b # bs, s2) | _ \<Rightarrow> None))"
| "take_percents (Suc n) s = None"

lemma take_percents_shorter [termination_simp]: "take_percents n s = Some (bs, s2) \<Longrightarrow> length s2 \<le> length s"
  by (induction n s arbitrary: bs rule: take_percents.induct) (fastforce split: if_splits option.splits prod.splits)+

text \<open>How many bytes the leading byte of a sequence announces; a byte that leads none announces one, and fails.\<close>

definition sequence_length :: "nat \<Rightarrow> nat" where
  "sequence_length b = (if b < 0xc0 then 1 else if b < 0xe0 then 2 else if b < 0xf0 then 3 else 4)"

text \<open>\<open>None\<close>: URIError.\<close>

fun decodeURIComponent :: "jstr \<Rightarrow> jstr option" where
  "decodeURIComponent [] = Some []"
| "decodeURIComponent (c # s) = (if c \<noteq> 0x25 then map_option ((#) c) (decodeURIComponent s)
     else (case s of
       h # l # s' \<Rightarrow> (case hex_byte h l of
         None \<Rightarrow> None
       | Some b \<Rightarrow> (case take_percents (sequence_length b - 1) s' of
           None \<Rightarrow> None
         | Some (bs, s2) \<Rightarrow> (case utf8_points (b # bs) of
             Some [p] \<Rightarrow> map_option ((@) (units_of p)) (decodeURIComponent s2)
           | _ \<Rightarrow> None)))
     | _ \<Rightarrow> None))"

subsection \<open>What is percent encoded is decoded\<close>

lemma upper_hex_value: "n < 16 \<Longrightarrow> hex_value (upper_hex n) = Some n"
proof -
  have "list_all (\<lambda>n. hex_value (upper_hex n) = Some n) [0..<16]" by code_simp
  then show "n < 16 \<Longrightarrow> hex_value (upper_hex n) = Some n" by (simp add: list_all_iff)
qed

lemma hex_byte_percent: "is_byte b \<Longrightarrow> hex_byte (upper_hex (b div 16)) (upper_hex (b mod 16)) = Some b"
  by (simp add: hex_byte_def is_byte_def upper_hex_value less_mult_imp_div_less)

lemma take_percents_percent: "list_all is_byte bs \<Longrightarrow> take_percents (length bs) (concat (map percent bs) @ s) = Some (bs, s)"
  by (induction bs) (simp_all add: percent_def hex_byte_percent)

lemma utf8_lead: "valid_point p \<Longrightarrow> \<exists>b bs. utf8_of p = b # bs \<and> list_all is_byte (b # bs) \<and> sequence_length b - 1 = length bs"
proof -
  assume v: "valid_point p"
  consider "p \<le> 0x7f" | "0x7f < p" "p \<le> 0x7ff" | "0x7ff < p" "p \<le> 0xffff" | "0xffff < p" by linarith
  then show ?thesis
  proof cases
    case 2
    then have "p div 64 < 32" by (simp add: less_mult_imp_div_less)
    moreover have "p mod 64 < 128" using mod_less_divisor [of 64 p] by linarith
    ultimately show ?thesis using 2 by (simp add: utf8_of_def is_byte_def sequence_length_def)
  next
    case 3
    then have "p div 4096 < 16" by (simp add: less_mult_imp_div_less)
    moreover have "p mod 64 < 128" "p div 64 mod 64 < 128"
      using mod_less_divisor [of 64 p] mod_less_divisor [of 64 "p div 64"] by linarith+
    ultimately show ?thesis using 3 by (simp add: utf8_of_def is_byte_def sequence_length_def)
  next
    case 4
    then have "p div 262144 < 5" using v by (simp add: valid_point_def less_mult_imp_div_less)
    moreover have "p mod 64 < 128" "p div 64 mod 64 < 128" "p div 4096 mod 64 < 128"
      using mod_less_divisor [of 64 p] mod_less_divisor [of 64 "p div 64"] mod_less_divisor [of 64 "p div 4096"] by linarith+
    ultimately show ?thesis using 4 by (simp add: utf8_of_def is_byte_def sequence_length_def)
  qed (simp add: utf8_of_def is_byte_def sequence_length_def)
qed

lemma decode_percent_point:
  assumes "valid_point p"
  shows "decodeURIComponent (percent_point p @ s) = map_option ((@) (units_of p)) (decodeURIComponent s)"
proof (cases "unreserved p")
  case True
  then have "p < 0x10000" "p \<noteq> 0x25" by (auto simp: unreserved_def)
  moreover from this have "unat (of_nat p :: code_unit) = p" by (simp add: unat_of_nat take_bit_nat_eq_self)
  ultimately have "(of_nat p :: code_unit) \<noteq> 0x25" by auto
  then show ?thesis using True \<open>p < 0x10000\<close> by (simp add: percent_point_def units_of_def) (cases "decodeURIComponent s"; simp)
next
  case False
  obtain b bs where u: "utf8_of p = b # bs" "list_all is_byte (b # bs)" "sequence_length b - 1 = length bs"
    using utf8_lead [OF assms] by blast
  have "utf8_points (b # bs) = Some [p]" using utf8_point [OF assms, of "[]"] u(1) by simp
  then show ?thesis
    using False u take_percents_percent [of bs s] hex_byte_percent [of b] by (simp add: percent_point_def percent_def del: utf8_points.simps)
qed

lemma uri_component_round_trip:
  assumes "encodeURIComponent s = Some t"
  shows "decodeURIComponent t = Some s"
proof -
  have w: "well_formed s" and t: "t = concat (map percent_point (code_points s))"
    using assms by (auto simp: encodeURIComponent_def split: if_splits)
  have "list_all valid_point ps \<Longrightarrow> decodeURIComponent (concat (map percent_point ps)) = Some (concat (map units_of ps))" for ps
    by (induction ps) (simp_all add: decode_percent_point)
  then show ?thesis using code_points_well_formed [OF w] t by simp
qed

end
