(* ===== verification/File_Chunks.thy ===== *)
theory File_Chunks
  imports Byte_Text
begin

text \<open>
  Bytes kept in pieces under keys of the Room's storage, as the attachment and surface routes of
  app/src/do/RoomSession.ts write, read and delete them. A put or a delete that the storage
  refuses stops the loop; \<open>accepts\<close> and \<open>deletes\<close> say which keys it takes.
\<close>

type_synonym 'k chunk_store = "('k, nat list) dict"

text \<open>\<open>Math.ceil(n / width)\<close> and \<open>bytes.slice(index * width, index * width + width)\<close>.\<close>

definition chunk_total :: "nat \<Rightarrow> nat \<Rightarrow> nat" where
  "chunk_total width n = (n + (width - 1)) div width"

definition piece :: "nat \<Rightarrow> nat list \<Rightarrow> nat \<Rightarrow> nat list" where
  "piece width bytes index = take width (drop (index * width) bytes)"

definition pieces :: "nat \<Rightarrow> (nat \<Rightarrow> 'k) \<Rightarrow> nat list \<Rightarrow> ('k \<times> nat list) list" where
  "pieces width key bytes = map (\<lambda>index. (key index, piece width bytes index)) [0..<chunk_total width (length bytes)]"

fun store_chunks :: "('k \<Rightarrow> bool) \<Rightarrow> ('k \<times> nat list) list \<Rightarrow> 'k chunk_store \<Rightarrow> bool \<times> 'k chunk_store" where
  "store_chunks accepts [] m = (True, m)"
| "store_chunks accepts ((k, c) # cs) m = (if accepts k then store_chunks accepts cs (dput k c m) else (False, m))"

fun drop_keys :: "('k \<Rightarrow> bool) \<Rightarrow> 'k list \<Rightarrow> 'k chunk_store \<Rightarrow> bool \<times> 'k chunk_store" where
  "drop_keys deletes [] m = (True, m)"
| "drop_keys deletes (k # ks) m = (if deletes k then drop_keys deletes ks (ddel k m) else (False, m))"

text \<open>A missing piece fails the read.\<close>

fun gather :: "'k list \<Rightarrow> 'k chunk_store \<Rightarrow> nat list option" where
  "gather [] m = Some []"
| "gather (k # ks) m = (case dget m k of None \<Rightarrow> None | Some c \<Rightarrow> map_option ((@) c) (gather ks m))"

subsection \<open>What is stored is read back\<close>

lemma chunk_total_bounds: "0 < width \<Longrightarrow> n \<le> chunk_total width n * width" "0 < n \<Longrightarrow> 0 < width \<Longrightarrow> 0 < chunk_total width n"
proof -
  assume width: "0 < width"
  have "n + (width - 1) = chunk_total width n * width + (n + (width - 1)) mod width"
    by (simp add: chunk_total_def)
  moreover have "(n + (width - 1)) mod width < width" using width by simp
  ultimately show "n \<le> chunk_total width n * width" using width by linarith
  show "0 < n \<Longrightarrow> 0 < chunk_total width n" using width by (simp add: chunk_total_def div_greater_zero_iff)
qed

lemma concat_pieces: "concat (map (piece width bytes) [0..<n]) = take (n * width) bytes"
proof (induction n)
  case (Suc n)
  have "Suc n * width = n * width + width" by simp
  then show ?case using Suc by (simp only: take_add) (simp add: piece_def)
qed simp

lemma gather_map: "(\<And>j. j \<in> set js \<Longrightarrow> dget m (key j) = Some (g j)) \<Longrightarrow> gather (map key js) m = Some (concat (map g js))"
  by (induction js) simp_all

lemma gather_cong: "(\<And>k. k \<in> set ks \<Longrightarrow> dget m' k = dget m k) \<Longrightarrow> gather ks m' = gather ks m"
  by (induction ks) (auto split: option.split)

lemma store_chunks_other: "store_chunks accepts cs m = (ok, m') \<Longrightarrow> k \<notin> fst ` set cs \<Longrightarrow> dget m' k = dget m k"
  by (induction accepts cs m rule: store_chunks.induct) (auto split: if_splits)

lemma store_chunks_get: "store_chunks accepts cs m = (True, m') \<Longrightarrow> distinct (map fst cs) \<Longrightarrow> (k, c) \<in> set cs \<Longrightarrow> dget m' k = Some c"
proof (induction accepts cs m rule: store_chunks.induct)
  case (2 accepts k' c' cs m)
  then show ?case using store_chunks_other [of accepts cs "dput k' c' m" True m' k'] by (auto split: if_splits simp: image_iff)
qed simp

lemma drop_keys_other: "drop_keys deletes ks m = (ok, m') \<Longrightarrow> k \<notin> set ks \<Longrightarrow> dget m' k = dget m k"
  by (induction deletes ks m rule: drop_keys.induct) (auto split: if_splits)

lemma drop_keys_done: "(\<And>k. k \<in> set ks \<Longrightarrow> deletes k) \<Longrightarrow> fst (drop_keys deletes ks m)"
  by (induction ks arbitrary: m) simp_all

lemma drop_keys_get: "drop_keys deletes ks m = (True, m') \<Longrightarrow> k \<in> set ks \<Longrightarrow> dget m' k = None"
proof (induction deletes ks m rule: drop_keys.induct)
  case (2 deletes k' ks m)
  then show ?case using drop_keys_other [of deletes ks "ddel k' m" True m' k] by (cases "k \<in> set ks") (auto split: if_splits)
qed simp

lemma stored_bytes_gathered:
  assumes "store_chunks accepts (pieces width key bytes) m = (True, m')" and "inj key" and "0 < width"
  shows "gather (map key [0..<chunk_total width (length bytes)]) m' = Some bytes"
proof -
  have "distinct (map fst (pieces width key bytes))"
    using assms(2) by (simp add: pieces_def comp_def distinct_map inj_on_subset [of _ UNIV])
  then have get: "j < chunk_total width (length bytes) \<Longrightarrow> dget m' (key j) = Some (piece width bytes j)" for j
    by (intro store_chunks_get [OF assms(1)]) (auto simp: pieces_def)
  then have "gather (map key [0..<chunk_total width (length bytes)]) m' =
      Some (concat (map (piece width bytes) [0..<chunk_total width (length bytes)]))" by (intro gather_map) simp
  then show ?thesis using chunk_total_bounds(1) [OF assms(3), of "length bytes"] by (simp only: concat_pieces take_all)
qed

end
