(* ===== verification/Room_Files.thy ===== *)
theory Room_Files
  imports File_Chunks
begin

text \<open>
  The attachments of a Room: upload, read and discard (handleAttachmentUpload, agent-read-attachment,
  human-read-attachment and human-discard-task-attachment of app/src/do/RoomSession.ts), the tokens of the Task composer
  (app/src/common/taskAttachmentWake.ts), and the checks a browser makes on what it is answered
  (app/src/common/roomAttachments.ts).

  An upload reads the Room, then waits for its body and its chunks, then saves the Room it read: the
  handler has both the Room it \<open>loaded\<close> and the Room \<open>stored\<close> when it saves. The metadata is in the
  Room, the bytes under a key per attachment and index (\<open>attachment:<id>:<index>\<close>). A header is a
  byte string. A failing broadcast or alarm is left out.
\<close>

definition MAX_AGENT_ATTACHMENTS :: nat where "MAX_AGENT_ATTACHMENTS = 8"
definition MAX_AGENT_ATTACHMENT_BYTES :: nat where "MAX_AGENT_ATTACHMENT_BYTES = 768 * 1024"
definition ATTACHMENT_CHUNK_SIZE :: nat where "ATTACHMENT_CHUNK_SIZE = 64 * 1024"

definition ROOM_ATTACHMENT_MIME_TYPES :: "jstr list" where
  "ROOM_ATTACHMENT_MIME_TYPES = map lit [''image/jpeg'', ''image/png'', ''image/webp'', ''text/plain'', ''text/markdown'',
     ''text/csv'', ''application/json'', ''text/yaml'']"

definition isAgentAttachmentMimeType :: "jstr \<Rightarrow> bool" where
  "isAgentAttachmentMimeType s \<longleftrightarrow> s \<in> set ROOM_ATTACHMENT_MIME_TYPES"

subsection \<open>Headers\<close>

definition encodeTaskAttachmentWake :: "bool \<Rightarrow> jstr" where
  "encodeTaskAttachmentWake wake = (if wake then lit ''1'' else lit ''0'')"

definition parseTaskAttachmentWake :: "jstr option \<Rightarrow> bool option" where
  "parseTaskAttachmentWake v = (if v = Some (lit ''1'') then Some True else if v = Some (lit ''0'') then Some False else None)"

definition parseTaskAttachmentPending :: "jstr option \<Rightarrow> bool" where
  "parseTaskAttachmentPending v \<longleftrightarrow> v = Some (lit ''1'')"

text \<open>\<open>toLowerCase\<close> on the Latin-1 units of a header.\<close>

definition header_lower :: "code_unit \<Rightarrow> code_unit" where
  "header_lower c = (if is_upper c \<or> 0xc0 \<le> c \<and> c \<le> 0xde \<and> c \<noteq> 0xd7 then c + 0x20 else c)"

definition media_type :: "jstr option \<Rightarrow> jstr" where
  "media_type v = map header_lower (takeWhile (\<lambda>c. c \<noteq> 0x3b) (case v of Some s \<Rightarrow> s | None \<Rightarrow> []))"

text \<open>\<open>n > limit\<close> on the number of a Content-Length header; a text that is no number is \<open>NaN\<close>.\<close>

definition exceeds :: "jnum \<Rightarrow> int \<Rightarrow> bool" where
  "exceeds n limit = (case n of Fin q \<Rightarrow> of_int limit < q | PosInf \<Rightarrow> True | _ \<Rightarrow> False)"

definition declared_other :: "jnum \<Rightarrow> nat \<Rightarrow> bool" where
  "declared_other declared n \<longleftrightarrow> exceeds declared 0 \<and> declared \<noteq> jint (int n)"

record upload =
  up_participantId :: jstr
  up_token :: jstr
  up_taskRequestId :: "jstr option"
  up_pending :: "jstr option"
  up_wake :: "jstr option"
  up_contentType :: "jstr option"
  up_declared :: jnum
  up_body :: "nat list"
  up_fileName :: "jstr option"

definition requested_task :: "upload \<Rightarrow> jstr option" where
  "requested_task u = truthy_str (map_option js_trim (up_taskRequestId u))"

text \<open>An upload for a Task that is about to be created.\<close>

definition pendingTaskContext :: "participant \<Rightarrow> upload \<Rightarrow> bool" where
  "pendingTaskContext p u = (case requested_task u of
     None \<Rightarrow> False
   | Some t \<Rightarrow> p_kind p = Human \<and> parseTaskAttachmentPending (up_pending u) \<and> isCanonicalCollabRequestId (JStr t))"

definition requestedTaskWake :: "participant \<Rightarrow> upload \<Rightarrow> bool" where
  "requestedTaskWake p u \<longleftrightarrow> requested_task u \<noteq> None \<and> \<not> pendingTaskContext p u \<and> p_kind p = Human \<and>
     parseTaskAttachmentWake (up_wake u) = Some True"

definition stored_file_name :: "jstr option \<Rightarrow> jstr" where
  "stored_file_name header =
     (let raw = (case header of Some s \<Rightarrow> s | None \<Rightarrow> lit ''image'');
          decoded = (case decodeURIComponent raw of Some s \<Rightarrow> s | None \<Rightarrow> lit ''image'');
          name = take 256 (js_trim decoded) in
      if name = [] then lit ''image'' else name)"

subsection \<open>Upload\<close>

definition task_refusal :: "room \<Rightarrow> participant \<Rightarrow> bool \<Rightarrow> jstr \<Rightarrow> (nat \<times> string) option" where
  "task_refusal r p staging t =
     (case resolveTaskRequest (buildTaskProjectionIndex (r_messages r) (r_participants r)) (JStr t) (r_participants r) of
        Inl e \<Rightarrow> if staging then None else Some (if e = ''unknown_task_request'' then 409 else 403, e)
      | Inr resolution \<Rightarrow>
          if tr_agents resolution = [] then Some (403, ''task_target_not_in_room'')
          else if p_kind p = Agent \<and> p_id p \<notin> set (tr_agents resolution) then Some (403, ''task_attachment_not_participant'')
          else None)"

definition body_refusal :: "upload \<Rightarrow> (nat \<times> string) option" where
  "body_refusal u =
     (if \<not> isAgentAttachmentMimeType (media_type (up_contentType u)) then Some (415, ''unsupported_attachment_type'')
      else if exceeds (up_declared u) (int MAX_AGENT_ATTACHMENT_BYTES) then Some (413, ''attachment_too_large'')
      else if up_body u = [] \<or> MAX_AGENT_ATTACHMENT_BYTES < length (up_body u) \<or> declared_other (up_declared u) (length (up_body u))
      then Some (400, ''invalid_attachment'') else None)"

definition upload_refusal :: "room \<Rightarrow> participant \<Rightarrow> upload \<Rightarrow> (nat \<times> string) option" where
  "upload_refusal r p u = (let staging = pendingTaskContext p u in
     if parseTaskAttachmentPending (up_pending u) \<and> \<not> staging then Some (400, ''invalid_task_request'')
     else (case Option.bind (requested_task u) (task_refusal r p staging) of
       Some e \<Rightarrow> Some e
     | None \<Rightarrow>
         if staging \<and> MAX_AGENT_ATTACHMENTS \<le> length (r_attachments r) then Some (409, ''attachment_store_full'')
         else body_refusal u))"

type_synonym attachment_chunks = "(jstr \<times> nat) chunk_store"

definition new_attachment :: "jstr \<Rightarrow> int \<Rightarrow> room \<Rightarrow> participant \<Rightarrow> upload \<Rightarrow> attachment" where
  "new_attachment i now r p u = \<lparr>at_id = i, at_senderId = p_id p, at_senderName = p_name p, at_senderKind = p_kind p,
     at_mimeType = media_type (up_contentType u), at_fileName = stored_file_name (up_fileName u),
     at_size = int (length (up_body u)), at_chunkCount = int (chunk_total ATTACHMENT_CHUNK_SIZE (length (up_body u))),
     at_createdAt = now, at_sequence = r_nextMessageSequence r + 1, at_taskRequestId = requested_task u,
     at_taskWake = map_option (\<lambda>_. requestedTaskWake p u) (requested_task u)\<rparr>"

definition attachment_keys :: "attachment \<Rightarrow> (jstr \<times> nat) list" where
  "attachment_keys a = map (Pair (at_id a)) [0..<nat (at_chunkCount a)]"

text \<open>The catch of the upload: the new chunks go, whatever has been saved.\<close>

definition undo_upload :: "(jstr \<times> nat \<Rightarrow> bool) \<Rightarrow> attachment \<Rightarrow> room \<Rightarrow> attachment_chunks \<Rightarrow> attachment reply \<times> room \<times> attachment_chunks" where
  "undo_upload deletes a stored m = (case drop_keys deletes (attachment_keys a) m of
     (True, m') \<Rightarrow> (Refused 503 ''attachment_unavailable'', stored, m') | (False, m') \<Rightarrow> (Raised, stored, m'))"

definition with_attachment :: "int \<Rightarrow> participant \<Rightarrow> attachment \<Rightarrow> room \<Rightarrow> room" where
  "with_attachment now p a r = set_participant (p\<lparr>p_lastSeenAt := now\<rparr>)
     (r\<lparr>r_nextMessageSequence := at_sequence a, r_attachments := slice_last MAX_AGENT_ATTACHMENTS (r_attachments r @ [a])\<rparr>)"

definition evicted_by :: "attachment \<Rightarrow> room \<Rightarrow> attachment list" where
  "evicted_by a r = take (length (r_attachments r @ [a]) - MAX_AGENT_ATTACHMENTS) (r_attachments r @ [a])"

definition handleAttachmentUpload :: "(room \<Rightarrow> bool) \<Rightarrow> (jstr \<times> nat \<Rightarrow> bool) \<Rightarrow> (jstr \<times> nat \<Rightarrow> bool) \<Rightarrow> int \<Rightarrow> jstr \<Rightarrow> upload \<Rightarrow>
    room \<Rightarrow> room \<Rightarrow> attachment_chunks \<Rightarrow> attachment reply \<times> room \<times> attachment_chunks" where
  "handleAttachmentUpload fits accepts deletes now i u loaded stored m =
     (case findParticipant loaded (up_participantId u) (up_token u) of
        None \<Rightarrow> (Refused 401 ''unauthorized'', stored, m)
      | Some p \<Rightarrow> (case upload_refusal loaded p u of
          Some (status, e) \<Rightarrow> (Refused status e, stored, m)
        | None \<Rightarrow>
            (let a = new_attachment i now loaded p u in
             case store_chunks accepts (pieces ATTACHMENT_CHUNK_SIZE (Pair i) (up_body u)) m of
               (False, m) \<Rightarrow> undo_upload deletes a stored m
             | (True, m) \<Rightarrow>
                 if pendingTaskContext p u \<and> MAX_AGENT_ATTACHMENTS \<le> length (r_attachments loaded) then
                   (case drop_keys deletes (attachment_keys a) m of
                      (True, m) \<Rightarrow> (Refused 409 ''attachment_store_full'', stored, m)
                    | (False, m) \<Rightarrow> undo_upload deletes a stored m)
                 else (case saveRoom fits (with_attachment now p a loaded) of
                   None \<Rightarrow> undo_upload deletes a stored m
                 | Some saved \<Rightarrow> (case drop_keys deletes (concat (map attachment_keys (evicted_by a loaded))) m of
                     (True, m) \<Rightarrow> (Done a, saved, m)
                   | (False, m) \<Rightarrow> undo_upload deletes a saved m)))))"

text \<open>
  The Worker's half of the route (app/src/room/server.ts): it reads the body, checks it and hands on
  a request of its own. The encoded file name is cut after 512 units.
\<close>

definition MAX_ROOM_LENGTH :: nat where "MAX_ROOM_LENGTH = 64"

definition worker_upload :: "jstr option \<Rightarrow> upload \<Rightarrow> (nat \<times> string) + upload" where
  "worker_upload roomHeader u =
     (let room_id = js_trim (case roomHeader of Some s \<Rightarrow> s | None \<Rightarrow> []); mimeType = media_type (up_contentType u) in
      if room_id = [] \<or> MAX_ROOM_LENGTH < length room_id \<or> up_participantId u = [] \<or> up_token u = []
      then Inl (400, ''missing_room_capability'')
      else if \<not> isAgentAttachmentMimeType mimeType then Inl (415, ''unsupported_image_type'')
      else if exceeds (up_declared u) (int MAX_AGENT_ATTACHMENT_BYTES) then Inl (413, ''attachment_too_large'')
      else if up_body u = [] \<or> MAX_AGENT_ATTACHMENT_BYTES < length (up_body u) \<or> declared_other (up_declared u) (length (up_body u))
      then Inl (400, ''invalid_attachment'')
      else Inr (u\<lparr>up_contentType := Some mimeType, up_declared := jint (int (length (up_body u))),
        up_fileName := map_option (take 512) (truthy_str (up_fileName u)),
        up_taskRequestId := map_option (take 64) (truthy_str (map_option js_trim (up_taskRequestId u))),
        up_wake := map_option encodeTaskAttachmentWake (parseTaskAttachmentWake (up_wake u)),
        up_pending := (if parseTaskAttachmentPending (up_pending u) then Some (lit ''1'') else None)\<rparr>))"

text \<open>A stored attachment leaves the Room, then its chunks.\<close>

definition unlist_attachment :: "(room \<Rightarrow> bool) \<Rightarrow> (jstr \<times> nat \<Rightarrow> bool) \<Rightarrow> int \<Rightarrow> participant \<Rightarrow> attachment \<Rightarrow> room \<Rightarrow>
    attachment_chunks \<Rightarrow> bool reply \<times> room \<times> attachment_chunks" where
  "unlist_attachment fits deletes now p a r m =
     (case saveRoom fits (set_participant (p\<lparr>p_lastSeenAt := now\<rparr>)
         (r\<lparr>r_attachments := filter (\<lambda>x. at_id x \<noteq> at_id a) (r_attachments r)\<rparr>)) of
        None \<Rightarrow> (Unsaved, r, m)
      | Some r' \<Rightarrow> (case drop_keys deletes (attachment_keys a) m of
          (True, m') \<Rightarrow> (Done True, r', m') | (False, m') \<Rightarrow> (Raised, r', m')))"

subsection \<open>Reading\<close>

definition readAttachmentPayload :: "room \<Rightarrow> attachment_chunks \<Rightarrow> jstr \<Rightarrow> (attachment \<times> jstr) option" where
  "readAttachmentPayload r m i = (case find (\<lambda>a. at_id a = i) (r_attachments r) of
     None \<Rightarrow> None
   | Some a \<Rightarrow> map_option (\<lambda>bytes. (a, btoa bytes)) (gather (attachment_keys a) m))"

definition task_member :: "jstr option \<Rightarrow> (jstr \<times> js) list" where
  "task_member t = (case truthy_str t of Some t \<Rightarrow> [(lit ''taskRequestId'', JStr t)] | None \<Rightarrow> [])"

definition attachment_answer :: "room \<Rightarrow> attachment \<Rightarrow> jstr \<Rightarrow> js" where
  "attachment_answer r a data = JObj [
     (lit ''attachment'', JObj ([(lit ''id'', JStr (at_id a)), (lit ''fileName'', JStr (at_fileName a)),
        (lit ''mimeType'', JStr (at_mimeType a)), (lit ''size'', JNum (jint (at_size a)))] @ task_member (at_taskRequestId a))),
     (lit ''data'', JStr data), (lit ''expiresAt'', JNum (jint (r_expiresAt r)))]"

definition read_reply :: "(room \<Rightarrow> bool) \<Rightarrow> int \<Rightarrow> participant \<Rightarrow> room \<Rightarrow> attachment_chunks \<Rightarrow> jstr \<Rightarrow> js reply \<times> room" where
  "read_reply fits now p r m i = (case readAttachmentPayload r m i of
     None \<Rightarrow> (Refused 404 ''attachment_unavailable'', r)
   | Some (a, data) \<Rightarrow> save_reply fits r (set_participant (p\<lparr>p_lastSeenAt := now\<rparr>) r) (attachment_answer r a data))"

definition agent_read_attachment :: "(room \<Rightarrow> bool) \<Rightarrow> int \<Rightarrow> jstr \<Rightarrow> jstr \<Rightarrow> jstr \<Rightarrow> room \<Rightarrow> attachment_chunks \<Rightarrow> js reply \<times> room" where
  "agent_read_attachment fits now pid token i r m = (case findParticipant r pid token of
     None \<Rightarrow> (Refused 401 ''unauthorized'', r)
   | Some p \<Rightarrow>
       if p_kind p \<noteq> Agent then (Refused 403 ''agent_only'', r)
       else (case find (\<lambda>a. at_id a = i) (r_attachments r) of
         None \<Rightarrow> (Refused 404 ''attachment_unavailable'', r)
       | Some a \<Rightarrow>
           if (case at_taskRequestId a of
               Some t \<Rightarrow> \<not> taskAgentParticipates (buildTaskProjectionIndex (r_messages r) (r_participants r)) t (p_id p) | None \<Rightarrow> False)
           then (Refused 404 ''attachment_unavailable'', r)
           else read_reply fits now p r m i))"

definition human_read_attachment :: "(room \<Rightarrow> bool) \<Rightarrow> int \<Rightarrow> jstr \<Rightarrow> jstr \<Rightarrow> jstr \<Rightarrow> room \<Rightarrow> attachment_chunks \<Rightarrow> js reply \<times> room" where
  "human_read_attachment fits now pid token i r m = (case findParticipant r pid token of
     None \<Rightarrow> (Refused 401 ''unauthorized'', r)
   | Some p \<Rightarrow> if p_kind p \<noteq> Human then (Refused 403 ''human_only'', r) else read_reply fits now p r m i)"

text \<open>What every browser is shown of the attachments.\<close>

definition projectRoomAttachments :: "room \<Rightarrow> attachment list" where
  "projectRoomAttachments r = map (\<lambda>a. a\<lparr>at_taskRequestId := truthy_str (at_taskRequestId a)\<rparr>) (r_attachments r)"

subsection \<open>A stored record\<close>

text \<open>\<open>kind\<close> is the stored sender kind; a record of a former release has none.\<close>

definition optional_member :: "string \<Rightarrow> js option \<Rightarrow> (jstr \<times> js) list" where
  "optional_member k v = (case v of Some x \<Rightarrow> [(lit k, x)] | None \<Rightarrow> [])"

definition kind_js :: "participant_kind \<Rightarrow> js" where
  "kind_js k = JStr (lit (case k of Human \<Rightarrow> ''human'' | Agent \<Rightarrow> ''agent''))"

definition attachment_js :: "attachment \<Rightarrow> js" where
  "attachment_js a = JObj ([(lit ''id'', JStr (at_id a)), (lit ''senderId'', JStr (at_senderId a)),
     (lit ''senderName'', JStr (at_senderName a)), (lit ''senderKind'', kind_js (at_senderKind a)),
     (lit ''mimeType'', JStr (at_mimeType a)), (lit ''fileName'', JStr (at_fileName a)),
     (lit ''size'', JNum (jint (at_size a))), (lit ''chunkCount'', JNum (jint (at_chunkCount a))),
     (lit ''createdAt'', JNum (jint (at_createdAt a))), (lit ''sequence'', JNum (jint (at_sequence a)))] @
     optional_member ''taskRequestId'' (map_option JStr (at_taskRequestId a)) @
     optional_member ''taskWake'' (map_option JBool (at_taskWake a)))"

definition is_string :: "js \<Rightarrow> bool" where
  "is_string v = (case v of JStr _ \<Rightarrow> True | _ \<Rightarrow> False)"

definition is_number :: "js \<Rightarrow> bool" where
  "is_number v = (case v of JNum _ \<Rightarrow> True | _ \<Rightarrow> False)"

definition is_boolean :: "js \<Rightarrow> bool" where
  "is_boolean v = (case v of JBool _ \<Rightarrow> True | _ \<Rightarrow> False)"

definition string_within :: "js \<Rightarrow> nat \<Rightarrow> bool" where
  "string_within v n = (case v of JStr s \<Rightarrow> s \<noteq> [] \<and> length s \<le> n | _ \<Rightarrow> False)"

definition allowed_mime :: "js \<Rightarrow> bool" where
  "allowed_mime v = (case v of JStr s \<Rightarrow> isAgentAttachmentMimeType s | _ \<Rightarrow> False)"

definition positive_within :: "js \<Rightarrow> int \<Rightarrow> bool" where
  "positive_within v n = (case js_safe_int v of Some i \<Rightarrow> 0 < i \<and> i \<le> n | None \<Rightarrow> False)"

definition validAttachment :: "js \<Rightarrow> bool" where
  "validAttachment v \<longleftrightarrow> is_objectish v \<and> is_string (js_get v ''id'') \<and> is_string (js_get v ''senderId'') \<and>
     is_string (js_get v ''senderName'') \<and>
     js_get v ''senderKind'' \<in> {kind_js Human, kind_js Agent, JUndefined} \<and>
     allowed_mime (js_get v ''mimeType'') \<and> is_string (js_get v ''fileName'') \<and>
     positive_within (js_get v ''size'') (int MAX_AGENT_ATTACHMENT_BYTES) \<and>
     positive_within (js_get v ''chunkCount'') (int (chunk_total ATTACHMENT_CHUNK_SIZE MAX_AGENT_ATTACHMENT_BYTES)) \<and>
     is_number (js_get v ''createdAt'') \<and> is_number (js_get v ''sequence'') \<and>
     (js_get v ''taskRequestId'' = JUndefined \<or> string_within (js_get v ''taskRequestId'') 64) \<and>
     (js_get v ''taskWake'' = JUndefined \<or> is_boolean (js_get v ''taskWake''))"

text \<open>The attachments a load keeps, as stored values; a missing kind is the sender's, if the sender is known.\<close>

definition load_attachment :: "participants \<Rightarrow> js \<Rightarrow> js list" where
  "load_attachment ps v =
     (if \<not> validAttachment v then []
      else if js_get v ''senderKind'' \<noteq> JUndefined then [v]
      else (case (v, js_get v ''senderId'') of
        (JObj xs, JStr sender) \<Rightarrow> (case dget ps sender of
            Some p \<Rightarrow> [JObj (dput (lit ''senderKind'') (kind_js (p_kind p)) xs)] | None \<Rightarrow> [])
      | _ \<Rightarrow> []))"

definition load_attachments :: "participants \<Rightarrow> js \<Rightarrow> js list" where
  "load_attachments ps v = (case v of JArr xs \<Rightarrow> concat (map (load_attachment ps) xs) | _ \<Rightarrow> [])"

subsection \<open>The browser's checks\<close>

record client_attachment =
  ca_id :: jstr
  ca_fileName :: jstr
  ca_mimeType :: jstr
  ca_size :: int
  ca_taskRequestId :: "jstr option"

definition client_fields :: "js \<Rightarrow> client_attachment option" where
  "client_fields v = (case (js_get v ''id'', js_get v ''fileName'', js_get v ''mimeType'', js_safe_int (js_get v ''size'')) of
     (JStr i, JStr name, JStr mime, Some n) \<Rightarrow>
       Some \<lparr>ca_id = i, ca_fileName = name, ca_mimeType = mime, ca_size = n, ca_taskRequestId = js_str (js_get v ''taskRequestId'')\<rparr>
   | _ \<Rightarrow> None)"

definition optional_task_ok :: "js \<Rightarrow> bool" where
  "optional_task_ok v \<longleftrightarrow> js_get v ''taskRequestId'' = JUndefined \<or> string_within (js_get v ''taskRequestId'') 64"

definition validateUploadedRoomAttachment :: "js \<Rightarrow> client_attachment option" where
  "validateUploadedRoomAttachment payload = (let v = js_get payload ''attachment'' in
     if \<not> is_objectish payload \<or> \<not> is_objectish v then None
     else if \<not> string_within (js_get v ''id'') 64 \<or> \<not> string_within (js_get v ''fileName'') 256 \<or> \<not> allowed_mime (js_get v ''mimeType'')
     then None
     else if \<not> positive_within (js_get v ''size'') (int MAX_AGENT_ATTACHMENT_BYTES) \<or> \<not> optional_task_ok v then None
     else client_fields v)"

definition validateRoomAttachmentRead :: "js \<Rightarrow> jstr \<Rightarrow> string + client_attachment \<times> jstr \<times> nat list" where
  "validateRoomAttachmentRead payload requested = (let v = js_get payload ''attachment'' in
     if \<not> is_objectish payload \<or> \<not> is_objectish v then Inl ''invalid_attachment_payload''
     else if \<not> is_string (js_get v ''id'') \<or> \<not> string_within (js_get v ''fileName'') 256 \<or> \<not> allowed_mime (js_get v ''mimeType'')
       \<or> \<not> is_string (js_get payload ''data'') \<or> \<not> optional_task_ok v
     then Inl ''invalid_attachment_payload''
     else if js_get v ''id'' \<noteq> JStr requested then Inl ''attachment_mismatch''
     else if \<not> positive_within (js_get v ''size'') (int MAX_AGENT_ATTACHMENT_BYTES) then Inl ''invalid_attachment_payload''
     else (case (client_fields v, js_get payload ''data'') of
       (Some a, JStr data) \<Rightarrow> (case decodeBase64 data of
           Some bytes \<Rightarrow> if int (length bytes) = ca_size a then Inr (a, data, bytes) else Inl ''invalid_attachment_payload''
         | None \<Rightarrow> Inl ''invalid_attachment_payload'')
     | _ \<Rightarrow> Inl ''invalid_attachment_payload''))"

subsection \<open>What an upload leaves\<close>

lemma chunk_sizes: "ATTACHMENT_CHUNK_SIZE = 65536" "MAX_AGENT_ATTACHMENT_BYTES = 786432" "MAX_AGENT_ATTACHMENTS = 8"
  by (simp_all add: ATTACHMENT_CHUNK_SIZE_def MAX_AGENT_ATTACHMENT_BYTES_def MAX_AGENT_ATTACHMENTS_def)

lemma inj_Pair: "inj (Pair i)"
  by (simp add: inj_on_def)

lemma save_attachments: "saveRoom fits r = Some r' \<Longrightarrow> r_attachments r' = r_attachments r"
  by (auto dest!: save_cases simp: trimRoomMessagesToBudget_def)

lemma save_participants: "saveRoom fits r = Some r' \<Longrightarrow> r_participants r' = r_participants r"
  by (auto dest!: save_cases simp: trimRoomMessagesToBudget_def)

lemma set_participant_attachments [simp]: "r_attachments (set_participant p r) = r_attachments r"
  by (simp add: set_participant_def)

lemma with_attachment_list [simp]: "r_attachments (with_attachment now p a r) = slice_last MAX_AGENT_ATTACHMENTS (r_attachments r @ [a])"
  by (simp add: with_attachment_def)

lemma new_attachment_keys: "attachment_keys (new_attachment i now r p u) = map (Pair i) [0..<chunk_total ATTACHMENT_CHUNK_SIZE (length (up_body u))]"
  by (simp add: attachment_keys_def new_attachment_def)

lemma keys_of_id: "k \<in> set (attachment_keys a) \<Longrightarrow> fst k = at_id a"
  by (auto simp: attachment_keys_def)

lemma evicted_old: "x \<in> set (evicted_by a r) \<Longrightarrow> x \<in> set (r_attachments r)"
  by (auto simp: evicted_by_def chunk_sizes take_append dest: in_set_takeD)

lemma kept_or_evicted: "slice_last MAX_AGENT_ATTACHMENTS (xs @ [a]) = drop (length xs + 1 - 8) xs @ [a]"
  by (simp add: slice_last_def chunk_sizes drop_append)

text \<open>An upload answers with the attachment, or leaves the stored Room, or fails after its save.\<close>

lemma upload_done:
  assumes "handleAttachmentUpload fits accepts deletes now i u loaded stored m = (Done a, r', m')"
  obtains p m1 where "findParticipant loaded (up_participantId u) (up_token u) = Some p" "upload_refusal loaded p u = None"
    "a = new_attachment i now loaded p u" "store_chunks accepts (pieces ATTACHMENT_CHUNK_SIZE (Pair i) (up_body u)) m = (True, m1)"
    "saveRoom fits (with_attachment now p a loaded) = Some r'"
    "drop_keys deletes (concat (map attachment_keys (evicted_by a loaded))) m1 = (True, m')"
  using assms by (auto simp: handleAttachmentUpload_def undo_upload_def Let_def split: option.splits prod.splits bool.splits if_splits)

lemma refused_body: "upload_refusal r p u = None \<Longrightarrow> body_refusal u = None"
  by (auto simp: upload_refusal_def Let_def split: if_splits option.splits)

lemma accepted_body: "body_refusal u = None \<Longrightarrow> isAgentAttachmentMimeType (media_type (up_contentType u)) \<and> up_body u \<noteq> [] \<and>
    length (up_body u) \<le> 786432"
  by (auto simp: body_refusal_def chunk_sizes split: if_splits)

lemma stored_file_name_within: "stored_file_name h \<noteq> [] \<and> length (stored_file_name h) \<le> 256"
proof -
  have "lit ''image'' \<noteq> [] \<and> length (lit ''image'') \<le> 256" by simp
  then show ?thesis by (simp add: stored_file_name_def Let_def)
qed

lemma find_unique: "a \<in> set xs \<Longrightarrow> (\<And>x. x \<in> set xs \<Longrightarrow> f x = f a \<Longrightarrow> x = a) \<Longrightarrow> find (\<lambda>x. f x = f a) xs = Some a"
  by (induction xs) auto

lemma uploaded_listed:
  assumes "handleAttachmentUpload fits accepts deletes now i u loaded stored m = (Done a, r', m')"
    and "i \<notin> at_id ` set (r_attachments loaded)"
  shows "find (\<lambda>x. at_id x = i) (r_attachments r') = Some a \<and> gather (attachment_keys a) m' = Some (up_body u)"
proof -
  obtain p m1 where up: "a = new_attachment i now loaded p u"
    "store_chunks accepts (pieces ATTACHMENT_CHUNK_SIZE (Pair i) (up_body u)) m = (True, m1)"
    "saveRoom fits (with_attachment now p a loaded) = Some r'"
    "drop_keys deletes (concat (map attachment_keys (evicted_by a loaded))) m1 = (True, m')"
    using upload_done [OF assms(1)] by blast
  have i: "at_id a = i" by (simp add: up(1) new_attachment_def)
  have list: "r_attachments r' = slice_last MAX_AGENT_ATTACHMENTS (r_attachments loaded @ [a])"
    using save_attachments [OF up(3)] by simp
  have "a \<in> set (r_attachments r')" unfolding list by (simp add: kept_or_evicted)
  moreover have "x = a" if "x \<in> set (r_attachments r')" "at_id x = at_id a" for x
    using that assms(2) i unfolding list by (auto simp: kept_or_evicted dest: in_set_dropD)
  ultimately have "find (\<lambda>x. at_id x = i) (r_attachments r') = Some a" using find_unique [of a "r_attachments r'" at_id] i by blast
  moreover have "gather (attachment_keys a) m1 = Some (up_body u)"
    unfolding up(1) new_attachment_keys by (rule stored_bytes_gathered [OF up(2) inj_Pair]) (simp add: chunk_sizes)
  moreover have "gather (attachment_keys a) m' = gather (attachment_keys a) m1"
  proof (rule gather_cong)
    fix k assume "k \<in> set (attachment_keys a)"
    then have "fst k = i" using keys_of_id i by metis
    then have "k \<notin> set (concat (map attachment_keys (evicted_by a loaded)))"
      using assms(2) keys_of_id evicted_old [of _ a loaded] by fastforce
    then show "dget m' k = dget m1 k" by (rule drop_keys_other [OF up(4)])
  qed
  ultimately show ?thesis by simp
qed

subsection \<open>An uploaded file is read back\<close>

lemma answer_js:
  "js_get (attachment_answer r a data) ''attachment'' = JObj ([(lit ''id'', JStr (at_id a)), (lit ''fileName'', JStr (at_fileName a)),
        (lit ''mimeType'', JStr (at_mimeType a)), (lit ''size'', JNum (jint (at_size a)))] @ task_member (at_taskRequestId a))"
  "js_get (attachment_answer r a data) ''data'' = JStr data" "is_objectish (attachment_answer r a data)"
  by (simp_all add: attachment_answer_def js_get_def is_objectish_def)

lemma member_js:
  assumes "v = JObj ([(lit ''id'', JStr i), (lit ''fileName'', JStr name), (lit ''mimeType'', JStr mime), (lit ''size'', JNum n)] @ task_member t)"
  shows "js_get v ''id'' = JStr i" "js_get v ''fileName'' = JStr name" "js_get v ''mimeType'' = JStr mime" "js_get v ''size'' = JNum n"
    "js_get v ''taskRequestId'' = (case truthy_str t of Some t \<Rightarrow> JStr t | None \<Rightarrow> JUndefined)" "is_objectish v"
  by (simp_all add: assms js_get_def is_objectish_def task_member_def split: option.split)

lemma answer_accepted:
  assumes "decodeBase64 data = Some bytes" and "at_size a = int (length bytes)" and "length bytes \<le> 786432"
    and "isAgentAttachmentMimeType (at_mimeType a)" and "at_fileName a \<noteq> [] \<and> length (at_fileName a) \<le> 256"
    and "case at_taskRequestId a of Some t \<Rightarrow> t \<noteq> [] \<and> length t \<le> 64 | None \<Rightarrow> True"
  shows "validateRoomAttachmentRead (attachment_answer r a data) (at_id a) =
    Inr (\<lparr>ca_id = at_id a, ca_fileName = at_fileName a, ca_mimeType = at_mimeType a, ca_size = at_size a,
      ca_taskRequestId = at_taskRequestId a\<rparr>, data, bytes)"
proof -
  note v = member_js [OF answer_js(1) [of r a data]]
  have "bytes \<noteq> []" using assms(1) by (auto simp: decodeBase64_def split: if_splits option.splits list.splits)
  then have size: "js_safe_int (JNum (jint (at_size a))) = Some (at_size a)" "0 < at_size a" "at_size a \<le> 786432"
    using assms(2,3) by (simp_all add: js_safe_int_def)
  have task: "js_get (js_get (attachment_answer r a data) ''attachment'') ''taskRequestId'' =
      (case at_taskRequestId a of Some t \<Rightarrow> JStr t | None \<Rightarrow> JUndefined)"
    using v(5) assms(6) by (cases "at_taskRequestId a") (simp_all add: truthy_str_def)
  show ?thesis
    unfolding validateRoomAttachmentRead_def Let_def client_fields_def optional_task_ok_def v(1-4,6) task answer_js(2,3)
    using assms size by (cases "at_taskRequestId a")
      (simp_all add: is_string_def string_within_def allowed_mime_def positive_within_def chunk_sizes js_str_def v(6) answer_js(3))
qed

lemma worker_task: "worker_upload h q = Inr u \<Longrightarrow> case requested_task u of Some t \<Rightarrow> t \<noteq> [] \<and> length t \<le> 64 | None \<Rightarrow> True"
proof -
  assume "worker_upload h q = Inr u"
  then have "case up_taskRequestId u of Some t \<Rightarrow> length t \<le> 64 | None \<Rightarrow> True"
    by (auto simp: worker_upload_def Let_def split: if_splits option.splits)
  then show ?thesis using length_js_trim
    by (auto simp: requested_task_def truthy_str_def split: option.splits intro: le_trans)
qed

lemma worker_body: "worker_upload h q = Inr u \<Longrightarrow> up_body u = up_body q"
  by (auto simp: worker_upload_def Let_def split: if_splits)

text \<open>
  C3: Through the Worker and the Room: what a participant uploads is what another Human's browser accepts
  when it reads the attachment back, byte for byte, with the metadata of the record.
\<close>

theorem uploaded_file_is_read_back:
  assumes "worker_upload h q = Inr u" and "list_all is_byte (up_body q)"
    and "handleAttachmentUpload fits accepts deletes now i u loaded stored m = (Done a, r', m')"
    and "i \<notin> at_id ` set (r_attachments loaded)"
    and "findParticipant r' pid token = Some reader" and "p_kind reader = Human"
    and "saveRoom fits' (set_participant (reader\<lparr>p_lastSeenAt := later\<rparr>) r') \<noteq> None"
  shows "\<exists>answer r''. human_read_attachment fits' later pid token i r' m' = (Done answer, r'') \<and>
    validateRoomAttachmentRead answer i = Inr (\<lparr>ca_id = i, ca_fileName = stored_file_name (up_fileName u),
      ca_mimeType = media_type (up_contentType u), ca_size = int (length (up_body q)), ca_taskRequestId = requested_task u\<rparr>,
      btoa (up_body q), up_body q)"
proof -
  obtain p where p: "upload_refusal loaded p u = None" "a = new_attachment i now loaded p u"
    using upload_done [OF assms(3)] by blast
  have listed: "find (\<lambda>x. at_id x = i) (r_attachments r') = Some a" "gather (attachment_keys a) m' = Some (up_body u)"
    using uploaded_listed [OF assms(3,4)] by simp_all
  have body: "isAgentAttachmentMimeType (media_type (up_contentType u))" "up_body u \<noteq> []" "length (up_body u) \<le> 786432"
    using accepted_body [OF refused_body [OF p(1)]] by simp_all
  have "decodeBase64 (btoa (up_body u)) = Some (up_body u)"
    using base64_round_trip assms(2) body(2) worker_body [OF assms(1)] by simp
  then have valid: "validateRoomAttachmentRead (attachment_answer r' a (btoa (up_body u))) (at_id a) =
      Inr (\<lparr>ca_id = at_id a, ca_fileName = at_fileName a, ca_mimeType = at_mimeType a, ca_size = at_size a,
      ca_taskRequestId = at_taskRequestId a\<rparr>, btoa (up_body u), up_body u)"
    by (rule answer_accepted) (use body worker_task [OF assms(1)] stored_file_name_within in \<open>simp_all add: p(2) new_attachment_def\<close>)
  have "readAttachmentPayload r' m' i = Some (a, btoa (up_body u))" using listed by (simp add: readAttachmentPayload_def)
  then have "\<exists>r''. human_read_attachment fits' later pid token i r' m' = (Done (attachment_answer r' a (btoa (up_body u))), r'')"
    using assms(5-7) by (auto simp: human_read_attachment_def read_reply_def save_reply_def split: option.splits)
  then show ?thesis using valid worker_body [OF assms(1)] by (auto simp: p(2) new_attachment_def)
qed

subsection \<open>File names\<close>

text \<open>A name whose encoded form the Worker does not cut is stored as it is.\<close>

theorem file_name_round_trip:
  assumes "encodeURIComponent name = Some t" and "length t \<le> 512" and "name \<noteq> []" and "js_trim name = name" and "length name \<le> 256"
    and "up_fileName q = Some t" and "worker_upload h q = Inr u"
  shows "stored_file_name (up_fileName u) = name"
proof -
  have "decodeURIComponent t = Some name" by (rule uri_component_round_trip) (fact assms(1))
  moreover have "t \<noteq> []" using calculation assms(3) by auto
  moreover from this have "up_fileName u = Some t" using assms(2,6,7)
    by (auto simp: worker_upload_def Let_def truthy_str_def split: if_splits)
  ultimately show ?thesis using assms(3-5) by (simp add: stored_file_name_def Let_def)
qed

text \<open>
  A name of 57 or more times the character U+4E2D is cut inside a character, cannot be decoded and
  becomes "image".
\<close>

lemma decode_repeated:
  "valid_point p \<Longrightarrow> decodeURIComponent (concat (replicate n (percent_point p)) @ s) =
    map_option ((@) (concat (replicate n (units_of p)))) (decodeURIComponent s)"
proof (induction n)
  case 0
  show ?case by (cases "decodeURIComponent s") simp_all
next
  case (Suc n)
  then show ?case by (cases "decodeURIComponent s") (simp_all add: decode_percent_point)
qed

lemma encode_repeated: "encodeURIComponent (replicate n 0x4e2d) = Some (concat (replicate n (percent_point 0x4e2d)))"
proof -
  have plain: "\<not> is_high_surrogate 0x4e2d" "\<not> is_low_surrogate 0x4e2d" "scalar_of 0x4e2d = 0x4e2d" by code_simp+
  have "well_formed (replicate n 0x4e2d)" by (rule well_formed_plain) (use plain in auto)
  moreover have "code_points (replicate n 0x4e2d) = replicate n 0x4e2d"
  proof (induction n)
    case (Suc n)
    then show ?case using plain by (cases n) simp_all
  qed simp
  ultimately show ?thesis by (simp add: encodeURIComponent_def)
qed

theorem long_file_name_lost:
  assumes "57 \<le> n" and "encodeURIComponent (replicate n 0x4e2d) = up_fileName q" and "worker_upload h q = Inr u"
  shows "stored_file_name (up_fileName u) = lit ''image''"
proof -
  define w where "w = percent_point 0x4e2d"
  have enc: "w = [0x25, 0x45, 0x34, 0x25, 0x42, 0x38, 0x25, 0x41, 0x44]"
    by (simp add: w_def percent_point_def unreserved_def utf8_of_def percent_def upper_hex_def)
  have w: "length w = 9" "w \<noteq> []" by (simp_all add: enc)
  have broken: "decodeURIComponent (take 8 w) = None"
  proof -
    have "take_percents (Suc (Suc 0)) [0x25, 0x42, 0x38, 0x25, 0x41] = None" by (simp split: option.split)
    then have "take_percents 2 [0x25, 0x42, 0x38, 0x25, 0x41] = None" by (simp only: numeral_2_eq_2)
    then show ?thesis by (simp add: enc hex_byte_def hex_value_def is_digit_def sequence_length_def)
  qed
  define k where "k = n - 57"
  have k: "n = 56 + Suc k" using assms(1) by (simp add: k_def)
  have name: "up_fileName q = Some (concat (replicate 56 w) @ w @ concat (replicate k w))"
  proof -
    have "replicate n w = replicate 56 w @ w # replicate k w" unfolding k by (simp only: replicate_add replicate_Suc)
    then have "concat (replicate n w) = concat (replicate 56 w) @ w @ concat (replicate k w)" by (simp only: concat_append concat.simps)
    then show ?thesis using assms(2) encode_repeated [of n] unfolding w_def by argo
  qed
  have "length (concat (replicate 56 w)) = 504" using w(1) by (simp add: length_concat sum_list_replicate)
  then have cut: "take 512 (concat (replicate 56 w) @ w @ concat (replicate k w)) = concat (replicate 56 w) @ take 8 w"
    using w(1) by simp
  have "up_fileName u = Some (concat (replicate 56 w) @ take 8 w)"
    using assms(3) name cut w(2) by (auto simp: worker_upload_def Let_def truthy_str_def split: if_splits)
  moreover have "decodeURIComponent (concat (replicate 56 w) @ take 8 w) = None"
    unfolding w_def by (subst decode_repeated) (use broken in \<open>simp_all add: valid_point_def w_def\<close>)
  moreover have "decodeURIComponent (lit ''image'') = Some (lit ''image'')" by code_simp
  ultimately have "stored_file_name (up_fileName u) = stored_file_name None" by (simp add: stored_file_name_def)
  also have "\<dots> = lit ''image''" by code_simp
  finally show ?thesis .
qed

subsection \<open>Every listed attachment can be read\<close>

definition files_ok :: "room \<Rightarrow> attachment_chunks \<Rightarrow> bool" where
  "files_ok r m \<longleftrightarrow> distinct (map at_id (r_attachments r)) \<and> length (r_attachments r) \<le> MAX_AGENT_ATTACHMENTS \<and>
     (\<forall>a \<in> set (r_attachments r). \<exists>bytes. gather (attachment_keys a) m = Some bytes \<and> int (length bytes) = at_size a)"

text \<open>
  What happens to the attachments. An upload may have loaded its Room long ago (its body is awaited), as
  long as no attachment it loaded has been taken off the list since; attachments added in between are
  lost from the list (\<open>overlapping_upload_lost\<close>). Puts, saves and deletes may fail, but for the deletes
  of the chunks an upload evicts (\<open>failed_eviction_loses_bytes\<close>). An id is drawn once, and whatever else
  the Room does leaves the list alone.
\<close>

inductive file_step :: "room \<times> attachment_chunks \<Rightarrow> room \<times> attachment_chunks \<Rightarrow> bool" where
  Upload_step: "i \<notin> at_id ` set (r_attachments r) \<Longrightarrow> subseq (r_attachments loaded) (r_attachments r) \<Longrightarrow>
    (\<forall>x \<in> set (take (Suc (length (r_attachments loaded)) - MAX_AGENT_ATTACHMENTS) (r_attachments loaded)).
       \<forall>k \<in> set (attachment_keys x). deletes k) \<Longrightarrow>
    handleAttachmentUpload fits accepts deletes now i u loaded r m = (out, r', m') \<Longrightarrow> file_step (r, m) (r', m')"
| Unlist_step: "a \<in> set (r_attachments r) \<Longrightarrow>
    unlist_attachment fits deletes now p a r m = (answer, r', m') \<Longrightarrow> file_step (r, m) (r', m')"
| Human_read_step: "human_read_attachment fits now pid token i r m = (reading, r') \<Longrightarrow> file_step (r, m) (r', m)"
| Agent_read_step: "agent_read_attachment fits now pid token i r m = (reading, r') \<Longrightarrow> file_step (r, m) (r', m)"
| Other_step: "r_attachments r' = r_attachments r \<Longrightarrow> file_step (r, m) (r', m)"

lemma files_ok_same: "r_attachments r' = r_attachments r \<Longrightarrow> files_ok r m \<Longrightarrow> files_ok r' m"
  by (simp add: files_ok_def)

lemma files_ok_loaded: "subseq (r_attachments loaded) (r_attachments r) \<Longrightarrow> files_ok r m \<Longrightarrow> files_ok loaded m"
proof -
  assume s: "subseq (r_attachments loaded) (r_attachments r)" and ok: "files_ok r m"
  then obtain N where N: "r_attachments loaded = nths (r_attachments r) N" by (auto simp: subseq_conv_nths)
  have "map at_id (r_attachments loaded) = nths (map at_id (r_attachments r)) N" by (simp add: N nths_map)
  then have "distinct (map at_id (r_attachments loaded))" using ok by (simp add: files_ok_def)
  moreover have "length (r_attachments loaded) \<le> MAX_AGENT_ATTACHMENTS"
    using list_emb_length [OF s] ok by (simp add: files_ok_def)
  moreover have "set (r_attachments loaded) \<subseteq> set (r_attachments r)" using set_nths_subset by (simp add: N)
  ultimately show "files_ok loaded m" using ok by (auto simp: files_ok_def)
qed

lemma files_ok_frame:
  assumes "files_ok r m" and "\<And>k. fst k \<in> at_id ` set (r_attachments r) \<Longrightarrow> dget m' k = dget m k"
  shows "files_ok r m'"
proof -
  have "gather (attachment_keys a) m' = gather (attachment_keys a) m" if "a \<in> set (r_attachments r)" for a
    by (rule gather_cong, rule assms(2)) (use that keys_of_id in fastforce)
  then show ?thesis using assms(1) by (simp add: files_ok_def)
qed

lemma store_new_frame: "store_chunks accepts (pieces w (Pair i) bytes) m = (ok, m') \<Longrightarrow> fst k \<noteq> i \<Longrightarrow> dget m' k = dget m k"
  by (rule store_chunks_other) (auto simp: pieces_def)

lemma drop_frame: "drop_keys deletes (attachment_keys a) m = (ok, m') \<Longrightarrow> fst k \<noteq> at_id a \<Longrightarrow> dget m' k = dget m k"
  by (rule drop_keys_other) (auto simp: attachment_keys_def)

lemma files_ok_undo: "undo_upload deletes a r m = (out, r', m') \<Longrightarrow> at_id a \<notin> at_id ` set (r_attachments r) \<Longrightarrow> files_ok r m \<Longrightarrow>
    r' = r \<and> files_ok r m'"
proof -
  assume u: "undo_upload deletes a r m = (out, r', m')" and a: "at_id a \<notin> at_id ` set (r_attachments r)" and ok: "files_ok r m"
  obtain b m2 where d: "drop_keys deletes (attachment_keys a) m = (b, m2)" by fastforce
  have "files_ok r m2" by (rule files_ok_frame [OF ok], rule drop_frame [OF d]) (use a in metis)
  then show ?thesis using u d by (auto simp: undo_upload_def split: bool.splits)
qed

lemma files_ok_seen: "read_reply fits now p r m i = (out, r') \<Longrightarrow> files_ok r m \<Longrightarrow> files_ok r' m"
  by (rule files_ok_same)
    (auto simp: read_reply_def save_reply_def dest: save_attachments split: option.splits prod.splits)

lemma files_ok_unlist:
  assumes "unlist_attachment fits deletes now p a r m = (out, r', m')" and "files_ok r m"
  shows "files_ok r' m'"
proof (cases "saveRoom fits (set_participant (p\<lparr>p_lastSeenAt := now\<rparr>) (r\<lparr>r_attachments := filter (\<lambda>x. at_id x \<noteq> at_id a) (r_attachments r)\<rparr>))")
  case None
  then show ?thesis using assms by (simp add: unlist_attachment_def)
next
  case (Some saved)
  then have list: "r_attachments saved = filter (\<lambda>x. at_id x \<noteq> at_id a) (r_attachments r)" using save_attachments by fastforce
  obtain ok where d: "drop_keys deletes (attachment_keys a) m = (ok, m')" "r' = saved"
    using assms(1) Some by (auto simp: unlist_attachment_def split: prod.splits bool.splits)
  have "length (filter (\<lambda>x. at_id x \<noteq> at_id a) (r_attachments r)) \<le> MAX_AGENT_ATTACHMENTS"
    by (rule le_trans [OF length_filter_le]) (use assms(2) in \<open>simp add: files_ok_def\<close>)
  then have "files_ok saved m" using assms(2) by (simp add: files_ok_def list distinct_map_filter)
  then show ?thesis unfolding d(2) by (rule files_ok_frame) (use drop_frame [OF d(1)] in \<open>auto simp: list\<close>)
qed

lemma files_ok_saved:
  assumes "files_ok r m" and "i \<notin> at_id ` set (r_attachments r)" and "a = new_attachment i now r p u"
    and "store_chunks accepts (pieces ATTACHMENT_CHUNK_SIZE (Pair i) (up_body u)) m = (True, m1)"
    and "saveRoom fits (with_attachment now p a r) = Some r'"
    and "drop_keys deletes (concat (map attachment_keys (evicted_by a r))) m1 = (ok, m')"
  shows "files_ok r' m'"
proof -
  define kept where "kept = drop (length (r_attachments r) + 1 - 8) (r_attachments r)"
  have list: "r_attachments r' = kept @ [a]" using save_attachments [OF assms(5)] by (simp add: kept_or_evicted kept_def)
  have gone: "evicted_by a r = take (length (r_attachments r) + 1 - 8) (r_attachments r)"
    by (simp add: evicted_by_def chunk_sizes)
  have i: "at_id a = i" by (simp add: assms(3) new_attachment_def)
  have dist: "distinct (map at_id (r_attachments r))" using assms(1) by (simp add: files_ok_def)
  have apart: "at_id x \<noteq> at_id y" if "x \<in> set kept" "y \<in> set (evicted_by a r)" for x y
  proof -
    have "distinct (map at_id (evicted_by a r @ kept))" using dist by (simp add: gone kept_def)
    then show ?thesis using that by (auto simp: image_iff disjoint_iff)
  qed
  have frame: "dget m' k = dget m1 k" if "fst k \<notin> at_id ` set (evicted_by a r)" for k
    by (rule drop_keys_other [OF assms(6)]) (use that keys_of_id in fastforce)
  have old: "gather (attachment_keys x) m' = gather (attachment_keys x) m" if "x \<in> set kept" for x
  proof (rule gather_cong)
    fix k assume "k \<in> set (attachment_keys x)"
    then have k: "fst k = at_id x" by (rule keys_of_id)
    then have "fst k \<noteq> i" using that assms(2) by (auto simp: kept_def dest: in_set_dropD)
    then show "dget m' k = dget m k" using frame [of k] k apart [OF that] store_new_frame [OF assms(4)] by auto
  qed
  have "gather (attachment_keys a) m1 = Some (up_body u)"
    unfolding assms(3) new_attachment_keys by (rule stored_bytes_gathered [OF assms(4) inj_Pair]) (simp add: chunk_sizes)
  moreover have "gather (attachment_keys a) m' = gather (attachment_keys a) m1"
    by (rule gather_cong, rule frame) (use keys_of_id i assms(2) evicted_old in fastforce)
  ultimately have new: "gather (attachment_keys a) m' = Some (up_body u)" by simp
  have "distinct (map at_id kept)" using dist by (simp add: kept_def flip: drop_map)
  moreover have "i \<notin> at_id ` set kept" using assms(2) by (auto simp: kept_def dest: in_set_dropD)
  moreover have "length kept \<le> 7" using assms(1) by (simp add: kept_def files_ok_def chunk_sizes)
  moreover have "set kept \<subseteq> set (r_attachments r)" by (auto simp: kept_def dest: in_set_dropD)
  ultimately show ?thesis
    using assms(1) i new old unfolding files_ok_def list by (auto simp: chunk_sizes assms(3) new_attachment_def)
qed

lemma files_ok_upload:
  assumes before: "files_ok r m" and i: "i \<notin> at_id ` set (r_attachments r)" and sub: "subseq (r_attachments loaded) (r_attachments r)"
    and deletes: "\<forall>x \<in> set (take (Suc (length (r_attachments loaded)) - MAX_AGENT_ATTACHMENTS) (r_attachments loaded)).
       \<forall>k \<in> set (attachment_keys x). deletes k"
    and up: "handleAttachmentUpload fits accepts deletes now i u loaded r m = (out, r', m')"
  shows "files_ok r' m'"
proof (cases "\<exists>p. findParticipant loaded (up_participantId u) (up_token u) = Some p \<and> upload_refusal loaded p u = None")
  case False
  then have "r' = r \<and> m' = m" using up by (auto simp: handleAttachmentUpload_def split: option.splits)
  then show ?thesis using before by simp
next
  case True
  then obtain p where p: "findParticipant loaded (up_participantId u) (up_token u) = Some p" "upload_refusal loaded p u = None" by blast
  define a where "a = new_attachment i now loaded p u"
  have id: "at_id a = i" by (simp add: a_def new_attachment_def)
  have "set (r_attachments loaded) \<subseteq> set (r_attachments r)" using sub by (auto simp: subseq_conv_nths dest: in_set_nthsD)
  then have fresh: "i \<notin> at_id ` set (r_attachments loaded)" using i by blast
  obtain ok m1 where st: "store_chunks accepts (pieces ATTACHMENT_CHUNK_SIZE (Pair i) (up_body u)) m = (ok, m1)" by fastforce
  have m1: "files_ok r m1" by (rule files_ok_frame [OF before], rule store_new_frame [OF st]) (use i in metis)
  have undone: "undo_upload deletes a r m2 = (out, r', m') \<Longrightarrow> files_ok r m2 \<Longrightarrow> files_ok r' m'" for m2
    using files_ok_undo i id by blast
  note result = up [unfolded handleAttachmentUpload_def Let_def p option.case a_def [symmetric] st prod.case]
  show ?thesis
  proof (cases ok)
    case False
    then show ?thesis using result undone m1 by simp
  next
    case True
    show ?thesis
    proof (cases "pendingTaskContext p u \<and> MAX_AGENT_ATTACHMENTS \<le> length (r_attachments loaded)")
      case full: True
      obtain b m2 where d: "drop_keys deletes (attachment_keys a) m1 = (b, m2)" by fastforce
      have "files_ok r m2" by (rule files_ok_frame [OF m1], rule drop_frame [OF d]) (use id i in metis)
      then show ?thesis using result True full d undone by (cases b) auto
    next
      case room: False
      show ?thesis
      proof (cases "saveRoom fits (with_attachment now p a loaded)")
        case None
        then show ?thesis using result True room undone m1 by (simp del: not_le de_Morgan_conj)
      next
        case (Some saved)
        have "evicted_by a loaded = take (Suc (length (r_attachments loaded)) - MAX_AGENT_ATTACHMENTS) (r_attachments loaded)"
          by (simp add: evicted_by_def chunk_sizes)
        then have "fst (drop_keys deletes (concat (map attachment_keys (evicted_by a loaded))) m1)"
          using deletes by (intro drop_keys_done) auto
        then obtain m2 where d: "drop_keys deletes (concat (map attachment_keys (evicted_by a loaded))) m1 = (True, m2)"
          by (metis prod.collapse)
        then have "r' = saved" "m' = m2" using result True room Some by auto
        then show ?thesis
          using files_ok_saved [OF files_ok_loaded [OF sub before] fresh a_def _ Some d] st True by simp
      qed
    qed
  qed
qed

lemma files_ok_step: "file_step s s' \<Longrightarrow> files_ok (fst s) (snd s) \<Longrightarrow> files_ok (fst s') (snd s')"
proof (induction rule: file_step.induct)
  case (Upload_step i r loaded deletes fits accepts now u m out r' m')
  then show ?case using files_ok_upload by simp
next
  case (Unlist_step a r fits deletes now p m answer r' m')
  then show ?case using files_ok_unlist by fastforce
next
  case (Human_read_step fits now pid token i r m reading r')
  then show ?case using files_ok_seen by (auto simp: human_read_attachment_def split: option.splits if_splits)
next
  case (Agent_read_step fits now pid token i r m reading r')
  then show ?case using files_ok_seen by (auto simp: agent_read_attachment_def split: option.splits if_splits)
next
  case (Other_step r' r m)
  then show ?case using files_ok_same by fastforce
qed

text \<open>
  C4: From a Room without attachments: whatever uploads, reads and discards happen, at most eight
  attachments are listed, and every one of them can be read in full, as long as no attachment is taken
  off the list while an upload that has loaded it awaits its body, and evicted chunks can be deleted
  (\<open>file_step\<close>). Uploads may overlap, and every other put, save and delete may fail.
\<close>

theorem listed_files_readable:
  assumes "file_step\<^sup>*\<^sup>* (r, m) (r', m')" and "r_attachments r = []"
  shows "length (r_attachments r') \<le> 8 \<and> list_all (\<lambda>a. case readAttachmentPayload r' m' (at_id a) of
      None \<Rightarrow> False
    | Some (b, data) \<Rightarrow> b = a \<and> (\<exists>bytes. data = btoa bytes \<and> int (length bytes) = at_size a)) (r_attachments r')"
proof -
  have "files_ok (fst (r, m)) (snd (r, m))" using assms(2) by (simp add: files_ok_def)
  with assms(1) have "files_ok (fst (r', m')) (snd (r', m'))"
    by (induction rule: rtranclp_induct) (simp_all add: files_ok_step)
  then have ok: "files_ok r' m'" by simp
  have "case readAttachmentPayload r' m' (at_id a) of None \<Rightarrow> False
      | Some (b, data) \<Rightarrow> b = a \<and> (\<exists>bytes. data = btoa bytes \<and> int (length bytes) = at_size a)"
    if "a \<in> set (r_attachments r')" for a
  proof -
    have "inj_on at_id (set (r_attachments r'))" using ok by (simp add: files_ok_def distinct_map)
    then have "find (\<lambda>x. at_id x = at_id a) (r_attachments r') = Some a"
      by (intro find_unique that) (use that in \<open>auto dest: inj_onD\<close>)
    then show ?thesis using ok that by (fastforce simp: readAttachmentPayload_def files_ok_def)
  qed
  then show ?thesis using ok by (simp add: files_ok_def chunk_sizes list_all_iff)
qed

subsection \<open>Task attachments\<close>

text \<open>
  An Agent reads an attachment of a Task only as one of the Task's Agents, and uploads one only while
  it is one of those in the Room.
\<close>

theorem task_files_for_members:
  shows "agent_read_attachment fits now pid token i r m = (Done answer, r') \<Longrightarrow>
      \<exists>p a. findParticipant r pid token = Some p \<and> p_kind p = Agent \<and> find (\<lambda>a. at_id a = i) (r_attachments r) = Some a \<and>
        (case at_taskRequestId a of None \<Rightarrow> True
         | Some t \<Rightarrow> taskAgentParticipates (buildTaskProjectionIndex (r_messages r) (r_participants r)) t (p_id p))"
    and "handleAttachmentUpload fits accepts deletes now i u loaded stored m = (Done a, r', m') \<Longrightarrow> at_senderKind a = Agent \<Longrightarrow>
      at_taskRequestId a = Some t \<Longrightarrow>
      \<exists>resolution. resolveTaskRequest (buildTaskProjectionIndex (r_messages loaded) (r_participants loaded)) (JStr t)
          (r_participants loaded) = Inr resolution \<and> at_senderId a \<in> set (tr_agents resolution) \<and> at_taskWake a = Some False"
proof -
  assume "agent_read_attachment fits now pid token i r m = (Done answer, r')"
  then show "\<exists>p a. findParticipant r pid token = Some p \<and> p_kind p = Agent \<and> find (\<lambda>a. at_id a = i) (r_attachments r) = Some a \<and>
        (case at_taskRequestId a of None \<Rightarrow> True
         | Some t \<Rightarrow> taskAgentParticipates (buildTaskProjectionIndex (r_messages r) (r_participants r)) t (p_id p))"
    by (auto simp: agent_read_attachment_def split: option.splits if_splits)
next
  assume up: "handleAttachmentUpload fits accepts deletes now i u loaded stored m = (Done a, r', m')"
    and agent: "at_senderKind a = Agent" and t: "at_taskRequestId a = Some t"
  obtain p where p: "upload_refusal loaded p u = None" "a = new_attachment i now loaded p u" using upload_done [OF up] by blast
  have kind: "p_kind p = Agent" "requested_task u = Some t" using agent t by (simp_all add: p(2) new_attachment_def)
  then have "\<not> pendingTaskContext p u" by (simp add: pendingTaskContext_def)
  then have "task_refusal loaded p False t = None" using p(1) kind(2) by (auto simp: upload_refusal_def Let_def split: if_splits option.splits)
  then obtain resolution where "resolveTaskRequest (buildTaskProjectionIndex (r_messages loaded) (r_participants loaded)) (JStr t)
      (r_participants loaded) = Inr resolution" "p_id p \<in> set (tr_agents resolution)"
    using kind(1) by (auto simp: task_refusal_def split: sum.splits if_splits)
  then show "\<exists>resolution. resolveTaskRequest (buildTaskProjectionIndex (r_messages loaded) (r_participants loaded)) (JStr t)
          (r_participants loaded) = Inr resolution \<and> at_senderId a \<in> set (tr_agents resolution) \<and> at_taskWake a = Some False"
    using kind by (simp add: p(2) new_attachment_def requestedTaskWake_def)
qed

subsection \<open>A record is read again\<close>

lemma kind_js_eq: "kind_js Human \<noteq> JUndefined" "kind_js k \<noteq> JUndefined" "kind_js k \<in> {kind_js Human, kind_js Agent, JUndefined}"
  by (cases k; simp add: kind_js_def)+

text \<open>What an upload stores passes the check of the next load, with its wake intent.\<close>

theorem uploaded_record_reloads:
  assumes "worker_upload h q = Inr u" and "handleAttachmentUpload fits accepts deletes now i u loaded stored m = (Done a, r', m')"
  shows "load_attachments ps (JArr [attachment_js a]) = [attachment_js a]"
proof -
  obtain p where p: "upload_refusal loaded p u = None" "a = new_attachment i now loaded p u" using upload_done [OF assms(2)] by blast
  have body: "isAgentAttachmentMimeType (media_type (up_contentType u))" "up_body u \<noteq> []" "length (up_body u) \<le> 786432"
    using accepted_body [OF refused_body [OF p(1)]] by simp_all
  have count: "0 < chunk_total 65536 (length (up_body u))" "chunk_total 65536 (length (up_body u)) \<le> 12"
    using body chunk_total_bounds(2) [of "length (up_body u)" 65536] by (simp_all add: chunk_total_def)
  have "chunk_total 65536 786432 = 12" by (simp add: chunk_total_def)
  then have sizes: "positive_within (JNum (jint (at_size a))) 786432"
      "positive_within (JNum (jint (at_chunkCount a))) (int (chunk_total 65536 786432))"
    using body count by (simp_all add: p(2) new_attachment_def positive_within_def js_safe_int_def chunk_sizes)
  have mime: "isAgentAttachmentMimeType (at_mimeType a)" using body by (simp add: p(2) new_attachment_def)
  have task: "at_taskRequestId a = None \<and> at_taskWake a = None \<or> (\<exists>t w. at_taskRequestId a = Some t \<and> t \<noteq> [] \<and> length t \<le> 64 \<and> at_taskWake a = Some w)"
    using worker_task [OF assms(1)] by (cases "requested_task u") (simp_all add: p(2) new_attachment_def)
  define v where "v = attachment_js a"
  have get: "js_get v ''id'' = JStr (at_id a)" "js_get v ''senderId'' = JStr (at_senderId a)" "js_get v ''senderName'' = JStr (at_senderName a)"
    "js_get v ''senderKind'' = kind_js (at_senderKind a)" "js_get v ''mimeType'' = JStr (at_mimeType a)"
    "js_get v ''fileName'' = JStr (at_fileName a)" "js_get v ''size'' = JNum (jint (at_size a))"
    "js_get v ''chunkCount'' = JNum (jint (at_chunkCount a))" "js_get v ''createdAt'' = JNum (jint (at_createdAt a))"
    "js_get v ''sequence'' = JNum (jint (at_sequence a))" "is_objectish v"
    by (simp_all add: v_def attachment_js_def js_get_def is_objectish_def)
  have optional: "js_get v ''taskRequestId'' = (case at_taskRequestId a of Some t \<Rightarrow> JStr t | None \<Rightarrow> JUndefined)"
    "js_get v ''taskWake'' = (case at_taskWake a of Some b \<Rightarrow> JBool b | None \<Rightarrow> JUndefined)"
    by (simp_all add: v_def attachment_js_def js_get_def optional_member_def split: option.split)
  have "validAttachment v"
    unfolding validAttachment_def get optional chunk_sizes using sizes mime task kind_js_eq(3) [of "at_senderKind a"]
    by (auto simp: is_string_def is_number_def is_boolean_def allowed_mime_def string_within_def get(11))
  then show ?thesis using kind_js_eq(2) by (simp add: load_attachments_def load_attachment_def get(4) flip: v_def)
qed

subsection \<open>What the handler does not keep\<close>

text \<open>
  The Room is read before the body arrives. An attachment stored in between is not in the Room that is
  saved, nor are the messages stored in between: the record of the former upload is gone although it
  was answered with success.
\<close>

theorem overlapping_upload_lost:
  assumes "handleAttachmentUpload fits accepts deletes now i u loaded stored m = (Done b, r', m')"
    and "x \<in> set (r_attachments stored)" and "at_id x \<notin> at_id ` set (r_attachments loaded)" and "at_id x \<noteq> i"
  shows "readAttachmentPayload r' m' (at_id x) = None \<and> suffix (r_messages r') (r_messages loaded)"
proof -
  obtain p where p: "b = new_attachment i now loaded p u" "saveRoom fits (with_attachment now p b loaded) = Some r'"
    using upload_done [OF assms(1)] by blast
  have "r_attachments r' = slice_last MAX_AGENT_ATTACHMENTS (r_attachments loaded @ [b])" using save_attachments [OF p(2)] by simp
  moreover have "at_id b = i" by (simp add: p(1) new_attachment_def)
  ultimately have "at_id ` set (r_attachments r') \<subseteq> insert i (at_id ` set (r_attachments loaded))"
    by (auto simp: kept_or_evicted dest: in_set_dropD)
  then have "at_id x \<notin> at_id ` set (r_attachments r')" using assms(3,4) by blast
  then have "find (\<lambda>a. at_id a = at_id x) (r_attachments r') = None" by (auto simp: find_None_iff image_iff)
  moreover have "suffix (r_messages r') (r_messages loaded)"
    using save_cases [OF p(2)] trim_suffix [of fits "with_attachment now p b loaded"] by (simp add: with_attachment_def set_participant_def)
  ultimately show ?thesis by (simp add: readAttachmentPayload_def)
qed

text \<open>
  The second look at the full store reads the same record as the first: it refuses nothing. Whatever
  is answered with \<open>attachment_store_full\<close> was refused before any byte was written.
\<close>

theorem store_recheck_idle:
  "handleAttachmentUpload fits accepts deletes now i u loaded stored m = (Refused 409 ''attachment_store_full'', s') \<Longrightarrow> s' = (stored, m)"
proof (cases "findParticipant loaded (up_participantId u) (up_token u)")
  case (Some p)
  assume h: "handleAttachmentUpload fits accepts deletes now i u loaded stored m = (Refused 409 ''attachment_store_full'', s')"
  show ?thesis
  proof (cases "upload_refusal loaded p u")
    case None
    then have "\<not> (pendingTaskContext p u \<and> MAX_AGENT_ATTACHMENTS \<le> length (r_attachments loaded))"
      by (auto simp: upload_refusal_def Let_def split: if_splits option.splits)
    then show ?thesis using h Some None
      by (auto simp: handleAttachmentUpload_def undo_upload_def Let_def split: prod.splits bool.splits option.splits if_splits)
  qed (use h Some in \<open>auto simp: handleAttachmentUpload_def\<close>)
qed (simp add: handleAttachmentUpload_def)

text \<open>A delete of an evicted chunk that fails after the save takes the bytes of the attachment just saved.\<close>

theorem failed_eviction_loses_bytes:
  assumes "findParticipant r (up_participantId u) (up_token u) = Some p" and "upload_refusal r p u = None"
    and "a = new_attachment i now r p u" and "i \<notin> at_id ` set (r_attachments r)"
    and "store_chunks accepts (pieces ATTACHMENT_CHUNK_SIZE (Pair i) (up_body u)) m = (True, m1)"
    and "saveRoom fits (with_attachment now p a r) = Some saved"
    and "drop_keys deletes (concat (map attachment_keys (evicted_by a r))) m1 = (False, m2)"
    and "drop_keys deletes (attachment_keys a) m2 = (True, m3)"
  shows "handleAttachmentUpload fits accepts deletes now i u r r m = (Refused 503 ''attachment_unavailable'', saved, m3) \<and>
    a \<in> set (r_attachments saved) \<and> readAttachmentPayload saved m3 i = None"
proof -
  have "\<not> (pendingTaskContext p u \<and> MAX_AGENT_ATTACHMENTS \<le> length (r_attachments r))"
    using assms(2) by (auto simp: upload_refusal_def Let_def split: if_splits option.splits)
  then have h: "handleAttachmentUpload fits accepts deletes now i u r r m = (Refused 503 ''attachment_unavailable'', saved, m3)"
    using assms by (auto simp: handleAttachmentUpload_def undo_upload_def Let_def)
  have i: "at_id a = i" by (simp add: assms(3) new_attachment_def)
  have list: "r_attachments saved = slice_last MAX_AGENT_ATTACHMENTS (r_attachments r @ [a])" using save_attachments [OF assms(6)] by simp
  have listed: "a \<in> set (r_attachments saved)" unfolding list by (simp add: kept_or_evicted)
  have "find (\<lambda>x. at_id x = at_id a) (r_attachments saved) = Some a"
    by (rule find_unique [OF listed]) (use assms(4) i in \<open>auto simp: list kept_or_evicted dest: in_set_dropD\<close>)
  moreover have "0 < chunk_total ATTACHMENT_CHUNK_SIZE (length (up_body u))"
    using accepted_body [OF refused_body [OF assms(2)]] by (intro chunk_total_bounds(2)) (simp_all add: chunk_sizes)
  then have "(i, 0) \<in> set (attachment_keys a)" by (simp add: assms(3) new_attachment_keys)
  then have "dget m3 (i, 0) = None" by (rule drop_keys_get [OF assms(8)])
  then have "gather (attachment_keys a) m3 = None"
    using \<open>0 < chunk_total ATTACHMENT_CHUNK_SIZE (length (up_body u))\<close> by (simp add: assms(3) new_attachment_keys upt_conv_Cons)
  ultimately have "readAttachmentPayload saved m3 i = None" using i by (simp add: readAttachmentPayload_def)
  then show ?thesis using h listed by simp
qed

subsection \<open>Concrete uploads\<close>

definition demo_upload :: upload where
  "demo_upload = \<lparr>up_participantId = lit ''ana'', up_token = lit ''t'', up_taskRequestId = None, up_pending = None, up_wake = None,
     up_contentType = Some (lit ''text/plain''), up_declared = jint 2, up_body = [72, 105], up_fileName = Some (lit ''a.md'')\<rparr>"

definition demo_task_upload :: upload where
  "demo_task_upload = demo_upload\<lparr>up_participantId := lit ''bot'', up_taskRequestId := Some (lit ''req-1'')\<rparr>"

lemma demo_mime: "media_type (Some (lit ''text/plain'')) = lit ''text/plain''" "isAgentAttachmentMimeType (lit ''text/plain'')"
    "js_trim (lit ''room'') = lit ''room''" "js_trim (lit ''req-1'') = lit ''req-1''"
  by code_simp+

lemma demo_forwards: "worker_upload (Some (lit ''room'')) demo_upload = Inr demo_upload"
    "worker_upload (Some (lit ''room'')) demo_task_upload = Inr demo_task_upload"
  by (simp_all add: worker_upload_def Let_def demo_upload_def demo_task_upload_def demo_mime MAX_ROOM_LENGTH_def chunk_sizes
    exceeds_def jint_def declared_other_def truthy_str_def parseTaskAttachmentWake_def parseTaskAttachmentPending_def)

lemma demo_resolved: "\<exists>resolution. resolveTaskRequest (buildTaskProjectionIndex (r_messages demo_room) (r_participants demo_room))
    (JStr (lit ''req-1'')) (r_participants demo_room) = Inr resolution \<and> lit ''bot'' \<in> set (tr_agents resolution)"
proof -
  have "case resolveTaskRequest (buildTaskProjectionIndex (r_messages demo_room) (r_participants demo_room))
    (JStr (lit ''req-1'')) (r_participants demo_room) of Inr resolution \<Rightarrow> lit ''bot'' \<in> set (tr_agents resolution) | Inl _ \<Rightarrow> False"
    by code_simp
  then show ?thesis by (auto split: sum.splits)
qed

lemma demo_accepted: "body_refusal demo_upload = None" "body_refusal demo_task_upload = None"
    "upload_refusal demo_room (demo_participant ''ana'' Human True) demo_upload = None"
    "upload_refusal demo_room (demo_participant ''bot'' Agent True) demo_task_upload = None"
proof -
  show body: "body_refusal demo_upload = None" "body_refusal demo_task_upload = None"
    by (simp_all add: body_refusal_def demo_upload_def demo_task_upload_def demo_mime chunk_sizes exceeds_def jint_def declared_other_def)
  show "upload_refusal demo_room (demo_participant ''ana'' Human True) demo_upload = None"
    unfolding upload_refusal_def Let_def body
    by (simp add: demo_upload_def requested_task_def truthy_str_def pendingTaskContext_def parseTaskAttachmentPending_def)
  have "requested_task demo_task_upload = Some (lit ''req-1'')" "up_pending demo_task_upload = None"
    by (simp_all add: demo_task_upload_def demo_upload_def requested_task_def truthy_str_def demo_mime)
  then show "upload_refusal demo_room (demo_participant ''bot'' Agent True) demo_task_upload = None"
    unfolding upload_refusal_def Let_def body
    using demo_resolved by (auto simp: pendingTaskContext_def parseTaskAttachmentPending_def task_refusal_def)
qed

definition demo_stored :: "upload \<Rightarrow> string \<Rightarrow> participant_kind \<Rightarrow> attachment \<times> room \<times> attachment_chunks" where
  "demo_stored u i k = (let p = demo_participant i k True; a = new_attachment (lit ''f1'') 5 demo_room p u in
     (a, with_attachment 5 p a demo_room, [((lit ''f1'', 0), [72, 105])]))"

lemma demo_answers:
  "handleAttachmentUpload (\<lambda>_. True) (\<lambda>_. True) (\<lambda>_. True) 5 (lit ''f1'') demo_upload demo_room demo_room [] =
     (case demo_stored demo_upload ''ana'' Human of (a, r, m) \<Rightarrow> (Done a, r, m))"
  "handleAttachmentUpload (\<lambda>_. True) (\<lambda>_. True) (\<lambda>_. True) 5 (lit ''f1'') demo_task_upload demo_room demo_room [] =
     (case demo_stored demo_task_upload ''bot'' Agent of (a, r, m) \<Rightarrow> (Done a, r, m))"
proof -
  have people: "findParticipant demo_room (lit ''ana'') (lit ''t'') = Some (demo_participant ''ana'' Human True)"
    "findParticipant demo_room (lit ''bot'') (lit ''t'') = Some (demo_participant ''bot'' Agent True)"
    by (simp_all add: findParticipant_def demo_room_def) (simp_all add: demo_participant_def)
  have body: "up_body demo_upload = [72, 105]" "up_body demo_task_upload = [72, 105]" by (simp_all add: demo_upload_def demo_task_upload_def)
  have stored: "store_chunks (\<lambda>_. True) (pieces ATTACHMENT_CHUNK_SIZE (Pair i) [72, 105]) [] = (True, [((i, 0), [72, 105])])" for i :: jstr
    by (simp add: pieces_def chunk_total_def piece_def chunk_sizes)
  have none: "r_attachments demo_room = []" by (simp add: demo_room_def)
  have who: "up_participantId demo_upload = lit ''ana''" "up_token demo_upload = lit ''t''"
    "up_participantId demo_task_upload = lit ''bot''" "up_token demo_task_upload = lit ''t''"
    by (simp_all add: demo_upload_def demo_task_upload_def)
  show "handleAttachmentUpload (\<lambda>_. True) (\<lambda>_. True) (\<lambda>_. True) 5 (lit ''f1'') demo_upload demo_room demo_room [] =
     (case demo_stored demo_upload ''ana'' Human of (a, r, m) \<Rightarrow> (Done a, r, m))"
    "handleAttachmentUpload (\<lambda>_. True) (\<lambda>_. True) (\<lambda>_. True) 5 (lit ''f1'') demo_task_upload demo_room demo_room [] =
     (case demo_stored demo_task_upload ''bot'' Agent of (a, r, m) \<Rightarrow> (Done a, r, m))"
    unfolding handleAttachmentUpload_def demo_stored_def Let_def who people option.case demo_accepted body stored prod.case bool.case
    by (simp_all add: save_const none evicted_by_def chunk_sizes)
qed

lemma demo_reader: "findParticipant (fst (snd (demo_stored demo_upload ''ana'' Human))) (lit ''ana'') (lit ''t'') =
    Some (demo_participant ''ana'' Human True\<lparr>p_lastSeenAt := 5\<rparr>)"
  by (simp add: demo_stored_def Let_def with_attachment_def set_participant_def findParticipant_def) (simp add: demo_participant_def)

theorem uploaded_file_is_read_back_witness:
  "\<exists>answer r''. human_read_attachment (\<lambda>_. True) 9 (lit ''ana'') (lit ''t'') (lit ''f1'')
      (fst (snd (demo_stored demo_upload ''ana'' Human))) (snd (snd (demo_stored demo_upload ''ana'' Human))) = (Done answer, r'') \<and>
    validateRoomAttachmentRead answer (lit ''f1'') = Inr (\<lparr>ca_id = lit ''f1'', ca_fileName = stored_file_name (up_fileName demo_upload),
      ca_mimeType = media_type (up_contentType demo_upload), ca_size = int (length (up_body demo_upload)),
      ca_taskRequestId = requested_task demo_upload\<rparr>, btoa (up_body demo_upload), up_body demo_upload)"
proof (rule uploaded_file_is_read_back [OF demo_forwards(1), of "\<lambda>_. True" "\<lambda>_. True" "\<lambda>_. True" 5 "lit ''f1''" demo_room demo_room "[]"
      "fst (demo_stored demo_upload ''ana'' Human)" _ _ _ _ _ "\<lambda>_. True" 9])
  show "list_all is_byte (up_body demo_upload)" by (simp add: demo_upload_def is_byte_def)
  show "handleAttachmentUpload (\<lambda>_. True) (\<lambda>_. True) (\<lambda>_. True) 5 (lit ''f1'') demo_upload demo_room demo_room [] =
      (Done (fst (demo_stored demo_upload ''ana'' Human)), fst (snd (demo_stored demo_upload ''ana'' Human)), snd (snd (demo_stored demo_upload ''ana'' Human)))"
    using demo_answers(1) by (simp add: case_prod_beta)
  show "lit ''f1'' \<notin> at_id ` set (r_attachments demo_room)" by (simp add: demo_room_def)
  show "findParticipant (fst (snd (demo_stored demo_upload ''ana'' Human))) (lit ''ana'') (lit ''t'') =
    Some (demo_participant ''ana'' Human True\<lparr>p_lastSeenAt := 5\<rparr>)" by (rule demo_reader)
qed (simp_all add: save_const)

theorem file_name_round_trip_witness: "stored_file_name (up_fileName demo_upload) = lit ''a.md''"
proof (rule file_name_round_trip [OF _ _ _ _ _ _ demo_forwards(1), where t = "lit ''a.md''"])
  show "encodeURIComponent (lit ''a.md'') = Some (lit ''a.md'')" "js_trim (lit ''a.md'') = lit ''a.md''" by code_simp+
qed (simp_all add: demo_upload_def)

theorem listed_files_readable_witness:
  "case demo_stored demo_upload ''ana'' Human of (_, r', m') \<Rightarrow> length (r_attachments r') \<le> 8 \<and>
    list_all (\<lambda>a. case readAttachmentPayload r' m' (at_id a) of
      None \<Rightarrow> False
    | Some (b, data) \<Rightarrow> b = a \<and> (\<exists>bytes. data = btoa bytes \<and> int (length bytes) = at_size a)) (r_attachments r')"
proof -
  obtain a r' m' where s: "demo_stored demo_upload ''ana'' Human = (a, r', m')" by (cases "demo_stored demo_upload ''ana'' Human")
  have "file_step (demo_room, []) (r', m')"
    by (rule Upload_step [of "lit ''f1''" _ demo_room "\<lambda>_. True" "\<lambda>_. True" "\<lambda>_. True" 5 demo_upload _ "Done a"])
      (use demo_answers(1) s in \<open>simp_all add: demo_room_def\<close>)
  then have "file_step\<^sup>*\<^sup>* (demo_room, []) (r', m')" by (rule r_into_rtranclp)
  then show ?thesis unfolding s prod.case by (rule listed_files_readable) (simp add: demo_room_def)
qed

theorem task_files_for_members_witness:
  "\<exists>resolution. resolveTaskRequest (buildTaskProjectionIndex (r_messages demo_room) (r_participants demo_room)) (JStr (lit ''req-1''))
      (r_participants demo_room) = Inr resolution \<and> at_senderId (fst (demo_stored demo_task_upload ''bot'' Agent)) \<in> set (tr_agents resolution) \<and>
      at_taskWake (fst (demo_stored demo_task_upload ''bot'' Agent)) = Some False"
proof (rule task_files_for_members(2))
  show "handleAttachmentUpload (\<lambda>_. True) (\<lambda>_. True) (\<lambda>_. True) 5 (lit ''f1'') demo_task_upload demo_room demo_room [] =
      (Done (fst (demo_stored demo_task_upload ''bot'' Agent)), fst (snd (demo_stored demo_task_upload ''bot'' Agent)),
       snd (snd (demo_stored demo_task_upload ''bot'' Agent)))"
    using demo_answers(2) by (simp add: case_prod_beta)
  show "at_senderKind (fst (demo_stored demo_task_upload ''bot'' Agent)) = Agent"
    by (simp add: demo_stored_def Let_def new_attachment_def)
  show "at_taskRequestId (fst (demo_stored demo_task_upload ''bot'' Agent)) = Some (lit ''req-1'')"
    by (simp add: demo_stored_def Let_def new_attachment_def demo_task_upload_def requested_task_def demo_mime truthy_str_def)
qed

theorem uploaded_record_reloads_witness:
  "load_attachments [] (JArr [attachment_js (fst (demo_stored demo_upload ''ana'' Human))]) =
    [attachment_js (fst (demo_stored demo_upload ''ana'' Human))]"
proof (rule uploaded_record_reloads [OF demo_forwards(1)])
  show "handleAttachmentUpload (\<lambda>_. True) (\<lambda>_. True) (\<lambda>_. True) 5 (lit ''f1'') demo_upload demo_room demo_room [] =
      (Done (fst (demo_stored demo_upload ''ana'' Human)), fst (snd (demo_stored demo_upload ''ana'' Human)), snd (snd (demo_stored demo_upload ''ana'' Human)))"
    using demo_answers(1) by (simp add: case_prod_beta)
qed

end
