(* ===== verification/Room_Media.thy ===== *)
theory Room_Media
  imports Room_Transport
begin

text \<open>
  The media of a Room (the media actions of handleControl in app/src/do/RoomSession.ts): admitting
  and attaching an Agent's media session, what an Agent is shown of the Humans' media, the ids of its
  subscriptions and of its published track, the general authorization the Worker asks for before
  every provider call, and the publications and reconnections of Humans.

  The Room is the loaded, unexpired one. A handler returns its answer and the stored Room; a save over
  budget leaves the stored Room as it was. \<open>mediaEnabled\<close> is AGENT_MEDIA_ENABLED. Broadcasts, alarms
  and the provider calls that follow a save are left out (the queue's calls are in Media_Cleanup).
\<close>

definition MAX_AGENT_SUBSCRIBED_MIDS :: nat where "MAX_AGENT_SUBSCRIBED_MIDS = 64"

text \<open>\<open>findParticipant\<close> with its optional session: an empty one is not compared.\<close>

definition find_in_session :: "room \<Rightarrow> jstr \<Rightarrow> jstr \<Rightarrow> jstr option \<Rightarrow> participant option" where
  "find_in_session r i token session = (case findParticipant r i token of
     None \<Rightarrow> None
   | Some p \<Rightarrow> (case truthy_str session of
       Some s \<Rightarrow> if media_session p = Some s then Some p else None | None \<Rightarrow> Some p))"

definition for_agent :: "participant option \<Rightarrow> room \<Rightarrow> (participant \<Rightarrow> 'a reply \<times> room) \<Rightarrow> 'a reply \<times> room" where
  "for_agent who r k = (case who of
     None \<Rightarrow> (Refused 401 ''unauthorized'', r)
   | Some p \<Rightarrow> if p_kind p \<noteq> Agent then (Refused 403 ''agent_only'', r) else k p)"

text \<open>The transcript's authorization reads the Agent's Runtime Host, which may raise.\<close>

definition with_transcript :: "bool \<Rightarrow> room \<Rightarrow> participant \<Rightarrow> (bool \<Rightarrow> 'a reply \<times> room) \<Rightarrow> 'a reply \<times> room" where
  "with_transcript mediaEnabled r p k =
     (case isAgentAuthorizedForLiveTranscriptMedia mediaEnabled r p of Inl _ \<Rightarrow> (Raised, r) | Inr b \<Rightarrow> k b)"

definition seen_reply :: "(room \<Rightarrow> bool) \<Rightarrow> int \<Rightarrow> room \<Rightarrow> participant \<Rightarrow> 'a \<Rightarrow> 'a reply \<times> room" where
  "seen_reply fits now r p x = save_reply fits r (set_participant (p\<lparr>p_lastSeenAt := now\<rparr>) r) x"

subsection \<open>The shared session of an Agent\<close>

definition agent_media_admit :: "(room \<Rightarrow> bool) \<Rightarrow> bool \<Rightarrow> int \<Rightarrow> jstr \<Rightarrow> jstr \<Rightarrow> room \<Rightarrow> unit reply \<times> room" where
  "agent_media_admit fits mediaEnabled now i token r = for_agent (findParticipant r i token) r (\<lambda>p.
     with_transcript mediaEnabled r p (\<lambda>live.
       if \<not> isAgentAuthorizedForSharedMedia (r_meetingNotes r) (r_agentVoice r) (p_id p) live
       then (Refused 403 ''agent_media_not_authorized'', r) else seen_reply fits now r p ()))"

definition fresh_media :: "jstr \<Rightarrow> media_state" where
  "fresh_media session = \<lparr>m_sessionId = session, m_muted = True, m_fileChannelReady = False, m_appDataChannelReady = None,
     m_tracks = [], m_agentSubscribedMids = None, m_agentPublishedMid = None, m_agentPublishedTrackName = None,
     m_agentVoiceReady = None\<rparr>"

text \<open>A rotation stages whatever the old session tracks before the new session takes its place.\<close>

definition rotate_session :: "int \<Rightarrow> participant \<Rightarrow> jstr \<Rightarrow> room \<Rightarrow> room" where
  "rotate_session now p session r = set_participant (p\<lparr>p_media := Some (fresh_media session), p_lastSeenAt := now\<rparr>)
     (stage_in_room (p_id p) Both r)"

definition agent_media_attach :: "(room \<Rightarrow> bool) \<Rightarrow> bool \<Rightarrow> int \<Rightarrow> jstr \<Rightarrow> jstr \<Rightarrow> jstr \<Rightarrow> room \<Rightarrow> unit reply \<times> room" where
  "agent_media_attach fits mediaEnabled now i token session r = for_agent (findParticipant r i token) r (\<lambda>p.
     with_transcript mediaEnabled r p (\<lambda>live.
       if \<not> isAgentAuthorizedForSharedMedia (r_meetingNotes r) (r_agentVoice r) (p_id p) live
       then (Refused 403 ''meeting_notes_not_authorized'', r)
       else if media_session p = Some session then seen_reply fits now r p ()
       else save_reply fits r (rotate_session now p session r) ()))"

record shown_media =
  sm_participantId :: jstr
  sm_name :: jstr
  sm_sessionId :: jstr
  sm_tracks :: "media_track list"

definition human_media :: "room \<Rightarrow> shown_media list" where
  "human_media r = List.map_filter (\<lambda>p. case p_media p of
     Some m \<Rightarrow> if p_kind p = Human \<and> p_connected p
       then Some \<lparr>sm_participantId = p_id p, sm_name = p_name p, sm_sessionId = m_sessionId m, sm_tracks = m_tracks m\<rparr> else None
   | None \<Rightarrow> None) (room_people r)"

text \<open>The transcript's authorization is asked for only when Meeting Notes does not authorize.\<close>

definition agent_room_media :: "(room \<Rightarrow> bool) \<Rightarrow> bool \<Rightarrow> int \<Rightarrow> jstr \<Rightarrow> jstr \<Rightarrow> room \<Rightarrow> shown_media list reply \<times> room" where
  "agent_room_media fits mediaEnabled now i token r = for_agent (findParticipant r i token) r (\<lambda>p.
     if isAgentAuthorizedForMedia (r_meetingNotes r) (p_id p) then seen_reply fits now r p (human_media r)
     else with_transcript mediaEnabled r p (\<lambda>live.
       if \<not> live then (Refused 403 ''meeting_notes_not_authorized'', r) else seen_reply fits now r p (human_media r)))"

subsection \<open>The ids of its tracks\<close>

definition named_mids :: "js list \<Rightarrow> jstr list" where
  "named_mids raw = filter (\<lambda>m. m \<noteq> []) (js_strs raw)"

definition subscribed_mids :: "media_state \<Rightarrow> jstr list" where
  "subscribed_mids m = (case m_agentSubscribedMids m of Some mids \<Rightarrow> mids | None \<Rightarrow> [])"

definition agent_track_subscribed :: "(room \<Rightarrow> bool) \<Rightarrow> bool \<Rightarrow> jstr \<Rightarrow> jstr \<Rightarrow> jstr option \<Rightarrow> js \<Rightarrow> js list \<Rightarrow> room \<Rightarrow>
    unit reply \<times> room" where
  "agent_track_subscribed fits mediaEnabled i token session purpose mids r =
     for_agent (find_in_session r i token session) r (\<lambda>p.
       let notes = purpose = JStr (lit ''meeting-notes''); transcript = purpose = JStr (lit ''live-transcript'') in
       if \<not> notes \<and> \<not> transcript then (Refused 403 ''agent_media_purpose_required'', r)
       else with_transcript mediaEnabled r p (\<lambda>live.
         if notes \<and> \<not> isAgentAuthorizedForMedia (r_meetingNotes r) (p_id p) \<or> transcript \<and> \<not> live
         then (Refused 403 ''agent_media_not_authorized'', r)
         else (case p_media p of
           None \<Rightarrow> (Refused 400 ''media_unavailable'', r)
         | Some m \<Rightarrow> (let merged = dedupe (subscribed_mids m @ named_mids mids) in
             if MAX_AGENT_SUBSCRIBED_MIDS < length merged then (Refused 503 ''agent_media_capacity_exceeded'', r)
             else if \<not> pendingCleanupHasCapacity (r_pendingMediaCleanup r) (m_sessionId m) 0
             then (Refused 503 ''agent_media_cleanup_backlog'', r)
             else save_reply fits r (set_participant (p\<lparr>p_media := Some (m\<lparr>m_agentSubscribedMids := Some merged\<rparr>)\<rparr>) r) ()))))"

text \<open>The Worker's hand-off of media it could not close itself; it asks for no participant.\<close>

definition agent_media_cleanup_pending :: "(room \<Rightarrow> bool) \<Rightarrow> jstr \<Rightarrow> js list \<Rightarrow> room \<Rightarrow> unit reply \<times> room" where
  "agent_media_cleanup_pending fits session mids r =
     (if named_mids mids = [] \<or> session = [] then (Refused 400 ''invalid_track'', r)
      else save_reply fits r
        (r\<lparr>r_pendingMediaCleanup := queuePendingCleanup (r_pendingMediaCleanup r) session (named_mids mids)\<rparr>) ())"

definition audio_track :: "jstr \<Rightarrow> media_track" where
  "audio_track name = \<lparr>mt_trackName = name, mt_kind = Audio, mt_mid = None\<rparr>"

definition shows_only :: "jstr \<Rightarrow> media_state \<Rightarrow> bool" where
  "shows_only name m = (case m_tracks m of [t] \<Rightarrow> mt_trackName t = name \<and> mt_kind t = Audio | _ \<Rightarrow> False)"

text \<open>\<open>announce\<close> is \<open>request.announce !== false\<close>. A truthy published id is not empty.\<close>

definition agent_track_published :: "(room \<Rightarrow> bool) \<Rightarrow> int \<Rightarrow> jstr \<Rightarrow> jstr \<Rightarrow> jstr option \<Rightarrow> js \<Rightarrow> jstr \<Rightarrow> bool \<Rightarrow> room \<Rightarrow>
    bool reply \<times> room" where
  "agent_track_published fits now i token session mid name announce r = (case find_in_session r i token session of
     None \<Rightarrow> (Refused 401 ''unauthorized'', r)
   | Some p \<Rightarrow>
       if p_kind p \<noteq> Agent then (Refused 401 ''unauthorized'', r)
       else (case mid of
         JStr x \<Rightarrow>
           if \<not> isAgentAuthorizedForVoice (r_agentVoice r) (p_id p) \<or> x = [] then (Refused 403 ''voice_reply_not_authorized'', r)
           else (case p_media p of
             None \<Rightarrow> (Refused 400 ''media_unavailable'', r)
           | Some m \<Rightarrow> (let known = truthy_str (m_agentPublishedMid m); shown = announce \<or> shows_only name m in
               if known \<noteq> None \<and> known \<noteq> Some x then (Refused 503 ''agent_publish_capacity_exceeded'', r)
               else if known = None \<and> \<not> pendingCleanupHasCapacity (r_pendingMediaCleanup r) (m_sessionId m) 1
               then (Refused 503 ''agent_media_cleanup_backlog'', r)
               else save_reply fits r (set_participant (p\<lparr>p_media := Some (m\<lparr>m_agentPublishedMid := Some x,
                   m_agentPublishedTrackName := Some name, m_agentVoiceReady := Some False,
                   m_tracks := (if shown then [audio_track name] else [])\<rparr>), p_lastSeenAt := now\<rparr>) r) shown))
       | _ \<Rightarrow> (Refused 403 ''voice_reply_not_authorized'', r)))"

definition for_voice :: "participant option \<Rightarrow> room \<Rightarrow> (participant \<Rightarrow> media_state \<Rightarrow> 'a reply \<times> room) \<Rightarrow> 'a reply \<times> room" where
  "for_voice who r k = (case who of
     None \<Rightarrow> (Refused 401 ''unauthorized'', r)
   | Some p \<Rightarrow>
       if p_kind p \<noteq> Agent then (Refused 401 ''unauthorized'', r)
       else if \<not> isAgentAuthorizedForVoice (r_agentVoice r) (p_id p) then (Refused 403 ''voice_reply_not_authorized'', r)
       else (case p_media p of None \<Rightarrow> (Refused 400 ''media_unavailable'', r) | Some m \<Rightarrow> k p m))"

text \<open>Whether the track became visible just now is the answer.\<close>

definition agent_track_active :: "(room \<Rightarrow> bool) \<Rightarrow> int \<Rightarrow> jstr \<Rightarrow> jstr \<Rightarrow> jstr option \<Rightarrow> jstr \<Rightarrow> room \<Rightarrow> bool reply \<times> room" where
  "agent_track_active fits now i token session name r = for_voice (find_in_session r i token session) r (\<lambda>p m.
     if shows_only name m
     then (if m_agentPublishedTrackName m = Some name
       then save_reply fits r (set_participant (p\<lparr>p_media := Some (m\<lparr>m_agentPublishedTrackName := None\<rparr>)\<rparr>) r) False
       else (Done False, r))
     else if truthy_str (m_agentPublishedMid m) = None \<or> m_agentPublishedTrackName m \<noteq> Some name
     then (Refused 409 ''agent_publication_not_ready'', r)
     else save_reply fits r (set_participant (p\<lparr>p_media := Some (m\<lparr>m_tracks := [audio_track name], m_agentPublishedTrackName := None\<rparr>),
       p_lastSeenAt := now\<rparr>) r) True)"

definition current_track_name :: "media_state \<Rightarrow> jstr option" where
  "current_track_name m = (case m_agentPublishedTrackName m of
     Some name \<Rightarrow> Some name
   | None \<Rightarrow> (case m_tracks m of [t] \<Rightarrow> if mt_kind t = Audio then Some (mt_trackName t) else None | _ \<Rightarrow> None))"

definition agent_track_ready :: "jstr \<Rightarrow> jstr \<Rightarrow> jstr option \<Rightarrow> jstr \<Rightarrow> room \<Rightarrow> bool reply \<times> room" where
  "agent_track_ready i token session name r = for_voice (find_in_session r i token session) r (\<lambda>p m.
     (Done (m_agentVoiceReady m = Some True \<and> current_track_name m = Some name), r))"

subsection \<open>The Worker's authorization of a provider call\<close>

record media_request =
  mr_participantId :: jstr
  mr_token :: jstr
  mr_sessionId :: "jstr option"
  mr_purpose :: js
  mr_localTrackCount :: "int option"
  mr_remoteTrackCount :: "int option"
  mr_trackSessionId :: "jstr option"
  mr_trackName :: "jstr option"
  mr_dataChannelSessionId :: "jstr option"
  mr_wantsVoicePublish :: bool

definition or_zero :: "int option \<Rightarrow> int" where
  "or_zero n = (case n of Some k \<Rightarrow> k | None \<Rightarrow> 0)"

text \<open>What an Agent may not do; \<open>None\<close> when its purpose, its grants and its one publication allow the call.\<close>

definition agent_denied :: "room \<Rightarrow> participant \<Rightarrow> media_request \<Rightarrow> bool \<Rightarrow> (nat \<times> string) option" where
  "agent_denied r p q live =
     (let purpose = mr_purpose q; voice = isAgentAuthorizedForVoice (r_agentVoice r) (p_id p) in
      case resolveAgentPurposePermission purpose (0 < or_zero (mr_localTrackCount q))
          (0 < or_zero (mr_remoteTrackCount q) \<or> truthy_str (mr_trackSessionId q) \<noteq> None) False of
        Some e \<Rightarrow> Some (403, e)
      | None \<Rightarrow>
          if mr_wantsVoicePublish q \<and> \<not> voice then Some (403, ''voice_reply_not_authorized'')
          else if purpose = JStr (lit ''meeting-notes'') \<and> \<not> isAgentAuthorizedForMedia (r_meetingNotes r) (p_id p)
          then Some (403, ''meeting_notes_not_authorized'')
          else if purpose = JStr (lit ''live-transcript'') \<and> \<not> live then Some (403, ''live_transcript_not_authorized'')
          else if purpose = JStr (lit ''voice-reply'') \<and> \<not> voice then Some (403, ''voice_reply_not_authorized'')
          else if purpose = JStr (lit ''agent-transport'') \<and>
              \<not> isAgentAuthorizedForSharedMedia (r_meetingNotes r) (r_agentVoice r) (p_id p) live
          then Some (403, ''agent_media_not_authorized'')
          else if Option.bind (p_media p) (\<lambda>m. truthy_str (m_agentPublishedMid m)) \<noteq> None \<and> 0 < or_zero (mr_localTrackCount q)
          then Some (503, ''agent_publish_capacity_exceeded'') else None)"

text \<open>The capacity that is checked before the provider creates anything.\<close>

definition agent_over_capacity :: "room \<Rightarrow> participant \<Rightarrow> media_request \<Rightarrow> (nat \<times> string) option" where
  "agent_over_capacity r p q =
     (let remote = or_zero (mr_remoteTrackCount q); new = remote + or_zero (mr_localTrackCount q);
          active = (case p_media p of Some m \<Rightarrow> length (subscribed_mids m) | None \<Rightarrow> 0);
          session = (case (media_session p, mr_sessionId q) of (Some s, _) \<Rightarrow> s | (None, Some s) \<Rightarrow> s | _ \<Rightarrow> []) in
      if 0 < remote \<and> int MAX_AGENT_SUBSCRIBED_MIDS < int active + remote then Some (503, ''agent_media_capacity_exceeded'')
      else if 0 < new \<and> \<not> pendingCleanupHasCapacity (r_pendingMediaCleanup r) session (nat new)
      then Some (503, ''agent_media_cleanup_backlog'') else None)"

definition published_track :: "room \<Rightarrow> jstr \<Rightarrow> jstr \<Rightarrow> bool" where
  "published_track r session name \<longleftrightarrow> list_ex (\<lambda>p. case p_media p of
     Some m \<Rightarrow> m_sessionId m = session \<and> list_ex (\<lambda>t. mt_trackName t = name) (m_tracks m) | None \<Rightarrow> False) (room_people r)"

definition track_allowed :: "room \<Rightarrow> participant \<Rightarrow> media_request \<Rightarrow> bool" where
  "track_allowed r p q = (case (truthy_str (mr_trackSessionId q), truthy_str (mr_trackName q)) of
     (Some session, Some name) \<Rightarrow> if p_kind p = Agent then isHumanAudioTrackTarget (r_participants r) session name
       else published_track r session name
   | _ \<Rightarrow> True)"

definition data_session_known :: "bool \<Rightarrow> room \<Rightarrow> publications \<Rightarrow> jstr \<Rightarrow> bool" where
  "data_session_known appsEnabled r apps session \<longleftrightarrow> list_ex (\<lambda>p. p_connected p \<and> (media_session p = Some session \<or>
     p_kind p = Agent \<and> data_session p = Some session \<and>
     fst (projectRuntimeParticipantTransportState appsEnabled r apps (p_id p)) \<noteq> [])) (room_people r)"

definition data_channel_allowed :: "bool \<Rightarrow> room \<Rightarrow> publications \<Rightarrow> participant \<Rightarrow> media_request \<Rightarrow> bool" where
  "data_channel_allowed appsEnabled r apps p q = (case truthy_str (mr_dataChannelSessionId q) of
     None \<Rightarrow> True
   | Some session \<Rightarrow> data_session_known appsEnabled r apps session \<and>
       (mr_purpose q = JStr (lit ''participant-reliable'') \<longrightarrow> p_kind p = Agent \<and>
         list_ex (\<lambda>s. so_sessionId s = session) (snd (projectRuntimeParticipantTransportState appsEnabled r apps (p_id p)))))"

text \<open>The session of a participant's reliable data lane is no media session and is compared apart.\<close>

definition authorize :: "bool \<Rightarrow> bool \<Rightarrow> room \<Rightarrow> publications \<Rightarrow> media_request \<Rightarrow> participant_kind reply" where
  "authorize mediaEnabled appsEnabled r apps q =
     (let reliable = mr_purpose q = JStr (lit ''participant-reliable'');
          finish = (\<lambda>p. if \<not> track_allowed r p q then Refused 404 ''track_not_found''
            else if \<not> data_channel_allowed appsEnabled r apps p q then Refused 404 ''datachannel_session_not_found''
            else Done (p_kind p)) in
      case find_in_session r (mr_participantId q) (mr_token q) (if reliable then None else mr_sessionId q) of
        None \<Rightarrow> Refused 401 ''unauthorized''
      | Some p \<Rightarrow>
          if reliable \<and> (p_kind p \<noteq> Agent \<or> mr_sessionId q \<noteq> data_session p \<or>
              fst (projectRuntimeParticipantTransportState appsEnabled r apps (p_id p)) = [])
          then Refused 403 ''participant_data_transport_unavailable''
          else if p_kind p \<noteq> Agent then finish p
          else (case isAgentAuthorizedForLiveTranscriptMedia mediaEnabled r p of
            Inl _ \<Rightarrow> Raised
          | Inr live \<Rightarrow> (case agent_denied r p q live of
              Some (status, e) \<Rightarrow> Refused status e
            | None \<Rightarrow> (case agent_over_capacity r p q of
                Some (status, e) \<Rightarrow> Refused status e
              | None \<Rightarrow> finish p))))"

subsection \<open>Humans' publications and sessions\<close>

text \<open>The handler asks for no kind: it is the Worker's \<open>authorize\<close> without a purpose that keeps Agents out.\<close>

definition reconnect :: "(room \<Rightarrow> bool) \<Rightarrow> int \<Rightarrow> jstr \<Rightarrow> jstr \<Rightarrow> jstr option \<Rightarrow> jstr \<Rightarrow> room \<Rightarrow> unit reply \<times> room" where
  "reconnect fits now i token session newSession r = (case find_in_session r i token session of
     None \<Rightarrow> (Refused 401 ''unauthorized'', r)
   | Some p \<Rightarrow> (case p_media p of
       None \<Rightarrow> (Refused 401 ''unauthorized'', r)
     | Some m \<Rightarrow> save_reply fits r (set_participant (p\<lparr>p_media := Some (m\<lparr>m_sessionId := newSession, m_fileChannelReady := False, m_tracks := []\<rparr>),
         p_connected := False, p_connectionNonce := None, p_lastSeenAt := now\<rparr>) r) ()))"

definition publish_track :: "(room \<Rightarrow> bool) \<Rightarrow> int \<Rightarrow> jstr \<Rightarrow> jstr \<Rightarrow> jstr option \<Rightarrow> media_track \<Rightarrow> room \<Rightarrow> unit reply \<times> room" where
  "publish_track fits now i token session t r = (case find_in_session r i token session of
     None \<Rightarrow> (Refused 401 ''unauthorized'', r)
   | Some p \<Rightarrow>
       if p_kind p = Agent then (Refused 403 ''agent_publish_not_allowed'', r)
       else (case p_media p of
         None \<Rightarrow> (Refused 400 ''media_unavailable'', r)
       | Some m \<Rightarrow> save_reply fits r (set_participant (p\<lparr>p_media := Some (m\<lparr>m_tracks :=
           filter (\<lambda>u. mt_trackName u \<noteq> mt_trackName t) (m_tracks m) @ [t]\<rparr>), p_lastSeenAt := now\<rparr>) r) ()))"

definition unpublish_track :: "(room \<Rightarrow> bool) \<Rightarrow> jstr \<Rightarrow> jstr \<Rightarrow> jstr \<Rightarrow> room \<Rightarrow> unit reply \<times> room" where
  "unpublish_track fits i token name r = (case findParticipant r i token of
     None \<Rightarrow> (Refused 401 ''unauthorized'', r)
   | Some p \<Rightarrow> (case p_media p of
       None \<Rightarrow> (Refused 400 ''media_unavailable'', r)
     | Some m \<Rightarrow> (let m' = m\<lparr>m_tracks := filter (\<lambda>u. mt_trackName u \<noteq> name) (m_tracks m)\<rparr> in
         save_reply fits r (set_participant (p\<lparr>p_media := Some
           (if p_kind p = Agent \<and> m_agentPublishedTrackName m = Some name
            then m'\<lparr>m_agentPublishedTrackName := None, m_agentPublishedMid := None\<rparr> else m')\<rparr>) r) ())))"

subsection \<open>What an Agent can be authorized for\<close>

lemma purpose_allowed: "resolveAgentPurposePermission purpose out into False = None \<longleftrightarrow>
    list_ex (\<lambda>p. purpose = JStr (lit p)) known_purposes \<and> (out \<longrightarrow> purpose = JStr (lit ''voice-reply'')) \<and>
    (into \<longrightarrow> purpose = JStr (lit ''meeting-notes'') \<or> purpose = JStr (lit ''live-transcript''))"
  by (auto simp: resolveAgentPurposePermission_def)

lemma not_denied: "agent_denied r p q live = None \<Longrightarrow>
    resolveAgentPurposePermission (mr_purpose q) (0 < or_zero (mr_localTrackCount q))
      (0 < or_zero (mr_remoteTrackCount q) \<or> truthy_str (mr_trackSessionId q) \<noteq> None) False = None \<and>
    (mr_purpose q = JStr (lit ''meeting-notes'') \<longrightarrow> isAgentAuthorizedForMedia (r_meetingNotes r) (p_id p)) \<and>
    (mr_purpose q = JStr (lit ''live-transcript'') \<longrightarrow> live) \<and>
    (mr_purpose q = JStr (lit ''voice-reply'') \<longrightarrow> isAgentAuthorizedForVoice (r_agentVoice r) (p_id p)) \<and>
    (mr_purpose q = JStr (lit ''agent-transport'') \<longrightarrow>
       isAgentAuthorizedForSharedMedia (r_meetingNotes r) (r_agentVoice r) (p_id p) live) \<and>
    (mr_wantsVoicePublish q \<longrightarrow> isAgentAuthorizedForVoice (r_agentVoice r) (p_id p)) \<and>
    (0 < or_zero (mr_localTrackCount q) \<longrightarrow> Option.bind (p_media p) (\<lambda>m. truthy_str (m_agentPublishedMid m)) = None)"
  unfolding agent_denied_def Let_def
  by (cases "resolveAgentPurposePermission (mr_purpose q) (0 < or_zero (mr_localTrackCount q))
      (0 < or_zero (mr_remoteTrackCount q) \<or> truthy_str (mr_trackSessionId q) \<noteq> None) False") (auto split: if_split_asm)

lemma in_own_session: "find_in_session r i token s = Some p \<Longrightarrow> truthy_str s \<noteq> None \<Longrightarrow> media_session p = truthy_str s"
  by (auto simp: find_in_session_def split: option.splits if_splits)

lemma find_in_session_found: "find_in_session r i token s = Some p \<Longrightarrow> findParticipant r i token = Some p"
  by (auto simp: find_in_session_def split: option.splits if_splits)

lemma within_capacity:
  assumes "agent_over_capacity r p q = None"
  shows "0 < or_zero (mr_remoteTrackCount q) \<longrightarrow>
      int (case p_media p of Some m \<Rightarrow> length (subscribed_mids m) | None \<Rightarrow> 0) + or_zero (mr_remoteTrackCount q) \<le> 64"
    and "0 < or_zero (mr_remoteTrackCount q) + or_zero (mr_localTrackCount q) \<longrightarrow>
      pendingCleanupHasCapacity (r_pendingMediaCleanup r)
        (case (media_session p, mr_sessionId q) of (Some s, _) \<Rightarrow> s | (None, Some s) \<Rightarrow> s | _ \<Rightarrow> [])
        (nat (or_zero (mr_remoteTrackCount q) + or_zero (mr_localTrackCount q)))"
  using assms by (auto simp: agent_over_capacity_def Let_def MAX_AGENT_SUBSCRIBED_MIDS_def split: if_split_asm)

lemma authorized_agent:
  assumes "authorize mediaEnabled appsEnabled r apps q = Done Agent"
  obtains p live where "findParticipant r (mr_participantId q) (mr_token q) = Some p" "p_kind p = Agent"
    "isAgentAuthorizedForLiveTranscriptMedia mediaEnabled r p = Inr live" "agent_denied r p q live = None"
    "agent_over_capacity r p q = None" "track_allowed r p q"
    "mr_purpose q = JStr (lit ''participant-reliable'') \<Longrightarrow> mr_sessionId q = data_session p \<and>
       fst (projectRuntimeParticipantTransportState appsEnabled r apps (p_id p)) \<noteq> []"
    "mr_purpose q \<noteq> JStr (lit ''participant-reliable'') \<Longrightarrow> find_in_session r (mr_participantId q) (mr_token q) (mr_sessionId q) = Some p"
    "data_channel_allowed appsEnabled r apps p q"
proof (cases "find_in_session r (mr_participantId q) (mr_token q)
    (if mr_purpose q = JStr (lit ''participant-reliable'') then None else mr_sessionId q)")
  case (Some p)
  show ?thesis
  proof (cases "p_kind p = Agent")
    case True
    note agent = this
    show ?thesis
    proof (cases "isAgentAuthorizedForLiveTranscriptMedia mediaEnabled r p")
      case (Inr live)
      with assms Some agent show ?thesis
        by (intro that [OF find_in_session_found [OF Some] agent Inr])
          (auto simp: authorize_def Let_def split: if_split_asm option.split_asm)
    qed (use assms Some agent in \<open>simp add: authorize_def Let_def split: if_split_asm\<close>)
  next
    case False
    with assms Some show ?thesis by (simp add: authorize_def Let_def split: if_split_asm)
  qed
qed (use assms in \<open>simp add: authorize_def Let_def\<close>)

text \<open>
  C33: whatever provider call the Worker is allowed to make for an Agent, with or without tracks: it has
  one of the known purposes and the current grant of that purpose (Meeting Notes, the transcript, voice;
  any of the three for transport plumbing; a granted data route, on the Agent's own data session, for
  the reliable lane), and it is made in the Agent's own session. A local track only to speak, under the
  voice grant and while nothing of the Agent is published; a remote track only for Meeting Notes or the
  transcript, under that very grant, within 64 subscriptions and only of a Human's audio track. New
  tracks only while their cleanup could still be queued, and a data channel only with a session the Room
  knows, on the reliable lane only with one of the sources granted to the Agent.
\<close>

theorem agent_authorization_sound:
  assumes "authorize mediaEnabled appsEnabled r apps q = Done Agent"
  shows "\<exists>p live. findParticipant r (mr_participantId q) (mr_token q) = Some p \<and> p_kind p = Agent \<and>
    isAgentAuthorizedForLiveTranscriptMedia mediaEnabled r p = Inr live \<and>
    list_ex (\<lambda>name. mr_purpose q = JStr (lit name)) known_purposes \<and>
    (mr_purpose q = JStr (lit ''meeting-notes'') \<longrightarrow> isAgentAuthorizedForMedia (r_meetingNotes r) (p_id p)) \<and>
    (mr_purpose q = JStr (lit ''live-transcript'') \<longrightarrow> live) \<and>
    (mr_purpose q = JStr (lit ''voice-reply'') \<or> mr_wantsVoicePublish q \<longrightarrow> isAgentAuthorizedForVoice (r_agentVoice r) (p_id p)) \<and>
    (mr_purpose q = JStr (lit ''agent-transport'') \<longrightarrow> isAgentAuthorizedForMedia (r_meetingNotes r) (p_id p) \<or>
       isAgentAuthorizedForVoice (r_agentVoice r) (p_id p) \<or> live) \<and>
    (mr_purpose q = JStr (lit ''participant-reliable'') \<longrightarrow> mr_sessionId q = data_session p \<and>
       fst (projectRuntimeParticipantTransportState appsEnabled r apps (p_id p)) \<noteq> []) \<and>
    (mr_purpose q \<noteq> JStr (lit ''participant-reliable'') \<and> truthy_str (mr_sessionId q) \<noteq> None \<longrightarrow>
       media_session p = truthy_str (mr_sessionId q)) \<and>
    (0 < or_zero (mr_localTrackCount q) \<longrightarrow> mr_purpose q = JStr (lit ''voice-reply'') \<and>
       isAgentAuthorizedForVoice (r_agentVoice r) (p_id p) \<and>
       Option.bind (p_media p) (\<lambda>m. truthy_str (m_agentPublishedMid m)) = None) \<and>
    (0 < or_zero (mr_remoteTrackCount q) \<or> truthy_str (mr_trackSessionId q) \<noteq> None \<longrightarrow>
       mr_purpose q = JStr (lit ''meeting-notes'') \<and> isAgentAuthorizedForMedia (r_meetingNotes r) (p_id p) \<or>
       mr_purpose q = JStr (lit ''live-transcript'') \<and> live) \<and>
    (0 < or_zero (mr_remoteTrackCount q) \<longrightarrow>
       int (case p_media p of Some m \<Rightarrow> length (subscribed_mids m) | None \<Rightarrow> 0) + or_zero (mr_remoteTrackCount q) \<le> 64) \<and>
    (0 < or_zero (mr_remoteTrackCount q) + or_zero (mr_localTrackCount q) \<longrightarrow>
       pendingCleanupHasCapacity (r_pendingMediaCleanup r)
         (case (media_session p, mr_sessionId q) of (Some s, _) \<Rightarrow> s | (None, Some s) \<Rightarrow> s | _ \<Rightarrow> [])
         (nat (or_zero (mr_remoteTrackCount q) + or_zero (mr_localTrackCount q)))) \<and>
    (case (truthy_str (mr_trackSessionId q), truthy_str (mr_trackName q)) of
       (Some session, Some name) \<Rightarrow> isHumanAudioTrackTarget (r_participants r) session name | _ \<Rightarrow> True) \<and>
    (case truthy_str (mr_dataChannelSessionId q) of None \<Rightarrow> True
     | Some session \<Rightarrow> data_session_known appsEnabled r apps session \<and>
       (mr_purpose q = JStr (lit ''participant-reliable'') \<longrightarrow>
         list_ex (\<lambda>s. so_sessionId s = session) (snd (projectRuntimeParticipantTransportState appsEnabled r apps (p_id p)))))"
  using assms
proof (rule authorized_agent)
  fix p live
  assume a: "findParticipant r (mr_participantId q) (mr_token q) = Some p" "p_kind p = Agent"
    "isAgentAuthorizedForLiveTranscriptMedia mediaEnabled r p = Inr live" "agent_denied r p q live = None"
    "agent_over_capacity r p q = None" "track_allowed r p q"
    and reliable: "mr_purpose q = JStr (lit ''participant-reliable'') \<Longrightarrow> mr_sessionId q = data_session p \<and>
       fst (projectRuntimeParticipantTransportState appsEnabled r apps (p_id p)) \<noteq> []"
    and found: "mr_purpose q \<noteq> JStr (lit ''participant-reliable'') \<Longrightarrow>
       find_in_session r (mr_participantId q) (mr_token q) (mr_sessionId q) = Some p"
    and channel: "data_channel_allowed appsEnabled r apps p q"
  note d = not_denied [OF a(4)]
  have transport: "mr_purpose q = JStr (lit ''agent-transport'') \<longrightarrow> isAgentAuthorizedForMedia (r_meetingNotes r) (p_id p) \<or>
      isAgentAuthorizedForVoice (r_agentVoice r) (p_id p) \<or> live"
    using d by (simp add: isAgentAuthorizedForSharedMedia_def)
  have session: "mr_purpose q \<noteq> JStr (lit ''participant-reliable'') \<and> truthy_str (mr_sessionId q) \<noteq> None \<longrightarrow>
      media_session p = truthy_str (mr_sessionId q)"
    using found in_own_session by blast
  note room = within_capacity [OF a(5)]
  have track: "case (truthy_str (mr_trackSessionId q), truthy_str (mr_trackName q)) of
       (Some session, Some name) \<Rightarrow> isHumanAudioTrackTarget (r_participants r) session name | _ \<Rightarrow> True"
    using a(2,6) by (simp add: track_allowed_def split: option.splits)
  have data: "case truthy_str (mr_dataChannelSessionId q) of None \<Rightarrow> True
     | Some session \<Rightarrow> data_session_known appsEnabled r apps session \<and>
       (mr_purpose q = JStr (lit ''participant-reliable'') \<longrightarrow>
         list_ex (\<lambda>s. so_sessionId s = session) (snd (projectRuntimeParticipantTransportState appsEnabled r apps (p_id p))))"
    using channel by (simp add: data_channel_allowed_def split: option.split_asm)
  have purpose: "list_ex (\<lambda>name. mr_purpose q = JStr (lit name)) known_purposes"
    "0 < or_zero (mr_localTrackCount q) \<longrightarrow> mr_purpose q = JStr (lit ''voice-reply'')"
    "0 < or_zero (mr_remoteTrackCount q) \<or> truthy_str (mr_trackSessionId q) \<noteq> None \<longrightarrow>
       mr_purpose q = JStr (lit ''meeting-notes'') \<or> mr_purpose q = JStr (lit ''live-transcript'')"
    using d purpose_allowed by auto
  show ?thesis
    by (intro exI [of _ p] exI [of _ live] conjI) (use a(1-3) d purpose room track data session transport reliable in \<open>blast+\<close>)
qed

text \<open>
  An Agent is shown the media of exactly the connected Humans, and of nobody else, and only while
  Meeting Notes or the transcript authorizes it.
\<close>

theorem media_discovery_guarded:
  assumes "agent_room_media fits mediaEnabled now i token r = (Done shown, r')"
  shows "\<exists>p. findParticipant r i token = Some p \<and> p_kind p = Agent \<and>
    (isAgentAuthorizedForMedia (r_meetingNotes r) (p_id p) \<or> isAgentAuthorizedForLiveTranscriptMedia mediaEnabled r p = Inr True) \<and>
    set shown = {\<lparr>sm_participantId = p_id h, sm_name = p_name h, sm_sessionId = m_sessionId m, sm_tracks = m_tracks m\<rparr> | h m.
      h \<in> set (room_people r) \<and> p_kind h = Human \<and> p_connected h \<and> p_media h = Some m}"
proof -
  have all: "set (human_media r) = {\<lparr>sm_participantId = p_id h, sm_name = p_name h, sm_sessionId = m_sessionId m, sm_tracks = m_tracks m\<rparr> | h m.
      h \<in> set (room_people r) \<and> p_kind h = Human \<and> p_connected h \<and> p_media h = Some m}"
  proof (intro set_eqI iffI)
    fix x assume "x \<in> {\<lparr>sm_participantId = p_id h, sm_name = p_name h, sm_sessionId = m_sessionId m, sm_tracks = m_tracks m\<rparr> | h m.
      h \<in> set (room_people r) \<and> p_kind h = Human \<and> p_connected h \<and> p_media h = Some m}"
    then obtain h m where "h \<in> set (room_people r)" "p_kind h = Human" "p_connected h" "p_media h = Some m"
      "x = \<lparr>sm_participantId = p_id h, sm_name = p_name h, sm_sessionId = m_sessionId m, sm_tracks = m_tracks m\<rparr>" by blast
    then show "x \<in> set (human_media r)"
      by (simp add: human_media_def map_filter_set) (rule bexI [of _ h], simp_all)
  qed (auto simp: human_media_def map_filter_set split: option.split_asm if_split_asm)
  from assms obtain p where p: "findParticipant r i token = Some p" "p_kind p = Agent"
    by (auto simp: agent_room_media_def for_agent_def split: option.split_asm if_split_asm)
  with assms have "isAgentAuthorizedForMedia (r_meetingNotes r) (p_id p) \<or>
      isAgentAuthorizedForLiveTranscriptMedia mediaEnabled r p = Inr True" "shown = human_media r"
    by (auto simp: agent_room_media_def for_agent_def with_transcript_def seen_reply_def save_reply_def
        split: option.split_asm if_split_asm sum.split_asm)
  with p all show ?thesis by blast
qed

subsection \<open>A Room with a note taker\<close>

definition demo_talker :: participant where
  "demo_talker = (demo_participant ''ana'' Human True)\<lparr>p_media := Some ((fresh_media (lit ''s1''))\<lparr>m_tracks := [audio_track (lit ''mic'')]\<rparr>)\<rparr>"

definition demo_note_taker :: participant where
  "demo_note_taker = (demo_participant ''bot'' Agent True)\<lparr>p_media := Some (fresh_media (lit ''s2''))\<rparr>"

definition demo_notes_room :: room where
  "demo_notes_room = demo_room\<lparr>r_meetingNotes := startMeetingNotes (lit ''bot'') 5,
     r_participants := dput (lit ''ana'') demo_talker (dput (lit ''bot'') demo_note_taker demo_participants)\<rparr>"

definition demo_media_request :: "string \<Rightarrow> media_request" where
  "demo_media_request purpose = \<lparr>mr_participantId = lit ''bot'', mr_token = lit ''t'', mr_sessionId = Some (lit ''s2''),
     mr_purpose = JStr (lit purpose), mr_localTrackCount = None, mr_remoteTrackCount = Some 1, mr_trackSessionId = Some (lit ''s1''),
     mr_trackName = Some (lit ''mic''), mr_dataChannelSessionId = None, mr_wantsVoicePublish = False\<rparr>"

lemma demo_authorizations:
  "authorize True True demo_notes_room [] (demo_media_request ''meeting-notes'') = Done Agent"
  "authorize True True demo_notes_room [] (demo_media_request ''live-transcript'') = Refused 403 ''live_transcript_not_authorized''"
  "authorize True True demo_notes_room [] (demo_media_request ''voice-reply'') = Refused 403 ''agent_media_direction_forbidden''"
  by code_simp+

theorem agent_authorization_sound_witness: "isHumanAudioTrackTarget (r_participants demo_notes_room) (lit ''s1'') (lit ''mic'')"
proof -
  have "case (truthy_str (mr_trackSessionId (demo_media_request ''meeting-notes'')), truthy_str (mr_trackName (demo_media_request ''meeting-notes''))) of
       (Some session, Some name) \<Rightarrow> isHumanAudioTrackTarget (r_participants demo_notes_room) session name | _ \<Rightarrow> True"
    using agent_authorization_sound [OF demo_authorizations(1)] by (elim exE conjE)
  then show ?thesis by (simp add: demo_media_request_def truthy_str_def)
qed

theorem media_discovery_guarded_witness:
  "case agent_room_media (\<lambda>_. True) True 7 (lit ''bot'') (lit ''t'') demo_notes_room of
     (Done shown, _) \<Rightarrow> map sm_participantId shown = [lit ''ana''] \<and>
       set shown = {\<lparr>sm_participantId = p_id h, sm_name = p_name h, sm_sessionId = m_sessionId m, sm_tracks = m_tracks m\<rparr> | h m.
         h \<in> set (room_people demo_notes_room) \<and> p_kind h = Human \<and> p_connected h \<and> p_media h = Some m}
   | _ \<Rightarrow> False"
proof -
  let ?out = "agent_room_media (\<lambda>_. True) True 7 (lit ''bot'') (lit ''t'') demo_notes_room"
  have d: "case fst ?out of Done shown \<Rightarrow> map sm_participantId shown = [lit ''ana''] | _ \<Rightarrow> False" by code_simp
  then obtain shown where shown: "fst ?out = Done shown" "map sm_participantId shown = [lit ''ana'']"
    by (cases "fst ?out") simp_all
  then have out: "?out = (Done shown, snd ?out)" by (metis prod.collapse)
  have "set shown = {\<lparr>sm_participantId = p_id h, sm_name = p_name h, sm_sessionId = m_sessionId m, sm_tracks = m_tracks m\<rparr> | h m.
         h \<in> set (room_people demo_notes_room) \<and> p_kind h = Human \<and> p_connected h \<and> p_media h = Some m}"
    using media_discovery_guarded [OF out] by (elim exE conjE)
  with shown(2) show ?thesis by (subst out) (simp only: prod.case reply.case simp_thms)
qed

end
