(* ===== verification/Room_Human.thy ===== *)
theory Room_Human
  imports Room_Media
begin

text \<open>
  The browser's side of a Room (fetch, handleClientMessage and webSocketClose of
  app/src/do/RoomSession.ts): a Human connects a socket, sends messages over it and loses it again.

  The attachment of a socket names its participant; a message is handled on the loaded, unexpired
  Room. Every handler first marks the Human as seen, in memory: only a handler that saves makes that
  lasting. The fields of a message have their declared types. What a handler broadcasts, its alarms
  and the provider calls after a save are left out. The messages of Collaboration, Tasks, generated Apps and Room Apps are
  modelled in their own theories.
\<close>

definition MAX_SOCKETS_PER_PARTICIPANT :: nat where "MAX_SOCKETS_PER_PARTICIPANT = 4"
definition MAX_ROOM_SOCKETS :: nat where "MAX_ROOM_SOCKETS = 64"

subsection \<open>Connecting\<close>

text \<open>A socket with the participant a Human's attachment names; an Agent's event socket names none here.\<close>

record open_socket =
  os_id :: nat
  os_participantId :: "jstr option"

text \<open>The answer of a connection is the sockets it replaces: all of the participant's, once it has four.\<close>

definition connect_human :: "(room \<Rightarrow> bool) \<Rightarrow> int \<Rightarrow> jstr \<Rightarrow> jstr \<Rightarrow> jstr \<Rightarrow> open_socket list \<Rightarrow> room \<Rightarrow>
    nat list reply \<times> room" where
  "connect_human fits now nonce i token sockets r =
     (if i = [] \<or> token = [] then (Refused 401 ''unauthorized'', r)
      else (case findParticipant r i token of
        None \<Rightarrow> (Refused 401 ''unauthorized'', r)
      | Some p \<Rightarrow>
          if p_kind p \<noteq> Human \<or> p_media p = None then (Refused 401 ''unauthorized'', r)
          else if MAX_ROOM_SOCKETS \<le> length sockets then (Refused 429 ''room_connection_limit'', r)
          else (let own = filter (\<lambda>s. os_participantId s = Some (p_id p)) sockets in
            save_reply fits r (set_participant (p\<lparr>p_connected := True, p_connectionNonce := Some nonce, p_lastSeenAt := now\<rparr>) r)
              (if MAX_SOCKETS_PER_PARTICIPANT \<le> length own then map os_id own else []))))"

text \<open>The open sockets once the replaced ones are closed and the new one is accepted.\<close>

definition accept_socket :: "nat \<Rightarrow> jstr \<Rightarrow> nat list \<Rightarrow> open_socket list \<Rightarrow> open_socket list" where
  "accept_socket n i gone sockets =
     filter (\<lambda>s. os_id s \<notin> set gone) sockets @ [\<lparr>os_id = n, os_participantId = Some i\<rparr>]"

subsection \<open>Losing a connection\<close>

definition clearAgentVoiceReadiness :: "room \<Rightarrow> room" where
  "clearAgentVoiceReadiness r = r\<lparr>r_participants := map (\<lambda>(i, p). (i, if p_kind p \<noteq> Agent then p
     else p\<lparr>p_media := map_option (\<lambda>m. m\<lparr>m_agentVoiceReady := None\<rparr>) (p_media p)\<rparr>)) (r_participants r)\<rparr>"

text \<open>A socket whose nonce is no longer the participant's was replaced: it closes without effect.\<close>

definition webSocketClose :: "(room \<Rightarrow> bool) \<Rightarrow> int \<Rightarrow> connection \<Rightarrow> room \<Rightarrow> room" where
  "webSocketClose fits now c r = (case dget (r_participants r) (cn_participantId c) of
     None \<Rightarrow> r
   | Some p \<Rightarrow>
       if p_connectionNonce p \<noteq> Some (cn_nonce c) then r
       else (case saveRoom fits (clearAgentVoiceReadiness (set_participant
           (p\<lparr>p_connected := False, p_lastSeenAt := now, p_connectionNonce := None\<rparr>) r)) of
         None \<Rightarrow> r | Some r' \<Rightarrow> r'))"

subsection \<open>Messages\<close>

datatype human_message =
    Resync
  | Leave_room
  | Set_muted bool
  | Unpublish_track jstr
  | Channel_ready bool
  | Transcript_start jstr
  | Transcript_stop
  | Notes_start jstr
  | Notes_stop
  | Voice_ready (vr_agent: jstr) (vr_session: jstr) (vr_track: jstr)
  | Voice_set jstr bool
  | Permission_answer js js
  | Chat_text jstr js js
  | Room_action jstr "(jstr, jstr) dict option"

datatype socket_outcome = Sent_error string | Sent_state | Nothing_sent | Committed | Left_room
  | Closed_unauthorized | Over_budget | Handler_raised

definition commit :: "(room \<Rightarrow> bool) \<Rightarrow> room \<Rightarrow> socket_outcome \<Rightarrow> room \<Rightarrow> socket_outcome \<times> room" where
  "commit fits stored ok r = (case saveRoom fits r of None \<Rightarrow> (Over_budget, stored) | Some r' \<Rightarrow> (ok, r'))"

definition commit_result :: "(room \<Rightarrow> bool) \<Rightarrow> room \<Rightarrow> socket_outcome \<Rightarrow> js_error + room \<Rightarrow> socket_outcome \<times> room" where
  "commit_result fits stored ok x = (case x of Inl _ \<Rightarrow> (Handler_raised, stored) | Inr r \<Rightarrow> commit fits stored ok r)"

definition set_media :: "participant \<Rightarrow> media_state \<Rightarrow> room \<Rightarrow> room" where
  "set_media p m r = set_participant (p\<lparr>p_media := Some m\<rparr>) r"

definition leave_socket :: "bool \<Rightarrow> int \<Rightarrow> participant \<Rightarrow> room \<Rightarrow> js_error + room" where
  "leave_socket mediaEnabled now p r =
     and_then (garbageCollectRuntimeHostAuthorization mediaEnabled (remove_participant (p_id p) (clearAgentVoiceReadiness r)))
       (\<lambda>r. Inr (applyEmptyRoomExpiry now (updateCollaborationActivity now r)))"

definition transcript_start :: "(room \<Rightarrow> bool) \<Rightarrow> bool \<Rightarrow> int \<Rightarrow> participant \<Rightarrow> jstr \<Rightarrow> room \<Rightarrow> room \<Rightarrow> socket_outcome \<times> room" where
  "transcript_start fits mediaEnabled now p hostId stored r = (case lv_state (r_transcript r) of
     LT_active _ _ _ \<Rightarrow> (Sent_state, stored)
   | LT_inactive \<Rightarrow>
       if \<not> mediaEnabled then (Sent_error ''live_transcript_media_disabled'', stored)
       else (case canHumanStartLiveTranscript (room_people r) (r_runtimeHosts r) (p_id p) hostId of
         Inl _ \<Rightarrow> (Handler_raised, stored)
       | Inr ready \<Rightarrow>
           if \<not> ready then (Sent_error ''live_transcript_unavailable'', stored)
           else (case startLiveTranscript (lv_state (r_transcript r)) (lv_nextEpoch (r_transcript r)) hostId now of
             (lt, epoch, _) \<Rightarrow> commit fits stored Committed
               (r\<lparr>r_transcript := (r_transcript r)\<lparr>lv_state := lt, lv_nextEpoch := epoch\<rparr>\<rparr>))))"

definition transcript_stop :: "room \<Rightarrow> room" where
  "transcript_stop r = (let r' = stageLiveTranscriptMediaRevocation r in
     r'\<lparr>r_transcript := (r_transcript r')\<lparr>lv_state := stopLiveTranscript (lv_state (r_transcript r'))\<rparr>\<rparr>)"

definition notes_error_text :: "notes_error \<Rightarrow> string" where
  "notes_error_text e = (case e of Notes_media_disabled \<Rightarrow> ''meeting_notes_media_disabled''
     | Notes_agent_not_in_room \<Rightarrow> ''agent_not_in_room'' | Notes_cleanup_backlog \<Rightarrow> ''agent_media_cleanup_backlog'')"

definition notes_start :: "(room \<Rightarrow> bool) \<Rightarrow> bool \<Rightarrow> int \<Rightarrow> jstr \<Rightarrow> room \<Rightarrow> room \<Rightarrow> socket_outcome \<times> room" where
  "notes_start fits mediaEnabled now agentId stored r =
     (case transitionMeetingNotesStart (r_meetingNotes r) (r_participants r) (r_pendingMediaCleanup r) mediaEnabled agentId now of
        Inl e \<Rightarrow> (Sent_error (notes_error_text e), stored)
      | Inr (mn, revocations, idempotent) \<Rightarrow>
          if idempotent then (Sent_state, stored)
          else commit_result fits stored Committed
            (stageMediaGrantRevocations mediaEnabled revocations (r\<lparr>r_meetingNotes := mn\<rparr>)))"

definition notes_stop :: "(room \<Rightarrow> bool) \<Rightarrow> bool \<Rightarrow> room \<Rightarrow> room \<Rightarrow> socket_outcome \<times> room" where
  "notes_stop fits mediaEnabled stored r = (case transitionMeetingNotesStop (r_meetingNotes r) of
     (mn, revocations) \<Rightarrow> commit_result fits stored Committed
       (stageMediaGrantRevocations mediaEnabled revocations (r\<lparr>r_meetingNotes := mn\<rparr>)))"

text \<open>The acknowledgement of a Human that hears the Agent: it must name the current publication.\<close>

definition voice_ready :: "(room \<Rightarrow> bool) \<Rightarrow> int \<Rightarrow> jstr \<Rightarrow> jstr \<Rightarrow> jstr \<Rightarrow> room \<Rightarrow> room \<Rightarrow> socket_outcome \<times> room" where
  "voice_ready fits now agentId session track stored r = (case dget (r_participants r) agentId of
     None \<Rightarrow> (Sent_error ''agent_not_in_room'', stored)
   | Some a \<Rightarrow>
       if p_kind a \<noteq> Agent \<or> \<not> p_connected a then (Sent_error ''agent_not_in_room'', stored)
       else if \<not> isAgentAuthorizedForVoice (r_agentVoice r) (p_id a) then (Sent_error ''voice_reply_not_authorized'', stored)
       else (case p_media a of
         None \<Rightarrow> (Sent_error ''agent_publication_not_ready'', stored)
       | Some m \<Rightarrow>
           if m_sessionId m \<noteq> session \<or> truthy_str (m_agentPublishedMid m) = None \<or> current_track_name m \<noteq> Some track
           then (Sent_error ''agent_publication_not_ready'', stored)
           else if m_agentVoiceReady m \<noteq> Some True
           then commit fits stored Committed (set_participant
             (a\<lparr>p_media := Some (m\<lparr>m_agentVoiceReady := Some True\<rparr>), p_lastSeenAt := now\<rparr>) r)
           else (Nothing_sent, stored)))"

definition voice_set :: "(room \<Rightarrow> bool) \<Rightarrow> bool \<Rightarrow> int \<Rightarrow> jstr \<Rightarrow> bool \<Rightarrow> room \<Rightarrow> room \<Rightarrow> socket_outcome \<times> room" where
  "voice_set fits mediaEnabled now agentId enabled stored r =
     (case transitionAgentVoiceSet (r_agentVoice r) (r_participants r) (r_runtimeHosts r) (r_pendingMediaCleanup r)
        mediaEnabled agentId enabled now of
        Inl (Voice_raised _) \<Rightarrow> (Handler_raised, stored)
      | Inl Voice_unavailable \<Rightarrow> (Sent_error ''voice_unavailable'', stored)
      | Inl Voice_cleanup_backlog \<Rightarrow> (Sent_error ''agent_media_cleanup_backlog'', stored)
      | Inr (av, revocations) \<Rightarrow> commit_result fits stored Committed
          (stageMediaGrantRevocations mediaEnabled revocations (r\<lparr>r_agentVoice := av\<rparr>)))"

text \<open>An answer that finds its request overdue, or its Agent gone, saves the expirations it made.\<close>

definition trimmed :: "js \<Rightarrow> jstr" where
  "trimmed v = (case v of JStr s \<Rightarrow> js_trim s | _ \<Rightarrow> [])"

definition permission_answer :: "(room \<Rightarrow> bool) \<Rightarrow> (int \<Rightarrow> jstr) \<Rightarrow> int \<Rightarrow> participant \<Rightarrow> js \<Rightarrow> js \<Rightarrow> room \<Rightarrow> room \<Rightarrow>
    socket_outcome \<times> room" where
  "permission_answer fits uuid now p requestId selected stored r =
     (if trimmed requestId = [] \<or> trimmed selected = [] then (Sent_error ''invalid_permission_response'', stored)
      else (case ingestPermissionResponse fits uuid p (trimmed requestId) (trimmed selected) now r of
        (RS_ok, r') \<Rightarrow> commit fits stored Committed r'
      | (RS_raised _, _) \<Rightarrow> (Handler_raised, stored)
      | (RS_error e, r') \<Rightarrow>
          if e = ''permission_request_expired'' \<or> e = ''permission_request_target_left''
          then commit fits stored (Sent_error e) r' else (Sent_error e, stored)))"

definition chat_text :: "(room \<Rightarrow> bool) \<Rightarrow> (int \<Rightarrow> jstr) \<Rightarrow> int \<Rightarrow> participant \<Rightarrow> jstr \<Rightarrow> js \<Rightarrow> js \<Rightarrow> room \<Rightarrow> room \<Rightarrow>
    socket_outcome \<times> room" where
  "chat_text fits uuid now p s targets taskRequestId stored r =
     (if js_trim s = [] then (Nothing_sent, stored)
      else (case appendHumanText fits (next_uuid uuid r) now p s targets taskRequestId r of
        (Inl e, _) \<Rightarrow> (Sent_error e, stored) | (Inr m, r') \<Rightarrow> (Committed, r')))"

definition action_message :: "jstr \<Rightarrow> int \<Rightarrow> participant \<Rightarrow> jstr \<Rightarrow> (jstr, jstr) dict option \<Rightarrow> room_message" where
  "action_message i now p actionType payload = \<lparr>rm_id = i, rm_peerId = p_id p, rm_name = p_name p, rm_kind = p_kind p,
     rm_type = Action_message, rm_text = None, rm_actionType = Some actionType, rm_actionPayload = payload, rm_collab = None,
     rm_permission = None, rm_taskRequestId = None, rm_targets = None, rm_createdAt = now, rm_sequence = 0\<rparr>"

definition room_action :: "(room \<Rightarrow> bool) \<Rightarrow> (int \<Rightarrow> jstr) \<Rightarrow> int \<Rightarrow> participant \<Rightarrow> jstr \<Rightarrow> (jstr, jstr) dict option \<Rightarrow>
    room \<Rightarrow> room \<Rightarrow> socket_outcome \<times> room" where
  "room_action fits uuid now p actionType payload stored r =
     (if actionType = lit ''permission'' then (Sent_error ''permission_requires_structured_response'', stored)
      else commit fits stored Committed (fst (appendMessage fits (action_message (next_uuid uuid r) now p actionType payload) r)))"

definition drop_track :: "jstr \<Rightarrow> media_state \<Rightarrow> media_state" where
  "drop_track name m = m\<lparr>m_tracks := filter (\<lambda>t. mt_trackName t \<noteq> name) (m_tracks m)\<rparr>"

definition handleClientMessage :: "(room \<Rightarrow> bool) \<Rightarrow> (int \<Rightarrow> jstr) \<Rightarrow> bool \<Rightarrow> int \<Rightarrow> connection \<Rightarrow> human_message \<Rightarrow> room \<Rightarrow>
    socket_outcome \<times> room" where
  "handleClientMessage fits uuid mediaEnabled now c msg r = (case findParticipant r (cn_participantId c) (cn_token c) of
     None \<Rightarrow> (Closed_unauthorized, r)
   | Some p0 \<Rightarrow> (case p_media p0 of
       None \<Rightarrow> (Closed_unauthorized, r)
     | Some m \<Rightarrow>
         if p_kind p0 \<noteq> Human then (Closed_unauthorized, r)
         else (let p = p0\<lparr>p_lastSeenAt := now\<rparr>; r1 = set_participant p r in (case msg of
             Resync \<Rightarrow> (Sent_state, r)
           | Leave_room \<Rightarrow> commit_result fits r Left_room (leave_socket mediaEnabled now p r1)
           | Set_muted b \<Rightarrow> commit fits r Committed (set_media p (m\<lparr>m_muted := b\<rparr>) r1)
           | Unpublish_track name \<Rightarrow> commit fits r Committed (set_media p (drop_track name m) r1)
           | Channel_ready apps \<Rightarrow> commit fits r Committed
               (set_media p (m\<lparr>m_fileChannelReady := True, m_appDataChannelReady := Some apps\<rparr>) r1)
           | Transcript_start hostId \<Rightarrow> transcript_start fits mediaEnabled now p hostId r r1
           | Transcript_stop \<Rightarrow> commit fits r Committed (transcript_stop r1)
           | Notes_start agentId \<Rightarrow> notes_start fits mediaEnabled now agentId r r1
           | Notes_stop \<Rightarrow> notes_stop fits mediaEnabled r r1
           | Voice_ready agentId session track \<Rightarrow> voice_ready fits now agentId session track r r1
           | Voice_set agentId enabled \<Rightarrow> voice_set fits mediaEnabled now agentId enabled r r1
           | Permission_answer requestId selected \<Rightarrow> permission_answer fits uuid now p requestId selected r r1
           | Chat_text s targets taskRequestId \<Rightarrow> chat_text fits uuid now p s targets taskRequestId r r1
           | Room_action actionType payload \<Rightarrow> room_action fits uuid now p actionType payload r r1))))"

subsection \<open>The bound on a participant's sockets\<close>

text \<open>
  A Human's new connection is accepted only for its own token and leaves the Room with at most 64
  sockets, of which at most four are the Human's; the sockets of others stay open.
\<close>

theorem connections_bounded:
  assumes "connect_human fits now nonce i token sockets r = (Done gone, r')" and "wf_participants (r_participants r)"
    and "distinct (map os_id sockets)"
  shows "\<exists>p. findParticipant r i token = Some p \<and> p_kind p = Human \<and>
    length (accept_socket n i gone sockets) \<le> MAX_ROOM_SOCKETS \<and>
    length (filter (\<lambda>s. os_participantId s = Some i) (accept_socket n i gone sockets)) \<le> MAX_SOCKETS_PER_PARTICIPANT \<and>
    filter (\<lambda>s. os_participantId s \<noteq> Some i) (accept_socket n i gone sockets) = filter (\<lambda>s. os_participantId s \<noteq> Some i) sockets"
proof -
  let ?own = "filter (\<lambda>s. os_participantId s = Some i) sockets"
  obtain p where p: "findParticipant r i token = Some p"
    using assms(1) by (auto simp: connect_human_def split: option.split_asm if_split_asm)
  have "p_id p = i"
    using p assms(2) by (auto simp: findParticipant_def wf_participants_def dest!: dget_in_set split: option.split_asm if_split_asm)
  with assms(1) p have c: "p_kind p = Human" "length sockets < MAX_ROOM_SOCKETS"
      "gone = (if MAX_SOCKETS_PER_PARTICIPANT \<le> length ?own then map os_id ?own else [])"
    by (auto simp: connect_human_def save_reply_def Let_def split: option.split_asm if_split_asm)
  have "length (filter (\<lambda>s. os_id s \<notin> set gone) sockets) < MAX_ROOM_SOCKETS" by (rule le_less_trans [OF length_filter_le c(2)])
  then have total: "length (accept_socket n i gone sockets) \<le> MAX_ROOM_SOCKETS" by (simp add: accept_socket_def Suc_le_eq)
  have own: "os_participantId s = Some i" if "s \<in> set sockets" "os_id s \<in> set gone" for s
    using that assms(3) c(3) by (auto simp: distinct_map inj_on_def split: if_split_asm)
  have kept: "filter (\<lambda>s. os_participantId s \<noteq> Some i \<and> os_id s \<notin> set gone) sockets = filter (\<lambda>s. os_participantId s \<noteq> Some i) sockets"
    using own by (intro filter_cong) auto
  have "length (filter (\<lambda>s. os_participantId s = Some i \<and> os_id s \<notin> set gone) sockets) < MAX_SOCKETS_PER_PARTICIPANT"
  proof (cases "MAX_SOCKETS_PER_PARTICIPANT \<le> length ?own")
    case True
    then have "filter (\<lambda>s. os_participantId s = Some i \<and> os_id s \<notin> set gone) sockets = []"
      using c(3) by (auto simp: filter_empty_conv)
    then show ?thesis by (simp only: list.size) (simp add: MAX_SOCKETS_PER_PARTICIPANT_def)
  qed (use c(3) in simp)
  then have "length (filter (\<lambda>s. os_participantId s = Some i) (accept_socket n i gone sockets)) \<le> MAX_SOCKETS_PER_PARTICIPANT"
    by (simp add: accept_socket_def Suc_le_eq conj_commute)
  moreover have "filter (\<lambda>s. os_participantId s \<noteq> Some i) (accept_socket n i gone sockets) = filter (\<lambda>s. os_participantId s \<noteq> Some i) sockets"
    using kept by (simp add: accept_socket_def conj_commute)
  ultimately show ?thesis using p c(1) total by blast
qed

definition demo_sockets :: "open_socket list" where
  "demo_sockets = map (\<lambda>(n, i). \<lparr>os_id = n, os_participantId = Some (lit i)\<rparr>) [(1, ''ana''), (2, ''eve''), (3, ''ana''), (4, ''ana''), (5, ''ana'')]"

theorem connections_bounded_witness:
  "case connect_human (\<lambda>_. True) 7 (lit ''n'') (lit ''ana'') (lit ''t'') demo_sockets demo_notes_room of
     (Done gone, _) \<Rightarrow> gone = [1, 3, 4, 5] \<and> length (accept_socket 6 (lit ''ana'') gone demo_sockets) \<le> MAX_ROOM_SOCKETS
   | _ \<Rightarrow> False"
proof -
  let ?out = "connect_human (\<lambda>_. True) 7 (lit ''n'') (lit ''ana'') (lit ''t'') demo_sockets demo_notes_room"
  have "fst ?out = Done [1, 3, 4, 5]" by code_simp
  then have out: "?out = (Done [1, 3, 4, 5], snd ?out)" by (metis prod.collapse)
  have "wf_participants (r_participants demo_notes_room)" "distinct (map os_id demo_sockets)" by code_simp+
  from connections_bounded [OF out this] show ?thesis by (subst out) auto
qed

end
