(* ===== verification/Room_Handles.thy ===== *)
theory Room_Handles
  imports Room_Human
begin

text \<open>
  The media of a Room over any sequence of its handlers. A media id the provider has given to an Agent
  is a handle on something that keeps flowing and costing until it is closed: the Room must remember it,
  either with the Agent or in the cleanup queue, whatever Humans, Agents and the alarm do in between.

  \<open>keeps\<close> says that a change of the Room loses no handle (and stores every participant under its own id, as before); it is reflexive and transitive, and every part the
  handlers are composed of is shown to keep.
\<close>

subsection \<open>Handles\<close>

text \<open>The id \<open>x\<close> of session \<open>s\<close> is remembered: queued for closing, or tracked by an Agent of the Room.\<close>

definition handle :: "room \<Rightarrow> jstr \<Rightarrow> jstr \<Rightarrow> bool" where
  "handle r s x \<longleftrightarrow> pending r s x \<or> (\<exists>i p m. dget (r_participants r) i = Some p \<and> p_kind p = Agent \<and> p_media p = Some m \<and>
     m_sessionId m = s \<and> x \<in> live_in m \<union> live_out m)"

text \<open>Every participant is stored once, under its own id.\<close>

definition own_keys :: "room \<Rightarrow> bool" where
  "own_keys r \<longleftrightarrow> wf_dict (r_participants r) \<and> (\<forall>i p. dget (r_participants r) i = Some p \<longrightarrow> p_id p = i)"

lemma own_key: "own_keys r \<Longrightarrow> dget (r_participants r) i = Some p \<Longrightarrow> p_id p = i"
  by (simp add: own_keys_def)

definition keeps :: "room \<Rightarrow> room \<Rightarrow> bool" where
  "keeps r r' \<longleftrightarrow> (\<forall>s x. handle r s x \<longrightarrow> handle r' s x) \<and> (own_keys r \<longrightarrow> own_keys r')"

lemma keeps_refl [simp]: "keeps r r"
  by (simp add: keeps_def)

lemma keeps_trans [trans]: "keeps r r' \<Longrightarrow> keeps r' r'' \<Longrightarrow> keeps r r''"
  by (simp add: keeps_def)

lemma handle_pending: "pending r s x \<Longrightarrow> handle r s x"
  by (simp add: handle_def)

lemma handle_tracked: "dget (r_participants r) i = Some p \<Longrightarrow> p_kind p = Agent \<Longrightarrow> p_media p = Some m \<Longrightarrow> m_sessionId m = s \<Longrightarrow>
    x \<in> live_in m \<union> live_out m \<Longrightarrow> handle r s x"
  unfolding handle_def by blast

lemma handle_cases:
  assumes "handle r s x"
  obtains "pending r s x"
  | i p m where "dget (r_participants r) i = Some p" "p_kind p = Agent" "p_media p = Some m" "m_sessionId m = s"
      "x \<in> live_in m \<union> live_out m"
  using assms unfolding handle_def by blast

lemma keepsI:
  assumes "\<And>s x. pending r s x \<Longrightarrow> pending r' s x"
    and "\<And>i p m x. dget (r_participants r) i = Some p \<Longrightarrow> p_kind p = Agent \<Longrightarrow> p_media p = Some m \<Longrightarrow>
      x \<in> live_in m \<union> live_out m \<Longrightarrow> handle r' (m_sessionId m) x"
    and "own_keys r \<Longrightarrow> own_keys r'"
  shows "keeps r r'"
  unfolding keeps_def using assms by (metis handle_cases handle_pending)

text \<open>Nothing is lost by a change that leaves the participants and the queue alone.\<close>

lemma keeps_equal: "r_pendingMediaCleanup r' = r_pendingMediaCleanup r \<Longrightarrow> r_participants r' = r_participants r \<Longrightarrow> keeps r r'"
  by (rule keepsI) (auto simp: pending_def own_keys_def intro: handle_tracked)

text \<open>A seat carries the id.\<close>

lemma own_seats: "own_keys r \<Longrightarrow> (\<And>i. seat r' i = seat r i) \<Longrightarrow> wf_dict (r_participants r') \<Longrightarrow> own_keys r'"
proof -
  assume o: "own_keys r" and s: "\<And>i. seat r' i = seat r i" and wf: "wf_dict (r_participants r')"
  have "p_id p = i" if p: "dget (r_participants r') i = Some p" for i p
  proof -
    from seat_fields [OF s [symmetric] p] obtain q where q: "dget (r_participants r) i = Some q" "q\<lparr>p_media := None\<rparr> = p\<lparr>p_media := None\<rparr>"
      by blast
    then show ?thesis using own_key [OF o q(1)] media_None_fields [OF q(2)] by simp
  qed
  with wf show ?thesis by (simp add: own_keys_def)
qed

text \<open>One participant changes; what an Agent tracked it tracks still, in the same session.\<close>

definition tracks_on :: "participant \<Rightarrow> participant \<Rightarrow> bool" where
  "tracks_on p p' \<longleftrightarrow> (p_kind p = Agent \<longrightarrow> p_kind p' = Agent \<and> (case p_media p of None \<Rightarrow> True
     | Some m \<Rightarrow> (case p_media p' of None \<Rightarrow> False
       | Some m' \<Rightarrow> m_sessionId m' = m_sessionId m \<and> live_in m \<subseteq> live_in m' \<and> live_out m \<subseteq> live_out m')))"

lemma set_participant_parts [simp]: "r_pendingMediaCleanup (set_participant p r) = r_pendingMediaCleanup r"
  "dget (r_participants (set_participant p r)) = (dget (r_participants r))(p_id p \<mapsto> p)"
  "r_transcript (set_participant p r) = r_transcript r" "r_runtimeHosts (set_participant p r) = r_runtimeHosts r"
  "r_meetingNotes (set_participant p r) = r_meetingNotes r" "r_agentVoice (set_participant p r) = r_agentVoice r"
  by (simp_all add: set_participant_def fun_eq_iff)

lemma own_set: "own_keys r \<Longrightarrow> own_keys (set_participant p r)"
  unfolding own_keys_def by (simp add: set_participant_def wf_dput)

lemma keeps_set: "dget (r_participants r) (p_id p') = Some p \<Longrightarrow> tracks_on p p' \<Longrightarrow> keeps r (set_participant p' r)"
proof (rule keepsI)
  fix i q m x
  assume p: "dget (r_participants r) (p_id p') = Some p" "tracks_on p p'"
    and q: "dget (r_participants r) i = Some q" "p_kind q = Agent" "p_media q = Some m" "x \<in> live_in m \<union> live_out m"
  show "handle (set_participant p' r) (m_sessionId m) x"
  proof (cases "i = p_id p'")
    case True
    with p(1) q(1) have "q = p" by simp
    with p(2) q(2,3) obtain m' where "p_kind p' = Agent" "p_media p' = Some m'" "m_sessionId m' = m_sessionId m"
      "live_in m \<subseteq> live_in m'" "live_out m \<subseteq> live_out m'"
      by (auto simp: tracks_on_def split: option.splits)
    then show ?thesis using q(4) by (intro handle_tracked [of _ "p_id p'" p' m']) auto
  next
    case False
    with q show ?thesis by (intro handle_tracked [of _ i q m]) simp_all
  qed
qed (simp_all add: pending_def own_set)

subsection \<open>Staging keeps\<close>

lemma own_stage: "own_keys r \<Longrightarrow> own_keys (stage_in_room i d r)"
proof -
  assume o: "own_keys r"
  have "seat (stage_in_room i d r) j = seat r j" for j
    using staged_in_room [of r i d] by (simp add: staged_def)
  moreover have "wf_dict (r_participants (stage_in_room i d r))"
    using o by (auto simp: own_keys_def stage_in_room_def wf_dput split: prod.split option.split)
  ultimately show ?thesis by (rule own_seats [OF o])
qed

lemma keeps_stage: "keeps r (stage_in_room i d r)"
proof (rule keepsI)
  fix s x assume "pending r s x"
  then show "pending (stage_in_room i d r) s x" using staged_in_room by (simp add: staged_def)
next
  fix j p m x
  assume p: "dget (r_participants r) j = Some p" "p_kind p = Agent" "p_media p = Some m" "x \<in> live_in m \<union> live_out m"
  show "handle (stage_in_room i d r) (m_sessionId m) x"
  proof (cases "j = i")
    case True
    obtain m' where m': "fst (stageAgentMediaRevocation (Some p) (r_pendingMediaCleanup r) d) = Some (p\<lparr>p_media := Some m'\<rparr>)"
      "m_sessionId m' = m_sessionId m" "live_in m' = (if d = Published then live_in m else {})"
      "live_out m' = (if d = Subscribed then live_out m else {})"
      using stage_media [OF p(2,3)] by blast
    then obtain q where q: "stageAgentMediaRevocation (Some p) (r_pendingMediaCleanup r) d = (Some (p\<lparr>p_media := Some m'\<rparr>), q)"
      by (metis prod.collapse)
    have room: "dget (r_participants (stage_in_room i d r)) i = Some (p\<lparr>p_media := Some m'\<rparr>)"
      "r_pendingMediaCleanup (stage_in_room i d r) = q"
      using p(1) True q by (simp_all add: stage_in_room_def)
    show ?thesis
    proof (cases "x \<in> set (staged_mids d m)")
      case True
      then have "queued q (m_sessionId m) x"
        using stage_queue [OF p(2,3), of "r_pendingMediaCleanup r" d "m_sessionId m" x] q by simp
      then show ?thesis using room(2) by (simp add: handle_pending pending_def)
    next
      case False
      with p(4) m'(3,4) have "x \<in> live_in m' \<union> live_out m'" by (auto simp: set_staged_mids split: if_splits)
      with room(1) p(2) m'(2) show ?thesis by (intro handle_tracked [of _ i "p\<lparr>p_media := Some m'\<rparr>" m']) simp_all
    qed
  next
    case False
    with p(1) have "dget (r_participants (stage_in_room i d r)) j = Some p"
      by (simp add: stage_in_room_def split: prod.split option.split)
    with p show ?thesis by (intro handle_tracked [of _ j p m]) simp_all
  qed
next
  show "own_keys r \<Longrightarrow> own_keys (stage_in_room i d r)" by (rule own_stage)
qed

lemma keeps_fold_stage: "keeps r (fold (\<lambda>p r. if P p r then stage_in_room (f p) d r else r) ps r)"
  by (rule fold_rel [of keeps]) (auto intro: keeps_trans keeps_stage)

lemma keeps_revocations: "stageMediaGrantRevocations media vs r = Inr r' \<Longrightarrow> keeps r r'"
  unfolding stageMediaGrantRevocations_def
  by (erule fold_result_rel [of _ _ _ _ keeps])
    (auto simp: stage_revocation_def and_then_Inr keeps_stage intro: keeps_trans split: option.splits if_splits)

lemma keeps_producer: "keeps r (stage_producer p r)"
  by (simp add: stage_producer_def keeps_stage split: live_transcript.split)

lemma keeps_transcript: "keeps r (stageLiveTranscriptMediaRevocation r)"
  by (simp add: stageLiveTranscriptMediaRevocation_def keeps_fold_stage split: live_transcript.split)

lemma keeps_normalized: "normalize_transcript_in_room media r = Inr r' \<Longrightarrow> keeps r r'"
  by (auto simp: normalize_transcript_in_room_def and_then_Inr Let_def
      intro: keeps_trans [OF keeps_transcript keeps_equal] split: if_splits)

lemma keeps_collected: "garbageCollectRuntimeHostAuthorization media r = Inr r' \<Longrightarrow> keeps r r'"
  unfolding garbageCollectRuntimeHostAuthorization_def
  by (rule keeps_trans [OF keeps_equal keeps_normalized]) simp_all

lemma keeps_settled: "settle_departure media now mn av r = Inr r' \<Longrightarrow> keeps r r'"
  by (auto simp: settle_departure_def and_then_Inr updateCollaborationActivity_def
      intro: keeps_trans [OF keeps_collected keeps_equal])

lemma keeps_saved: "saveRoom fits r = Some r' \<Longrightarrow> keeps r r'"
  by (rule keeps_equal) (auto dest!: save_cases)

subsection \<open>The handlers keep\<close>

lemma found_in_room: "own_keys r \<Longrightarrow> findParticipant r i token = Some p \<Longrightarrow> dget (r_participants r) (p_id p) = Some p"
  by (auto simp: findParticipant_def own_key split: option.split_asm if_split_asm)

lemma in_session_in_room: "own_keys r \<Longrightarrow> find_in_session r i token s = Some p \<Longrightarrow> dget (r_participants r) (p_id p) = Some p"
  by (blast dest: find_in_session_found found_in_room)

lemma keeps_reply: "keeps r r1 \<Longrightarrow> save_reply fits r r1 x = (out, r') \<Longrightarrow> keeps r r'"
  by (auto simp: save_reply_def intro: keeps_trans [OF _ keeps_saved] split: option.split_asm)

lemma keeps_commit: "keeps r r1 \<Longrightarrow> commit fits r ok r1 = (out, r') \<Longrightarrow> keeps r r'"
  by (auto simp: commit_def intro: keeps_trans [OF _ keeps_saved] split: option.split_asm)

lemma keeps_result: "(\<And>r1. y = Inr r1 \<Longrightarrow> keeps r r1) \<Longrightarrow> commit_result fits r ok y = (out, r') \<Longrightarrow> keeps r r'"
  by (auto simp: commit_result_def intro: keeps_commit split: sum.split_asm)

lemma keeps_seen: "own_keys r \<Longrightarrow> findParticipant r i token = Some p \<Longrightarrow> seen_reply fits now r p x = (out, r') \<Longrightarrow> keeps r r'"
  unfolding seen_reply_def
  by (rule keeps_reply, rule keeps_set [where p = p]) (auto simp: tracks_on_def found_in_room split: option.split)

lemma for_agentD: "for_agent who r k = (out, r') \<Longrightarrow> r' = r \<or> (\<exists>p. who = Some p \<and> p_kind p = Agent \<and> k p = (out, r'))"
  by (auto simp: for_agent_def split: option.split_asm if_split_asm)

lemma for_voiceD: "for_voice who r k = (out, r') \<Longrightarrow> r' = r \<or>
    (\<exists>p m. who = Some p \<and> p_kind p = Agent \<and> isAgentAuthorizedForVoice (r_agentVoice r) (p_id p) \<and> p_media p = Some m \<and> k p m = (out, r'))"
  by (auto simp: for_voice_def split: option.split_asm if_split_asm)

lemma with_transcriptD: "with_transcript media r p k = (out, r') \<Longrightarrow> r' = r \<or> (\<exists>b. k b = (out, r'))"
  by (auto simp: with_transcript_def split: sum.split_asm)

lemma keeps_admit:
  assumes "own_keys r" and "agent_media_admit fits media now i token r = (out, r')"
  shows "keeps r r'"
  using assms
  by (auto simp: agent_media_admit_def dest!: for_agentD with_transcriptD split: if_split_asm
      intro: keeps_seen)

lemma keeps_rotation:
  assumes "dget (r_participants r) (p_id p) = Some p" and "p_kind p = Agent"
  shows "keeps r (rotate_session now p s r)"
proof (rule keepsI)
  fix s' x assume "pending r s' x"
  then show "pending (rotate_session now p s r) s' x"
    using staged_in_room [of r "p_id p" Both] by (simp add: rotate_session_def pending_def staged_def)
next
  fix j q m x
  assume q: "dget (r_participants r) j = Some q" "p_kind q = Agent" "p_media q = Some m" "x \<in> live_in m \<union> live_out m"
  show "handle (rotate_session now p s r) (m_sessionId m) x"
  proof (cases "j = p_id p")
    case True
    with assms(1) q(1) have "q = p" by simp
    have "x \<in> set (staged_mids Both m)" using q(4) by (simp add: set_staged_mids)
    then have "pending (stage_in_room (p_id p) Both r) (m_sessionId m) x"
      using staged_media [OF assms, of m Both] q(3) \<open>q = p\<close> by auto
    then show ?thesis by (simp add: rotate_session_def handle_pending pending_def)
  next
    case False
    with q(1) have "dget (r_participants (rotate_session now p s r)) j = Some q"
      by (simp add: rotate_session_def stage_in_room_def split: prod.split option.split)
    with q show ?thesis by (intro handle_tracked [of _ j q m]) simp_all
  qed
next
  assume "own_keys r"
  then have "own_keys (stage_in_room (p_id p) Both r)"
    by (rule own_stage)
  then show "own_keys (rotate_session now p s r)" unfolding rotate_session_def by (rule own_set)
qed

lemma keeps_rotated: "own_keys r \<Longrightarrow> findParticipant r i token = Some p \<Longrightarrow> p_kind p = Agent \<Longrightarrow>
    save_reply fits r (rotate_session now p s r) x = (out, r') \<Longrightarrow> keeps r r'"
  by (rule keeps_reply [OF keeps_rotation]) (auto simp: found_in_room)

lemma keeps_attach:
  assumes "own_keys r" and "agent_media_attach fits media now i token s r = (out, r')"
  shows "keeps r r'"
  using assms
  by (auto simp: agent_media_attach_def dest!: for_agentD with_transcriptD split: if_split_asm
      intro: keeps_seen keeps_rotated)

lemma keeps_discovery:
  assumes "own_keys r" and "agent_room_media fits media now i token r = (out, r')"
  shows "keeps r r'"
  using assms
  by (auto simp: agent_room_media_def dest!: for_agentD with_transcriptD split: if_split_asm)
    (erule (2) keeps_seen)+

lemma keeps_subscribed:
  assumes "own_keys r" and "agent_track_subscribed fits media i token s purpose mids r = (out, r')"
  shows "keeps r r'"
proof (cases "r' = r")
  case False
  then obtain p m where p: "find_in_session r i token s = Some p" "p_media p = Some m"
    and r': "save_reply fits r (set_participant (p\<lparr>p_media := Some (m\<lparr>m_agentSubscribedMids :=
      Some (dedupe (subscribed_mids m @ named_mids mids))\<rparr>)\<rparr>) r) () = (out, r')"
    using assms(2) by (auto simp: agent_track_subscribed_def Let_def dest!: for_agentD with_transcriptD
        split: if_split_asm option.split_asm)
  have "live_in m \<subseteq> live_in (m\<lparr>m_agentSubscribedMids := Some (dedupe (subscribed_mids m @ named_mids mids))\<rparr>)"
    by (auto simp: live_in_def subscribed_mids_def)
  then show ?thesis using in_session_in_room [OF assms(1) p(1)] p(2)
    by (intro keeps_reply [OF keeps_set r']) (auto simp: tracks_on_def live_out_def)
qed simp

lemma keeps_handed_off: "agent_media_cleanup_pending fits s mids r = (out, r') \<Longrightarrow> keeps r r'"
proof -
  have "keeps r (r\<lparr>r_pendingMediaCleanup := queuePendingCleanup (r_pendingMediaCleanup r) s (named_mids mids)\<rparr>)"
    by (rule keepsI) (auto simp: pending_def queued_queue own_keys_def intro: handle_tracked)
  then show "agent_media_cleanup_pending fits s mids r = (out, r') \<Longrightarrow> keeps r r'"
    by (auto simp: agent_media_cleanup_pending_def intro: keeps_reply split: if_split_asm)
qed

lemma keeps_published:
  assumes "own_keys r" and "agent_track_published fits now i token s mid name announce r = (out, r')"
  shows "keeps r r'"
proof (cases "r' = r")
  case False
  with assms(2) obtain p m x shown where p: "find_in_session r i token s = Some p" "p_media p = Some m"
    "truthy_str (m_agentPublishedMid m) = None \<or> truthy_str (m_agentPublishedMid m) = Some x" and
    r': "save_reply fits r (set_participant (p\<lparr>p_media := Some (m\<lparr>m_agentPublishedMid := Some x,
       m_agentPublishedTrackName := Some name, m_agentVoiceReady := Some False,
       m_tracks := (if shown then [audio_track name] else [])\<rparr>), p_lastSeenAt := now\<rparr>) r) shown = (out, r')"
    by (auto simp: agent_track_published_def Let_def split: option.split_asm if_split_asm js.split_asm)
  have "live_out m \<subseteq> {x}" using p(3) by (auto simp: live_out_def truthy_str_def split: option.split_asm if_split_asm)
  moreover have "x \<noteq> [] \<or> live_out m = {}" using p(3)
    by (auto simp: live_out_def truthy_str_def split: option.split_asm if_split_asm)
  ultimately show ?thesis using in_session_in_room [OF assms(1) p(1)] p(2)
    by (intro keeps_reply [OF keeps_set r']) (auto simp: tracks_on_def live_in_def live_out_def)
qed simp

lemma keeps_active:
  assumes "own_keys r" and "agent_track_active fits now i token s name r = (out, r')"
  shows "keeps r r'"
proof -
  have set: "keeps r r'" if "find_in_session r i token s = Some p" "p_media p = Some m"
    "save_reply fits r (set_participant (p\<lparr>p_media := Some (m\<lparr>m_tracks := ts, m_agentPublishedTrackName := n\<rparr>), p_lastSeenAt := t\<rparr>) r) b = (out, r')"
    for p m ts n t b
    using in_session_in_room [OF assms(1) that(1)] that(2)
    by (intro keeps_reply [OF keeps_set that(3)]) (auto simp: tracks_on_def live_in_def live_out_def)
  show ?thesis
  proof (cases "r' = r")
    case False
    with assms(2) obtain p m where p: "find_in_session r i token s = Some p" "p_media p = Some m" and
      r': "save_reply fits r (set_participant (p\<lparr>p_media := Some (m\<lparr>m_agentPublishedTrackName := None\<rparr>)\<rparr>) r) False = (out, r') \<or>
        save_reply fits r (set_participant (p\<lparr>p_media := Some (m\<lparr>m_tracks := [audio_track name], m_agentPublishedTrackName := None\<rparr>),
          p_lastSeenAt := now\<rparr>) r) True = (out, r')"
      by (auto simp: agent_track_active_def dest!: for_voiceD split: if_split_asm)
    from r' show ?thesis
    proof
      assume a: "save_reply fits r (set_participant (p\<lparr>p_media := Some (m\<lparr>m_agentPublishedTrackName := None\<rparr>)\<rparr>) r) False = (out, r')"
      show ?thesis by (rule set [OF p, where ts = "m_tracks m" and n = None and t = "p_lastSeenAt p" and b = False]) (use a in simp)
    qed (rule set [OF p])
  qed simp
qed

subsection \<open>Humans' actions keep\<close>

lemma keeps_human: "dget (r_participants r) (p_id p') = Some p \<Longrightarrow> p_kind p = Human \<Longrightarrow> keeps r (set_participant p' r)"
  by (rule keeps_set [where p = p]) (simp_all add: tracks_on_def)

lemma keeps_publish_track:
  assumes "own_keys r" and "publish_track fits now i token s t r = (out, r')"
  shows "keeps r r'"
proof (cases "r' = r")
  case False
  with assms(2) obtain p m where p: "find_in_session r i token s = Some p" "p_kind p \<noteq> Agent" and
    r': "save_reply fits r (set_participant (p\<lparr>p_media := Some (m\<lparr>m_tracks :=
           filter (\<lambda>u. mt_trackName u \<noteq> mt_trackName t) (m_tracks m) @ [t]\<rparr>), p_lastSeenAt := now\<rparr>) r) () = (out, r')"
    by (auto simp: publish_track_def split: option.split_asm if_split_asm)
  show ?thesis using in_session_in_room [OF assms(1) p(1)] p(2)
    by (intro keeps_reply [OF keeps_human r']) (auto intro: participant_kind.exhaust [of "p_kind p"])
qed simp

lemma keeps_reconnect:
  assumes "own_keys r" and "reconnect fits now i token s new r = (out, r')"
    and "\<And>p. find_in_session r i token s = Some p \<Longrightarrow> p_kind p = Human"
  shows "keeps r r'"
proof (cases "r' = r")
  case False
  with assms(2) obtain p m where p: "find_in_session r i token s = Some p" and
    r': "save_reply fits r (set_participant (p\<lparr>p_media := Some (m\<lparr>m_sessionId := new, m_fileChannelReady := False, m_tracks := []\<rparr>),
         p_connected := False, p_connectionNonce := None, p_lastSeenAt := now\<rparr>) r) () = (out, r')"
    by (auto simp: reconnect_def split: option.split_asm)
  show ?thesis using in_session_in_room [OF assms(1) p] assms(3) [OF p]
    by (intro keeps_reply [OF keeps_human r']) simp_all
qed simp

lemma keeps_connect:
  assumes "own_keys r" and "connect_human fits now nonce i token sockets r = (out, r')"
  shows "keeps r r'"
proof (cases "r' = r")
  case False
  with assms(2) obtain p x where p: "findParticipant r i token = Some p" "p_kind p = Human" and
    r': "save_reply fits r (set_participant (p\<lparr>p_connected := True, p_connectionNonce := Some nonce, p_lastSeenAt := now\<rparr>) r) x = (out, r')"
    by (auto simp: connect_human_def Let_def split: option.split_asm if_split_asm)
  show ?thesis using found_in_room [OF assms(1) p(1)] p(2)
    by (intro keeps_reply [OF keeps_human r']) simp_all
qed simp

lemma dget_map_pair: "dget (map (\<lambda>(i, p). (i, f p)) ps) i = map_option f (dget ps i)"
  by (induction ps) auto

lemma keeps_unready: "keeps r (clearAgentVoiceReadiness r)"
proof (rule keepsI)
  fix i p m x
  assume p: "dget (r_participants r) i = Some p" "p_kind p = Agent" "p_media p = Some m" "x \<in> live_in m \<union> live_out m"
  then show "handle (clearAgentVoiceReadiness r) (m_sessionId m) x"
    by (intro handle_tracked [of _ i "p\<lparr>p_media := Some (m\<lparr>m_agentVoiceReady := None\<rparr>)\<rparr>" "m\<lparr>m_agentVoiceReady := None\<rparr>"])
      (simp_all add: clearAgentVoiceReadiness_def dget_map_pair live_in_def live_out_def)
qed (auto simp: clearAgentVoiceReadiness_def pending_def own_keys_def dget_map_pair wf_dict_def comp_def case_prod_beta)

lemma keeps_close:
  assumes "own_keys r"
  shows "keeps r (webSocketClose fits now c r)"
proof (cases "dget (r_participants r) (cn_participantId c)")
  case (Some p)
  have "keeps r (set_participant (p\<lparr>p_connected := False, p_lastSeenAt := now, p_connectionNonce := None\<rparr>) r)"
    using Some own_key [OF assms Some] by (intro keeps_set [of _ _ p]) (auto simp: tracks_on_def split: option.split)
  then have "keeps r (clearAgentVoiceReadiness (set_participant (p\<lparr>p_connected := False, p_lastSeenAt := now, p_connectionNonce := None\<rparr>) r))"
    using keeps_unready keeps_trans by blast
  then show ?thesis using Some by (auto simp: webSocketClose_def intro: keeps_trans keeps_saved split: option.split)
qed (simp add: webSocketClose_def)

lemma keeps_closed: "own_keys r \<Longrightarrow> r' = webSocketClose fits now c r \<Longrightarrow> keeps r r'"
  by (simp add: keeps_close)

text \<open>A participant that is no Agent may go; an Agent may go once nothing of it is tracked.\<close>

lemma keeps_remove:
  assumes "\<And>p m x. dget (r_participants r) i = Some p \<Longrightarrow> p_kind p = Agent \<Longrightarrow> p_media p = Some m \<Longrightarrow>
      x \<in> live_in m \<union> live_out m \<Longrightarrow> pending r (m_sessionId m) x"
  shows "keeps r (remove_participant i r)"
proof (rule keepsI)
  fix j p m x
  assume p: "dget (r_participants r) j = Some p" "p_kind p = Agent" "p_media p = Some m" "x \<in> live_in m \<union> live_out m"
  show "handle (remove_participant i r) (m_sessionId m) x"
  proof (cases "j = i")
    case True
    then show ?thesis using assms p by (intro handle_pending) simp
  next
    case False
    with p show ?thesis by (intro handle_tracked [of _ j p m]) (simp_all add: remove_participant_def)
  qed
qed (simp, simp add: own_keys_def remove_participant_def wf_ddel)

lemma unready_seat: "dget (r_participants (clearAgentVoiceReadiness r)) i = Some p \<Longrightarrow>
    \<exists>q. dget (r_participants r) i = Some q \<and> p_kind q = p_kind p"
  by (auto simp: clearAgentVoiceReadiness_def dget_map_pair split: if_splits)

lemma keeps_leave_socket:
  assumes "leave_socket media now p r = Inr r'" and "dget (r_participants r) (p_id p) = Some p" and "p_kind p = Human"
  shows "keeps r r'"
proof -
  let ?r = "clearAgentVoiceReadiness r"
  obtain r1 where g: "garbageCollectRuntimeHostAuthorization media (remove_participant (p_id p) ?r) = Inr r1"
    and r': "r' = applyEmptyRoomExpiry now (updateCollaborationActivity now r1)"
    using assms(1) by (auto simp: leave_socket_def and_then_Inr)
  have "keeps r ?r" by (rule keeps_unready)
  also have "keeps ?r (remove_participant (p_id p) ?r)"
    using assms(2,3) by (intro keeps_remove) (auto dest!: unready_seat)
  also have "keeps (remove_participant (p_id p) ?r) r1" by (rule keeps_collected [OF g])
  also have "keeps r1 r'"
    unfolding r' by (rule keeps_equal) (simp_all add: updateCollaborationActivity_def)
  finally show ?thesis .
qed

lemma keeps_voice_ready:
  assumes "own_keys r" and "voice_ready fits now a s t stored r = (out, r')" and "keeps stored r"
  shows "keeps stored r'"
proof (cases "r' = stored")
  case False
  with assms(2) obtain p m where p: "dget (r_participants r) a = Some p" "p_media p = Some m" and
    r': "commit fits stored Committed (set_participant (p\<lparr>p_media := Some (m\<lparr>m_agentVoiceReady := Some True\<rparr>), p_lastSeenAt := now\<rparr>) r) = (out, r')"
    by (auto simp: voice_ready_def split: option.split_asm if_split_asm)
  have "keeps r (set_participant (p\<lparr>p_media := Some (m\<lparr>m_agentVoiceReady := Some True\<rparr>), p_lastSeenAt := now\<rparr>) r)"
    using p own_key [OF assms(1) p(1)] by (intro keeps_set [of _ _ p]) (auto simp: tracks_on_def live_in_def live_out_def)
  with assms(3) have "keeps stored (set_participant (p\<lparr>p_media := Some (m\<lparr>m_agentVoiceReady := Some True\<rparr>), p_lastSeenAt := now\<rparr>) r)"
    by (rule keeps_trans)
  then show ?thesis using r' by (rule keeps_commit)
qed simp

lemma keeps_voice_set:
  assumes "voice_set fits media now a on stored r = (out, r')" and "keeps stored r"
  shows "keeps stored r'"
proof (cases "r' = stored")
  case False
  with assms(1) obtain av vs where
    r': "commit_result fits stored Committed (stageMediaGrantRevocations media vs (r\<lparr>r_agentVoice := av\<rparr>)) = (out, r')"
    by (auto simp: voice_set_def split: sum.split_asm voice_error.split_asm)
  have "keeps r (r\<lparr>r_agentVoice := av\<rparr>)" by (rule keeps_equal) simp_all
  then show ?thesis using assms(2) keeps_revocations keeps_trans by (intro keeps_result [OF _ r']) blast
qed simp

lemma keeps_notes:
  assumes "keeps stored r"
  shows "notes_start fits media now a stored r = (out, r') \<Longrightarrow> keeps stored r'"
    "notes_stop fits media stored r = (out, r') \<Longrightarrow> keeps stored r'"
proof -
  have staged: "keeps stored r'" if "commit_result fits stored ok (stageMediaGrantRevocations media vs (r\<lparr>r_meetingNotes := mn\<rparr>)) = (out, r')"
    for ok vs mn
  proof (rule keeps_result [OF _ that])
    fix r1 assume "stageMediaGrantRevocations media vs (r\<lparr>r_meetingNotes := mn\<rparr>) = Inr r1"
    then have "keeps (r\<lparr>r_meetingNotes := mn\<rparr>) r1" by (rule keeps_revocations)
    moreover have "keeps r (r\<lparr>r_meetingNotes := mn\<rparr>)" by (rule keeps_equal) simp_all
    ultimately show "keeps stored r1" using assms keeps_trans by blast
  qed
  show "notes_start fits media now a stored r = (out, r') \<Longrightarrow> keeps stored r'"
    by (auto simp: notes_start_def intro: staged split: sum.split_asm prod.split_asm if_split_asm)
  show "notes_stop fits media stored r = (out, r') \<Longrightarrow> keeps stored r'"
    by (auto simp: notes_stop_def intro: staged split: prod.split_asm)
qed

lemma keeps_transcript_change:
  assumes "keeps stored r"
  shows "transcript_start fits media now p h stored r = (out, r') \<Longrightarrow> keeps stored r'" "keeps stored (transcript_stop r)"
proof -
  have "keeps stored (r\<lparr>r_transcript := x\<rparr>)" for x
    by (rule keeps_trans [OF assms keeps_equal]) simp_all
  then show "transcript_start fits media now p h stored r = (out, r') \<Longrightarrow> keeps stored r'"
    by (auto simp: transcript_start_def intro: keeps_commit split: live_transcript.split_asm if_split_asm sum.split_asm prod.split_asm)
  have "keeps (stageLiveTranscriptMediaRevocation r) (transcript_stop r)"
    by (rule keeps_equal) (simp_all add: transcript_stop_def Let_def)
  then show "keeps stored (transcript_stop r)"
    using assms keeps_transcript keeps_trans by blast
qed

lemma keeps_append: "keeps r (fst (appendMessage fits m r))"
  by (rule keeps_equal) (simp_all add: appendMessage_def Let_def)

lemma keeps_expire: "keeps r (fst (expirePermissionRequests fits uuid now departed r))"
  by (rule keeps_equal) (simp_all, simp add: expirePermissionRequests_def expire_fold_cleanup)

lemma keeps_answer:
  assumes "keeps stored r" and a: "permission_answer fits uuid now p i o' stored r = (out, r')"
  shows "keeps stored r'"
proof -
  have "keeps r r1" if "ingestPermissionResponse fits uuid p j s now r = (x, r1)" for j s x r1
  proof -
    have "keeps r (fst (appendMessage fits m (r\<lparr>r_permissionRequests := q\<rparr>)))" for m q
      by (rule keeps_trans [OF keeps_equal keeps_append]) simp_all
    with that show ?thesis
      by (auto simp: ingestPermissionResponse_def keeps_expire split: option.split_asm if_split_asm)
  qed
  then have "keeps stored r'" if "ingestPermissionResponse fits uuid p j s now r = (x, r1)" "commit fits stored ok r1 = (out, r')"
    for j s x r1 ok
    using keeps_trans [OF assms(1)] that by (blast intro: keeps_commit)
  with a show ?thesis
    by (auto simp: permission_answer_def split: if_split_asm prod.split_asm response_outcome.split_asm)
qed

lemma keeps_text: "appendHumanText fits i now p s targets task r = (Inr m, r') \<Longrightarrow> keeps r r'"
proof -
  have "keeps r r1" if "saveRoom fits (fst (appendMessage fits m r)) = Some r1" for m r1
    using keeps_append keeps_saved [OF that] by (rule keeps_trans)
  then show "appendHumanText fits i now p s targets task r = (Inr m, r') \<Longrightarrow> keeps r r'"
    by (auto simp: appendHumanText_def Let_def case_prod_beta split: if_split_asm sum.split_asm option.split_asm)
qed

lemma keeps_message:
  assumes "own_keys r" and "handleClientMessage fits uuid media now c msg r = (out, r')"
  shows "keeps r r'"
proof (cases "\<exists>p m. findParticipant r (cn_participantId c) (cn_token c) = Some p \<and> p_media p = Some m \<and> p_kind p = Human")
  case True
  then obtain p0 m where p0: "findParticipant r (cn_participantId c) (cn_token c) = Some p0" "p_media p0 = Some m" "p_kind p0 = Human"
    by blast
  define p where "p = p0\<lparr>p_lastSeenAt := now\<rparr>"
  define r1 where "r1 = set_participant p r"
  have in_room: "dget (r_participants r) (p_id p) = Some p0" using found_in_room [OF assms(1) p0(1)] by (simp add: p_def)
  then have seen: "keeps r r1" unfolding r1_def using p0(3) by (intro keeps_human) simp_all
  then have own: "own_keys r1" using assms(1) by (simp add: keeps_def)
  have here: "dget (r_participants r1) (p_id p) = Some p" "p_kind p = Human" using p0(3) by (simp_all add: r1_def p_def)
  have own_media: "keeps r (set_media p m' r1)" for m'
    using here unfolding set_media_def by (intro keeps_trans [OF seen keeps_human]) simp_all
  note e = assms(2) [unfolded handleClientMessage_def, simplified p0 option.case Let_def, folded p_def, folded r1_def]
  show ?thesis
  proof (cases msg)
    case Leave_room
    have "keeps r r2" if "leave_socket media now p r1 = Inr r2" for r2
      using seen keeps_leave_socket [OF that here] by (rule keeps_trans)
    with e Leave_room show ?thesis by (auto intro: keeps_result)
  next
    case (Chat_text s targets task)
    with e seen show ?thesis
      by (auto simp: chat_text_def intro: keeps_trans keeps_text split: if_split_asm prod.split_asm sum.split_asm)
  next
    case (Room_action a payload)
    with e show ?thesis
      by (auto simp: room_action_def intro: keeps_commit [OF keeps_trans [OF seen keeps_append]] split: if_split_asm)
  qed (use e own own_media seen in \<open>auto intro: keeps_commit keeps_answer keeps_voice_ready keeps_voice_set keeps_notes
      keeps_transcript_change\<close>)
qed (use assms(2) in \<open>auto simp: handleClientMessage_def Let_def split: option.split_asm if_split_asm; metis participant_kind.exhaust\<close>)

subsection \<open>Departures keep\<close>

lemma departed_untracked:
  assumes c: "dget (r_participants r) (p_id p) = Some c" "c\<lparr>p_media := None\<rparr> = p\<lparr>p_media := None\<rparr>" and "p_kind p = Agent"
    and vs: "stageMediaGrantRevocations media [\<lparr>rv_participantId = p_id p, rv_direction = Both\<rparr>] r = Inr r1"
    and q: "dget (r_participants (stage_producer p r1)) (p_id p) = Some q" "p_media q = Some m"
  shows "live_in m = {} \<and> live_out m = {}"
proof (cases "p_media c")
  case None
  have "r1 = r \<or> (\<exists>d. r1 = stage_in_room (p_id p) d r)"
    using vs c(1) by (auto simp: stageMediaGrantRevocations_def stage_revocation_def and_then_Inr split: if_split_asm)
  moreover have still: "dget (r_participants (stage_in_room (p_id p) d r')) (p_id p) = Some c"
    if "dget (r_participants r') (p_id p) = Some c" for d r'
    using that None by (simp add: stage_in_room_def stageAgentMediaRevocation_def)
  ultimately have "dget (r_participants r1) (p_id p) = Some c" using c(1) by auto
  then have "dget (r_participants (stage_producer p r1)) (p_id p) = Some c"
    by (auto simp: stage_producer_def still split: live_transcript.split)
  with q None show ?thesis by simp
next
  case (Some m0)
  have kind: "p_kind c = Agent" and host: "p_runtimeHostId c = p_runtimeHostId p"
    using assms(3) media_None_fields [OF c(2)] by simp_all
  have stage: "\<exists>m2. dget (r_participants (stage_in_room (p_id p) d r')) (p_id p) = Some (c\<lparr>p_media := Some m2\<rparr>) \<and>
      live_in m2 = (if d = Published then live_in m1 else {}) \<and> live_out m2 = (if d = Subscribed then live_out m1 else {})"
    if "dget (r_participants r') (p_id p) = Some (c\<lparr>p_media := Some m1\<rparr>)" for r' d m1
  proof -
    obtain m2 where m2: "fst (stageAgentMediaRevocation (Some (c\<lparr>p_media := Some m1\<rparr>)) (r_pendingMediaCleanup r') d) = Some (c\<lparr>p_media := Some m2\<rparr>)"
      "live_in m2 = (if d = Published then live_in m1 else {})" "live_out m2 = (if d = Subscribed then live_out m1 else {})"
      using stage_media [of "c\<lparr>p_media := Some m1\<rparr>" m1 "r_pendingMediaCleanup r'" d] kind by auto
    then show ?thesis using that
      by (cases "stageAgentMediaRevocation (Some (c\<lparr>p_media := Some m1\<rparr>)) (r_pendingMediaCleanup r') d")
        (auto simp: stage_in_room_def)
  qed
  have c0: "dget (r_participants r) (p_id p) = Some (c\<lparr>p_media := Some m0\<rparr>)" using c(1) Some by (cases c) simp
  obtain live where live: "isAgentAuthorizedForLiveTranscriptMedia media r c = Inr live"
    and r1: "r1 = stage_in_room (p_id p) (if live then Published else Both) r"
    using vs c(1) by (auto simp: stageMediaGrantRevocations_def stage_revocation_def and_then_Inr)
  obtain m1 where m1: "dget (r_participants r1) (p_id p) = Some (c\<lparr>p_media := Some m1\<rparr>)" "live \<or> live_in m1 = {}" "live_out m1 = {}"
    using stage [OF c0, of "if live then Published else Both"] unfolding r1 by (cases live) auto
  show ?thesis
  proof (cases live)
    case True
    then obtain producer e t where "lv_state (r_transcript r) = LT_active producer e t" "p_runtimeHostId c = Some producer"
      using live by (auto simp: isAgentAuthorizedForLiveTranscriptMedia_def canAgentAppendLiveTranscript_def
          split: live_transcript.splits if_splits)
    moreover have "r_transcript r1 = r_transcript r"
      using staged_in_room rest_fields unfolding r1 staged_def by blast
    ultimately have "stage_producer p r1 = stage_in_room (p_id p) Subscribed r1"
      using host by (simp add: stage_producer_def)
    with stage [OF m1(1), of Subscribed] m1(3) q show ?thesis by auto
  next
    case False
    then have "live_in m1 = {}" using m1(2) by simp
    with stage [OF m1(1), of Subscribed] m1 q show ?thesis
      by (auto simp: stage_producer_def split: live_transcript.split_asm if_split_asm)
  qed
qed

lemma keeps_departure:
  assumes "own_keys r" and "dget (r_participants r) (p_id p) = Some c" "c\<lparr>p_media := None\<rparr> = p\<lparr>p_media := None\<rparr>" "p_kind p = Agent"
    and "stageMediaGrantRevocations media [\<lparr>rv_participantId = p_id p, rv_direction = Both\<rparr>] r = Inr r1"
    and "r_participants r2 = r_participants (stage_producer p r1)" "r_pendingMediaCleanup r2 = r_pendingMediaCleanup (stage_producer p r1)"
  shows "keeps r (remove_participant (p_id p) r2)"
proof -
  have "keeps r r1" by (rule keeps_revocations [OF assms(5)])
  also have "keeps r1 (stage_producer p r1)" by (rule keeps_producer)
  also have "keeps (stage_producer p r1) r2" by (rule keeps_equal) (simp_all add: assms(6,7))
  also have "keeps r2 (remove_participant (p_id p) r2)"
    using departed_untracked [OF assms(2-5)] by (intro keeps_remove) (auto simp: assms(6))
  finally show ?thesis .
qed

lemma departure_revocations: "transitionMediaGrantsForParticipantDeparture mn av p = (mn', av', vs) \<Longrightarrow>
    vs = (if p_kind p = Agent then [\<lparr>rv_participantId = p_id p, rv_direction = Both\<rparr>] else [])"
  by (auto simp: transitionMediaGrantsForParticipantDeparture_def)

lemma keeps_expiry: "keeps r (applyEmptyRoomExpiry now r)"
  by (rule keeps_equal) simp_all

lemma keeps_agent_leave:
  assumes "own_keys r" and "agent_leave fits uuid media now p r = Inr r'" and "dget (r_participants r) (p_id p) = Some p" "p_kind p = Agent"
  shows "keeps r r'"
proof -
  obtain mn av vs where t: "transitionMediaGrantsForParticipantDeparture (r_meetingNotes r) (r_agentVoice r) p = (mn, av, vs)"
    by (metis prod_cases3)
  obtain r1 r3 where r1: "stageMediaGrantRevocations media [\<lparr>rv_participantId = p_id p, rv_direction = Both\<rparr>] r = Inr r1"
    and r3: "settle_departure media now mn av (remove_participant (p_id p)
      (fst (expirePermissionRequests fits uuid now (Some (p_id p)) (stage_producer p r1)))) = Inr r3" and r': "r' = applyEmptyRoomExpiry now r3"
    using assms(2) departure_revocations [OF t] assms(4) by (auto simp: agent_leave_def t and_then_Inr)
  have "keeps r (remove_participant (p_id p) (fst (expirePermissionRequests fits uuid now (Some (p_id p)) (stage_producer p r1))))"
    by (rule keeps_departure [OF assms(1,3) _ assms(4) r1])
      (simp_all, simp add: expirePermissionRequests_def expire_fold_cleanup)
  also note keeps_settled [OF r3]
  also have "keeps r3 r'" unfolding r' by (rule keeps_expiry)
  finally show ?thesis .
qed

text \<open>On the shared path an Agent keeps its seat, a Human goes.\<close>

lemma keeps_leave:
  assumes "leave fits uuid media now p r = Inr r'" and "dget (r_participants r) (p_id p) = Some p"
  shows "keeps r r'"
proof -
  obtain mn av vs where t: "transitionMediaGrantsForParticipantDeparture (r_meetingNotes r) (r_agentVoice r) p = (mn, av, vs)"
    by (metis prod_cases3)
  define gone where "gone = (\<lambda>r. if p_kind p = Agent then fst (expirePermissionRequests fits uuid now (Some (p_id p)) r)
    else remove_participant (p_id p) r)"
  obtain r1 r3 where r1: "stageMediaGrantRevocations media vs r = Inr r1"
    and r3: "settle_departure media now mn av (gone r1) = Inr r3" and r': "r' = applyEmptyRoomExpiry now r3"
    using assms(1) by (auto simp: leave_def t and_then_Inr gone_def)
  have "keeps r r1" by (rule keeps_revocations [OF r1])
  also have "keeps r1 (gone r1)"
  proof (cases "p_kind p = Agent")
    case False
    then have "r1 = r" using r1 departure_revocations [OF t] by (simp add: stageMediaGrantRevocations_def)
    with False assms(2) show ?thesis by (auto simp: gone_def intro!: keeps_remove)
  qed (simp add: gone_def keeps_expire)
  also note keeps_settled [OF r3]
  also have "keeps r3 r'" unfolding r' by (rule keeps_expiry)
  finally show ?thesis .
qed

lemma keeps_sweep_one:
  assumes "own_keys r" and "sweep_one fits uuid media now (p_id p, p) (r, changed) = Inr (r', changed')"
    and c: "dget (r_participants r) (p_id p) = Some c" "c\<lparr>p_media := None\<rparr> = p\<lparr>p_media := None\<rparr>"
  shows "keeps r r'"
proof (cases "expired_human now p \<or> expired_agent now p")
  case True
  obtain mn av vs where t: "transitionMediaGrantsForParticipantDeparture (r_meetingNotes r) (r_agentVoice r) p = (mn, av, vs)"
    by (metis prod_cases3)
  have not_both: "\<not> (expired_human now p \<and> expired_agent now p)"
    by (simp add: expired_human_def expired_agent_def)
  then obtain r1 where r1: "stageMediaGrantRevocations media vs r = Inr r1"
    and r': "settle_departure media now mn av (remove_participant (p_id p)
      (if expired_agent now p then stage_producer p r1 else r1)) = Inr r'"
    using assms(2) True t by (auto simp: sweep_one_def and_then_Inr Let_def split: if_splits)
  have "keeps r (remove_participant (p_id p) (if expired_agent now p then stage_producer p r1 else r1))"
  proof (cases "expired_agent now p")
    case True
    then have "p_kind p = Agent" by (simp add: expired_agent_def)
    with True r1 departure_revocations [OF t] show ?thesis
      by (simp add: keeps_departure [OF assms(1) c])
  next
    case False
    with True have "p_kind p = Human" by (simp add: expired_human_def)
    then have "r1 = r" "p_kind c = Human"
      using r1 departure_revocations [OF t] media_None_fields [OF c(2)] by (simp_all add: stageMediaGrantRevocations_def)
    with False c(1) show ?thesis by (auto intro!: keeps_remove)
  qed
  also note keeps_settled [OF r']
  finally show ?thesis .
qed (use assms(2) in \<open>simp add: sweep_one_def\<close>)

lemma keeps_sweep: "fold_result (sweep_one fits uuid media now) es (r, changed) = Inr (r', changed') \<Longrightarrow> own_keys r \<Longrightarrow>
    distinct (map fst es) \<Longrightarrow> (\<And>i p. (i, p) \<in> set es \<Longrightarrow> p_id p = i \<and> seat r i = Some (p\<lparr>p_media := None\<rparr>)) \<Longrightarrow> keeps r r'"
proof (induction es arbitrary: r changed)
  case (Cons e es)
  obtain p where e: "e = (p_id p, p)" using Cons.prems(4) [of "fst e" "snd e"] by (cases e) auto
  obtain r1 b where one: "sweep_one fits uuid media now (p_id p, p) (r, changed) = Inr (r1, b)"
    and others: "fold_result (sweep_one fits uuid media now) es (r1, b) = Inr (r', changed')"
    using Cons.prems(1) by (auto simp: e and_then_Inr)
  obtain c where "dget (r_participants r) (p_id p) = Some c" "c\<lparr>p_media := None\<rparr> = p\<lparr>p_media := None\<rparr>"
    using Cons.prems(4) [of "p_id p" p] by (auto simp: e seat_def)
  then have keeps1: "keeps r r1" by (rule keeps_sweep_one [OF Cons.prems(2) one])
  moreover have "keeps r1 r'"
  proof (rule Cons.IH [OF others])
    show "own_keys r1" using keeps1 Cons.prems(2) by (simp add: keeps_def)
    show "distinct (map fst es)" using Cons.prems(3) by simp
    fix i q assume q: "(i, q) \<in> set es"
    then have "i \<noteq> p_id p" using Cons.prems(3) by (force simp: e)
    then have "seat r1 i = seat r i" using sweep_one_seat [OF one, of i] by simp
    then show "p_id q = i \<and> seat r1 i = Some (q\<lparr>p_media := None\<rparr>)" using Cons.prems(4) [of i q] q by simp
  qed
  ultimately show ?case by (rule keeps_trans)
qed simp

lemma keeps_alarm:
  assumes "own_keys r" and "alarm_sweep fits uuid media now r = Inr (AL_swept r' changed)"
  shows "keeps r r'"
proof -
  let ?r = "fst (expirePermissionRequests fits uuid now None r)"
  obtain r1 where s: "fold_result (sweep_one fits uuid media now) (r_participants r) (expirePermissionRequests fits uuid now None r) = Inr (r1, changed)"
    and r': "r' = (if changed then applyEmptyRoomExpiry now r1 else r1)"
    using assms(2) by (auto simp: alarm_sweep_def and_then_Inr split: if_split_asm)
  have "keeps r ?r" by (rule keeps_expire)
  moreover have "own_keys ?r" using keeps_expire assms(1) by (simp add: keeps_def)
  moreover have "p_id p = i \<and> seat ?r i = Some (p\<lparr>p_media := None\<rparr>)" if "(i, p) \<in> set (r_participants r)" for i p
  proof -
    have d: "dget (r_participants r) i = Some p" using that assms(1) by (auto simp: own_keys_def wf_dget)
    then show ?thesis using own_key [OF assms(1) d] by (simp add: seat_def)
  qed
  moreover have "distinct (map fst (r_participants r))" using assms(1) by (simp add: own_keys_def wf_dict_def)
  moreover have "fold_result (sweep_one fits uuid media now) (r_participants r) (?r, snd (expirePermissionRequests fits uuid now None r)) = Inr (r1, changed)"
    using s by simp
  ultimately have "keeps r r1" using keeps_sweep keeps_trans by blast
  then show ?thesis using keeps_expiry keeps_trans unfolding r' by auto
qed

subsection \<open>Arrivals and announcements keep\<close>

lemma keeps_enter:
  assumes "dget (r_participants r) (p_id p) = None"
  shows "keeps r (applyEmptyRoomExpiry now (add_host h (enter now p r)))"
proof (rule keepsI)
  fix i q m x
  assume q: "dget (r_participants r) i = Some q" "p_kind q = Agent" "p_media q = Some m" "x \<in> live_in m \<union> live_out m"
  with assms have "i \<noteq> p_id p" by auto
  with q show "handle (applyEmptyRoomExpiry now (add_host h (enter now p r))) (m_sessionId m) x"
    by (intro handle_tracked [of _ i q m]) simp_all
next
  show "own_keys r \<Longrightarrow> own_keys (applyEmptyRoomExpiry now (add_host h (enter now p r)))"
    unfolding own_keys_def by (simp add: wf_dput)
qed (simp add: pending_def)

lemma keeps_register:
  assumes "register_participant fits ntext isAgent now q (Some r) = (answer, Some r')"
  shows "keeps r r'"
proof (cases "\<exists>p. answer = Joined p")
  case True
  then obtain p where "answer = Joined p" ..
  with assms obtain r1 where a: "admit ntext isAgent now q r = Inr (p, r1)" and r': "r' = trimRoomMessagesToBudget fits r1"
    by (auto simp: found_def elim: register_joined)
  from a have "keeps r r1" by (rule admit_joined) (simp add: keeps_enter)
  also have "keeps r1 r'" unfolding r' by (rule keeps_equal) simp_all
  finally show ?thesis .
next
  case False
  with assms show ?thesis
    by (auto simp: register_participant_def commit_join_def split: if_split_asm sum.split_asm option.split_asm)
qed

lemma keeps_capabilities:
  assumes "agent_update_capabilities fits now p raw r = (answer, r')" and "dget (r_participants r) (p_id p) = Some p"
  shows "keeps r r'"
proof (cases "r' = r")
  case False
  with assms(1) obtain caps where "saveRoom fits (set_participant (p\<lparr>p_capabilities := Some caps, p_lastSeenAt := now\<rparr>) r) = Some r'"
    by (auto simp: agent_update_capabilities_def Let_def split: if_split_asm sum.split_asm option.split_asm)
  then have "keeps (set_participant (p\<lparr>p_capabilities := Some caps, p_lastSeenAt := now\<rparr>) r) r'" by (rule keeps_saved)
  moreover have "keeps r (set_participant (p\<lparr>p_capabilities := Some caps, p_lastSeenAt := now\<rparr>) r)"
    using assms(2) by (intro keeps_set [where p = p]) (auto simp: tracks_on_def split: option.split)
  ultimately show ?thesis by (rule keeps_trans [rotated])
qed simp

lemma keeps_moved:
  assumes "change_host media now p h r = Inr r'" and "own_keys r" and "dget (r_participants r) (p_id p) = Some p"
  shows "keeps r r'"
proof -
  define u where "u = updateRuntimeHost (r_runtimeHosts r) (room_people r) (p_id p) h"
  define r1 where "r1 = set_participant (p\<lparr>p_runtimeHostId := Some (rh_runtimeHostId h)\<rparr>) (r\<lparr>r_runtimeHosts := Some (hu_runtimeHosts u)\<rparr>)"
  from assms(1) obtain av rs r2 r3 where r2: "stageMediaGrantRevocations media rs (r1\<lparr>r_agentVoice := av\<rparr>) = Inr r2"
    and r3: "garbageCollectRuntimeHostAuthorization media r2 = Inr r3" and r': "r' = seen now (p_id p) r3"
    by (auto simp: change_host_def and_then_Inr Let_def simp flip: u_def r1_def)
  have "keeps r (r\<lparr>r_runtimeHosts := Some (hu_runtimeHosts u)\<rparr>)" by (rule keeps_equal) simp_all
  also have "keeps (r\<lparr>r_runtimeHosts := Some (hu_runtimeHosts u)\<rparr>) r1"
    using assms(3) unfolding r1_def by (intro keeps_set [where p = p]) (auto simp: tracks_on_def split: option.split)
  also have "keeps r1 (r1\<lparr>r_agentVoice := av\<rparr>)" by (rule keeps_equal) simp_all
  also note keeps_revocations [OF r2]
  also note keeps_collected [OF r3]
  finally have k: "keeps r r3" .
  then have own: "own_keys r3" using assms(2) by (simp add: keeps_def)
  have "keeps r3 r'"
  proof (cases "dget (r_participants r3) (p_id p)")
    case (Some q)
    then show ?thesis using own_key [OF own Some] unfolding r' seen_def
      by (auto intro!: keeps_set [where p = q] simp: tracks_on_def split: option.split)
  qed (simp add: r' seen_def)
  with k show ?thesis by (rule keeps_trans)
qed

lemma keeps_transport:
  assumes "own_keys r"
  shows "participant_data_transport_attach fits on now r apps i token s = (out, r') \<Longrightarrow> keeps r r'"
    "participant_data_transport_ready fits on now r apps i token s' b = (out, r') \<Longrightarrow> keeps r r'"
proof -
  have set: "keeps r r'" if "findParticipant r i token = Some p"
    "save_reply fits r (set_participant (p\<lparr>p_dataTransport := d, p_lastSeenAt := now\<rparr>) r) x = (out, r')" for p d x
    using found_in_room [OF assms that(1)]
    by (intro keeps_reply [OF keeps_set that(2)]) (auto simp: tracks_on_def split: option.split)
  show "participant_data_transport_attach fits on now r apps i token s = (out, r') \<Longrightarrow> keeps r r'"
    by (auto simp: participant_data_transport_attach_def intro: set split: option.split_asm if_split_asm prod.split_asm)
  show "participant_data_transport_ready fits on now r apps i token s' b = (out, r') \<Longrightarrow> keeps r r'"
    by (auto simp: participant_data_transport_ready_def intro: set split: option.split_asm if_split_asm prod.split_asm js.split_asm)
qed

subsection \<open>What the Room gives up\<close>

text \<open>
  Two places let an Agent's published id go without closing it. A load drops the voice of an Agent that
  holds no voice grant, or whose record of its track is neither announced nor pending; an unpublication of
  the track an Agent has pending drops its id too (the Worker has closed the track then, if it asked).
  These are the ids given up, whichever participant and whatever the rest of the Room.
\<close>

definition voice_kept :: "room \<Rightarrow> jstr \<Rightarrow> media_state \<Rightarrow> bool" where
  "voice_kept r i m \<longleftrightarrow> isAgentAuthorizedForVoice (r_agentVoice r) i \<and>
     (case m_tracks m of [t] \<Rightarrow> mt_kind t = Audio | [] \<Rightarrow> truthy_str (m_agentPublishedTrackName m) \<noteq> None | _ \<Rightarrow> False)"

definition unbacked_voice :: "room \<Rightarrow> room \<Rightarrow> (jstr \<times> jstr) set" where
  "unbacked_voice r r' = {(m_sessionId m, x) | i p m x. dget (r_participants r) i = Some p \<and> p_kind p = Agent \<and>
     p_media p = Some m \<and> x \<in> live_out m \<and> \<not> voice_kept r' i m}"

definition unpublished_voice :: "room \<Rightarrow> jstr \<Rightarrow> jstr \<Rightarrow> jstr \<Rightarrow> (jstr \<times> jstr) set" where
  "unpublished_voice r i token name = {(m_sessionId m, x) | p m x. findParticipant r i token = Some p \<and> p_kind p = Agent \<and>
     p_media p = Some m \<and> m_agentPublishedTrackName m = Some name \<and> x \<in> live_out m}"

text \<open>\<open>keeps\<close>, up to a set of ids.\<close>

definition keeps_but :: "(jstr \<times> jstr) set \<Rightarrow> room \<Rightarrow> room \<Rightarrow> bool" where
  "keeps_but L r r' \<longleftrightarrow> (\<forall>s x. handle r s x \<longrightarrow> handle r' s x \<or> (s, x) \<in> L) \<and> (own_keys r \<longrightarrow> own_keys r')"

lemma keeps_but_saved: "keeps_but L r r1 \<Longrightarrow> saveRoom fits r1 = Some r' \<Longrightarrow> keeps_but L r r'"
  using keeps_saved [of fits r1 r'] unfolding keeps_but_def keeps_def by blast

lemma keeps_but_reply: "keeps_but L r r1 \<Longrightarrow> save_reply fits r r1 x = (out, r') \<Longrightarrow> keeps_but L r r'"
  by (auto simp: save_reply_def intro: keeps_but_saved split: option.split_asm) (simp add: keeps_but_def)

lemma keeps_but_refl: "keeps_but L r r"
  by (simp add: keeps_but_def)

text \<open>What the hygiene of an Agent's voice leaves.\<close>

lemma hygienic_media:
  assumes "p_kind p = Agent" and "p_media p = Some m" and "x \<in> live_in m \<union> live_out m"
  obtains m' where "p_media (hygienic_voice av p) = Some m'" "m_sessionId m' = m_sessionId m" "x \<in> live_in m' \<union> live_out m'"
  | "x \<in> live_out m" "\<not> (isAgentAuthorizedForVoice av (p_id p) \<and>
      (case m_tracks m of [t] \<Rightarrow> mt_kind t = Audio | [] \<Rightarrow> truthy_str (m_agentPublishedTrackName m) \<noteq> None | _ \<Rightarrow> False))"
proof (cases "x \<in> live_in m")
  case True
  have "\<exists>m'. p_media (hygienic_voice av p) = Some m' \<and> m_sessionId m' = m_sessionId m \<and>
      m_agentSubscribedMids m' = m_agentSubscribedMids m"
    using assms(1,2) by (simp add: hygienic_voice_def normalizeAgentVoiceParticipantMedia_def Let_def)
  then obtain m' where m': "p_media (hygienic_voice av p) = Some m'" "m_sessionId m' = m_sessionId m"
    "m_agentSubscribedMids m' = m_agentSubscribedMids m" by blast
  show thesis by (rule that(1) [OF m'(1,2)]) (use True m'(3) in \<open>simp add: live_in_def\<close>)
next
  case False
  with assms(3) have out: "x \<in> live_out m" by simp
  then have "truthy_str (m_agentPublishedMid m) \<noteq> None" by (auto simp: live_out_def truthy_str_def split: option.split_asm if_split_asm)
  note voice = this
  show thesis
  proof (cases "isAgentAuthorizedForVoice av (p_id p) \<and>
      (case m_tracks m of [t] \<Rightarrow> mt_kind t = Audio | [] \<Rightarrow> truthy_str (m_agentPublishedTrackName m) \<noteq> None | _ \<Rightarrow> False)")
    case True
    then have "p_media (hygienic_voice av p) = Some m"
      using assms(1,2) voice by (simp add: hygienic_voice_def normalizeAgentVoiceParticipantMedia_def Let_def)
    then show thesis by (rule that(1)) (use out in blast)+
  qed (rule that(2) [OF out])
qed

lemma hygienic_fields [simp]: "p_kind (hygienic_voice av p) = p_kind p" "p_id (hygienic_voice av p) = p_id p"
  by (simp_all add: hygienic_voice_def)

text \<open>An Agent's media without the subscriptions, which a load may stage first.\<close>

definition voice_view :: "room \<Rightarrow> jstr \<Rightarrow> participant option" where
  "voice_view r i = map_option (\<lambda>p. p\<lparr>p_media := map_option (\<lambda>m. m\<lparr>m_agentSubscribedMids := None\<rparr>) (p_media p)\<rparr>)
     (dget (r_participants r) i)"

lemma view_stage: "voice_view (stage_in_room i Subscribed r) = voice_view r"
proof
  fix j
  show "voice_view (stage_in_room i Subscribed r) j = voice_view r j"
    by (auto simp: voice_view_def stage_in_room_def stageAgentMediaRevocation_def drop_published_def drop_subscribed_def
        split: option.split)
qed

lemma view_lost: "voice_view (stage_lost_producer mn producer r) = voice_view r"
  unfolding stage_lost_producer_def
  by (rule fold_rel [of "\<lambda>a b. voice_view b = voice_view a"]) (auto simp: view_stage)

lemma view_fields:
  assumes "voice_view r1 = voice_view r" and "dget (r_participants r1) i = Some p1" and "p_media p1 = Some m1"
  obtains p m where "dget (r_participants r) i = Some p" "p_media p = Some m" "p_kind p = p_kind p1"
    "m_sessionId m = m_sessionId m1" "live_out m = live_out m1" "m_tracks m = m_tracks m1"
    "m_agentPublishedTrackName m = m_agentPublishedTrackName m1"
proof -
  have v: "voice_view r i = Some (p1\<lparr>p_media := Some (m1\<lparr>m_agentSubscribedMids := None\<rparr>)\<rparr>)"
    unfolding assms(1) [symmetric] using assms(2,3) by (simp add: voice_view_def)
  then obtain p where p: "dget (r_participants r) i = Some p"
    by (cases "dget (r_participants r) i") (simp_all add: voice_view_def)
  from v have e: "p\<lparr>p_media := map_option (\<lambda>m. m\<lparr>m_agentSubscribedMids := None\<rparr>) (p_media p)\<rparr> =
      p1\<lparr>p_media := Some (m1\<lparr>m_agentSubscribedMids := None\<rparr>)\<rparr>"
    by (simp add: voice_view_def p)
  from arg_cong [OF e, of p_media] obtain m where m: "p_media p = Some m"
    and e2: "m\<lparr>m_agentSubscribedMids := None\<rparr> = m1\<lparr>m_agentSubscribedMids := None\<rparr>" by auto
  show thesis
    by (rule that [OF p m]) (use arg_cong [OF e, of p_kind] arg_cong [OF e2, of m_sessionId] arg_cong [OF e2, of m_tracks]
        arg_cong [OF e2, of m_agentPublishedTrackName] arg_cong [OF e2, of m_agentPublishedMid] in \<open>simp_all add: live_out_def\<close>)
qed

lemma load_parts:
  assumes "load_media media r = Inr r'"
  obtains r1 where "keeps r r1" "voice_view r1 = voice_view r" "r_pendingMediaCleanup r' = r_pendingMediaCleanup r1"
    "r_participants r' = map (\<lambda>(i, p). (i, hygienic_voice (r_agentVoice r') p)) (r_participants r1)"
proof -
  obtain lt lost mn av b where parts: "normalizeLiveTranscriptProducer (lv_state (r_transcript r)) (room_people r) (r_runtimeHosts r) media = Inr (lt, lost)"
    "normalizeMediaGrants (notes_js (r_meetingNotes r)) (voice_js (r_agentVoice r)) (r_participants r) (projectRuntimeHosts (r_runtimeHosts r)) =
      Inr (mn, av, b)"
    using assms by (auto simp: load_media_def and_then_Inr)
  define r1 where "r1 = (case (lost, lv_state (r_transcript r)) of
    (True, LT_active producer _ _) \<Rightarrow> stage_lost_producer mn producer r | _ \<Rightarrow> r)"
  have r': "r' = r1\<lparr>r_transcript := (r_transcript r1)\<lparr>lv_state := lt\<rparr>, r_meetingNotes := mn, r_agentVoice := av,
      r_participants := map (\<lambda>(i, p). (i, hygienic_voice av p)) (r_participants r1)\<rparr>"
    using assms unfolding load_media_def parts r1_def by (simp add: and_then_Inr Let_def)
  have lost: "r1 = r \<or> (\<exists>producer. r1 = stage_lost_producer mn producer r)"
    unfolding r1_def by (cases lost; cases "lv_state (r_transcript r)") auto
  have "keeps r (stage_lost_producer mn producer r)" for producer
    unfolding stage_lost_producer_def by (rule keeps_fold_stage)
  then have "keeps r r1" using lost by auto
  moreover have "voice_view r1 = voice_view r" using lost view_lost by auto
  ultimately show thesis by (rule that) (simp_all add: r')
qed

lemma keeps_load:
  assumes "load_media media r = Inr r'" and "own_keys r"
  shows "keeps_but (unbacked_voice r r') r r'"
proof -
  obtain r1 where r1: "keeps r r1" "voice_view r1 = voice_view r" "r_pendingMediaCleanup r' = r_pendingMediaCleanup r1"
    and r': "r_participants r' = map (\<lambda>(i, p). (i, hygienic_voice (r_agentVoice r') p)) (r_participants r1)"
    using assms(1) by (rule load_parts)
  have own: "own_keys r1" using r1(1) assms(2) by (simp add: keeps_def)
  then have "own_keys r'" by (auto simp: own_keys_def r' dget_map_pair wf_dict_def comp_def case_prod_beta)
  moreover have "handle r' s x \<or> (s, x) \<in> unbacked_voice r r'" if "handle r1 s x" for s x
    using that
  proof (rule handle_cases)
    assume "pending r1 s x"
    then show ?thesis using r1(3) by (auto simp: pending_def intro: handle_pending)
  next
    fix i p m
    assume p: "dget (r_participants r1) i = Some p" "p_kind p = Agent" "p_media p = Some m" "m_sessionId m = s" "x \<in> live_in m \<union> live_out m"
    from p(2,3,5) show ?thesis
    proof (rule hygienic_media [where av = "r_agentVoice r'"])
      fix m' assume "p_media (hygienic_voice (r_agentVoice r') p) = Some m'" "m_sessionId m' = m_sessionId m" "x \<in> live_in m' \<union> live_out m'"
      then have "handle r' s x" using p by (intro handle_tracked [of _ i "hygienic_voice (r_agentVoice r') p" m']) (simp_all add: r' dget_map_pair)
      then show ?thesis ..
    next
      assume lost: "x \<in> live_out m" "\<not> (isAgentAuthorizedForVoice (r_agentVoice r') (p_id p) \<and>
        (case m_tracks m of [t] \<Rightarrow> mt_kind t = Audio | [] \<Rightarrow> truthy_str (m_agentPublishedTrackName m) \<noteq> None | _ \<Rightarrow> False))"
      obtain q k where q: "dget (r_participants r) i = Some q" "p_media q = Some k" "p_kind q = p_kind p"
        "m_sessionId k = m_sessionId m" "live_out k = live_out m" "m_tracks k = m_tracks m"
        "m_agentPublishedTrackName k = m_agentPublishedTrackName m"
        using r1(2) p(1,3) by (rule view_fields)
      have "\<not> voice_kept r' i k" using lost(2) own_key [OF own p(1)] unfolding voice_kept_def q(6,7) by simp
      then have "(s, x) \<in> unbacked_voice r r'" using q(1-5) p(2,4) lost(1) unfolding unbacked_voice_def by auto
      then show ?thesis ..
    qed
  qed
  ultimately show ?thesis using r1(1) by (auto simp: keeps_but_def keeps_def)
qed

lemma keeps_unpublish:
  assumes "own_keys r" and "unpublish_track fits i token name r = (out, r')"
  shows "keeps_but (unpublished_voice r i token name) r r'"
proof (cases "r' = r")
  case False
  with assms(2) obtain p m where p: "findParticipant r i token = Some p" "p_media p = Some m"
    by (auto simp: unpublish_track_def split: option.split_asm)
  define m' where "m' = m\<lparr>m_tracks := filter (\<lambda>u. mt_trackName u \<noteq> name) (m_tracks m)\<rparr>"
  define m2 where "m2 = (if p_kind p = Agent \<and> m_agentPublishedTrackName m = Some name
    then m'\<lparr>m_agentPublishedTrackName := None, m_agentPublishedMid := None\<rparr> else m')"
  have r': "save_reply fits r (set_participant (p\<lparr>p_media := Some m2\<rparr>) r) () = (out, r')"
    using assms(2) unfolding unpublish_track_def m'_def m2_def Let_def p option.case .
  note here = found_in_room [OF assms(1) p(1)]
  have m2: "m_sessionId m2 = m_sessionId m" "live_in m2 = live_in m"
    "x \<in> live_out m \<Longrightarrow> x \<in> live_out m2 \<or> p_kind p = Agent \<and> m_agentPublishedTrackName m = Some name" for x
    by (auto simp: m2_def m'_def live_in_def live_out_def)
  have "handle (set_participant (p\<lparr>p_media := Some m2\<rparr>) r) s x \<or> (s, x) \<in> unpublished_voice r i token name" if "handle r s x" for s x
    using that
  proof (rule handle_cases)
    fix j q k
    assume q: "dget (r_participants r) j = Some q" "p_kind q = Agent" "p_media q = Some k" "m_sessionId k = s" "x \<in> live_in k \<union> live_out k"
    show ?thesis
    proof (cases "j = p_id p")
      case True
      with here q(1) have "q = p" by simp
      with p(2) q(3) have k: "k = m" by simp
      show ?thesis
      proof (cases "x \<in> live_in m2 \<union> live_out m2")
        case True
        with q k m2(1) \<open>q = p\<close> show ?thesis
          by (intro disjI1 handle_tracked [of _ "p_id p" "p\<lparr>p_media := Some m2\<rparr>" m2]) simp_all
      next
        case False
        with q(5) k m2(2,3) have "x \<in> live_out m" "p_kind p = Agent" "m_agentPublishedTrackName m = Some name" by auto
        with p q(4) k show ?thesis unfolding unpublished_voice_def by blast
      qed
    next
      case False
      with q show ?thesis by (intro disjI1 handle_tracked [of _ j q k]) simp_all
    qed
  qed (simp add: pending_def handle_pending)
  then have "keeps_but (unpublished_voice r i token name) r (set_participant (p\<lparr>p_media := Some m2\<rparr>) r)"
    using assms(1) by (simp add: keeps_but_def own_set)
  then show ?thesis using r' by (rule keeps_but_reply)
qed (simp add: keeps_but_refl)

subsection \<open>Any sequence of handlers\<close>

text \<open>What a handler that is not about media leaves alone: every participant's media and the queue.\<close>

definition same_media :: "room \<Rightarrow> room \<Rightarrow> bool" where
  "same_media r r' \<longleftrightarrow> r_pendingMediaCleanup r' = r_pendingMediaCleanup r \<and> wf_dict (r_participants r') \<and>
     (\<forall>i. map_option (\<lambda>p. (p_id p, p_kind p, p_media p)) (dget (r_participants r') i) =
       map_option (\<lambda>p. (p_id p, p_kind p, p_media p)) (dget (r_participants r) i))"

lemma same_media_entry:
  assumes "same_media r r'" and "dget (r_participants r) i = Some p"
  obtains p' where "dget (r_participants r') i = Some p'" "p_id p' = p_id p" "p_kind p' = p_kind p" "p_media p' = p_media p"
proof -
  have "map_option (\<lambda>p. (p_id p, p_kind p, p_media p)) (dget (r_participants r') i) = Some (p_id p, p_kind p, p_media p)"
    using assms by (simp add: same_media_def)
  then show thesis using that by auto
qed

lemma same_media_sym: "same_media r r' \<Longrightarrow> wf_dict (r_participants r) \<Longrightarrow> same_media r' r"
  by (simp add: same_media_def)

lemma keeps_same: "same_media r r' \<Longrightarrow> keeps r r'"
proof (rule keepsI)
  assume s: "same_media r r'"
  show "pending r t x \<Longrightarrow> pending r' t x" for t x using s by (simp add: pending_def same_media_def)
  show "handle r' (m_sessionId m) x"
    if e: "dget (r_participants r) i = Some p" and a: "p_kind p = Agent" "p_media p = Some m" "x \<in> live_in m \<union> live_out m" for i p m x
  proof -
    obtain p' where "dget (r_participants r') i = Some p'" "p_kind p' = p_kind p" "p_media p' = p_media p"
      using same_media_entry [OF s e] .
    with a show ?thesis by (intro handle_tracked [of _ i p' m]) simp_all
  qed
  show "own_keys r'" if o: "own_keys r"
  proof -
    have "p_id p = i" if "dget (r_participants r') i = Some p" for i p
      using same_media_entry [OF same_media_sym [OF s] that] o own_key [OF o] by (auto simp: own_keys_def)
    then show ?thesis using s by (simp add: own_keys_def same_media_def)
  qed
qed

text \<open>
  One operation on the stored Room, together with the set \<open>C\<close> of ids the provider has confirmed closed and
  the set \<open>D\<close> of those the Room gave up. A load, which every handler begins with, is a step of its own; the
  handlers that are not about media (texts, Apps, the sockets of Agents, and the uploads into whose wait for
  a body no change of the media falls) leave all media and the queue alone, whatever they do
  (\<open>same_media\<close>). A cleanup round closes a snapshot of some earlier queue and reconciles the queue it finds afterwards. The
  Worker reconnects Humans only (\<open>agent_authorization_sound\<close>: an Agent's request needs a purpose, a
  reconnection carries none).
\<close>

inductive media_step :: "(room \<Rightarrow> bool) \<Rightarrow> (int \<Rightarrow> jstr) \<Rightarrow> (rat \<Rightarrow> jstr) \<Rightarrow> bool \<Rightarrow>
    room \<times> (jstr \<times> jstr) set \<times> (jstr \<times> jstr) set \<Rightarrow> room \<times> (jstr \<times> jstr) set \<times> (jstr \<times> jstr) set \<Rightarrow> bool"
  for fits uuid ntext media where
  ms_register: "register_participant fits ntext isAgent now q (Some r) = (answer, Some r') \<Longrightarrow> media_step fits uuid ntext media (r, C, D) (r', C, D)"
| ms_capabilities: "agent_update_capabilities fits now p raw r = (caps, r') \<Longrightarrow> dget (r_participants r) (p_id p) = Some p \<Longrightarrow>
    media_step fits uuid ntext media (r, C, D) (r', C, D)"
| ms_host: "change_host media now p h r = Inr r1 \<Longrightarrow> dget (r_participants r) (p_id p) = Some p \<Longrightarrow> saveRoom fits r1 = Some r' \<Longrightarrow>
    media_step fits uuid ntext media (r, C, D) (r', C, D)"
| ms_admit: "agent_media_admit fits media now i token r = (out, r') \<Longrightarrow> media_step fits uuid ntext media (r, C, D) (r', C, D)"
| ms_attach: "agent_media_attach fits media now i token s r = (out, r') \<Longrightarrow> media_step fits uuid ntext media (r, C, D) (r', C, D)"
| ms_discover: "agent_room_media fits media now i token r = (shown, r') \<Longrightarrow> media_step fits uuid ntext media (r, C, D) (r', C, D)"
| ms_subscribed: "agent_track_subscribed fits media i token s' purpose mids r = (out, r') \<Longrightarrow> media_step fits uuid ntext media (r, C, D) (r', C, D)"
| ms_handed_off: "agent_media_cleanup_pending fits s mids r = (out, r') \<Longrightarrow> media_step fits uuid ntext media (r, C, D) (r', C, D)"
| ms_published: "agent_track_published fits now i token s' mid name announce r = (shown', r') \<Longrightarrow> media_step fits uuid ntext media (r, C, D) (r', C, D)"
| ms_active: "agent_track_active fits now i token s' name r = (shown', r') \<Longrightarrow> media_step fits uuid ntext media (r, C, D) (r', C, D)"
| ms_data_attach: "participant_data_transport_attach fits on now r apps i token v = (out, r') \<Longrightarrow> media_step fits uuid ntext media (r, C, D) (r', C, D)"
| ms_data_ready: "participant_data_transport_ready fits on now r apps i token s v = (out, r') \<Longrightarrow> media_step fits uuid ntext media (r, C, D) (r', C, D)"
| ms_human_track: "publish_track fits now i token s' t r = (out, r') \<Longrightarrow> media_step fits uuid ntext media (r, C, D) (r', C, D)"
| ms_reconnect: "reconnect fits now i token s' new r = (out, r') \<Longrightarrow> (\<forall>p. find_in_session r i token s' = Some p \<longrightarrow> p_kind p = Human) \<Longrightarrow>
    media_step fits uuid ntext media (r, C, D) (r', C, D)"
| ms_connect: "connect_human fits now nonce i token sockets r = (gone, r') \<Longrightarrow> media_step fits uuid ntext media (r, C, D) (r', C, D)"
| ms_close: "media_step fits uuid ntext media (r, C, D) (webSocketClose fits now c r, C, D)"
| ms_message: "handleClientMessage fits uuid media now c msg r = (sent, r') \<Longrightarrow> media_step fits uuid ntext media (r, C, D) (r', C, D)"
| ms_agent_leave: "agent_leave fits uuid media now p r = Inr r1 \<Longrightarrow> dget (r_participants r) (p_id p) = Some p \<Longrightarrow> p_kind p = Agent \<Longrightarrow>
    saveRoom fits r1 = Some r' \<Longrightarrow> media_step fits uuid ntext media (r, C, D) (r', C, D)"
| ms_leave: "leave fits uuid media now p r = Inr r1 \<Longrightarrow> dget (r_participants r) (p_id p) = Some p \<Longrightarrow>
    saveRoom fits r1 = Some r' \<Longrightarrow> media_step fits uuid ntext media (r, C, D) (r', C, D)"
| ms_alarm: "alarm_sweep fits uuid media now r = Inr (AL_swept r1 changed) \<Longrightarrow> saveRoom fits r1 = Some r' \<Longrightarrow>
    media_step fits uuid ntext media (r, C, D) (r', C, D)"
| ms_other: "same_media r r' \<Longrightarrow> media_step fits uuid ntext media (r, C, D) (r', C, D)"
| ms_load: "load_media media r = Inr r' \<Longrightarrow> media_step fits uuid ntext media (r, C, D) (r', C, D \<union> unbacked_voice r r')"
| ms_unpublish: "unpublish_track fits i token name r = (out, r') \<Longrightarrow>
    media_step fits uuid ntext media (r, C, D) (r', C, D \<union> unpublished_voice r i token name)"
| ms_cleanup: "attemptCleanupNow closes entries (r_pendingMediaCleanup r) = Some queue \<Longrightarrow>
    media_step fits uuid ntext media (r, C, D) (r\<lparr>r_pendingMediaCleanup := queue\<rparr>,
      C \<union> {(pc_sessionId e, x) | e x. e \<in> set entries \<and> closes e \<and> x \<in> set (pc_mids e)}, D)"

lemma keeps_step: "keeps r r1 \<Longrightarrow> saveRoom fits r1 = Some r' \<Longrightarrow> keeps r r'"
  by (blast intro: keeps_trans keeps_saved)

lemma cleanup_queue:
  assumes "attemptCleanupNow closes entries q = Some q'" and "queued q s x"
  shows "queued q' s x \<or> (\<exists>e \<in> set entries. closes e \<and> pc_sessionId e = s \<and> x \<in> set (pc_mids e))"
proof -
  have "q' = reconcileMediaCloseResults q (executeMediaCloseEffects closes (snapshotMediaCloseEffects entries))"
    using assms(1) by (auto simp: attemptCleanupNow_def Let_def split: if_split_asm)
  then show ?thesis using assms(2)
    by (auto simp: queued_reconcile executeMediaCloseEffects_def snapshotMediaCloseEffects_def confirmed_execute split: if_split_asm)
      (auto simp: executeMediaCloseEffect_def)
qed

lemma media_step_keeps:
  assumes "media_step fits uuid ntext media (r, C, D) (r', C', D')" and "own_keys r"
  shows "own_keys r' \<and> C \<subseteq> C' \<and> D \<subseteq> D' \<and> (handle r s x \<longrightarrow> handle r' s x \<or> (s, x) \<in> C' \<or> (s, x) \<in> D')"
proof -
  have *: "own_keys r' \<and> C \<subseteq> C' \<and> D \<subseteq> D' \<and> (handle r s x \<longrightarrow> handle r' s x \<or> (s, x) \<in> C' \<or> (s, x) \<in> D')"
    if "keeps r r'" "C' = C" "D' = D"
    using that assms(2) by (simp add: keeps_def)
  have but: "own_keys r' \<and> C \<subseteq> C' \<and> D \<subseteq> D' \<and> (handle r s x \<longrightarrow> handle r' s x \<or> (s, x) \<in> C' \<or> (s, x) \<in> D')"
    if "keeps_but L r r'" "C' = C" "D' = D \<union> L" for L
    using that assms(2) by (auto simp: keeps_but_def)
  from assms(1) show ?thesis
  proof cases
    case (ms_cleanup closes entries queue)
    have "own_keys r'" using assms(2) by (simp add: ms_cleanup(1) own_keys_def)
    moreover have "handle r' s x \<or> (s, x) \<in> C'" if "handle r s x"
      using that
    proof (rule handle_cases)
      assume "pending r s x"
      then show ?thesis using cleanup_queue [OF ms_cleanup(4), of s x]
        by (auto simp: pending_def ms_cleanup(1,2) intro: handle_pending)
    next
      fix i p m
      assume "dget (r_participants r) i = Some p" "p_kind p = Agent" "p_media p = Some m" "m_sessionId m = s" "x \<in> live_in m \<union> live_out m"
      then have "handle r' s x" by (intro handle_tracked [of _ i p m]) (simp_all add: ms_cleanup(1))
      then show ?thesis ..
    qed
    ultimately show ?thesis by (auto simp: ms_cleanup(2,3))
  next
    case ms_load
    then show ?thesis using keeps_load [OF _ assms(2)] by (intro but) simp_all
  next
    case (ms_unpublish i token name out)
    then show ?thesis using keeps_unpublish [OF assms(2)] by (intro but) simp_all
  qed (rule *; use assms(2) in \<open>blast intro: keeps_same keeps_register keeps_capabilities keeps_step [OF keeps_moved] keeps_admit keeps_attach
      keeps_discovery keeps_subscribed keeps_handed_off keeps_published keeps_active keeps_transport keeps_publish_track keeps_reconnect
      keeps_connect keeps_message keeps_step [OF keeps_agent_leave] keeps_step [OF keeps_leave] keeps_step [OF keeps_alarm]
      keeps_closed\<close>)+
qed

text \<open>
  C1: Until the Room expires, no media id is forgotten but where the code gives it up: once the Room tracks
  an id for an Agent or has queued it, then after any sequence of loads, joins, departures, sweeps, grants
  and revocations, publications, session rotations, socket messages, other handlers and cleanup rounds, one
  after the other, the Room still remembers it under the same session, unless the provider has confirmed it
  closed, or it was the published id of an Agent that a load found without a voice grant or a track to it
  (\<open>unbacked_voice\<close>; \<open>same_host_join_orphans_track\<close> is how this comes about), or of the pending track an
  Agent unpublished (\<open>unpublished_voice\<close>). Both sets hold published ids only.
\<close>

theorem media_never_forgotten:
  assumes "(media_step fits uuid ntext media)\<^sup>*\<^sup>* (r, C, D) (r', C', D')" and "own_keys r" and "handle r s x"
  shows "handle r' s x \<or> (s, x) \<in> C' \<or> (s, x) \<in> D'"
proof -
  have "own_keys (fst z) \<and> (handle (fst z) s x \<or> (s, x) \<in> fst (snd z) \<or> (s, x) \<in> snd (snd z))"
    if "(media_step fits uuid ntext media)\<^sup>*\<^sup>* (r, C, D) z" for z
    using that
  proof (induction rule: rtranclp_induct)
    case (step y z)
    obtain a A E b B F where "y = (a, A, E)" "z = (b, B, F)" by (metis prod_cases3)
    with step media_step_keeps [of fits uuid ntext media a A E b B F s x] show ?case by auto
  qed (use assms(2,3) in simp)
  from this [OF assms(1)] show ?thesis by simp
qed

lemma own_keys_list: "wf_dict (r_participants r) \<Longrightarrow> list_all (\<lambda>(i, p). p_id p = i) (r_participants r) \<Longrightarrow> own_keys r"
  by (auto simp: own_keys_def list_all_iff dest: dget_in_set)

theorem media_never_forgotten_witness:
  "handle (snd (agent_media_attach (\<lambda>_. True) True 7 (lit ''bot'') (lit ''t'') (lit ''s2'') demo_speaking)) (lit ''s1'') (lit ''m1'')"
proof -
  let ?r' = "snd (agent_media_attach (\<lambda>_. True) True 7 (lit ''bot'') (lit ''t'') (lit ''s2'') demo_speaking)"
  have "(media_step (\<lambda>_. True) (\<lambda>_. []) (\<lambda>_. []) True)\<^sup>*\<^sup>* (demo_speaking, {}, {}) (?r', {}, {})"
    by (rule r_into_rtranclp) (rule ms_attach [OF prod.collapse [symmetric]])
  moreover have "own_keys demo_speaking" by (rule own_keys_list) code_simp+
  moreover have "handle demo_speaking (lit ''s1'') (lit ''m1'')"
  proof -
    have "dget (r_participants demo_speaking) (lit ''bot'') = Some demo_speaker" "p_kind demo_speaker = Agent" by code_simp+
    then show ?thesis by (rule handle_tracked [where m = "the (p_media demo_speaker)"]) (simp_all add: demo_speaker_def live_out_def)
  qed
  ultimately have "handle ?r' (lit ''s1'') (lit ''m1'') \<or> (lit ''s1'', lit ''m1'') \<in> {} \<or> (lit ''s1'', lit ''m1'') \<in> {}"
    by (rule media_never_forgotten)
  then show ?thesis by simp
qed

end
