(* ===== verification/Room_Surfaces.thy ===== *)
theory Room_Surfaces
  imports Room_Files Room_Handles
begin

text \<open>
  The workspace snapshot an Agent shows to the Room (app/src/do/surface.ts, and handleSurfaceUpload,
  agent-clear-surface and agent-read-surface of app/src/do/RoomSession.ts): the policy of a publication,
  the swap of the metadata before the old pieces go, and the read that serves only the current snapshot.

  As with attachments, a publication saves the Room it \<open>loaded\<close> before its body arrived. A delete of
  several keys happens as a whole or not at all (\<open>deletes\<close>).
\<close>

definition MAX_SURFACE_BYTES :: nat where "MAX_SURFACE_BYTES = 768 * 1024"
definition SURFACE_CHUNK_SIZE :: nat where "SURFACE_CHUNK_SIZE = 64 * 1024"
definition MAX_ACTIVE_AGENT_SURFACES :: nat where "MAX_ACTIVE_AGENT_SURFACES = 3"
definition MIN_SURFACE_UPDATE_MS :: int where "MIN_SURFACE_UPDATE_MS = 2000"

definition surface_mime :: "jstr \<Rightarrow> image_mime option" where
  "surface_mime s = (if s = lit ''image/jpeg'' then Some Image_jpeg else if s = lit ''image/png'' then Some Image_png
     else if s = lit ''image/webp'' then Some Image_webp else None)"

definition isSurfaceMimeType :: "js \<Rightarrow> bool" where
  "isSurfaceMimeType v = (case v of JStr s \<Rightarrow> surface_mime s \<noteq> None | _ \<Rightarrow> False)"

subsection \<open>The policy\<close>

record publish_context =
  pc_mimeType :: js
  pc_declaredSize :: jnum
  pc_byteLength :: nat
  pc_otherActiveSurfaces :: nat
  pc_publisherHasSurface :: bool
  pc_publisherLastUpdatedAt :: "int option"
  pc_now :: int

definition evaluateSurfacePublish :: "publish_context \<Rightarrow> string + nat" where
  "evaluateSurfacePublish c =
     (if \<not> isSurfaceMimeType (pc_mimeType c) then Inl ''surface_mime_unsupported''
      else if pc_byteLength c = 0 then Inl ''surface_empty''
      else if MAX_SURFACE_BYTES < pc_byteLength c then Inl ''surface_too_large''
      else if declared_other (pc_declaredSize c) (pc_byteLength c) then Inl ''surface_size_mismatch''
      else if pc_publisherHasSurface c \<and> (case pc_publisherLastUpdatedAt c of
          Some t \<Rightarrow> pc_now c - t < MIN_SURFACE_UPDATE_MS | None \<Rightarrow> False) then Inl ''surface_rate_limited''
      else if \<not> pc_publisherHasSurface c \<and> MAX_ACTIVE_AGENT_SURFACES \<le> pc_otherActiveSurfaces c
      then Inl ''surface_capacity_exceeded''
      else Inr (chunk_total SURFACE_CHUNK_SIZE (pc_byteLength c)))"

text \<open>A stored surface, and whether the load has to save the repair.\<close>

definition sanitizeStoredSurface :: "js \<Rightarrow> surface_v1 option \<times> bool" where
  "sanitizeStoredSurface v =
     (if \<not> is_objectish v then (None, v \<noteq> JUndefined)
      else (case (js_get v ''snapshotId'', js_get v ''mimeType'') of
        (JStr i, JStr mime) \<Rightarrow> (case (surface_mime mime, js_safe_int (js_get v ''size''), js_safe_int (js_get v ''updatedAt'')) of
            (Some k, Some n, Some t) \<Rightarrow>
              if js_get v ''kind'' = JStr (lit ''workspace-snapshot'') \<and> i \<noteq> [] \<and> length i \<le> 64 \<and> 0 < n \<and> n \<le> int MAX_SURFACE_BYTES
                \<and> 0 < t
              then (Some \<lparr>sf_snapshotId = i, sf_mimeType = k, sf_size = n, sf_updatedAt = t\<rparr>, False) else (None, True)
          | _ \<Rightarrow> (None, True))
      | _ \<Rightarrow> (None, True)))"

subsection \<open>Publishing\<close>

type_synonym surface_chunks = "(jstr \<times> jstr \<times> nat) chunk_store"

definition surfaceChunkKey :: "jstr \<Rightarrow> jstr \<Rightarrow> nat \<Rightarrow> jstr \<times> jstr \<times> nat" where
  "surfaceChunkKey participantId snapshotId index = (participantId, snapshotId, index)"

definition surface_keys :: "jstr \<Rightarrow> surface_v1 \<Rightarrow> (jstr \<times> jstr \<times> nat) list" where
  "surface_keys i s = map (surfaceChunkKey i (sf_snapshotId s)) [0..<chunk_total SURFACE_CHUNK_SIZE (nat (sf_size s))]"

definition without_keys :: "'k list \<Rightarrow> 'k chunk_store \<Rightarrow> 'k chunk_store" where
  "without_keys ks m = fold ddel ks m"

definition deleteSurfaceChunks :: "bool \<Rightarrow> jstr \<Rightarrow> surface_v1 option \<Rightarrow> surface_chunks \<Rightarrow> surface_chunks" where
  "deleteSurfaceChunks deletes i previous m =
     (case previous of Some s \<Rightarrow> if deletes then without_keys (surface_keys i s) m else m | None \<Rightarrow> m)"

record surface_upload =
  su_participantId :: jstr
  su_token :: jstr
  su_mimeType :: "jstr option"
  su_declared :: jnum
  su_body :: "nat list"

definition has_surface :: "participant \<Rightarrow> bool" where
  "has_surface p \<longleftrightarrow> p_kind p = Agent \<and> p_surface p \<noteq> None"

definition otherActiveSurfaces :: "room \<Rightarrow> jstr \<Rightarrow> nat" where
  "otherActiveSurfaces r i = length (filter (\<lambda>p. has_surface p \<and> p_id p \<noteq> i) (room_people r))"

definition publish_context_of :: "int \<Rightarrow> surface_upload \<Rightarrow> room \<Rightarrow> participant \<Rightarrow> publish_context" where
  "publish_context_of now u r p = \<lparr>pc_mimeType = JStr (media_type (su_mimeType u)), pc_declaredSize = su_declared u,
     pc_byteLength = length (su_body u), pc_otherActiveSurfaces = otherActiveSurfaces r (su_participantId u),
     pc_publisherHasSurface = (p_surface p \<noteq> None), pc_publisherLastUpdatedAt = map_option sf_updatedAt (p_surface p), pc_now = now\<rparr>"

definition surface_status :: "string \<Rightarrow> nat" where
  "surface_status e = (if e = ''surface_rate_limited'' then 429 else if e = ''surface_capacity_exceeded'' then 503 else 400)"

definition new_surface :: "int \<Rightarrow> jstr \<Rightarrow> surface_upload \<Rightarrow> surface_v1" where
  "new_surface now snapshotId u = \<lparr>sf_snapshotId = snapshotId, sf_mimeType = the (surface_mime (media_type (su_mimeType u))),
     sf_size = int (length (su_body u)), sf_updatedAt = now\<rparr>"

definition handleSurfaceUpload :: "(room \<Rightarrow> bool) \<Rightarrow> (jstr \<times> jstr \<times> nat \<Rightarrow> bool) \<Rightarrow> bool \<Rightarrow> int \<Rightarrow> jstr \<Rightarrow> surface_upload \<Rightarrow>
    room \<Rightarrow> room \<Rightarrow> surface_chunks \<Rightarrow> surface_v1 reply \<times> room \<times> surface_chunks" where
  "handleSurfaceUpload fits accepts deletes now snapshotId u loaded stored m =
     (case findParticipant loaded (su_participantId u) (su_token u) of
        None \<Rightarrow> (Refused 401 ''unauthorized'', stored, m)
      | Some p \<Rightarrow>
          if p_kind p \<noteq> Agent then (Refused 403 ''surface_agent_only'', stored, m)
          else (case evaluateSurfacePublish (publish_context_of now u loaded p) of
            Inl e \<Rightarrow> (Refused (surface_status e) e, stored, m)
          | Inr total_chunks \<Rightarrow>
              (let s = new_surface now snapshotId u; key = surfaceChunkKey (su_participantId u) snapshotId in
               case store_chunks accepts (pieces SURFACE_CHUNK_SIZE key (su_body u)) m of
                 (False, m) \<Rightarrow>
                   if deletes then (Refused 503 ''surface_unavailable'', stored, without_keys (map key [0..<total_chunks]) m)
                   else (Raised, stored, m)
               | (True, m) \<Rightarrow> (case saveRoom fits (set_participant (p\<lparr>p_surface := Some s\<rparr>) loaded) of
                     None \<Rightarrow> (Unsaved, stored, m)
                   | Some saved \<Rightarrow> (Done s, saved, deleteSurfaceChunks deletes (su_participantId u) (p_surface p) m)))))"

subsection \<open>Clearing and reading\<close>

definition agent_clear_surface :: "(room \<Rightarrow> bool) \<Rightarrow> bool \<Rightarrow> int \<Rightarrow> jstr \<Rightarrow> jstr \<Rightarrow> room \<Rightarrow> surface_chunks \<Rightarrow>
    bool reply \<times> room \<times> surface_chunks" where
  "agent_clear_surface fits deletes now i token r m = (case findParticipant r i token of
     None \<Rightarrow> (Refused 401 ''unauthorized'', r, m)
   | Some p \<Rightarrow>
       if p_kind p \<noteq> Agent then (Refused 403 ''agent_only'', r, m)
       else (case saveRoom fits (set_participant (p\<lparr>p_surface := None, p_lastSeenAt := now\<rparr>) r) of
         None \<Rightarrow> (Unsaved, r, m)
       | Some r' \<Rightarrow> (Done (p_surface p \<noteq> None), r', deleteSurfaceChunks deletes (p_id p) (p_surface p) m)))"

definition agent_read_surface :: "(room \<Rightarrow> bool) \<Rightarrow> int \<Rightarrow> jstr \<Rightarrow> jstr \<Rightarrow> jstr \<Rightarrow> jstr \<Rightarrow> room \<Rightarrow> surface_chunks \<Rightarrow>
    (surface_v1 \<times> jstr) reply \<times> room" where
  "agent_read_surface fits now i token source snapshotId r m = (case findParticipant r i token of
     None \<Rightarrow> (Refused 401 ''unauthorized'', r)
   | Some reader \<Rightarrow> (case Option.bind (dget (r_participants r) source) (\<lambda>p. if p_kind p = Agent then map_option (Pair p) (p_surface p) else None) of
         None \<Rightarrow> (Refused 404 ''surface_not_found'', r)
       | Some (p, s) \<Rightarrow>
           if sf_snapshotId s \<noteq> snapshotId then (Refused 410 ''surface_changed'', r)
           else (case gather (surface_keys (p_id p) s) m of
             None \<Rightarrow> (Refused 404 ''surface_not_found'', r)
           | Some bytes \<Rightarrow> save_reply fits r (set_participant (reader\<lparr>p_lastSeenAt := now\<rparr>) r) (s, btoa bytes))))"

subsection \<open>At most three surfaces\<close>

definition active_surfaces :: "room \<Rightarrow> nat" where
  "active_surfaces r = length (filter has_surface (room_people r))"

lemma surface_sizes: "MAX_SURFACE_BYTES = 786432" "SURFACE_CHUNK_SIZE = 65536" "MAX_ACTIVE_AGENT_SURFACES = 3" "MIN_SURFACE_UPDATE_MS = 2000"
  by (simp_all add: MAX_SURFACE_BYTES_def SURFACE_CHUNK_SIZE_def MAX_ACTIVE_AGENT_SURFACES_def MIN_SURFACE_UPDATE_MS_def)

lemma split_entry:
  "wf_dict m \<Longrightarrow> dget m k = Some v \<Longrightarrow> \<exists>xs ys. m = xs @ (k, v) # ys \<and> dput k w m = xs @ (k, w) # ys \<and> k \<notin> fst ` set (xs @ ys)"
proof (induction m)
  case (Cons e m)
  obtain j x where e: "e = (j, x)" by fastforce
  show ?case
  proof (cases "j = k")
    case True
    then have "e # m = [] @ (k, v) # m \<and> dput k w (e # m) = [] @ (k, w) # m \<and> k \<notin> fst ` set ([] @ m)"
      using Cons.prems e by (auto simp: wf_dict_def)
    then show ?thesis by blast
  next
    case False
    then obtain xs ys where "m = xs @ (k, v) # ys" "dput k w m = xs @ (k, w) # ys" "k \<notin> fst ` set (xs @ ys)"
      using Cons e by (auto simp: wf_dict_def)
    then have "e # m = (e # xs) @ (k, v) # ys \<and> dput k w (e # m) = (e # xs) @ (k, w) # ys \<and> k \<notin> fst ` set ((e # xs) @ ys)"
      using False e by auto
    then show ?thesis by blast
  qed
qed simp

lemma surfaces_of_seat:
  assumes "own_keys r" and "dget (r_participants r) i = Some p" and "p_id p' = i"
  shows "active_surfaces r = otherActiveSurfaces r i + (if has_surface p then 1 else 0)"
    and "active_surfaces (set_participant p' r) = otherActiveSurfaces r i + (if has_surface p' then 1 else 0)"
proof -
  have wf: "wf_dict (r_participants r)" and id: "p_id p = i" using assms(1,2) by (simp_all add: own_keys_def)
  obtain xs ys where m: "r_participants r = xs @ (i, p) # ys" "dput i p' (r_participants r) = xs @ (i, p') # ys"
    "i \<notin> fst ` set (xs @ ys)" using split_entry [OF wf assms(2), of p'] by blast
  have other: "p_id x \<noteq> i" if "(j, x) \<in> set (xs @ ys)" for j x
  proof -
    have "dget (r_participants r) j = Some x" by (rule wf_dget [OF wf]) (use that m(1) in auto)
    then have "p_id x = j" using assms(1) own_key by blast
    moreover have "j \<in> fst ` set (xs @ ys)" using that by force
    ultimately show ?thesis using m(3) by metis
  qed
  have same: "filter (\<lambda>x. has_surface x \<and> p_id x \<noteq> i) (map snd xs) = filter has_surface (map snd xs)"
    "filter (\<lambda>x. has_surface x \<and> p_id x \<noteq> i) (map snd ys) = filter has_surface (map snd ys)"
    using other by (fastforce intro!: filter_cong)+
  have others: "otherActiveSurfaces r i = length (filter has_surface (map snd xs)) + length (filter has_surface (map snd ys))"
    by (simp only: otherActiveSurfaces_def room_people_def m(1) map_append list.map snd_conv filter_append same length_append)
      (simp add: id same)
  show "active_surfaces r = otherActiveSurfaces r i + (if has_surface p then 1 else 0)"
    by (simp add: others active_surfaces_def room_people_def m(1))
  show "active_surfaces (set_participant p' r) = otherActiveSurfaces r i + (if has_surface p' then 1 else 0)"
    by (simp add: others active_surfaces_def room_people_def set_participant_def assms(3) m(2))
qed

lemma save_surfaces: "saveRoom fits r = Some r' \<Longrightarrow> active_surfaces r' = active_surfaces r \<and> own_keys r' = own_keys r"
  by (simp add: save_participants active_surfaces_def room_people_def own_keys_def)

lemma surface_found: "own_keys r \<Longrightarrow> findParticipant r i token = Some p \<Longrightarrow> dget (r_participants r) i = Some p \<and> p_id p = i"
  by (auto simp: findParticipant_def own_keys_def split: option.splits if_splits)

lemma published:
  assumes "handleSurfaceUpload fits accepts deletes now sid u loaded stored m = (Done s, r', m')"
  obtains p m1 where "findParticipant loaded (su_participantId u) (su_token u) = Some p" "p_kind p = Agent"
    "evaluateSurfacePublish (publish_context_of now u loaded p) = Inr (chunk_total SURFACE_CHUNK_SIZE (length (su_body u)))"
    "s = new_surface now sid u"
    "store_chunks accepts (pieces SURFACE_CHUNK_SIZE (surfaceChunkKey (su_participantId u) sid) (su_body u)) m = (True, m1)"
    "saveRoom fits (set_participant (p\<lparr>p_surface := Some s\<rparr>) loaded) = Some r'"
    "m' = deleteSurfaceChunks deletes (su_participantId u) (p_surface p) m1"
  using assms
  by (auto simp: handleSurfaceUpload_def Let_def evaluateSurfacePublish_def publish_context_of_def
    split: option.splits sum.splits prod.splits bool.splits if_splits)

lemma refused_keeps: "handleSurfaceUpload fits accepts deletes now sid u loaded stored m = (out, r', m') \<Longrightarrow> (\<And>s. out \<noteq> Done s) \<Longrightarrow> r' = stored"
  by (auto simp: handleSurfaceUpload_def Let_def split: option.splits sum.splits prod.splits bool.splits if_splits)

inductive surface_step :: "room \<times> surface_chunks \<Rightarrow> room \<times> surface_chunks \<Rightarrow> bool" where
  Publish_surface: "handleSurfaceUpload fits accepts deletes now sid u r r m = (out, r', m') \<Longrightarrow> surface_step (r, m) (r', m')"
| Clear_surface: "agent_clear_surface fits deletes now i token r m = (cleared, r', m') \<Longrightarrow> surface_step (r, m) (r', m')"
| Read_surface: "agent_read_surface fits now i token source sid r m = (reading, r') \<Longrightarrow> surface_step (r, m) (r', m)"
| Seats_change: "own_keys r' \<Longrightarrow> active_surfaces r' \<le> active_surfaces r \<Longrightarrow> surface_step (r, m) (r', m)"

lemma surface_step_bound:
  "surface_step s s' \<Longrightarrow> own_keys (fst s) \<and> active_surfaces (fst s) \<le> 3 \<Longrightarrow> own_keys (fst s') \<and> active_surfaces (fst s') \<le> 3"
proof (induction rule: surface_step.induct)
  case (Publish_surface fits accepts deletes now sid u r m out r' m')
  then have own: "own_keys r" and bound: "active_surfaces r \<le> 3" by simp_all
  show ?case
  proof (cases "\<exists>s. out = Done s")
    case True
    then obtain s where up: "handleSurfaceUpload fits accepts deletes now sid u r r m = (Done s, r', m')" using Publish_surface(1) by blast
    obtain p where p: "findParticipant r (su_participantId u) (su_token u) = Some p" "p_kind p = Agent"
      "evaluateSurfacePublish (publish_context_of now u r p) = Inr (chunk_total SURFACE_CHUNK_SIZE (length (su_body u)))"
      "saveRoom fits (set_participant (p\<lparr>p_surface := Some s\<rparr>) r) = Some r'"
      using published [OF up] by metis
    note seat = surface_found [OF own p(1)]
    have room: "p_surface p \<noteq> None \<or> otherActiveSurfaces r (su_participantId u) < 3"
      using p(3) by (auto simp: evaluateSurfacePublish_def publish_context_of_def surface_sizes split: if_splits)
    have "active_surfaces (set_participant (p\<lparr>p_surface := Some s\<rparr>) r) \<le> 3"
      using surfaces_of_seat [OF own seat [THEN conjunct1], of "p\<lparr>p_surface := Some s\<rparr>"] seat room bound p(2)
      by (auto simp: has_surface_def split: if_splits)
    then show ?thesis using save_surfaces [OF p(4)] own_set [OF own] by simp
  next
    case False
    then show ?thesis using refused_keeps [OF Publish_surface(1)] own bound by simp
  qed
next
  case (Clear_surface fits deletes now i token r m cleared r' m')
  then have own: "own_keys r" and bound: "active_surfaces r \<le> 3" by simp_all
  consider "r' = r" | p where "findParticipant r i token = Some p"
      "saveRoom fits (set_participant (p\<lparr>p_surface := None, p_lastSeenAt := now\<rparr>) r) = Some r'"
    using Clear_surface(1) by (auto simp: agent_clear_surface_def split: option.splits if_splits)
  then show ?case
  proof cases
    case (2 p)
    note seat = surface_found [OF own 2(1)]
    have "active_surfaces (set_participant (p\<lparr>p_surface := None, p_lastSeenAt := now\<rparr>) r) \<le> active_surfaces r"
      using surfaces_of_seat [OF own seat [THEN conjunct1], of "p\<lparr>p_surface := None, p_lastSeenAt := now\<rparr>"] seat
      by (simp add: has_surface_def)
    then show ?thesis using save_surfaces [OF 2(2)] own_set [OF own] bound by simp
  qed (use own bound in simp)
next
  case (Read_surface fits now i token source sid r m reading r')
  then have own: "own_keys r" and bound: "active_surfaces r \<le> 3" by simp_all
  consider "r' = r" | p where "findParticipant r i token = Some p" "saveRoom fits (set_participant (p\<lparr>p_lastSeenAt := now\<rparr>) r) = Some r'"
    using Read_surface(1) by (auto simp: agent_read_surface_def save_reply_def split: option.splits if_splits prod.splits)
  then show ?case
  proof cases
    case (2 p)
    note seat = surface_found [OF own 2(1)]
    have "active_surfaces (set_participant (p\<lparr>p_lastSeenAt := now\<rparr>) r) \<le> active_surfaces r"
      using surfaces_of_seat [OF own seat [THEN conjunct1], of "p\<lparr>p_lastSeenAt := now\<rparr>"] seat by (simp add: has_surface_def)
    then show ?thesis using save_surfaces [OF 2(2)] own_set [OF own] bound by simp
  qed (use own bound in simp)
next
  case (Seats_change r' r m)
  then show ?case by simp
qed

text \<open>
  C39: However publications, clears and reads of complete requests alternate, and Agents come without a surface or leave, the Room
  shows at most three surfaces.
\<close>

theorem surfaces_bounded:
  assumes "surface_step\<^sup>*\<^sup>* (r, m) (r', m')" and "own_keys r" and "active_surfaces r \<le> 3"
  shows "active_surfaces r' \<le> 3"
proof -
  have "own_keys (fst (r', m')) \<and> active_surfaces (fst (r', m')) \<le> 3"
    using assms(1) by (induction rule: rtranclp_induct) (use assms(2,3) surface_step_bound in auto)
  then show ?thesis by simp
qed

subsection \<open>A snapshot is read back, an unsuccessful one changes nothing\<close>

lemma inj_surface_key: "inj (surfaceChunkKey i sid)"
  by (simp add: inj_on_def surfaceChunkKey_def)

lemma without_keys_other: "k \<notin> set ks \<Longrightarrow> dget (without_keys ks m) k = dget m k"
  unfolding without_keys_def by (induction ks arbitrary: m) simp_all

lemma other_snapshot: "k \<in> set (surface_keys i s) \<Longrightarrow> fst (snd k) = sf_snapshotId s"
  by (auto simp: surface_keys_def surfaceChunkKey_def)

theorem published_surface_read_back:
  assumes "handleSurfaceUpload fits accepts deletes now sid u loaded stored m = (Done s, r', m')"
    and "own_keys loaded" and "list_all is_byte (su_body u)"
    and "list_all (\<lambda>p. case p_surface p of Some t \<Rightarrow> sf_snapshotId t \<noteq> sid | None \<Rightarrow> True) (room_people loaded)"
    and "findParticipant r' i token = Some reader"
    and "saveRoom fits' (set_participant (reader\<lparr>p_lastSeenAt := later\<rparr>) r') \<noteq> None"
  shows "\<exists>r''. agent_read_surface fits' later i token (su_participantId u) sid r' m' = (Done (s, btoa (su_body u)), r'') \<and>
    decodeBase64 (btoa (su_body u)) = Some (su_body u)"
proof -
  obtain p m1 where p: "findParticipant loaded (su_participantId u) (su_token u) = Some p" "p_kind p = Agent"
    "evaluateSurfacePublish (publish_context_of now u loaded p) = Inr (chunk_total SURFACE_CHUNK_SIZE (length (su_body u)))"
    "s = new_surface now sid u"
    "store_chunks accepts (pieces SURFACE_CHUNK_SIZE (surfaceChunkKey (su_participantId u) sid) (su_body u)) m = (True, m1)"
    "saveRoom fits (set_participant (p\<lparr>p_surface := Some s\<rparr>) loaded) = Some r'"
    "m' = deleteSurfaceChunks deletes (su_participantId u) (p_surface p) m1"
    using published [OF assms(1)] by blast
  note seat = surface_found [OF assms(2) p(1)]
  have "dget (r_participants r') (su_participantId u) = Some (p\<lparr>p_surface := Some s\<rparr>)"
    using save_participants [OF p(6)] seat by (simp add: set_participant_def)
  then have listed: "Option.bind (dget (r_participants r') (su_participantId u)) (\<lambda>p. if p_kind p = Agent then map_option (Pair p) (p_surface p) else None) =
      Some (p\<lparr>p_surface := Some s\<rparr>, s)" using p(2) by simp
  have "p \<in> set (room_people loaded)" using dget_in_set [of "r_participants loaded"] seat by (force simp: room_people_def image_iff)
  then have old: "case p_surface p of Some t \<Rightarrow> sf_snapshotId t \<noteq> sid | None \<Rightarrow> True" using assms(4) by (auto simp: list_all_iff)
  have sid: "sf_snapshotId s = sid" "surface_keys (su_participantId u) s =
      map (surfaceChunkKey (su_participantId u) sid) [0..<chunk_total SURFACE_CHUNK_SIZE (length (su_body u))]"
    by (simp_all add: p(4) new_surface_def surface_keys_def)
  have "gather (surface_keys (su_participantId u) s) m1 = Some (su_body u)"
    unfolding sid(2) by (rule stored_bytes_gathered [OF p(5) inj_surface_key]) (simp add: surface_sizes)
  moreover have "gather (surface_keys (su_participantId u) s) m' = gather (surface_keys (su_participantId u) s) m1"
  proof (rule gather_cong)
    fix k assume "k \<in> set (surface_keys (su_participantId u) s)"
    then have k: "fst (snd k) = sid" using other_snapshot sid(1) by metis
    show "dget m' k = dget m1 k"
    proof (cases "p_surface p")
      case (Some t)
      then have "k \<notin> set (surface_keys (su_participantId u) t)" using old k other_snapshot by fastforce
      then show ?thesis using Some by (simp add: p(7) deleteSurfaceChunks_def without_keys_other)
    qed (simp add: p(7) deleteSurfaceChunks_def)
  qed
  ultimately have bytes: "gather (surface_keys (su_participantId u) s) m' = Some (su_body u)" by simp
  have "su_body u \<noteq> []" using p(3) by (auto simp: evaluateSurfacePublish_def publish_context_of_def split: if_splits)
  then have "decodeBase64 (btoa (su_body u)) = Some (su_body u)" using base64_round_trip assms(3) by blast
  moreover have "p_id (p\<lparr>p_surface := Some s\<rparr>) = su_participantId u" using seat by simp
  ultimately show ?thesis using assms(5,6) listed bytes sid(1)
    by (auto simp: agent_read_surface_def save_reply_def split: option.splits)
qed

text \<open>A publication that is refused, or whose pieces or record cannot be stored, leaves the Room and every other snapshot.\<close>

theorem unsuccessful_publication_changes_nothing:
  assumes "handleSurfaceUpload fits accepts deletes now sid u loaded stored m = (out, r', m')" and "\<And>s. out \<noteq> Done s"
    and "sf_snapshotId t \<noteq> sid"
  shows "r' = stored \<and> gather (surface_keys i t) m' = gather (surface_keys i t) m"
proof -
  have "dget m' k = dget m k" if k: "fst (snd k) \<noteq> sid" for k
  proof -
    have new: "k \<notin> fst ` set (pieces SURFACE_CHUNK_SIZE (surfaceChunkKey (su_participantId u) sid) (su_body u))"
        "k \<notin> set (map (surfaceChunkKey (su_participantId u) sid) [0..<n])" for n
      using k by (auto simp: pieces_def surfaceChunkKey_def)
    obtain ok m1 where st: "store_chunks accepts (pieces SURFACE_CHUNK_SIZE (surfaceChunkKey (su_participantId u) sid) (su_body u)) m = (ok, m1)"
      by fastforce
    have "dget m1 k = dget m k" by (rule store_chunks_other [OF st new(1)])
    then show ?thesis using assms(1,2) new(2) st
      by (auto simp: handleSurfaceUpload_def Let_def without_keys_other split: option.splits sum.splits if_splits bool.splits)
  qed
  then have "gather (surface_keys i t) m' = gather (surface_keys i t) m"
    by (intro gather_cong) (use assms(3) other_snapshot in metis)
  then show ?thesis using refused_keeps [OF assms(1,2)] by simp
qed

subsection \<open>Concrete publications\<close>

definition demo_snapshot :: surface_upload where
  "demo_snapshot = \<lparr>su_participantId = lit ''bot'', su_token = lit ''t'', su_mimeType = Some (lit ''image/png''), su_declared = jint 2,
     su_body = [137, 80]\<rparr>"

definition demo_shown :: "surface_v1 \<times> room \<times> surface_chunks" where
  "demo_shown = (let s = new_surface 5 (lit ''s1'') demo_snapshot in
     (s, set_participant (demo_participant ''bot'' Agent True\<lparr>p_surface := Some s\<rparr>) demo_room, [((lit ''bot'', lit ''s1'', 0), [137, 80])]))"

lemma demo_people: "own_keys demo_room" "active_surfaces demo_room = 0" "otherActiveSurfaces demo_room (lit ''bot'') = 0"
    "list_all (\<lambda>p. p_surface p = None) (room_people demo_room)"
proof -
  have people: "r_participants demo_room = demo_participants" by (simp add: demo_room_def)
  have "wf_dict demo_participants" by (simp add: demo_participants_def wf_dict_def)
  moreover have "dget demo_participants i = Some p \<Longrightarrow> p_id p = i" for i p
    by (auto simp: demo_participants_def demo_participant_def split: if_splits)
  ultimately show "own_keys demo_room" unfolding own_keys_def people by blast
  show "list_all (\<lambda>p. p_surface p = None) (room_people demo_room)" "active_surfaces demo_room = 0" "otherActiveSurfaces demo_room (lit ''bot'') = 0"
    by (simp_all add: room_people_def people demo_participants_def demo_participant_def active_surfaces_def otherActiveSurfaces_def has_surface_def)
qed

lemma demo_publication: "handleSurfaceUpload (\<lambda>_. True) (\<lambda>_. True) True 5 (lit ''s1'') demo_snapshot demo_room demo_room [] =
    (Done (fst demo_shown), fst (snd demo_shown), snd (snd demo_shown))"
proof -
  have "surface_mime (media_type (Some (lit ''image/png''))) = Some Image_png" by code_simp
  then have policy: "evaluateSurfacePublish (publish_context_of 5 demo_snapshot demo_room (demo_participant ''bot'' Agent True)) = Inr 1"
    using demo_people(3)
    by (simp add: evaluateSurfacePublish_def publish_context_of_def demo_snapshot_def isSurfaceMimeType_def surface_sizes declared_other_def
      chunk_total_def demo_participant_def)
  have who: "findParticipant demo_room (lit ''bot'') (lit ''t'') = Some (demo_participant ''bot'' Agent True)"
    by (simp add: findParticipant_def demo_room_def) (simp add: demo_participant_def)
  have request: "su_participantId demo_snapshot = lit ''bot''" "su_token demo_snapshot = lit ''t''" "su_body demo_snapshot = [137, 80]"
    by (simp_all add: demo_snapshot_def)
  have stored: "store_chunks (\<lambda>_. True) (pieces SURFACE_CHUNK_SIZE (surfaceChunkKey i j) [137, 80]) [] = (True, [((i, j, 0), [137, 80])])" for i j :: jstr
    by (simp add: pieces_def chunk_total_def piece_def surface_sizes surfaceChunkKey_def)
  show ?thesis
    unfolding handleSurfaceUpload_def request who option.case policy sum.case Let_def stored prod.case bool.case save_const demo_shown_def
    by (simp add: deleteSurfaceChunks_def) (simp add: demo_participant_def)
qed

theorem surfaces_bounded_witness: "active_surfaces (fst (snd demo_shown)) \<le> 3"
proof (rule surfaces_bounded)
  show "surface_step\<^sup>*\<^sup>* (demo_room, []) (fst (snd demo_shown), snd (snd demo_shown))"
    by (rule r_into_rtranclp, rule Publish_surface, rule demo_publication)
qed (simp_all add: demo_people)

theorem published_surface_read_back_witness:
  "\<exists>r''. agent_read_surface (\<lambda>_. True) 9 (lit ''ana'') (lit ''t'') (su_participantId demo_snapshot) (lit ''s1'') (fst (snd demo_shown)) (snd (snd demo_shown)) =
      (Done (fst demo_shown, btoa (su_body demo_snapshot)), r'') \<and> decodeBase64 (btoa (su_body demo_snapshot)) = Some (su_body demo_snapshot)"
proof (rule published_surface_read_back [OF demo_publication])
  show "own_keys demo_room" by (rule demo_people)
  show "list_all is_byte (su_body demo_snapshot)" by (simp add: demo_snapshot_def is_byte_def)
  show "list_all (\<lambda>p. case p_surface p of Some t \<Rightarrow> sf_snapshotId t \<noteq> lit ''s1'' | None \<Rightarrow> True) (room_people demo_room)"
    using demo_people(4) by (auto simp: list_all_iff)
  show "findParticipant (fst (snd demo_shown)) (lit ''ana'') (lit ''t'') = Some (demo_participant ''ana'' Human True)"
    by (simp add: demo_shown_def Let_def findParticipant_def set_participant_def demo_room_def) (simp add: demo_participant_def)
qed (simp add: save_const)

definition demo_second_snapshot :: surface_upload where
  "demo_second_snapshot = demo_snapshot\<lparr>su_participantId := lit ''ana''\<rparr>"

theorem unsuccessful_publication_changes_nothing_witness:
  "case handleSurfaceUpload (\<lambda>_. True) (\<lambda>_. True) True 5 (lit ''s2'') demo_second_snapshot demo_room (fst (snd demo_shown)) (snd (snd demo_shown)) of
     (_, r', m') \<Rightarrow> r' = fst (snd demo_shown) \<and>
       gather (surface_keys (lit ''bot'') (fst demo_shown)) m' = gather (surface_keys (lit ''bot'') (fst demo_shown)) (snd (snd demo_shown))"
proof -
  have "findParticipant demo_room (lit ''ana'') (lit ''t'') = Some (demo_participant ''ana'' Human True)"
    by (simp add: findParticipant_def demo_room_def) (simp add: demo_participant_def)
  then have refused: "handleSurfaceUpload (\<lambda>_. True) (\<lambda>_. True) True 5 (lit ''s2'') demo_second_snapshot demo_room (fst (snd demo_shown)) (snd (snd demo_shown)) =
      (Refused 403 ''surface_agent_only'', fst (snd demo_shown), snd (snd demo_shown))"
    by (simp add: handleSurfaceUpload_def demo_second_snapshot_def demo_snapshot_def)
  have "sf_snapshotId (fst demo_shown) \<noteq> lit ''s2''" by (simp add: demo_shown_def Let_def new_surface_def)
  then show ?thesis
    unfolding refused prod.case using unsuccessful_publication_changes_nothing [OF refused, of "fst demo_shown" "lit ''bot''"] by simp
qed

end
