(* ===== verification/Collab_Registry.thy ===== *)
theory Collab_Registry
  imports Collab
begin

text \<open>
  The registry of collaboration requests (class \<open>CollabRegistry\<close> of app/src/do/collab.ts):
  bounded, in memory only, and rebuilt from the message log after a restart. An operation
  takes the registry and returns the next one beside its outcome.
\<close>

subsection \<open>State and operations\<close>

record collab_record =
  cr_requestId :: jstr
  cr_from :: jstr
  cr_target :: jstr
  cr_sequenceByKind :: "(collab_kind, int) dict"

record collab_registry =
  reg_max :: nat
  reg_requests :: "(jstr, collab_record) dict"

datatype registry_error = Unknown_request | Not_request_target

datatype registry_outcome = Recorded int | Duplicate int | Rejected registry_error

datatype precheck = Record_it | Already int | Refuse registry_error

definition new_registry :: "nat \<Rightarrow> collab_registry" where
  "new_registry m = \<lparr>reg_max = m, reg_requests = []\<rparr>"

definition clear_registry :: "collab_registry \<Rightarrow> collab_registry" where
  "clear_registry r = r\<lparr>reg_requests := []\<rparr>"

fun evictWhileFull :: "nat \<Rightarrow> (jstr, collab_record) dict \<Rightarrow> (jstr, collab_record) dict" where
  "evictWhileFull m [] = []"
| "evictWhileFull m (oldest # rest) =
     (if m \<le> length (oldest # rest) then evictWhileFull m rest else oldest # rest)"

definition fresh_record :: "collab_event \<Rightarrow> (collab_kind, int) dict \<Rightarrow> collab_record" where
  "fresh_record e seqs = \<lparr>cr_requestId = ce_requestId e, cr_from = ce_from e,
     cr_target = ce_target e, cr_sequenceByKind = seqs\<rparr>"

definition recordRequest ::
    "collab_event \<Rightarrow> int \<Rightarrow> collab_registry \<Rightarrow> registry_outcome \<times> collab_registry" where
  "recordRequest e sequence r = (case dget (reg_requests r) (ce_requestId e) of
     Some existing \<Rightarrow>
       (Duplicate (case dget (cr_sequenceByKind existing) Request of
          Some n \<Rightarrow> n | None \<Rightarrow> sequence), r)
   | None \<Rightarrow>
       (Recorded sequence, r\<lparr>reg_requests :=
          dput (ce_requestId e) (fresh_record e [(Request, sequence)])
            (evictWhileFull (reg_max r) (reg_requests r))\<rparr>))"

definition precheckResponse :: "jstr \<Rightarrow> collab_kind \<Rightarrow> jstr \<Rightarrow> collab_registry \<Rightarrow> precheck" where
  "precheckResponse requestId kind responder r = (case dget (reg_requests r) requestId of
     None \<Rightarrow> Refuse Unknown_request
   | Some rec \<Rightarrow>
       if responder \<noteq> cr_target rec then Refuse Not_request_target
       else (case dget (cr_sequenceByKind rec) kind of
         Some n \<Rightarrow> Already n | None \<Rightarrow> Record_it))"

definition commitResponse ::
    "jstr \<Rightarrow> collab_kind \<Rightarrow> int \<Rightarrow> collab_registry \<Rightarrow> collab_registry" where
  "commitResponse requestId kind sequence r = (case dget (reg_requests r) requestId of
     None \<Rightarrow> r
   | Some rec \<Rightarrow> r\<lparr>reg_requests := dput requestId
       (rec\<lparr>cr_sequenceByKind := dput kind sequence (cr_sequenceByKind rec)\<rparr>)
       (reg_requests r)\<rparr>)"

definition recordResponse ::
    "collab_event \<Rightarrow> jstr \<Rightarrow> int \<Rightarrow> collab_registry \<Rightarrow> registry_outcome \<times> collab_registry" where
  "recordResponse e responder sequence r =
     (case precheckResponse (ce_requestId e) (ce_kind e) responder r of
        Refuse err \<Rightarrow> (Rejected err, r)
      | Already n \<Rightarrow> (Duplicate n, r)
      | Record_it \<Rightarrow> (Recorded sequence,
          commitResponse (ce_requestId e) (ce_kind e) sequence r))"

text \<open>The log entries of one request id, grouped in the order the ids first appear.\<close>

type_synonym log_entry = "collab_event \<times> int"

definition group_entry ::
    "collab_event option \<times> int \<Rightarrow> (jstr, log_entry list) dict \<Rightarrow> (jstr, log_entry list) dict" where
  "group_entry entry grouped = (case fst entry of
     None \<Rightarrow> grouped
   | Some e \<Rightarrow>
       (let l0 = (case dget grouped (ce_requestId e) of Some l \<Rightarrow> l | None \<Rightarrow> []) in
        dput (ce_requestId e) (l0 @ [(e, snd entry)]) grouped))"

definition replay_entry :: "jstr \<Rightarrow> log_entry \<Rightarrow> collab_registry \<Rightarrow> collab_registry" where
  "replay_entry requestId entry r = (case entry of (e, sequence) \<Rightarrow>
     if ce_kind e = Request then
       (case dget (reg_requests r) requestId of
          None \<Rightarrow> r
        | Some rec \<Rightarrow> (case dget (cr_sequenceByKind rec) Request of
            Some _ \<Rightarrow> r
          | None \<Rightarrow> commitResponse requestId Request sequence r))
     else snd (recordResponse e (ce_from e) sequence r))"

definition rebuild_one :: "jstr \<times> log_entry list \<Rightarrow> collab_registry \<Rightarrow> collab_registry" where
  "rebuild_one grp r = (case grp of (requestId, entries) \<Rightarrow>
     (case List.find (\<lambda>(e, _). ce_kind e = Request) entries of
        None \<Rightarrow> r
      | Some (e, _) \<Rightarrow> fold (replay_entry requestId) entries
          (r\<lparr>reg_requests := dput requestId
             \<lparr>cr_requestId = requestId, cr_from = ce_from e, cr_target = ce_target e,
              cr_sequenceByKind = []\<rparr> (reg_requests r)\<rparr>)))"

definition rebuild :: "(collab_event option \<times> int) list \<Rightarrow> collab_registry \<Rightarrow> collab_registry" where
  "rebuild entries r = fold rebuild_one (slice_last (reg_max r) (fold group_entry entries [])) r"

definition routingFor :: "jstr \<Rightarrow> jstr \<Rightarrow> collab_registry \<Rightarrow> (jstr \<times> jstr) option" where
  "routingFor requestId responder r = (case dget (reg_requests r) requestId of
     None \<Rightarrow> None
   | Some rec \<Rightarrow> if responder \<noteq> cr_target rec then None else Some (responder, cr_from rec))"

subsection \<open>The bound\<close>

lemma evictWhileFull_suffix: "suffix (evictWhileFull m es) es"
  by (induction m es rule: evictWhileFull.induct) (auto intro: suffix_ConsI)

lemma evictWhileFull_bound: "0 < m \<Longrightarrow> length (evictWhileFull m es) < m"
  by (induction m es rule: evictWhileFull.induct) auto

lemma evictWhileFull_room: "length es < m \<Longrightarrow> evictWhileFull m es = es"
  by (cases es) auto

lemma wf_evictWhileFull: "wf_dict es \<Longrightarrow> wf_dict (evictWhileFull m es)"
  using evictWhileFull_suffix [of m es]
  by (auto simp: wf_dict_def suffix_def) (metis distinct_append map_append)

lemma keys_evictWhileFull: "fst ` set (evictWhileFull m es) \<subseteq> fst ` set es"
  using set_mono_suffix [OF evictWhileFull_suffix] by (rule image_mono)

definition tracked :: "collab_registry \<Rightarrow> jstr list" where
  "tracked r = map fst (reg_requests r)"

definition track :: "collab_event \<times> int \<Rightarrow> collab_registry \<Rightarrow> collab_registry" where
  "track entry r = snd (recordRequest (fst entry) (snd entry) r)"

lemma track_requests: "reg_requests (track (e, n) r) =
   (if ce_requestId e \<in> fst ` set (reg_requests r) then reg_requests r
    else evictWhileFull (reg_max r) (reg_requests r) @ [(ce_requestId e, fresh_record e [(Request, n)])])"
proof (cases "ce_requestId e \<in> fst ` set (reg_requests r)")
  case False
  then have "ce_requestId e \<notin> fst ` set (evictWhileFull (reg_max r) (reg_requests r))"
    using keys_evictWhileFull by blast
  with False show ?thesis
    by (simp add: track_def recordRequest_def dput_fresh dget_eq_None [THEN iffD2])
next
  case True
  then obtain rec where "dget (reg_requests r) (ce_requestId e) = Some rec"
    by (metis dget_eq_None not_None_eq)
  with True show ?thesis by (simp add: track_def recordRequest_def)
qed

interpretation request_store: bounded_store tracked track "\<lambda>x. ce_requestId (fst x)" reg_max
proof unfold_locales
  fix x :: "collab_event \<times> int" and s
  obtain e n where x: "x = (e, n)" by (cases x)
  show "reg_max (track x s) = reg_max s"
    by (simp add: x track_def recordRequest_def split: option.splits)
  show "length (tracked (track x s)) \<le> reg_max s"
    if "0 < reg_max s" "length (tracked s) \<le> reg_max s"
    using that evictWhileFull_bound [of "reg_max s" "reg_requests s"]
    by (simp add: x tracked_def track_requests)
  have "suffix (map fst (evictWhileFull (reg_max s) (reg_requests s))) (tracked s)"
    unfolding tracked_def by (rule map_mono_suffix [OF evictWhileFull_suffix])
  then have "subseq (map fst (evictWhileFull (reg_max s) (reg_requests s))) (tracked s)"
    by (rule suffix_imp_subseq)
  then have "subseq (map fst (evictWhileFull (reg_max s) (reg_requests s)) @ [ce_requestId e])
      (tracked s @ [ce_requestId e])"
    by (rule list_emb_append_mono) simp
  moreover have "subseq (tracked s) (tracked s @ [ce_requestId e])"
    by (rule prefix_imp_subseq) simp
  ultimately show "subseq (tracked (track x s)) (tracked s @ [ce_requestId (fst x)])"
    by (simp add: x tracked_def track_requests)
qed

subsection \<open>Each step of a request is recorded once\<close>

lemma recordRequest_fresh:
  assumes "dget (reg_requests r) (ce_requestId e) = None"
  shows "recordRequest e n r = (Recorded n, track (e, n) r)"
    and "dget (reg_requests (track (e, n) r)) (ce_requestId e) = Some (fresh_record e [(Request, n)])"
  using assms by (simp_all add: track_def recordRequest_def)

lemma recordRequest_again:
  assumes "dget (reg_requests r) (ce_requestId e) = None"
    and "ce_requestId e' = ce_requestId e"
  shows "recordRequest e' n' (track (e, n) r) = (Duplicate n, track (e, n) r)"
  using recordRequest_fresh(2) [OF assms(1)] assms(2)
  by (simp add: recordRequest_def fresh_record_def)

lemma precheck_after_commit:
  assumes "precheckResponse i k p r = Record_it"
  shows "precheckResponse i k p (commitResponse i k n r) = Already n"
proof (cases "dget (reg_requests r) i")
  case None
  with assms show ?thesis by (simp add: precheckResponse_def)
next
  case (Some rec)
  with assms have "p = cr_target rec"
    by (simp add: precheckResponse_def split: if_split_asm)
  with Some show ?thesis by (simp add: precheckResponse_def commitResponse_def)
qed

lemma routing_iff_target: "routingFor i p r = Some (p, from) \<longleftrightarrow>
    (\<exists>rec. dget (reg_requests r) i = Some rec \<and> cr_target rec = p \<and> cr_from rec = from)"
  by (auto simp: routingFor_def split: option.splits)

subsection \<open>Rebuilding restores the live registry\<close>

text \<open>
  The registry as RoomSession drives it: an envelope is appended to the message log exactly
  when the registry records it. A response is checked against its sender.
\<close>

datatype reg_op = Op_request collab_event int | Op_response collab_event int

fun op_event :: "reg_op \<Rightarrow> collab_event" where
  "op_event (Op_request e n) = e"
| "op_event (Op_response e n) = e"

definition keep_if_recorded ::
    "log_entry \<Rightarrow> log_entry list \<Rightarrow> registry_outcome \<times> collab_registry \<Rightarrow>
     collab_registry \<times> log_entry list" where
  "keep_if_recorded entry l res = (case res of
     (Recorded _, r') \<Rightarrow> (r', l @ [entry]) | (_, r') \<Rightarrow> (r', l))"

fun reg_step :: "reg_op \<Rightarrow> collab_registry \<times> log_entry list \<Rightarrow>
    collab_registry \<times> log_entry list" where
  "reg_step (Op_request e n) (r, l) = keep_if_recorded (e, n) l (recordRequest e n r)"
| "reg_step (Op_response e n) (r, l) = keep_if_recorded (e, n) l (recordResponse e (ce_from e) n r)"

fun op_ok :: "reg_op \<Rightarrow> bool" where
  "op_ok (Op_request e n) \<longleftrightarrow> ce_kind e = Request"
| "op_ok (Op_response e n) \<longleftrightarrow> ce_kind e \<noteq> Request"

text \<open>One group of the log determines one record.\<close>

definition replay_record :: "log_entry \<Rightarrow> collab_record \<Rightarrow> collab_record" where
  "replay_record entry rec = (case entry of (e, n) \<Rightarrow>
     if (ce_kind e = Request \<or> ce_from e = cr_target rec)
        \<and> dget (cr_sequenceByKind rec) (ce_kind e) = None
     then rec\<lparr>cr_sequenceByKind := dput (ce_kind e) n (cr_sequenceByKind rec)\<rparr> else rec)"

definition group_record :: "log_entry list \<Rightarrow> collab_record" where
  "group_record es = fold replay_record es (fresh_record (fst (hd es)) [])"

definition groups :: "log_entry list \<Rightarrow> (jstr, log_entry list) dict" where
  "groups l = fold group_entry (map (\<lambda>(e, n). (Some e, n)) l) []"

definition group_ok :: "jstr \<times> log_entry list \<Rightarrow> bool" where
  "group_ok g \<longleftrightarrow> snd g \<noteq> [] \<and> ce_kind (fst (hd (snd g))) = Request \<and>
     (\<forall>x \<in> set (snd g). ce_requestId (fst x) = fst g)"

lemma groups_snoc: "groups (l @ [(e, n)]) =
   dput (ce_requestId e) ((case dget (groups l) (ce_requestId e) of Some es \<Rightarrow> es | None \<Rightarrow> []) @ [(e, n)])
     (groups l)"
  by (simp add: groups_def group_entry_def Let_def)

lemma map_dput: "map (\<lambda>(k, v). (k, f v)) (dput k v m) = dput k (f v) (map (\<lambda>(k, v). (k, f v)) m)"
  by (induction k v m rule: dput.induct) auto

lemma dget_map: "dget (map (\<lambda>(k, v). (k, f v)) m) k = map_option f (dget m k)"
  by (induction m) auto

lemma dput_last: "k \<notin> fst ` set m \<Longrightarrow> dput k v (m @ [(k, w)]) = m @ [(k, v)]"
  by (induction k v m rule: dput.induct) auto

lemma dget_last: "k \<notin> fst ` set m \<Longrightarrow> dget (m @ [(k, w)]) k = Some w"
  by (simp add: map_add_Some_iff dget_eq_None)

lemma replay_entry_last:
  assumes "reg_requests r = pre @ [(k, rec)]" and "k \<notin> fst ` set pre" and "ce_requestId (fst x) = k"
  shows "replay_entry k x r = r\<lparr>reg_requests := pre @ [(k, replay_record x rec)]\<rparr>"
proof -
  obtain e n where x: "x = (e, n)" by (cases x)
  note facts = assms(1) dget_last [OF assms(2)] dput_last [OF assms(2)]
  show ?thesis
  proof (cases "ce_kind e = Request")
    case True
    then show ?thesis
      by (simp add: x replay_entry_def replay_record_def commitResponse_def facts
          del: map_of_append split: option.splits)
  next
    case False
    with assms(3) show ?thesis
      by (simp add: x replay_entry_def replay_record_def commitResponse_def recordResponse_def
          precheckResponse_def facts del: map_of_append split: option.splits if_splits)
  qed
qed

lemma fold_replay_last:
  "reg_requests r = pre @ [(k, rec)] \<Longrightarrow> k \<notin> fst ` set pre \<Longrightarrow>
   \<forall>x \<in> set es. ce_requestId (fst x) = k \<Longrightarrow>
   fold (replay_entry k) es r = r\<lparr>reg_requests := pre @ [(k, fold replay_record es rec)]\<rparr>"
proof (induction es arbitrary: r rec)
  case Nil
  then show ?case by (cases r) simp
next
  case (Cons x es)
  then have "replay_entry k x r = r\<lparr>reg_requests := pre @ [(k, replay_record x rec)]\<rparr>"
    by (intro replay_entry_last) auto
  with Cons show ?case by simp
qed

lemma rebuild_one_append:
  assumes "group_ok (k, es)" and "k \<notin> fst ` set (reg_requests r)"
  shows "rebuild_one (k, es) r = r\<lparr>reg_requests := reg_requests r @ [(k, group_record es)]\<rparr>"
proof -
  from assms(1) obtain e0 n0 rest where es: "es = (e0, n0) # rest" "ce_kind e0 = Request"
    "ce_requestId e0 = k"
    by (cases es) (auto simp: group_ok_def)
  let ?r0 = "r\<lparr>reg_requests := reg_requests r @ [(k, fresh_record e0 [])]\<rparr>"
  have "rebuild_one (k, es) r = fold (replay_entry k) es ?r0"
    using es assms(2) by (simp add: rebuild_one_def dput_fresh fresh_record_def)
  also have "\<dots> = ?r0\<lparr>reg_requests := reg_requests r @ [(k, fold replay_record es (fresh_record e0 []))]\<rparr>"
    using assms by (intro fold_replay_last) (auto simp: group_ok_def)
  finally show ?thesis using es by (simp add: group_record_def)
qed

lemma fold_rebuild_append:
  "list_all group_ok g \<Longrightarrow> distinct (map fst (reg_requests r) @ map fst g) \<Longrightarrow>
   fold rebuild_one g r =
     r\<lparr>reg_requests := reg_requests r @ map (\<lambda>(k, es). (k, group_record es)) g\<rparr>"
proof (induction g arbitrary: r)
  case Nil
  then show ?case by (cases r) simp
next
  case (Cons x g)
  obtain k es where x: "x = (k, es)" by (cases x)
  with Cons.prems have "rebuild_one x r = r\<lparr>reg_requests := reg_requests r @ [(k, group_record es)]\<rparr>"
    by (auto intro: rebuild_one_append)
  with Cons x show ?case by simp
qed

text \<open>The invariant that ties the live registry to its log.\<close>

definition mirrors :: "nat \<Rightarrow> jstr set \<Rightarrow> collab_registry \<times> log_entry list \<Rightarrow> bool" where
  "mirrors m ids s \<longleftrightarrow> (case s of (r, l) \<Rightarrow>
     reg_max r = m \<and> wf_dict (groups l) \<and> list_all group_ok (groups l) \<and>
     reg_requests r = map (\<lambda>(k, es). (k, group_record es)) (groups l) \<and>
     fst ` set (groups l) \<subseteq> ids)"

lemma fst_map_snd: "map fst (map (\<lambda>(k, v). (k, f v)) m) = map fst m"
  by (induction m) auto

lemma mirrors_request:
  assumes s: "mirrors m ids (r, l)" and ids: "finite ids" "card ids \<le> m"
    and e: "ce_requestId e \<in> ids" "ce_kind e = Request"
  shows "mirrors m ids (reg_step (Op_request e n) (r, l))"
proof (cases "dget (groups l) (ce_requestId e)")
  case None
  then have fresh: "ce_requestId e \<notin> fst ` set (groups l)" by (simp add: dget_eq_None)
  with s e have "fst ` set (groups l) \<subset> ids" by (auto simp: mirrors_def)
  with ids have "card (fst ` set (groups l)) < m"
    by (meson order_less_le_trans psubset_card_mono)
  moreover have "length (groups l) = card (fst ` set (groups l))"
    using s by (auto simp: mirrors_def wf_dict_def dest: distinct_card)
  ultimately have room: "evictWhileFull m (reg_requests r) = reg_requests r"
    using s by (auto simp: mirrors_def intro: evictWhileFull_room)
  have req: "dget (reg_requests r) (ce_requestId e) = None"
    using s None by (simp add: mirrors_def dget_map)
  have rec: "group_record [(e, n)] = fresh_record e [(Request, n)]"
    using e by (simp add: group_record_def replay_record_def fresh_record_def)
  have "reg_step (Op_request e n) (r, l) =
      (r\<lparr>reg_requests := dput (ce_requestId e) (fresh_record e [(Request, n)]) (reg_requests r)\<rparr>,
       l @ [(e, n)])"
    using s req room by (simp add: mirrors_def recordRequest_def keep_if_recorded_def)
  then show ?thesis
    using s e None rec
    by (auto simp: mirrors_def groups_snoc map_dput keys_dput group_ok_def
        intro!: wf_dput list_all_dput)
next
  case (Some es)
  then have "dget (reg_requests r) (ce_requestId e) = Some (group_record es)"
    using s by (simp add: mirrors_def dget_map)
  then show ?thesis using s by (simp add: recordRequest_def keep_if_recorded_def)
qed

lemma mirrors_response:
  assumes s: "mirrors m ids (r, l)" and k: "ce_kind e \<noteq> Request"
  shows "mirrors m ids (reg_step (Op_response e n) (r, l))"
proof (cases "precheckResponse (ce_requestId e) (ce_kind e) (ce_from e) r")
  case Record_it
  then obtain rec where rec: "dget (reg_requests r) (ce_requestId e) = Some rec"
      "ce_from e = cr_target rec" "dget (cr_sequenceByKind rec) (ce_kind e) = None"
    by (auto simp: precheckResponse_def split: option.splits if_splits)
  with s obtain es where es: "dget (groups l) (ce_requestId e) = Some es" "rec = group_record es"
    by (auto simp: mirrors_def dget_map)
  with s have ok: "group_ok (ce_requestId e, es)"
    using dget_in_set by (fastforce simp: mirrors_def list_all_iff)
  then have "group_record (es @ [(e, n)]) =
      rec\<lparr>cr_sequenceByKind := dput (ce_kind e) n (cr_sequenceByKind rec)\<rparr>"
    using rec es by (simp add: group_record_def group_ok_def replay_record_def)
  moreover have "reg_step (Op_response e n) (r, l) =
      (r\<lparr>reg_requests := dput (ce_requestId e)
         (rec\<lparr>cr_sequenceByKind := dput (ce_kind e) n (cr_sequenceByKind rec)\<rparr>) (reg_requests r)\<rparr>,
       l @ [(e, n)])"
    using Record_it rec by (simp add: recordResponse_def keep_if_recorded_def commitResponse_def)
  moreover have "ce_requestId e \<in> ids"
    using s es dget_in_set by (fastforce simp: mirrors_def)
  ultimately show ?thesis
    using s es ok
    by (auto simp: mirrors_def groups_snoc map_dput keys_dput group_ok_def
        intro!: wf_dput list_all_dput)
qed (use s in \<open>simp_all add: recordResponse_def keep_if_recorded_def\<close>)

lemma mirrors_run:
  "mirrors m ids s \<Longrightarrow> finite ids \<Longrightarrow> card ids \<le> m \<Longrightarrow>
   \<forall>x \<in> set ops. op_ok x \<and> (case x of Op_request e n \<Rightarrow> ce_requestId e \<in> ids | _ \<Rightarrow> True) \<Longrightarrow>
   mirrors m ids (fold reg_step ops s)"
proof (induction ops arbitrary: s)
  case (Cons x ops)
  obtain r l where s: "s = (r, l)" by (cases s)
  have "mirrors m ids (reg_step x s)"
  proof (cases x)
    case (Op_request e n)
    with Cons.prems show ?thesis unfolding s Op_request by (intro mirrors_request) auto
  next
    case (Op_response e n)
    with Cons.prems show ?thesis unfolding s Op_response by (intro mirrors_response) auto
  qed
  with Cons show ?case by simp
qed simp

definition request_ids :: "reg_op list \<Rightarrow> jstr set" where
  "request_ids ops = (\<lambda>x. ce_requestId (op_event x)) ` set ops"

text \<open>
  A restart loses nothing. Whatever requests and responses the Room has processed, if
  they name no more request ids than the registry holds, rebuilding an empty registry from
  the log of the recorded envelopes gives back the live registry.
\<close>

theorem rebuild_restores_live:
  assumes run: "fold reg_step ops (new_registry m, []) = (r, l)"
    and ok: "\<forall>x \<in> set ops. op_ok x" and ids: "card (request_ids ops) \<le> m"
  shows "rebuild (map (\<lambda>(e, n). (Some e, n)) l) (new_registry m) = r"
proof -
  have "mirrors m (request_ids ops) (new_registry m, [])"
    by (simp add: mirrors_def new_registry_def groups_def)
  then have mir: "mirrors m (request_ids ops) (r, l)"
    unfolding run [symmetric] using ok ids
    by (intro mirrors_run) (auto simp: request_ids_def rev_image_eqI split: reg_op.split)
  then have "length (groups l) = card (fst ` set (groups l))"
    by (auto simp: mirrors_def wf_dict_def dest: distinct_card)
  also have "\<dots> \<le> card (request_ids ops)"
    using mir by (intro card_mono) (auto simp: mirrors_def request_ids_def)
  finally have "slice_last m (groups l) = groups l"
    using ids by (simp add: slice_last_def)
  then have "rebuild (map (\<lambda>(e, n). (Some e, n)) l) (new_registry m) =
      fold rebuild_one (groups l) (new_registry m)"
    by (simp add: rebuild_def new_registry_def groups_def)
  also have "\<dots> = r"
    using mir by (cases r) (auto simp: mirrors_def new_registry_def wf_dict_def fold_rebuild_append)
  finally show ?thesis .
qed

definition demo_request :: collab_event where
  "demo_request = \<lparr>ce_requestId = lit ''req-1'', ce_kind = Request, ce_from = lit ''h1'',
     ce_target = lit ''a1'', ce_summary = Some (lit ''fix it''), ce_details = None,
     ce_attachmentIds = None\<rparr>"

definition demo_accept :: collab_event where
  "demo_accept = demo_request\<lparr>ce_kind := Accepted, ce_from := lit ''a1'', ce_target := lit ''h1'',
     ce_summary := None\<rparr>"

definition demo_ops :: "reg_op list" where
  "demo_ops = [Op_request demo_request 7, Op_request demo_request 8, Op_response demo_accept 9]"

theorem rebuild_restores_live_witness:
  "fst (fold reg_step demo_ops (new_registry 2, [])) =
     rebuild (map (\<lambda>(e, n). (Some e, n)) [(demo_request, 7), (demo_accept, 9)]) (new_registry 2)"
proof -
  have run: "fold reg_step demo_ops (new_registry 2, []) =
      (fst (fold reg_step demo_ops (new_registry 2, [])), [(demo_request, 7), (demo_accept, 9)])"
    by (simp add: demo_ops_def demo_accept_def demo_request_def new_registry_def recordRequest_def
        recordResponse_def precheckResponse_def commitResponse_def keep_if_recorded_def fresh_record_def)
  have "rebuild (map (\<lambda>(e, n). (Some e, n)) [(demo_request, 7), (demo_accept, 9)]) (new_registry 2) =
      fst (fold reg_step demo_ops (new_registry 2, []))"
    by (rule rebuild_restores_live [OF run])
      (simp_all add: demo_ops_def demo_accept_def demo_request_def request_ids_def)
  then show ?thesis by (rule sym)
qed

text \<open>
  The registry never holds more than its bound, and what it tracks is, in order, a part
  of what was requested of it: eviction invents and reorders nothing.
\<close>

theorem registry_bounded:
  assumes "0 < m"
  shows "length (tracked (fold track xs (new_registry m))) \<le> m \<and>
    subseq (tracked (fold track xs (new_registry m))) (map (\<lambda>x. ce_requestId (fst x)) xs)"
  using request_store.run_bound [of "new_registry m" xs] request_store.run_subseq [of xs "new_registry m"]
    assms by (simp add: new_registry_def tracked_def)

theorem registry_bounded_witness:
  "length (tracked (fold track [(demo_request, 1), (demo_accept\<lparr>ce_requestId := lit ''req-2''\<rparr>, 2)]
     (new_registry 1))) \<le> 1"
  using registry_bounded [of 1 "[(demo_request, 1), (demo_accept\<lparr>ce_requestId := lit ''req-2''\<rparr>, 2)]"]
  by simp

text \<open>
  At most one execution. A lifecycle step that was recorded is answered, when its send is
  retried, with the sequence it was first given, and changes nothing; only the target of a
  tracked request gets that far, and the response is routed back to the requester.
\<close>

theorem recordResponse_once:
  assumes "recordResponse e p n r = (Recorded k, r')"
  shows "k = n \<and> recordResponse e p n' r' = (Duplicate n, r') \<and>
    (\<exists>rec. dget (reg_requests r) (ce_requestId e) = Some rec \<and> cr_target rec = p \<and>
      routingFor (ce_requestId e) p r = Some (p, cr_from rec))"
proof -
  from assms have pre: "precheckResponse (ce_requestId e) (ce_kind e) p r = Record_it"
    and k: "k = n" and r': "r' = commitResponse (ce_requestId e) (ce_kind e) n r"
    by (auto simp: recordResponse_def split: precheck.splits)
  from pre obtain rec where "dget (reg_requests r) (ce_requestId e) = Some rec" "cr_target rec = p"
    by (auto simp: precheckResponse_def split: option.splits if_split_asm)
  moreover have "recordResponse e p n' r' = (Duplicate n, r')"
    using precheck_after_commit [OF pre] by (simp add: r' recordResponse_def)
  ultimately show ?thesis using k by (auto simp: routing_iff_target)
qed

theorem recordResponse_once_witness:
  "recordResponse demo_accept (lit ''a1'') 12 (snd (recordResponse demo_accept (lit ''a1'') 9
     (track (demo_request, 7) (new_registry 2)))) =
   (Duplicate 9, snd (recordResponse demo_accept (lit ''a1'') 9 (track (demo_request, 7) (new_registry 2))))"
proof -
  have "recordResponse demo_accept (lit ''a1'') 9 (track (demo_request, 7) (new_registry 2)) =
      (Recorded 9, snd (recordResponse demo_accept (lit ''a1'') 9 (track (demo_request, 7) (new_registry 2))))"
    by (simp add: demo_accept_def demo_request_def new_registry_def track_def recordRequest_def
        recordResponse_def precheckResponse_def fresh_record_def)
  from recordResponse_once [OF this, of 12] show ?thesis by simp
qed

end
