(* ===== verification/Collab_Ingestion.thy ===== *)
theory Collab_Ingestion
  imports Collab_Registry Room_State
begin

text \<open>
  How the Room takes collaboration envelopes in (app/src/do/RoomSession.ts): the shared ingestion
  of work requests and of responses, and the three ways in: an Agent's control call and a Human's
  request, decision and result messages. The registry of requests lives beside the Room record, in
  memory; it is rebuilt once from the message log.

  \<open>generated\<close> is the request id the platform draws, \<open>i\<close> the id of the new message, \<open>fits\<close> the
  storage budget of the record. A record over budget raises, after the registry was updated.
\<close>

definition COLLAB_ACTION_TYPE :: jstr where "COLLAB_ACTION_TYPE = lit ''collab''"

text \<open>The registry a new object starts with, and whether it was rebuilt since.\<close>

definition MAX_REQUESTS :: nat where "MAX_REQUESTS = 128"

record collab_tracking =
  ct_registry :: collab_registry
  ct_rebuilt :: bool

definition new_tracking :: collab_tracking where
  "new_tracking = \<lparr>ct_registry = new_registry MAX_REQUESTS, ct_rebuilt = False\<rparr>"

definition resetCollabTracking :: "collab_tracking \<Rightarrow> collab_tracking" where
  "resetCollabTracking c = \<lparr>ct_registry = clear_registry (ct_registry c), ct_rebuilt = False\<rparr>"

definition collab_entries :: "room_message list \<Rightarrow> (collab_event option \<times> int) list" where
  "collab_entries ms = map (\<lambda>m. (rm_collab m, rm_sequence m))
     (filter (\<lambda>m. rm_actionType m = Some COLLAB_ACTION_TYPE \<and> rm_collab m \<noteq> None) ms)"

definition warmCollabRegistry :: "room \<Rightarrow> collab_tracking \<Rightarrow> collab_tracking" where
  "warmCollabRegistry r c = (if ct_rebuilt c then c
     else \<lparr>ct_registry = rebuild (collab_entries (r_messages r)) (ct_registry c), ct_rebuilt = True\<rparr>)"

subsection \<open>Ingestion\<close>

datatype ingest = Ing_recorded int collab_event | Ing_duplicate int collab_event | Ing_rejected string | Ing_unsaved

definition collab_context_of :: "room \<Rightarrow> jstr \<Rightarrow> collab_context" where
  "collab_context_of r i = \<lparr>cc_sender = i, cc_participants = r_participants r,
     cc_attachments = map (\<lambda>a. (at_id a, at_taskRequestId a)) (r_attachments r)\<rparr>"

definition collab_message :: "jstr \<Rightarrow> int \<Rightarrow> participant \<Rightarrow> collab_event \<Rightarrow> room_message" where
  "collab_message i now p e = \<lparr>rm_id = i, rm_peerId = p_id p, rm_name = p_name p, rm_kind = p_kind p, rm_type = Action_message,
     rm_text = None, rm_actionType = Some COLLAB_ACTION_TYPE, rm_actionPayload = None, rm_collab = Some e, rm_permission = None,
     rm_taskRequestId = None, rm_targets = (if ce_target e \<noteq> p_id p then Some [ce_target e] else None),
     rm_createdAt = now, rm_sequence = 0\<rparr>"

definition ingestCollabWorkRequest :: "(room \<Rightarrow> bool) \<Rightarrow> jstr \<Rightarrow> jstr \<Rightarrow> int \<Rightarrow> room \<Rightarrow> participant \<Rightarrow> collab_input \<Rightarrow> collab_tracking \<Rightarrow>
    ingest \<times> room \<times> collab_tracking" where
  "ingestCollabWorkRequest fits generated i now r p input c0 =
     (let c = warmCollabRegistry r c0 in
      (case validateCollabEvent input (collab_context_of r (p_id p)) generated of
         Inl e \<Rightarrow> (Ing_rejected e, r, c)
       | Inr e \<Rightarrow> (case recordRequest e (r_nextMessageSequence r + 1) (ct_registry c) of
           (Duplicate n, reg) \<Rightarrow> (Ing_duplicate n e, r, c\<lparr>ct_registry := reg\<rparr>)
         | (_, reg) \<Rightarrow>
             (let (r', m) = appendMessage fits (collab_message i now p e) r in
              (case saveRoom fits r' of
                 None \<Rightarrow> (Ing_unsaved, r, c\<lparr>ct_registry := reg\<rparr>)
               | Some r' \<Rightarrow> (Ing_recorded (rm_sequence m) e, r', c\<lparr>ct_registry := reg\<rparr>))))))"

definition registry_error_text :: "registry_error \<Rightarrow> string" where
  "registry_error_text e = (case e of Unknown_request \<Rightarrow> ''unknown_request'' | Not_request_target \<Rightarrow> ''not_request_target'')"

definition ingestCollabResponse :: "(room \<Rightarrow> bool) \<Rightarrow> jstr \<Rightarrow> jstr \<Rightarrow> int \<Rightarrow> room \<Rightarrow> participant \<Rightarrow> collab_input \<Rightarrow> collab_tracking \<Rightarrow>
    ingest \<times> room \<times> collab_tracking" where
  "ingestCollabResponse fits generated i now r p input c0 =
     (let c = warmCollabRegistry r c0; reg = ct_registry c in
      (case validateCollabEvent input (collab_context_of r (p_id p)) generated of
         Inl e \<Rightarrow> (Ing_rejected e, r, c)
       | Inr e \<Rightarrow> (case precheckResponse (ce_requestId e) (ce_kind e) (p_id p) reg of
           Refuse err \<Rightarrow> (Ing_rejected (registry_error_text err), r, c)
         | Already n \<Rightarrow> (Ing_duplicate n e, r, c)
         | Record_it \<Rightarrow> (case routingFor (ce_requestId e) (p_id p) reg of
             None \<Rightarrow> (Ing_rejected ''unknown_request'', r, c)
           | Some (from, to) \<Rightarrow>
               (let e = e\<lparr>ce_from := from, ce_target := to\<rparr>;
                    (r', m) = appendMessage fits (collab_message i now p e) r;
                    c = c\<lparr>ct_registry := commitResponse (ce_requestId e) (ce_kind e) (rm_sequence m) reg\<rparr> in
                (case saveRoom fits r' of
                   None \<Rightarrow> (Ing_unsaved, r, c)
                 | Some r' \<Rightarrow> (Ing_recorded (rm_sequence m) e, r', c)))))))"

subsection \<open>The ways in\<close>

text \<open>The answer to an Agent: an error with its status, or the request id, sequence and whether it is a repetition.\<close>

definition ingest_reply :: "(string \<Rightarrow> nat) \<Rightarrow> ingest \<Rightarrow> nat \<times> string + jstr \<times> int \<times> bool" where
  "ingest_reply status out = (case out of
     Ing_rejected e \<Rightarrow> Inl (status e, e)
   | Ing_unsaved \<Rightarrow> Inl (507, ''room_state_budget_exceeded'')
   | Ing_recorded n e \<Rightarrow> Inr (ce_requestId e, n, False)
   | Ing_duplicate n e \<Rightarrow> Inr (ce_requestId e, n, True))"

definition collab_input_of :: "js \<Rightarrow> collab_input" where
  "collab_input_of v = \<lparr>ci_kind = js_get v ''kind'', ci_requestId = js_get v ''requestId'',
     ci_targetParticipantId = js_get v ''targetParticipantId'', ci_summary = js_get v ''summary'',
     ci_details = js_get v ''details'', ci_attachmentIds = js_get v ''attachmentIds''\<rparr>"

text \<open>An Agent's call, after authentication. \<open>request.event ?? {}\<close> has no field either way.\<close>

definition agent_send_collab :: "(room \<Rightarrow> bool) \<Rightarrow> jstr \<Rightarrow> jstr \<Rightarrow> int \<Rightarrow> room \<Rightarrow> participant \<Rightarrow> js \<Rightarrow> collab_tracking \<Rightarrow>
    (nat \<times> string + jstr \<times> int \<times> bool) \<times> room \<times> collab_tracking" where
  "agent_send_collab fits generated i now r p event c =
     (if p_kind p \<noteq> Agent then (Inl (403, ''agent_only''), r, c)
      else (let p = p\<lparr>p_lastSeenAt := now\<rparr>; touched = r\<lparr>r_participants := dput (p_id p) p (r_participants r)\<rparr>;
                commit = (\<lambda>(out, r', c'). (out, (case out of Ing_recorded _ _ \<Rightarrow> r' | _ \<Rightarrow> r), c')) in
        if js_get event ''kind'' = JStr (lit ''request'')
        then (case commit (ingestCollabWorkRequest fits generated i now touched p (collab_input_of event) c) of
          (out, s) \<Rightarrow> (ingest_reply (\<lambda>_. 400) out, s))
        else (case commit (ingestCollabResponse fits generated i now touched p (collab_input_of event) c) of
          (out, s) \<Rightarrow> (ingest_reply (\<lambda>e. if e = ''unknown_request'' \<or> e = ''not_request_target'' then 403 else 400) out, s))))"

text \<open>The references to attachments a Human may put into an own request.\<close>

definition humanTaskContextReferenceIds :: "room \<Rightarrow> participant \<Rightarrow> js \<Rightarrow> string + jstr list option" where
  "humanTaskContextReferenceIds r p raw = (case raw of
     JUndefined \<Rightarrow> Inr None
   | JArr vs \<Rightarrow> if p_kind p \<noteq> Human then Inl ''invalid_attachment_refs''
       else (case all_strings vs of
         None \<Rightarrow> Inl ''invalid_attachment_refs''
       | Some ids \<Rightarrow> (let unique = dedupe ids in
           if MAX_COLLAB_ATTACHMENT_REFS < length unique then Inl ''too_many_attachment_refs''
           else if list_ex (\<lambda>i. case find (\<lambda>a. at_id a = i) (r_attachments r) of
               None \<Rightarrow> True | Some a \<Rightarrow> at_senderId a \<noteq> p_id p) unique then Inl ''unknown_attachment''
           else Inr (if unique = [] then None else Some unique)))
   | _ \<Rightarrow> Inl ''invalid_attachment_refs'')"

text \<open>What a Human's socket is told: an error code, nothing, or the exception the handler raised.\<close>

datatype human_reply = HR_error string | HR_done | HR_raises js_error | HR_unsaved

definition human_reply_of :: "ingest \<Rightarrow> human_reply" where
  "human_reply_of out = (case out of Ing_rejected e \<Rightarrow> HR_error e | Ing_unsaved \<Rightarrow> HR_unsaved | _ \<Rightarrow> HR_done)"

definition human_input :: "string \<Rightarrow> js \<Rightarrow> js \<Rightarrow> collab_input" where
  "human_input kind requestId summary = \<lparr>ci_kind = JStr (lit kind), ci_requestId = requestId,
     ci_targetParticipantId = JUndefined, ci_summary = summary, ci_details = JUndefined, ci_attachmentIds = JUndefined\<rparr>"

definition human_collab_request :: "(room \<Rightarrow> bool) \<Rightarrow> jstr \<Rightarrow> jstr \<Rightarrow> int \<Rightarrow> room \<Rightarrow> participant \<Rightarrow> js \<Rightarrow> collab_tracking \<Rightarrow>
    human_reply \<times> room \<times> collab_tracking" where
  "human_collab_request fits generated i now r p msg c =
     (let targetId = trimmed_or_empty (js_get msg ''targetParticipantId'');
          reject = (\<lambda>e. (HR_error e, r, c)) in
      if \<not> connected_in (r_participants r) targetId then reject ''target_not_in_room''
      else if \<not> agent_in (r_participants r) targetId then reject ''target_not_agent''
      else (case humanTaskContextReferenceIds r p (js_get msg ''attachmentIds'') of
        Inl e \<Rightarrow> reject e
      | Inr ids \<Rightarrow>
          (let raw = js_get msg ''requestId'' in
           if raw \<noteq> JUndefined \<and> \<not> (case raw of JStr s \<Rightarrow> isCanonicalCollabRequestId (JStr (js_trim s)) | _ \<Rightarrow> False)
           then reject ''invalid_request_id''
           else (case ingestCollabWorkRequest fits generated i now r p
               \<lparr>ci_kind = JStr (lit ''request''), ci_requestId = (case raw of JStr s \<Rightarrow> JStr (js_trim s) | _ \<Rightarrow> JUndefined),
                ci_targetParticipantId = JStr targetId, ci_summary = js_get msg ''summary'', ci_details = JUndefined,
                ci_attachmentIds = (case ids of None \<Rightarrow> JUndefined | Some xs \<Rightarrow> JArr (map JStr xs))\<rparr> c of
             (out, s) \<Rightarrow> (case out of Ing_duplicate _ _ \<Rightarrow> HR_error ''task_request_id_in_use'' | _ \<Rightarrow> human_reply_of out, s)))))"

definition human_collab_response :: "(room \<Rightarrow> bool) \<Rightarrow> jstr \<Rightarrow> jstr \<Rightarrow> int \<Rightarrow> room \<Rightarrow> participant \<Rightarrow> js \<Rightarrow> collab_tracking \<Rightarrow>
    human_reply \<times> room \<times> collab_tracking" where
  "human_collab_response fits generated i now r p msg c =
     (let decision = js_get msg ''decision'';
          run = (\<lambda>kind. case ingestCollabResponse fits generated i now r p
            (human_input kind (js_get msg ''requestId'') (js_get msg ''summary'')) c of (out, s) \<Rightarrow> (human_reply_of out, s)) in
      if p_kind p \<noteq> Human then (HR_error ''collab_responder_not_human'', r, c)
      else if decision = JStr (lit ''accepted'') then run ''accepted''
      else if decision = JStr (lit ''declined'') then run ''declined''
      else (HR_error ''invalid_collab_kind'', r, c))"

text \<open>\<open>message.summary?.trim() ?? ""\<close> raises on a value that is neither nullish nor a string.\<close>

definition human_collab_result :: "(room \<Rightarrow> bool) \<Rightarrow> jstr \<Rightarrow> jstr \<Rightarrow> int \<Rightarrow> room \<Rightarrow> participant \<Rightarrow> js \<Rightarrow> collab_tracking \<Rightarrow>
    human_reply \<times> room \<times> collab_tracking" where
  "human_collab_result fits generated i now r p msg c =
     (let status = js_get msg ''status'';
          reject = (\<lambda>e. (HR_error e, r, c));
          run = (\<lambda>kind s. case ingestCollabResponse fits generated i now r p
            (human_input kind (js_get msg ''requestId'') (JStr s)) c of (out, s) \<Rightarrow> (human_reply_of out, s)) in
      if p_kind p \<noteq> Human then reject ''collab_responder_not_human''
      else if status \<noteq> JStr (lit ''completed'') \<and> status \<noteq> JStr (lit ''failed'') then reject ''invalid_collab_kind''
      else (case (case js_get msg ''summary'' of JStr s \<Rightarrow> Some (js_trim s) | JUndefined \<Rightarrow> Some [] | JNull \<Rightarrow> Some [] | _ \<Rightarrow> None) of
        None \<Rightarrow> (HR_raises TypeError, r, c)
      | Some summary \<Rightarrow>
          if summary = [] then reject ''summary_required''
          else if MAX_COLLAB_SUMMARY_LENGTH < length summary then reject ''summary_too_long''
          else run (if status = JStr (lit ''completed'') then ''completed'' else ''failed'') summary))"

subsection \<open>What a recorded envelope leaves\<close>

lemma save_keeps:
  assumes "saveRoom fits (fst (appendMessage fits m r)) = Some r'"
  shows "r_messages r' \<noteq> []" and "last (r_messages r') = m\<lparr>rm_sequence := r_nextMessageSequence r + 1\<rparr>"
    and "r_participants r' = r_participants r" and "r_nextMessageSequence r' = r_nextMessageSequence r + 1"
proof -
  let ?a = "fst (appendMessage fits m r)"
  from assms have r': "r' = trimRoomMessagesToBudget fits ?a" by (simp add: saveRoom_def Let_def split: if_splits)
  show "r_participants r' = r_participants r" "r_nextMessageSequence r' = r_nextMessageSequence r + 1" by (simp_all add: r')
  show ne: "r_messages r' \<noteq> []" unfolding r' by (rule trim_nonempty) (simp add: append_last)
  have "suffix (r_messages r') (r_messages ?a)" unfolding r' by (rule trim_suffix)
  with ne have "last (r_messages r') = last (r_messages ?a)" by (metis last_appendR suffix_def)
  with append_last [of fits m r] show "last (r_messages r') = m\<lparr>rm_sequence := r_nextMessageSequence r + 1\<rparr>" by simp
qed

lemma warm_rebuilt [simp]: "ct_rebuilt (warmCollabRegistry r c)" "ct_rebuilt c \<Longrightarrow> warmCollabRegistry r c = c"
  by (simp_all add: warmCollabRegistry_def)

lemma recordRequest_outcome: "recordRequest e n reg = (out, reg') \<Longrightarrow> out = Recorded n \<or> (\<exists>k. out = Duplicate k)"
  by (auto simp: recordRequest_def split: option.splits)

lemma recordRequest_tracks: "recordRequest e n reg = (Recorded k, reg') \<Longrightarrow>
    dget (reg_requests reg) (ce_requestId e) = None \<and> dget (reg_requests reg') (ce_requestId e) \<noteq> None"
  by (auto simp: recordRequest_def split: option.splits)

lemma request_recorded:
  assumes "ingestCollabWorkRequest fits generated i now r p input c = (Ing_recorded n e, r', c')"
  shows "validateCollabEvent input (collab_context_of r (p_id p)) generated = Inr e"
    and "recordRequest e n (ct_registry (warmCollabRegistry r c)) = (Recorded n, ct_registry c')"
    and "n = r_nextMessageSequence r + 1" and "ct_rebuilt c'"
    and "saveRoom fits (fst (appendMessage fits (collab_message i now p e) r)) = Some r'"
proof -
  obtain e' where v: "validateCollabEvent input (collab_context_of r (p_id p)) generated = Inr e'"
    using assms by (cases "validateCollabEvent input (collab_context_of r (p_id p)) generated")
      (simp_all add: ingestCollabWorkRequest_def Let_def)
  obtain out reg where q: "recordRequest e' (r_nextMessageSequence r + 1) (ct_registry (warmCollabRegistry r c)) = (out, reg)"
    by fastforce
  have out: "out = Recorded (r_nextMessageSequence r + 1)"
    using recordRequest_outcome [OF q] assms v q by (auto simp: ingestCollabWorkRequest_def Let_def)
  obtain s where s: "saveRoom fits (fst (appendMessage fits (collab_message i now p e') r)) = Some s"
    using assms v q out
    by (cases "saveRoom fits (fst (appendMessage fits (collab_message i now p e') r))")
      (simp_all add: ingestCollabWorkRequest_def Let_def case_prod_beta)
  have "e = e'" "r' = s" "n = r_nextMessageSequence r + 1" "c' = (warmCollabRegistry r c)\<lparr>ct_registry := reg\<rparr>"
    using assms v q out s by (simp_all add: ingestCollabWorkRequest_def Let_def case_prod_beta)
  with v q out s show "validateCollabEvent input (collab_context_of r (p_id p)) generated = Inr e"
    and "recordRequest e n (ct_registry (warmCollabRegistry r c)) = (Recorded n, ct_registry c')"
    and "n = r_nextMessageSequence r + 1" and "ct_rebuilt c'"
    and "saveRoom fits (fst (appendMessage fits (collab_message i now p e) r)) = Some r'"
    by simp_all
qed

lemma response_recorded:
  assumes "ingestCollabResponse fits generated i now r p input c = (Ing_recorded n e, r', c')"
  obtains e0 rec where "validateCollabEvent input (collab_context_of r (p_id p)) generated = Inr e0"
    and "dget (reg_requests (ct_registry (warmCollabRegistry r c))) (ce_requestId e) = Some rec" and "cr_target rec = p_id p"
    and "e = e0\<lparr>ce_from := p_id p, ce_target := cr_from rec\<rparr>"
    and "precheckResponse (ce_requestId e) (ce_kind e) (p_id p) (ct_registry (warmCollabRegistry r c)) = Record_it"
    and "ct_registry c' = commitResponse (ce_requestId e) (ce_kind e) n (ct_registry (warmCollabRegistry r c))"
    and "n = r_nextMessageSequence r + 1" and "ct_rebuilt c'"
    and "saveRoom fits (fst (appendMessage fits (collab_message i now p e) r)) = Some r'"
proof -
  let ?c = "warmCollabRegistry r c"
  obtain e0 where v: "validateCollabEvent input (collab_context_of r (p_id p)) generated = Inr e0"
    using assms by (cases "validateCollabEvent input (collab_context_of r (p_id p)) generated")
      (simp_all add: ingestCollabResponse_def Let_def)
  have pre: "precheckResponse (ce_requestId e0) (ce_kind e0) (p_id p) (ct_registry ?c) = Record_it"
    using assms v by (cases "precheckResponse (ce_requestId e0) (ce_kind e0) (p_id p) (ct_registry ?c)")
      (simp_all add: ingestCollabResponse_def Let_def)
  then obtain rec where rec: "dget (reg_requests (ct_registry ?c)) (ce_requestId e0) = Some rec" "cr_target rec = p_id p"
    by (auto simp: precheckResponse_def split: option.splits if_splits)
  let ?e = "e0\<lparr>ce_from := p_id p, ce_target := cr_from rec\<rparr>"
  have route: "routingFor (ce_requestId e0) (p_id p) (ct_registry ?c) = Some (p_id p, cr_from rec)"
    using rec by (simp add: routingFor_def)
  obtain s where s: "saveRoom fits (fst (appendMessage fits (collab_message i now p ?e) r)) = Some s"
    using assms v pre route
    by (cases "saveRoom fits (fst (appendMessage fits (collab_message i now p ?e) r))")
      (simp_all add: ingestCollabResponse_def Let_def case_prod_beta)
  have "e = ?e" "r' = s" "n = r_nextMessageSequence r + 1"
    "c' = ?c\<lparr>ct_registry := commitResponse (ce_requestId e0) (ce_kind e0) (r_nextMessageSequence r + 1) (ct_registry ?c)\<rparr>"
    using assms v pre route s by (auto simp: ingestCollabResponse_def Let_def case_prod_beta)
  note new = this
  show thesis
    by (rule that [of e0 rec]) (use v rec pre s in \<open>simp_all add: new\<close>)
qed

lemma request_kind: "validateCollabEvent input context generated = Inr e \<Longrightarrow> ci_kind input = JStr (lit ''request'') \<Longrightarrow> ce_kind e = Request"
  by (auto simp: validateCollabEvent_def collab_kind_of_def COLLAB_KINDS_def collab_kind_name_def Let_def
      split: if_splits option.splits sum.splits)

subsection \<open>Operations between two ingestions\<close>

text \<open>
  What can happen to the Room between two ingestions, as far as collaboration is concerned. A save that
  fails leaves the stored Room as it was; \<open>op_saved\<close> says that the save of an ingestion did not fail.
\<close>

datatype collab_op = Do_request jstr jstr int participant collab_input
  | Do_response jstr jstr int participant collab_input
  | Do_message room_message | Do_roster participants "attachment list"

fun collab_step :: "(room \<Rightarrow> bool) \<Rightarrow> collab_op \<Rightarrow> room \<times> collab_tracking \<Rightarrow> room \<times> collab_tracking" where
  "collab_step fits (Do_request g i now p input) (r, c) = snd (ingestCollabWorkRequest fits g i now r p input c)"
| "collab_step fits (Do_response g i now p input) (r, c) = snd (ingestCollabResponse fits g i now r p input c)"
| "collab_step fits (Do_message m) (r, c) =
     (case saveRoom fits (fst (appendMessage fits (m\<lparr>rm_collab := None\<rparr>) r)) of Some r' \<Rightarrow> (r', c) | None \<Rightarrow> (r, c))"
| "collab_step fits (Do_roster ps atts) (r, c) = (r\<lparr>r_participants := ps, r_attachments := atts\<rparr>, c)"

fun op_saved :: "(room \<Rightarrow> bool) \<Rightarrow> collab_op \<Rightarrow> room \<times> collab_tracking \<Rightarrow> bool" where
  "op_saved fits (Do_request g i now p input) (r, c) \<longleftrightarrow> fst (ingestCollabWorkRequest fits g i now r p input c) \<noteq> Ing_unsaved"
| "op_saved fits (Do_response g i now p input) (r, c) \<longleftrightarrow> fst (ingestCollabResponse fits g i now r p input c) \<noteq> Ing_unsaved"
| "op_saved fits _ _ \<longleftrightarrow> True"

fun all_saved :: "(room \<Rightarrow> bool) \<Rightarrow> collab_op list \<Rightarrow> room \<times> collab_tracking \<Rightarrow> bool" where
  "all_saved fits [] s \<longleftrightarrow> True"
| "all_saved fits (x # ops) s \<longleftrightarrow> op_saved fits x s \<and> all_saved fits ops (collab_step fits x s)"

fun collab_op_ok :: "collab_op \<Rightarrow> bool" where
  "collab_op_ok (Do_request g i now p input) = (ci_kind input = JStr (lit ''request''))"
| "collab_op_ok (Do_response g i now p input) = (ci_kind input \<noteq> JStr (lit ''request''))"
| "collab_op_ok _ = True"

text \<open>The registry after an ingestion, whatever its outcome.\<close>

lemma request_registry:
  assumes "ingestCollabWorkRequest fits g i now r p input c = (out, r', c')"
  shows "ct_rebuilt c' \<and> (ct_registry c' = ct_registry (warmCollabRegistry r c) \<or>
    (\<exists>e n. dget (reg_requests (ct_registry (warmCollabRegistry r c))) (ce_requestId e) = None \<and>
       ct_registry c' = track (e, n) (ct_registry (warmCollabRegistry r c))))"
proof (cases "validateCollabEvent input (collab_context_of r (p_id p)) g")
  case (Inl x)
  then show ?thesis using assms by (auto simp: ingestCollabWorkRequest_def Let_def warmCollabRegistry_def)
next
  case (Inr e)
  let ?c = "warmCollabRegistry r c"
  obtain out' reg where q: "recordRequest e (r_nextMessageSequence r + 1) (ct_registry ?c) = (out', reg)" by fastforce
  have "c' = ?c\<lparr>ct_registry := reg\<rparr>"
    using assms Inr q by (cases out') (auto simp: ingestCollabWorkRequest_def Let_def case_prod_beta split: option.split_asm)
  moreover have "reg = ct_registry ?c \<or> dget (reg_requests (ct_registry ?c)) (ce_requestId e) = None \<and>
      reg = track (e, r_nextMessageSequence r + 1) (ct_registry ?c)"
    using q by (cases "dget (reg_requests (ct_registry ?c)) (ce_requestId e)") (auto simp: recordRequest_def track_def)
  ultimately have "ct_rebuilt c'" "ct_registry c' = reg"
    and "reg = ct_registry ?c \<or> (\<exists>n. dget (reg_requests (ct_registry ?c)) (ce_requestId e) = None \<and> reg = track (e, n) (ct_registry ?c))"
    by auto
  then show ?thesis by metis
qed

lemma commit_keys: "map fst (reg_requests (commitResponse i k n reg)) = map fst (reg_requests reg)"
  "reg_max (commitResponse i k n reg) = reg_max reg"
proof -
  have "map fst (dput i v m) = map fst m" if "dget m i \<noteq> None" for v :: collab_record and m
    using that by (induction m) auto
  then show "map fst (reg_requests (commitResponse i k n reg)) = map fst (reg_requests reg)"
    by (auto simp: commitResponse_def split: option.split)
qed (simp add: commitResponse_def split: option.split)

lemma response_registry:
  assumes "ingestCollabResponse fits g i now r p input c = (out, r', c')"
  shows "ct_rebuilt c' \<and> map fst (reg_requests (ct_registry c')) = map fst (reg_requests (ct_registry (warmCollabRegistry r c))) \<and>
    reg_max (ct_registry c') = reg_max (ct_registry (warmCollabRegistry r c))"
proof -
  have "c' = warmCollabRegistry r c \<or>
      (\<exists>j k n. c' = (warmCollabRegistry r c)\<lparr>ct_registry := commitResponse j k n (ct_registry (warmCollabRegistry r c))\<rparr>)"
    using assms by (auto simp: ingestCollabResponse_def Let_def case_prod_beta
        split: sum.split_asm precheck.split_asm option.split_asm)
  then show ?thesis by (auto simp: warmCollabRegistry_def commit_keys)
qed

text \<open>The id \<open>x\<close> is tracked, with at most \<open>k\<close> requests recorded after it: eviction takes the oldest first.\<close>

definition tracked_within :: "nat \<Rightarrow> jstr \<Rightarrow> collab_registry \<Rightarrow> bool" where
  "tracked_within k x reg \<longleftrightarrow> (\<exists>before after. map fst (reg_requests reg) = before @ x # after \<and> length after \<le> k)"

lemma tracked_found: "tracked_within k x reg \<Longrightarrow> dget (reg_requests reg) x \<noteq> None"
proof -
  assume "tracked_within k x reg"
  then have "x \<in> set (map fst (reg_requests reg))" by (auto simp: tracked_within_def simp del: set_map)
  then show ?thesis by (simp add: dget_eq_None)
qed

lemma tracked_later: "tracked_within k x reg \<Longrightarrow> map fst (reg_requests reg') = map fst (reg_requests reg) \<Longrightarrow> tracked_within (Suc k) x reg'"
  unfolding tracked_within_def by (metis le_SucI)

lemma evict_drop: "0 < m \<Longrightarrow> evictWhileFull m es = drop (Suc (length es) - m) es"
proof (induction es)
  case (Cons e es)
  show ?case
  proof (cases "m \<le> Suc (length es)")
    case True
    then have "Suc (length (e # es)) - m = Suc (Suc (length es) - m)" by simp
    with True Cons show ?thesis by simp
  qed simp
qed simp

lemma tracked_more:
  assumes "tracked_within k x reg" and "dget (reg_requests reg) (ce_requestId e) = None" and "Suc k < reg_max reg"
  shows "tracked_within (Suc k) x (track (e, n) reg)"
proof -
  obtain before after where keys: "map fst (reg_requests reg) = before @ x # after" and short: "length after \<le> k"
    using assms(1) by (auto simp: tracked_within_def)
  let ?n = "Suc (length (reg_requests reg)) - reg_max reg"
  have len: "length (reg_requests reg) = Suc (length before + length after)" using arg_cong [OF keys, of length] by simp
  have "map fst (reg_requests (track (e, n) reg)) = drop ?n (map fst (reg_requests reg)) @ [ce_requestId e]"
    using assms(2,3) by (simp add: track_requests dget_eq_None evict_drop drop_map)
  also have "\<dots> = drop ?n before @ x # (after @ [ce_requestId e])"
    using assms(3) short len by (simp add: keys)
  finally show ?thesis using short unfolding tracked_within_def by (metis length_append_singleton Suc_le_mono)
qed

lemma step_tracked:
  assumes "tracked_within k x (ct_registry c)" and "ct_rebuilt c" and "Suc k < reg_max (ct_registry c)"
    and "collab_step fits x1 (r, c) = (r', c')"
  shows "tracked_within (Suc k) x (ct_registry c') \<and> ct_rebuilt c' \<and> reg_max (ct_registry c') = reg_max (ct_registry c)"
proof -
  have warm: "warmCollabRegistry q c = c" for q using assms(2) by (simp add: warmCollabRegistry_def)
  have max: "reg_max (track (e, n) reg) = reg_max reg" for e n reg by (simp add: track_def recordRequest_def split: option.split)
  have same: ?thesis if "c' = c" using tracked_later [OF assms(1) refl] assms(2) that by simp
  show ?thesis
  proof (cases x1)
    case (Do_request g i now p input)
    obtain out where "ingestCollabWorkRequest fits g i now r p input c = (out, r', c')"
      using assms(4) by (metis Do_request collab_step.simps(1) prod.collapse)
    from request_registry [OF this, unfolded warm] show ?thesis
      using tracked_later [OF assms(1) refl] tracked_more [OF assms(1) _ assms(3)] by (auto simp: max)
  next
    case (Do_response g i now p input)
    obtain out where "ingestCollabResponse fits g i now r p input c = (out, r', c')"
      using assms(4) by (metis Do_response collab_step.simps(2) prod.collapse)
    from response_registry [OF this, unfolded warm] show ?thesis using tracked_later [OF assms(1)] by blast
  next
    case (Do_message m)
    then show ?thesis using assms(4) by (intro same) (auto split: option.split_asm)
  next
    case (Do_roster ps atts)
    then show ?thesis using assms(4) by (intro same) simp
  qed
qed

lemma run_tracked: "tracked_within k x (ct_registry c) \<Longrightarrow> ct_rebuilt c \<Longrightarrow> k + length ops < reg_max (ct_registry c) \<Longrightarrow>
    fold (collab_step fits) ops (r, c) = (r', c') \<Longrightarrow> dget (reg_requests (ct_registry c')) x \<noteq> None \<and> ct_rebuilt c'"
proof (induction ops arbitrary: k r c)
  case Nil
  then show ?case by (auto dest: tracked_found)
next
  case (Cons x1 ops)
  obtain r1 c1 where one: "collab_step fits x1 (r, c) = (r1, c1)" by fastforce
  have "tracked_within (Suc k) x (ct_registry c1) \<and> ct_rebuilt c1 \<and> reg_max (ct_registry c1) = reg_max (ct_registry c)"
    by (rule step_tracked [OF Cons.prems(1,2) _ one]) (use Cons.prems(3) in simp)
  with Cons.IH [of "Suc k" c1 r1] Cons.prems(3,4) one show ?case by simp
qed

lemma recorded_last: "recordRequest e n reg = (Recorded k, reg') \<Longrightarrow> tracked_within 0 (ce_requestId e) reg' \<and> reg_max reg' = reg_max reg"
proof -
  assume q: "recordRequest e n reg = (Recorded k, reg')"
  then have none: "dget (reg_requests reg) (ce_requestId e) = None" by (simp add: recordRequest_tracks)
  from recordRequest_fresh(1) [OF this, of n] q have reg': "reg' = track (e, n) reg" by simp
  have "map fst (reg_requests reg') = map fst (evictWhileFull (reg_max reg) (reg_requests reg)) @ ce_requestId e # []"
    using none by (simp add: reg' track_requests dget_eq_None)
  then have "tracked_within 0 (ce_requestId e) reg'" unfolding tracked_within_def by blast
  then show ?thesis using none by (simp add: reg' track_def recordRequest_def)
qed

text \<open>
  C21: a recorded work request is the Room's last message, well-formed, with the next sequence, and
  wakes its target only; and whatever happens next in the life of the Room's object, saves that fail
  included, its id is not recorded again before as many operations have passed as the registry has
  places. (Afterwards the registry may have evicted it; a new object knows only what is in the ring, and
  a Room that expires forgets everything.)
\<close>

theorem request_recorded_once:
  assumes "ingestCollabWorkRequest fits generated i now r p input c = (Ing_recorded n e, r', c')"
    and "ci_kind input = JStr (lit ''request'')"
  shows "envelope_ok (collab_context_of r (p_id p)) e \<and> n = r_nextMessageSequence r + 1 \<and>
    last (r_messages r') = (collab_message i now p e)\<lparr>rm_sequence := n\<rparr> \<and> rm_targets (last (r_messages r')) = Some [ce_target e] \<and>
    (fold (collab_step fits1) ops (r', c') = (r1, c1) \<and> length ops < reg_max (ct_registry c') \<and>
     ingestCollabWorkRequest fits2 generated2 i2 now2 r1 p2 input2 c1 = (Ing_recorded n2 e2, r3, c3) \<longrightarrow>
      ce_requestId e2 \<noteq> ce_requestId e)"
proof -
  note rec = request_recorded [OF assms(1)]
  have e: "envelope_ok (collab_context_of r (p_id p)) e" by (rule validateCollabEvent_sound [OF rec(1)])
  have "ce_kind e = Request" using rec(1) assms(2) by (rule request_kind)
  with e have "ce_target e \<noteq> p_id p" by (auto simp: envelope_ok_def collab_context_of_def)
  moreover have "ce_requestId e2 \<noteq> ce_requestId e"
    if run: "fold (collab_step fits1) ops (r', c') = (r1, c1)" "length ops < reg_max (ct_registry c')"
      and again: "ingestCollabWorkRequest fits2 generated2 i2 now2 r1 p2 input2 c1 = (Ing_recorded n2 e2, r3, c3)"
  proof -
    have "tracked_within 0 (ce_requestId e) (ct_registry c')" using recorded_last [OF rec(2)] by simp
    from run_tracked [OF this rec(4) _ run(1)] run(2)
    have "dget (reg_requests (ct_registry c1)) (ce_requestId e) \<noteq> None" "ct_rebuilt c1" by simp_all
    moreover have "dget (reg_requests (ct_registry (warmCollabRegistry r1 c1))) (ce_requestId e2) = None"
      using recordRequest_tracks [OF request_recorded(2) [OF again]] by simp
    ultimately show ?thesis by (auto simp: warmCollabRegistry_def)
  qed
  ultimately show ?thesis using e rec(3) save_keeps(2) [OF rec(5)] by (auto simp: collab_message_def)
qed

text \<open>
  C22: a response is recorded only for the target of a tracked request, in the target's own name, and
  goes to whoever made the request: the sender of a response cannot choose where it goes.
\<close>

theorem response_reaches_requester:
  assumes "ingestCollabResponse fits generated i now r p input c = (Ing_recorded n e, r', c')"
  shows "\<exists>rec. dget (reg_requests (ct_registry (warmCollabRegistry r c))) (ce_requestId e) = Some rec \<and>
    cr_target rec = p_id p \<and> ce_from e = p_id p \<and> ce_target e = cr_from rec \<and>
    rm_collab (last (r_messages r')) = Some e \<and> rm_peerId (last (r_messages r')) = p_id p \<and>
    rm_targets (last (r_messages r')) = (if cr_from rec = p_id p then None else Some [cr_from rec])"
proof -
  from assms obtain e0 rec where "dget (reg_requests (ct_registry (warmCollabRegistry r c))) (ce_requestId e) = Some rec"
    and "cr_target rec = p_id p" and "e = e0\<lparr>ce_from := p_id p, ce_target := cr_from rec\<rparr>"
    and saved: "saveRoom fits (fst (appendMessage fits (collab_message i now p e) r)) = Some r'"
    by (rule response_recorded)
  with save_keeps(2) [OF saved] show ?thesis by (intro exI [of _ rec]) (simp add: collab_message_def)
qed

lemma generated_unused: "trimmed_or_empty (ci_requestId input) \<noteq> [] \<Longrightarrow>
    validateCollabEvent input context generated = validateCollabEvent input context generated2"
  by (simp add: validateCollabEvent_def Let_def cong: if_cong option.case_cong sum.case_cong)

text \<open>
  A request that could not be stored is in the registry all the same: its retry is answered as a
  repetition of a message that was never made, and the request is lost as long as the object lives.
\<close>

theorem unsaved_request_lost:
  assumes "ingestCollabWorkRequest fits generated i now r p input c = (Ing_unsaved, r1, c1)"
    and "trimmed_or_empty (ci_requestId input) \<noteq> []"
  shows "r1 = r \<and> (\<exists>e. ingestCollabWorkRequest fits2 generated2 i2 now2 r p input c1 =
    (Ing_duplicate (r_nextMessageSequence r + 1) e, r, c1))"
proof -
  let ?c = "warmCollabRegistry r c"
  obtain e where e: "validateCollabEvent input (collab_context_of r (p_id p)) generated = Inr e"
    using assms(1) by (cases "validateCollabEvent input (collab_context_of r (p_id p)) generated")
      (simp_all add: ingestCollabWorkRequest_def Let_def)
  obtain out reg where q: "recordRequest e (r_nextMessageSequence r + 1) (ct_registry ?c) = (out, reg)" by fastforce
  have out: "out = Recorded (r_nextMessageSequence r + 1)"
    using recordRequest_outcome [OF q] assms(1) e q by (auto simp: ingestCollabWorkRequest_def Let_def)
  have s: "saveRoom fits (fst (appendMessage fits (collab_message i now p e) r)) = None"
    using assms(1) e q out
    by (cases "saveRoom fits (fst (appendMessage fits (collab_message i now p e) r))")
      (simp_all add: ingestCollabWorkRequest_def Let_def case_prod_beta)
  have c1: "r1 = r" "c1 = ?c\<lparr>ct_registry := reg\<rparr>"
    using assms(1) e q out s by (auto simp: ingestCollabWorkRequest_def Let_def case_prod_beta)
  have "validateCollabEvent input (collab_context_of r (p_id p)) generated2 = Inr e"
    using e generated_unused [OF assms(2), of _ generated generated2] by simp
  moreover have "recordRequest e (r_nextMessageSequence r + 1) (ct_registry c1) = (Duplicate (r_nextMessageSequence r + 1), ct_registry c1)"
    using q out by (auto simp: c1 recordRequest_def fresh_record_def split: option.splits)
  ultimately show ?thesis using c1 by (simp add: ingestCollabWorkRequest_def Let_def warmCollabRegistry_def)
qed

subsection \<open>A restart loses no request of the ring\<close>

definition collab_log :: "room \<Rightarrow> log_entry list" where
  "collab_log r = map (\<lambda>(e, n). (the e, n)) (collab_entries (r_messages r))"

lemma collab_entries_log: "collab_entries (r_messages r) = map (\<lambda>(e, n). (Some e, n)) (collab_log r)"
  by (auto simp: collab_log_def collab_entries_def)

text \<open>
  Every message takes the next sequence. As long as the ring drops none, the distance between the last
  sequence and the length of the ring stays the same; it never shrinks.
\<close>

definition ring_gap :: "room \<times> collab_tracking \<Rightarrow> int" where
  "ring_gap s = r_nextMessageSequence (fst s) - int (length (r_messages (fst s)))"

lemma saved_ring:
  assumes "saveRoom fits (fst (appendMessage fits m r)) = Some r'"
  shows "suffix (r_messages r') (r_messages r @ [m\<lparr>rm_sequence := r_nextMessageSequence r + 1\<rparr>])"
    and "length (r_messages r') \<le> MAX_MESSAGES"
proof -
  let ?a = "fst (appendMessage fits m r)"
  from assms have r': "r' = trimRoomMessagesToBudget fits ?a" by (simp add: saveRoom_def Let_def split: if_splits)
  have s: "suffix (r_messages r') (r_messages ?a)" unfolding r' by (rule trim_suffix)
  then show "suffix (r_messages r') (r_messages r @ [m\<lparr>rm_sequence := r_nextMessageSequence r + 1\<rparr>])"
    using append_suffix by (rule suffix_order.trans)
  have "suffix (r_messages ?a) (slice_last MAX_MESSAGES (r_messages r @ [m\<lparr>rm_sequence := r_nextMessageSequence r + 1\<rparr>]))"
    using trim_suffix [of fits "r\<lparr>r_nextMessageSequence := r_nextMessageSequence r + 1,
      r_messages := slice_last MAX_MESSAGES (r_messages r @ [m\<lparr>rm_sequence := r_nextMessageSequence r + 1\<rparr>])\<rparr>"]
    by (simp add: appendMessage_def Let_def)
  from suffix_length_le [OF this] suffix_length_le [OF s] show "length (r_messages r') \<le> MAX_MESSAGES"
    using length_slice_last [of MAX_MESSAGES "r_messages r @ [m\<lparr>rm_sequence := r_nextMessageSequence r + 1\<rparr>]"]
    by (simp add: MAX_MESSAGES_def)
qed

lemma saved_gap:
  assumes "saveRoom fits (fst (appendMessage fits m r)) = Some r'"
  shows "ring_gap (r, c) \<le> ring_gap (r', c')"
    and "ring_gap (r', c') = ring_gap (r, c) \<Longrightarrow> r_messages r' = r_messages r @ [m\<lparr>rm_sequence := r_nextMessageSequence r + 1\<rparr>]"
proof -
  note s = saved_ring(1) [OF assms]
  then show "ring_gap (r, c) \<le> ring_gap (r', c')" using suffix_length_le [OF s] save_keeps(4) [OF assms] by (simp add: ring_gap_def)
  assume "ring_gap (r', c') = ring_gap (r, c)"
  then have len: "length (r_messages r') = Suc (length (r_messages r))" using save_keeps(4) [OF assms] by (simp add: ring_gap_def)
  from s obtain zs where zs: "r_messages r @ [m\<lparr>rm_sequence := r_nextMessageSequence r + 1\<rparr>] = zs @ r_messages r'"
    by (auto simp: suffix_def)
  from arg_cong [OF zs, of length] len have "zs = []" by simp
  with zs show "r_messages r' = r_messages r @ [m\<lparr>rm_sequence := r_nextMessageSequence r + 1\<rparr>]" by simp
qed

text \<open>The registry is the one its log determines.\<close>

definition tracks_log :: "room \<times> collab_tracking \<Rightarrow> bool" where
  "tracks_log s \<longleftrightarrow> (case s of (r, c) \<Rightarrow> length (r_messages r) \<le> MAX_MESSAGES \<and>
     (if ct_rebuilt c then mirrors MAX_REQUESTS (fst ` set (groups (collab_log r))) (ct_registry c, collab_log r)
      else collab_log r = [] \<and> ct_registry c = new_registry MAX_REQUESTS))"

lemma mirrors_keys: "mirrors m ids (r, l) \<Longrightarrow> mirrors m (fst ` set (groups l)) (r, l)"
  by (simp add: mirrors_def)

lemma card_groups: "card (fst ` set (groups l)) \<le> length l"
proof (induction l rule: rev_induct)
  case (snoc x l)
  obtain e n where x: "x = (e, n)" by (cases x)
  have "fst ` set (groups (l @ [x])) = insert (ce_requestId e) (fst ` set (groups l))" by (simp add: x groups_snoc keys_dput)
  with snoc show ?case by (simp add: card_insert_if)
qed (simp add: groups_def)

lemma length_collab_log: "length (collab_log r) \<le> length (r_messages r)"
  by (simp add: collab_log_def collab_entries_def)

lemma warm_tracks:
  assumes "tracks_log (r, c)"
  shows "mirrors MAX_REQUESTS (fst ` set (groups (collab_log r))) (ct_registry (warmCollabRegistry r c), collab_log r)"
  using assms by (simp add: tracks_log_def warmCollabRegistry_def collab_entries_log rebuild_def new_registry_def
      mirrors_def groups_def slice_last_def split: if_splits)

lemma request_unrecorded:
  assumes "ingestCollabWorkRequest fits g i now r p input c = (out, r', c')" and "\<not> (\<exists>n e. out = Ing_recorded n e)"
  shows "r' = r" and "out \<noteq> Ing_unsaved \<Longrightarrow> c' = warmCollabRegistry r c"
proof -
  have "r' = r \<and> (out \<noteq> Ing_unsaved \<longrightarrow> c' = warmCollabRegistry r c)"
  proof (cases "validateCollabEvent input (collab_context_of r (p_id p)) g")
    case (Inr e)
    obtain q reg where q: "recordRequest e (r_nextMessageSequence r + 1) (ct_registry (warmCollabRegistry r c)) = (q, reg)" by fastforce
    moreover from this have "reg = ct_registry (warmCollabRegistry r c)" if "q = Duplicate k" for k
      using that by (auto simp: recordRequest_def split: option.splits)
    ultimately show ?thesis
      using assms Inr recordRequest_outcome [OF q] by (auto simp: ingestCollabWorkRequest_def Let_def case_prod_beta split: option.split_asm)
  qed (use assms in \<open>auto simp: ingestCollabWorkRequest_def Let_def\<close>)
  then show "r' = r" and "out \<noteq> Ing_unsaved \<Longrightarrow> c' = warmCollabRegistry r c" by blast+
qed

lemma response_unrecorded:
  assumes "ingestCollabResponse fits g i now r p input c = (out, r', c')" and "\<not> (\<exists>n e. out = Ing_recorded n e)"
  shows "r' = r" and "out \<noteq> Ing_unsaved \<Longrightarrow> c' = warmCollabRegistry r c"
proof -
  have "r' = r \<and> (out \<noteq> Ing_unsaved \<longrightarrow> c' = warmCollabRegistry r c)"
  proof (cases "validateCollabEvent input (collab_context_of r (p_id p)) g")
    case (Inr e)
    then show ?thesis using assms
      by (cases "precheckResponse (ce_requestId e) (ce_kind e) (p_id p) (ct_registry (warmCollabRegistry r c))")
        (auto simp: ingestCollabResponse_def Let_def case_prod_beta split: option.split_asm)
  qed (use assms in \<open>auto simp: ingestCollabResponse_def Let_def\<close>)
  then show "r' = r" and "out \<noteq> Ing_unsaved \<Longrightarrow> c' = warmCollabRegistry r c" by blast+
qed

lemma response_kind: "validateCollabEvent input context generated = Inr e \<Longrightarrow> ci_kind input \<noteq> JStr (lit ''request'') \<Longrightarrow>
    ce_kind e \<noteq> Request"
  by (auto simp: validateCollabEvent_def collab_kind_of_def COLLAB_KINDS_def collab_kind_name_def Let_def
      split: if_splits option.splits sum.splits js.splits)

lemma unchanged_tracks: "tracks_log (r, c) \<Longrightarrow> tracks_log (r, warmCollabRegistry r c)"
  using warm_tracks [of r c] by (simp add: tracks_log_def)

lemma recorded_tracks:
  assumes saved: "saveRoom fits (fst (appendMessage fits (collab_message i now p e) r)) = Some r'"
    and gap: "ring_gap (r', c') = ring_gap (r, c)" and "ct_rebuilt c'"
    and "mirrors MAX_REQUESTS ids (ct_registry c', collab_log r @ [(e, r_nextMessageSequence r + 1)])"
  shows "tracks_log (r', c')"
  using mirrors_keys [OF assms(4)] assms(3) saved_ring(2) [OF saved] saved_gap(2) [OF saved gap]
  by (simp add: tracks_log_def collab_log_def collab_entries_def collab_message_def)

lemma recorded_fits:
  assumes saved: "saveRoom fits (fst (appendMessage fits (collab_message i now p e) r)) = Some r'"
    and gap: "ring_gap (r', c') = ring_gap (r, c)"
  shows "card (insert x (fst ` set (groups (collab_log r)))) \<le> MAX_REQUESTS"
proof -
  have "Suc (length (r_messages r)) \<le> MAX_MESSAGES" using saved_ring(2) [OF saved] saved_gap(2) [OF saved gap] by simp
  moreover have "card (insert x (fst ` set (groups (collab_log r)))) \<le> Suc (card (fst ` set (groups (collab_log r))))"
    by (simp add: card_insert_if)
  ultimately show ?thesis
    using card_groups [of "collab_log r"] length_collab_log [of r] by (simp add: MAX_MESSAGES_def MAX_REQUESTS_def)
qed

lemma request_step_tracks:
  assumes "tracks_log (r, c)" and run: "ingestCollabWorkRequest fits g i now r p input c = (out, r', c')" and "out \<noteq> Ing_unsaved"
    and "ci_kind input = JStr (lit ''request'')" and gap: "ring_gap (r', c') = ring_gap (r, c)"
  shows "tracks_log (r', c')"
proof (cases "\<exists>n e. out = Ing_recorded n e")
  case False
  with request_unrecorded [OF run] unchanged_tracks [OF assms(1)] assms(3) show ?thesis by simp
next
  case True
  then obtain n e where out: "out = Ing_recorded n e" by blast
  note rec = request_recorded [OF run [unfolded out]]
  let ?keys = "insert (ce_requestId e) (fst ` set (groups (collab_log r)))"
  have "ce_kind e = Request" using rec(1) assms(4) by (rule request_kind)
  moreover have "mirrors MAX_REQUESTS ?keys (ct_registry (warmCollabRegistry r c), collab_log r)"
    using warm_tracks [OF assms(1)] by (auto simp: mirrors_def)
  ultimately have "mirrors MAX_REQUESTS ?keys (reg_step (Op_request e n) (ct_registry (warmCollabRegistry r c), collab_log r))"
    using recorded_fits [OF rec(5) gap] by (intro mirrors_request) auto
  then have "mirrors MAX_REQUESTS ?keys (ct_registry c', collab_log r @ [(e, r_nextMessageSequence r + 1)])"
    using rec(2,3) by (simp add: keep_if_recorded_def)
  with recorded_tracks [OF rec(5) gap rec(4)] show ?thesis by blast
qed

lemma response_step_tracks:
  assumes "tracks_log (r, c)" and run: "ingestCollabResponse fits g i now r p input c = (out, r', c')" and "out \<noteq> Ing_unsaved"
    and "ci_kind input \<noteq> JStr (lit ''request'')" and gap: "ring_gap (r', c') = ring_gap (r, c)"
  shows "tracks_log (r', c')"
proof (cases "\<exists>n e. out = Ing_recorded n e")
  case False
  with response_unrecorded [OF run] unchanged_tracks [OF assms(1)] assms(3) show ?thesis by simp
next
  case True
  then obtain n e where out: "out = Ing_recorded n e" by blast
  from run [unfolded out] obtain e0 rec where v: "validateCollabEvent input (collab_context_of r (p_id p)) g = Inr e0"
    and "dget (reg_requests (ct_registry (warmCollabRegistry r c))) (ce_requestId e) = Some rec" and "cr_target rec = p_id p"
    and e: "e = e0\<lparr>ce_from := p_id p, ce_target := cr_from rec\<rparr>"
    and pre: "precheckResponse (ce_requestId e) (ce_kind e) (p_id p) (ct_registry (warmCollabRegistry r c)) = Record_it"
    and c': "ct_registry c' = commitResponse (ce_requestId e) (ce_kind e) n (ct_registry (warmCollabRegistry r c))"
    and n: "n = r_nextMessageSequence r + 1" and b: "ct_rebuilt c'"
    and saved: "saveRoom fits (fst (appendMessage fits (collab_message i now p e) r)) = Some r'"
    by (rule response_recorded)
  have "ce_kind e \<noteq> Request" using response_kind [OF v] assms(4) by (simp add: e)
  from mirrors_response [OF warm_tracks [OF assms(1)] this, of n]
  have "mirrors MAX_REQUESTS (fst ` set (groups (collab_log r))) (ct_registry c', collab_log r @ [(e, r_nextMessageSequence r + 1)])"
    using pre by (simp add: keep_if_recorded_def recordResponse_def c' n e)
  with recorded_tracks [OF saved gap b] show ?thesis by blast
qed

lemma collab_step_tracks:
  assumes "tracks_log (r, c)" and "collab_op_ok x" and "op_saved fits x (r, c)"
    and "collab_step fits x (r, c) = (r', c')" and "ring_gap (r', c') = ring_gap (r, c)"
  shows "tracks_log (r', c')"
proof (cases x)
  case (Do_request g i now p input)
  obtain out where "ingestCollabWorkRequest fits g i now r p input c = (out, r', c')"
    using assms(4) by (metis Do_request collab_step.simps(1) prod.collapse)
  from request_step_tracks [OF assms(1) this] assms show ?thesis by (simp add: Do_request \<open>_ = (out, r', c')\<close>)
next
  case (Do_response g i now p input)
  obtain out where "ingestCollabResponse fits g i now r p input c = (out, r', c')"
    using assms(4) by (metis Do_response collab_step.simps(2) prod.collapse)
  from response_step_tracks [OF assms(1) this] assms show ?thesis by (simp add: Do_response \<open>_ = (out, r', c')\<close>)
next
  case (Do_message m)
  show ?thesis
  proof (cases "saveRoom fits (fst (appendMessage fits (m\<lparr>rm_collab := None\<rparr>) r))")
    case (Some s)
    with assms(4) Do_message have "s = r'" "c' = c" by auto
    with saved_gap(2) [OF Some, of c' c] saved_ring(2) [OF Some] assms(1,5) show ?thesis
      by (auto simp: tracks_log_def collab_log_def collab_entries_def)
  qed (use assms Do_message in simp)
next
  case (Do_roster ps atts)
  then show ?thesis using assms(1,4) by (auto simp: tracks_log_def collab_log_def)
qed

lemma collab_step_gap: "ring_gap s \<le> ring_gap (collab_step fits x s)"
proof -
  obtain r c where s: "s = (r, c)" by (cases s)
  show ?thesis
  proof (cases x)
    case (Do_request g i now p input)
    obtain out r' c' where run: "ingestCollabWorkRequest fits g i now r p input c = (out, r', c')" by (metis prod_cases3)
    have "ring_gap (r, c) \<le> ring_gap (r', c')"
    proof (cases "\<exists>n e. out = Ing_recorded n e")
      case True
      with run request_recorded(5) saved_gap(1) show ?thesis by metis
    qed (use request_unrecorded(1) [OF run] in \<open>simp add: ring_gap_def\<close>)
    then show ?thesis by (simp add: s Do_request run)
  next
    case (Do_response g i now p input)
    obtain out r' c' where run: "ingestCollabResponse fits g i now r p input c = (out, r', c')" by (metis prod_cases3)
    have "ring_gap (r, c) \<le> ring_gap (r', c')"
    proof (cases "\<exists>n e. out = Ing_recorded n e")
      case True
      with run show ?thesis by (auto elim: response_recorded intro: saved_gap(1))
    qed (use response_unrecorded(1) [OF run] in \<open>simp add: ring_gap_def\<close>)
    then show ?thesis by (simp add: s Do_response run)
  next
    case (Do_message m)
    then show ?thesis using saved_gap(1) by (simp add: s split: option.split)
  next
    case (Do_roster ps atts)
    then show ?thesis by (simp add: s ring_gap_def)
  qed
qed

lemma collab_run_gap: "ring_gap s \<le> ring_gap (fold (collab_step fits) ops s)"
proof (induction ops arbitrary: s)
  case (Cons x ops)
  from collab_step_gap [of s fits x] Cons [of "collab_step fits x s"] show ?case by simp
qed simp

lemma collab_run_tracks:
  "tracks_log s \<Longrightarrow> list_all collab_op_ok ops \<Longrightarrow> all_saved fits ops s \<Longrightarrow>
    ring_gap (fold (collab_step fits) ops s) = ring_gap s \<Longrightarrow> tracks_log (fold (collab_step fits) ops s)"
proof (induction ops arbitrary: s)
  case (Cons x ops)
  obtain r c r' c' where s: "s = (r, c)" and one: "collab_step fits x (r, c) = (r', c')" by (metis prod.exhaust)
  have gap: "ring_gap (r', c') = ring_gap (r, c)" "ring_gap (fold (collab_step fits) ops (r', c')) = ring_gap (r', c')"
    using collab_step_gap [of s fits x] collab_run_gap [of "(r', c')" fits ops] Cons.prems(4) by (simp_all add: s one)
  have "tracks_log (r', c')" by (rule collab_step_tracks [OF _ _ _ one gap(1)]) (use Cons.prems in \<open>simp_all add: s\<close>)
  from Cons.IH [OF this] Cons.prems gap(2) show ?case by (simp add: s one)
qed simp

text \<open>
  C23: a restart loses no collaboration. Whatever requests, responses, messages and changes of the
  roster the Room went through since it was made, as long as the save of every request and response
  succeeded and no message has left the ring, rebuilding the registry from the stored log gives the
  registry the Room had in memory. Both conditions are needed: \<open>unsaved_request_lost\<close> is a request that
  only the registry in memory knows, and a request whose message was evicted is not rebuilt.
\<close>

theorem restart_keeps_correlation:
  assumes "fold (collab_step fits) ops (r0, new_tracking) = (r, c)" and "r_messages r0 = []"
    and "all_saved fits ops (r0, new_tracking)"
    and "r_nextMessageSequence r - int (length (r_messages r)) = r_nextMessageSequence r0"
    and "list_all collab_op_ok ops" and "ct_rebuilt c"
  shows "warmCollabRegistry r new_tracking = c"
proof -
  have "tracks_log (r0, new_tracking)"
    using assms(2) by (simp add: tracks_log_def new_tracking_def collab_log_def collab_entries_def)
  from collab_run_tracks [OF this assms(5,3)] have "tracks_log (r, c)" using assms(1,2,4) by (simp add: ring_gap_def)
  then have m: "mirrors MAX_REQUESTS (fst ` set (groups (collab_log r))) (ct_registry c, collab_log r)"
    and "length (r_messages r) \<le> MAX_MESSAGES" using assms(6) by (auto simp: tracks_log_def)
  then have "length (groups (collab_log r)) \<le> MAX_REQUESTS"
    using card_groups [of "collab_log r"] length_collab_log [of r]
    by (auto simp: mirrors_def wf_dict_def MAX_MESSAGES_def MAX_REQUESTS_def dest: distinct_card)
  then have "rebuild (collab_entries (r_messages r)) (new_registry MAX_REQUESTS) =
      fold rebuild_one (groups (collab_log r)) (new_registry MAX_REQUESTS)"
    by (simp add: collab_entries_log rebuild_def new_registry_def groups_def slice_last_def)
  also have "\<dots> = ct_registry c"
    using m by (cases "ct_registry c") (auto simp: mirrors_def new_registry_def wf_dict_def fold_rebuild_append)
  finally show ?thesis using assms(6) by (cases c) (simp add: warmCollabRegistry_def new_tracking_def)
qed

subsection \<open>A request and its answer in the example Room\<close>

definition demo_work :: collab_input where
  "demo_work = demo_input\<lparr>ci_requestId := JStr (lit ''req-7''), ci_attachmentIds := JUndefined\<rparr>"

definition demo_event :: collab_event where
  "demo_event = \<lparr>ce_requestId = lit ''req-7'', ce_kind = Request, ce_from = lit ''ana'', ce_target = lit ''bot'',
     ce_summary = Some (lit ''draw it''), ce_details = Some [(lit ''size'', lit ''big'')], ce_attachmentIds = None\<rparr>"

definition demo_decision :: collab_input where
  "demo_decision = human_input ''completed'' (JStr (lit ''req-7'')) (JStr (lit ''done''))"

abbreviation "demo_ana \<equiv> demo_participant ''ana'' Human True"
abbreviation "demo_agent \<equiv> demo_participant ''bot'' Agent True"

definition demo_requested :: "room \<times> collab_tracking" where
  "demo_requested = snd (ingestCollabWorkRequest (\<lambda>_. True) [] (lit ''m9'') 50 demo_room demo_ana demo_work new_tracking)"

definition demo_answered :: "ingest \<times> room \<times> collab_tracking" where
  "demo_answered = ingestCollabResponse (\<lambda>_. True) [] (lit ''m10'') 60 (fst demo_requested) demo_agent demo_decision (snd demo_requested)"

lemma demo_ingested:
  "ingestCollabWorkRequest (\<lambda>_. True) [] (lit ''m9'') 50 demo_room demo_ana demo_work new_tracking =
     (Ing_recorded 3 demo_event, fst demo_requested, snd demo_requested)"
proof -
  have "fst (ingestCollabWorkRequest (\<lambda>_. True) [] (lit ''m9'') 50 demo_room demo_ana demo_work new_tracking) =
      Ing_recorded 3 demo_event" by code_simp
  then show ?thesis by (simp add: demo_requested_def prod_eq_iff)
qed

theorem request_recorded_once_witness:
  "last (r_messages (fst demo_requested)) = (collab_message (lit ''m9'') 50 demo_ana demo_event)\<lparr>rm_sequence := 3\<rparr>"
proof -
  have "ci_kind demo_work = JStr (lit ''request'')" by (simp add: demo_work_def demo_input_def)
  from request_recorded_once [OF demo_ingested this] show ?thesis by blast
qed

theorem response_reaches_requester_witness:
  "rm_targets (last (r_messages (fst (snd demo_answered)))) = Some [lit ''ana'']"
proof -
  have "case fst demo_answered of Ing_recorded n e \<Rightarrow> n = 4 \<and> ce_requestId e = lit ''req-7'' | _ \<Rightarrow> False" by code_simp
  then obtain e where out: "fst demo_answered = Ing_recorded 4 e" and e: "ce_requestId e = lit ''req-7''"
    by (auto split: ingest.splits)
  from out have run: "ingestCollabResponse (\<lambda>_. True) [] (lit ''m10'') 60 (fst demo_requested) demo_agent demo_decision (snd demo_requested) =
      (Ing_recorded 4 e, fst (snd demo_answered), snd (snd demo_answered))"
    by (simp add: demo_answered_def prod_eq_iff)
  have "map_option cr_from (dget (reg_requests (ct_registry (warmCollabRegistry (fst demo_requested) (snd demo_requested)))) (lit ''req-7'')) =
      Some (lit ''ana'')" by code_simp
  then show ?thesis using response_reaches_requester [OF run] e by auto
qed

theorem unsaved_request_lost_witness:
  "\<exists>e. ingestCollabWorkRequest (\<lambda>_. True) [] (lit ''m9'') 60 demo_room demo_ana demo_work
     (snd (snd (ingestCollabWorkRequest (\<lambda>_. False) [] (lit ''m9'') 50 demo_room demo_ana demo_work new_tracking))) =
   (Ing_duplicate 3 e, demo_room, snd (snd (ingestCollabWorkRequest (\<lambda>_. False) [] (lit ''m9'') 50 demo_room demo_ana demo_work new_tracking)))"
proof -
  let ?first = "ingestCollabWorkRequest (\<lambda>_. False) [] (lit ''m9'') 50 demo_room demo_ana demo_work new_tracking"
  have "fst ?first = Ing_unsaved" by code_simp
  then have run: "?first = (Ing_unsaved, fst (snd ?first), snd (snd ?first))" by (simp add: prod_eq_iff)
  have "trimmed_or_empty (ci_requestId demo_work) \<noteq> []" "r_nextMessageSequence demo_room = 2" by code_simp+
  with unsaved_request_lost [OF run] show ?thesis by simp
qed

definition demo_collab_ops :: "collab_op list" where
  "demo_collab_ops = [Do_message (demo_message 0 ''ana'' None []), Do_roster demo_participants [],
     Do_request [] (lit ''m9'') 50 demo_ana demo_work, Do_response [] (lit ''m10'') 60 demo_agent demo_decision]"

definition demo_collab_run :: "room \<times> collab_tracking" where
  "demo_collab_run = fold (collab_step (\<lambda>_. True)) demo_collab_ops (demo_room\<lparr>r_messages := []\<rparr>, new_tracking)"

theorem restart_keeps_correlation_witness:
  "warmCollabRegistry (fst demo_collab_run) new_tracking = snd demo_collab_run"
proof -
  have "fold (collab_step (\<lambda>_. True)) demo_collab_ops (demo_room\<lparr>r_messages := []\<rparr>, new_tracking) = (fst demo_collab_run, snd demo_collab_run)"
    by (simp add: demo_collab_run_def)
  moreover have "r_messages (demo_room\<lparr>r_messages := []\<rparr>) = []" by code_simp
  moreover have "all_saved (\<lambda>_. True) demo_collab_ops (demo_room\<lparr>r_messages := []\<rparr>, new_tracking)" by code_simp
  moreover have "r_nextMessageSequence (fst demo_collab_run) - int (length (r_messages (fst demo_collab_run))) =
      r_nextMessageSequence (demo_room\<lparr>r_messages := []\<rparr>)" by code_simp
  moreover have "list_all collab_op_ok demo_collab_ops" "ct_rebuilt (snd demo_collab_run)" by code_simp+
  ultimately show ?thesis by (intro restart_keeps_correlation)
qed

end
