(* ===== verification/Task_Relay.thy ===== *)
theory Task_Relay
  imports Room_Surfaces Collab_Ingestion Task_Execution
begin

text \<open>
  The private relay between a Human's browser and an Agent's Runtime that lists local sessions and
  starts a Task in one of them (handleTaskSessionList, handleTaskSessionStart,
  handleAgentSessionResult and their helpers in app/src/do/RoomSession.ts), and the discard of a
  staged brief, which releases what such a start holds.

  A request leaves one record on the socket of the Human and one on the resident socket of the
  Agent; an answer counts only against both. \<open>stores\<close> says which sockets take a new attachment and
  \<open>sends\<close> which take a frame. What is sent is the list of frames that went out. The activity
  metrics are left out.
\<close>

record pending_discovery =
  pd_requestId :: jstr
  pd_targetAgentId :: jstr
  pd_expiresAt :: int

record pending_start =
  ps_requestId :: jstr
  ps_taskRequestId :: jstr
  ps_targetAgentId :: jstr
  ps_summary :: jstr
  ps_attachmentIds :: "jstr list option"
  ps_expiresAt :: int

record human_socket =
  hs_id :: nat
  hs_participantId :: jstr
  hs_nonce :: jstr
  hs_open :: bool
  hs_discovery :: "pending_discovery option"
  hs_start :: "pending_start option"

record relay =
  rl_humans :: "human_socket list"
  rl_agents :: "agent_socket list"

record session_control =
  sc_requestId :: jstr
  sc_operation :: session_operation
  sc_browserRequestId :: jstr
  sc_humanParticipantId :: jstr
  sc_humanConnectionNonce :: jstr
  sc_projectToken :: "jstr option"
  sc_pageToken :: "jstr option"
  sc_sessionToken :: "jstr option"
  sc_taskRequestId :: "jstr option"
  sc_modeId :: "jstr option"
  sc_configOptions :: "js option"

text \<open>The cancel frame names the Human and the Task; its random request id is left out.\<close>

datatype agent_frame = Control_frame session_control | Cancel_frame jstr "jstr option"

datatype human_frame = List_result jstr "task_session_error + session_list"
  | Start_result jstr "task_session_error option"

datatype sent_frame = To_agent nat agent_frame | To_human nat human_frame

datatype frame_outcome = Frame_delivered | Frame_busy | Frame_unreachable

definition isValidTaskSessionRequestId :: "js \<Rightarrow> jstr option" where
  "isValidTaskSessionRequestId v = (case v of
     JStr s \<Rightarrow> if s \<noteq> [] \<and> length s \<le> MAX_TASK_INTERRUPT_REQUEST_ID_LENGTH \<and> js_trim s = s then Some s else None
   | _ \<Rightarrow> None)"

subsection \<open>The resident socket's one slot\<close>

definition put_slot :: "nat \<Rightarrow> pending_control option \<Rightarrow> agent_socket list \<Rightarrow> agent_socket list" where
  "put_slot n c agents = map (\<lambda>so. if as_id so = n
     then so\<lparr>as_attachment := (as_attachment so)\<lparr>aa_pendingControl := c\<rparr>\<rparr> else so) agents"

definition live_slot :: "int \<Rightarrow> agent_socket \<Rightarrow> bool" where
  "live_slot now so = (case aa_pendingControl (as_attachment so) of Some c \<Rightarrow> now < pn_expiresAt c | None \<Rightarrow> False)"

definition sendAgentSessionFrame :: "(nat \<Rightarrow> bool) \<Rightarrow> (nat \<Rightarrow> bool) \<Rightarrow> int \<Rightarrow> room \<Rightarrow> jstr \<Rightarrow> pending_control option \<Rightarrow> agent_frame \<Rightarrow>
    agent_socket list \<Rightarrow> frame_outcome \<times> agent_socket list \<times> sent_frame list" where
  "sendAgentSessionFrame stores sends now r i correlation frame agents =
     (if \<not> connected_agent (r_participants r) i then (Frame_unreachable, agents, [])
      else (case find (current_agent_socket r i) agents of
        None \<Rightarrow> (Frame_unreachable, agents, [])
      | Some so \<Rightarrow> (case correlation of
          None \<Rightarrow> if sends (as_id so) then (Frame_delivered, agents, [To_agent (as_id so) frame]) else (Frame_unreachable, agents, [])
        | Some c \<Rightarrow>
            if live_slot now so then (Frame_busy, agents, [])
            else if \<not> stores (as_id so) then (Frame_unreachable, agents, [])
            else if sends (as_id so) then (Frame_delivered, put_slot (as_id so) (Some c) agents, [To_agent (as_id so) frame])
            else (Frame_unreachable, put_slot (as_id so) None agents, []))))"

definition sendAgentSessionControl :: "(nat \<Rightarrow> bool) \<Rightarrow> (nat \<Rightarrow> bool) \<Rightarrow> int \<Rightarrow> room \<Rightarrow> jstr \<Rightarrow> session_control \<Rightarrow>
    agent_socket list \<Rightarrow> frame_outcome \<times> agent_socket list \<times> sent_frame list" where
  "sendAgentSessionControl stores sends now r i c agents =
     sendAgentSessionFrame stores sends now r i (Some \<lparr>pn_requestId = sc_requestId c, pn_operation = sc_operation c,
       pn_browserRequestId = sc_browserRequestId c, pn_humanParticipantId = sc_humanParticipantId c,
       pn_humanConnectionNonce = sc_humanConnectionNonce c, pn_taskRequestId = truthy_str (sc_taskRequestId c),
       pn_expiresAt = now + TASK_SESSION_PENDING_TTL_MS\<rparr>) (Control_frame c) agents"

definition sendAgentSessionCancel :: "(nat \<Rightarrow> bool) \<Rightarrow> (nat \<Rightarrow> bool) \<Rightarrow> int \<Rightarrow> room \<Rightarrow> jstr \<Rightarrow> jstr \<Rightarrow> jstr \<Rightarrow> agent_socket list \<Rightarrow> sent_frame list" where
  "sendAgentSessionCancel stores sends now r i human task agents =
     snd (snd (sendAgentSessionFrame stores sends now r i None (Cancel_frame human (truthy_str (Some task))) agents))"

subsection \<open>The Human's socket\<close>

definition humanSocketFor :: "human_socket list \<Rightarrow> jstr \<Rightarrow> jstr \<Rightarrow> human_socket option" where
  "humanSocketFor humans i nonce = find (\<lambda>h. hs_participantId h = i \<and> hs_nonce h = nonce \<and> hs_open h) humans"

definition tell_human :: "(nat \<Rightarrow> bool) \<Rightarrow> human_socket \<Rightarrow> human_frame \<Rightarrow> sent_frame list" where
  "tell_human sends h f = (if sends (hs_id h) then [To_human (hs_id h) f] else [])"

definition put_human :: "(nat \<Rightarrow> bool) \<Rightarrow> human_socket \<Rightarrow> human_socket list \<Rightarrow> human_socket list" where
  "put_human stores h humans = (if stores (hs_id h) then map (\<lambda>x. if hs_id x = hs_id h then h else x) humans else humans)"

definition pruneTaskSessionPending :: "int \<Rightarrow> human_socket \<Rightarrow> human_socket" where
  "pruneTaskSessionPending now h = h\<lparr>
     hs_discovery := (case hs_discovery h of Some d \<Rightarrow> if pd_expiresAt d \<le> now then None else Some d | None \<Rightarrow> None),
     hs_start := (case hs_start h of Some s \<Rightarrow> if ps_expiresAt s \<le> now then None else Some s | None \<Rightarrow> None)\<rparr>"

definition outstanding :: "int \<Rightarrow> human_socket \<Rightarrow> bool" where
  "outstanding now h = hasOutstandingTaskSessionRequest (map_option pd_expiresAt (hs_discovery h)) (map_option ps_expiresAt (hs_start h)) now"

definition optional_token_ok :: "js \<Rightarrow> bool" where
  "optional_token_ok v \<longleftrightarrow> v = JUndefined \<or> isValidTaskSessionToken v"

definition frame_error :: "frame_outcome \<Rightarrow> task_session_error" where
  "frame_error out = (if out = Frame_busy then TSE_task_session_busy else TSE_task_agent_not_reachable)"

text \<open>The record of the request, then the frame; a frame that is not delivered takes the record back.\<close>

definition relay_request :: "(nat \<Rightarrow> bool) \<Rightarrow> (nat \<Rightarrow> bool) \<Rightarrow> int \<Rightarrow> room \<Rightarrow> jstr \<Rightarrow> session_control \<Rightarrow> human_socket \<Rightarrow> human_socket \<Rightarrow>
    (task_session_error \<Rightarrow> sent_frame list) \<Rightarrow> relay \<Rightarrow> relay \<times> sent_frame list" where
  "relay_request stores sends now r i control waiting idle reject rl =
     (case sendAgentSessionControl stores sends now r i control (rl_agents rl) of
        (out, agents, sent) \<Rightarrow>
          if out = Frame_delivered then (\<lparr>rl_humans = put_human stores waiting (rl_humans rl), rl_agents = agents\<rparr>, sent)
          else (\<lparr>rl_humans = put_human stores idle (rl_humans rl), rl_agents = agents\<rparr>, sent @ reject (frame_error out)))"

subsection \<open>Listing sessions\<close>

definition handleTaskSessionList :: "(nat \<Rightarrow> bool) \<Rightarrow> (nat \<Rightarrow> bool) \<Rightarrow> int \<Rightarrow> jstr \<Rightarrow> room \<Rightarrow> participant \<Rightarrow> human_socket \<Rightarrow> js \<Rightarrow> relay \<Rightarrow>
    relay \<times> sent_frame list" where
  "handleTaskSessionList stores sends now uuid r p h msg rl = (case isValidTaskSessionRequestId (js_get msg ''requestId'') of
     None \<Rightarrow> (rl, [])
   | Some requestId \<Rightarrow>
       (let reject = (\<lambda>e. tell_human sends h (List_result requestId (Inl e)));
            targetId = trimmed_or_empty (js_get msg ''targetParticipantId'');
            project_token = js_get msg ''projectToken''; page_token = js_get msg ''pageToken'';
            pruned = pruneTaskSessionPending now h in
        if p_kind p \<noteq> Human then (rl, reject TSE_session_continuation_unsupported)
        else (case dget (r_participants r) targetId of
          None \<Rightarrow> (rl, reject TSE_session_continuation_unsupported)
        | Some agent \<Rightarrow>
            if \<not> agentSupportsTaskSessionContinuation agent then (rl, reject TSE_session_continuation_unsupported)
            else if \<not> optional_token_ok project_token \<or> \<not> optional_token_ok page_token then (rl, reject TSE_invalid_session_control)
            else if outstanding now pruned then (rl, reject TSE_task_session_busy)
            else if \<not> stores (hs_id h) then (rl, reject TSE_task_session_not_pending)
            else relay_request stores sends now r (p_id agent) \<lparr>sc_requestId = uuid, sc_operation = List_sessions,
                sc_browserRequestId = requestId, sc_humanParticipantId = p_id p, sc_humanConnectionNonce = hs_nonce h,
                sc_projectToken = js_str project_token, sc_pageToken = js_str page_token, sc_sessionToken = None,
                sc_taskRequestId = None, sc_modeId = None, sc_configOptions = None\<rparr>
              (pruned\<lparr>hs_discovery := Some \<lparr>pd_requestId = requestId, pd_targetAgentId = p_id agent,
                pd_expiresAt = now + TASK_SESSION_PENDING_TTL_MS\<rparr>\<rparr>)
              (pruned\<lparr>hs_discovery := None\<rparr>) reject rl)))"

subsection \<open>Starting a Task in a session\<close>

definition config_options_ok :: "js \<Rightarrow> bool" where
  "config_options_ok v = (case v of JUndefined \<Rightarrow> True
     | JObj xs \<Rightarrow> length xs \<le> 16 \<and> list_all (\<lambda>(k, x). isValidHarnessControlText (JStr k) \<and> isValidHarnessControlText x) xs
     | _ \<Rightarrow> False)"

definition staged_for :: "room \<Rightarrow> js \<Rightarrow> jstr list option \<Rightarrow> jstr \<Rightarrow> bool" where
  "staged_for r raw ids task = (case ids of None \<Rightarrow> True
     | Some xs \<Rightarrow> raw \<noteq> JUndefined \<and> list_all (\<lambda>i. Option.bind (find (\<lambda>a. at_id a = i) (r_attachments r)) at_taskRequestId = Some task) xs)"

definition one_token :: "js \<Rightarrow> js \<Rightarrow> bool" where
  "one_token session project_token \<longleftrightarrow> (session = JUndefined) \<noteq> (project_token = JUndefined) \<and>
     optional_token_ok session \<and> optional_token_ok project_token"

text \<open>What the message asks for, before the sockets are looked at; the summary is the trimmed one.\<close>

definition start_refusal :: "room \<Rightarrow> participant \<Rightarrow> js \<Rightarrow> jstr \<Rightarrow> collab_tracking \<Rightarrow> task_session_error option" where
  "start_refusal r p msg task c =
     (if dget (reg_requests (ct_registry c)) task \<noteq> None then Some TSE_task_request_id_in_use
      else (case humanTaskContextReferenceIds r p (js_get msg ''attachmentIds'') of
        Inl _ \<Rightarrow> Some TSE_invalid_session_control
      | Inr ids \<Rightarrow>
          if \<not> staged_for r (js_get msg ''taskRequestId'') ids task then Some TSE_invalid_session_control
          else if js_get msg ''modeId'' \<noteq> JUndefined \<and> \<not> isValidHarnessControlText (js_get msg ''modeId'') then Some TSE_invalid_session_control
          else if \<not> config_options_ok (js_get msg ''configOptions'') then Some TSE_invalid_session_control
          else (let summary = trimmed_or_empty (js_get msg ''summary'') in
            if summary = [] \<or> MAX_COLLAB_SUMMARY_LENGTH < length summary then Some TSE_invalid_session_control else None)))"

definition start_task_id :: "jstr \<Rightarrow> js \<Rightarrow> js" where
  "start_task_id uuid msg = (case js_get msg ''taskRequestId'' of JUndefined \<Rightarrow> JStr uuid | JNull \<Rightarrow> JStr uuid | v \<Rightarrow> v)"

definition config_options_of :: "js \<Rightarrow> js option" where
  "config_options_of v = (case v of JUndefined \<Rightarrow> None | _ \<Rightarrow> Some v)"

definition staged_ids :: "room \<Rightarrow> participant \<Rightarrow> js \<Rightarrow> jstr list option" where
  "staged_ids r p msg = (case humanTaskContextReferenceIds r p (js_get msg ''attachmentIds'') of Inr ids \<Rightarrow> ids | Inl _ \<Rightarrow> None)"

definition handleTaskSessionStart :: "(nat \<Rightarrow> bool) \<Rightarrow> (nat \<Rightarrow> bool) \<Rightarrow> int \<Rightarrow> jstr \<Rightarrow> jstr \<Rightarrow> room \<Rightarrow> participant \<Rightarrow> human_socket \<Rightarrow> js \<Rightarrow>
    collab_tracking \<Rightarrow> relay \<Rightarrow> collab_tracking \<times> relay \<times> sent_frame list" where
  "handleTaskSessionStart stores sends now uuid taskUuid r p h msg c0 rl = (case isValidTaskSessionRequestId (js_get msg ''requestId'') of
     None \<Rightarrow> (c0, rl, [])
   | Some requestId \<Rightarrow>
       (let reject = (\<lambda>e. tell_human sends h (Start_result requestId (Some e)));
            targetId = trimmed_or_empty (js_get msg ''targetParticipantId'');
            session = js_get msg ''sessionToken''; project_token = js_get msg ''projectToken'';
            pruned = pruneTaskSessionPending now h in
        if p_kind p \<noteq> Human then (c0, rl, reject TSE_session_continuation_unsupported)
        else (case dget (r_participants r) targetId of
          None \<Rightarrow> (c0, rl, reject TSE_session_continuation_unsupported)
        | Some agent \<Rightarrow>
            if \<not> agentSupportsTaskSessionContinuation agent then (c0, rl, reject TSE_session_continuation_unsupported)
            else if \<not> one_token session project_token then (c0, rl, reject TSE_invalid_session_control)
            else (case start_task_id taskUuid msg of
              JStr task \<Rightarrow>
                if \<not> isCanonicalCollabRequestId (JStr task) then (c0, rl, reject TSE_invalid_session_control)
                else (let c = warmCollabRegistry r c0 in (case start_refusal r p msg task c of
                  Some e \<Rightarrow> (c, rl, reject e)
                | None \<Rightarrow>
                    if outstanding now pruned then (c, rl, reject TSE_task_session_busy)
                    else if \<not> stores (hs_id h) then (c, rl, reject TSE_task_session_not_pending)
                    else (c, relay_request stores sends now r (p_id agent) \<lparr>sc_requestId = uuid, sc_operation = Prepare_session,
                        sc_browserRequestId = requestId, sc_humanParticipantId = p_id p, sc_humanConnectionNonce = hs_nonce h,
                        sc_projectToken = js_str project_token, sc_pageToken = None, sc_sessionToken = js_str session,
                        sc_taskRequestId = Some task, sc_modeId = js_str (js_get msg ''modeId''),
                        sc_configOptions = config_options_of (js_get msg ''configOptions'')\<rparr>
                      (pruned\<lparr>hs_start := Some \<lparr>ps_requestId = requestId, ps_taskRequestId = task, ps_targetAgentId = p_id agent,
                        ps_summary = trimmed_or_empty (js_get msg ''summary''), ps_attachmentIds = staged_ids r p msg,
                        ps_expiresAt = now + TASK_SESSION_PENDING_TTL_MS\<rparr>\<rparr>)
                      (pruned\<lparr>hs_start := None\<rparr>) reject rl)))
            | _ \<Rightarrow> (c0, rl, reject TSE_invalid_session_control)))))"

subsection \<open>The Runtime's answer\<close>

definition session_operation_of :: "js \<Rightarrow> session_operation option" where
  "session_operation_of v = (if v = JStr (lit ''list'') then Some List_sessions
     else if v = JStr (lit ''prepare'') then Some Prepare_session else None)"

text \<open>The answer counts only for the request its socket still holds; a cancel never is one.\<close>

definition answered_control :: "js \<Rightarrow> agent_socket \<Rightarrow> pending_control option" where
  "answered_control msg so =
     (if \<not> is_record msg \<or> js_get msg ''type'' \<noteq> JStr (lit ''task-session-result'') then None
      else (case (session_operation_of (js_get msg ''operation''), isValidTaskSessionRequestId (js_get msg ''requestId''),
          aa_pendingControl (as_attachment so)) of
        (Some operation, Some requestId, Some c) \<Rightarrow>
          if pn_requestId c = requestId \<and> pn_operation c = operation then Some c else None
      | _ \<Rightarrow> None))"

definition task_of :: "pending_control \<Rightarrow> jstr" where
  "task_of c = (case pn_taskRequestId c of Some t \<Rightarrow> t | None \<Rightarrow> [])"

definition start_matches :: "int \<Rightarrow> pending_control \<Rightarrow> participant \<Rightarrow> human_socket \<Rightarrow> pending_start option" where
  "start_matches now c agent h = (case hs_start h of
     Some s \<Rightarrow> if ps_requestId s = pn_browserRequestId c \<and> ps_targetAgentId s = p_id agent \<and> now < ps_expiresAt s then Some s else None
   | None \<Rightarrow> None)"

definition discovery_matches :: "int \<Rightarrow> pending_control \<Rightarrow> participant \<Rightarrow> human_socket \<Rightarrow> bool" where
  "discovery_matches now c agent h = (case hs_discovery h of
     Some d \<Rightarrow> pd_requestId d = pn_browserRequestId c \<and> pd_targetAgentId d = p_id agent \<and> now < pd_expiresAt d | None \<Rightarrow> False)"

definition start_input :: "pending_start \<Rightarrow> collab_input" where
  "start_input s = \<lparr>ci_kind = JStr (lit ''request''), ci_requestId = JStr (ps_taskRequestId s),
     ci_targetParticipantId = JStr (ps_targetAgentId s), ci_summary = JStr (ps_summary s), ci_details = JUndefined,
     ci_attachmentIds = (case ps_attachmentIds s of Some ids \<Rightarrow> JArr (map JStr ids) | None \<Rightarrow> JUndefined)\<rparr>"

definition start_error :: "js \<Rightarrow> task_session_error" where
  "start_error v = (case task_session_error_of v of Some e \<Rightarrow> e | None \<Rightarrow> TSE_session_continuation_unavailable)"

text \<open>The Task is created only now, under the id the Runtime has prepared.\<close>

definition create_prepared :: "(room \<Rightarrow> bool) \<Rightarrow> (nat \<Rightarrow> bool) \<Rightarrow> jstr \<Rightarrow> int \<Rightarrow> room \<Rightarrow> participant \<Rightarrow> pending_control \<Rightarrow> pending_start \<Rightarrow>
    human_socket \<Rightarrow> (jstr \<Rightarrow> sent_frame list) \<Rightarrow> collab_tracking \<Rightarrow> room \<times> collab_tracking \<times> sent_frame list" where
  "create_prepared fits sends uuid now r agent c s h cancel tracking =
     (let answer = (\<lambda>e. tell_human sends h (Start_result (pn_browserRequestId c) e)) in
      case dget (r_participants r) (pn_humanParticipantId c) of
        None \<Rightarrow> (r, tracking, cancel (ps_taskRequestId s) @ answer (Some TSE_task_session_not_pending))
      | Some sender \<Rightarrow>
          if p_kind sender \<noteq> Human then (r, tracking, cancel (ps_taskRequestId s) @ answer (Some TSE_task_session_not_pending))
          else (case ingestCollabWorkRequest fits uuid uuid now r sender (start_input s) tracking of
            (Ing_recorded _ _, r', tracking) \<Rightarrow> (r', tracking, answer None)
          | (_, r', tracking) \<Rightarrow> (r', tracking, cancel (ps_taskRequestId s) @ answer (Some TSE_session_continuation_unavailable))))"

definition answer_request :: "(room \<Rightarrow> bool) \<Rightarrow> (nat \<Rightarrow> bool) \<Rightarrow> (nat \<Rightarrow> bool) \<Rightarrow> jstr \<Rightarrow> int \<Rightarrow> room \<Rightarrow> participant \<Rightarrow> js \<Rightarrow> pending_control \<Rightarrow>
    (jstr \<Rightarrow> sent_frame list) \<Rightarrow> collab_tracking \<Rightarrow> relay \<Rightarrow> room \<times> collab_tracking \<times> relay \<times> sent_frame list" where
  "answer_request fits stores sends uuid now r agent msg c cancel tracking rl =
     (case humanSocketFor (rl_humans rl) (pn_humanParticipantId c) (pn_humanConnectionNonce c) of
        None \<Rightarrow> (r, tracking, rl, if pn_operation c = Prepare_session then cancel (task_of c) else [])
      | Some h \<Rightarrow> (case pn_operation c of
          List_sessions \<Rightarrow>
            if \<not> discovery_matches now c agent h then (r, tracking, rl, [])
            else (r, tracking, rl\<lparr>rl_humans := put_human stores (h\<lparr>hs_discovery := None\<rparr>) (rl_humans rl)\<rparr>,
              tell_human sends h (List_result (pn_browserRequestId c) (validateTaskSessionListResult msg)))
        | Prepare_session \<Rightarrow> (case start_matches now c agent h of
            None \<Rightarrow> (r, tracking, rl, cancel (task_of c))
          | Some s \<Rightarrow>
              (let rl = rl\<lparr>rl_humans := put_human stores (h\<lparr>hs_start := None\<rparr>) (rl_humans rl)\<rparr> in
               if js_get msg ''ok'' \<noteq> JBool True
               then (r, tracking, rl, tell_human sends h (Start_result (pn_browserRequestId c) (Some (start_error (js_get msg ''error'')))))
               else (case create_prepared fits sends uuid now r agent c s h cancel tracking of
                 (r', tracking, sent) \<Rightarrow> (r', tracking, rl, sent))))))"

text \<open>The slots after an answer, and the cancel it may send.\<close>

definition released :: "(nat \<Rightarrow> bool) \<Rightarrow> agent_socket \<Rightarrow> relay \<Rightarrow> relay" where
  "released stores so rl = rl\<lparr>rl_agents := (if stores (as_id so) then put_slot (as_id so) None (rl_agents rl) else rl_agents rl)\<rparr>"

definition cancel_frames :: "(nat \<Rightarrow> bool) \<Rightarrow> (nat \<Rightarrow> bool) \<Rightarrow> int \<Rightarrow> room \<Rightarrow> participant \<Rightarrow> pending_control \<Rightarrow> relay \<Rightarrow> jstr \<Rightarrow> sent_frame list" where
  "cancel_frames stores sends now r agent c rl task =
     sendAgentSessionCancel stores sends now r (p_id agent) (pn_humanParticipantId c) task (rl_agents rl)"

text \<open>The slot of the answered request is released first, when its socket still takes an attachment.\<close>

definition handleAgentSessionResult :: "(room \<Rightarrow> bool) \<Rightarrow> (nat \<Rightarrow> bool) \<Rightarrow> (nat \<Rightarrow> bool) \<Rightarrow> jstr \<Rightarrow> int \<Rightarrow> room \<Rightarrow> agent_socket \<Rightarrow> js \<Rightarrow>
    collab_tracking \<Rightarrow> relay \<Rightarrow> room \<times> collab_tracking \<times> relay \<times> sent_frame list" where
  "handleAgentSessionResult fits stores sends uuid now r so msg tracking rl =
     (let i = aa_participantId (as_attachment so) in
      case dget (r_participants r) i of
        None \<Rightarrow> (r, tracking, rl, [])
      | Some agent \<Rightarrow>
          if p_kind agent \<noteq> Agent \<or> \<not> current_agent_socket r i so then (r, tracking, rl, [])
          else (case answered_control msg so of
            None \<Rightarrow> (r, tracking, rl, [])
          | Some c \<Rightarrow>
              (let rl' = released stores so rl; cancel = cancel_frames stores sends now r agent c rl' in
               if pn_expiresAt c \<le> now
               then (r, tracking, rl', if pn_operation c = Prepare_session then cancel (task_of c) else [])
               else answer_request fits stores sends uuid now r agent msg c cancel tracking rl')))"

subsection \<open>Discarding a staged brief\<close>

definition start_holds :: "jstr \<Rightarrow> jstr \<Rightarrow> jstr \<Rightarrow> human_socket \<Rightarrow> bool" where
  "start_holds human task attachmentId h \<longleftrightarrow> hs_participantId h = human \<and> (case hs_start h of
     Some s \<Rightarrow> ps_taskRequestId s = task \<and> (case ps_attachmentIds s of Some ids \<Rightarrow> attachmentId \<in> set ids | None \<Rightarrow> False)
   | None \<Rightarrow> False)"

definition control_holds :: "room \<Rightarrow> jstr \<Rightarrow> jstr \<Rightarrow> agent_socket \<Rightarrow> bool" where
  "control_holds r human task so \<longleftrightarrow> agent_in (r_participants r) (aa_participantId (as_attachment so)) \<and>
     (case aa_pendingControl (as_attachment so) of
        Some c \<Rightarrow> pn_operation c = Prepare_session \<and> pn_humanParticipantId c = human \<and> pn_taskRequestId c = Some task
      | None \<Rightarrow> False)"

definition release_start :: "(nat \<Rightarrow> bool) \<Rightarrow> (nat \<Rightarrow> bool) \<Rightarrow> int \<Rightarrow> room \<Rightarrow> jstr \<Rightarrow> jstr \<Rightarrow> jstr \<Rightarrow> relay \<Rightarrow> relay \<times> sent_frame list" where
  "release_start stores sends now r human task attachmentId rl =
     (let holding = filter (start_holds human task attachmentId) (rl_humans rl);
          slots = filter (\<lambda>p. p_kind p = Agent \<and> list_ex (\<lambda>so. aa_participantId (as_attachment so) = p_id p \<and> control_holds r human task so) (rl_agents rl))
            (room_people r);
          agents = map (\<lambda>so. if control_holds r human task so \<and> stores (as_id so)
            then so\<lparr>as_attachment := (as_attachment so)\<lparr>aa_pendingControl := None\<rparr>\<rparr> else so) (rl_agents rl);
          targets = dedupe (map (\<lambda>h. ps_targetAgentId (the (hs_start h))) holding @ map p_id slots) in
      (\<lparr>rl_humans = map (\<lambda>h. if start_holds human task attachmentId h \<and> stores (hs_id h) then h\<lparr>hs_start := None\<rparr> else h) (rl_humans rl),
        rl_agents = agents\<rparr>,
       concat (map (\<lambda>h. tell_human sends h (Start_result (ps_requestId (the (hs_start h))) (Some TSE_session_continuation_unavailable))) holding) @
       concat (map (\<lambda>i. sendAgentSessionCancel stores sends now r i human task agents) targets)))"

datatype discard_answer = Discard_missing | Discard_task_exists | Discard_removed

definition human_discard_task_attachment :: "(room \<Rightarrow> bool) \<Rightarrow> (nat \<Rightarrow> bool) \<Rightarrow> (nat \<Rightarrow> bool) \<Rightarrow> (jstr \<times> nat \<Rightarrow> bool) \<Rightarrow> int \<Rightarrow> jstr \<Rightarrow> jstr \<Rightarrow>
    jstr \<Rightarrow> jstr \<Rightarrow> room \<Rightarrow> attachment_chunks \<Rightarrow> collab_tracking \<Rightarrow> relay \<Rightarrow>
    discard_answer reply \<times> room \<times> attachment_chunks \<times> collab_tracking \<times> relay \<times> sent_frame list" where
  "human_discard_task_attachment fits stores sends deletes now pid token attachmentId task r m c0 rl =
     (case findParticipant r pid token of
        None \<Rightarrow> (Refused 401 ''unauthorized'', r, m, c0, rl, [])
      | Some p \<Rightarrow>
          if p_kind p \<noteq> Human then (Refused 403 ''human_only'', r, m, c0, rl, [])
          else (case find (\<lambda>a. at_id a = attachmentId) (r_attachments r) of
            None \<Rightarrow> (Done Discard_missing, r, m, c0, rl, [])
          | Some a \<Rightarrow>
              if at_senderId a \<noteq> p_id p \<or> at_taskRequestId a \<noteq> Some task \<or> at_taskWake a \<noteq> Some False
              then (Refused 404 ''attachment_unavailable'', r, m, c0, rl, [])
              else (let c = warmCollabRegistry r c0 in
                if dget (reg_requests (ct_registry c)) task \<noteq> None then (Done Discard_task_exists, r, m, c, rl, [])
                else (case release_start stores sends now r (p_id p) task attachmentId rl of
                  (rl', sent) \<Rightarrow> (case unlist_attachment fits deletes now p a r m of
                    (Done _, r', m') \<Rightarrow> (Done Discard_removed, r', m', c, rl', sent)
                  | (Unsaved, r', m') \<Rightarrow> (Unsaved, r', m', c, rl', sent)
                  | (_, r', m') \<Rightarrow> (Raised, r', m', c, rl', sent))))))"

subsection \<open>A live correlation is never overwritten\<close>

lemma put_slot_ids [simp]: "map as_id (put_slot n c agents) = map as_id agents"
  by (simp add: put_slot_def)

lemma put_slot_other: "so \<in> set agents \<Longrightarrow> as_id so \<noteq> n \<Longrightarrow> so \<in> set (put_slot n c agents)"
  by (force simp: put_slot_def)

lemma put_human_ids [simp]: "map hs_id (put_human stores h humans) = map hs_id humans"
  by (induction humans) (auto simp: put_human_def)

lemma find_member: "find P xs = Some x \<Longrightarrow> x \<in> set xs \<and> P x"
  by (induction xs) (auto split: if_splits)

text \<open>A frame leaves the slots, or writes the slot of one socket, which held nothing alive.\<close>

lemma frame_cases:
  assumes "sendAgentSessionFrame stores sends now r i correlation frame agents = (out, agents', sent)"
  shows "agents' = agents \<or> (\<exists>so c. so \<in> set agents \<and> \<not> live_slot now so \<and> agents' = put_slot (as_id so) c agents)"
proof (cases "find (current_agent_socket r i) agents")
  case (Some so)
  then have "agents' = agents \<or> \<not> live_slot now so \<and> (\<exists>c. agents' = put_slot (as_id so) c agents)"
    using assms by (auto simp: sendAgentSessionFrame_def split: option.splits if_splits)
  then show ?thesis using find_member [OF Some] by blast
qed (use assms in \<open>auto simp: sendAgentSessionFrame_def split: if_splits\<close>)

lemma frame_keeps_live:
  assumes "sendAgentSessionFrame stores sends now r i correlation frame agents = (out, agents', sent)"
    and "distinct (map as_id agents)" and "so \<in> set agents" and "live_slot now so"
  shows "so \<in> set agents'"
proof (rule disjE [OF frame_cases [OF assms(1)]])
  assume "\<exists>x c. x \<in> set agents \<and> \<not> live_slot now x \<and> agents' = put_slot (as_id x) c agents"
  then obtain x c where x: "x \<in> set agents" "\<not> live_slot now x" "agents' = put_slot (as_id x) c agents" by blast
  then have "as_id so \<noteq> as_id x" using assms(2-4) by (auto simp: distinct_map dest: inj_onD)
  then show ?thesis using x(3) put_slot_other assms(3) by metis
qed (use assms(3) in simp)

lemma frame_ids: "sendAgentSessionFrame stores sends now r i correlation frame agents = (out, agents', sent) \<Longrightarrow> map as_id agents' = map as_id agents"
  using frame_cases by fastforce

text \<open>What a request of a Human does to the sockets.\<close>

lemma request_keeps_live:
  assumes "relay_request stores sends now r i control waiting idle reject rl = (rl', sent)"
    and "distinct (map as_id (rl_agents rl))" and "so \<in> set (rl_agents rl)" and "live_slot now so"
  shows "so \<in> set (rl_agents rl')"
proof -
  obtain out agents sent' where f: "sendAgentSessionControl stores sends now r i control (rl_agents rl) = (out, agents, sent')"
    using prod_cases3 by blast
  then have "rl_agents rl' = agents" using assms(1) by (auto simp: relay_request_def split: if_splits)
  then show ?thesis using frame_keeps_live [OF f [unfolded sendAgentSessionControl_def] assms(2-4)] by simp
qed

text \<open>The record of a request stays on the socket it came from; what a start writes into both sockets belongs together.\<close>

definition same_socket :: "human_socket \<Rightarrow> human_socket \<Rightarrow> bool" where
  "same_socket h h' \<longleftrightarrow> hs_id h' = hs_id h \<and> hs_participantId h' = hs_participantId h \<and> hs_nonce h' = hs_nonce h"

definition prepare_control :: "participant \<Rightarrow> human_socket \<Rightarrow> pending_start \<Rightarrow> session_control \<Rightarrow> bool" where
  "prepare_control p h s control \<longleftrightarrow> sc_operation control = Prepare_session \<and> sc_browserRequestId control = ps_requestId s \<and>
     sc_humanParticipantId control = p_id p \<and> sc_humanConnectionNonce control = hs_nonce h \<and>
     sc_taskRequestId control = Some (ps_taskRequestId s) \<and> isCanonicalCollabRequestId (JStr (ps_taskRequestId s))"

lemma list_cases:
  assumes "handleTaskSessionList stores sends now uuid r p h msg rl = (rl', sent)"
  shows "rl' = rl \<or> (\<exists>i control waiting idle reject. relay_request stores sends now r i control waiting idle reject rl = (rl', sent) \<and>
    same_socket h waiting \<and> same_socket h idle \<and> hs_start waiting \<in> {None, hs_start h} \<and> hs_start idle \<in> {None, hs_start h} \<and>
    sc_operation control = List_sessions)"
proof (cases "isValidTaskSessionRequestId (js_get msg ''requestId'')")
  case (Some rid)
  show ?thesis
  proof (cases "dget (r_participants r) (trimmed_or_empty (js_get msg ''targetParticipantId''))")
    case None
    then show ?thesis using assms Some by (auto simp: handleTaskSessionList_def Let_def split: if_splits)
  next
    case (Some agent)
    define pruned where "pruned = pruneTaskSessionPending now h"
    have h: "same_socket h (pruned\<lparr>hs_discovery := d\<rparr>)" "hs_start pruned \<in> {None, hs_start h}" for d
      by (auto simp: pruned_def pruneTaskSessionPending_def same_socket_def split: option.splits if_splits)
    from assms have "rl' = rl \<or> (\<exists>i control d reject. relay_request stores sends now r i control (pruned\<lparr>hs_discovery := d\<rparr>)
        (pruned\<lparr>hs_discovery := None\<rparr>) reject rl = (rl', sent) \<and> sc_operation control = List_sessions)"
      unfolding handleTaskSessionList_def Let_def \<open>isValidTaskSessionRequestId (js_get msg ''requestId'') = Some rid\<close> Some option.case
        pruned_def [symmetric] by (fastforce split: if_splits)
    then show ?thesis using h by fastforce
  qed
qed (use assms in \<open>simp add: handleTaskSessionList_def\<close>)

lemma start_cases:
  assumes "handleTaskSessionStart stores sends now uuid taskUuid r p h msg c0 rl = (c', rl', sent)"
  shows "rl' = rl \<or> (\<exists>control waiting idle reject s. relay_request stores sends now r (ps_targetAgentId s) control waiting idle reject rl = (rl', sent) \<and>
    same_socket h waiting \<and> same_socket h idle \<and> hs_start idle = None \<and> hs_start waiting = Some s \<and> prepare_control p h s control \<and> stores (hs_id h))"
proof (cases "isValidTaskSessionRequestId (js_get msg ''requestId'')")
  case (Some rid)
  show ?thesis
  proof (cases "dget (r_participants r) (trimmed_or_empty (js_get msg ''targetParticipantId''))")
    case None
    then show ?thesis using assms Some by (auto simp: handleTaskSessionStart_def Let_def split: if_splits)
  next
    case (Some agent)
    define pruned where "pruned = pruneTaskSessionPending now h"
    have h: "same_socket h (pruned\<lparr>hs_start := d\<rparr>)" for d by (simp add: pruned_def pruneTaskSessionPending_def same_socket_def)
    let ?control = "\<lambda>task. \<lparr>sc_requestId = uuid, sc_operation = Prepare_session,
      sc_browserRequestId = rid, sc_humanParticipantId = p_id p, sc_humanConnectionNonce = hs_nonce h,
      sc_projectToken = js_str (js_get msg ''projectToken''), sc_pageToken = None, sc_sessionToken = js_str (js_get msg ''sessionToken''),
      sc_taskRequestId = Some task, sc_modeId = js_str (js_get msg ''modeId''), sc_configOptions = config_options_of (js_get msg ''configOptions'')\<rparr>"
    let ?start = "\<lambda>task. \<lparr>ps_requestId = rid, ps_taskRequestId = task, ps_targetAgentId = p_id agent,
      ps_summary = trimmed_or_empty (js_get msg ''summary''), ps_attachmentIds = staged_ids r p msg,
      ps_expiresAt = now + TASK_SESSION_PENDING_TTL_MS\<rparr>"
    from assms have "rl' = rl \<or> (\<exists>task reject. relay_request stores sends now r (p_id agent) (?control task) (pruned\<lparr>hs_start := Some (?start task)\<rparr>)
        (pruned\<lparr>hs_start := None\<rparr>) reject rl = (rl', sent) \<and> isCanonicalCollabRequestId (JStr task) \<and> stores (hs_id h))"
      unfolding handleTaskSessionStart_def Let_def \<open>isValidTaskSessionRequestId (js_get msg ''requestId'') = Some rid\<close> Some option.case
        pruned_def [symmetric] by (fastforce split: if_splits js.splits option.splits)
    then have "rl' = rl \<or> (\<exists>task reject. relay_request stores sends now r (ps_targetAgentId (?start task)) (?control task)
        (pruned\<lparr>hs_start := Some (?start task)\<rparr>) (pruned\<lparr>hs_start := None\<rparr>) reject rl = (rl', sent) \<and>
        prepare_control p h (?start task) (?control task) \<and> stores (hs_id h))"
      by (simp add: prepare_control_def)
    then show ?thesis
    proof
      assume "\<exists>task reject. relay_request stores sends now r (ps_targetAgentId (?start task)) (?control task)
        (pruned\<lparr>hs_start := Some (?start task)\<rparr>) (pruned\<lparr>hs_start := None\<rparr>) reject rl = (rl', sent) \<and>
        prepare_control p h (?start task) (?control task) \<and> stores (hs_id h)"
      then obtain task reject where q: "relay_request stores sends now r (ps_targetAgentId (?start task)) (?control task)
        (pruned\<lparr>hs_start := Some (?start task)\<rparr>) (pruned\<lparr>hs_start := None\<rparr>) reject rl = (rl', sent)"
        "prepare_control p h (?start task) (?control task)" "stores (hs_id h)" by blast
      show ?thesis by (intro disjI2 exI [of _ "?start task"] exI conjI) (rule q h | simp)+
    qed simp
  qed
qed (use assms in \<open>simp add: handleTaskSessionStart_def\<close>)

text \<open>
  C38: While an Agent's socket owes an answer, no list or start request of any Human changes what it
  waits for: the request is refused, and the first Human still gets its answer.
\<close>

theorem live_correlation_kept:
  assumes "distinct (map as_id (rl_agents rl))" and "so \<in> set (rl_agents rl)" and "live_slot now so"
  shows "so \<in> set (rl_agents (fst (handleTaskSessionList stores sends now uuid r p h msg rl))) \<and>
    so \<in> set (rl_agents (fst (snd (handleTaskSessionStart stores sends now uuid taskUuid r p h msg tracking rl))))"
proof
  obtain rl' sent where l: "handleTaskSessionList stores sends now uuid r p h msg rl = (rl', sent)" by fastforce
  show "so \<in> set (rl_agents (fst (handleTaskSessionList stores sends now uuid r p h msg rl)))"
    using list_cases [OF l] request_keeps_live [OF _ assms] assms(2) l by fastforce
  obtain c' rl2 sent2 where s: "handleTaskSessionStart stores sends now uuid taskUuid r p h msg tracking rl = (c', rl2, sent2)"
    using prod_cases3 by blast
  show "so \<in> set (rl_agents (fst (snd (handleTaskSessionStart stores sends now uuid taskUuid r p h msg tracking rl))))"
    using start_cases [OF s] request_keeps_live [OF _ assms] assms(2) s by fastforce
qed

subsection \<open>What is held is canonical\<close>

definition start_canonical :: "human_socket \<Rightarrow> bool" where
  "start_canonical h = (case hs_start h of Some s \<Rightarrow> isCanonicalCollabRequestId (JStr (ps_taskRequestId s)) | None \<Rightarrow> True)"

definition relay_ok :: "relay \<Rightarrow> bool" where
  "relay_ok rl \<longleftrightarrow> distinct (map hs_id (rl_humans rl)) \<and> distinct (map as_id (rl_agents rl)) \<and> list_all start_canonical (rl_humans rl)"

text \<open>
  Whose socket it is, what an Agent's socket has prepared, and whether it is the Agent's current one.
\<close>

definition human_owner :: "human_socket \<Rightarrow> jstr \<times> jstr" where
  "human_owner h = (hs_participantId h, hs_nonce h)"

definition agent_owner :: "agent_socket \<Rightarrow> jstr \<times> jstr" where
  "agent_owner so = (aa_participantId (as_attachment so), aa_nonce (as_attachment so))"

definition preparing :: "agent_socket \<Rightarrow> pending_control option" where
  "preparing so = (case aa_pendingControl (as_attachment so) of
     Some c \<Rightarrow> if pn_operation c = Prepare_session then Some c else None | None \<Rightarrow> None)"

abbreviation is_current :: "room \<Rightarrow> agent_socket \<Rightarrow> bool" where
  "is_current r so \<equiv> current_agent_socket r (aa_participantId (as_attachment so)) so"

text \<open>
  The sockets of \<open>rl'\<close> hold nothing the sockets of \<open>rl\<close> did not hold: a start only on the socket of
  the same Human, a preparation only on the socket of the same Agent; and no socket that was replaced
  is current again.
\<close>

definition carried :: "room \<Rightarrow> relay \<Rightarrow> room \<Rightarrow> relay \<Rightarrow> bool" where
  "carried r rl r' rl' \<longleftrightarrow>
     (\<forall>h' \<in> set (rl_humans rl'). hs_start h' = None \<or>
        (\<exists>h \<in> set (rl_humans rl). human_owner h = human_owner h' \<and> hs_start h = hs_start h')) \<and>
     (\<forall>so' \<in> set (rl_agents rl'). preparing so' = None \<or>
        (\<exists>so \<in> set (rl_agents rl). agent_owner so = agent_owner so' \<and> preparing so = preparing so' \<and> (is_current r' so' \<longrightarrow> is_current r so)))"

definition sockets_apart :: "relay \<Rightarrow> bool" where
  "sockets_apart rl \<longleftrightarrow> distinct (map hs_id (rl_humans rl)) \<and> distinct (map as_id (rl_agents rl)) \<and>
     distinct (map human_owner (rl_humans rl)) \<and> distinct (map agent_owner (rl_agents rl))"

text \<open>
  A run of the relay: requests of Humans, each over an own socket, answers of Runtimes, discards of staged
  briefs, and whatever else happens to the Room, its registry and its sockets: they close, new ones open
  with nonces of their own and hold nothing, and their cursors and turns change.
\<close>

inductive relay_step :: "room \<times> collab_tracking \<times> relay \<Rightarrow> room \<times> collab_tracking \<times> relay \<Rightarrow> bool" where
  List_step: "h \<in> set (rl_humans rl) \<Longrightarrow> handleTaskSessionList stores sends now uuid r p h msg rl = (rl', sent) \<Longrightarrow>
    relay_step (r, c, rl) (r, c, rl')"
| Start_step: "h \<in> set (rl_humans rl) \<Longrightarrow> p_id p = hs_participantId h \<Longrightarrow>
    handleTaskSessionStart stores sends now uuid taskUuid r p h msg c rl = (c', rl', sent) \<Longrightarrow> relay_step (r, c, rl) (r, c', rl')"
| Answer_step: "so \<in> set (rl_agents rl) \<Longrightarrow> handleAgentSessionResult fits stores sends uuid now r so msg c rl = (r', c', rl', sent) \<Longrightarrow>
    relay_step (r, c, rl) (r', c', rl')"
| Discard_step: "human_discard_task_attachment fits stores sends deletes now pid token attachmentId task r m c rl = (out, r', m', c', rl', sent) \<Longrightarrow>
    relay_step (r, c, rl) (r', c', rl')"
| Room_step: "sockets_apart rl' \<Longrightarrow> own_keys r' \<Longrightarrow> carried r rl r' rl' \<Longrightarrow> relay_step (r, c, rl) (r', c', rl')"

lemma create_relay: "answer_request fits stores sends uuid now r agent msg c cancel tracking rl = (r', tracking', rl', sent) \<Longrightarrow>
    rl_agents rl' = rl_agents rl \<and> (rl_humans rl' = rl_humans rl \<or>
      (\<exists>h h'. h \<in> set (rl_humans rl) \<and> rl_humans rl' = put_human stores h' (rl_humans rl) \<and> same_socket h h' \<and> hs_start h' \<in> {None, hs_start h}))"
proof (cases "humanSocketFor (rl_humans rl) (pn_humanParticipantId c) (pn_humanConnectionNonce c)")
  case (Some h)
  assume a: "answer_request fits stores sends uuid now r agent msg c cancel tracking rl = (r', tracking', rl', sent)"
  have h: "h \<in> set (rl_humans rl)" using Some find_member by (fastforce simp: humanSocketFor_def)
  have "rl' = rl \<or> rl' = rl\<lparr>rl_humans := put_human stores (h\<lparr>hs_discovery := None\<rparr>) (rl_humans rl)\<rparr> \<or>
      rl' = rl\<lparr>rl_humans := put_human stores (h\<lparr>hs_start := None\<rparr>) (rl_humans rl)\<rparr>"
    using a Some by (auto simp: answer_request_def Let_def split: session_operation.splits option.splits if_splits prod.splits)
  then show ?thesis using h by (fastforce simp: same_socket_def)
qed (auto simp: answer_request_def)

lemma answer_cases:
  assumes "handleAgentSessionResult fits stores sends uuid now r so msg tracking rl = (r', tracking', rl', sent)"
  obtains (ignored) "r' = r" "tracking' = tracking" "rl' = rl" "sent = []"
      "dget (r_participants r) (aa_participantId (as_attachment so)) = None \<or> \<not> agent_in (r_participants r) (aa_participantId (as_attachment so)) \<or>
        \<not> current_agent_socket r (aa_participantId (as_attachment so)) so \<or> answered_control msg so = None"
    | (late) agent c where "dget (r_participants r) (aa_participantId (as_attachment so)) = Some agent" "p_kind agent = Agent"
      "current_agent_socket r (aa_participantId (as_attachment so)) so" "answered_control msg so = Some c" "pn_expiresAt c \<le> now"
      "r' = r" "tracking' = tracking" "rl' = released stores so rl"
      "sent = (if pn_operation c = Prepare_session then cancel_frames stores sends now r agent c (released stores so rl) (task_of c) else [])"
    | (answered) agent c where "dget (r_participants r) (aa_participantId (as_attachment so)) = Some agent" "p_kind agent = Agent"
      "current_agent_socket r (aa_participantId (as_attachment so)) so" "answered_control msg so = Some c" "now < pn_expiresAt c"
      "answer_request fits stores sends uuid now r agent msg c (cancel_frames stores sends now r agent c (released stores so rl)) tracking
        (released stores so rl) = (r', tracking', rl', sent)"
proof -
  define i where "i = aa_participantId (as_attachment so)"
  show ?thesis
  proof (cases "dget (r_participants r) i")
    case None
    then show ?thesis using assms ignored by (simp add: handleAgentSessionResult_def Let_def i_def)
  next
    case (Some agent)
    show ?thesis
    proof (cases "p_kind agent = Agent \<and> current_agent_socket r i so")
      case False
      then have "\<not> agent_in (r_participants r) i \<or> \<not> current_agent_socket r i so" using Some by (simp add: agent_in_def)
      then show ?thesis using assms Some False ignored by (auto simp: handleAgentSessionResult_def Let_def i_def)
    next
      case True
      show ?thesis
      proof (cases "answered_control msg so")
        case None
        then show ?thesis using assms Some True ignored by (simp add: handleAgentSessionResult_def Let_def i_def)
      next
        case (Some c)
        have d: "dget (r_participants r) (aa_participantId (as_attachment so)) = Some agent"
          using \<open>dget (r_participants r) i = Some agent\<close> by (simp add: i_def)
        have k: "p_kind agent = Agent" "current_agent_socket r (aa_participantId (as_attachment so)) so" using True by (simp_all add: i_def)
        have h: "(if pn_expiresAt c \<le> now then (r, tracking, released stores so rl,
              if pn_operation c = Prepare_session then cancel_frames stores sends now r agent c (released stores so rl) (task_of c) else [])
            else answer_request fits stores sends uuid now r agent msg c (cancel_frames stores sends now r agent c (released stores so rl)) tracking
              (released stores so rl)) = (r', tracking', rl', sent)"
          using assms d k Some by (simp add: handleAgentSessionResult_def Let_def)
        show ?thesis
        proof (cases "pn_expiresAt c \<le> now")
          case True
          show ?thesis by (rule late [OF d k Some True]) (use h True in simp_all)
        next
          case False
          then have "now < pn_expiresAt c" by simp
          then show ?thesis by (rule answered [OF d k Some]) (use h False in simp)
        qed
      qed
    qed
  qed
qed

subsection \<open>Both sockets wait for the same Task\<close>

definition slot_canonical :: "agent_socket \<Rightarrow> bool" where
  "slot_canonical so = (case preparing so of
     Some c \<Rightarrow> (case pn_taskRequestId c of Some t \<Rightarrow> isCanonicalCollabRequestId (JStr t) | None \<Rightarrow> False) | None \<Rightarrow> True)"

text \<open>An Agent's current socket that prepares what a Human's record asks for prepares the Task of the record.\<close>

definition pinned :: "room \<Rightarrow> relay \<Rightarrow> bool" where
  "pinned r rl \<longleftrightarrow> (\<forall>h \<in> set (rl_humans rl). \<forall>so \<in> set (rl_agents rl). \<forall>s c.
     hs_start h = Some s \<longrightarrow> preparing so = Some c \<longrightarrow> (pn_humanParticipantId c, pn_humanConnectionNonce c) = human_owner h \<longrightarrow>
     pn_browserRequestId c = ps_requestId s \<longrightarrow> ps_targetAgentId s = aa_participantId (as_attachment so) \<longrightarrow> is_current r so \<longrightarrow>
     pn_taskRequestId c = Some (ps_taskRequestId s))"

definition relay_inv :: "room \<Rightarrow> relay \<Rightarrow> bool" where
  "relay_inv r rl \<longleftrightarrow> relay_ok rl \<and> own_keys r \<and> sockets_apart rl \<and> list_all slot_canonical (rl_agents rl) \<and> pinned r rl"

lemma current_owner: "agent_owner so' = agent_owner so \<Longrightarrow> current_agent_socket r i so' = current_agent_socket r i so"
  by (auto simp: agent_owner_def current_agent_socket_def split: option.split)

lemma carried_inv:
  assumes "relay_inv r rl" and "carried r rl r' rl'" and "sockets_apart rl'" and "own_keys r'"
  shows "relay_inv r' rl'"
proof -
  have human: "hs_start h' = None \<or> (\<exists>h \<in> set (rl_humans rl). human_owner h = human_owner h' \<and> hs_start h = hs_start h')"
    if "h' \<in> set (rl_humans rl')" for h' using assms(2) that by (simp add: carried_def)
  have agent: "preparing so' = None \<or> (\<exists>so \<in> set (rl_agents rl). agent_owner so = agent_owner so' \<and> preparing so = preparing so' \<and>
      (is_current r' so' \<longrightarrow> is_current r so))" if "so' \<in> set (rl_agents rl')" for so'
    using assms(2) that by (simp add: carried_def)
  have "start_canonical h'" if "h' \<in> set (rl_humans rl')" for h'
    using human [OF that] assms(1) by (auto simp: relay_inv_def relay_ok_def list_all_iff start_canonical_def split: option.split)
  then have ok: "relay_ok rl'" using assms(3) by (simp add: relay_ok_def sockets_apart_def list_all_iff)
  have canonical: "slot_canonical so'" if "so' \<in> set (rl_agents rl')" for so'
    using agent [OF that] assms(1) by (auto simp: relay_inv_def list_all_iff slot_canonical_def split: option.split)
  have "pinned r' rl'"
    unfolding pinned_def
  proof (intro ballI allI impI)
    fix h' so' s c
    assume h': "h' \<in> set (rl_humans rl')" "hs_start h' = Some s" and so': "so' \<in> set (rl_agents rl')" "preparing so' = Some c" "is_current r' so'"
      and m: "(pn_humanParticipantId c, pn_humanConnectionNonce c) = human_owner h'" "pn_browserRequestId c = ps_requestId s"
        "ps_targetAgentId s = aa_participantId (as_attachment so')"
    obtain h so where "h \<in> set (rl_humans rl)" "human_owner h = human_owner h'" "hs_start h = Some s"
      and "so \<in> set (rl_agents rl)" "agent_owner so = agent_owner so'" "preparing so = Some c" "is_current r so"
      using human [OF h'(1)] agent [OF so'(1)] h'(2) so'(2,3) by auto
    moreover from this have "ps_targetAgentId s = aa_participantId (as_attachment so)" using m(3) by (simp add: agent_owner_def)
    ultimately show "pn_taskRequestId c = Some (ps_taskRequestId s)"
      using assms(1) m(1,2) unfolding relay_inv_def pinned_def by metis
  qed
  then show ?thesis using ok canonical assms(3,4) by (simp add: relay_inv_def list_all_iff)
qed

text \<open>The members after a write.\<close>

lemma put_human_member: "h' \<in> set (put_human stores w humans) \<Longrightarrow> h' = w \<or> h' \<in> set humans \<and> (stores (hs_id w) \<longrightarrow> hs_id h' \<noteq> hs_id w)"
  by (auto simp: put_human_def split: if_splits)

lemma put_slot_member: "so' \<in> set (put_slot n c agents) \<Longrightarrow> so' \<in> set agents \<and> as_id so' \<noteq> n \<or>
    (\<exists>so \<in> set agents. as_id so = n \<and> so' = so\<lparr>as_attachment := (as_attachment so)\<lparr>aa_pendingControl := c\<rparr>\<rparr>)"
  by (auto simp: put_slot_def split: if_splits)

lemma put_slot_owners [simp]: "map agent_owner (put_slot n c agents) = map agent_owner agents"
  by (simp add: put_slot_def agent_owner_def)

lemma put_human_owners:
  assumes "h \<in> set humans" and "same_socket h w" and "distinct (map hs_id humans)"
  shows "map human_owner (put_human stores w humans) = map human_owner humans"
proof -
  have "human_owner w = human_owner x" if "x \<in> set humans" "hs_id x = hs_id w" for x
  proof -
    have "x = h" using that assms by (auto simp: same_socket_def distinct_map dest: inj_onD)
    then show ?thesis using assms(2) by (simp add: same_socket_def human_owner_def)
  qed
  then show ?thesis by (auto simp: put_human_def)
qed

lemma apart_put_human: "sockets_apart rl \<Longrightarrow> h \<in> set (rl_humans rl) \<Longrightarrow> same_socket h w \<Longrightarrow> rl_humans rl' = put_human stores w (rl_humans rl) \<Longrightarrow>
    map as_id (rl_agents rl') = map as_id (rl_agents rl) \<Longrightarrow> map agent_owner (rl_agents rl') = map agent_owner (rl_agents rl) \<Longrightarrow> sockets_apart rl'"
  by (simp add: sockets_apart_def put_human_owners)

lemma preparing_slot: "preparing (so\<lparr>as_attachment := (as_attachment so)\<lparr>aa_pendingControl := c\<rparr>\<rparr>) =
    (case c of Some d \<Rightarrow> if pn_operation d = Prepare_session then Some d else None | None \<Rightarrow> None)"
  by (simp add: preparing_def)

lemma carried_put_human:
  assumes "rl_humans rl' = put_human stores w (rl_humans rl)" and "h \<in> set (rl_humans rl)" and "same_socket h w"
    and "hs_start w = None \<or> hs_start w = hs_start h" and "h' \<in> set (rl_humans rl')"
  shows "hs_start h' = None \<or> (\<exists>h \<in> set (rl_humans rl). human_owner h = human_owner h' \<and> hs_start h = hs_start h')"
proof (cases "h' = w")
  case True
  have "human_owner h = human_owner w" using assms(3) by (simp add: same_socket_def human_owner_def)
  then show ?thesis using assms(2,4) True by auto
next
  case False
  then have "h' \<in> set (rl_humans rl)" using put_human_member assms(1,5) by metis
  then show ?thesis by blast
qed

lemma carried_agents:
  assumes "rl_agents rl' = rl_agents rl \<or> rl_agents rl' = put_slot n c (rl_agents rl)"
    and "case c of Some d \<Rightarrow> pn_operation d = List_sessions | None \<Rightarrow> True" and "so' \<in> set (rl_agents rl')"
  shows "preparing so' = None \<or> so' \<in> set (rl_agents rl)"
  using assms put_slot_member [of so' n c "rl_agents rl"] by (auto simp: preparing_slot split: option.splits)

lemma carried_step:
  assumes "\<And>h'. h' \<in> set (rl_humans rl') \<Longrightarrow> hs_start h' = None \<or> (\<exists>h \<in> set (rl_humans rl). human_owner h = human_owner h' \<and> hs_start h = hs_start h')"
    and "\<And>so'. so' \<in> set (rl_agents rl') \<Longrightarrow> preparing so' = None \<or> so' \<in> set (rl_agents rl)"
    and "\<And>i so. current_agent_socket r' i so \<Longrightarrow> current_agent_socket r i so"
  shows "carried r rl r' rl'"
  using assms unfolding carried_def by blast

definition control_slot :: "int \<Rightarrow> session_control \<Rightarrow> pending_control" where
  "control_slot now c = \<lparr>pn_requestId = sc_requestId c, pn_operation = sc_operation c,
     pn_browserRequestId = sc_browserRequestId c, pn_humanParticipantId = sc_humanParticipantId c,
     pn_humanConnectionNonce = sc_humanConnectionNonce c, pn_taskRequestId = truthy_str (sc_taskRequestId c),
     pn_expiresAt = now + TASK_SESSION_PENDING_TTL_MS\<rparr>"

lemma request_cases:
  assumes "relay_request stores sends now r i control waiting idle reject rl = (rl', sent)"
  obtains (delivered) so where "so \<in> set (rl_agents rl)" "current_agent_socket r i so"
      "rl_humans rl' = put_human stores waiting (rl_humans rl)" "rl_agents rl' = put_slot (as_id so) (Some (control_slot now control)) (rl_agents rl)"
    | (refused) n where "rl_humans rl' = put_human stores idle (rl_humans rl)"
      "rl_agents rl' = rl_agents rl \<or> rl_agents rl' = put_slot n None (rl_agents rl)"
proof -
  obtain out agents sent' where f: "sendAgentSessionControl stores sends now r i control (rl_agents rl) = (out, agents, sent')"
    using prod_cases3 by blast
  have frame: "sendAgentSessionFrame stores sends now r i (Some (control_slot now control)) (Control_frame control) (rl_agents rl) = (out, agents, sent')"
    using f by (simp add: sendAgentSessionControl_def control_slot_def)
  show ?thesis
  proof (cases "out = Frame_delivered")
    case True
    then obtain so where so: "find (current_agent_socket r i) (rl_agents rl) = Some so" "agents = put_slot (as_id so) (Some (control_slot now control)) (rl_agents rl)"
      using frame by (auto simp: sendAgentSessionFrame_def split: if_splits option.splits)
    show ?thesis by (rule delivered) (use find_member [OF so(1)] assms f True so(2) in \<open>auto simp: relay_request_def\<close>)
  next
    case False
    then obtain n where "agents = rl_agents rl \<or> agents = put_slot n None (rl_agents rl)"
      using frame by (auto simp: sendAgentSessionFrame_def split: if_splits option.splits)
    moreover have "rl_humans rl' = put_human stores idle (rl_humans rl)" "rl_agents rl' = agents"
      using assms f False by (auto simp: relay_request_def)
    ultimately show ?thesis using refused by blast
  qed
qed

lemma request_carried:
  assumes inv: "relay_inv r rl" and "h \<in> set (rl_humans rl)" and "rl_humans rl' = put_human stores w (rl_humans rl)" and "same_socket h w"
    and "hs_start w = None \<or> hs_start w = hs_start h"
    and "rl_agents rl' = rl_agents rl \<or> rl_agents rl' = put_slot n c (rl_agents rl)"
    and "case c of Some d \<Rightarrow> pn_operation d = List_sessions | None \<Rightarrow> True"
  shows "relay_inv r rl'"
proof (rule carried_inv [OF inv])
  show "carried r rl r rl'"
    by (rule carried_step) (use carried_put_human [OF assms(3,2,4,5)] carried_agents [OF assms(6,7)] in blast)+
  have "map as_id (rl_agents rl') = map as_id (rl_agents rl)" "map agent_owner (rl_agents rl') = map agent_owner (rl_agents rl)"
    using assms(6) by auto
  then show "sockets_apart rl'" using apart_put_human [OF _ assms(2,4,3)] inv by (simp add: relay_inv_def)
  show "own_keys r" using inv by (simp add: relay_inv_def)
qed

lemma list_inv:
  assumes "handleTaskSessionList stores sends now uuid r p h msg rl = (rl', sent)" and "relay_inv r rl" and "h \<in> set (rl_humans rl)"
  shows "relay_inv r rl'"
proof (cases "rl' = rl")
  case False
  then obtain i control waiting idle reject where r: "relay_request stores sends now r i control waiting idle reject rl = (rl', sent)"
    and w: "same_socket h waiting" "same_socket h idle" "hs_start waiting \<in> {None, hs_start h}" "hs_start idle \<in> {None, hs_start h}"
      "sc_operation control = List_sessions" using list_cases [OF assms(1)] by blast
  from r show ?thesis
  proof (cases rule: request_cases)
    case (delivered so)
    show ?thesis
      by (rule request_carried [OF assms(2,3) delivered(3) w(1) _ disjI2 [OF delivered(4)]]) (use w(3,5) in \<open>auto simp: control_slot_def\<close>)
  next
    case (refused n)
    show ?thesis by (rule request_carried [OF assms(2,3) refused(1) w(2) _ refused(2)]) (use w(4) in auto)
  qed
qed (use assms(2) in simp)

lemma delivered_inv:
  assumes inv: "relay_inv r rl" and h: "h \<in> set (rl_humans rl)" "p_id p = hs_participantId h" "stores (hs_id h)"
    and w: "same_socket h w" "hs_start w = Some s" "prepare_control p h s control"
    and so: "so \<in> set (rl_agents rl)" "current_agent_socket r (ps_targetAgentId s) so"
    and rl': "rl_humans rl' = put_human stores w (rl_humans rl)" "rl_agents rl' = put_slot (as_id so) (Some (control_slot now control)) (rl_agents rl)"
  shows "relay_inv r rl'"
proof -
  let ?c = "control_slot now control"
  have apart: "sockets_apart rl" and ok: "relay_ok rl" using inv by (simp_all add: relay_inv_def)
  have apart': "sockets_apart rl'" by (rule apart_put_human [OF apart h(1) w(1) rl'(1)]) (simp_all add: rl'(2))
  have t: "isCanonicalCollabRequestId (JStr (ps_taskRequestId s))" "ps_taskRequestId s \<noteq> []"
    using w(3) by (auto simp: prepare_control_def isCanonicalCollabRequestId_def REQUEST_ID_PATTERN_def)
  have c: "pn_operation ?c = Prepare_session" "pn_browserRequestId ?c = ps_requestId s" "pn_taskRequestId ?c = Some (ps_taskRequestId s)"
    "(pn_humanParticipantId ?c, pn_humanConnectionNonce ?c) = human_owner h"
    using w(3) h(2) t(2) by (simp_all add: prepare_control_def control_slot_def truthy_str_def human_owner_def)
  have owner_w: "human_owner w = human_owner h" using w(1) by (simp add: same_socket_def human_owner_def)
  have humans: "h' = w \<or> h' \<in> set (rl_humans rl) \<and> human_owner h' \<noteq> human_owner h" if h': "h' \<in> set (rl_humans rl')" for h'
  proof (cases "h' = w")
    case False
    with h' put_human_member [of h' stores w "rl_humans rl"] h(3) w(1) have m: "h' \<in> set (rl_humans rl)" "hs_id h' \<noteq> hs_id h"
      by (auto simp: rl'(1) same_socket_def)
    moreover from this have "human_owner h' \<noteq> human_owner h"
      using apart h(1) by (auto simp: sockets_apart_def distinct_map dest: inj_onD)
    ultimately show ?thesis by blast
  qed simp
  have agents: "so' \<in> set (rl_agents rl) \<and> agent_owner so' \<noteq> agent_owner so \<or> preparing so' = Some ?c" if so': "so' \<in> set (rl_agents rl')" for so'
  proof (cases "so' \<in> set (rl_agents rl) \<and> as_id so' \<noteq> as_id so")
    case True
    then have "agent_owner so' \<noteq> agent_owner so"
      using apart so(1) by (auto simp: sockets_apart_def distinct_map dest: inj_onD)
    with True show ?thesis by blast
  next
    case False
    then show ?thesis using put_slot_member [of so' "as_id so" "Some ?c" "rl_agents rl"] so' c(1) by (auto simp: rl'(2) preparing_slot)
  qed
  have "start_canonical h'" if "h' \<in> set (rl_humans rl')" for h'
    using humans [OF that] ok t(1) w(2) by (auto simp: relay_ok_def list_all_iff start_canonical_def)
  then have ok': "relay_ok rl'" using apart' by (simp add: relay_ok_def sockets_apart_def list_all_iff)
  have canonical: "slot_canonical so'" if "so' \<in> set (rl_agents rl')" for so'
    using agents [OF that] inv t(1) c(3) by (auto simp: relay_inv_def list_all_iff slot_canonical_def)
  have "pinned r rl'"
    unfolding pinned_def
  proof (intro ballI allI impI)
    fix h' so' s' c'
    assume h': "h' \<in> set (rl_humans rl')" "hs_start h' = Some s'" and so': "so' \<in> set (rl_agents rl')" "preparing so' = Some c'" "is_current r so'"
      and m: "(pn_humanParticipantId c', pn_humanConnectionNonce c') = human_owner h'" "pn_browserRequestId c' = ps_requestId s'"
        "ps_targetAgentId s' = aa_participantId (as_attachment so')"
    show "pn_taskRequestId c' = Some (ps_taskRequestId s')"
    proof (cases "so' \<in> set (rl_agents rl) \<and> agent_owner so' \<noteq> agent_owner so")
      case True
      have "h' \<noteq> w"
      proof
        assume "h' = w"
        then have "aa_participantId (as_attachment so') = ps_targetAgentId s" using m(3) h'(2) w(2) by simp
        then have "agent_owner so' = agent_owner so" using so'(3) so(2)
          by (auto simp: agent_owner_def current_agent_socket_def split: option.split_asm)
        with True show False by blast
      qed
      then have "h' \<in> set (rl_humans rl)" using humans [OF h'(1)] by blast
      then show ?thesis using inv True h'(2) so'(2,3) m unfolding relay_inv_def pinned_def by blast
    next
      case False
      then have c': "c' = ?c" using agents [OF so'(1)] so'(2) by auto
      then have "human_owner h' = human_owner h" using m(1) c(4) by simp
      then have "h' = w" using humans [OF h'(1)] by blast
      then show ?thesis using c' c(3) h'(2) w(2) by simp
    qed
  qed
  then show ?thesis using ok' apart' canonical inv by (simp add: relay_inv_def list_all_iff)
qed

lemma start_inv:
  assumes "handleTaskSessionStart stores sends now uuid taskUuid r p h msg c0 rl = (c', rl', sent)" and "relay_inv r rl"
    and "h \<in> set (rl_humans rl)" and "p_id p = hs_participantId h"
  shows "relay_inv r rl'"
proof (cases "rl' = rl")
  case False
  then obtain control waiting idle reject s where
    r: "relay_request stores sends now r (ps_targetAgentId s) control waiting idle reject rl = (rl', sent)"
    and w: "same_socket h waiting" "same_socket h idle" "hs_start idle = None" "hs_start waiting = Some s" "prepare_control p h s control" "stores (hs_id h)"
    using start_cases [OF assms(1)] by blast
  from r show ?thesis
  proof (cases rule: request_cases)
    case (delivered so)
    show ?thesis by (rule delivered_inv [OF assms(2-4) w(6,1,4,5) delivered])
  next
    case (refused n)
    show ?thesis by (rule request_carried [OF assms(2,3) refused(1) w(2) _ refused(2)]) (use w(3) in auto)
  qed
qed (use assms(2) in simp)

lemma kept_room:
  assumes "r_participants r' = r_participants r"
  shows "own_keys r' = own_keys r" and "current_agent_socket r' i so = current_agent_socket r i so"
  using assms by (simp_all add: own_keys_def current_agent_socket_def)

lemma request_participants: "ingestCollabWorkRequest fits generated i now r p input c = (out, r', c') \<Longrightarrow> r_participants r' = r_participants r"
  using request_recorded(5) [of fits generated i now r p input c] save_keeps(3) request_unrecorded(1) by (metis (no_types))

lemma answer_request_room:
  assumes "answer_request fits stores sends uuid now r agent msg c cancel tracking rl = (r', tracking', rl', sent)"
  shows "r_participants r' = r_participants r"
  using assms request_participants
  by (fastforce simp: answer_request_def create_prepared_def Let_def split: option.splits session_operation.splits if_splits prod.splits ingest.splits)

lemma released_inv: "relay_inv r rl \<Longrightarrow> relay_inv r (released stores so rl)"
proof -
  assume inv: "relay_inv r rl"
  have agents: "rl_agents (released stores so rl) = rl_agents rl \<or> rl_agents (released stores so rl) = put_slot (as_id so) None (rl_agents rl)"
    by (simp add: released_def)
  show ?thesis
  proof (rule carried_inv [OF inv])
    show "carried r rl r (released stores so rl)"
      by (rule carried_step) (use carried_agents [OF agents] in \<open>auto simp: released_def\<close>)
    show "sockets_apart (released stores so rl)" using inv by (simp add: relay_inv_def sockets_apart_def released_def)
    show "own_keys r" using inv by (simp add: relay_inv_def)
  qed
qed

lemma answer_inv:
  assumes "handleAgentSessionResult fits stores sends uuid now r so msg tracking rl = (r', tracking', rl', sent)" and "relay_inv r rl"
  shows "relay_inv r' rl'"
  using assms(1)
proof (cases rule: answer_cases)
  case (answered agent c)
  let ?rl = "released stores so rl"
  have inv: "relay_inv r ?rl" by (rule released_inv) (fact assms(2))
  note room = kept_room [OF answer_request_room [OF answered(6)]]
  show ?thesis
  proof (cases "rl_humans rl' = rl_humans ?rl")
    case True
    with create_relay [OF answered(6)] have "rl' = ?rl" by simp
    moreover have "carried r ?rl r' ?rl" by (rule carried_step) (use room(2) in auto)
    ultimately show ?thesis using carried_inv [OF inv] inv room(1) by (simp add: relay_inv_def)
  next
    case False
    then obtain h h' where h: "h \<in> set (rl_humans ?rl)" "same_socket h h'" "hs_start h' \<in> {None, hs_start h}"
      "rl_humans rl' = put_human stores h' (rl_humans ?rl)" and agents: "rl_agents rl' = rl_agents ?rl"
      using create_relay [OF answered(6)] by blast
    have "carried r ?rl r' rl'"
      by (rule carried_step) (use carried_put_human [OF h(4,1,2)] h(3) agents room(2) in auto)
    moreover have "sockets_apart rl'" by (rule apart_put_human [OF _ h(1,2,4)]) (use inv agents in \<open>simp_all add: relay_inv_def\<close>)
    ultimately show ?thesis using carried_inv [OF inv] inv room(1) by (simp add: relay_inv_def)
  qed
qed (use assms(2) released_inv in simp_all)

lemma unlist_room:
  assumes "unlist_attachment fits deletes now p a r m = (out, r', m')" and "own_keys r" and "dget (r_participants r) (p_id p) = Some p"
  shows "own_keys r'" and "current_agent_socket r' i so = current_agent_socket r i so"
proof -
  have "r' = r \<or> r_participants r' = r_participants (set_participant (p\<lparr>p_lastSeenAt := now\<rparr>) r)"
    using assms(1) by (auto simp: unlist_attachment_def set_participant_def dest: save_participants split: option.splits prod.splits bool.splits)
  moreover have "own_keys (set_participant (p\<lparr>p_lastSeenAt := now\<rparr>) r)" using assms(2) by (rule own_set)
  moreover have "current_agent_socket (set_participant (p\<lparr>p_lastSeenAt := now\<rparr>) r) i so = current_agent_socket r i so"
    using assms(3) by (auto simp: current_agent_socket_def)
  ultimately show "own_keys r'" "current_agent_socket r' i so = current_agent_socket r i so"
    using assms(2) kept_room by (metis (no_types))+
qed

lemma release_carried:
  assumes "release_start stores sends now r human task attachmentId rl = (rl', sent)"
  shows "h' \<in> set (rl_humans rl') \<Longrightarrow> hs_start h' = None \<or> (\<exists>h \<in> set (rl_humans rl). human_owner h = human_owner h' \<and> hs_start h = hs_start h')"
    and "so' \<in> set (rl_agents rl') \<Longrightarrow> preparing so' = None \<or> so' \<in> set (rl_agents rl)"
    and "sockets_apart rl \<Longrightarrow> sockets_apart rl'"
proof -
  show "h' \<in> set (rl_humans rl') \<Longrightarrow> hs_start h' = None \<or> (\<exists>h \<in> set (rl_humans rl). human_owner h = human_owner h' \<and> hs_start h = hs_start h')"
    using assms by (auto simp: release_start_def Let_def)
  show "so' \<in> set (rl_agents rl') \<Longrightarrow> preparing so' = None \<or> so' \<in> set (rl_agents rl)"
    using assms by (auto simp: release_start_def Let_def preparing_slot)
  have "map hs_id (rl_humans rl') = map hs_id (rl_humans rl)" "map as_id (rl_agents rl') = map as_id (rl_agents rl)"
    "map human_owner (rl_humans rl') = map human_owner (rl_humans rl)" "map agent_owner (rl_agents rl') = map agent_owner (rl_agents rl)"
    using assms by (auto simp: release_start_def Let_def human_owner_def agent_owner_def)
  then show "sockets_apart rl \<Longrightarrow> sockets_apart rl'" by (simp add: sockets_apart_def)
qed

lemma discard_inv:
  assumes "human_discard_task_attachment fits stores sends deletes now pid token attachmentId task r m c rl = (out, r', m', c', rl', sent)"
    and inv: "relay_inv r rl"
  shows "relay_inv r' rl'"
proof (cases "r' = r \<and> rl' = rl")
  case False
  with assms(1) obtain p a sent' answer where p: "findParticipant r pid token = Some p"
    and rel: "release_start stores sends now r (p_id p) task attachmentId rl = (rl', sent')"
    and un: "unlist_attachment fits deletes now p a r m = (answer, r', m')"
    by (auto simp: human_discard_task_attachment_def Let_def split: option.splits if_splits prod.splits reply.splits)
  have own: "own_keys r" using inv by (simp add: relay_inv_def)
  note room = unlist_room [OF un own found_in_room [OF own p]]
  have "carried r rl r' rl'" by (rule carried_step) (use release_carried(1,2) [OF rel] room(2) in blast)+
  then show ?thesis using carried_inv [OF inv] release_carried(3) [OF rel] room(1) inv by (simp add: relay_inv_def)
qed (use inv in simp)

lemma relay_step_inv: "relay_step s s' \<Longrightarrow> relay_inv (fst s) (snd (snd s)) \<Longrightarrow> relay_inv (fst s') (snd (snd s'))"
  by (induction rule: relay_step.induct) (auto intro: list_inv start_inv answer_inv discard_inv carried_inv)

lemma relay_run_inv:
  assumes "relay_step\<^sup>*\<^sup>* (r0, c0, \<lparr>rl_humans = [], rl_agents = []\<rparr>) (r, c, rl)" and "own_keys r0"
  shows "relay_inv r rl"
proof -
  have "relay_inv (fst s) (snd (snd s))" if "relay_step\<^sup>*\<^sup>* (r0, c0, \<lparr>rl_humans = [], rl_agents = []\<rparr>) s" for s
    using that by (induction rule: rtranclp_induct)
      (use assms(2) relay_step_inv in \<open>auto simp: relay_inv_def relay_ok_def sockets_apart_def pinned_def\<close>)
  from this [OF assms(1)] show ?thesis by simp
qed

subsection \<open>The Task is the one that was prepared\<close>

lemma canonical_trim: "isCanonicalCollabRequestId (JStr t) \<Longrightarrow> js_trim t = t \<and> t \<noteq> []"
proof -
  assume c: "isCanonicalCollabRequestId (JStr t)"
  have "is_id_unit u" if "is_alnum u" for u using that by (simp add: is_id_unit_def)
  then have "list_all is_id_unit t" using c
    by (auto simp: isCanonicalCollabRequestId_def REQUEST_ID_PATTERN_def split: list.splits)
  then have "js_trim t = t" by (intro js_trim_no_ws) (auto simp: list_all_iff dest: id_unit_not_ws)
  then show ?thesis using c by (auto simp: isCanonicalCollabRequestId_def REQUEST_ID_PATTERN_def)
qed

lemma request_unrecorded_room: "ingestCollabWorkRequest fits generated i now r p input c = (out, r', c') \<Longrightarrow> (\<And>n e. out \<noteq> Ing_recorded n e) \<Longrightarrow> r' = r"
  by (auto simp: ingestCollabWorkRequest_def Let_def split: sum.splits registry_outcome.splits option.splits prod.splits)

lemma start_event:
  assumes "validateCollabEvent (start_input s) context generated = Inr e" and "isCanonicalCollabRequestId (JStr (ps_taskRequestId s))"
  shows "ce_requestId e = ps_taskRequestId s \<and> ce_kind e = Request \<and> ce_from e = cc_sender context \<and> ce_target e = js_trim (ps_targetAgentId s)"
proof -
  have kind: "collab_kind_of (ci_kind (start_input s)) = Some Request" by (simp add: start_input_def collab_kind_of_def COLLAB_KINDS_def collab_kind_name_def)
  have given: "trimmed_or_empty (ci_requestId (start_input s)) = ps_taskRequestId s"
    using canonical_trim [OF assms(2)] by (simp add: start_input_def trimmed_or_empty_def)
  have target: "trimmed_or_empty (ci_targetParticipantId (start_input s)) = js_trim (ps_targetAgentId s)"
    by (simp add: start_input_def trimmed_or_empty_def)
  show ?thesis using assms(1) canonical_trim [OF assms(2)]
    by (auto simp: validateCollabEvent_def kind given target Let_def split: if_splits option.splits sum.splits)
qed

lemma created_task:
  assumes "create_prepared fits sends uuid now r agent c s h cancel tracking = (r', tracking', sent)"
  obtains (created) sender n e where "dget (r_participants r) (pn_humanParticipantId c) = Some sender" "p_kind sender = Human"
      "ingestCollabWorkRequest fits uuid uuid now r sender (start_input s) tracking = (Ing_recorded n e, r', tracking')"
    | (not_created) "r' = r" "set (cancel (ps_taskRequestId s)) \<subseteq> set sent"
proof (cases "dget (r_participants r) (pn_humanParticipantId c)")
  case None
  then show ?thesis using assms not_created by (auto simp: create_prepared_def Let_def)
next
  case (Some sender)
  show ?thesis
  proof (cases "p_kind sender = Human")
    case False
    then show ?thesis using assms Some not_created by (auto simp: create_prepared_def Let_def)
  next
    case True
    obtain out r1 t1 where i: "ingestCollabWorkRequest fits uuid uuid now r sender (start_input s) tracking = (out, r1, t1)" using prod_cases3 by blast
    show ?thesis
    proof (cases "\<exists>n e. out = Ing_recorded n e")
      case True
      then show ?thesis using assms Some \<open>p_kind sender = Human\<close> i created [OF Some] by (auto simp: create_prepared_def Let_def)
    next
      case False
      then have "r1 = r" using request_unrecorded_room [OF i] by blast
      then show ?thesis using assms Some \<open>p_kind sender = Human\<close> i False not_created
        by (cases out) (auto simp: create_prepared_def Let_def)
    qed
  qed
qed

lemma answered_task:
  assumes "answer_request fits stores sends uuid now r agent msg c cancel tracking rl = (r', tracking', rl', sent)" and "r' \<noteq> r"
  obtains h s where "pn_operation c = Prepare_session" "humanSocketFor (rl_humans rl) (pn_humanParticipantId c) (pn_humanConnectionNonce c) = Some h"
    "start_matches now c agent h = Some s" "js_get msg ''ok'' = JBool True"
    "create_prepared fits sends uuid now r agent c s h cancel tracking = (r', tracking', sent)"
    "rl_humans rl' = put_human stores (h\<lparr>hs_start := None\<rparr>) (rl_humans rl)"
proof -
  have "\<exists>h s. pn_operation c = Prepare_session \<and> humanSocketFor (rl_humans rl) (pn_humanParticipantId c) (pn_humanConnectionNonce c) = Some h \<and>
      start_matches now c agent h = Some s \<and> js_get msg ''ok'' = JBool True \<and>
      create_prepared fits sends uuid now r agent c s h cancel tracking = (r', tracking', sent) \<and>
      rl_humans rl' = put_human stores (h\<lparr>hs_start := None\<rparr>) (rl_humans rl)"
    using assms by (auto simp: answer_request_def Let_def split: option.splits session_operation.splits if_splits prod.splits)
  then show ?thesis using that by blast
qed

text \<open>The Task prepared is the one the Human's record names.\<close>

lemma matched_task:
  assumes "relay_inv r rl" and "so \<in> set (rl_agents rl)" and "is_current r so" and "answered_control msg so = Some c"
    and "pn_operation c = Prepare_session" and "humanSocketFor (rl_humans rl) (pn_humanParticipantId c) (pn_humanConnectionNonce c) = Some h"
    and "start_matches now c agent h = Some s" and "p_id agent = aa_participantId (as_attachment so)"
  shows "pn_taskRequestId c = Some (ps_taskRequestId s)" and "isCanonicalCollabRequestId (JStr (ps_taskRequestId s))"
    and "ps_targetAgentId s = p_id agent"
proof -
  have h: "h \<in> set (rl_humans rl)" "(pn_humanParticipantId c, pn_humanConnectionNonce c) = human_owner h"
    using find_member [OF assms(6) [unfolded humanSocketFor_def]] by (auto simp: human_owner_def)
  have "aa_pendingControl (as_attachment so) = Some c"
    using assms(4) by (auto simp: answered_control_def split: if_splits option.splits)
  then have c: "preparing so = Some c" using assms(5) by (simp add: preparing_def)
  have s: "hs_start h = Some s" "ps_requestId s = pn_browserRequestId c" "ps_targetAgentId s = p_id agent"
    using assms(7) by (auto simp: start_matches_def split: option.splits if_splits)
  show "ps_targetAgentId s = p_id agent" by (rule s)
  show "pn_taskRequestId c = Some (ps_taskRequestId s)"
    using assms(1-3,8) h s c unfolding relay_inv_def pinned_def by metis
  show "isCanonicalCollabRequestId (JStr (ps_taskRequestId s))"
    using assms(1) h(1) s(1) by (auto simp: relay_inv_def relay_ok_def list_all_iff start_canonical_def)
qed

text \<open>
  C2: In any run of the relay, an answer of a Runtime changes the Room only by recording one message: the
  request that makes the Task which its own socket has prepared (the id it was sent) and the socket of the
  Human waits for (the same id, which is canonical), in time, from that Human to that Agent; the Human's
  record is then gone.
\<close>

theorem prepared_task_pinned:
  assumes "relay_step\<^sup>*\<^sup>* (r0, c0, \<lparr>rl_humans = [], rl_agents = []\<rparr>) (r, tracking, rl)" and "own_keys r0" and "so \<in> set (rl_agents rl)"
    and "handleAgentSessionResult fits stores sends uuid now r so msg tracking rl = (r', tracking', rl', sent)" and "r' \<noteq> r"
  shows "\<exists>agent c h s sender e. dget (r_participants r) (aa_participantId (as_attachment so)) = Some agent \<and> p_kind agent = Agent \<and>
    current_agent_socket r (aa_participantId (as_attachment so)) so \<and> answered_control msg so = Some c \<and>
    pn_operation c = Prepare_session \<and> now < pn_expiresAt c \<and> js_get msg ''ok'' = JBool True \<and>
    humanSocketFor (rl_humans rl) (pn_humanParticipantId c) (pn_humanConnectionNonce c) = Some h \<and> start_matches now c agent h = Some s \<and>
    dget (r_participants r) (pn_humanParticipantId c) = Some sender \<and> p_kind sender = Human \<and>
    saveRoom fits (fst (appendMessage fits (collab_message uuid now sender e) r)) = Some r' \<and>
    last (r_messages r') = (collab_message uuid now sender e)\<lparr>rm_sequence := r_nextMessageSequence r + 1\<rparr> \<and>
    pn_taskRequestId c = Some (ce_requestId e) \<and> ce_requestId e = ps_taskRequestId s \<and> ce_kind e = Request \<and>
    ce_from e = p_id sender \<and> ce_target e = js_trim (p_id agent) \<and>
    rl_humans rl' = put_human stores (h\<lparr>hs_start := None\<rparr>) (rl_humans rl)"
  using assms(4)
proof (cases rule: answer_cases)
  case (answered agent c)
  have same: "rl_humans (released stores so rl) = rl_humans rl" by (simp add: released_def)
  obtain h s where hs: "pn_operation c = Prepare_session"
    "humanSocketFor (rl_humans rl) (pn_humanParticipantId c) (pn_humanConnectionNonce c) = Some h" "start_matches now c agent h = Some s"
    "js_get msg ''ok'' = JBool True"
    "create_prepared fits sends uuid now r agent c s h (cancel_frames stores sends now r agent c (released stores so rl)) tracking = (r', tracking', sent)"
    "rl_humans rl' = put_human stores (h\<lparr>hs_start := None\<rparr>) (rl_humans rl)"
    using answered_task [OF answered(6) assms(5)] same by metis
  have inv: "relay_inv r rl" by (rule relay_run_inv [OF assms(1,2)])
  then have "p_id agent = aa_participantId (as_attachment so)" using own_key answered(1) by (auto simp: relay_inv_def)
  note s = matched_task [OF inv assms(3) answered(3,4) hs(1-3) this]
  from hs(5) show ?thesis
  proof (cases rule: created_task)
    case (created sender n e)
    note rec = request_recorded [OF created(3)]
    have e: "ce_requestId e = ps_taskRequestId s \<and> ce_kind e = Request \<and> ce_from e = p_id sender \<and> ce_target e = js_trim (p_id agent)"
      using start_event [OF rec(1) s(2)] s(3) by (simp add: collab_context_of_def)
    show ?thesis
      by (intro exI [of _ agent] exI [of _ c] exI [of _ h] exI [of _ s] exI [of _ sender] exI [of _ e] conjI)
        (use answered(1-5) hs(1-4,6) created(1,2) save_keeps(2) [OF rec(5)] rec(5) e s(1) in simp_all)
  qed (use assms(5) in simp)
qed (use assms(5) in simp_all)

subsection \<open>An answer is taken once, and a start that fails is released\<close>

lemma no_slot_ignored: "aa_pendingControl (as_attachment so) = None \<Longrightarrow>
    handleAgentSessionResult fits stores sends uuid now r so msg tracking rl = (r, tracking, rl, [])"
proof -
  assume "aa_pendingControl (as_attachment so) = None"
  then have "answered_control msg so = None" by (auto simp: answered_control_def split: option.splits)
  then show ?thesis by (auto simp: handleAgentSessionResult_def Let_def split: option.splits)
qed

theorem answer_taken_once:
  assumes "relay_ok rl" and "so \<in> set (rl_agents rl)"
    and "handleAgentSessionResult fits (\<lambda>_. True) sends uuid now r so msg tracking rl = (r', tracking', rl', sent)"
    and "(r', tracking', rl', sent) \<noteq> (r, tracking, rl, [])"
    and "so' \<in> set (rl_agents rl')" and "as_id so' = as_id so"
  shows "handleAgentSessionResult fits2 stores2 sends2 uuid2 later r2 so' msg2 tracking2 rl2 = (r2, tracking2, rl2, [])"
proof (rule no_slot_ignored)
  have agents: "rl_agents rl' = rl_agents (released (\<lambda>_. True) so rl)" using assms(3)
  proof (cases rule: answer_cases)
    case (answered agent c)
    then show ?thesis using create_relay by blast
  qed (use assms(4) in auto)
  then obtain x where x: "x \<in> set (rl_agents rl)" "so' = (if as_id x = as_id so then x\<lparr>as_attachment := (as_attachment x)\<lparr>aa_pendingControl := None\<rparr>\<rparr> else x)"
    using assms(5) by (auto simp: released_def put_slot_def)
  then show "aa_pendingControl (as_attachment so') = None" using assms(6) by (auto split: if_splits)
qed

lemma current_slot_free [simp]: "current_agent_socket r i (so\<lparr>as_attachment := (as_attachment so)\<lparr>aa_pendingControl := c\<rparr>\<rparr>) = current_agent_socket r i so"
  by (simp add: current_agent_socket_def split: option.split)

lemma current_put_slot: "so \<in> set agents \<Longrightarrow> current_agent_socket r i so \<Longrightarrow> find (current_agent_socket r i) (put_slot n c agents) \<noteq> None"
  by (induction agents) (auto simp: put_slot_def)

lemma cancel_sent:
  assumes "sockets_apart rl" and "so \<in> set (rl_agents rl)" and "current_agent_socket r (p_id agent) so" and "connected_agent (r_participants r) (p_id agent)"
  shows "cancel_frames stores (\<lambda>_. True) now r agent c (released stores2 so2 rl) task =
    [To_agent (as_id so) (Cancel_frame (pn_humanParticipantId c) (truthy_str (Some task)))]"
proof -
  have "find (current_agent_socket r (p_id agent)) (rl_agents (released stores2 so2 rl)) \<noteq> None"
    using assms(2,3) current_put_slot by (auto simp: released_def find_None_iff)
  then obtain x where x: "find (current_agent_socket r (p_id agent)) (rl_agents (released stores2 so2 rl)) = Some x" by blast
  from find_member [OF x] obtain y where y: "y \<in> set (rl_agents rl)" "as_id y = as_id x" "agent_owner y = agent_owner x"
    "current_agent_socket r (p_id agent) x"
    by (auto simp: released_def put_slot_def agent_owner_def split: if_splits)
  then have "agent_owner y = agent_owner so" using assms(3)
    by (auto simp: agent_owner_def current_agent_socket_def split: option.split_asm)
  then have "y = so" using assms(1,2) y(1) by (auto simp: sockets_apart_def distinct_map dest: inj_onD)
  then show ?thesis using x y(2) assms(4)
    by (auto simp: cancel_frames_def sendAgentSessionCancel_def sendAgentSessionFrame_def)
qed

lemma slot_task:
  assumes "relay_inv r rl" and "so \<in> set (rl_agents rl)" and "answered_control msg so = Some c" and "pn_operation c = Prepare_session"
  shows "truthy_str (Some (task_of c)) = pn_taskRequestId c"
proof -
  have "aa_pendingControl (as_attachment so) = Some c"
    using assms(3) by (auto simp: answered_control_def split: if_splits option.splits)
  then have "preparing so = Some c" using assms(4) by (simp add: preparing_def)
  then obtain t where "pn_taskRequestId c = Some t" "isCanonicalCollabRequestId (JStr t)"
    using assms(1,2) by (auto simp: relay_inv_def list_all_iff slot_canonical_def split: option.splits)
  then show ?thesis using canonical_trim by (simp add: task_of_def truthy_str_def)
qed

text \<open>
  C37: In any run of the relay, a Runtime that says its session is ready, in answer to the request its
  socket holds, either gets the Task it prepared, as the Room's last message and from the Human who asked,
  or is told, on that socket, to release that very preparation of that Human.
\<close>

theorem prepared_session_used_or_released:
  assumes "relay_step\<^sup>*\<^sup>* (r0, c0, \<lparr>rl_humans = [], rl_agents = []\<rparr>) (r, tracking, rl)" and "own_keys r0" and "so \<in> set (rl_agents rl)"
    and "handleAgentSessionResult fits stores (\<lambda>_. True) uuid now r so msg tracking rl = (r', tracking', rl', sent)"
    and "current_agent_socket r (aa_participantId (as_attachment so)) so"
    and "connected_agent (r_participants r) (aa_participantId (as_attachment so))"
    and "answered_control msg so = Some c" and "pn_operation c = Prepare_session" and "js_get msg ''ok'' = JBool True"
  shows "(\<exists>sender e. dget (r_participants r) (pn_humanParticipantId c) = Some sender \<and>
      last (r_messages r') = (collab_message uuid now sender e)\<lparr>rm_sequence := r_nextMessageSequence r + 1\<rparr> \<and>
      pn_taskRequestId c = Some (ce_requestId e) \<and> ce_kind e = Request \<and> ce_target e = js_trim (aa_participantId (as_attachment so))) \<or>
    To_agent (as_id so) (Cancel_frame (pn_humanParticipantId c) (pn_taskRequestId c)) \<in> set sent"
  using assms(4)
proof (cases rule: answer_cases)
  case ignored
  then show ?thesis using assms(5-7) by (auto simp: agent_in_def connected_agent_def split: option.splits)
next
  case (late agent c')
  have inv: "relay_inv r rl" by (rule relay_run_inv [OF assms(1,2)])
  have c: "c' = c" "p_id agent = aa_participantId (as_attachment so)" using late(1,4) assms(7) own_key inv by (auto simp: relay_inv_def)
  have "cancel_frames stores (\<lambda>_. True) now r agent c (released stores so rl) task =
      [To_agent (as_id so) (Cancel_frame (pn_humanParticipantId c) (truthy_str (Some task)))]" for task
    by (rule cancel_sent) (use inv assms(3,5,6) c in \<open>simp_all add: relay_inv_def\<close>)
  then show ?thesis using late(9) assms(8) c(1) slot_task [OF inv assms(3,7,8)] by simp
next
  case (answered agent c')
  have inv: "relay_inv r rl" by (rule relay_run_inv [OF assms(1,2)])
  have c: "c' = c" "p_id agent = aa_participantId (as_attachment so)" using answered(1,4) assms(7) own_key inv by (auto simp: relay_inv_def)
  have cancelled: "cancel_frames stores (\<lambda>_. True) now r agent c (released stores so rl) task =
      [To_agent (as_id so) (Cancel_frame (pn_humanParticipantId c) (truthy_str (Some task)))]" for task
    by (rule cancel_sent) (use inv assms(3,5,6) c in \<open>simp_all add: relay_inv_def\<close>)
  note a = answered(6) [unfolded c(1)] and t = slot_task [OF inv assms(3,7,8)]
  have same: "rl_humans (released stores so rl) = rl_humans rl" by (simp add: released_def)
  show ?thesis
  proof (cases "humanSocketFor (rl_humans rl) (pn_humanParticipantId c) (pn_humanConnectionNonce c)")
    case None
    then show ?thesis using a assms(8) cancelled t by (auto simp: answer_request_def same)
  next
    case (Some h)
    show ?thesis
    proof (cases "start_matches now c agent h")
      case None
      then show ?thesis using a assms(8) Some cancelled t by (auto simp: answer_request_def same)
    next
      case start: (Some s)
      note s = matched_task [OF inv assms(3,5,7,8) Some start c(2)]
      have "create_prepared fits (\<lambda>_. True) uuid now r agent c s h (cancel_frames stores (\<lambda>_. True) now r agent c (released stores so rl)) tracking =
          (r', tracking', sent)"
        using a assms(8,9) Some start by (auto simp: answer_request_def Let_def same split: prod.splits)
      then show ?thesis
      proof (cases rule: created_task)
        case (created sender n e)
        note rec = request_recorded [OF created(3)]
        show ?thesis
          using start_event [OF rec(1) s(2)] s(1,3) save_keeps(2) [OF rec(5)] created(1) c(2) by auto
      next
        case not_created
        moreover have "ps_taskRequestId s \<noteq> []" using canonical_trim [OF s(2)] by blast
        ultimately show ?thesis using cancelled [of "ps_taskRequestId s"] s(1) by (simp add: truthy_str_def)
      qed
    qed
  qed
qed

subsection \<open>A concrete start\<close>

definition demo_resident :: participant where
  "demo_resident = demo_participant ''bot'' Agent True\<lparr>p_connectionNonce := Some (lit ''n1''),
     p_runtimeFeatures := Some \<lparr>rf_taskSessionContinuation = True, rf_taskExecutionReconciliation = False\<rparr>\<rparr>"

definition demo_relay_room :: room where
  "demo_relay_room = set_participant demo_resident demo_room"

definition demo_browser :: human_socket where
  "demo_browser = \<lparr>hs_id = 1, hs_participantId = lit ''ana'', hs_nonce = lit ''h1'', hs_open = True, hs_discovery = None, hs_start = None\<rparr>"

definition demo_resident_socket :: agent_socket where
  "demo_resident_socket = \<lparr>as_id = 2, as_attachment = \<lparr>aa_participantId = lit ''bot'', aa_nonce = lit ''n1'', aa_cursor = 0,
     aa_pendingControl = None, aa_activeTurns = None\<rparr>\<rparr>"

definition demo_relay :: relay where
  "demo_relay = \<lparr>rl_humans = [demo_browser], rl_agents = [demo_resident_socket]\<rparr>"

definition demo_start_message :: js where
  "demo_start_message = JObj [(lit ''requestId'', JStr (lit ''b1'')), (lit ''targetParticipantId'', JStr (lit ''bot'')),
     (lit ''sessionToken'', JStr (lit ''s-1'')), (lit ''summary'', JStr (lit ''go on''))]"

definition demo_ready :: js where
  "demo_ready = JObj [(lit ''type'', JStr (lit ''task-session-result'')), (lit ''operation'', JStr (lit ''prepare'')),
     (lit ''requestId'', JStr (lit ''u1'')), (lit ''ok'', JBool True)]"

definition demo_started :: "collab_tracking \<times> relay \<times> sent_frame list" where
  "demo_started = handleTaskSessionStart (\<lambda>_. True) (\<lambda>_. True) 10 (lit ''u1'') (lit ''task-9'') demo_relay_room
     (demo_participant ''ana'' Human True) demo_browser demo_start_message new_tracking demo_relay"

definition demo_waiting_socket :: agent_socket where
  "demo_waiting_socket = hd (rl_agents (fst (snd demo_started)))"

definition demo_prepared :: "room \<times> collab_tracking \<times> relay \<times> sent_frame list" where
  "demo_prepared = handleAgentSessionResult (\<lambda>_. True) (\<lambda>_. True) (\<lambda>_. True) (lit ''m9'') 20 demo_relay_room demo_waiting_socket demo_ready
     (fst demo_started) (fst (snd demo_started))"

lemma demo_waiting: "live_slot 15 demo_waiting_socket" "demo_waiting_socket \<in> set (rl_agents (fst (snd demo_started)))"
    "map as_id (rl_agents (fst (snd demo_started))) = [2]" "as_id demo_waiting_socket = 2"
    "map_option pn_operation (answered_control demo_ready demo_waiting_socket) = Some Prepare_session"
    "current_agent_socket demo_relay_room (aa_participantId (as_attachment demo_waiting_socket)) demo_waiting_socket"
    "connected_agent (r_participants demo_relay_room) (aa_participantId (as_attachment demo_waiting_socket))"
proof -
  have "case rl_agents (fst (snd demo_started)) of [so] \<Rightarrow> live_slot 15 so \<and> as_id so = 2 \<and> aa_participantId (as_attachment so) = lit ''bot'' \<and>
      aa_nonce (as_attachment so) = lit ''n1'' \<and> map_option pn_operation (answered_control demo_ready so) = Some Prepare_session | _ \<Rightarrow> False"
    by code_simp
  then obtain so where so: "rl_agents (fst (snd demo_started)) = [so]" "live_slot 15 so" "as_id so = 2"
    "aa_participantId (as_attachment so) = lit ''bot''" "aa_nonce (as_attachment so) = lit ''n1''"
    "map_option pn_operation (answered_control demo_ready so) = Some Prepare_session" by (auto split: list.splits)
  have seat: "dget (r_participants demo_relay_room) (lit ''bot'') = Some demo_resident"
    by (simp add: demo_relay_room_def set_participant_def demo_resident_def)
  show "live_slot 15 demo_waiting_socket" "demo_waiting_socket \<in> set (rl_agents (fst (snd demo_started)))"
    "map as_id (rl_agents (fst (snd demo_started))) = [2]" "as_id demo_waiting_socket = 2"
    "map_option pn_operation (answered_control demo_ready demo_waiting_socket) = Some Prepare_session"
    "current_agent_socket demo_relay_room (aa_participantId (as_attachment demo_waiting_socket)) demo_waiting_socket"
    "connected_agent (r_participants demo_relay_room) (aa_participantId (as_attachment demo_waiting_socket))"
    by (simp_all add: demo_waiting_socket_def so current_agent_socket_def connected_agent_def seat) (simp_all add: demo_resident_def)
qed

lemma demo_created: "r_nextMessageSequence (fst demo_prepared) = 3" "as_id (hd (rl_agents (fst (snd (snd demo_prepared))))) = 2"
    "rl_agents (fst (snd (snd demo_prepared))) \<noteq> []"
proof -
  have "case demo_prepared of (r, c, rl, sent) \<Rightarrow> r_nextMessageSequence r = 3 \<and> as_id (hd (rl_agents rl)) = 2 \<and> rl_agents rl \<noteq> []" by code_simp
  then show "r_nextMessageSequence (fst demo_prepared) = 3" "as_id (hd (rl_agents (fst (snd (snd demo_prepared))))) = 2"
    "rl_agents (fst (snd (snd demo_prepared))) \<noteq> []" by (simp_all add: case_prod_beta)
qed

lemma demo_relay_people: "own_keys demo_relay_room"
  unfolding demo_relay_room_def by (rule own_set) (rule demo_people)

lemma relay_demo_run: "relay_step\<^sup>*\<^sup>* (demo_relay_room, new_tracking, \<lparr>rl_humans = [], rl_agents = []\<rparr>)
    (demo_relay_room, fst demo_started, fst (snd demo_started))"
proof -
  have first: "relay_step (demo_relay_room, new_tracking, \<lparr>rl_humans = [], rl_agents = []\<rparr>) (demo_relay_room, new_tracking, demo_relay)"
    by (rule Room_step) (simp_all add: demo_relay_people sockets_apart_def carried_def demo_relay_def demo_browser_def demo_resident_socket_def preparing_def)
  have "p_id (demo_participant ''ana'' Human True) = hs_participantId demo_browser" by code_simp
  then have then_start: "relay_step (demo_relay_room, new_tracking, demo_relay) (demo_relay_room, fst demo_started, fst (snd demo_started))"
    by (intro Start_step [of demo_browser _ _ "\<lambda>_. True" "\<lambda>_. True" 10 "lit ''u1''" "lit ''task-9''" _
      demo_start_message _ _ _ "snd (snd demo_started)"]) (simp_all add: demo_relay_def demo_started_def)
  show ?thesis
    by (rule rtranclp.rtrancl_into_rtrancl [where r = relay_step], rule r_into_rtranclp [where r = relay_step], rule first, rule then_start)
qed

lemma demo_answer_run: "handleAgentSessionResult (\<lambda>_. True) (\<lambda>_. True) (\<lambda>_. True) (lit ''m9'') 20 demo_relay_room demo_waiting_socket demo_ready
     (fst demo_started) (fst (snd demo_started)) =
     (fst demo_prepared, fst (snd demo_prepared), fst (snd (snd demo_prepared)), snd (snd (snd demo_prepared)))"
  by (simp add: demo_prepared_def)

lemma demo_new_room: "fst demo_prepared \<noteq> demo_relay_room"
proof -
  have "r_nextMessageSequence demo_relay_room = 2" by (simp add: demo_relay_room_def set_participant_def demo_room_def)
  then show ?thesis using demo_created(1) by auto
qed

theorem prepared_task_pinned_witness:
  "\<exists>c sender e. answered_control demo_ready demo_waiting_socket = Some c \<and>
    last (r_messages (fst demo_prepared)) = (collab_message (lit ''m9'') 20 sender e)\<lparr>rm_sequence := r_nextMessageSequence demo_relay_room + 1\<rparr> \<and>
    pn_taskRequestId c = Some (ce_requestId e) \<and> ce_kind e = Request \<and> ce_from e = p_id sender"
  using prepared_task_pinned [OF relay_demo_run demo_relay_people demo_waiting(2) demo_answer_run demo_new_room] by metis

theorem live_correlation_kept_witness:
  "demo_waiting_socket \<in> set (rl_agents (fst (snd (handleTaskSessionStart (\<lambda>_. True) (\<lambda>_. True) 15 (lit ''u2'') (lit ''task-8'') demo_relay_room
     (demo_participant ''ana'' Human True) demo_browser demo_start_message (fst demo_started) (fst (snd demo_started))))))"
  by (rule live_correlation_kept [THEN conjunct2]) (simp_all add: demo_waiting)

theorem answer_taken_once_witness:
  "handleAgentSessionResult (\<lambda>_. True) (\<lambda>_. True) (\<lambda>_. True) (lit ''m9'') 21 (fst demo_prepared)
      (hd (rl_agents (fst (snd (snd demo_prepared))))) demo_ready (fst (snd demo_prepared)) (fst (snd (snd demo_prepared))) =
    (fst demo_prepared, fst (snd demo_prepared), fst (snd (snd demo_prepared)), [])"
proof (rule answer_taken_once [OF _ _ demo_answer_run])
  show "relay_ok (fst (snd demo_started))" using relay_run_inv [OF relay_demo_run demo_relay_people] by (simp add: relay_inv_def)
  show "hd (rl_agents (fst (snd (snd demo_prepared)))) \<in> set (rl_agents (fst (snd (snd demo_prepared))))"
    using demo_created(3) by simp
  show "(fst demo_prepared, fst (snd demo_prepared), fst (snd (snd demo_prepared)), snd (snd (snd demo_prepared))) \<noteq>
      (demo_relay_room, fst demo_started, fst (snd demo_started), [])" using demo_new_room by blast
qed (use demo_waiting demo_created in simp_all)

theorem prepared_session_used_or_released_witness:
  "(\<exists>sender e. last (r_messages (fst demo_prepared)) = (collab_message (lit ''m9'') 20 sender e)\<lparr>rm_sequence := r_nextMessageSequence demo_relay_room + 1\<rparr> \<and>
      pn_taskRequestId (the (answered_control demo_ready demo_waiting_socket)) = Some (ce_requestId e)) \<or>
    To_agent 2 (Cancel_frame (pn_humanParticipantId (the (answered_control demo_ready demo_waiting_socket)))
      (pn_taskRequestId (the (answered_control demo_ready demo_waiting_socket)))) \<in> set (snd (snd (snd demo_prepared)))"
proof -
  obtain c where c: "answered_control demo_ready demo_waiting_socket = Some c" "pn_operation c = Prepare_session"
    using demo_waiting(5) by auto
  have ok: "js_get demo_ready ''ok'' = JBool True" by code_simp
  show ?thesis
    using prepared_session_used_or_released [OF relay_demo_run demo_relay_people demo_waiting(2) demo_answer_run demo_waiting(6,7) c ok]
    by (metis c(1) demo_waiting(4) option.sel)
qed

end
