(* ===== verification/Room_Events.thy ===== *)
theory Room_Events
  imports Room_Departure
begin

text \<open>
  What an Agent reads (RoomSession of app/src/do/RoomSession.ts): the messages and attachments
  the Room retains share one sequence domain but are evicted on their own, a poll returns what
  lies after a cursor and says when something in between is gone, and a context page walks the
  retained events. Room Apps and the media transport that a poll also reports are left out.
\<close>

record event_attachment =
  ea_id :: jstr
  ea_fileName :: jstr
  ea_mimeType :: jstr
  ea_size :: int
  ea_taskRequestId :: "jstr option"

datatype agent_event_type = AE_text | AE_action | AE_image

record agent_event =
  ae_sequence :: int
  ae_type :: agent_event_type
  ae_scopeId :: "jstr option"
  ae_id :: jstr
  ae_name :: jstr
  ae_kind :: participant_kind
  ae_text :: "jstr option"
  ae_actionType :: "jstr option"
  ae_actionPayload :: "(jstr, jstr) dict option"
  ae_collab :: "collab_event option"
  ae_permission :: "permission_event option"
  ae_attachment :: "event_attachment option"
  ae_addressed :: bool
  ae_createdAt :: int

definition message_event_of :: "room_message \<Rightarrow> jstr option \<Rightarrow> bool \<Rightarrow> agent_event" where
  "message_event_of m scopeId addressed = \<lparr>ae_sequence = rm_sequence m,
     ae_type = (case rm_type m of Text_message \<Rightarrow> AE_text | Action_message \<Rightarrow> AE_action),
     ae_scopeId = scopeId, ae_id = rm_peerId m, ae_name = rm_name m, ae_kind = rm_kind m,
     ae_text = rm_text m, ae_actionType = rm_actionType m, ae_actionPayload = rm_actionPayload m,
     ae_collab = rm_collab m, ae_permission = rm_permission m, ae_attachment = None,
     ae_addressed = addressed, ae_createdAt = rm_createdAt m\<rparr>"

definition toAgentEvent :: "task_index \<Rightarrow> jstr \<Rightarrow> bool \<Rightarrow> room_message \<Rightarrow> agent_event option" where
  "toAgentEvent index i historical m = (case projectTaskEvent index m i historical of
     Task_hidden \<Rightarrow> None
   | Task_visible scopeId addressed \<Rightarrow> Some (message_event_of m (Some scopeId) addressed)
   | Ordinary \<Rightarrow> Some (message_event_of m None
       (case rm_targets m of Some ts \<Rightarrow> i \<in> set ts | None \<Rightarrow> False)))"

text \<open>A Human's attachment wakes the Agents of its Task only by the intent stored with it.\<close>

definition attachment_addressed :: "task_index \<Rightarrow> participants \<Rightarrow> jstr \<Rightarrow> attachment \<Rightarrow> bool" where
  "attachment_addressed index ps i a = (case at_taskRequestId a of
     None \<Rightarrow> False
   | Some t \<Rightarrow> at_senderKind a = Human \<and> at_taskWake a = Some True \<and>
       (case resolveTaskRequest index (JStr t) ps of
          Inr resolution \<Rightarrow> i \<in> set (tr_agents resolution) | Inl _ \<Rightarrow> False))"

definition toAttachmentEvent :: "task_index \<Rightarrow> participants \<Rightarrow> jstr \<Rightarrow> attachment \<Rightarrow> agent_event option" where
  "toAttachmentEvent index ps i a =
     (if (case at_taskRequestId a of Some t \<Rightarrow> \<not> taskAgentParticipates index t i | None \<Rightarrow> False) then None
      else Some \<lparr>ae_sequence = at_sequence a, ae_type = AE_image,
        ae_scopeId = map_option scope_of (truthy_str (at_taskRequestId a)),
        ae_id = at_senderId a, ae_name = at_senderName a, ae_kind = at_senderKind a, ae_text = None,
        ae_actionType = None, ae_actionPayload = None, ae_collab = None, ae_permission = None,
        ae_attachment = Some \<lparr>ea_id = at_id a, ea_fileName = at_fileName a, ea_mimeType = at_mimeType a,
          ea_size = at_size a, ea_taskRequestId = truthy_str (at_taskRequestId a)\<rparr>,
        ae_addressed = attachment_addressed index ps i a, ae_createdAt = at_createdAt a\<rparr>)"

subsection \<open>A poll\<close>

record room_entry =
  en_sequence :: int
  en_event :: "agent_event option"
  en_peerId :: jstr
  en_visible :: bool
  en_deliverOwn :: bool

definition message_entry :: "task_index \<Rightarrow> jstr \<Rightarrow> room_message \<Rightarrow> room_entry" where
  "message_entry index i m = \<lparr>en_sequence = rm_sequence m, en_event = toAgentEvent index i False m,
     en_peerId = rm_peerId m, en_visible = isPermissionVisibleToAgent m i,
     en_deliverOwn = (case permissionEventForMessage m of Some (Perm_expired _) \<Rightarrow> True | _ \<Rightarrow> False)\<rparr>"

definition attachment_entry :: "task_index \<Rightarrow> participants \<Rightarrow> jstr \<Rightarrow> attachment \<Rightarrow> room_entry" where
  "attachment_entry index ps i a = (let e = toAttachmentEvent index ps i a in
     \<lparr>en_sequence = at_sequence a, en_event = e, en_peerId = at_senderId a,
      en_visible = (e \<noteq> None), en_deliverOwn = False\<rparr>)"

text \<open>The first sequence of the newest contiguous suffix, over sequences in ascending order.\<close>

fun floor_from :: "int \<Rightarrow> int list \<Rightarrow> int" where
  "floor_from low [] = low"
| "floor_from low (n # older) = (if n \<noteq> low - 1 then low else floor_from n older)"

definition retainedEventCoverageFloor :: "int list \<Rightarrow> int" where
  "retainedEventCoverageFloor sequences = (case rev sequences of
     [] \<Rightarrow> 0 | n # older \<Rightarrow> floor_from n older)"

record poll_result =
  po_events :: "agent_event list"
  po_cursor :: int
  po_expires :: int
  po_truncated :: bool

definition room_entries :: "room \<Rightarrow> jstr \<Rightarrow> room_entry list" where
  "room_entries r i = (let index = buildTaskProjectionIndex (r_messages r) (r_participants r) in
     sort_key en_sequence (map (message_entry index i) (r_messages r) @
       map (attachment_entry index (r_participants r) i) (r_attachments r)))"

definition delivered :: "jstr \<Rightarrow> int \<Rightarrow> room_entry \<Rightarrow> bool" where
  "delivered i cursor e \<longleftrightarrow> cursor < en_sequence e \<and> (en_peerId e \<noteq> i \<or> en_deliverOwn e) \<and>
     en_visible e \<and> en_event e \<noteq> None"

definition agentEvents :: "room \<Rightarrow> jstr \<Rightarrow> int \<Rightarrow> poll_result" where
  "agentEvents r i cursor =
     (let serverCursor = r_nextMessageSequence r;
          clamped = min (max cursor 0) serverCursor;
          events = room_entries r i;
          coverageFloor = retainedEventCoverageFloor (map en_sequence events);
          truncated = (0 < coverageFloor \<and> clamped < coverageFloor - 1);
          effective = (if truncated then coverageFloor - 1 else clamped) in
      \<lparr>po_events = map (the \<circ> en_event) (filter (delivered i effective) events),
       po_cursor = serverCursor, po_expires = r_expiresAt r, po_truncated = truncated\<rparr>)"

subsection \<open>Context pages\<close>

definition retainedContextEvents :: "room \<Rightarrow> jstr \<Rightarrow> agent_event list" where
  "retainedContextEvents r i =
     (let index = buildTaskProjectionIndex (r_messages r) (r_participants r) in
      sort_key ae_sequence
        (List.map_filter (toAgentEvent index i True)
           (filter (\<lambda>m. isPermissionVisibleToAgent m i) (r_messages r)) @
         List.map_filter (toAttachmentEvent index (r_participants r) i) (r_attachments r)))"

record 'e context_page =
  cx_entries :: "'e list"
  cx_oldest :: int
  cx_newest :: int
  cx_hasMoreBefore :: bool
  cx_hasMoreAfter :: bool
  cx_truncated :: bool

definition contextPage :: "('e \<Rightarrow> int) \<Rightarrow> 'e list \<Rightarrow> int option \<Rightarrow> int option \<Rightarrow> nat \<Rightarrow> 'e context_page" where
  "contextPage sequence entries before after limit =
     (let coverageFloor = retainedEventCoverageFloor (map sequence entries);
          filtered = filter (\<lambda>e. (case after of None \<Rightarrow> True | Some a \<Rightarrow> a < sequence e) \<and>
            (case before of None \<Rightarrow> True | Some b \<Rightarrow> sequence e < b)) entries;
          page = (if before \<noteq> None \<and> after = None then slice_last limit filtered else take limit filtered) in
      \<lparr>cx_entries = page,
       cx_oldest = (case entries of [] \<Rightarrow> 0 | e # _ \<Rightarrow> sequence e),
       cx_newest = (if entries = [] then 0 else sequence (last entries)),
       cx_hasMoreBefore = (case page of [] \<Rightarrow> False | f # _ \<Rightarrow> list_ex (\<lambda>e. sequence e < sequence f) entries),
       cx_hasMoreAfter = (page \<noteq> [] \<and> list_ex (\<lambda>e. sequence (last page) < sequence e) entries),
       cx_truncated = (case after of None \<Rightarrow> False
         | Some a \<Rightarrow> 0 < coverageFloor \<and> a < coverageFloor - 1)\<rparr>)"

subsection \<open>What is retained\<close>

definition sequences :: "room \<Rightarrow> int list" where
  "sequences r = map rm_sequence (r_messages r) @ map at_sequence (r_attachments r)"

text \<open>Sequences are given once, starting at one.\<close>

definition sequences_ok :: "room \<Rightarrow> bool" where
  "sequences_ok r \<longleftrightarrow> distinct (sequences r) \<and> list_all (\<lambda>n. 0 < n \<and> n \<le> r_nextMessageSequence r) (sequences r)"

lemma floor_from_spec:
  "sorted_wrt (>) (f # older) \<Longrightarrow> floor_from f older \<in> set (f # older) \<and>
   (\<forall>n. floor_from f older \<le> n \<and> n \<le> f \<longrightarrow> n \<in> set (f # older)) \<and>
   floor_from f older - 1 \<notin> set (f # older)"
proof (induction older arbitrary: f)
  case (Cons n older)
  show ?case
  proof (cases "n = f - 1")
    case True
    have s: "sorted_wrt (>) (n # older)" and below: "\<forall>k \<in> set (n # older). k < f" using Cons.prems by simp_all
    note h = Cons.IH [OF s]
    from h have "floor_from n older \<in> set (n # older)" by blast
    with below have "floor_from n older < f" by blast
    moreover have "floor_from f (n # older) = floor_from n older" using True by simp
    moreover have "k = f \<or> k \<le> n" if "k \<le> f" for k using True that by linarith
    ultimately show ?thesis using h by (metis diff_ge_0_iff_ge diff_less_eq insert_iff less_add_one less_irrefl list.set(2) order_less_trans)
  next
    case False
    with Cons.prems have "\<forall>k \<in> set (n # older). k < f - 1" by fastforce
    with False show ?thesis by auto
  qed
qed auto

lemma floor_spec:
  assumes "sorted_wrt (<) xs" and "xs \<noteq> []"
  shows "retainedEventCoverageFloor xs \<in> set xs \<and>
    (\<forall>n. retainedEventCoverageFloor xs \<le> n \<and> n \<le> last xs \<longrightarrow> n \<in> set xs) \<and>
    retainedEventCoverageFloor xs - 1 \<notin> set xs"
proof -
  obtain f older where f: "rev xs = f # older" using assms(2) by (cases "rev xs") auto
  then have xs: "xs = rev older @ [f]" by (metis rev.simps(2) rev_rev_ident)
  have "sorted_wrt (>) (f # older)" using assms(1) by (auto simp: xs sorted_wrt_append sorted_wrt_rev)
  from floor_from_spec [OF this] show ?thesis by (simp add: retainedEventCoverageFloor_def xs)
qed

lemma floor_gap:
  assumes "sorted_wrt (<) xs" and "\<forall>n \<in> set xs. 0 < n" and "0 \<le> c"
  shows "0 < retainedEventCoverageFloor xs \<and> c < retainedEventCoverageFloor xs - 1 \<longleftrightarrow>
    (\<exists>n m. c < n \<and> n < m \<and> m \<in> set xs \<and> n \<notin> set xs)"
proof (cases "xs = []")
  case False
  let ?f = "retainedEventCoverageFloor xs"
  note f = floor_spec [OF assms(1) False]
  have last: "m \<le> last xs" if "m \<in> set xs" for m
    using assms(1) that by (induction xs) (auto intro: less_imp_le)
  show ?thesis
  proof
    assume "0 < ?f \<and> c < ?f - 1"
    with f show "\<exists>n m. c < n \<and> n < m \<and> m \<in> set xs \<and> n \<notin> set xs"
      by (intro exI [of _ "?f - 1"] exI [of _ ?f]) simp
  next
    assume "\<exists>n m. c < n \<and> n < m \<and> m \<in> set xs \<and> n \<notin> set xs"
    then obtain n m where n: "c < n" "n < m" "m \<in> set xs" "n \<notin> set xs" by blast
    have "n < ?f" using f n last [OF n(3)] by (meson le_less_trans less_imp_le not_less)
    with n f assms(2) show "0 < ?f \<and> c < ?f - 1" by auto
  qed
qed (simp add: retainedEventCoverageFloor_def)

lemma map_entry_sequence [simp]: "en_sequence (message_entry index i m) = rm_sequence m"
  "en_sequence (attachment_entry index ps i a) = at_sequence a"
  by (simp_all add: message_entry_def attachment_entry_def Let_def)

lemma entries_sequences: "set (map en_sequence (room_entries r i)) = set (sequences r)"
  "length (room_entries r i) = length (sequences r)"
  by (simp_all add: room_entries_def sequences_def Let_def image_Un image_image)

lemma entries_sorted: "sequences_ok r \<Longrightarrow> sorted_wrt (<) (map en_sequence (room_entries r i))"
proof -
  assume r: "sequences_ok r"
  have s: "sorted (map en_sequence (room_entries r i))" by (simp add: room_entries_def Let_def)
  have "card (set (map en_sequence (room_entries r i))) = length (map en_sequence (room_entries r i))"
    using r by (simp only: entries_sequences length_map) (simp add: sequences_ok_def distinct_card)
  then have "distinct (map en_sequence (room_entries r i))" by (rule card_distinct)
  with s show ?thesis by (simp add: strict_sorted_iff)
qed

lemma poll_floor:
  assumes "sequences_ok r" and "0 \<le> r_nextMessageSequence r"
  shows "po_truncated (agentEvents r i cursor) \<longleftrightarrow>
    (\<exists>n m. min (max cursor 0) (r_nextMessageSequence r) < n \<and> n < m \<and> m \<in> set (sequences r) \<and> n \<notin> set (sequences r))"
proof -
  have pos: "\<forall>n \<in> set (map en_sequence (room_entries r i)). 0 < n"
    unfolding entries_sequences using assms(1) by (simp add: sequences_ok_def list_all_iff)
  have "0 \<le> min (max cursor 0) (r_nextMessageSequence r)" using assms(2) by simp
  from floor_gap [OF entries_sorted [OF assms(1), of i] pos this] show ?thesis
    unfolding entries_sequences by (simp add: agentEvents_def Let_def)
qed

text \<open>
  C18: a poll reports truncation exactly when an event is missing: some sequence after the
  cursor is no longer retained while a later one is.
\<close>

theorem poll_truncation_exact:
  assumes "sequences_ok r" and "0 \<le> r_nextMessageSequence r"
  shows "po_truncated (agentEvents r i cursor) \<longleftrightarrow>
    (\<exists>n m. max cursor 0 < n \<and> n < m \<and> m \<in> set (sequences r) \<and> n \<notin> set (sequences r))"
proof -
  have "m \<in> set (sequences r) \<Longrightarrow> m \<le> r_nextMessageSequence r" for m
    using assms(1) by (auto simp: sequences_ok_def list_all_iff)
  then show ?thesis unfolding poll_floor [OF assms] by (meson less_le_trans less_trans min_less_iff_disj not_less)
qed

lemma poll_events: "\<not> po_truncated (agentEvents r i cursor) \<Longrightarrow> po_events (agentEvents r i cursor) =
    map (the \<circ> en_event) (filter (delivered i (min (max cursor 0) (r_nextMessageSequence r))) (room_entries r i))"
  by (auto simp: agentEvents_def Let_def)

lemma message_entry_in: "m \<in> set (r_messages r) \<Longrightarrow>
    message_entry (buildTaskProjectionIndex (r_messages r) (r_participants r)) i m \<in> set (room_entries r i)"
  by (simp add: room_entries_def Let_def)

lemma poll_message:
  assumes "sequences_ok r" and "\<not> po_truncated (agentEvents r i cursor)"
    and "m \<in> set (r_messages r)" and "cursor < rm_sequence m" and "rm_peerId m \<noteq> i"
    and "isPermissionVisibleToAgent m i"
    and "toAgentEvent (buildTaskProjectionIndex (r_messages r) (r_participants r)) i False m = Some e"
  shows "e \<in> set (po_events (agentEvents r i cursor))"
proof -
  have "0 < rm_sequence m" "rm_sequence m \<le> r_nextMessageSequence r"
    using assms(1,3) by (auto simp: sequences_ok_def sequences_def list_all_iff)
  with assms(4) have "min (max cursor 0) (r_nextMessageSequence r) < rm_sequence m \<or>
      rm_sequence m = r_nextMessageSequence r \<and> r_nextMessageSequence r \<le> max cursor 0" by auto
  with assms(4) \<open>0 < rm_sequence m\<close> have "min (max cursor 0) (r_nextMessageSequence r) < rm_sequence m" by auto
  then have "delivered i (min (max cursor 0) (r_nextMessageSequence r))
      (message_entry (buildTaskProjectionIndex (r_messages r) (r_participants r)) i m)"
    using assms(5-7) by (simp add: delivered_def message_entry_def)
  with message_entry_in [OF assms(3), of i] show ?thesis
    using assms(7) by (force simp: poll_events [OF assms(2)] message_entry_def)
qed

lemma sequences_append:
  assumes "sequences_ok r" and "0 \<le> r_nextMessageSequence r"
  shows "sequences_ok (fst (appendMessage fits m r))"
proof -
  let ?n = "r_nextMessageSequence r + 1"
  let ?ms = "map rm_sequence (r_messages r) @ [?n]" and ?as = "map at_sequence (r_attachments r)"
  let ?ms' = "map rm_sequence (r_messages (fst (appendMessage fits m r)))"
  have bound: "\<forall>n \<in> set (sequences r). 0 < n \<and> n < ?n"
    using assms by (auto simp: sequences_ok_def list_all_iff)
  have set: "set (?ms @ ?as) = insert ?n (set (sequences r))" by (simp add: sequences_def)
  have all: "\<forall>n \<in> set (?ms @ ?as). 0 < n \<and> n \<le> ?n"
    unfolding set using bound assms(2) by (simp add: less_imp_le)
  have "?n \<notin> set (sequences r)" using bound by blast
  then have "distinct (?ms @ ?as)"
    using assms(1) by (simp add: sequences_ok_def sequences_def)
  moreover have s: "suffix (?ms' @ ?as) (?ms @ ?as)"
    using map_mono_suffix [OF append_suffix, of rm_sequence fits m r] by (simp add: suffix_def)
  ultimately have "distinct (?ms' @ ?as)" by (metis distinct_append suffix_def)
  moreover have "\<forall>n \<in> set (?ms' @ ?as). 0 < n \<and> n \<le> ?n" using all set_mono_suffix [OF s] by blast
  ultimately show ?thesis by (simp add: sequences_ok_def sequences_def list_all_iff)
qed

text \<open>
  C19: an Agent that polls again from the cursor of its last poll misses nothing: the next
  message the Room accepts from somebody else and lets it see is delivered by that poll,
  which is not truncated.
\<close>

theorem next_message_delivered:
  assumes "sequences_ok r" and "0 \<le> r_nextMessageSequence r" and "rm_peerId m \<noteq> i"
    and "appendMessage fits m r = (r', m')" and "isPermissionVisibleToAgent m' i"
    and "toAgentEvent (buildTaskProjectionIndex (r_messages r') (r_participants r')) i False m' = Some e"
  shows "\<not> po_truncated (agentEvents r' i (po_cursor (agentEvents r i cursor))) \<and>
    e \<in> set (po_events (agentEvents r' i (po_cursor (agentEvents r i cursor))))"
proof -
  let ?c = "r_nextMessageSequence r"
  have r': "r' = fst (appendMessage fits m r)" and m': "m' = m\<lparr>rm_sequence := ?c + 1\<rparr>"
    using assms(4) append_same(5) [of fits m r] by auto
  have cursor: "po_cursor (agentEvents r i cursor) = ?c" by (simp add: agentEvents_def Let_def)
  have ok: "sequences_ok r'" using sequences_append [OF assms(1,2)] by (simp add: r')
  have bound: "n \<le> ?c + 1" if "n \<in> set (sequences r')" for n
    using ok that by (auto simp: sequences_ok_def list_all_iff r')
  have "0 \<le> r_nextMessageSequence r'" using assms(2) by (simp add: r')
  from poll_floor [OF ok this, of i ?c] bound have trunc: "\<not> po_truncated (agentEvents r' i ?c)"
    using assms(2) by (force simp: r')
  have "m' \<in> set (r_messages r')" using append_last [of fits m r] by (metis last_in_set m' r')
  with poll_message [OF ok trunc _ _ _ assms(5,6)] assms(3) trunc show ?thesis by (simp add: cursor m')
qed

subsection \<open>What is not shown\<close>

lemma room_entry_cases: "x \<in> set (room_entries r i) \<Longrightarrow>
    (\<exists>m \<in> set (r_messages r). x = message_entry (buildTaskProjectionIndex (r_messages r) (r_participants r)) i m) \<or>
    (\<exists>a \<in> set (r_attachments r). x = attachment_entry (buildTaskProjectionIndex (r_messages r) (r_participants r))
      (r_participants r) i a)"
  by (auto simp: room_entries_def Let_def)

lemma toAgentEvent_fields: "toAgentEvent index i historical m = Some e \<Longrightarrow>
    ae_permission e = rm_permission m \<and> ae_actionType e = rm_actionType m \<and> ae_sequence e = rm_sequence m"
  by (auto simp: toAgentEvent_def message_event_of_def split: task_projection.splits)

lemma toAttachmentEvent_fields: "toAttachmentEvent index ps i a = Some e \<Longrightarrow>
    ae_permission e = None \<and> ae_sequence e = at_sequence a"
  by (auto simp: toAttachmentEvent_def split: if_splits)

text \<open>
  C20: a poll never shows an Agent a permission event of another Agent, and everything it shows
  comes after the cursor.
\<close>

theorem poll_hides_permissions:
  assumes "e \<in> set (po_events (agentEvents r i cursor))" and "sequences_ok r" and "cursor \<le> r_nextMessageSequence r"
  shows "cursor < ae_sequence e \<and>
    (ae_actionType e = Some (lit ''permission'') \<longrightarrow> (\<forall>p. ae_permission e = Some p \<longrightarrow> event_agent p = i))"
proof -
  from assms(1) obtain x c where x: "x \<in> set (room_entries r i)" "delivered i c x" "e = the (en_event x)"
    and c: "min (max cursor 0) (r_nextMessageSequence r) \<le> c"
    by (auto simp: agentEvents_def Let_def split: if_splits)
  from room_entry_cases [OF x(1)] show ?thesis
  proof (elim disjE bexE)
    fix m assume m: "x = message_entry (buildTaskProjectionIndex (r_messages r) (r_participants r)) i m"
    with x toAgentEvent_fields [of _ i False m e] c assms(3) show ?thesis
      by (auto simp: delivered_def message_entry_def isPermissionVisibleToAgent_def
          permissionEventForMessage_def split: if_splits)
  next
    fix a assume "x = attachment_entry (buildTaskProjectionIndex (r_messages r) (r_participants r)) (r_participants r) i a"
    with x toAttachmentEvent_fields [of _ _ i a e] c assms(3) show ?thesis
      by (auto simp: delivered_def attachment_entry_def Let_def)
  qed
qed

subsection \<open>Walking the context\<close>

lemma page_after: "cx_entries (contextPage sequence entries None (Some after) limit) =
    take limit (filter (\<lambda>e. after < sequence e) entries)"
  by (simp add: contextPage_def Let_def)

text \<open>A reader that asks for the page after the last event it has, until a page is empty.\<close>

function walk_pages :: "('e \<Rightarrow> int) \<Rightarrow> 'e list \<Rightarrow> nat \<Rightarrow> int \<Rightarrow> 'e list" where
  "walk_pages sequence entries limit after =
     (let page = cx_entries (contextPage sequence entries None (Some after) limit) in
      if page = [] then [] else page @ walk_pages sequence entries limit (sequence (last page)))"
  by auto

termination
proof (relation "measure (\<lambda>(sequence, entries, limit, after). length (filter (\<lambda>e. after < sequence e) entries))")
  fix sequence :: "'e \<Rightarrow> int" and entries limit after page
  assume page: "page = cx_entries (contextPage sequence entries None (Some after) limit)" "page \<noteq> []"
  then have "last page \<in> set (filter (\<lambda>e. after < sequence e) entries)"
    by (metis in_set_takeD last_in_set page_after)
  then have l: "last page \<in> set entries" "after < sequence (last page)" by auto
  have "filter (\<lambda>e. sequence (last page) < sequence e) entries =
      filter (\<lambda>e. sequence (last page) < sequence e) (filter (\<lambda>e. after < sequence e) entries)"
    using l(2) by (auto intro!: filter_cong)
  also have "length \<dots> < length (filter (\<lambda>e. after < sequence e) entries)"
    using l by (intro length_filter_less [of "last page"]) auto
  finally show "((sequence, entries, limit, sequence (last page)), sequence, entries, limit, after)
      \<in> measure (\<lambda>(sequence, entries, limit, after). length (filter (\<lambda>e. after < sequence e) entries))" by simp
qed simp

declare walk_pages.simps [simp del]

lemma take_filter_rest:
  assumes "sorted_wrt (<) (map sequence xs)" and "take n xs \<noteq> []"
  shows "filter (\<lambda>e. sequence (last (take n xs)) < (sequence e :: int)) xs = drop n xs"
proof -
  have "sorted_wrt (<) (map sequence (take n xs @ drop n xs))" using assms(1) by simp
  then have d: "\<forall>x \<in> set (take n xs). \<forall>y \<in> set (drop n xs). sequence x < sequence y"
    and t: "sorted_wrt (<) (map sequence (take n xs))"
    by (auto simp: sorted_wrt_append simp del: append_take_drop_id)
  have "\<forall>x \<in> set (take n xs). sequence x \<le> sequence (last (take n xs))"
    using sorted_last_max [OF t] by blast
  then have "filter (\<lambda>e. sequence (last (take n xs)) < sequence e) (take n xs) = []"
    by (auto simp: filter_empty_conv not_less)
  moreover have "filter (\<lambda>e. sequence (last (take n xs)) < sequence e) (drop n xs) = drop n xs"
    using d assms(2) by (auto simp: filter_id_conv)
  ultimately show ?thesis by (metis append_Nil append_take_drop_id filter_append)
qed

text \<open>
  Paging forward reads every retained entry after the starting point exactly once and in
  order, whatever the page size.
\<close>

theorem paging_complete:
  assumes "sorted_wrt (<) (map sequence entries)" and "0 < limit"
  shows "walk_pages sequence entries limit after = filter (\<lambda>e. after < sequence e) entries"
  using assms
proof (induction sequence entries limit after rule: walk_pages.induct)
  case (1 sequence entries limit after)
  let ?rest = "filter (\<lambda>e. after < sequence e) entries"
  show ?case
  proof (cases "?rest = []")
    case True
    then show ?thesis by (subst walk_pages.simps) (simp add: page_after)
  next
    case False
    let ?page = "take limit ?rest"
    have page: "?page \<noteq> []" using False 1 by simp
    have l: "after < sequence (last ?page)" using in_set_takeD [OF last_in_set [OF page]] by simp
    have sorted: "sorted_wrt (<) (map sequence ?rest)" using 1(2) by (simp add: sorted_wrt_map sorted_wrt_filter)
    have "walk_pages sequence entries limit (sequence (last ?page)) =
        filter (\<lambda>e. sequence (last ?page) < sequence e) entries"
      using 1 page by (simp add: page_after)
    also have "\<dots> = filter (\<lambda>e. sequence (last ?page) < sequence e) ?rest"
      using l by (auto intro!: filter_cong)
    also have "\<dots> = drop limit ?rest" by (rule take_filter_rest [OF sorted page])
    finally show ?thesis using page by (subst walk_pages.simps) (simp add: page_after Let_def)
  qed
qed

text \<open>A reader that follows \<open>hasMoreAfter\<close> for at most so many pages; \<open>None\<close>: it was not done by then.\<close>

fun read_pages :: "nat \<Rightarrow> ('e \<Rightarrow> int) \<Rightarrow> 'e list \<Rightarrow> nat \<Rightarrow> int \<Rightarrow> 'e list option" where
  "read_pages 0 sequence entries limit after = None"
| "read_pages (Suc n) sequence entries limit after =
     (let page = contextPage sequence entries None (Some after) limit in
      if cx_hasMoreAfter page
      then map_option ((@) (cx_entries page)) (read_pages n sequence entries limit (sequence (last (cx_entries page))))
      else Some (cx_entries page))"

lemma more_after: "cx_hasMoreAfter (contextPage sequence entries None (Some after) limit) \<longleftrightarrow>
    (let page = take limit (filter (\<lambda>e. after < sequence e) entries) in
     page \<noteq> [] \<and> filter (\<lambda>e. sequence (last page) < sequence e) entries \<noteq> [])"
  by (auto simp: contextPage_def Let_def list_ex_iff filter_empty_conv)

text \<open>
  C40: Paging forward ends, after no more pages than the entries fill, and has then read every retained
  entry after its starting point once and in order.
\<close>

theorem paging_ends:
  assumes "sorted_wrt (<) (map sequence entries)" and "0 < limit" and "0 < n"
    and "length (filter (\<lambda>e. after < sequence e) entries) \<le> n * limit"
  shows "read_pages n sequence entries limit after = Some (filter (\<lambda>e. after < sequence e) entries)"
  using assms(3,4)
proof (induction n arbitrary: after)
  case (Suc n)
  let ?rest = "filter (\<lambda>e. after < sequence e) entries"
  let ?page = "take limit ?rest"
  show ?case
  proof (cases "?rest = []")
    case True
    then show ?thesis by (simp add: Let_def more_after page_after)
  next
    case False
    then have page: "?page \<noteq> []" using assms(2) by simp
    have l: "after < sequence (last ?page)" using in_set_takeD [OF last_in_set [OF page]] by simp
    have sorted: "sorted_wrt (<) (map sequence ?rest)" using assms(1) by (simp add: sorted_wrt_map sorted_wrt_filter)
    have "filter (\<lambda>e. sequence (last ?page) < sequence e) entries = filter (\<lambda>e. sequence (last ?page) < sequence e) ?rest"
      using l by (auto intro!: filter_cong)
    also have "\<dots> = drop limit ?rest" by (rule take_filter_rest [OF sorted page])
    finally have next_entries: "filter (\<lambda>e. sequence (last ?page) < sequence e) entries = drop limit ?rest" .
    have more: "cx_hasMoreAfter (contextPage sequence entries None (Some after) limit) \<longleftrightarrow> drop limit ?rest \<noteq> []"
      unfolding more_after Let_def next_entries using page by blast
    show ?thesis
    proof (cases "drop limit ?rest = []")
      case True
      then show ?thesis using more by (simp add: Let_def page_after)
    next
      case more_left: False
      have few: "length (drop limit ?rest) \<le> n * limit" using Suc.prems(2) by simp
      then have "0 < n" using more_left by (cases n) auto
      then have "read_pages n sequence entries limit (sequence (last ?page)) = Some (drop limit ?rest)"
        using Suc.IH [of "sequence (last ?page)"] few next_entries by simp
      then show ?thesis using more more_left by (simp add: Let_def page_after)
    qed
  qed
qed simp

subsection \<open>Examples\<close>

text \<open>Message \<open>3\<close> is kept, an attachment holds \<open>1\<close>, and \<open>2\<close> was evicted.\<close>

definition demo_attachment :: attachment where
  "demo_attachment = \<lparr>at_id = lit ''att'', at_senderId = lit ''ana'', at_senderName = lit ''ana'',
     at_senderKind = Human, at_mimeType = lit ''image/png'', at_fileName = lit ''a.png'', at_size = 3,
     at_chunkCount = 1, at_createdAt = 0, at_sequence = 1, at_taskRequestId = None, at_taskWake = None\<rparr>"

definition demo_chat :: "int \<Rightarrow> room_message" where
  "demo_chat n = (demo_message n ''ana'' None [])\<lparr>rm_taskRequestId := None\<rparr>"

definition demo_gap_room :: room where
  "demo_gap_room = demo_room\<lparr>r_messages := [demo_chat 3],
     r_attachments := [demo_attachment], r_nextMessageSequence := 3\<rparr>"

lemma demo_gap_ok: "sequences_ok demo_gap_room" "0 \<le> r_nextMessageSequence demo_gap_room"
  by code_simp+

theorem poll_truncation_exact_witness: "po_truncated (agentEvents demo_gap_room (lit ''bot'') 1)"
  by (subst poll_truncation_exact [OF demo_gap_ok], intro exI [of _ "2 :: int"] exI [of _ "3 :: int"])
    (simp add: demo_gap_room_def sequences_def demo_attachment_def demo_chat_def demo_message_def)

theorem next_message_delivered_witness:
  "\<not> po_truncated (agentEvents (fst (appendMessage (\<lambda>_. True) (demo_chat 0) demo_gap_room))
     (lit ''bot'') (po_cursor (agentEvents demo_gap_room (lit ''bot'') 0)))"
proof -
  let ?a = "appendMessage (\<lambda>_. True) (demo_chat 0) demo_gap_room"
  have peer: "rm_peerId (demo_chat 0) \<noteq> lit ''bot''" by code_simp
  have visible: "isPermissionVisibleToAgent (snd ?a) (lit ''bot'')" by code_simp
  have "toAgentEvent (buildTaskProjectionIndex (r_messages (fst ?a)) (r_participants (fst ?a)))
      (lit ''bot'') False (snd ?a) \<noteq> None" by code_simp
  then obtain e where e: "toAgentEvent (buildTaskProjectionIndex (r_messages (fst ?a)) (r_participants (fst ?a)))
      (lit ''bot'') False (snd ?a) = Some e" by blast
  from next_message_delivered [OF demo_gap_ok peer prod.collapse [symmetric] visible e] show ?thesis by blast
qed

theorem poll_hides_permissions_witness:
  "\<exists>e \<in> set (po_events (agentEvents demo_gap_room (lit ''bot'') 0)). 0 < ae_sequence e"
proof -
  have "po_events (agentEvents demo_gap_room (lit ''bot'') 0) \<noteq> []" by code_simp
  then obtain e where e: "e \<in> set (po_events (agentEvents demo_gap_room (lit ''bot'') 0))"
    using hd_in_set by blast
  have "0 \<le> r_nextMessageSequence demo_gap_room" by code_simp
  from poll_hides_permissions [OF e demo_gap_ok(1) this] e show ?thesis by blast
qed

theorem paging_complete_witness: "walk_pages id [1, 2, 4, 7, 9] 2 (1 :: int) = [2, 4, 7, 9]"
  by (subst paging_complete) simp_all

theorem paging_ends_witness: "read_pages 2 id [1, 2, 4, 7, 9] 2 (1 :: int) = Some [2, 4, 7, 9]"
  by (subst paging_ends) simp_all

end
