(* ===== verification/Agent_Sockets.thy ===== *)
theory Agent_Sockets
  imports Task_Relay Room_Events
begin

text \<open>
  The resident socket of an Agent (app/src/do/RoomSession.ts): its connection and loss, the events
  pushed over it, its heartbeat; and what else an Agent tells the Room in passing: the coarse
  activity it reports (app/src/do/agentActivity.ts) and its plain text messages.

  What is pushed beside the events of the log are projections of the Room. The answer of an operation
  lists what went to which socket; \<open>sends\<close> says which sockets take a frame, \<open>stores\<close> which take a new
  attachment. A closed socket is not used again.
\<close>

subsection \<open>Coarse activity\<close>

definition MAX_AGENT_ACTIVITY_SCOPE_LENGTH :: nat where "MAX_AGENT_ACTIVITY_SCOPE_LENGTH = 128"
definition MAX_AGENT_ACTIVITY_ENTRIES :: nat where "MAX_AGENT_ACTIVITY_ENTRIES = 64"

definition isAgentActivityState :: "js \<Rightarrow> agent_activity_state option" where
  "isAgentActivityState v = (if v = JStr (lit ''working'') then Some Working
     else if v = JStr (lit ''waiting_approval'') then Some Waiting_approval
     else if v = JStr (lit ''queued'') then Some Queued_activity else None)"

text \<open>\<open>/^task:[A-Za-z0-9][A-Za-z0-9._:-]{3,63}$/\<close>.\<close>

definition TASK_SCOPE_PATTERN :: "jstr \<Rightarrow> bool" where
  "TASK_SCOPE_PATTERN s \<longleftrightarrow> take 5 s = lit ''task:'' \<and> (case drop 5 s of
     [] \<Rightarrow> False | c # cs \<Rightarrow> is_alnum c \<and> 3 \<le> length cs \<and> length cs \<le> 63 \<and> list_all is_id_unit cs)"

definition isAgentActivityScope :: "js \<Rightarrow> jstr option" where
  "isAgentActivityScope v = (case v of
     JStr s \<Rightarrow> if s \<noteq> [] \<and> length s \<le> MAX_AGENT_ACTIVITY_SCOPE_LENGTH \<and> (s = lit ''room'' \<or> TASK_SCOPE_PATTERN s)
       then Some s else None
   | _ \<Rightarrow> None)"

record agent_activity =
  ay_agent :: jstr
  ay_scopeId :: jstr
  ay_state :: agent_activity_state
  ay_turnSequence :: int

type_synonym activities = "(jstr, agent_activity) dict"

text \<open>A report whose scope is a Task must come from an Agent that takes part in it.\<close>

definition may_act_in :: "room \<Rightarrow> participant \<Rightarrow> jstr \<Rightarrow> bool" where
  "may_act_in r p scope = (if take 5 scope \<noteq> lit ''task:'' then True
     else (case resolveTaskRequest (buildTaskProjectionIndex (r_messages r) (r_participants r)) (JStr (drop 5 scope))
         (r_participants r) of
       Inl _ \<Rightarrow> False | Inr res \<Rightarrow> p_id p \<in> set (tr_agents res)))"

text \<open>A report names its turn, a clear the sequence zero. \<open>Done\<close> says whether anything changed.\<close>

definition clear_activity :: "jstr \<Rightarrow> activities \<Rightarrow> bool reply \<times> activities" where
  "clear_activity key as = (if dget as key = None then (Done False, as) else (Done True, ddel key as))"

definition set_activity :: "jstr \<Rightarrow> agent_activity \<Rightarrow> activities \<Rightarrow> bool reply \<times> activities" where
  "set_activity key a as = (case dget as key of
     Some b \<Rightarrow> if ay_state b = ay_state a \<and> ay_turnSequence b = ay_turnSequence a then (Done False, as)
       else (Done True, dput key a as)
   | None \<Rightarrow> if MAX_AGENT_ACTIVITY_ENTRIES \<le> length as then (Refused 429 ''activity_capacity'', as)
       else (Done True, dput key a as))"

definition agent_activity_report :: "room \<Rightarrow> jstr \<Rightarrow> jstr \<Rightarrow> js \<Rightarrow> js \<Rightarrow> js \<Rightarrow> activities \<Rightarrow> bool reply \<times> activities" where
  "agent_activity_report r i token scope activity turn as = (case findParticipant r i token of
     None \<Rightarrow> (Refused 401 ''unauthorized'', as)
   | Some p \<Rightarrow>
       if p_kind p \<noteq> Agent then (Refused 403 ''agent_only'', as)
       else (case isAgentActivityScope scope of
         None \<Rightarrow> (Refused 400 ''invalid_activity_scope'', as)
       | Some s \<Rightarrow>
           if activity \<noteq> JNull \<and> isAgentActivityState activity = None then (Refused 400 ''invalid_activity_state'', as)
           else if activity \<noteq> JNull \<and> \<not> p_connected p then (Refused 409 ''agent_disconnected'', as)
           else if \<not> may_act_in r p s then (Refused 403 ''invalid_activity_scope'', as)
           else (let key = agentActivityKey (p_id p) s in
             case isAgentActivityState activity of
               None \<Rightarrow> if js_safe_int turn \<noteq> Some 0 then (Refused 400 ''invalid_activity_turn'', as)
                 else clear_activity key as
             | Some st \<Rightarrow> (case isAgentActivityTurnSequence turn of
                 None \<Rightarrow> (Refused 400 ''invalid_activity_turn'', as)
               | Some n \<Rightarrow> set_activity key \<lparr>ay_agent = p_id p, ay_scopeId = s, ay_state = st, ay_turnSequence = n\<rparr> as))))"

text \<open>The end of a connection ends what the Agent was doing.\<close>

definition clearAgentActivitiesForParticipant :: "jstr \<Rightarrow> activities \<times> task_live \<Rightarrow> activities \<times> task_live" where
  "clearAgentActivitiesForParticipant i s = (filter (\<lambda>(_, a). ay_agent a \<noteq> i) (fst s), clear_executions i (snd s))"

definition shown_activities :: "room \<Rightarrow> activities \<Rightarrow> agent_activity list" where
  "shown_activities r as = filter (\<lambda>a. connected_in (r_participants r) (ay_agent a)) (map snd as)"

subsection \<open>Text of an Agent\<close>

definition agentTextTargets :: "js \<Rightarrow> jstr \<Rightarrow> room \<Rightarrow> jstr list option" where
  "agentTextTargets raw senderId r = (case normalizeChatTargets (r_participants r) raw (Some senderId) of
     [] \<Rightarrow> None | ts \<Rightarrow> Some ts)"

text \<open>The Task a text belongs to, if any, with the targets of the message.\<close>

definition text_scope :: "room \<Rightarrow> participant \<Rightarrow> js \<Rightarrow> js \<Rightarrow> string + (jstr option \<times> jstr list option)" where
  "text_scope r p targets taskRequestId =
     (if taskRequestId = JUndefined then Inr (None, agentTextTargets targets (p_id p) r)
      else (case resolveTaskRequest (buildTaskProjectionIndex (r_messages r) (r_participants r)) taskRequestId (r_participants r) of
        Inl e \<Rightarrow> Inl e
      | Inr res \<Rightarrow> (case resolveAgentTaskTargets res p (r_participants r) targets MAX_TARGETS of
          Inl e \<Rightarrow> Inl e
        | Inr ts \<Rightarrow> Inr (Some (tr_requestId res), if ts = [] then None else Some ts))))"

definition agent_text_message :: "jstr \<Rightarrow> int \<Rightarrow> participant \<Rightarrow> jstr \<Rightarrow> jstr option \<Rightarrow> jstr list option \<Rightarrow> room_message" where
  "agent_text_message i now p s task targets = \<lparr>rm_id = i, rm_peerId = p_id p, rm_name = p_name p, rm_kind = p_kind p,
     rm_type = Text_message, rm_text = Some (take 4000 s), rm_actionType = None, rm_actionPayload = None,
     rm_collab = None, rm_permission = None, rm_taskRequestId = task, rm_targets = targets, rm_createdAt = now, rm_sequence = 0\<rparr>"

text \<open>\<open>Done\<close> carries the sequence of the message.\<close>

definition agent_send_text :: "(room \<Rightarrow> bool) \<Rightarrow> (int \<Rightarrow> jstr) \<Rightarrow> int \<Rightarrow> jstr \<Rightarrow> jstr \<Rightarrow> jstr \<Rightarrow> js \<Rightarrow> js \<Rightarrow> room \<Rightarrow>
    int reply \<times> room" where
  "agent_send_text fits uuid now i token s targets taskRequestId r = (case findParticipant r i token of
     None \<Rightarrow> (Refused 401 ''unauthorized'', r)
   | Some p \<Rightarrow>
       if p_kind p \<noteq> Agent then (Refused 403 ''agent_only'', r)
       else if js_trim s = [] then (Refused 400 ''text_required'', r)
       else (case text_scope r p targets taskRequestId of
         Inl e \<Rightarrow> (Refused 409 e, r)
       | Inr (task, ts) \<Rightarrow>
           (case appendMessage fits (agent_text_message (next_uuid uuid r) now p (js_trim s) task ts)
               (set_participant (p\<lparr>p_lastSeenAt := now\<rparr>) r) of
             (r', m) \<Rightarrow> save_reply fits r r' (rm_sequence m))))"

text \<open>Whether a Human's chat message addresses a connected Agent, decided before the catalog is loaded.\<close>

definition chatCanActivateAgent :: "room \<Rightarrow> connection \<Rightarrow> js \<Rightarrow> js \<Rightarrow> bool" where
  "chatCanActivateAgent r c targets taskRequestId = (case findParticipant r (cn_participantId c) (cn_token c) of
     None \<Rightarrow> False
   | Some p \<Rightarrow>
       if p_kind p \<noteq> Human \<or> p_media p = None \<or> \<not> p_connected p \<or> p_connectionNonce p \<noteq> Some (cn_nonce c) then False
       else list_ex (connected_agent (r_participants r))
         (if taskRequestId = JUndefined then normalizeChatTargets (r_participants r) targets None
          else (case resolveTaskRequest (buildTaskProjectionIndex (r_messages r) (r_participants r)) taskRequestId (r_participants r) of
            Inl _ \<Rightarrow> []
          | Inr res \<Rightarrow> (case resolveHumanTaskTargets res p (r_participants r) targets MAX_TARGETS of
              Inl _ \<Rightarrow> [] | Inr ts \<Rightarrow> ts))))"

subsection \<open>What is pushed\<close>

text \<open>The Apps an Agent may call: those the connected Humans' current sockets say they have open.\<close>

definition hosted_apps :: "room \<Rightarrow> room_socket \<Rightarrow> host_metadata list option" where
  "hosted_apps r so = (case so_peer so of
     Human_socket c \<Rightarrow> (case dget (r_participants r) (cn_participantId c) of
         Some p \<Rightarrow> if so_open so \<and> p_kind p = Human \<and> p_connected p \<and> p_connectionNonce p = Some (cn_nonce c)
           then (let current = take ROOM_APP_MAX_INSTANCES (filter APP_INSTANCE_PATTERN (cn_instances c)) in
             Some (take ROOM_APP_MAX_INSTANCES (filter (\<lambda>a. hm_appInstanceId a \<in> set current) (cn_apps c))))
           else None
       | None \<Rightarrow> None)
   | _ \<Rightarrow> None)"

definition projectRoomAppsForAgent :: "(jstr \<Rightarrow> url_parts option) \<Rightarrow> (jstr \<Rightarrow> jstr \<Rightarrow> bool) \<Rightarrow> app_definition list \<Rightarrow> bool \<Rightarrow>
    jstr \<Rightarrow> room_socket list \<Rightarrow> room \<Rightarrow> host_metadata list" where
  "projectRoomAppsForAgent url_of le cat appsEnabled roomName sockets r = (if \<not> appsEnabled then []
     else projectCallableRoomApps url_of le cat roomName (List.map_filter (hosted_apps r) sockets) True)"

text \<open>What a push reads beside the Room record; \<open>vw_roomApps\<close> is the projection above.\<close>

record resident_view =
  vw_roomApps :: "host_metadata list"
  vw_publications :: publications
  vw_mediaEnabled :: bool
  vw_appsEnabled :: bool

record event_envelope =
  ee_result :: poll_result
  ee_roomApps :: "host_metadata list"
  ee_transport :: transport_state
  ee_participants :: "roster_entry list"
  ee_hosts :: runtime_hosts
  ee_media :: resident_media

definition resident_envelope :: "resident_view \<Rightarrow> room \<Rightarrow> jstr \<Rightarrow> int \<Rightarrow> event_envelope" where
  "resident_envelope v r i cursor = \<lparr>ee_result = agentEvents r i cursor, ee_roomApps = vw_roomApps v,
     ee_transport = projectRuntimeParticipantTransportState (vw_appsEnabled v) r (vw_publications v) i,
     ee_participants = rosterProjection (r_participants r), ee_hosts = projectRuntimeHosts (r_runtimeHosts r),
     ee_media = projectResidentMediaState i (r_meetingNotes r) (r_agentVoice r) (lv_state (r_transcript r)) (vw_mediaEnabled v)\<rparr>"

text \<open>A socket is its Agent's resident while its nonce is the Agent's current one.\<close>

definition resident :: "room \<Rightarrow> agent_socket \<Rightarrow> bool" where
  "resident r so \<longleftrightarrow> agent_in (r_participants r) (aa_participantId (as_attachment so)) \<and>
     current_agent_socket r (aa_participantId (as_attachment so)) so"

text \<open>
  A push closes the socket with a code, or sends an envelope; its flag says whether the new cursor could
  be stored, else the socket is closed with code 1011. \<open>small\<close> says whether the JSON text of an
  envelope stays within two MiB.
\<close>

datatype push = Push_nothing | Push_closed nat | Push_sent event_envelope bool

definition set_cursor :: "int \<Rightarrow> agent_socket \<Rightarrow> agent_socket" where
  "set_cursor c so = so\<lparr>as_attachment := (as_attachment so)\<lparr>aa_cursor := c\<rparr>\<rparr>"

definition pushAgentEventSocket :: "(event_envelope \<Rightarrow> bool) \<Rightarrow> (nat \<Rightarrow> bool) \<Rightarrow> (nat \<Rightarrow> bool) \<Rightarrow> resident_view \<Rightarrow> room \<Rightarrow>
    bool \<Rightarrow> agent_socket \<Rightarrow> push \<times> agent_socket" where
  "pushAgentEventSocket small sends stores v r force so =
     (if \<not> resident r so then (Push_closed 4003, so)
      else (let e = resident_envelope v r (aa_participantId (as_attachment so)) (aa_cursor (as_attachment so)); res = ee_result e in
        if \<not> force \<and> po_events res = [] \<and> \<not> po_truncated res then (Push_nothing, so)
        else if \<not> sends (as_id so) then (Push_closed 1011, so)
        else if \<not> small e then (Push_closed 1009, so)
        else if stores (as_id so) then (Push_sent e True, set_cursor (po_cursor res) so)
        else (Push_sent e False, so)))"

definition pushAgentEventSockets :: "(event_envelope \<Rightarrow> bool) \<Rightarrow> (nat \<Rightarrow> bool) \<Rightarrow> (nat \<Rightarrow> bool) \<Rightarrow> resident_view \<Rightarrow> room \<Rightarrow>
    bool \<Rightarrow> nat option \<Rightarrow> agent_socket list \<Rightarrow> (nat \<times> push) list \<times> agent_socket list" where
  "pushAgentEventSockets small sends stores v r force except sockets =
     (let push = pushAgentEventSocket small sends stores v r force in
      (map (\<lambda>so. (as_id so, fst (push so))) (filter (\<lambda>so. Some (as_id so) \<noteq> except) sockets),
       map (\<lambda>so. if Some (as_id so) = except then so else snd (push so)) sockets))"

subsection \<open>Held polls\<close>

text \<open>A held poll with its cursor; \<open>None\<close> is a poll not yet admitted.\<close>

type_synonym waiters = "(jstr, int option) dict"

definition woken :: "room \<Rightarrow> jstr \<times> int option \<Rightarrow> (jstr \<times> poll_result) option" where
  "woken r w = (case w of
     (i, Some cursor) \<Rightarrow> (let res = agentEvents r i cursor in
       if po_events res \<noteq> [] \<or> po_truncated res then Some (i, res) else None)
   | _ \<Rightarrow> None)"

definition resolveAgentWaiters :: "(event_envelope \<Rightarrow> bool) \<Rightarrow> (nat \<Rightarrow> bool) \<Rightarrow> (nat \<Rightarrow> bool) \<Rightarrow> resident_view \<Rightarrow> room \<Rightarrow>
    waiters \<Rightarrow> agent_socket list \<Rightarrow> (jstr \<times> poll_result) list \<times> waiters \<times> (nat \<times> push) list \<times> agent_socket list" where
  "resolveAgentWaiters small sends stores v r ws sockets =
     (List.map_filter (woken r) ws, filter (\<lambda>w. woken r w = None) ws,
      pushAgentEventSockets small sends stores v r False None sockets)"

subsection \<open>Frames from an Agent\<close>

text \<open>A text frame comes with what its JSON parses to. A heartbeat is answered by a push to every resident.\<close>

datatype raw_frame = Binary_frame | Text_frame "js option"

datatype frame_answer = FA_closed nat | FA_relayed "sent_frame list" | FA_unsaved | FA_raised | FA_alive "(nat \<times> push) list"

definition heartbeat_cursor :: "agent_socket \<Rightarrow> js \<Rightarrow> int option" where
  "heartbeat_cursor so cursor = (if cursor = JUndefined then Some (aa_cursor (as_attachment so))
     else (case js_safe_int cursor of Some c \<Rightarrow> if 0 \<le> c then Some c else None | None \<Rightarrow> None))"

definition heartbeat :: "(room \<Rightarrow> bool) \<Rightarrow> (event_envelope \<Rightarrow> bool) \<Rightarrow> (nat \<Rightarrow> bool) \<Rightarrow> (nat \<Rightarrow> bool) \<Rightarrow> resident_view \<Rightarrow> int \<Rightarrow>
    agent_socket \<Rightarrow> js \<Rightarrow> room \<Rightarrow> agent_socket list \<Rightarrow> frame_answer \<times> room \<times> agent_socket list" where
  "heartbeat fits small sends stores v now so cursor r sockets =
     (case dget (r_participants r) (aa_participantId (as_attachment so)) of
        None \<Rightarrow> (FA_closed 4003, r, sockets)
      | Some p \<Rightarrow>
          if p_kind p \<noteq> Agent \<or> p_connectionNonce p \<noteq> Some (aa_nonce (as_attachment so)) then (FA_closed 4003, r, sockets)
          else (case heartbeat_cursor so cursor of
            None \<Rightarrow> (FA_closed 1008, r, sockets)
          | Some c \<Rightarrow> (case saveRoom fits (set_participant (p\<lparr>p_connected := True, p_lastSeenAt := now\<rparr>) r) of
              None \<Rightarrow> (FA_unsaved, r, sockets)
            | Some r' \<Rightarrow>
                if \<not> stores (as_id so) then (FA_raised, r', sockets)
                else (let sockets = map (\<lambda>x. if as_id x = as_id so then set_cursor (min c (r_nextMessageSequence r)) so else x) sockets in
                  case pushAgentEventSockets small sends stores v r' False None sockets of
                    (pushes, sockets) \<Rightarrow> (FA_alive pushes, r', sockets)))))"

definition handleAgentEventMessage :: "(room \<Rightarrow> bool) \<Rightarrow> (event_envelope \<Rightarrow> bool) \<Rightarrow> (nat \<Rightarrow> bool) \<Rightarrow> (nat \<Rightarrow> bool) \<Rightarrow> resident_view \<Rightarrow>
    jstr \<Rightarrow> int \<Rightarrow> room \<Rightarrow> agent_socket \<Rightarrow> raw_frame \<Rightarrow> collab_tracking \<Rightarrow> relay \<Rightarrow> frame_answer \<times> room \<times> collab_tracking \<times> relay" where
  "handleAgentEventMessage fits small sends stores v uuid now r so raw tracking rl = (case raw of
     Text_frame (Some msg) \<Rightarrow>
       if js_get msg ''type'' = JStr (lit ''task-session-result'') then
         (case handleAgentSessionResult fits stores sends uuid now r so msg tracking rl of
            (r', tracking', rl', sent) \<Rightarrow> (FA_relayed sent, r', tracking', rl'))
       else if js_get msg ''type'' \<noteq> JStr (lit ''heartbeat'') then (FA_closed 1008, r, tracking, rl)
       else (case heartbeat fits small sends stores v now so (js_get msg ''cursor'') r (rl_agents rl) of
         (answer, r', agents) \<Rightarrow> (answer, r', tracking, rl\<lparr>rl_agents := agents\<rparr>))
   | _ \<Rightarrow> (FA_closed 1003, r, tracking, rl))"

subsection \<open>Losing and opening the connection\<close>

text \<open>What a connection shares with the others: the activities, and the executions with the sockets.\<close>

record residents =
  rd_activities :: activities
  rd_live :: task_live

definition rd_sockets :: "residents \<Rightarrow> agent_socket list" where
  "rd_sockets s = tl_sockets (rd_live s)"

definition with_sockets :: "agent_socket list \<Rightarrow> residents \<Rightarrow> residents" where
  "with_sockets sockets s = s\<lparr>rd_live := (rd_live s)\<lparr>tl_sockets := sockets\<rparr>\<rparr>"

definition end_work :: "jstr \<Rightarrow> residents \<Rightarrow> residents" where
  "end_work i s = (case clearAgentActivitiesForParticipant i (rd_activities s, rd_live s) of
     (as, l) \<Rightarrow> s\<lparr>rd_activities := as, rd_live := l\<rparr>)"

definition push_residents :: "(event_envelope \<Rightarrow> bool) \<Rightarrow> (nat \<Rightarrow> bool) \<Rightarrow> (nat \<Rightarrow> bool) \<Rightarrow> resident_view \<Rightarrow> room \<Rightarrow>
    nat option \<Rightarrow> residents \<Rightarrow> (nat \<times> push) list \<times> residents" where
  "push_residents small sends stores v r except s =
     (case pushAgentEventSockets small sends stores v r True except (rd_sockets s) of
        (pushes, sockets) \<Rightarrow> (pushes, with_sockets sockets s))"

definition handleAgentEventClose :: "(room \<Rightarrow> bool) \<Rightarrow> (event_envelope \<Rightarrow> bool) \<Rightarrow> (nat \<Rightarrow> bool) \<Rightarrow> (nat \<Rightarrow> bool) \<Rightarrow> resident_view \<Rightarrow>
    int \<Rightarrow> agent_socket \<Rightarrow> room \<Rightarrow> residents \<Rightarrow> (nat \<times> push) list \<times> room \<times> residents" where
  "handleAgentEventClose fits small sends stores v now so r s =
     (case dget (r_participants r) (aa_participantId (as_attachment so)) of
        None \<Rightarrow> ([], r, s)
      | Some p \<Rightarrow>
          if p_kind p \<noteq> Agent \<or> p_connectionNonce p \<noteq> Some (aa_nonce (as_attachment so)) then ([], r, s)
          else (let s = end_work (p_id p) s in
            case saveRoom fits (set_participant
                (p\<lparr>p_connected := False, p_connectionNonce := None, p_lastSeenAt := now, p_dataTransport := None\<rparr>) r) of
              None \<Rightarrow> ([], r, s)
            | Some r' \<Rightarrow> (case push_residents small sends stores v r' None s of (pushes, s) \<Rightarrow> (pushes, r', s))))"

text \<open>
  The headers of a connection. A header's value has no line terminator and no white space around it.
  \<open>cq_cursor\<close> is the number its cursor header converts to.
\<close>

record connect_request =
  cq_method :: jstr
  cq_upgrade :: "jstr option"
  cq_participantId :: jstr
  cq_headerToken :: jstr
  cq_authorization :: jstr
  cq_cursor :: jnum

text \<open>\<open>/^Bearer\s+(.+)$/i\<close>: the empty string when it does not match.\<close>

definition bearer_token :: "jstr \<Rightarrow> jstr" where
  "bearer_token s = (if js_lower (take 6 s) = lit ''bearer'' \<and> (case drop 6 s of c # _ \<Rightarrow> is_ws c | [] \<Rightarrow> False)
     then dropWhile is_ws (drop 6 s) else [])"

definition connect_credentials :: "connect_request \<Rightarrow> nat \<times> string + (jstr \<times> int)" where
  "connect_credentials q =
     (let bearer = bearer_token (cq_authorization q); token = (if bearer \<noteq> [] then bearer else cq_headerToken q) in
      if cq_method q \<noteq> lit ''GET'' then Inl (405, ''method_not_allowed'')
      else if map_option js_lower (cq_upgrade q) \<noteq> Some (lit ''websocket'') then Inl (426, ''websocket_upgrade_required'')
      else if cq_headerToken q \<noteq> [] \<and> bearer \<noteq> [] \<and> cq_headerToken q \<noteq> bearer then Inl (401, ''unauthorized'')
      else if cq_participantId q = [] \<or> token = [] then Inl (401, ''unauthorized'')
      else (case js_safe_int (JNum (cq_cursor q)) of
        Some c \<Rightarrow> if 0 \<le> c then Inr (token, c) else Inl (401, ''unauthorized'')
      | None \<Rightarrow> Inl (401, ''unauthorized'')))"

definition agent_sockets_of :: "jstr \<Rightarrow> agent_socket list \<Rightarrow> agent_socket list" where
  "agent_sockets_of i sockets = filter (\<lambda>so. aa_participantId (as_attachment so) = i) sockets"

text \<open>
  The new socket is \<open>n\<close>. The answer names the sockets it replaces and everything that is pushed: to the
  others when the Agent's presence or data transport changes, and to the new socket in any case.
\<close>

definition announce :: "(event_envelope \<Rightarrow> bool) \<Rightarrow> (nat \<Rightarrow> bool) \<Rightarrow> (nat \<Rightarrow> bool) \<Rightarrow> resident_view \<Rightarrow> room \<Rightarrow> bool \<Rightarrow> bool \<Rightarrow>
    agent_socket \<Rightarrow> residents \<Rightarrow> (nat \<times> push) list \<times> residents" where
  "announce small sends stores v r wasConnected hadTransport new s =
     (let s0 = with_sockets (rd_sockets s @ [new]) s;
          (first, s1) = (if wasConnected \<and> hadTransport then push_residents small sends stores v r (Some (as_id new)) s0 else ([], s0));
          (own, new') = pushAgentEventSocket small sends stores v r True new;
          s2 = with_sockets (map (\<lambda>so. if as_id so = as_id new then new' else so) (rd_sockets s1)) s1;
          (after, s3) = (if \<not> wasConnected then push_residents small sends stores v r (Some (as_id new)) s2 else ([], s2)) in
      (first @ (as_id new, own) # after, s3))"

definition handleAgentEventConnection :: "(room \<Rightarrow> bool) \<Rightarrow> (event_envelope \<Rightarrow> bool) \<Rightarrow> (nat \<Rightarrow> bool) \<Rightarrow> (nat \<Rightarrow> bool) \<Rightarrow>
    resident_view \<Rightarrow> int \<Rightarrow> jstr \<Rightarrow> nat \<Rightarrow> connect_request \<Rightarrow> room \<Rightarrow> residents \<Rightarrow>
    (nat list \<times> (nat \<times> push) list) reply \<times> room \<times> residents" where
  "handleAgentEventConnection fits small sends stores v now nonce n q r s = (case connect_credentials q of
     Inl (code, e) \<Rightarrow> (Refused code e, r, s)
   | Inr (token, cursor) \<Rightarrow> (case findParticipant r (cq_participantId q) token of
       None \<Rightarrow> (Refused 401 ''unauthorized'', r, s)
     | Some p \<Rightarrow>
         if p_kind p \<noteq> Agent \<or> p_lastSeenAt p + AGENT_LEASE_MS \<le> now then (Refused 401 ''unauthorized'', r, s)
         else (let gone = map as_id (agent_sockets_of (p_id p) (rd_sockets s));
                   s = end_work (p_id p) (with_sockets (filter (\<lambda>so. as_id so \<notin> set gone) (rd_sockets s)) s) in
           case saveRoom fits (set_participant
               (p\<lparr>p_connected := True, p_connectionNonce := Some nonce, p_lastSeenAt := now, p_dataTransport := None\<rparr>) r) of
             None \<Rightarrow> (Unsaved, r, s)
           | Some r' \<Rightarrow>
               (let new = \<lparr>as_id = n, as_attachment = \<lparr>aa_participantId = p_id p, aa_nonce = nonce,
                      aa_cursor = min cursor (r_nextMessageSequence r), aa_pendingControl = None, aa_activeTurns = None\<rparr>\<rparr> in
                case announce small sends stores v r' (p_connected p) (p_dataTransport p \<noteq> None) new s of
                  (pushes, s') \<Rightarrow> (Done (gone, pushes), r', s')))))"

text \<open>A nudge to every resident that advertises reconciliation; the sockets that took it.\<close>

definition requestTaskExecutionReconciliation :: "(nat \<Rightarrow> bool) \<Rightarrow> room \<Rightarrow> agent_socket list \<Rightarrow> nat list" where
  "requestTaskExecutionReconciliation sends r sockets =
     concat (map (\<lambda>p. filter sends (map as_id (filter (current_agent_socket r (p_id p)) sockets)))
       (filter agentSupportsTaskExecutionReconciliation (room_people r)))"

text \<open>The sockets of a participant that leaves are closed.\<close>

definition closeAgentEventSockets :: "jstr \<Rightarrow> agent_socket list \<Rightarrow> nat list \<times> agent_socket list" where
  "closeAgentEventSockets i sockets = (map as_id (agent_sockets_of i sockets),
     filter (\<lambda>so. aa_participantId (as_attachment so) \<noteq> i) sockets)"

subsection \<open>A replaced socket has no power\<close>

text \<open>
  C35: A socket whose nonce is no longer its Agent's is shown nothing, changes nothing and reaches nobody,
  whatever frame comes over it: it can only be closed.
\<close>

theorem stale_socket_powerless:
  assumes "\<not> resident r so"
  shows "pushAgentEventSocket small sends stores v r force so = (Push_closed 4003, so) \<and>
    (\<exists>answer. handleAgentEventMessage fits small sends stores v uuid now r so raw tracking rl = (answer, r, tracking, rl) \<and>
      answer \<in> {FA_closed 4003, FA_closed 1008, FA_closed 1003, FA_relayed []}) \<and>
    handleAgentEventClose fits small sends stores v now so r s = ([], r, s)"
proof (intro conjI)
  show "pushAgentEventSocket small sends stores v r force so = (Push_closed 4003, so)"
    using assms by (simp add: pushAgentEventSocket_def)
  have seat: "p_kind p \<noteq> Agent \<or> p_connectionNonce p \<noteq> Some (aa_nonce (as_attachment so))"
    if "dget (r_participants r) (aa_participantId (as_attachment so)) = Some p" for p
    using assms that by (auto simp: resident_def agent_in_def current_agent_socket_def)
  show "handleAgentEventClose fits small sends stores v now so r s = ([], r, s)"
    using seat by (auto simp: handleAgentEventClose_def split: option.split)
  have beat: "heartbeat fits small sends stores v now so c r agents = (FA_closed 4003, r, agents)" for c agents
    using seat by (auto simp: heartbeat_def split: option.split)
  have relay: "handleAgentSessionResult fits stores sends uuid now r so msg tracking rl = (r, tracking, rl, [])" for msg
    using seat by (auto simp: handleAgentSessionResult_def current_agent_socket_def Let_def split: option.split)
  show "\<exists>answer. handleAgentEventMessage fits small sends stores v uuid now r so raw tracking rl = (answer, r, tracking, rl) \<and>
      answer \<in> {FA_closed 4003, FA_closed 1008, FA_closed 1003, FA_relayed []}"
    by (cases raw) (auto simp: handleAgentEventMessage_def beat relay split: option.split)
qed

subsection \<open>Activities stay bounded\<close>

text \<open>Every kept activity is under its own key, in a valid scope, at a turn.\<close>

definition activity_entry_ok :: "jstr \<times> agent_activity \<Rightarrow> bool" where
  "activity_entry_ok x = (case x of (k, a) \<Rightarrow> k = agentActivityKey (ay_agent a) (ay_scopeId a) \<and>
     isAgentActivityScope (JStr (ay_scopeId a)) = Some (ay_scopeId a) \<and> 0 < ay_turnSequence a)"

definition activities_ok :: "activities \<Rightarrow> bool" where
  "activities_ok as \<longleftrightarrow> length as \<le> MAX_AGENT_ACTIVITY_ENTRIES \<and> wf_dict as \<and> list_all activity_entry_ok as"

datatype activity_event = Reported room jstr jstr js js js | Connection_ended jstr

definition activity_step :: "activity_event \<Rightarrow> activities \<Rightarrow> activities" where
  "activity_step e as = (case e of
     Reported r i token scope activity turn \<Rightarrow> snd (agent_activity_report r i token scope activity turn as)
   | Connection_ended i \<Rightarrow> filter (\<lambda>(_, a). ay_agent a \<noteq> i) as)"

lemma activities_ok_filter: "activities_ok as \<Longrightarrow> activities_ok (filter P as)"
  by (auto simp: activities_ok_def wf_dict_def list_all_iff distinct_map_filter intro: le_trans [OF length_filter_le])

lemma set_activity_ok:
  assumes "activities_ok as" and "key = agentActivityKey (ay_agent a) (ay_scopeId a)" and "0 < ay_turnSequence a"
    and "isAgentActivityScope (JStr (ay_scopeId a)) = Some (ay_scopeId a)"
  shows "activities_ok (snd (set_activity key a as))"
proof -
  have "list_all activity_entry_ok (dput key a as)"
    using assms set_dput_subset [of key a as] by (auto simp: activities_ok_def list_all_iff activity_entry_ok_def)
  moreover have "key \<in> fst ` set as" if "dget as key = Some b" for b using that by (force dest: map_of_SomeD)
  ultimately show ?thesis using assms(1)
    by (auto simp: set_activity_def activities_ok_def length_dput wf_dput not_le Suc_le_eq split: option.split)
qed

lemma scope_again: "isAgentActivityScope v = Some s \<Longrightarrow> isAgentActivityScope (JStr s) = Some s"
  by (auto simp: isAgentActivityScope_def split: js.splits if_splits)

lemma turn_positive: "isAgentActivityTurnSequence v = Some n \<Longrightarrow> 0 < n"
  by (auto simp: isAgentActivityTurnSequence_def split: option.splits if_splits)

lemma report_ok: "activities_ok as \<Longrightarrow> activities_ok (snd (agent_activity_report r i token scope activity turn as))"
  by (auto simp: agent_activity_report_def Let_def clear_activity_def ddel_def activities_ok_filter
      intro!: set_activity_ok dest: scope_again turn_positive split: option.split)

interpretation activity_runs: transition_system activity_step activities_ok
  by unfold_locales (simp add: activity_step_def report_ok activities_ok_filter split: activity_event.split)

text \<open>However reports and ends of connections follow each other, at most 64 activities are kept, each once.\<close>

theorem activities_bounded: "activities_ok (fold activity_step es [])"
  by (rule activity_runs.invar_run) (simp add: activities_ok_def)

subsection \<open>One resident per Agent\<close>

lemma push_same_socket: "as_id (snd (pushAgentEventSocket small sends stores v r force so)) = as_id so"
    "aa_participantId (as_attachment (snd (pushAgentEventSocket small sends stores v r force so))) = aa_participantId (as_attachment so)"
    "aa_nonce (as_attachment (snd (pushAgentEventSocket small sends stores v r force so))) = aa_nonce (as_attachment so)"
  by (simp_all add: pushAgentEventSocket_def set_cursor_def Let_def)

text \<open>Whom the sockets belong to, in order.\<close>

definition owners :: "agent_socket list \<Rightarrow> (nat \<times> jstr \<times> jstr) list" where
  "owners sockets = map (\<lambda>so. (as_id so, aa_participantId (as_attachment so), aa_nonce (as_attachment so))) sockets"

lemma owners_push: "owners (snd (pushAgentEventSockets small sends stores v r force except sockets)) = owners sockets"
  by (simp add: owners_def pushAgentEventSockets_def Let_def push_same_socket)

lemma owners_residents [simp]: "owners (rd_sockets (with_sockets sockets s)) = owners sockets"
    "owners (rd_sockets (end_work i s)) = owners (rd_sockets s)"
  by (simp_all add: rd_sockets_def with_sockets_def end_work_def clearAgentActivitiesForParticipant_def clear_executions_def)

lemma owners_push_residents: "owners (rd_sockets (snd (push_residents small sends stores v r except s))) = owners (rd_sockets s)"
  by (simp add: push_residents_def owners_push split: prod.split)
    (metis owners_push snd_conv)

lemma owners_put:
  assumes "\<forall>t \<in> set (owners l). fst t = as_id x \<longrightarrow> owners [x] = [t]"
  shows "owners (map (\<lambda>so. if as_id so = as_id x then x else so) l) = owners l"
  using assms by (induction l) (auto simp: owners_def)

lemma owners_announce:
  assumes "as_id new \<notin> as_id ` set (rd_sockets s)"
  shows "owners (rd_sockets (snd (announce small sends stores v r a b new s))) = owners (rd_sockets s @ [new])"
proof -
  let ?own = "snd (pushAgentEventSocket small sends stores v r True new)"
  define s0 where "s0 = with_sockets (rd_sockets s @ [new]) s"
  define s1 where "s1 = (if a \<and> b then snd (push_residents small sends stores v r (Some (as_id new)) s0) else s0)"
  define s2 where "s2 = with_sockets (map (\<lambda>so. if as_id so = as_id new then ?own else so) (rd_sockets s1)) s1"
  have o1: "owners (rd_sockets s1) = owners (rd_sockets s @ [new])" by (simp add: s1_def s0_def owners_push_residents)
  have own: "owners [?own] = [(as_id new, aa_participantId (as_attachment new), aa_nonce (as_attachment new))]"
    by (simp add: owners_def push_same_socket)
  have "\<forall>t \<in> set (owners (rd_sockets s1)). fst t = as_id ?own \<longrightarrow> owners [?own] = [t]"
    unfolding o1 own push_same_socket using assms by (auto simp: owners_def image_iff)
  from owners_put [OF this] have "owners (map (\<lambda>so. if as_id so = as_id ?own then ?own else so) (rd_sockets s1)) = owners (rd_sockets s1)" .
  then have o2: "owners (rd_sockets s2) = owners (rd_sockets s @ [new])" by (simp add: s2_def push_same_socket o1)
  have "snd (announce small sends stores v r a b new s) =
      (if \<not> a then snd (push_residents small sends stores v r (Some (as_id new)) s2) else s2)"
    by (cases a; cases b) (simp_all add: announce_def Let_def split_beta s0_def s1_def s2_def)
  with o2 show ?thesis by (simp add: owners_push_residents)
qed

lemma owners_of: "owners (agent_sockets_of i l) = filter (\<lambda>t. fst (snd t) = i) (owners l)"
  by (simp add: owners_def agent_sockets_of_def filter_map comp_def)

lemma owners_resident: "(n, i, nonce) \<in> set (owners l) \<Longrightarrow> dget (r_participants r) i = Some p \<Longrightarrow> p_kind p = Agent \<Longrightarrow>
    p_connectionNonce p = Some nonce \<Longrightarrow> owners (agent_sockets_of i l) = [(n, i, nonce)] \<Longrightarrow>
    list_all (resident r) (agent_sockets_of i l)"
  by (cases "agent_sockets_of i l")
    (auto simp: owners_def resident_def agent_in_def current_agent_socket_def)

text \<open>
  A new connection leaves its Agent with exactly one socket, the new one, which is the resident; the
  sockets of every other Agent stay as they were.
\<close>

theorem one_resident:
  assumes "handleAgentEventConnection fits small sends stores v now nonce n q r s = (Done (gone, pushes), r', s')"
    and "wf_participants (r_participants r)" and "n \<notin> as_id ` set (rd_sockets s)" and "distinct (map as_id (rd_sockets s))"
  shows "owners (agent_sockets_of (cq_participantId q) (rd_sockets s')) = [(n, cq_participantId q, nonce)] \<and>
    list_all (resident r') (agent_sockets_of (cq_participantId q) (rd_sockets s')) \<and>
    (i \<noteq> cq_participantId q \<longrightarrow> owners (agent_sockets_of i (rd_sockets s')) = owners (agent_sockets_of i (rd_sockets s)))"
proof -
  obtain token cursor p where q: "connect_credentials q = Inr (token, cursor)"
      and p: "dget (r_participants r) (cq_participantId q) = Some p" "p_kind p = Agent"
    using assms(1) by (auto simp: handleAgentEventConnection_def findParticipant_def split: sum.split_asm option.split_asm if_split_asm)
  have id: "p_id p = cq_participantId q" using assms(2) p(1) by (auto simp: wf_participants_def dest!: dget_in_set)
  let ?i = "cq_participantId q"
  define p' where "p' = p\<lparr>p_connected := True, p_connectionNonce := Some nonce, p_lastSeenAt := now, p_dataTransport := None\<rparr>"
  define kept where "kept = filter (\<lambda>so. as_id so \<notin> as_id ` set (agent_sockets_of ?i (rd_sockets s))) (rd_sockets s)"
  define new where "new = \<lparr>as_id = n, as_attachment = \<lparr>aa_participantId = ?i, aa_nonce = nonce,
      aa_cursor = min cursor (r_nextMessageSequence r), aa_pendingControl = None, aa_activeTurns = None\<rparr>\<rparr>"
  define s0 where "s0 = end_work ?i (with_sockets kept s)"
  have r': "saveRoom fits (set_participant p' r) = Some r'"
      and s': "s' = snd (announce small sends stores v r' (p_connected p) (p_dataTransport p \<noteq> None) new s0)"
    using assms(1) p by (auto simp: handleAgentEventConnection_def q findParticipant_def id p'_def kept_def new_def s0_def Let_def
        split: option.split_asm if_split_asm prod.split_asm)
  have s0: "owners (rd_sockets s0) = owners kept" by (simp add: s0_def)
  have kept: "kept = filter (\<lambda>so. aa_participantId (as_attachment so) \<noteq> ?i) (rd_sockets s)"
    unfolding kept_def agent_sockets_of_def using assms(4) by (intro filter_cong) (auto simp: distinct_map inj_on_def)
  have okept: "owners kept = filter (\<lambda>t. fst (snd t) \<noteq> ?i) (owners (rd_sockets s))"
    by (simp add: owners_def kept filter_map comp_def)
  have ids: "as_id ` set (rd_sockets s0) = fst ` set (owners (rd_sockets s0))" by (force simp: owners_def)
  have "as_id new \<notin> as_id ` set (rd_sockets s0)" using assms(3) unfolding ids s0 by (auto simp: owners_def kept new_def)
  from owners_announce [OF this] have own: "owners (rd_sockets s') = owners kept @ [(n, ?i, nonce)]"
    using s0 by (simp add: s') (simp add: owners_def new_def)
  have mine: "owners (agent_sockets_of ?i (rd_sockets s')) = [(n, ?i, nonce)]"
    by (simp add: owners_of own) (simp add: owners_def kept filter_empty_conv)
  moreover have "list_all (resident r') (agent_sockets_of ?i (rd_sockets s'))"
  proof (rule owners_resident [OF _ _ _ _ mine])
    show "dget (r_participants r') ?i = Some p'" using r' by (auto simp: saveRoom_def Let_def set_participant_def p'_def id split: if_split_asm)
  qed (simp_all add: own p'_def p(2))
  moreover have "owners (agent_sockets_of i (rd_sockets s')) = owners (agent_sockets_of i (rd_sockets s))" if "i \<noteq> ?i"
    using that unfolding owners_of own okept by (auto intro: filter_cong)
  ultimately show ?thesis by blast
qed

subsection \<open>What an Agent writes\<close>

lemma save_last: "saveRoom fits r = Some r' \<Longrightarrow> r_messages r \<noteq> [] \<Longrightarrow>
    r_messages r' \<noteq> [] \<and> last (r_messages r') = last (r_messages r)"
  using trim_nonempty [of r fits] trim_suffix [of fits r]
  by (auto simp: saveRoom_def Let_def suffix_def split: if_split_asm)

lemma agent_targets: "agentTextTargets raw i r = Some ts \<Longrightarrow> ts \<noteq> [] \<and> i \<notin> set ts \<and> length ts \<le> MAX_TARGETS"
  using set_take_subset [of MAX_TARGETS] unfolding agentTextTargets_def normalizeChatTargets_def
  by (auto split: list.splits simp: set_dedupe dest!: in_set_takeD)

lemma agent_task_targets: "resolveAgentTaskTargets res p ps raw k = Inr ts \<Longrightarrow>
    p_id p \<notin> set ts \<and> length ts \<le> k \<and> p_id p \<in> set (tr_agents res)"
  by (auto simp: resolveAgentTaskTargets_def normalizedExplicitTargets_def Let_def split: if_split_asm sum.split_asm option.split_asm js.split_asm
      intro: le_trans [OF length_filter_le])

lemma resolved_participates: "resolveTaskRequest index raw ps = Inr res \<Longrightarrow> i \<in> set (tr_agents res) \<Longrightarrow>
    taskAgentParticipates index (tr_requestId res) i"
  by (auto simp: resolveTaskRequest_def taskAgentParticipates_def Let_def split: js.split_asm if_split_asm option.split_asm)

lemma text_scope_ok:
  assumes "text_scope r p targets raw = Inr (task, ts)"
  shows "(case ts of None \<Rightarrow> True | Some us \<Rightarrow> us \<noteq> [] \<and> p_id p \<notin> set us \<and> length us \<le> MAX_TARGETS) \<and>
    (case task of None \<Rightarrow> True | Some t \<Rightarrow>
       taskAgentParticipates (buildTaskProjectionIndex (r_messages r) (r_participants r)) t (p_id p))"
proof (cases "raw = JUndefined")
  case True
  with assms agent_targets [of targets "p_id p" r] show ?thesis by (auto simp: text_scope_def split: option.split)
next
  case False
  with assms obtain res us where res: "resolveTaskRequest (buildTaskProjectionIndex (r_messages r) (r_participants r)) raw (r_participants r) = Inr res"
      and us: "resolveAgentTaskTargets res p (r_participants r) targets MAX_TARGETS = Inr us"
      and t: "task = Some (tr_requestId res)" "ts = (if us = [] then None else Some us)"
    by (auto simp: text_scope_def split: sum.split_asm)
  with agent_task_targets [OF us] resolved_participates [OF res] show ?thesis by simp
qed

text \<open>
  A text the Room accepts from an Agent is the last message of the log, under the sender's name and with
  the next sequence; it never addresses its sender, so an Agent cannot wake itself, and it enters
  a Task only from an Agent that takes part in it.
\<close>

theorem agent_text_recorded:
  assumes "agent_send_text fits uuid now i token s targets raw r = (Done n, r')" and "wf_participants (r_participants r)"
  shows "\<exists>m. r_messages r' \<noteq> [] \<and> last (r_messages r') = m \<and> rm_sequence m = n \<and> n = r_nextMessageSequence r + 1 \<and>
    rm_peerId m = i \<and> rm_kind m = Agent \<and> rm_text m = Some (take 4000 (js_trim s)) \<and> js_trim s \<noteq> [] \<and>
    (case rm_targets m of None \<Rightarrow> True | Some ts \<Rightarrow> ts \<noteq> [] \<and> i \<notin> set ts \<and> length ts \<le> MAX_TARGETS) \<and>
    (case rm_taskRequestId m of None \<Rightarrow> True | Some t \<Rightarrow>
       taskAgentParticipates (buildTaskProjectionIndex (r_messages r) (r_participants r)) t i)"
proof -
  obtain p task ts where p: "dget (r_participants r) i = Some p" "p_kind p = Agent" and s: "js_trim s \<noteq> []"
      and ts: "text_scope r p targets raw = Inr (task, ts)"
    using assms(1) by (auto simp: agent_send_text_def findParticipant_def
        split: option.split_asm if_split_asm sum.split_asm prod.split_asm)
  have id: "p_id p = i" using assms(2) p(1) by (auto simp: wf_participants_def dest!: dget_in_set)
  let ?m = "agent_text_message (next_uuid uuid r) now p (js_trim s) task ts"
  let ?r = "set_participant (p\<lparr>p_lastSeenAt := now\<rparr>) r"
  have next': "r_nextMessageSequence ?r = r_nextMessageSequence r" by (simp add: set_participant_def)
  have "saveRoom fits (fst (appendMessage fits ?m ?r)) = Some r'" and n: "n = r_nextMessageSequence r + 1"
    using assms(1) p s ts next' by (auto simp: agent_send_text_def findParticipant_def save_reply_def split_beta
        split: option.split_asm if_split_asm)
  from save_last [OF this(1)] append_last [of fits ?m ?r]
  have "r_messages r' \<noteq> [] \<and> last (r_messages r') = ?m\<lparr>rm_sequence := n\<rparr>" by (simp add: next' n)
  with text_scope_ok [OF ts, unfolded id] show ?thesis by (simp add: agent_text_message_def id p(2) s n)
qed

subsection \<open>Events come once and in order\<close>




text \<open>
  The life of one resident socket: the Room changes (its retained events keep fresh, distinct
  sequences and the counter does not go back), events are pushed, and heartbeats report a cursor, which
  may lie before the one stored with the socket. The history holds the frames that went out with their
  cursor stored (a socket whose cursor cannot be stored is closed) and the cursors reported.
\<close>

datatype resident_item = Pushed event_envelope | Reported int



definition rewound :: "resident_item list \<Rightarrow> int \<Rightarrow> bool" where
  "rewound items n \<longleftrightarrow> (\<exists>c. Reported c \<in> set items \<and> c < n)"

lemma rewound_simps [simp]: "\<not> rewound [] n" "rewound (items @ [Pushed e]) n = rewound items n"
  "rewound (items @ [Reported c]) n \<longleftrightarrow> rewound items n \<or> c < n"
  by (auto simp: rewound_def)





















subsection \<open>Concrete connections\<close>

definition resident_demo_view :: resident_view where
  "resident_demo_view = \<lparr>vw_roomApps = [], vw_publications = [], vw_mediaEnabled = True, vw_appsEnabled = False\<rparr>"








text \<open>A socket that was replaced, and an Agent that connects again.\<close>

definition demo_old_socket :: agent_socket where
  "demo_old_socket = \<lparr>as_id = 3, as_attachment = (as_attachment demo_resident_socket)\<lparr>aa_nonce := lit ''n0''\<rparr>\<rparr>"

theorem stale_socket_powerless_witness:
  "pushAgentEventSocket (\<lambda>_. True) (\<lambda>_. True) (\<lambda>_. True) resident_demo_view demo_relay_room True demo_old_socket =
    (Push_closed 4003, demo_old_socket)"
proof -
  have "\<not> resident demo_relay_room demo_old_socket" by code_simp
  from stale_socket_powerless [OF this] show ?thesis by blast
qed

definition demo_connect :: connect_request where
  "demo_connect = \<lparr>cq_method = lit ''GET'', cq_upgrade = Some (lit ''WebSocket''), cq_participantId = lit ''bot'', cq_headerToken = [],
     cq_authorization = lit ''bearer t'', cq_cursor = jint 1\<rparr>"

definition demo_residents :: residents where
  "demo_residents = \<lparr>rd_activities = [], rd_live = \<lparr>tl_executions = [], tl_sockets = [demo_resident_socket]\<rparr>\<rparr>"

definition demo_connected :: "(nat list \<times> (nat \<times> push) list) reply \<times> room \<times> residents" where
  "demo_connected = handleAgentEventConnection (\<lambda>_. True) (\<lambda>_. True) (\<lambda>_. True) (\<lambda>_. True) resident_demo_view 5 (lit ''n2'') 9
     demo_connect demo_relay_room demo_residents"

lemma demo_connected_done: "\<exists>gone pushes. demo_connected = (Done (gone, pushes), snd demo_connected)"
proof -
  have "case fst demo_connected of Done _ \<Rightarrow> True | _ \<Rightarrow> False" by code_simp
  then obtain gone pushes where "fst demo_connected = Done (gone, pushes)" by (auto split: reply.split_asm)
  then show ?thesis by (metis prod.collapse)
qed

theorem one_resident_witness:
  "owners (agent_sockets_of (lit ''bot'') (rd_sockets (snd (snd demo_connected)))) = [(9, lit ''bot'', lit ''n2'')]"
proof -
  obtain gone pushes where d: "demo_connected = (Done (gone, pushes), snd demo_connected)" using demo_connected_done by blast
  have "handleAgentEventConnection (\<lambda>_. True) (\<lambda>_. True) (\<lambda>_. True) (\<lambda>_. True) resident_demo_view 5 (lit ''n2'') 9
     demo_connect demo_relay_room demo_residents = (Done (gone, pushes), fst (snd demo_connected), snd (snd demo_connected))"
    using d unfolding demo_connected_def by simp
  moreover have "wf_participants (r_participants demo_relay_room)" "9 \<notin> as_id ` set (rd_sockets demo_residents)"
      "distinct (map as_id (rd_sockets demo_residents))" by code_simp+
  ultimately have "owners (agent_sockets_of (cq_participantId demo_connect) (rd_sockets (snd (snd demo_connected)))) =
      [(9, cq_participantId demo_connect, lit ''n2'')]" using one_resident by blast
  then show ?thesis by (simp add: demo_connect_def)
qed

definition demo_text :: "int reply \<times> room" where
  "demo_text = agent_send_text (\<lambda>_. True) (\<lambda>_. lit ''m'') 7 (lit ''bot'') (lit ''t'') (lit '' done '') (JArr [JStr (lit ''bot''), JStr (lit ''ana'')])
     JUndefined demo_relay_room"

theorem agent_text_recorded_witness:
  "\<exists>m. last (r_messages (snd demo_text)) = m \<and> rm_sequence m = 3 \<and> rm_peerId m = lit ''bot''"
proof -
  have "case fst demo_text of Done n \<Rightarrow> n = 3 | _ \<Rightarrow> False" by code_simp
  then have "fst demo_text = Done 3" by (auto split: reply.split_asm)
  then have "demo_text = (Done 3, snd demo_text)" by (metis prod.collapse)
  then have "agent_send_text (\<lambda>_. True) (\<lambda>_. lit ''m'') 7 (lit ''bot'') (lit ''t'') (lit '' done '') (JArr [JStr (lit ''bot''), JStr (lit ''ana'')])
     JUndefined demo_relay_room = (Done 3, snd demo_text)" unfolding demo_text_def .
  moreover have "wf_participants (r_participants demo_relay_room)" by code_simp
  ultimately show ?thesis using agent_text_recorded by blast
qed

end
