(* ===== verification/Room_Views.thy ===== *)
theory Room_Views
  imports Agent_Sockets
begin

text \<open>
  What a Room shows of itself (app/src/do/RoomSession.ts): the state every browser is sent
  (\<open>stateFor\<close>) and what the lobby and an Agent are told (the action \<open>room-info\<close>). Credentials and the
  provider's ids of an Agent's media must not be in them.

  Live Views and generated Apps are passed in; the analytics id is left out. A participant's object is
  spread without the members the code names: a member left out is absent (\<open>None\<close>).
\<close>

record state_participant =
  xp_id :: jstr
  xp_name :: jstr
  xp_kind :: participant_kind
  xp_connected :: bool
  xp_joinedAt :: int
  xp_lastSeenAt :: int
  xp_connectionNonce :: "jstr option"
  xp_token :: "jstr option"
  xp_capabilities :: "agent_capabilities option"
  xp_surface :: "surface_v1 option"
  xp_runtimeHostId :: "jstr option"
  xp_runtimeFeatures :: "runtime_features option"
  xp_media :: "media_state option"
  xp_dataTransport :: "data_transport option"

text \<open>The bookkeeping of an Agent's media goes, all of it, when any of it is truthy.\<close>

definition state_media :: "media_state \<Rightarrow> media_state" where
  "state_media m = (if m_agentSubscribedMids m = None \<and> truthy_str (m_agentPublishedMid m) = None \<and>
       truthy_str (m_agentPublishedTrackName m) = None \<and> m_agentVoiceReady m \<noteq> Some True then m
     else m\<lparr>m_agentSubscribedMids := None, m_agentPublishedMid := None, m_agentPublishedTrackName := None, m_agentVoiceReady := None\<rparr>)"

definition all_members :: "participant \<Rightarrow> state_participant" where
  "all_members p = \<lparr>xp_id = p_id p, xp_name = p_name p, xp_kind = p_kind p, xp_connected = p_connected p,
     xp_joinedAt = p_joinedAt p, xp_lastSeenAt = p_lastSeenAt p, xp_connectionNonce = p_connectionNonce p,
     xp_token = Some (p_token p), xp_capabilities = p_capabilities p, xp_surface = p_surface p,
     xp_runtimeHostId = p_runtimeHostId p, xp_runtimeFeatures = p_runtimeFeatures p,
     xp_media = p_media p, xp_dataTransport = p_dataTransport p\<rparr>"

definition state_participant_of :: "participant \<Rightarrow> state_participant" where
  "state_participant_of p = (all_members p)\<lparr>xp_token := None, xp_connectionNonce := None, xp_media := map_option state_media (p_media p)\<rparr>"

text \<open>The lobby sees neither media nor data transports.\<close>

definition participantForInfo :: "participant \<Rightarrow> state_participant" where
  "participantForInfo p = (all_members p)\<lparr>xp_token := None, xp_connectionNonce := None, xp_media := None, xp_dataTransport := None\<rparr>"

record room_state =
  st_createdAt :: int
  st_expiresAt :: int
  st_participants :: "state_participant list"
  st_runtimeHosts :: runtime_hosts
  st_messages :: "room_message list"
  st_taskLiveViews :: "(jstr, view_snapshot) dict"
  st_generatedApps :: publications
  st_attachments :: "attachment list"
  st_liveTranscript :: live_transcript
  st_segments :: "transcript_segment list"
  st_meetingNotes :: meeting_notes
  st_mediaAvailable :: bool
  st_agentVoice :: agent_voice
  st_roomAppsEnabled :: "bool option"
  st_agentActivities :: "agent_activity list"
  st_taskExecutions :: "task_execution list"

text \<open>\<open>appsEnabled\<close> is absent when the deployment does not set the switch.\<close>

definition stateFor :: "bool \<Rightarrow> bool option \<Rightarrow> (jstr, view_snapshot) dict \<Rightarrow> publications \<Rightarrow> residents \<Rightarrow> room \<Rightarrow> room_state" where
  "stateFor mediaEnabled appsEnabled views apps s r = \<lparr>st_createdAt = r_createdAt r, st_expiresAt = r_expiresAt r,
     st_participants = map state_participant_of (filter p_connected (room_people r)),
     st_runtimeHosts = projectRuntimeHosts (r_runtimeHosts r), st_messages = r_messages r, st_taskLiveViews = views,
     st_generatedApps = apps, st_attachments = projectRoomAttachments r,
     st_liveTranscript = lv_state (r_transcript r), st_segments = lv_segments (r_transcript r),
     st_meetingNotes = r_meetingNotes r, st_mediaAvailable = mediaEnabled, st_agentVoice = r_agentVoice r,
     st_roomAppsEnabled = appsEnabled, st_agentActivities = shown_activities r (rd_activities s),
     st_taskExecutions = taskExecutionsForState r (rd_live s)\<rparr>"

record room_info =
  in_exists :: bool
  in_expiresAt :: "int option"
  in_participants :: "state_participant list"
  in_runtimeHosts :: runtime_hosts
  in_liveTranscript :: live_transcript
  in_segments :: "transcript_segment list"
  in_meetingNotes :: meeting_notes
  in_mediaAvailable :: bool
  in_agentVoice :: agent_voice
  in_permissions :: media_permissions

definition room_info_for :: "bool \<Rightarrow> jstr \<Rightarrow> room option \<Rightarrow> room_info" where
  "room_info_for mediaEnabled i active = (case active of
     None \<Rightarrow> \<lparr>in_exists = False, in_expiresAt = None, in_participants = [], in_runtimeHosts = [],
       in_liveTranscript = LT_inactive, in_segments = [], in_meetingNotes = NO_MEETING_NOTES, in_mediaAvailable = mediaEnabled,
       in_agentVoice = [], in_permissions = \<lparr>mp_canSubscribeHumanAudio = False, mp_canPublishVoice = False\<rparr>\<rparr>
   | Some r \<Rightarrow> \<lparr>in_exists = True, in_expiresAt = Some (r_expiresAt r),
       in_participants = map participantForInfo (filter p_connected (room_people r)),
       in_runtimeHosts = projectRuntimeHosts (r_runtimeHosts r), in_liveTranscript = lv_state (r_transcript r),
       in_segments = lv_segments (r_transcript r), in_meetingNotes = r_meetingNotes r, in_mediaAvailable = mediaEnabled,
       in_agentVoice = r_agentVoice r, in_permissions = agentMediaPermissions (r_meetingNotes r) (r_agentVoice r) i\<rparr>)"

subsection \<open>Nothing secret is shown\<close>

text \<open>
  A Room with its secrets blanked: the content of every token and of every id the provider gave to an
  Agent's media, and the cleanup queue. Nothing is said here of what the code leaves out.
\<close>

definition blank_str :: "jstr \<Rightarrow> jstr" where
  "blank_str s = (if s = [] then [] else [0])"

definition blank_ids :: "media_state \<Rightarrow> media_state" where
  "blank_ids m = m\<lparr>m_agentSubscribedMids := map_option (\<lambda>_. []) (m_agentSubscribedMids m),
     m_agentPublishedMid := map_option blank_str (m_agentPublishedMid m),
     m_agentPublishedTrackName := map_option blank_str (m_agentPublishedTrackName m)\<rparr>"

definition masked :: "participant \<Rightarrow> participant" where
  "masked p = p\<lparr>p_token := [], p_media := map_option blank_ids (p_media p)\<rparr>"

definition masked_room :: "room \<Rightarrow> room" where
  "masked_room r = r\<lparr>r_participants := map (map_prod id masked) (r_participants r), r_pendingMediaCleanup := []\<rparr>"

lemma masked_simps [simp]: "p_id (masked p) = p_id p" "p_kind (masked p) = p_kind p" "p_connected (masked p) = p_connected p"
    "p_connectionNonce (masked p) = p_connectionNonce p"
  by (simp_all add: masked_def)

lemma truthy_blank [simp]: "truthy_str (map_option blank_str s) = None \<longleftrightarrow> truthy_str s = None"
  by (cases s) (simp_all add: truthy_str_def blank_str_def)

lemma blank_untruthy: "truthy_str s = None \<Longrightarrow> map_option blank_str s = s"
  by (cases s) (simp_all add: truthy_str_def blank_str_def split: if_split_asm)

lemma state_media_blank [simp]: "state_media (blank_ids m) = state_media m"
  by (cases m) (auto simp: state_media_def blank_ids_def blank_untruthy)

lemma state_media_clean: "m_agentSubscribedMids (state_media m) = None \<and> truthy_str (m_agentPublishedMid (state_media m)) = None \<and>
    truthy_str (m_agentPublishedTrackName (state_media m)) = None"
  by (simp add: state_media_def truthy_str_def)

lemma masked_shown [simp]: "state_participant_of (masked p) = state_participant_of p" "participantForInfo (masked p) = participantForInfo p"
  by (simp_all add: state_participant_of_def participantForInfo_def all_members_def masked_def option.map_comp comp_def)

lemma dget_map_values: "dget (map (map_prod id f) m) i = map_option f (dget m i)"
  by (induction m) auto

lemma masked_dget [simp]: "dget (r_participants (masked_room r)) i = map_option masked (dget (r_participants r) i)"
  by (simp add: masked_room_def dget_map_values)

lemma masked_people [simp]: "room_people (masked_room r) = map masked (room_people r)"
  by (simp add: masked_room_def room_people_def)

lemma masked_predicates [simp]: "connected_in (r_participants (masked_room r)) = connected_in (r_participants r)"
    "connected_agent (r_participants (masked_room r)) = connected_agent (r_participants r)"
    "current_agent_socket (masked_room r) = current_agent_socket r"
  by (auto simp: fun_eq_iff connected_in_def connected_agent_def current_agent_socket_def split: option.split)

lemma masked_attachment [simp]: "currentAgentEventAttachment (masked_room r) sockets i = currentAgentEventAttachment r sockets i"
  by (simp add: currentAgentEventAttachment_def)

lemma masked_executions: "taskExecutionsForState (masked_room r) l = taskExecutionsForState r l"
  unfolding taskExecutionsForState_def Let_def masked_people masked_predicates masked_attachment fold_map
  by (simp only: comp_def masked_simps)

text \<open>
  C12: What every browser is sent, and what the lobby is told, does not change with the content of any
  token, of any id the provider gave to an Agent's media or of the cleanup queue; and no participant shown
  carries a token, a connection nonce or such an id (the lobby sees no media at all).
\<close>

theorem secrets_not_shown:
  assumes "masked_room r = masked_room r'"
  shows "stateFor mediaEnabled appsEnabled views apps s r = stateFor mediaEnabled appsEnabled views apps s r' \<and>
    room_info_for mediaEnabled i (Some r) = room_info_for mediaEnabled i (Some r') \<and>
    (\<forall>x \<in> set (st_participants (stateFor mediaEnabled appsEnabled views apps s r)). xp_token x = None \<and> xp_connectionNonce x = None \<and>
       (\<forall>m. xp_media x = Some m \<longrightarrow> m_agentSubscribedMids m = None \<and> truthy_str (m_agentPublishedMid m) = None \<and>
          truthy_str (m_agentPublishedTrackName m) = None)) \<and>
    (\<forall>x \<in> set (in_participants (room_info_for mediaEnabled i (Some r))). xp_token x = None \<and> xp_connectionNonce x = None \<and>
       xp_media x = None \<and> xp_dataTransport x = None)"
proof (intro conjI)
  have state: "stateFor mediaEnabled appsEnabled views apps s (masked_room r) = stateFor mediaEnabled appsEnabled views apps s r" for r
    by (simp add: stateFor_def masked_executions shown_activities_def filter_map comp_def)
      (simp add: masked_room_def projectRoomAttachments_def)
  have info: "room_info_for mediaEnabled i (Some (masked_room r)) = room_info_for mediaEnabled i (Some r)" for r
    by (simp add: room_info_for_def filter_map comp_def) (simp add: masked_room_def)
  show "stateFor mediaEnabled appsEnabled views apps s r = stateFor mediaEnabled appsEnabled views apps s r'" by (metis assms state)
  show "room_info_for mediaEnabled i (Some r) = room_info_for mediaEnabled i (Some r')" by (metis assms info)
qed (auto simp: stateFor_def room_info_for_def state_participant_of_def participantForInfo_def all_members_def state_media_clean)

text \<open>Two Rooms that differ in a token and in the media ids of an Agent.\<close>

definition demo_voice_agent :: "string \<Rightarrow> string \<Rightarrow> participant" where
  "demo_voice_agent token mid = demo_participant ''bot'' Agent True\<lparr>p_token := lit token, p_media := Some \<lparr>m_sessionId = lit ''s'',
     m_muted = False, m_fileChannelReady = True, m_appDataChannelReady = None, m_tracks = [], m_agentSubscribedMids = Some [],
     m_agentPublishedMid = Some (lit mid), m_agentPublishedTrackName = None, m_agentVoiceReady = None\<rparr>\<rparr>"

theorem secrets_not_shown_witness:
  "stateFor True None [] [] demo_residents (set_participant (demo_voice_agent ''t'' ''1'') demo_room) =
    stateFor True None [] [] demo_residents (set_participant (demo_voice_agent ''u'' ''2'') demo_room)"
proof -
  have "masked_room (set_participant (demo_voice_agent ''t'' ''1'') demo_room) =
    masked_room (set_participant (demo_voice_agent ''u'' ''2'') demo_room)" by code_simp
  from secrets_not_shown [OF this, of True None "[]" "[]" demo_residents] show ?thesis by (rule conjunct1)
qed

end
