(* ===== verification/Room_Analytics.thy ===== *)
theory Room_Analytics
  imports Collab_Ingestion
begin

text \<open>
  What the Room reports of itself (app/src/do/roomAnalytics.ts): the hash of its name, the coarse
  buckets, one builder per event, the row that is imported, and the collaboration interval read back
  from storage. An event's properties are listed in the source's order. The import itself is a fetch.
\<close>

subsection \<open>The hash of a Room's name\<close>

text \<open>
  A product of two integers as a double: above 53 bits it is rounded to the nearest multiple of the
  lost power of two, to the even one when it lies in the middle.
\<close>

function lost_bits :: "int \<Rightarrow> nat" where
  "lost_bits n = (if n < 9007199254740992 then 0 else Suc (lost_bits (n div 2)))"
  by auto

termination
  by (relation "measure nat") auto

declare lost_bits.simps [simp del]

definition round_double :: "int \<Rightarrow> int" where
  "round_double n = (let e = lost_bits n; q = n div 2 ^ e; r = n mod 2 ^ e; up = 2 ^ e < 2 * r \<or> (2 ^ e = 2 * r \<and> odd q) in
     if e = 0 then n else (if up then q + 1 else q) * 2 ^ e)"

definition double_times :: "int \<Rightarrow> int \<Rightarrow> int" where
  "double_times x y = sgn (x * y) * round_double \<bar>x * y\<bar>"

text \<open>\<open>^=\<close> gives a signed integer; \<open>>>> 0\<close> takes the product modulo \<open>2^32\<close>.\<close>

definition hash_unit :: "code_unit \<Rightarrow> 32 word \<Rightarrow> 32 word" where
  "hash_unit c h = of_int (double_times (sint (Bit_Operations.xor h (ucast c))) 0x01000193)"

definition hash_word :: "jstr \<Rightarrow> 32 word" where
  "hash_word s = fold hash_unit s 0x811c9dc5"

definition hash_digit :: "int \<Rightarrow> code_unit" where
  "hash_digit n = (if n < 10 then of_int (0x30 + n) else of_int (0x57 + n))"

text \<open>\<open>toString(16).padStart(8, "0")\<close> of a 32-bit number: its eight hexadecimal digits.\<close>

definition hex8 :: "32 word \<Rightarrow> jstr" where
  "hex8 w = map (\<lambda>k. hash_digit (uint w div 16 ^ k mod 16)) [7, 6, 5, 4, 3, 2, 1, 0]"

definition hashRoom :: "jstr \<Rightarrow> jstr" where
  "hashRoom roomName = hex8 (hash_word roomName)"

subsection \<open>Buckets and classifications\<close>

text \<open>\<open>/^[0-9a-f]{8}-[0-9a-f]{4}-[0-9a-f]{4}-[0-9a-f]{4}-[0-9a-f]{12}$/\<close>.\<close>

definition ANALYTICS_ROOM_ID_PATTERN :: "jstr \<Rightarrow> bool" where
  "ANALYTICS_ROOM_ID_PATTERN s \<longleftrightarrow> length s = 36 \<and>
     list_all (\<lambda>(k, c). if k \<in> {8, 13, 18, 23} then c = 0x2d else is_digit c \<or> (0x61 \<le> c \<and> c \<le> 0x66)) (zip [0..<36] s)"

definition isAnalyticsRoomId :: "js \<Rightarrow> jstr option" where
  "isAnalyticsRoomId v = (case v of JStr s \<Rightarrow> if ANALYTICS_ROOM_ID_PATTERN s then Some s else None | _ \<Rightarrow> None)"

definition classifyRoomCreationSource :: "jstr \<Rightarrow> string" where
  "classifyRoomCreationSource userAgent =
     (if sublist (lit ''free4chat-agent/'') (map (\<lambda>c. if is_upper c then c + 0x20 else c) userAgent) then ''agent-runtime'' else ''mcp'')"

definition taskDurationBucket :: "int \<Rightarrow> string option" where
  "taskDurationBucket durationMs = (if durationMs < 0 then None
     else Some (if durationMs < 60000 then ''<1m'' else if durationMs < 5 * 60000 then ''1-5m''
       else if durationMs < 15 * 60000 then ''5-15m'' else if durationMs < 60 * 60000 then ''15-60m'' else ''60m+''))"

definition permissionControlValue :: "js \<Rightarrow> string" where
  "permissionControlValue optionKind =
     (if optionKind = JStr (lit ''allow_once'') \<or> optionKind = JStr (lit ''allow_always'') then ''permission-allow''
      else if optionKind = JStr (lit ''reject_once'') \<or> optionKind = JStr (lit ''reject_always'') then ''permission-reject''
      else ''permission-response'')"

definition roomComposition :: "participant list \<Rightarrow> string" where
  "roomComposition ps =
     (let humans = length (filter (\<lambda>p. p_kind p = Human) ps); agents = length (filter (\<lambda>p. p_kind p = Agent) ps) in
      if agents = 0 then ''human-only'' else if humans = 0 then ''agent-only''
      else if agents = 1 then ''human-agent'' else ''mixed'')"

definition participantsBucket :: "int \<Rightarrow> string" where
  "participantsBucket n = (if 10 \<le> n then ''10+'' else if 4 \<le> n then ''4-9'' else if 2 \<le> n then ''2-3'' else ''1'')"

definition resolveParticipantKind :: "participant list \<Rightarrow> jstr \<Rightarrow> string" where
  "resolveParticipantKind ps i = (case find (\<lambda>p. p_id p = i) ps of
     Some p \<Rightarrow> (case p_kind p of Human \<Rightarrow> ''human'' | Agent \<Rightarrow> ''agent'') | None \<Rightarrow> ''unknown'')"

text \<open>The requester and the target of a Task; an outcome goes the other way.\<close>

definition delegationTopology :: "bool \<Rightarrow> jstr \<Rightarrow> jstr \<Rightarrow> jstr \<times> jstr" where
  "delegationTopology isRequest source target = (if isRequest then (source, target) else (target, source))"

definition generatedBundleSizeBucket :: "nat \<Rightarrow> string" where
  "generatedBundleSizeBucket bytes = (if bytes \<le> 4 * 1024 then ''0-4k'' else if bytes \<le> 16 * 1024 then ''4-16k''
     else if bytes \<le> 32 * 1024 then ''16-32k'' else ''32-48k'')"

subsection \<open>Events\<close>

datatype event_name = AgentJoined | RoomCreated | TargetedMessage | CollabRequested | CollabOutcome | CollaborationDuration
  | LiveViewPublished | RoomAppPublished | TaskControlUsed

record analytics_event =
  ev_name :: event_name
  ev_properties :: "(string \<times> js) list"

definition text_js :: "string \<Rightarrow> js" where
  "text_js s = JStr (lit s)"

text \<open>The name and the id of the Room an event is about.\<close>

definition room_tag :: "jstr \<Rightarrow> jstr \<Rightarrow> (string \<times> js) list" where
  "room_tag roomName roomId = [(''roomHash'', JStr (hashRoom roomName)), (''analyticsRoomId'', JStr roomId)]"

definition crowd :: "participant list \<Rightarrow> js" where
  "crowd ps = text_js (participantsBucket (int (length ps)))"

definition buildAgentJoinedEvent :: "jstr \<Rightarrow> jstr \<Rightarrow> participant list \<Rightarrow> analytics_event" where
  "buildAgentJoinedEvent roomName roomId ps = \<lparr>ev_name = AgentJoined, ev_properties = (''roomType'', text_js ''unknown'') #
     room_tag roomName roomId @ [(''participantBucket'', crowd ps), (''roomComposition'', text_js (roomComposition ps))]\<rparr>"

definition buildRoomCreatedEvent :: "jstr \<Rightarrow> jstr \<Rightarrow> participant_kind \<Rightarrow> string \<Rightarrow> analytics_event" where
  "buildRoomCreatedEvent roomName roomId creator source = \<lparr>ev_name = RoomCreated, ev_properties = room_tag roomName roomId @
     [(''creatorKind'', text_js (case creator of Human \<Rightarrow> ''human'' | Agent \<Rightarrow> ''agent'')), (''creationSource'', text_js source)]\<rparr>"

definition buildCollabRequestedEvent :: "jstr \<Rightarrow> jstr \<Rightarrow> participant list \<Rightarrow> jstr \<Rightarrow> jstr \<Rightarrow> analytics_event" where
  "buildCollabRequestedEvent roomName roomId ps source target = (case delegationTopology True source target of (requester, t) \<Rightarrow>
     \<lparr>ev_name = CollabRequested, ev_properties = (''roomType'', text_js ''unknown'') # room_tag roomName roomId @
       [(''requesterKind'', text_js (resolveParticipantKind ps requester)), (''targetKind'', text_js (resolveParticipantKind ps t)),
        (''roomComposition'', text_js (roomComposition ps))]\<rparr>)"

record outcome_facts =
  of_kind :: collab_kind
  of_from :: jstr
  of_target :: jstr
  of_attachmentIds :: "jstr list option"
  of_requestCreatedAt :: "int option"
  of_completedAt :: "int option"
  of_hasLiveView :: bool
  of_hasGeneratedApp :: bool

definition outcome_text :: "collab_kind \<Rightarrow> string" where
  "outcome_text k = (case k of Declined \<Rightarrow> ''declined'' | Completed \<Rightarrow> ''completed'' | Failed \<Rightarrow> ''failed''
     | Request \<Rightarrow> ''request'' | Accepted \<Rightarrow> ''accepted'')"

definition buildCollabOutcomeEvent :: "jstr \<Rightarrow> jstr \<Rightarrow> participant list \<Rightarrow> outcome_facts \<Rightarrow> analytics_event" where
  "buildCollabOutcomeEvent roomName roomId ps o' = (case delegationTopology False (of_from o') (of_target o') of (requester, t) \<Rightarrow>
     (let bucket = (case (of_requestCreatedAt o', of_completedAt o') of
            (Some a, Some b) \<Rightarrow> taskDurationBucket (b - a) | _ \<Rightarrow> None) in
      \<lparr>ev_name = CollabOutcome, ev_properties = [(''outcome'', text_js (outcome_text (of_kind o'))),
          (''requesterKind'', text_js (resolveParticipantKind ps requester)), (''targetKind'', text_js (resolveParticipantKind ps t)),
          (''roomType'', text_js ''unknown'')] @ room_tag roomName roomId @
        [(''hasArtifact'', JBool (case of_attachmentIds o' of Some ids \<Rightarrow> ids \<noteq> [] | None \<Rightarrow> False))] @
        (case bucket of Some b \<Rightarrow> [(''durationBucket'', text_js b)] | None \<Rightarrow> []) @
        [(''hasLiveView'', JBool (of_hasLiveView o')), (''hasGeneratedApp'', JBool (of_hasGeneratedApp o')),
         (''roomComposition'', text_js (roomComposition ps))]\<rparr>))"

definition buildCollaborationDurationEvent :: "jstr \<Rightarrow> jstr \<Rightarrow> duration_summary \<Rightarrow> analytics_event" where
  "buildCollaborationDurationEvent roomName roomId d = \<lparr>ev_name = CollaborationDuration,
     ev_properties = [(''durationMs'', JNum (jint (ds_durationMs d))), (''roomType'', text_js ''unknown'')] @ room_tag roomName roomId @
       [(''collaborationMode'', text_js (ds_mode d)), (''participantBucket'', text_js (participantsBucket (ds_peak d)))]\<rparr>"

definition target_kind :: "participant list \<Rightarrow> jstr list \<Rightarrow> string" where
  "target_kind ps targets = (let kinds = map (resolveParticipantKind ps) targets in
     if ''human'' \<in> set kinds \<and> ''agent'' \<in> set kinds then ''mixed'' else if ''human'' \<in> set kinds then ''human'' else ''agent'')"

definition buildTargetedMessageEvent :: "jstr \<Rightarrow> jstr \<Rightarrow> participant list \<Rightarrow> jstr \<Rightarrow> jstr list \<Rightarrow> analytics_event" where
  "buildTargetedMessageEvent roomName roomId ps sender targets = \<lparr>ev_name = TargetedMessage,
     ev_properties = (''roomType'', text_js ''unknown'') # room_tag roomName roomId @
       [(''senderKind'', text_js (resolveParticipantKind ps sender)), (''targetKind'', text_js (target_kind ps targets)),
        (''targetCountBucket'', text_js (participantsBucket (int (length targets)))), (''roomComposition'', text_js (roomComposition ps))]\<rparr>"

definition buildLiveViewPublishedEvent :: "jstr \<Rightarrow> jstr \<Rightarrow> participant list \<Rightarrow> bool \<Rightarrow> analytics_event" where
  "buildLiveViewPublishedEvent roomName roomId ps first = \<lparr>ev_name = LiveViewPublished,
     ev_properties = [(''phase'', text_js (if first then ''first'' else ''replacement'')), (''roomType'', text_js ''unknown'')] @
       room_tag roomName roomId @ [(''participantBucket'', crowd ps), (''roomComposition'', text_js (roomComposition ps))]\<rparr>"

definition buildGeneratedRoomAppPublishedEvent :: "jstr \<Rightarrow> jstr \<Rightarrow> participant list \<Rightarrow> bool \<Rightarrow> nat \<Rightarrow> analytics_event" where
  "buildGeneratedRoomAppPublishedEvent roomName roomId ps first bundleBytes = \<lparr>ev_name = RoomAppPublished,
     ev_properties = [(''appSource'', text_js ''generated''), (''phase'', text_js (if first then ''first'' else ''update'')),
       (''bundleSizeBucket'', text_js (generatedBundleSizeBucket bundleBytes)), (''roomType'', text_js ''unknown'')] @
       room_tag roomName roomId @ [(''participantBucket'', crowd ps), (''roomComposition'', text_js (roomComposition ps))]\<rparr>"

definition buildTaskControlUsedEvent :: "jstr \<Rightarrow> jstr \<Rightarrow> participant list \<Rightarrow> string \<Rightarrow> analytics_event" where
  "buildTaskControlUsedEvent roomName roomId ps control = \<lparr>ev_name = TaskControlUsed,
     ev_properties = [(''control'', text_js control), (''roomType'', text_js ''unknown'')] @ room_tag roomName roomId @
       [(''roomComposition'', text_js (roomComposition ps))]\<rparr>"

subsection \<open>The imported row\<close>

definition APPROVED_ANALYTICS_PROPERTIES :: "event_name \<Rightarrow> string list" where
  "APPROVED_ANALYTICS_PROPERTIES n = (case n of
     AgentJoined \<Rightarrow> [''roomType'', ''roomHash'', ''analyticsRoomId'', ''participantBucket'', ''roomComposition'']
   | RoomCreated \<Rightarrow> [''roomHash'', ''analyticsRoomId'', ''creatorKind'', ''creationSource'']
   | TargetedMessage \<Rightarrow> [''roomType'', ''roomHash'', ''analyticsRoomId'', ''senderKind'', ''targetKind'', ''targetCountBucket'', ''roomComposition'']
   | CollaborationDuration \<Rightarrow> [''durationMs'', ''roomType'', ''roomHash'', ''analyticsRoomId'', ''collaborationMode'', ''participantBucket'']
   | CollabRequested \<Rightarrow> [''roomType'', ''roomHash'', ''analyticsRoomId'', ''requesterKind'', ''targetKind'', ''roomComposition'']
   | CollabOutcome \<Rightarrow> [''outcome'', ''requesterKind'', ''targetKind'', ''roomType'', ''roomHash'', ''analyticsRoomId'', ''hasArtifact'',
       ''durationBucket'', ''hasLiveView'', ''hasGeneratedApp'', ''roomComposition'']
   | LiveViewPublished \<Rightarrow> [''phase'', ''roomType'', ''roomHash'', ''analyticsRoomId'', ''participantBucket'', ''roomComposition'']
   | RoomAppPublished \<Rightarrow> [''appSource'', ''phase'', ''bundleSizeBucket'', ''roomType'', ''roomHash'', ''analyticsRoomId'',
       ''participantBucket'', ''roomComposition'']
   | TaskControlUsed \<Rightarrow> [''control'', ''roomType'', ''roomHash'', ''analyticsRoomId'', ''roomComposition''])"

definition mixpanelImportRow :: "analytics_event \<Rightarrow> int \<Rightarrow> jstr \<Rightarrow> event_name \<times> (string \<times> js) list" where
  "mixpanelImportRow e now insertId = (ev_name e,
     [(''time'', JNum (jint now)), (''distinct_id'', text_js ''server:free4chat''), (''$insert_id'', JStr insertId), (''ip'', JNum (jint 0))] @
     List.map_filter (\<lambda>k. case map_of (ev_properties e) k of
         Some v \<Rightarrow> if v = JUndefined then None else Some (k, v) | None \<Rightarrow> None)
       (APPROVED_ANALYTICS_PROPERTIES (ev_name e)))"

text \<open>No token, nothing to send, else one request with all rows; the ids of the rows are random.\<close>

definition importAnalyticsEvents :: "analytics_event list \<Rightarrow> jstr option \<Rightarrow> int \<Rightarrow> (nat \<Rightarrow> jstr) \<Rightarrow>
    (event_name \<times> (string \<times> js) list) list option" where
  "importAnalyticsEvents events token now ids = (if truthy_str token = None \<or> events = [] then None
     else Some (map (\<lambda>(k, e). mixpanelImportRow e now (ids k)) (enumerate 0 events)))"

subsection \<open>What the Room has reported\<close>

text \<open>The id of the Room's generation is passed in; no token, no report.\<close>

definition trackRoomAnalytics :: "analytics_event list \<Rightarrow> jstr option \<Rightarrow> int \<Rightarrow> (nat \<Rightarrow> jstr) \<Rightarrow>
    (event_name \<times> (string \<times> js) list) list option" where
  "trackRoomAnalytics events token now ids =
     (if events = [] \<or> truthy_str token = None then None else importAnalyticsEvents events token now ids)"

definition trackTaskControl :: "jstr \<Rightarrow> jstr \<Rightarrow> room \<Rightarrow> string \<Rightarrow> analytics_event list" where
  "trackTaskControl roomName roomId r control = [buildTaskControlUsedEvent roomName roomId (room_people r) control]"

definition trackTargetedMessage :: "jstr \<Rightarrow> jstr \<Rightarrow> room \<Rightarrow> room_message \<Rightarrow> analytics_event list" where
  "trackTargetedMessage roomName roomId r m = (case rm_targets m of
     None \<Rightarrow> [] | Some ts \<Rightarrow> if ts = [] then [] else [buildTargetedMessageEvent roomName roomId (room_people r) (rm_peerId m) ts])"

text \<open>When the request of an outcome was made, while the log retains it.\<close>

definition retainedCollabRequestCreatedAt :: "room \<Rightarrow> jstr \<Rightarrow> int option" where
  "retainedCollabRequestCreatedAt r requestId = map_option rm_createdAt (find (\<lambda>m. rm_actionType m = Some COLLAB_ACTION_TYPE \<and>
     (case rm_collab m of Some e \<Rightarrow> ce_kind e = Request \<and> ce_requestId e = requestId | None \<Rightarrow> False)) (r_messages r))"

text \<open>A closed interval is reported by the caller, once the Room is saved.\<close>

definition closed_interval :: "jstr \<Rightarrow> jstr \<Rightarrow> int \<Rightarrow> room \<Rightarrow> analytics_event option" where
  "closed_interval roomName roomId now r = map_option (buildCollaborationDurationEvent roomName roomId)
     (snd (transitionCollaborationActivity (room_people r) (r_collaboration r) now))"

subsection \<open>The stored interval\<close>

definition above_zero :: "jnum \<Rightarrow> bool" where
  "above_zero n = (case n of Fin q \<Rightarrow> 0 < q | PosInf \<Rightarrow> True | _ \<Rightarrow> False)"

record stored_activity =
  sa_startedAt :: jnum
  sa_sawHuman :: bool
  sa_sawAgent :: bool
  sa_peak :: rat

definition normalizeStoredCollaborationActivity :: "js \<Rightarrow> stored_activity option" where
  "normalizeStoredCollaborationActivity v = (case (js_get v ''startedAt'', js_get v ''sawHuman'', js_get v ''sawAgent'',
       js_get v ''peakParticipantCount'') of
     (JNum startedAt, JBool sawHuman, JBool sawAgent, JNum (Fin peak)) \<Rightarrow>
       if above_zero startedAt \<and> 2 \<le> peak \<and> peak \<le> 999
       then Some \<lparr>sa_startedAt = startedAt, sa_sawHuman = sawHuman, sa_sawAgent = sawAgent, sa_peak = peak\<rparr> else None
   | _ \<Rightarrow> None)"

definition activity_js :: "collaboration_activity \<Rightarrow> js" where
  "activity_js a = JObj [(lit ''startedAt'', JNum (jint (col_startedAt a))), (lit ''sawHuman'', JBool (col_sawHuman a)),
     (lit ''sawAgent'', JBool (col_sawAgent a)), (lit ''peakParticipantCount'', JNum (jint (col_peak a)))]"

subsection \<open>What leaves the Room\<close>

text \<open>The events the builders make.\<close>

inductive built :: "analytics_event \<Rightarrow> bool" where
  "built (buildAgentJoinedEvent roomName roomId ps)"
| "built (buildRoomCreatedEvent roomName roomId creator source)"
| "built (buildCollabRequestedEvent roomName roomId ps i j)"
| "built (buildCollabOutcomeEvent roomName roomId ps facts)"
| "built (buildCollaborationDurationEvent roomName roomId d)"
| "built (buildTargetedMessageEvent roomName roomId ps i targets)"
| "built (buildLiveViewPublishedEvent roomName roomId ps first)"
| "built (buildGeneratedRoomAppPublishedEvent roomName roomId ps first bytes)"
| "built (buildTaskControlUsedEvent roomName roomId ps control)"

lemmas builders = buildAgentJoinedEvent_def buildRoomCreatedEvent_def buildCollabRequestedEvent_def buildCollabOutcomeEvent_def
  buildCollaborationDurationEvent_def buildTargetedMessageEvent_def buildLiveViewPublishedEvent_def
  buildGeneratedRoomAppPublishedEvent_def buildTaskControlUsedEvent_def delegationTopology_def room_tag_def

lemma built_properties: "built e \<Longrightarrow> map fst (ev_properties e) = filter (\<lambda>k. k \<in> fst ` set (ev_properties e)) (APPROVED_ANALYTICS_PROPERTIES (ev_name e)) \<and>
    JUndefined \<notin> snd ` set (ev_properties e)"
  by (induction rule: built.induct)
    (simp_all add: builders APPROVED_ANALYTICS_PROPERTIES_def text_js_def crowd_def Let_def split: option.split)

lemma approved_distinct: "distinct (APPROVED_ANALYTICS_PROPERTIES n)"
  by (cases n) (simp_all add: APPROVED_ANALYTICS_PROPERTIES_def)

lemma map_filter_lookup:
  assumes "distinct ks" and "map fst ps = filter (\<lambda>k. k \<in> fst ` set ps) ks" and "JUndefined \<notin> snd ` set ps"
  shows "List.map_filter (\<lambda>k. case map_of ps k of Some v \<Rightarrow> if v = JUndefined then None else Some (k, v) | None \<Rightarrow> None) ks = ps"
proof -
  have "distinct (map fst ps)" using assms(1) by (simp add: assms(2))
  then have look: "map_of ps k = Some v \<longleftrightarrow> (k, v) \<in> set ps" for k v by (rule map_of_eq_Some_iff)
  let ?f = "\<lambda>k. case map_of ps k of Some v \<Rightarrow> if v = JUndefined then None else Some (k, v) | None \<Rightarrow> None"
  have none: "?f k = None" if "k \<notin> fst ` set ps" for k using that by (simp add: map_of_eq_None_iff [symmetric] del: map_of_eq_None_iff)
  have "List.map_filter ?f ks = List.map_filter ?f (filter (\<lambda>k. k \<in> fst ` set ps) ks)"
    by (induction ks) (use none in \<open>auto split: option.split\<close>)
  also have "\<dots> = List.map_filter ?f (map fst ps)" by (simp only: assms(2))
  also have "\<dots> = List.map_filter (?f \<circ> fst) ps" by (simp add: List.map_filter_def filter_map comp_def)
  also have "\<dots> = ps"
  proof -
    have "(?f \<circ> fst) x = Some x" if "x \<in> set ps" for x
    proof -
      obtain k v where x: "x = (k, v)" by fastforce
      have "dget ps k = Some v" using that by (simp add: x look)
      moreover have "v \<noteq> JUndefined" using assms(3) that by (force simp: x)
      ultimately show ?thesis by (simp add: x)
    qed
    then have "List.map_filter (?f \<circ> fst) xs = xs" if "set xs \<subseteq> set ps" for xs using that by (induction xs) auto
    then show ?thesis by blast
  qed
  finally show ?thesis .
qed

text \<open>
  An imported row carries every property of its event, in order, beside the four fixed ones: the list
  of approved properties drops nothing the Room reports.
\<close>

theorem row_keeps_event:
  assumes "built e"
  shows "mixpanelImportRow e now insertId = (ev_name e, [(''time'', JNum (jint now)), (''distinct_id'', text_js ''server:free4chat''),
    (''$insert_id'', JStr insertId), (''ip'', JNum (jint 0))] @ ev_properties e)"
  using map_filter_lookup [OF approved_distinct] built_properties [OF assms] by (simp add: mixpanelImportRow_def)

text \<open>Participants under other ids, with everything but their kinds exchanged.\<close>

definition renamed :: "(jstr \<Rightarrow> jstr) \<Rightarrow> participant list \<Rightarrow> participant list \<Rightarrow> bool" where
  "renamed f ps qs \<longleftrightarrow> list_all2 (\<lambda>p q. p_id q = f (p_id p) \<and> p_kind q = p_kind p) ps qs"

lemma renamed_kinds: "renamed f ps qs \<Longrightarrow> roomComposition qs = roomComposition ps \<and> length qs = length ps"
proof -
  assume r: "renamed f ps qs"
  have "length (filter (\<lambda>p. p_kind p = k) qs) = length (filter (\<lambda>p. p_kind p = k) ps)" for k
    using r unfolding renamed_def by (induction rule: list_all2_induct) auto
  then show ?thesis using r by (simp add: roomComposition_def renamed_def list_all2_lengthD)
qed

lemma renamed_kind: "renamed f ps qs \<Longrightarrow> inj f \<Longrightarrow> resolveParticipantKind qs (f i) = resolveParticipantKind ps i"
  unfolding renamed_def
  by (induction rule: list_all2_induct) (auto simp: resolveParticipantKind_def inj_eq)

text \<open>
  No event tells who took part: with the participants' ids exchanged for others, and their names,
  tokens and whatever else replaced, the Room reports the same.
\<close>

theorem events_anonymous:
  assumes "renamed f ps qs" and "inj f"
  shows "buildAgentJoinedEvent roomName roomId qs = buildAgentJoinedEvent roomName roomId ps \<and>
    buildCollabRequestedEvent roomName roomId qs (f i) (f j) = buildCollabRequestedEvent roomName roomId ps i j \<and>
    buildCollabOutcomeEvent roomName roomId qs (facts\<lparr>of_from := f i, of_target := f j\<rparr>) =
      buildCollabOutcomeEvent roomName roomId ps (facts\<lparr>of_from := i, of_target := j\<rparr>) \<and>
    buildTargetedMessageEvent roomName roomId qs (f i) (map f targets) = buildTargetedMessageEvent roomName roomId ps i targets"
  using renamed_kinds [OF assms(1)] renamed_kind [OF assms]
  by (simp add: buildAgentJoinedEvent_def buildCollabRequestedEvent_def buildCollabOutcomeEvent_def buildTargetedMessageEvent_def
      delegationTopology_def crowd_def target_kind_def comp_def Let_def)

subsection \<open>The interval survives a restart\<close>

definition activity_ok :: "collaboration_activity \<Rightarrow> bool" where
  "activity_ok a \<longleftrightarrow> 0 < col_startedAt a \<and> 2 \<le> col_peak a \<and> col_peak a \<le> 999"

text \<open>An interval the Room opens or keeps open is read back from storage as it was written.\<close>

theorem interval_survives:
  assumes "transitionCollaborationActivity ps existing now = (Some a, d)" and "0 < now" and "length ps \<le> 999"
    and "case existing of Some b \<Rightarrow> activity_ok b | None \<Rightarrow> True"
  shows "activity_ok a \<and> normalizeStoredCollaborationActivity (activity_js a) = Some \<lparr>sa_startedAt = jint (col_startedAt a),
    sa_sawHuman = col_sawHuman a, sa_sawAgent = col_sawAgent a, sa_peak = of_int (col_peak a)\<rparr>"
proof
  show ok: "activity_ok a"
    using assms by (auto simp: transitionCollaborationActivity_def activity_ok_def Let_def split: if_split_asm option.split_asm)
  show "normalizeStoredCollaborationActivity (activity_js a) = Some \<lparr>sa_startedAt = jint (col_startedAt a),
    sa_sawHuman = col_sawHuman a, sa_sawAgent = col_sawAgent a, sa_peak = of_int (col_peak a)\<rparr>"
    using ok by (simp add: normalizeStoredCollaborationActivity_def activity_js_def activity_ok_def js_get_def jint_def above_zero_def)
qed

subsection \<open>The hash is not FNV-1a\<close>

text \<open>
  FNV-1a multiplies modulo \<open>2^32\<close>. The product of two 32-bit numbers does not fit a double, so the
  low digits the modulus keeps are already rounded: the hash of most names is another one.
\<close>

definition fnv1a :: "jstr \<Rightarrow> 32 word" where
  "fnv1a s = fold (\<lambda>c h. Bit_Operations.xor h (ucast c) * 0x01000193) s 0x811c9dc5"

theorem hash_is_not_fnv1a: "hashRoom (lit ''lobby'') = lit ''98067884'' \<and> hex8 (fnv1a (lit ''lobby'')) = lit ''1c5a0ed3''"
  by code_simp

subsection \<open>Concrete reports\<close>

definition demo_outcome :: analytics_event where
  "demo_outcome = buildCollabOutcomeEvent (lit ''lobby'') (lit ''id'') (map snd demo_participants) \<lparr>of_kind = Completed,
     of_from = lit ''bot'', of_target = lit ''ana'', of_attachmentIds = None, of_requestCreatedAt = Some 0, of_completedAt = Some 90000,
     of_hasLiveView = False, of_hasGeneratedApp = True\<rparr>"

theorem row_keeps_event_witness: "snd (snd (mixpanelImportRow demo_outcome 5 [])  ! 11) = text_js ''1-5m''"
proof -
  have "built demo_outcome" unfolding demo_outcome_def by (rule built.intros)
  from row_keeps_event [OF this, of 5 "[]"] show ?thesis by (simp only: snd_conv) code_simp
qed

theorem events_anonymous_witness:
  "buildCollabRequestedEvent (lit ''lobby'') (lit ''id'') [demo_participant ''xana'' Human False, demo_participant ''xbot'' Agent True]
      (lit ''x'' @ lit ''ana'') (lit ''x'' @ lit ''bot'') =
    buildCollabRequestedEvent (lit ''lobby'') (lit ''id'') [demo_participant ''ana'' Human True, demo_participant ''bot'' Agent True]
      (lit ''ana'') (lit ''bot'')"
proof -
  have "renamed (\<lambda>i. lit ''x'' @ i) [demo_participant ''ana'' Human True, demo_participant ''bot'' Agent True]
      [demo_participant ''xana'' Human False, demo_participant ''xbot'' Agent True]" by (simp add: renamed_def lit_def)
  from events_anonymous [OF this] show ?thesis by (simp add: inj_def)
qed

theorem interval_survives_witness:
  "case transitionCollaborationActivity (map snd demo_participants) None 7 of
     (Some a, _) \<Rightarrow> normalizeStoredCollaborationActivity (activity_js a) \<noteq> None | _ \<Rightarrow> False"
proof -
  obtain a d where t: "transitionCollaborationActivity (map snd demo_participants) None 7 = (Some a, d)"
    by (auto simp: transitionCollaborationActivity_def demo_participants_def Let_def)
  have "length (map snd demo_participants) \<le> 999" by (simp add: demo_participants_def)
  from interval_survives [OF t _ this] show ?thesis by (simp add: t)
qed

end
