(* ===== verification/Room_Timeline.thy ===== *)
theory Room_Timeline
  imports Room_App_Catalog "HOL-Library.List_Lexorder"
begin

text \<open>
  The timeline a browser makes of a Room's messages (app/src/common/messageReconciliation.ts) and the
  Task views it derives from them (app/src/common/taskViews.ts).

  A message has fields only where these functions read it, and a reference: two messages are the same
  object when their references are equal. Times are whole milliseconds.
\<close>

record chat_message =
  cm_ref :: nat
  cm_messageId :: "jstr option"
  cm_createdAt :: "int option"
  cm_sequence :: "jnum option"
  cm_afterSequence :: "jnum option"
  cm_collab :: "collab_event option"
  cm_taskRequestId :: "jstr option"
  cm_targets :: "jstr list option"

subsection \<open>Reconciliation\<close>

definition isCanonicalSequence :: "jnum option \<Rightarrow> int option" where
  "isCanonicalSequence v = (case v of
     Some n \<Rightarrow> if is_safe_integer n \<and> 0 \<le> the_int_of n then Some (the_int_of n) else None | None \<Rightarrow> None)"

definition differ :: "'a option \<Rightarrow> 'a option \<Rightarrow> bool" where
  "differ x y \<longleftrightarrow> x \<noteq> None \<and> y \<noteq> None \<and> x \<noteq> y"

definition message_id :: "chat_message \<Rightarrow> jstr option" where
  "message_id m = truthy_str (cm_messageId m)"

definition sequence_of :: "chat_message \<Rightarrow> int option" where
  "sequence_of m = isCanonicalSequence (cm_sequence m)"

definition hasSameCanonicalIdentity :: "chat_message \<Rightarrow> chat_message \<Rightarrow> bool" where
  "hasSameCanonicalIdentity previous next' \<longleftrightarrow> \<not> differ (message_id previous) (message_id next') \<and>
     \<not> differ (sequence_of previous) (sequence_of next')"

text \<open>The two maps of the previous messages: a later message replaces an earlier one under its key.\<close>

definition index_by :: "(chat_message \<Rightarrow> 'k option) \<Rightarrow> chat_message list \<Rightarrow> ('k, chat_message) dict" where
  "index_by key ms = fold (\<lambda>m d. case key m of Some k \<Rightarrow> dput k m d | None \<Rightarrow> d) ms []"

definition reconcile_message :: "(jstr, chat_message) dict \<Rightarrow> (int, chat_message) dict \<Rightarrow> chat_message \<Rightarrow> chat_message" where
  "reconcile_message ids seqs m =
     (case (Option.bind (message_id m) (dget ids), Option.bind (sequence_of m) (dget seqs)) of
        (Some a, None) \<Rightarrow> if hasSameCanonicalIdentity a m then a else m
      | (Some a, Some b) \<Rightarrow> if hasSameCanonicalIdentity a m \<and> cm_ref a = cm_ref b then a else m
      | (None, Some b) \<Rightarrow> if hasSameCanonicalIdentity b m then b else m
      | (None, None) \<Rightarrow> m)"

definition reconcileCanonicalRoomMessages :: "chat_message list \<Rightarrow> chat_message list \<Rightarrow> chat_message list" where
  "reconcileCanonicalRoomMessages previous next' =
     map (reconcile_message (index_by message_id previous) (index_by sequence_of previous)) next'"

subsection \<open>The merged timeline\<close>

text \<open>The comparison of two messages with their places in the list; negative puts the first one first.\<close>

definition anchor_of :: "chat_message \<Rightarrow> int option" where
  "anchor_of m = isCanonicalSequence (cm_afterSequence m)"

definition created_or_zero :: "chat_message \<Rightarrow> int" where
  "created_or_zero m = (case cm_createdAt m of Some t \<Rightarrow> t | None \<Rightarrow> 0)"

definition or_else :: "int \<Rightarrow> int \<Rightarrow> int" where
  "or_else x y = (if x = 0 then y else x)"

definition timeline_compare :: "chat_message \<times> nat \<Rightarrow> chat_message \<times> nat \<Rightarrow> int" where
  "timeline_compare x y = (case (x, y) of ((l, i), (r, j)) \<Rightarrow>
     (let places = int i - int j in
      case (sequence_of l, sequence_of r, anchor_of l, anchor_of r) of
        (Some s, Some t, _, _) \<Rightarrow> or_else (s - t) places
      | (Some s, None, _, Some b) \<Rightarrow> if s \<le> b then - 1 else 1
      | (None, Some t, Some a, _) \<Rightarrow> if t \<le> a then 1 else - 1
      | (None, None, Some a, Some b) \<Rightarrow> or_else (a - b) places
      | (Some s, None, _, None) \<Rightarrow> - 1
      | (None, Some t, None, _) \<Rightarrow> 1
      | (None, None, Some a, None) \<Rightarrow> - 1
      | (None, None, None, Some b) \<Rightarrow> 1
      | (None, None, None, None) \<Rightarrow> or_else (created_or_zero l - created_or_zero r) places))"

definition mergeRoomAndEphemeralMessages :: "chat_message list \<Rightarrow> chat_message list \<Rightarrow> chat_message list" where
  "mergeRoomAndEphemeralMessages roomMessages ephemeral =
     map fst (stable_sort (\<lambda>x y. timeline_compare x y \<le> 0) (zip (roomMessages @ ephemeral) [0..<length (roomMessages @ ephemeral)]))"

subsection \<open>Task views\<close>

datatype task_status = Starting | Task_working | Task_completed | Task_failed

record task_view =
  vt_requestId :: jstr
  vt_title :: jstr
  vt_createdBy :: jstr
  vt_target :: jstr
  vt_agents :: "jstr list"
  vt_status :: task_status
  vt_messages :: "chat_message list"

definition isTaskCorrelatedMessage :: "chat_message \<Rightarrow> bool" where
  "isTaskCorrelatedMessage m \<longleftrightarrow> truthy_str (cm_taskRequestId m) \<noteq> None \<or>
     truthy_str (map_option ce_requestId (cm_collab m)) \<noteq> None"

definition applyTaskLifecycle :: "task_status \<Rightarrow> collab_kind \<Rightarrow> task_status" where
  "applyTaskLifecycle current k = (case k of Accepted \<Rightarrow> Task_working | Completed \<Rightarrow> Task_completed
     | Declined \<Rightarrow> Task_failed | Failed \<Rightarrow> Task_failed | Request \<Rightarrow> current)"

definition addParticipantId :: "jstr \<Rightarrow> jstr list \<Rightarrow> jstr list" where
  "addParticipantId i ids = (if js_trim i = [] then ids else set_add (js_trim i) ids)"

definition addTaskParticipants :: "chat_message \<Rightarrow> jstr list \<Rightarrow> jstr list" where
  "addTaskParticipants m ids =
     (let ids = (case cm_collab m of Some e \<Rightarrow> addParticipantId (ce_target e) (addParticipantId (ce_from e) ids) | None \<Rightarrow> ids) in
      if truthy_str (cm_taskRequestId m) = None then ids
      else fold addParticipantId (case cm_targets m of Some ts \<Rightarrow> ts | None \<Rightarrow> []) ids)"

definition isTaskTerminal :: "task_status \<Rightarrow> bool" where
  "isTaskTerminal s \<longleftrightarrow> s = Task_completed \<or> s = Task_failed"

definition taskHasConnectedAgent :: "task_view \<Rightarrow> (jstr \<times> participant_kind) list \<Rightarrow> bool" where
  "taskHasConnectedAgent t people = list_ex (\<lambda>i. list_ex (\<lambda>(j, k). j = i \<and> k = Agent) people) (vt_agents t)"

definition new_view :: "chat_message \<Rightarrow> collab_event \<Rightarrow> task_view" where
  "new_view m e = \<lparr>vt_requestId = ce_requestId e,
     vt_title = (case ce_summary e of Some s \<Rightarrow> s | None \<Rightarrow> lit ''Untitled task''), vt_createdBy = ce_from e, vt_target = ce_target e,
     vt_agents = dedupe (filter (\<lambda>i. i \<noteq> []) [ce_from e, ce_target e]), vt_status = Starting, vt_messages = [m]\<rparr>"

text \<open>\<open>message.taskRequestId ?? collab?.requestId\<close>, unless it is empty.\<close>

definition correlation :: "chat_message \<Rightarrow> jstr option" where
  "correlation m = truthy_str (case cm_taskRequestId m of Some i \<Rightarrow> Some i | None \<Rightarrow> map_option ce_requestId (cm_collab m))"

definition extend_view :: "chat_message \<Rightarrow> task_view \<Rightarrow> task_view" where
  "extend_view m v = v\<lparr>vt_messages := vt_messages v @ [m], vt_agents := addTaskParticipants m (vt_agents v),
     vt_status := (case cm_collab m of Some e \<Rightarrow> applyTaskLifecycle (vt_status v) (ce_kind e) | None \<Rightarrow> vt_status v)\<rparr>"

definition project_message :: "chat_message \<Rightarrow> (jstr, task_view) dict \<Rightarrow> (jstr, task_view) dict" where
  "project_message m views =
     (let follow = (case correlation m of
        Some i \<Rightarrow> (case dget views i of Some v \<Rightarrow> dput i (extend_view m v) views | None \<Rightarrow> views) | None \<Rightarrow> views) in
      case cm_collab m of
        Some e \<Rightarrow> if ce_kind e = Request then dput (ce_requestId e) (new_view m e) views else follow
      | None \<Rightarrow> follow)"

definition buildTaskProjections :: "chat_message list \<Rightarrow> task_view list" where
  "buildTaskProjections messages = map snd (fold project_message messages [])"

definition roomMessagesForView :: "chat_message list \<Rightarrow> chat_message list" where
  "roomMessagesForView messages = filter (\<lambda>m. \<not> isTaskCorrelatedMessage m) messages"

subsection \<open>The merged timeline is a stable sort\<close>

text \<open>The place of a message: a file anchored after a sequence comes right after it, one without an anchor at the end.\<close>

definition timeline_key :: "chat_message \<Rightarrow> int list" where
  "timeline_key m = (case sequence_of m of
     Some s \<Rightarrow> [0, s, 0]
   | None \<Rightarrow> (case anchor_of m of Some a \<Rightarrow> [0, a, 1] | None \<Rightarrow> [1, created_or_zero m, 0]))"

lemma compare_key: "i < j \<Longrightarrow> timeline_compare (l, i) (r, j) \<le> 0 \<longleftrightarrow> timeline_key l \<le> timeline_key r"
  by (auto simp: timeline_compare_def timeline_key_def or_else_def Let_def split: option.split)

lemma insert_by_key:
  assumes "\<forall>(y, j) \<in> set ys. i < j"
  shows "map fst (insert_by (\<lambda>x y. timeline_compare x y \<le> 0) (x, i) ys) = insort_key timeline_key x (map fst ys)"
  using assms by (induction ys) (auto simp: compare_key)

lemma stable_sort_key: "map fst (stable_sort (\<lambda>x y. timeline_compare x y \<le> 0) (zip xs [n..<n + length xs])) = sort_key timeline_key xs"
proof (induction xs arbitrary: n)
  case (Cons x xs)
  let ?le = "\<lambda>x y. timeline_compare x y \<le> 0" and ?zs = "zip xs [Suc n..<Suc n + length xs]"
  have z: "zip (x # xs) [n..<n + length (x # xs)] = (x, n) # ?zs" by (simp add: upt_conv_Cons del: upt_Suc)
  have "\<forall>(y, j) \<in> set (stable_sort ?le ?zs). n < j" by (auto dest!: set_zip_rightD simp del: upt_Suc)
  from insert_by_key [OF this, of x] have "map fst (stable_sort ?le ((x, n) # ?zs)) = insort_key timeline_key x (map fst (stable_sort ?le ?zs))"
    by (simp add: stable_sort_def)
  then show ?case unfolding z Cons.IH by simp
qed (simp add: stable_sort_def)

text \<open>
  C29: Merging is a stable sort by place, so it is an order at all: each Room message at its sequence, each
  anchored file behind the messages its sender had seen, and nothing lost or doubled.
\<close>

theorem merge_is_stable_sort:
  "mergeRoomAndEphemeralMessages roomMessages ephemeral = sort_key timeline_key (roomMessages @ ephemeral)"
  using stable_sort_key [of "roomMessages @ ephemeral" 0] by (simp add: mergeRoomAndEphemeralMessages_def)

subsection \<open>Reconciliation keeps identity\<close>

lemma index_by_snoc: "index_by key (ms @ [m]) = (case key m of Some k \<Rightarrow> dput k m (index_by key ms) | None \<Rightarrow> index_by key ms)"
  by (simp add: index_by_def split: option.split)

lemma index_by_sound: "dget (index_by key ms) k = Some a \<Longrightarrow> a \<in> set ms \<and> key a = Some k"
  by (induction ms rule: rev_induct) (auto simp: index_by_def split: option.split_asm if_split_asm)

lemma index_by_complete: "distinct (map key ms) \<Longrightarrow> a \<in> set ms \<Longrightarrow> key a = Some k \<Longrightarrow> dget (index_by key ms) k = Some a"
proof (induction ms rule: rev_induct)
  case (snoc m ms)
  then show ?case by (cases "a = m") (force simp: index_by_snoc split: option.split)+
qed simp

definition identity :: "chat_message \<Rightarrow> jstr option \<times> int option" where
  "identity m = (message_id m, sequence_of m)"

text \<open>
  With server-assigned identities, a refresh shows exactly the messages of the new snapshot, in its
  order, and every one the browser already had stays the same object.
\<close>

theorem refresh_keeps_objects:
  assumes "\<forall>m \<in> set (previous @ next'). message_id m \<noteq> None \<and> sequence_of m \<noteq> None"
    and "distinct (map message_id previous)" and "distinct (map sequence_of previous)"
  shows "list_all2 (\<lambda>m x. identity x = identity m \<and> x \<in> set (m # previous) \<and> (\<forall>a \<in> set previous. identity a = identity m \<longrightarrow> x = a))
    next' (reconcileCanonicalRoomMessages previous next')"
proof -
  let ?ids = "index_by message_id previous" and ?seqs = "index_by sequence_of previous"
  have "identity (reconcile_message ?ids ?seqs m) = identity m \<and> reconcile_message ?ids ?seqs m \<in> set (m # previous) \<and>
      (\<forall>a \<in> set previous. identity a = identity m \<longrightarrow> reconcile_message ?ids ?seqs m = a)" if m: "m \<in> set next'" for m
  proof -
    obtain i s where i: "message_id m = Some i" and s: "sequence_of m = Some s" using assms(1) m by fastforce
    have a: "a \<in> set previous \<and> (hasSameCanonicalIdentity a m \<longrightarrow> identity a = identity m)"
      if "dget ?ids i = Some a \<or> dget ?seqs s = Some a" for a
    proof -
      have "a \<in> set previous" using that index_by_sound [of message_id previous i a] index_by_sound [of sequence_of previous s a] by blast
      moreover from this obtain j t where "message_id a = Some j" "sequence_of a = Some t" using assms(1) by fastforce
      ultimately show ?thesis by (simp add: hasSameCanonicalIdentity_def differ_def identity_def i s)
    qed
    have "reconcile_message ?ids ?seqs m = a" if "a \<in> set previous" "identity a = identity m" for a
      using index_by_complete [OF assms(2) that(1), of i] index_by_complete [OF assms(3) that(1), of s] that(2)
      by (simp add: reconcile_message_def identity_def i s hasSameCanonicalIdentity_def differ_def)
    moreover have "identity (reconcile_message ?ids ?seqs m) = identity m \<and> reconcile_message ?ids ?seqs m \<in> set (m # previous)"
      using a by (auto simp: reconcile_message_def i s split: option.split)
    ultimately show ?thesis by blast
  qed
  then show ?thesis by (simp add: reconcileCanonicalRoomMessages_def list_all2_map2 list_all2_same)
qed

subsection \<open>What a Task view holds\<close>

definition is_request :: "chat_message \<Rightarrow> jstr \<Rightarrow> bool" where
  "is_request m i \<longleftrightarrow> (case cm_collab m of Some e \<Rightarrow> ce_kind e = Request \<and> ce_requestId e = i | None \<Rightarrow> False)"

definition follows_task :: "jstr \<Rightarrow> chat_message \<Rightarrow> bool" where
  "follows_task i m \<longleftrightarrow> correlation m = Some i \<and> (case cm_collab m of Some e \<Rightarrow> ce_kind e \<noteq> Request | None \<Rightarrow> True)"

lemma project_other: "\<not> is_request m i \<Longrightarrow> \<not> follows_task i m \<Longrightarrow> dget (project_message m views) i = dget views i"
  by (auto simp: project_message_def is_request_def follows_task_def Let_def split: option.split)

lemma project_follow: "\<not> is_request m i \<Longrightarrow> follows_task i m \<Longrightarrow> dget views i = Some v \<Longrightarrow>
    dget (project_message m views) i = Some (extend_view m v)"
  by (auto simp: project_message_def is_request_def follows_task_def Let_def split: option.split)

lemma project_rest:
  assumes "\<forall>m \<in> set ms. \<not> is_request m i" and "dget views i = Some v"
  shows "dget (fold project_message ms views) i = Some (fold extend_view (filter (follows_task i) ms) v)"
  using assms by (induction ms arbitrary: views v) (auto simp: project_other project_follow)

lemma project_request: "cm_collab m = Some e \<Longrightarrow> ce_kind e = Request \<Longrightarrow>
    dget (project_message m views) (ce_requestId e) = Some (new_view m e)"
  by (simp add: project_message_def Let_def)

lemma extend_messages: "vt_messages (fold extend_view ms v) = vt_messages v @ ms"
    "vt_requestId (fold extend_view ms v) = vt_requestId v" "vt_title (fold extend_view ms v) = vt_title v"
  by (induction ms arbitrary: v) (simp_all add: extend_view_def)

lemma wf_project: "wf_dict views \<Longrightarrow> wf_dict (project_message m views)"
  by (auto simp: project_message_def Let_def wf_dput split: option.split)

lemma wf_projections: "wf_dict views \<Longrightarrow> wf_dict (fold project_message ms views)"
  by (induction ms arbitrary: views) (simp_all add: wf_project)

text \<open>The last message of a Task's lifecycle decides its status.\<close>

definition status_after :: "chat_message list \<Rightarrow> task_status" where
  "status_after ms = fold (\<lambda>m st. case cm_collab m of Some e \<Rightarrow> applyTaskLifecycle st (ce_kind e) | None \<Rightarrow> st) ms Starting"

lemma extend_status: "vt_status (fold extend_view ms v) =
    fold (\<lambda>m st. case cm_collab m of Some e \<Rightarrow> applyTaskLifecycle st (ce_kind e) | None \<Rightarrow> st) ms (vt_status v)"
  by (induction ms arbitrary: v) (simp_all add: extend_view_def split: option.split)

text \<open>
  The view of a Task holds its request and, in order, exactly the later messages that name the Task: no
  message of another Task and none of the Room; its status follows from those messages alone.
\<close>

theorem task_view_exact:
  assumes "cm_collab m = Some e" and "ce_kind e = Request" and "\<forall>x \<in> set later. \<not> is_request x (ce_requestId e)"
  shows "\<exists>v \<in> set (buildTaskProjections (earlier @ m # later)). vt_requestId v = ce_requestId e \<and>
    vt_messages v = m # filter (follows_task (ce_requestId e)) later \<and>
    vt_status v = status_after (filter (follows_task (ce_requestId e)) later)"
proof -
  let ?ms = "filter (follows_task (ce_requestId e)) later"
  have "dget (fold project_message (earlier @ m # later) []) (ce_requestId e) = Some (fold extend_view ?ms (new_view m e))"
    using project_rest [OF assms(3) project_request [OF assms(1,2)]] by simp
  then have "fold extend_view ?ms (new_view m e) \<in> set (buildTaskProjections (earlier @ m # later))"
    unfolding buildTaskProjections_def by (force dest: map_of_SomeD)
  then show ?thesis by (rule rev_bexI) (simp add: extend_messages extend_status status_after_def new_view_def)
qed

subsection \<open>A concrete timeline\<close>

definition demo_chat :: "nat \<Rightarrow> string \<Rightarrow> int option \<Rightarrow> int option \<Rightarrow> collab_event option \<Rightarrow> chat_message" where
  "demo_chat r i s a e = \<lparr>cm_ref = r, cm_messageId = (if i = [] then None else Some (lit i)), cm_createdAt = Some 5,
     cm_sequence = map_option jint s, cm_afterSequence = map_option jint a, cm_collab = e, cm_taskRequestId = None, cm_targets = None\<rparr>"

definition demo_event :: "collab_kind \<Rightarrow> collab_event" where
  "demo_event k = \<lparr>ce_requestId = lit ''req-1'', ce_kind = k, ce_from = lit ''ana'', ce_target = lit ''bot'', ce_summary = None,
     ce_details = None, ce_attachmentIds = None\<rparr>"

lemma demo_merge: "map cm_ref (mergeRoomAndEphemeralMessages [demo_chat 1 ''a'' (Some 1) None None, demo_chat 2 ''b'' (Some 2) None None]
    [demo_chat 3 [] None None None, demo_chat 4 [] None (Some 1) None]) = [1, 4, 2, 3]"
  by code_simp

theorem refresh_keeps_objects_witness:
  "map cm_ref (reconcileCanonicalRoomMessages [demo_chat 1 ''a'' (Some 1) None None]
    [demo_chat 7 ''a'' (Some 1) None None, demo_chat 8 ''b'' (Some 2) None None]) = [1, 8]"
proof -
  let ?p = "[demo_chat 1 ''a'' (Some 1) None None]" and ?n = "[demo_chat 7 ''a'' (Some 1) None None, demo_chat 8 ''b'' (Some 2) None None]"
  have ids: "\<forall>m \<in> set (?p @ ?n). message_id m \<noteq> None \<and> sequence_of m \<noteq> None" by code_simp
  have "identity (demo_chat 1 ''a'' (Some 1) None None) = identity (demo_chat 7 ''a'' (Some 1) None None)"
      "identity (demo_chat 1 ''a'' (Some 1) None None) \<noteq> identity (demo_chat 8 ''b'' (Some 2) None None)" by code_simp+
  with refresh_keeps_objects [OF ids] show ?thesis by (auto simp: list_all2_Cons1) (auto simp: demo_chat_def)
qed

theorem task_view_exact_witness:
  "\<exists>v \<in> set (buildTaskProjections ([] @ demo_chat 1 ''a'' (Some 1) None (Some (demo_event Request)) #
      [demo_chat 2 ''b'' (Some 2) None None, demo_chat 3 ''c'' (Some 3) None (Some (demo_event Completed))])).
    map cm_ref (vt_messages v) = [1, 3] \<and> vt_status v = Task_completed"
proof -
  let ?l = "[demo_chat 2 ''b'' (Some 2) None None, demo_chat 3 ''c'' (Some 3) None (Some (demo_event Completed))]"
  let ?m = "demo_chat 1 ''a'' (Some 1) None (Some (demo_event Request))"
  have "cm_collab ?m = Some (demo_event Request)" "ce_kind (demo_event Request) = Request"
      "\<forall>x \<in> set ?l. \<not> is_request x (ce_requestId (demo_event Request))" by code_simp+
  from task_view_exact [OF this, of "[]"] obtain v where
    v: "v \<in> set (buildTaskProjections ([] @ ?m # ?l))" "vt_messages v = ?m # filter (follows_task (ce_requestId (demo_event Request))) ?l"
      "vt_status v = status_after (filter (follows_task (ce_requestId (demo_event Request))) ?l)" by blast
  have "map cm_ref (?m # filter (follows_task (ce_requestId (demo_event Request))) ?l) = [1, 3]"
      "status_after (filter (follows_task (ce_requestId (demo_event Request))) ?l) = Task_completed" by code_simp+
  with v show ?thesis by metis
qed

end
