(* ===== verification/Sfu_Egress.thy ===== *)
theory Sfu_Egress
  imports Room_App_Catalog
begin

text \<open>
  How a browser measures what it receives from the SFU (app/src/common/sfuEgress.ts): the counters of
  one WebRTC report, what has come since the last one, and the sampler that keeps the last report. The
  report itself comes from the platform. \<open>ntext\<close> prints a number that is no safe integer.
\<close>

datatype egress_category = Egress_audio | Egress_video | Egress_data

record egress_stat =
  es_category :: egress_category
  es_received :: int

type_synonym egress_stats = "(jstr, egress_stat) dict"

record egress_bytes =
  eb_audio :: int
  eb_video :: int
  eb_data :: int

definition EMPTY_BYTES :: egress_bytes where
  "EMPTY_BYTES = \<lparr>eb_audio = 0, eb_video = 0, eb_data = 0\<rparr>"

definition MAX_SAFE_INTEGER :: int where "MAX_SAFE_INTEGER = 9007199254740991"

definition nonNegativeInteger :: "js \<Rightarrow> int" where
  "nonNegativeInteger v = (case v of JNum (Fin q) \<Rightarrow> if q < 0 then 0 else min \<lfloor>q\<rfloor> MAX_SAFE_INTEGER | _ \<Rightarrow> 0)"

text \<open>\<open>value\<close> has passed \<open>nonNegativeInteger\<close> before, which leaves such a value alone.\<close>

definition addBytes :: "int \<Rightarrow> int \<Rightarrow> int" where
  "addBytes current v = min (current + nonNegativeInteger (JNum (jint v))) MAX_SAFE_INTEGER"

subsection \<open>One report\<close>

text \<open>A report is a map or another collection, with its values, or a plain value.\<close>

datatype stats_report = Report_values "js list" | Report_plain js

definition eachStat :: "stats_report \<Rightarrow> js list" where
  "eachStat report = (case report of
     Report_values vs \<Rightarrow> filter is_objectish vs
   | Report_plain v \<Rightarrow> (case v of
       JArr vs \<Rightarrow> filter is_objectish vs
     | JObj ps \<Rightarrow> (case js_get v ''type'' of JStr _ \<Rightarrow> [v] | _ \<Rightarrow> filter is_objectish (map snd ps))
     | _ \<Rightarrow> []))"

text \<open>\<open>String(n)\<close>.\<close>

definition js_number_text :: "(rat \<Rightarrow> jstr) \<Rightarrow> jnum \<Rightarrow> jstr" where
  "js_number_text ntext n = (case n of Fin q \<Rightarrow> json_text ntext (JNum (Fin q)) | NaN \<Rightarrow> lit ''NaN''
     | PosInf \<Rightarrow> lit ''Infinity'' | NegInf \<Rightarrow> lit ''-Infinity'')"

definition stat_id :: "(rat \<Rightarrow> jstr) \<Rightarrow> js \<Rightarrow> jstr option" where
  "stat_id ntext v = (case js_get v ''id'' of
     JStr s \<Rightarrow> truthy_str (Some s) | JNum n \<Rightarrow> Some (js_number_text ntext n) | _ \<Rightarrow> None)"

definition stat_category :: "js \<Rightarrow> egress_category option" where
  "stat_category v =
     (if js_get v ''type'' = JStr (lit ''inbound-rtp'') then
        (let k = (case js_get v ''kind'' of JUndefined \<Rightarrow> js_get v ''mediaType'' | JNull \<Rightarrow> js_get v ''mediaType'' | x \<Rightarrow> x) in
         if k = JStr (lit ''audio'') then Some Egress_audio else if k = JStr (lit ''video'') then Some Egress_video else None)
      else if js_get v ''type'' = JStr (lit ''data-channel'') then Some Egress_data else None)"

definition aggregateSfuEgressStats :: "(rat \<Rightarrow> jstr) \<Rightarrow> stats_report \<Rightarrow> egress_stats" where
  "aggregateSfuEgressStats ntext report = fold (\<lambda>v stats. case (stat_id ntext v, stat_category v) of
       (Some i, Some c) \<Rightarrow> dput i \<lparr>es_category = c, es_received = nonNegativeInteger (js_get v ''bytesReceived'')\<rparr> stats
     | _ \<Rightarrow> stats) (eachStat report) []"

subsection \<open>The difference of two reports\<close>

definition add_category :: "egress_category \<Rightarrow> int \<Rightarrow> egress_bytes \<Rightarrow> egress_bytes" where
  "add_category c n b = (case c of
     Egress_audio \<Rightarrow> b\<lparr>eb_audio := addBytes (eb_audio b) n\<rparr>
   | Egress_video \<Rightarrow> b\<lparr>eb_video := addBytes (eb_video b) n\<rparr>
   | Egress_data \<Rightarrow> b\<lparr>eb_data := addBytes (eb_data b) n\<rparr>)"

definition add_stat :: "egress_stats \<Rightarrow> jstr \<times> egress_stat \<Rightarrow> egress_bytes \<Rightarrow> egress_bytes" where
  "add_stat previous x b = (case x of (i, s) \<Rightarrow> (case dget previous i of
     None \<Rightarrow> add_category (es_category s) (es_received s) b
   | Some p \<Rightarrow> if es_category p \<noteq> es_category s \<or> es_received s < es_received p then b
       else add_category (es_category s) (es_received s - es_received p) b))"

definition sfuEgressDelta :: "egress_stats option \<Rightarrow> egress_stats \<Rightarrow> egress_bytes option" where
  "sfuEgressDelta previous current = map_option (\<lambda>p. fold (add_stat p) current EMPTY_BYTES) previous"

definition totalBytes :: "egress_bytes \<Rightarrow> int" where
  "totalBytes b = min (eb_audio b + eb_video b + eb_data b) MAX_SAFE_INTEGER"

subsection \<open>The sampler\<close>

datatype sample_reason = Sample_interval | Sample_leave | Sample_pagehide | Sample_disconnect

record egress_sample =
  eg_bytes :: egress_bytes
  eg_total :: int
  eg_intervalMs :: int
  eg_reason :: sample_reason

record sampler =
  sm_source :: "nat option"
  sm_previous :: "egress_stats option"
  sm_lastObservedAt :: "int option"

definition new_sampler :: sampler where
  "new_sampler = \<lparr>sm_source = None, sm_previous = None, sm_lastObservedAt = None\<rparr>"

text \<open>
  Samples run one after the other. \<open>report\<close> is what \<open>getStats\<close> gave, if it did not fail, and \<open>now\<close> the
  time at which it did. What \<open>emit\<close> does with a sample is its own affair.
\<close>

definition run_sample :: "(rat \<Rightarrow> jstr) \<Rightarrow> nat \<Rightarrow> stats_report option \<Rightarrow> sample_reason \<Rightarrow> int \<Rightarrow> sampler \<Rightarrow> egress_sample option \<times> sampler" where
  "run_sample ntext source report reason now s =
     (let s = (if sm_source s = Some source then s
            else \<lparr>sm_source = Some source, sm_previous = None, sm_lastObservedAt = None\<rparr>) in
      case report of
        None \<Rightarrow> (None, s)
      | Some v \<Rightarrow>
          (let current = aggregateSfuEgressStats ntext v;
               interval = (case sm_lastObservedAt s of None \<Rightarrow> 0 | Some t \<Rightarrow> max 0 (now - t));
               s' = s\<lparr>sm_previous := Some current, sm_lastObservedAt := Some now\<rparr> in
           case sfuEgressDelta (sm_previous s) current of
             None \<Rightarrow> (None, s')
           | Some d \<Rightarrow> (if totalBytes d = 0 then None
               else Some \<lparr>eg_bytes = d, eg_total = totalBytes d, eg_intervalMs = interval, eg_reason = reason\<rparr>, s')))"

subsection \<open>Every byte is counted once\<close>

definition bytes_of :: "egress_stats \<Rightarrow> int" where
  "bytes_of stats = sum_list (map (es_received \<circ> snd) stats)"

definition stats_ok :: "egress_stats \<Rightarrow> bool" where
  "stats_ok stats \<longleftrightarrow> wf_dict stats \<and> list_all (\<lambda>x. 0 \<le> es_received (snd x)) stats"

text \<open>No counter disappears, changes its kind or goes back.\<close>

definition grows :: "egress_stats \<Rightarrow> egress_stats \<Rightarrow> bool" where
  "grows p c \<longleftrightarrow> list_all (\<lambda>(i, s). case dget c i of None \<Rightarrow> False
     | Some t \<Rightarrow> es_category t = es_category s \<and> es_received s \<le> es_received t) p"

lemma nonneg_id: "0 \<le> n \<Longrightarrow> n \<le> MAX_SAFE_INTEGER \<Longrightarrow> nonNegativeInteger (JNum (jint n)) = n"
  by (simp add: nonNegativeInteger_def jint_def)

lemma nonneg_range: "0 \<le> nonNegativeInteger v \<and> nonNegativeInteger v \<le> MAX_SAFE_INTEGER"
  by (auto simp: nonNegativeInteger_def MAX_SAFE_INTEGER_def split: js.split jnum.split)

lemma aggregate_ok: "stats_ok (aggregateSfuEgressStats ntext report)"
proof -
  have step: "stats_ok (fold (\<lambda>v stats. case (stat_id ntext v, stat_category v) of
       (Some i, Some c) \<Rightarrow> dput i \<lparr>es_category = c, es_received = nonNegativeInteger (js_get v ''bytesReceived'')\<rparr> stats
     | _ \<Rightarrow> stats) vs stats)" if "stats_ok stats" for vs stats
    using that
  proof (induction vs arbitrary: stats)
    case (Cons v vs)
    have "stats_ok (dput i \<lparr>es_category = c, es_received = nonNegativeInteger w\<rparr> stats)" for i c w
      using Cons.prems set_dput_subset [of i "\<lparr>es_category = c, es_received = nonNegativeInteger w\<rparr>" stats] nonneg_range
      by (auto simp: stats_ok_def wf_dput list_all_iff)
    then show ?case using Cons by (auto split: option.split)
  qed simp
  show ?thesis unfolding aggregateSfuEgressStats_def by (rule step) (simp add: stats_ok_def)
qed

definition raw_total :: "egress_bytes \<Rightarrow> int" where
  "raw_total b = eb_audio b + eb_video b + eb_data b"

definition bytes_ok :: "egress_bytes \<Rightarrow> bool" where
  "bytes_ok b \<longleftrightarrow> 0 \<le> eb_audio b \<and> 0 \<le> eb_video b \<and> 0 \<le> eb_data b"

definition known :: "egress_stats \<Rightarrow> jstr \<Rightarrow> int" where
  "known p i = (case dget p i of Some s \<Rightarrow> es_received s | None \<Rightarrow> 0)"

definition fair_stat :: "egress_stats \<Rightarrow> jstr \<times> egress_stat \<Rightarrow> bool" where
  "fair_stat p x \<longleftrightarrow> 0 \<le> known p (fst x) \<and> known p (fst x) \<le> es_received (snd x) \<and>
     (case dget p (fst x) of Some s \<Rightarrow> es_category s = es_category (snd x) | None \<Rightarrow> True)"

lemma add_stat_total:
  assumes "fair_stat p x" and "bytes_ok b" and "raw_total b + es_received (snd x) \<le> MAX_SAFE_INTEGER"
  shows "raw_total (add_stat p x b) = raw_total b + (es_received (snd x) - known p (fst x)) \<and> bytes_ok (add_stat p x b)"
proof -
  have "nonNegativeInteger (JNum (jint n)) = n" if "0 \<le> n" "n \<le> es_received (snd x)" for n
    using that assms by (intro nonneg_id) (auto simp: raw_total_def bytes_ok_def)
  then show ?thesis using assms
    by (auto simp: add_stat_def add_category_def fair_stat_def known_def addBytes_def raw_total_def bytes_ok_def
        split: prod.split option.split egress_category.split)
qed

lemma fold_stat_total:
  assumes "list_all (fair_stat p) xs" and "bytes_ok b" and "raw_total b + bytes_of xs \<le> MAX_SAFE_INTEGER"
  shows "raw_total (fold (add_stat p) xs b) = raw_total b + bytes_of xs - sum_list (map (known p \<circ> fst) xs) \<and>
    bytes_ok (fold (add_stat p) xs b)"
  using assms
proof (induction xs arbitrary: b)
  case (Cons x xs)
  have "0 \<le> es_received (snd x)" if "x \<in> set xs" for x
    using Cons.prems(1) that by (fastforce simp: list_all_iff fair_stat_def)
  then have pos: "0 \<le> bytes_of xs" by (auto simp: bytes_of_def intro!: sum_list_nonneg)
  have bound: "raw_total b + es_received (snd x) + bytes_of xs \<le> MAX_SAFE_INTEGER" using Cons.prems(3) by (simp add: bytes_of_def)
  have fair: "fair_stat p x" using Cons.prems(1) by simp
  from add_stat_total [OF fair Cons.prems(2)] pos bound
  have step: "raw_total (add_stat p x b) = raw_total b + (es_received (snd x) - known p (fst x))" "bytes_ok (add_stat p x b)" by simp_all
  have "raw_total (add_stat p x b) + bytes_of xs \<le> MAX_SAFE_INTEGER" using step(1) bound fair by (simp add: fair_stat_def)
  from Cons.IH [OF _ step(2) this] Cons.prems(1) show ?case by (simp add: step(1) bytes_of_def)
qed (simp add: bytes_of_def)

lemma known_none: "i \<notin> fst ` set p \<Longrightarrow> known p i = 0"
  by (simp add: known_def map_of_eq_None_iff [THEN iffD2])

lemma sum_known:
  assumes "wf_dict p" and "wf_dict c" and "fst ` set p \<subseteq> fst ` set c"
  shows "sum_list (map (known p \<circ> fst) c) = bytes_of p"
proof -
  have "sum_list (map (known p \<circ> fst) c) = sum_list (map (known p) (map fst c))" by simp
  also have "\<dots> = sum (known p) (fst ` set c)" using assms(2) by (simp add: wf_dict_def sum_list_distinct_conv_sum_set del: map_map)
  also have "\<dots> = sum (known p) (fst ` set p)"
    using assms(3) by (intro sum.mono_neutral_right) (auto simp: known_none)
  also have "\<dots> = sum_list (map (known p) (map fst p))" using assms(1) by (simp add: wf_dict_def sum_list_distinct_conv_sum_set del: map_map)
  also have "\<dots> = bytes_of p"
    using assms(1) by (auto simp: bytes_of_def known_def wf_dget intro!: arg_cong [of _ _ sum_list] split: option.split)
  finally show ?thesis .
qed

lemma delta_total:
  assumes "stats_ok p" and "stats_ok c" and "grows p c" and "bytes_of c \<le> MAX_SAFE_INTEGER"
  shows "\<exists>d. sfuEgressDelta (Some p) c = Some d \<and> totalBytes d = bytes_of c - bytes_of p \<and> 0 \<le> totalBytes d"
proof -
  have sub: "fst ` set p \<subseteq> fst ` set c"
    using assms(3) by (force simp: grows_def list_all_iff dest: map_of_SomeD split: option.split_asm)
  have "list_all (fair_stat p) c" unfolding list_all_iff
  proof
    fix x assume x: "x \<in> set c"
    show "fair_stat p x"
    proof (cases "dget p (fst x)")
      case None
      with x assms(2) show ?thesis by (auto simp: fair_stat_def known_def stats_ok_def list_all_iff)
    next
      case (Some s)
      then have s: "(fst x, s) \<in> set p" by (rule map_of_SomeD)
      have "dget c (fst x) = Some (snd x)" using x assms(2) wf_dget [of c "fst x" "snd x"] by (simp add: stats_ok_def)
      with s assms(1,3) Some show ?thesis by (force simp: fair_stat_def known_def grows_def stats_ok_def list_all_iff)
    qed
  qed
  from fold_stat_total [OF this, of EMPTY_BYTES] assms(4) sum_known [OF _ _ sub] assms(1,2)
  have t: "raw_total (fold (add_stat p) c EMPTY_BYTES) = bytes_of c - bytes_of p" "bytes_ok (fold (add_stat p) c EMPTY_BYTES)"
    by (simp_all add: bytes_ok_def raw_total_def EMPTY_BYTES_def stats_ok_def)
  have "0 \<le> bytes_of p" using assms(1) by (auto simp: bytes_of_def stats_ok_def list_all_iff intro!: sum_list_nonneg)
  with t assms(4) have "totalBytes (fold (add_stat p) c EMPTY_BYTES) = bytes_of c - bytes_of p"
    by (simp add: totalBytes_def raw_total_def)
  moreover have "0 \<le> raw_total (fold (add_stat p) c EMPTY_BYTES)" using t(2) by (simp add: raw_total_def bytes_ok_def)
  ultimately show ?thesis using t(1) by (simp add: sfuEgressDelta_def)
qed

text \<open>What a sampler emits over the reports of one connection.\<close>

fun emissions :: "(rat \<Rightarrow> jstr) \<Rightarrow> nat \<Rightarrow> (stats_report \<times> sample_reason \<times> int) list \<Rightarrow> sampler \<Rightarrow> egress_sample list" where
  "emissions ntext source [] s = []"
| "emissions ntext source ((report, reason, now) # xs) s = (case run_sample ntext source (Some report) reason now s of
     (e, s') \<Rightarrow> (case e of Some x \<Rightarrow> [x] | None \<Rightarrow> []) @ emissions ntext source xs s')"

fun growing :: "egress_stats \<Rightarrow> egress_stats list \<Rightarrow> bool" where
  "growing p [] \<longleftrightarrow> True"
| "growing p (c # cs) \<longleftrightarrow> grows p c \<and> bytes_of c \<le> MAX_SAFE_INTEGER \<and> growing c cs"

abbreviation counters :: "(rat \<Rightarrow> jstr) \<Rightarrow> (stats_report \<times> sample_reason \<times> int) list \<Rightarrow> egress_stats list" where
  "counters ntext xs \<equiv> map (aggregateSfuEgressStats ntext \<circ> fst) xs"

lemma emissions_from:
  assumes "sm_source s = Some source" and "sm_previous s = Some p" and "stats_ok p" and "growing p (counters ntext xs)"
  shows "sum_list (map eg_total (emissions ntext source xs s)) = bytes_of (last (p # counters ntext xs)) - bytes_of p"
  using assms
proof (induction xs arbitrary: s p)
  case (Cons x xs)
  obtain report reason now where x: "x = (report, reason, now)" by (cases x)
  let ?c = "aggregateSfuEgressStats ntext report"
  have g: "grows p ?c" "bytes_of ?c \<le> MAX_SAFE_INTEGER" "growing ?c (counters ntext xs)" using Cons.prems(4) by (simp_all add: x comp_def)
  obtain d where d: "sfuEgressDelta (Some p) ?c = Some d" "totalBytes d = bytes_of ?c - bytes_of p"
    using delta_total [OF Cons.prems(3) aggregate_ok g(1,2)] by blast
  obtain e s' where r: "run_sample ntext source (Some report) reason now s = (e, s')" by fastforce
  have s': "sm_source s' = Some source" "sm_previous s' = Some ?c"
      and e: "(case e of Some y \<Rightarrow> eg_total y | None \<Rightarrow> 0) = bytes_of ?c - bytes_of p"
    using r d Cons.prems(1,2) by (auto simp: run_sample_def Let_def split: if_split_asm)
  from Cons.IH [OF s' aggregate_ok g(3)] e show ?case by (simp add: x r split: option.split_asm)
qed simp

text \<open>
  Over the reports of one connection whose counters do not go back, what the sampler emits adds up to
  what has been received since the first report: every byte is counted once, none twice.
\<close>

theorem each_byte_once:
  assumes "growing (aggregateSfuEgressStats ntext report) (counters ntext xs)"
  shows "sum_list (map eg_total (emissions ntext source ((report, reason, now) # xs) new_sampler)) =
    bytes_of (last (aggregateSfuEgressStats ntext report # counters ntext xs)) - bytes_of (aggregateSfuEgressStats ntext report)"
proof -
  obtain s' where "run_sample ntext source (Some report) reason now new_sampler = (None, s')"
      and s': "sm_source s' = Some source" "sm_previous s' = Some (aggregateSfuEgressStats ntext report)"
    by (simp add: run_sample_def new_sampler_def sfuEgressDelta_def Let_def)
  with emissions_from [OF s' aggregate_ok assms] show ?thesis by simp
qed

definition demo_stat :: "string \<Rightarrow> int \<Rightarrow> js" where
  "demo_stat i n = JObj [(lit ''id'', JStr (lit i)), (lit ''type'', JStr (lit ''data-channel'')), (lit ''bytesReceived'', JNum (jint n))]"

theorem each_byte_once_witness:
  "sum_list (map eg_total (emissions (\<lambda>_. []) 1 ((Report_values [demo_stat ''a'' 10], Sample_interval, 5) #
     [(Report_values [demo_stat ''a'' 25, demo_stat ''b'' 3], Sample_interval, 6), (Report_values [demo_stat ''a'' 25, demo_stat ''b'' 7], Sample_leave, 9)])
     new_sampler)) = 22"
proof -
  let ?xs = "[(Report_values [demo_stat ''a'' 25, demo_stat ''b'' 3], Sample_interval, 6), (Report_values [demo_stat ''a'' 25, demo_stat ''b'' 7], Sample_leave, 9 :: int)]"
  have g: "growing (aggregateSfuEgressStats (\<lambda>_. []) (Report_values [demo_stat ''a'' 10])) (counters (\<lambda>_. []) ?xs)" by code_simp
  have "bytes_of (last (aggregateSfuEgressStats (\<lambda>_. []) (Report_values [demo_stat ''a'' 10]) # counters (\<lambda>_. []) ?xs)) -
      bytes_of (aggregateSfuEgressStats (\<lambda>_. []) (Report_values [demo_stat ''a'' 10])) = 22" by code_simp
  with each_byte_once [OF g] show ?thesis by metis
qed

end
