(* ===== verification/Task_Composer.thy ===== *)
theory Task_Composer
  imports Json
begin

text \<open>
  What the Task composer of a browser makes of its text: the Agents it addresses
  (app/src/common/agentMentions.ts), and a large paste that becomes an attachment with a label
  (app/src/common/taskPaste.ts).
\<close>

subsection \<open>Mentions\<close>

record mention_candidate =
  mc_id :: jstr
  mc_name :: jstr

text \<open>\<open>/(?:^|\s)@name(?=$|\s)/\<close> with the name taken literally, tried at every place.\<close>

definition mention_at :: "jstr \<Rightarrow> jstr \<Rightarrow> nat \<Rightarrow> bool" where
  "mention_at s name k \<longleftrightarrow> (k = 0 \<or> is_ws (s ! (k - 1))) \<and> take (Suc (length name)) (drop k s) = 0x40 # name \<and>
     (case drop (k + Suc (length name)) s of [] \<Rightarrow> True | c # _ \<Rightarrow> is_ws c)"

definition hasCompleteMention :: "jstr \<Rightarrow> jstr \<Rightarrow> bool" where
  "hasCompleteMention s name = list_ex (mention_at s name) [0..<length s]"

definition resolveAgentTargetIds :: "jstr \<Rightarrow> mention_candidate list \<Rightarrow> mention_candidate list \<Rightarrow> jstr list" where
  "resolveAgentTargetIds s agents selected =
     (let complete = filter (\<lambda>a. hasCompleteMention s (mc_name a)) agents;
          targets = fold (\<lambda>x ts. if hasCompleteMention s (mc_name x) then set_add (mc_id x) ts else ts) selected [] in
      fold (\<lambda>name ts. case filter (\<lambda>a. mc_name a = name) complete of [a] \<Rightarrow> set_add (mc_id a) ts | _ \<Rightarrow> ts)
        (dedupe (map mc_name complete)) targets)"

definition resolveSelectedAgentTargetIds :: "jstr \<Rightarrow> mention_candidate list \<Rightarrow> jstr list" where
  "resolveSelectedAgentTargetIds s selected = map mc_id (filter (\<lambda>x. hasCompleteMention s (mc_name x)) selected)"

subsection \<open>Large pastes\<close>

definition TASK_PASTE_ATTACHMENT_THRESHOLD :: nat where "TASK_PASTE_ATTACHMENT_THRESHOLD = 2000"
definition MAX_TASK_PASTE_BYTES :: nat where "MAX_TASK_PASTE_BYTES = 768 * 1024"
definition MAX_TASK_BRIEF_LABEL_LENGTH :: nat where "MAX_TASK_BRIEF_LABEL_LENGTH = 120"

definition taskPasteByteLength :: "jstr \<Rightarrow> nat" where
  "taskPasteByteLength s = length (utf8_encode s)"

definition isLargeTaskPaste :: "jstr \<Rightarrow> bool" where
  "isLargeTaskPaste s \<longleftrightarrow> TASK_PASTE_ATTACHMENT_THRESHOLD < length s"

definition taskPasteFitsAttachment :: "jstr \<Rightarrow> bool" where
  "taskPasteFitsAttachment s \<longleftrightarrow> 0 < length s \<and> taskPasteByteLength s \<le> MAX_TASK_PASTE_BYTES"

record paste_file =
  pf_bytes :: "nat list"
  pf_name :: jstr
  pf_type :: jstr

definition taskPasteAttachment :: "jstr \<Rightarrow> paste_file" where
  "taskPasteAttachment s = \<lparr>pf_bytes = utf8_encode s, pf_name = lit ''task-brief.md'', pf_type = lit ''text/markdown''\<rparr>"

text \<open>\<open>split("\n")\<close>.\<close>

fun split_lines :: "jstr \<Rightarrow> jstr list" where
  "split_lines [] = [[]]"
| "split_lines (c # cs) = (if c = 0xa then [] # split_lines cs
     else (case split_lines cs of l # ls \<Rightarrow> (c # l) # ls | [] \<Rightarrow> [[c]]))"

text \<open>The class \<open>[#>\-*\s]\<close>.\<close>

definition is_markup :: "code_unit \<Rightarrow> bool" where
  "is_markup c \<longleftrightarrow> c = 0x23 \<or> c = 0x3e \<or> c = 0x2d \<or> c = 0x2a \<or> is_ws c"

definition clean_line :: "jstr \<Rightarrow> jstr" where
  "clean_line l = js_trim (dropWhile is_markup l)"

definition taskBriefLabel :: "jstr \<Rightarrow> jstr" where
  "taskBriefLabel s = (case find (\<lambda>l. l \<noteq> []) (map clean_line (split_lines s)) of
     Some l \<Rightarrow> take MAX_TASK_BRIEF_LABEL_LENGTH l | None \<Rightarrow> [])"

subsection \<open>Whom a text addresses\<close>

lemma fold_add_if: "set (fold (\<lambda>x ts. if P x then set_add (f x) ts else ts) xs ts) = set ts \<union> f ` {x \<in> set xs. P x}"
  by (induction xs arbitrary: ts) (auto simp: set_add_def)

lemma distinct_fold_add_if: "distinct ts \<Longrightarrow> distinct (fold (\<lambda>x ts. if P x then set_add (f x) ts else ts) xs ts)"
  by (induction xs arbitrary: ts) (auto simp: set_add_def)

lemma fold_only: "set (fold (\<lambda>n ts. case g n of [a] \<Rightarrow> set_add (f a) ts | _ \<Rightarrow> ts) ns ts) =
    set ts \<union> {f a | n a. n \<in> set ns \<and> g n = [a]}"
proof (induction ns arbitrary: ts)
  case (Cons n ns)
  show ?case by (cases "g n" rule: list.exhaust) (auto simp: Cons set_add_def split: list.split)
qed simp

lemma distinct_fold_only: "distinct ts \<Longrightarrow> distinct (fold (\<lambda>n ts. case g n of [a] \<Rightarrow> set_add (f a) ts | _ \<Rightarrow> ts) ns ts)"
  by (induction ns arbitrary: ts) (auto simp: set_add_def split: list.split)

text \<open>
  A chat message addresses exactly the picked Agents whose name still stands in the text, and the
  connected Agents mentioned by a name nobody else bears; each of them once.
\<close>

theorem mentions_exact:
  "distinct (resolveAgentTargetIds s agents selected) \<and>
   set (resolveAgentTargetIds s agents selected) =
     {mc_id x | x. x \<in> set selected \<and> hasCompleteMention s (mc_name x)} \<union>
     {mc_id a | a. filter (\<lambda>b. mc_name b = mc_name a) agents = [a] \<and> hasCompleteMention s (mc_name a)}"
proof
  show "distinct (resolveAgentTargetIds s agents selected)"
    unfolding resolveAgentTargetIds_def Let_def by (intro distinct_fold_only distinct_fold_add_if) simp
  let ?complete = "filter (\<lambda>a. hasCompleteMention s (mc_name a)) agents"
  have same: "filter (\<lambda>a. mc_name a = n) ?complete = (if hasCompleteMention s n then filter (\<lambda>a. mc_name a = n) agents else [])" for n
    by (induction agents) auto
  have "{mc_id a | n a. n \<in> mc_name ` set ?complete \<and> filter (\<lambda>a. mc_name a = n) ?complete = [a]} =
      {mc_id a | a. filter (\<lambda>b. mc_name b = mc_name a) agents = [a] \<and> hasCompleteMention s (mc_name a)}" (is "?l = ?r")
  proof
    show "?l \<subseteq> ?r"
    proof
      fix x assume "x \<in> ?l"
      then obtain n a where n: "x = mc_id a" "filter (\<lambda>a. mc_name a = n) ?complete = [a]" by blast
      then have "hasCompleteMention s n" "filter (\<lambda>a. mc_name a = n) agents = [a]" using n(2) unfolding same by (simp_all split: if_split_asm)
      moreover have "a \<in> set (filter (\<lambda>a. mc_name a = n) agents)" using calculation(2) by simp
      then have "mc_name a = n" by simp
      ultimately show "x \<in> ?r" using n(1) by blast
    qed
    show "?r \<subseteq> ?l"
    proof
      fix x assume "x \<in> ?r"
      then obtain a where a: "x = mc_id a" "filter (\<lambda>b. mc_name b = mc_name a) agents = [a]" "hasCompleteMention s (mc_name a)" by blast
      from a(2) have "a \<in> set (filter (\<lambda>b. mc_name b = mc_name a) agents)" by simp
      with a(3) have "mc_name a \<in> mc_name ` set ?complete" by simp
      moreover have "filter (\<lambda>b. mc_name b = mc_name a) ?complete = [a]" using same [of "mc_name a"] a(2,3) by simp
      ultimately show "x \<in> ?l" using a(1) by blast
    qed
  qed
  then show "set (resolveAgentTargetIds s agents selected) =
     {mc_id x | x. x \<in> set selected \<and> hasCompleteMention s (mc_name x)} \<union>
     {mc_id a | a. filter (\<lambda>b. mc_name b = mc_name a) agents = [a] \<and> hasCompleteMention s (mc_name a)}"
    by (simp add: resolveAgentTargetIds_def Let_def fold_only fold_add_if) blast
qed

subsection \<open>The label of a brief\<close>

lemma split_lines_set: "l \<in> set (split_lines s) \<Longrightarrow> set l \<subseteq> set s \<and> 0xa \<notin> set l"
  by (induction s arbitrary: l) (fastforce split: if_split_asm list.split_asm)+

lemma split_lines_covers: "c \<in> set s \<Longrightarrow> c \<noteq> 0xa \<Longrightarrow> \<exists>l \<in> set (split_lines s). c \<in> set l"
proof (induction s)
  case (Cons d s)
  then show ?case by (cases "split_lines s") (auto split: if_split_asm)
qed simp

lemma trim_keeps_some: "c \<in> set s \<Longrightarrow> \<not> is_ws c \<Longrightarrow> js_trim s \<noteq> []"
  by (auto simp: js_trim_def dropWhile_eq_Nil_conv) (metis set_rev dropWhile_append1 in_set_conv_decomp set_append UnCI takeWhile_dropWhile_id set_takeWhileD UnE)

lemma clean_nonempty: "clean_line l \<noteq> [] \<longleftrightarrow> (\<exists>c \<in> set l. \<not> is_markup c)"
proof
  assume "clean_line l \<noteq> []"
  then have "dropWhile is_markup l \<noteq> []" unfolding clean_line_def by (metis empty_iff js_trim_no_ws list.set(1))
  then show "\<exists>c \<in> set l. \<not> is_markup c" by (auto simp: dropWhile_eq_Nil_conv)
next
  assume "\<exists>c \<in> set l. \<not> is_markup c"
  then have ne: "dropWhile is_markup l \<noteq> []" by (auto simp: dropWhile_eq_Nil_conv)
  then have "\<not> is_markup (hd (dropWhile is_markup l))" by (rule hd_dropWhile)
  then have "\<not> is_ws (hd (dropWhile is_markup l))" by (simp add: is_markup_def)
  with ne show "clean_line l \<noteq> []" unfolding clean_line_def by (intro trim_keeps_some [of "hd (dropWhile is_markup l)"]) simp_all
qed

lemma find_hit: "find P xs = Some x \<Longrightarrow> P x \<and> x \<in> set xs"
  by (induction xs) (auto split: if_split_asm)

lemma newline_is_markup: "is_markup 0xa"
  by code_simp

text \<open>
  The label of a pasted brief is one line of at most 120 units, and it is empty only when the brief has
  nothing but white space and markup.
\<close>

theorem brief_label:
  "length (taskBriefLabel s) \<le> MAX_TASK_BRIEF_LABEL_LENGTH \<and> 0xa \<notin> set (taskBriefLabel s) \<and>
   (taskBriefLabel s = [] \<longleftrightarrow> list_all is_markup s)"
proof (cases "find (\<lambda>l. l \<noteq> []) (map clean_line (split_lines s))")
  case None
  then have blank: "clean_line l = []" if "l \<in> set (split_lines s)" for l using that by (auto simp: find_None_iff)
  have "is_markup c" if c: "c \<in> set s" for c
  proof (cases "c = 0xa")
    case True
    then show ?thesis by (simp only: newline_is_markup)
  next
    case False
    with c obtain l where "l \<in> set (split_lines s)" "c \<in> set l" using split_lines_covers by blast
    then show ?thesis using blank clean_nonempty by blast
  qed
  with None show ?thesis by (simp add: taskBriefLabel_def list_all_iff)
next
  case (Some l)
  have "l \<noteq> [] \<and> l \<in> set (map clean_line (split_lines s))" by (rule find_hit [OF Some])
  then obtain raw where raw: "raw \<in> set (split_lines s)" "l = clean_line raw" "l \<noteq> []" by auto
  have "set l \<subseteq> set (dropWhile is_markup raw)" unfolding raw(2) clean_line_def by (rule set_js_trim)
  also have "\<dots> \<subseteq> set raw" by (meson set_dropWhileD subsetI)
  finally have nl: "0xa \<notin> set l" and sub: "set raw \<subseteq> set s" using split_lines_set [OF raw(1)] by (simp_all add: subset_iff) blast
  have "\<exists>c \<in> set raw. \<not> is_markup c" using raw(2,3) clean_nonempty by simp
  then have "\<not> list_all is_markup s" using sub unfolding list_all_iff by (meson subsetD)
  moreover have "take MAX_TASK_BRIEF_LABEL_LENGTH l \<noteq> []" using raw(3) by (simp add: MAX_TASK_BRIEF_LABEL_LENGTH_def)
  moreover have "0xa \<notin> set (take MAX_TASK_BRIEF_LABEL_LENGTH l)" using nl by (meson in_set_takeD)
  ultimately show ?thesis using Some by (simp add: taskBriefLabel_def)
qed

end
