(* ===== verification/Browser_Memory.thy ===== *)
theory Browser_Memory
  imports Json_Parse
begin

text \<open>
  What a browser remembers: the Apps opened lately in a Room (app/src/common/roomAppRecents.ts), the
  page that led to a launch (app/src/common/roomAppAcquisition.ts) and the Rooms visited before this
  page was loaded (app/src/common/roomHistory.ts with saveRoomToLocalStorage of common/utils.tsx).

  A store of the browser is a dictionary of texts, \<open>None\<close> where reaching it raises; \<open>holds\<close> says which
  contents it has room for, and a write beyond that raises.
\<close>

type_synonym web_store = "(jstr, jstr) dict option"

subsection \<open>Apps opened lately\<close>

definition ROOM_APP_RECENT_MAX :: int where "ROOM_APP_RECENT_MAX = 6"

definition recentsStorageKey :: "jstr \<Rightarrow> jstr" where
  "recentsStorageKey room = lit ''free4chat:room-app-recents:v1:'' @ room"

definition pushRecentRoomAppId :: "jstr list \<Rightarrow> jstr \<Rightarrow> int \<Rightarrow> jstr list" where
  "pushRecentRoomAppId recents i bound =
     (if i = [] \<or> bound \<le> 0 then take (nat (max 0 bound)) recents
      else take (nat bound) (i # filter (\<lambda>x. x \<noteq> i) recents))"

text \<open>The loop of the three readers: skip what is refused or already there, stop when full.\<close>

fun collect_ids :: "(jstr \<Rightarrow> bool) \<Rightarrow> int \<Rightarrow> jstr list \<Rightarrow> jstr list \<Rightarrow> jstr list" where
  "collect_ids ok bound kept [] = kept"
| "collect_ids ok bound kept (i # ids) =
     (if \<not> ok i \<or> i \<in> set kept then collect_ids ok bound kept ids
      else if bound \<le> int (length (kept @ [i])) then kept @ [i]
      else collect_ids ok bound (kept @ [i]) ids)"

definition pruneRecentRoomAppIds :: "jstr list \<Rightarrow> (jstr \<Rightarrow> bool) \<Rightarrow> int \<Rightarrow> jstr list" where
  "pruneRecentRoomAppIds recents offered bound = collect_ids offered bound [] recents"

definition some_text :: "js \<Rightarrow> jstr option" where
  "some_text v = (case v of JStr s \<Rightarrow> if s = [] then None else Some s | _ \<Rightarrow> None)"

definition readRecentRoomAppIds :: "(rat \<Rightarrow> jnum) \<Rightarrow> web_store \<Rightarrow> jstr \<Rightarrow> jstr list" where
  "readRecentRoomAppIds rn store room = (if room = [] then [] else
     case store of None \<Rightarrow> [] | Some st \<Rightarrow>
     (case truthy_str (dget st (recentsStorageKey room)) of None \<Rightarrow> [] | Some raw \<Rightarrow>
     (case json_parse rn raw of
        Some (JArr vs) \<Rightarrow> collect_ids (\<lambda>_. True) ROOM_APP_RECENT_MAX [] (List.map_filter some_text vs)
      | _ \<Rightarrow> [])))"

definition set_item :: "((jstr, jstr) dict \<Rightarrow> bool) \<Rightarrow> jstr \<Rightarrow> jstr \<Rightarrow> (jstr, jstr) dict \<Rightarrow> (jstr, jstr) dict" where
  "set_item holds k v st = (if holds (dput k v st) then dput k v st else st)"

definition writeRecentRoomAppIds :: "(rat \<Rightarrow> jstr) \<Rightarrow> ((jstr, jstr) dict \<Rightarrow> bool) \<Rightarrow> web_store \<Rightarrow> jstr \<Rightarrow> jstr list \<Rightarrow> web_store" where
  "writeRecentRoomAppIds ntext holds store room recents =
     (if room = [] then store
      else if recents = [] then map_option (ddel (recentsStorageKey room)) store
      else map_option (set_item holds (recentsStorageKey room)
        (json_text ntext (JArr (map JStr (take (nat ROOM_APP_RECENT_MAX) recents))))) store)"

definition inlineRoomAppIds :: "jstr list \<Rightarrow> jstr option \<Rightarrow> (jstr \<Rightarrow> bool) \<Rightarrow> int \<Rightarrow> jstr list" where
  "inlineRoomAppIds recents active offered slots = (if slots \<le> 0 then []
     else collect_ids (\<lambda>_. True) slots []
       ((case truthy_str active of Some a \<Rightarrow> if offered a then [a] else [] | None \<Rightarrow> []) @ filter offered recents))"

subsection \<open>The page that led to a launch\<close>

definition ACQUISITION_STORAGE_KEY :: jstr where "ACQUISITION_STORAGE_KEY = lit ''free4chat:room-app-acquisition''"

text \<open>\<open>/^[a-z0-9][a-z0-9-]{0,31}$/\<close>.\<close>

definition ACQUISITION_PAGE_PATTERN :: "jstr \<Rightarrow> bool" where
  "ACQUISITION_PAGE_PATTERN s \<longleftrightarrow> (case s of [] \<Rightarrow> False | c # cs \<Rightarrow>
     (is_lower c \<or> is_digit c) \<and> length cs \<le> 31 \<and> list_all (\<lambda>d. is_lower d \<or> is_digit d \<or> d = 0x2d) cs)"

definition isValidAcquisitionPage :: "js \<Rightarrow> bool" where
  "isValidAcquisitionPage v \<longleftrightarrow> (case v of JStr s \<Rightarrow> ACQUISITION_PAGE_PATTERN s | _ \<Rightarrow> False)"

text \<open>The id of the App is read back without a check.\<close>

record acquisition =
  aq_roomName :: jstr
  aq_appId :: js
  aq_acquisitionPage :: jstr

definition acquisition_js :: "acquisition \<Rightarrow> js" where
  "acquisition_js a = JObj [(lit ''roomName'', JStr (aq_roomName a)), (lit ''appId'', aq_appId a),
     (lit ''acquisitionPage'', JStr (aq_acquisitionPage a))]"

definition saveRoomAppAcquisition :: "(rat \<Rightarrow> jstr) \<Rightarrow> ((jstr, jstr) dict \<Rightarrow> bool) \<Rightarrow> web_store \<Rightarrow> jstr \<Rightarrow> jstr \<Rightarrow> jstr \<Rightarrow>
    acquisition option \<times> web_store" where
  "saveRoomAppAcquisition ntext holds store room app page =
     (if room = [] \<or> app = [] \<or> \<not> isValidAcquisitionPage (JStr page) then (None, store)
      else (let a = \<lparr>aq_roomName = room, aq_appId = JStr app, aq_acquisitionPage = page\<rparr> in
        (Some a, map_option (set_item holds ACQUISITION_STORAGE_KEY (json_text ntext (acquisition_js a))) store)))"

definition readRoomAppAcquisition :: "(rat \<Rightarrow> jnum) \<Rightarrow> web_store \<Rightarrow> jstr \<Rightarrow> jstr option \<Rightarrow> acquisition option" where
  "readRoomAppAcquisition rn store room app = (if room = [] then None else
     case store of None \<Rightarrow> None | Some st \<Rightarrow>
     (case truthy_str (dget st ACQUISITION_STORAGE_KEY) of None \<Rightarrow> None | Some raw \<Rightarrow>
     (case json_parse rn raw of None \<Rightarrow> None | Some v \<Rightarrow>
       if \<not> is_objectish v then None
       else if js_get v ''roomName'' \<noteq> JStr room then None
       else if app \<noteq> None \<and> js_get v ''appId'' \<noteq> JStr (the app) then None
       else (case js_get v ''acquisitionPage'' of
          JStr page \<Rightarrow> if isValidAcquisitionPage (JStr page)
            then Some \<lparr>aq_roomName = room, aq_appId = js_get v ''appId'', aq_acquisitionPage = page\<rparr> else None
        | _ \<Rightarrow> None))))"

definition clearRoomAppAcquisition :: "web_store \<Rightarrow> web_store" where
  "clearRoomAppAcquisition store = map_option (ddel ACQUISITION_STORAGE_KEY) store"

definition withAcquisitionPage :: "(jstr, js) dict \<Rightarrow> jstr option \<Rightarrow> (jstr, js) dict" where
  "withAcquisitionPage event page = (case page of
     Some s \<Rightarrow> if isValidAcquisitionPage (JStr s) then dput (lit ''acquisitionPage'') (JStr s) event else event
   | None \<Rightarrow> event)"

subsection \<open>The Rooms visited before\<close>

definition ROOM_HISTORY_STORAGE_KEY :: jstr where "ROOM_HISTORY_STORAGE_KEY = lit ''rooms''"

datatype prior_bucket = No_prior | One_prior | Few_prior | Many_prior

definition priorRoomCountBucket :: "nat \<Rightarrow> prior_bucket" where
  "priorRoomCountBucket n = (if n = 0 then No_prior else if n = 1 then One_prior else if n \<le> 5 then Few_prior else Many_prior)"

record repeat_use =
  ru_returningBrowser :: bool
  ru_priorRoomCountBucket :: prior_bucket

text \<open>One loaded page: the snapshot of the module, and \<open>localStorage\<close>.\<close>

record loaded_page =
  pg_preVisitRoomNames :: "jstr list option"
  pg_store :: web_store

definition readStoredRoomNames :: "(rat \<Rightarrow> jnum) \<Rightarrow> web_store \<Rightarrow> jstr list" where
  "readStoredRoomNames rn store = (case store of None \<Rightarrow> [] | Some st \<Rightarrow>
     (case truthy_str (dget st ROOM_HISTORY_STORAGE_KEY) of None \<Rightarrow> [] | Some raw \<Rightarrow>
     (case json_parse rn raw of
        Some (JArr vs) \<Rightarrow> dedupe (List.map_filter (\<lambda>v. js_str (js_get v ''roomName'')) vs)
      | _ \<Rightarrow> [])))"

definition preVisitHistory :: "(rat \<Rightarrow> jnum) \<Rightarrow> loaded_page \<Rightarrow> jstr list \<times> loaded_page" where
  "preVisitHistory rn g = (case pg_preVisitRoomNames g of
     Some names \<Rightarrow> (names, g)
   | None \<Rightarrow> (let names = readStoredRoomNames rn (pg_store g) in (names, g\<lparr>pg_preVisitRoomNames := Some names\<rparr>)))"

definition noteRoomHistoryWrite :: "(rat \<Rightarrow> jnum) \<Rightarrow> loaded_page \<Rightarrow> loaded_page" where
  "noteRoomHistoryWrite rn g = snd (preVisitHistory rn g)"

definition browserRepeatUse :: "(rat \<Rightarrow> jnum) \<Rightarrow> loaded_page \<Rightarrow> repeat_use \<times> loaded_page" where
  "browserRepeatUse rn g = (let (names, g') = preVisitHistory rn g in
     (\<lparr>ru_returningBrowser = 0 < length names, ru_priorRoomCountBucket = priorRoomCountBucket (length names)\<rparr>, g'))"

definition visit_entry :: "jstr \<times> jstr \<Rightarrow> js" where
  "visit_entry h = JObj [(lit ''roomName'', JStr (fst h)), (lit ''nickName'', JStr (snd h))]"

text \<open>
  The writer: the first component says that it raises, which it does on a store out of reach, on a text
  that is no array, on a \<open>null\<close> in it, and when there is no room.
\<close>

definition saveRoomToLocalStorage :: "(rat \<Rightarrow> jnum) \<Rightarrow> (rat \<Rightarrow> jstr) \<Rightarrow> ((jstr, jstr) dict \<Rightarrow> bool) \<Rightarrow> jstr \<Rightarrow> jstr \<Rightarrow>
    loaded_page \<Rightarrow> bool \<times> loaded_page" where
  "saveRoomToLocalStorage rn ntext holds room nick g0 = (let g = noteRoomHistoryWrite rn g0 in
     case pg_store g of None \<Rightarrow> (True, g) | Some st \<Rightarrow>
     (case json_parse rn (case truthy_str (dget st ROOM_HISTORY_STORAGE_KEY) of Some raw \<Rightarrow> raw | None \<Rightarrow> lit ''[]'') of
        Some (JArr vs) \<Rightarrow> if JNull \<in> set vs then (True, g)
          else (let st' = dput ROOM_HISTORY_STORAGE_KEY
                  (json_text ntext (JArr (filter (\<lambda>v. js_get v ''roomName'' \<noteq> JStr room) vs @ [visit_entry (room, nick)]))) st in
            if holds st' then (False, g\<lparr>pg_store := Some st'\<rparr>) else (True, g))
      | _ \<Rightarrow> (True, g)))"

subsection \<open>The bounded loop\<close>

lemma set_add_cases: "x \<in> set s \<Longrightarrow> set_add x s = s" "x \<notin> set s \<Longrightarrow> set_add x s = s @ [x]"
  by (simp_all add: set_add_def)

lemma fold_set_add_prefix: "\<exists>zs. fold set_add xs acc = acc @ zs"
proof (induction xs arbitrary: acc)
  case (Cons x xs)
  from Cons.IH [of "set_add x acc"] obtain zs where "fold set_add (x # xs) acc = set_add x acc @ zs" by auto
  then show ?case by (cases "x \<in> set acc") (simp_all add: set_add_cases)
qed simp

lemma collect_ids_take: "int (length kept) < max 1 bound \<Longrightarrow>
    collect_ids ok bound kept ids = take (nat (max 1 bound)) (fold set_add (filter ok ids) kept)"
proof (induction ids arbitrary: kept)
  case Nil
  then show ?case by simp
next
  case (Cons i ids)
  show ?case
  proof (cases "\<not> ok i \<or> i \<in> set kept")
    case True
    then show ?thesis using Cons by (auto simp: set_add_cases)
  next
    case new: False
    show ?thesis
    proof (cases "bound \<le> int (length (kept @ [i]))")
      case True
      obtain zs where "fold set_add (filter ok ids) (kept @ [i]) = (kept @ [i]) @ zs" using fold_set_add_prefix by blast
      moreover have "nat (max 1 bound) = length (kept @ [i])" using True Cons.prems by simp
      ultimately show ?thesis using new True by (simp add: set_add_cases)
    next
      case False
      then have "int (length (kept @ [i])) < max 1 bound" by simp
      from Cons.IH [OF this] show ?thesis using new False by (simp add: set_add_cases)
    qed
  qed
qed

text \<open>
  The strip shows the open App first and then the Apps opened lately, each once, those the catalog still
  offers, and no more than it has slots.
\<close>

theorem inline_exact:
  "inlineRoomAppIds recents active offered slots = take (nat slots)
     (dedupe (filter offered ((case truthy_str active of Some a \<Rightarrow> [a] | None \<Rightarrow> []) @ recents)))"
  by (cases "slots \<le> 0") (auto simp: inlineRoomAppIds_def collect_ids_take dedupe_def max_def split: option.split)

text \<open>A full prune keeps the order; a bound below one still keeps one App.\<close>

theorem prune_exact:
  "pruneRecentRoomAppIds recents offered bound = take (nat (max 1 bound)) (dedupe (filter offered recents))"
  by (simp add: pruneRecentRoomAppIds_def collect_ids_take dedupe_def)

subsection \<open>Recency survives a reload, per Room\<close>

lemma recents_key [simp]: "recentsStorageKey a = recentsStorageKey b \<longleftrightarrow> a = b"
  by (simp add: recentsStorageKey_def)

lemma texts_only: "[] \<notin> set xs \<Longrightarrow> List.map_filter some_text (map JStr xs) = xs"
  by (induction xs) (auto simp: List.map_filter_def some_text_def)

lemma printed_reads: "rounds rn \<Longrightarrow> plain_js v \<Longrightarrow>
    json_parse rn (json_text ntext v) = Some v \<and> truthy_str (Some (json_text ntext v)) = Some (json_text ntext v)"
  using json_round_trip [of rn v ntext] plain_head [of v ntext] by (auto simp: truthy_str_def)

lemma read_item: "dget st k = Some (json_text ntext v) \<Longrightarrow> rounds rn \<Longrightarrow> plain_js v \<Longrightarrow>
    (case truthy_str (dget st k) of None \<Rightarrow> d | Some raw \<Rightarrow> f (json_parse rn raw)) = f (Some v)"
  using printed_reads [of rn v ntext] by simp

text \<open>
  What is written for a Room is read back after a reload, the first six of it; and what another Room
  remembers stays.
\<close>

theorem recency_survives:
  assumes "rounds rn" and "distinct recents" and "[] \<notin> set recents" and "room \<noteq> []" and "\<forall>m. holds m"
  shows "readRecentRoomAppIds rn (writeRecentRoomAppIds ntext holds (Some st) room recents) other =
    (if other = room then take 6 recents else readRecentRoomAppIds rn (Some st) other)"
proof -
  let ?v = "JArr (map JStr (take 6 recents))"
  have plain: "plain_js ?v" by (simp add: list_all_iff)
  have kept: "distinct (take 6 recents)" "[] \<notin> set (take 6 recents)" using assms(2,3) by (auto dest: in_set_takeD)
  have ids: "collect_ids (\<lambda>_. True) 6 [] (List.map_filter some_text (map JStr (take 6 recents))) = take 6 recents"
    using kept by (simp add: texts_only collect_ids_take fold_set_add_fresh)
  show ?thesis
  proof (cases "recents = []")
    case True
    then show ?thesis using assms(4) by (simp add: writeRecentRoomAppIds_def readRecentRoomAppIds_def truthy_str_def)
  next
    case False
    have st: "writeRecentRoomAppIds ntext holds (Some st) room recents = Some (dput (recentsStorageKey room) (json_text ntext ?v) st)"
      using False assms(4,5) by (simp add: writeRecentRoomAppIds_def set_item_def ROOM_APP_RECENT_MAX_def)
    show ?thesis
    proof (cases "other = room")
      case True
      have "dget (dput (recentsStorageKey room) (json_text ntext ?v) st) (recentsStorageKey room) = Some (json_text ntext ?v)" by simp
      note read = read_item [OF this assms(1) plain]
      show ?thesis unfolding st readRecentRoomAppIds_def True using assms(4) ids
        by (simp only: option.case read if_False simp_thms if_True js.case ROOM_APP_RECENT_MAX_def)
    qed (simp add: st readRecentRoomAppIds_def)
  qed
qed

theorem recency_survives_witness:
  "readRecentRoomAppIds Fin (writeRecentRoomAppIds (\<lambda>_. []) (\<lambda>_. True) (Some []) (lit ''lobby'') [lit ''chess'', lit ''poll'']) (lit ''lobby'') =
     [lit ''chess'', lit ''poll'']"
  using recency_survives [of Fin "[lit ''chess'', lit ''poll'']" "lit ''lobby''" "\<lambda>_. True" "\<lambda>_. []" "[]" "lit ''lobby''"]
  by (simp add: rounds_def jint_def)

subsection \<open>An acquisition belongs to its Room\<close>

text \<open>What a launch remembers is read by its own Room only, and by no App other than the one named.\<close>

theorem acquisition_bound_to_room:
  assumes "rounds rn" and "saveRoomAppAcquisition ntext holds (Some st) room app page = (Some a, store)" and "\<forall>m. holds m"
  shows "readRoomAppAcquisition rn store other wanted = (if other = room \<and> (wanted = None \<or> wanted = Some app) then Some a else None)"
proof -
  have a: "a = \<lparr>aq_roomName = room, aq_appId = JStr app, aq_acquisitionPage = page\<rparr>" "room \<noteq> []" "isValidAcquisitionPage (JStr page)"
      and store: "store = Some (dput ACQUISITION_STORAGE_KEY (json_text ntext (acquisition_js a)) st)"
    using assms(2,3) by (auto simp: saveRoomAppAcquisition_def Let_def set_item_def split: if_split_asm)
  have plain: "plain_js (acquisition_js a)" by (simp add: acquisition_js_def a(1) wf_dict_def)
  have "dget (dput ACQUISITION_STORAGE_KEY (json_text ntext (acquisition_js a)) st) ACQUISITION_STORAGE_KEY =
      Some (json_text ntext (acquisition_js a))" by simp
  note read = read_item [OF this assms(1) plain]
  have fields: "js_get (acquisition_js a) ''roomName'' = JStr room" "js_get (acquisition_js a) ''appId'' = JStr app"
      "js_get (acquisition_js a) ''acquisitionPage'' = JStr page" "is_objectish (acquisition_js a)"
    by (simp_all add: acquisition_js_def a(1) js_get_def is_objectish_def)
  show ?thesis unfolding readRoomAppAcquisition_def store option.case read fields using a
    by (cases wanted) (auto simp: acquisition_js_def is_objectish_def)
qed

theorem acquisition_bound_to_room_witness:
  "readRoomAppAcquisition Fin (snd (saveRoomAppAcquisition (\<lambda>_. []) (\<lambda>_. True) (Some []) (lit ''lobby'') (lit ''chess'') (lit ''lab''))) (lit ''den'') None = None"
proof -
  have "isValidAcquisitionPage (JStr (lit ''lab''))" by code_simp
  then have save: "saveRoomAppAcquisition (\<lambda>_. []) (\<lambda>_. True) (Some []) (lit ''lobby'') (lit ''chess'') (lit ''lab'') =
      (Some \<lparr>aq_roomName = lit ''lobby'', aq_appId = JStr (lit ''chess''), aq_acquisitionPage = lit ''lab''\<rparr>,
       snd (saveRoomAppAcquisition (\<lambda>_. []) (\<lambda>_. True) (Some []) (lit ''lobby'') (lit ''chess'') (lit ''lab'')))"
    by (simp add: saveRoomAppAcquisition_def Let_def)
  show ?thesis using acquisition_bound_to_room [OF _ save, of Fin "lit ''den''" None] by (simp add: rounds_def jint_def)
qed

subsection \<open>A page never counts its own visit\<close>

fun visits :: "(rat \<Rightarrow> jnum) \<Rightarrow> (rat \<Rightarrow> jstr) \<Rightarrow> ((jstr, jstr) dict \<Rightarrow> bool) \<Rightarrow> (jstr \<times> jstr) list \<Rightarrow> loaded_page \<Rightarrow> loaded_page" where
  "visits rn ntext holds [] g = g"
| "visits rn ntext holds ((room, nick) # vs) g = visits rn ntext holds vs (snd (saveRoomToLocalStorage rn ntext holds room nick g))"

lemma save_keeps_snapshot: "fst (preVisitHistory rn (snd (saveRoomToLocalStorage rn ntext holds room nick g))) = fst (preVisitHistory rn g)"
  by (cases "pg_preVisitRoomNames g")
    (auto simp: saveRoomToLocalStorage_def noteRoomHistoryWrite_def preVisitHistory_def Let_def split: option.split js.split)

text \<open>
  Whatever Rooms a loaded page visits and saves, what it reports of earlier use is what was stored when
  the page was loaded.
\<close>

theorem own_visits_not_counted:
  "fst (browserRepeatUse rn (visits rn ntext holds vs g)) = fst (browserRepeatUse rn g)"
proof (induction vs arbitrary: g)
  case (Cons v vs)
  obtain room nick where v: "v = (room, nick)" by force
  show ?case using Cons.IH [of "snd (saveRoomToLocalStorage rn ntext holds room nick g)"] save_keeps_snapshot [of rn ntext holds room nick g]
    by (simp add: v browserRepeatUse_def split_beta)
qed simp

text \<open>A history as the writer leaves it is read by the writer again: the Room moves to the end, once.\<close>

theorem history_kept:
  assumes "rounds rn" and "pg_store g = Some st" and "dget st ROOM_HISTORY_STORAGE_KEY = Some (json_text ntext (JArr (map visit_entry hs)))"
    and "\<forall>m. holds m"
  shows "\<exists>g' st'. saveRoomToLocalStorage rn ntext holds room nick g = (False, g') \<and> pg_store g' = Some st' \<and>
    dget st' ROOM_HISTORY_STORAGE_KEY = Some (json_text ntext (JArr (map visit_entry (filter (\<lambda>h. fst h \<noteq> room) hs @ [(room, nick)])))) \<and>
    readStoredRoomNames rn (Some st') = dedupe (map fst (filter (\<lambda>h. fst h \<noteq> room) hs)) @ [room]"
proof -
  have entry: "js_get (visit_entry h) ''roomName'' = JStr (fst h)" "plain_js (visit_entry h)" "visit_entry h \<noteq> JNull" for h
    by (simp_all add: visit_entry_def js_get_def wf_dict_def)
  have plain: "plain_js (JArr (map visit_entry hs))" for hs by (simp add: list_all_iff entry)
  have names: "List.map_filter (\<lambda>v. js_str (js_get v ''roomName'')) (map visit_entry hs) = map fst hs" for hs
    by (induction hs) (simp_all add: List.map_filter_def entry js_str_def)
  have kept: "filter (\<lambda>v. js_get v ''roomName'' \<noteq> JStr room) (map visit_entry hs) = map visit_entry (filter (\<lambda>h. fst h \<noteq> room) hs)"
    by (simp add: filter_map comp_def entry)
  let ?hs = "filter (\<lambda>h. fst h \<noteq> room) hs @ [(room, nick)]"
  let ?st = "dput ROOM_HISTORY_STORAGE_KEY (json_text ntext (JArr (map visit_entry ?hs))) st"
  have store: "pg_store (noteRoomHistoryWrite rn g) = Some st"
    using assms(2) by (simp add: noteRoomHistoryWrite_def preVisitHistory_def Let_def split: option.split)
  have raw: "json_parse rn (case truthy_str (dget st ROOM_HISTORY_STORAGE_KEY) of Some raw \<Rightarrow> raw | None \<Rightarrow> lit ''[]'') = Some (JArr (map visit_entry hs))"
    using printed_reads [OF assms(1) plain [of hs], of ntext] by (simp add: assms(3))
  have "JNull \<notin> set (map visit_entry hs)" using entry(3) by (metis (no_types, lifting) imageE set_map)
  then have save: "saveRoomToLocalStorage rn ntext holds room nick g = (False, (noteRoomHistoryWrite rn g)\<lparr>pg_store := Some ?st\<rparr>)"
    unfolding saveRoomToLocalStorage_def Let_def store option.case raw js.case kept using assms(4) by simp
  have "dget ?st ROOM_HISTORY_STORAGE_KEY = Some (json_text ntext (JArr (map visit_entry ?hs)))" by simp
  note read = read_item [OF this assms(1) plain]
  have "readStoredRoomNames rn (Some ?st) = dedupe (map fst ?hs)"
    unfolding readStoredRoomNames_def option.case read js.case names ..
  moreover have "dedupe (map fst ?hs) = dedupe (map fst (filter (\<lambda>h. fst h \<noteq> room) hs)) @ [room]"
    by (auto simp: dedupe_def set_add_def set_fold_set_add)
  ultimately show ?thesis using save by simp
qed

theorem history_kept_witness:
  "fst (saveRoomToLocalStorage Fin (\<lambda>_. []) (\<lambda>_. True) (lit ''lobby'') (lit ''ana'')
     \<lparr>pg_preVisitRoomNames = None, pg_store = Some [(ROOM_HISTORY_STORAGE_KEY, json_text (\<lambda>_. []) (JArr (map visit_entry [(lit ''den'', lit ''ana'')])))]\<rparr>) = False"
  using history_kept [of Fin "\<lparr>pg_preVisitRoomNames = None, pg_store = Some [(ROOM_HISTORY_STORAGE_KEY, json_text (\<lambda>_. []) (JArr (map visit_entry [(lit ''den'', lit ''ana'')])))]\<rparr>"
    "[(ROOM_HISTORY_STORAGE_KEY, json_text (\<lambda>_. []) (JArr (map visit_entry [(lit ''den'', lit ''ana'')])))]" "\<lambda>_. []" "[(lit ''den'', lit ''ana'')]"
    "\<lambda>_. True" "lit ''lobby''" "lit ''ana''"]
  by (auto simp: rounds_def jint_def)

end
