(* ===== verification/Spec2Isabelle.thy ===== *)
theory Spec2Isabelle
  imports Room_Views Room_Analytics Room_Timeline Sfu_Egress Task_Composer Browser_Memory
begin

text \<open>
  A verification library of the free4chat Room: the Durable Object that holds one Room
  (app/src/do/RoomSession.ts and the modules it is built from under app/src/do, app/src/room and
  app/src/common), where Humans in browsers and Agents behind Runtimes talk, share media, hand each
  other Tasks and use small Apps.

  The parts and how they interact. The Room record is the persistent state: its participants, the
  hosts of their Runtimes, the bounded message log, the attachments, the media grants, the Live
  Transcript and the queue of media still to be closed. Every handler loads the record, checks the
  caller, changes it and saves it. Beside the record live what is lost when the object leaves memory
  (the registry of collaboration requests, Task executions, App calls, rate windows), what survives
  in the attachments of the sockets, and what has storage keys of its own (bytes of files, surfaces
  and generated Apps, Live View snapshots). Tasks are not stored at all: who takes part in a Task is
  read off the message log each time.

  Where the parts are. Each theory names the functions it models at its top.
    \<^item> Foundations: Room_Prelude (JavaScript strings, values and insertion-ordered dictionaries, words,
      lists), Room_Types (the interfaces of room/types.ts), Room_Interfaces (the contracts, as
      locales: bounded logs, guards, stores and the like, each interpreted on the code's own
      operations by the theory that models them), Json, Json_Parse, Text_Encoding, Byte_Text
      (\<open>JSON.stringify\<close>, \<open>JSON.parse\<close>, UTF-8, base64 and percent encoding as far as the Room uses
      them).
    \<^item> Collaboration: Collab and Collab_Registry (do/collab.ts), Collab_Ingestion (the ways into the
      Room), Task_Scope (do/taskScope.ts), Task_Session (do/taskSession.ts), Task_Relay (its relay over
      the sockets), Task_Execution (common/taskExecution.ts and the controls), Task_Live_View
      (common/taskLiveView.ts).
    \<^item> Media: Runtime_Host (common/runtimeCapability.ts, do/runtimeHost.ts), Media_Cleanup
      (do/realtimeMedia.ts, do/mediaEffects.ts), Media_Grants (do/meetingNotesAuth.ts,
      do/mediaGrantTransitions.ts, do/residentMediaState.ts), Live_Transcript (do/liveTranscript.ts),
      Room_Media (the media handlers and the Worker's authorization).
    \<^item> The Room: Room_State (the record, expiry, message log), Permission and Room_Permissions
      (do/permission.ts and the lifecycle), Room_Join, Room_Departure, Room_Events (polls and context
      pages), Room_Human (the browser's socket), Agent_Sockets (the resident socket of an Agent, held
      polls, activity and text), Room_Views (what browsers and the lobby are shown), Room_Handles (all
      media handlers together), Room_Analytics (do/roomAnalytics.ts).
    \<^item> Bytes: File_Chunks (values in pieces), Room_Files (attachments), Room_Surfaces (do/surface.ts),
      Generated_Apps (common/generatedRoomApp.ts).
    \<^item> Apps: Room_App and Room_App_Catalog (common/roomApp.ts), Rate_Limits, Room_App_Routing,
      Room_Transport (common/participantDataChannel.ts and the private data channels).
    \<^item> The browser's own logic, as far as it is free of components: Room_Timeline
      (common/messageReconciliation.ts, common/taskViews.ts), Task_Composer (common/agentMentions.ts,
      common/taskPaste.ts), Sfu_Egress (common/sfuEgress.ts), Browser_Memory (common/roomAppRecents.ts,
      common/roomAppAcquisition.ts, common/roomHistory.ts).

  How state and operations correspond to the code. An interface is a record with the source's
  fields in the source's order; a dictionary keeps the order of its keys; an absent field is
  \<open>None\<close>. Untrusted input is a value of type \<open>js\<close> and goes through the code's own checks; input the
  code takes at its declared type has that type here. A handler is a function of the record and of
  its request, and its result says what the caller is answered (an HTTP refusal, a raised error, a
  record over the storage budget, or success) and which record is stored afterwards. A read by an id
  that is an inherited property name, such as \<open>toString\<close>, finds in JavaScript a value of
  \<open>Object.prototype\<close>; the models say in each place what that read leads to. A handler reads the clock
  once, as the argument \<open>now\<close>, where the source reads it several times in a row. Where the
  source waits in the middle of a handler and another may run (uploads, publications), the model
  has both the record the handler loaded and the one that is stored when it resumes.

  What comes from outside the repository or is random is a parameter: \<open>fits\<close> (whether the JSON text
  of the record stays within the storage budget), \<open>uuid\<close> (random ids), \<open>ntext\<close> (how a number that is
  no safe integer is printed), \<open>closes\<close> (the provider's answers), \<open>stores\<close> and \<open>sends\<close> (which sockets take
  an attachment or a frame), \<open>accepts\<close> and \<open>deletes\<close> (which storage writes succeed), \<open>url_of\<close> (the
  platform's URL parser), \<open>le\<close> (\<open>localeCompare\<close>), \<open>mediaEnabled\<close> and \<open>appsEnabled\<close> (the deployment's
  switches). A theorem that needs something of one of them assumes it by name, and has a witness
  in which the parameter is a concrete function.

  Bounds and fuel. Loops are structural recursion, folds over the loop's list, or \<open>fun\<close> with a
  termination proof; the parsers recurse on a fuel linear in the length of their input, each step of
  which consumes input, so it never runs out before the input does. The limits are the
  source's constants under their own names (100 messages, 8 attachments, 32 pending permission
  requests, 64 sockets, 64 components of a Live View).

  What the lemmas show.
    \<^item> Media: over any sequence of loads and handlers no id the provider has given out is forgotten
      before its close was confirmed (Room_Handles, by rule induction over the runs of the handlers),
      but for the published ids in two sets that are spelled out there: what a load finds without a
      grant or a track, and what an Agent unpublishes while it is pending; a cleanup round
      drops exactly what was closed; loaded grants are sound and loading is idempotent; every
      provider call allowed for an Agent lies within its purpose, its grants and its session.
    \<^item> The log: accepted messages are retained in a bounded, ordered ring; a poll reports a gap exactly
      when there is one, misses nothing and shows no foreign permission; paging ends and reads all; a resident socket is
      pushed the events in order, again only after its Agent has reported an earlier cursor, and a
      replaced socket has no power left.
    \<^item> Tasks: Tasks do not see each other; a request is not recorded again while the registry can hold
      it, and is answered in the name of its target; the registry rebuilt after a restart is the one
      that was lost, as long as every save succeeded and the ring dropped nothing; an interrupt reaches
      the very turn it names; a relayed answer records at most the one Task that both sockets wait for,
      and a prepared session gets that Task or the cancel of it.
    \<^item> Permissions and departures: one terminal event per request; an Agent that leaves leaves
      nothing behind; the alarm is in time.
    \<^item> Bytes: what was uploaded or published is read back byte for byte; every listed file is
      readable while uploads, reads and discards overlap, on the two conditions \<open>file_step\<close> states
      (findings show that they are needed); shared App state loses no update.
    \<^item> Views: what browsers are shown does not change with a token or a media id of an Agent, nor
      contains one; the timeline is a stable sort; refreshing keeps the objects the Room did not change.
    \<^item> Validators: an accepted value satisfies its declarative description, for envelopes, hosts,
      component trees and App messages.
  A few theorems record where the code does not do what it means to (a loop that saves a record
  another handler has changed meanwhile, an id that is an inherited name); they are listed as
  findings of the manifest.

  Not modelled. The browser's components and hooks (rendering, WebRTC and its timers) keep no state
  the Room depends on. The HTTP, SFU and MCP entry points route requests and call the provider; of
  them only the upload's checks are here. Diagnostics and the
  delivery of analytics observe the Room and never change it. Of the Room itself are left out: what is
  broadcast after a save, the alarms' storage sweep when a Room expires, and the dispatch of a request
  or frame to its handler.
\<close>

end
